(* ===== verification/Prelude.thy ===== *)
theory Prelude
  imports Main "HOL-Library.Word"
begin

text \<open>
  Shared vocabulary of the development: the C integer types of \<^verbatim>\<open>include/wm_type_def.h\<close>, the
  byte-array operations the firmware performs with \<^verbatim>\<open>memcpy\<close>/\<^verbatim>\<open>MEMCPY\<close>, little-endian access to
  words inside byte arrays, and the word arithmetic of address masks.

  Two views of bytes are used.  A buffer is a list of bytes; a device (the flash) is a function
  from offsets to bytes.  \<open>span\<close> reads a list out of a device, \<open>blit\<close> stores a list into it and
  \<open>overlay\<close> is \<^verbatim>\<open>memcpy\<close> into a buffer.  The \<open>bytes_simps\<close> collection carries their equations.
\<close>

unbundle bit_operations_syntax

type_synonym u8 = "8 word"
type_synonym u16 = "16 word"
type_synonym u32 = "32 word"

named_theorems bytes_simps
named_theorems mask_simps

section \<open>Reading from and storing into a device\<close>

definition span :: "(nat \<Rightarrow> 'a) \<Rightarrow> nat \<Rightarrow> nat \<Rightarrow> 'a list" where
  "span m a n = map m [a..<a + n]"

definition blit :: "(nat \<Rightarrow> 'a) \<Rightarrow> nat \<Rightarrow> 'a list \<Rightarrow> (nat \<Rightarrow> 'a)" where
  "blit m a xs = (\<lambda>x. if a \<le> x \<and> x < a + length xs then xs ! (x - a) else m x)"

definition overlay :: "'a list \<Rightarrow> nat \<Rightarrow> 'a list \<Rightarrow> 'a list" where
  "overlay xs i ys = take i xs @ ys @ drop (i + length ys) xs"

lemma length_span [simp]: "length (span m a n) = n"
  by (simp add: span_def)

lemma nth_span [simp]: "i < n \<Longrightarrow> span m a n ! i = m (a + i)"
  by (simp add: span_def)

lemma span_0 [simp]: "span m a 0 = []"
  by (simp add: span_def)

lemma span_append [bytes_simps]: "span m a n @ span m (a + n) k = span m a (n + k)"
  by (rule nth_equalityI) (auto simp: nth_append)

lemma take_span [bytes_simps]: "take k (span m a n) = span m a (min k n)"
  by (rule nth_equalityI) auto

lemma drop_span [bytes_simps]: "drop k (span m a n) = span m (a + k) (n - k)"
  by (rule nth_equalityI) (auto simp: ac_simps)

lemma span_cong: "(\<And>x. a \<le> x \<Longrightarrow> x < a + n \<Longrightarrow> m x = m' x) \<Longrightarrow> span m a n = span m' a n"
  by (simp add: span_def)

lemma blit_Nil [simp]: "blit m a [] = m"
  by (rule ext) (auto simp: blit_def)

lemma blit_apply: "blit m a xs x = (if a \<le> x \<and> x < a + length xs then xs ! (x - a) else m x)"
  by (simp add: blit_def)

lemma blit_append [bytes_simps]:
  "blit m a (xs @ ys) = blit (blit m a xs) (a + length xs) ys"
  by (auto simp: blit_def fun_eq_iff nth_append diff_diff_left)

lemma blit_own [simp]: "blit m a (span m a n) = m"
  by (auto simp: blit_def fun_eq_iff)

lemma span_blit_same [simp]: "length xs = n \<Longrightarrow> span (blit m a xs) a n = xs"
  by (rule nth_equalityI) (auto simp: blit_def)

lemma span_blit_disjoint:
  "b + n \<le> a \<or> a + length xs \<le> b \<Longrightarrow> span (blit m a xs) b n = span m b n"
  by (rule nth_equalityI) (auto simp: blit_def)

lemma blit_commute:
  "a + length xs \<le> b \<or> b + length ys \<le> a \<Longrightarrow>
   blit (blit m a xs) b ys = blit (blit m b ys) a xs"
  by (rule ext) (auto simp: blit_def)

lemma blit_blit_cover:
  "a \<le> b \<Longrightarrow> b + length ys \<le> a + length xs \<Longrightarrow> blit (blit m b ys) a xs = blit m a xs"
  by (rule ext) (auto simp: blit_def)

lemma blit_blit_same [simp]:
  "length ys = length xs \<Longrightarrow> blit (blit m a ys) a xs = blit m a xs"
  by (simp add: blit_blit_cover)

section \<open>Copying into a buffer\<close>

lemma length_overlay [simp]: "i + length ys \<le> length xs \<Longrightarrow> length (overlay xs i ys) = length xs"
  by (simp add: overlay_def)

lemma overlay_Nil [simp]: "overlay xs i [] = xs"
  by (simp add: overlay_def)

lemma overlay_all [simp]: "length ys = length xs \<Longrightarrow> overlay xs 0 ys = ys"
  by (simp add: overlay_def)

lemma nth_overlay:
  "i + length ys \<le> length xs \<Longrightarrow> k < length xs \<Longrightarrow>
   overlay xs i ys ! k = (if i \<le> k \<and> k < i + length ys then ys ! (k - i) else xs ! k)"
  by (auto simp: overlay_def nth_append min_def)

lemma take_drop_overlay [simp]:
  "i + length ys \<le> length xs \<Longrightarrow> take (length ys) (drop i (overlay xs i ys)) = ys"
  by (simp add: overlay_def)

lemma take_drop_overlay_other:
  assumes "i + length ys \<le> length xs" and "k + n \<le> length xs"
    and "i + length ys \<le> k \<or> k + n \<le> i"
  shows "take n (drop k (overlay xs i ys)) = take n (drop k xs)"
proof (rule nth_equalityI)
  show "length (take n (drop k (overlay xs i ys))) = length (take n (drop k xs))"
    using assms by simp
next
  fix j assume "j < length (take n (drop k (overlay xs i ys)))"
  then show "take n (drop k (overlay xs i ys)) ! j = take n (drop k xs) ! j"
    using assms by (auto simp: nth_overlay)
qed

text \<open>Storing back a buffer that was read from the device and patched is storing the patch.\<close>

lemma blit_overlay_span [bytes_simps]:
  "i + length ys \<le> n \<Longrightarrow> blit m a (overlay (span m a n) i ys) = blit m (a + i) ys"
  by (rule ext) (auto simp: blit_def nth_overlay)

section \<open>Little-endian words in byte buffers\<close>

definition le32 :: "u32 \<Rightarrow> u8 list" where
  "le32 w = [ucast w, ucast (drop_bit 8 w), ucast (drop_bit 16 w), ucast (drop_bit 24 w)]"

definition get32 :: "u8 list \<Rightarrow> nat \<Rightarrow> u32" where
  "get32 bs i = ucast (bs ! i) OR push_bit 8 (ucast (bs ! (i + 1)))
     OR push_bit 16 (ucast (bs ! (i + 2))) OR push_bit 24 (ucast (bs ! (i + 3)))"

definition le16 :: "u16 \<Rightarrow> u8 list" where
  "le16 w = [ucast w, ucast (drop_bit 8 w)]"

definition get16 :: "u8 list \<Rightarrow> nat \<Rightarrow> u16" where
  "get16 bs i = ucast (bs ! i) OR push_bit 8 (ucast (bs ! (i + 1)))"

lemma length_le32 [simp]: "length (le32 w) = 4"
  by (simp add: le32_def)

lemma length_le16 [simp]: "length (le16 w) = 2"
  by (simp add: le16_def)

lemma get32_le32 [simp]: "get32 (le32 w) 0 = w"
proof (rule bit_word_eqI)
  fix n assume "n < LENGTH(32)"
  then consider "n < 8" | "8 \<le> n \<and> n < 16" | "16 \<le> n \<and> n < 24" | "24 \<le> n \<and> n < 32"
    by fastforce
  then show "bit (get32 (le32 w) 0) n = bit w n"
    by cases (auto simp: get32_def le32_def bit_or_iff bit_push_bit_iff bit_ucast_iff bit_drop_bit_eq)
qed

lemma get16_le16 [simp]: "get16 (le16 w) 0 = w"
  by (rule bit_word_eqI)
    (auto simp: get16_def le16_def bit_or_iff bit_push_bit_iff bit_ucast_iff bit_drop_bit_eq)

lemma get32_append1: "i + 3 < length xs \<Longrightarrow> get32 (xs @ ys) i = get32 xs i"
  by (simp add: get32_def nth_append)

lemma get32_append2: "length xs \<le> i \<Longrightarrow> get32 (xs @ ys) i = get32 ys (i - length xs)"
  by (auto simp: get32_def nth_append add.assoc dest!: le_Suc_ex)

lemma get16_append1: "i + 1 < length xs \<Longrightarrow> get16 (xs @ ys) i = get16 xs i"
  by (simp add: get16_def nth_append)

lemma get16_append2: "length xs \<le> i \<Longrightarrow> get16 (xs @ ys) i = get16 ys (i - length xs)"
  by (auto simp: get16_def nth_append add.assoc dest!: le_Suc_ex)

lemma get32_nth: "i + 4 \<le> length bs \<Longrightarrow> get32 bs i = get32 (take 4 (drop i bs)) 0"
  by (simp add: get32_def)

lemma get16_nth: "i + 2 \<le> length bs \<Longrightarrow> get16 bs i = get16 (take 2 (drop i bs)) 0"
  by (simp add: get16_def)

lemma get32_overlay_same [simp]: "i + 4 \<le> length bs \<Longrightarrow> get32 (overlay bs i (le32 w)) i = w"
  using take_drop_overlay [of i "le32 w" bs] get32_nth [of i "overlay bs i (le32 w)"] by simp

lemma get16_overlay_same [simp]: "i + 2 \<le> length bs \<Longrightarrow> get16 (overlay bs i (le16 w)) i = w"
  using take_drop_overlay [of i "le16 w" bs] get16_nth [of i "overlay bs i (le16 w)"] by simp

lemma get32_overlay_other:
  "i + length ys \<le> length bs \<Longrightarrow> k + 4 \<le> length bs \<Longrightarrow> i + length ys \<le> k \<or> k + 4 \<le> i \<Longrightarrow>
   get32 (overlay bs i ys) k = get32 bs k"
  using take_drop_overlay_other [of i ys bs k 4] get32_nth [of k "overlay bs i ys"] get32_nth [of k bs] by simp

lemma get16_overlay_other:
  "i + length ys \<le> length bs \<Longrightarrow> k + 2 \<le> length bs \<Longrightarrow> i + length ys \<le> k \<or> k + 2 \<le> i \<Longrightarrow>
   get16 (overlay bs i ys) k = get16 bs k"
  using take_drop_overlay_other [of i ys bs k 2] get16_nth [of k "overlay bs i ys"] get16_nth [of k bs] by simp

lemma take_overlay_before: "k \<le> i \<Longrightarrow> i + length ys \<le> length bs \<Longrightarrow> take k (overlay bs i ys) = take k bs"
  by (simp add: overlay_def min_def)

section \<open>Address masks\<close>

lemma unat_and_mask [mask_simps]: "unat ((w :: 'a::len word) AND mask n) = unat w mod 2 ^ n"
  by (simp only: take_bit_eq_mask [symmetric] unsigned_take_bit_eq) (simp add: take_bit_eq_mod)

lemma mask_literals [mask_simps]:
  "(0xFF :: u32) = mask 8" "(0xFFF :: u32) = mask 12" "(0x3FF :: u32) = mask 10"
  "(0x1FFFFFF :: u32) = mask 25" "(0x7FFFFFF :: u32) = mask 27"
  by (simp_all add: mask_eq_exp_minus_1)

lemma unat_and_25 [simp]: "unat ((w :: u32) AND 0x1FFFFFF) = unat w mod 2 ^ 25"
  by (simp only: mask_literals unat_and_mask)

lemma unat_and_27 [simp]: "unat ((w :: u32) AND 0x7FFFFFF) = unat w mod 2 ^ 27"
  by (simp only: mask_literals unat_and_mask)

lemma unat_and_8 [simp]: "unat ((w :: u32) AND 0xFF) = unat w mod 2 ^ 8"
  by (simp only: mask_literals unat_and_mask)

lemma unat_and_10 [simp]: "unat ((w :: u32) AND 0x3FF) = unat w mod 2 ^ 10"
  by (simp only: mask_literals unat_and_mask)

lemma unat_of_nat_u32: "n < 2 ^ 32 \<Longrightarrow> unat (of_nat n :: u32) = n"
  by (simp add: unat_of_nat take_bit_eq_mod)

lemma mod_mod_pow25 [simp]: "(n mod 4294967296) mod 33554432 = n mod (33554432 :: nat)"
  by (simp add: mod_mod_cancel)

end
