(* ===== verification/Irq.thy ===== *)
theory Irq
  imports Prelude
begin

text \<open>
  The interrupt driver, \<^verbatim>\<open>platform/drivers/irq/wm_irq.c\<close>: its own bit mask of enabled interrupts and the interrupts enabled
  in the controller, which it only touches when its bit changes.
\<close>

record irq_state =
  irqen_status :: u32
  nvic :: "nat set"

definition tls_irq_enable :: "nat \<Rightarrow> irq_state \<Rightarrow> irq_state" where
  "tls_irq_enable vec_no s =
     (if irqen_status s AND push_bit vec_no 1 = 0
      then s\<lparr>irqen_status := irqen_status s OR push_bit vec_no 1, nvic := insert vec_no (nvic s)\<rparr> else s)"

definition tls_irq_disable :: "nat \<Rightarrow> irq_state \<Rightarrow> irq_state" where
  "tls_irq_disable vec_no s =
     (if irqen_status s AND push_bit vec_no 1 \<noteq> 0
      then s\<lparr>irqen_status := irqen_status s AND NOT (push_bit vec_no 1), nvic := nvic s - {vec_no}\<rparr> else s)"

text \<open>The mask mirrors the controller.\<close>

definition irq_inv :: "irq_state \<Rightarrow> bool" where
  "irq_inv s \<longleftrightarrow> nvic s = {n. n < 32 \<and> bit (irqen_status s) n}"

lemma irq_bit: "(w :: u32) AND push_bit n 1 = 0 \<longleftrightarrow> \<not> bit w n"
  by (simp only: and_exp_eq_0_iff_not_bit push_bit_of_1)

lemma irq_set: "n < 32 \<Longrightarrow> bit ((w :: u32) OR push_bit n 1) m \<longleftrightarrow> bit w m \<or> m = n"
  by (auto simp: bit_or_iff push_bit_of_1 bit_exp_iff)

lemma irq_clear: "bit ((w :: u32) AND NOT (push_bit n 1)) m \<longleftrightarrow> bit w m \<and> m \<noteq> n"
  by (auto simp: bit_and_iff bit_not_iff push_bit_of_1 bit_exp_iff dest: bit_imp_le_length)

lemma irq_enable_inv:
  assumes "irq_inv s" "n < 32"
  shows "irq_inv (tls_irq_enable n s) \<and> nvic (tls_irq_enable n s) = insert n (nvic s)"
  unfolding tls_irq_enable_def irq_bit using assms by (auto simp: irq_inv_def irq_set simp del: push_bit_of_1)

lemma irq_disable_inv:
  assumes "irq_inv s" "n < 32"
  shows "irq_inv (tls_irq_disable n s) \<and> nvic (tls_irq_disable n s) = nvic s - {n}"
  unfolding tls_irq_disable_def irq_bit using assms by (auto simp: irq_inv_def irq_clear simp del: push_bit_of_1)

end
