(* ===== verification/Io.thy ===== *)
theory Io
  imports Irq
begin

text \<open>
  Pin configuration, \<^verbatim>\<open>platform/drivers/io/wm_io.c\<close>.  Pins are numbered as in \<^verbatim>\<open>enum tls_io_name\<close>: 0 to 15 are port A, 16 to 47
  port B.  \<open>greg\<close> is the register file of the two ports (\<open>True\<close> is port B); the driver changes single bits of it, with
  \<open>gput\<close>.
\<close>

section \<open>Model\<close>

datatype gpio_reg = GPIO_DATA | GPIO_DIR | GPIO_PULLUP_EN | GPIO_AF_SEL | GPIO_AF_S1 | GPIO_AF_S0 | GPIO_PULLDOWN_EN
  | GPIO_IS | GPIO_IBE | GPIO_IEV | GPIO_IE | GPIO_RIS

record io_state =
  greg :: "gpio_reg \<Rightarrow> bool \<Rightarrow> u32"
  io_pa_option67 :: u32
  io_pb_option67 :: u32
  io_clocks :: "string set"

abbreviation WM_IO_PB_00 :: nat where "WM_IO_PB_00 \<equiv> 16"
abbreviation WM_IO_PB_31 :: nat where "WM_IO_PB_31 \<equiv> 47"

definition io_port :: "nat \<Rightarrow> bool" where
  "io_port name \<longleftrightarrow> WM_IO_PB_00 \<le> name"

definition io_pin :: "nat \<Rightarrow> nat" where
  "io_pin name = (if WM_IO_PB_00 \<le> name then name - WM_IO_PB_00 else name)"

definition pin_bit :: "nat \<Rightarrow> u32" where
  "pin_bit name = push_bit (io_pin name) 1"

text \<open>Read, set or clear the bit of a pin, write.\<close>

definition gput :: "gpio_reg \<Rightarrow> bool \<Rightarrow> nat \<Rightarrow> 'a io_state_scheme \<Rightarrow> 'a io_state_scheme" where
  "gput r v name s =
     (let w = greg s r (io_port name); w = (if v then w OR pin_bit name else w AND NOT (pin_bit name))
      in s\<lparr>greg := (greg s)(r := (greg s r)(io_port name := w))\<rparr>)"

definition gbit :: "gpio_reg \<Rightarrow> nat \<Rightarrow> 'a io_state_scheme \<Rightarrow> bool" where
  "gbit r name s \<longleftrightarrow> greg s r (io_port name) AND pin_bit name \<noteq> 0"

text \<open>The last two steps of every option: no pull-up, no pull-down.\<close>

definition io_floating :: "nat \<Rightarrow> 'a io_state_scheme \<Rightarrow> 'a io_state_scheme" where
  "io_floating name s = gput GPIO_PULLDOWN_EN False name (gput GPIO_PULLUP_EN True name s)"

definition io_cfg_option1 :: "nat \<Rightarrow> 'a io_state_scheme \<Rightarrow> 'a io_state_scheme" where
  "io_cfg_option1 name s =
     io_floating name (gput GPIO_AF_S0 False name (gput GPIO_AF_S1 False name (gput GPIO_AF_SEL True name s)))"

definition io_cfg_option2 :: "nat \<Rightarrow> 'a io_state_scheme \<Rightarrow> 'a io_state_scheme" where
  "io_cfg_option2 name s =
     io_floating name (gput GPIO_AF_S0 True name (gput GPIO_AF_S1 False name (gput GPIO_AF_SEL True name s)))"

definition io_cfg_option3 :: "nat \<Rightarrow> 'a io_state_scheme \<Rightarrow> 'a io_state_scheme" where
  "io_cfg_option3 name s =
     io_floating name (gput GPIO_AF_S0 False name (gput GPIO_AF_S1 True name (gput GPIO_AF_SEL True name s)))"

definition io_cfg_option4 :: "nat \<Rightarrow> 'a io_state_scheme \<Rightarrow> 'a io_state_scheme" where
  "io_cfg_option4 name s =
     io_floating name (gput GPIO_AF_S0 True name (gput GPIO_AF_S1 True name (gput GPIO_AF_SEL True name s)))"

definition io_cfg_option5 :: "nat \<Rightarrow> 'a io_state_scheme \<Rightarrow> 'a io_state_scheme" where
  "io_cfg_option5 name s = io_floating name (gput GPIO_AF_SEL False name s)"

definition io_cfg_option6 :: "nat \<Rightarrow> 'a io_state_scheme \<Rightarrow> 'a io_state_scheme" where
  "io_cfg_option6 name s =
     (let s = (if io_port name then s\<lparr>io_pb_option67 := io_pb_option67 s OR pin_bit name\<rparr>
               else s\<lparr>io_pa_option67 := io_pa_option67 s OR pin_bit name\<rparr>)
      in io_floating name (gput GPIO_DIR False name (gput GPIO_AF_SEL False name s)))"

definition io_cfg_option7 :: "nat \<Rightarrow> 'a io_state_scheme \<Rightarrow> 'a io_state_scheme" where
  "io_cfg_option7 name s =
     (let s = (if io_port name then s\<lparr>io_pb_option67 := io_pb_option67 s AND pin_bit name\<rparr>
               else s\<lparr>io_pa_option67 := io_pa_option67 s AND pin_bit name\<rparr>)
      in io_floating name (gput GPIO_DIR False name (gput GPIO_AF_SEL False name s)))"

definition tls_io_cfg_set :: "nat \<Rightarrow> nat \<Rightarrow> 'a io_state_scheme \<Rightarrow> 'a io_state_scheme" where
  "tls_io_cfg_set name option s =
     (if option = 1 then io_cfg_option1 name s
      else if option = 2 then io_cfg_option2 name s
      else if option = 3 then io_cfg_option3 name s
      else if option = 4 then io_cfg_option4 name s
      else if option = 5 then io_cfg_option5 name s
      else if option = 6 then io_cfg_option6 name s
      else if option = 7 then io_cfg_option7 name s
      else s)"

definition io_option67 :: "nat \<Rightarrow> 'a io_state_scheme \<Rightarrow> bool" where
  "io_option67 name s \<longleftrightarrow> (if io_port name then io_pb_option67 s else io_pa_option67 s) AND pin_bit name \<noteq> 0"

definition tls_io_cfg_get :: "nat \<Rightarrow> 'a io_state_scheme \<Rightarrow> nat" where
  "tls_io_cfg_get name s =
     (if gbit GPIO_AF_SEL name s
      then (if \<not> gbit GPIO_AF_S1 name s \<and> \<not> gbit GPIO_AF_S0 name s then 1
            else if \<not> gbit GPIO_AF_S1 name s \<and> gbit GPIO_AF_S0 name s then 2
            else if gbit GPIO_AF_S1 name s \<and> \<not> gbit GPIO_AF_S0 name s then 3
            else if gbit GPIO_AF_S1 name s \<and> gbit GPIO_AF_S0 name s then 4 else 0)
      else if \<not> gbit GPIO_DIR name s \<and> gbit GPIO_PULLUP_EN name s \<and> \<not> gbit GPIO_PULLDOWN_EN name s
      then (if io_option67 name s then 6 else 7)
      else 5)"

section \<open>Bits of pins\<close>

lemma pin_bit_test: "w AND pin_bit name \<noteq> 0 \<longleftrightarrow> bit w (io_pin name)"
  using irq_bit [of w "io_pin name"] by (simp add: pin_bit_def)

lemma pin_inj: "io_port m = io_port n \<Longrightarrow> io_pin m = io_pin n \<longleftrightarrow> m = n"
  by (auto simp: io_port_def io_pin_def split: if_splits)

lemma pin_less: "name \<le> WM_IO_PB_31 \<Longrightarrow> io_pin name < 32"
  by (simp add: io_pin_def) linarith

lemma gbit_gput [simp]:
  assumes "name \<le> WM_IO_PB_31"
  shows "gbit r m (gput r' v name s) = (if r = r' \<and> m = name then v else gbit r m s)"
proof (cases "r = r' \<and> io_port m = io_port name")
  case True
  have "bit ((w :: u32) OR pin_bit name) (io_pin m) \<longleftrightarrow> bit w (io_pin m) \<or> m = name"
    "bit (w AND NOT (pin_bit name)) (io_pin m) \<longleftrightarrow> bit w (io_pin m) \<and> m \<noteq> name" for w
    using irq_set [OF pin_less [OF assms], of w "io_pin m"] irq_clear [of w "io_pin name" "io_pin m"] pin_inj [of m name] True
    by (auto simp: pin_bit_def)
  then show ?thesis using True unfolding gbit_def pin_bit_test gput_def Let_def by auto
next
  case False
  then show ?thesis by (auto simp: gbit_def gput_def Let_def)
qed

lemma gput_sel [simp]:
  "io_pa_option67 (gput r v name s) = io_pa_option67 s" "io_pb_option67 (gput r v name s) = io_pb_option67 s"
  "io_clocks (gput r v name s) = io_clocks s" "io_state.more (gput r v name s) = io_state.more s"
  by (simp_all add: gput_def Let_def)

lemma gbit_update [simp]:
  "gbit r m (s\<lparr>io_pa_option67 := a\<rparr>) = gbit r m s" "gbit r m (s\<lparr>io_pb_option67 := a\<rparr>) = gbit r m s"
  "gbit r m (s\<lparr>io_clocks := c\<rparr>) = gbit r m s"
  by (simp_all add: gbit_def)

lemma option67_gput [simp]: "io_option67 m (gput r v name s) = io_option67 m s"
  by (simp add: io_option67_def)

lemmas io_cfg_defs = io_cfg_option1_def io_cfg_option2_def io_cfg_option3_def io_cfg_option4_def io_cfg_option5_def
  io_cfg_option6_def io_cfg_option7_def io_floating_def

lemma options_cases:
  obtains "option = 1" | "option = 2" | "option = 3" | "option = 4" | "option = 5" | "option = 6" | "option = 7"
  | "option \<notin> {1, 2, 3, 4, 5, 6, 7 :: nat}"
  by blast

lemma cfg_set_eqs [simp]:
  "tls_io_cfg_set name (Suc 0) s = io_cfg_option1 name s" "tls_io_cfg_set name 2 s = io_cfg_option2 name s"
  "tls_io_cfg_set name 3 s = io_cfg_option3 name s" "tls_io_cfg_set name 4 s = io_cfg_option4 name s"
  "tls_io_cfg_set name 5 s = io_cfg_option5 name s" "tls_io_cfg_set name 6 s = io_cfg_option6 name s"
  "tls_io_cfg_set name 7 s = io_cfg_option7 name s" "option \<notin> {1, 2, 3, 4, 5, 6, 7} \<Longrightarrow> tls_io_cfg_set name option s = s"
  by (simp_all add: tls_io_cfg_set_def)

lemma option67_other [simp]:
  "io_option67 m (io_cfg_option1 name s) = io_option67 m s" "io_option67 m (io_cfg_option2 name s) = io_option67 m s"
  "io_option67 m (io_cfg_option3 name s) = io_option67 m s" "io_option67 m (io_cfg_option4 name s) = io_option67 m s"
  "io_option67 m (io_cfg_option5 name s) = io_option67 m s"
  by (simp_all add: io_cfg_defs)

lemma option67_67:
  assumes "name \<le> WM_IO_PB_31"
  shows "io_option67 m (io_cfg_option6 name s) \<longleftrightarrow> io_option67 m s \<or> m = name"
    "io_option67 m (io_cfg_option7 name s) \<longleftrightarrow> io_option67 m s \<and> (m = name \<or> io_port m \<noteq> io_port name)"
proof -
  have b: "bit ((w :: u32) OR pin_bit name) (io_pin m) \<longleftrightarrow> bit w (io_pin m) \<or> m = name"
    "bit (w AND pin_bit name) (io_pin m) \<longleftrightarrow> bit w (io_pin m) \<and> m = name" if "io_port m = io_port name" for w
    using irq_set [OF pin_less [OF assms], of w "io_pin m"] pin_inj [OF that] pin_less [OF assms]
    by (auto simp: pin_bit_def bit_and_iff bit_exp_iff)
  have "io_option67 m (io_cfg_option6 name s) =
      io_option67 m (if io_port name then s\<lparr>io_pb_option67 := io_pb_option67 s OR pin_bit name\<rparr>
               else s\<lparr>io_pa_option67 := io_pa_option67 s OR pin_bit name\<rparr>)"
    by (simp add: io_cfg_option6_def io_floating_def Let_def)
  then show "io_option67 m (io_cfg_option6 name s) \<longleftrightarrow> io_option67 m s \<or> m = name"
    using b(1) by (cases "io_port m"; cases "io_port name") (auto simp: io_option67_def pin_bit_test)
  have "io_option67 m (io_cfg_option7 name s) =
      io_option67 m (if io_port name then s\<lparr>io_pb_option67 := io_pb_option67 s AND pin_bit name\<rparr>
               else s\<lparr>io_pa_option67 := io_pa_option67 s AND pin_bit name\<rparr>)"
    by (simp add: io_cfg_option7_def io_floating_def Let_def)
  then show "io_option67 m (io_cfg_option7 name s) \<longleftrightarrow> io_option67 m s \<and> (m = name \<or> io_port m \<noteq> io_port name)"
    using b(2) by (cases "io_port m"; cases "io_port name") (auto simp: io_option67_def pin_bit_test)
qed

text \<open>The registers of other pins never change.\<close>

lemma cfg_bits_other:
  assumes "name \<le> WM_IO_PB_31" "m \<noteq> name"
  shows "gbit r m (tls_io_cfg_set name option s) = gbit r m s"
proof (cases option rule: options_cases)
  case 6
  then show ?thesis using assms by (cases "io_port name") (simp_all add: io_cfg_option6_def io_floating_def Let_def)
next
  case 7
  then show ?thesis using assms by (cases "io_port name") (simp_all add: io_cfg_option7_def io_floating_def Let_def)
qed (use assms in \<open>simp_all add: io_cfg_defs\<close>)

lemma option67_set:
  assumes "name \<le> WM_IO_PB_31" "option \<noteq> 6" "option \<noteq> 7"
  shows "io_option67 m (tls_io_cfg_set name option s) = io_option67 m s"
  using assms by (cases option rule: options_cases) simp_all

section \<open>Configurations\<close>

lemma cfg_get_other:
  assumes "name \<le> WM_IO_PB_31" "m \<noteq> name" "option \<noteq> 7"
  shows "tls_io_cfg_get m (tls_io_cfg_set name option s) = tls_io_cfg_get m s"
proof -
  have "io_option67 m (tls_io_cfg_set name option s) = io_option67 m s"
    using assms option67_set [OF assms(1)] option67_67(1) [OF assms(1), of m s] by (cases "option = 6") simp_all
  then show ?thesis unfolding tls_io_cfg_get_def cfg_bits_other [OF assms(1,2)] by simp
qed

text \<open>What \<^verbatim>\<open>tls_io_cfg_get\<close> reports for a pin after it was configured.\<close>

lemma cfg_get_functions:
  assumes "name \<le> WM_IO_PB_31"
  shows "tls_io_cfg_get name (io_cfg_option1 name s) = 1" "tls_io_cfg_get name (io_cfg_option2 name s) = 2"
    "tls_io_cfg_get name (io_cfg_option3 name s) = 3" "tls_io_cfg_get name (io_cfg_option4 name s) = 4"
  unfolding tls_io_cfg_get_def io_cfg_defs using assms by simp_all

lemma cfg_get_gpio:
  assumes "name \<le> WM_IO_PB_31"
  shows "tls_io_cfg_get name (io_cfg_option5 name s) = (if gbit GPIO_DIR name s then 5 else if io_option67 name s then 6 else 7)"
  unfolding tls_io_cfg_get_def option67_other using assms by (simp add: io_cfg_option5_def io_floating_def)

lemma cfg_get_analog:
  assumes "name \<le> WM_IO_PB_31"
  shows "tls_io_cfg_get name (io_cfg_option6 name s) = 6"
    "tls_io_cfg_get name (io_cfg_option7 name s) = (if io_option67 name s then 6 else 7)"
  unfolding tls_io_cfg_get_def option67_67 [OF assms]
  using assms by (simp_all add: io_cfg_option6_def io_cfg_option7_def io_floating_def Let_def)

text \<open>
  Option 7 was meant to clear the mark of its own pin: it keeps that mark and clears those of all other pins of the port, so
  that they are reported as option 7, and a pin that was configured with option 6 before is still reported as that.
\<close>

lemma option7_wrong_pins:
  assumes "name \<le> WM_IO_PB_31" "m \<le> WM_IO_PB_31" "m \<noteq> name" "io_port m = io_port name"
  shows "tls_io_cfg_get name (tls_io_cfg_set name 7 (tls_io_cfg_set name 6 s)) = 6"
    "tls_io_cfg_get m (tls_io_cfg_set name 7 (tls_io_cfg_set m 6 s)) = 7"
proof -
  show "tls_io_cfg_get name (tls_io_cfg_set name 7 (tls_io_cfg_set name 6 s)) = 6"
    using assms by (simp add: cfg_get_analog option67_67)
  have "\<not> io_option67 m (io_cfg_option7 name (io_cfg_option6 m s))"
    using assms by (simp add: option67_67)
  moreover have "gbit r m (io_cfg_option7 name (io_cfg_option6 m s)) = gbit r m (io_cfg_option6 m s)" for r
    using cfg_bits_other [OF assms(1,3), of r 7] by simp
  ultimately show "tls_io_cfg_get m (tls_io_cfg_set name 7 (tls_io_cfg_set m 6 s)) = 7"
    unfolding cfg_set_eqs tls_io_cfg_get_def using assms(2) by (simp add: io_cfg_option6_def io_floating_def Let_def)
qed

end
