(* ===== verification/Gpio.thy ===== *)
theory Gpio
  imports Io
begin

text \<open>
  Input and output pins: the driver \<^verbatim>\<open>platform/drivers/gpio/wm_gpio.c\<close> and the runtime's \<^verbatim>\<open>app/port/luat_gpio_air101.c\<close>.

  \<open>gpio_state\<close> adds to the pins the table of interrupt callbacks of the driver, the runtime's own table, and the interrupt
  driver.  The data register is what it reads; pins that are inputs change it from outside.  The masked status
  register is the raw one restricted to enabled pins, and writing the clear register clears bits of the raw one.  The calls
  of callbacks are logged.  The runtime's table has \<^verbatim>\<open>WM_IO_PB_31\<close> entries: an access behind it is \<open>None\<close>.
\<close>

section \<open>Model\<close>

datatype gpio_callback = Luat_gpio_irq_callback | Other_callback nat

datatype gpio_call = Call_other nat nat | Call_irq nat nat nat | Call_default nat bool

record gpio_state = io_state +
  gpio_context :: "nat \<Rightarrow> (gpio_callback \<times> nat) option"
  gpio_isr_cb :: "nat \<Rightarrow> (nat \<times> nat) option"
  gpio_irqs :: irq_state
  gpio_calls :: "gpio_call list"

abbreviation GPIOA_IRQn :: nat where "GPIOA_IRQn \<equiv> 14"
abbreviation GPIOB_IRQn :: nat where "GPIOB_IRQn \<equiv> 15"

datatype gpio_dir = WM_GPIO_DIR_OUTPUT | WM_GPIO_DIR_INPUT
datatype gpio_attr = WM_GPIO_ATTR_FLOATING | WM_GPIO_ATTR_PULLHIGH | WM_GPIO_ATTR_PULLLOW
datatype gpio_trig = WM_GPIO_IRQ_TRIG_RISING_EDGE | WM_GPIO_IRQ_TRIG_FALLING_EDGE | WM_GPIO_IRQ_TRIG_DOUBLE_EDGE
  | WM_GPIO_IRQ_TRIG_HIGH_LEVEL | WM_GPIO_IRQ_TRIG_LOW_LEVEL

definition tls_gpio_cfg :: "nat \<Rightarrow> gpio_dir \<Rightarrow> gpio_attr \<Rightarrow> 'a io_state_scheme \<Rightarrow> 'a io_state_scheme" where
  "tls_gpio_cfg pin dir attr s =
     (let s = tls_io_cfg_set pin 5 s;
          s = (case dir of WM_GPIO_DIR_OUTPUT \<Rightarrow> gput GPIO_DIR True pin s | WM_GPIO_DIR_INPUT \<Rightarrow> gput GPIO_DIR False pin s)
      in case attr of
           WM_GPIO_ATTR_FLOATING \<Rightarrow> gput GPIO_PULLDOWN_EN False pin (gput GPIO_PULLUP_EN True pin s)
         | WM_GPIO_ATTR_PULLHIGH \<Rightarrow> gput GPIO_PULLDOWN_EN False pin (gput GPIO_PULLUP_EN False pin s)
         | WM_GPIO_ATTR_PULLLOW \<Rightarrow> gput GPIO_PULLDOWN_EN True pin (gput GPIO_PULLUP_EN True pin s))"

definition tls_gpio_read :: "nat \<Rightarrow> 'a io_state_scheme \<Rightarrow> nat" where
  "tls_gpio_read pin s = (if gbit GPIO_DATA pin s then 1 else 0)"

definition tls_gpio_write :: "nat \<Rightarrow> u8 \<Rightarrow> 'a io_state_scheme \<Rightarrow> 'a io_state_scheme" where
  "tls_gpio_write pin v s = gput GPIO_DATA (v \<noteq> 0) pin s"

text \<open>The pulses: the levels written, in order, computed from the register as it was at the start.\<close>

definition pulse_level :: "u8 list \<Rightarrow> nat \<Rightarrow> bool" where
  "pulse_level level i \<longleftrightarrow> level ! (i div 8) AND drop_bit (i mod 8) 0x80 \<noteq> 0"

definition tls_gpio_pulse :: "nat \<Rightarrow> u8 list \<Rightarrow> u16 \<Rightarrow> 'a io_state_scheme \<Rightarrow> u32 list \<times> 'a io_state_scheme" where
  "tls_gpio_pulse pin level len s =
     (let reg = greg s GPIO_DATA (io_port pin);
          ws = map (\<lambda>i. if pulse_level level i then reg OR pin_bit pin else reg AND NOT (pin_bit pin)) [0..<unat len]
      in (ws, if ws = [] then s
              else s\<lparr>greg := (greg s)(GPIO_DATA := (greg s GPIO_DATA)(io_port pin := last ws))\<rparr>))"

definition tls_gpio_irq_enable :: "nat \<Rightarrow> gpio_trig \<Rightarrow> 'a gpio_state_scheme \<Rightarrow> 'a gpio_state_scheme" where
  "tls_gpio_irq_enable pin mode s =
     (let s = (case mode of
                 WM_GPIO_IRQ_TRIG_RISING_EDGE \<Rightarrow>
                   gput GPIO_IEV True pin (gput GPIO_IBE False pin (gput GPIO_IS False pin s))
               | WM_GPIO_IRQ_TRIG_FALLING_EDGE \<Rightarrow>
                   gput GPIO_IEV False pin (gput GPIO_IBE False pin (gput GPIO_IS False pin s))
               | WM_GPIO_IRQ_TRIG_DOUBLE_EDGE \<Rightarrow> gput GPIO_IBE True pin (gput GPIO_IS False pin s)
               | WM_GPIO_IRQ_TRIG_HIGH_LEVEL \<Rightarrow> gput GPIO_IEV True pin (gput GPIO_IS True pin s)
               | WM_GPIO_IRQ_TRIG_LOW_LEVEL \<Rightarrow> gput GPIO_IEV False pin (gput GPIO_IS True pin s));
          s = gput GPIO_IE True pin s
      in s\<lparr>gpio_irqs := tls_irq_enable (if io_port pin then GPIOB_IRQn else GPIOA_IRQn) (gpio_irqs s)\<rparr>)"

definition tls_gpio_irq_disable :: "nat \<Rightarrow> 'a gpio_state_scheme \<Rightarrow> 'a gpio_state_scheme" where
  "tls_gpio_irq_disable pin s =
     (let s = gput GPIO_IE False pin s; reg = greg s GPIO_IE (io_port pin)
      in if io_port pin
         then (if reg = 0 then s\<lparr>gpio_irqs := tls_irq_disable GPIOB_IRQn (gpio_irqs s)\<rparr> else s)
         else (if reg AND 0xFFFF = 0 then s\<lparr>gpio_irqs := tls_irq_disable GPIOA_IRQn (gpio_irqs s)\<rparr> else s))"

definition tls_get_gpio_irq_status :: "nat \<Rightarrow> 'a io_state_scheme \<Rightarrow> bool" where
  "tls_get_gpio_irq_status pin s = gbit GPIO_RIS pin s"

definition tls_clr_gpio_irq_status :: "nat \<Rightarrow> 'a io_state_scheme \<Rightarrow> 'a io_state_scheme" where
  "tls_clr_gpio_irq_status pin s = gput GPIO_RIS False pin s"

definition tls_gpio_isr_register :: "nat \<Rightarrow> gpio_callback \<Rightarrow> nat \<Rightarrow> 'a gpio_state_scheme \<Rightarrow> 'a gpio_state_scheme" where
  "tls_gpio_isr_register pin callback arg s = s\<lparr>gpio_context := (gpio_context s)(pin \<mapsto> (callback, arg))\<rparr>"

subsection \<open>The runtime\<close>

definition isr_entry :: "nat \<Rightarrow> 'a gpio_state_scheme \<Rightarrow> (nat \<times> nat) option option" where
  "isr_entry pin s = (if pin < WM_IO_PB_31 then Some (gpio_isr_cb s pin) else None)"

definition luat_gpio_irq_callback :: "nat \<Rightarrow> 'a gpio_state_scheme \<Rightarrow> 'a gpio_state_scheme option" where
  "luat_gpio_irq_callback pin s =
     (if pin > WM_IO_PB_31 then Some s
      else if \<not> tls_get_gpio_irq_status pin s then Some s
      else Option.bind (isr_entry pin s) (\<lambda>e.
        let c = (case e of Some (cb, args) \<Rightarrow> Call_irq cb pin args | None \<Rightarrow> Call_default pin (tls_gpio_read pin s \<noteq> 0))
        in Some (tls_clr_gpio_irq_status pin (s\<lparr>gpio_calls := gpio_calls s @ [c]\<rparr>))))"

datatype luat_gpio_mode = Luat_GPIO_OUTPUT | Luat_GPIO_INPUT | Luat_GPIO_IRQ | Luat_GPIO_other_mode
datatype luat_gpio_pull = Luat_GPIO_PULLUP | Luat_GPIO_PULLDOWN | Luat_GPIO_DEFAULT
datatype luat_gpio_irq = Luat_GPIO_RISING | Luat_GPIO_FALLING | Luat_GPIO_HIGH_IRQ | Luat_GPIO_LOW_IRQ | Luat_GPIO_BOTH

record luat_gpio_t =
  lg_pin :: int
  lg_mode :: luat_gpio_mode
  lg_pull :: luat_gpio_pull
  lg_irq :: luat_gpio_irq
  lg_irq_cb :: "(nat \<times> nat) option"

definition luat_gpio_dir :: "luat_gpio_mode \<Rightarrow> gpio_dir" where
  "luat_gpio_dir m = (if m = Luat_GPIO_OUTPUT then WM_GPIO_DIR_OUTPUT else WM_GPIO_DIR_INPUT)"

definition luat_gpio_attr :: "luat_gpio_mode \<Rightarrow> luat_gpio_pull \<Rightarrow> gpio_attr" where
  "luat_gpio_attr m p =
     (if m = Luat_GPIO_INPUT \<or> m = Luat_GPIO_IRQ
      then (case p of Luat_GPIO_PULLUP \<Rightarrow> WM_GPIO_ATTR_PULLHIGH | Luat_GPIO_PULLDOWN \<Rightarrow> WM_GPIO_ATTR_PULLLOW
            | Luat_GPIO_DEFAULT \<Rightarrow> WM_GPIO_ATTR_FLOATING)
      else WM_GPIO_ATTR_FLOATING)"

definition luat_gpio_trig :: "luat_gpio_irq \<Rightarrow> gpio_trig" where
  "luat_gpio_trig i =
     (case i of Luat_GPIO_RISING \<Rightarrow> WM_GPIO_IRQ_TRIG_RISING_EDGE | Luat_GPIO_FALLING \<Rightarrow> WM_GPIO_IRQ_TRIG_FALLING_EDGE
      | Luat_GPIO_HIGH_IRQ \<Rightarrow> WM_GPIO_IRQ_TRIG_HIGH_LEVEL | Luat_GPIO_LOW_IRQ \<Rightarrow> WM_GPIO_IRQ_TRIG_LOW_LEVEL
      | Luat_GPIO_BOTH \<Rightarrow> WM_GPIO_IRQ_TRIG_DOUBLE_EDGE)"

definition luat_gpio_setup :: "luat_gpio_t \<Rightarrow> 'a gpio_state_scheme \<Rightarrow> (int \<times> 'a gpio_state_scheme) option" where
  "luat_gpio_setup g s =
     (if lg_pin g < 0 \<or> lg_pin g > int WM_IO_PB_31 then Some (0, s)
      else
        (let pin = nat (lg_pin g);
             s = tls_gpio_cfg pin (luat_gpio_dir (lg_mode g)) (luat_gpio_attr (lg_mode g) (lg_pull g)) s
         in if lg_mode g = Luat_GPIO_IRQ
            then (let s = tls_clr_gpio_irq_status pin s
                  in Option.bind
                       (case lg_irq_cb g of None \<Rightarrow> Some s
                        | Some cb \<Rightarrow> if pin < WM_IO_PB_31 then Some (s\<lparr>gpio_isr_cb := (gpio_isr_cb s)(pin \<mapsto> cb)\<rparr>) else None)
                       (\<lambda>s. Some (0, tls_gpio_irq_enable pin (luat_gpio_trig (lg_irq g))
                                        (tls_gpio_isr_register pin Luat_gpio_irq_callback pin s))))
            else Some (0, tls_gpio_irq_disable pin s)))"

definition luat_gpio_set :: "int \<Rightarrow> int \<Rightarrow> 'a gpio_state_scheme \<Rightarrow> int \<times> 'a gpio_state_scheme" where
  "luat_gpio_set pin level s =
     (if pin < 0 \<or> pin > int WM_IO_PB_31 then (0, s) else (0, tls_gpio_write (nat pin) (of_int level) s))"

definition luat_gpio_pulse :: "int \<Rightarrow> u8 list \<Rightarrow> u16 \<Rightarrow> 'a gpio_state_scheme \<Rightarrow> u32 list \<times> 'a gpio_state_scheme" where
  "luat_gpio_pulse pin level len s =
     (if pin < 0 \<or> pin > int WM_IO_PB_31 then ([], s) else tls_gpio_pulse (nat pin) level len s)"

definition luat_gpio_get :: "int \<Rightarrow> 'a gpio_state_scheme \<Rightarrow> nat" where
  "luat_gpio_get pin s = (if pin < 0 \<or> pin > int WM_IO_PB_31 then 0 else tls_gpio_read (nat pin) s)"

definition luat_gpio_close :: "int \<Rightarrow> 'a gpio_state_scheme \<Rightarrow> 'a gpio_state_scheme option" where
  "luat_gpio_close pin s =
     (if pin < 0 \<or> pin > int WM_IO_PB_31 then Some s
      else
        (let s = tls_gpio_cfg (nat pin) WM_GPIO_DIR_INPUT WM_GPIO_ATTR_FLOATING s; s = tls_gpio_irq_disable (nat pin) s
         in Option.bind (isr_entry (nat pin) s)
              (\<lambda>e. Some (if e \<noteq> None then s\<lparr>gpio_isr_cb := (gpio_isr_cb s)(nat pin := None)\<rparr> else s))))"

definition luat_gpio_irq_enable :: "int \<Rightarrow> u8 \<Rightarrow> gpio_trig \<Rightarrow> 'a gpio_state_scheme \<Rightarrow> 'a gpio_state_scheme" where
  "luat_gpio_irq_enable pin enabled irq_type s =
     (if pin < 0 \<or> pin > int WM_IO_PB_31 then s
      else if enabled \<noteq> 0 then tls_gpio_irq_enable (nat pin) irq_type s else tls_gpio_irq_disable (nat pin) s)"

definition luat_gpio_open :: "luat_gpio_t option \<Rightarrow> 'a gpio_state_scheme \<Rightarrow> (int \<times> 'a gpio_state_scheme) option" where
  "luat_gpio_open gpio s = (case gpio of None \<Rightarrow> Some (- 1, s) | Some g \<Rightarrow> luat_gpio_setup g s)"

subsection \<open>Interrupts\<close>

definition gpio_mis :: "bool \<Rightarrow> 'a io_state_scheme \<Rightarrow> u32" where
  "gpio_mis b s = greg s GPIO_RIS b AND greg s GPIO_IE b"

text \<open>The search for the first pending pin, and the call of its callback.\<close>

definition first_pending :: "nat list \<Rightarrow> u32 \<Rightarrow> nat option" where
  "first_pending names reg = find (\<lambda>i. reg AND pin_bit i \<noteq> 0) names"

definition gpio_dispatch :: "nat option \<Rightarrow> 'a gpio_state_scheme \<Rightarrow> 'a gpio_state_scheme option" where
  "gpio_dispatch found s =
     (case found of None \<Rightarrow> Some s
      | Some i \<Rightarrow> (case gpio_context s i of None \<Rightarrow> Some s
                   | Some (Luat_gpio_irq_callback, arg) \<Rightarrow> luat_gpio_irq_callback arg s
                   | Some (Other_callback f, arg) \<Rightarrow> Some (s\<lparr>gpio_calls := gpio_calls s @ [Call_other f arg]\<rparr>)))"

definition GPIOA_IRQHandler :: "'a gpio_state_scheme \<Rightarrow> 'a gpio_state_scheme option" where
  "GPIOA_IRQHandler s = gpio_dispatch (first_pending [0..<16] (gpio_mis False s)) s"

definition GPIOB_IRQHandler :: "'a gpio_state_scheme \<Rightarrow> 'a gpio_state_scheme option" where
  "GPIOB_IRQHandler s = gpio_dispatch (first_pending [16..<48] (gpio_mis True s)) s"

end
