(* ===== verification/Spi.thy ===== *)
theory Spi
  imports Gpio
begin

text \<open>
  The SPI master driver, \<^verbatim>\<open>platform/drivers/spi/wm_hostspi.c\<close> with the register access of \<^verbatim>\<open>platform/drivers/spi/wm_spi_hal.h\<close>: a queue of
  messages, each a list of transfers, worked off by a scheduler task and the transfer-done interrupt through FIFOs of 32 bytes.

  The queues are lists (\<open>Dl_List\<close> shows that the pointer operations implement them).  The current message of the driver is
  \<^verbatim>\<open>NULL\<close> or the first of the wait queue, and the current transfer \<^verbatim>\<open>NULL\<close> or the first transfer of that message, which is all
  the driver ever unlinks: \<open>current_message\<close> and \<open>current_transfer\<close> tell which.  A transfer holds the bytes to send and the contents
  of its receive buffer; a finished one is kept in \<open>m_finished\<close>, where its submitter finds what was received, and \<open>completed\<close> logs
  the messages whose completion function was called.

  The unit is a parameter: \<open>clock n big ws c\<close> clocks \<open>n\<close> bytes of the words \<open>ws\<close> of the transmit FIFO, in the byte order \<open>big\<close>, to
  a slave in state \<open>c\<close>, and returns the words of the receive FIFO; \<open>cs_off\<close> is what the slave does when it is deselected.  The peripheral clock
  of the unit, \<open>lspi_clock\<close>, is opened and closed by the operations without counting them; while it is closed the unit stands still.
\<close>

section \<open>Model\<close>

datatype trans_type = SPI_BYTE_TRANSFER | SPI_WORD_TRANSFER | SPI_DMA_TRANSFER

record spi_transfer =
  tx_buf :: "u8 list option"
  rx_buf :: "u8 list option"
  t_len :: nat

record spi_message =
  m_context :: nat
  m_transfers :: "spi_transfer list"
  m_finished :: "spi_transfer list"
  m_status :: nat

abbreviation (input) SPI_MESSAGE_STATUS_IDLE :: nat where "SPI_MESSAGE_STATUS_IDLE \<equiv> 0"
abbreviation (input) SPI_MESSAGE_STATUS_INPROGRESS :: nat where "SPI_MESSAGE_STATUS_INPROGRESS \<equiv> 1"
abbreviation (input) SPI_MESSAGE_STATUS_DONE :: nat where "SPI_MESSAGE_STATUS_DONE \<equiv> 2"

datatype sched_msg = SPI_SCHED_MSG_START_ENGINE | SPI_SCHED_MSG_TX_FIFO_READY | SPI_SCHED_MSG_RX_FIFO_READY
  | SPI_SCHED_MSG_TRANSFER_COMPLETE

record 'c spi =
  speed_hz :: u32
  cs_active :: u8
  spi_mode :: u8
  reconfig :: bool
  transtype :: trans_type
  wait_queue :: "spi_message list"
  msg_queue :: "sched_msg list option"
  current_message :: bool
  current_transfer :: bool
  current_remaining_bytes :: nat
  big_endian :: bool
  cs_high :: bool
  sclk_bits :: nat
  tx_fifo :: "u32 list"
  rx_fifo :: "u32 list"
  rx_fifo_cnt :: nat
  spi_busy :: bool
  unit_mode :: u8
  unit_sclk :: u32
  spi_int_masked :: u32
  dma_bufs :: bool
  lspi_clock :: bool
  slave :: 'c
  completed :: "spi_message list"

type_synonym 'c spi_clock = "nat \<Rightarrow> bool \<Rightarrow> u32 list \<Rightarrow> 'c \<Rightarrow> u32 list \<times> 'c"

abbreviation (input) TLS_SPI_STATUS_OK :: int where "TLS_SPI_STATUS_OK \<equiv> 0"
abbreviation (input) TLS_SPI_STATUS_EINVAL :: int where "TLS_SPI_STATUS_EINVAL \<equiv> - 1"
abbreviation (input) TLS_SPI_STATUS_ENOMEM :: int where "TLS_SPI_STATUS_ENOMEM \<equiv> - 2"
abbreviation (input) TLS_SPI_STATUS_EBUSY :: int where "TLS_SPI_STATUS_EBUSY \<equiv> - 3"
abbreviation (input) TLS_SPI_STATUS_ESHUTDOWN :: int where "TLS_SPI_STATUS_ESHUTDOWN \<equiv> - 4"
abbreviation (input) TLS_SPI_STATUS_EPERM :: int where "TLS_SPI_STATUS_EPERM \<equiv> - 5"
abbreviation (input) TLS_SPI_STATUS_ECLKNOSUPPORT :: int where "TLS_SPI_STATUS_ECLKNOSUPPORT \<equiv> - 6"
abbreviation (input) TLS_SPI_STATUS_EMODENOSUPPORT :: int where "TLS_SPI_STATUS_EMODENOSUPPORT \<equiv> - 7"
abbreviation (input) SPI_INT_TRANSFER_DONE :: u32 where "SPI_INT_TRANSFER_DONE \<equiv> push_bit 6 1"
abbreviation (input) SPI_INT_RX_FIFO_RDY :: u32 where "SPI_INT_RX_FIFO_RDY \<equiv> push_bit 1 1"
abbreviation (input) SPI_INT_TX_FIFO_RDY :: u32 where "SPI_INT_TX_FIFO_RDY \<equiv> push_bit 0 1"

subsection \<open>Registers\<close>

definition spi_set_chipselect_mode :: "('c \<Rightarrow> 'c) \<Rightarrow> u8 \<Rightarrow> 'c spi \<Rightarrow> 'c spi" where
  "spi_set_chipselect_mode cs_off m s =
     (if m = 0 then s\<lparr>cs_high := False\<rparr>
      else if m = 1 then s\<lparr>cs_high := True, slave := (if cs_high s then slave s else cs_off (slave s))\<rparr>
      else s)"

definition spi_set_endian :: "u8 \<Rightarrow> 'c spi \<Rightarrow> 'c spi" where
  "spi_set_endian endian s =
     (if endian = 0 then s\<lparr>big_endian := False\<rparr> else if endian = 1 then s\<lparr>big_endian := True\<rparr> else s)"

definition spi_set_mode :: "u8 \<Rightarrow> 'c spi \<Rightarrow> 'c spi" where
  "spi_set_mode m s = (if m \<le> 3 then s\<lparr>unit_mode := m\<rparr> else s)"

text \<open>The divider of the clock, from the frequency \<open>apb\<close> of the bus in MHz; the unit has 16 bits for it.\<close>

definition spi_set_sclk :: "u32 \<Rightarrow> u32 \<Rightarrow> 'c spi \<Rightarrow> 'c spi" where
  "spi_set_sclk apb fclk s =
     s\<lparr>unit_sclk := unit_sclk s AND NOT 0xffff OR (apb * 1000000 div (fclk * 2) - 1)\<rparr>"

definition spi_set_sclk_length :: "nat \<Rightarrow> 'c spi \<Rightarrow> 'c spi" where
  "spi_set_sclk_length n s = s\<lparr>sclk_bits := n mod 2 ^ 16\<rparr>"

definition spi_sclk_start :: "'c spi \<Rightarrow> 'c spi" where
  "spi_sclk_start s = s\<lparr>spi_busy := True\<rparr>"

text \<open>The unit, once started: the clocked bytes are exchanged with the slave.\<close>

definition spi_unit_run :: "'c spi_clock \<Rightarrow> 'c spi \<Rightarrow> 'c spi" where
  "spi_unit_run clock s =
     (let n = sclk_bits s div 8; (ws, c) = clock n (big_endian s) (tx_fifo s) (slave s)
      in s\<lparr>tx_fifo := drop ((n + 3) div 4) (tx_fifo s), rx_fifo := rx_fifo s @ ws, rx_fifo_cnt := rx_fifo_cnt s + n,
           spi_busy := False, slave := c\<rparr>)"

subsection \<open>FIFOs\<close>

text \<open>A word of the FIFO from up to four bytes, and the bytes of such a word.\<close>

fun put_bytes :: "bool \<Rightarrow> nat \<Rightarrow> u8 list \<Rightarrow> u32" where
  "put_bytes big i [] = 0"
| "put_bytes big i (b # bs) = push_bit (if big then (3 - i) * 8 else i * 8) (ucast b) OR put_bytes big (Suc i) bs"

definition put_word :: "bool \<Rightarrow> u8 list \<Rightarrow> u32" where
  "put_word big bs = put_bytes big 0 bs"

definition get_word :: "bool \<Rightarrow> nat \<Rightarrow> u32 \<Rightarrow> u8 list" where
  "get_word big n w = map (\<lambda>i. ucast (drop_bit (if big then (3 - i) * 8 else i * 8) w)) [0..<n]"

text \<open>
  \<^verbatim>\<open>spi_fill_txfifo\<close>: as many bytes as fit, four to a word, most significant first in byte mode and least significant first
  in word mode; without a transmit buffer the bytes are \<^verbatim>\<open>0xff\<close>.
\<close>

definition fifo_word :: "trans_type \<Rightarrow> u8 list \<Rightarrow> u32" where
  "fifo_word ty bs =
     (case ty of SPI_BYTE_TRANSFER \<Rightarrow> put_word True bs | SPI_WORD_TRANSFER \<Rightarrow> put_word False bs | SPI_DMA_TRANSFER \<Rightarrow> 0)"

fun fifo_words :: "(u8 list \<Rightarrow> u32) \<Rightarrow> u8 list \<Rightarrow> u32 list" where
  "fifo_words f (a # b # c # d # bs) = f [a, b, c, d] # fifo_words f bs"
| "fifo_words f [] = []"
| "fifo_words f bs = [f bs]"

definition tx_words :: "trans_type \<Rightarrow> u8 list option \<Rightarrow> nat \<Rightarrow> nat \<Rightarrow> u32 list" where
  "tx_words ty buf pos n =
     (case buf of Some bs \<Rightarrow> fifo_words (fifo_word ty) (take n (drop pos bs))
      | None \<Rightarrow> replicate (n div 4) 0xffffffff @ (if n mod 4 = 0 then [] else [fifo_word ty (replicate (n mod 4) 0xff)]))"

definition spi_fill_txfifo :: "spi_transfer option \<Rightarrow> nat \<Rightarrow> 'c spi \<Rightarrow> nat \<times> 'c spi" where
  "spi_fill_txfifo t remaining s =
     (case t of None \<Rightarrow> (0, s)
      | Some t \<Rightarrow>
          if remaining = 0 then (0, s)
          else (let fifo_level = 32 - 4 * length (tx_fifo s); n = min fifo_level remaining
                in (n, s\<lparr>tx_fifo := tx_fifo s @ tx_words (transtype s) (tx_buf t) (t_len t - remaining) n\<rparr>)))"

text \<open>\<^verbatim>\<open>spi_get_rxfifo\<close>: what the receive FIFO holds goes to the receive buffer.\<close>

fun rx_bytes :: "bool \<Rightarrow> nat \<Rightarrow> u32 list \<Rightarrow> u8 list" where
  "rx_bytes big n [] = []"
| "rx_bytes big n (w # ws) = get_word big (min n 4) w @ rx_bytes big (n - 4) ws"

definition rx_store :: "trans_type \<Rightarrow> nat \<Rightarrow> u32 list \<Rightarrow> nat \<Rightarrow> u8 list \<Rightarrow> u8 list" where
  "rx_store ty n ws pos buf =
     (case ty of SPI_BYTE_TRANSFER \<Rightarrow> overlay buf pos (rx_bytes True n ws)
      | SPI_WORD_TRANSFER \<Rightarrow> overlay buf pos (rx_bytes False n ws)
      | SPI_DMA_TRANSFER \<Rightarrow> overlay buf (pos + 4 * (n div 4)) (replicate (n mod 4) 0))"

definition spi_get_rxfifo :: "spi_transfer \<Rightarrow> nat \<Rightarrow> 'c spi \<Rightarrow> nat \<times> spi_transfer \<times> 'c spi" where
  "spi_get_rxfifo t remaining s =
     (if remaining = 0 then (0, t, s)
      else
        (let n = rx_fifo_cnt s; k = (n + 3) div 4
         in (n, t\<lparr>rx_buf := map_option (rx_store (transtype s) n (take k (rx_fifo s)) (t_len t - remaining)) (rx_buf t)\<rparr>,
             s\<lparr>rx_fifo := drop k (rx_fifo s), rx_fifo_cnt := 0\<rparr>)))"

subsection \<open>The scheduler\<close>

definition first_transfer :: "'c spi \<Rightarrow> spi_transfer option" where
  "first_transfer s =
     (if current_message s \<and> current_transfer s
      then (case wait_queue s of m # _ \<Rightarrow> (case m_transfers m of t # _ \<Rightarrow> Some t | [] \<Rightarrow> None) | [] \<Rightarrow> None) else None)"

text \<open>\<^verbatim>\<open>spi_port->current_message = spi_next_message()\<close>, which sets the current transfer as well.\<close>

definition spi_next_message :: "'c spi \<Rightarrow> 'c spi" where
  "spi_next_message s =
     (case wait_queue s of [] \<Rightarrow> s\<lparr>current_message := False\<rparr>
      | m # ms \<Rightarrow> s\<lparr>current_message := True, current_transfer := m_transfers m \<noteq> [],
                   wait_queue := m\<lparr>m_status := SPI_MESSAGE_STATUS_INPROGRESS\<rparr> # ms\<rparr>)"

definition spi_start_transfer :: "('c \<Rightarrow> 'c) \<Rightarrow> u32 \<Rightarrow> nat \<Rightarrow> 'c spi \<Rightarrow> 'c spi" where
  "spi_start_transfer cs_off apb transfer_bytes s =
     (let s = (if reconfig s
               then (let s = spi_set_mode (spi_mode s) s; s = spi_set_chipselect_mode cs_off (cs_active s) s;
                         s = spi_set_sclk apb (speed_hz s) s
                     in s\<lparr>reconfig := False\<rparr>)
               else s);
          s = spi_set_sclk_length (transfer_bytes * 8) s;
          s = spi_set_chipselect_mode cs_off 0 s
      in spi_sclk_start s)"

text \<open>The end of a transfer: it is unlinked, and with the last of a message the slave is deselected and the next message begins.\<close>

definition transfer_end :: "('c \<Rightarrow> 'c) \<Rightarrow> spi_transfer \<Rightarrow> 'c spi \<Rightarrow> spi_message option \<times> 'c spi" where
  "transfer_end cs_off t s =
     (case wait_queue s of [] \<Rightarrow> (None, s)
      | m # ms \<Rightarrow>
          (let m = m\<lparr>m_transfers := tl (m_transfers m), m_finished := m_finished m @ [t]\<rparr>;
               s = s\<lparr>wait_queue := m # ms, current_transfer := m_transfers m \<noteq> []\<rparr>;
               (fin, s) = (if \<not> current_transfer s
                           then (Some (m\<lparr>m_status := SPI_MESSAGE_STATUS_DONE\<rparr>),
                                 spi_next_message ((spi_set_chipselect_mode cs_off 1 s)\<lparr>wait_queue := ms\<rparr>))
                           else (None, s))
           in (fin, case first_transfer s of Some t \<Rightarrow> s\<lparr>current_remaining_bytes := t_len t\<rparr> | None \<Rightarrow> s)))"

definition put_transfer :: "spi_transfer \<Rightarrow> 'c spi \<Rightarrow> 'c spi" where
  "put_transfer t s =
     (case wait_queue s of [] \<Rightarrow> s | m # ms \<Rightarrow> s\<lparr>wait_queue := m\<lparr>m_transfers := t # tl (m_transfers m)\<rparr> # ms\<rparr>)"

definition spi_continue_transfer :: "('c \<Rightarrow> 'c) \<Rightarrow> u32 \<Rightarrow> 'c spi \<Rightarrow> 'c spi" where
  "spi_continue_transfer cs_off apb s =
     (case first_transfer s of None \<Rightarrow> s
      | Some t \<Rightarrow>
          (let (n, t, s) = spi_get_rxfifo t (current_remaining_bytes s) s;
               s = put_transfer t s;
               s = s\<lparr>current_remaining_bytes := current_remaining_bytes s - n\<rparr>;
               (fin, s) = (if current_remaining_bytes s = 0 then transfer_end cs_off t s else (None, s));
               (k, s) = spi_fill_txfifo (first_transfer s) (current_remaining_bytes s) s;
               s = (if k \<noteq> 0 then spi_start_transfer cs_off apb k s else s)
           in case fin of Some m \<Rightarrow> s\<lparr>completed := completed s @ [m]\<rparr> | None \<Rightarrow> s))"

definition start_engine :: "('c \<Rightarrow> 'c) \<Rightarrow> u32 \<Rightarrow> 'c spi \<Rightarrow> 'c spi" where
  "start_engine cs_off apb s =
     (if current_message s then s
      else
        (let s = spi_next_message s
         in case first_transfer s of None \<Rightarrow> s
            | Some t \<Rightarrow>
                (let s = s\<lparr>current_remaining_bytes := t_len t\<rparr>; (n, s) = spi_fill_txfifo (Some t) (t_len t) s
                 in spi_start_transfer cs_off apb n s)))"

text \<open>One round of the scheduler task on the first message of its queue.\<close>

definition spi_scheduler :: "('c \<Rightarrow> 'c) \<Rightarrow> u32 \<Rightarrow> 'c spi \<Rightarrow> 'c spi" where
  "spi_scheduler cs_off apb s =
     (case msg_queue s of Some (m # ms) \<Rightarrow>
        (let s = s\<lparr>msg_queue := Some ms\<rparr>
         in case m of SPI_SCHED_MSG_START_ENGINE \<Rightarrow> start_engine cs_off apb s
            | SPI_SCHED_MSG_TRANSFER_COMPLETE \<Rightarrow> spi_continue_transfer cs_off apb s
            | _ \<Rightarrow> s)
      | _ \<Rightarrow> s)"

text \<open>
  The task and its queue of eight entries are created with the first message that is sent; \<open>ok\<close> tells whether that succeeds.  A
  message to a full queue is lost.
\<close>

definition tls_spi_task_init :: "bool \<Rightarrow> 'c spi \<Rightarrow> int \<times> 'c spi" where
  "tls_spi_task_init ok s =
     (case msg_queue s of Some _ \<Rightarrow> (TLS_SPI_STATUS_OK, s)
      | None \<Rightarrow> if ok then (TLS_SPI_STATUS_OK, s\<lparr>msg_queue := Some []\<rparr>) else (TLS_SPI_STATUS_ENOMEM, s))"

definition tls_spi_queue_send :: "bool \<Rightarrow> sched_msg \<Rightarrow> 'c spi \<Rightarrow> 'c spi" where
  "tls_spi_queue_send ok msg s =
     (let (r, s) = tls_spi_task_init ok s
      in if r = TLS_SPI_STATUS_OK
         then s\<lparr>msg_queue := map_option (\<lambda>q. if length q < 8 then q @ [msg] else q) (msg_queue s)\<rparr> else s)"

definition SPI_LS_IRQHandler :: "bool \<Rightarrow> ('c \<Rightarrow> 'c) \<Rightarrow> u32 \<Rightarrow> u32 \<Rightarrow> 'c spi \<Rightarrow> 'c spi" where
  "SPI_LS_IRQHandler ok cs_off apb status s =
     (let st = status AND NOT (spi_int_masked s AND 0xff);
          s = (if st AND SPI_INT_TX_FIFO_RDY \<noteq> 0 then tls_spi_queue_send ok SPI_SCHED_MSG_TX_FIFO_READY s else s);
          s = (if st AND SPI_INT_RX_FIFO_RDY \<noteq> 0 then tls_spi_queue_send ok SPI_SCHED_MSG_RX_FIFO_READY s else s)
      in if st AND SPI_INT_TRANSFER_DONE \<noteq> 0
         then (if transtype s = SPI_WORD_TRANSFER then spi_continue_transfer cs_off apb s
               else tls_spi_queue_send ok SPI_SCHED_MSG_TRANSFER_COMPLETE s)
         else s)"

subsection \<open>Operations\<close>

definition tls_spi_async :: "bool \<Rightarrow> spi_message option \<Rightarrow> 'c spi option \<Rightarrow> int \<times> 'c spi option" where
  "tls_spi_async ok msg port =
     (case port of None \<Rightarrow> (TLS_SPI_STATUS_ESHUTDOWN, port)
      | Some s \<Rightarrow>
          (case msg of None \<Rightarrow> (TLS_SPI_STATUS_EINVAL, port)
           | Some m \<Rightarrow>
               if m_transfers m = [] then (TLS_SPI_STATUS_EINVAL, port)
               else if list_ex (\<lambda>t. t_len t = 0) (m_transfers m) then (TLS_SPI_STATUS_EINVAL, port)
               else
                 (let need_sched = wait_queue s = [];
                      s = s\<lparr>wait_queue := wait_queue s @ [m\<lparr>m_status := SPI_MESSAGE_STATUS_IDLE\<rparr>]\<rparr>
                  in (TLS_SPI_STATUS_OK, Some (if need_sched then tls_spi_queue_send ok SPI_SCHED_MSG_START_ENGINE s else s)))))"

text \<open>
  Switching the transfer type; \<^verbatim>\<open>SpiMasterInit\<close> for DMA configures the unit and allocates its buffers, with the outcome \<open>ok\<close>.
\<close>

definition SpiMasterInit :: "bool \<Rightarrow> u32 \<Rightarrow> u8 \<Rightarrow> u32 \<Rightarrow> 'c spi \<Rightarrow> 'c spi" where
  "SpiMasterInit ok apb m fclk s =
     s\<lparr>tx_fifo := [], rx_fifo := [], rx_fifo_cnt := 0, unit_sclk := apb * 1000000 div (fclk * 2) - 1, unit_mode := m,
       big_endian := False, spi_int_masked := 0xff, dma_bufs := dma_bufs s \<or> ok\<rparr>"

definition tls_spi_trans_type :: "bool \<Rightarrow> u32 \<Rightarrow> trans_type \<Rightarrow> 'c spi \<Rightarrow> 'c spi" where
  "tls_spi_trans_type ok apb ty s =
     (let s = s\<lparr>transtype := ty\<rparr>
      in case ty of SPI_WORD_TRANSFER \<Rightarrow> spi_set_endian 0 s
         | SPI_DMA_TRANSFER \<Rightarrow> SpiMasterInit ok apb (spi_mode s) (speed_hz s) s
         | SPI_BYTE_TRANSFER \<Rightarrow> s)"

definition tls_spi_setup :: "bool \<Rightarrow> u32 \<Rightarrow> u8 \<Rightarrow> u8 \<Rightarrow> u32 \<Rightarrow> 'c spi \<Rightarrow> int \<times> 'c spi" where
  "tls_spi_setup ok apb m cs fclk s =
     (if spi_mode s = m \<and> cs_active s = cs \<and> speed_hz s = fclk then (TLS_SPI_STATUS_OK, s)
      else if \<not> m \<le> 3 then (TLS_SPI_STATUS_EMODENOSUPPORT, s)
      else
        (let s = s\<lparr>spi_mode := m\<rparr>
         in if cs \<noteq> 1 \<and> cs \<noteq> 0 then (TLS_SPI_STATUS_EINVAL, s)
            else
              (let s = s\<lparr>cs_active := cs\<rparr>
               in if fclk < 1000 \<or> fclk > apb * 1000000 div 2 then (TLS_SPI_STATUS_ECLKNOSUPPORT, s)
                  else
                    (let s = s\<lparr>speed_hz := fclk\<rparr>
                     in if transtype s = SPI_DMA_TRANSFER then (TLS_SPI_STATUS_OK, SpiMasterInit ok apb m fclk s)
                        else (TLS_SPI_STATUS_OK, s\<lparr>reconfig := True\<rparr>)))))"

definition tls_spi_set_speed :: "bool \<Rightarrow> u32 \<Rightarrow> u32 \<Rightarrow> 'c spi \<Rightarrow> int \<times> 'c spi" where
  "tls_spi_set_speed ok apb fclk s =
     (if speed_hz s = fclk then (0, s)
      else if fclk < 1000 \<or> fclk > apb * 1000000 div 2 then (TLS_SPI_STATUS_ECLKNOSUPPORT, s)
      else
        (let s = s\<lparr>speed_hz := fclk\<rparr>
         in if transtype s = SPI_DMA_TRANSFER then (TLS_SPI_STATUS_OK, SpiMasterInit ok apb (spi_mode s) fclk s)
            else (TLS_SPI_STATUS_OK, s\<lparr>reconfig := True\<rparr>)))"

text \<open>
  Initialisation; \<open>mem\<close> and \<open>sem\<close> are the outcomes of the allocation and of the creation of the lock, \<open>hw\<close> the unit and the slave
  as they are found.
\<close>

definition tls_spi_init :: "bool \<Rightarrow> bool \<Rightarrow> ('c \<Rightarrow> 'c) \<Rightarrow> u32 \<Rightarrow> 'c spi \<Rightarrow> 'c spi option \<Rightarrow> int \<times> 'c spi option" where
  "tls_spi_init mem sem cs_off apb hw port =
     (case port of Some _ \<Rightarrow> (TLS_SPI_STATUS_EBUSY, port)
      | None \<Rightarrow>
          if \<not> mem then (TLS_SPI_STATUS_ENOMEM, None)
          else if \<not> sem then (TLS_SPI_STATUS_ENOMEM, None)
          else
            (let s = hw\<lparr>speed_hz := 2000000, cs_active := 0, spi_mode := 0, reconfig := False, transtype := SPI_BYTE_TRANSFER,
                        wait_queue := [], msg_queue := None, current_message := False, current_transfer := False,
                        current_remaining_bytes := 0, lspi_clock := True, tx_fifo := [], rx_fifo := [], rx_fifo_cnt := 0\<rparr>;
                 s = spi_set_endian 1 s;
                 s = tls_spi_trans_type True apb SPI_BYTE_TRANSFER s;
                 s = spi_set_mode (spi_mode s) s;
                 s = spi_set_chipselect_mode cs_off 1 s;
                 s = spi_set_sclk apb (speed_hz s) s
             in (TLS_SPI_STATUS_OK, Some (s\<lparr>spi_int_masked := spi_int_masked s AND NOT SPI_INT_TRANSFER_DONE, lspi_clock := False\<rparr>))))"

subsection \<open>Synchronous operations\<close>

text \<open>One round of work: the unit finishes and interrupts, or else the task takes a message from its queue.  Without its clock the unit stands
  still, and the round is left out: a transfer that the task starts then would not end.\<close>

definition spi_work :: "'c spi_clock \<Rightarrow> ('c \<Rightarrow> 'c) \<Rightarrow> u32 \<Rightarrow> 'c spi \<Rightarrow> 'c spi" where
  "spi_work clock cs_off apb s =
     (if \<not> lspi_clock s then s
      else if spi_busy s then SPI_LS_IRQHandler True cs_off apb SPI_INT_TRANSFER_DONE (spi_unit_run clock s)
      else spi_scheduler cs_off apb s)"

text \<open>The wait for the semaphore \<open>sem\<close> that the completion of the message releases; \<open>None\<close> when that never happens.\<close>

partial_function (option) spi_wait :: "'c spi_clock \<Rightarrow> ('c \<Rightarrow> 'c) \<Rightarrow> u32 \<Rightarrow> nat \<Rightarrow> 'c spi \<Rightarrow> 'c spi option" where
  "spi_wait clock cs_off apb sem s =
     (if sem \<in> set (map m_context (completed s)) then Some s else spi_wait clock cs_off apb sem (spi_work clock cs_off apb s))"

text \<open>\<open>sem\<close> is the new semaphore, \<open>None\<close> if it cannot be created.  The clock is opened for the time of the transfer and closed afterwards,
  whatever else is queued.\<close>

definition tls_spi_sync ::
  "'c spi_clock \<Rightarrow> ('c \<Rightarrow> 'c) \<Rightarrow> u32 \<Rightarrow> nat option \<Rightarrow> spi_transfer list \<Rightarrow> 'c spi option \<Rightarrow> (int \<times> 'c spi option) option" where
  "tls_spi_sync clock cs_off apb sem ts port =
     (case sem of None \<Rightarrow> Some (TLS_SPI_STATUS_ENOMEM, port)
      | Some sem \<Rightarrow>
          (let m = \<lparr>m_context = sem, m_transfers = ts, m_finished = [], m_status = 0\<rparr>;
               (status, port) = tls_spi_async True (Some m) (map_option (\<lambda>s. s\<lparr>lspi_clock := True\<rparr>) port)
           in case port of None \<Rightarrow> Some (status, None)
              | Some s \<Rightarrow> if status = TLS_SPI_STATUS_OK
                          then map_option (\<lambda>s. (status, Some (s\<lparr>lspi_clock := False\<rparr>))) (spi_wait clock cs_off apb sem s)
                          else Some (status, Some (s\<lparr>lspi_clock := False\<rparr>))))"

text \<open>What the receive buffers of a completed message hold.\<close>

definition spi_reply :: "nat option \<Rightarrow> 'c spi option \<Rightarrow> u8 list" where
  "spi_reply sem port =
     (case (sem, port) of (Some sem, Some s) \<Rightarrow>
        (case find (\<lambda>m. m_context m = sem) (completed s) of None \<Rightarrow> []
         | Some m \<Rightarrow> concat (map (\<lambda>t. case rx_buf t of Some b \<Rightarrow> b | None \<Rightarrow> []) (m_finished m)))
      | _ \<Rightarrow> [])"

subsection \<open>DMA transfers\<close>

text \<open>
  With DMA the bytes of a block are exchanged with the slave in the order of memory: \<open>line bs c\<close>.  Lengths beyond whole words go
  through the FIFO.  The unit and the DMA channel are taken to finish in time.
\<close>

abbreviation (input) SPI_DMA_MAX_TRANS_SIZE :: nat where "SPI_DMA_MAX_TRANS_SIZE \<equiv> 4092"
abbreviation (input) SPI_DMA_BUF_MAX_SIZE :: nat where "SPI_DMA_BUF_MAX_SIZE \<equiv> 8160"
abbreviation (input) SPI_DMA_CMD_MAX_SIZE :: nat where "SPI_DMA_CMD_MAX_SIZE \<equiv> 32"

type_synonym 'c spi_line = "u8 list \<Rightarrow> 'c \<Rightarrow> u8 list \<times> 'c"

fun dma_write :: "'c spi_line \<Rightarrow> u8 list \<Rightarrow> nat \<Rightarrow> nat \<Rightarrow> nat \<Rightarrow> 'c \<Rightarrow> 'c" where
  "dma_write line data txlen i 0 c = c"
| "dma_write line data txlen i (Suc k) c =
     (let blocksize = (if txlen > SPI_DMA_MAX_TRANS_SIZE then SPI_DMA_MAX_TRANS_SIZE else txlen)
      in if blocksize = 0 then c
         else dma_write line data (txlen - blocksize) (Suc i) k
                (snd (line (take blocksize (drop (i * SPI_DMA_MAX_TRANS_SIZE) data)) c)))"

text \<open>\<^verbatim>\<open>SpiDmaBlockWrite\<close> as it is called, without a command word.\<close>

definition SpiDmaBlockWrite :: "'c spi_line \<Rightarrow> u8 list \<Rightarrow> 'c \<Rightarrow> 'c" where
  "SpiDmaBlockWrite line data c =
     (let len = length data; txlen = len - len mod 4;
          c = (if txlen > 0 then dma_write line data txlen 0 (txlen div SPI_DMA_MAX_TRANS_SIZE + 1) c else c)
      in if len > txlen then snd (line (drop txlen data) c) else c)"

fun dma_read :: "'c spi_line \<Rightarrow> nat \<Rightarrow> nat \<Rightarrow> u8 list \<Rightarrow> nat \<Rightarrow> nat \<Rightarrow> nat \<Rightarrow> nat \<Rightarrow> u8 list \<times> u8 list \<times> 'c \<Rightarrow>
    u8 list \<times> u8 list \<times> 'c" where
  "dma_read line len bk tx blocknum rxlen i 0 r = r"
| "dma_read line len bk tx blocknum rxlen i (Suc k) (data, fifo, c) =
     (let blocksize = (if rxlen > SPI_DMA_MAX_TRANS_SIZE then SPI_DMA_MAX_TRANS_SIZE else rxlen)
      in if bk > 0 \<and> blocksize = 0 then (data, fifo, c)
         else
           (let n = (if blocknum = 0 then len else if i = 0 then blocksize else if i = blocknum then blocksize + (len - bk) else blocksize);
                pre = (if i = 0 then tx else []);
                (rs, c) = line (pre @ replicate n 0xff) c; rs = drop (length pre) rs
            in dma_read line len bk tx blocknum (rxlen - blocksize) (Suc i) k (data @ take blocksize rs, fifo @ drop blocksize rs, c)))"

text \<open>\<open>stale\<close> is what the receive register holds when its FIFO is empty.\<close>

definition SpiDmaBlockRead :: "'c spi_line \<Rightarrow> u8 list \<Rightarrow> nat \<Rightarrow> u8 list \<Rightarrow> 'c \<Rightarrow> u8 list \<times> 'c" where
  "SpiDmaBlockRead line stale len tx c =
     (let rxlen = len - len mod 4; blocknum = rxlen div SPI_DMA_MAX_TRANS_SIZE;
          (data, fifo, c) = dma_read line len rxlen tx blocknum rxlen 0 (blocknum + 1) ([], [], c)
      in (data @ (if len > rxlen then take (len - rxlen) (if fifo = [] then stale else fifo) else []), c))"

text \<open>A block exchanged with the slave selected, and the clock open, for its time only.\<close>

definition dma_session :: "('c \<Rightarrow> 'c) \<Rightarrow> ('c \<Rightarrow> 'r \<times> 'c) \<Rightarrow> 'c spi \<Rightarrow> 'r \<times> 'c spi" where
  "dma_session cs_off f s = (let (r, c) = f (slave s) in (r, s\<lparr>slave := cs_off c, lspi_clock := False\<rparr>))"

text \<open>
  The operations return the status, the bytes received and the port; \<open>None\<close> when a buffer is overrun or the message is never
  completed.  A missing buffer is \<open>None\<close>.
\<close>

definition tls_spi_write ::
  "'c spi_clock \<Rightarrow> 'c spi_line \<Rightarrow> ('c \<Rightarrow> 'c) \<Rightarrow> u32 \<Rightarrow> nat option \<Rightarrow> u8 list option \<Rightarrow> 'c spi \<Rightarrow> (int \<times> 'c spi) option" where
  "tls_spi_write clock line cs_off apb sem buf s =
     (case buf of None \<Rightarrow> Some (TLS_SPI_STATUS_EINVAL, s)
      | Some bs \<Rightarrow>
          if bs = [] then Some (TLS_SPI_STATUS_EINVAL, s)
          else if transtype s = SPI_DMA_TRANSFER
          then (if length bs \<le> 4 then Some (TLS_SPI_STATUS_OK, snd (dma_session cs_off (line bs) s))
                else if length bs > SPI_DMA_BUF_MAX_SIZE then Some (TLS_SPI_STATUS_EINVAL, s\<lparr>lspi_clock := False\<rparr>)
                else if dma_bufs s then Some (TLS_SPI_STATUS_OK, snd (dma_session cs_off (\<lambda>c. ((), SpiDmaBlockWrite line bs c)) s))
                else Some (TLS_SPI_STATUS_ENOMEM, s\<lparr>lspi_clock := False\<rparr>))
          else map_option (\<lambda>(st, port). (st, case port of Some s \<Rightarrow> s | None \<Rightarrow> s))
                 (tls_spi_sync clock cs_off apb sem [\<lparr>tx_buf = Some bs, rx_buf = None, t_len = length bs\<rparr>] (Some s)))"

definition tls_spi_read ::
  "'c spi_clock \<Rightarrow> 'c spi_line \<Rightarrow> ('c \<Rightarrow> 'c) \<Rightarrow> u32 \<Rightarrow> nat option \<Rightarrow> u8 list \<Rightarrow> u8 list option \<Rightarrow> 'c spi \<Rightarrow>
   (int \<times> u8 list \<times> 'c spi) option" where
  "tls_spi_read clock line cs_off apb sem stale buf s =
     (case buf of None \<Rightarrow> Some (TLS_SPI_STATUS_EINVAL, [], s)
      | Some bs \<Rightarrow>
          if bs = [] then Some (TLS_SPI_STATUS_EINVAL, [], s)
          else if transtype s = SPI_DMA_TRANSFER
          then (if length bs \<le> 4
                then (let (rs, s) = dma_session cs_off (line (replicate (length bs) 0xff)) s in Some (TLS_SPI_STATUS_OK, rs, s))
                else if length bs > SPI_DMA_BUF_MAX_SIZE then Some (TLS_SPI_STATUS_EINVAL, [], s\<lparr>lspi_clock := False\<rparr>)
                else if dma_bufs s
                then (let (rs, s) = dma_session cs_off (SpiDmaBlockRead line stale (length bs) []) s in Some (TLS_SPI_STATUS_OK, rs, s))
                else Some (TLS_SPI_STATUS_ENOMEM, [], s\<lparr>lspi_clock := False\<rparr>))
          else map_option (\<lambda>(st, port). (st, spi_reply sem port, case port of Some s \<Rightarrow> s | None \<Rightarrow> s))
                 (tls_spi_sync clock cs_off apb sem [\<lparr>tx_buf = None, rx_buf = Some bs, t_len = length bs\<rparr>] (Some s)))"

definition tls_spi_read_with_cmd ::
  "'c spi_clock \<Rightarrow> 'c spi_line \<Rightarrow> ('c \<Rightarrow> 'c) \<Rightarrow> u32 \<Rightarrow> nat option \<Rightarrow> u8 list \<Rightarrow> u8 list option \<Rightarrow> u8 list option \<Rightarrow> 'c spi \<Rightarrow>
   (int \<times> u8 list \<times> 'c spi) option" where
  "tls_spi_read_with_cmd clock line cs_off apb sem stale txbuf rxbuf s =
     (case (txbuf, rxbuf) of (Some tx, Some rx) \<Rightarrow>
          if tx = [] \<or> rx = [] then Some (TLS_SPI_STATUS_EINVAL, [], s)
          else if transtype s = SPI_DMA_TRANSFER
          then (if length rx > SPI_DMA_BUF_MAX_SIZE \<or> length tx > SPI_DMA_CMD_MAX_SIZE then Some (TLS_SPI_STATUS_EINVAL, [], s)
                else if dma_bufs s
                then (let (rs, s) = dma_session cs_off (SpiDmaBlockRead line stale (length rx) tx) s in Some (TLS_SPI_STATUS_OK, rs, s))
                else Some (TLS_SPI_STATUS_ENOMEM, [], s\<lparr>lspi_clock := False\<rparr>))
          else map_option (\<lambda>(st, port). (st, spi_reply sem port, case port of Some s \<Rightarrow> s | None \<Rightarrow> s))
                 (tls_spi_sync clock cs_off apb sem
                    [\<lparr>tx_buf = Some tx, rx_buf = None, t_len = length tx\<rparr>, \<lparr>tx_buf = None, rx_buf = Some rx, t_len = length rx\<rparr>] (Some s))
      | _ \<Rightarrow> Some (TLS_SPI_STATUS_EINVAL, [], s))"

definition tls_spi_write_with_cmd ::
  "'c spi_clock \<Rightarrow> 'c spi_line \<Rightarrow> ('c \<Rightarrow> 'c) \<Rightarrow> u32 \<Rightarrow> nat option \<Rightarrow> u8 list option \<Rightarrow> u8 list option \<Rightarrow> 'c spi \<Rightarrow>
   (int \<times> 'c spi) option" where
  "tls_spi_write_with_cmd clock line cs_off apb sem cmd txbuf s =
     (case (cmd, txbuf) of (Some cmd, Some tx) \<Rightarrow>
          if cmd = [] \<or> tx = [] then Some (TLS_SPI_STATUS_EINVAL, s)
          else if transtype s = SPI_DMA_TRANSFER
          then (if length tx > SPI_DMA_BUF_MAX_SIZE then Some (TLS_SPI_STATUS_EINVAL, s)
                else if dma_bufs s
                then (if length cmd + length tx > SPI_DMA_BUF_MAX_SIZE then None
                      else Some (TLS_SPI_STATUS_OK, snd (dma_session cs_off (\<lambda>c. ((), SpiDmaBlockWrite line (cmd @ tx) c)) s)))
                else Some (TLS_SPI_STATUS_ENOMEM, s\<lparr>lspi_clock := False\<rparr>))
          else map_option (\<lambda>(st, port). (st, case port of Some s \<Rightarrow> s | None \<Rightarrow> s))
                 (tls_spi_sync clock cs_off apb sem
                    [\<lparr>tx_buf = Some cmd, rx_buf = None, t_len = length cmd\<rparr>, \<lparr>tx_buf = Some tx, rx_buf = None, t_len = length tx\<rparr>] (Some s))
      | _ \<Rightarrow> Some (TLS_SPI_STATUS_EINVAL, s))"

text \<open>
  \<^verbatim>\<open>tls_spi_xfer\<close>: the FIFO loop without interrupts.  It takes the longer of the two lengths for both buffers, so different
  lengths leave one of them: \<open>None\<close>.
\<close>

partial_function (option) xfer_loop :: "'c spi_clock \<Rightarrow> spi_transfer \<Rightarrow> nat \<Rightarrow> 'c spi \<Rightarrow> (spi_transfer \<times> 'c spi) option" where
  "xfer_loop clock t remain s =
     (if remain = 0 then Some (t, s)
      else
        (let s = spi_unit_run clock s; (n, t, s) = spi_get_rxfifo t remain s; remain = remain - n
         in if remain = 0 then Some (t, s)
            else
              (let (k, s) = spi_fill_txfifo (Some t) remain s;
                   s = (if k \<noteq> 0 then spi_sclk_start (spi_set_sclk_length (k * 8) s) else s)
               in xfer_loop clock t remain s)))"

definition tls_spi_xfer :: "'c spi_clock \<Rightarrow> u8 list option \<Rightarrow> u8 list option \<Rightarrow> 'c spi \<Rightarrow> (int \<times> u8 list \<times> 'c spi) option" where
  "tls_spi_xfer clock data_out data_in s =
     (case (data_out, data_in) of (Some out, Some inp) \<Rightarrow>
        if out = [] \<or> inp = [] then Some (- 1, [], s)
        else if length out \<noteq> length inp then None
        else
          (let t = \<lparr>tx_buf = Some out, rx_buf = Some inp, t_len = length out\<rparr>;
               (k, s) = spi_fill_txfifo (Some t) (length out) (s\<lparr>lspi_clock := True\<rparr>);
               s = spi_sclk_start (spi_set_sclk_length (k * 8) s)
           in map_option (\<lambda>(t, s). (0, the (rx_buf t), s\<lparr>lspi_clock := False\<rparr>)) (xfer_loop clock t (length out) s))
      | _ \<Rightarrow> Some (- 1, [], s))"

text \<open>Which of two slaves is meant is a level of pin 0, not part of the unit.\<close>

definition tls_spi_slave_sel :: "u16 \<Rightarrow> 'a io_state_scheme \<Rightarrow> 'a io_state_scheme" where
  "tls_spi_slave_sel who s =
     (let s = tls_gpio_cfg 0 WM_GPIO_DIR_OUTPUT WM_GPIO_ATTR_FLOATING s
      in if who = 0 then tls_gpio_write 0 0 s else if who = 1 then tls_gpio_write 0 1 s else s)"

definition tls_spi_exit :: "'c spi option \<Rightarrow> int \<times> 'c spi option" where
  "tls_spi_exit port = (TLS_SPI_STATUS_EPERM, port)"

end
