(* ===== verification/Spi_Correct.thy ===== *)
theory Spi_Correct
  imports Spi
begin

text \<open>
  The SPI driver of \<open>Spi\<close> against its promise: messages are carried out one after the other, as if each byte were exchanged with the
  slave directly.  The serial unit is a parameter with one law, \<open>clock_exchanges\<close>, in the locale \<open>spi_unit\<close>; the invariant
  \<open>spi_inv\<close> relates every state of the driver to the outcome still owed.
\<close>

section \<open>What is promised\<close>

text \<open>A slave answers every byte with one of its own.\<close>

fun shift :: "(u8 \<Rightarrow> 'c \<Rightarrow> u8 \<times> 'c) \<Rightarrow> u8 list \<Rightarrow> 'c \<Rightarrow> u8 list \<times> 'c" where
  "shift xchg [] c = ([], c)"
| "shift xchg (b # bs) c = (let (r, c) = xchg b c; (rs, c) = shift xchg bs c in (r # rs, c))"

definition sent :: "spi_transfer \<Rightarrow> u8 list" where
  "sent t = (case tx_buf t of Some bs \<Rightarrow> take (t_len t) bs | None \<Rightarrow> replicate (t_len t) 0xff)"

definition received :: "nat \<Rightarrow> u8 list \<Rightarrow> spi_transfer \<Rightarrow> spi_transfer" where
  "received p rs t = t\<lparr>rx_buf := map_option (\<lambda>b. overlay b p rs) (rx_buf t)\<rparr>"

definition exec_from :: "(u8 \<Rightarrow> 'c \<Rightarrow> u8 \<times> 'c) \<Rightarrow> spi_transfer \<Rightarrow> nat \<Rightarrow> 'c \<Rightarrow> spi_transfer \<times> 'c" where
  "exec_from xchg t p c = (let (rs, c) = shift xchg (drop p (sent t)) c in (received p rs t, c))"

fun exec_transfers :: "(u8 \<Rightarrow> 'c \<Rightarrow> u8 \<times> 'c) \<Rightarrow> spi_transfer list \<Rightarrow> 'c \<Rightarrow> spi_transfer list \<times> 'c" where
  "exec_transfers xchg [] c = ([], c)"
| "exec_transfers xchg (t # ts) c =
     (let (t, c) = exec_from xchg t 0 c; (ts, c) = exec_transfers xchg ts c in (t # ts, c))"

definition exec_message ::
  "(u8 \<Rightarrow> 'c \<Rightarrow> u8 \<times> 'c) \<Rightarrow> ('c \<Rightarrow> 'c) \<Rightarrow> spi_message \<Rightarrow> 'c \<Rightarrow> spi_message \<times> 'c" where
  "exec_message xchg cs_off m c =
     (let (ts, c) = exec_transfers xchg (m_transfers m) c
      in (m\<lparr>m_transfers := [], m_finished := m_finished m @ ts, m_status := SPI_MESSAGE_STATUS_DONE\<rparr>, cs_off c))"

text \<open>Messages one after the other, each with the slave selected from its first byte to its last.\<close>

fun serial :: "(u8 \<Rightarrow> 'c \<Rightarrow> u8 \<times> 'c) \<Rightarrow> ('c \<Rightarrow> 'c) \<Rightarrow> spi_message list \<Rightarrow> 'c \<Rightarrow> spi_message list \<times> 'c" where
  "serial xchg cs_off [] c = ([], c)"
| "serial xchg cs_off (m # ms) c =
     (let (m, c) = exec_message xchg cs_off m c; (ms, c) = serial xchg cs_off ms c in (m # ms, c))"

lemma shift_append:
  "shift xchg (xs @ ys) c = (fst (shift xchg xs c) @ fst (shift xchg ys (snd (shift xchg xs c))), snd (shift xchg ys (snd (shift xchg xs c))))"
  by (induction xs arbitrary: c) (simp_all add: split_beta Let_def)

lemma length_shift [simp]: "length (fst (shift xchg xs c)) = length xs"
  by (induction xs arbitrary: c) (simp_all add: split_beta Let_def)

lemma serial_append:
  "serial xchg cs_off (xs @ ys) c =
     (fst (serial xchg cs_off xs c) @ fst (serial xchg cs_off ys (snd (serial xchg cs_off xs c))),
      snd (serial xchg cs_off ys (snd (serial xchg cs_off xs c))))"
  by (induction xs arbitrary: c) (simp_all add: split_beta Let_def)

lemma length_serial [simp]: "length (fst (serial xchg cs_off ms c)) = length ms"
  by (induction ms arbitrary: c) (simp_all add: split_beta Let_def)

definition wf_transfer :: "spi_transfer \<Rightarrow> bool" where
  "wf_transfer t \<longleftrightarrow> 0 < t_len t \<and> (\<forall>b. tx_buf t = Some b \<longrightarrow> length b = t_len t) \<and> (\<forall>b. rx_buf t = Some b \<longrightarrow> length b = t_len t)"

lemma overlay_overlay:
  "p \<le> length b \<Longrightarrow> overlay (overlay b p xs) (p + length xs) ys = overlay b p (xs @ ys)"
  by (simp add: overlay_def add.assoc add.commute [of "length ys"])

lemma received_simps [simp]: "tx_buf (received p rs t) = tx_buf t" "t_len (received p rs t) = t_len t"
  "sent (received p rs t) = sent t" "received p [] t = t"
  by (simp_all add: received_def sent_def option.map_ident split: option.split)

lemma length_sent [simp]: "wf_transfer t \<Longrightarrow> length (sent t) = t_len t"
  by (auto simp: wf_transfer_def sent_def split: option.split)

lemma wf_received: "wf_transfer t \<Longrightarrow> p + length rs \<le> t_len t \<Longrightarrow> wf_transfer (received p rs t)"
  by (auto simp: wf_transfer_def received_def)

lemma received_received:
  "wf_transfer t \<Longrightarrow> p \<le> t_len t \<Longrightarrow> received (p + length xs) ys (received p xs t) = received p (xs @ ys) t"
  by (cases "rx_buf t") (simp_all add: received_def overlay_overlay wf_transfer_def)

lemma exec_from_end [simp]: "wf_transfer t \<Longrightarrow> exec_from xchg t (t_len t) c = (t, c)"
  by (simp add: exec_from_def)

lemma exec_from_chunk:
  assumes t: "wf_transfer t" and p: "p + n \<le> t_len t"
  shows "exec_from xchg t p c =
     exec_from xchg (received p (fst (shift xchg (take n (drop p (sent t))) c)) t) (p + n)
       (snd (shift xchg (take n (drop p (sent t))) c))"
proof -
  have d: "drop p (sent t) = take n (drop p (sent t)) @ drop (p + n) (sent t)"
    by (metis append_take_drop_id drop_drop add.commute)
  have r: "received (p + n) ys (received p (fst (shift xchg (take n (drop p (sent t))) c)) t) =
      received p (fst (shift xchg (take n (drop p (sent t))) c) @ ys) t" for ys
    using received_received [OF t, of p "fst (shift xchg (take n (drop p (sent t))) c)" ys] t p by simp
  show ?thesis unfolding exec_from_def by (subst d) (simp add: shift_append split_beta Let_def r)
qed

section \<open>Words and bytes\<close>

lemma upto4: "[0..<1] = [0::nat]" "[0..<2] = [0, 1::nat]" "[0..<3] = [0, 1, 2::nat]" "[0..<4] = [0, 1, 2, 3::nat]"
  by (simp_all add: upt_rec)

lemma short_list:
  assumes "length bs \<le> 4"
  obtains "bs = []" | a where "bs = [a]" | a b where "bs = [a, b]" | a b c where "bs = [a, b, c]" | a b c d where "bs = [a, b, c, d]"
  using assms by (auto simp: le_Suc_eq numeral_eq_Suc length_Suc_conv)

lemma u8_high: "8 \<le> k \<Longrightarrow> \<not> bit (x :: u8) k"
  using bit_imp_le_length [of x k] by auto

lemma take_get_word: "n \<le> 4 \<Longrightarrow> take n (get_word big 4 w) = get_word big n w"
  by (simp add: get_word_def take_map)

lemma get_put_4: "get_word big 4 (put_word big [a, b, c, d]) = [a, b, c, d]"
  by (cases big) (auto simp: get_word_def put_word_def upto4 u8_high bit_simps intro!: bit_word_eqI)

lemma get_put_3: "get_word big 3 (put_word big [a, b, c]) = [a, b, c]"
  by (cases big) (auto simp: get_word_def put_word_def upto4 u8_high bit_simps intro!: bit_word_eqI)

lemma get_put_2: "get_word big 2 (put_word big [a, b]) = [a, b]"
  by (cases big) (auto simp: get_word_def put_word_def upto4 u8_high bit_simps intro!: bit_word_eqI)

lemma get_put_1: "get_word big 1 (put_word big [a]) = [a]"
  by (cases big) (auto simp: get_word_def put_word_def upto4 u8_high bit_simps intro!: bit_word_eqI)

lemmas get_put_short = get_put_4 get_put_3 get_put_2 get_put_1

lemma Suc_numerals: "Suc 0 = 1" "Suc (Suc 0) = 2" "Suc (Suc (Suc 0)) = 3" "Suc (Suc (Suc (Suc 0))) = 4"
  by simp_all

definition wire :: "bool \<Rightarrow> u32 list \<Rightarrow> u8 list" where
  "wire big ws = concat (map (get_word big 4) ws)"

lemma wire_fifo_words:
  "take (length bs) (wire big (fifo_words (put_word big) bs)) = bs"
proof (induction "put_word big" bs rule: fifo_words.induct)
  case (1 a b c d bs)
  then show ?case by (simp add: wire_def get_put_4)
qed (simp_all add: wire_def take_get_word get_put_short [folded Suc_numerals])

lemma rx_bytes_fifo_words: "rx_bytes big (length bs) (fifo_words (put_word big) bs) = bs"
  by (induction "put_word big" bs rule: fifo_words.induct)
    (simp_all add: get_put_short get_put_short [folded Suc_numerals])

lemma length_fifo_words: "length (fifo_words f bs) = (length bs + 3) div 4"
  by (induction f bs rule: fifo_words.induct) simp_all

lemma replicate_short: "replicate 2 x = [x, x]" "replicate 3 x = [x, x, x]" "replicate (4 + k) x = x # x # x # x # replicate k x"
  by (simp_all flip: Suc_numerals)

lemma fifo_words_ones:
  "fifo_words f (replicate n 0xff) =
     replicate (n div 4) (f [0xff, 0xff, 0xff, 0xff]) @ (if n mod 4 = 0 then [] else [f (replicate (n mod 4) 0xff)])"
proof (induction n rule: less_induct)
  case (less n)
  show ?case
  proof (cases "n < 4")
    case True
    then consider "n = 0" | "n = 1" | "n = 2" | "n = 3" by linarith
    then show ?thesis by cases (simp_all add: replicate_short)
  next
    case False
    then obtain k where k: "n = 4 + k" by (metis le_add_diff_inverse not_less)
    moreover have "(4 + k) div 4 = Suc (k div 4)" by simp
    ultimately show ?thesis using less.IH [of k] by (simp add: replicate_short del: div_add_self1)
  qed
qed

lemma ones_word: "put_word big [0xff, 0xff, 0xff, 0xff] = 0xffffffff"
  by (cases big) (simp_all add: put_word_def)

text \<open>The two transfer types differ in the order of the bytes in a word, and set the unit accordingly: the wire sees the buffer.\<close>

definition byte_order :: "trans_type \<Rightarrow> bool" where
  "byte_order ty = (ty = SPI_BYTE_TRANSFER)"

lemma tx_words_sent:
  assumes "wf_transfer t" and "ty \<noteq> SPI_DMA_TRANSFER" and "p + n \<le> t_len t"
  shows "tx_words ty (tx_buf t) p n = fifo_words (put_word (byte_order ty)) (take n (drop p (sent t)))"
proof -
  have f: "fifo_word ty = put_word (byte_order ty)"
    using assms(2) by (cases ty) (simp_all add: fun_eq_iff fifo_word_def byte_order_def)
  show ?thesis
    using assms by (auto simp: tx_words_def sent_def f fifo_words_ones ones_word wf_transfer_def min_def split: option.split)
qed

section \<open>The invariant\<close>

definition wf_message :: "spi_message \<Rightarrow> bool" where
  "wf_message m \<longleftrightarrow> m_transfers m \<noteq> [] \<and> list_all wf_transfer (m_transfers m)"

definition spi_ok :: "'c spi \<Rightarrow> bool" where
  "spi_ok s \<longleftrightarrow> transtype s \<noteq> SPI_DMA_TRANSFER \<and> big_endian s = byte_order (transtype s) \<and> (reconfig s \<longrightarrow> cs_active s = 0) \<and>
     \<not> bit (spi_int_masked s) 6 \<and> list_all wf_message (wait_queue s)"

text \<open>What remains of a queue whose first transfer has got to byte \<open>p\<close>.\<close>

definition remainder ::
  "(u8 \<Rightarrow> 'c \<Rightarrow> u8 \<times> 'c) \<Rightarrow> ('c \<Rightarrow> 'c) \<Rightarrow> spi_message \<Rightarrow> spi_transfer \<Rightarrow> nat \<Rightarrow> spi_transfer list \<Rightarrow> spi_message list \<Rightarrow> 'c \<Rightarrow>
   spi_message list \<times> 'c" where
  "remainder xchg cs_off m t p ts ms c =
     (let (t, c) = exec_from xchg t p c; (ts, c) = exec_transfers xchg ts c;
          m = m\<lparr>m_transfers := [], m_finished := m_finished m @ t # ts, m_status := SPI_MESSAGE_STATUS_DONE\<rparr>;
          (ms, c) = serial xchg cs_off ms (cs_off c)
      in (m # ms, c))"

lemma remainder_0: "m_transfers m = t # ts \<Longrightarrow> remainder xchg cs_off m t 0 ts ms c = serial xchg cs_off (m # ms) c"
  by (simp add: remainder_def exec_message_def split_beta Let_def)

lemma remainder_status [simp]:
  "remainder xchg cs_off (m\<lparr>m_status := x\<rparr>) t p ts ms c = remainder xchg cs_off m t p ts ms c"
  "remainder xchg cs_off (m\<lparr>m_transfers := y\<rparr>) t p ts ms c = remainder xchg cs_off m t p ts ms c"
  by (simp_all add: remainder_def split_beta Let_def)

lemma exec_message_status [simp]: "exec_message xchg cs_off (m\<lparr>m_status := x\<rparr>) c = exec_message xchg cs_off m c"
  by (simp add: exec_message_def split_beta Let_def)

definition bytes_of :: "spi_transfer list \<Rightarrow> nat" where
  "bytes_of ts = sum_list (map t_len ts)"

definition bytes_left :: "'c spi \<Rightarrow> nat" where
  "bytes_left s =
     (if current_message s then
        (if current_transfer s then current_remaining_bytes s + bytes_of (tl (m_transfers (hd (wait_queue s)))) else 0) +
        bytes_of (concat (map m_transfers (tl (wait_queue s))))
      else bytes_of (concat (map m_transfers (wait_queue s))))"

lemma bytes_of_simps [simp]: "bytes_of [] = 0" "bytes_of (t # ts) = t_len t + bytes_of ts" "bytes_of (ts @ us) = bytes_of ts + bytes_of us"
  by (simp_all add: bytes_of_def)

lemma bytes_left_frame [simp]: "bytes_left (s\<lparr>completed := x\<rparr>) = bytes_left s" "bytes_left (s\<lparr>msg_queue := q\<rparr>) = bytes_left s"
  "spi_ok (s\<lparr>completed := x\<rparr>) = spi_ok s" "spi_ok (s\<lparr>msg_queue := q\<rparr>) = spi_ok s"
  by (simp_all add: bytes_left_def spi_ok_def)

text \<open>Only the operations switch the clock.\<close>

lemma clock_frame:
  "lspi_clock (spi_set_chipselect_mode cs_off b s) = lspi_clock s" "lspi_clock (spi_unit_run clock s) = lspi_clock s"
  "lspi_clock (tls_spi_queue_send ok m s) = lspi_clock s" "lspi_clock (spi_next_message s) = lspi_clock s"
  "lspi_clock (spi_start_transfer cs_off apb n s) = lspi_clock s" "lspi_clock (snd (spi_fill_txfifo t n s)) = lspi_clock s"
  "lspi_clock (snd (transfer_end cs_off u s)) = lspi_clock s" "lspi_clock (put_transfer u s) = lspi_clock s"
  "lspi_clock (snd (snd (spi_get_rxfifo u n s))) = lspi_clock s"
  "lspi_clock (spi_continue_transfer cs_off apb s) = lspi_clock s" "lspi_clock (start_engine cs_off apb s) = lspi_clock s"
  "lspi_clock (spi_scheduler cs_off apb s) = lspi_clock s" "lspi_clock (SPI_LS_IRQHandler ok cs_off apb st s) = lspi_clock s"
proof -
  show cs: "lspi_clock (spi_set_chipselect_mode cs_off b s) = lspi_clock s" for b s by (simp add: spi_set_chipselect_mode_def)
  show "lspi_clock (spi_unit_run clock s) = lspi_clock s" by (simp add: spi_unit_run_def split_beta Let_def)
  show qs: "lspi_clock (tls_spi_queue_send ok m s) = lspi_clock s" for m s
    by (simp add: tls_spi_queue_send_def tls_spi_task_init_def split: option.split)
  show nm: "lspi_clock (spi_next_message s) = lspi_clock s" for s by (simp add: spi_next_message_def split: list.split)
  show st: "lspi_clock (spi_start_transfer cs_off apb n s) = lspi_clock s" for n s
    by (simp add: spi_start_transfer_def spi_set_mode_def spi_set_sclk_def spi_set_sclk_length_def spi_sclk_start_def cs Let_def)
  show fi: "lspi_clock (snd (spi_fill_txfifo t n s)) = lspi_clock s" for t n s by (simp add: spi_fill_txfifo_def Let_def split: option.split)
  show te: "lspi_clock (snd (transfer_end cs_off u s)) = lspi_clock s" for u s
    by (simp add: transfer_end_def Let_def cs nm split: list.split option.split)
  show pt: "lspi_clock (put_transfer u s) = lspi_clock s" for u s by (simp add: put_transfer_def split: list.split)
  show gr: "lspi_clock (snd (snd (spi_get_rxfifo u n s))) = lspi_clock s" for u n s by (simp add: spi_get_rxfifo_def Let_def)
  show co: "lspi_clock (spi_continue_transfer cs_off apb s) = lspi_clock s" for s
    by (simp add: spi_continue_transfer_def Let_def split_beta st fi te pt gr split: option.split)
  show en: "lspi_clock (start_engine cs_off apb s) = lspi_clock s" for s
    by (simp add: start_engine_def Let_def split_beta st fi nm split: option.split)
  show "lspi_clock (spi_scheduler cs_off apb s) = lspi_clock s"
    by (simp add: spi_scheduler_def Let_def co en split: option.split list.split sched_msg.split)
  show "lspi_clock (SPI_LS_IRQHandler ok cs_off apb st s) = lspi_clock s" by (simp add: SPI_LS_IRQHandler_def Let_def qs co)
qed

definition at_rest :: "'c spi \<Rightarrow> bool" where
  "at_rest s \<longleftrightarrow> \<not> spi_busy s \<and> tx_fifo s = [] \<and> rx_fifo s = [] \<and> rx_fifo_cnt s = 0"

locale spi_unit =
  fixes clock :: "'c spi_clock"
    and xchg :: "u8 \<Rightarrow> 'c \<Rightarrow> u8 \<times> 'c"
    and cs_off :: "'c \<Rightarrow> 'c"
  assumes clock_exchanges: "0 < n \<Longrightarrow> n \<le> 32 \<Longrightarrow> n \<le> 4 * length ws \<Longrightarrow>
    clock n big ws c =
      (fifo_words (put_word big) (fst (shift xchg (take n (wire big ws)) c)), snd (shift xchg (take n (wire big ws)) c))"
begin

definition resting :: "spi_message list \<Rightarrow> 'c spi \<Rightarrow> spi_message list \<times> 'c \<Rightarrow> bool" where
  "resting d s out \<longleftrightarrow> at_rest s \<and> \<not> current_message s \<and> \<not> current_transfer s \<and> cs_high s \<and>
     out = (d @ fst (serial xchg cs_off (wait_queue s) (slave s)), snd (serial xchg cs_off (wait_queue s) (slave s)))"

definition engaged :: "spi_message \<Rightarrow> spi_transfer \<Rightarrow> spi_transfer list \<Rightarrow> spi_message list \<Rightarrow> 'c spi \<Rightarrow> bool" where
  "engaged m t ts ms s \<longleftrightarrow> current_message s \<and> current_transfer s \<and> wait_queue s = m # ms \<and> m_transfers m = t # ts \<and>
     0 < current_remaining_bytes s \<and> current_remaining_bytes s \<le> t_len t"

definition promise :: "spi_message list \<Rightarrow> spi_message \<Rightarrow> spi_transfer \<Rightarrow> nat \<Rightarrow> spi_transfer list \<Rightarrow> spi_message list \<Rightarrow> 'c \<Rightarrow>
    spi_message list \<times> 'c" where
  "promise d m t p ts ms c = (d @ fst (remainder xchg cs_off m t p ts ms c), snd (remainder xchg cs_off m t p ts ms c))"

definition chunk :: "spi_transfer \<Rightarrow> nat \<Rightarrow> u8 list" where
  "chunk t r = take (min 32 r) (drop (t_len t - r) (sent t))"

definition ready :: "spi_message list \<Rightarrow> 'c spi \<Rightarrow> spi_message list \<times> 'c \<Rightarrow> bool" where
  "ready d s out \<longleftrightarrow> at_rest s \<and>
     (\<exists>m t ts ms. engaged m t ts ms s \<and> out = promise d m t (t_len t - current_remaining_bytes s) ts ms (slave s))"

definition sending :: "spi_message list \<Rightarrow> 'c spi \<Rightarrow> spi_message list \<times> 'c \<Rightarrow> bool" where
  "sending d s out \<longleftrightarrow> spi_busy s \<and> rx_fifo s = [] \<and> rx_fifo_cnt s = 0 \<and> \<not> cs_high s \<and>
     (\<exists>m t ts ms. engaged m t ts ms s \<and> sclk_bits s = 8 * min 32 (current_remaining_bytes s) \<and>
        tx_fifo s = fifo_words (put_word (big_endian s)) (chunk t (current_remaining_bytes s)) \<and>
        out = promise d m t (t_len t - current_remaining_bytes s) ts ms (slave s))"

definition arrived :: "spi_message list \<Rightarrow> 'c spi \<Rightarrow> spi_message list \<times> 'c \<Rightarrow> bool" where
  "arrived d s out \<longleftrightarrow> \<not> spi_busy s \<and> tx_fifo s = [] \<and> \<not> cs_high s \<and>
     (\<exists>m t ts ms rs. engaged m t ts ms s \<and> 0 < length rs \<and> length rs \<le> current_remaining_bytes s \<and>
        rx_fifo s = fifo_words (put_word (big_endian s)) rs \<and> rx_fifo_cnt s = length rs \<and>
        out = promise d m (received (t_len t - current_remaining_bytes s) rs t)
                (t_len t - current_remaining_bytes s + length rs) ts ms (slave s))"

definition spi_inv :: "'c spi \<Rightarrow> spi_message list \<times> 'c \<Rightarrow> bool" where
  "spi_inv s out \<longleftrightarrow> spi_ok s \<and>
     (resting (completed s) s out \<and>
        (if wait_queue s = [] then msg_queue s = None \<or> msg_queue s = Some [] else msg_queue s = Some [SPI_SCHED_MSG_START_ENGINE]) \<or>
      sending (completed s) s out \<and> msg_queue s = Some [] \<or>
      arrived (completed s) s out \<and> msg_queue s = Some [SPI_SCHED_MSG_TRANSFER_COMPLETE])"

lemma phase_frame [simp]: "arrived d (s\<lparr>msg_queue := q\<rparr>) out = arrived d s out" "engaged m t ts ms (s\<lparr>msg_queue := q\<rparr>) = engaged m t ts ms s"
  by (simp_all add: arrived_def engaged_def)

subsection \<open>One chunk\<close>

lemma engaged_wf: "spi_ok s \<Longrightarrow> engaged m t ts ms s \<Longrightarrow> wf_transfer t"
  by (auto simp: spi_ok_def engaged_def wf_message_def)

lemma engaged_first: "engaged m t ts ms s \<Longrightarrow> first_transfer s = Some t"
  by (simp add: engaged_def first_transfer_def)

lemma start_sending:
  assumes ok: "spi_ok s" and r: "ready d s out"
  shows "\<exists>k s1. spi_fill_txfifo (first_transfer s) (current_remaining_bytes s) s = (k, s1) \<and> k \<noteq> 0 \<and>
    sending d (spi_start_transfer cs_off apb k s1) out \<and> spi_ok (spi_start_transfer cs_off apb k s1) \<and>
    msg_queue (spi_start_transfer cs_off apb k s1) = msg_queue s \<and> completed (spi_start_transfer cs_off apb k s1) = completed s"
proof -
  obtain m t ts ms where e: "engaged m t ts ms s" and rest: "at_rest s"
    and out: "out = promise d m t (t_len t - current_remaining_bytes s) ts ms (slave s)"
    using r by (auto simp: ready_def)
  let ?r = "current_remaining_bytes s"
  have t: "wf_transfer t" by (rule engaged_wf [OF ok e])
  have r: "0 < ?r" "?r \<le> t_len t" using e by (auto simp: engaged_def)
  have "tx_words (transtype s) (tx_buf t) (t_len t - ?r) (min 32 ?r) = fifo_words (put_word (big_endian s)) (chunk t ?r)"
    using tx_words_sent [OF t, of "transtype s" "t_len t - ?r" "min 32 ?r"] ok r by (auto simp: spi_ok_def chunk_def)
  then have f: "spi_fill_txfifo (first_transfer s) ?r s =
      (min 32 ?r, s\<lparr>tx_fifo := fifo_words (put_word (big_endian s)) (chunk t ?r)\<rparr>)"
    using r rest by (simp add: spi_fill_txfifo_def engaged_first [OF e] Let_def at_rest_def)
  have b: "min 32 ?r * 8 mod 2 ^ 16 = 8 * min 32 ?r" by simp
  show ?thesis
    unfolding f using ok e rest r out b
    by (auto simp: spi_start_transfer_def Let_def spi_set_mode_def spi_set_chipselect_mode_def spi_set_sclk_def
        spi_set_sclk_length_def spi_sclk_start_def sending_def spi_ok_def engaged_def at_rest_def)
qed

lemma unit_answers:
  assumes ok: "spi_ok s" and sn: "sending d s out"
  shows "arrived d (spi_unit_run clock s) out" "spi_ok (spi_unit_run clock s)"
    "msg_queue (spi_unit_run clock s) = msg_queue s" "completed (spi_unit_run clock s) = completed s"
proof -
  obtain m t ts ms where e: "engaged m t ts ms s" and bits: "sclk_bits s = 8 * min 32 (current_remaining_bytes s)"
    and tx: "tx_fifo s = fifo_words (put_word (big_endian s)) (chunk t (current_remaining_bytes s))"
    and out: "out = promise d m t (t_len t - current_remaining_bytes s) ts ms (slave s)"
    using sn by (auto simp: sending_def)
  let ?r = "current_remaining_bytes s" and ?n = "min 32 (current_remaining_bytes s)"
  let ?p = "t_len t - ?r" and ?c = "chunk t ?r"
  have t: "wf_transfer t" by (rule engaged_wf [OF ok e])
  have r: "0 < ?r" "?r \<le> t_len t" using e by (auto simp: engaged_def)
  have len: "length ?c = ?n" using t r by (simp add: chunk_def)
  have "take ?n (wire (big_endian s) (tx_fifo s)) = ?c" using wire_fifo_words [of ?c] len by (simp add: tx)
  moreover have "?n \<le> 4 * length (tx_fifo s)" "drop ((?n + 3) div 4) (tx_fifo s) = []"
    using len by (simp_all add: tx length_fifo_words)
  moreover define rs where rs: "rs = fst (shift xchg ?c (slave s))"
  moreover define c where c: "c = snd (shift xchg ?c (slave s))"
  ultimately have u: "spi_unit_run clock s =
      s\<lparr>tx_fifo := [], rx_fifo := fifo_words (put_word (big_endian s)) rs, rx_fifo_cnt := ?n, spi_busy := False, slave := c\<rparr>"
    using sn r clock_exchanges [of ?n "tx_fifo s" "big_endian s" "slave s"]
    by (simp add: spi_unit_run_def bits sending_def)
  have n: "length rs = ?n" using len by (simp add: rs)
  then have ne: "rs \<noteq> []" using r by auto
  have p: "promise d m t ?p ts ms (slave s) = promise d m (received ?p rs t) (?p + length rs) ts ms c"
  proof -
    have "exec_from xchg t ?p (slave s) = exec_from xchg (received ?p rs t) (?p + ?n) c"
      unfolding rs c chunk_def by (rule exec_from_chunk [OF t]) (use r in auto)
    then show ?thesis by (simp only: promise_def remainder_def n)
  qed
  have "arrived d (spi_unit_run clock s) (promise d m (received ?p rs t) (?p + length rs) ts ms c)"
    using sn e ne n unfolding u arrived_def sending_def
    by (auto simp: engaged_def intro!: exI [of _ m] exI [of _ t] exI [of _ ts] exI [of _ ms] exI [of _ rs])
  then show "arrived d (spi_unit_run clock s) out" by (simp only: out p)
  show "spi_ok (spi_unit_run clock s)" "msg_queue (spi_unit_run clock s) = msg_queue s" "completed (spi_unit_run clock s) = completed s"
    using ok by (simp_all add: u spi_ok_def)
qed

text \<open>The interrupt's work: the answer is stored, and the next chunk, transfer or message is begun.\<close>

lemma next_message:
  assumes "at_rest s" and "list_all wf_message (wait_queue s)" and "\<not> current_transfer s" and "cs_high s"
    and "out = (d @ fst (serial xchg cs_off (wait_queue s) (slave s)), snd (serial xchg cs_off (wait_queue s) (slave s)))"
    and s1: "s1 = (case first_transfer (spi_next_message s) of Some t \<Rightarrow> (spi_next_message s)\<lparr>current_remaining_bytes := t_len t\<rparr>
       | None \<Rightarrow> spi_next_message s)"
  shows "wait_queue s = [] \<and> resting d s1 out \<and> s1 = s\<lparr>current_message := False\<rparr> \<or> wait_queue s \<noteq> [] \<and> ready d s1 out"
proof (cases "wait_queue s")
  case Nil
  then show ?thesis using assms by (simp add: spi_next_message_def first_transfer_def resting_def at_rest_def)
next
  case (Cons m ms)
  then obtain t ts where t: "m_transfers m = t # ts" "wf_transfer t"
    using assms(2) by (cases "m_transfers m") (auto simp: wf_message_def)
  have n: "s1 = s\<lparr>current_message := True, current_transfer := True,
      wait_queue := m\<lparr>m_status := SPI_MESSAGE_STATUS_INPROGRESS\<rparr> # ms, current_remaining_bytes := t_len t\<rparr>"
    using s1 Cons t by (simp add: spi_next_message_def first_transfer_def)
  have "promise d (m\<lparr>m_status := SPI_MESSAGE_STATUS_INPROGRESS\<rparr>) t 0 ts ms (slave s) = out"
    using assms(5) Cons remainder_0 [OF t(1), of xchg cs_off ms "slave s"] by (simp add: promise_def)
  then have "ready d s1 out"
    using assms(1) t unfolding n ready_def engaged_def
    by (auto simp: at_rest_def wf_transfer_def intro!: exI [of _ "m\<lparr>m_status := SPI_MESSAGE_STATUS_INPROGRESS\<rparr>"] exI [of _ ts])
  then show ?thesis using Cons by simp
qed

lemma stored_chunk:
  assumes ok: "spi_ok s" and a: "engaged m t ts ms s" "rx_fifo s = fifo_words (put_word (big_endian s)) rs" "rx_fifo_cnt s = length rs"
  shows "spi_get_rxfifo t (current_remaining_bytes s) s =
     (length rs, received (t_len t - current_remaining_bytes s) rs t, s\<lparr>rx_fifo := [], rx_fifo_cnt := 0\<rparr>)"
proof -
  have "rx_store (transtype s) (length rs) (fifo_words (put_word (big_endian s)) rs) p = (\<lambda>b. overlay b p rs)" for p
    using ok by (cases "transtype s") (simp_all add: fun_eq_iff spi_ok_def byte_order_def rx_store_def rx_bytes_fifo_words)
  then show ?thesis
    using a by (simp add: spi_get_rxfifo_def engaged_def Let_def received_def length_fifo_words)
qed

lemma transfer_end_cases:
  assumes ok: "spi_ok s" and r: "at_rest s" and q: "wait_queue s = m # ms" "m_transfers m = t # ts"
    and c: "current_message s" "\<not> cs_high s" and out: "out = promise d m t (t_len t) ts ms (slave s)"
    and e: "transfer_end cs_off t s = (fin, s1)"
  shows "spi_ok s1 \<and> msg_queue s1 = msg_queue s \<and> completed s1 = completed s \<and>
    (let d' = (case fin of Some m \<Rightarrow> d @ [m] | None \<Rightarrow> d)
     in resting d' s1 out \<and> wait_queue s1 = [] \<or> ready d' s1 out)"
proof (cases ts)
  case (Cons t' ts')
  let ?m = "m\<lparr>m_transfers := ts, m_finished := m_finished m @ [t]\<rparr>"
  have t: "wf_transfer t" "wf_transfer t'" using ok q Cons by (auto simp: spi_ok_def wf_message_def)
  have s1: "fin = None" "s1 = s\<lparr>wait_queue := ?m # ms, current_transfer := True, current_remaining_bytes := t_len t'\<rparr>"
    using e q Cons c by (auto simp: transfer_end_def Let_def first_transfer_def)
  have "out = promise d ?m t' 0 ts' ms (slave s)"
    using t by (simp add: out promise_def remainder_def Cons split_beta Let_def)
  then have "ready d s1 out"
    using r c t Cons unfolding s1 ready_def engaged_def by (auto simp: at_rest_def wf_transfer_def)
  then show ?thesis using ok q Cons by (auto simp: s1 spi_ok_def wf_message_def)
next
  case Nil
  let ?m = "m\<lparr>m_transfers := [], m_finished := m_finished m @ [t], m_status := SPI_MESSAGE_STATUS_DONE\<rparr>"
  let ?s = "s\<lparr>current_transfer := False, cs_high := True, slave := cs_off (slave s), wait_queue := ms\<rparr>"
  have t: "wf_transfer t" using ok q by (auto simp: spi_ok_def wf_message_def)
  have s1: "fin = Some ?m" "s1 = (case first_transfer (spi_next_message ?s) of
      Some t \<Rightarrow> (spi_next_message ?s)\<lparr>current_remaining_bytes := t_len t\<rparr> | None \<Rightarrow> spi_next_message ?s)"
    using e q Nil c by (auto simp: transfer_end_def Let_def spi_set_chipselect_mode_def)
  have o: "out = ((d @ [?m]) @ fst (serial xchg cs_off (wait_queue ?s) (slave ?s)), snd (serial xchg cs_off (wait_queue ?s) (slave ?s)))"
    using t by (simp add: out promise_def remainder_def Nil split_beta Let_def)
  have wf: "list_all wf_message ms" using ok q by (simp add: spi_ok_def)
  have "wait_queue ?s = [] \<and> resting (d @ [?m]) s1 out \<and> s1 = ?s\<lparr>current_message := False\<rparr> \<or>
      wait_queue ?s \<noteq> [] \<and> ready (d @ [?m]) s1 out"
    by (rule next_message [OF _ _ _ _ o s1(2)]) (use r wf in \<open>simp_all add: at_rest_def\<close>)
  moreover have "spi_ok s1 \<and> msg_queue s1 = msg_queue s \<and> completed s1 = completed s"
    using ok wf by (auto simp: s1 spi_ok_def spi_next_message_def wf_message_def split: list.split option.split)
  ultimately show ?thesis by (auto simp: s1(1) Let_def)
qed

lemma ready_or_rest:
  assumes ok: "spi_ok s" and c: "resting d s out \<and> wait_queue s = [] \<or> ready d s out" and q: "msg_queue s = Some []"
    and f: "spi_fill_txfifo (first_transfer s) (current_remaining_bytes s) s = (k, s1)"
  shows "spi_inv ((if k \<noteq> 0 then spi_start_transfer cs_off apb k s1 else s1)\<lparr>completed := d\<rparr>) out"
  using c
proof
  assume r: "resting d s out \<and> wait_queue s = []"
  then have "k = 0" "s1 = s" using f by (auto simp: first_transfer_def resting_def spi_fill_txfifo_def)
  then show ?thesis using r ok q by (simp add: spi_inv_def resting_def at_rest_def spi_ok_def)
next
  assume "ready d s out"
  from start_sending [OF ok this, of apb] f
  have "k \<noteq> 0" "sending d (spi_start_transfer cs_off apb k s1) out" "spi_ok (spi_start_transfer cs_off apb k s1)"
    "msg_queue (spi_start_transfer cs_off apb k s1) = Some []"
    using q by auto
  then show ?thesis by (simp add: spi_inv_def sending_def spi_ok_def engaged_def)
qed

lemma fill_keeps:
  "spi_fill_txfifo t r s = (k, s1) \<Longrightarrow> completed s1 = completed s \<and> completed (spi_start_transfer cs_off apb k s1) = completed s"
  by (auto simp: spi_fill_txfifo_def Let_def spi_start_transfer_def spi_set_mode_def spi_set_chipselect_mode_def spi_set_sclk_def
      spi_set_sclk_length_def spi_sclk_start_def split: option.splits if_splits)

lemma next_bytes:
  assumes "list_all wf_message (wait_queue s)" and "\<not> current_transfer s"
    and s1: "s1 = (case first_transfer (spi_next_message s) of Some t \<Rightarrow> (spi_next_message s)\<lparr>current_remaining_bytes := t_len t\<rparr>
       | None \<Rightarrow> spi_next_message s)"
  shows "bytes_left s1 = bytes_of (concat (map m_transfers (wait_queue s)))"
proof (cases "wait_queue s")
  case Nil
  then show ?thesis using assms by (simp add: spi_next_message_def first_transfer_def bytes_left_def)
next
  case (Cons m ms)
  then obtain t ts where "m_transfers m = t # ts" using assms(1) by (cases "m_transfers m") (auto simp: wf_message_def)
  with Cons show ?thesis by (simp add: s1 spi_next_message_def first_transfer_def bytes_left_def)
qed

lemma transfer_end_bytes:
  assumes ok: "spi_ok s" and q: "wait_queue s = m # ms" "m_transfers m = t # ts" and c: "current_message s" "current_transfer s"
    and r: "current_remaining_bytes s = 0" and e: "transfer_end cs_off t' s = (fin, s1)"
  shows "bytes_left s1 = bytes_left s"
proof (cases ts)
  case (Cons t1 ts1)
  then show ?thesis using assms by (auto simp: transfer_end_def Let_def first_transfer_def bytes_left_def)
next
  case Nil
  let ?s = "(spi_set_chipselect_mode cs_off 1 (s\<lparr>wait_queue := m\<lparr>m_transfers := [], m_finished := m_finished m @ [t']\<rparr> # ms,
    current_transfer := False\<rparr>))\<lparr>wait_queue := ms\<rparr>"
  have s1: "s1 = (case first_transfer (spi_next_message ?s) of Some t \<Rightarrow> (spi_next_message ?s)\<lparr>current_remaining_bytes := t_len t\<rparr>
       | None \<Rightarrow> spi_next_message ?s)"
    using e q Nil by (simp add: transfer_end_def Let_def)
  have "bytes_left s1 = bytes_of (concat (map m_transfers ms))"
    using next_bytes [OF _ _ s1] ok q by (simp add: spi_ok_def spi_set_chipselect_mode_def)
  then show ?thesis using q c r Nil by (simp add: bytes_left_def)
qed

lemma start_bytes: "spi_fill_txfifo t r s = (k, s1) \<Longrightarrow> bytes_left s1 = bytes_left s \<and> bytes_left (spi_start_transfer cs_off apb j s1) = bytes_left s"
  by (auto simp: spi_fill_txfifo_def Let_def spi_start_transfer_def spi_set_mode_def spi_set_chipselect_mode_def spi_set_sclk_def
      spi_set_sclk_length_def spi_sclk_start_def bytes_left_def split: option.splits if_splits)

lemma continue_split:
  assumes ok: "spi_ok s" and a: "arrived d s out"
  obtains fin s2 k s3 where "spi_ok s2" "msg_queue s2 = msg_queue s" "completed s2 = completed s" "bytes_left s2 < bytes_left s"
    "let d' = (case fin of Some m \<Rightarrow> d @ [m] | None \<Rightarrow> d) in resting d' s2 out \<and> wait_queue s2 = [] \<or> ready d' s2 out"
    "spi_fill_txfifo (first_transfer s2) (current_remaining_bytes s2) s2 = (k, s3)"
    "spi_continue_transfer cs_off apb s =
       (let u = (if k \<noteq> 0 then spi_start_transfer cs_off apb k s3 else s3)
        in case fin of Some m \<Rightarrow> u\<lparr>completed := completed u @ [m]\<rparr> | None \<Rightarrow> u)"
proof -
  let ?r = "current_remaining_bytes s"
  obtain m t ts ms rs where e: "engaged m t ts ms s" and rs: "0 < length rs" "length rs \<le> ?r"
      "rx_fifo s = fifo_words (put_word (big_endian s)) rs" "rx_fifo_cnt s = length rs"
    and out: "out = promise d m (received (t_len t - ?r) rs t) (t_len t - ?r + length rs) ts ms (slave s)"
    using a by (auto simp: arrived_def)
  define t1 where t1: "t1 = received (t_len t - ?r) rs t"
  define s1 where s1: "s1 = s\<lparr>rx_fifo := [], rx_fifo_cnt := 0, wait_queue := m\<lparr>m_transfers := t1 # ts\<rparr> # ms,
    current_remaining_bytes := ?r - length rs\<rparr>"
  have wq: "wait_queue s = m # ms" "m_transfers m = t # ts" "?r \<le> t_len t" "current_message s" "current_transfer s"
    using e by (auto simp: engaged_def)
  have g: "spi_get_rxfifo t ?r s = (length rs, t1, s\<lparr>rx_fifo := [], rx_fifo_cnt := 0\<rparr>)"
    unfolding t1 by (rule stored_chunk [OF ok e rs(3,4)])
  have "wf_transfer t1" using wf_received [OF engaged_wf [OF ok e]] rs wq by (simp add: t1)
  then have ok1: "spi_ok s1" using ok wq by (auto simp: s1 spi_ok_def wf_message_def)
  have rest1: "at_rest s1" "\<not> cs_high s1" "current_message s1" "current_transfer s1" using a wq by (auto simp: s1 at_rest_def arrived_def)
  have less: "bytes_left s1 < bytes_left s" using wq rs(1,2) by (auto simp: bytes_left_def s1 simp del: length_greater_0_conv)
  have rem1: "current_remaining_bytes s1 = ?r - length rs" by (simp add: s1)
  have fold1: "(put_transfer t1 (s\<lparr>rx_fifo := [], rx_fifo_cnt := 0\<rparr>))
      \<lparr>current_remaining_bytes := current_remaining_bytes (put_transfer t1 (s\<lparr>rx_fifo := [], rx_fifo_cnt := 0\<rparr>)) - length rs\<rparr> = s1"
    using wq by (simp add: put_transfer_def s1)
  obtain fin s2 where s2: "(if ?r - length rs = 0 then transfer_end cs_off t1 s1 else (None, s1)) = (fin, s2)"
    by (cases "if ?r - length rs = 0 then transfer_end cs_off t1 s1 else (None, s1)") auto
  have step: "spi_ok s2 \<and> msg_queue s2 = msg_queue s1 \<and> completed s2 = completed s1 \<and>
      (let d' = (case fin of Some m \<Rightarrow> d @ [m] | None \<Rightarrow> d) in resting d' s2 out \<and> wait_queue s2 = [] \<or> ready d' s2 out) \<and>
      bytes_left s2 = bytes_left s1"
  proof (cases "?r = length rs")
    case True
    then have "out = promise d (m\<lparr>m_transfers := t1 # ts\<rparr>) t1 (t_len t1) ts ms (slave s1)"
      using wq by (simp add: out t1 s1 promise_def)
    with True s2 show ?thesis
      using transfer_end_cases [OF ok1 rest1(1), of "m\<lparr>m_transfers := t1 # ts\<rparr>" ms t1 ts out d fin s2] rest1
        transfer_end_bytes [OF ok1, of "m\<lparr>m_transfers := t1 # ts\<rparr>" ms t1 ts t1 fin s2]
      by (simp add: s1)
  next
    case False
    then have "s2 = s1" "fin = None" using s2 rs(2) by auto
    moreover have "ready d s1 out"
      using rest1 wq rs False unfolding ready_def
      by (auto simp: engaged_def s1 out t1 promise_def intro!: exI [of _ "m\<lparr>m_transfers := t1 # ts\<rparr>"] exI [of _ t1])
    ultimately show ?thesis using ok1 by simp
  qed
  obtain k s3 where s3: "spi_fill_txfifo (first_transfer s2) (current_remaining_bytes s2) s2 = (k, s3)" by force
  have c: "spi_continue_transfer cs_off apb s =
      (let u = (if k \<noteq> 0 then spi_start_transfer cs_off apb k s3 else s3)
       in case fin of Some m \<Rightarrow> u\<lparr>completed := completed u @ [m]\<rparr> | None \<Rightarrow> u)"
    by (simp only: spi_continue_transfer_def engaged_first [OF e] option.case g prod.case Let_def fold1 rem1 s2 s3)
  show thesis by (rule that [OF _ _ _ _ _ s3 c]) (use step less in \<open>simp_all add: s1\<close>)
qed

lemma continue_inv:
  assumes ok: "spi_ok s" and a: "arrived (completed s) s out" and q: "msg_queue s = Some []"
  shows "spi_inv (spi_continue_transfer cs_off apb s) out"
proof -
  obtain fin s2 k s3 where s2: "spi_ok s2" "msg_queue s2 = msg_queue s" "completed s2 = completed s"
    "let d' = (case fin of Some m \<Rightarrow> completed s @ [m] | None \<Rightarrow> completed s) in resting d' s2 out \<and> wait_queue s2 = [] \<or> ready d' s2 out"
    and s3: "spi_fill_txfifo (first_transfer s2) (current_remaining_bytes s2) s2 = (k, s3)"
    and c: "spi_continue_transfer cs_off apb s =
       (let u = (if k \<noteq> 0 then spi_start_transfer cs_off apb k s3 else s3)
        in case fin of Some m \<Rightarrow> u\<lparr>completed := completed u @ [m]\<rparr> | None \<Rightarrow> u)"
    using ok a by (rule continue_split)
  let ?d' = "case fin of Some m \<Rightarrow> completed s @ [m] | None \<Rightarrow> completed s"
  have "spi_continue_transfer cs_off apb s = (if k \<noteq> 0 then spi_start_transfer cs_off apb k s3 else s3)\<lparr>completed := ?d'\<rparr>"
    using s2(3) fill_keeps [OF s3] by (auto simp: c Let_def split: option.split)
  then show ?thesis using ready_or_rest [OF s2(1) _ _ s3, of ?d' out apb] s2 q by (simp add: Let_def)
qed

lemma continue_bytes:
  assumes ok: "spi_ok s" and a: "arrived d s out"
  shows "bytes_left (spi_continue_transfer cs_off apb s) < bytes_left s"
proof -
  obtain fin s2 k s3 where l: "bytes_left s2 < bytes_left s"
    and s3: "spi_fill_txfifo (first_transfer s2) (current_remaining_bytes s2) s2 = (k, s3)"
    and c: "spi_continue_transfer cs_off apb s =
       (let u = (if k \<noteq> 0 then spi_start_transfer cs_off apb k s3 else s3)
        in case fin of Some m \<Rightarrow> u\<lparr>completed := completed u @ [m]\<rparr> | None \<Rightarrow> u)"
    using ok a by (rule continue_split)
  show ?thesis unfolding c using l start_bytes [OF s3] by (auto simp: Let_def split: option.split)
qed

subsection \<open>Every step\<close>

lemma queue_send:
  "msg_queue s = Some q \<Longrightarrow> length q < 8 \<Longrightarrow> tls_spi_queue_send ok msg s = s\<lparr>msg_queue := Some (q @ [msg])\<rparr>"
  "msg_queue s = None \<Longrightarrow> tls_spi_queue_send True msg s = s\<lparr>msg_queue := Some [msg]\<rparr>"
  by (simp_all add: tls_spi_queue_send_def tls_spi_task_init_def)

lemma inv_busy: "spi_inv s out \<Longrightarrow> spi_busy s \<Longrightarrow> sending (completed s) s out \<and> msg_queue s = Some []"
  by (auto simp: spi_inv_def resting_def at_rest_def arrived_def)

lemma irq_done:
  assumes ok: "spi_ok s" and sn: "sending (completed s) s out" "msg_queue s = Some []"
    and st: "bit st 6" "st AND NOT (spi_int_masked s) AND 3 = 0"
  shows "SPI_LS_IRQHandler True cs_off apb st (spi_unit_run clock s) =
      (if transtype (spi_unit_run clock s) = SPI_WORD_TRANSFER then spi_continue_transfer cs_off apb (spi_unit_run clock s)
       else (spi_unit_run clock s)\<lparr>msg_queue := Some [SPI_SCHED_MSG_TRANSFER_COMPLETE]\<rparr>)"
proof -
  let ?u = "spi_unit_run clock s"
  have m: "spi_int_masked ?u = spi_int_masked s" by (simp add: spi_unit_run_def split_beta Let_def)
  have d: "(st AND NOT (spi_int_masked s AND 0xff)) AND push_bit 6 1 \<noteq> 0"
    unfolding irq_bit using st(1) ok by (simp add: spi_ok_def bit_simps)
  have "\<not> bit (st AND NOT (spi_int_masked s) AND 3) 0" "\<not> bit (st AND NOT (spi_int_masked s) AND 3) 1"
    by (simp_all only: st bit_0_eq bot_apply bot_bool_def not_False_eq_True)
  then have "\<not> bit (st AND NOT (spi_int_masked s AND 0xff)) 0" "\<not> bit (st AND NOT (spi_int_masked s AND 0xff)) 1"
    by (simp_all add: bit_simps)
  then have z: "(st AND NOT (spi_int_masked s AND 0xff)) AND push_bit 0 1 = 0" "(st AND NOT (spi_int_masked s AND 0xff)) AND push_bit 1 1 = 0"
    unfolding irq_bit by simp_all
  show ?thesis
    unfolding SPI_LS_IRQHandler_def Let_def m using d z queue_send(1) [of ?u "[]" True] sn(2) unit_answers(3) [OF ok sn(1)] by simp
qed

lemma irq_inv:
  assumes inv: "spi_inv s out" and b: "spi_busy s" and st: "bit st 6" "st AND NOT (spi_int_masked s) AND 3 = 0"
  shows "spi_inv (SPI_LS_IRQHandler True cs_off apb st (spi_unit_run clock s)) out"
proof -
  let ?u = "spi_unit_run clock s"
  have ok: "spi_ok s" and sn: "sending (completed s) s out" "msg_queue s = Some []" using inv inv_busy [OF inv b] by (auto simp: spi_inv_def)
  note u = unit_answers [OF ok sn(1)] and h = irq_done [OF ok sn st, of apb]
  show ?thesis
  proof (cases "transtype ?u = SPI_WORD_TRANSFER")
    case True
    then show ?thesis using continue_inv [OF u(2), of out apb] u(1,3,4) sn(2) by (simp add: h)
  next
    case False
    then show ?thesis using u by (simp add: h spi_inv_def)
  qed
qed

lemma start_engine_sends:
  assumes ok: "spi_ok s" and r: "resting (completed s) s out" and q: "wait_queue s \<noteq> []" "msg_queue s = Some []"
  shows "sending (completed s) (start_engine cs_off apb s) out \<and> spi_ok (start_engine cs_off apb s) \<and>
    msg_queue (start_engine cs_off apb s) = Some [] \<and> completed (start_engine cs_off apb s) = completed s \<and>
    bytes_left (start_engine cs_off apb s) = bytes_left s"
proof -
  let ?s1 = "case first_transfer (spi_next_message s) of Some t \<Rightarrow> (spi_next_message s)\<lparr>current_remaining_bytes := t_len t\<rparr>
     | None \<Rightarrow> spi_next_message s"
  have rd: "ready (completed s) ?s1 out"
    using next_message [of s out "completed s" ?s1] r q ok by (auto simp: resting_def at_rest_def spi_ok_def)
  have ok1: "spi_ok ?s1" "msg_queue ?s1 = Some []" "completed ?s1 = completed s"
    using ok q(2) by (auto simp: spi_ok_def spi_next_message_def wf_message_def split: list.split option.split)
  have b: "bytes_left ?s1 = bytes_left s"
    using next_bytes [of s ?s1] ok r by (simp add: spi_ok_def resting_def bytes_left_def)
  obtain k s2 where s2: "spi_fill_txfifo (first_transfer ?s1) (current_remaining_bytes ?s1) ?s1 = (k, s2)" by force
  obtain m ms t ts where "wait_queue s = m # ms" "m_transfers m = t # ts"
    using q(1) ok by (cases "wait_queue s"; cases "m_transfers (hd (wait_queue s))") (auto simp: spi_ok_def wf_message_def)
  then have "first_transfer (spi_next_message s) = Some t" "first_transfer ?s1 = Some t" "current_remaining_bytes ?s1 = t_len t"
    by (simp_all add: spi_next_message_def first_transfer_def)
  then have "start_engine cs_off apb s = spi_start_transfer cs_off apb k s2"
    using s2 r by (simp add: start_engine_def Let_def resting_def)
  then show ?thesis using start_sending [OF ok1(1) rd, of apb] s2 ok1 b start_bytes [OF s2] by auto
qed

lemma sched_cases:
  assumes inv: "spi_inv s out"
  obtains (idle) "msg_queue s = None \<or> msg_queue s = Some []" "spi_scheduler cs_off apb s = s"
    | (start) s0 where "spi_ok s0" "resting (completed s0) s0 out" "wait_queue s0 \<noteq> []" "msg_queue s0 = Some []"
        "s0 = s\<lparr>msg_queue := Some []\<rparr>" "spi_scheduler cs_off apb s = start_engine cs_off apb s0"
    | (arr) s0 where "spi_ok s0" "arrived (completed s0) s0 out" "msg_queue s0 = Some []"
        "s0 = s\<lparr>msg_queue := Some []\<rparr>" "spi_scheduler cs_off apb s = spi_continue_transfer cs_off apb s0"
proof -
  consider (idle') "msg_queue s = None \<or> msg_queue s = Some []"
    | (start') "resting (completed s) s out" "wait_queue s \<noteq> []" "msg_queue s = Some [SPI_SCHED_MSG_START_ENGINE]"
    | (arr') "arrived (completed s) s out" "msg_queue s = Some [SPI_SCHED_MSG_TRANSFER_COMPLETE]"
    using inv by (auto simp: spi_inv_def split: if_splits)
  then show thesis
  proof cases
    case idle'
    then show thesis using idle by (auto simp: spi_scheduler_def)
  next
    case start'
    then show thesis using start [of "s\<lparr>msg_queue := Some []\<rparr>"] inv by (simp add: spi_scheduler_def spi_inv_def resting_def at_rest_def)
  next
    case arr'
    then show thesis using arr [of "s\<lparr>msg_queue := Some []\<rparr>"] inv by (simp add: spi_scheduler_def spi_inv_def)
  qed
qed

lemma sched_inv:
  assumes inv: "spi_inv s out"
  shows "spi_inv (spi_scheduler cs_off apb s) out"
  using inv
proof (cases rule: sched_cases [where apb = apb])
  case (start s0)
  then show ?thesis using start_engine_sends [OF start(1-4), of apb] by (auto simp: spi_inv_def)
next
  case (arr s0)
  then show ?thesis using continue_inv [OF arr(1-3), of apb] by simp
qed (use inv in simp)

lemma promise_append:
  "promise d m t p ts (ms @ [m'\<lparr>m_status := x\<rparr>]) c =
     (fst (promise d m t p ts ms c) @ fst (serial xchg cs_off [m'] (snd (promise d m t p ts ms c))),
      snd (serial xchg cs_off [m'] (snd (promise d m t p ts ms c))))"
  by (simp add: promise_def remainder_def serial_append split_beta Let_def)

lemma submit_inv:
  assumes inv: "spi_inv s out" and m: "wf_message m"
    and a: "tls_spi_async True (Some m) (Some s) = (TLS_SPI_STATUS_OK, Some s')"
  shows "spi_inv s' (fst out @ fst (serial xchg cs_off [m] (snd out)), snd (serial xchg cs_off [m] (snd out)))"
proof -
  let ?m = "m\<lparr>m_status := SPI_MESSAGE_STATUS_IDLE\<rparr>"
  let ?s = "s\<lparr>wait_queue := wait_queue s @ [?m]\<rparr>"
  have ok: "spi_ok s" using inv by (simp add: spi_inv_def)
  have s': "s' = (if wait_queue s = [] then tls_spi_queue_send True SPI_SCHED_MSG_START_ENGINE ?s else ?s)"
    using a by (auto simp: tls_spi_async_def Let_def split: if_splits)
  have ok': "spi_ok ?s" using ok m by (simp add: spi_ok_def wf_message_def)
  consider (rest) "resting (completed s) s out" "wait_queue s = []" "msg_queue s = None \<or> msg_queue s = Some []"
    | (more) "resting (completed s) s out" "wait_queue s \<noteq> []" "msg_queue s = Some [SPI_SCHED_MSG_START_ENGINE]"
    | (sends) "sending (completed s) s out" "msg_queue s = Some []"
    | (arr) "arrived (completed s) s out" "msg_queue s = Some [SPI_SCHED_MSG_TRANSFER_COMPLETE]"
    using inv by (auto simp: spi_inv_def split: if_splits)
  then show ?thesis
  proof cases
    case rest
    then have "s' = ?s\<lparr>msg_queue := Some [SPI_SCHED_MSG_START_ENGINE]\<rparr>" using queue_send [of ?s] s' by auto
    then show ?thesis using rest ok' by (auto simp: spi_inv_def resting_def at_rest_def spi_ok_def)
  next
    case more
    then show ?thesis using s' ok' by (auto simp: spi_inv_def resting_def at_rest_def serial_append split_beta Let_def)
  next
    case sends
    then have "wait_queue s \<noteq> []" by (auto simp: sending_def engaged_def)
    moreover have "sending (completed s) ?s (fst out @ fst (serial xchg cs_off [m] (snd out)), snd (serial xchg cs_off [m] (snd out)))"
      using sends(1) unfolding sending_def by (fastforce simp: engaged_def promise_append)
    ultimately show ?thesis using s' ok' sends by (simp add: spi_inv_def)
  next
    case arr
    then have "wait_queue s \<noteq> []" by (auto simp: arrived_def engaged_def)
    moreover have "arrived (completed s) ?s (fst out @ fst (serial xchg cs_off [m] (snd out)), snd (serial xchg cs_off [m] (snd out)))"
      using arr(1) unfolding arrived_def by (fastforce simp: engaged_def promise_append)
    ultimately show ?thesis using s' ok' arr by (simp add: spi_inv_def)
  qed
qed

subsection \<open>Work ends\<close>

definition effort :: "'c spi \<Rightarrow> nat" where
  "effort s = 3 * bytes_left s + (if \<not> current_message s then 2 else if spi_busy s then 1 else 0)"

lemma continue_effort: "spi_ok s \<Longrightarrow> arrived d s out \<Longrightarrow> effort (spi_continue_transfer cs_off apb s) < 3 * bytes_left s"
  using continue_bytes [of s d out apb] by (auto simp: effort_def)

lemma clock_inv [simp]: "spi_inv (s\<lparr>lspi_clock := b\<rparr>) out = spi_inv s out"
  by (simp add: spi_inv_def spi_ok_def resting_def sending_def arrived_def at_rest_def engaged_def)

lemma work_clock [simp]: "lspi_clock (spi_work clock cs_off apb s) = lspi_clock s"
  by (simp add: spi_work_def clock_frame)

lemma work_inv:
  assumes inv: "spi_inv s out" and q: "wait_queue s \<noteq> []" and on: "lspi_clock s"
  shows "spi_inv (spi_work clock cs_off apb s) out \<and> effort (spi_work clock cs_off apb s) < effort s"
proof (cases "spi_busy s")
  case True
  let ?u = "spi_unit_run clock s"
  have ok: "spi_ok s" and sn: "sending (completed s) s out" "msg_queue s = Some []" using inv inv_busy [OF inv True] by (auto simp: spi_inv_def)
  note u = unit_answers [OF ok sn(1)]
  have c: "current_message s" using sn by (auto simp: sending_def engaged_def)
  have k: "bytes_left ?u = bytes_left s" "current_message ?u" "\<not> spi_busy ?u" "spi_int_masked ?u = spi_int_masked s"
    using c by (simp_all add: spi_unit_run_def bytes_left_def split_beta Let_def)
  have st: "bit (SPI_INT_TRANSFER_DONE :: u32) 6" "SPI_INT_TRANSFER_DONE AND NOT (spi_int_masked s) AND 3 = 0"
    using and.left_commute [of "64 :: u32" "NOT (spi_int_masked s)" 3] by (simp_all add: bit_simps)
  note i = irq_inv [OF inv True st, of apb]
  have h: "SPI_LS_IRQHandler True cs_off apb SPI_INT_TRANSFER_DONE ?u =
      (if transtype ?u = SPI_WORD_TRANSFER then spi_continue_transfer cs_off apb ?u
       else ?u\<lparr>msg_queue := Some [SPI_SCHED_MSG_TRANSFER_COMPLETE]\<rparr>)"
    by (rule irq_done [OF ok sn st])
  have "effort (SPI_LS_IRQHandler True cs_off apb SPI_INT_TRANSFER_DONE ?u) < effort s"
    unfolding h using continue_effort [OF u(2,1), of apb] k c True by (auto simp: effort_def)
  with i True on show ?thesis by (simp add: spi_work_def)
next
  case False
  then have w: "spi_work clock cs_off apb s = spi_scheduler cs_off apb s" using on by (simp add: spi_work_def)
  have "effort (spi_scheduler cs_off apb s) < effort s"
    using inv
  proof (cases rule: sched_cases [where apb = apb])
    case idle
    then show ?thesis using inv q False by (auto simp: spi_inv_def sending_def)
  next
    case (start s0)
    have "sending (completed s0) (start_engine cs_off apb s0) out" "bytes_left (start_engine cs_off apb s0) = bytes_left s0"
      using start_engine_sends [OF start(1-4), of apb] by simp_all
    then show ?thesis using start by (auto simp: effort_def sending_def engaged_def resting_def)
  next
    case (arr s0)
    then show ?thesis using continue_effort [OF arr(1,2), of apb] by (simp add: effort_def)
  qed
  then show ?thesis using sched_inv [OF inv] w by simp
qed

lemma work_ends:
  "spi_inv s out \<Longrightarrow> lspi_clock s \<Longrightarrow> \<exists>k. let s' = (spi_work clock cs_off apb ^^ k) s in wait_queue s' = [] \<and> spi_inv s' out"
proof (induction s rule: measure_induct_rule [of effort])
  case (less s)
  show ?case
  proof (cases "wait_queue s = []")
    case True
    then show ?thesis using less.prems by (intro exI [of _ 0]) simp
  next
    case False
    let ?s = "spi_work clock cs_off apb s"
    obtain k where "let s' = (spi_work clock cs_off apb ^^ k) ?s in wait_queue s' = [] \<and> spi_inv s' out"
      using less.IH [of ?s] work_inv [OF less.prems(1) False less.prems(2), of apb] less.prems(2) by auto
    then show ?thesis by (intro exI [of _ "Suc k"]) (simp add: funpow_swap1)
  qed
qed

lemma inv_idle: "spi_inv s out \<Longrightarrow> wait_queue s = [] \<Longrightarrow> completed s = fst out \<and> slave s = snd out"
  by (auto simp: spi_inv_def resting_def sending_def arrived_def engaged_def)

lemma inv_prefix: "spi_inv s out \<Longrightarrow> \<exists>r. fst out = completed s @ r \<and> length r = length (wait_queue s)"
  by (auto simp: spi_inv_def resting_def sending_def arrived_def engaged_def promise_def remainder_def split_beta Let_def)

end

section \<open>All runs\<close>

text \<open>
  The states after installation and any sequence of submissions, interrupts of the unit, rounds of the task, switches of the clock and, while no
  message is queued, changes to word transfers; \<open>ms\<close> are the messages submitted so far, in order, and \<open>c\<close> is the slave at the
  start.  The unit and the task run only while the clock is open.
\<close>

inductive spi_run :: "'c spi_clock \<Rightarrow> ('c \<Rightarrow> 'c) \<Rightarrow> u32 \<Rightarrow> 'c \<Rightarrow> spi_message list \<Rightarrow> 'c spi \<Rightarrow> bool"
  for clock cs_off apb c where
  installed: "tls_spi_init True True cs_off apb hw None = (TLS_SPI_STATUS_OK, Some s) \<Longrightarrow> \<not> spi_busy hw \<Longrightarrow> completed hw = [] \<Longrightarrow>
    slave s = c \<Longrightarrow> spi_run clock cs_off apb c [] s"
| word_mode: "spi_run clock cs_off apb c ms s \<Longrightarrow> wait_queue s = [] \<Longrightarrow>
    spi_run clock cs_off apb c ms (tls_spi_trans_type ok apb SPI_WORD_TRANSFER s)"
| submit: "spi_run clock cs_off apb c ms s \<Longrightarrow> wf_message m \<Longrightarrow>
    tls_spi_async True (Some m) (Some s) = (TLS_SPI_STATUS_OK, Some s') \<Longrightarrow> spi_run clock cs_off apb c (ms @ [m]) s'"
| gate: "spi_run clock cs_off apb c ms s \<Longrightarrow> spi_run clock cs_off apb c ms (s\<lparr>lspi_clock := on\<rparr>)"
| sched: "spi_run clock cs_off apb c ms s \<Longrightarrow> lspi_clock s \<Longrightarrow> spi_run clock cs_off apb c ms (spi_scheduler cs_off apb s)"
| irq: "spi_run clock cs_off apb c ms s \<Longrightarrow> lspi_clock s \<Longrightarrow> spi_busy s \<Longrightarrow> bit st 6 \<Longrightarrow> st AND NOT (spi_int_masked s) AND 3 = 0 \<Longrightarrow>
    spi_run clock cs_off apb c ms (SPI_LS_IRQHandler True cs_off apb st (spi_unit_run clock s))"

context spi_unit
begin

lemma installed_inv:
  assumes "tls_spi_init True True cs_off apb hw None = (TLS_SPI_STATUS_OK, Some s)" and "\<not> spi_busy hw" and "completed hw = []"
  shows "spi_inv s ([], slave s)"
  using assms
  by (auto simp: tls_spi_init_def Let_def spi_set_endian_def tls_spi_trans_type_def spi_set_mode_def spi_set_chipselect_mode_def
      spi_set_sclk_def spi_inv_def spi_ok_def resting_def at_rest_def byte_order_def bit_simps)

lemma word_mode_inv:
  "spi_inv s out \<Longrightarrow> wait_queue s = [] \<Longrightarrow> spi_inv (tls_spi_trans_type ok apb SPI_WORD_TRANSFER s) out"
  by (auto simp: tls_spi_trans_type_def spi_set_endian_def spi_inv_def spi_ok_def resting_def at_rest_def byte_order_def
      sending_def arrived_def engaged_def)

lemma run_inv: "spi_run clock cs_off apb c ms s \<Longrightarrow> spi_inv s (serial xchg cs_off ms c)"
proof (induction rule: spi_run.induct)
  case (installed hw s)
  then show ?case using installed_inv by fastforce
next
  case (submit ms s m s')
  then show ?case using submit_inv [OF submit.IH submit.hyps(2,3)] by (simp add: serial_append)
qed (auto intro: word_mode_inv sched_inv irq_inv)

end

subsection \<open>A unit\<close>

definition unit_clock :: "(u8 \<Rightarrow> 'c \<Rightarrow> u8 \<times> 'c) \<Rightarrow> 'c spi_clock" where
  "unit_clock xchg n big ws c =
     (let (rs, c) = shift xchg (take n (wire big ws)) c in (fifo_words (put_word big) rs, c))"

interpretation spi_master: spi_unit "unit_clock xchg" xchg cs_off for xchg cs_off
  by unfold_locales (simp add: unit_clock_def split_beta Let_def)

end
