(* ===== verification/Spi_Props.thy ===== *)
theory Spi_Props
  imports Spi_Correct
begin

text \<open>
  What the SPI driver guarantees its users, over \<open>Spi_Correct\<close>: messages are served in order, a synchronous operation returns with
  the answer of the slave, and DMA transfers are as good as those through the FIFOs, with one exception.
\<close>

section \<open>Synchronous operations\<close>

context spi_unit
begin

definition idle :: "'c spi \<Rightarrow> bool" where
  "idle s \<longleftrightarrow> wait_queue s = [] \<and> spi_inv s (completed s, slave s)"

lemma wait_returns:
  "spi_inv s out \<Longrightarrow> lspi_clock s \<Longrightarrow> sem \<in> m_context ` set (fst out) \<Longrightarrow>
   \<exists>s'. spi_wait clock cs_off apb sem s = Some s' \<and> spi_inv s' out \<and> sem \<in> m_context ` set (completed s')"
proof (induction s rule: measure_induct_rule [of effort])
  case (less s)
  show ?case
  proof (cases "sem \<in> m_context ` set (completed s)")
    case True
    then show ?thesis using less.prems by (subst spi_wait.simps) auto
  next
    case False
    then have q: "wait_queue s \<noteq> []" using inv_idle [OF less.prems(1)] less.prems(3) by auto
    have "spi_wait clock cs_off apb sem s = spi_wait clock cs_off apb sem (spi_work clock cs_off apb s)"
      using False by (subst spi_wait.simps) auto
    with less.IH [of "spi_work clock cs_off apb s"] less.prems work_inv [OF less.prems(1) q less.prems(2), of apb] show ?thesis by auto
  qed
qed

lemma sync_done:
  assumes s: "idle s" and ts: "ts \<noteq> []" "list_all wf_transfer ts" and sem: "sem \<notin> m_context ` set (completed s)"
  obtains s' where "tls_spi_sync clock cs_off apb (Some sem) ts (Some s) = Some (TLS_SPI_STATUS_OK, Some s')" "idle s'"
    "completed s' = completed s @ [\<lparr>m_context = sem, m_transfers = [], m_finished = fst (exec_transfers xchg ts (slave s)),
       m_status = SPI_MESSAGE_STATUS_DONE\<rparr>]"
    "slave s' = cs_off (snd (exec_transfers xchg ts (slave s)))"
proof -
  let ?m = "\<lparr>m_context = sem, m_transfers = ts, m_finished = [], m_status = 0\<rparr>"
  let ?m' = "\<lparr>m_context = sem, m_transfers = [], m_finished = fst (exec_transfers xchg ts (slave s)), m_status = SPI_MESSAGE_STATUS_DONE\<rparr>"
  let ?out = "(completed s @ [?m'], cs_off (snd (exec_transfers xchg ts (slave s))))"
  have wf: "wf_message ?m" using ts by (simp add: wf_message_def)
  have "\<not> list_ex (\<lambda>t. t_len t = 0) ts" using ts(2) by (auto simp: list_ex_iff list_all_iff wf_transfer_def)
  then obtain s1 where a: "tls_spi_async True (Some ?m) (Some (s\<lparr>lspi_clock := True\<rparr>)) = (TLS_SPI_STATUS_OK, Some s1)" "lspi_clock s1"
    using ts(1) by (simp add: tls_spi_async_def Let_def clock_frame)
  have "serial xchg cs_off [?m] (slave s) = ([?m'], snd ?out)"
    by (simp add: exec_message_def split_beta Let_def)
  then have inv: "spi_inv s1 ?out" using submit_inv [OF _ wf a(1), of "(completed s, slave s)"] s by (simp add: idle_def del: serial.simps)
  obtain s' where w: "spi_wait clock cs_off apb sem s1 = Some s'" and i: "spi_inv s' ?out" "sem \<in> m_context ` set (completed s')"
    using wait_returns [OF inv a(2), of sem apb] by auto
  obtain r where r: "completed s @ [?m'] = completed s' @ r" "length r = length (wait_queue s')" using inv_prefix [OF i(1)] by auto
  have "r = []" using r(1) i(2) sem by (cases r rule: rev_cases) auto
  then have d: "completed s' = completed s @ [?m']" "wait_queue s' = []" using r by simp_all
  then have sl: "slave s' = snd ?out" using inv_idle [OF i(1)] by simp
  show thesis
    by (rule that [of "s'\<lparr>lspi_clock := False\<rparr>"]) (use a w d sl i in \<open>simp_all add: tls_spi_sync_def idle_def\<close>)
qed

lemma find_last: "\<forall>m \<in> set xs. \<not> P m \<Longrightarrow> P m \<Longrightarrow> find P (xs @ [m]) = Some m"
  by (induction xs) auto

lemma read_with_cmd_ok:
  assumes "idle s" and "transtype s \<noteq> SPI_DMA_TRANSFER" and "tx \<noteq> []" and "rx \<noteq> []" and "sem \<notin> m_context ` set (completed s)"
  obtains s' where "tls_spi_read_with_cmd clock line cs_off apb (Some sem) stale (Some tx) (Some rx) s =
      Some (TLS_SPI_STATUS_OK, drop (length tx) (fst (shift xchg (tx @ replicate (length rx) 0xff) (slave s))), s')" "idle s'"
    "slave s' = cs_off (snd (shift xchg (tx @ replicate (length rx) 0xff) (slave s)))" "map m_context (completed s') = map m_context (completed s) @ [sem]"
proof -
  let ?ts = "[\<lparr>tx_buf = Some tx, rx_buf = None, t_len = length tx\<rparr>, \<lparr>tx_buf = None, rx_buf = Some rx, t_len = length rx\<rparr>]"
  obtain s' where s': "tls_spi_sync clock cs_off apb (Some sem) ?ts (Some s) = Some (TLS_SPI_STATUS_OK, Some s')" "idle s'"
    "completed s' = completed s @ [\<lparr>m_context = sem, m_transfers = [], m_finished = fst (exec_transfers xchg ?ts (slave s)),
       m_status = SPI_MESSAGE_STATUS_DONE\<rparr>]"
    "slave s' = cs_off (snd (exec_transfers xchg ?ts (slave s)))"
    using assms by (elim sync_done [of s ?ts sem apb]) (auto simp: wf_transfer_def)
  have f: "find (\<lambda>m. m_context m = sem) (completed s') = Some (last (completed s'))"
    using assms(5) by (auto simp: s'(3) intro!: find_last)
  have e: "exec_transfers xchg ?ts (slave s) =
      ([?ts ! 0, (?ts ! 1)\<lparr>rx_buf := Some (drop (length tx) (fst (shift xchg (tx @ replicate (length rx) 0xff) (slave s))))\<rparr>],
       snd (shift xchg (tx @ replicate (length rx) 0xff) (slave s)))"
    by (simp add: exec_from_def received_def sent_def shift_append split_beta Let_def)
  show thesis
    by (rule that [of s']) (use assms s' f e in \<open>simp_all add: tls_spi_read_with_cmd_def spi_reply_def\<close>)
qed

lemma write_ok:
  assumes "idle s" and "transtype s \<noteq> SPI_DMA_TRANSFER" and "bs \<noteq> []" and "sem \<notin> m_context ` set (completed s)"
  obtains s' where "tls_spi_write clock line cs_off apb (Some sem) (Some bs) s = Some (TLS_SPI_STATUS_OK, s')" "idle s'"
    "slave s' = cs_off (snd (shift xchg bs (slave s)))" "map m_context (completed s') = map m_context (completed s) @ [sem]"
proof -
  let ?ts = "[\<lparr>tx_buf = Some bs, rx_buf = None, t_len = length bs\<rparr>]"
  obtain s' where s': "tls_spi_sync clock cs_off apb (Some sem) ?ts (Some s) = Some (TLS_SPI_STATUS_OK, Some s')" "idle s'"
    "completed s' = completed s @ [\<lparr>m_context = sem, m_transfers = [], m_finished = fst (exec_transfers xchg ?ts (slave s)),
       m_status = SPI_MESSAGE_STATUS_DONE\<rparr>]"
    "slave s' = cs_off (snd (exec_transfers xchg ?ts (slave s)))"
    using assms by (elim sync_done [of s ?ts sem apb]) (auto simp: wf_transfer_def)
  show thesis
    by (rule that [of s']) (use assms s' in \<open>simp_all add: tls_spi_write_def exec_from_def sent_def split_beta Let_def\<close>)
qed

lemma write_with_cmd_ok:
  assumes "idle s" and "transtype s \<noteq> SPI_DMA_TRANSFER" and "cmd \<noteq> []" and "bs \<noteq> []" and "sem \<notin> m_context ` set (completed s)"
  obtains s' where "tls_spi_write_with_cmd clock line cs_off apb (Some sem) (Some cmd) (Some bs) s = Some (TLS_SPI_STATUS_OK, s')" "idle s'"
    "slave s' = cs_off (snd (shift xchg (cmd @ bs) (slave s)))" "map m_context (completed s') = map m_context (completed s) @ [sem]"
proof -
  let ?ts = "[\<lparr>tx_buf = Some cmd, rx_buf = None, t_len = length cmd\<rparr>, \<lparr>tx_buf = Some bs, rx_buf = None, t_len = length bs\<rparr>]"
  obtain s' where s': "tls_spi_sync clock cs_off apb (Some sem) ?ts (Some s) = Some (TLS_SPI_STATUS_OK, Some s')" "idle s'"
    "completed s' = completed s @ [\<lparr>m_context = sem, m_transfers = [], m_finished = fst (exec_transfers xchg ?ts (slave s)),
       m_status = SPI_MESSAGE_STATUS_DONE\<rparr>]"
    "slave s' = cs_off (snd (exec_transfers xchg ?ts (slave s)))"
    using assms by (elim sync_done [of s ?ts sem apb]) (auto simp: wf_transfer_def)
  show thesis
    by (rule that [of s']) (use assms s' in \<open>simp_all add: tls_spi_write_with_cmd_def exec_from_def sent_def shift_append split_beta Let_def\<close>)
qed

end

section \<open>Properties\<close>


definition demo_xchg :: "u8 \<Rightarrow> u8 \<Rightarrow> u8 \<times> u8" where
  "demo_xchg b c = (c, b)"

definition demo_hw :: "u8 spi" where
  "demo_hw = \<lparr>speed_hz = 0, cs_active = 0, spi_mode = 0, reconfig = False, transtype = SPI_BYTE_TRANSFER, wait_queue = [],
     msg_queue = None, current_message = False, current_transfer = False, current_remaining_bytes = 0, big_endian = False,
     cs_high = True, sclk_bits = 0, tx_fifo = [], rx_fifo = [], rx_fifo_cnt = 0, spi_busy = False, unit_mode = 0, unit_sclk = 0,
     spi_int_masked = 0xff, dma_bufs = False, lspi_clock = False, slave = 7, completed = []\<rparr>"

definition demo_message :: spi_message where
  "demo_message = \<lparr>m_context = 5, m_transfers = [\<lparr>tx_buf = Some [1, 2, 3], rx_buf = Some [0, 0, 0], t_len = 3\<rparr>], m_finished = [],
     m_status = 0\<rparr>"

definition demo_submitted :: "u8 spi" where
  "demo_submitted = (the (snd (tls_spi_async True (Some demo_message) (snd (tls_spi_init True True (\<lambda>c. c) 40 demo_hw None)))))"

lemma demo_run: "spi_run (unit_clock demo_xchg) (\<lambda>c. c) 40 7 [demo_message] demo_submitted"
proof -
  obtain s where s: "tls_spi_init True True (\<lambda>c. c) 40 demo_hw None = (TLS_SPI_STATUS_OK, Some s)" "slave s = 7"
    by (simp add: tls_spi_init_def Let_def demo_hw_def spi_set_chipselect_mode_def spi_set_endian_def tls_spi_trans_type_def
        spi_set_mode_def spi_set_sclk_def)
  have "spi_run (unit_clock demo_xchg) (\<lambda>c. c) 40 7 [] s"
    by (rule spi_run.installed [OF s(1)]) (use s(2) in \<open>simp_all add: demo_hw_def\<close>)
  moreover have "wf_message demo_message" by (simp add: demo_message_def wf_message_def wf_transfer_def)
  moreover obtain s' where "tls_spi_async True (Some demo_message) (Some s) = (TLS_SPI_STATUS_OK, Some s')"
    by (simp add: tls_spi_async_def demo_message_def Let_def)
  ultimately show ?thesis using spi_run.submit [of "unit_clock demo_xchg" "\<lambda>c. c" 40 7 "[]" s demo_message s'] s(1) by (simp add: demo_submitted_def)
qed


section \<open>Defects\<close>

text \<open>Installation leaves the clock closed and \<^verbatim>\<open>tls_spi_async\<close> does not open it: a message submitted this way is accepted and never served.\<close>

lemma async_without_clock:
  assumes "tls_spi_init True True cs_off apb hw None = (TLS_SPI_STATUS_OK, Some s)" and "wf_message m"
  shows "\<exists>s'. tls_spi_async True (Some m) (Some s) = (TLS_SPI_STATUS_OK, Some s') \<and> (\<forall>k. (spi_work clock cs_off apb ^^ k) s' = s')"
proof -
  have "\<not> list_ex (\<lambda>t. t_len t = 0) (m_transfers m)" "m_transfers m \<noteq> []"
    using assms(2) by (auto simp: wf_message_def list_ex_iff list_all_iff wf_transfer_def)
  moreover have "\<not> lspi_clock s" using assms(1) by (auto simp: tls_spi_init_def Let_def)
  ultimately obtain s' where s': "tls_spi_async True (Some m) (Some s) = (TLS_SPI_STATUS_OK, Some s')" "\<not> lspi_clock s'"
    by (simp add: tls_spi_async_def Let_def clock_frame)
  have "(spi_work clock cs_off apb ^^ k) s' = s'" for k using s'(2) by (induction k) (simp_all add: spi_work_def)
  then show ?thesis using s'(1) by blast
qed

text \<open>
  Returning from word to byte transfers does not restore the byte order of the unit: each group of four bytes then appears
  reversed on the line.
\<close>

lemma byte_mode_after_word_mode:
  "let s' = tls_spi_trans_type ok apb SPI_BYTE_TRANSFER (tls_spi_trans_type ok apb SPI_WORD_TRANSFER s)
   in wire (big_endian s') (tx_words (transtype s') (Some [a, b, c, d]) 0 4) = [d, c, b, a]"
  by (auto simp: tls_spi_trans_type_def spi_set_endian_def wire_def tx_words_def fifo_word_def get_word_def put_word_def upto4
      u8_high bit_simps intro!: bit_word_eqI)

text \<open>Without a transmit buffer the line carries ones, where the declaration of the structure says zeroes.\<close>

lemma null_buffer_sends_ones: "ty \<noteq> SPI_DMA_TRANSFER \<Longrightarrow> take 5 (wire (byte_order ty) (tx_words ty None 0 5)) = replicate 5 0xff"
  using tx_words_sent [of "\<lparr>tx_buf = None, rx_buf = None, t_len = 5\<rparr>" ty 0 5]
    wire_fifo_words [of "replicate 5 0xff" "byte_order ty"]
  by (simp add: wf_transfer_def sent_def)

text \<open>A set-up that is refused for its chip select or clock has already changed the mode.\<close>

lemma refused_setup_changes_mode:
  "m \<le> 3 \<Longrightarrow> m \<noteq> spi_mode s \<Longrightarrow> fst (tls_spi_setup ok apb m 2 fclk s) = TLS_SPI_STATUS_EINVAL \<and> spi_mode (snd (tls_spi_setup ok apb m 2 fclk s)) = m"
  by (simp add: tls_spi_setup_def Let_def)

text \<open>
  When the scheduler task cannot be created for the first message, its submission still succeeds and no later one starts the
  engine either, although the creation would then succeed.
\<close>

lemma lost_start:
  assumes "wait_queue s = []" and "msg_queue s = None" and "wf_message m" and "wf_message m'"
  shows "\<exists>s1 s2. tls_spi_async False (Some m) (Some s) = (TLS_SPI_STATUS_OK, Some s1) \<and>
    tls_spi_async True (Some m') (Some s1) = (TLS_SPI_STATUS_OK, Some s2) \<and> length (wait_queue s2) = 2 \<and> msg_queue s2 = None"
proof -
  have "\<not> list_ex (\<lambda>t. t_len t = 0) (m_transfers x)" "m_transfers x \<noteq> []" if "wf_message x" for x
    using that by (auto simp: wf_message_def list_ex_iff list_all_iff wf_transfer_def)
  then show ?thesis
    using assms by (simp add: tls_spi_async_def Let_def tls_spi_queue_send_def tls_spi_task_init_def)
qed

section \<open>DMA transfers\<close>

lemma dma_write_all:
  "k * 4092 \<ge> txlen \<Longrightarrow> dma_write (shift xchg) data txlen i k c = snd (shift xchg (take txlen (drop (i * 4092) data)) c)"
proof (induction k arbitrary: txlen i c)
  case (Suc k)
  let ?d = "drop (i * 4092) data"
  show ?case
  proof (cases "txlen > 4092")
    case True
    have "take txlen ?d = take 4092 ?d @ take (txlen - 4092) (drop (Suc i * 4092) data)"
      using take_add [of 4092 "txlen - 4092" ?d] True by (simp add: add.commute)
    then have "snd (shift xchg (take txlen ?d) c) =
        snd (shift xchg (take (txlen - 4092) (drop (Suc i * 4092) data)) (snd (shift xchg (take 4092 ?d) c)))"
      by (simp only: shift_append snd_conv)
    moreover have "dma_write (shift xchg) data (txlen - 4092) (Suc i) k (snd (shift xchg (take 4092 ?d) c)) =
        snd (shift xchg (take (txlen - 4092) (drop (Suc i * 4092) data)) (snd (shift xchg (take 4092 ?d) c)))"
      by (rule Suc.IH) (use Suc.prems in simp)
    ultimately show ?thesis using True by (simp only: dma_write.simps Let_def if_True) simp
  next
    case False
    then show ?thesis using Suc.IH [of 0] by (cases "txlen = 0") (simp_all add: Let_def)
  qed
qed simp

lemma dma_block_write: "SpiDmaBlockWrite (shift xchg) data c = snd (shift xchg data c)"
proof -
  define t where t: "t = length data - length data mod 4"
  have le: "t \<le> length data" by (simp add: t)
  have "(t div 4092 + 1) * 4092 \<ge> t" using div_mult_mod_eq [of t 4092] mod_less_divisor [of 4092 t] by simp
  then have w: "dma_write (shift xchg) data t 0 (t div 4092 + 1) c = snd (shift xchg (take t data) c)"
    using dma_write_all [of t "t div 4092 + 1" xchg data 0 c] by simp
  have d: "snd (shift xchg data c) = snd (shift xchg (drop t data) (snd (shift xchg (take t data) c)))"
    using shift_append [of xchg "take t data" "drop t data" c] by simp
  show ?thesis
    unfolding SpiDmaBlockWrite_def Let_def t [symmetric] w d using le by (cases "t = length data"; cases "t = 0") simp_all
qed

lemma tail_complete:
  "length rs = len \<Longrightarrow> r \<le> len \<Longrightarrow>
   take r rs @ (if len > r then take (len - r) (if drop r rs = [] then stale else drop r rs) else []) = rs"
  by (cases "r = len") auto

text \<open>
  A read of 4093 to 4095 bytes: the first block takes 4092, the second has no whole word left and is not started, and the last one to
  three bytes are never requested from the slave; what the receive register happens to hold takes their place.
\<close>

lemma dma_read_loses_tail:
  assumes "4092 < len" and "len < 4096"
  shows "SpiDmaBlockRead (shift xchg) stale len tx c =
     (drop (length tx) (fst (shift xchg (tx @ replicate 4092 0xff) c)) @ take (len - 4092) stale, snd (shift xchg (tx @ replicate 4092 0xff) c))"
proof -
  have "len - len mod 4 = 4092" using assms by presburger
  moreover have "len - len mod 4 < len" using assms calculation by linarith
  ultimately show ?thesis
    by (simp add: SpiDmaBlockRead_def Let_def split_beta numeral_eq_Suc [of "num.One"])
qed

text \<open>Up to one block, the common case, the answer is complete.\<close>

lemma dma_read_short:
  assumes "0 < len" and "len < 4092"
  shows "SpiDmaBlockRead (shift xchg) stale len tx c =
     (drop (length tx) (fst (shift xchg (tx @ replicate len 0xff) c)), snd (shift xchg (tx @ replicate len 0xff) c))"
proof -
  define r where r: "r = len - len mod 4"
  define rs where rs: "rs = drop (length tx) (fst (shift xchg (tx @ replicate len 0xff) c))"
  have l: "length rs = len" "r \<le> len" "r div 4092 = 0" using assms by (simp_all add: rs r)
  have "dma_read (shift xchg) len r tx 0 r 0 (Suc 0) ([], [], c) = (take r rs, drop r rs, snd (shift xchg (tx @ replicate len 0xff) c))"
    using assms l(2) by (cases "r = 0") (simp_all add: Let_def split_beta rs)
  then show ?thesis
    unfolding SpiDmaBlockRead_def Let_def r [symmetric] rs [symmetric] l(3) using tail_complete [OF l(1,2), of stale] by simp
qed

text \<open>A command in front of a full buffer does not fit the allocation.\<close>

lemma write_with_cmd_overruns:
  assumes "transtype s = SPI_DMA_TRANSFER" and "dma_bufs s" and "cmd \<noteq> []" and "length tx = 8160"
  shows "tls_spi_write_with_cmd clock line cs_off apb sem (Some cmd) (Some tx) s = None"
  using assms by (auto simp: tls_spi_write_with_cmd_def)

end
