(* ===== verification/Spi_Flash.thy ===== *)
theory Spi_Flash
  imports Prelude "HOL-Library.Monad_Syntax"
begin

text \<open>
  The external flash: the module \<^verbatim>\<open>platform/drivers/flash/wm_fls.c\<close> with its chip driver \<^verbatim>\<open>wm_fls_gd25qxx.c\<close>.

  The SPI bus is a record of the operations the drivers use; \<open>Spi_Flash_Nor\<close> fills it with those of the SPI driver.  An
  operation that does not return, because the bus does not, a lock is not free or a pointer is \<^verbatim>\<open>NULL\<close>, is \<open>None\<close>.  Drivers are
  referred to by number, as the module refers to them by pointer; \<open>drv_of\<close> is the memory they are in.  The only driver in the
  repository is \<^verbatim>\<open>exspi_fls\<close>, number 0, so a call through the function pointers of a driver is a call of its functions.
\<close>

section \<open>Model\<close>

record 's spi_bus =
  bus_write :: "u8 list \<Rightarrow> 's \<Rightarrow> (int \<times> 's) option"
  bus_read_with_cmd :: "u8 list \<Rightarrow> nat \<Rightarrow> 's \<Rightarrow> (int \<times> u8 list \<times> 's) option"
  bus_write_with_cmd :: "u8 list \<Rightarrow> u8 list \<Rightarrow> 's \<Rightarrow> (int \<times> 's) option"
  bus_setup :: "u8 \<Rightarrow> u8 \<Rightarrow> u32 \<Rightarrow> 's \<Rightarrow> int \<times> 's"

record tls_fls_drv =
  drv_id :: u32
  total_size :: u32
  page_size :: u32
  program_size :: u32
  sector_size :: u32
  drv_clock :: u32
  drv_mode :: u8
  drv_cs_active :: u8
  drv_flags :: u8

record tls_fls =
  fls_drvs :: "nat list"
  current_drv :: "nat option"
  fls_lock :: nat

record 's spifls =
  spi_fls :: "tls_fls option"
  drv_of :: "nat \<Rightarrow> tls_fls_drv"
  exspifls_drv :: "nat option"
  fls_bus :: 's

abbreviation (input) TLS_FLS_STATUS_OK :: int where "TLS_FLS_STATUS_OK \<equiv> 0"
abbreviation (input) TLS_FLS_STATUS_EINVAL :: int where "TLS_FLS_STATUS_EINVAL \<equiv> 1"
abbreviation (input) TLS_FLS_STATUS_EBUSY :: int where "TLS_FLS_STATUS_EBUSY \<equiv> 2"
abbreviation (input) TLS_FLS_STATUS_EPERM :: int where "TLS_FLS_STATUS_EPERM \<equiv> 3"
abbreviation (input) TLS_FLS_STATUS_ENOSUPPORT :: int where "TLS_FLS_STATUS_ENOSUPPORT \<equiv> 4"
abbreviation (input) TLS_FLS_STATUS_EEXIST :: int where "TLS_FLS_STATUS_EEXIST \<equiv> 5"
abbreviation (input) TLS_FLS_STATUS_ENOMEM :: int where "TLS_FLS_STATUS_ENOMEM \<equiv> 6"
abbreviation (input) TLS_FLS_STATUS_EIO :: int where "TLS_FLS_STATUS_EIO \<equiv> 10"
abbreviation (input) TLS_FLS_STATUS_ENODRV :: int where "TLS_FLS_STATUS_ENODRV \<equiv> 11"

subsection \<open>The chip driver\<close>

definition swap32 :: "u32 \<Rightarrow> u32" where
  "swap32 v = push_bit 24 (v AND 0xff) OR push_bit 8 (v AND 0xff00) OR drop_bit 8 (v AND 0xff0000) OR drop_bit 24 v"

text \<open>A command word with an address, as the bytes of the variable \<^verbatim>\<open>cmd\<close> in memory.\<close>

definition cmd_bytes :: "u32 \<Rightarrow> u32 \<Rightarrow> u8 list" where
  "cmd_bytes opc addr = le32 (opc OR (swap32 addr AND 0xffffff00))"

definition tls_spifls_drv_write_enable :: "'s spi_bus \<Rightarrow> 's \<Rightarrow> (int \<times> 's) option" where
  "tls_spifls_drv_write_enable bus b = do {
     (err, b) \<leftarrow> bus_write bus [0x06] b;
     Some (if err \<noteq> 0 then TLS_FLS_STATUS_EIO else TLS_FLS_STATUS_OK, b) }"

text \<open>Poll the status register until a condition holds: the two wait loops.\<close>

partial_function (option) wait_status :: "'s spi_bus \<Rightarrow> (u8 \<Rightarrow> bool) \<Rightarrow> 's \<Rightarrow> (int \<times> 's) option" where
  "wait_status bus cond b = do {
     (err, sr, b) \<leftarrow> bus_read_with_cmd bus [0x05] 1 b;
     if err \<noteq> 0 then Some (TLS_FLS_STATUS_EIO, b)
     else if cond (hd sr) then Some (TLS_FLS_STATUS_OK, b) else wait_status bus cond b }"

definition tls_spifls_drv_wait_write_enable :: "'s spi_bus \<Rightarrow> 's \<Rightarrow> (int \<times> 's) option" where
  "tls_spifls_drv_wait_write_enable bus = wait_status bus (\<lambda>sr. sr AND push_bit 1 1 \<noteq> 0)"

definition tls_spifls_drv_wait_flash_ready :: "'s spi_bus \<Rightarrow> 's \<Rightarrow> (int \<times> 's) option" where
  "tls_spifls_drv_wait_flash_ready bus = wait_status bus (\<lambda>sr. sr AND push_bit 0 1 = 0)"

definition tls_spifls_drv_read :: "'s spi_bus \<Rightarrow> u32 \<Rightarrow> u32 \<Rightarrow> 's \<Rightarrow> (int \<times> u8 list \<times> 's) option" where
  "tls_spifls_drv_read bus addr len b = do {
     (err, bs, b) \<leftarrow> bus_read_with_cmd bus (cmd_bytes 0x03 addr) (unat len) b;
     Some (if err \<noteq> 0 then TLS_FLS_STATUS_EIO else TLS_FLS_STATUS_OK, bs, b) }"

definition tls_spifls_drv_fast_read :: "'s \<Rightarrow> (int \<times> u8 list \<times> 's) option" where
  "tls_spifls_drv_fast_read b = Some (TLS_FLS_STATUS_ENOSUPPORT, [], b)"

text \<open>The steps of a command that changes the chip: enable, wait, command, wait.\<close>

definition write_command :: "'s spi_bus \<Rightarrow> ('s \<Rightarrow> (int \<times> 's) option) \<Rightarrow> 's \<Rightarrow> (int \<times> 's) option" where
  "write_command bus cmd b = do {
     (err, b) \<leftarrow> tls_spifls_drv_write_enable bus b;
     if err \<noteq> 0 then Some (TLS_FLS_STATUS_EIO, b)
     else do {
       (err, b) \<leftarrow> tls_spifls_drv_wait_write_enable bus b;
       if err \<noteq> 0 then Some (TLS_FLS_STATUS_EIO, b)
       else do {
         (err, b) \<leftarrow> cmd b;
         if err \<noteq> 0 then Some (TLS_FLS_STATUS_EIO, b)
         else do {
           (err, b) \<leftarrow> tls_spifls_drv_wait_flash_ready bus b;
           Some (if err \<noteq> 0 then TLS_FLS_STATUS_EIO else TLS_FLS_STATUS_OK, b) } } } }"

definition tls_spifls_drv_page_write :: "'s spi_bus \<Rightarrow> tls_fls_drv \<Rightarrow> u32 \<Rightarrow> u8 list \<Rightarrow> 's \<Rightarrow> (int \<times> 's) option" where
  "tls_spifls_drv_page_write bus drv page buf =
     write_command bus (bus_write_with_cmd bus (cmd_bytes 0x02 (page * page_size drv)) (take (unat (page_size drv)) buf))"

definition tls_spifls_drv_erase :: "'s spi_bus \<Rightarrow> tls_fls_drv \<Rightarrow> u32 \<Rightarrow> 's \<Rightarrow> (int \<times> 's) option" where
  "tls_spifls_drv_erase bus drv sector = write_command bus (bus_write bus (cmd_bytes 0x20 (sector * sector_size drv)))"

definition tls_spifls_drv_chip_erase :: "'s spi_bus \<Rightarrow> 's \<Rightarrow> (int \<times> 's) option" where
  "tls_spifls_drv_chip_erase bus = write_command bus (bus_write bus [0xc7])"

text \<open>The capacity is a power of two given by the third byte of the identification; a shift by 32 or more is undefined.\<close>

definition tls_spifls_drv_probe :: "u32 \<Rightarrow> 's spifls \<Rightarrow> (int \<times> 's spifls) option" where
  "tls_spifls_drv_probe fid s =
     (if fid = 0 then Some (TLS_FLS_STATUS_EINVAL, s)
      else if drop_bit 16 fid AND 0xff \<noteq> 0 \<and> 32 \<le> drop_bit 16 fid then None
      else
        (let cap = (if drop_bit 16 fid AND 0xff \<noteq> 0 then push_bit (unat (drop_bit 16 fid)) 1 else 1024 * 1024);
             drv = (drv_of s 0)\<lparr>drv_id := fid, total_size := cap, page_size := 256, program_size := 256, sector_size := 4096\<rparr>
         in Some (TLS_FLS_STATUS_OK, s\<lparr>drv_of := (drv_of s)(0 := drv), exspifls_drv := Some 0\<rparr>)))"

definition tls_spifls_drv_remove :: "'s spifls \<Rightarrow> 's spifls" where
  "tls_spifls_drv_remove s = s\<lparr>exspifls_drv := None\<rparr>"

subsection \<open>The module\<close>

text \<open>The lock, a counting semaphore of at most five; taking it when it is 0 blocks.\<close>

definition fls_acquire :: "'s spifls \<Rightarrow> 's spifls option" where
  "fls_acquire s =
     (case spi_fls s of None \<Rightarrow> None
      | Some f \<Rightarrow> if fls_lock f = 0 then None else Some (s\<lparr>spi_fls := Some (f\<lparr>fls_lock := fls_lock f - 1\<rparr>)\<rparr>))"

definition fls_release :: "'s spifls \<Rightarrow> 's spifls" where
  "fls_release s = s\<lparr>spi_fls := map_option (\<lambda>f. f\<lparr>fls_lock := min 5 (fls_lock f + 1)\<rparr>) (spi_fls s)\<rparr>"

text \<open>The checks at the beginning of the operations; then the current driver.\<close>

definition with_drv :: "'s spifls \<Rightarrow> (tls_fls_drv \<Rightarrow> (int \<times> 'r \<times> 's spifls) option) \<Rightarrow> 'r \<Rightarrow> (int \<times> 'r \<times> 's spifls) option" where
  "with_drv s f r =
     (case spi_fls s of None \<Rightarrow> Some (TLS_FLS_STATUS_EPERM, r, s)
      | Some fls \<Rightarrow> (case current_drv fls of None \<Rightarrow> Some (TLS_FLS_STATUS_ENODRV, r, s) | Some d \<Rightarrow> f (drv_of s d)))"

text \<open>A call of a chip driver function that uses the bus, and one that also goes through \<^verbatim>\<open>exspifls_drv\<close>.\<close>

definition on_bus :: "'s spifls \<Rightarrow> ('s \<Rightarrow> (int \<times> 'r \<times> 's) option) \<Rightarrow> (int \<times> 'r \<times> 's spifls) option" where
  "on_bus s f = map_option (\<lambda>(err, r, b). (err, r, s\<lparr>fls_bus := b\<rparr>)) (f (fls_bus s))"

definition on_drv :: "'s spifls \<Rightarrow> (tls_fls_drv \<Rightarrow> 's \<Rightarrow> (int \<times> 's) option) \<Rightarrow> (int \<times> unit \<times> 's spifls) option" where
  "on_drv s f =
     (case exspifls_drv s of None \<Rightarrow> None
      | Some d \<Rightarrow> on_bus s (\<lambda>b. map_option (\<lambda>(err, b). (err, (), b)) (f (drv_of s d) b)))"

definition clip :: "u32 \<Rightarrow> u32 \<Rightarrow> u32 \<Rightarrow> u32" where
  "clip addr len n = (if addr + len > n then n - addr else len)"

definition tls_spifls_read :: "'s spi_bus \<Rightarrow> u32 \<Rightarrow> u8 list option \<Rightarrow> u32 \<Rightarrow> 's spifls \<Rightarrow> (int \<times> u8 list \<times> 's spifls) option" where
  "tls_spifls_read bus addr buf len s = with_drv s (\<lambda>drv.
     if addr \<ge> total_size drv \<or> len = 0 \<or> buf = None then Some (TLS_FLS_STATUS_EINVAL, [], s)
     else do {
       s \<leftarrow> fls_acquire s;
       (err, bs, s) \<leftarrow> on_bus s (tls_spifls_drv_read bus addr (clip addr len (total_size drv)));
       Some (err, bs, fls_release s) }) []"

definition tls_spifls_fast_read :: "u32 \<Rightarrow> u8 list option \<Rightarrow> u32 \<Rightarrow> 's spifls \<Rightarrow> (int \<times> u8 list \<times> 's spifls) option" where
  "tls_spifls_fast_read addr buf len s = with_drv s (\<lambda>drv.
     if addr \<ge> total_size drv \<or> len = 0 \<or> buf = None then Some (TLS_FLS_STATUS_EINVAL, [], s)
     else if drv_flags drv AND push_bit 1 1 \<noteq> push_bit 1 1 then Some (TLS_FLS_STATUS_ENOSUPPORT, [], s)
     else on_bus s tls_spifls_drv_fast_read) []"

fun page_loop :: "'s spi_bus \<Rightarrow> u32 \<Rightarrow> u8 list \<Rightarrow> nat \<Rightarrow> u32 \<Rightarrow> 's spifls \<Rightarrow> (int \<times> unit \<times> 's spifls) option" where
  "page_loop bus page buf 0 ps s = Some (TLS_FLS_STATUS_OK, (), s)"
| "page_loop bus page buf (Suc k) ps s = do {
     (err, u, s) \<leftarrow> on_drv s (\<lambda>drv. tls_spifls_drv_page_write bus drv page (take (unat ps) buf));
     if err \<noteq> TLS_FLS_STATUS_OK then Some (err, (), s) else page_loop bus (page + 1) (drop (unat ps) buf) k ps s }"

definition tls_spifls_page_write :: "'s spi_bus \<Rightarrow> u32 \<Rightarrow> u8 list option \<Rightarrow> u32 \<Rightarrow> 's spifls \<Rightarrow> (int \<times> unit \<times> 's spifls) option" where
  "tls_spifls_page_write bus page buf page_cnt s = with_drv s (\<lambda>drv.
     case buf of None \<Rightarrow> Some (TLS_FLS_STATUS_EINVAL, (), s)
     | Some buf \<Rightarrow>
         if page \<ge> total_size drv div page_size drv \<or> page_cnt = 0 then Some (TLS_FLS_STATUS_EINVAL, (), s)
         else page_loop bus page buf (unat (clip page page_cnt (total_size drv div page_size drv))) (page_size drv) s) ()"

text \<open>The sectors of a write: read, merge, erase, program.  The error branches release the lock.\<close>

definition merge_cache :: "u32 \<Rightarrow> u32 \<Rightarrow> u32 \<Rightarrow> u32 \<Rightarrow> u8 list \<Rightarrow> u8 list \<Rightarrow> u32 \<Rightarrow> u8 list \<times> u8 list \<times> u32" where
  "merge_cache ss addr sector_num i cache buf write_bytes =
     (let off = addr mod ss
      in if sector_num = 1 then (overlay cache (unat off) (take (unat write_bytes) buf), drop (unat write_bytes) buf, 0)
         else if i = 0
         then (overlay cache (unat off) (take (unat (ss - off)) buf), drop (unat (ss - off)) buf, write_bytes - (ss - off))
         else if i = sector_num - 1 then (overlay cache 0 (take (unat write_bytes) buf), drop (unat write_bytes) buf, 0)
         else (overlay cache 0 (take (unat ss) buf), drop (unat ss) buf, write_bytes - ss))"

fun sector_loop :: "'s spi_bus \<Rightarrow> tls_fls_drv \<Rightarrow> u32 \<Rightarrow> u32 \<Rightarrow> u32 \<Rightarrow> nat \<Rightarrow> u32 \<Rightarrow> u8 list \<Rightarrow> u32 \<Rightarrow> 's spifls \<Rightarrow>
    (int \<times> unit \<times> 's spifls) option" where
  "sector_loop bus drv addr sector_addr sector_num 0 i buf wb s = Some (TLS_FLS_STATUS_OK, (), s)"
| "sector_loop bus drv addr sector_addr sector_num (Suc k) i buf wb s = do {
     (err, cache, s) \<leftarrow> on_bus s (tls_spifls_drv_read bus ((sector_addr + i) * sector_size drv) (sector_size drv));
     if err \<noteq> TLS_FLS_STATUS_OK then Some (err, (), fls_release s)
     else
       (let (cache, buf, wb) = merge_cache (sector_size drv) addr sector_num i cache buf wb
        in do {
          (err, u, s) \<leftarrow> on_drv s (\<lambda>drv. tls_spifls_drv_erase bus drv (sector_addr + i));
          if err \<noteq> TLS_FLS_STATUS_OK then Some (err, (), fls_release s)
          else do {
            (err, u, s) \<leftarrow> tls_spifls_page_write bus ((sector_addr + i) * (sector_size drv div page_size drv)) (Some cache)
                           (sector_size drv div page_size drv) s;
            if err \<noteq> TLS_FLS_STATUS_OK then Some (err, (), fls_release s)
            else sector_loop bus drv addr sector_addr sector_num k (i + 1) buf wb s } }) }"

text \<open>\<open>mem\<close>: the sector cache could be allocated.\<close>

definition tls_spifls_write :: "'s spi_bus \<Rightarrow> bool \<Rightarrow> u32 \<Rightarrow> u8 list option \<Rightarrow> u32 \<Rightarrow> 's spifls \<Rightarrow> (int \<times> unit \<times> 's spifls) option" where
  "tls_spifls_write bus mem addr buf len s = with_drv s (\<lambda>drv.
     case buf of None \<Rightarrow> Some (TLS_FLS_STATUS_EINVAL, (), s)
     | Some buf \<Rightarrow>
         if addr \<ge> total_size drv \<or> len = 0 then Some (TLS_FLS_STATUS_EINVAL, (), s)
         else do {
           s \<leftarrow> fls_acquire s;
           let write_bytes = clip addr len (total_size drv);
           let sector_addr = addr div sector_size drv;
           let sector_num = (addr + write_bytes - 1) div sector_size drv - sector_addr + 1;
           if \<not> mem then Some (TLS_FLS_STATUS_ENOMEM, (), fls_release s)
           else do {
             (err, u, s) \<leftarrow> sector_loop bus drv addr sector_addr sector_num (unat sector_num) 0 buf write_bytes s;
             Some (err, (), fls_release s) } }) ()"

definition tls_spifls_erase :: "'s spi_bus \<Rightarrow> u32 \<Rightarrow> 's spifls \<Rightarrow> (int \<times> unit \<times> 's spifls) option" where
  "tls_spifls_erase bus sector s = with_drv s (\<lambda>drv.
     if sector \<ge> total_size drv div sector_size drv then Some (TLS_FLS_STATUS_EINVAL, (), s)
     else do {
       s \<leftarrow> fls_acquire s;
       (err, u, s) \<leftarrow> on_drv s (\<lambda>drv. tls_spifls_drv_erase bus drv sector);
       Some (err, (), fls_release s) }) ()"

definition tls_spifls_chip_erase :: "'s spi_bus \<Rightarrow> 's spifls \<Rightarrow> (int \<times> unit \<times> 's spifls) option" where
  "tls_spifls_chip_erase bus s = with_drv s (\<lambda>drv.
     on_bus s (\<lambda>b. map_option (\<lambda>(err, b). (err, (), b)) (tls_spifls_drv_chip_erase bus b))) ()"

definition tls_spifls_get_param :: "nat \<Rightarrow> bool \<Rightarrow> 's spifls \<Rightarrow> (int \<times> u32 option \<times> 's spifls) option" where
  "tls_spifls_get_param type isnull s = with_drv s (\<lambda>drv.
     if isnull then Some (TLS_FLS_STATUS_EINVAL, None, s)
     else do {
       s \<leftarrow> fls_acquire s;
       let v = map_of [(0, drv_id drv), (1, total_size drv), (2, page_size drv), (3, program_size drv), (4, sector_size drv)] type;
       Some (if v = None then TLS_FLS_STATUS_EINVAL else TLS_FLS_STATUS_OK, v, fls_release s) }) None"

definition tls_spifls_drv_register :: "nat option \<Rightarrow> 's spifls \<Rightarrow> (int \<times> 's spifls) option" where
  "tls_spifls_drv_register fls_drv s =
     (case fls_drv of None \<Rightarrow> Some (TLS_FLS_STATUS_EINVAL, s)
      | Some d \<Rightarrow>
          (case spi_fls s of None \<Rightarrow> None
           | Some f \<Rightarrow>
               if list_ex (\<lambda>x. drv_id (drv_of s x) = drv_id (drv_of s d)) (fls_drvs f) then Some (TLS_FLS_STATUS_EEXIST, s)
               else Some (TLS_FLS_STATUS_OK, s\<lparr>spi_fls := Some (f\<lparr>fls_drvs := fls_drvs f @ [d]\<rparr>)\<rparr>)))"

definition tls_spifls_drv_unregister :: "'s spifls \<Rightarrow> int \<times> 's spifls" where
  "tls_spifls_drv_unregister s = (TLS_FLS_STATUS_EPERM, s)"

text \<open>The command variable has four bytes; the identification is read into the first three bytes of a cleared word.\<close>

definition tls_spifls_read_id :: "'s spi_bus \<Rightarrow> 's \<Rightarrow> (int \<times> u32 \<times> 's) option" where
  "tls_spifls_read_id bus b = do {
     (err, bs, b) \<leftarrow> bus_read_with_cmd bus (le32 0x9F) 3 b;
     Some (if err \<noteq> 0 then (TLS_FLS_STATUS_EIO, 0, b) else (TLS_FLS_STATUS_OK, get32 (bs @ [0]) 0, b)) }"

text \<open>The loop over the drivers ends with the first: on success by \<^verbatim>\<open>break\<close>, on failure by returning.\<close>

definition tls_spifls_probe :: "'s spi_bus \<Rightarrow> 's spifls \<Rightarrow> (int \<times> 's spifls) option" where
  "tls_spifls_probe bus s =
     (case spi_fls s of None \<Rightarrow> Some (TLS_FLS_STATUS_EPERM, s)
      | Some f \<Rightarrow>
          if current_drv f \<noteq> None then Some (TLS_FLS_STATUS_EBUSY, s)
          else do {
            (err, fid, s) \<leftarrow> on_bus s (tls_spifls_read_id bus);
            if err \<noteq> TLS_FLS_STATUS_OK then Some (err, s)
            else
              (case fls_drvs f of [] \<Rightarrow> Some (TLS_FLS_STATUS_ENODRV, s)
               | d # _ \<Rightarrow> do {
                   (err, s) \<leftarrow> tls_spifls_drv_probe fid s;
                   if err \<noteq> TLS_FLS_STATUS_OK then Some (err, s)
                   else
                     (let (e, b) = bus_setup bus (drv_mode (drv_of s d)) (drv_cs_active (drv_of s d)) (drv_clock (drv_of s d)) (fls_bus s)
                      in Some (TLS_FLS_STATUS_OK, s\<lparr>fls_bus := b, spi_fls := Some (f\<lparr>current_drv := Some d\<rparr>)\<rparr>)) }) })"

definition tls_spifls_drv_install :: "'s spi_bus \<Rightarrow> 's spifls \<Rightarrow> (int \<times> 's spifls) option" where
  "tls_spifls_drv_install bus s = do {
     (err, s) \<leftarrow> tls_spifls_drv_register (Some 0) s;
     if err = TLS_FLS_STATUS_EEXIST then Some (err, s) else tls_spifls_probe bus s }"

text \<open>\<open>mem\<close> and \<open>sem\<close>: the outcomes of the allocation and of the creation of the lock.\<close>

definition tls_spifls_init :: "'s spi_bus \<Rightarrow> bool \<Rightarrow> bool \<Rightarrow> 's spifls \<Rightarrow> (int \<times> 's spifls) option" where
  "tls_spifls_init bus mem sem s =
     (if spi_fls s \<noteq> None then Some (TLS_FLS_STATUS_EBUSY, s)
      else if \<not> mem then Some (TLS_FLS_STATUS_ENOMEM, s)
      else if \<not> sem then Some (TLS_FLS_STATUS_ENOMEM, s)
      else do {
        (err, s) \<leftarrow> tls_spifls_drv_install bus (s\<lparr>spi_fls := Some \<lparr>fls_drvs = [], current_drv = None, fls_lock = 1\<rparr>\<rparr>);
        Some (TLS_FLS_STATUS_OK, s) })"

definition tls_spifls_exit :: "'s spifls \<Rightarrow> int \<times> 's spifls" where
  "tls_spifls_exit s = (TLS_FLS_STATUS_EPERM, s)"

end
