(* ===== verification/Spi_Flash_Correct.thy ===== *)
theory Spi_Flash_Correct
  imports Spi_Flash
begin

text \<open>
  The external flash over any bus with a NOR chip on it: reads return the contents, writes change exactly their range and
  release the lock.
\<close>

section \<open>Commands\<close>

definition addr_bytes :: "u32 \<Rightarrow> u8 list" where
  "addr_bytes a = [ucast (drop_bit 16 a), ucast (drop_bit 8 a), ucast a]"

lemma low_byte: "\<not> bit (x :: u32) k" if "x < 256" "8 \<le> k"
proof
  assume k: "bit x k"
  have "unat x < 2 ^ 8" using that(1) by (simp add: word_less_nat_alt)
  then have "take_bit 8 (unat x) = unat x" by (rule take_bit_nat_eq_self)
  moreover have "bit (unat x) k" using k bit_imp_le_length [OF k] by (simp add: bit_unsigned_iff)
  ultimately have "bit (take_bit 8 (unat x)) k" by simp
  then show False using that(2) by (simp add: bit_take_bit_iff)
qed

lemma byte_masks: "(0xff :: u32) = mask 8" "(0xff00 :: u32) = push_bit 8 (mask 8)" "(0xff0000 :: u32) = push_bit 16 (mask 8)"
  "(0xffffff00 :: u32) = push_bit 8 (mask 24)"
  by (simp_all add: mask_eq_exp_minus_1)

text \<open>The address goes out most significant byte first, and only its low three bytes.\<close>

lemma cmd_bytes_eq:
  assumes "opc < 256"
  shows "cmd_bytes opc a = ucast opc # addr_bytes a"
  unfolding cmd_bytes_def addr_bytes_def le32_def swap32_def byte_masks
  using low_byte [OF assms] by (auto simp: bit_simps intro!: bit_word_eqI)

lemma address_wraps: "opc < 256 \<Longrightarrow> cmd_bytes opc (a + 0x1000000) = cmd_bytes opc a"
proof -
  assume o: "opc < 256"
  have e: "(a + 0x1000000) AND mask 24 = a AND mask 24"
    by (rule word_unat_eq_iff [THEN iffD2]) (simp only: unat_and_mask, simp add: unat_word_ariths mod_mod_cancel)
  have "bit (a + 0x1000000) k = bit a k" if "k < 24" for k
    using that arg_cong [OF e, of "\<lambda>w. bit w k"] by (simp add: bit_simps)
  then show ?thesis by (auto simp: cmd_bytes_eq [OF o] addr_bytes_def bit_simps intro!: bit_word_eqI)
qed

section \<open>One sector of a write\<close>

lemma unat_next: "unat (x :: u32) < 2 ^ 24 \<Longrightarrow> unat (x + 1) = unat x + 1"
  by (simp add: unat_word_ariths)

lemma unat_gap: "unat (4096 - addr mod 4096 :: u32) = 4096 - unat addr mod 4096"
  by (subst unat_sub) (simp_all add: word_le_nat_alt unat_mod less_imp_le)

lemma div_end:
  fixes W :: nat
  assumes "0 < W" and "off < 4096"
  shows "(4096 * S + off + W - 1) div 4096 = S \<longleftrightarrow> off + W \<le> 4096"
proof -
  have "4096 * S + off + W - 1 = off + W - 1 + S * 4096" using assms by simp
  then have "(4096 * S + off + W - 1) div 4096 = (off + W - 1) div 4096 + S" by simp
  moreover have "(off + W - 1) div 4096 = 0 \<longleftrightarrow> off + W \<le> 4096" using assms by (simp add: div_eq_0_iff) linarith
  ultimately show ?thesis by simp
qed

lemma merge_step:
  assumes i: "unat i < unat sn" and W: "0 < unat wb" and off: "off = (if i = 0 then unat addr mod 4096 else 0)"
    and S: "S = unat addr div 4096 + unat i"
    and e: "(4096 * S + off + unat wb - 1) div 4096 = unat addr div 4096 + unat sn - 1"
    and c: "c = min (4096 - off) (unat wb)"
  shows "merge_cache 4096 addr sn i cache buf wb = (overlay cache off (take c buf), drop c buf, of_nat (unat wb - c))"
    and "unat i = unat sn - 1 \<longleftrightarrow> c = unat wb"
proof -
  have o: "off < 4096" by (simp add: off)
  have l: "unat i = unat sn - 1 \<longleftrightarrow> off + unat wb \<le> 4096"
    using div_end [OF W o, of S] e i by (auto simp: S)
  show "unat i = unat sn - 1 \<longleftrightarrow> c = unat wb" unfolding l c using o by auto
  have n: "i = sn - 1 \<longleftrightarrow> unat i = unat sn - 1"
    using i by (simp add: word_unat_eq_iff unat_sub word_le_nat_alt)
  have n1: "sn = 1 \<longleftrightarrow> unat sn = 1" by (simp add: word_unat_eq_iff)
  have n0: "i = 0 \<longleftrightarrow> unat i = 0" by (simp add: unat_eq_0)
  consider "sn = 1" "i = 0" "off + unat wb \<le> 4096" | "sn \<noteq> 1" "i = 0" "\<not> off + unat wb \<le> 4096"
    | "sn \<noteq> 1" "i \<noteq> 0" "i = sn - 1" "off + unat wb \<le> 4096" | "sn \<noteq> 1" "i \<noteq> 0" "i \<noteq> sn - 1" "\<not> off + unat wb \<le> 4096"
    using l n n1 n0 i by fastforce
  then show "merge_cache 4096 addr sn i cache buf wb = (overlay cache off (take c buf), drop c buf, of_nat (unat wb - c))"
  proof cases
    case 1
    then have "c = unat wb" by (simp add: c)
    then show ?thesis using 1 by (simp add: merge_cache_def Let_def off unat_mod)
  next
    case 2
    then have cc: "c = unat (4096 - addr mod 4096)" "c \<le> unat wb" by (simp_all add: c off unat_gap)
    then have "of_nat (unat wb - c) = wb - (4096 - addr mod 4096)" by (simp add: of_nat_diff)
    then show ?thesis using 2 by (simp add: merge_cache_def Let_def off unat_mod flip: cc(1))
  next
    case 3
    then show ?thesis by (simp add: merge_cache_def Let_def c off min_def)
  next
    case 4
    then have cc: "c = 4096" "4096 \<le> unat wb" by (simp_all add: c off)
    then have "of_nat (unat wb - c) = wb - 4096" by (simp add: of_nat_diff)
    then show ?thesis using 4 by (simp add: merge_cache_def Let_def off cc(1))
  qed
qed

section \<open>The chip\<close>

text \<open>The module with a driver for a chip of \<open>n\<close> bytes.\<close>

definition spifls_installed :: "nat \<Rightarrow> 's spifls \<Rightarrow> bool" where
  "spifls_installed n s \<longleftrightarrow> (\<exists>f. spi_fls s = Some f \<and> current_drv f = Some 0) \<and> exspifls_drv s = Some 0 \<and>
     total_size (drv_of s 0) = of_nat n \<and> page_size (drv_of s 0) = 256 \<and> sector_size (drv_of s 0) = 4096"

definition lock :: "'s spifls \<Rightarrow> nat" where
  "lock s = fls_lock (the (spi_fls s))"

locale spi_nor =
  fixes bus :: "'s spi_bus"
    and good :: "'s \<Rightarrow> bool"
    and view :: "'s \<Rightarrow> nat \<Rightarrow> u8"
    and wel :: "'s \<Rightarrow> bool"
    and wip :: "'s \<Rightarrow> nat"
    and csize :: nat
  assumes csize: "csize \<le> 2 ^ 24" "4096 dvd csize"
    and write_enable: "good b \<Longrightarrow> wip b = 0 \<Longrightarrow>
      \<exists>b'. bus_write bus [0x06] b = Some (0, b') \<and> good b' \<and> view b' = view b \<and> wel b' \<and> wip b' = 0"
    and status: "good b \<Longrightarrow>
      \<exists>sr b'. bus_read_with_cmd bus [0x05] 1 b = Some (0, [sr], b') \<and> good b' \<and> view b' = view b \<and> wel b' = wel b \<and>
        (bit sr 0 \<longleftrightarrow> 0 < wip b) \<and> (bit sr 1 \<longleftrightarrow> wel b) \<and> wip b' = wip b - 1"
    and data_read: "good b \<Longrightarrow> wip b = 0 \<Longrightarrow> 0 < n \<Longrightarrow> unat a + n \<le> csize \<Longrightarrow>
      \<exists>b'. bus_read_with_cmd bus (0x03 # addr_bytes a) n b = Some (0, span (view b) (unat a) n, b') \<and> good b' \<and> view b' = view b \<and> wip b' = 0"
    and sector_erase: "good b \<Longrightarrow> wip b = 0 \<Longrightarrow> wel b \<Longrightarrow> unat a < csize \<Longrightarrow>
      \<exists>b'. bus_write bus (0x20 # addr_bytes a) b = Some (0, b') \<and> good b' \<and>
        view b' = blit (view b) (4096 * (unat a div 4096)) (replicate 4096 0xFF)"
    and page_program: "good b \<Longrightarrow> wip b = 0 \<Longrightarrow> wel b \<Longrightarrow> unat a < csize \<Longrightarrow> unat a mod 256 = 0 \<Longrightarrow> length xs = 256 \<Longrightarrow>
      \<exists>b'. bus_write_with_cmd bus (0x02 # addr_bytes a) xs b = Some (0, b') \<and> good b' \<and>
        view b' = blit (view b) (unat a) (map2 (AND) (span (view b) (unat a) 256) xs)"
begin

definition calm :: "'s \<Rightarrow> bool" where
  "calm b \<longleftrightarrow> good b \<and> wip b = 0"

lemma wait_ready: "good b \<Longrightarrow> \<exists>b'. tls_spifls_drv_wait_flash_ready bus b = Some (0, b') \<and> calm b' \<and> view b' = view b"
proof (induction "wip b" arbitrary: b rule: less_induct)
  case less
  obtain sr b1 where b1: "bus_read_with_cmd bus [0x05] 1 b = Some (0, [sr], b1)" "good b1" "view b1 = view b" "bit sr 0 \<longleftrightarrow> 0 < wip b"
    "wip b1 = wip b - 1"
    using status [OF less.prems] by auto
  have c: "sr AND push_bit 0 1 = 0 \<longleftrightarrow> wip b = 0" using b1(4) and_exp_eq_0_iff_not_bit [of sr 0] by (simp only: push_bit_of_1) simp
  show ?case
  proof (cases "wip b = 0")
    case True
    then show ?thesis using b1 c unfolding tls_spifls_drv_wait_flash_ready_def
      by (subst wait_status.simps) (simp add: calm_def)
  next
    case False
    then show ?thesis using b1 c less.hyps [of b1] unfolding tls_spifls_drv_wait_flash_ready_def
      by (subst wait_status.simps) simp
  qed
qed

lemma wait_enabled:
  assumes "calm b" and "wel b"
  shows "\<exists>b'. tls_spifls_drv_wait_write_enable bus b = Some (0, b') \<and> calm b' \<and> wel b' \<and> view b' = view b"
proof -
  obtain sr b1 where b1: "bus_read_with_cmd bus [0x05] 1 b = Some (0, [sr], b1)" "good b1" "view b1 = view b" "bit sr 1" "wel b1" "wip b1 = 0"
    using status [of b] assms by (auto simp: calm_def)
  have "sr AND push_bit 1 1 \<noteq> 0" using b1(4) and_exp_eq_0_iff_not_bit [of sr 1] by (simp only: push_bit_of_1) simp
  then show ?thesis using b1 unfolding tls_spifls_drv_wait_write_enable_def
    by (subst wait_status.simps) (simp add: calm_def)
qed

lemma write_command_ok:
  assumes b: "calm b"
    and cmd: "\<And>b1. calm b1 \<Longrightarrow> wel b1 \<Longrightarrow> view b1 = view b \<Longrightarrow> \<exists>b2. cmd b1 = Some (0, b2) \<and> good b2 \<and> view b2 = v"
  shows "\<exists>b'. write_command bus cmd b = Some (0, b') \<and> calm b' \<and> view b' = v"
proof -
  obtain b1 where b1: "bus_write bus [0x06] b = Some (0, b1)" "good b1" "view b1 = view b" "wel b1" "wip b1 = 0"
    using write_enable b by (auto simp: calm_def)
  obtain b2 where b2: "tls_spifls_drv_wait_write_enable bus b1 = Some (0, b2)" "calm b2" "wel b2" "view b2 = view b"
    using wait_enabled [of b1] b1 by (auto simp: calm_def)
  obtain b3 where b3: "cmd b2 = Some (0, b3)" "good b3" "view b3 = v" using cmd b2 by blast
  obtain b4 where b4: "tls_spifls_drv_wait_flash_ready bus b3 = Some (0, b4)" "calm b4" "view b4 = v" using wait_ready [OF b3(2)] b3(3) by auto
  show ?thesis using b1 b2 b3 b4 by (simp add: write_command_def tls_spifls_drv_write_enable_def)
qed

subsection \<open>The driver installed\<close>

definition spifls_ready :: "'s spifls \<Rightarrow> bool" where
  "spifls_ready s \<longleftrightarrow> spifls_installed csize s \<and> calm (fls_bus s)"

definition V :: "'s spifls \<Rightarrow> nat \<Rightarrow> u8" where
  "V s = view (fls_bus s)"

text \<open>A step that only uses the bus.\<close>

definition bus_only :: "'s spifls \<Rightarrow> 's spifls \<Rightarrow> bool" where
  "bus_only s s' \<longleftrightarrow> (\<exists>b. calm b \<and> s' = s\<lparr>fls_bus := b\<rparr>)"

lemma bus_only_ready: "spifls_ready s \<Longrightarrow> bus_only s s' \<Longrightarrow> spifls_ready s'"
  by (auto simp: bus_only_def spifls_ready_def spifls_installed_def)

lemma bus_only_trans: "bus_only s t \<Longrightarrow> bus_only t u \<Longrightarrow> bus_only s u"
  by (auto simp: bus_only_def)

lemma bus_only_refl: "spifls_ready s \<Longrightarrow> bus_only s s"
  by (auto simp: bus_only_def spifls_ready_def spifls_installed_def intro!: exI [of _ "fls_bus s"])

lemma unat_csize: "unat (of_nat csize :: u32) = csize"
  using csize by (simp add: unat_of_nat_u32)

lemma sector_read:
  assumes "spifls_ready s" and "0 < len" and "unat a + unat len \<le> csize"
  shows "\<exists>s'. on_bus s (tls_spifls_drv_read bus a len) = Some (0, span (V s) (unat a) (unat len), s') \<and> bus_only s s' \<and> V s' = V s"
proof -
  have "0 < unat len" using assms(2) by (simp add: word_less_nat_alt)
  then obtain b' where "bus_read_with_cmd bus (0x03 # addr_bytes a) (unat len) (fls_bus s) = Some (0, span (V s) (unat a) (unat len), b')"
    "good b'" "view b' = V s" "wip b' = 0"
    using data_read [of "fls_bus s" "unat len" a] assms by (auto simp: spifls_ready_def spifls_installed_def calm_def V_def)
  then show ?thesis by (auto simp: on_bus_def tls_spifls_drv_read_def cmd_bytes_eq bus_only_def calm_def V_def)
qed

lemma erase_ok:
  assumes "spifls_ready s" and "4096 * unat sec < csize"
  shows "\<exists>s'. on_drv s (\<lambda>drv. tls_spifls_drv_erase bus drv sec) = Some (0, (), s') \<and> bus_only s s' \<and>
    V s' = blit (V s) (4096 * unat sec) (replicate 4096 0xFF)"
proof -
  have u: "unat (sec * 4096) = 4096 * unat sec" using assms(2) csize by (simp add: unat_word_ariths)
  have "\<exists>b2. bus_write bus (0x20 # addr_bytes (sec * 4096)) b1 = Some (0, b2) \<and> good b2 \<and>
      view b2 = blit (V s) (4096 * unat sec) (replicate 4096 0xFF)" if "calm b1" "wel b1" "view b1 = view (fls_bus s)" for b1
    using sector_erase [of b1 "sec * 4096"] that assms(2) by (auto simp: u calm_def V_def)
  then have "\<exists>b'. write_command bus (bus_write bus (0x20 # addr_bytes (sec * 4096))) (fls_bus s) = Some (0, b') \<and> calm b' \<and>
      view b' = blit (V s) (4096 * unat sec) (replicate 4096 0xFF)"
    using assms(1) by (intro write_command_ok) (auto simp: spifls_ready_def spifls_installed_def)
  then show ?thesis
    using assms(1) by (auto simp: on_drv_def on_bus_def tls_spifls_drv_erase_def spifls_ready_def spifls_installed_def cmd_bytes_eq bus_only_def V_def)
qed

lemma map2_and_ones: "length xs = n \<Longrightarrow> map2 (AND) (replicate n 0xFF) xs = (xs :: u8 list)"
proof (induction xs arbitrary: n)
  case (Cons x xs)
  have "(0xFF :: u8) = - 1" by simp
  then have "(0xFF :: u8) AND x = x" by (simp only: and.left_neutral)
  then show ?case using Cons by auto
qed simp

lemma page_ok:
  assumes "spifls_ready s" and "256 * unat page < csize" and "length buf = 256" and "span (V s) (256 * unat page) 256 = replicate 256 0xFF"
  shows "\<exists>s'. on_drv s (\<lambda>drv. tls_spifls_drv_page_write bus drv page buf) = Some (0, (), s') \<and> bus_only s s' \<and>
    V s' = blit (V s) (256 * unat page) buf"
proof -
  have u: "unat (page * 256) = 256 * unat page" using assms(2) csize by (simp add: unat_word_ariths)
  have "\<exists>b2. bus_write_with_cmd bus (0x02 # addr_bytes (page * 256)) buf b1 = Some (0, b2) \<and> good b2 \<and>
      view b2 = blit (V s) (256 * unat page) buf" if "calm b1" "wel b1" "view b1 = view (fls_bus s)" for b1
    using page_program [of b1 "page * 256" buf] that assms(2-4) map2_and_ones [of buf 256] by (auto simp: u calm_def V_def)
  then have "\<exists>b'. write_command bus (bus_write_with_cmd bus (0x02 # addr_bytes (page * 256)) buf) (fls_bus s) = Some (0, b') \<and> calm b' \<and>
      view b' = blit (V s) (256 * unat page) buf"
    using assms(1) by (intro write_command_ok) (auto simp: spifls_ready_def spifls_installed_def)
  then show ?thesis
    using assms(1,3) by (auto simp: on_drv_def on_bus_def tls_spifls_drv_page_write_def spifls_ready_def spifls_installed_def cmd_bytes_eq bus_only_def V_def)
qed

lemma page_loop_ok:
  assumes "spifls_ready s" and "256 * unat page + 256 * k \<le> csize" and "length buf = 256 * k"
    and "span (V s) (256 * unat page) (256 * k) = replicate (256 * k) 0xFF"
  shows "\<exists>s'. page_loop bus page buf k 256 s = Some (0, (), s') \<and> bus_only s s' \<and> V s' = blit (V s) (256 * unat page) buf"
  using assms
proof (induction k arbitrary: page buf s)
  case 0
  then show ?case using bus_only_refl by auto
next
  case (Suc k)
  let ?a = "256 * unat page"
  have "take 256 (span (V s) ?a (256 * Suc k)) = replicate 256 0xFF" by (simp only: Suc.prems(4)) simp
  then have "span (V s) ?a 256 = replicate 256 0xFF" by (simp add: take_span)
  then obtain s1 where s1: "on_drv s (\<lambda>drv. tls_spifls_drv_page_write bus drv page (take 256 buf)) = Some (0, (), s1)" "bus_only s s1"
      "V s1 = blit (V s) ?a (take 256 buf)"
    using page_ok [OF Suc.prems(1), of page "take 256 buf"] Suc.prems(2,3) by auto
  have p: "unat (page + 1) = unat page + 1" using Suc.prems(2) csize by (simp add: unat_word_ariths)
  have "drop 256 (span (V s) ?a (256 * Suc k)) = replicate (256 * k) 0xFF" by (simp only: Suc.prems(4)) simp
  then have "span (V s1) (256 * unat (page + 1)) (256 * k) = replicate (256 * k) 0xFF"
    using Suc.prems(3) by (simp add: s1(3) p drop_span span_blit_disjoint add.commute [of 256])
  then obtain s2 where s2: "page_loop bus (page + 1) (drop 256 buf) k 256 s1 = Some (0, (), s2)" "bus_only s1 s2"
      "V s2 = blit (V s1) (256 * unat (page + 1)) (drop 256 buf)"
    using Suc.IH [of s1 "page + 1" "drop 256 buf"] bus_only_ready [OF Suc.prems(1) s1(2)] Suc.prems(2,3) p by auto
  have "V s2 = blit (V s) ?a (take 256 buf @ drop 256 buf)"
    unfolding blit_append s2(3) s1(3) p using Suc.prems(3) by (simp add: add.commute)
  then show ?case using s1(1,2) s2(1,2) bus_only_trans by auto
qed

lemma sector_fits: "4096 * S < csize \<Longrightarrow> 4096 * S + 4096 \<le> csize"
  using csize(2) by (auto simp: dvd_def)

lemma ready_fields:
  assumes "spifls_ready s"
  shows "page_size (drv_of s 0) = 256" "sector_size (drv_of s 0) = 4096" "total_size (drv_of s 0) = of_nat csize"
  using assms by (auto simp: spifls_ready_def spifls_installed_def)

lemma with_drv_ready: "spifls_ready s \<Longrightarrow> with_drv s f r = f (drv_of s 0)"
  by (auto simp: spifls_ready_def spifls_installed_def with_drv_def)

lemma program_sector:
  assumes r: "spifls_ready s" and S: "4096 * unat sec < csize" and c: "length cache = 4096"
    and e: "span (V s) (4096 * unat sec) 4096 = replicate 4096 0xFF"
  shows "\<exists>s'. tls_spifls_page_write bus (sec * (4096 div 256)) (Some cache) (4096 div 256) s = Some (0, (), s') \<and> bus_only s s' \<and>
    V s' = blit (V s) (4096 * unat sec) cache"
proof -
  note fit = sector_fits [OF S]
  have p: "unat (sec * 16) = 16 * unat sec" using S csize by (simp add: unat_word_ariths)
  have t: "unat (of_nat csize div 256 :: u32) = csize div 256" using csize by (simp add: unat_div unat_csize)
  have "16 * unat sec + 16 \<le> csize div 256" using fit div_le_mono [of "4096 * unat sec + 4096" csize 256] by simp
  moreover have "unat (sec * 16 + 16) = 16 * unat sec + 16" using fit csize p by (simp add: unat_word_ariths)
  ultimately have w: "sec * 16 < of_nat csize div 256" "\<not> of_nat csize div 256 < sec * 16 + 16"
    unfolding word_less_nat_alt t p by simp_all
  have "\<exists>s'. page_loop bus (sec * 16) cache 16 256 s = Some (0, (), s') \<and> bus_only s s' \<and> V s' = blit (V s) (256 * unat (sec * 16)) cache"
    using page_loop_ok [OF r, of "sec * 16" 16 cache] fit c e by (simp add: p)
  then show ?thesis
    using w by (simp add: tls_spifls_page_write_def with_drv_ready [OF r] ready_fields [OF r] clip_def p not_le)
qed

lemma sector_step:
  assumes r: "spifls_ready s" and sec: "sa + i = sec" and S: "4096 * unat sec < csize" and x: "off + length xs \<le> 4096"
    and m: "merge_cache 4096 addr sn i (span (V s) (4096 * unat sec) 4096) buf wb =
      (overlay (span (V s) (4096 * unat sec) 4096) off xs, buf', wb')"
  shows "\<exists>s'. sector_loop bus (drv_of s 0) addr sa sn (Suc k) i buf wb s = sector_loop bus (drv_of s' 0) addr sa sn k (i + 1) buf' wb' s' \<and>
    bus_only s s' \<and> V s' = blit (V s) (4096 * unat sec + off) xs"
proof -
  let ?S = "unat sec" and ?c = "overlay (span (V s) (4096 * unat sec) 4096) off xs"
  note fit = sector_fits [OF S]
  have a: "unat (sec * 4096) = 4096 * ?S" using S csize by (subst unat_mult_lem [THEN iffD1]) (simp_all add: mult.commute)
  obtain s1 where s1: "on_bus s (tls_spifls_drv_read bus (sec * 4096) 4096) = Some (0, span (V s) (4096 * ?S) 4096, s1)"
      "bus_only s s1" "V s1 = V s"
    using sector_read [OF r, of 4096 "sec * 4096"] fit by (auto simp: a)
  note r1 = bus_only_ready [OF r s1(2)]
  obtain s2 where s2: "on_drv s1 (\<lambda>drv. tls_spifls_drv_erase bus drv sec) = Some (0, (), s2)" "bus_only s1 s2"
      "V s2 = blit (V s1) (4096 * ?S) (replicate 4096 0xFF)"
    using erase_ok [OF r1 S] by auto
  note r2 = bus_only_ready [OF r1 s2(2)]
  obtain s3 where s3: "tls_spifls_page_write bus (sec * (4096 div 256)) (Some ?c) (4096 div 256) s2 = Some (0, (), s3)" "bus_only s2 s3"
      "V s3 = blit (V s2) (4096 * ?S) ?c"
    using program_sector [OF r2 S, of ?c] x by (auto simp: s2(3))
  have "V s3 = blit (V s) (4096 * ?S + off) xs"
    unfolding s3(3) s2(3) s1(3) using x by (simp add: blit_overlay_span)
  moreover have "drv_of s3 = drv_of s" using s1(2) s2(2) s3(2) by (auto simp: bus_only_def)
  moreover have "bus_only s s3" using s1(2) s2(2) s3(2) bus_only_trans by blast
  moreover have "sector_loop bus (drv_of s 0) addr sa sn (Suc k) i buf wb s = sector_loop bus (drv_of s 0) addr sa sn k (i + 1) buf' wb' s3"
    using s1(1) s2(1) s3(1) m by (simp add: ready_fields [OF r] sec)
  ultimately show ?thesis by (intro exI [of _ s3]) simp
qed

lemma sector_loop_ok:
  assumes "spifls_ready s" and "unat sa = unat addr div 4096" and "unat i + k = unat sn"
    and "pos = (if i = 0 then unat addr else 4096 * (unat sa + unat i))"
    and "k = 0 \<longrightarrow> wb = 0" and "0 < k \<longrightarrow> 0 < unat wb \<and> (pos + unat wb - 1) div 4096 = unat sa + unat sn - 1"
    and "pos + unat wb \<le> csize" and "unat wb \<le> length buf"
  shows "\<exists>s'. sector_loop bus (drv_of s 0) addr sa sn k i buf wb s = Some (0, (), s') \<and> bus_only s s' \<and>
    V s' = blit (V s) pos (take (unat wb) buf)"
  using assms
proof (induction k arbitrary: i buf wb s pos)
  case 0
  then show ?case using bus_only_refl by auto
next
  case (Suc k)
  define off where off: "off = (if i = 0 then unat addr mod 4096 else 0)"
  define S where S: "S = unat addr div 4096 + unat i"
  define c where c: "c = min (4096 - off) (unat wb)"
  have pos: "pos = 4096 * S + off" using Suc.prems(2,4) by (simp add: off S)
  have W: "0 < unat wb" "(4096 * S + off + unat wb - 1) div 4096 = unat addr div 4096 + unat sn - 1"
    using Suc.prems(2,6) pos by auto
  have i: "unat i < unat sn" using Suc.prems(3) by simp
  note m = merge_step [OF i W(1) off S W(2) c]
  have lt: "4096 * S < csize" using Suc.prems(7) W(1) pos by linarith
  have u: "unat (sa + i) = S" using lt csize(1) Suc.prems(2) by (simp add: S unat_word_ariths)
  have o: "off < 4096" by (simp add: off)
  have x: "off + length (take c buf) \<le> 4096" using o by (auto simp: c)
  obtain s1 where s1: "sector_loop bus (drv_of s 0) addr sa sn (Suc k) i buf wb s =
      sector_loop bus (drv_of s1 0) addr sa sn k (i + 1) (drop c buf) (of_nat (unat wb - c)) s1" "bus_only s s1"
      "V s1 = blit (V s) pos (take c buf)"
    using sector_step [OF Suc.prems(1) refl _ x m(1), of sa k] lt unfolding u pos by blast
  have "unat wb < 2 ^ 32" by (rule less_le_trans [OF unsigned_less]) simp
  then have "unat wb - c < 2 ^ 32" by simp
  then have "unat (of_nat (unat wb - c) :: u32) = unat wb - c" by (rule unat_of_nat_u32)
  moreover have "c \<le> unat wb" by (simp add: c)
  ultimately have cw: "c \<le> unat wb" "unat (of_nat (unat wb - c) :: u32) = unat wb - c" by blast+
  have "unat i < 2 ^ 24" using lt csize(1) S by linarith
  then have i1: "unat (i + 1) = unat i + 1" by (rule unat_next)
  then have i0: "i + 1 \<noteq> 0" by (metis add_is_0 unat_0 zero_neq_one)
  note r1 = bus_only_ready [OF Suc.prems(1) s1(2)]
  have t: "take (unat wb) buf = take c buf @ take (unat wb - c) (drop c buf)"
    using take_add [of c "unat wb - c" buf] cw(1) by simp
  show ?case
  proof (cases "k = 0")
    case True
    then have "unat i = unat sn - 1" using Suc.prems(3) by linarith
    then have "c = unat wb" using m(2) by simp
    then show ?thesis using s1 True by auto
  next
    case False
    then have "unat i \<noteq> unat sn - 1" using Suc.prems(3) by linarith
    then have ne: "c \<noteq> unat wb" using m(2) by simp
    then have cg: "c = 4096 - off" "c < unat wb" using cw(1) by (auto simp: c)
    then have nx: "pos + c = 4096 * (unat sa + unat (i + 1))" using o i1 Suc.prems(2) by (simp add: pos S)
    have "\<exists>s'. sector_loop bus (drv_of s1 0) addr sa sn k (i + 1) (drop c buf) (of_nat (unat wb - c)) s1 = Some (0, (), s') \<and> bus_only s1 s' \<and>
        V s' = blit (V s1) (pos + c) (take (unat (of_nat (unat wb - c) :: u32)) (drop c buf))"
    proof (rule Suc.IH)
      show "spifls_ready s1" by (rule r1)
      show "unat sa = unat addr div 4096" by (rule Suc.prems(2))
      show "unat (i + 1) + k = unat sn" using i1 Suc.prems(3) by simp
      show "pos + c = (if i + 1 = 0 then unat addr else 4096 * (unat sa + unat (i + 1)))" using nx i0 by simp
      show "k = 0 \<longrightarrow> of_nat (unat wb - c) = (0 :: u32)" using False by simp
      have "pos + c + (unat wb - c) = pos + unat wb" using cg by simp
      then show "0 < k \<longrightarrow> 0 < unat (of_nat (unat wb - c) :: u32) \<and>
          (pos + c + unat (of_nat (unat wb - c) :: u32) - 1) div 4096 = unat sa + unat sn - 1"
        unfolding cw(2) using Suc.prems(6) cg(2) by simp
      show "pos + c + unat (of_nat (unat wb - c) :: u32) \<le> csize" unfolding cw(2) using Suc.prems(7) cg(2) by linarith
      show "unat (of_nat (unat wb - c) :: u32) \<le> length (drop c buf)" unfolding cw(2) using Suc.prems(8) by simp
    qed
    moreover have "blit (V s1) (pos + c) (take (unat wb - c) (drop c buf)) = blit (V s) pos (take (unat wb) buf)"
      unfolding t blit_append s1(3) using cw(1) Suc.prems(8) by simp
    ultimately show ?thesis using s1(1,2) cw(2) bus_only_trans by auto
  qed
qed

subsection \<open>The operations\<close>

lemma acquire_ready:
  assumes "spifls_ready s" and "0 < lock s"
  obtains s1 where "fls_acquire s = Some s1" "spifls_ready s1" "V s1 = V s" "lock s1 = lock s - 1" "drv_of s1 = drv_of s"
  using assms by (auto simp: spifls_ready_def spifls_installed_def fls_acquire_def lock_def V_def)

lemma release_ready:
  "spifls_ready s \<Longrightarrow> spifls_ready (fls_release s) \<and> V (fls_release s) = V s \<and> lock (fls_release s) = min 5 (lock s + 1)"
  by (auto simp: spifls_ready_def spifls_installed_def fls_release_def lock_def V_def)

lemma bus_only_lock: "bus_only s s' \<Longrightarrow> lock s' = lock s"
  by (auto simp: bus_only_def lock_def)

lemma read_ok:
  assumes r: "spifls_ready s" and l: "0 < lock s" "lock s \<le> 5" and n: "0 < len" "unat addr + unat len \<le> csize"
  shows "\<exists>s'. tls_spifls_read bus addr (Some buf) len s = Some (0, span (V s) (unat addr) (unat len), s') \<and> spifls_ready s' \<and> V s' = V s \<and>
    lock s' = lock s"
proof -
  obtain s1 where s1: "fls_acquire s = Some s1" "spifls_ready s1" "V s1 = V s" "lock s1 = lock s - 1" "drv_of s1 = drv_of s"
    using acquire_ready [OF r l(1)] .
  obtain s2 where s2: "on_bus s1 (tls_spifls_drv_read bus addr len) = Some (0, span (V s) (unat addr) (unat len), s2)" "bus_only s1 s2" "V s2 = V s"
    using sector_read [OF s1(2) n] s1(3) by auto
  have "0 < unat len" using n(1) by (simp add: word_less_nat_alt)
  then have lt: "addr < of_nat csize" using n(2) by (simp add: word_less_nat_alt unat_csize)
  have sum: "unat (addr + len) = unat addr + unat len" using n(2) csize by (simp add: unat_word_ariths)
  then have "clip addr len (of_nat csize) = len" using n(2) by (simp add: clip_def word_less_nat_alt unat_csize)
  then have "tls_spifls_read bus addr (Some buf) len s = Some (0, span (V s) (unat addr) (unat len), fls_release s2)"
    using s1(1) s2(1) lt n(1) by (simp add: tls_spifls_read_def with_drv_ready [OF r] ready_fields [OF r] not_le)
  then show ?thesis
    using release_ready [OF bus_only_ready [OF s1(2) s2(2)]] s2(3) bus_only_lock [OF s2(2)] s1(4) l by simp
qed

lemma write_ok:
  assumes r: "spifls_ready s" and l: "0 < lock s" "lock s \<le> 5" and n: "0 < len" "unat addr + unat len \<le> csize" and b: "unat len \<le> length buf"
  shows "\<exists>s'. tls_spifls_write bus True addr (Some buf) len s = Some (0, (), s') \<and> spifls_ready s' \<and>
    V s' = blit (V s) (unat addr) (take (unat len) buf) \<and> lock s' = lock s"
proof -
  obtain s1 where s1: "fls_acquire s = Some s1" "spifls_ready s1" "V s1 = V s" "lock s1 = lock s - 1" "drv_of s1 = drv_of s"
    using acquire_ready [OF r l(1)] .
  have len: "0 < unat len" using n(1) by (simp add: word_less_nat_alt)
  then have lt: "addr < of_nat csize" using n(2) by (simp add: word_less_nat_alt unat_csize)
  have sum: "unat (addr + len) = unat addr + unat len" using n(2) csize by (simp add: unat_word_ariths)
  then have c: "clip addr len (of_nat csize) = len" using n(2) by (simp add: clip_def word_less_nat_alt unat_csize)
  define sa where sa: "sa = addr div 4096"
  define sn where sn: "sn = (addr + len - 1) div 4096 - sa + 1"
  have usa: "unat sa = unat addr div 4096" by (simp add: sa unat_div)
  have last: "unat ((addr + len - 1) div 4096) = (unat addr + unat len - 1) div 4096"
    using sum len by (simp add: unat_div unat_sub word_le_nat_alt)
  have mono: "unat addr div 4096 \<le> (unat addr + unat len - 1) div 4096" using len by (intro div_le_mono) simp
  have "unat ((addr + len - 1) div 4096 - sa) = (unat addr + unat len - 1) div 4096 - unat sa"
    using mono by (subst unat_sub) (simp_all only: word_le_nat_alt last usa)
  moreover have "(unat addr + unat len - 1) div 4096 < 2 ^ 24" using n(2) csize(1) div_le_dividend [of "unat addr + unat len - 1" 4096] len by linarith
  ultimately have "unat sn = (unat addr + unat len - 1) div 4096 - unat addr div 4096 + 1"
    unfolding sn usa by (subst unat_next) linarith+
  then have usn: "unat sa + unat sn - 1 = (unat addr + unat len - 1) div 4096" "0 < unat sn" using mono usa by simp_all
  have "\<exists>s'. sector_loop bus (drv_of s1 0) addr sa sn (unat sn) 0 buf len s1 = Some (0, (), s') \<and> bus_only s1 s' \<and>
      V s' = blit (V s1) (unat addr) (take (unat len) buf)"
    using sector_loop_ok [OF s1(2) usa, of 0 "unat sn" sn "unat addr" len buf] usn len n(2) b by auto
  then obtain s2 where s2: "sector_loop bus (drv_of s 0) addr sa sn (unat sn) 0 buf len s1 = Some (0, (), s2)" "bus_only s1 s2"
      "V s2 = blit (V s) (unat addr) (take (unat len) buf)"
    using s1(3,5) by auto
  have "tls_spifls_write bus True addr (Some buf) len s = Some (0, (), fls_release s2)"
    using s1(1) s2(1) lt n(1)
    by (simp add: tls_spifls_write_def with_drv_ready [OF r] ready_fields [OF r] not_le c Let_def flip: sa sn)
  then show ?thesis
    using release_ready [OF bus_only_ready [OF s1(2) s2(2)]] s2(3) bus_only_lock [OF s2(2)] s1(4) l by simp
qed

end

section \<open>Properties\<close>

text \<open>
  C34.  A write to the external flash, over any bus with a NOR chip on it, returns OK, changes exactly the written range although
  whole sectors are erased and reprogrammed, and gives its lock back; a read of the range then returns the bytes.
\<close>

theorem spifls_write_read:
  assumes "spi_nor bus good view wel wip n" and "spifls_installed n s" and "good (fls_bus s)" and "wip (fls_bus s) = 0"
    and "0 < lock s" and "lock s \<le> 5" and "0 < len" and "unat addr + unat len \<le> n" and "unat len \<le> length buf"
  shows "\<exists>s1 s2. tls_spifls_write bus True addr (Some buf) len s = Some (TLS_FLS_STATUS_OK, (), s1) \<and>
    view (fls_bus s1) = blit (view (fls_bus s)) (unat addr) (take (unat len) buf) \<and> lock s1 = lock s \<and>
    tls_spifls_read bus addr (Some dst) len s1 = Some (TLS_FLS_STATUS_OK, take (unat len) buf, s2) \<and>
    view (fls_bus s2) = view (fls_bus s1) \<and> lock s2 = lock s"
proof -
  note defs = spi_nor.V_def [OF assms(1)] spi_nor.spifls_ready_def [OF assms(1)] spi_nor.calm_def [OF assms(1)]
  have r: "spi_nor.spifls_ready good wip n s" using assms(2-4) by (simp add: defs)
  obtain s1 where s1: "tls_spifls_write bus True addr (Some buf) len s = Some (TLS_FLS_STATUS_OK, (), s1)" "spi_nor.spifls_ready good wip n s1"
      "view (fls_bus s1) = blit (view (fls_bus s)) (unat addr) (take (unat len) buf)" "lock s1 = lock s"
    using spi_nor.write_ok [OF assms(1) r assms(5-9)] by (auto simp: defs)
  obtain s2 where s2: "tls_spifls_read bus addr (Some dst) len s1 = Some (TLS_FLS_STATUS_OK, span (view (fls_bus s1)) (unat addr) (unat len), s2)"
      "view (fls_bus s2) = view (fls_bus s1)" "lock s2 = lock s1"
    using spi_nor.read_ok [OF assms(1) s1(2), of len addr dst] assms(5-8) s1(4) by (auto simp: defs)
  show ?thesis using s1 s2 assms(9) by auto
qed

text \<open>
  When the bus fails in the middle of a write the lock is released twice, by the branch of the error and at the end: afterwards two
  callers can hold it at once.
\<close>

lemma failed_write_releases_twice:
  assumes "spi_fls s = Some f" and "current_drv f = Some 0" and "0 < fls_lock f" and "fls_lock f < 5"
    and "addr < total_size (drv_of s 0)" and "0 < len" and "sector_size (drv_of s 0) = 4096"
    and "(addr + clip addr len (total_size (drv_of s 0)) - 1) div 4096 - addr div 4096 + 1 \<noteq> 0"
    and "bus_read_with_cmd bus (cmd_bytes 0x03 (addr div 4096 * 4096)) 4096 (fls_bus s) = Some (- 2, r, b)"
  shows "\<exists>s'. tls_spifls_write bus True addr (Some buf) len s = Some (TLS_FLS_STATUS_EIO, (), s') \<and> lock s' = fls_lock f + 1"
proof -
  obtain k where "unat ((addr + clip addr len (total_size (drv_of s 0)) - 1) div 4096 - addr div 4096 + 1) = Suc k"
    using assms(8) by (metis not0_implies_Suc unat_eq_0)
  then show ?thesis
    using assms(1-7,9)
    by (simp add: tls_spifls_write_def with_drv_def fls_acquire_def Let_def on_bus_def tls_spifls_drv_read_def fls_release_def lock_def not_le)
qed

end
