(* ===== verification/Spi_Flash_Nor.thy ===== *)
theory Spi_Flash_Nor
  imports Spi_Props Spi_Flash_Correct
begin

text \<open>
  The external flash on the SPI driver: the operations of \<open>Spi\<close> as the bus of \<open>Spi_Flash\<close>, with a chip that understands frames of bytes
  as its slave, satisfy what \<open>Spi_Flash_Correct\<close> asks of a bus with a NOR chip.
\<close>

section \<open>The SPI driver as a bus\<close>

text \<open>The semaphore of an operation is numbered by the messages completed before it.\<close>

definition spi_port_bus :: "'c spi_clock \<Rightarrow> 'c spi_line \<Rightarrow> ('c \<Rightarrow> 'c) \<Rightarrow> u32 \<Rightarrow> 'c spi spi_bus" where
  "spi_port_bus clock line cs_off apb =
     \<lparr>bus_write = (\<lambda>bs s. tls_spi_write clock line cs_off apb (Some (length (completed s))) (Some bs) s),
      bus_read_with_cmd = (\<lambda>tx n s.
        tls_spi_read_with_cmd clock line cs_off apb (Some (length (completed s))) [] (Some tx) (Some (replicate n 0)) s),
      bus_write_with_cmd = (\<lambda>cmd tx s.
        tls_spi_write_with_cmd clock line cs_off apb (Some (length (completed s))) (Some cmd) (Some tx) s),
      bus_setup = (\<lambda>m cs fclk s. tls_spi_setup True apb m cs fclk s)\<rparr>"

section \<open>A chip\<close>

record nor_slave =
  ns_mem :: "nat \<Rightarrow> u8"
  ns_wel :: bool
  ns_wip :: nat
  ns_frame :: "u8 list"

definition ns_addr :: "u8 list \<Rightarrow> nat" where
  "ns_addr r = 65536 * unat (r ! 0) + 256 * unat (r ! 1) + unat (r ! 2)"

text \<open>The byte the chip sends next, given the frame so far.\<close>

definition ns_answer :: "nor_slave \<Rightarrow> u8" where
  "ns_answer c =
     (case ns_frame c of [] \<Rightarrow> 0xff
      | opc # r \<Rightarrow>
          if opc = 0x05 then (if 0 < ns_wip c then 1 else 0) OR (if ns_wel c then 2 else 0)
          else if opc = 0x03 \<and> 3 \<le> length r \<and> ns_wip c = 0 then ns_mem c (ns_addr r + (length r - 3)) else 0xff)"

definition ns_xchg :: "u8 \<Rightarrow> nor_slave \<Rightarrow> u8 \<times> nor_slave" where
  "ns_xchg b c = (ns_answer c, c\<lparr>ns_frame := ns_frame c @ [b]\<rparr>)"

text \<open>At the end of a frame its command is carried out; erasing and programming take three polls of the status.\<close>

definition ns_cs_off :: "nor_slave \<Rightarrow> nor_slave" where
  "ns_cs_off c =
     (let f = ns_frame c; c = c\<lparr>ns_frame := []\<rparr>
      in case f of [] \<Rightarrow> c
         | opc # r \<Rightarrow>
             if opc = 0x05 then c\<lparr>ns_wip := ns_wip c - 1\<rparr>
             else if 0 < ns_wip c then c
             else if opc = 0x06 then c\<lparr>ns_wel := True\<rparr>
             else if opc = 0x20 \<and> ns_wel c
             then c\<lparr>ns_mem := blit (ns_mem c) (4096 * (ns_addr r div 4096)) (replicate 4096 0xFF), ns_wel := False, ns_wip := 3\<rparr>
             else if opc = 0x02 \<and> ns_wel c
             then c\<lparr>ns_mem := blit (ns_mem c) (ns_addr r) (map2 (AND) (span (ns_mem c) (ns_addr r) (length r - 3)) (drop 3 r)),
                    ns_wel := False, ns_wip := 3\<rparr>
             else c)"

lemma xchg_simps: "fst (ns_xchg b c) = ns_answer c" "snd (ns_xchg b c) = c\<lparr>ns_frame := ns_frame c @ [b]\<rparr>"
  by (simp_all add: ns_xchg_def)

lemma frame_over [simp]: "ns_frame (ns_cs_off c) = []"
  by (simp add: ns_cs_off_def Let_def split: list.split)

lemma shift_frame:
  "shift ns_xchg bs c = (map (\<lambda>i. ns_answer (c\<lparr>ns_frame := ns_frame c @ take i bs\<rparr>)) [0..<length bs], c\<lparr>ns_frame := ns_frame c @ bs\<rparr>)"
proof (induction bs arbitrary: c)
  case (Cons b bs)
  have "[0..<length (b # bs)] = 0 # map Suc [0..<length bs]" by (simp add: upt_conv_Cons map_Suc_upt del: upt_Suc)
  then show ?case by (simp add: xchg_simps Cons.IH Let_def split_beta o_def del: upt_Suc)
qed simp

lemma frame_sent: "ns_frame c = [] \<Longrightarrow> snd (shift ns_xchg bs c) = c\<lparr>ns_frame := bs\<rparr>"
  by (simp add: shift_frame)

lemma byte_digits:
  assumes "(x :: nat) < 2 ^ 24"
  shows "65536 * (x div 65536 mod 256) + 256 * (x div 256 mod 256) + x mod 256 = x"
proof -
  have "x div 65536 mod 256 = x div 65536" using assms by (intro mod_less) (simp add: div_less_iff_less_mult)
  moreover have "x div 65536 = x div 256 div 256" by (simp add: div_mult2_eq [symmetric])
  ultimately show ?thesis using div_mult_mod_eq [of x 256] div_mult_mod_eq [of "x div 256" 256] by linarith
qed

lemma ns_addr_bytes: "unat (a :: u32) < 2 ^ 24 \<Longrightarrow> ns_addr (addr_bytes a @ r) = unat a"
  using byte_digits [of "unat a"] unfolding ns_addr_def addr_bytes_def
  by (simp add: unsigned_ucast_eq unat_drop_bit_eq drop_bit_eq_div take_bit_eq_mod unat_div)

lemma ns_addr_bytes' [simp]: "unat (a :: u32) < 2 ^ 24 \<Longrightarrow> ns_addr (addr_bytes a) = unat a"
  using ns_addr_bytes [of a "[]"] by simp

lemma length_addr_bytes [simp]: "length (addr_bytes a) = 3" "drop 3 (addr_bytes a) = []"
  by (simp_all add: addr_bytes_def)

section \<open>The stack\<close>

definition port_good :: "nor_slave spi \<Rightarrow> bool" where
  "port_good s \<longleftrightarrow> spi_unit.idle ns_xchg ns_cs_off s \<and> map m_context (completed s) = [0..<length (completed s)] \<and> ns_frame (slave s) = []"

lemma port_fresh: "port_good s \<Longrightarrow> length (completed s) \<notin> m_context ` set (completed s)"
  by (metis atLeastLessThan_iff less_irrefl list.set_map port_good_def set_upt)

lemma port_grown:
  "port_good s \<Longrightarrow> spi_unit.idle ns_xchg ns_cs_off s' \<Longrightarrow> map m_context (completed s') = map m_context (completed s) @ [length (completed s)] \<Longrightarrow>
   ns_frame (slave s') = [] \<Longrightarrow> port_good s'"
  by (metis append.simps(1) length_append_singleton length_map port_good_def upt_Suc_append zero_le)

lemma port_types: "port_good s \<Longrightarrow> transtype s \<noteq> SPI_DMA_TRANSFER"
  by (simp add: port_good_def spi_master.idle_def spi_master.spi_inv_def spi_ok_def)


lemma port_write:
  assumes "port_good s" and "bs \<noteq> []"
  obtains s' where "bus_write (spi_port_bus (unit_clock ns_xchg) line ns_cs_off apb) bs s = Some (0, s')" "port_good s'"
    "slave s' = ns_cs_off ((slave s)\<lparr>ns_frame := bs\<rparr>)"
proof -
  obtain s' where s': "tls_spi_write (unit_clock ns_xchg) line ns_cs_off apb (Some (length (completed s))) (Some bs) s = Some (TLS_SPI_STATUS_OK, s')"
      "spi_unit.idle ns_xchg ns_cs_off s'" "slave s' = ns_cs_off (snd (shift ns_xchg bs (slave s)))"
      "map m_context (completed s') = map m_context (completed s) @ [length (completed s)]"
    by (rule spi_master.write_ok [OF _ port_types [OF assms(1)] assms(2) port_fresh [OF assms(1)], where line = line and apb = apb])
      (use assms(1) in \<open>auto simp: port_good_def\<close>)
  have sl: "slave s' = ns_cs_off ((slave s)\<lparr>ns_frame := bs\<rparr>)" using s'(3) assms(1) by (simp add: port_good_def frame_sent)
  then have "port_good s'" by (intro port_grown [OF assms(1) s'(2,4)]) simp
  with s'(1) sl show thesis by (intro that) (simp_all add: spi_port_bus_def)
qed

lemma port_write_with_cmd:
  assumes "port_good s" and "cmd \<noteq> []" and "bs \<noteq> []"
  obtains s' where "bus_write_with_cmd (spi_port_bus (unit_clock ns_xchg) line ns_cs_off apb) cmd bs s = Some (0, s')" "port_good s'"
    "slave s' = ns_cs_off ((slave s)\<lparr>ns_frame := cmd @ bs\<rparr>)"
proof -
  obtain s' where s': "tls_spi_write_with_cmd (unit_clock ns_xchg) line ns_cs_off apb (Some (length (completed s))) (Some cmd) (Some bs) s =
        Some (TLS_SPI_STATUS_OK, s')"
      "spi_unit.idle ns_xchg ns_cs_off s'" "slave s' = ns_cs_off (snd (shift ns_xchg (cmd @ bs) (slave s)))"
      "map m_context (completed s') = map m_context (completed s) @ [length (completed s)]"
    by (rule spi_master.write_with_cmd_ok [OF _ port_types [OF assms(1)] assms(2,3) port_fresh [OF assms(1)], where line = line and apb = apb])
      (use assms(1) in \<open>auto simp: port_good_def\<close>)
  have sl: "slave s' = ns_cs_off ((slave s)\<lparr>ns_frame := cmd @ bs\<rparr>)" using s'(3) assms(1) by (simp add: port_good_def frame_sent)
  then have "port_good s'" by (intro port_grown [OF assms(1) s'(2,4)]) simp
  with s'(1) sl show thesis by (intro that) (simp_all add: spi_port_bus_def)
qed

lemma port_read_with_cmd:
  assumes "port_good s" and "tx \<noteq> []" and "0 < n"
  obtains s' where "bus_read_with_cmd (spi_port_bus (unit_clock ns_xchg) line ns_cs_off apb) tx n s =
      Some (0, map (\<lambda>i. ns_answer ((slave s)\<lparr>ns_frame := tx @ replicate i 0xff\<rparr>)) [0..<n], s')" "port_good s'"
    "slave s' = ns_cs_off ((slave s)\<lparr>ns_frame := tx @ replicate n 0xff\<rparr>)"
proof -
  let ?rs = "drop (length tx) (fst (shift ns_xchg (tx @ replicate n 0xff) (slave s)))"
  have rx: "replicate n 0 \<noteq> ([] :: u8 list)" using assms(3) by simp
  obtain s' where s': "tls_spi_read_with_cmd (unit_clock ns_xchg) line ns_cs_off apb (Some (length (completed s))) [] (Some tx)
        (Some (replicate n 0)) s = Some (TLS_SPI_STATUS_OK, ?rs, s')"
      "spi_unit.idle ns_xchg ns_cs_off s'" "slave s' = ns_cs_off (snd (shift ns_xchg (tx @ replicate n 0xff) (slave s)))"
      "map m_context (completed s') = map m_context (completed s) @ [length (completed s)]"
    by (rule spi_master.read_with_cmd_ok [OF _ port_types [OF assms(1)] assms(2) rx port_fresh [OF assms(1)], where line = line and apb = apb
          and stale = "[]"])
      (use assms(1) in \<open>auto simp: port_good_def\<close>)
  have f: "ns_frame (slave s) = []" using assms(1) by (simp add: port_good_def)
  have "?rs = map (\<lambda>i. ns_answer ((slave s)\<lparr>ns_frame := tx @ replicate i 0xff\<rparr>)) [0..<n]"
    by (rule nth_equalityI) (simp_all add: shift_frame f)
  moreover have sl: "slave s' = ns_cs_off ((slave s)\<lparr>ns_frame := tx @ replicate n 0xff\<rparr>)" using s'(3) f by (simp add: frame_sent)
  moreover have "port_good s'" using sl by (intro port_grown [OF assms(1) s'(2,4)]) simp
  ultimately show thesis using s'(1) by (intro that) (simp_all add: spi_port_bus_def)
qed


interpretation ext_nor: spi_nor "spi_port_bus (unit_clock ns_xchg) line ns_cs_off apb" port_good "\<lambda>s. ns_mem (slave s)" "\<lambda>s. ns_wel (slave s)"
  "\<lambda>s. ns_wip (slave s)" "2 ^ 20" for line apb
proof
  let ?bus = "spi_port_bus (unit_clock ns_xchg) line ns_cs_off apb"
  fix s :: "nor_slave spi" and a :: u32 and xs :: "u8 list" and n :: nat
  assume g: "port_good s"
  show "\<exists>sr s'. bus_read_with_cmd ?bus [0x05] 1 s = Some (0, [sr], s') \<and> port_good s' \<and> ns_mem (slave s') = ns_mem (slave s) \<and>
      ns_wel (slave s') = ns_wel (slave s) \<and> (bit sr 0 \<longleftrightarrow> 0 < ns_wip (slave s)) \<and> (bit sr 1 \<longleftrightarrow> ns_wel (slave s)) \<and>
      ns_wip (slave s') = ns_wip (slave s) - 1"
    by (rule port_read_with_cmd [OF g, of "[0x05]" 1 line apb]) (auto simp: ns_answer_def ns_cs_off_def bit_simps)
  assume w: "ns_wip (slave s) = 0"
  show "\<exists>s'. bus_write ?bus [0x06] s = Some (0, s') \<and> port_good s' \<and> ns_mem (slave s') = ns_mem (slave s) \<and> ns_wel (slave s') \<and>
      ns_wip (slave s') = 0"
    by (rule port_write [OF g, of "[0x06]" line apb]) (auto simp: ns_cs_off_def w)
  show "\<exists>s'. bus_read_with_cmd ?bus (0x03 # addr_bytes a) n s = Some (0, span (ns_mem (slave s)) (unat a) n, s') \<and> port_good s' \<and>
      ns_mem (slave s') = ns_mem (slave s) \<and> ns_wip (slave s') = 0"
    if n: "0 < n" "unat a + n \<le> 2 ^ 20"
  proof -
    have a: "unat a < 2 ^ 24" using n by simp
    have m: "map (\<lambda>i. ns_answer ((slave s)\<lparr>ns_frame := (0x03 # addr_bytes a) @ replicate i 0xff\<rparr>)) [0..<n] = span (ns_mem (slave s)) (unat a) n"
      by (rule nth_equalityI) (simp_all add: ns_answer_def w ns_addr_bytes [OF a] span_def)
    show ?thesis
    proof (rule port_read_with_cmd [OF g, of "0x03 # addr_bytes a" n line apb])
      fix s'
      assume s': "bus_read_with_cmd ?bus (0x03 # addr_bytes a) n s =
          Some (0, map (\<lambda>i. ns_answer ((slave s)\<lparr>ns_frame := (0x03 # addr_bytes a) @ replicate i 0xff\<rparr>)) [0..<n], s')" "port_good s'"
        "slave s' = ns_cs_off ((slave s)\<lparr>ns_frame := (0x03 # addr_bytes a) @ replicate n 0xff\<rparr>)"
      show ?thesis using s' unfolding m by (intro exI [of _ s']) (simp add: ns_cs_off_def w)
    qed (use n in simp_all)
  qed
  assume e: "ns_wel (slave s)" and lt: "unat a < 2 ^ 20"
  have a: "unat a < 2 ^ 24" using lt by simp
  show "\<exists>s'. bus_write ?bus (0x20 # addr_bytes a) s = Some (0, s') \<and> port_good s' \<and>
      ns_mem (slave s') = blit (ns_mem (slave s)) (4096 * (unat a div 4096)) (replicate 4096 0xFF)"
    by (rule port_write [OF g, of "0x20 # addr_bytes a" line apb]) (use a in \<open>auto simp: ns_cs_off_def w e\<close>)
  assume x: "length xs = 256"
  then have ne: "xs \<noteq> []" by auto
  show "\<exists>s'. bus_write_with_cmd ?bus (0x02 # addr_bytes a) xs s = Some (0, s') \<and> port_good s' \<and>
      ns_mem (slave s') = blit (ns_mem (slave s)) (unat a) (map2 (AND) (span (ns_mem (slave s)) (unat a) 256) xs)"
    by (rule port_write_with_cmd [OF g, of "0x02 # addr_bytes a" xs line apb]) (use a x ne in \<open>auto simp: ns_cs_off_def w e ns_addr_bytes\<close>)
qed simp_all

section \<open>An example\<close>

definition demo_chip :: nor_slave where
  "demo_chip = \<lparr>ns_mem = (\<lambda>a. 0x55), ns_wel = False, ns_wip = 0, ns_frame = []\<rparr>"

definition demo_port :: "nor_slave spi" where
  "demo_port = \<lparr>speed_hz = 0, cs_active = 0, spi_mode = 0, reconfig = False, transtype = SPI_BYTE_TRANSFER, wait_queue = [],
     msg_queue = None, current_message = False, current_transfer = False, current_remaining_bytes = 0, big_endian = False,
     cs_high = True, sclk_bits = 0, tx_fifo = [], rx_fifo = [], rx_fifo_cnt = 0, spi_busy = False, unit_mode = 0, unit_sclk = 0,
     spi_int_masked = 0xff, dma_bufs = False, lspi_clock = False, slave = demo_chip, completed = []\<rparr>"

definition demo_flash :: "nor_slave spi spifls" where
  "demo_flash =
     \<lparr>spi_fls = Some \<lparr>fls_drvs = [0], current_drv = Some 0, fls_lock = 1\<rparr>,
      drv_of = (\<lambda>d. \<lparr>drv_id = 0x1440c8, total_size = 2 ^ 20, page_size = 256, program_size = 256, sector_size = 4096,
        drv_clock = 10000000, drv_mode = 0, drv_cs_active = 0, drv_flags = 0\<rparr>),
      exspifls_drv = Some 0, fls_bus = the (snd (tls_spi_init True True ns_cs_off 40 demo_port None))\<rparr>"

lemma demo_good: "port_good (fls_bus demo_flash) \<and> slave (fls_bus demo_flash) = demo_chip"
proof -
  obtain s where s: "tls_spi_init True True ns_cs_off 40 demo_port None = (TLS_SPI_STATUS_OK, Some s)" "slave s = demo_chip" "completed s = []"
      "wait_queue s = []"
    by (simp add: tls_spi_init_def Let_def demo_port_def demo_chip_def spi_set_chipselect_mode_def spi_set_endian_def tls_spi_trans_type_def
        spi_set_mode_def spi_set_sclk_def ns_cs_off_def)
  have "spi_unit.spi_inv ns_xchg ns_cs_off s ([], slave s)"
    by (rule spi_master.installed_inv [OF s(1)]) (simp_all add: demo_port_def)
  then show ?thesis using s by (simp add: demo_flash_def port_good_def spi_master.idle_def demo_chip_def)
qed

theorem spifls_write_read_witness:
  "\<exists>s1 s2. tls_spifls_write (spi_port_bus (unit_clock ns_xchg) (shift ns_xchg) ns_cs_off 40) True 4094 (Some [1, 2, 3, 4]) 4 demo_flash =
       Some (TLS_FLS_STATUS_OK, (), s1) \<and>
     tls_spifls_read (spi_port_bus (unit_clock ns_xchg) (shift ns_xchg) ns_cs_off 40) 4094 (Some [0, 0, 0, 0]) 4 s1 =
       Some (TLS_FLS_STATUS_OK, [1, 2, 3, 4], s2) \<and>
     ns_mem (slave (fls_bus s2)) = blit (\<lambda>a. 0x55) 4094 [1, 2, 3, 4]"
proof -
  have "spifls_installed (2 ^ 20) demo_flash" "lock demo_flash = 1"
    by (simp_all add: spifls_installed_def demo_flash_def lock_def)
  then show ?thesis
    using spifls_write_read [OF ext_nor.spi_nor_axioms, of demo_flash 4 4094 "[1, 2, 3, 4]" "shift ns_xchg" 40 "[0, 0, 0, 0]"] demo_good
    by (auto simp: demo_chip_def)
qed

end
