(* ===== verification/C_Layout.thy ===== *)
theory C_Layout
  imports Prelude
begin

text \<open>
  Layout of C structures as the C-SKY ABI of the target lays them out: natural alignment of 1, 2 and 4
  byte integers, arrays and nested structures, padding before members and at the end.  The parameter
  and firmware-header images that travel between RAM and flash are byte lists addressed through these
  offsets.
\<close>

datatype cty = CU8 | CU16 | CU32 | CArr cty nat | CStruct cfields
  and cfields = End | Field string cty cfields

definition align_up :: "nat \<Rightarrow> nat \<Rightarrow> nat" where
  "align_up n a = (n + a - 1) div a * a"

primrec calign :: "cty \<Rightarrow> nat" and falign :: "cfields \<Rightarrow> nat" where
  "calign CU8 = 1"
| "calign CU16 = 2"
| "calign CU32 = 4"
| "calign (CArr t n) = calign t"
| "calign (CStruct fs) = falign fs"
| "falign End = 1"
| "falign (Field x t fs) = max (calign t) (falign fs)"

primrec csizeof :: "cty \<Rightarrow> nat" and fend :: "cfields \<Rightarrow> nat \<Rightarrow> nat" where
  "csizeof CU8 = 1"
| "csizeof CU16 = 2"
| "csizeof CU32 = 4"
| "csizeof (CArr t n) = n * csizeof t"
| "csizeof (CStruct fs) = align_up (fend fs 0) (falign fs)"
| "fend End off = off"
| "fend (Field x t fs) off = fend fs (align_up off (calign t) + csizeof t)"

declare csizeof.simps(5) [simp del]

text \<open>The members of a structure with offset and size.\<close>

primrec members :: "cfields \<Rightarrow> nat \<Rightarrow> (string \<times> nat \<times> nat) list" where
  "members End off = []"
| "members (Field x t fs) off =
     (let o1 = align_up off (calign t) in (x, o1, csizeof t) # members fs (o1 + csizeof t))"

lemma members_Field [simp]: "members (Field x t fs) off =
    (x, align_up off (calign t), csizeof t) # members fs (align_up off (calign t) + csizeof t)"
  by (simp add: Let_def)

declare members.simps(2) [simp del]

definition member :: "cfields \<Rightarrow> string \<Rightarrow> nat \<times> nat" where
  "member fs x = the (map_of (members fs 0) x)"

lemma align_up_ge: "0 < a \<Longrightarrow> n \<le> align_up n a"
proof -
  assume a: "0 < a"
  have "n + a - 1 = (n + a - 1) div a * a + (n + a - 1) mod a" by simp
  moreover have "(n + a - 1) mod a < a" using a by simp
  ultimately show ?thesis using a unfolding align_up_def by linarith
qed

lemma calign_pos: "0 < calign t" and falign_pos: "0 < falign fs"
  by (induction t and fs) auto

lemma fields_induct [case_names End Field]:
  assumes "P End" and "\<And>x t fs. P fs \<Longrightarrow> P (Field x t fs)"
  shows "P fs"
  using assms cfields.induct [of "\<lambda>_. True" P fs] by blast

text \<open>Members are laid out one after the other, inside the structure.\<close>

lemma members_bounds:
  "(x, o1, n) \<in> set (members fs off) \<Longrightarrow> off \<le> o1 \<and> o1 + n \<le> fend fs off"
proof (induction fs arbitrary: off rule: fields_induct)
  case (Field y t fs)
  let ?o = "align_up off (calign t)"
  have ge: "off \<le> ?o" by (rule align_up_ge [OF calign_pos])
  have mono: "k \<le> fend gs k" for gs k
  proof (induction gs arbitrary: k rule: fields_induct)
    case (Field z u gs)
    show ?case using align_up_ge [OF calign_pos, of k u] Field [of "align_up k (calign u) + csizeof u"] by simp
  qed simp
  show ?case
    using Field.prems Field.IH [of "?o + csizeof t"] ge mono [of "?o + csizeof t" fs] by (auto simp: Let_def)
qed simp

end
