(* ===== verification/Crc.thy ===== *)
theory Crc
  imports Prelude
begin

text \<open>
  The checksums of \<^verbatim>\<open>platform/common/utils/utils.c\<close>: the table-driven CRC-8 (\<^verbatim>\<open>chk_crc8\<close>, \<^verbatim>\<open>get_crc8\<close>,
  \<^verbatim>\<open>calculate_crc8\<close>), the parallel CRC-32 (\<^verbatim>\<open>_cal_crc32\<close>, \<^verbatim>\<open>get_crc32\<close>) and the folded sum \<^verbatim>\<open>checksum\<close>.

  Both CRCs are compared with bit-serial shift registers: CRC-8 with generator \<^verbatim>\<open>0xE0\<close> (reflected
  \<open>x\<^sup>8 + x\<^sup>2 + x + 1\<close>) and CRC-32 with generator \<^verbatim>\<open>0xEDB88320\<close> (IEEE 802.3, reflected).
\<close>

section \<open>CRC-8\<close>

definition crc8_tbl :: "u8 list" where
  "crc8_tbl = [
     0x00, 0x91, 0xE3, 0x72, 0x07, 0x96, 0xE4, 0x75, 0x0E, 0x9F, 0xED, 0x7C, 0x09, 0x98, 0xEA, 0x7B,
     0x1C, 0x8D, 0xFF, 0x6E, 0x1B, 0x8A, 0xF8, 0x69, 0x12, 0x83, 0xF1, 0x60, 0x15, 0x84, 0xF6, 0x67,
     0x38, 0xA9, 0xDB, 0x4A, 0x3F, 0xAE, 0xDC, 0x4D, 0x36, 0xA7, 0xD5, 0x44, 0x31, 0xA0, 0xD2, 0x43,
     0x24, 0xB5, 0xC7, 0x56, 0x23, 0xB2, 0xC0, 0x51, 0x2A, 0xBB, 0xC9, 0x58, 0x2D, 0xBC, 0xCE, 0x5F,
     0x70, 0xE1, 0x93, 0x02, 0x77, 0xE6, 0x94, 0x05, 0x7E, 0xEF, 0x9D, 0x0C, 0x79, 0xE8, 0x9A, 0x0B,
     0x6C, 0xFD, 0x8F, 0x1E, 0x6B, 0xFA, 0x88, 0x19, 0x62, 0xF3, 0x81, 0x10, 0x65, 0xF4, 0x86, 0x17,
     0x48, 0xD9, 0xAB, 0x3A, 0x4F, 0xDE, 0xAC, 0x3D, 0x46, 0xD7, 0xA5, 0x34, 0x41, 0xD0, 0xA2, 0x33,
     0x54, 0xC5, 0xB7, 0x26, 0x53, 0xC2, 0xB0, 0x21, 0x5A, 0xCB, 0xB9, 0x28, 0x5D, 0xCC, 0xBE, 0x2F,
     0xE0, 0x71, 0x03, 0x92, 0xE7, 0x76, 0x04, 0x95, 0xEE, 0x7F, 0x0D, 0x9C, 0xE9, 0x78, 0x0A, 0x9B,
     0xFC, 0x6D, 0x1F, 0x8E, 0xFB, 0x6A, 0x18, 0x89, 0xF2, 0x63, 0x11, 0x80, 0xF5, 0x64, 0x16, 0x87,
     0xD8, 0x49, 0x3B, 0xAA, 0xDF, 0x4E, 0x3C, 0xAD, 0xD6, 0x47, 0x35, 0xA4, 0xD1, 0x40, 0x32, 0xA3,
     0xC4, 0x55, 0x27, 0xB6, 0xC3, 0x52, 0x20, 0xB1, 0xCA, 0x5B, 0x29, 0xB8, 0xCD, 0x5C, 0x2E, 0xBF,
     0x90, 0x01, 0x73, 0xE2, 0x97, 0x06, 0x74, 0xE5, 0x9E, 0x0F, 0x7D, 0xEC, 0x99, 0x08, 0x7A, 0xEB,
     0x8C, 0x1D, 0x6F, 0xFE, 0x8B, 0x1A, 0x68, 0xF9, 0x82, 0x13, 0x61, 0xF0, 0x85, 0x14, 0x66, 0xF7,
     0xA8, 0x39, 0x4B, 0xDA, 0xAF, 0x3E, 0x4C, 0xDD, 0xA6, 0x37, 0x45, 0xD4, 0xA1, 0x30, 0x42, 0xD3,
     0xB4, 0x25, 0x57, 0xC6, 0xB3, 0x22, 0x50, 0xC1, 0xBA, 0x2B, 0x59, 0xC8, 0xBD, 0x2C, 0x5E, 0xCF]"

text \<open>The loop shared by the three functions; \<^verbatim>\<open>crc8_tbl[crc8^data]\<close> is always inside the table.\<close>

definition calculate_crc8 :: "u8 \<Rightarrow> u8 list \<Rightarrow> u8" where
  "calculate_crc8 crc8 ptr = foldl (\<lambda>c d. crc8_tbl ! unat (c XOR d)) crc8 ptr"

definition get_crc8 :: "u8 list \<Rightarrow> u8" where
  "get_crc8 ptr = foldl (\<lambda>c d. crc8_tbl ! unat (c XOR d)) 0 ptr"

definition chk_crc8 :: "u8 list \<Rightarrow> int" where
  "chk_crc8 ptr = (if foldl (\<lambda>c d. crc8_tbl ! unat (c XOR d)) 0 ptr = 0 then 0 else - 1)"

section \<open>CRC-32\<close>

text \<open>
  \<^verbatim>\<open>_cal_crc32\<close>: the 32 next-state bits are written out as exclusive ors of data bits (\<open>ib\<close> is
  \<^verbatim>\<open>in_data_buf\<close>) and state bits (\<open>cb\<close> is \<^verbatim>\<open>crc_buf\<close>), each held in a byte.
\<close>

definition crc_out :: "u8 list \<Rightarrow> u8 list \<Rightarrow> u8 list" where
  "crc_out ib cb = [
     ib ! 1 XOR ib ! 7 XOR cb ! 30 XOR cb ! 24,
     ib ! 0 XOR ib ! 1 XOR ib ! 6 XOR ib ! 7 XOR cb ! 31 XOR cb ! 30 XOR cb ! 25 XOR cb ! 24,
     ib ! 0 XOR ib ! 1 XOR ib ! 5 XOR ib ! 6 XOR ib ! 7 XOR cb ! 31 XOR cb ! 30 XOR cb ! 26 XOR cb ! 25 XOR cb ! 24,
     ib ! 0 XOR ib ! 4 XOR ib ! 5 XOR ib ! 6 XOR cb ! 31 XOR cb ! 27 XOR cb ! 26 XOR cb ! 25,
     ib ! 1 XOR ib ! 3 XOR ib ! 4 XOR ib ! 5 XOR ib ! 7 XOR cb ! 30 XOR cb ! 28 XOR cb ! 27 XOR cb ! 26 XOR cb ! 24,
     ib ! 0 XOR ib ! 1 XOR ib ! 2 XOR ib ! 3 XOR ib ! 4 XOR ib ! 6 XOR ib ! 7 XOR cb ! 31 XOR cb ! 30 XOR cb ! 29 XOR cb ! 28 XOR cb ! 27 XOR cb ! 25 XOR cb ! 24,
     ib ! 0 XOR ib ! 1 XOR ib ! 2 XOR ib ! 3 XOR ib ! 5 XOR ib ! 6 XOR cb ! 31 XOR cb ! 30 XOR cb ! 29 XOR cb ! 28 XOR cb ! 26 XOR cb ! 25,
     ib ! 0 XOR ib ! 2 XOR ib ! 4 XOR ib ! 5 XOR ib ! 7 XOR cb ! 31 XOR cb ! 29 XOR cb ! 27 XOR cb ! 26 XOR cb ! 24,
     ib ! 3 XOR ib ! 4 XOR ib ! 6 XOR ib ! 7 XOR cb ! 28 XOR cb ! 27 XOR cb ! 25 XOR cb ! 24 XOR cb ! 0,
     ib ! 2 XOR ib ! 3 XOR ib ! 5 XOR ib ! 6 XOR cb ! 29 XOR cb ! 28 XOR cb ! 26 XOR cb ! 25 XOR cb ! 1,
     ib ! 2 XOR ib ! 4 XOR ib ! 5 XOR ib ! 7 XOR cb ! 29 XOR cb ! 27 XOR cb ! 26 XOR cb ! 24 XOR cb ! 2,
     ib ! 3 XOR ib ! 4 XOR ib ! 6 XOR ib ! 7 XOR cb ! 28 XOR cb ! 27 XOR cb ! 25 XOR cb ! 24 XOR cb ! 3,
     ib ! 1 XOR ib ! 2 XOR ib ! 3 XOR ib ! 5 XOR ib ! 6 XOR ib ! 7 XOR cb ! 30 XOR cb ! 29 XOR cb ! 28 XOR cb ! 26 XOR cb ! 25 XOR cb ! 24 XOR cb ! 4,
     ib ! 0 XOR ib ! 1 XOR ib ! 2 XOR ib ! 4 XOR ib ! 5 XOR ib ! 6 XOR cb ! 31 XOR cb ! 30 XOR cb ! 29 XOR cb ! 27 XOR cb ! 26 XOR cb ! 25 XOR cb ! 5,
     ib ! 0 XOR ib ! 1 XOR ib ! 3 XOR ib ! 4 XOR ib ! 5 XOR cb ! 31 XOR cb ! 30 XOR cb ! 28 XOR cb ! 27 XOR cb ! 26 XOR cb ! 6,
     ib ! 0 XOR ib ! 2 XOR ib ! 3 XOR ib ! 4 XOR cb ! 31 XOR cb ! 29 XOR cb ! 28 XOR cb ! 27 XOR cb ! 7,
     ib ! 2 XOR ib ! 3 XOR ib ! 7 XOR cb ! 29 XOR cb ! 28 XOR cb ! 24 XOR cb ! 8,
     ib ! 1 XOR ib ! 2 XOR ib ! 6 XOR cb ! 30 XOR cb ! 29 XOR cb ! 25 XOR cb ! 9,
     ib ! 0 XOR ib ! 1 XOR ib ! 5 XOR cb ! 31 XOR cb ! 30 XOR cb ! 26 XOR cb ! 10,
     ib ! 0 XOR ib ! 4 XOR cb ! 31 XOR cb ! 27 XOR cb ! 11,
     ib ! 3 XOR cb ! 28 XOR cb ! 12,
     ib ! 2 XOR cb ! 29 XOR cb ! 13,
     ib ! 7 XOR cb ! 24 XOR cb ! 14,
     ib ! 1 XOR ib ! 6 XOR ib ! 7 XOR cb ! 30 XOR cb ! 25 XOR cb ! 24 XOR cb ! 15,
     ib ! 0 XOR ib ! 5 XOR ib ! 6 XOR cb ! 31 XOR cb ! 26 XOR cb ! 25 XOR cb ! 16,
     ib ! 4 XOR ib ! 5 XOR cb ! 27 XOR cb ! 26 XOR cb ! 17,
     ib ! 1 XOR ib ! 3 XOR ib ! 4 XOR ib ! 7 XOR cb ! 30 XOR cb ! 28 XOR cb ! 27 XOR cb ! 24 XOR cb ! 18,
     ib ! 0 XOR ib ! 2 XOR ib ! 3 XOR ib ! 6 XOR cb ! 31 XOR cb ! 29 XOR cb ! 28 XOR cb ! 25 XOR cb ! 19,
     ib ! 1 XOR ib ! 2 XOR ib ! 5 XOR cb ! 30 XOR cb ! 29 XOR cb ! 26 XOR cb ! 20,
     ib ! 0 XOR ib ! 1 XOR ib ! 4 XOR cb ! 31 XOR cb ! 30 XOR cb ! 27 XOR cb ! 21,
     ib ! 0 XOR ib ! 3 XOR cb ! 31 XOR cb ! 28 XOR cb ! 22,
     ib ! 2 XOR cb ! 23 XOR cb ! 29]"

definition bits_to_u32 :: "(nat \<Rightarrow> bool) \<Rightarrow> u32" where
  "bits_to_u32 p = foldl (\<lambda>r i. if p i then r OR push_bit i 1 else r) 0 [0..<32]"

definition cal_crc32 :: "u32 \<Rightarrow> u8 \<Rightarrow> u32" where
  "cal_crc32 crc_result data_8 =
     (let ib = map (\<lambda>i. drop_bit i data_8 AND 1) [0..<8];
          cb = map (\<lambda>i. ucast (drop_bit i crc_result) AND 1) [0..<32]
      in bits_to_u32 (\<lambda>i. crc_out ib cb ! i \<noteq> 0))"

text \<open>The final loop of \<^verbatim>\<open>get_crc32\<close> reverses the order of the 32 bits.\<close>

definition reverse32 :: "u32 \<Rightarrow> u32" where
  "reverse32 w = foldl (\<lambda>v i. if bit w i then v OR push_bit (31 - i) 1 else v) 0 [0..<32]"

definition get_crc32 :: "u8 list \<Rightarrow> u32" where
  "get_crc32 bytes = NOT (reverse32 (foldl cal_crc32 0xFFFFFFFF bytes))"

section \<open>Folded sum\<close>

text \<open>
  \<^verbatim>\<open>checksum\<close> keeps its 64-bit \<^verbatim>\<open>static long long sum\<close> between calls; a call with \<^verbatim>\<open>init\<close> zero starts anew.
  The shift of the signed sum contributes its upper 32 bits, taken as \<^verbatim>\<open>u32\<close>.
\<close>

definition checksum :: "u32 list \<Rightarrow> bool \<Rightarrow> 64 word \<Rightarrow> u32 \<times> 64 word" where
  "checksum xs init acc =
     (let acc = foldl (\<lambda>s d. s + ucast d) (if init then acc else 0) xs
      in (NOT (ucast (drop_bit 32 acc) + ucast acc), acc))"

section \<open>Bit-serial references\<close>

text \<open>One step of a reflected shift register with generator \<open>g\<close>, fed with the data bit \<open>b\<close>.\<close>

definition lfsr :: "'a::len word \<Rightarrow> 'a word \<Rightarrow> bool \<Rightarrow> 'a word" where
  "lfsr g c b = drop_bit 1 c XOR (if bit c 0 \<noteq> b then g else 0)"

definition byte_bits :: "u8 \<Rightarrow> bool list" where
  "byte_bits d = map (bit d) [0..<8]"

definition crc_ref :: "'a::len word \<Rightarrow> 'a word \<Rightarrow> u8 list \<Rightarrow> 'a word" where
  "crc_ref g c bytes = foldl (lfsr g) c (concat (map byte_bits bytes))"

lemma crc_ref_Nil [simp]: "crc_ref g c [] = c"
  by (simp add: crc_ref_def)

lemma crc_ref_Cons: "crc_ref g c (d # ds) = crc_ref g (foldl (lfsr g) c (byte_bits d)) ds"
  by (simp add: crc_ref_def)

lemma crc_ref_append: "crc_ref g c (xs @ ys) = crc_ref g (crc_ref g c xs) ys"
  by (simp add: crc_ref_def)

section \<open>CRC-8 is the shift register\<close>

lemma crc8_tbl_length: "length crc8_tbl = 256"
  by (simp add: crc8_tbl_def)


text \<open>The register is linear, so a table of all byte values is generated by its entries at the powers of two.\<close>

lemma lfsr_xor: "lfsr g (c XOR c') (b \<noteq> b') = lfsr g c b XOR lfsr g c' b'"
  by (auto simp: lfsr_def bit_xor_iff drop_bit_xor ac_simps)

lemma foldl_lfsr_xor:
  "length bs = length bs' \<Longrightarrow>
   foldl (lfsr g) (c XOR c') (map2 (\<noteq>) bs bs') = foldl (lfsr g) c bs XOR foldl (lfsr g) c' bs'"
proof (induction bs bs' arbitrary: c c' rule: list_induct2)
  case (Cons x xs y ys)
  then show ?case using lfsr_xor [of g c c' x y] by simp
qed simp

lemma byte_bits_xor: "byte_bits (d XOR d') = map2 (\<noteq>) (byte_bits d) (byte_bits d')"
  by (rule nth_equalityI) (auto simp: byte_bits_def bit_xor_iff)

definition crc_entry :: "'a::len word \<Rightarrow> u8 \<Rightarrow> 'a word" where
  "crc_entry g d = foldl (lfsr g) 0 (byte_bits d)"

lemma crc_entry_xor: "crc_entry g (d XOR d') = crc_entry g d XOR crc_entry g d'"
  using foldl_lfsr_xor [of "byte_bits d" "byte_bits d'" g 0 0]
  by (simp add: crc_entry_def byte_bits_xor) (simp add: byte_bits_def)

lemma crc_entry_0: "crc_entry g 0 = 0"
  using crc_entry_xor [of g 0 0] by simp

text \<open>Data may be combined with the register first: the byte-wise form of the algorithm.\<close>

lemma lfsr_own: "foldl (lfsr g) c (map (bit c) [0..<n]) = drop_bit n c"
proof (induction n)
  case (Suc n)
  have "bit (drop_bit n c) 0 = bit c n" by (simp add: bit_drop_bit_eq)
  then show ?case using Suc by (simp add: lfsr_def drop_bit_drop_bit [symmetric] del: bit_0)
qed simp

lemma crc_byte8: "foldl (lfsr g) c (byte_bits d) = crc_entry g (c XOR d)" for c :: u8
proof -
  have "byte_bits d = map2 (\<noteq>) (byte_bits c) (byte_bits (c XOR d))"
    using byte_bits_xor [of c "c XOR d"] by (simp only: xor.assoc [symmetric] xor_self_eq xor.left_neutral)
  then have "foldl (lfsr g) c (byte_bits d) = foldl (lfsr g) c (byte_bits c) XOR crc_entry g (c XOR d)"
    using foldl_lfsr_xor [of "byte_bits c" "byte_bits (c XOR d)" g c 0]
    by (simp add: crc_entry_def) (simp add: byte_bits_def)
  moreover have "foldl (lfsr g) c (byte_bits c) = 0"
    unfolding byte_bits_def lfsr_own by (rule bit_word_eqI) (simp add: bit_drop_bit_eq bit_imp_le_length)
  ultimately show ?thesis by simp
qed

fun table_gen :: "'a::len word \<Rightarrow> nat \<Rightarrow> 'a word list" where
  "table_gen g 0 = [0]"
| "table_gen g (Suc k) = table_gen g k @ map (\<lambda>x. x XOR crc_entry g (2 ^ k)) (table_gen g k)"

lemma table_gen_nth:
  "k \<le> 8 \<Longrightarrow> length (table_gen g k) = 2 ^ k \<and> (\<forall>i < 2 ^ k. table_gen g k ! i = crc_entry g (of_nat i))"
proof (induction k)
  case (Suc k)
  have "of_nat (2 ^ k + j) = (of_nat j XOR 2 ^ k :: u8)" if "j < 2 ^ k" for j
  proof -
    have "\<not> bit j k" using that by (simp add: bit_iff_odd)
    then have "of_nat j AND (2 ^ k :: u8) = 0"
      by (intro bit_word_eqI) (auto simp: bit_and_iff bit_exp_iff bit_of_nat_iff)
    then show ?thesis by (simp add: disjunctive_add_eq_xor [symmetric])
  qed
  note e = this
  show ?case
  proof (intro conjI allI impI)
    fix i :: nat assume i: "i < 2 ^ Suc k"
    show "table_gen g (Suc k) ! i = crc_entry g (of_nat i)"
    proof (cases "i < 2 ^ k")
      case True
      then show ?thesis using Suc by (simp add: nth_append)
    next
      case False
      then have "crc_entry g (of_nat i) = crc_entry g (of_nat (i - 2 ^ k)) XOR crc_entry g (2 ^ k)"
        using e [of "i - 2 ^ k"] i by (simp add: crc_entry_xor [symmetric] del: of_nat_diff)
      moreover have "i - 2 ^ k < 2 ^ k" using i False by simp
      ultimately show ?thesis using Suc False by (simp add: nth_append del: of_nat_diff)
    qed
  qed (use Suc in simp)
qed (simp add: crc_entry_0)

lemma crc8_basis:
  "crc_entry 0xE0 1 = (0x91 :: u8)" "crc_entry 0xE0 2 = (0xE3 :: u8)" "crc_entry 0xE0 4 = (0x07 :: u8)"
  "crc_entry 0xE0 8 = (0x0E :: u8)" "crc_entry 0xE0 16 = (0x1C :: u8)" "crc_entry 0xE0 32 = (0x38 :: u8)"
  "crc_entry 0xE0 64 = (0x70 :: u8)" "crc_entry 0xE0 128 = (0xE0 :: u8)"
  by (simp_all add: crc_entry_def byte_bits_def lfsr_def upt_rec)

lemma crc8_tbl_gen: "crc8_tbl = table_gen 0xE0 8"
  by (simp add: crc8_tbl_def crc8_basis eval_nat_numeral)

lemma crc8_tbl_nth: "crc8_tbl ! unat d = crc_entry 0xE0 d"
  using table_gen_nth [of 8 "0xE0 :: u8"] unsigned_less [where 'a = nat and w = d] by (simp add: crc8_tbl_gen)

lemma calculate_crc8_ref: "calculate_crc8 c ptr = crc_ref 0xE0 c ptr"
  by (induction ptr arbitrary: c)
    (simp_all add: calculate_crc8_def crc_ref_Cons crc8_tbl_nth crc_byte8)

lemma calculate_crc8_append: "calculate_crc8 c (xs @ ys) = calculate_crc8 (calculate_crc8 c xs) ys"
  by (simp add: calculate_crc8_def)

lemma get_crc8_calc: "get_crc8 ptr = calculate_crc8 0 ptr"
  by (simp add: get_crc8_def calculate_crc8_def)

lemma chk_crc8_calc: "chk_crc8 ptr = (if calculate_crc8 0 ptr = 0 then 0 else - 1)"
  by (simp add: chk_crc8_def calculate_crc8_def)

text \<open>The register can be run backwards, so an entry determines its index.\<close>

lemma xor_right_cancel: "a XOR c = b XOR c \<longleftrightarrow> a = (b :: 'a::len word)"
proof
  assume "a XOR c = b XOR c"
  then have "(a XOR c) XOR c = (b XOR c) XOR c" by simp
  then show "a = b" by (simp add: xor.assoc)
qed simp

lemma lfsr_inj:
  fixes c c' :: "'a::len word"
  assumes "bit g (LENGTH('a) - 1)" and "lfsr g c b = lfsr g c' b"
  shows "c = c'"
proof (rule bit_word_eqI)
  have t: "bit (lfsr g x b) (LENGTH('a) - 1) \<longleftrightarrow> bit x 0 \<noteq> b" for x :: "'a word"
    using assms(1) by (auto simp: lfsr_def bit_xor_iff bit_drop_bit_eq dest: bit_imp_le_length)
  then have e: "bit c 0 = bit c' 0" using assms(2) by (metis (full_types))
  have "drop_bit 1 c = drop_bit 1 c'"
    using assms(2) unfolding lfsr_def e by (simp only: xor_right_cancel)
  then have "bit c (Suc n) = bit c' (Suc n)" for n
    by (metis bit_drop_bit_eq comp_apply plus_1_eq_Suc)
  then show "bit c n = bit c' n" for n using e by (cases n) auto
qed

lemma foldl_lfsr_inj:
  fixes c c' :: "'a::len word"
  shows "bit g (LENGTH('a) - 1) \<Longrightarrow> foldl (lfsr g) c bs = foldl (lfsr g) c' bs \<Longrightarrow> c = c'"
proof (induction bs arbitrary: c c')
  case (Cons b bs)
  then have "lfsr g c b = lfsr g c' b" by simp
  then show ?case by (rule lfsr_inj [OF Cons.prems(1)])
qed simp

lemma crc_entry_eq_0:
  fixes g :: "'a::len word"
  assumes "8 \<le> LENGTH('a)" and "bit g (LENGTH('a) - 1)" and "crc_entry g x = 0"
  shows "x = 0"
proof -
  define c where "c = (ucast x :: 'a word)"
  have z: "foldl (lfsr g) 0 (byte_bits 0) = 0" using crc_entry_0 [of g] by (simp add: crc_entry_def)
  have b: "byte_bits x = map (bit c) [0..<8]"
    using assms(1) by (auto simp: byte_bits_def c_def bit_ucast_iff)
  have d0: "drop_bit 8 c = 0"
    by (rule bit_word_eqI) (auto simp: c_def bit_drop_bit_eq bit_ucast_iff dest: bit_imp_le_length)
  have "foldl (lfsr g) c (byte_bits 0) = foldl (lfsr g) c (byte_bits x) XOR foldl (lfsr g) 0 (byte_bits x)"
    using foldl_lfsr_xor [of "byte_bits x" "byte_bits x" g c 0] byte_bits_xor [of x x] by simp
  also have "foldl (lfsr g) c (byte_bits x) = 0" unfolding b lfsr_own by (rule d0)
  finally have "foldl (lfsr g) c (byte_bits 0) = foldl (lfsr g) 0 (byte_bits 0)"
    using assms(3) z by (simp add: crc_entry_def)
  then have "c = 0" by (rule foldl_lfsr_inj [OF assms(2)])
  then have "bit c n = False" for n by simp
  then show ?thesis
    using assms(1) by (intro bit_word_eqI) (auto simp: c_def bit_ucast_iff dest: bit_imp_le_length)
qed

text \<open>A change confined to one byte always changes the register.\<close>

lemma crc_ref_byte_change:
  fixes g :: "'a::len word"
  assumes "8 \<le> LENGTH('a)" and "bit g (LENGTH('a) - 1)"
    and "crc_ref g c (xs @ d # ys) = crc_ref g c (xs @ d' # ys)"
  shows "d = d'"
proof -
  let ?r = "crc_ref g c xs"
  have "foldl (lfsr g) ?r (byte_bits d) = foldl (lfsr g) ?r (byte_bits d')"
    using assms(3) foldl_lfsr_inj [OF assms(2)] unfolding crc_ref_append crc_ref_Cons unfolding crc_ref_def by blast
  then have "crc_entry g (d XOR d') = 0"
    using foldl_lfsr_xor [of "byte_bits d" "byte_bits d'" g ?r ?r] byte_bits_xor [of d d']
    by (simp add: crc_entry_def) (simp add: byte_bits_def)
  then have "d XOR d' = 0" by (rule crc_entry_eq_0 [OF assms(1,2)])
  then show ?thesis using xor_right_cancel [of d d' d'] by simp
qed

section \<open>CRC-32 is the shift register\<close>

lemma bit_push1: "bit (push_bit k 1 :: u32) n \<longleftrightarrow> n < 32 \<and> k = n"
  by (simp add: push_bit_eq_mult bit_exp_iff) auto

lemma bit_or_fold:
  "bit (foldl (\<lambda>v i. if p i then v OR push_bit (h i) 1 else v) (a :: u32) xs) n \<longleftrightarrow>
     bit a n \<or> n < 32 \<and> (\<exists>i \<in> set xs. p i \<and> h i = n)"
proof (induction xs arbitrary: a)
  case (Cons x xs)
  have "bit (if p x then a OR push_bit (h x) 1 else a) n \<longleftrightarrow> bit a n \<or> n < 32 \<and> p x \<and> h x = n"
    by (cases "p x") (simp_all only: if_True if_False bit_or_iff bit_push1, auto)
  then show ?case by (simp add: Cons.IH) blast
qed simp

lemma bit_reverse32: "bit (reverse32 w) n \<longleftrightarrow> n < 32 \<and> bit w (31 - n)"
  by (auto simp: reverse32_def bit_or_fold intro: bexI [of _ "31 - n"])

lemma bit_bits_to_u32: "bit (bits_to_u32 p) n \<longleftrightarrow> n < 32 \<and> p n"
  by (auto simp: bits_to_u32_def bit_or_fold [where h = "\<lambda>i. i"])

lemma bit1_u8: "(w AND 1 :: u8) = of_bool (bit w 0)"
  by (simp add: and_one_eq bit_0 odd_iff_mod_2_eq_one)

definition xb :: "bool \<Rightarrow> bool \<Rightarrow> bool" where
  "xb a b \<longleftrightarrow> a \<noteq> b"

lemma xb_ac: "xb (xb a b) c = xb a (xb b c)" "xb a b = xb b a" "xb a (xb b c) = xb b (xb a c)"
  by (auto simp: xb_def)

lemma xb_simps [simp]: "xb a a = False" "xb a (xb a b) = b" "xb a False = a" "xb False a = a"
  by (auto simp: xb_def)

lemma of_bool_xb: "(of_bool a XOR of_bool b :: u8) = of_bool (xb a b)"
  by (cases a; cases b) (simp_all add: xb_def)

lemma bit_lfsr: "bit (lfsr g c b) n \<longleftrightarrow> xb (bit c (Suc n)) (bit g n \<and> xb (bit c 0) b)"
  by (auto simp: lfsr_def bit_xor_iff bit_drop_bit_eq xb_def simp del: bit_0)

lemma upt8: "[0..<8] = [0, 1, 2, 3, 4, 5, 6, 7]"
  by (simp add: upt_rec)

lemma upt32: "[0..<32] = [0, 1, 2, 3, 4, 5, 6, 7, 8, 9, 10, 11, 12, 13, 14, 15,
    16, 17, 18, 19, 20, 21, 22, 23, 24, 25, 26, 27, 28, 29, 30, 31]"
  by (simp add: upt_rec)

lemma gen32_bits:
  "bit (0xEDB88320 :: u32) 0 = False" "bit (0xEDB88320 :: u32) 1 = False"
  "bit (0xEDB88320 :: u32) 2 = False" "bit (0xEDB88320 :: u32) 3 = False"
  "bit (0xEDB88320 :: u32) 4 = False" "bit (0xEDB88320 :: u32) 5 = True"
  "bit (0xEDB88320 :: u32) 6 = False" "bit (0xEDB88320 :: u32) 7 = False"
  "bit (0xEDB88320 :: u32) 8 = True" "bit (0xEDB88320 :: u32) 9 = True"
  "bit (0xEDB88320 :: u32) 10 = False" "bit (0xEDB88320 :: u32) 11 = False"
  "bit (0xEDB88320 :: u32) 12 = False" "bit (0xEDB88320 :: u32) 13 = False"
  "bit (0xEDB88320 :: u32) 14 = False" "bit (0xEDB88320 :: u32) 15 = True"
  "bit (0xEDB88320 :: u32) 16 = False" "bit (0xEDB88320 :: u32) 17 = False"
  "bit (0xEDB88320 :: u32) 18 = False" "bit (0xEDB88320 :: u32) 19 = True"
  "bit (0xEDB88320 :: u32) 20 = True" "bit (0xEDB88320 :: u32) 21 = True"
  "bit (0xEDB88320 :: u32) 22 = False" "bit (0xEDB88320 :: u32) 23 = True"
  "bit (0xEDB88320 :: u32) 24 = True" "bit (0xEDB88320 :: u32) 25 = False"
  "bit (0xEDB88320 :: u32) 26 = True" "bit (0xEDB88320 :: u32) 27 = True"
  "bit (0xEDB88320 :: u32) 28 = False" "bit (0xEDB88320 :: u32) 29 = True"
  "bit (0xEDB88320 :: u32) 30 = True" "bit (0xEDB88320 :: u32) 31 = True"
  "bit (0xEDB88320 :: u32) 32 = False" "bit (0xEDB88320 :: u32) 33 = False"
  "bit (0xEDB88320 :: u32) 34 = False" "bit (0xEDB88320 :: u32) 35 = False"
  "bit (0xEDB88320 :: u32) 36 = False" "bit (0xEDB88320 :: u32) 37 = False"
  "bit (0xEDB88320 :: u32) 38 = False" "bit (0xEDB88320 :: u32) 39 = False"
  by simp_all

lemma cal_crc32_ref: "reverse32 (cal_crc32 c d) = foldl (lfsr 0xEDB88320) (reverse32 c) (byte_bits d)"
proof -
  define g :: u32 where "g = 0xEDB88320"
  have cb: "map (\<lambda>i. ucast (drop_bit i c) AND 1 :: u8) [0..<32] = map (\<lambda>i. of_bool (bit c i)) [0..<32]"
    by (simp add: bit1_u8 bit_ucast_iff bit_drop_bit_eq del: bit_0)
  have ib: "map (\<lambda>i. drop_bit i d AND 1) [0..<8] = map (\<lambda>i. of_bool (bit d i)) [0..<8]"
    by (simp add: bit1_u8 bit_drop_bit_eq del: bit_0)
  have "map (bit (reverse32 (cal_crc32 c d))) [0..<32] =
      map (bit (foldl (lfsr g) (reverse32 c) (byte_bits d))) [0..<32]"
    unfolding cal_crc32_def cb ib Let_def unfolding byte_bits_def upt8 upt32
    by (simp add: bit_reverse32 bit_bits_to_u32 bit_lfsr crc_out_def of_bool_xb xb_ac gen32_bits [folded g_def]
        One_nat_def [symmetric] Suc_1 del: bit_0 One_nat_def)
  then have "bit (reverse32 (cal_crc32 c d)) n = bit (foldl (lfsr g) (reverse32 c) (byte_bits d)) n"
    if "n < 32" for n using that by (simp add: map_eq_conv)
  then show ?thesis by (intro bit_word_eqI) (simp add: g_def)
qed

lemma foldl_cal_crc32_ref: "reverse32 (foldl cal_crc32 c bytes) = crc_ref 0xEDB88320 (reverse32 c) bytes"
  by (induction bytes arbitrary: c) (simp_all add: crc_ref_Cons cal_crc32_ref)

lemma reverse32_ones: "reverse32 0xFFFFFFFF = 0xFFFFFFFF"
proof -
  have m: "(0xFFFFFFFF :: u32) = mask 32" by (simp add: mask_eq_exp_minus_1)
  show ?thesis unfolding m by (rule bit_word_eqI) (simp add: bit_reverse32 bit_mask_iff)
qed

lemma get_crc32_ref: "get_crc32 bytes = NOT (crc_ref 0xEDB88320 0xFFFFFFFF bytes)"
  by (simp add: get_crc32_def foldl_cal_crc32_ref reverse32_ones)

section \<open>Properties\<close>

text \<open>
  C11.  \<^verbatim>\<open>get_crc32\<close>, with its 32 hand-expanded parity equations, is the CRC-32 of IEEE 802.3: the
  complement of the reflected shift register with generator \<^verbatim>\<open>0xEDB88320\<close> started from all ones.
\<close>

theorem get_crc32_ieee:
  "get_crc32 bytes = NOT (foldl (lfsr 0xEDB88320) 0xFFFFFFFF (concat (map byte_bits bytes)))"
  using get_crc32_ref [of bytes] by (simp add: crc_ref_def)

text \<open>
  The CRC-32 detects every corruption confined to one byte, wherever it is in the message.
\<close>

lemma get_crc32_detects_byte: "get_crc32 (xs @ d # ys) = get_crc32 (xs @ d' # ys) \<longleftrightarrow> d = d'"
proof
  assume "get_crc32 (xs @ d # ys) = get_crc32 (xs @ d' # ys)"
  then have e: "crc_ref 0xEDB88320 (0xFFFFFFFF :: u32) (xs @ d # ys) = crc_ref 0xEDB88320 0xFFFFFFFF (xs @ d' # ys)"
    unfolding get_crc32_ref by (metis bit.double_compl)
  show "d = d'" by (rule crc_ref_byte_change [OF _ _ e]) simp_all
qed simp

text \<open>
  CRC-8: \<^verbatim>\<open>calculate_crc8\<close> is the shift register with generator \<^verbatim>\<open>0xE0\<close>, so all 256 table entries are
  right; a message followed by its \<^verbatim>\<open>get_crc8\<close> passes \<^verbatim>\<open>chk_crc8\<close>, and a message that passes fails after
  any corruption of one byte.
\<close>

lemma crc8_correct:
  "calculate_crc8 c ptr = foldl (lfsr 0xE0) c (concat (map byte_bits ptr)) \<and>
   chk_crc8 (ptr @ [get_crc8 ptr]) = 0 \<and>
   (chk_crc8 (xs @ d # ys) = 0 \<longrightarrow> d' \<noteq> d \<longrightarrow> chk_crc8 (xs @ d' # ys) = - 1)"
proof (intro conjI impI)
  show "calculate_crc8 c ptr = foldl (lfsr 0xE0) c (concat (map byte_bits ptr))"
    using calculate_crc8_ref [of c ptr] by (simp add: crc_ref_def)
  show "chk_crc8 (ptr @ [get_crc8 ptr]) = 0"
    using crc8_tbl_nth [of 0] crc_entry_0 [of "0xE0 :: u8"]
    by (simp add: chk_crc8_calc get_crc8_calc calculate_crc8_append) (simp add: calculate_crc8_def)
  assume "chk_crc8 (xs @ d # ys) = 0" and ne: "d' \<noteq> d"
  then have z: "crc_ref 0xE0 0 (xs @ d # ys) = (0 :: u8)"
    by (simp add: chk_crc8_calc calculate_crc8_ref split: if_splits)
  have "crc_ref 0xE0 0 (xs @ d' # ys) \<noteq> (0 :: u8)"
  proof
    assume "crc_ref 0xE0 0 (xs @ d' # ys) = (0 :: u8)"
    with z have e: "crc_ref 0xE0 0 (xs @ d' # ys) = crc_ref 0xE0 (0 :: u8) (xs @ d # ys)" by simp
    have "d' = d" by (rule crc_ref_byte_change [OF _ _ e]) simp_all
    with ne show False ..
  qed
  then show "chk_crc8 (xs @ d' # ys) = - 1" by (simp add: chk_crc8_calc calculate_crc8_ref)
qed

lemma crc8_correct_example: "chk_crc8 [1, 2, 3, 0x78] = 0 \<and> chk_crc8 [1, 2, 3, 8] = - 1"
proof -
  have "chk_crc8 ([1, 2, 3] @ 0x78 # []) = 0" by (simp add: chk_crc8_def crc8_tbl_def)
  then show ?thesis using crc8_correct [of 0 "[]" "[1, 2, 3]" "0x78" "[]" 8] by simp
qed

lemma checksum_pieces: "checksum ys True (snd (checksum xs False acc)) = checksum (xs @ ys) False acc'"
  by (simp add: checksum_def Let_def)

end
