(* ===== verification/Crypto_Crc.thy ===== *)
theory Crypto_Crc
  imports Crc
begin

text \<open>
  The CRC functions of the hardware crypto driver, \<^verbatim>\<open>platform/common/crypto/wm_crypto_hard.c\<close>, which the
  parameter, firmware-upgrade, OTA and efuse code use for their image checksums.

  The GPSEC unit is the parameter \<open>eng\<close>: given the configuration word, the key register and the memory
  at the source address it delivers the content of \<^verbatim>\<open>HR_CRYPTO_CRC_RESULT\<close>.  Locale \<open>crc_unit\<close> states what
  the unit computes for 32-bit CRCs with reflected input and output, and \<open>ref_engine\<close> interprets it.
  The busy-wait for \<^verbatim>\<open>gpsec_complete\<close> and the peripheral clock are not modelled.
\<close>

section \<open>Model\<close>

datatype CRYPTO_CRC_TYPE = CRYPTO_CRC_TYPE_8 | CRYPTO_CRC_TYPE_16_MODBUS | CRYPTO_CRC_TYPE_16_CCITT
  | CRYPTO_CRC_TYPE_32

primrec crc_type_code :: "CRYPTO_CRC_TYPE \<Rightarrow> u32" where
  "crc_type_code CRYPTO_CRC_TYPE_8 = 0"
| "crc_type_code CRYPTO_CRC_TYPE_16_MODBUS = 1"
| "crc_type_code CRYPTO_CRC_TYPE_16_CCITT = 2"
| "crc_type_code CRYPTO_CRC_TYPE_32 = 3"

record psCrcContext =
  state :: u32
  ctype :: CRYPTO_CRC_TYPE
  mode :: u8

type_synonym crc_engine = "u32 \<Rightarrow> u32 \<Rightarrow> u8 list \<Rightarrow> u32"

abbreviation OUTPUT_REFLECT :: u8 where "OUTPUT_REFLECT \<equiv> 1"
abbreviation INPUT_REFLECT :: u8 where "INPUT_REFLECT \<equiv> 2"
abbreviation CRYPTO_METHOD_CRC :: u32 where "CRYPTO_METHOD_CRC \<equiv> 6"
abbreviation ERR_CRY_OK :: int where "ERR_CRY_OK \<equiv> 0"

text \<open>\<^verbatim>\<open>Reflect\<close>: the lowest \<open>ch\<close> bits in reverse order.\<close>

definition Reflect :: "u32 \<Rightarrow> nat \<Rightarrow> u32" where
  "Reflect ref ch =
     fst (foldl (\<lambda>(value, ref) i. (if ref AND 1 \<noteq> 0 then value OR push_bit (ch - i) 1 else value, drop_bit 1 ref))
       (0, ref) [1..<ch + 1])"

definition tls_crypto_crc_init :: "u32 \<Rightarrow> CRYPTO_CRC_TYPE \<Rightarrow> u8 \<Rightarrow> psCrcContext" where
  "tls_crypto_crc_init key crc_type m = \<lparr>state = key, ctype = crc_type, mode = m\<rparr>"

definition crc_sec_cfg :: "CRYPTO_CRC_TYPE \<Rightarrow> u8 \<Rightarrow> u32 \<Rightarrow> u32" where
  "crc_sec_cfg t m len = push_bit 16 CRYPTO_METHOD_CRC OR push_bit 21 (crc_type_code t) OR push_bit 23 (ucast m)
     OR (len AND 0xFFFF)"

primrec crc_width :: "CRYPTO_CRC_TYPE \<Rightarrow> nat" where
  "crc_width CRYPTO_CRC_TYPE_8 = 8"
| "crc_width CRYPTO_CRC_TYPE_16_MODBUS = 16"
| "crc_width CRYPTO_CRC_TYPE_16_CCITT = 16"
| "crc_width CRYPTO_CRC_TYPE_32 = 32"

definition tls_crypto_crc_update :: "crc_engine \<Rightarrow> psCrcContext \<Rightarrow> u8 list \<Rightarrow> u32 \<Rightarrow> psCrcContext" where
  "tls_crypto_crc_update eng ctx mem len =
     (let key = (if mode ctx AND OUTPUT_REFLECT \<noteq> 0 then Reflect (state ctx) (crc_width (ctype ctx)) else state ctx)
      in ctx\<lparr>state := eng (crc_sec_cfg (ctype ctx) (mode ctx) len) key mem\<rparr>)"

definition tls_crypto_crc_final :: "psCrcContext \<Rightarrow> u32" where
  "tls_crypto_crc_final ctx = state ctx"

section \<open>The unit\<close>

text \<open>
  The length field has 16 bits.  With both reflections the key register is loaded in unreflected bit
  order and the result appears reflected.
\<close>

locale crc_unit =
  fixes eng :: crc_engine
  assumes crc32_reflected: "unat len < 65536 \<Longrightarrow> unat len \<le> length mem \<Longrightarrow>
    eng (crc_sec_cfg CRYPTO_CRC_TYPE_32 3 len) key mem = crc_ref 0xEDB88320 (reverse32 key) (take (unat len) mem)"

lemma Reflect_steps:
  "k \<le> 32 \<Longrightarrow> foldl (\<lambda>(value, ref) i. (if ref AND 1 \<noteq> 0 then value OR push_bit (32 - i) 1 else value, drop_bit 1 ref))
     (0 :: u32, ref) [1..<k + 1] =
   (foldl (\<lambda>v i. if bit ref i then v OR push_bit (31 - i) 1 else v) 0 [0..<k], drop_bit k (ref :: u32))"
proof (induction k)
  case (Suc k)
  have "drop_bit k ref AND 1 \<noteq> 0 \<longleftrightarrow> bit ref k"
    by (simp add: and_one_eq bit_iff_odd_drop_bit odd_iff_mod_2_eq_one)
  then show ?case using Suc by simp
qed simp

lemma Reflect_32: "Reflect w 32 = reverse32 w"
  using Reflect_steps [of 32 w] by (simp add: Reflect_def reverse32_def)

lemma reverse32_twice [simp]: "reverse32 (reverse32 w) = w"
  by (rule bit_word_eqI) (auto simp: bit_reverse32)

context crc_unit
begin

lemma update_crc32:
  assumes "unat len < 65536" and "unat len \<le> length mem"
  shows "tls_crypto_crc_update eng \<lparr>state = c, ctype = CRYPTO_CRC_TYPE_32, mode = 3\<rparr> mem len =
    \<lparr>state = crc_ref 0xEDB88320 c (take (unat len) mem), ctype = CRYPTO_CRC_TYPE_32, mode = 3\<rparr>"
  using crc32_reflected [OF assms] by (simp add: tls_crypto_crc_update_def Reflect_32)

lemma one_shot:
  assumes "unat len < 65536" and "unat len \<le> length mem"
  shows "tls_crypto_crc_final (tls_crypto_crc_update eng (tls_crypto_crc_init 0xFFFFFFFF CRYPTO_CRC_TYPE_32 3) mem len) =
    NOT (get_crc32 (take (unat len) mem))"
  using update_crc32 [OF assms] by (simp add: tls_crypto_crc_init_def tls_crypto_crc_final_def get_crc32_ref)

end

text \<open>Stages chain: updates one after the other continue one running CRC.\<close>

lemma crc_chain:
  assumes "crc_unit eng" and "\<forall>m \<in> set chunks. length m < 65536"
  shows "foldl (\<lambda>ctx m. tls_crypto_crc_update eng ctx m (of_nat (length m)))
      \<lparr>state = c, ctype = CRYPTO_CRC_TYPE_32, mode = 3\<rparr> chunks =
    \<lparr>state = crc_ref 0xEDB88320 c (concat chunks), ctype = CRYPTO_CRC_TYPE_32, mode = 3\<rparr>"
  using assms(2)
proof (induction chunks arbitrary: c)
  case (Cons m ms)
  then have "unat (of_nat (length m) :: u32) = length m" by (simp add: unat_of_nat_u32)
  then show ?case
    using Cons crc_unit.update_crc32 [OF assms(1), of "of_nat (length m)" m c] by (simp add: crc_ref_append)
qed simp

section \<open>A reference unit\<close>

definition ref_engine :: crc_engine where
  "ref_engine cfg key mem = crc_ref 0xEDB88320 (reverse32 key) (take (unat (cfg AND 0xFFFF)) mem)"

lemma cfg_len: "crc_sec_cfg t m len AND 0xFFFF = len AND 0xFFFF"
proof -
  have m: "(0xFFFF :: u32) = mask 16" by (simp add: mask_eq_exp_minus_1)
  show ?thesis
    unfolding m crc_sec_cfg_def
    by (rule bit_word_eqI) (simp only: bit_and_iff bit_or_iff bit_push_bit_iff bit_mask_iff, auto)
qed

interpretation ref_crc: crc_unit ref_engine
proof
  fix len key :: u32 and mem :: "u8 list"
  assume l: "unat len < 65536"
  have "(0xFFFF :: u32) = mask 16" by (simp add: mask_eq_exp_minus_1)
  then have "unat (len AND 0xFFFF) = unat len" using l by (simp only: unat_and_mask) simp
  then show "ref_engine (crc_sec_cfg CRYPTO_CRC_TYPE_32 3 len) key mem =
      crc_ref 0xEDB88320 (reverse32 key) (take (unat len) mem)"
    by (simp add: ref_engine_def cfg_len)
qed

section \<open>Properties\<close>

text \<open>
  C14.  Any number of \<^verbatim>\<open>tls_crypto_crc_update\<close> calls, each on fewer than 64 KiB, followed by
  \<^verbatim>\<open>tls_crypto_crc_final\<close> give one CRC-32 over the concatenation: the bit-reversal of the running state
  by \<^verbatim>\<open>Reflect\<close> makes the stages chain.  The value is the complement of \<^verbatim>\<open>get_crc32\<close>.
\<close>

theorem crypto_crc_stages:
  assumes "crc_unit eng" and "\<forall>m \<in> set chunks. length m < 65536"
  shows "tls_crypto_crc_final
      (foldl (\<lambda>ctx m. tls_crypto_crc_update eng ctx m (of_nat (length m)))
        (tls_crypto_crc_init 0xFFFFFFFF CRYPTO_CRC_TYPE_32 3) chunks) =
    NOT (get_crc32 (concat chunks))"
  using crc_chain [OF assms] by (simp add: tls_crypto_crc_init_def tls_crypto_crc_final_def get_crc32_ref)

theorem crypto_crc_stages_witness:
  "tls_crypto_crc_final
      (foldl (\<lambda>ctx m. tls_crypto_crc_update ref_engine ctx m (of_nat (length m)))
        (tls_crypto_crc_init 0xFFFFFFFF CRYPTO_CRC_TYPE_32 3) [[1, 2], [3]]) = NOT (get_crc32 (concat [[1, 2], [3]]))"
  by (rule crypto_crc_stages [OF ref_crc.crc_unit_axioms]) simp

end
