(* ===== verification/Internal_Flash.thy ===== *)
theory Internal_Flash
  imports Prelude
begin

text \<open>
  The internal flash driver, \<^verbatim>\<open>platform/drivers/internalflash/wm_internal_fls.c\<close>, with the constants of
  \<^verbatim>\<open>include/driver/wm_internal_flash.h\<close> and \<^verbatim>\<open>wm_flash_map.h\<close>.

  The SPI NOR chip behind the QSPI controller is not part of the sources: it is the parameter
  \<open>hw\<close> of every operation.  \<open>hw cmd addr win c\<close> is what happens when the command register is started:
  it takes the command word, the address register, the 1 KiB data window at \<^verbatim>\<open>RSA_BASE_ADDRESS\<close> and
  the state of the chip, and returns the new window and chip.  Everything the driver itself does -
  building command words, masking addresses, filling and draining the window, splitting requests into
  pages and sectors, caching sectors - is modelled line by line.

  Every public operation of the driver runs between \<^verbatim>\<open>tls_os_sem_acquire\<close> and \<^verbatim>\<open>tls_os_sem_release\<close> of
  \<^verbatim>\<open>inside_fls->fls_lock\<close>, hence as one atomic step of the state below.  Results of \<^verbatim>\<open>tls_mem_alloc\<close>
  are arguments: the contents of the block, or \<open>None\<close> when the allocation fails.
\<close>

section \<open>State\<close>

type_synonym 'c hw = "u32 \<Rightarrow> u32 \<Rightarrow> u8 list \<Rightarrow> 'c \<Rightarrow> u8 list \<times> 'c"

text \<open>\<^verbatim>\<open>struct tls_inside_fls\<close> with its \<^verbatim>\<open>FLASH_OTP_WR_PARAM_ST\<close>.\<close>

record fls_info =
  flashid :: u8
  density :: u32
  eraseSize :: u16
  pageSize :: u16

text \<open>
  The static variables of the file (\<^verbatim>\<open>inside_fls\<close>, \<^verbatim>\<open>tls_fls_cache\<close>, \<^verbatim>\<open>gsflscache\<close>, \<^verbatim>\<open>gsSector\<close>), the
  controller registers it reads back (\<^verbatim>\<open>HR_FLASH_CR\<close>, \<^verbatim>\<open>HR_FLASH_ADDR\<close>, the data window) and the chip.
  \<open>cache_aligned\<close> says whether the linker placed \<^verbatim>\<open>tls_fls_cache\<close>, a byte array, on a word boundary:
  \<^verbatim>\<open>flashRead\<close> tests the address of its destination.
\<close>

record 'c fls =
  inside_fls :: "fls_info option"
  fls_cache :: "u8 list"
  cache_aligned :: bool
  gsflscache :: "u8 list option"
  gsSector :: u32
  flash_cr :: u32
  flash_addr :: u32
  window :: "u8 list"
  chip :: 'c

abbreviation INSIDE_FLS_SECTOR_SIZE :: nat where "INSIDE_FLS_SECTOR_SIZE \<equiv> 4096"
abbreviation INSIDE_FLS_PAGE_SIZE :: nat where "INSIDE_FLS_PAGE_SIZE \<equiv> 256"
abbreviation INSIDE_FLS_BASE_ADDR :: u32 where "INSIDE_FLS_BASE_ADDR \<equiv> 0x8000000"
abbreviation FLASH_BASE_ADDR :: u32 where "FLASH_BASE_ADDR \<equiv> 0x8000000"
abbreviation INSIDE_FLS_SECBOOT_ADDR :: u32 where "INSIDE_FLS_SECBOOT_ADDR \<equiv> 0x8002000"

abbreviation TLS_FLS_STATUS_OK :: int where "TLS_FLS_STATUS_OK \<equiv> 0"
abbreviation TLS_FLS_STATUS_EINVAL :: int where "TLS_FLS_STATUS_EINVAL \<equiv> 1"
abbreviation TLS_FLS_STATUS_EBUSY :: int where "TLS_FLS_STATUS_EBUSY \<equiv> 2"
abbreviation TLS_FLS_STATUS_EPERM :: int where "TLS_FLS_STATUS_EPERM \<equiv> 3"
abbreviation TLS_FLS_STATUS_ENOSUPPORT :: int where "TLS_FLS_STATUS_ENOSUPPORT \<equiv> 4"
abbreviation TLS_FLS_STATUS_ENOMEM :: int where "TLS_FLS_STATUS_ENOMEM \<equiv> 6"

section \<open>Controller commands\<close>

text \<open>Writing \<^verbatim>\<open>CMD_START_Msk\<close> to \<^verbatim>\<open>HR_FLASH_CMD_START\<close> runs the command in \<^verbatim>\<open>HR_FLASH_CMD_ADDR\<close>.\<close>

definition flash_start :: "'c hw \<Rightarrow> u32 \<Rightarrow> 'c fls \<Rightarrow> 'c fls" where
  "flash_start hw cmd s =
     (let (w, c) = hw cmd (flash_addr s) (window s) (chip s) in s\<lparr>window := w, chip := c\<rparr>)"

definition read_first_value :: "'c fls \<Rightarrow> u32" where
  "read_first_value s = get32 (window s) 0"

definition writeEnable :: "'c hw \<Rightarrow> 'c fls \<Rightarrow> 'c fls" where
  "writeEnable hw s = flash_start hw 0x6 s"

definition readRID :: "'c hw \<Rightarrow> 'c fls \<Rightarrow> u8 \<times> 'c fls" where
  "readRID hw s = (let s = flash_start hw 0x2c09F s in (ucast (read_first_value s AND 0xFF), s))"

text \<open>
  \<^verbatim>\<open>programSR\<close>: at most a page is moved into the window, a word at a time (every caller passes a
  multiple of four bytes), then the program command runs with write enable latched.
\<close>

definition programSR :: "'c hw \<Rightarrow> u32 \<Rightarrow> u32 \<Rightarrow> u8 list \<Rightarrow> nat \<Rightarrow> 'c fls \<Rightarrow> 'c fls" where
  "programSR hw cmd addr buf sz s =
     (let sz = min sz INSIDE_FLS_PAGE_SIZE;
          s = s\<lparr>window := take sz buf @ drop sz (window s)\<rparr>;
          s = writeEnable hw s;
          s = s\<lparr>flash_addr := addr AND 0x1FFFFFF\<rparr>
      in flash_start hw (cmd OR push_bit 16 (of_nat sz - 1)) s)"

definition programPage :: "'c hw \<Rightarrow> u32 \<Rightarrow> nat \<Rightarrow> u8 list \<Rightarrow> 'c fls \<Rightarrow> 'c fls" where
  "programPage hw adr sz buf s = programSR hw 0x80009002 adr buf sz s"

definition eraseSR :: "'c hw \<Rightarrow> u32 \<Rightarrow> u32 \<Rightarrow> 'c fls \<Rightarrow> 'c fls" where
  "eraseSR hw cmd addr s =
     (let s = writeEnable hw s; s = s\<lparr>flash_addr := addr AND 0x1FFFFFF\<rparr> in flash_start hw cmd s)"

definition eraseSector :: "'c hw \<Rightarrow> u32 \<Rightarrow> 'c fls \<Rightarrow> 'c fls" where
  "eraseSector hw adr s = eraseSR hw 0x80000820 adr s"

text \<open>
  \<^verbatim>\<open>getFlashDensity\<close>: \<^verbatim>\<open>1 << density\<close> on a 32-bit \<^verbatim>\<open>int\<close>; for the two codes \<^verbatim>\<open>0x20\<close> and \<^verbatim>\<open>0x21\<close> the shift
  leaves the word, which the model reads as 0.
\<close>

definition getFlashDensity :: "'c hw \<Rightarrow> 'c fls \<Rightarrow> u32 \<times> 'c fls" where
  "getFlashDensity hw s =
     (let s = flash_start hw 0x2c09F s;
          d = drop_bit 16 (read_first_value s AND 0xFFFFFF) AND 0xFF
      in (if d \<noteq> 0 \<and> d \<le> 0x21 then push_bit (unat d) 1 else 0, s))"

section \<open>Reading\<close>

text \<open>
  \<^verbatim>\<open>__readByCMD\<close>: the command word is chosen by \<open>cmd\<close> and, outside QIO mode, degraded to the single
  line read \<^verbatim>\<open>0x0B\<close>.  The window is drained in words; after the last partial word the bytes past
  \<open>sz\<close> are zeroed, so the destination receives \<open>sz\<close> bytes rounded up to a word.
\<close>

definition read_cmd_word :: "u32 \<Rightarrow> u32 \<Rightarrow> nat \<Rightarrow> u32 option" where
  "read_cmd_word cr cmd sz =
     (let cmd = (if cr AND 1 = 0 \<and> cmd > 0x0B then 0x0B else cmd);
          n = push_bit 16 ((of_nat sz - 1) AND 0x3FF)
      in if cmd = 0x03 then Some (0x8000C003 OR n)
         else if cmd = 0x0B then
           (if cr AND 2 = 2 then Some (0xB400C00B OR n) else Some (0xBC00C00B OR n))
         else if cmd = 0xBB then Some (0xE400C0BB OR n)
         else if cmd = 0xEB then Some (0xEC00C0EB OR n)
         else None)"

definition readByCMD_raw ::
  "'c hw \<Rightarrow> u32 \<Rightarrow> u32 \<Rightarrow> nat \<Rightarrow> 'c fls \<Rightarrow> int \<times> u8 list \<times> 'c fls" where
  "readByCMD_raw hw cmd addr sz s =
     (case read_cmd_word (flash_cr s) cmd sz of
        None \<Rightarrow> (-1, [], s)
      | Some w \<Rightarrow>
          (let s = flash_start hw w (s\<lparr>flash_addr := addr AND 0x1FFFFFF\<rparr>)
           in (0, take sz (window s) @ replicate ((4 - sz mod 4) mod 4) 0, s)))"

definition readByCMD ::
  "'c hw \<Rightarrow> u32 \<Rightarrow> u32 \<Rightarrow> nat \<Rightarrow> 'c fls \<Rightarrow> int \<times> u8 list \<times> 'c fls" where
  "readByCMD hw cmd addr sz s =
     (case inside_fls s of
        None \<Rightarrow> (TLS_FLS_STATUS_EPERM, [], s)
      | Some _ \<Rightarrow> (let (_, bs, s) = readByCMD_raw hw cmd addr sz s in (TLS_FLS_STATUS_OK, bs, s)))"

text \<open>One \<^verbatim>\<open>__readByCMD(0xEB, \<dots>)\<close> whose result code is ignored, as \<^verbatim>\<open>flashRead\<close> does.\<close>

definition read_quad :: "'c hw \<Rightarrow> nat \<Rightarrow> nat \<Rightarrow> 'c fls \<Rightarrow> u8 list \<times> 'c fls" where
  "read_quad hw addr sz s = (let (_, bs, s) = readByCMD_raw hw 0xEB (of_nat addr) sz s in (bs, s))"

fun read_chunks :: "'c hw \<Rightarrow> nat \<Rightarrow> nat \<Rightarrow> nat \<Rightarrow> 'c fls \<Rightarrow> u8 list \<times> 'c fls" where
  "read_chunks hw 0 sz addr s = ([], s)"
| "read_chunks hw (Suc n) sz addr s =
     (let (bs, s) = read_quad hw addr sz s; (cs, s) = read_chunks hw n sz (addr + sz) s
      in (bs @ cs, s))"

text \<open>Pages read through \<^verbatim>\<open>tls_fls_cache\<close> and copied out of it.\<close>

fun read_pages :: "'c hw \<Rightarrow> nat \<Rightarrow> nat \<Rightarrow> 'c fls \<Rightarrow> u8 list \<times> 'c fls" where
  "read_pages hw 0 addr s = ([], s)"
| "read_pages hw (Suc n) addr s =
     (let (bs, s) = read_quad hw addr INSIDE_FLS_PAGE_SIZE s;
          s = s\<lparr>fls_cache := overlay (fls_cache s) 0 bs\<rparr>;
          out = take INSIDE_FLS_PAGE_SIZE (fls_cache s);
          (cs, s) = read_pages hw n (addr + INSIDE_FLS_PAGE_SIZE) s
      in (out @ cs, s))"

text \<open>
  \<^verbatim>\<open>flashRead\<close> with a destination other than \<^verbatim>\<open>tls_fls_cache\<close>; \<open>al\<close> is the word alignment of that
  destination.  Aligned requests are read straight into it in pages or kilobytes, all others go
  through \<^verbatim>\<open>tls_fls_cache\<close> a page at a time.
\<close>

definition flashRead :: "'c hw \<Rightarrow> nat \<Rightarrow> bool \<Rightarrow> nat \<Rightarrow> 'c fls \<Rightarrow> u8 list \<times> 'c fls" where
  "flashRead hw addr al sz s =
     (let page_offset = addr mod INSIDE_FLS_PAGE_SIZE in
      if page_offset = 0 \<and> al \<and> sz mod 4 = 0 then
        (let max_size = (if sz \<ge> 512 then 1024 else INSIDE_FLS_PAGE_SIZE);
             sz_pagenum = sz div max_size;
             sz_remain = sz mod max_size;
             (bs, s) = read_chunks hw sz_pagenum max_size addr s
         in if sz_remain \<noteq> 0 then
              (let (cs, s) = read_quad hw (addr + sz_pagenum * max_size) sz_remain s in (bs @ cs, s))
            else (bs, s))
      else
        (let base = addr - page_offset;
             (bs, s) = read_quad hw base INSIDE_FLS_PAGE_SIZE s;
             s = s\<lparr>fls_cache := overlay (fls_cache s) 0 bs\<rparr>
         in if sz > INSIDE_FLS_PAGE_SIZE - page_offset then
              (let head = take (INSIDE_FLS_PAGE_SIZE - page_offset) (drop page_offset (fls_cache s));
                   rest = sz - (INSIDE_FLS_PAGE_SIZE - page_offset);
                   sz_pagenum = rest div INSIDE_FLS_PAGE_SIZE;
                   sz_remain = rest mod INSIDE_FLS_PAGE_SIZE;
                   (mid, s) = read_pages hw sz_pagenum (base + INSIDE_FLS_PAGE_SIZE) s
               in if sz_remain \<noteq> 0 then
                    (let (bs, s) = read_quad hw (base + INSIDE_FLS_PAGE_SIZE + sz_pagenum * INSIDE_FLS_PAGE_SIZE)
                                     (sz_remain + (4 - sz_remain mod 4)) s;
                         s = s\<lparr>fls_cache := overlay (fls_cache s) 0 bs\<rparr>
                     in (head @ mid @ take sz_remain (fls_cache s), s))
                  else (head @ mid, s))
            else (take sz (drop page_offset (fls_cache s)), s)))"

text \<open>
  \<^verbatim>\<open>flashRead(addr, tls_fls_cache, INSIDE_FLS_SECTOR_SIZE)\<close>, the call \<^verbatim>\<open>tls_fls_write\<close> makes: the
  destination is the very buffer the unaligned branch reads its pages through, so there every page
  first lands at the start of \<^verbatim>\<open>tls_fls_cache\<close> and is then copied to its place.
\<close>

fun read_pages_self :: "'c hw \<Rightarrow> nat \<Rightarrow> nat \<Rightarrow> nat \<Rightarrow> 'c fls \<Rightarrow> 'c fls" where
  "read_pages_self hw 0 addr off s = s"
| "read_pages_self hw (Suc n) addr off s =
     (let (bs, s) = read_quad hw addr INSIDE_FLS_PAGE_SIZE s;
          s = s\<lparr>fls_cache := overlay (fls_cache s) 0 bs\<rparr>;
          s = s\<lparr>fls_cache := overlay (fls_cache s) off (take INSIDE_FLS_PAGE_SIZE (fls_cache s))\<rparr>
      in read_pages_self hw n (addr + INSIDE_FLS_PAGE_SIZE) (off + INSIDE_FLS_PAGE_SIZE) s)"

definition flashRead_cache :: "'c hw \<Rightarrow> nat \<Rightarrow> 'c fls \<Rightarrow> 'c fls" where
  "flashRead_cache hw addr s =
     (if cache_aligned s then
        (let (bs, s) = flashRead hw addr True INSIDE_FLS_SECTOR_SIZE s in s\<lparr>fls_cache := bs\<rparr>)
      else read_pages_self hw 16 addr 0 s)"

text \<open>
  \<^verbatim>\<open>tls_fls_read\<close>.  \<open>dst\<close> is the destination pointer: \<open>None\<close> for \<^verbatim>\<open>NULL\<close>, otherwise its word alignment.
  The bytes stored through it are the second component (empty when nothing is stored).
\<close>

definition fls_bad_args :: "u32 \<Rightarrow> u32 \<Rightarrow> bool \<Rightarrow> fls_info \<Rightarrow> bool" where
  "fls_bad_args addr len isnull f \<longleftrightarrow>
     (addr AND (INSIDE_FLS_BASE_ADDR - 1)) \<ge> density f \<or> len = 0 \<or> isnull"

definition tls_fls_read ::
  "'c hw \<Rightarrow> u32 \<Rightarrow> bool option \<Rightarrow> u32 \<Rightarrow> 'c fls \<Rightarrow> int \<times> u8 list \<times> 'c fls" where
  "tls_fls_read hw addr dst len s =
     (case inside_fls s of
        None \<Rightarrow> (TLS_FLS_STATUS_EPERM, [], s)
      | Some f \<Rightarrow>
          if fls_bad_args addr len (dst = None) f then (TLS_FLS_STATUS_EINVAL, [], s)
          else (let (bs, s) = flashRead hw (unat addr) (the dst) (unat len) s
                in (TLS_FLS_STATUS_OK, bs, s)))"

section \<open>Writing\<close>

text \<open>Programming the sixteen pages of a sector from a buffer.\<close>

fun program_pages :: "'c hw \<Rightarrow> nat \<Rightarrow> nat \<Rightarrow> u8 list \<Rightarrow> 'c fls \<Rightarrow> 'c fls" where
  "program_pages hw 0 addr buf s = s"
| "program_pages hw (Suc n) addr buf s =
     program_pages hw n (addr + INSIDE_FLS_PAGE_SIZE) (drop INSIDE_FLS_PAGE_SIZE buf)
       (programPage hw (of_nat addr) INSIDE_FLS_PAGE_SIZE (take INSIDE_FLS_PAGE_SIZE buf) s)"

text \<open>
  The body of the loop of \<^verbatim>\<open>tls_fls_write\<close>: read the sector into the cache, erase it, patch the cache
  with the caller's bytes and program it back.
\<close>

definition write_sector :: "'c hw \<Rightarrow> nat \<Rightarrow> nat \<Rightarrow> u8 list \<Rightarrow> 'c fls \<Rightarrow> 'c fls" where
  "write_sector hw secpos secoff buf s =
     (let s = flashRead_cache hw (secpos * INSIDE_FLS_SECTOR_SIZE) s;
          s = eraseSector hw (of_nat (secpos * INSIDE_FLS_SECTOR_SIZE)) s;
          s = s\<lparr>fls_cache := overlay (fls_cache s) secoff buf\<rparr>
      in program_pages hw 16 (secpos * INSIDE_FLS_SECTOR_SIZE) (fls_cache s) s)"

text \<open>The following sectors of a request, each written from its start.\<close>

function write_sectors :: "'c hw \<Rightarrow> nat \<Rightarrow> u8 list \<Rightarrow> 'c fls \<Rightarrow> 'c fls" where
  "write_sectors hw secpos buf s =
     (if length buf \<le> INSIDE_FLS_SECTOR_SIZE then write_sector hw secpos 0 buf s
      else write_sectors hw (Suc secpos) (drop INSIDE_FLS_SECTOR_SIZE buf)
             (write_sector hw secpos 0 (take INSIDE_FLS_SECTOR_SIZE buf) s))"
  by pat_completeness auto
termination by (relation "measure (\<lambda>(hw, p, buf, s). length buf)") auto

declare write_sectors.simps [simp del]

text \<open>\<^verbatim>\<open>tls_fls_write\<close>; \<open>buf\<close> is \<open>None\<close> for a \<^verbatim>\<open>NULL\<close> pointer, otherwise the bytes behind it.\<close>

definition tls_fls_write ::
  "'c hw \<Rightarrow> u32 \<Rightarrow> u8 list option \<Rightarrow> u32 \<Rightarrow> 'c fls \<Rightarrow> int \<times> 'c fls" where
  "tls_fls_write hw addr buf len s =
     (case inside_fls s of
        None \<Rightarrow> (TLS_FLS_STATUS_EPERM, s)
      | Some f \<Rightarrow>
          if fls_bad_args addr len (buf = None) f then (TLS_FLS_STATUS_EINVAL, s)
          else
            (let offaddr = unat (addr AND (INSIDE_FLS_BASE_ADDR - 1));
                 secpos = offaddr div INSIDE_FLS_SECTOR_SIZE;
                 secoff = offaddr mod INSIDE_FLS_SECTOR_SIZE;
                 bs = take (unat len) (the buf);
                 secremain = min (unat len) (INSIDE_FLS_SECTOR_SIZE - secoff);
                 s = write_sector hw secpos secoff (take secremain bs) s
             in (TLS_FLS_STATUS_OK,
                 if unat len = secremain then s
                 else write_sectors hw (Suc secpos) (drop secremain bs) s)))"

text \<open>
  \<^verbatim>\<open>tls_fls_write_without_erase\<close>: page-wise read-modify-program on a \<^verbatim>\<open>tls_mem_alloc\<close>ed page cache.  Only
  the first page and a last page are read back before they are patched; \<open>mem\<close> is the allocation.
\<close>

function write_pages_raw :: "'c hw \<Rightarrow> nat \<Rightarrow> u8 list \<Rightarrow> u8 list \<Rightarrow> 'c fls \<Rightarrow> 'c fls" where
  "write_pages_raw hw pagepos cache buf s =
     (if length buf \<le> INSIDE_FLS_PAGE_SIZE then
        (let (cache, s) = flashRead hw (pagepos * INSIDE_FLS_PAGE_SIZE) True INSIDE_FLS_PAGE_SIZE s
         in programPage hw (of_nat (pagepos * INSIDE_FLS_PAGE_SIZE)) INSIDE_FLS_PAGE_SIZE
              (overlay cache 0 buf) s)
      else
        (let cache = overlay cache 0 (take INSIDE_FLS_PAGE_SIZE buf);
             s = programPage hw (of_nat (pagepos * INSIDE_FLS_PAGE_SIZE)) INSIDE_FLS_PAGE_SIZE cache s
         in write_pages_raw hw (Suc pagepos) cache (drop INSIDE_FLS_PAGE_SIZE buf) s))"
  by pat_completeness auto
termination by (relation "measure (\<lambda>(hw, p, c, buf, s). length buf)") auto

declare write_pages_raw.simps [simp del]

definition tls_fls_write_without_erase ::
  "'c hw \<Rightarrow> bool \<Rightarrow> u32 \<Rightarrow> u8 list option \<Rightarrow> u32 \<Rightarrow> 'c fls \<Rightarrow> int \<times> 'c fls" where
  "tls_fls_write_without_erase hw mem addr buf len s =
     (case inside_fls s of
        None \<Rightarrow> (TLS_FLS_STATUS_EPERM, s)
      | Some f \<Rightarrow>
          if fls_bad_args addr len (buf = None) f then (TLS_FLS_STATUS_EINVAL, s)
          else if \<not> mem then (TLS_FLS_STATUS_ENOMEM, s)
          else
            (let offaddr = unat (addr AND (INSIDE_FLS_BASE_ADDR - 1));
                 pagepos = offaddr div INSIDE_FLS_PAGE_SIZE;
                 pageoff = offaddr mod INSIDE_FLS_PAGE_SIZE;
                 bs = take (unat len) (the buf);
                 pageremain = min (unat len) (INSIDE_FLS_PAGE_SIZE - pageoff);
                 (cache, s) = flashRead hw (pagepos * INSIDE_FLS_PAGE_SIZE) True INSIDE_FLS_PAGE_SIZE s;
                 cache = overlay cache pageoff (take pageremain bs);
                 s = programPage hw (of_nat (pagepos * INSIDE_FLS_PAGE_SIZE)) INSIDE_FLS_PAGE_SIZE cache s
             in (TLS_FLS_STATUS_OK,
                 if unat len = pageremain then s
                 else write_pages_raw hw (Suc pagepos) cache (drop pageremain bs) s)))"

definition sector_limit :: "fls_info \<Rightarrow> u32" where
  "sector_limit f = density f div 0x1000 + INSIDE_FLS_BASE_ADDR div 0x1000"

definition tls_fls_erase :: "'c hw \<Rightarrow> u32 \<Rightarrow> 'c fls \<Rightarrow> int \<times> 'c fls" where
  "tls_fls_erase hw sector s =
     (case inside_fls s of
        None \<Rightarrow> (TLS_FLS_STATUS_EPERM, s)
      | Some f \<Rightarrow>
          if sector \<ge> sector_limit f then (TLS_FLS_STATUS_EINVAL, s)
          else (TLS_FLS_STATUS_OK, eraseSector hw (sector * 0x1000) s))"

section \<open>Fast write\<close>

text \<open>
  A sector cache \<^verbatim>\<open>gsflscache\<close> for the sector \<^verbatim>\<open>gsSector\<close>, flushed when a write leaves the sector or
  fills it.  Operations that dereference \<^verbatim>\<open>gsflscache\<close> or \<^verbatim>\<open>inside_fls\<close> return \<open>None\<close> where the C would
  dereference \<^verbatim>\<open>NULL\<close>.
\<close>

definition tls_fls_flush_sector :: "'c hw \<Rightarrow> 'c fls \<Rightarrow> 'c fls option" where
  "tls_fls_flush_sector hw s =
     (case inside_fls s of
        None \<Rightarrow> None
      | Some f \<Rightarrow>
          if gsSector s < sector_limit f then
            (case gsflscache s of
               None \<Rightarrow> None
             | Some cache \<Rightarrow>
                 (let s = eraseSector hw (gsSector s * 0x1000) s
                  in Some (program_pages hw 16 (unat (gsSector s * 0x1000)) cache s)))
          else Some s)"

definition tls_fls_fast_write_init :: "u8 list option \<Rightarrow> 'c fls \<Rightarrow> int \<times> 'c fls" where
  "tls_fls_fast_write_init mem s =
     (case inside_fls s of
        None \<Rightarrow> (TLS_FLS_STATUS_EPERM, s)
      | Some _ \<Rightarrow>
          if gsflscache s \<noteq> None then (-1, s)
          else (case mem of
                  None \<Rightarrow> (-1, s\<lparr>gsflscache := None\<rparr>)
                | Some block \<Rightarrow> (TLS_FLS_STATUS_OK, s\<lparr>gsflscache := Some block\<rparr>)))"

definition tls_fls_fast_write_destroy :: "'c hw \<Rightarrow> 'c fls \<Rightarrow> 'c fls" where
  "tls_fls_fast_write_destroy hw s =
     (case gsflscache s of
        None \<Rightarrow> s
      | Some _ \<Rightarrow>
          (case inside_fls s of
             None \<Rightarrow> s
           | Some _ \<Rightarrow>
               (case tls_fls_flush_sector hw s of
                  None \<Rightarrow> s
                | Some s \<Rightarrow> s\<lparr>gsflscache := None\<rparr>)))"

text \<open>One pass of the copy loop: patch the cache, flush it and move on when the sector is full.\<close>

definition fast_chunk :: "'c hw \<Rightarrow> nat \<Rightarrow> u8 list \<Rightarrow> 'c fls \<Rightarrow> 'c fls option" where
  "fast_chunk hw offset chunk s =
     (case gsflscache s of
        None \<Rightarrow> None
      | Some cache \<Rightarrow>
          (let s = s\<lparr>gsflscache := Some (overlay cache offset chunk)\<rparr>
           in if offset + length chunk \<ge> INSIDE_FLS_SECTOR_SIZE then
                map_option (\<lambda>s. s\<lparr>gsSector := gsSector s + 1\<rparr>) (tls_fls_flush_sector hw s)
              else Some s))"

function fast_chunks :: "'c hw \<Rightarrow> u8 list \<Rightarrow> 'c fls \<Rightarrow> 'c fls option" where
  "fast_chunks hw buf s =
     (if buf = [] then Some s
      else Option.bind (fast_chunk hw 0 (take INSIDE_FLS_SECTOR_SIZE buf) s)
             (fast_chunks hw (drop INSIDE_FLS_SECTOR_SIZE buf)))"
  by pat_completeness auto
termination by (relation "measure (\<lambda>(hw, buf, s). length buf)") auto

declare fast_chunks.simps [simp del]

definition tls_fls_fast_write ::
  "'c hw \<Rightarrow> u32 \<Rightarrow> u8 list option \<Rightarrow> u32 \<Rightarrow> 'c fls \<Rightarrow> (int \<times> 'c fls) option" where
  "tls_fls_fast_write hw addr buf len s =
     (case inside_fls s of
        None \<Rightarrow> Some (TLS_FLS_STATUS_EPERM, s)
      | Some f \<Rightarrow>
          if fls_bad_args addr len (buf = None) f then Some (TLS_FLS_STATUS_EINVAL, s)
          else
            (let sector = addr div 0x1000;
                 offset = unat addr mod INSIDE_FLS_SECTOR_SIZE;
                 bs = take (unat len) (the buf);
                 maxlen = INSIDE_FLS_SECTOR_SIZE - offset
             in Option.bind
                  (if sector \<noteq> gsSector s \<and> gsSector s \<noteq> 0 then tls_fls_flush_sector hw s else Some s)
                  (\<lambda>s. Option.bind (fast_chunk hw offset (take maxlen bs) (s\<lparr>gsSector := sector\<rparr>))
                  (\<lambda>s. map_option (Pair TLS_FLS_STATUS_OK) (fast_chunks hw (drop maxlen bs) s)))))"

section \<open>Chip erase, parameters, initialisation\<close>

fun erase_used :: "'c hw \<Rightarrow> nat \<Rightarrow> nat \<Rightarrow> 'c fls \<Rightarrow> 'c fls" where
  "erase_used hw 0 addr s = s"
| "erase_used hw (Suc n) addr s =
     (let (cache, s) = flashRead hw addr True INSIDE_FLS_SECTOR_SIZE s;
          s = (if \<exists>b \<in> set cache. b \<noteq> 0xFF then eraseSector hw (of_nat addr) s else s)
      in erase_used hw n (addr + INSIDE_FLS_SECTOR_SIZE) s)"

definition tls_fls_chip_erase :: "'c hw \<Rightarrow> bool \<Rightarrow> 'c fls \<Rightarrow> int \<times> 'c fls" where
  "tls_fls_chip_erase hw mem s =
     (case inside_fls s of
        None \<Rightarrow> (TLS_FLS_STATUS_EPERM, s)
      | Some f \<Rightarrow>
          if \<not> mem then (TLS_FLS_STATUS_ENOMEM, s)
          else (TLS_FLS_STATUS_OK,
                erase_used hw (unat ((density f - (INSIDE_FLS_SECBOOT_ADDR AND 0xFFFFF)) div 0x1000))
                  (unat INSIDE_FLS_SECBOOT_ADDR) s))"

text \<open>\<^verbatim>\<open>tls_fls_get_param\<close>; \<open>isnull\<close>: the result pointer is \<^verbatim>\<open>NULL\<close>.  The value is \<open>None\<close> when none is stored.\<close>

definition tls_fls_get_param :: "nat \<Rightarrow> bool \<Rightarrow> 'c fls \<Rightarrow> int \<times> u32 option" where
  "tls_fls_get_param type isnull s =
     (case inside_fls s of
        None \<Rightarrow> (TLS_FLS_STATUS_EPERM, None)
      | Some f \<Rightarrow>
          if isnull then (TLS_FLS_STATUS_EINVAL, None)
          else if type = 0 then (TLS_FLS_STATUS_OK, Some 0x2013)
          else if type = 1 then (TLS_FLS_STATUS_OK, Some (density f))
          else if type = 2 then (TLS_FLS_STATUS_OK, Some 256)
          else if type = 3 then (TLS_FLS_STATUS_OK, Some 256)
          else if type = 4 then (TLS_FLS_STATUS_OK, Some 0x1000)
          else if type = 5 then (TLS_FLS_STATUS_OK, Some (ucast (flashid f)))
          else (TLS_FLS_STATUS_EINVAL, None))"

text \<open>The manufacturer identifiers of \<^verbatim>\<open>enum TYPE_FLASH_ID\<close>.\<close>

abbreviation SPIFLASH_MID_GD :: u8 where "SPIFLASH_MID_GD \<equiv> 0xC8"
abbreviation SPIFLASH_MID_ESMT :: u8 where "SPIFLASH_MID_ESMT \<equiv> 0x1C"
abbreviation SPIFLASH_MID_PUYA :: u8 where "SPIFLASH_MID_PUYA \<equiv> 0x85"
abbreviation SPIFLASH_MID_WINBOND :: u8 where "SPIFLASH_MID_WINBOND \<equiv> 0xEF"
abbreviation SPIFLASH_MID_FUDANMICRO :: u8 where "SPIFLASH_MID_FUDANMICRO \<equiv> 0xA1"
abbreviation SPIFLASH_MID_BOYA :: u8 where "SPIFLASH_MID_BOYA \<equiv> 0x68"
abbreviation SPIFLASH_MID_XMC :: u8 where "SPIFLASH_MID_XMC \<equiv> 0x20"
abbreviation SPIFLASH_MID_XTX :: u8 where "SPIFLASH_MID_XTX \<equiv> 0x0B"
abbreviation SPIFLASH_MID_TSINGTENG :: u8 where "SPIFLASH_MID_TSINGTENG \<equiv> 0xEB"
abbreviation SPIFLASH_MID_TSINGTENG_1MB_4MB :: u8 where "SPIFLASH_MID_TSINGTENG_1MB_4MB \<equiv> 0xCD"

text \<open>The \<^verbatim>\<open>switch\<close> of \<^verbatim>\<open>tls_fls_init\<close> that fixes the OTP erase size of a chip; \<open>None\<close> is its default case.\<close>

definition otp_erase_size :: "u8 \<Rightarrow> u32 \<Rightarrow> u16 option" where
  "otp_erase_size mid dens =
     (if mid = SPIFLASH_MID_TSINGTENG_1MB_4MB then
        (if dens = 0x100000 then Some 1024 else if dens = 0x400000 then Some 2048 else Some 256)
      else if mid = SPIFLASH_MID_GD then Some 1024
      else if mid = SPIFLASH_MID_FUDANMICRO then (if dens \<le> 0x100000 then Some 256 else Some 1024)
      else if mid \<in> {SPIFLASH_MID_TSINGTENG, SPIFLASH_MID_BOYA, SPIFLASH_MID_XMC, SPIFLASH_MID_WINBOND}
        then Some 256
      else if mid = SPIFLASH_MID_PUYA then Some 512
      else if mid = SPIFLASH_MID_XTX \<or> mid = SPIFLASH_MID_ESMT then Some 0
      else None)"

definition tls_fls_init :: "'c hw \<Rightarrow> bool \<Rightarrow> bool \<Rightarrow> 'c fls \<Rightarrow> int \<times> 'c fls" where
  "tls_fls_init hw mem sem s =
     (if inside_fls s \<noteq> None then (TLS_FLS_STATUS_EBUSY, s)
      else if \<not> mem then (TLS_FLS_STATUS_ENOMEM, s)
      else if \<not> sem then (TLS_FLS_STATUS_ENOMEM, s)
      else
        (let (mid, s) = readRID hw s; (dens, s) = getFlashDensity hw s
         in case otp_erase_size mid dens of
              None \<Rightarrow> (TLS_FLS_STATUS_ENOSUPPORT, s)
            | Some er \<Rightarrow>
                (TLS_FLS_STATUS_OK,
                 s\<lparr>inside_fls := Some \<lparr>flashid = mid, density = dens, eraseSize = er, pageSize = 256\<rparr>\<rparr>)))"

definition tls_fls_exit :: "'c fls \<Rightarrow> int" where
  "tls_fls_exit s = TLS_FLS_STATUS_EPERM"

text \<open>The system parameter addresses (\<^verbatim>\<open>unsigned int\<close> globals) and their placement by density.\<close>

record flash_layout =
  FLASH_END_ADDR :: u32
  FLASH_OTA_FLAG_ADDR :: u32
  FLASH_PARAM_RESTORE_ADDR :: u32
  FLASH_PARAM2_ADDR :: u32
  FLASH_PARAM1_ADDR :: u32
  FLASH_PARAM_DEFAULT :: u32
  FLASH_MESH_PARAM_ADDR :: u32

text \<open>The initial values: of the build for AIR6208 with 8 MiB of flash, and of the build for 2 MiB.\<close>

definition default_layout :: flash_layout where
  "default_layout = \<lparr>FLASH_END_ADDR = 0x87FFFFF, FLASH_OTA_FLAG_ADDR = 0x87FF000,
     FLASH_PARAM_RESTORE_ADDR = 0x87FE000, FLASH_PARAM2_ADDR = 0x87FD000,
     FLASH_PARAM1_ADDR = 0x87FC000, FLASH_PARAM_DEFAULT = 0x87FB000, FLASH_MESH_PARAM_ADDR = 0x87FA000\<rparr>"

definition default_layout_2m :: flash_layout where
  "default_layout_2m = \<lparr>FLASH_END_ADDR = 0x81FFFFF, FLASH_OTA_FLAG_ADDR = 0x81FF000,
     FLASH_PARAM_RESTORE_ADDR = 0x81FE000, FLASH_PARAM2_ADDR = 0x81FD000,
     FLASH_PARAM1_ADDR = 0x81FC000, FLASH_PARAM_DEFAULT = 0x81FB000, FLASH_MESH_PARAM_ADDR = 0x81FA000\<rparr>"

definition tls_fls_sys_param_postion_init :: "'c fls \<Rightarrow> flash_layout \<Rightarrow> flash_layout" where
  "tls_fls_sys_param_postion_init s l =
     (case tls_fls_get_param 1 False s of
        (err, v) \<Rightarrow>
          if err = TLS_FLS_STATUS_OK then
            (let top = FLASH_BASE_ADDR OR the v
             in \<lparr>FLASH_END_ADDR = top - 1, FLASH_OTA_FLAG_ADDR = top - 0x1000,
                 FLASH_PARAM_RESTORE_ADDR = top - 0x2000, FLASH_PARAM2_ADDR = top - 0x3000,
                 FLASH_PARAM1_ADDR = top - 0x4000, FLASH_PARAM_DEFAULT = top - 0x5000,
                 FLASH_MESH_PARAM_ADDR = top - 0x6000\<rparr>)
          else l)"

end
