(* ===== verification/Flash_Otp.thy ===== *)
theory Flash_Otp
  imports Internal_Flash
begin

text \<open>
  The rest of \<^verbatim>\<open>platform/drivers/internalflash/wm_internal_fls.c\<close>: the block-protect bits of the chip's status
  registers (\<^verbatim>\<open>tls_flash_unlock\<close>, \<^verbatim>\<open>tls_flash_lock\<close>), the one-time-programmable security registers
  (\<^verbatim>\<open>tls_fls_otp_read\<close>, \<^verbatim>\<open>tls_fls_otp_write\<close>, \<^verbatim>\<open>tls_fls_otp_lock\<close>), the unique identifier and the decryption
  control register, with the runtime's port of the security registers, \<^verbatim>\<open>app/port/luat_otp_air101.c\<close>.
  The chip is again the parameter \<open>hw\<close> of every operation.
\<close>

section \<open>Status registers\<close>

text \<open>
  The two status registers are read with the commands \<^verbatim>\<open>0x0C005\<close> and \<^verbatim>\<open>0x0C035\<close>; a register is written
  by latching write enable, storing the value in the window and starting the write command.
\<close>

definition read_sr :: "'c hw \<Rightarrow> u32 \<Rightarrow> 'c fls \<Rightarrow> u32 \<times> 'c fls" where
  "read_sr hw cmd s = (let s = flash_start hw cmd s in (read_first_value s AND 0xFF, s))"

definition read_status :: "'c hw \<Rightarrow> 'c fls \<Rightarrow> u32 \<times> 'c fls" where
  "read_status hw s =
     (let (lo, s) = read_sr hw 0x0C005 s; (hi, s) = read_sr hw 0x0C035 s in (lo OR push_bit 8 hi, s))"

definition write_sr :: "'c hw \<Rightarrow> u32 \<Rightarrow> u32 \<Rightarrow> 'c fls \<Rightarrow> 'c fls" where
  "write_sr hw cmd v s =
     (let s = writeEnable hw s; s = s\<lparr>window := overlay (window s) 0 (le32 v)\<rparr> in flash_start hw cmd s)"

definition bp_bits :: "u32 \<Rightarrow> u32 \<Rightarrow> u32 \<Rightarrow> u32 \<Rightarrow> u32 \<Rightarrow> u32" where
  "bp_bits bp4 bp3 bp2 bp1 bp0 =
     push_bit 6 bp4 OR push_bit 5 bp3 OR push_bit 4 bp2 OR push_bit 3 bp1 OR push_bit 2 bp0"

definition writeBpBit_for_1wreg ::
  "'c hw \<Rightarrow> u32 \<Rightarrow> u32 \<Rightarrow> u32 \<Rightarrow> u32 \<Rightarrow> u32 \<Rightarrow> u32 \<Rightarrow> 'c fls \<Rightarrow> 'c fls" where
  "writeBpBit_for_1wreg hw cmp bp4 bp3 bp2 bp1 bp0 s =
     (let (status, s) = read_status hw s;
          bpstatus = bp_bits bp4 bp3 bp2 bp1 bp0
      in if status AND 0x407C \<noteq> bpstatus OR push_bit 14 cmp
         then write_sr hw 0x1A001 ((status AND 0xBF83) OR bpstatus OR push_bit 14 cmp) s
         else s)"

definition writeBpBit_for_2wreg ::
  "'c hw \<Rightarrow> u32 \<Rightarrow> u32 \<Rightarrow> u32 \<Rightarrow> u32 \<Rightarrow> u32 \<Rightarrow> u32 \<Rightarrow> 'c fls \<Rightarrow> 'c fls" where
  "writeBpBit_for_2wreg hw cmp bp4 bp3 bp2 bp1 bp0 s =
     (let (status, s) = read_status hw s;
          bpstatus = bp_bits bp4 bp3 bp2 bp1 bp0;
          s = (if bpstatus \<noteq> status AND 0x7C then write_sr hw 0xA001 ((status AND 0x83) OR bpstatus) s else s)
      in if drop_bit 8 (status AND 0x4000) \<noteq> push_bit 6 cmp
         then write_sr hw 0xA031 ((drop_bit 8 status AND 0xBF) OR push_bit 6 cmp) s
         else s)"

text \<open>
  \<^verbatim>\<open>writeESMTBpBit\<close> rewrites the first register and then the register behind \<^verbatim>\<open>0x85\<close>/\<^verbatim>\<open>0xC1\<close> without comparing.
\<close>

definition writeESMTBpBit ::
  "'c hw \<Rightarrow> u32 \<Rightarrow> u32 \<Rightarrow> u32 \<Rightarrow> u32 \<Rightarrow> u32 \<Rightarrow> u32 \<Rightarrow> 'c fls \<Rightarrow> 'c fls" where
  "writeESMTBpBit hw cmp bp4 bp3 bp2 bp1 bp0 s =
     (let (status, s) = read_sr hw 0x0C005 s;
          bpstatus = bp_bits bp4 bp3 bp2 bp1 bp0;
          status = (status AND 0x83) OR bpstatus;
          s = write_sr hw 0x0A001 ((status AND 0x83) OR bpstatus OR push_bit 14 cmp) s;
          (status, s) = read_sr hw 0x0C085 s
      in write_sr hw 0x0A0C1 ((status AND 0xBF) OR push_bit 6 cmp) s)"

text \<open>
  \<^verbatim>\<open>flashunlock\<close> and \<^verbatim>\<open>flashlock\<close> choose the routine by the manufacturer the chip reports, and for two
  manufacturers by the density the driver found; \<open>f\<close> is \<^verbatim>\<open>*inside_fls\<close>.  They differ in the bits they write.
\<close>

definition write_bp_by_chip ::
  "'c hw \<Rightarrow> fls_info \<Rightarrow> u32 \<Rightarrow> u32 \<Rightarrow> u32 \<Rightarrow> u32 \<Rightarrow> u32 \<Rightarrow> u32 \<Rightarrow> 'c fls \<Rightarrow> int \<times> 'c fls" where
  "write_bp_by_chip hw f cmp bp4 bp3 bp2 bp1 bp0 s =
     (let (rid, s) = readRID hw s in
      if rid \<in> {SPIFLASH_MID_GD, SPIFLASH_MID_TSINGTENG} then
        (0, writeBpBit_for_1wreg hw cmp bp4 bp3 bp2 bp1 bp0 s)
      else if rid \<in> {SPIFLASH_MID_PUYA, SPIFLASH_MID_TSINGTENG_1MB_4MB} then
        (0, if density f = 0x100000 then writeBpBit_for_1wreg hw cmp bp4 bp3 bp2 bp1 bp0 s
            else writeBpBit_for_2wreg hw cmp bp4 bp3 bp2 bp1 bp0 s)
      else if rid \<in> {SPIFLASH_MID_XTX, SPIFLASH_MID_BOYA, SPIFLASH_MID_FUDANMICRO, SPIFLASH_MID_XMC} then
        (0, writeBpBit_for_2wreg hw cmp bp4 bp3 bp2 bp1 bp0 s)
      else if rid = SPIFLASH_MID_ESMT then (0, writeESMTBpBit hw cmp bp4 bp3 bp2 bp1 bp0 s)
      else (-1, s))"

definition flashunlock :: "'c hw \<Rightarrow> fls_info \<Rightarrow> 'c fls \<Rightarrow> int \<times> 'c fls" where
  "flashunlock hw f s = write_bp_by_chip hw f 0 0 0 0 0 0 s"

definition flashlock :: "'c hw \<Rightarrow> fls_info \<Rightarrow> 'c fls \<Rightarrow> int \<times> 'c fls" where
  "flashlock hw f s = write_bp_by_chip hw f 0 1 1 0 1 0 s"

definition tls_flash_unlock :: "'c hw \<Rightarrow> 'c fls \<Rightarrow> int \<times> 'c fls" where
  "tls_flash_unlock hw s =
     (case inside_fls s of None \<Rightarrow> (TLS_FLS_STATUS_EPERM, s) | Some f \<Rightarrow> flashunlock hw f s)"

text \<open>The call of \<^verbatim>\<open>flashlock\<close> is commented out: \<^verbatim>\<open>tls_flash_lock\<close> reports success and does nothing.\<close>

definition tls_flash_lock :: "'c fls \<Rightarrow> int \<times> 'c fls" where
  "tls_flash_lock s = (case inside_fls s of None \<Rightarrow> (TLS_FLS_STATUS_EPERM, s) | Some f \<Rightarrow> (0, s))"

text \<open>
  \<^verbatim>\<open>tls_fls_sem_lock\<close> and \<^verbatim>\<open>tls_fls_sem_unlock\<close>: the semaphore belongs to the operating system, its two
  operations are the arguments \<open>acquire\<close> and \<open>release\<close>.
\<close>

definition tls_fls_sem_lock :: "('m \<Rightarrow> 'm) \<Rightarrow> 'c fls \<Rightarrow> 'm \<Rightarrow> 'm" where
  "tls_fls_sem_lock acquire s m = (if inside_fls s = None then m else acquire m)"

definition tls_fls_sem_unlock :: "('m \<Rightarrow> 'm) \<Rightarrow> 'c fls \<Rightarrow> 'm \<Rightarrow> 'm" where
  "tls_fls_sem_unlock release s m = (if inside_fls s = None then m else release m)"

text \<open>\<^verbatim>\<open>config_flash_decrypt_param\<close>: the three one-bit fields of \<^verbatim>\<open>FLASH_ENCRYPT_CTRL_Type\<close>, bits 1 to 3.\<close>

definition set_field1 :: "nat \<Rightarrow> u32 \<Rightarrow> u32 \<Rightarrow> u32" where
  "set_field1 i v w = (if odd v then set_bit i w else unset_bit i w)"

definition config_flash_decrypt_param :: "u32 \<Rightarrow> u32 \<Rightarrow> u32 \<Rightarrow> u32 \<Rightarrow> int \<times> u32" where
  "config_flash_decrypt_param code_decrypt dbus_decrypt data_decrypt ctrl =
     (0, set_field1 3 data_decrypt (set_field1 2 dbus_decrypt (set_field1 1 code_decrypt ctrl)))"

section \<open>Unique identifier\<close>

text \<open>
  The number of identifier bytes by manufacturer; four dummy bytes precede them.  \<open>junk\<close> is the
  uninitialised \<^verbatim>\<open>FLASH_BUF[20]\<close>.  The result carries the 18 bytes behind \<^verbatim>\<open>uuid\<close>, or nothing when the
  driver is not installed and the buffer is not touched.
\<close>

definition uni_bytes :: "u8 \<Rightarrow> nat option" where
  "uni_bytes rid =
     (if rid \<in> {SPIFLASH_MID_GD, SPIFLASH_MID_PUYA, SPIFLASH_MID_TSINGTENG, SPIFLASH_MID_TSINGTENG_1MB_4MB}
      then Some 16
      else if rid \<in> {SPIFLASH_MID_WINBOND, SPIFLASH_MID_FUDANMICRO, SPIFLASH_MID_BOYA, SPIFLASH_MID_XMC}
      then Some 8
      else None)"

definition tls_fls_read_unique_id ::
  "'c hw \<Rightarrow> u8 list \<Rightarrow> 'c fls \<Rightarrow> int \<times> u8 list option \<times> 'c fls" where
  "tls_fls_read_unique_id hw junk s =
     (case inside_fls s of
        None \<Rightarrow> (TLS_FLS_STATUS_EPERM, None, s)
      | Some _ \<Rightarrow>
          (let uuid = replicate 18 0xFF; (rid, s) = readRID hw s in
           case uni_bytes rid of
             None \<Rightarrow> (-1, Some uuid, s)
           | Some n \<Rightarrow>
               (let uuid = uuid[0 := rid, 1 := of_nat n];
                    len = 4 + n; word = len div 4; byte = len mod 4;
                    s = flash_start hw (0xC04B OR push_bit 16 (of_nat (len - 1))) s;
                    buf = overlay junk 0 (take (4 * word) (window s));
                    buf = (if byte > 0
                           then overlay (overlay buf (4 * word) (take 4 (drop (4 * word) (window s))))
                                  (4 * word + 4 - byte) (replicate byte 0)
                           else buf)
                in (0, Some (overlay uuid 2 (take n (drop 4 buf))), s))))"

section \<open>Security registers\<close>

text \<open>
  The bytes \<^verbatim>\<open>tls_fls_otp_read\<close> drains from the window: the head of a partial word, whole words, the tail.
\<close>

definition otp_drain :: "nat \<Rightarrow> nat \<Rightarrow> u8 list \<Rightarrow> u8 list" where
  "otp_drain off len w =
     (let base = off div 4 * 4;
          i = (4 - off mod 4) mod 4;
          byte = (if i > len then len else i);
          head = take byte (drop (4 - i) (take 4 (drop base w)));
          base = (if byte \<noteq> 0 then base + 4 else base);
          word = (len - byte) div 4;
          mid = concat (map (\<lambda>j. take 4 (drop (base + 4 * j) w)) [0..<word]);
          tail = take ((len - byte) mod 4) (take 4 (drop (base + 4 * word) w))
      in head @ mid @ tail)"

text \<open>
  \<^verbatim>\<open>tls_fls_otp_read\<close>; \<open>isnull\<close>: no buffer, then only the command runs.  The transfer count is a ten bit
  field of the command word.
\<close>

definition otp_read_cmd :: "u32 \<Rightarrow> u32" where
  "otp_read_cmd sz_need = 0xBC00C048 OR push_bit 16 ((sz_need - 1) AND 0x3FF)"

definition otp_read_len :: "u32 \<Rightarrow> u32 \<Rightarrow> u32" where
  "otp_read_len addr len = (addr mod 16 + len + 16) div 16 * 16"

definition tls_fls_otp_read ::
  "'c hw \<Rightarrow> u32 \<Rightarrow> bool \<Rightarrow> u32 \<Rightarrow> 'c fls \<Rightarrow> int \<times> u8 list \<times> 'c fls" where
  "tls_fls_otp_read hw addr isnull len s =
     (case inside_fls s of
        None \<Rightarrow> (TLS_FLS_STATUS_EPERM, [], s)
      | Some _ \<Rightarrow>
          (let addr_offset = (if isnull then 0 else addr mod 16);
               sz_need = (if isnull then len else otp_read_len addr len);
               addr = (if isnull then addr else addr div 16 * 16);
               s = flash_start hw (otp_read_cmd sz_need) (s\<lparr>flash_addr := addr AND 0x1FFFFFF\<rparr>)
           in (TLS_FLS_STATUS_OK,
               if isnull then [] else otp_drain (unat addr_offset) (unat len) (window s), s)))"

text \<open>
  The two page loops of \<^verbatim>\<open>tls_fls_otp_write\<close>.  A page size of 0 is excluded before them; the guard on it
  only makes the recursion total.
\<close>

function otp_read_pages ::
  "'c hw \<Rightarrow> nat \<Rightarrow> u32 \<Rightarrow> nat \<Rightarrow> 'c fls \<Rightarrow> (u8 list \<times> 'c fls) option" where
  "otp_read_pages hw ps p sz s =
     (if sz = 0 \<or> ps = 0 then Some ([], s)
      else (let l = (if sz > ps then ps else sz);
                (r, bs, s) = tls_fls_otp_read hw p False (of_nat l) s
            in if r \<noteq> TLS_FLS_STATUS_OK then None
               else (case otp_read_pages hw ps (p + of_nat l) (sz - l) s of
                       None \<Rightarrow> None
                     | Some (cs, s) \<Rightarrow> Some (bs @ cs, s))))"
  by pat_completeness auto
termination by (relation "measure (\<lambda>(hw, ps, p, sz, s). sz)") (auto split: if_splits)

function otp_program_pages :: "'c hw \<Rightarrow> nat \<Rightarrow> u32 \<Rightarrow> u8 list \<Rightarrow> 'c fls \<Rightarrow> 'c fls" where
  "otp_program_pages hw ps p q s =
     (if q = [] \<or> ps = 0 then s
      else (let l = (if length q > ps then ps else length q)
            in otp_program_pages hw ps (p + of_nat l) (drop l q) (programSR hw 0x80009042 p q l s)))"
  by pat_completeness auto
termination by (relation "measure (\<lambda>(hw, ps, p, q, s). length q)") (auto split: if_splits)

declare otp_read_pages.simps [simp del] otp_program_pages.simps [simp del]

text \<open>
  \<^verbatim>\<open>tls_fls_otp_write\<close>: back up the whole register block, erase it, patch the backup, program it.  \<open>mem\<close> is
  the outcome of the allocation of the backup.
\<close>

definition tls_fls_otp_write ::
  "'c hw \<Rightarrow> bool \<Rightarrow> u32 \<Rightarrow> u8 list option \<Rightarrow> u32 \<Rightarrow> 'c fls \<Rightarrow> int \<times> 'c fls" where
  "tls_fls_otp_write hw mem addr buf len s =
     (case buf of
        None \<Rightarrow> (TLS_FLS_STATUS_EINVAL, s)
      | Some bs \<Rightarrow>
          (case inside_fls s of
             None \<Rightarrow> (TLS_FLS_STATUS_EPERM, s)
           | Some f \<Rightarrow>
               (let esz = ucast (eraseSize f) :: u32; ps = ucast (pageSize f) :: u32;
                    eraseAddr = addr AND NOT (esz - 1)
                in if esz = 0 \<or> ps = 0 then (TLS_FLS_STATUS_ENOSUPPORT, s)
                   else if addr < eraseAddr \<or> len > esz - (addr - eraseAddr) then (TLS_FLS_STATUS_EINVAL, s)
                   else if \<not> mem then (TLS_FLS_STATUS_ENOMEM, s)
                   else (case otp_read_pages hw (unat ps) eraseAddr (unat esz) s of
                           None \<Rightarrow> (TLS_FLS_STATUS_EPERM, s)
                         | Some (backbuf, s) \<Rightarrow>
                             (let s = eraseSR hw 0x80000844 eraseAddr s;
                                  backbuf = overlay backbuf (unat (addr - eraseAddr)) (take (unat len) bs)
                              in (0, otp_program_pages hw (unat ps) eraseAddr backbuf s))))))"

section \<open>Locking the security registers\<close>

definition writeLbBit_for_1wreg :: "'c hw \<Rightarrow> u32 \<Rightarrow> 'c fls \<Rightarrow> 'c fls" where
  "writeLbBit_for_1wreg hw val s =
     (let (status, s) = read_status hw s in write_sr hw 0x1A001 (status OR val) s)"

definition writeLbBit_for_2wreg :: "'c hw \<Rightarrow> u32 \<Rightarrow> 'c fls \<Rightarrow> 'c fls" where
  "writeLbBit_for_2wreg hw val s =
     (let (status, s) = read_status hw s in write_sr hw 0xA031 (drop_bit 8 (status OR val)) s)"

definition tls_fls_otp_lock :: "'c hw \<Rightarrow> 'c fls \<Rightarrow> int \<times> 'c fls" where
  "tls_fls_otp_lock hw s =
     (case inside_fls s of
        None \<Rightarrow> (TLS_FLS_STATUS_EPERM, s)
      | Some f \<Rightarrow>
          if flashid f \<in> {SPIFLASH_MID_GD, SPIFLASH_MID_TSINGTENG} then (0, writeLbBit_for_1wreg hw (push_bit 10 1) s)
          else if flashid f = SPIFLASH_MID_TSINGTENG_1MB_4MB then (0, writeLbBit_for_1wreg hw (push_bit 11 7) s)
          else if flashid f = SPIFLASH_MID_FUDANMICRO then (0, writeLbBit_for_2wreg hw (push_bit 10 1) s)
          else if flashid f \<in> {SPIFLASH_MID_BOYA, SPIFLASH_MID_XMC, SPIFLASH_MID_WINBOND, SPIFLASH_MID_PUYA}
          then (0, writeLbBit_for_2wreg hw (push_bit 11 7) s)
          else (TLS_FLS_STATUS_ENOSUPPORT, s))"

section \<open>The runtime's port\<close>

text \<open>
  \<^verbatim>\<open>luat_otp_air101.c\<close>: zone \<open>z\<close> is the register at \<^verbatim>\<open>(z + 1) * 0x1000\<close>.  Zones are C \<^verbatim>\<open>int\<close>s; the address is computed in
  32 bits.
\<close>

definition luat_otp_addr :: "int \<Rightarrow> u32 \<Rightarrow> u32" where
  "luat_otp_addr zone offset = of_int ((zone + 1) * 0x1000) + offset"

definition luat_otp_read :: "'c hw \<Rightarrow> int \<Rightarrow> bool \<Rightarrow> u32 \<Rightarrow> u32 \<Rightarrow> 'c fls \<Rightarrow> int \<times> u8 list \<times> 'c fls" where
  "luat_otp_read hw zone isnull offset len s =
     (if zone < 0 \<or> zone > 2 then (-1, [], s)
      else (let (r, bs, s) = tls_fls_otp_read hw (luat_otp_addr zone offset) isnull len s
            in (if r = TLS_FLS_STATUS_OK then sint len else -1, bs, s)))"

definition luat_otp_write ::
  "'c hw \<Rightarrow> bool \<Rightarrow> int \<Rightarrow> u8 list option \<Rightarrow> u32 \<Rightarrow> u32 \<Rightarrow> 'c fls \<Rightarrow> int \<times> 'c fls" where
  "luat_otp_write hw mem zone buf offset len s =
     (if zone < 0 \<or> zone > 2 then (-1, s)
      else (let (r, s) = tls_fls_otp_write hw mem (luat_otp_addr zone offset) buf len s
            in (if r = TLS_FLS_STATUS_OK then 0 else -1, s)))"

definition luat_otp_erase :: "int \<Rightarrow> u32 \<Rightarrow> u32 \<Rightarrow> int" where
  "luat_otp_erase zone offset len = 0"

definition luat_otp_lock :: "'c hw \<Rightarrow> int \<Rightarrow> 'c fls \<Rightarrow> int \<times> 'c fls" where
  "luat_otp_lock hw zone s = (0, snd (tls_fls_otp_lock hw s))"

end
