(* ===== verification/Efuse.thy ===== *)
theory Efuse
  imports C_Layout Crypto_Crc Flash_Otp
begin

text \<open>
  The virtual efuse, \<^verbatim>\<open>platform/drivers/efuse/wm_efuse.c\<close> with \<^verbatim>\<open>include/driver/wm_efuse.h\<close>: the calibration parameters
  and hardware addresses of a device, kept in RAM as \<^verbatim>\<open>gftParamVer1\<close> and in two sectors at the start of
  the flash, a runtime copy at \<^verbatim>\<open>FT_PARAM_RUNTIME_ADDR\<close> and a backup at \<^verbatim>\<open>FT_MAGICNUM_ADDR\<close>.

  \<open>gft\<close> is the byte image of \<^verbatim>\<open>FT_PARAM_ST_VER1\<close>; \<^verbatim>\<open>gftParam\<close> points to its start.  The flash driver is part of the
  state, \<open>eng\<close> is the CRC unit, and \<open>mem\<close> the outcome of \<^verbatim>\<open>tls_mem_alloc\<close>.  Operations return \<open>None\<close> where the C
  would access memory behind the image, behind \<^verbatim>\<open>default_mac\<close> or behind the caller's buffer.
\<close>

section \<open>The image\<close>

definition FT_PARAM_ST :: cfields where
  "FT_PARAM_ST = Field ''magic_no'' CU32 (Field ''checksum'' CU32 (Field ''wifi_mac_addr'' (CArr CU8 6)
     (Field ''wifi_macap_addr'' (CArr CU8 6) (Field ''version_no'' CU16 (Field ''bt_mac_addr'' (CArr CU8 6)
     (Field ''ext_param_len'' CU16 (Field ''tx_dcoffset'' CU32 (Field ''rx_dcoffset'' CU32 (Field ''tx_iq_gain'' CU32
     (Field ''rx_iq_gain'' CU32 (Field ''tx_iq_phase'' CU32 (Field ''rx_iq_phase'' CU32
     (Field ''tx_gain'' (CArr CU8 84) End)))))))))))))"

definition FT_ADC_CAL_UINT_ST :: cfields where
  "FT_ADC_CAL_UINT_ST = Field ''ref_val'' CU16 (Field ''real_val'' CU16 End)"

definition FT_ADC_CAL_ST :: cfields where
  "FT_ADC_CAL_ST = Field ''valid_cnt'' CU32 (Field ''units'' (CArr (CStruct FT_ADC_CAL_UINT_ST) 6)
     (Field ''a'' CU32 (Field ''b'' CU32 End)))"

definition FT_TEMP_CAL_ST :: cfields where
  "FT_TEMP_CAL_ST = Field ''ref_val'' CU32 (Field ''real_val'' CU32 End)"

definition FT_PARAM_ST_EXT_1 :: cfields where
  "FT_PARAM_ST_EXT_1 = Field ''rf_freq_err'' CU32 (Field ''rf_cal_flag'' CU32
     (Field ''adc_cal_param'' (CStruct FT_ADC_CAL_ST) (Field ''temp_cal_param'' (CStruct FT_TEMP_CAL_ST) End)))"

definition FT_PARAM_ST_VER1 :: cfields where
  "FT_PARAM_ST_VER1 = Field ''ft_param'' (CStruct FT_PARAM_ST) (Field ''ext_checksum'' CU32
     (Field ''ft_ext1'' (CStruct FT_PARAM_ST_EXT_1) (Field ''_reversed'' (CArr CU8 32) End)))"

abbreviation FT_SIZE :: nat where "FT_SIZE \<equiv> csizeof (CStruct FT_PARAM_ST)"
abbreviation EXT1_SIZE :: nat where "EXT1_SIZE \<equiv> csizeof (CStruct FT_PARAM_ST_EXT_1)"
abbreviation VER1_SIZE :: nat where "VER1_SIZE \<equiv> csizeof (CStruct FT_PARAM_ST_VER1)"

text \<open>Offsets in the image of members of the basic block and of the extension.\<close>

definition ft_at :: "string \<Rightarrow> nat" where "ft_at x = fst (member FT_PARAM_ST x)"
definition ext_at :: "string \<Rightarrow> nat" where
  "ext_at x = fst (member FT_PARAM_ST_VER1 ''ft_ext1'') + fst (member FT_PARAM_ST_EXT_1 x)"
definition ver1_at :: "string \<Rightarrow> nat" where "ver1_at x = fst (member FT_PARAM_ST_VER1 x)"

definition default_mac :: "u8 list" where "default_mac = [0x00, 0x25, 0x08, 0x09, 0x01, 0x0F]"

abbreviation SIGNATURE_WORD :: u32 where "SIGNATURE_WORD \<equiv> 0xA0FFFF9F"
abbreviation FT_MAGICNUM_ADDR :: u32 where "FT_MAGICNUM_ADDR \<equiv> FLASH_BASE_ADDR"
abbreviation FT_PARAM_RUNTIME_ADDR :: u32 where "FT_PARAM_RUNTIME_ADDR \<equiv> FT_MAGICNUM_ADDR + 0x1000"

record 'c ft_state =
  gft :: "u8 list"
  ft_dev :: "'c fls"

definition ft_ext1_valid :: "u8 list \<Rightarrow> bool" where
  "ft_ext1_valid pft \<longleftrightarrow>
     (let version_no = get16 pft (ft_at ''version_no''); ext_param_len = unat (get16 pft (ft_at ''ext_param_len''))
      in version_no > 0 \<and> version_no < 0xFFFF \<and> ext_param_len \<ge> EXT1_SIZE \<and> ext_param_len \<le> EXT1_SIZE + 32)"

text \<open>One CRC of the hardware unit over \<open>n\<close> bytes at the start of \<open>bs\<close>.\<close>

definition ft_crc :: "crc_engine \<Rightarrow> u8 list \<Rightarrow> nat \<Rightarrow> u32" where
  "ft_crc eng bs n =
     tls_crypto_crc_final (tls_crypto_crc_update eng (tls_crypto_crc_init 0xFFFFFFFF CRYPTO_CRC_TYPE_32 3) bs (of_nat n))"

definition ext_len :: "u8 list \<Rightarrow> nat" where
  "ext_len b = unat (get16 b (ft_at ''ext_param_len''))"

section \<open>Loading\<close>

text \<open>
  \<^verbatim>\<open>_ft_param_init\<close>: read a copy into \<open>pft\<close> and check it.  The result is 0 for an invalid copy, 1 for a copy
  with a valid extension, 2 for one without, whose version and extension length are then overwritten.
\<close>

definition ft_param_init ::
  "'c hw \<Rightarrow> crc_engine \<Rightarrow> u32 \<Rightarrow> u8 list \<Rightarrow> 'c fls \<Rightarrow> int \<times> u8 list \<times> 'c fls" where
  "ft_param_init hw eng ft_addr pft d =
     (let (_, bs, d) = tls_fls_read hw ft_addr (Some True) (of_nat VER1_SIZE) d;
          pft = overlay pft 0 bs
      in if get32 pft (ft_at ''magic_no'') = SIGNATURE_WORD then
           (if get32 pft (ft_at ''checksum'') \<noteq> ft_crc eng (drop 8 pft) (FT_SIZE - 8) then (0, pft, d)
            else if ft_ext1_valid pft then
              (if get32 pft (ver1_at ''ext_checksum'') = ft_crc eng (drop (ver1_at ''ft_ext1'') pft) (ext_len pft)
               then (1, pft, d) else (0, pft, d))
            else (2, overlay (overlay pft (ft_at ''version_no'') (le16 0xFFFF)) (ft_at ''ext_param_len'') (le16 0xFFFF), d))
         else (0, pft, d))"

definition ft_blank :: "u8 list" where "ft_blank = replicate VER1_SIZE 0xFF"

definition tls_ft_param_init :: "'c hw \<Rightarrow> crc_engine \<Rightarrow> bool \<Rightarrow> 'c ft_state \<Rightarrow> int \<times> 'c ft_state" where
  "tls_ft_param_init hw eng mem s =
     (if get32 (gft s) (ft_at ''magic_no'') = SIGNATURE_WORD then (1, s)
      else
        (let s = s\<lparr>gft := ft_blank\<rparr> in
         if \<not> mem then (0, s)
         else
           (let (ret, pft, d) = ft_param_init hw eng FT_PARAM_RUNTIME_ADDR ft_blank (ft_dev s);
                (ret, pft, d) = (if ret = 0 then ft_param_init hw eng FT_MAGICNUM_ADDR ft_blank d else (ret, pft, d));
                b = (if ret = 1 then overlay (gft s) 0 pft
                     else if ret = 2 then overlay (gft s) 0 (take FT_SIZE pft) else gft s)
            in (ret, \<lparr>gft = b, ft_dev = snd (tls_flash_unlock hw d)\<rparr>))))"

section \<open>Reading\<close>

abbreviation CMD_WIFI_MAC :: u32 where "CMD_WIFI_MAC \<equiv> 1"
abbreviation CMD_WIFI_MACAP :: u32 where "CMD_WIFI_MACAP \<equiv> 2"
abbreviation CMD_BT_MAC :: u32 where "CMD_BT_MAC \<equiv> 3"
abbreviation CMD_TX_DC :: u32 where "CMD_TX_DC \<equiv> 4"
abbreviation CMD_RX_DC :: u32 where "CMD_RX_DC \<equiv> 5"
abbreviation CMD_TX_IQ_GAIN :: u32 where "CMD_TX_IQ_GAIN \<equiv> 6"
abbreviation CMD_RX_IQ_GAIN :: u32 where "CMD_RX_IQ_GAIN \<equiv> 7"
abbreviation CMD_TX_IQ_PHASE :: u32 where "CMD_TX_IQ_PHASE \<equiv> 8"
abbreviation CMD_RX_IQ_PHASE :: u32 where "CMD_RX_IQ_PHASE \<equiv> 9"
abbreviation CMD_TX_GAIN :: u32 where "CMD_TX_GAIN \<equiv> 10"
abbreviation CMD_TX_ADC_CAL :: u32 where "CMD_TX_ADC_CAL \<equiv> 11"
abbreviation CMD_FREQ_ERR :: u32 where "CMD_FREQ_ERR \<equiv> 12"
abbreviation CMD_RF_CAL_FLAG :: u32 where "CMD_RF_CAL_FLAG \<equiv> 13"

text \<open>
  \<^verbatim>\<open>memcpy(data, src, n)\<close>: \<open>src\<close> is the memory from the source pointer to the end of its object.
\<close>

definition copy_out :: "u8 list \<Rightarrow> u8 list \<Rightarrow> nat \<Rightarrow> u8 list option" where
  "copy_out data src n =
     (if n \<le> length src \<and> n \<le> length data then Some (overlay data 0 (take n src)) else None)"

definition bad_wifi_mac :: "u8 list \<Rightarrow> bool" where
  "bad_wifi_mac mac \<longleftrightarrow>
     mac ! 0 AND 1 \<noteq> 0 \<or> 0 = mac ! 0 OR mac ! 1 OR mac ! 2 OR mac ! 3 OR mac ! 4 OR mac ! 5"

text \<open>The four byte calibration values live in the extension, or behind the backup block of an old image.\<close>

definition get_ext_word ::
  "'c hw \<Rightarrow> string \<Rightarrow> u32 \<Rightarrow> u8 list \<Rightarrow> 'c ft_state \<Rightarrow> (int \<times> u8 list \<times> 'c ft_state) option" where
  "get_ext_word hw x addr data s =
     (if ft_ext1_valid (gft s) then
        map_option (\<lambda>out. (0, out, s)) (copy_out data (drop (ext_at x) (gft s)) 4)
      else
        (let (ret, bs, d) = tls_fls_read hw addr (Some True) 4 (ft_dev s); s = s\<lparr>ft_dev := d\<rparr>
         in if ret \<noteq> 0 then Some (-1, data, s)
            else map_option (\<lambda>out. (0, out, s)) (copy_out data bs 4)))"

definition tls_ft_param_get ::
  "'c hw \<Rightarrow> u32 \<Rightarrow> u8 list \<Rightarrow> nat \<Rightarrow> 'c ft_state \<Rightarrow> (int \<times> u8 list \<times> 'c ft_state) option" where
  "tls_ft_param_get hw opnum data rdlen s =
     (let g = gft s;
          done = map_option (\<lambda>out. (0, out, s));
          word = (\<lambda>x. done (copy_out data (drop (ft_at x) g) 4))
      in if opnum = CMD_FREQ_ERR then get_ext_word hw ''rf_freq_err'' (FT_MAGICNUM_ADDR + of_nat FT_SIZE) data s
         else if opnum = CMD_RF_CAL_FLAG then get_ext_word hw ''rf_cal_flag'' (FT_MAGICNUM_ADDR + of_nat FT_SIZE + 4) data s
         else if opnum = CMD_TX_ADC_CAL then
           (if ft_ext1_valid g then done (copy_out data (drop (ext_at ''adc_cal_param'') g) rdlen) else Some (-1, data, s))
         else if opnum = CMD_WIFI_MAC then
           (if bad_wifi_mac (drop (ft_at ''wifi_mac_addr'') g) then done (copy_out data default_mac rdlen)
            else done (copy_out data (drop (ft_at ''wifi_mac_addr'') g) rdlen))
         else if opnum = CMD_WIFI_MACAP then
           (if bad_wifi_mac (drop (ft_at ''wifi_macap_addr'') g) then done (copy_out data default_mac rdlen)
            else done (copy_out data (drop (ft_at ''wifi_macap_addr'') g) rdlen))
         else if opnum = CMD_BT_MAC then
           (let bt = take 6 (drop (ft_at ''bt_mac_addr'') g) in
            if bt = replicate 6 0xFF \<or> bt = replicate 6 0 then
              (case copy_out data default_mac rdlen of
                 None \<Rightarrow> None
               | Some out \<Rightarrow>
                   if length out < 6 then None
                   else Some (0, (out[5 := out ! 5 + 1])[0 := out ! 0 OR 0xC0], s))
            else done (copy_out data (drop (ft_at ''bt_mac_addr'') g) rdlen))
         else if opnum = CMD_TX_DC then word ''tx_dcoffset''
         else if opnum = CMD_RX_DC then word ''rx_dcoffset''
         else if opnum = CMD_TX_IQ_GAIN then word ''tx_iq_gain''
         else if opnum = CMD_RX_IQ_GAIN then word ''rx_iq_gain''
         else if opnum = CMD_TX_IQ_PHASE then word ''tx_iq_phase''
         else if opnum = CMD_RX_IQ_PHASE then word ''rx_iq_phase''
         else if opnum = CMD_TX_GAIN then
           done (copy_out data (drop (ft_at ''tx_gain'') g) (if rdlen < 84 then rdlen else 84))
         else Some (-1, data, s))"

section \<open>Writing\<close>

text \<open>The two places the parameter block is compared with after it has been read back.\<close>

definition ft_verify :: "'c hw \<Rightarrow> crc_engine \<Rightarrow> u32 \<Rightarrow> u8 list \<Rightarrow> 'c fls \<Rightarrow> bool \<times> 'c fls" where
  "ft_verify hw eng addr g d =
     (let (ret, pft, d) = ft_param_init hw eng addr ft_blank d in (ret \<noteq> 0 \<and> pft = g, d))"

text \<open>
  Before anything changes: when the runtime copy is valid the backup is brought up to date with the
  image in RAM, so that one valid copy exists while the other is rewritten.
\<close>

definition ft_secure_backup :: "'c hw \<Rightarrow> crc_engine \<Rightarrow> 'c ft_state \<Rightarrow> bool \<times> 'c ft_state" where
  "ft_secure_backup hw eng s =
     (let (ret, _, d) = ft_param_init hw eng FT_PARAM_RUNTIME_ADDR ft_blank (ft_dev s) in
      if ret = 0 then (True, s\<lparr>ft_dev := d\<rparr>)
      else
        (let (ok, d) = ft_verify hw eng FT_MAGICNUM_ADDR (gft s) d in
         if ok then (True, s\<lparr>ft_dev := d\<rparr>)
         else
           (let d = snd (tls_flash_unlock hw d);
                d = snd (tls_fls_write hw FT_MAGICNUM_ADDR (Some (gft s)) (of_nat VER1_SIZE) d);
                (ok, d) = ft_verify hw eng FT_MAGICNUM_ADDR (gft s) d
            in (ok, s\<lparr>ft_dev := d\<rparr>))))"

definition ft_make_ext :: "u8 list \<Rightarrow> u8 list" where
  "ft_make_ext g =
     (if ft_ext1_valid g then g
      else
        (let g = overlay g (ft_at ''version_no'') (le16 1);
             g = overlay g (ft_at ''ext_param_len'') (le16 (of_nat EXT1_SIZE))
         in overlay g (ver1_at ''ft_ext1'') (replicate EXT1_SIZE 0xFF)))"

text \<open>
  The \<^verbatim>\<open>switch\<close> of \<^verbatim>\<open>tls_ft_param_set\<close>: where a command stores and how many bytes; \<open>None\<close> is its default case.
\<close>

definition ft_target :: "u32 \<Rightarrow> nat \<Rightarrow> (nat \<times> nat) option" where
  "ft_target opnum len =
     (if opnum = CMD_FREQ_ERR then Some (ext_at ''rf_freq_err'', 4)
      else if opnum = CMD_RF_CAL_FLAG then Some (ext_at ''rf_cal_flag'', 4)
      else if opnum = CMD_TX_ADC_CAL then Some (ext_at ''adc_cal_param'', len)
      else if opnum = CMD_WIFI_MAC then Some (ft_at ''wifi_mac_addr'', len)
      else if opnum = CMD_WIFI_MACAP then Some (ft_at ''wifi_macap_addr'', len)
      else if opnum = CMD_BT_MAC then Some (ft_at ''bt_mac_addr'', len)
      else if opnum = CMD_TX_DC then Some (ft_at ''tx_dcoffset'', 4)
      else if opnum = CMD_RX_DC then Some (ft_at ''rx_dcoffset'', 4)
      else if opnum = CMD_TX_IQ_GAIN then Some (ft_at ''tx_iq_gain'', 4)
      else if opnum = CMD_RX_IQ_GAIN then Some (ft_at ''rx_iq_gain'', 4)
      else if opnum = CMD_TX_IQ_PHASE then Some (ft_at ''tx_iq_phase'', 4)
      else if opnum = CMD_RX_IQ_PHASE then Some (ft_at ''rx_iq_phase'', 4)
      else if opnum = CMD_TX_GAIN then Some (ft_at ''tx_gain'', if len \<ge> 84 then 84 else len)
      else None)"

definition ft_seal :: "crc_engine \<Rightarrow> u8 list \<Rightarrow> u8 list" where
  "ft_seal eng g =
     (let g = overlay g (ver1_at ''ext_checksum'') (le32 (ft_crc eng (drop (ver1_at ''ft_ext1'') g) (ext_len g)));
          g = overlay g (ft_at ''magic_no'') (le32 SIGNATURE_WORD)
      in overlay g (ft_at ''checksum'') (le32 (ft_crc eng (drop 8 g) (FT_SIZE - 8))))"

text \<open>Write one copy and read it back.\<close>

definition ft_store :: "'c hw \<Rightarrow> crc_engine \<Rightarrow> u32 \<Rightarrow> 'c ft_state \<Rightarrow> bool \<times> 'c ft_state" where
  "ft_store hw eng addr s =
     (let d = snd (tls_fls_write hw addr (Some (gft s)) (of_nat VER1_SIZE) (ft_dev s));
          (ok, d) = ft_verify hw eng addr (gft s) d
      in (ok, s\<lparr>ft_dev := d\<rparr>))"

definition tls_ft_param_set ::
  "'c hw \<Rightarrow> crc_engine \<Rightarrow> bool \<Rightarrow> u32 \<Rightarrow> u8 list option \<Rightarrow> nat \<Rightarrow> 'c ft_state \<Rightarrow> (int \<times> 'c ft_state) option" where
  "tls_ft_param_set hw eng mem opnum data len s =
     (let s = s\<lparr>ft_dev := snd (tls_flash_unlock hw (ft_dev s))\<rparr> in
      if data = None \<or> len = 0 then Some (-1, s)
      else if \<not> mem then Some (-1, s)
      else
        (let (ok, s) = ft_secure_backup hw eng s in
         if \<not> ok then Some (-1, s)
         else
           (let s = s\<lparr>gft := ft_make_ext (gft s)\<rparr> in
            case ft_target opnum len of
              None \<Rightarrow> Some (-1, s)
            | Some (off, n) \<Rightarrow>
                if length (the data) < n \<or> length (gft s) < off + n then None
                else
                  (let s = s\<lparr>gft := ft_seal eng (overlay (gft s) off (take n (the data)))\<rparr>;
                       s = s\<lparr>ft_dev := snd (tls_flash_unlock hw (ft_dev s))\<rparr>;
                       (ok, s) = ft_store hw eng FT_PARAM_RUNTIME_ADDR s
                   in if \<not> ok then Some (-1, s)
                      else (let (ok, s) = ft_store hw eng FT_MAGICNUM_ADDR s
                            in if \<not> ok then Some (-1, s)
                               else Some (0, s\<lparr>ft_dev := snd (tls_flash_lock (ft_dev s))\<rparr>))))))"

section \<open>The accessors\<close>

definition tls_get_mac_addr :: "'c hw \<Rightarrow> u8 list \<Rightarrow> 'c ft_state \<Rightarrow> (int \<times> u8 list \<times> 'c ft_state) option" where
  "tls_get_mac_addr hw mac s = tls_ft_param_get hw CMD_WIFI_MAC mac 6 s"

definition tls_set_mac_addr ::
  "'c hw \<Rightarrow> crc_engine \<Rightarrow> bool \<Rightarrow> u8 list option \<Rightarrow> 'c ft_state \<Rightarrow> (int \<times> 'c ft_state) option" where
  "tls_set_mac_addr hw eng mem mac s = tls_ft_param_set hw eng mem CMD_WIFI_MAC mac 6 s"

definition tls_get_bt_mac_addr :: "'c hw \<Rightarrow> u8 list \<Rightarrow> 'c ft_state \<Rightarrow> (int \<times> u8 list \<times> 'c ft_state) option" where
  "tls_get_bt_mac_addr hw mac s = tls_ft_param_get hw CMD_BT_MAC mac 6 s"

definition tls_set_bt_mac_addr ::
  "'c hw \<Rightarrow> crc_engine \<Rightarrow> bool \<Rightarrow> u8 list option \<Rightarrow> 'c ft_state \<Rightarrow> (int \<times> 'c ft_state) option" where
  "tls_set_bt_mac_addr hw eng mem mac s = tls_ft_param_set hw eng mem CMD_BT_MAC mac 6 s"

definition tls_get_tx_lo :: "'c hw \<Rightarrow> u8 list \<Rightarrow> 'c ft_state \<Rightarrow> (int \<times> u8 list \<times> 'c ft_state) option" where
  "tls_get_tx_lo hw txlo s = tls_ft_param_get hw CMD_TX_DC txlo 4 s"

definition tls_set_tx_lo ::
  "'c hw \<Rightarrow> crc_engine \<Rightarrow> bool \<Rightarrow> u8 list option \<Rightarrow> 'c ft_state \<Rightarrow> (int \<times> 'c ft_state) option" where
  "tls_set_tx_lo hw eng mem txlo s = tls_ft_param_set hw eng mem CMD_TX_DC txlo 4 s"

definition tls_get_tx_iq_gain :: "'c hw \<Rightarrow> u8 list \<Rightarrow> 'c ft_state \<Rightarrow> (int \<times> u8 list \<times> 'c ft_state) option" where
  "tls_get_tx_iq_gain hw txGain s = tls_ft_param_get hw CMD_TX_IQ_GAIN txGain 4 s"

definition tls_set_tx_iq_gain ::
  "'c hw \<Rightarrow> crc_engine \<Rightarrow> bool \<Rightarrow> u8 list option \<Rightarrow> 'c ft_state \<Rightarrow> (int \<times> 'c ft_state) option" where
  "tls_set_tx_iq_gain hw eng mem txGain s = tls_ft_param_set hw eng mem CMD_TX_IQ_GAIN txGain 4 s"

definition tls_get_rx_iq_gain :: "'c hw \<Rightarrow> u8 list \<Rightarrow> 'c ft_state \<Rightarrow> (int \<times> u8 list \<times> 'c ft_state) option" where
  "tls_get_rx_iq_gain hw rxGain s = tls_ft_param_get hw CMD_RX_IQ_GAIN rxGain 4 s"

definition tls_set_rx_iq_gain ::
  "'c hw \<Rightarrow> crc_engine \<Rightarrow> bool \<Rightarrow> u8 list option \<Rightarrow> 'c ft_state \<Rightarrow> (int \<times> 'c ft_state) option" where
  "tls_set_rx_iq_gain hw eng mem rxGain s = tls_ft_param_set hw eng mem CMD_RX_IQ_GAIN rxGain 4 s"

definition tls_get_tx_iq_phase :: "'c hw \<Rightarrow> u8 list \<Rightarrow> 'c ft_state \<Rightarrow> (int \<times> u8 list \<times> 'c ft_state) option" where
  "tls_get_tx_iq_phase hw txPhase s = tls_ft_param_get hw CMD_TX_IQ_PHASE txPhase 4 s"

definition tls_set_tx_iq_phase ::
  "'c hw \<Rightarrow> crc_engine \<Rightarrow> bool \<Rightarrow> u8 list option \<Rightarrow> 'c ft_state \<Rightarrow> (int \<times> 'c ft_state) option" where
  "tls_set_tx_iq_phase hw eng mem txPhase s = tls_ft_param_set hw eng mem CMD_TX_IQ_PHASE txPhase 4 s"

definition tls_get_rx_iq_phase :: "'c hw \<Rightarrow> u8 list \<Rightarrow> 'c ft_state \<Rightarrow> (int \<times> u8 list \<times> 'c ft_state) option" where
  "tls_get_rx_iq_phase hw rxPhase s = tls_ft_param_get hw CMD_RX_IQ_PHASE rxPhase 4 s"

definition tls_set_rx_iq_phase ::
  "'c hw \<Rightarrow> crc_engine \<Rightarrow> bool \<Rightarrow> u8 list option \<Rightarrow> 'c ft_state \<Rightarrow> (int \<times> 'c ft_state) option" where
  "tls_set_rx_iq_phase hw eng mem rxPhase s = tls_ft_param_set hw eng mem CMD_RX_IQ_PHASE rxPhase 4 s"

definition tls_get_tx_gain :: "'c hw \<Rightarrow> u8 list \<Rightarrow> 'c ft_state \<Rightarrow> (int \<times> u8 list \<times> 'c ft_state) option" where
  "tls_get_tx_gain hw txgain s = tls_ft_param_get hw CMD_TX_GAIN txgain (28 * 3) s"

definition tls_set_tx_gain ::
  "'c hw \<Rightarrow> crc_engine \<Rightarrow> bool \<Rightarrow> u8 list option \<Rightarrow> 'c ft_state \<Rightarrow> (int \<times> 'c ft_state) option" where
  "tls_set_tx_gain hw eng mem txgain s = tls_ft_param_set hw eng mem CMD_TX_GAIN txgain (28 * 3) s"

definition tls_get_adc_cal_param :: "'c hw \<Rightarrow> u8 list \<Rightarrow> 'c ft_state \<Rightarrow> (int \<times> u8 list \<times> 'c ft_state) option" where
  "tls_get_adc_cal_param hw adc_cal s =
     tls_ft_param_get hw CMD_TX_ADC_CAL adc_cal (csizeof (CStruct FT_ADC_CAL_ST)) s"

definition tls_set_adc_cal_param ::
  "'c hw \<Rightarrow> crc_engine \<Rightarrow> bool \<Rightarrow> u8 list option \<Rightarrow> 'c ft_state \<Rightarrow> (int \<times> 'c ft_state) option" where
  "tls_set_adc_cal_param hw eng mem adc_cal s =
     tls_ft_param_set hw eng mem CMD_TX_ADC_CAL adc_cal (csizeof (CStruct FT_ADC_CAL_ST)) s"

text \<open>
  \<^verbatim>\<open>tls_freq_err_op\<close> and \<^verbatim>\<open>tls_rf_cal_finish_op\<close> set or get by \<open>flag\<close>; the first clips what it reads to
  \<open>\<plusminus>200000\<close> (a signed comparison).  A \<^verbatim>\<open>NULL\<close> buffer makes a get access address 0.
\<close>

abbreviation TLS_EFUSE_STATUS_OK :: int where "TLS_EFUSE_STATUS_OK \<equiv> 0"
abbreviation TLS_EFUSE_STATUS_EINVALID :: int where "TLS_EFUSE_STATUS_EINVALID \<equiv> 1"

definition efuse_status :: "int \<Rightarrow> int" where
  "efuse_status ret = (if ret = 0 then TLS_EFUSE_STATUS_OK else TLS_EFUSE_STATUS_EINVALID)"

definition clip_freq :: "u8 list \<Rightarrow> u8 list" where
  "clip_freq freqerr =
     (let value = sint (get32 freqerr 0) in
      if value > 200000 then overlay freqerr 0 (le32 200000)
      else if value < -200000 then overlay freqerr 0 (le32 (- 200000))
      else freqerr)"

definition tls_freq_err_op ::
  "'c hw \<Rightarrow> crc_engine \<Rightarrow> bool \<Rightarrow> u8 list option \<Rightarrow> u8 \<Rightarrow> 'c ft_state \<Rightarrow> (int \<times> u8 list option \<times> 'c ft_state) option" where
  "tls_freq_err_op hw eng mem freqerr flag s =
     (if flag \<noteq> 0 then
        map_option (\<lambda>(ret, s). (efuse_status ret, freqerr, s)) (tls_ft_param_set hw eng mem CMD_FREQ_ERR freqerr 4 s)
      else
        (case freqerr of
           None \<Rightarrow> None
         | Some buf \<Rightarrow>
             map_option (\<lambda>(ret, out, s). (efuse_status ret, Some (if ret = 0 then clip_freq out else out), s))
               (tls_ft_param_get hw CMD_FREQ_ERR buf 4 s)))"

definition tls_rf_cal_finish_op ::
  "'c hw \<Rightarrow> crc_engine \<Rightarrow> bool \<Rightarrow> u8 list option \<Rightarrow> u8 \<Rightarrow> 'c ft_state \<Rightarrow> (int \<times> u8 list option \<times> 'c ft_state) option" where
  "tls_rf_cal_finish_op hw eng mem calflag flag s =
     (if flag \<noteq> 0 then
        map_option (\<lambda>(ret, s). (efuse_status ret, calflag, s)) (tls_ft_param_set hw eng mem CMD_RF_CAL_FLAG calflag 4 s)
      else
        (case calflag of
           None \<Rightarrow> None
         | Some buf \<Rightarrow>
             map_option (\<lambda>(ret, out, s). (efuse_status ret, Some out, s)) (tls_ft_param_get hw CMD_RF_CAL_FLAG buf 4 s)))"

end
