(* ===== verification/Internal_Flash_Correct.thy ===== *)
theory Internal_Flash_Correct
  imports Internal_Flash
begin

text \<open>
  What the internal flash driver guarantees, for any chip that behaves as a SPI NOR flash does.

  The locale \<open>nor_flash\<close> is the data sheet: write enable latches, a sector erase sets 4 KiB to
  \<^verbatim>\<open>0xFF\<close> when write enable is latched, a page program clears bits inside one page, the read commands
  the driver can issue deliver bytes, and the identification command reports the capacity.  Inside it
  the driver's operations are reduced to \<open>span\<close> and \<open>blit\<close> on the contents of the chip.  The theory ends
  with a reference chip \<open>nor_exec\<close> that interprets the locale.
\<close>

section \<open>Frames\<close>

text \<open>
  \<open>drv_keeps\<close>: the driver variables a read or an ordinary write never changes (the read cache keeps
  its length); \<open>ctl_only\<close>: the steps that touch the address register, the window and the chip only.
\<close>

definition drv_keeps :: "'c fls \<Rightarrow> 'c fls \<Rightarrow> bool" where
  "drv_keeps s s' \<longleftrightarrow> inside_fls s' = inside_fls s \<and> length (fls_cache s') = length (fls_cache s) \<and>
     cache_aligned s' = cache_aligned s \<and> gsflscache s' = gsflscache s \<and> gsSector s' = gsSector s \<and>
     flash_cr s' = flash_cr s"

definition ctl_only :: "'c fls \<Rightarrow> 'c fls \<Rightarrow> bool" where
  "ctl_only s s' \<longleftrightarrow> drv_keeps s s' \<and> fls_cache s' = fls_cache s"

lemma drv_keeps_refl [simp]: "drv_keeps s s"
  by (simp add: drv_keeps_def)

lemma drv_keeps_trans [trans]: "drv_keeps s t \<Longrightarrow> drv_keeps t u \<Longrightarrow> drv_keeps s u"
  by (simp add: drv_keeps_def)

lemma drv_keepsD:
  assumes "drv_keeps s s'"
  shows "inside_fls s' = inside_fls s" and "length (fls_cache s') = length (fls_cache s)"
    and "cache_aligned s' = cache_aligned s" and "gsflscache s' = gsflscache s"
    and "gsSector s' = gsSector s" and "flash_cr s' = flash_cr s"
  using assms by (simp_all add: drv_keeps_def)

lemma drv_keeps_cache:
  "drv_keeps s (s'\<lparr>fls_cache := xs\<rparr>) \<longleftrightarrow>
     inside_fls s' = inside_fls s \<and> length xs = length (fls_cache s) \<and>
     cache_aligned s' = cache_aligned s \<and> gsflscache s' = gsflscache s \<and> gsSector s' = gsSector s \<and>
     flash_cr s' = flash_cr s"
  by (simp add: drv_keeps_def)

lemma ctl_only_refl [simp]: "ctl_only s s"
  by (simp add: ctl_only_def)

lemma ctl_only_trans [trans]: "ctl_only s t \<Longrightarrow> ctl_only t u \<Longrightarrow> ctl_only s u"
  using drv_keeps_trans by (fastforce simp: ctl_only_def)

lemma ctl_only_keeps: "ctl_only s s' \<Longrightarrow> drv_keeps s s'"
  by (simp add: ctl_only_def)

lemma ctl_only_cache: "ctl_only s s' \<Longrightarrow> fls_cache s' = fls_cache s"
  by (simp add: ctl_only_def)

lemma ctl_only_flash_start [simp]: "ctl_only s (flash_start hw cmd s)"
  by (simp add: ctl_only_def drv_keeps_def flash_start_def split_beta)

lemma ctl_only_eraseSector [simp]: "ctl_only s (eraseSector hw adr s)"
  by (simp add: eraseSector_def eraseSR_def writeEnable_def flash_start_def ctl_only_def drv_keeps_def
      Let_def split_beta)

lemma ctl_only_programPage [simp]: "ctl_only s (programPage hw adr n buf s)"
  by (simp add: programPage_def programSR_def writeEnable_def flash_start_def ctl_only_def drv_keeps_def
      Let_def split_beta)

text \<open>The driver is installed on a chip of \<open>n\<close> bytes, its sector cache is a word-aligned 4 KiB array.\<close>

definition fls_ready :: "nat \<Rightarrow> 'c fls \<Rightarrow> bool" where
  "fls_ready n s \<longleftrightarrow> cache_aligned s \<and> length (fls_cache s) = 4096 \<and>
     (\<exists>f. inside_fls s = Some f \<and> unat (density f) = n)"

lemma fls_ready_keeps: "drv_keeps s s' \<Longrightarrow> fls_ready n s \<Longrightarrow> fls_ready n s'"
  by (simp add: fls_ready_def drv_keeps_def)

section \<open>The chip\<close>

locale nor_flash =
  fixes hw :: "'c hw"
    and view :: "'c \<Rightarrow> nat \<Rightarrow> u8"
    and wel :: "'c \<Rightarrow> bool"
    and csize :: nat
  assumes csize_le: "csize \<le> 2 ^ 25"
    and csize_sectors: "4096 dvd csize"
    and write_enable: "fst (hw 0x6 a w c) = w" "view (snd (hw 0x6 a w c)) = view c" "wel (snd (hw 0x6 a w c))"
    and sector_erase: "wel c \<Longrightarrow> unat a < csize \<Longrightarrow>
      view (snd (hw 0x80000820 a w c)) = blit (view c) (4096 * (unat a div 4096)) (replicate 4096 0xFF)"
    and page_program: "wel c \<Longrightarrow> 0 < n \<Longrightarrow> unat a mod 256 + n \<le> 256 \<Longrightarrow> unat a < csize \<Longrightarrow> n \<le> length w \<Longrightarrow>
      view (snd (hw (0x80009002 OR push_bit 16 (of_nat (n - 1))) a w c)) =
        blit (view c) (unat a) (map2 (AND) (span (view c) (unat a) n) (take n w))"
    and chip_read: "k \<in> {0xEC00C0EB, 0xB400C00B, 0xBC00C00B} \<Longrightarrow> 0 < n \<Longrightarrow> n \<le> 1024 \<Longrightarrow> unat a + n \<le> csize \<Longrightarrow>
      take n (fst (hw (k OR push_bit 16 (of_nat (n - 1))) a w c)) = span (view c) (unat a) n"
    and chip_read_keeps: "k \<in> {0xEC00C0EB, 0xB400C00B, 0xBC00C00B} \<Longrightarrow> 0 < n \<Longrightarrow> n \<le> 1024 \<Longrightarrow>
      view (snd (hw (k OR push_bit 16 (of_nat (n - 1))) a w c)) = view c"
    and chip_id: "4 \<le> length (fst (hw 0x2c09F a w c))" "csize = 2 ^ unat (fst (hw 0x2c09F a w c) ! 2)"
      "view (snd (hw 0x2c09F a w c)) = view c"
begin

abbreviation V :: "'c fls \<Rightarrow> nat \<Rightarrow> u8" where "V s \<equiv> view (chip s)"

subsection \<open>Single commands\<close>

lemma writeEnable_view [simp]:
  "V (writeEnable hw s) = V s" "wel (chip (writeEnable hw s))" "window (writeEnable hw s) = window s"
  by (simp_all add: writeEnable_def flash_start_def split_beta write_enable)

lemma eraseSector_view:
  assumes "unat adr mod 2 ^ 25 < csize"
  shows "V (eraseSector hw adr s) =
    blit (V s) (4096 * ((unat adr mod 2 ^ 25) div 4096)) (replicate 4096 0xFF)"
  using assms sector_erase [of "chip (writeEnable hw s)" "adr AND 0x1FFFFFF"]
  by (simp add: eraseSector_def eraseSR_def flash_start_def Let_def split_beta)

lemma programPage_view:
  assumes "unat adr mod 2 ^ 25 < csize" and "unat adr mod 256 = 0" and "length buf = 256"
  shows "V (programPage hw adr 256 buf s) =
    blit (V s) (unat adr mod 2 ^ 25) (map2 (AND) (span (V s) (unat adr mod 2 ^ 25) 256) buf)"
proof -
  have al: "unat adr mod 33554432 mod 256 = 0"
    using assms(2) by (simp add: mod_mod_cancel)
  show ?thesis
    using assms al page_program [of "chip (writeEnable hw (s\<lparr>window := buf @ drop 256 (window s)\<rparr>))" 256
        "adr AND 0x1FFFFFF" "buf @ drop 256 (window s)"]
    by (simp add: programPage_def programSR_def flash_start_def Let_def split_beta)
qed

lemma read_cmd_word_quad:
  assumes "0 < n" and "n \<le> 1024"
  shows "\<exists>k \<in> {0xEC00C0EB, 0xB400C00B, 0xBC00C00B}.
    read_cmd_word cr 0xEB n = Some (k OR push_bit 16 (of_nat (n - 1)))"
proof -
  obtain m where m: "n = Suc m" "m < 1024"
    using assms by (cases n) auto
  have "of_nat m AND 0x3FF = (of_nat m :: u32)"
    using m(2) by (intro word_unat_eq_iff [THEN iffD2]) (simp add: unat_of_nat_u32)
  then show ?thesis by (auto simp: m read_cmd_word_def Let_def)
qed

lemma read_quad_ok:
  assumes "0 < n" and "n \<le> 1024" and "n mod 4 = 0" and "addr mod 2 ^ 25 + n \<le> csize"
  shows "fst (read_quad hw addr n s) = span (V s) (addr mod 2 ^ 25) n"
    and "V (snd (read_quad hw addr n s)) = V s"
    and "ctl_only s (snd (read_quad hw addr n s))"
proof -
  obtain k where k: "k \<in> {0xEC00C0EB, 0xB400C00B, 0xBC00C00B}"
    and w: "read_cmd_word (flash_cr s) 0xEB n = Some (k OR push_bit 16 (of_nat (n - 1)))"
    using read_cmd_word_quad [OF assms(1,2)] by blast
  let ?a = "(of_nat addr :: u32) AND 0x1FFFFFF"
  let ?s = "flash_start hw (k OR push_bit 16 (of_nat (n - 1))) (s\<lparr>flash_addr := ?a\<rparr>)"
  have a: "unat ?a = addr mod 2 ^ 25"
    by (simp add: unat_of_nat take_bit_eq_mod)
  have r: "read_quad hw addr n s = (take n (window ?s) @ replicate ((4 - n mod 4) mod 4) 0, ?s)"
    by (simp add: read_quad_def readByCMD_raw_def w Let_def)
  have l: "V ?s = V s \<and> take n (window ?s) = span (V s) (addr mod 2 ^ 25) n"
    using chip_read [OF k assms(1,2), of ?a "window s" "chip s"] assms(4) a
      chip_read_keeps [OF k assms(1,2), of ?a "window s" "chip s"]
    by (simp add: flash_start_def split_beta)
  show "fst (read_quad hw addr n s) = span (V s) (addr mod 2 ^ 25) n" "V (snd (read_quad hw addr n s)) = V s"
    using l assms(3) by (simp_all add: r)
  show "ctl_only s (snd (read_quad hw addr n s))"
    by (simp add: r flash_start_def ctl_only_def drv_keeps_def split_beta)
qed

lemma read_quad_keeps: "ctl_only s (snd (read_quad hw addr n s))"
  by (simp add: read_quad_def readByCMD_raw_def flash_start_def ctl_only_def drv_keeps_def Let_def
      split_beta split: option.splits)

subsection \<open>Reading\<close>

lemma add_mod_25: "a mod 33554432 + k \<le> csize \<Longrightarrow> 0 < k \<Longrightarrow> j < k \<Longrightarrow>
  (a + j) mod 33554432 = a mod 33554432 + (j :: nat)"
  using csize_le by (subst mod_add_left_eq [symmetric]) simp

lemma read_chunks_ok:
  assumes "0 < sz" and "sz \<le> 1024" and "sz mod 4 = 0" and "addr mod 2 ^ 25 + n * sz \<le> csize"
  shows "fst (read_chunks hw n sz addr s) = span (V s) (addr mod 2 ^ 25) (n * sz) \<and>
    V (snd (read_chunks hw n sz addr s)) = V s \<and> ctl_only s (snd (read_chunks hw n sz addr s))"
  using assms(4)
proof (induction n arbitrary: addr s)
  case (Suc n)
  obtain bs s1 where q: "read_quad hw addr sz s = (bs, s1)" by fastforce
  have b: "bs = span (V s) (addr mod 33554432) sz" "V s1 = V s" "ctl_only s s1"
    using read_quad_ok [OF assms(1-3), of addr s] Suc.prems q by auto
  show ?case
  proof (cases n)
    case 0
    then show ?thesis using b by (simp add: q)
  next
    case (Suc m)
    then have a: "(addr + sz) mod 33554432 = addr mod 33554432 + sz"
      using add_mod_25 [of addr "Suc n * sz" sz] Suc.prems assms(1) by simp
    have "(addr + sz) mod 2 ^ 25 + n * sz \<le> csize"
      using Suc.prems a by simp
    from Suc.IH [OF this, of s1] b a show ?thesis
      by (auto simp: q split_beta span_append intro: ctl_only_trans)
  qed
qed simp

lemma read_pages_ok:
  assumes "addr mod 2 ^ 25 + n * 256 \<le> csize" and "256 \<le> length (fls_cache s)"
  shows "fst (read_pages hw n addr s) = span (V s) (addr mod 2 ^ 25) (n * 256) \<and>
    V (snd (read_pages hw n addr s)) = V s \<and> drv_keeps s (snd (read_pages hw n addr s))"
  using assms
proof (induction n arbitrary: addr s)
  case (Suc n)
  obtain bs s1 where q: "read_quad hw addr 256 s = (bs, s1)" by fastforce
  have b: "bs = span (V s) (addr mod 33554432) 256" "V s1 = V s" "ctl_only s s1"
    using read_quad_ok [of 256 addr s] Suc.prems q by auto
  let ?s = "s1\<lparr>fls_cache := overlay (fls_cache s1) 0 bs\<rparr>"
  have k: "drv_keeps s ?s" "take 256 (fls_cache ?s) = bs"
    using b Suc.prems(2) by (auto simp: ctl_only_def drv_keeps_def overlay_def)
  show ?case
  proof (cases n)
    case 0
    then show ?thesis using b k by (simp add: q)
  next
    case (Suc m)
    then have a: "(addr + 256) mod 33554432 = addr mod 33554432 + 256"
      using add_mod_25 [of addr "Suc n * 256" 256] Suc.prems by simp
    have "(addr + 256) mod 2 ^ 25 + n * 256 \<le> csize" "256 \<le> length (fls_cache ?s)"
      using Suc.prems a k drv_keepsD(2) [OF k(1)] by simp_all
    from Suc.IH [OF this] b k a show ?thesis
      by (auto simp: q split_beta span_append Let_def intro: drv_keeps_trans)
  qed
qed simp

lemma flashRead_aligned:
  assumes "addr mod 256 = 0" and "sz mod 4 = 0" and "0 < sz" and "addr mod 2 ^ 25 + sz \<le> csize"
  shows "fst (flashRead hw addr True sz s) = span (V s) (addr mod 2 ^ 25) sz \<and>
    V (snd (flashRead hw addr True sz s)) = V s \<and> ctl_only s (snd (flashRead hw addr True sz s))"
proof -
  define m :: nat where "m = (if sz \<ge> 512 then 1024 else 256)"
  have m: "0 < m" "m \<le> 1024" "m mod 4 = 0" "sz div m * m + sz mod m = sz" "sz mod m mod 4 = 0"
    using assms(2) by (auto simp: m_def mod_mod_cancel)
  obtain bs s1 where q: "read_chunks hw (sz div m) m addr s = (bs, s1)" by fastforce
  have "addr mod 2 ^ 25 + sz div m * m \<le> csize"
    using assms(4) m(4) by linarith
  from read_chunks_ok [OF m(1-3) this, of s] q
  have b: "bs = span (V s) (addr mod 33554432) (sz div m * m)" "V s1 = V s" "ctl_only s s1"
    by auto
  have f: "flashRead hw addr True sz s =
    (if sz mod m \<noteq> 0 then (let (cs, s) = read_quad hw (addr + sz div m * m) (sz mod m) s1 in (bs @ cs, s))
     else (bs, s1))"
    using assms(1,2) q by (simp add: flashRead_def Let_def m_def [symmetric])
  show ?thesis
  proof (cases "sz mod m = 0")
    case True
    then show ?thesis using b f m(4) by simp
  next
    case False
    then have a: "(addr + sz div m * m) mod 33554432 = addr mod 33554432 + sz div m * m"
      using add_mod_25 [of addr sz "sz div m * m"] assms(3,4) m(4) by simp
    obtain cs s2 where r: "read_quad hw (addr + sz div m * m) (sz mod m) s1 = (cs, s2)" by fastforce
    have "0 < sz mod m" "sz mod m \<le> 1024"
      using False m(2) mod_less_divisor [OF m(1), of sz] by linarith+
    moreover have "(addr + sz div m * m) mod 2 ^ 25 + sz mod m \<le> csize"
      using assms(4) a m(4) by simp
    ultimately have "cs = span (V s) (addr mod 33554432 + sz div m * m) (sz mod m)" "V s2 = V s" "ctl_only s1 s2"
      using read_quad_ok [of "sz mod m" "addr + sz div m * m" s1] m(5) r a b(2) by auto
    then show ?thesis
      using False b f r m(4) by (auto simp: span_append intro: ctl_only_trans)
  qed
qed

lemma csize_pages: "256 dvd csize"
  using csize_sectors by (rule dvd_trans [rotated]) simp

lemma page_fits: "a mod 256 = 0 \<Longrightarrow> a < csize \<Longrightarrow> a + 256 \<le> csize"
  using csize_pages by (auto simp: dvd_def)

lemma page_base: "(addr - addr mod 256) mod 33554432 = addr mod 33554432 - addr mod (256 :: nat)"
proof -
  have "addr mod 33554432 = 256 * (addr div 256 mod 131072) + addr mod 256"
    using mod_mult2_eq [of addr 256 131072] by simp
  moreover have "addr - addr mod 256 = 256 * (addr div 256)"
    by (simp add: minus_mod_eq_mult_div)
  moreover have "256 * (addr div 256) mod 33554432 = 256 * (addr div 256 mod 131072)"
    using mult_mod_right [of 256 "addr div 256" 131072] by simp
  ultimately show ?thesis by simp
qed

text \<open>One page into the cache: the first page of the cached branch and every later one.\<close>

definition page_cached :: "nat \<Rightarrow> nat \<Rightarrow> 'c fls \<Rightarrow> 'c fls" where
  "page_cached addr n s =
     (let (bs, s) = read_quad hw addr n s in s\<lparr>fls_cache := overlay (fls_cache s) 0 bs\<rparr>)"

lemma page_cached_ok:
  assumes "0 < n" and "n \<le> 256" and "n mod 4 = 0" and "addr mod 2 ^ 25 + n \<le> csize"
    and "256 \<le> length (fls_cache s)"
  shows "take n (fls_cache (page_cached addr n s)) = span (V s) (addr mod 2 ^ 25) n"
    and "V (page_cached addr n s) = V s" and "drv_keeps s (page_cached addr n s)"
  using read_quad_ok [of n addr s] assms
  by (auto simp: page_cached_def split_beta Let_def overlay_def ctl_only_def drv_keeps_def)

definition page_tail :: "nat \<Rightarrow> nat \<Rightarrow> nat \<Rightarrow> 'c fls \<Rightarrow> u8 list \<times> 'c fls" where
  "page_tail n rem addr s =
     (let (mid, s) = read_pages hw n addr s
      in if rem \<noteq> 0 then
           (let s = page_cached (addr + n * 256) (rem + (4 - rem mod 4)) s in (mid @ take rem (fls_cache s), s))
         else (mid, s))"

lemma page_tail_ok:
  assumes "addr mod 256 = 0" and "rem < 256" and "addr mod 2 ^ 25 + (n * 256 + rem) \<le> csize"
    and "256 \<le> length (fls_cache s)"
  shows "fst (page_tail n rem addr s) = span (V s) (addr mod 2 ^ 25) (n * 256 + rem) \<and>
    V (snd (page_tail n rem addr s)) = V s \<and> drv_keeps s (snd (page_tail n rem addr s))"
proof -
  obtain mid s1 where q: "read_pages hw n addr s = (mid, s1)" by fastforce
  have b: "mid = span (V s) (addr mod 33554432) (n * 256)" "V s1 = V s" "drv_keeps s s1"
    using read_pages_ok [of addr n s] assms(3,4) q by auto
  show ?thesis
  proof (cases "rem = 0")
    case True
    then show ?thesis using b by (simp add: page_tail_def q)
  next
    case False
    let ?n = "rem + (4 - rem mod 4)" and ?a = "addr + n * 256"
    have n: "0 < ?n" "?n \<le> 256" "?n mod 4 = 0" "rem \<le> ?n"
      using False assms(2) by presburger+
    have a: "?a mod 33554432 = addr mod 33554432 + n * 256"
      using add_mod_25 [of addr "n * 256 + rem" "n * 256"] assms(3) False by simp
    then have a': "?a mod 2 ^ 25 = addr mod 33554432 + n * 256" by simp
    have "?a mod 33554432 mod 256 = 0" using assms(1) by (simp add: mod_mod_cancel)
    from page_fits [OF this] have "?a mod 33554432 + ?n \<le> csize"
      using a assms(3) False n(2) by simp
    then have fit: "?a mod 2 ^ 25 + ?n \<le> csize" by simp
    have len: "256 \<le> length (fls_cache s1)" using assms(4) drv_keepsD(2) [OF b(3)] by simp
    have c: "take ?n (fls_cache (page_cached ?a ?n s1)) = span (V s) (addr mod 33554432 + n * 256) ?n"
      "V (page_cached ?a ?n s1) = V s" "drv_keeps s1 (page_cached ?a ?n s1)"
      using page_cached_ok [OF n(1-3) fit len] unfolding b(2) a' by simp_all
    have "take rem (fls_cache (page_cached ?a ?n s1)) = take rem (take ?n (fls_cache (page_cached ?a ?n s1)))"
      using n(4) by (simp add: min_def)
    also have "\<dots> = span (V s) (addr mod 33554432 + n * 256) rem"
      unfolding c(1) take_span using n(4) by (simp add: min_def)
    finally show ?thesis
      using False b c by (auto simp: page_tail_def q span_append Let_def intro: drv_keeps_trans)
  qed
qed

lemma flashRead_cached:
  assumes "\<not> (addr mod 256 = 0 \<and> al \<and> sz mod 4 = 0)" and "0 < sz" and "addr mod 2 ^ 25 + sz \<le> csize"
    and "256 \<le> length (fls_cache s)"
  shows "fst (flashRead hw addr al sz s) = span (V s) (addr mod 2 ^ 25) sz \<and>
    V (snd (flashRead hw addr al sz s)) = V s \<and> drv_keeps s (snd (flashRead hw addr al sz s))"
proof -
  define off where "off = addr mod 256"
  define base where "base = addr - off"
  define s1 where "s1 = page_cached base 256 s"
  have off: "off < 256" "off \<le> addr mod 33554432" "base mod 33554432 = addr mod 33554432 - off"
    using page_base [of addr] mod_mod_cancel [of 256 33554432 addr] mod_less_eq_dividend [of "addr mod 33554432" 256]
    by (simp_all add: off_def base_def)
  have pg: "base mod 256 = 0" "base mod 33554432 mod 256 = 0"
    by (simp_all add: base_def off_def mod_mod_cancel minus_mod_eq_mult_div)
  have fit: "base mod 33554432 + 256 \<le> csize"
    using page_fits [OF pg(2)] off assms(2,3) by simp
  have s1: "take 256 (fls_cache s1) = span (V s) (base mod 33554432) 256" "V s1 = V s" "drv_keeps s s1"
    using page_cached_ok [of 256 base s] fit assms(4) by (simp_all add: s1_def)
  have piece: "take n (drop off (fls_cache s1)) = span (V s) (addr mod 33554432) n" if "n \<le> 256 - off" for n
  proof -
    have "take n (drop off (fls_cache s1)) = take n (drop off (take 256 (fls_cache s1)))"
      using that by (simp add: drop_take min_def)
    then show ?thesis using off that by (simp add: s1(1) bytes_simps min_def)
  qed
  show ?thesis
  proof (cases "sz > 256 - off")
    case False
    then have "flashRead hw addr al sz s = (take sz (drop off (fls_cache s1)), s1)"
      using assms(1)
      by (auto simp: flashRead_def Let_def split_beta s1_def page_cached_def off_def base_def)
    then show ?thesis using piece [of sz] False s1 by simp
  next
    case True
    define n where "n = (sz - (256 - off)) div 256"
    define r where "r = (sz - (256 - off)) mod 256"
    have nr: "n * 256 + r = sz - (256 - off)" "r < 256" by (simp_all add: n_def r_def)
    have b2: "(base + 256) mod 33554432 = base mod 33554432 + 256"
      using add_mod_25 [of base "off + sz" 256] off assms(2,3) True by simp
    have f: "flashRead hw addr al sz s =
      (let (bs, s) = page_tail n r (base + 256) s1 in (take (256 - off) (drop off (fls_cache s1)) @ bs, s))"
      unfolding flashRead_def Let_def off_def [symmetric] if_not_P [OF assms(1) [folded off_def]] base_def [symmetric] n_def [symmetric] r_def [symmetric]
        s1_def page_cached_def page_tail_def split_beta
      using True by simp
    have b2': "(base + 256) mod 2 ^ 25 = base mod 33554432 + 256" using b2 by simp
    have fit2: "(base + 256) mod 2 ^ 25 + (n * 256 + r) \<le> csize"
      unfolding b2' nr(1) using off assms(3) True by simp
    have len: "256 \<le> length (fls_cache s1)" using assms(4) drv_keepsD(2) [OF s1(3)] by simp
    have "fst (page_tail n r (base + 256) s1) = span (V s) (base mod 33554432 + 256) (sz - (256 - off)) \<and>
      V (snd (page_tail n r (base + 256) s1)) = V s \<and> drv_keeps s1 (snd (page_tail n r (base + 256) s1))"
      using page_tail_ok [OF _ nr(2) fit2 len] pg(1) s1(2) unfolding b2' nr(1) by simp
    moreover have "span (V s) (addr mod 33554432) (256 - off) @
        span (V s) (base mod 33554432 + 256) (sz - (256 - off)) = span (V s) (addr mod 33554432) sz"
      using span_append [of "V s" "addr mod 33554432" "256 - off" "sz - (256 - off)"] off True by simp
    ultimately show ?thesis
      using piece [of "256 - off"] s1(3) by (auto simp: f split_beta intro: drv_keeps_trans)
  qed
qed

lemma flashRead_ok:
  assumes "0 < sz" and "addr mod 2 ^ 25 + sz \<le> csize" and "256 \<le> length (fls_cache s)"
  shows "fst (flashRead hw addr al sz s) = span (V s) (addr mod 2 ^ 25) sz"
    and "V (snd (flashRead hw addr al sz s)) = V s"
    and "drv_keeps s (snd (flashRead hw addr al sz s))"
  using flashRead_aligned [of addr sz s] flashRead_cached [of addr al sz s] assms ctl_only_keeps
  by (cases "addr mod 256 = 0 \<and> al \<and> sz mod 4 = 0"; force)+

lemma flashRead_cache_ok:
  assumes "cache_aligned s" and "addr mod 256 = 0" and "addr mod 2 ^ 25 + 4096 \<le> csize"
    and "length (fls_cache s) = 4096"
  shows "fls_cache (flashRead_cache hw addr s) = span (V s) (addr mod 2 ^ 25) 4096"
    and "V (flashRead_cache hw addr s) = V s" and "drv_keeps s (flashRead_cache hw addr s)"
  using flashRead_aligned [of addr 4096 s] assms
  by (auto simp: flashRead_cache_def split_beta ctl_only_def drv_keeps_def)

subsection \<open>Programming and writing\<close>

lemma and_byte_ones: "0xFF AND x = (x :: u8)"
proof -
  have "(0xFF :: u8) = - 1" by simp
  then show ?thesis by (simp only: and.left_neutral)
qed

lemma and_erased: "length xs = n \<Longrightarrow> (\<And>i. i < n \<Longrightarrow> m (a + i) = (0xFF :: u8)) \<Longrightarrow>
  map2 (AND) (span m a n) xs = xs"
  using and_byte_ones by (intro nth_equalityI) auto

lemma of_nat_mod_25: "unat (of_nat addr :: u32) mod 33554432 = addr mod 33554432"
  by (simp add: unat_of_nat take_bit_eq_mod)

lemma of_nat_mod_256: "unat (of_nat addr :: u32) mod 256 = addr mod 256"
  by (simp add: unat_of_nat take_bit_eq_mod mod_mod_cancel)

lemma ctl_only_program_pages: "ctl_only s (program_pages hw n addr buf s)"
  by (induction n arbitrary: addr buf s) (simp, metis ctl_only_trans ctl_only_programPage program_pages.simps(2))

lemma program_pages_erased:
  assumes "addr mod 256 = 0" and "addr mod 2 ^ 25 + n * 256 \<le> csize" and "length buf = n * 256"
    and "\<And>i. i < n * 256 \<Longrightarrow> V s (addr mod 2 ^ 25 + i) = 0xFF"
  shows "V (program_pages hw n addr buf s) = blit (V s) (addr mod 2 ^ 25) buf"
  using assms
proof (induction n arbitrary: addr buf s)
  case (Suc n)
  let ?s = "programPage hw (of_nat addr) 256 (take 256 buf) s" and ?a = "addr mod 33554432"
  have e: "map2 (AND) (span (V s) ?a 256) (take 256 buf) = take 256 buf"
    using Suc.prems(3,4) by (intro and_erased) auto
  have p: "V ?s = blit (V s) ?a (take 256 buf)"
    using programPage_view [of "of_nat addr" "take 256 buf" s] Suc.prems e
    by (simp add: of_nat_mod_25 of_nat_mod_256)
  show ?case
  proof (cases n)
    case 0
    then show ?thesis using p Suc.prems(3) by simp
  next
    case (Suc m)
    have a: "(addr + 256) mod 33554432 = ?a + 256"
      using add_mod_25 [of addr "Suc n * 256" 256] Suc.prems Suc by simp
    have "V (program_pages hw n (addr + 256) (drop 256 buf) ?s) =
        blit (V ?s) ((addr + 256) mod 2 ^ 25) (drop 256 buf)"
      using Suc.prems(1-3) Suc.prems(4) [of "256 + i" for i]
      by (intro Suc.IH) (auto simp: p a blit_apply mod_add_eq ac_simps)
    also have "\<dots> = blit (V s) ?a (take 256 buf @ drop 256 buf)"
      using Suc.prems(3) unfolding blit_append p by (simp add: a min_def)
    finally show ?thesis by simp
  qed
qed simp

lemma sector_fits: "4096 * p < csize \<Longrightarrow> 4096 * p + 4096 \<le> csize"
  using csize_sectors by (auto simp: dvd_def)

lemma in_chip_mod [simp]: "a < csize \<Longrightarrow> a mod 33554432 = a"
  using csize_le by simp

text \<open>Erase a sector and program it from a 4 KiB buffer: the two driver paths that replace a sector.\<close>

lemma sector_rewrite:
  assumes "adr mod 2 ^ 25 = 4096 * p" and "4096 * p < csize" and "length buf = 4096"
    and "V t = V (eraseSector hw (of_nat adr) s)"
  shows "V (program_pages hw 16 adr buf t) = blit (V s) (4096 * p) buf"
proof -
  have e: "V t = blit (V s) (4096 * p) (replicate 4096 0xFF)"
    using eraseSector_view [of "of_nat adr" s] assms by (simp add: of_nat_mod_25)
  have "adr mod 256 = adr mod 2 ^ 25 mod 256" by (simp add: mod_mod_cancel)
  also have "\<dots> = 4096 * p mod 256" by (simp only: assms(1))
  also have "\<dots> = 0" using mod_mult_left_eq [of 4096 256 p] by simp
  finally have "V (program_pages hw 16 adr buf t) = blit (V t) (adr mod 2 ^ 25) buf"
    using assms(1,3) sector_fits [OF assms(2)]
    by (intro program_pages_erased) (simp_all add: e blit_apply)
  then show ?thesis using assms(1,3) by (simp add: e)
qed

lemma write_sector_view:
  assumes "fls_ready csize s" and "4096 * p < csize" and "secoff + length buf \<le> 4096"
  shows "V (write_sector hw p secoff buf s) = blit (V s) (4096 * p + secoff) buf"
    and "drv_keeps s (write_sector hw p secoff buf s)"
proof -
  let ?a = "p * 4096"
  have pre: "cache_aligned s" "?a mod 256 = 0" "?a mod 2 ^ 25 + 4096 \<le> csize" "length (fls_cache s) = 4096"
    "?a mod 2 ^ 25 = 4096 * p"
    using assms(1,2) sector_fits [OF assms(2)] in_chip_mod [OF assms(2)]
    by (auto simp: fls_ready_def mult.commute)
  define s1 where "s1 = flashRead_cache hw ?a s"
  have s1: "fls_cache s1 = span (V s) (4096 * p) 4096" "V s1 = V s" "drv_keeps s s1"
    using flashRead_cache_ok [OF pre(1-4)] pre(5) by (simp_all add: s1_def)
  define s2 where "s2 = eraseSector hw (of_nat ?a) s1"
  have s2: "ctl_only s1 s2" by (simp add: s2_def)
  define s3 where "s3 = s2\<lparr>fls_cache := overlay (fls_cache s2) secoff buf\<rparr>"
  have c3: "fls_cache s3 = overlay (span (V s) (4096 * p) 4096) secoff buf"
    using ctl_only_cache [OF s2] s1(1) by (simp add: s3_def)
  have w: "write_sector hw p secoff buf s = program_pages hw 16 ?a (fls_cache s3) s3"
    by (simp add: write_sector_def Let_def s3_def s2_def s1_def)
  have "V (program_pages hw 16 ?a (fls_cache s3) s3) = blit (V s1) (4096 * p) (fls_cache s3)"
    using sector_rewrite [OF pre(5) assms(2), of "fls_cache s3" s3 s1] c3 assms(3)
    by (simp add: s3_def s2_def)
  then show "V (write_sector hw p secoff buf s) = blit (V s) (4096 * p + secoff) buf"
    using assms(3) by (simp add: w c3 s1(2) blit_overlay_span)
  have "drv_keeps s1 s3"
    using s2 s1(1) assms(3) by (auto simp: s3_def ctl_only_def drv_keeps_def)
  then show "drv_keeps s (write_sector hw p secoff buf s)"
    unfolding w using s1(3) ctl_only_keeps [OF ctl_only_program_pages] drv_keeps_trans by metis
qed

lemma write_sectors_view:
  assumes "fls_ready csize s" and "4096 * p + length buf \<le> csize" and "buf \<noteq> []"
  shows "V (write_sectors hw p buf s) = blit (V s) (4096 * p) buf \<and> drv_keeps s (write_sectors hw p buf s)"
  using assms
proof (induction hw\<equiv>hw p buf s rule: write_sectors.induct)
  case (1 p buf s)
  have lt: "4096 * p < csize" using "1.prems"(2,3) by (cases buf) auto
  show ?case
  proof (cases "length buf \<le> 4096")
    case True
    then show ?thesis
      using write_sector_view [OF "1.prems"(1) lt, of 0 buf] by (simp add: write_sectors.simps)
  next
    case False
    let ?s = "write_sector hw p 0 (take 4096 buf) s"
    have s: "V ?s = blit (V s) (4096 * p) (take 4096 buf)" "drv_keeps s ?s"
      using write_sector_view [OF "1.prems"(1) lt, of 0 "take 4096 buf"] by simp_all
    have "V (write_sectors hw (Suc p) (drop 4096 buf) ?s) = blit (V ?s) (4096 * Suc p) (drop 4096 buf) \<and>
        drv_keeps ?s (write_sectors hw (Suc p) (drop 4096 buf) ?s)"
      using "1.prems"(2) False fls_ready_keeps [OF s(2) "1.prems"(1)] by (intro "1.hyps") auto
    moreover have "blit (V ?s) (4096 * Suc p) (drop 4096 buf) = blit (V s) (4096 * p) (take 4096 buf @ drop 4096 buf)"
      unfolding blit_append s(1) using False by (simp add: min_def add.commute)
    ultimately show ?thesis
      using False s(2) by (subst (1 2) write_sectors.simps) (auto intro: drv_keeps_trans)
  qed
qed

subsection \<open>The public operations\<close>

lemma fls_bad_args_iff:
  assumes "inside_fls s = Some f" and "fls_ready csize s"
  shows "fls_bad_args addr len isnull f \<longleftrightarrow> csize \<le> unat addr mod 2 ^ 27 \<or> len = 0 \<or> isnull"
  using assms by (auto simp: fls_bad_args_def fls_ready_def word_le_nat_alt)

lemma chip_off_25:
  assumes "n mod 2 ^ 27 < csize"
  shows "n mod 33554432 = n mod 2 ^ 27"
proof -
  have "n mod 33554432 = n mod 2 ^ 27 mod 33554432" by (simp add: mod_mod_cancel)
  then show ?thesis using assms by simp
qed

lemma tls_fls_read_ok:
  assumes "fls_ready csize s" and "0 < len" and "unat addr mod 2 ^ 27 + unat len \<le> csize"
  shows "\<exists>s'. tls_fls_read hw addr (Some al) len s =
      (TLS_FLS_STATUS_OK, span (V s) (unat addr mod 2 ^ 27) (unat len), s') \<and> V s' = V s \<and> drv_keeps s s'"
proof -
  obtain f where f: "inside_fls s = Some f" using assms(1) by (auto simp: fls_ready_def)
  have len: "0 < unat len" using assms(2) by (simp add: word_less_nat_alt)
  then have lt: "unat addr mod 2 ^ 27 < csize" using assms(3) by linarith
  have off: "unat addr mod 2 ^ 25 = unat addr mod 2 ^ 27" using chip_off_25 [OF lt] by simp
  have ok: "\<not> fls_bad_args addr len (Some al = None) f"
    using fls_bad_args_iff [OF f assms(1)] lt assms(2) by auto
  have "256 \<le> length (fls_cache s)" using assms(1) by (simp add: fls_ready_def)
  from flashRead_ok [OF len _ this, of "unat addr" al] assms(3)
  have "fst (flashRead hw (unat addr) al (unat len) s) = span (V s) (unat addr mod 2 ^ 27) (unat len)"
    "V (snd (flashRead hw (unat addr) al (unat len) s)) = V s"
    "drv_keeps s (snd (flashRead hw (unat addr) al (unat len) s))" unfolding off by simp_all
  then show ?thesis
    using ok f by (cases "flashRead hw (unat addr) al (unat len) s") (simp add: tls_fls_read_def)
qed

lemma tls_fls_write_ok:
  assumes "fls_ready csize s" and "0 < len" and "unat addr mod 2 ^ 27 + unat len \<le> csize"
    and "unat len \<le> length buf"
  shows "\<exists>s'. tls_fls_write hw addr (Some buf) len s = (TLS_FLS_STATUS_OK, s') \<and>
    V s' = blit (V s) (unat addr mod 2 ^ 27) (take (unat len) buf) \<and> drv_keeps s s'"
proof -
  obtain f where f: "inside_fls s = Some f" using assms(1) by (auto simp: fls_ready_def)
  have len: "0 < unat len" using assms(2) by (simp add: word_less_nat_alt)
  define off where "off = unat addr mod 2 ^ 27"
  have off: "off < csize" using len assms(3) by (simp add: off_def)
  have uo: "unat (addr AND (INSIDE_FLS_BASE_ADDR - 1)) = off" by (simp add: off_def)
  have ok: "\<not> fls_bad_args addr len (Some buf = None) f"
    using fls_bad_args_iff [OF f assms(1)] off assms(2) by (auto simp: off_def)
  define bs where "bs = take (unat len) buf"
  define p where "p = off div 4096"
  define o' where "o' = off mod 4096"
  define r where "r = min (unat len) (4096 - o')"
  have d: "4096 * p + o' = off" "o' < 4096" "4096 * p < csize" "length bs = unat len"
    using off assms(4) by (simp_all add: p_def o'_def bs_def)
  let ?s = "write_sector hw p o' (take r bs) s"
  let ?t = "if unat len = r then ?s else write_sectors hw (Suc p) (drop r bs) ?s"
  have s: "V ?s = blit (V s) off (take r bs)" "drv_keeps s ?s"
    using write_sector_view [OF assms(1) d(3), of o' "take r bs"] d by (auto simp: r_def)
  have e: "tls_fls_write hw addr (Some buf) len s = (TLS_FLS_STATUS_OK, ?t)"
    using ok by (simp only: tls_fls_write_def f option.case option.sel Let_def uo p_def [symmetric]
        o'_def [symmetric] r_def [symmetric] bs_def [symmetric] if_False)
  have "V ?t = blit (V s) off bs \<and> drv_keeps s ?t"
  proof (cases "unat len = r")
    case True
    then show ?thesis using s d(4) by simp
  next
    case False
    then have r: "r = 4096 - o'" "r < unat len" by (auto simp: r_def min_def split: if_splits)
    have "V (write_sectors hw (Suc p) (drop r bs) ?s) = blit (V ?s) (4096 * Suc p) (drop r bs) \<and>
        drv_keeps ?s (write_sectors hw (Suc p) (drop r bs) ?s)"
      using d r assms(3) fls_ready_keeps [OF s(2) assms(1)]
      by (intro write_sectors_view) (auto simp: off_def)
    moreover have "4096 * Suc p = off + length (take r bs)" using d r by simp
    then have "blit (V ?s) (4096 * Suc p) (drop r bs) = blit (V s) off (take r bs @ drop r bs)"
      by (simp only: blit_append s(1))
    ultimately show ?thesis using False s(2) by (auto intro: drv_keeps_trans)
  qed
  then show ?thesis using e by (simp add: off_def bs_def)
qed

end

end
