(* ===== verification/Internal_Flash_Fast.thy ===== *)
theory Internal_Flash_Fast
  imports Internal_Flash_Correct
begin

text \<open>
  The remaining operations of the internal flash driver on any NOR chip: sector and chip erase, the
  buffered fast-write session (init, a sequence of writes, destroy) and initialisation.

  A fast-write session is described by \<open>fast_stream\<close>: the bytes accepted so far, of which all complete
  sectors are in the chip and the rest is at the start of \<^verbatim>\<open>gsflscache\<close>.
\<close>

text \<open>The manufacturers of the table in \<^verbatim>\<open>tls_fls_init\<close>.\<close>

definition known_mids :: "u8 set" where
  "known_mids = {SPIFLASH_MID_TSINGTENG_1MB_4MB, SPIFLASH_MID_GD, SPIFLASH_MID_FUDANMICRO, SPIFLASH_MID_TSINGTENG, SPIFLASH_MID_BOYA,
     SPIFLASH_MID_XMC, SPIFLASH_MID_WINBOND, SPIFLASH_MID_PUYA, SPIFLASH_MID_XTX, SPIFLASH_MID_ESMT}"

lemma known_mids_iff: "otp_erase_size mid d = None \<longleftrightarrow> mid \<notin> known_mids"
  by (auto simp: otp_erase_size_def known_mids_def)

context nor_flash
begin

section \<open>Erasing\<close>

lemma sector_index: "4096 * p < csize \<longleftrightarrow> p < csize div 4096"
  using csize_sectors by (auto simp: dvd_def)

lemma sector_limit_unat:
  assumes "unat (density f) = csize"
  shows "unat (sector_limit f) = csize div 4096 + 32768"
  using assms csize_le by (simp add: sector_limit_def unat_word_ariths unat_div_distrib)

lemma sector_addr: "unat (sector * 0x1000 :: u32) mod 33554432 = 4096 * (unat sector mod 8192)"
proof -
  have "unat (sector * 0x1000 :: u32) mod 33554432 = 4096 * unat sector mod 33554432"
    by (simp add: unat_word_ariths mod_mod_cancel mult.commute)
  then show ?thesis using mult_mod_right [of 4096 "unat sector" 8192] by simp
qed

lemma base_mod:
  assumes "a < csize"
  shows "(134217728 + a) mod 2 ^ 25 = a"
proof -
  have e: "134217728 + a = a + 2 ^ 25 * 4" by simp
  have "a < 2 ^ 25" using assms csize_le by simp
  then show ?thesis unfolding e by (simp only: mod_mult_self2 mod_less)
qed

text \<open>
  A sector number is taken modulo 8192, the number of sectors the 25-bit address register can name;
  numbers with \<^verbatim>\<open>INSIDE_FLS_BASE_ADDR\<close> in them and numbers relative to the chip name the same sectors.
\<close>

lemma tls_fls_erase_ok:
  assumes "fls_ready csize s" and "unat sector < 32768 + csize div 4096"
    and "unat sector mod 8192 < csize div 4096"
  shows "\<exists>s'. tls_fls_erase hw sector s = (TLS_FLS_STATUS_OK, s') \<and>
    V s' = blit (V s) (4096 * (unat sector mod 8192)) (replicate 4096 0xFF) \<and> ctl_only s s'"
proof -
  obtain f where f: "inside_fls s = Some f" "unat (density f) = csize"
    using assms(1) by (auto simp: fls_ready_def)
  have "\<not> sector \<ge> sector_limit f"
    using assms(2) sector_limit_unat [OF f(2)] by (simp add: word_le_nat_alt)
  moreover have "V (eraseSector hw (sector * 0x1000) s) =
      blit (V s) (4096 * (unat sector mod 8192)) (replicate 4096 0xFF)"
    using eraseSector_view [of "sector * 0x1000" s] assms(3) sector_addr [of sector]
    by (simp add: sector_index)
  ultimately show ?thesis using f by (simp add: tls_fls_erase_def)
qed

section \<open>Fast write\<close>

definition fast_stream :: "(nat \<Rightarrow> u8) \<Rightarrow> nat \<Rightarrow> u8 list \<Rightarrow> 'c fls \<Rightarrow> bool" where
  "fast_stream V0 a0 data s \<longleftrightarrow>
     (\<exists>full rest junk. data = full @ rest \<and> 4096 dvd length full \<and> length rest < 4096 \<and>
        gsflscache s = Some (rest @ junk) \<and> length (rest @ junk) = 4096 \<and>
        gsSector s = of_nat (32768 + (a0 + length full) div 4096) \<and> V s = blit V0 a0 full)"

lemma flush_sector_view:
  assumes "fls_ready csize s" and "gsflscache s = Some cache" and "length cache = 4096"
    and "gsSector s = of_nat (32768 + p)" and "4096 * p < csize"
  shows "\<exists>s'. tls_fls_flush_sector hw s = Some s' \<and> V s' = blit (V s) (4096 * p) cache \<and> ctl_only s s'"
proof -
  obtain f where f: "inside_fls s = Some f" "unat (density f) = csize"
    using assms(1) by (auto simp: fls_ready_def)
  have p: "p < 8192" using assms(5) csize_le by simp
  have u: "unat (gsSector s) = 32768 + p" using p by (simp add: assms(4) unat_of_nat_u32 del: of_nat_add)
  have lim: "unat (sector_limit f) = csize div 4096 + 32768"
    by (rule sector_limit_unat [OF f(2)])
  have a: "unat (gsSector s * 0x1000) = 134217728 + 4096 * p"
    using p by (simp add: unat_word_ariths u)
  have "gsSector s < sector_limit f"
    using u lim assms(5) by (simp add: word_less_nat_alt sector_index)
  then have fl: "tls_fls_flush_sector hw s =
      Some (program_pages hw 16 (134217728 + 4096 * p) cache (eraseSector hw (gsSector s * 0x1000) s))"
    using assms(2) f ctl_only_keeps [OF ctl_only_eraseSector [of s hw "gsSector s * 0x1000"]]
    by (simp add: tls_fls_flush_sector_def Let_def drv_keepsD(5) a)
  let ?e = "eraseSector hw (gsSector s * 0x1000) s"
  have "gsSector s * 0x1000 = of_nat (134217728 + 4096 * p)" by (simp add: assms(4))
  moreover have "(134217728 + 4096 * p) mod 2 ^ 25 = 4096 * p"
    by (rule base_mod [OF assms(5)])
  ultimately have "V (program_pages hw 16 (134217728 + 4096 * p) cache ?e) = blit (V s) (4096 * p) cache"
    using assms(3,5) by (intro sector_rewrite) simp_all
  then show ?thesis
    using fl ctl_only_trans [OF ctl_only_eraseSector ctl_only_program_pages] by metis
qed

lemma fast_stream_offset:
  assumes "data = full @ rest" and "4096 dvd length full" and "length rest < 4096"
  shows "length data mod 4096 = length rest"
  using assms by (auto simp: dvd_def)

lemma fast_chunk_stream:
  assumes "fls_ready csize s" and "4096 dvd a0" and "fast_stream V0 a0 data s"
    and "length data mod 4096 + length chunk \<le> 4096" and "a0 + length (data @ chunk) \<le> csize"
  shows "\<exists>s'. fast_chunk hw (length data mod 4096) chunk s = Some s' \<and>
    fast_stream V0 a0 (data @ chunk) s' \<and> fls_ready csize s'"
proof -
  obtain full rest junk where d: "data = full @ rest" "4096 dvd length full" "length rest < 4096"
    and s: "gsflscache s = Some (rest @ junk)" "length (rest @ junk) = 4096"
      "gsSector s = of_nat (32768 + (a0 + length full) div 4096)" "V s = blit V0 a0 full"
    using assms(3) unfolding fast_stream_def by blast
  have off: "length data mod 4096 = length rest" by (rule fast_stream_offset [OF d])
  define t where "t = s\<lparr>gsflscache := Some (rest @ chunk @ drop (length chunk) junk)\<rparr>"
  have t: "overlay (rest @ junk) (length rest) chunk = rest @ chunk @ drop (length chunk) junk"
    "fls_ready csize t"
    using assms(1) by (simp_all add: overlay_def t_def fls_ready_def)
  show ?thesis
  proof (cases "length rest + length chunk < 4096")
    case True
    then have "fast_chunk hw (length data mod 4096) chunk s = Some t"
      using s by (simp add: fast_chunk_def off t t_def)
    moreover have "fast_stream V0 a0 (data @ chunk) t"
      unfolding fast_stream_def using d s True
      by (intro exI [of _ "full"] exI [of _ "rest @ chunk"] exI [of _ "drop (length chunk) junk"])
        (simp add: t_def)
    ultimately show ?thesis using t(2) by blast
  next
    case False
    then have c: "length rest + length chunk = 4096" "drop (length chunk) junk = []"
      using assms(4) off s(2) by auto
    define p where "p = (a0 + length full) div 4096"
    have p: "4096 * p = a0 + length full" using assms(2) d(2) by (simp add: p_def)
    have "4096 * p < csize" using assms(5) c(1) d(1) by (simp add: p)
    from flush_sector_view [OF t(2), of "rest @ chunk" p, OF _ _ _ this]
    obtain u where u: "tls_fls_flush_sector hw t = Some u" "V u = blit (V t) (4096 * p) (rest @ chunk)"
      "ctl_only t u"
      using c s(3) by (auto simp: t_def p_def)
    let ?u = "u\<lparr>gsSector := gsSector u + 1\<rparr>"
    have "fast_chunk hw (length data mod 4096) chunk s = Some ?u"
      using s(1) c u(1) by (simp add: fast_chunk_def off t(1) t_def)
    moreover have "V ?u = blit V0 a0 (data @ chunk)"
      using u(2) by (simp add: t_def s(4) p d(1) blit_append [symmetric])
    moreover have "a0 + length (data @ chunk) = 4096 * Suc p" using p d(1) c(1) by simp
    then have "gsSector ?u = of_nat (32768 + (a0 + length (data @ chunk)) div 4096)"
      using drv_keepsD(5) [OF ctl_only_keeps [OF u(3)]] s(3) by (simp add: t_def p_def [symmetric])
    moreover have "gsflscache ?u = Some (rest @ chunk)"
      using drv_keepsD(4) [OF ctl_only_keeps [OF u(3)]] c by (simp add: t_def)
    moreover have "fls_ready csize ?u"
      using fls_ready_keeps [OF ctl_only_keeps [OF u(3)] t(2)] by (simp add: fls_ready_def)
    moreover have "4096 dvd length (data @ chunk)"
      using d(1,2) c(1) by (simp add: dvd_add)
    ultimately show ?thesis
      unfolding fast_stream_def using c(1)
      by (intro exI [of _ ?u] conjI exI [of _ "data @ chunk"] exI [of _ "[]"] exI [of _ "rest @ chunk"]) simp_all
  qed
qed

lemma fast_chunks_stream:
  assumes "fls_ready csize s" and "4096 dvd a0" and "fast_stream V0 a0 data s"
    and "length data mod 4096 = 0 \<or> bs = []" and "a0 + length (data @ bs) \<le> csize"
  shows "\<exists>s'. fast_chunks hw bs s = Some s' \<and> fast_stream V0 a0 (data @ bs) s' \<and> fls_ready csize s'"
  using assms
proof (induction hw\<equiv>hw bs s arbitrary: data rule: fast_chunks.induct)
  case (1 bs s)
  show ?case
  proof (cases "bs = []")
    case True
    then show ?thesis using "1.prems" by (simp add: fast_chunks.simps)
  next
    case False
    then have z: "length data mod 4096 = 0" using "1.prems"(4) by simp
    have fits: "a0 + length (data @ take 4096 bs) \<le> csize" using "1.prems"(5) by simp
    obtain s1 where s1: "fast_chunk hw 0 (take 4096 bs) s = Some s1"
      "fast_stream V0 a0 (data @ take 4096 bs) s1" "fls_ready csize s1"
      using fast_chunk_stream [OF "1.prems"(1-3), of "take 4096 bs"] fits z by auto
    have "length (data @ take 4096 bs) mod 4096 = 0 \<or> drop 4096 bs = []"
      using z by (auto simp: min_def mod_add_left_eq [symmetric, of "length data"])
    then have "\<exists>s'. fast_chunks hw (drop 4096 bs) s1 = Some s' \<and>
        fast_stream V0 a0 ((data @ take 4096 bs) @ drop 4096 bs) s' \<and> fls_ready csize s'"
      using s1 "1.prems"(2,5) False by (intro "1.hyps") auto
    then show ?thesis using s1(1) False by (simp add: fast_chunks.simps [of hw bs])
  qed
qed

text \<open>
  A write continues a stream when its address is where the stream ends.  The first write of a stream
  may also find \<^verbatim>\<open>gsSector\<close> still zero, as it is until the first fast write after a reset.
\<close>

definition fast_open :: "(nat \<Rightarrow> u8) \<Rightarrow> nat \<Rightarrow> u8 list \<Rightarrow> 'c fls \<Rightarrow> bool" where
  "fast_open V0 a0 data s \<longleftrightarrow> fast_stream V0 a0 data s \<or>
     data = [] \<and> gsSector s = 0 \<and> V s = V0 \<and> (\<exists>cache. gsflscache s = Some cache \<and> length cache = 4096)"

lemma fast_open_sector:
  assumes "4096 dvd a0" and "fast_open V0 a0 data s"
  defines "x \<equiv> of_nat (32768 + (a0 + length data) div 4096)"
  shows "(gsSector s = x \<or> gsSector s = 0) \<and> fast_stream V0 a0 data (s\<lparr>gsSector := x\<rparr>)"
proof (cases "fast_stream V0 a0 data s")
  case True
  then obtain full rest where d: "data = full @ rest" "4096 dvd length full" "length rest < 4096"
    and g: "gsSector s = of_nat (32768 + (a0 + length full) div 4096)"
    unfolding fast_stream_def by blast
  obtain i j where "a0 = 4096 * i" "length full = 4096 * j" using assms(1) d(2) by (auto simp: dvd_def)
  then have "(a0 + length data) div 4096 = (a0 + length full) div 4096"
    using d(1,3) by (simp add: add.assoc [symmetric] distrib_left [symmetric] del: distrib_left_numeral)
  then have "gsSector s = x" using g by (simp add: x_def)
  moreover from this have "s\<lparr>gsSector := x\<rparr> = s" by simp
  ultimately show ?thesis using True by metis
next
  case False
  then show ?thesis using assms by (auto simp: fast_open_def fast_stream_def x_def)
qed

lemma round_up: "q * 4096 + r = n \<Longrightarrow> r < 4096 \<Longrightarrow> n + (4096 - r) = (q + 1) * (4096 :: nat)"
  by (simp add: algebra_simps)

lemma tls_fls_fast_write_stream:
  assumes "fls_ready csize s" and "4096 dvd a0" and "fast_open V0 a0 data s"
    and "unat addr = 134217728 + a0 + length data" and "0 < len" and "unat len \<le> length buf"
    and "a0 + length data + unat len \<le> csize"
  shows "\<exists>s'. tls_fls_fast_write hw addr (Some buf) len s = Some (TLS_FLS_STATUS_OK, s') \<and>
    fast_stream V0 a0 (data @ take (unat len) buf) s' \<and> fls_ready csize s'"
proof -
  obtain f where f: "inside_fls s = Some f" using assms(1) by (auto simp: fls_ready_def)
  have len: "0 < unat len" using assms(5) by (simp add: word_less_nat_alt)
  have sz: "a0 + length data < csize" using len assms(7) by simp
  then have lt: "a0 + length data < 33554432" using csize_le by simp
  have "unat addr mod 2 ^ 27 = a0 + length data"
    using lt assms(4) by (simp add: mod_if)
  then have ok: "\<not> fls_bad_args addr len (Some buf = None) f"
    using fls_bad_args_iff [OF f assms(1)] sz assms(5) by auto
  have ud: "unat (addr div 0x1000) = 32768 + (a0 + length data) div 4096"
    using assms(4) by (simp add: unat_div_distrib)
  then have sec: "addr div 0x1000 = of_nat (32768 + (a0 + length data) div 4096)"
    using lt by (intro word_unat_eq_iff [THEN iffD2]) (simp add: unat_of_nat_u32 del: of_nat_add)
  obtain k where a0: "a0 = 4096 * k" using assms(2) by (auto simp: dvd_def)
  have off: "unat addr mod 4096 = length data mod 4096"
    using mod_mult_self3 [of "32768 + k" 4096 "length data"] by (simp add: assms(4) a0 algebra_simps)
  define bs where "bs = take (unat len) buf"
  define m where "m = 4096 - length data mod 4096"
  define s1 where "s1 = s\<lparr>gsSector := addr div 0x1000\<rparr>"
  have m: "0 < m" "m \<le> 4096" "length bs = unat len" using assms(6) by (simp_all add: m_def bs_def)
  have keep: "(if addr div 0x1000 \<noteq> gsSector s \<and> gsSector s \<noteq> 0 then tls_fls_flush_sector hw s else Some s) = Some s"
    and st: "fast_stream V0 a0 data s1" "fls_ready csize s1"
    using fast_open_sector [OF assms(2,3)] assms(1) sec by (auto simp: s1_def fls_ready_def)
  have tk: "length data mod 4096 + length (take m bs) \<le> 4096"
    "a0 + length (data @ take m bs) \<le> csize"
    using assms(7) m by (auto simp: m_def)
  obtain s2 where s2: "fast_chunk hw (length data mod 4096) (take m bs) s1 = Some s2"
    "fast_stream V0 a0 (data @ take m bs) s2" "fls_ready csize s2"
    using fast_chunk_stream [OF st(2) assms(2) st(1) tk] by blast
  have "length data + m = (length data div 4096 + 1) * 4096"
    unfolding m_def by (rule round_up) (simp_all only: div_mult_mod_eq mod_less_divisor zero_less_numeral)
  then have "m < length bs \<Longrightarrow> length (data @ take m bs) mod 4096 = 0"
    by (simp only: length_append length_take min.absorb2 less_imp_le mod_mult_self2_is_0)
  then have "length (data @ take m bs) mod 4096 = 0 \<or> drop m bs = []" by fastforce
  then obtain s3 where s3: "fast_chunks hw (drop m bs) s2 = Some s3"
    "fast_stream V0 a0 ((data @ take m bs) @ drop m bs) s3" "fls_ready csize s3"
    using fast_chunks_stream [OF s2(3) assms(2) s2(2), of "drop m bs"] assms(7) m(3) by auto
  have "tls_fls_fast_write hw addr (Some buf) len s = Some (TLS_FLS_STATUS_OK, s3)"
    using ok s2(1) s3(1) by (simp only: tls_fls_fast_write_def f option.case option.sel Let_def off
        bs_def [symmetric] m_def [symmetric] if_False keep s1_def [symmetric] Option.bind.simps) simp
  then show ?thesis using s3(2,3) by (simp only: append_assoc append_take_drop_id bs_def) blast
qed

lemma tls_fls_fast_write_destroy_stream:
  assumes "fls_ready csize s" and "4096 dvd a0" and "fast_stream V0 a0 data s" and "a0 + length data \<le> csize"
  defines "s' \<equiv> tls_fls_fast_write_destroy hw s"
  shows "gsflscache s' = None" and "fls_ready csize s'"
    and "a0 + length data = csize \<Longrightarrow> V s' = blit V0 a0 data"
    and "a0 + length data < csize \<Longrightarrow>
      \<exists>junk. length (data @ junk) = (length data div 4096 + 1) * 4096 \<and> V s' = blit V0 a0 (data @ junk)"
proof -
  obtain full rest junk where d: "data = full @ rest" "4096 dvd length full" "length rest < 4096"
    and s: "gsflscache s = Some (rest @ junk)" "length (rest @ junk) = 4096"
      "gsSector s = of_nat (32768 + (a0 + length full) div 4096)" "V s = blit V0 a0 full"
    using assms(3) unfolding fast_stream_def by blast
  obtain f where f: "inside_fls s = Some f" "unat (density f) = csize"
    using assms(1) by (auto simp: fls_ready_def)
  define p where "p = (a0 + length full) div 4096"
  have p: "4096 * p = a0 + length full" using assms(2) d(2) by (simp add: p_def)
  have fl: "\<exists>u. tls_fls_flush_sector hw s = Some u \<and> ctl_only s u \<and>
      V u = (if 4096 * p < csize then blit (V s) (4096 * p) (rest @ junk) else V s)"
  proof (cases "4096 * p < csize")
    case True
    then show ?thesis
      using flush_sector_view [OF assms(1) s(1,2), of p] s(3) by (auto simp: p_def)
  next
    case False
    then have "csize div 4096 \<le> p" "p \<le> 8192" using sector_index [of p] csize_le p assms(4) d(1) by auto
    then have "\<not> gsSector s < sector_limit f"
      using sector_limit_unat [OF f(2)] s(3)
      by (simp add: word_less_nat_alt p_def [symmetric] unat_of_nat_u32 del: of_nat_add)
    then show ?thesis using False f(1) by (simp add: tls_fls_flush_sector_def)
  qed
  then obtain u where u: "tls_fls_flush_sector hw s = Some u" "ctl_only s u"
    "V u = (if 4096 * p < csize then blit (V s) (4096 * p) (rest @ junk) else V s)" by blast
  have e: "s' = u\<lparr>gsflscache := None\<rparr>"
    using s(1) f(1) u(1) by (simp add: s'_def tls_fls_fast_write_destroy_def)
  show "gsflscache s' = None" by (simp add: e)
  show "fls_ready csize s'"
    using fls_ready_keeps [OF ctl_only_keeps [OF u(2)] assms(1)] by (simp add: e fls_ready_def)
  have off: "length data div 4096 * 4096 = length full" using d by (auto simp: dvd_def)
  show "V s' = blit V0 a0 data" if "a0 + length data = csize"
  proof -
    have "4096 dvd (a0 + length full) + length rest" using csize_sectors that d(1) by (simp add: add.assoc)
    then have "4096 dvd length rest" using dvd_add [OF assms(2) d(2)] by (simp only: dvd_add_right_iff)
    then have "rest = []" using d(3) by (auto dest: dvd_imp_le)
    then show ?thesis using that u(3) s(4) d(1) p by (simp add: e)
  qed
  show "\<exists>junk. length (data @ junk) = (length data div 4096 + 1) * 4096 \<and> V s' = blit V0 a0 (data @ junk)"
    if "a0 + length data < csize"
    using that u(3) s(2,4) d(1) off p by (intro exI [of _ junk]) (simp add: e blit_append [symmetric] add.assoc)
qed

section \<open>Chip erase\<close>

lemma erase_used_view:
  assumes "fls_ready csize s" and "addr mod 4096 = 0" and "addr mod 2 ^ 25 + n * 4096 \<le> csize"
  shows "V (erase_used hw n addr s) = blit (V s) (addr mod 2 ^ 25) (replicate (n * 4096) 0xFF) \<and>
    drv_keeps s (erase_used hw n addr s)"
  using assms
proof (induction n arbitrary: addr s)
  case (Suc n)
  let ?a = "addr mod 33554432"
  define r where "r = flashRead hw addr True 4096 s"
  define u where "u = (if \<exists>b \<in> set (fst r). b \<noteq> 0xFF then eraseSector hw (of_nat addr) (snd r) else snd r)"
  have r: "fst r = span (V s) ?a 4096" "V (snd r) = V s" "drv_keeps s (snd r)"
    using flashRead_ok [of 4096 addr s True] Suc.prems(1,3) by (simp_all add: r_def fls_ready_def)
  have a4: "4096 * (?a div 4096) = ?a"
    using Suc.prems(2) by (simp add: mod_mod_cancel minus_mod_eq_mult_div [symmetric])
  have u: "V u = blit (V s) ?a (replicate 4096 0xFF)" "drv_keeps s u"
  proof -
    show "drv_keeps s u" using r(3) ctl_only_keeps [OF ctl_only_eraseSector] by (auto simp: u_def intro: drv_keeps_trans)
    have "V (eraseSector hw (of_nat addr) (snd r)) = blit (V s) ?a (replicate 4096 0xFF)"
      using eraseSector_view [of "of_nat addr" "snd r"] Suc.prems(3) a4 r(2) by (simp add: of_nat_mod_25)
    moreover have "blit (V s) ?a (replicate 4096 0xFF) = V s" if "\<forall>b \<in> set (span (V s) ?a 4096). b = 0xFF"
      using that by (metis blit_own length_span replicate_length_same)
    ultimately show "V u = blit (V s) ?a (replicate 4096 0xFF)" using r by (auto simp: u_def)
  qed
  have e: "erase_used hw (Suc n) addr s = erase_used hw n (addr + 4096) u"
    by (simp add: u_def r_def split_beta Let_def)
  show ?case
  proof (cases n)
    case 0
    then show ?thesis unfolding e using u by simp
  next
    case (Suc m)
    then have a: "(addr + 4096) mod 2 ^ 25 = ?a + 4096"
      using add_mod_25 [of addr "Suc n * 4096" 4096] Suc.prems by simp
    have "V (erase_used hw n (addr + 4096) u) = blit (V u) ((addr + 4096) mod 2 ^ 25) (replicate (n * 4096) 0xFF) \<and>
        drv_keeps u (erase_used hw n (addr + 4096) u)"
      using Suc.prems(2,3) fls_ready_keeps [OF u(2) Suc.prems(1)] unfolding a
      by (intro Suc.IH [of u "addr + 4096", unfolded a]) simp_all
    moreover have "blit (V u) (?a + 4096) (replicate (n * 4096) 0xFF) =
        blit (V s) ?a (replicate 4096 0xFF @ replicate (n * 4096) 0xFF)"
      unfolding blit_append u(1) by simp
    ultimately show ?thesis
      unfolding e a using u(2) by (auto simp: replicate_add intro: drv_keeps_trans)
  qed
qed simp

lemma tls_fls_chip_erase_ok:
  assumes "fls_ready csize s" and "0x2000 \<le> csize"
  shows "\<exists>s'. tls_fls_chip_erase hw True s = (TLS_FLS_STATUS_OK, s') \<and>
    V s' = blit (V s) 0x2000 (replicate (csize - 0x2000) 0xFF) \<and> drv_keeps s s'"
proof -
  obtain f where f: "inside_fls s = Some f" "unat (density f) = csize"
    using assms(1) by (auto simp: fls_ready_def)
  have "unat (density f - 0x2000) = csize - 8192"
    using assms(2) f(2) by (simp add: unat_sub word_le_nat_alt)
  then have n: "unat ((density f - 0x2000) div 0x1000) = (csize - 8192) div 4096"
    by (simp add: unat_div_distrib)
  obtain k where k: "csize = 4096 * k" using csize_sectors by (auto simp: dvd_def)
  have c: "(csize - 8192) div 4096 * 4096 = csize - 8192"
    using assms(2) diff_mult_distrib2 [of 4096 k 2] by (simp add: k)
  have "V (erase_used hw ((csize - 8192) div 4096) 0x8002000 s) =
      blit (V s) 0x2000 (replicate ((csize - 8192) div 4096 * 4096) 0xFF) \<and>
      drv_keeps s (erase_used hw ((csize - 8192) div 4096) 0x8002000 s)"
    using erase_used_view [OF assms(1), where addr = "0x8002000" and n = "(csize - 8192) div 4096"] c assms(2) by simp
  then show ?thesis using f(1) n c by (simp add: tls_fls_chip_erase_def)
qed

section \<open>Initialisation\<close>

lemma id_density: "drop_bit 16 (get32 w 0 AND 0xFFFFFF) AND 0xFF = (ucast (w ! 2) :: u32)"
proof -
  have m: "(0xFFFFFF :: u32) = mask 24" "(0xFF :: u32) = mask 8" by (simp_all add: mask_eq_exp_minus_1)
  show ?thesis
    unfolding m get32_def
    by (rule bit_word_eqI)
      (auto simp: bit_and_iff bit_or_iff bit_push_bit_iff bit_ucast_iff bit_drop_bit_eq bit_mask_iff
        numeral_2_eq_2 dest: bit_imp_le_length)
qed

lemma window_flash_start: "window (flash_start hw cmd s) = fst (hw cmd (flash_addr s) (window s) (chip s))"
  by (simp add: flash_start_def split_beta)

lemma getFlashDensity_ok:
  shows "unat (fst (getFlashDensity hw s)) = csize" and "V (snd (getFlashDensity hw s)) = V s"
    and "ctl_only s (snd (getFlashDensity hw s))"
proof -
  let ?w = "fst (hw 0x2c09F (flash_addr s) (window s) (chip s))"
  define d where "d = unat (?w ! 2)"
  have c: "csize = 2 ^ d" using chip_id(2) [of "flash_addr s" "window s" "chip s"] by (simp add: d_def)
  have d: "d \<le> 25" using csize_le unfolding c by (simp only: power_increasing_iff one_less_numeral_iff rel_simps)
  have "d \<noteq> 0" using csize_sectors by (cases d) (auto simp: c)
  have u: "unat (ucast (?w ! 2) :: u32) = d" 
    using unsigned_less [where 'a = nat and w = "?w ! 2"] by (simp add: d_def unsigned_ucast_eq take_bit_eq_mod)
  have "ucast (?w ! 2) \<noteq> (0 :: u32)" "ucast (?w ! 2) \<le> (0x21 :: u32)"
    using u d \<open>d \<noteq> 0\<close> by (metis unat_0) (simp add: word_le_nat_alt u order_trans [OF d])
  moreover have "unat (push_bit d 1 :: u32) = 2 ^ d"
  proof -
    have "(2 :: nat) ^ d < 2 ^ 32" using d by (intro power_strict_increasing) simp_all
    from unat_of_nat_u32 [OF this] show ?thesis by (simp add: push_bit_eq_mult)
  qed
  ultimately show "unat (fst (getFlashDensity hw s)) = csize"
    unfolding getFlashDensity_def Let_def fst_conv read_first_value_def window_flash_start id_density u c by simp
  show "V (snd (getFlashDensity hw s)) = V s" "ctl_only s (snd (getFlashDensity hw s))"
    by (simp_all add: getFlashDensity_def Let_def)
      (simp add: flash_start_def split_beta chip_id(3))
qed

lemma id_manufacturer: "ucast (get32 w 0 AND 0xFF) = w ! 0"
proof -
  have m: "(0xFF :: u32) = mask 8" by (simp add: mask_eq_exp_minus_1)
  show ?thesis
    unfolding m get32_def
    by (rule bit_word_eqI)
      (auto simp: bit_and_iff bit_or_iff bit_push_bit_iff bit_ucast_iff bit_mask_iff dest: bit_imp_le_length)
qed

text \<open>
  The first byte of the identification selects the driver's support: for the manufacturers of its table it is installed and ready for the
  operations above, for all others it stays uninstalled.
\<close>

lemma tls_fls_init_ok:
  assumes "inside_fls s = None" and "cache_aligned s" and "length (fls_cache s) = 4096"
  defines "mid \<equiv> fst (hw 0x2c09F (flash_addr s) (window s) (chip s)) ! 0"
  shows "\<exists>s'. V s' = V s \<and>
    (if mid \<in> known_mids
     then tls_fls_init hw True True s = (TLS_FLS_STATUS_OK, s') \<and> fls_ready csize s' \<and>
       (\<exists>f. inside_fls s' = Some f \<and> flashid f = mid \<and> unat (density f) = csize \<and> otp_erase_size mid (density f) = Some (eraseSize f))
     else tls_fls_init hw True True s = (TLS_FLS_STATUS_ENOSUPPORT, s') \<and> inside_fls s' = None)"
proof -
  obtain s1 where r: "readRID hw s = (mid, s1)" "s1 = flash_start hw 0x2c09F s"
    by (simp add: readRID_def Let_def read_first_value_def window_flash_start id_manufacturer mid_def)
  obtain dens s2 where g: "getFlashDensity hw s1 = (dens, s2)" by fastforce
  have s1: "V s1 = V s" "ctl_only s s1"
    unfolding r(2) by (simp_all add: chip_id(3)) (simp add: flash_start_def split_beta chip_id(3))
  have d: "unat dens = csize" "V s2 = V s1" "ctl_only s1 s2" using getFlashDensity_ok [of s1] g by simp_all
  have k: "drv_keeps s s2" using s1(2) d(3) ctl_only_keeps drv_keeps_trans by blast
  show ?thesis
  proof (cases "otp_erase_size mid dens")
    case None
    then show ?thesis using assms(1) s1 d r(1) g drv_keepsD(1) [OF k] known_mids_iff [of mid dens]
      by (intro exI [of _ s2]) (simp add: tls_fls_init_def)
  next
    case (Some er)
    let ?s = "s2\<lparr>inside_fls := Some \<lparr>flashid = mid, density = dens, eraseSize = er, pageSize = 256\<rparr>\<rparr>"
    have "fls_ready csize ?s"
      using assms(2,3) drv_keepsD [OF k] d(1) by (simp add: fls_ready_def)
    then show ?thesis using Some assms(1) s1 d(1,2) r(1) g known_mids_iff [of mid dens]
      by (intro exI [of _ ?s]) (simp add: tls_fls_init_def)
  qed
qed

end

end
