(* ===== verification/Nor_Chip.thy ===== *)
theory Nor_Chip
  imports Internal_Flash_Fast
begin

text \<open>
  A reference NOR chip of 8 MiB and the properties of the internal flash driver.

  The chip keeps its contents and the write enable latch, decodes the command words of the controller
  (opcode, flags and a ten bit transfer count) and satisfies the laws of \<open>nor_flash\<close>, so every fact
  of that locale is about behaviour a real part can have.
\<close>

section \<open>The reference chip\<close>

type_synonym nor = "(nat \<Rightarrow> u8) \<times> bool"

definition cmd_op :: "u32 \<Rightarrow> u32" where
  "cmd_op cmd = cmd AND 0xFC00FFFF"

definition cmd_count :: "u32 \<Rightarrow> nat" where
  "cmd_count cmd = unat (drop_bit 16 cmd AND 0x3FF) + 1"

definition nor_exec :: "nor hw" where
  "nor_exec cmd a w c =
     (let m = fst c; n = cmd_count cmd in
      if cmd = 0x6 then (w, (m, True))
      else if cmd = 0x80000820 then
        (w, if snd c then (blit m (4096 * (unat a div 4096)) (replicate 4096 0xFF), False) else c)
      else if cmd = 0x2c09F then ([0xC8, 0x40, 23, 0] @ drop 4 w, c)
      else if cmd_op cmd = 0x80009002 then
        (w, if snd c then (blit m (unat a) (map2 (AND) (span m (unat a) n) (take n w)), False) else c)
      else if cmd_op cmd \<in> {0xEC00C0EB, 0xB400C00B, 0xBC00C00B} then (span m (unat a) n @ drop n w, c)
      else (w, c))"

lemma cmd_field:
  assumes "m < 1024"
  shows "cmd_op (k OR push_bit 16 (of_nat m)) = cmd_op k"
    and "k AND 0x3FF0000 = 0 \<Longrightarrow> cmd_count (k OR push_bit 16 (of_nat m)) = m + 1"
proof -
  define f :: u32 where "f = of_nat m"
  have f: "unat f = m" using assms by (simp add: f_def unat_of_nat_u32)
  have "f AND mask 10 = f" using assms by (intro word_unat_eq_iff [THEN iffD2]) (simp add: unat_and_mask f)
  then have fb: "bit f i \<Longrightarrow> i < 10" for i by (metis bit_and_iff bit_mask_iff)
  have m1: "(0xFC00FFFF :: u32) = NOT (push_bit 16 (mask 10))" "(0x3FF0000 :: u32) = push_bit 16 (mask 10)"
    "(0x3FF :: u32) = mask 10"
    by (simp_all add: mask_eq_exp_minus_1 push_bit_eq_mult)
  show "cmd_op (k OR push_bit 16 (of_nat m)) = cmd_op k"
    unfolding cmd_op_def m1 f_def [symmetric]
    by (rule bit_word_eqI) (auto simp: bit_and_iff bit_or_iff bit_not_iff bit_push_bit_iff bit_mask_iff dest: fb)
  assume "k AND 0x3FF0000 = 0"
  then have nb: "\<not> bit (k AND push_bit 16 (mask 10)) (16 + i)" for i unfolding m1 by simp
  have kb: "\<not> (bit k (16 + i) \<and> i < 10)" for i
    using nb [of i] by (auto simp: bit_and_iff bit_push_bit_iff bit_mask_iff)
  have "drop_bit 16 (k OR push_bit 16 f) AND mask 10 = f"
    using kb by (intro bit_word_eqI)
      (auto simp: bit_and_iff bit_or_iff bit_drop_bit_eq bit_push_bit_iff bit_mask_iff dest: fb bit_imp_le_length)
  then show "cmd_count (k OR push_bit 16 (of_nat m)) = m + 1"
    unfolding cmd_count_def m1 f_def [symmetric] by (simp add: f)
qed

lemma nor_exec_program:
  assumes "0 < n" and "n \<le> 1024"
  shows "nor_exec (0x80009002 OR push_bit 16 (of_nat (n - 1))) a w c =
    (w, if snd c then (blit (fst c) (unat a) (map2 (AND) (span (fst c) (unat a) n) (take n w)), False) else c)"
proof -
  let ?k = "0x80009002 OR push_bit 16 (of_nat (n - 1)) :: u32"
  have o: "cmd_op ?k = 0x80009002" "cmd_count ?k = n"
    using cmd_field [of "n - 1" "0x80009002"] assms by (simp_all add: cmd_op_def)
  then have "?k \<noteq> 0x6" "?k \<noteq> 0x80000820" "?k \<noteq> 0x2c09F" by (auto simp: cmd_op_def)
  then show ?thesis using o by (simp add: nor_exec_def Let_def)
qed

lemma nor_exec_read:
  assumes "k \<in> {0xEC00C0EB, 0xB400C00B, 0xBC00C00B}" and "0 < n" and "n \<le> 1024"
  shows "nor_exec (k OR push_bit 16 (of_nat (n - 1))) a w c = (span (fst c) (unat a) n @ drop n w, c)"
proof -
  let ?k = "k OR push_bit 16 (of_nat (n - 1)) :: u32"
  have "k AND 0x3FF0000 = 0" "cmd_op k = k" using assms(1) by (auto simp: cmd_op_def)
  then have o: "cmd_op ?k = k" "cmd_count ?k = n" using cmd_field [of "n - 1" k] assms(2,3) by simp_all
  then have "?k \<noteq> 0x6" "?k \<noteq> 0x80000820" "?k \<noteq> 0x2c09F" "k \<noteq> 0x80009002"
    using assms(1) by (auto simp: cmd_op_def)
  then show ?thesis using o assms(1) by (simp add: nor_exec_def Let_def)
qed

lemma nor_exec_simple:
  "nor_exec 0x6 a w c = (w, (fst c, True))"
  "nor_exec 0x80000820 a w c =
     (w, if snd c then (blit (fst c) (4096 * (unat a div 4096)) (replicate 4096 0xFF), False) else c)"
  "nor_exec 0x2c09F a w c = ([0xC8, 0x40, 23, 0] @ drop 4 w, c)"
  by (simp_all add: nor_exec_def Let_def)

interpretation nor: nor_flash nor_exec fst snd "2 ^ 23"
  by unfold_locales (simp_all add: nor_exec_simple nor_exec_program nor_exec_read del: of_nat_diff insert_iff One_nat_def)

text \<open>A driver on that chip, just initialised, with the flash erased.\<close>

definition demo_fls :: "nor fls" where
  "demo_fls = \<lparr>inside_fls = Some \<lparr>flashid = 0xC8, density = 0x800000, eraseSize = 1024, pageSize = 256\<rparr>,
     fls_cache = replicate 4096 0, cache_aligned = True, gsflscache = None, gsSector = 0, flash_cr = 1,
     flash_addr = 0, window = replicate 1024 0, chip = (\<lambda>_. 0xFF, False)\<rparr>"

lemma demo_ready: "fls_ready (2 ^ 23) demo_fls"
  by (simp add: fls_ready_def demo_fls_def)

section \<open>Properties of the driver\<close>

text \<open>
  C1.  \<^verbatim>\<open>tls_fls_write\<close> of a range inside the chip succeeds and changes exactly that range: afterwards the
  chip holds the caller's bytes at the address and its old contents everywhere else, although the
  driver erases and reprograms whole sectors.  The driver stays ready.
\<close>

theorem fls_write_exact:
  assumes "nor_flash hw view wel csize" and "fls_ready csize s" and "0 < len"
    and "unat addr mod 2 ^ 27 + unat len \<le> csize" and "unat len \<le> length buf"
  shows "\<exists>s'. tls_fls_write hw addr (Some buf) len s = (TLS_FLS_STATUS_OK, s') \<and> fls_ready csize s' \<and>
    view (chip s') = blit (view (chip s)) (unat addr mod 2 ^ 27) (take (unat len) buf)"
  using nor_flash.tls_fls_write_ok [OF assms] fls_ready_keeps [OF _ assms(2)] by blast

theorem fls_write_exact_witness:
  "\<exists>s'. tls_fls_write nor_exec 0x8000FFE (Some [1, 2, 3]) 3 demo_fls = (TLS_FLS_STATUS_OK, s') \<and>
     fls_ready (2 ^ 23) s' \<and> fst (chip s') = blit (fst (chip demo_fls)) 0xFFE [1, 2, 3]"
  using fls_write_exact [OF nor.nor_flash_axioms demo_ready, of 3 "0x8000FFE" "[1, 2, 3]"] by simp

text \<open>
  C2.  What \<^verbatim>\<open>tls_fls_write\<close> stored, \<^verbatim>\<open>tls_fls_read\<close> returns, for every length and for every alignment of the
  address and of the destination buffer (the direct and the page-cached read path).
\<close>

theorem fls_write_read:
  assumes "nor_flash hw view wel csize" and "fls_ready csize s" and "0 < len"
    and "unat addr mod 2 ^ 27 + unat len \<le> csize" and "unat len \<le> length buf"
  shows "\<exists>s'. tls_fls_read hw addr (Some al) len (snd (tls_fls_write hw addr (Some buf) len s)) =
    (TLS_FLS_STATUS_OK, take (unat len) buf, s')"
proof -
  obtain s1 where s1: "tls_fls_write hw addr (Some buf) len s = (TLS_FLS_STATUS_OK, s1)" "drv_keeps s s1"
    "view (chip s1) = blit (view (chip s)) (unat addr mod 2 ^ 27) (take (unat len) buf)"
    using nor_flash.tls_fls_write_ok [OF assms] by blast
  show ?thesis
    using nor_flash.tls_fls_read_ok [OF assms(1) fls_ready_keeps [OF s1(2) assms(2)] assms(3,4), of al] s1 assms(5)
    by auto
qed

theorem fls_write_read_witness:
  "\<exists>s'. tls_fls_read nor_exec 0x8000FFE (Some False) 3 (snd (tls_fls_write nor_exec 0x8000FFE (Some [1, 2, 3]) 3 demo_fls)) =
     (TLS_FLS_STATUS_OK, [1, 2, 3], s')"
  using fls_write_read [OF nor.nor_flash_axioms demo_ready, of 3 "0x8000FFE" "[1, 2, 3]" False] by simp

text \<open>
  \<^verbatim>\<open>tls_fls_read\<close> of a range inside the chip returns exactly the stored bytes, whichever of its paths
  (direct transfers of a kilobyte or a page, or page by page through \<^verbatim>\<open>tls_fls_cache\<close>) it takes, and
  leaves the chip as it was.
\<close>

lemma fls_read_contents:
  assumes "nor_flash hw view wel csize" and "fls_ready csize s" and "0 < len"
    and "unat addr mod 2 ^ 27 + unat len \<le> csize"
  shows "\<exists>s'. tls_fls_read hw addr (Some al) len s =
      (TLS_FLS_STATUS_OK, span (view (chip s)) (unat addr mod 2 ^ 27) (unat len), s') \<and>
    view (chip s') = view (chip s) \<and> fls_ready csize s'"
  using nor_flash.tls_fls_read_ok [OF assms, of al] fls_ready_keeps [OF _ assms(2)] by blast

lemma fls_read_contents_example:
  "\<exists>s'. tls_fls_read nor_exec 0x80000F1 (Some False) 600 demo_fls =
      (TLS_FLS_STATUS_OK, span (fst (chip demo_fls)) 0xF1 600, s') \<and>
    fst (chip s') = fst (chip demo_fls) \<and> fls_ready (2 ^ 23) s'"
  using fls_read_contents [OF nor.nor_flash_axioms demo_ready, of 600 "0x80000F1" False] by simp

text \<open>
  \<^verbatim>\<open>tls_fls_erase\<close> sets the 4 KiB of the named sector to \<^verbatim>\<open>0xFF\<close> and nothing else.  The address
  register has 25 bits, so the sector number counts modulo 8192: numbers with and without the flash
  base address name the same sector.
\<close>

lemma fls_erase_sector:
  assumes "nor_flash hw view wel csize" and "fls_ready csize s"
    and "unat sector < 32768 + csize div 4096" and "unat sector mod 8192 < csize div 4096"
  shows "\<exists>s'. tls_fls_erase hw sector s = (TLS_FLS_STATUS_OK, s') \<and> fls_ready csize s' \<and>
    view (chip s') = blit (view (chip s)) (4096 * (unat sector mod 8192)) (replicate 4096 0xFF)"
  using nor_flash.tls_fls_erase_ok [OF assms] fls_ready_keeps [OF ctl_only_keeps assms(2)] by blast

lemma fls_erase_sector_example:
  "\<exists>s'. tls_fls_erase nor_exec 0x87E0 demo_fls = (TLS_FLS_STATUS_OK, s') \<and> fls_ready (2 ^ 23) s' \<and>
    fst (chip s') = blit (fst (chip demo_fls)) 0x7E0000 (replicate 4096 0xFF)"
  using fls_erase_sector [OF nor.nor_flash_axioms demo_ready, of "0x87E0"] by simp

text \<open>The writes of a session.\<close>

fun fast_writes :: "'c hw \<Rightarrow> nat \<Rightarrow> u8 list list \<Rightarrow> 'c fls \<Rightarrow> 'c fls option" where
  "fast_writes hw addr [] s = Some s"
| "fast_writes hw addr (b # bs) s =
     (case tls_fls_fast_write hw (of_nat addr) (Some b) (of_nat (length b)) s of
        None \<Rightarrow> None
      | Some (r, s') \<Rightarrow> if r = TLS_FLS_STATUS_OK then fast_writes hw (addr + length b) bs s' else None)"

lemma fast_writes_stream:
  assumes "nor_flash hw view wel csize" and "fls_ready csize s" and "4096 dvd a0"
    and "nor_flash.fast_open view V0 a0 data s" and "\<forall>b \<in> set bufs. b \<noteq> []"
    and "a0 + length data + length (concat bufs) \<le> csize"
  shows "\<exists>s'. fast_writes hw (134217728 + a0 + length data) bufs s = Some s' \<and>
    nor_flash.fast_open view V0 a0 (data @ concat bufs) s' \<and> fls_ready csize s' \<and>
    (bufs \<noteq> [] \<longrightarrow> nor_flash.fast_stream view V0 a0 (data @ concat bufs) s')"
  using assms(2-)
proof (induction bufs arbitrary: data s)
  case (Cons b bufs)
  let ?a = "134217728 + a0 + length data"
  have sz: "a0 + length data + length b \<le> 2 ^ 25" "0 < length b"
    using Cons.prems nor_flash.csize_le [OF assms(1)] by auto
  then have u: "unat (of_nat ?a :: u32) = ?a" "unat (of_nat (length b) :: u32) = length b"
    by (simp_all add: unat_of_nat_u32 del: of_nat_add)
  have pos: "0 < (of_nat (length b) :: u32)" using u sz(2) by (simp only: word_less_nat_alt) simp
  obtain s1 where s1: "tls_fls_fast_write hw (of_nat ?a) (Some b) (of_nat (length b)) s = Some (TLS_FLS_STATUS_OK, s1)"
    "nor_flash.fast_stream view V0 a0 (data @ b) s1" "fls_ready csize s1"
    using nor_flash.tls_fls_fast_write_stream [OF assms(1) Cons.prems(1-3), of "of_nat ?a" "of_nat (length b)" b]
      u pos Cons.prems(5) by auto
  have op: "nor_flash.fast_open view V0 a0 (data @ b) s1"
    using s1(2) nor_flash.fast_open_def [OF assms(1)] by blast
  show ?case
    using Cons.IH [OF s1(3) Cons.prems(2) op] Cons.prems(4,5) s1 by (cases bufs) (auto simp: add.assoc)
qed auto

text \<open>
  C5.  A fast-write session: \<^verbatim>\<open>tls_fls_fast_write_init\<close>, any sequence of non-empty \<^verbatim>\<open>tls_fls_fast_write\<close>s at
  consecutive addresses from a sector boundary, \<^verbatim>\<open>tls_fls_fast_write_destroy\<close>.  As the first session
  after a reset (\<^verbatim>\<open>gsSector\<close> is 0) it stores the concatenation of the buffers at the start address.  Behind the stream it overwrites the rest
  of the sector the stream ends in; a stream that ends on a sector boundary before the end of the chip costs the whole next
  sector.  Nothing else changes.
\<close>

theorem fls_fast_session:
  assumes "nor_flash hw view wel csize" and "fls_ready csize s" and "gsflscache s = None" and "gsSector s = 0"
    and "length block = 4096" and "4096 dvd a0" and "bufs \<noteq> []" and "\<forall>b \<in> set bufs. b \<noteq> []"
    and "a0 + length (concat bufs) \<le> csize"
  shows "\<exists>s1 s2 junk. tls_fls_fast_write_init (Some block) s = (TLS_FLS_STATUS_OK, s1) \<and>
    fast_writes hw (134217728 + a0) bufs s1 = Some s2 \<and>
    view (chip (tls_fls_fast_write_destroy hw s2)) = blit (view (chip s)) a0 (concat bufs @ junk) \<and>
    length junk = (if a0 + length (concat bufs) = csize then 0 else 4096 - length (concat bufs) mod 4096)"
proof -
  define s1 where "s1 = s\<lparr>gsflscache := Some block\<rparr>"
  have s1: "tls_fls_fast_write_init (Some block) s = (TLS_FLS_STATUS_OK, s1)" "fls_ready csize s1"
    "nor_flash.fast_open view (view (chip s)) a0 [] s1"
    using assms nor_flash.fast_open_def [OF assms(1)]
    by (auto simp: s1_def fls_ready_def tls_fls_fast_write_init_def)
  obtain s2 where s2: "fast_writes hw (134217728 + a0) bufs s1 = Some s2" "fls_ready csize s2"
    "nor_flash.fast_stream view (view (chip s)) a0 (concat bufs) s2"
    using fast_writes_stream [OF assms(1) s1(2) assms(6) s1(3) assms(8)] assms(7,9) by auto
  note d = nor_flash.tls_fls_fast_write_destroy_stream [OF assms(1) s2(2) assms(6) s2(3) assms(9)]
  let ?v = "view (chip (tls_fls_fast_write_destroy hw s2))" and ?d = "concat bufs"
  have "\<exists>junk. ?v = blit (view (chip s)) a0 (?d @ junk) \<and> length junk = (if a0 + length ?d = csize then 0 else 4096 - length ?d mod 4096)"
  proof (cases "a0 + length ?d = csize")
    case True
    then show ?thesis using d(3) by (intro exI [of _ "[]"]) simp
  next
    case False
    then obtain junk where j: "length (?d @ junk) = (length ?d div 4096 + 1) * 4096" "?v = blit (view (chip s)) a0 (?d @ junk)"
      using d(4) assms(9) by fastforce
    have "length ?d + length junk = length ?d div 4096 * 4096 + 4096" using j(1) by simp
    then have "length junk = 4096 - length ?d mod 4096" using div_mult_mod_eq [of "length ?d" 4096] by linarith
    then show ?thesis using j(2) False by auto
  qed
  then show ?thesis using s1(1) s2(1) by blast
qed

lemma demo_fields: "gsflscache demo_fls = None" "gsSector demo_fls = 0" "inside_fls demo_fls \<noteq> None"
  by (simp_all add: demo_fls_def)

theorem fls_fast_session_witness:
  "\<exists>s1 s2 junk. tls_fls_fast_write_init (Some (replicate 4096 7)) demo_fls = (TLS_FLS_STATUS_OK, s1) \<and>
    fast_writes nor_exec (134217728 + 65536) [[1, 2, 3], [4, 5]] s1 = Some s2 \<and>
    fst (chip (tls_fls_fast_write_destroy nor_exec s2)) = blit (fst (chip demo_fls)) 65536 ([1, 2, 3, 4, 5] @ junk) \<and>
    length junk = 4091"
proof -
  have "length (replicate 4096 (7 :: u8)) = 4096" "4096 dvd (65536 :: nat)" "[[1, 2, 3], [4, 5]] \<noteq> ([] :: u8 list list)"
    "\<forall>b \<in> set [[1, 2, 3], [4, 5 :: u8]]. b \<noteq> []" "65536 + length (concat [[1, 2, 3], [4, 5 :: u8]]) \<le> 2 ^ 23"
    by simp_all
  from fls_fast_session [OF nor.nor_flash_axioms demo_ready demo_fields(1,2) this] show ?thesis by simp
qed

text \<open>
  C9.  \<^verbatim>\<open>tls_fls_chip_erase\<close> on a chip with room for the secure boot area, when its buffer can be allocated, returns OK and leaves every
  byte above the first 8 KiB erased, although it skips sectors that are already blank; it keeps the first 8 KiB.
\<close>

theorem fls_chip_erase_all:
  assumes "nor_flash hw view wel csize" and "fls_ready csize s" and "0x2000 \<le> csize"
  shows "\<exists>s'. tls_fls_chip_erase hw True s = (TLS_FLS_STATUS_OK, s') \<and> fls_ready csize s' \<and>
    view (chip s') = blit (view (chip s)) 0x2000 (replicate (csize - 0x2000) 0xFF)"
  using nor_flash.tls_fls_chip_erase_ok [OF assms] fls_ready_keeps [OF _ assms(2)] by blast

theorem fls_chip_erase_all_witness:
  "\<exists>s'. tls_fls_chip_erase nor_exec True demo_fls = (TLS_FLS_STATUS_OK, s') \<and> fls_ready (2 ^ 23) s' \<and>
    fst (chip s') = blit (fst (chip demo_fls)) 0x2000 (replicate (2 ^ 23 - 0x2000) 0xFF)"
  using fls_chip_erase_all [OF nor.nor_flash_axioms demo_ready] by simp

text \<open>
  C7.  \<^verbatim>\<open>tls_fls_init\<close> on an uninstalled driver reads the identification of the chip.  When the manufacturer, its first byte, is one of
  the ten of the driver's table, the driver is installed with the manufacturer, the capacity of the chip and the erase size of its
  security registers, and is ready for every operation above; for any other manufacturer it returns \<^verbatim>\<open>TLS_FLS_STATUS_ENOSUPPORT\<close>
  and stays uninstalled.  The chip is not modified.
\<close>

theorem fls_init_ready:
  assumes "nor_flash hw view wel csize" and "inside_fls s = None" and "cache_aligned s"
    and "length (fls_cache s) = 4096" and "mid = fst (hw 0x2c09F (flash_addr s) (window s) (chip s)) ! 0"
  shows "\<exists>s'. view (chip s') = view (chip s) \<and>
    (if mid \<in> {0xC8, 0x1C, 0x85, 0xEF, 0xA1, 0x68, 0x20, 0x0B, 0xEB, 0xCD}
     then tls_fls_init hw True True s = (TLS_FLS_STATUS_OK, s') \<and> fls_ready csize s' \<and>
       (\<exists>f. inside_fls s' = Some f \<and> flashid f = mid \<and> unat (density f) = csize \<and> otp_erase_size mid (density f) = Some (eraseSize f))
     else tls_fls_init hw True True s = (TLS_FLS_STATUS_ENOSUPPORT, s') \<and> inside_fls s' = None)"
proof -
  have m: "mid \<in> {0xC8, 0x1C, 0x85, 0xEF, 0xA1, 0x68, 0x20, 0x0B, 0xEB, 0xCD} \<longleftrightarrow> mid \<in> known_mids"
    by (auto simp: known_mids_def)
  show ?thesis unfolding m using nor_flash.tls_fls_init_ok [OF assms(1-4)] unfolding assms(5) [symmetric] .
qed

theorem fls_init_ready_witness:
  "\<exists>s' f. tls_fls_init nor_exec True True (demo_fls\<lparr>inside_fls := None\<rparr>) = (TLS_FLS_STATUS_OK, s') \<and> fls_ready (2 ^ 23) s' \<and>
     fst (chip s') = fst (chip demo_fls) \<and> inside_fls s' = Some f \<and> flashid f = 0xC8 \<and> unat (density f) = 2 ^ 23 \<and> eraseSize f = 1024"
proof -
  define s where "s = demo_fls\<lparr>inside_fls := None\<rparr>"
  have s: "inside_fls s = None" "cache_aligned s" "length (fls_cache s) = 4096" "chip s = chip demo_fls"
    by (simp_all add: s_def demo_fls_def)
  have "0xC8 = fst (nor_exec 0x2c09F (flash_addr s) (window s) (chip s)) ! 0" by (simp add: nor_exec_simple)
  from fls_init_ready [OF nor.nor_flash_axioms s(1-3) this] obtain s' f where
    f: "tls_fls_init nor_exec True True s = (TLS_FLS_STATUS_OK, s')" "fls_ready (2 ^ 23) s'" "fst (chip s') = fst (chip s)"
      "inside_fls s' = Some f" "flashid f = 0xC8" "unat (density f) = 2 ^ 23" "otp_erase_size 0xC8 (density f) = Some (eraseSize f)"
    by auto
  moreover have "eraseSize f = 1024" using f(7) by (simp add: otp_erase_size_def)
  ultimately show ?thesis unfolding s_def [symmetric] s(4) [symmetric] by blast
qed

text \<open>
  \<^verbatim>\<open>tls_fls_sys_param_postion_init\<close> on a ready driver places the six system sectors (mesh and default
  parameters, the two parameter copies, the restore copy, the OTA flag) in the last 24 KiB of the chip,
  in ascending order without overlap, for every chip of at least 64 KiB.
\<close>

definition sys_sectors :: "flash_layout \<Rightarrow> u32 list" where
  "sys_sectors l = [FLASH_MESH_PARAM_ADDR l, FLASH_PARAM_DEFAULT l, FLASH_PARAM1_ADDR l, FLASH_PARAM2_ADDR l,
     FLASH_PARAM_RESTORE_ADDR l, FLASH_OTA_FLAG_ADDR l]"

lemma or_base:
  assumes "k \<le> 25"
  shows "unat ((0x8000000 :: u32) OR 2 ^ k) = 134217728 + 2 ^ k"
proof -
  have d: "(0x8000000 :: u32) AND 2 ^ k = 0"
  proof (rule bit_word_eqI)
    fix n
    have "(0x8000000 :: u32) = 2 ^ 27" by simp
    then show "bit ((0x8000000 :: u32) AND 2 ^ k) n = bit (0 :: u32) n"
      using assms by (simp only: bit_and_iff bit_exp_iff bit_0_eq) auto
  qed
  have "(2 :: nat) ^ k \<le> 2 ^ 25" using assms by (intro power_increasing) simp_all
  then have u: "unat ((2 :: u32) ^ k) = 2 ^ k"
    using unat_of_nat_u32 [of "2 ^ k"] by simp
  have "(0x8000000 :: u32) OR 2 ^ k = 0x8000000 + 2 ^ k"
    using word_plus_and_or [of "0x8000000 :: u32" "2 ^ k"] by (simp only: d add_0)
  then show ?thesis using u \<open>2 ^ k \<le> 2 ^ 25\<close> by (simp add: unat_word_ariths)
qed

lemma layout_sub:
  assumes "n < 2 ^ 32" and "n \<le> unat (w :: u32)"
  shows "unat (w - of_nat n) = unat w - n"
proof -
  have "of_nat n \<le> w" using assms by (simp add: word_le_nat_alt unat_of_nat_u32)
  from unat_sub [OF this] show ?thesis using assms(1) by (simp add: unat_of_nat_u32)
qed

lemma fls_layout:
  fixes l :: flash_layout
  assumes "nor_flash hw view wel csize" and "fls_ready csize s" and "0x10000 \<le> csize"
  defines "l' \<equiv> tls_fls_sys_param_postion_init s l"
  shows "map unat (sys_sectors l') = map (\<lambda>i. 134217728 + csize - 0x6000 + i * 4096) [0..<6] \<and>
    unat (FLASH_END_ADDR l') = 134217728 + csize - 1"
proof -
  obtain f where f: "inside_fls s = Some f" "unat (density f) = csize"
    using assms(2) by (auto simp: fls_ready_def)
  obtain k where k: "csize = 2 ^ k" using nor_flash.chip_id(2) [OF assms(1)] by blast
  have k25: "k \<le> 25"
    using nor_flash.csize_le [OF assms(1)] unfolding k by (simp only: power_increasing_iff one_less_numeral_iff rel_simps)
  have "density f = 2 ^ k"
    using f(2) k nor_flash.csize_le [OF assms(1)] unat_of_nat_u32 [of "2 ^ k"] by (simp add: word_unat_eq_iff)
  then have top: "unat (FLASH_BASE_ADDR OR density f) = 134217728 + csize"
    using or_base [OF k25] by (simp add: k)
  have sub: "unat ((FLASH_BASE_ADDR OR density f) - of_nat n) = 134217728 + csize - n" if "n \<le> 134217728" for n
    using layout_sub [of n "FLASH_BASE_ADDR OR density f"] that top by simp
  show ?thesis
    using sub [of "0x1000"] sub [of "0x2000"] sub [of "0x3000"] sub [of "0x4000"] sub [of "0x5000"] sub [of "0x6000"]
      sub [of 1] f(1) assms(3)
    by (simp add: l'_def tls_fls_sys_param_postion_init_def tls_fls_get_param_def sys_sectors_def Let_def upt_rec)
qed

lemma fls_layout_example:
  "map unat (sys_sectors (tls_fls_sys_param_postion_init demo_fls default_layout)) =
      map (\<lambda>i. 134217728 + 2 ^ 23 - 0x6000 + i * 4096) [0..<6] \<and>
    unat (FLASH_END_ADDR (tls_fls_sys_param_postion_init demo_fls default_layout)) = 134217728 + 2 ^ 23 - 1"
  by (rule fls_layout [OF nor.nor_flash_axioms demo_ready]) simp

text \<open>
  \<^verbatim>\<open>gsSector\<close> survives \<^verbatim>\<open>tls_fls_fast_write_destroy\<close>.  When a session starts while it names an old
  sector, the first write to another sector flushes the freshly allocated, still unwritten cache block
  over the old sector: its contents are lost, although the session never wrote there.
\<close>

lemma fls_fast_stale_sector:
  assumes "nor_flash hw view wel csize" and "fls_ready csize s" and "gsflscache s = None"
    and "gsSector s = of_nat (32768 + p)" and "4096 * p < csize" and "length block = 4096"
    and "addr div 0x1000 \<noteq> gsSector s" and "unat addr mod 4096 + length buf < 4096"
    and "unat addr mod 2 ^ 27 < csize" and "buf \<noteq> []" and "unat len = length buf"
  shows "\<exists>s1 s2. tls_fls_fast_write_init (Some block) s = (TLS_FLS_STATUS_OK, s1) \<and>
    tls_fls_fast_write hw addr (Some buf) len s1 = Some (TLS_FLS_STATUS_OK, s2) \<and>
    view (chip s2) = blit (view (chip s)) (4096 * p) block"
proof -
  define s1 where "s1 = s\<lparr>gsflscache := Some block\<rparr>"
  have s1: "tls_fls_fast_write_init (Some block) s = (TLS_FLS_STATUS_OK, s1)" "fls_ready csize s1"
    "gsflscache s1 = Some block" "gsSector s1 = gsSector s" "chip s1 = chip s"
    using assms(2,3) by (auto simp: s1_def fls_ready_def tls_fls_fast_write_init_def)
  obtain f where f: "inside_fls s1 = Some f" using s1(2) by (auto simp: fls_ready_def)
  obtain u where u: "tls_fls_flush_sector hw s1 = Some u" "view (chip u) = blit (view (chip s)) (4096 * p) block"
    "ctl_only s1 u"
    using nor_flash.flush_sector_view [OF assms(1) s1(2,3) assms(6) _ assms(5)] assms(4) s1(4,5) by auto
  have "p < 8192" using assms(5) nor_flash.csize_le [OF assms(1)] by simp
  then have "unat (gsSector s) \<noteq> 0" using unat_of_nat_u32 [of "32768 + p"] by (simp add: assms(4) del: of_nat_add)
  then have g: "gsSector s \<noteq> 0" by (metis unat_0)
  have "len \<noteq> 0" using assms(10,11) by auto
  then have "\<not> fls_bad_args addr len (Some buf = None) f"
    using nor_flash.fls_bad_args_iff [OF assms(1) f s1(2)] assms(9) by simp
  moreover have "gsflscache u = Some block" using drv_keepsD(4) [OF ctl_only_keeps [OF u(3)]] s1(3) by simp
  ultimately have "tls_fls_fast_write hw addr (Some buf) len s1 = Some (TLS_FLS_STATUS_OK,
      u\<lparr>gsSector := addr div 0x1000, gsflscache := Some (overlay block (unat addr mod 4096) buf)\<rparr>)"
    using f u(1) g assms(7,8,11) s1(4)
    by (simp add: tls_fls_fast_write_def fast_chunk_def Let_def fast_chunks.simps)
  then show ?thesis using s1(1) u(2) by simp
qed

lemma fls_fast_stale_sector_witness:
  "\<exists>s1 s2. tls_fls_fast_write_init (Some (replicate 4096 0)) (demo_fls\<lparr>gsSector := 0x8010\<rparr>) = (TLS_FLS_STATUS_OK, s1) \<and>
    tls_fls_fast_write nor_exec 0x8020000 (Some [9]) 1 s1 = Some (TLS_FLS_STATUS_OK, s2) \<and>
    fst (chip s2) = blit (\<lambda>_. 0xFF) (4096 * 16) (replicate 4096 0)"
  using fls_fast_stale_sector [OF nor.nor_flash_axioms, of "demo_fls\<lparr>gsSector := 0x8010\<rparr>" 16 "replicate 4096 0"
      "0x8020000" "[9]" 1]
  by (simp add: demo_fls_def fls_ready_def)

end
