(* ===== verification/Flash_Otp_Correct.thy ===== *)
theory Flash_Otp_Correct
  imports Flash_Otp Nor_Chip
begin

text \<open>
  What the security-register and status-register operations of the internal flash driver guarantee.

  The locale \<open>otp_flash\<close> is the part of the data sheet they rely on: erase, program and read of a security
  register, refused once a lock bit is set; the two status registers, read and written together or one
  by one, whose lock bits can only be set; the manufacturer byte.  The driver's operations are reduced
  inside it to \<open>blit\<close> and \<open>span\<close> on the registers and to masks on the status word.  A reference chip
  \<open>gd_exec\<close> with registers of 1 KiB interprets the locale.
\<close>

section \<open>Alignment and the drained window\<close>

lemma align_down:
  fixes a :: u32
  assumes "e = 2 ^ k" and "k < 32"
  shows "unat (a AND NOT (e - 1)) = unat a div 2 ^ k * 2 ^ k"
proof -
  have m: "e - 1 = mask k" using assms by (simp add: mask_eq_exp_minus_1)
  have "a AND NOT (mask k) = a - (a AND mask k)"
    by (subst disjunctive_diff_eq_and_not) (auto intro!: bit_word_eqI simp: bit_simps)
  moreover have "(a AND mask k) \<le> a" by (simp add: word_and_le2)
  ultimately have "unat (a AND NOT (mask k)) = unat a - unat a mod 2 ^ k"
    by (simp add: unat_sub unat_and_mask)
  then show ?thesis using m by (simp add: minus_mod_eq_div_mult)
qed

lemma unat_widen16: "unat (ucast (y :: u16) :: u32) = unat y"
  by transfer (simp add: take_bit_nat_eq_self)

lemma unat_exp2: "k < 32 \<Longrightarrow> unat (2 ^ k :: u32) = 2 ^ k"
proof -
  assume "k < 32"
  then have "(2 :: nat) ^ k < 2 ^ 32" by (intro power_strict_increasing) simp_all
  moreover have "(2 ^ k :: u32) = of_nat (2 ^ k)" by simp
  ultimately show ?thesis by (simp add: unat_of_nat take_bit_eq_mod del: of_nat_power)
qed

lemma concat_words:
  "concat (map (\<lambda>j. take 4 (drop (b + 4 * j) w)) [0..<n]) = take (4 * n) (drop b w)"
proof (induction n)
  case (Suc n)
  have "take (4 * n + 4) (drop b w) = take (4 * n) (drop b w) @ take 4 (drop (4 * n) (drop b w))"
    by (rule take_add)
  then show ?case using Suc by (simp add: ac_simps)
qed simp

lemma otp_drain_take: "otp_drain off len w = take len (drop off w)"
proof -
  define r where "r = off mod 4"
  have off: "off = off div 4 * 4 + r" and r: "r < 4" by (simp_all add: r_def)
  have rest: "take (4 * (m div 4)) (drop b w) @ take (m mod 4) (take 4 (drop (b + 4 * (m div 4)) w)) = take m (drop b w)"
    for m b :: nat
  proof -
    have "take (4 * (m div 4) + m mod 4) (drop b w) =
      take (4 * (m div 4)) (drop b w) @ take (m mod 4) (drop (4 * (m div 4)) (drop b w))"
      by (rule take_add)
    moreover have "m mod 4 < 4" by simp
    ultimately show ?thesis by (simp add: ac_simps min_def)
  qed
  show ?thesis
  proof (cases "r = 0")
    case True
    then have m: "off mod 4 = 0" and b: "off div 4 * 4 = off" using off by (simp_all add: r_def)
    show ?thesis unfolding otp_drain_def Let_def m b concat_words using rest [of len off] by simp
  next
    case False
    define i where "i = 4 - r"
    define q where "q = off div 4 * 4"
    have i: "r + i = 4" "0 < i" "4 - i = r" using False r by (auto simp: i_def)
    have m: "(4 - off mod 4) mod 4 = i" using False by (simp add: i_def r_def)
    have q: "q + r = off" "q + 4 = off + i" using off i(1) unfolding q_def by linarith+
    have h: "take b (drop r (take 4 (drop q w))) = take b (drop off w)" if "b \<le> i" for b
    proof -
      have "drop r (drop q w) = drop off w" using q(1) by (simp add: add.commute)
      then show ?thesis using that i by (simp add: drop_take min_def)
    qed
    show ?thesis
    proof (cases "len < i")
      case True
      then show ?thesis unfolding otp_drain_def Let_def m q_def [symmetric] i(3)
        using h [of len] by simp
    next
      case F: False
      have "take i (drop off w) @ take (len - i) (drop (off + i) w) = take len (drop off w)"
        using F take_add [of i "len - i" "drop off w"] by (simp add: add.commute)
      then show ?thesis unfolding otp_drain_def Let_def m q_def [symmetric] i(3) concat_words
        using F i(2) h [of i] rest [of "len - i" "off + i"] q(2) by simp
    qed
  qed
qed

section \<open>The contract of the chip\<close>

text \<open>The driver found this chip at start-up.\<close>

definition otp_ready :: "u8 \<Rightarrow> nat \<Rightarrow> 'c fls \<Rightarrow> bool" where
  "otp_ready mid esz s \<longleftrightarrow> (\<exists>f. inside_fls s = Some f \<and> unat (eraseSize f) = esz \<and> pageSize f = 256 \<and> flashid f = mid)"

text \<open>
  Which of the two ways of writing the status registers the driver picks for a chip, and whether the chip
  understands it.
\<close>

definition bp_supported :: "u8 \<Rightarrow> bool \<Rightarrow> bool \<Rightarrow> u32 \<Rightarrow> bool" where
  "bp_supported mid both each dens \<longleftrightarrow>
     mid \<in> {SPIFLASH_MID_GD, SPIFLASH_MID_TSINGTENG} \<and> both \<or>
     mid \<in> {SPIFLASH_MID_PUYA, SPIFLASH_MID_TSINGTENG_1MB_4MB} \<and> (if dens = 0x100000 then both else each) \<or>
     mid \<in> {SPIFLASH_MID_XTX, SPIFLASH_MID_BOYA, SPIFLASH_MID_FUDANMICRO, SPIFLASH_MID_XMC} \<and> each"

definition lb_supported :: "u8 \<Rightarrow> bool \<Rightarrow> bool \<Rightarrow> u16 \<Rightarrow> bool" where
  "lb_supported mid both each lbm \<longleftrightarrow>
     mid \<in> {SPIFLASH_MID_GD, SPIFLASH_MID_TSINGTENG} \<and> both \<and> lbm = 0x400 \<or>
     mid = SPIFLASH_MID_TSINGTENG_1MB_4MB \<and> both \<and> lbm = 0x3800 \<or>
     mid = SPIFLASH_MID_FUDANMICRO \<and> each \<and> lbm = 0x400 \<or>
     mid \<in> {SPIFLASH_MID_BOYA, SPIFLASH_MID_XMC, SPIFLASH_MID_WINBOND, SPIFLASH_MID_PUYA} \<and> each \<and> lbm = 0x3800"

lemma ctl_only_eraseSR [simp]: "ctl_only s (eraseSR hw cmd adr s)"
  by (simp add: eraseSR_def writeEnable_def flash_start_def ctl_only_def drv_keeps_def Let_def split_beta)

lemma ctl_only_programSR [simp]: "ctl_only s (programSR hw cmd adr buf n s)"
  by (simp add: programSR_def writeEnable_def flash_start_def ctl_only_def drv_keeps_def Let_def split_beta)

lemma ctl_only_otp_program [simp]: "ctl_only s (otp_program_pages hw ps p q s)"
proof (induction hw ps p q s rule: otp_program_pages.induct)
  case (1 hw ps p q s)
  show ?case
  proof (cases "q = [] \<or> ps = 0")
    case True
    then show ?thesis by (subst otp_program_pages.simps) simp
  next
    case False
    then show ?thesis
      using ctl_only_trans [OF ctl_only_programSR "1.IH" [OF False refl]]
      by (subst otp_program_pages.simps) (simp add: Let_def)
  qed
qed

locale otp_flash =
  fixes hw :: "'c hw"
    and otp :: "'c \<Rightarrow> nat \<Rightarrow> u8"
    and sr :: "'c \<Rightarrow> u16"
    and wel :: "'c \<Rightarrow> bool"
    and mid :: u8
    and esz :: nat
    and lbm :: u16
    and both :: bool
    and each :: bool
  assumes esz_cases: "esz \<in> {256, 512, 1024, 2048}"
    and lbm_cases: "lbm \<in> {0x400, 0x3800}"
    and otp_write_enable: "fst (hw 0x6 a w c) = w" "otp (snd (hw 0x6 a w c)) = otp c"
      "sr (snd (hw 0x6 a w c)) = sr c" "wel (snd (hw 0x6 a w c))"
    and otp_erase: "wel c \<Longrightarrow> otp (snd (hw 0x80000844 a w c)) =
        (if sr c AND lbm = 0 then blit (otp c) (esz * (unat a div esz)) (replicate esz 0xFF) else otp c)"
      "sr (snd (hw 0x80000844 a w c)) = sr c"
    and otp_program: "wel c \<Longrightarrow> 0 < n \<Longrightarrow> unat a mod 256 + n \<le> 256 \<Longrightarrow> n \<le> length w \<Longrightarrow>
      otp (snd (hw (0x80009042 OR push_bit 16 (of_nat (n - 1))) a w c)) =
        (if sr c AND lbm = 0 then blit (otp c) (unat a) (map2 (AND) (span (otp c) (unat a) n) (take n w)) else otp c)"
      "0 < n \<Longrightarrow> n \<le> 256 \<Longrightarrow> sr (snd (hw (0x80009042 OR push_bit 16 (of_nat (n - 1))) a w c)) = sr c"
    and otp_read: "0 < n \<Longrightarrow> n \<le> 1024 \<Longrightarrow> j \<le> n \<Longrightarrow> unat a mod esz + j \<le> esz \<Longrightarrow>
      take j (fst (hw (0xBC00C048 OR push_bit 16 (of_nat (n - 1))) a w c)) = span (otp c) (unat a) j"
      "0 < n \<Longrightarrow> n \<le> 1024 \<Longrightarrow> otp (snd (hw (0xBC00C048 OR push_bit 16 (of_nat (n - 1))) a w c)) = otp c"
      "0 < n \<Longrightarrow> n \<le> 1024 \<Longrightarrow> sr (snd (hw (0xBC00C048 OR push_bit 16 (of_nat (n - 1))) a w c)) = sr c"
    and sr_read:
      "fst (hw 0x0C005 a w c) ! 0 = ucast (sr c)" "fst (hw 0x0C035 a w c) ! 0 = ucast (drop_bit 8 (sr c))"
      "k \<in> {0x0C005, 0x0C035} \<Longrightarrow> otp (snd (hw k a w c)) = otp c \<and> sr (snd (hw k a w c)) = sr c"
    and sr_write_both: "both \<Longrightarrow> wel c \<Longrightarrow> 2 \<le> length w \<Longrightarrow>
      sr (snd (hw 0x1A001 a w c)) = get16 w 0 OR (sr c AND lbm) \<and> otp (snd (hw 0x1A001 a w c)) = otp c"
    and sr_write_low: "each \<Longrightarrow> wel c \<Longrightarrow> 1 \<le> length w \<Longrightarrow>
      sr (snd (hw 0xA001 a w c)) = (sr c AND 0xFF00) OR ucast (w ! 0) \<and> otp (snd (hw 0xA001 a w c)) = otp c"
    and sr_write_high: "each \<Longrightarrow> wel c \<Longrightarrow> 1 \<le> length w \<Longrightarrow>
      sr (snd (hw 0xA031 a w c)) = (sr c AND 0xFF) OR push_bit 8 (ucast (w ! 0)) OR (sr c AND lbm) \<and>
      otp (snd (hw 0xA031 a w c)) = otp c"
    and window_size: "4 \<le> length w \<Longrightarrow> 4 \<le> length (fst (hw k a w c))"
    and mid_read: "fst (hw 0x2c09F a w c) ! 0 = mid"
      "otp (snd (hw 0x2c09F a w c)) = otp c" "sr (snd (hw 0x2c09F a w c)) = sr c"
begin

abbreviation R :: "'c fls \<Rightarrow> nat \<Rightarrow> u8" where "R s \<equiv> otp (chip s)"
abbreviation S :: "'c fls \<Rightarrow> u16" where "S s \<equiv> sr (chip s)"

lemma esz_power: "\<exists>k. esz = 2 ^ k \<and> 8 \<le> k \<and> k \<le> 11"
proof -
  have "esz = 2 ^ 8 \<or> esz = 2 ^ 9 \<or> esz = 2 ^ 10 \<or> esz = 2 ^ 11" using esz_cases by simp
  then show ?thesis by (elim disjE) (rule exI, rule conjI, assumption, simp)+
qed

lemma esz_pages: "256 dvd esz" "16 dvd esz" "0 < esz" "esz \<le> 2048"
  using esz_cases by auto

subsection \<open>Reading\<close>

lemma otp_read_cmd_word:
  assumes "0 < n" and "n \<le> 1024"
  shows "otp_read_cmd (of_nat n) = 0xBC00C048 OR push_bit 16 (of_nat (n - 1))"
proof -
  obtain m where m: "n = Suc m" "m < 1024" using assms by (cases n) auto
  have "of_nat m AND 0x3FF = (of_nat m :: u32)"
    using m(2) by (intro word_unat_eq_iff [THEN iffD2]) (simp add: unat_of_nat_u32)
  then show ?thesis by (simp add: otp_read_cmd_def m)
qed

lemma otp_read_len_nat:
  assumes "unat addr mod 16 + unat len < 1024"
  shows "otp_read_len addr len = of_nat ((unat addr mod 16 + unat len + 16) div 16 * 16)"
proof -
  let ?m = "unat addr mod 16 + unat len + 16"
  have "unat (addr mod 16 + len + 16) = ?m"
    using assms by (simp add: unat_word_ariths unat_mod)
  then have "unat ((addr mod 16 + len + 16) div 16) = ?m div 16" by (simp add: unat_div)
  then have "(addr mod 16 + len + 16) div 16 = of_nat (?m div 16)" by (metis of_nat_unat ucast_id)
  then show ?thesis by (simp add: otp_read_len_def)
qed

lemma round16: "(x :: nat) < (x + 16) div 16 * 16" "(x + 16) div 16 * 16 \<le> x + 16" "x < 1024 \<Longrightarrow> (x + 16) div 16 * 16 \<le> 1024"
proof -
  show "x < (x + 16) div 16 * 16" by presburger
  show "(x + 16) div 16 * 16 \<le> x + 16" by presburger
  assume "x < 1024"
  then have "x div 16 < 64" by simp
  then show "(x + 16) div 16 * 16 \<le> 1024" by simp
qed

lemma otp_read_ok:
  assumes "inside_fls s = Some f" and "unat addr < 2 ^ 25" and "unat addr mod 16 + unat len < 1024"
    and "unat addr mod esz + unat len \<le> esz"
  shows "\<exists>s'. tls_fls_otp_read hw addr False len s = (TLS_FLS_STATUS_OK, span (R s) (unat addr) (unat len), s') \<and>
    R s' = R s \<and> S s' = S s \<and> ctl_only s s'"
proof -
  let ?off = "unat addr mod 16" and ?A = "addr div 16 * 16 AND 0x1FFFFFF"
  define n where "n = (?off + unat len + 16) div 16 * 16"
  have n: "0 < n" "n \<le> 1024" "?off + unat len \<le> n"
    using assms(3) round16 [of "?off + unat len"] unfolding n_def by linarith+
  let ?c = "0xBC00C048 OR push_bit 16 (of_nat (n - 1)) :: u32"
  let ?h = "hw ?c ?A (window s) (chip s)"
  have A: "unat ?A = unat addr - ?off"
  proof -
    have "unat (addr div 16 * 16) = unat addr div 16 * 16"
      using assms(2) div_times_less_eq_dividend [of "unat addr" 16] by (simp add: unat_word_ariths unat_div)
    moreover have "unat addr div 16 * 16 < 33554432" using assms(2) by simp
    ultimately show ?thesis by (simp add: minus_mod_eq_div_mult)
  qed
  have "(unat addr - ?off) mod esz = unat addr mod esz - ?off"
  proof -
    obtain j where "esz = 16 * j" using esz_pages(2) by (auto simp: dvd_def)
    then have "unat addr mod esz = 16 * (unat addr div 16 mod j) + ?off"
      by (simp add: mod_mult2_eq)
    moreover have "unat addr - ?off = 16 * (unat addr div 16)" by (simp add: minus_mod_eq_mult_div)
    moreover have "16 * (unat addr div 16) mod esz = 16 * (unat addr div 16 mod j)"
      unfolding \<open>esz = 16 * j\<close> by (rule mult_mod_right [symmetric])
    ultimately show ?thesis by (metis add_diff_cancel_right')
  qed
  moreover have "?off \<le> unat addr mod esz"
    using esz_pages(2) by (metis mod_less_eq_dividend mod_mod_cancel)
  ultimately have "unat ?A mod esz + (?off + unat len) \<le> esz" using assms(4) A by simp
  from otp_read(1) [OF n this, of "window s" "chip s"]
  have "drop ?off (take (?off + unat len) (fst ?h)) = drop ?off (span (R s) (unat ?A) (?off + unat len))" by simp
  then have "take (unat len) (drop ?off (fst ?h)) = span (R s) (unat addr) (unat len)"
    using A by (simp add: drop_take drop_span)
  then show ?thesis
    using otp_read(2,3) [OF n(1,2), of ?A "window s" "chip s"]
    by (simp add: tls_fls_otp_read_def assms(1) otp_read_len_nat [OF assms(3)] n_def [symmetric] Let_def
        otp_read_cmd_word [OF n(1,2)] flash_start_def split_beta otp_drain_take unat_mod ctl_only_def drv_keeps_def)
qed

lemma otp_read_pages_ok:
  assumes "inside_fls s = Some f" and "unat p + n * 256 \<le> 2 ^ 25" and "unat p mod 256 = 0"
    and "unat p mod esz + n * 256 \<le> esz"
  shows "\<exists>s'. otp_read_pages hw 256 p (n * 256) s = Some (span (R s) (unat p) (n * 256), s') \<and>
    R s' = R s \<and> S s' = S s \<and> ctl_only s s'"
  using assms
proof (induction n arbitrary: p s)
  case 0
  then show ?case by (simp add: otp_read_pages.simps)
next
  case (Suc n)
  have "unat p mod 16 = 0" using Suc.prems(3) by presburger
  moreover have l: "unat (256 :: u32) = 256" by simp
  ultimately have "unat p < 2 ^ 25" "unat p mod 16 + unat (256 :: u32) < 1024" "unat p mod esz + unat (256 :: u32) \<le> esz"
    using Suc.prems(2,4) by simp_all
  from otp_read_ok [OF Suc.prems(1) this] obtain s1
    where r: "tls_fls_otp_read hw p False 256 s = (TLS_FLS_STATUS_OK, span (R s) (unat p) 256, s1)"
      and k: "R s1 = R s" "S s1 = S s" "ctl_only s s1" by auto
  have step: "otp_read_pages hw 256 p (Suc n * 256) s =
    map_option (\<lambda>(cs, s). (span (R s1) (unat p) 256 @ cs, s)) (otp_read_pages hw 256 (p + 256) (n * 256) s1)"
    using r k by (subst otp_read_pages.simps) (auto simp: Let_def otp_read_pages.simps split: option.splits)
  show ?case
  proof (cases n)
    case 0
    then show ?thesis using step k by (simp add: otp_read_pages.simps)
  next
    case (Suc m)
    have p: "unat (p + 256) = unat p + 256"
      using Suc.prems(2) by (simp add: unat_word_ariths)
    have "(unat p + 256) mod esz = unat p mod esz + 256"
      using Suc.prems(4) \<open>n = Suc m\<close> mod_add_left_eq [of "unat p" esz 256] by simp
    then have "\<exists>s'. otp_read_pages hw 256 (p + 256) (n * 256) s1 = Some (span (R s1) (unat (p + 256)) (n * 256), s') \<and>
      R s' = R s1 \<and> S s' = S s1 \<and> ctl_only s1 s'"
      using Suc.prems k p by (intro Suc.IH) (auto simp: ctl_only_def drv_keeps_def)
    then show ?thesis using step k by (auto simp: span_append p intro: ctl_only_trans)
  qed
qed

subsection \<open>Writing\<close>

lemma otp_enable [simp]:
  "R (writeEnable hw s) = R s" "S (writeEnable hw s) = S s" "wel (chip (writeEnable hw s))"
  "window (writeEnable hw s) = window s"
  by (simp_all add: writeEnable_def flash_start_def split_beta otp_write_enable)

lemma otp_erase_block:
  assumes "unat adr < 2 ^ 25"
  shows "R (eraseSR hw 0x80000844 adr s) =
      (if S s AND lbm = 0 then blit (R s) (esz * (unat adr div esz)) (replicate esz 0xFF) else R s)"
    and "S (eraseSR hw 0x80000844 adr s) = S s"
  using assms otp_erase(1) [of "chip (writeEnable hw s)" "adr AND 0x1FFFFFF"]
    otp_erase(2) [of "adr AND 0x1FFFFFF" _ "chip (writeEnable hw s)"]
  by (simp_all add: eraseSR_def flash_start_def Let_def split_beta)

lemma otp_program_page:
  assumes "unat adr < 2 ^ 25" and "unat adr mod 256 = 0" and "256 \<le> length q"
  shows "R (programSR hw 0x80009042 adr q 256 s) =
      (if S s AND lbm = 0 then blit (R s) (unat adr) (map2 (AND) (span (R s) (unat adr) 256) (take 256 q)) else R s)"
    and "S (programSR hw 0x80009042 adr q 256 s) = S s"
  using assms otp_program(1) [of "chip (writeEnable hw (s\<lparr>window := take 256 q @ drop 256 (window s)\<rparr>))" 256
      "adr AND 0x1FFFFFF" "take 256 q @ drop 256 (window s)"]
    otp_program(2) [of 256 "adr AND 0x1FFFFFF" "take 256 q @ drop 256 (window s)"
      "chip (writeEnable hw (s\<lparr>window := take 256 q @ drop 256 (window s)\<rparr>))"]
  by (simp_all add: programSR_def flash_start_def Let_def split_beta)

lemma map2_and_erased: "length xs = n \<Longrightarrow> map2 (AND) (replicate n (0xFF :: u8)) xs = xs"
proof (induction xs arbitrary: n)
  case (Cons x xs)
  have "(0xFF :: u8) = - 1" by simp
  then have "0xFF AND x = x" for x :: u8 by (simp only: and.left_neutral)
  then show ?case using Cons by (cases n) auto
qed simp

lemma otp_program_pages_Nil [simp]: "otp_program_pages hw ps p [] s = s"
  by (simp add: otp_program_pages.simps)

lemma otp_program_ok:
  assumes "unat p + n * 256 \<le> 2 ^ 25" and "unat p mod 256 = 0" and "length q = n * 256"
    and "S s AND lbm = 0 \<longrightarrow> span (R s) (unat p) (n * 256) = replicate (n * 256) 0xFF"
  shows "R (otp_program_pages hw 256 p q s) = (if S s AND lbm = 0 then blit (R s) (unat p) q else R s) \<and>
    S (otp_program_pages hw 256 p q s) = S s"
  using assms
proof (induction n arbitrary: p q s)
  case 0
  then show ?case by simp
next
  case (Suc n)
  let ?s = "programSR hw 0x80009042 p q 256 s"
  have q: "256 \<le> length q" "q \<noteq> []" "unat p < 2 ^ 25" using Suc.prems(1,3) by auto
  have step: "otp_program_pages hw 256 p q s = otp_program_pages hw 256 (p + 256) (drop 256 q) ?s"
  proof (cases "length q = 256")
    case True
    then show ?thesis using q by (subst otp_program_pages.simps) (simp add: Let_def)
  next
    case False
    then show ?thesis using q by (subst otp_program_pages.simps) (simp add: Let_def)
  qed
  have first: "span (R s) (unat p) 256 = replicate 256 0xFF" if "S s AND lbm = 0"
  proof -
    have "take 256 (span (R s) (unat p) (Suc n * 256)) = take 256 (replicate (Suc n * 256) 0xFF)"
      using Suc.prems(4) that by simp
    then show ?thesis by (simp add: take_span)
  qed
  have s1: "R ?s = (if S s AND lbm = 0 then blit (R s) (unat p) (take 256 q) else R s)" "S ?s = S s"
    using otp_program_page [OF q(3) Suc.prems(2) q(1), of s] first q(1) by (auto simp: map2_and_erased)
  show ?case
  proof (cases n)
    case 0
    then show ?thesis using step s1 Suc.prems(3) by simp
  next
    case (Suc m)
    have p: "unat (p + 256) = unat p + 256"
      using Suc.prems(1) by (simp add: unat_word_ariths)
    have rest: "span (R ?s) (unat p + 256) (n * 256) = replicate (n * 256) 0xFF" if "S s AND lbm = 0"
    proof -
      have "drop 256 (span (R s) (unat p) (Suc n * 256)) = drop 256 (replicate (Suc n * 256) 0xFF)"
        using Suc.prems(4) that by simp
      then have "span (R s) (unat p + 256) (n * 256) = replicate (n * 256) 0xFF" by (simp add: drop_span)
      then show ?thesis using s1(1) that q(1) by (simp add: span_blit_disjoint)
    qed
    have "R (otp_program_pages hw 256 (p + 256) (drop 256 q) ?s) =
        (if S ?s AND lbm = 0 then blit (R ?s) (unat (p + 256)) (drop 256 q) else R ?s) \<and>
      S (otp_program_pages hw 256 (p + 256) (drop 256 q) ?s) = S ?s"
      using Suc.prems s1(2) rest p by (intro Suc.IH) auto
    moreover have "blit (blit (R s) (unat p) (take 256 q)) (unat p + 256) (drop 256 q) = blit (R s) (unat p) q"
      using q(1) blit_append [of "R s" "unat p" "take 256 q" "drop 256 q"] by simp
    ultimately show ?thesis using step s1 p by auto
  qed
qed

lemma block_addr:
  fixes addr :: u32
  assumes "unat e = esz"
  shows "unat (addr AND NOT (e - 1)) = unat addr div esz * esz"
    and "unat (addr - (addr AND NOT (e - 1))) = unat addr mod esz"
    and "\<not> addr < (addr AND NOT (e - 1))"
proof -
  obtain k where k: "esz = 2 ^ k" "8 \<le> k" "k \<le> 11" using esz_power by blast
  have "unat e = unat (2 ^ k :: u32)" using assms k by (simp add: unat_exp2)
  then have "e = 2 ^ k" by (simp only: word_unat_eq_iff)
  then show a: "unat (addr AND NOT (e - 1)) = unat addr div esz * esz"
    using align_down [of e k addr] k by simp
  show "\<not> addr < (addr AND NOT (e - 1))" by (simp add: word_and_le2 not_less)
  then have "unat (addr - (addr AND NOT (e - 1))) = unat addr - unat addr div esz * esz"
    using a by (simp add: unat_sub not_less)
  then show "unat (addr - (addr AND NOT (e - 1))) = unat addr mod esz"
    by (simp add: minus_div_mult_eq_mod)
qed

lemma otp_write_fails:
  assumes "otp_ready mid esz s" and "esz < unat addr mod esz + unat len"
  shows "tls_fls_otp_write hw mem addr (Some bs) len s = (TLS_FLS_STATUS_EINVAL, s)"
proof -
  obtain f where f: "inside_fls s = Some f" "unat (eraseSize f) = esz" "pageSize f = 256"
    using assms(1) by (auto simp: otp_ready_def)
  let ?e = "ucast (eraseSize f) :: u32" and ?E = "addr AND NOT (ucast (eraseSize f) - 1)"
  have e: "unat ?e = esz" using f(2) by (simp add: unat_widen16)
  have "unat (?e - (addr - ?E)) = esz - unat addr mod esz"
    using block_addr(2) [OF e, of addr] e esz_pages(3) by (simp add: unat_sub word_le_nat_alt less_imp_le)
  then have "len > ?e - (addr - ?E)"
    using assms(2) mod_less_divisor [OF esz_pages(3), of "unat addr"] by (simp add: word_less_nat_alt)
  moreover have "?e \<noteq> 0" using e esz_pages(3) by (metis less_irrefl unat_0)
  ultimately show ?thesis by (simp add: tls_fls_otp_write_def f Let_def)
qed

lemma otp_write_ok:
  assumes "otp_ready mid esz s" and "unat addr < 2 ^ 25" and "unat addr mod esz + unat len \<le> esz"
    and "unat len \<le> length bs"
  shows "\<exists>s'. tls_fls_otp_write hw True addr (Some bs) len s = (0, s') \<and> S s' = S s \<and> ctl_only s s' \<and>
    R s' = (if S s AND lbm = 0 then blit (R s) (unat addr) (take (unat len) bs) else R s)"
proof -
  obtain f where f: "inside_fls s = Some f" "unat (eraseSize f) = esz" "pageSize f = 256"
    using assms(1) by (auto simp: otp_ready_def)
  let ?e = "ucast (eraseSize f) :: u32" and ?E = "addr AND NOT (ucast (eraseSize f) - 1)"
  have e: "unat ?e = esz" using f(2) by (simp add: unat_widen16)
  then have e0: "?e \<noteq> 0" using esz_pages(3) by (metis less_irrefl unat_0)
  note E = block_addr [OF e, of addr]
  define n where "n = esz div 256"
  have n: "n * 256 = esz" using esz_pages(1) by (simp add: n_def)
  have top: "unat ?E + n * 256 \<le> 2 ^ 25"
  proof -
    obtain k where k: "esz = 2 ^ k" "k \<le> 11" using esz_power by blast
    then have "(2 ^ 25 :: nat) = 2 ^ (25 - k) * esz" by (simp flip: power_add)
    then have "unat addr div esz < 2 ^ (25 - k)" using assms(2) by (simp add: div_less_iff_less_mult esz_pages(3))
    then have "Suc (unat addr div esz) * esz \<le> 2 ^ (25 - k) * esz" by (intro mult_le_mono) simp_all
    then show ?thesis using E(1) n \<open>2 ^ 25 = 2 ^ (25 - k) * esz\<close> by simp
  qed
  have al: "unat ?E mod 256 = 0" "unat ?E mod esz = 0" "esz * (unat ?E div esz) = unat ?E"
    using E(1) esz_pages(1,3) by (auto simp: mod_mod_cancel)
  have fit: "\<not> len > ?e - (addr - ?E)"
    using assms(3) E(2) e by (simp add: word_less_nat_alt unat_sub word_le_nat_alt)
  obtain s1 where r: "otp_read_pages hw 256 ?E esz s = Some (span (R s) (unat ?E) esz, s1)"
    and s1: "R s1 = R s" "S s1 = S s" "ctl_only s s1"
    using otp_read_pages_ok [OF f(1) top al(1)] al(2) n by auto
  let ?s2 = "eraseSR hw 0x80000844 ?E s1"
  have "unat ?E < 2 ^ 25" using top n esz_pages(3) by linarith
  note s2 = otp_erase_block [OF this, of s1]
  let ?b = "overlay (span (R s) (unat ?E) esz) (unat addr mod esz) (take (unat len) bs)"
  have lb: "length ?b = n * 256" using assms(3,4) n by (simp add: min_def)
  have "S ?s2 AND lbm = 0 \<longrightarrow> span (R ?s2) (unat ?E) (n * 256) = replicate (n * 256) 0xFF"
    using s2 al(3) n by simp
  from otp_program_ok [OF top al(1) lb this]
  have fin: "R (otp_program_pages hw 256 ?E ?b ?s2) = (if S s AND lbm = 0 then blit (R ?s2) (unat ?E) ?b else R ?s2)"
    "S (otp_program_pages hw 256 ?E ?b ?s2) = S s" using s2(2) s1(2) by simp_all
  have "blit (blit (R s) (unat ?E) (replicate esz 0xFF)) (unat ?E) ?b = blit (R s) (unat ?E) ?b"
    using lb n by (intro blit_blit_same) simp
  also have "\<dots> = blit (R s) (unat ?E + unat addr mod esz) (take (unat len) bs)"
    using assms(3,4) by (intro blit_overlay_span) (simp add: min_def)
  also have "unat ?E + unat addr mod esz = unat addr" using E(1) by simp
  finally have "R (otp_program_pages hw 256 ?E ?b ?s2) =
    (if S s AND lbm = 0 then blit (R s) (unat addr) (take (unat len) bs) else R s)"
    using fin(1) s2 s1 al(3) by simp
  moreover have "tls_fls_otp_write hw True addr (Some bs) len s = (0, otp_program_pages hw 256 ?E ?b ?s2)"
    using e e0 r fit E(2,3) f by (simp add: tls_fls_otp_write_def Let_def)
  moreover have "ctl_only s (otp_program_pages hw 256 ?E ?b ?s2)"
    by (meson s1(3) ctl_only_trans ctl_only_eraseSR ctl_only_otp_program)
  ultimately show ?thesis using fin(2) by blast
qed

end

section \<open>Status registers\<close>

lemma upto16: "{..<16 :: nat} = {0, 1, 2, 3, 4, 5, 6, 7, 8, 9, 10, 11, 12, 13, 14, 15}"
  by (simp add: lessThan_nat_numeral lessThan_Suc insert_commute)

lemma u16_bits:
  fixes x y :: u16
  shows "bit x 0 = bit y 0 \<Longrightarrow> bit x 1 = bit y 1 \<Longrightarrow> bit x 2 = bit y 2 \<Longrightarrow> bit x 3 = bit y 3 \<Longrightarrow>
  bit x 4 = bit y 4 \<Longrightarrow> bit x 5 = bit y 5 \<Longrightarrow> bit x 6 = bit y 6 \<Longrightarrow> bit x 7 = bit y 7 \<Longrightarrow>
  bit x 8 = bit y 8 \<Longrightarrow> bit x 9 = bit y 9 \<Longrightarrow> bit x 10 = bit y 10 \<Longrightarrow> bit x 11 = bit y 11 \<Longrightarrow>
  bit x 12 = bit y 12 \<Longrightarrow> bit x 13 = bit y 13 \<Longrightarrow> bit x 14 = bit y 14 \<Longrightarrow> bit x 15 = bit y 15 \<Longrightarrow> x = y"
proof (rule bit_word_eqI)
  fix n assume "n < LENGTH(16)"
  then have "n \<in> {..<16}" by simp
  then have n: "n \<in> {0, 1, 2, 3, 4, 5, 6, 7, 8, 9, 10, 11, 12, 13, 14, 15}" by (simp only: upto16)
  assume h: "bit x 0 = bit y 0" "bit x 1 = bit y 1" "bit x 2 = bit y 2" "bit x 3 = bit y 3" "bit x 4 = bit y 4" "bit x 5 = bit y 5" "bit x 6 = bit y 6" "bit x 7 = bit y 7"
    "bit x 8 = bit y 8" "bit x 9 = bit y 9" "bit x 10 = bit y 10" "bit x 11 = bit y 11" "bit x 12 = bit y 12" "bit x 13 = bit y 13" "bit x 14 = bit y 14" "bit x 15 = bit y 15"
  from n show "bit x n = bit y n" by (elim insertE emptyE) (simp_all only: h)
qed

lemma sr_two_reg:
  fixes v :: u16
  shows "(v AND 0xFF00) OR ucast (ucast ((ucast v :: u32) AND 0x83) :: u8) = v AND 0xFF83"
    and "(v AND 0xFF) OR push_bit 8 (ucast (ucast (drop_bit 8 (ucast v :: u32) AND 0xBF) :: u8)) = v AND 0xBFFF"
  by (rule u16_bits; simp add: bit_simps)+

lemma sr_one_reg:
  fixes v :: u16
  shows "ucast ((ucast v :: u32) AND 0xBF83) OR (v AND 0x400) = v AND 0xBF83"
    and "ucast ((ucast v :: u32) AND 0xBF83) OR (v AND 0x3800) = v AND 0xBF83"
  by (rule u16_bits; simp add: bit_simps)+

lemma sr_two_high:
  fixes v :: u16
  shows "(v AND 0xFF83 AND 0xFF) OR push_bit 8 (ucast (ucast (drop_bit 8 (ucast v :: u32) AND 0xBF) :: u8)) OR
      (v AND 0xFF83 AND 0x400) = v AND 0xFF83 AND 0xBFFF"
    and "(v AND 0xFF83 AND 0xFF) OR push_bit 8 (ucast (ucast (drop_bit 8 (ucast v :: u32) AND 0xBF) :: u8)) OR
      (v AND 0xFF83 AND 0x3800) = v AND 0xFF83 AND 0xBFFF"
  by (rule u16_bits; simp add: bit_simps)+

lemma sr_split:
  fixes v :: u16
  shows "(v AND 0xBF83) OR ucast ((ucast v :: u32) AND 0x407C) = v"
    and "(v AND 0xFF83) OR ucast ((ucast v :: u32) AND 0x7C) = v"
    and "(v AND 0xBFFF) OR push_bit 8 (ucast (drop_bit 8 ((ucast v :: u32) AND 0x4000))) = v"
  by (rule u16_bits; simp add: bit_simps)+

lemma sr_clear:
  fixes v :: u16
  shows "(ucast v :: u32) AND 0x407C = 0 \<Longrightarrow> v AND 0xBF83 = v"
    and "(ucast v :: u32) AND 0x7C = 0 \<Longrightarrow> v AND 0xFF83 = v"
    and "drop_bit 8 ((ucast v :: u32) AND 0x4000) = 0 \<Longrightarrow> v AND 0xBFFF = v"
  using sr_split [of v] by simp_all

lemma get32_low: "4 \<le> length w \<Longrightarrow> get32 w 0 AND 0xFF = ucast (w ! 0)"
proof -
  have m: "(0xFF :: u32) = mask 8" by (simp add: mask_eq_exp_minus_1)
  show ?thesis unfolding m get32_def
    by (rule bit_word_eqI) (auto simp: bit_simps dest: bit_imp_le_length)
qed

lemma ucast_u8_back: "(ucast (ucast (x :: u8) :: u32) :: u8) = x"
  by (rule bit_word_eqI) (auto simp: bit_simps)

lemma sr_lock:
  fixes v :: u16
  shows "ucast ((ucast v :: u32) OR 0x400) OR (v AND 0x400) = v OR 0x400"
    and "ucast ((ucast v :: u32) OR 0x3800) OR (v AND 0x3800) = v OR 0x3800"
    and "(v AND 0xFF) OR push_bit 8 (ucast (ucast (drop_bit 8 ((ucast v :: u32) OR 0x400)) :: u8)) OR (v AND 0x400) = v OR 0x400"
    and "(v AND 0xFF) OR push_bit 8 (ucast (ucast (drop_bit 8 ((ucast v :: u32) OR 0x3800)) :: u8)) OR (v AND 0x3800) = v OR 0x3800"
  by (rule u16_bits; simp add: bit_simps)+

lemma status_join: "(ucast (ucast v :: u8) :: u32) OR push_bit 8 (ucast (ucast (drop_bit 8 v) :: u8)) = ucast (v :: u16)"
  by (rule bit_word_eqI) (auto simp: bit_simps dest: bit_imp_le_length)

lemma get16_overlay_le32: "4 \<le> length w \<Longrightarrow> get16 (overlay w 0 (le32 v)) 0 = ucast v"
proof -
  have "get16 (overlay w 0 (le32 v)) 0 = ucast (ucast v :: u8) OR push_bit 8 (ucast (ucast (drop_bit 8 v) :: u8))"
    by (simp add: overlay_def le32_def get16_def)
  also have "\<dots> = ucast v" by (rule bit_word_eqI) (auto simp: bit_simps)
  finally show ?thesis .
qed

lemma nth_overlay_le32: "overlay w 0 (le32 v) ! 0 = ucast v"
  by (simp add: overlay_def le32_def)

context otp_flash
begin

lemma read_status_ok:
  assumes "4 \<le> length (window s)"
  shows "\<exists>s'. read_status hw s = (ucast (S s), s') \<and> R s' = R s \<and> S s' = S s \<and> ctl_only s s' \<and> 4 \<le> length (window s')"
proof -
  let ?s1 = "flash_start hw 0x0C005 s" and ?s2 = "flash_start hw 0x0C035 (flash_start hw 0x0C005 s)"
  have 1: "R ?s1 = R s" "S ?s1 = S s" "4 \<le> length (window ?s1)" "window ?s1 ! 0 = ucast (S s)"
    using assms by (simp_all add: flash_start_def split_beta sr_read window_size)
  have 2: "R ?s2 = R s" "S ?s2 = S s" "4 \<le> length (window ?s2)" "window ?s2 ! 0 = ucast (drop_bit 8 (S s))"
    using 1 by (simp_all add: flash_start_def [of hw "0x0C035"] split_beta sr_read window_size)
  have "read_status hw s = (ucast (S s), ?s2)"
    using 1(3,4) 2(3,4) by (simp add: read_status_def read_sr_def read_first_value_def get32_low status_join)
  then show ?thesis using 2 ctl_only_trans [OF ctl_only_flash_start ctl_only_flash_start] by blast
qed

lemma ctl_only_write_sr [simp]: "ctl_only s (write_sr hw cmd v s)"
  by (simp add: write_sr_def writeEnable_def flash_start_def ctl_only_def drv_keeps_def Let_def split_beta)

lemma write_sr_chip:
  "chip (write_sr hw cmd v s) =
     snd (hw cmd (flash_addr s) (overlay (window s) 0 (le32 v)) (chip (writeEnable hw s)))"
  using otp_enable(4) [of s]
  by (simp add: write_sr_def flash_start_def Let_def split_beta) (simp add: writeEnable_def flash_start_def split_beta)

lemma length_overlay_le32: "4 \<le> length w \<Longrightarrow> length (overlay w 0 (le32 v)) = length w"
  by (simp add: le32_def)

lemma write_both:
  assumes "both" and "4 \<le> length (window s)"
  shows "S (write_sr hw 0x1A001 v s) = ucast v OR (S s AND lbm)" and "R (write_sr hw 0x1A001 v s) = R s"
  using sr_write_both [OF assms(1) otp_enable(3) [of s], of "overlay (window s) 0 (le32 v)" "flash_addr s"] assms(2)
  by (simp_all add: write_sr_chip length_overlay_le32 get16_overlay_le32)

lemma write_low:
  assumes "each" and "4 \<le> length (window s)"
  shows "S (write_sr hw 0xA001 v s) = (S s AND 0xFF00) OR ucast (ucast v :: u8)" and "R (write_sr hw 0xA001 v s) = R s"
  using sr_write_low [OF assms(1) otp_enable(3) [of s], of "overlay (window s) 0 (le32 v)" "flash_addr s"] assms(2)
  by (simp_all add: write_sr_chip length_overlay_le32 nth_overlay_le32)

lemma write_high:
  assumes "each" and "4 \<le> length (window s)"
  shows "S (write_sr hw 0xA031 v s) = (S s AND 0xFF) OR push_bit 8 (ucast (ucast v :: u8)) OR (S s AND lbm)"
    and "R (write_sr hw 0xA031 v s) = R s"
  using sr_write_high [OF assms(1) otp_enable(3) [of s], of "overlay (window s) 0 (le32 v)" "flash_addr s"] assms(2)
  by (simp_all add: write_sr_chip length_overlay_le32 nth_overlay_le32)

lemma write_sr_length: "4 \<le> length (window s) \<Longrightarrow> 4 \<le> length (window (write_sr hw cmd v s))"
  using window_size by (simp add: write_sr_def Let_def flash_start_def split_beta length_overlay_le32)

lemma unlock_one:
  assumes "both" and "4 \<le> length (window s)"
  shows "S (writeBpBit_for_1wreg hw 0 0 0 0 0 0 s) = S s AND 0xBF83" and "R (writeBpBit_for_1wreg hw 0 0 0 0 0 0 s) = R s"
proof -
  obtain s1 where s1: "read_status hw s = (ucast (S s), s1)" "R s1 = R s" "S s1 = S s" "4 \<le> length (window s1)"
    using read_status_ok [OF assms(2)] by blast
  have "ucast (ucast (S s) AND 0xBF83 :: u32) OR (S s AND lbm) = S s AND 0xBF83"
    using lbm_cases sr_one_reg by auto
  moreover have "S s AND 0xBF83 = S s" if "ucast (S s) AND 0x407C = (0 :: u32)"
    using that by (rule sr_clear)
  ultimately show "S (writeBpBit_for_1wreg hw 0 0 0 0 0 0 s) = S s AND 0xBF83" "R (writeBpBit_for_1wreg hw 0 0 0 0 0 0 s) = R s"
    using s1 write_both [OF assms(1) s1(4)]
    by (auto simp: writeBpBit_for_1wreg_def bp_bits_def Let_def)
qed

lemma unlock_two:
  assumes "each" and "4 \<le> length (window s)"
  shows "S (writeBpBit_for_2wreg hw 0 0 0 0 0 0 s) = S s AND 0xBF83" and "R (writeBpBit_for_2wreg hw 0 0 0 0 0 0 s) = R s"
proof -
  obtain s1 where s1: "read_status hw s = (ucast (S s), s1)" "R s1 = R s" "S s1 = S s" "4 \<le> length (window s1)"
    using read_status_ok [OF assms(2)] by blast
  define s2 where "s2 = (if ucast (S s) AND 0x7C \<noteq> (0 :: u32) then write_sr hw 0xA001 (ucast (S s) AND 0x83) s1 else s1)"
  have s2: "S s2 = S s AND 0xFF83" "R s2 = R s" "4 \<le> length (window s2)"
    using s1 write_low [OF assms(1) s1(4)] sr_two_reg(1) sr_clear(2) [of "S s"] write_sr_length [OF s1(4)]
    by (auto simp: s2_def)
  have "S s2 AND 0xBFFF = S s AND 0xBF83" by (simp add: s2(1) and.assoc)
  moreover have "(S s2 AND 0xFF) OR push_bit 8 (ucast (ucast (drop_bit 8 (ucast (S s)) AND 0xBF :: u32) :: u8)) OR (S s2 AND lbm)
    = S s2 AND 0xBFFF" using lbm_cases sr_two_high [of "S s"] s2(1) by (auto simp: and.assoc)
  moreover have "writeBpBit_for_2wreg hw 0 0 0 0 0 0 s = (if drop_bit 8 (ucast (S s) AND 0x4000) \<noteq> (0 :: u32)
    then write_sr hw 0xA031 (drop_bit 8 (ucast (S s)) AND 0xBF) s2 else s2)"
    by (auto simp: writeBpBit_for_2wreg_def s1(1) bp_bits_def Let_def s2_def)
  moreover have "S s2 AND 0xBFFF = S s2" if "drop_bit 8 (ucast (S s) AND 0x4000) = (0 :: u32)"
  proof -
    have "S s AND 0xFF83 AND 0xBFFF = (S s AND 0xBFFF) AND 0xFF83" by (simp add: and.assoc)
    then show ?thesis using sr_clear(3) [OF that] s2(1) by (simp only: and.assoc)
  qed
  moreover note write_high [OF assms(1) s2(3), of "drop_bit 8 (ucast (S s)) AND 0xBF"] s2(2)
  ultimately show "S (writeBpBit_for_2wreg hw 0 0 0 0 0 0 s) = S s AND 0xBF83" "R (writeBpBit_for_2wreg hw 0 0 0 0 0 0 s) = R s"
    by presburger+
qed

lemma readRID_ok:
  assumes "4 \<le> length (window s)"
  shows "\<exists>s'. readRID hw s = (mid, s') \<and> R s' = R s \<and> S s' = S s \<and> ctl_only s s' \<and> 4 \<le> length (window s')"
proof -
  let ?s = "flash_start hw 0x2c09F s"
  have "4 \<le> length (window ?s)" "window ?s ! 0 = mid" "R ?s = R s" "S ?s = S s"
    using assms by (simp_all add: flash_start_def split_beta mid_read window_size)
  then show ?thesis by (intro exI [of _ ?s]) (simp add: readRID_def Let_def read_first_value_def get32_low ucast_u8_back)
qed

lemma unlock_ok:
  assumes "inside_fls s = Some f" and "4 \<le> length (window s)" and "bp_supported mid both each (density f)"
  shows "\<exists>s'. tls_flash_unlock hw s = (0, s') \<and> S s' = S s AND 0xBF83 \<and> R s' = R s"
proof -
  obtain s1 where s1: "readRID hw s = (mid, s1)" "R s1 = R s" "S s1 = S s" "4 \<le> length (window s1)"
    using readRID_ok [OF assms(2)] by blast
  consider "both" "write_bp_by_chip hw f 0 0 0 0 0 0 s = (0, writeBpBit_for_1wreg hw 0 0 0 0 0 0 s1)"
    | "each" "write_bp_by_chip hw f 0 0 0 0 0 0 s = (0, writeBpBit_for_2wreg hw 0 0 0 0 0 0 s1)"
    using assms(3) by (auto simp: bp_supported_def write_bp_by_chip_def s1(1) split: if_splits)
  then show ?thesis
    using unlock_one [OF _ s1(4)] unlock_two [OF _ s1(4)] s1(2,3)
    by cases (auto simp: tls_flash_unlock_def assms(1) flashunlock_def)
qed

lemma lock_one:
  assumes "both" and "4 \<le> length (window s)"
  shows "S (writeLbBit_for_1wreg hw (ucast lbm) s) = S s OR lbm" and "R (writeLbBit_for_1wreg hw (ucast lbm) s) = R s"
    and "ctl_only s (writeLbBit_for_1wreg hw (ucast lbm) s)"
proof -
  obtain s1 where s1: "read_status hw s = (ucast (S s), s1)" "R s1 = R s" "S s1 = S s" "4 \<le> length (window s1)" "ctl_only s s1"
    using read_status_ok [OF assms(2)] by blast
  have w: "writeLbBit_for_1wreg hw (ucast lbm) s = write_sr hw 0x1A001 (ucast (S s) OR ucast lbm) s1"
    by (simp add: writeLbBit_for_1wreg_def s1(1))
  have "ucast (ucast (S s) OR ucast lbm :: u32) OR (S s AND lbm) = S s OR lbm"
    using lbm_cases sr_lock(1,2) [of "S s"] by auto
  then show "S (writeLbBit_for_1wreg hw (ucast lbm) s) = S s OR lbm" "R (writeLbBit_for_1wreg hw (ucast lbm) s) = R s"
    using write_both [OF assms(1) s1(4)] s1 w by simp_all
  show "ctl_only s (writeLbBit_for_1wreg hw (ucast lbm) s)" unfolding w by (rule ctl_only_trans [OF s1(5) ctl_only_write_sr])
qed

lemma lock_two:
  assumes "each" and "4 \<le> length (window s)"
  shows "S (writeLbBit_for_2wreg hw (ucast lbm) s) = S s OR lbm" and "R (writeLbBit_for_2wreg hw (ucast lbm) s) = R s"
    and "ctl_only s (writeLbBit_for_2wreg hw (ucast lbm) s)"
proof -
  obtain s1 where s1: "read_status hw s = (ucast (S s), s1)" "R s1 = R s" "S s1 = S s" "4 \<le> length (window s1)" "ctl_only s s1"
    using read_status_ok [OF assms(2)] by blast
  have w: "writeLbBit_for_2wreg hw (ucast lbm) s = write_sr hw 0xA031 (drop_bit 8 (ucast (S s) OR ucast lbm)) s1"
    by (simp add: writeLbBit_for_2wreg_def s1(1))
  have "(S s AND 0xFF) OR push_bit 8 (ucast (ucast (drop_bit 8 (ucast (S s) OR ucast lbm :: u32)) :: u8)) OR (S s AND lbm)
    = S s OR lbm" using lbm_cases sr_lock(3,4) [of "S s"] by auto
  then show "S (writeLbBit_for_2wreg hw (ucast lbm) s) = S s OR lbm" "R (writeLbBit_for_2wreg hw (ucast lbm) s) = R s"
    using write_high [OF assms(1) s1(4)] s1 w by simp_all
  show "ctl_only s (writeLbBit_for_2wreg hw (ucast lbm) s)" unfolding w by (rule ctl_only_trans [OF s1(5) ctl_only_write_sr])
qed

lemma lock_ok:
  assumes "otp_ready mid esz s" and "4 \<le> length (window s)" and "lb_supported mid both each lbm"
  shows "\<exists>s'. tls_fls_otp_lock hw s = (0, s') \<and> S s' = S s OR lbm \<and> R s' = R s \<and> ctl_only s s'"
proof -
  obtain f where f: "inside_fls s = Some f" "flashid f = mid" using assms(1) by (auto simp: otp_ready_def)
  consider "both" "tls_fls_otp_lock hw s = (0, writeLbBit_for_1wreg hw (ucast lbm) s)"
    | "each" "tls_fls_otp_lock hw s = (0, writeLbBit_for_2wreg hw (ucast lbm) s)"
    using assms(3) by (auto simp: lb_supported_def tls_fls_otp_lock_def f push_bit_eq_mult)
  then show ?thesis
    using lock_one [OF _ assms(2)] lock_two [OF _ assms(2)] by cases auto
qed

lemma otp_ready_keeps: "ctl_only s s' \<Longrightarrow> otp_ready mid esz s \<Longrightarrow> otp_ready mid esz s'"
  by (simp add: otp_ready_def ctl_only_def drv_keeps_def)

lemma lbm_set: "(v OR lbm) AND lbm \<noteq> 0"
proof -
  have "(v OR lbm) AND lbm = lbm" by (rule bit_word_eqI) (auto simp: bit_simps)
  then show ?thesis using lbm_cases by auto
qed

text \<open>Once the lock bits are set no write reaches the registers, although the driver reports success.\<close>

lemma lock_then_write:
  assumes "otp_ready mid esz s" and "4 \<le> length (window s)" and "lb_supported mid both each lbm"
    and "unat addr < 2 ^ 25" and "unat addr mod esz + unat len \<le> esz" and "unat len \<le> length bs"
  shows "\<exists>s1 s2. tls_fls_otp_lock hw s = (0, s1) \<and> S s1 = S s OR lbm \<and>
    tls_fls_otp_write hw True addr (Some bs) len s1 = (0, s2) \<and> R s2 = R s"
proof -
  obtain s1 where s1: "tls_fls_otp_lock hw s = (0, s1)" "S s1 = S s OR lbm" "R s1 = R s" "ctl_only s s1"
    using lock_ok [OF assms(1-3)] by blast
  show ?thesis
    using otp_write_ok [OF otp_ready_keeps [OF s1(4) assms(1)] assms(4-6)] s1 lbm_set by auto
qed

lemma write_then_read:
  assumes "otp_ready mid esz s" and "S s AND lbm = 0" and "unat addr < 2 ^ 25"
    and "unat addr mod esz + unat len \<le> esz" and "unat len \<le> length bs" and "unat addr mod 16 + unat len < 1024"
  shows "\<exists>s1 s2. tls_fls_otp_write hw True addr (Some bs) len s = (0, s1) \<and>
    R s1 = blit (R s) (unat addr) (take (unat len) bs) \<and>
    tls_fls_otp_read hw addr False len s1 = (TLS_FLS_STATUS_OK, take (unat len) bs, s2) \<and> R s2 = R s1"
proof -
  obtain s1 where s1: "tls_fls_otp_write hw True addr (Some bs) len s = (0, s1)" "ctl_only s s1"
    "R s1 = blit (R s) (unat addr) (take (unat len) bs)"
    using otp_write_ok [OF assms(1,3-5)] assms(2) by auto
  have "\<exists>f. inside_fls s1 = Some f" using otp_ready_keeps [OF s1(2) assms(1)] by (auto simp: otp_ready_def)
  then show ?thesis using otp_read_ok [OF _ assms(3,6,4)] s1 assms(5) by (fastforce simp: min_def)
qed

end

section \<open>A reference chip\<close>

text \<open>Registers of 1 KiB, one lock bit, both status bytes written by one command; the state is the
  registers, the status word and the write enable latch.\<close>

type_synonym gd = "(nat \<Rightarrow> u8) \<times> u16 \<times> bool"

definition gd_exec :: "gd hw" where
  "gd_exec cmd a w c =
     (case c of (m, v, e) \<Rightarrow>
      let n = cmd_count cmd; open = e \<and> v AND 0x400 = 0 in
      if cmd = 0x6 then (w, (m, v, True))
      else if cmd = 0x80000844 then
        (w, (if open then blit m (1024 * (unat a div 1024)) (replicate 1024 0xFF) else m, v, False))
      else if cmd = 0x2c09F then ([0xC8, 0x40, 23, 0] @ drop 4 w, c)
      else if cmd = 0x0C005 then ([ucast v, 0, 0, 0] @ drop 4 w, c)
      else if cmd = 0x0C035 then ([ucast (drop_bit 8 v), 0, 0, 0] @ drop 4 w, c)
      else if cmd = 0x1A001 then (w, (m, if e then get16 w 0 OR (v AND 0x400) else v, False))
      else if cmd_op cmd = 0x80009042 then
        (w, (if open then blit m (unat a) (map2 (AND) (span m (unat a) n) (take n w)) else m, v, False))
      else if cmd_op cmd = 0xBC00C048 then (span m (unat a) n @ drop n w, c)
      else (w, c))"

lemma gd_exec_counted:
  assumes "k = 0x80009042 \<or> k = 0xBC00C048" and "0 < n" and "n \<le> 1024"
  shows "gd_exec (k OR push_bit 16 (of_nat (n - 1))) a w (m, v, e) =
    (if k = 0x80009042 then
       (w, (if e \<and> v AND 0x400 = 0 then blit m (unat a) (map2 (AND) (span m (unat a) n) (take n w)) else m, v, False))
     else (span m (unat a) n @ drop n w, (m, v, e)))"
proof -
  let ?k = "k OR push_bit 16 (of_nat (n - 1)) :: u32"
  have "k AND 0x3FF0000 = 0" "cmd_op k = k" using assms(1) by (auto simp: cmd_op_def)
  then have o: "cmd_op ?k = k" "cmd_count ?k = n" using cmd_field [of "n - 1" k] assms(2,3) by simp_all
  then have "?k \<noteq> 0x6" "?k \<noteq> 0x80000844" "?k \<noteq> 0x2c09F" "?k \<noteq> 0x0C005" "?k \<noteq> 0x0C035" "?k \<noteq> 0x1A001"
    using assms(1) by (auto simp: cmd_op_def)
  then show ?thesis using o assms(1) by (auto simp: gd_exec_def Let_def)
qed

lemma gd_exec_simple:
  "gd_exec 0x6 a w (m, v, e) = (w, (m, v, True))"
  "gd_exec 0x80000844 a w (m, v, e) =
     (w, (if e \<and> v AND 0x400 = 0 then blit m (1024 * (unat a div 1024)) (replicate 1024 0xFF) else m, v, False))"
  "gd_exec 0x2c09F a w (m, v, e) = ([0xC8, 0x40, 23, 0] @ drop 4 w, (m, v, e))"
  "gd_exec 0x0C005 a w (m, v, e) = ([ucast v, 0, 0, 0] @ drop 4 w, (m, v, e))"
  "gd_exec 0x0C035 a w (m, v, e) = ([ucast (drop_bit 8 v), 0, 0, 0] @ drop 4 w, (m, v, e))"
  "gd_exec 0x1A001 a w (m, v, e) = (w, (m, if e then get16 w 0 OR (v AND 0x400) else v, False))"
  by (simp_all add: gd_exec_def Let_def)

lemma gd_exec_window: "length w \<le> length (fst (gd_exec k a w c))"
  by (cases c) (auto simp: gd_exec_def Let_def)

interpretation gd: otp_flash gd_exec fst "\<lambda>c. fst (snd c)" "\<lambda>c. snd (snd c)" "0xC8" 1024 "0x400" True False
proof unfold_locales
  show "4 \<le> length (fst (gd_exec k a w c))" if "4 \<le> length w" for k a w c
    using gd_exec_window [of w k a c] that by linarith
qed (auto simp: gd_exec_simple gd_exec_counted split_paired_all take_span simp del: of_nat_diff One_nat_def)

text \<open>The driver on that chip, its registers erased and not locked, all blocks protected.\<close>

definition demo_otp :: "gd fls" where
  "demo_otp = \<lparr>inside_fls = Some \<lparr>flashid = 0xC8, density = 0x800000, eraseSize = 1024, pageSize = 256\<rparr>,
     fls_cache = replicate 4096 0, cache_aligned = True, gsflscache = None, gsSector = 0, flash_cr = 1,
     flash_addr = 0, window = replicate 1024 0, chip = (\<lambda>_. 0xFF, 0x027C, False)\<rparr>"

section \<open>Properties\<close>

lemma sint_unat:
  fixes x :: u32
  assumes "unat x < 2 ^ 31"
  shows "sint x = int (unat x)"
proof -
  have "int (unat x) < 2 ^ 31" using assms by (metis of_nat_less_iff of_nat_numeral of_nat_power)
  moreover have "- (2 ^ 31) \<le> int (unat x)" by (rule order_trans [of _ 0]) simp_all
  ultimately have "signed_take_bit 31 (int (unat x)) = int (unat x)" by (intro signed_take_bit_int_eq_self)
  then show ?thesis unfolding sint_uint uint_nat by simp
qed

lemma luat_otp_addr_nat:
  assumes "0 \<le> zone" and "zone \<le> 2" and "unat offset < 4096"
  shows "unat (luat_otp_addr zone offset) = nat (zone + 1) * 4096 + unat offset"
proof -
  have z: "zone \<in> {0, 1, 2}" using assms(1,2) by auto
  then have "unat (of_int ((zone + 1) * 0x1000) :: u32) = nat (zone + 1) * 4096" by auto
  then show ?thesis using z assms(3) by (auto simp: luat_otp_addr_def unat_word_ariths)
qed

text \<open>
  C23.  What \<^verbatim>\<open>luat_otp_write\<close> stores in a security register, \<^verbatim>\<open>luat_otp_read\<close> returns: for every zone, offset and
  length inside the register the write changes exactly the named bytes, although the driver saves,
  erases and reprograms the whole register, and the read that follows delivers them and their number.
  A read has to stay below 1024 bytes counted from the preceding multiple of 16.
\<close>

theorem otp_write_read:
  assumes "otp_flash hw otp sr wel mid esz lbm both each" and "otp_ready mid esz s" and "sr (chip s) AND lbm = 0"
    and "0 \<le> zone" and "zone \<le> 2" and "0 < len" and "unat offset + unat len \<le> esz" and "unat len \<le> length bs"
    and "unat offset mod 16 + unat len < 1024"
  shows "\<exists>s1 s2. luat_otp_write hw True zone (Some bs) offset len s = (0, s1) \<and>
    otp (chip s1) = blit (otp (chip s)) (nat (zone + 1) * 4096 + unat offset) (take (unat len) bs) \<and>
    luat_otp_read hw zone False offset len s1 = (int (unat len), take (unat len) bs, s2) \<and>
    otp (chip s2) = otp (chip s1)"
proof -
  let ?a = "luat_otp_addr zone offset"
  have len: "0 < unat len" using assms(6) by (simp add: word_less_nat_alt)
  note e = otp_flash.esz_cases [OF assms(1)]
  have a: "unat ?a = nat (zone + 1) * 4096 + unat offset"
    using luat_otp_addr_nat [OF assms(4,5)] e assms(7) len by force
  have "esz dvd nat (zone + 1) * 4096" using e by (auto intro: dvd_mult)
  then obtain q where "nat (zone + 1) * 4096 = esz * q" by (auto simp only: dvd_def)
  then have m: "unat ?a mod esz = unat offset" using a assms(7) len by simp
  have m16: "unat ?a mod 16 = unat offset mod 16" 
    using mod_mult_self1 [of "unat offset" "nat (zone + 1) * 256" 16] by (simp add: a add.commute mult.assoc)
  have top: "unat ?a < 2 ^ 25" using a e assms(4,5,7) len by auto
  have sint: "sint len = int (unat len)" using e assms(7) by (intro sint_unat) auto
  show ?thesis
    using otp_flash.write_then_read [OF assms(1-3) top _ assms(8)] m m16 assms(4,5,7,9) a sint
    by (fastforce simp: luat_otp_write_def luat_otp_read_def)
qed

theorem otp_write_read_witness:
  "\<exists>s1 s2. luat_otp_write gd_exec True 1 (Some [1, 2, 3]) 0xFE 3 demo_otp = (0, s1) \<and>
    fst (chip s1) = blit (\<lambda>_. 0xFF) 0x20FE [1, 2, 3] \<and>
    luat_otp_read gd_exec 1 False 0xFE 3 s1 = (3, [1, 2, 3], s2) \<and> fst (chip s2) = fst (chip s1)"
  using otp_write_read [OF gd.otp_flash_axioms, of demo_otp 1 3 "0xFE" "[1, 2, 3]"]
  by (simp add: otp_ready_def demo_otp_def)

text \<open>
  C8.  The status registers.  \<^verbatim>\<open>tls_flash_unlock\<close> clears exactly the block-protect bits and the complement
  bit, whichever way the manufacturer's chips are written, and touches neither the security registers
  nor their lock bits; \<^verbatim>\<open>tls_fls_otp_lock\<close> sets exactly the lock bits, and from then on \<^verbatim>\<open>tls_fls_otp_write\<close>
  changes nothing, although it still reports success.
\<close>

theorem flash_status_bits:
  assumes "otp_flash hw otp sr wel mid esz lbm both each" and "otp_ready mid esz s" and "4 \<le> length (window s)"
    and "bp_supported mid both each (density (the (inside_fls s)))" and "lb_supported mid both each lbm"
    and "unat addr < 2 ^ 25" and "unat addr mod esz + unat len \<le> esz" and "unat len \<le> length bs"
  shows "(\<exists>s1. tls_flash_unlock hw s = (0, s1) \<and> sr (chip s1) = sr (chip s) AND 0xBF83 \<and> otp (chip s1) = otp (chip s)) \<and>
    (\<exists>s1 s2. tls_fls_otp_lock hw s = (0, s1) \<and> sr (chip s1) = sr (chip s) OR lbm \<and>
      tls_fls_otp_write hw True addr (Some bs) len s1 = (0, s2) \<and> otp (chip s2) = otp (chip s))"
proof (rule conjI)
  obtain f where f: "inside_fls s = Some f" using assms(2) by (auto simp: otp_ready_def)
  show "\<exists>s1. tls_flash_unlock hw s = (0, s1) \<and> sr (chip s1) = sr (chip s) AND 0xBF83 \<and> otp (chip s1) = otp (chip s)"
    using otp_flash.unlock_ok [OF assms(1) f assms(3)] assms(4) f by simp
qed (rule otp_flash.lock_then_write [OF assms(1-3,5-8)])

theorem flash_status_bits_witness:
  "(\<exists>s1. tls_flash_unlock gd_exec demo_otp = (0, s1) \<and> fst (snd (chip s1)) = 0x0200 \<and> fst (chip s1) = (\<lambda>_. 0xFF)) \<and>
    (\<exists>s1 s2. tls_fls_otp_lock gd_exec demo_otp = (0, s1) \<and> fst (snd (chip s1)) = 0x067C \<and>
      tls_fls_otp_write gd_exec True 0x1000 (Some [7]) 1 s1 = (0, s2) \<and> fst (chip s2) = (\<lambda>_. 0xFF))"
  using flash_status_bits [OF gd.otp_flash_axioms, of demo_otp "0x1000" 1 "[7]"]
  by (simp add: otp_ready_def demo_otp_def bp_supported_def lb_supported_def)

text \<open>
  A read of a whole 1 KiB register in one call asks for 1040 bytes, and the ten bit transfer count makes
  that a transfer of 16: everything past the first 16 bytes is what the window held before.
\<close>

lemma otp_read_kilobyte:
  assumes "inside_fls s = Some f" and "length (window s) = 1024"
  shows "\<exists>s'. tls_fls_otp_read gd_exec 0x1000 False 1024 s =
    (TLS_FLS_STATUS_OK, span (fst (chip s)) 0x1000 16 @ drop 16 (window s), s')"
proof -
  obtain m v e where c: "chip s = (m, v, e)" by (cases "chip s") auto
  have l: "otp_read_len 0x1000 1024 = 1040" by (simp add: otp_read_len_def)
  have "otp_read_cmd 1040 = 0xBC00C048 OR push_bit 16 (of_nat (16 - 1))" by (simp add: otp_read_cmd_def)
  then have x: "gd_exec (otp_read_cmd 1040) 0x1000 (window s) (m, v, e) = (span m 0x1000 16 @ drop 16 (window s), (m, v, e))"
    using gd_exec_counted [of "0xBC00C048" 16 "0x1000" "window s" m v e] by simp
  show ?thesis using assms
    by (simp add: tls_fls_otp_read_def l flash_start_def split_beta x c otp_drain_take Let_def)
qed

end
