(* ===== verification/Flash_Trace.thy ===== *)
theory Flash_Trace
  imports Flash_Otp_Correct
begin

text \<open>
  The commands the internal flash driver sends on the way: which sectors they may change, and a chip that keeps a log of its contents
  after every command.  A power failure leaves the contents of some moment of that log.
\<close>

section \<open>Runs of commands\<close>

text \<open>One command that changes bytes of the sectors \<open>S\<close> only, and runs of them.\<close>

context nor_flash
begin

definition step :: "nat set \<Rightarrow> 'c \<Rightarrow> 'c \<Rightarrow> bool" where
  "step S c c' \<longleftrightarrow> (\<exists>k a w. c' = snd (hw k a w c)) \<and> (\<forall>x. x div 4096 \<notin> S \<longrightarrow> view c' x = view c x)"

definition walk :: "nat set \<Rightarrow> 'c \<Rightarrow> 'c \<Rightarrow> bool" where
  "walk S = (step S)\<^sup>*\<^sup>*"

lemma walk_refl [simp]: "walk S c c"
  by (simp add: walk_def)

lemma walk_trans [trans]: "walk S c d \<Longrightarrow> walk S d e \<Longrightarrow> walk S c e"
  by (simp add: walk_def)

lemma walk_quiet:
  assumes "walk {} c d"
  shows "walk S c d"
proof -
  have "step {} \<le> step S" by (auto simp: step_def)
  from rtranclp_mono [OF this] show ?thesis using assms unfolding walk_def by blast
qed

lemma walk_start:
  "(\<And>x. x div 4096 \<notin> S \<Longrightarrow> V (flash_start hw k s) x = V s x) \<Longrightarrow> walk S (chip s) (chip (flash_start hw k s))"
  unfolding walk_def by (rule r_into_rtranclp) (auto simp: step_def flash_start_def split_beta)

lemma walk_enable: "walk S (chip s) (chip (writeEnable hw s))"
  unfolding writeEnable_def by (rule walk_start) (use writeEnable_view(1) [of s] in \<open>simp add: writeEnable_def\<close>)

lemma walk_erase:
  assumes "unat adr mod 2 ^ 25 < csize" and "(unat adr mod 2 ^ 25) div 4096 = p"
  shows "walk {p} (chip s) (chip (eraseSector hw adr s))"
proof -
  let ?s = "(writeEnable hw s)\<lparr>flash_addr := adr AND 0x1FFFFFF\<rparr>"
  have e: "eraseSector hw adr s = flash_start hw 0x80000820 ?s" by (simp add: eraseSector_def eraseSR_def Let_def)
  have "V (flash_start hw 0x80000820 ?s) x = V ?s x" if "x div 4096 \<notin> {p}" for x
    using eraseSector_view [OF assms(1), of s] that assms(2) unfolding e by (auto simp: blit_apply)
  from walk_start [of "{p}", OF this] show ?thesis
    using walk_trans [OF walk_enable [of "{p}" s], of "chip (eraseSector hw adr s)"] by (simp add: e)
qed

lemma page_in_sector:
  assumes "(a :: nat) mod 256 = 0" and "a \<le> x" and "x < a + 256"
  shows "x div 4096 = a div 4096"
proof -
  obtain q where "a = 256 * q" using assms(1) by auto
  then have "x div 256 = q" "a div 256 = q" using assms(2,3) by (auto intro: div_nat_eqI)
  then show ?thesis using div_mult2_eq [of x 256 16] div_mult2_eq [of a 256 16] by simp
qed

lemma walk_program:
  assumes "unat adr mod 2 ^ 25 < csize" and "unat adr mod 256 = 0" and "length buf = 256" and "(unat adr mod 2 ^ 25) div 4096 = p"
  shows "walk {p} (chip s) (chip (programPage hw adr 256 buf s))"
proof -
  let ?s1 = "s\<lparr>window := buf @ drop 256 (window s)\<rparr>"
  let ?s = "(writeEnable hw ?s1)\<lparr>flash_addr := adr AND 0x1FFFFFF\<rparr>" and ?k = "0x80009002 OR push_bit 16 (of_nat 256 - 1)"
  have e: "programPage hw adr 256 buf s = flash_start hw ?k ?s" using assms(3) by (simp add: programPage_def programSR_def Let_def)
  have "unat adr mod 2 ^ 25 mod 256 = 0" using assms(2) by (simp add: mod_mod_cancel)
  then have page: "x div 4096 = p" if "unat adr mod 2 ^ 25 \<le> x" "x < unat adr mod 2 ^ 25 + 256" for x
    using page_in_sector [OF _ that] assms(4) by simp
  have "V (flash_start hw ?k ?s) x = V ?s x" if "x div 4096 \<notin> {p}" for x
    using programPage_view [OF assms(1-3), of s] that page [of x] assms(3) unfolding e by (auto simp: blit_apply)
  from walk_start [of "{p}", OF this] show ?thesis
    using walk_trans [OF walk_enable [of "{p}" ?s1], of "chip (programPage hw adr 256 buf s)"] by (simp add: e)
qed

lemma walk_pages:
  assumes "addr mod 256 = 0" and "addr + n * 256 \<le> (p + 1) * 4096" and "p * 4096 \<le> addr" and "(p + 1) * 4096 \<le> csize"
    and "length buf = n * 256"
  shows "walk {p} (chip s) (chip (program_pages hw n addr buf s))"
  using assms
proof (induction n arbitrary: addr buf s)
  case (Suc n)
  have a: "addr < 2 ^ 25" using Suc.prems csize_le by simp
  then have u: "unat (of_nat addr :: u32) = addr" by (simp add: unat_of_nat_u32)
  have "addr div 4096 = p" using Suc.prems(2,3) by (intro div_nat_eqI) simp_all
  then have "walk {p} (chip s) (chip (programPage hw (of_nat addr) 256 (take 256 buf) s))"
    using Suc.prems a by (intro walk_program) (simp_all add: u)
  also have "walk {p} (chip (programPage hw (of_nat addr) 256 (take 256 buf) s)) (chip (program_pages hw (Suc n) addr buf s))"
    using Suc.IH [of "addr + 256" "drop 256 buf"] Suc.prems by simp
  finally show ?case .
qed simp

lemma walk_read_quad:
  assumes "0 < n" and "n \<le> 1024"
  shows "walk {} (chip s) (chip (snd (read_quad hw addr n s)))"
proof -
  obtain k where k: "k \<in> {0xEC00C0EB, 0xB400C00B, 0xBC00C00B}"
    and w: "read_cmd_word (flash_cr s) 0xEB n = Some (k OR push_bit 16 (of_nat (n - 1)))"
    using read_cmd_word_quad [OF assms] by blast
  let ?s = "s\<lparr>flash_addr := (of_nat addr :: u32) AND 0x1FFFFFF\<rparr>"
  have "chip (snd (read_quad hw addr n s)) = chip (flash_start hw (k OR push_bit 16 (of_nat (n - 1))) ?s)"
    by (simp add: read_quad_def readByCMD_raw_def w Let_def)
  moreover have "walk {} (chip ?s) (chip (flash_start hw (k OR push_bit 16 (of_nat (n - 1))) ?s))"
    by (rule walk_start) (simp add: flash_start_def split_beta chip_read_keeps [OF k assms] del: One_nat_def)
  ultimately show ?thesis by simp
qed

lemma walk_read_chunks: "0 < sz \<Longrightarrow> sz \<le> 1024 \<Longrightarrow> walk {} (chip s) (chip (snd (read_chunks hw n sz addr s)))"
proof (induction n arbitrary: addr s)
  case (Suc n)
  show ?case
    using walk_trans [OF walk_read_quad [OF Suc.prems, of s addr] Suc.IH [OF Suc.prems]] by (simp add: split_beta Let_def)
qed simp

lemma walk_flashRead:
  assumes "addr mod 256 = 0" and "sz mod 4 = 0"
  shows "walk {} (chip s) (chip (snd (flashRead hw addr True sz s)))"
proof -
  define m :: nat where "m = (if sz \<ge> 512 then 1024 else 256)"
  have m: "0 < m" "m \<le> 1024" by (simp_all add: m_def)
  then have "sz mod m \<le> 1024" using mod_less_divisor [OF m(1), of sz] by linarith
  then show ?thesis
    using walk_trans [OF walk_read_chunks [OF m] walk_read_quad [of "sz mod m"]] walk_read_chunks [OF m] assms
    by (simp add: flashRead_def Let_def m_def [symmetric] split_beta)
qed

lemma walk_write_sector:
  assumes "fls_ready csize s" and "(p + 1) * 4096 \<le> csize" and "secoff + length buf \<le> 4096"
  shows "walk {p} (chip s) (chip (write_sector hw p secoff buf s))"
proof -
  have p: "p * 4096 < 2 ^ 25" "p * 4096 mod 2 ^ 25 = p * 4096" using assms(2) csize_le by simp_all
  then have u: "unat (of_nat (p * 4096) :: u32) mod 2 ^ 25 = p * 4096" by (simp add: unat_of_nat_u32 del: of_nat_mult)
  define s1 where "s1 = flashRead_cache hw (p * 4096) s"
  have c: "cache_aligned s" "length (fls_cache s) = 4096" using assms(1) by (auto simp: fls_ready_def)
  have s1: "walk {p} (chip s) (chip s1)" "length (fls_cache s1) = 4096"
    using walk_quiet [OF walk_flashRead [of "p * 4096" 4096 s]] flashRead_cache_ok [of s "p * 4096"] assms(2) c p(2)
    by (auto simp: s1_def flashRead_cache_def split_beta)
  define s2 where "s2 = eraseSector hw (of_nat (p * 4096)) s1"
  have s2: "fls_cache s2 = fls_cache s1"
    by (simp add: s2_def eraseSector_def eraseSR_def writeEnable_def flash_start_def Let_def split_beta del: of_nat_mult)
  have w: "walk {p} (chip s1) (chip s2)"
    unfolding s2_def using assms(2) by (intro walk_erase) (simp_all only: u, simp_all)
  have "walk {p} (chip s2) (chip (write_sector hw p secoff buf s))"
    using walk_pages [of "p * 4096" 16 p "overlay (fls_cache s2) secoff buf" "s2\<lparr>fls_cache := overlay (fls_cache s2) secoff buf\<rparr>"]
      assms(2,3) s1(2) s2
    by (simp add: write_sector_def Let_def s1_def [symmetric] s2_def [symmetric] del: of_nat_mult)
  then show ?thesis using s1(1) w walk_trans by blast
qed

lemma walk_fls_write:
  assumes "fls_ready csize s" and "unat addr mod 2 ^ 27 = off" and "0 < unat len" and "off mod 4096 + unat len \<le> 4096"
    and "(off div 4096 + 1) * 4096 \<le> csize" and "unat len \<le> length buf"
  shows "walk {off div 4096} (chip s) (chip (snd (tls_fls_write hw addr (Some buf) len s)))"
proof -
  have o: "unat (addr AND (INSIDE_FLS_BASE_ADDR - 1)) = off" using assms(2) by simp
  have m: "min (unat len) (4096 - off mod 4096) = unat len" using assms(4) by simp
  have "walk {off div 4096} (chip s) (chip (write_sector hw (off div 4096) (off mod 4096) (take (unat len) buf) s))"
    using walk_write_sector [OF assms(1,5), of "off mod 4096" "take (unat len) buf"] assms(4,6) by simp
  then show ?thesis unfolding tls_fls_write_def Let_def o m by (auto simp: min_def split: option.split)
qed

end

section \<open>A log of the contents\<close>

definition logged :: "('c \<Rightarrow> nat \<Rightarrow> u8) \<Rightarrow> 'c hw \<Rightarrow> ('c \<times> (nat \<Rightarrow> u8) list) hw" where
  "logged view hw cmd a w c = (let (w', c') = hw cmd a w (fst c) in (w', c', snd c @ [view c']))"

lemma logged_simps [simp]:
  "fst (logged view hw cmd a w c) = fst (hw cmd a w (fst c))"
  "fst (snd (logged view hw cmd a w c)) = snd (hw cmd a w (fst c))"
  "snd (snd (logged view hw cmd a w c)) = snd c @ [view (snd (hw cmd a w (fst c)))]"
  by (simp_all add: logged_def split_beta)

lemma logged_nor:
  assumes "nor_flash hw view wel csize"
  shows "nor_flash (logged view hw) (view \<circ> fst) (wel \<circ> fst) csize"
  using assms unfolding nor_flash_def by simp

text \<open>Every entry the log gains on a run keeps what the changed sectors do not concern.\<close>

lemma walk_log:
  assumes "nor_flash hw view wel csize" and "nor_flash.walk (logged view hw) (view \<circ> fst) S c d"
    and "J (view (fst c))" and "\<And>u v. J u \<Longrightarrow> (\<And>x. x div 4096 \<notin> S \<Longrightarrow> v x = u x) \<Longrightarrow> J v"
    and "last (snd c) = view (fst c)"
  shows "J (view (fst d)) \<and> (\<exists>L. snd d = snd c @ L \<and> (\<forall>v \<in> set L. J v)) \<and> last (snd d) = view (fst d)"
  using assms(2) unfolding nor_flash.walk_def [OF logged_nor [OF assms(1)]]
proof (induction rule: rtranclp_induct)
  case base
  then show ?case using assms(3,5) by simp
next
  case (step d e)
  obtain L where L: "snd d = snd c @ L" "\<forall>v \<in> set L. J v" using step.IH by blast
  obtain k a w where e: "e = snd (logged view hw k a w d)" "\<And>x. x div 4096 \<notin> S \<Longrightarrow> view (fst e) x = view (fst d) x"
    using step.hyps(2) nor_flash.step_def [OF logged_nor [OF assms(1)]] by auto
  have "J (view (fst e))" using assms(4) step.IH e(2) by blast
  then show ?case using L e(1) by (auto intro!: exI [of _ "L @ [view (fst e)]"])
qed

lemma walk_log_span:
  assumes "nor_flash hw view wel csize" and "nor_flash.walk (logged view hw) (view \<circ> fst) S c d"
    and "\<And>x. a \<le> x \<Longrightarrow> x < a + n \<Longrightarrow> x div 4096 \<notin> S" and "span (view (fst c)) a n = b" and "last (snd c) = view (fst c)"
  obtains L where "snd d = snd c @ L" and "\<forall>v \<in> set L. span v a n = b" and "last (snd d) = view (fst d)"
proof -
  have "span (view (fst d)) a n = b \<and> (\<exists>L. snd d = snd c @ L \<and> (\<forall>v \<in> set L. span v a n = b)) \<and> last (snd d) = view (fst d)"
  proof (rule walk_log [OF assms(1,2)])
    show "span v a n = b" if "span u a n = b" "\<And>x. x div 4096 \<notin> S \<Longrightarrow> v x = u x" for u v
      using that(1) span_cong [of a n v u] that(2) assms(3) by metis
  qed (rule assms)+
  then show ?thesis using that by blast
qed

end
