(* ===== verification/Efuse_Correct.thy ===== *)
theory Efuse_Correct
  imports Efuse Flash_Trace
begin

text \<open>
  What the virtual efuse guarantees on a NOR flash whose contents the status register commands leave
  alone (locale \<open>nor_flash_sr\<close>, an extension of \<open>nor_flash\<close>): a parameter that was set survives a restart,
  and a power failure at any moment of \<^verbatim>\<open>tls_ft_param_set\<close> leaves the old or the new block.
\<close>

section \<open>Layout of the image\<close>

lemma adc_unit: "csizeof (CStruct FT_ADC_CAL_UINT_ST) = 4" "falign FT_ADC_CAL_UINT_ST = 2"
  by (simp_all add: FT_ADC_CAL_UINT_ST_def csizeof.simps(5) align_up_def numeral_2_eq_2 [symmetric])

lemma ft_sizes [simp]:
  "csizeof (CStruct FT_ADC_CAL_ST) = 36" "csizeof (CStruct FT_TEMP_CAL_ST) = 8" "FT_SIZE = 140"
  using adc_unit
  by (simp_all add: FT_ADC_CAL_ST_def FT_TEMP_CAL_ST_def FT_PARAM_ST_def csizeof.simps(5) align_up_def)

lemma ft_aligns [simp]: "falign FT_ADC_CAL_ST = 4" "falign FT_TEMP_CAL_ST = 4" "falign FT_PARAM_ST = 4" "falign FT_PARAM_ST_EXT_1 = 4"
  by (simp_all add: FT_ADC_CAL_ST_def FT_TEMP_CAL_ST_def FT_PARAM_ST_def FT_PARAM_ST_EXT_1_def adc_unit(2))

lemma ext1_members: "members FT_PARAM_ST_EXT_1 0 =
  [(''rf_freq_err'', 0, 4), (''rf_cal_flag'', 4, 4), (''adc_cal_param'', 8, 36), (''temp_cal_param'', 44, 8)]"
  by (simp add: FT_PARAM_ST_EXT_1_def align_up_def)

lemma ext1_size [simp]: "EXT1_SIZE = 52"
proof -
  have "fend FT_PARAM_ST_EXT_1 0 = 52" by (simp add: FT_PARAM_ST_EXT_1_def align_up_def)
  then show ?thesis by (simp add: csizeof.simps(5) align_up_def)
qed

lemma ver1_members: "members FT_PARAM_ST_VER1 0 =
  [(''ft_param'', 0, 140), (''ext_checksum'', 140, 4), (''ft_ext1'', 144, 52), (''_reversed'', 196, 32)]"
  by (simp add: FT_PARAM_ST_VER1_def align_up_def)

lemma ver1_size [simp]: "VER1_SIZE = 228"
proof -
  have "fend FT_PARAM_ST_VER1 0 = 228" "falign FT_PARAM_ST_VER1 = 4" by (simp_all add: FT_PARAM_ST_VER1_def align_up_def)
  then show ?thesis by (simp add: csizeof.simps(5) align_up_def)
qed

lemma ft_members: "members FT_PARAM_ST 0 =
  [(''magic_no'', 0, 4), (''checksum'', 4, 4), (''wifi_mac_addr'', 8, 6), (''wifi_macap_addr'', 14, 6),
   (''version_no'', 20, 2), (''bt_mac_addr'', 22, 6), (''ext_param_len'', 28, 2), (''tx_dcoffset'', 32, 4),
   (''rx_dcoffset'', 36, 4), (''tx_iq_gain'', 40, 4), (''rx_iq_gain'', 44, 4), (''tx_iq_phase'', 48, 4),
   (''rx_iq_phase'', 52, 4), (''tx_gain'', 56, 84)]"
  by (simp add: FT_PARAM_ST_def align_up_def)

lemma ft_offsets [simp]:
  "ft_at ''magic_no'' = 0" "ft_at ''checksum'' = 4" "ft_at ''wifi_mac_addr'' = 8" "ft_at ''wifi_macap_addr'' = 14"
  "ft_at ''version_no'' = 20" "ft_at ''bt_mac_addr'' = 22" "ft_at ''ext_param_len'' = 28" "ft_at ''tx_dcoffset'' = 32"
  "ft_at ''rx_dcoffset'' = 36" "ft_at ''tx_iq_gain'' = 40" "ft_at ''rx_iq_gain'' = 44" "ft_at ''tx_iq_phase'' = 48"
  "ft_at ''rx_iq_phase'' = 52" "ft_at ''tx_gain'' = 56"
  by (simp_all add: ft_at_def member_def ft_members)

lemma ver1_offsets [simp]: "ver1_at ''ext_checksum'' = 140" "ver1_at ''ft_ext1'' = 144"
  by (simp_all add: ver1_at_def member_def ver1_members)

lemma ext_offsets [simp]:
  "ext_at ''rf_freq_err'' = 144" "ext_at ''rf_cal_flag'' = 148" "ext_at ''adc_cal_param'' = 152"
  by (simp_all add: ext_at_def member_def ext1_members ver1_members)

section \<open>Sealed images\<close>

definition ft_sealed :: "crc_engine \<Rightarrow> u8 list \<Rightarrow> bool" where
  "ft_sealed eng b \<longleftrightarrow> length b = 228 \<and> get32 b 0 = SIGNATURE_WORD \<and> get32 b 4 = ft_crc eng (drop 8 b) 132 \<and>
     ft_ext1_valid b \<and> get32 b 140 = ft_crc eng (drop 144 b) (ext_len b)"

text \<open>The check \<^verbatim>\<open>_ft_param_init\<close> makes of the bytes it read, and the image it leaves.\<close>

definition ft_check :: "crc_engine \<Rightarrow> u8 list \<Rightarrow> int \<times> u8 list" where
  "ft_check eng b =
     (if get32 b 0 = SIGNATURE_WORD then
        (if get32 b 4 \<noteq> ft_crc eng (drop 8 b) 132 then (0, b)
         else if ft_ext1_valid b then (if get32 b 140 = ft_crc eng (drop 144 b) (ext_len b) then (1, b) else (0, b))
         else (2, overlay (overlay b 20 (le16 0xFFFF)) 28 (le16 0xFFFF)))
      else (0, b))"

lemma ft_check_sealed: "ft_sealed eng b \<Longrightarrow> ft_check eng b = (1, b)"
  by (simp add: ft_sealed_def ft_check_def)

lemma length_le [simp]: "length (le32 w) = 4" "length (le16 v) = 2"
  by (simp_all add: le32_def le16_def)

lemma drop_overlay_past: "i + length ys \<le> k \<Longrightarrow> k \<le> length xs \<Longrightarrow> drop k (overlay xs i ys) = drop k xs"
  by (rule nth_equalityI) (auto simp: nth_overlay)

lemma get16_overlay_past:
  assumes "i + length ys \<le> length xs" and "k + 2 \<le> length xs" and "i + length ys \<le> k \<or> k + 2 \<le> i"
  shows "get16 (overlay xs i ys) k = get16 xs k"
  using assms by (auto simp: get16_def nth_overlay)

lemma get32_overlay_past:
  assumes "i + length ys \<le> length xs" and "k + 4 \<le> length xs" and "i + length ys \<le> k \<or> k + 4 \<le> i"
  shows "get32 (overlay xs i ys) k = get32 xs k"
  using assms by (auto simp: get32_def nth_overlay)

lemma ext_fields_overlay:
  assumes "length g = 228" and "i + length ys \<le> 228" and "i + length ys \<le> 20 \<or> 22 \<le> i \<and> i + length ys \<le> 28 \<or> 30 \<le> i"
  shows "ft_ext1_valid (overlay g i ys) = ft_ext1_valid g" and "ext_len (overlay g i ys) = ext_len g"
  using assms get16_overlay_past [of i ys g 20] get16_overlay_past [of i ys g 28]
  by (auto simp: ft_ext1_valid_def ext_len_def Let_def)

lemma ft_seal_sealed:
  assumes "length g = 228" and "ft_ext1_valid g"
  shows "ft_sealed eng (ft_seal eng g)"
proof -
  define g1 where "g1 = overlay g 140 (le32 (ft_crc eng (drop 144 g) (ext_len g)))"
  define g2 where "g2 = overlay g1 0 (le32 SIGNATURE_WORD)"
  define g3 where "g3 = overlay g2 4 (le32 (ft_crc eng (drop 8 g2) 132))"
  have l: "length g1 = 228" "length g2 = 228" "length g3 = 228" using assms(1) by (simp_all add: g1_def g2_def g3_def)
  have v: "ft_ext1_valid g3" "ext_len g3 = ext_len g"
    using assms l by (simp_all add: g3_def g2_def g1_def ext_fields_overlay)
  have d: "drop 144 g3 = drop 144 g" "drop 8 g3 = drop 8 g2"
    using l assms(1) by (simp_all add: g3_def g2_def g1_def drop_overlay_past)
  have "get32 g3 0 = SIGNATURE_WORD" "get32 g3 4 = ft_crc eng (drop 8 g2) 132"
    "get32 g3 140 = ft_crc eng (drop 144 g) (ext_len g)"
    using l assms(1) by (simp_all add: g3_def g2_def g1_def get32_overlay_past)
  then have "ft_sealed eng g3" using l v d by (simp add: ft_sealed_def)
  then show ?thesis by (simp add: ft_seal_def Let_def g1_def g2_def g3_def)
qed

lemma length_ft_seal [simp]: "length g = 228 \<Longrightarrow> length (ft_seal eng g) = 228"
  by (simp add: ft_seal_def Let_def)

lemma ft_seal_keeps:
  assumes "length g = 228" and "8 \<le> k \<and> k + n \<le> 140 \<or> 144 \<le> k \<and> k + n \<le> 228"
  shows "take n (drop k (ft_seal eng g)) = take n (drop k g)"
  using assms by (auto simp: ft_seal_def Let_def take_drop_overlay_other)

lemma ft_make_ext_valid:
  assumes "length g = 228"
  shows "length (ft_make_ext g) = 228" and "ft_ext1_valid (ft_make_ext g)"
proof -
  let ?g = "overlay (overlay (overlay g 20 (le16 1)) 28 (le16 52)) 144 (replicate 52 0xFF)"
  have l: "length ?g = 228" using assms by simp
  have "get16 ?g 20 = 1" "get16 ?g 28 = 52" using assms by (simp_all add: get16_overlay_past)
  then have "ft_ext1_valid ?g" by (simp add: ft_ext1_valid_def)
  then show "length (ft_make_ext g) = 228" "ft_ext1_valid (ft_make_ext g)"
    using assms l by (auto simp: ft_make_ext_def Let_def)
qed

text \<open>
  An image of the old format keeps its frequency error behind the block; giving it an extension
  fills the extension with \<^verbatim>\<open>0xFF\<close> and the stored value is not taken over.
\<close>

lemma legacy_freq_err_lost:
  assumes "length g = 228" and "\<not> ft_ext1_valid g"
  shows "take 4 (drop (ext_at ''rf_freq_err'') (ft_make_ext g)) = replicate 4 0xFF"
  using assms by (simp add: ft_make_ext_def Let_def overlay_def)

section \<open>Requests\<close>

text \<open>
  \<open>ft_usable\<close>: the RAM image is sealed, or the device has no valid runtime copy yet.  \<open>ft_slot\<close>: a range of the
  image that holds neither a checksum nor the version and length fields.
\<close>

definition ft_usable :: "crc_engine \<Rightarrow> (nat \<Rightarrow> u8) \<Rightarrow> u8 list \<Rightarrow> bool" where
  "ft_usable eng m g \<longleftrightarrow> length g = 228 \<and> (ft_sealed eng g \<or> fst (ft_check eng (span m 4096 228)) = 0)"

definition ft_slot :: "nat \<Rightarrow> nat \<Rightarrow> bool" where
  "ft_slot off n \<longleftrightarrow> 8 \<le> off \<and> off + n \<le> 20 \<or> 22 \<le> off \<and> off + n \<le> 28 \<or> 32 \<le> off \<and> off + n \<le> 140 \<or>
     144 \<le> off \<and> off + n \<le> 228"

definition ft_updated :: "crc_engine \<Rightarrow> nat \<Rightarrow> u8 list \<Rightarrow> u8 list \<Rightarrow> u8 list" where
  "ft_updated eng off bs g = ft_seal eng (overlay (ft_make_ext g) off bs)"

lemma ft_updated_ok:
  assumes "length g = 228" and "ft_slot off (length bs)"
  shows "ft_sealed eng (ft_updated eng off bs g)" and "length (ft_updated eng off bs g) = 228"
    and "take (length bs) (drop off (ft_updated eng off bs g)) = bs"
proof -
  let ?g = "overlay (ft_make_ext g) off bs"
  have l: "length (ft_make_ext g) = 228" "ft_ext1_valid (ft_make_ext g)" using ft_make_ext_valid [OF assms(1)] by auto
  have b: "off + length bs \<le> 228" using assms(2) by (auto simp: ft_slot_def)
  have g: "length ?g = 228" "ft_ext1_valid ?g"
    using l b assms(2) ext_fields_overlay [OF l(1) b] by (auto simp: ft_slot_def)
  show "ft_sealed eng (ft_updated eng off bs g)" "length (ft_updated eng off bs g) = 228"
    using ft_seal_sealed [OF g] g(1) by (simp_all add: ft_updated_def)
  have "take (length bs) (drop off ?g) = bs" using l(1) b by simp
  then show "take (length bs) (drop off (ft_updated eng off bs g)) = bs"
    using ft_seal_keeps [OF g(1), of off "length bs" eng] assms(2) by (auto simp: ft_updated_def ft_slot_def)
qed

section \<open>The flash below\<close>

locale nor_flash_sr = nor_flash +
  assumes status_cmds: "k \<in> {0x0C005, 0x0C035, 0x1A001, 0xA001, 0xA031, 0x0C085, 0x0A0C1} \<Longrightarrow>
    view (snd (hw k a w c)) = view c"
begin

text \<open>Steps that leave the contents of the flash and the driver's variables alone.\<close>

definition quiet :: "'a fls \<Rightarrow> 'a fls \<Rightarrow> bool" where
  "quiet s s' \<longleftrightarrow> V s' = V s \<and> drv_keeps s s' \<and> walk {} (chip s) (chip s')"

lemma quiet_refl [simp]: "quiet s s"
  by (simp add: quiet_def)

lemma quiet_trans [trans]: "quiet s t \<Longrightarrow> quiet t u \<Longrightarrow> quiet s u"
  using drv_keeps_trans walk_trans by (auto simp: quiet_def)

lemma quiet_start:
  assumes "view (snd (hw k (flash_addr s) (window s) (chip s))) = V s"
  shows "quiet s (flash_start hw k s)"
proof -
  have "V (flash_start hw k s) = V s" using assms by (simp add: flash_start_def split_beta)
  moreover have "drv_keeps s (flash_start hw k s)" by (simp add: flash_start_def drv_keeps_def split_beta)
  ultimately show ?thesis using walk_start [of "{}" k s] by (simp add: quiet_def)
qed

lemma quiet_window: "quiet s (s\<lparr>window := w\<rparr>)"
  by (simp add: quiet_def drv_keeps_def)

lemma quiet_status:
  "k \<in> {0x0C005, 0x0C035, 0x0C085} \<Longrightarrow> quiet s (snd (read_sr hw k s))"
  "k \<in> {0x1A001, 0xA001, 0xA031, 0x0A0C1} \<Longrightarrow> quiet s (write_sr hw k v s)"
  "quiet s (snd (readRID hw s))"
proof -
  show "quiet s (snd (read_sr hw k s))" if "k \<in> {0x0C005, 0x0C035, 0x0C085}"
    using that quiet_start [of k s] status_cmds [of k] by (auto simp: read_sr_def Let_def)
  show "quiet s (write_sr hw k v s)" if k: "k \<in> {0x1A001, 0xA001, 0xA031, 0x0A0C1}"
  proof -
    let ?s = "(writeEnable hw s)\<lparr>window := overlay (window (writeEnable hw s)) 0 (le32 v)\<rparr>"
    have "quiet s (writeEnable hw s)" using write_enable(2) by (simp add: writeEnable_def quiet_start)
    also have "quiet (writeEnable hw s) ?s" by (rule quiet_window)
    also have "quiet ?s (flash_start hw k ?s)" using k status_cmds [of k] by (intro quiet_start) auto
    finally show ?thesis by (simp add: write_sr_def Let_def)
  qed
  show "quiet s (snd (readRID hw s))" using chip_id by (simp add: readRID_def quiet_start Let_def)
qed

lemma quiet_read_status: "quiet s (snd (read_status hw s))"
  using quiet_trans [OF quiet_status(1) [of "0x0C005"] quiet_status(1) [of "0x0C035"]]
  by (simp add: read_status_def split_beta)

lemma quiet_writeBp:
  "quiet s (writeBpBit_for_1wreg hw c b4 b3 b2 b1 b0 s)" "quiet s (writeBpBit_for_2wreg hw c b4 b3 b2 b1 b0 s)"
  "quiet s (writeESMTBpBit hw c b4 b3 b2 b1 b0 s)"
proof -
  note w = quiet_status(2) and st = quiet_read_status [of s]
  show "quiet s (writeBpBit_for_1wreg hw c b4 b3 b2 b1 b0 s)"
    using quiet_trans [OF st w [of "0x1A001"]] st by (simp add: writeBpBit_for_1wreg_def split_beta Let_def)
  show "quiet s (writeBpBit_for_2wreg hw c b4 b3 b2 b1 b0 s)"
    using quiet_trans [OF st w [of "0xA001"]] quiet_trans [OF st w [of "0xA031"]] st
      quiet_trans [OF quiet_trans [OF st w [of "0xA001"]] w [of "0xA031"]]
    by (simp add: writeBpBit_for_2wreg_def split_beta Let_def)
  show "quiet s (writeESMTBpBit hw c b4 b3 b2 b1 b0 s)"
    using quiet_trans [OF quiet_trans [OF quiet_trans [OF quiet_status(1) [of "0x0C005"] w [of "0xA001"]]
        quiet_status(1) [of "0x0C085"]] w [of "0x0A0C1"]]
    by (simp add: writeESMTBpBit_def split_beta Let_def)
qed

lemma quiet_unlock: "quiet s (snd (tls_flash_unlock hw s))"
proof -
  have "quiet s (snd (write_bp_by_chip hw f c b4 b3 b2 b1 b0 s))" for f c b4 b3 b2 b1 b0
    using quiet_trans [OF quiet_status(3) quiet_writeBp(1)] quiet_trans [OF quiet_status(3) quiet_writeBp(2)]
      quiet_trans [OF quiet_status(3) quiet_writeBp(3)] quiet_status(3) [of s]
    by (simp add: write_bp_by_chip_def split_beta Let_def)
  then show ?thesis by (simp add: tls_flash_unlock_def flashunlock_def split: option.split)
qed

lemma quiet_ready: "quiet s s' \<Longrightarrow> fls_ready n s \<Longrightarrow> fls_ready n s'"
  using fls_ready_keeps by (auto simp: quiet_def)

subsection \<open>Loading and storing a copy\<close>

text \<open>The two places of the block, as flash offsets.\<close>

definition ft_place :: "u32 \<Rightarrow> nat \<Rightarrow> bool" where
  "ft_place addr off \<longleftrightarrow> addr = FT_MAGICNUM_ADDR \<and> off = 0 \<or> addr = FT_PARAM_RUNTIME_ADDR \<and> off = 4096"

lemma ft_param_init_ok:
  assumes "fls_ready csize d" and "8192 \<le> csize" and "ft_place addr off" and "length pft = 228"
  shows "\<exists>d'. ft_param_init hw eng addr pft d =
    (fst (ft_check eng (span (V d) off 228)), snd (ft_check eng (span (V d) off 228)), d') \<and> quiet d d'"
proof -
  have "unat addr mod 2 ^ 27 = off" "off + 228 \<le> csize" using assms(2,3) by (auto simp: ft_place_def)
  then obtain d' where d': "tls_fls_read hw addr (Some True) 228 d = (TLS_FLS_STATUS_OK, span (V d) off 228, d')"
    "V d' = V d" "drv_keeps d d'"
    using tls_fls_read_ok [OF assms(1), of 228 addr True] by auto
  have "unat addr mod 256 = 0" using assms(3) by (auto simp: ft_place_def)
  from walk_flashRead [OF this, of 228 d] have "quiet d d'"
    using d' by (auto simp: tls_fls_read_def quiet_def split_beta Let_def split: option.splits if_splits)
  then show ?thesis using assms(4) d'(1) by (auto simp: ft_param_init_def ft_check_def Let_def)
qed

lemma ft_verify_ok:
  assumes "fls_ready csize d" and "8192 \<le> csize" and "ft_place addr off" and "ft_sealed eng g"
  shows "\<exists>d'. ft_verify hw eng addr g d = (span (V d) off 228 = g, d') \<and> quiet d d'"
proof -
  have l: "length ft_blank = 228" by (simp add: ft_blank_def)
  let ?b = "span (V d) off 228"
  have "fst (ft_check eng ?b) \<noteq> 0 \<and> snd (ft_check eng ?b) = g \<longleftrightarrow> ?b = g"
  proof
    assume h: "fst (ft_check eng ?b) \<noteq> 0 \<and> snd (ft_check eng ?b) = g"
    have "\<not> ft_ext1_valid (overlay (overlay ?b 20 (le16 0xFFFF)) 28 (le16 0xFFFF))"
      by (simp add: ft_ext1_valid_def get16_overlay_past)
    then have "g \<noteq> overlay (overlay ?b 20 (le16 0xFFFF)) 28 (le16 0xFFFF)"
      using assms(4) by (auto simp: ft_sealed_def)
    then show "?b = g" using h by (auto simp: ft_check_def split: if_splits)
  next
    assume "?b = g"
    then show "fst (ft_check eng ?b) \<noteq> 0 \<and> snd (ft_check eng ?b) = g" using ft_check_sealed [OF assms(4)] by simp
  qed
  moreover obtain d' where "ft_param_init hw eng addr ft_blank d = (fst (ft_check eng ?b), snd (ft_check eng ?b), d')" "quiet d d'"
    using ft_param_init_ok [OF assms(1-3) l] by blast
  ultimately show ?thesis by (simp add: ft_verify_def)
qed

lemma ft_write_ok:
  assumes "fls_ready csize d" and "8192 \<le> csize" and "ft_place addr off" and "length g = 228"
  shows "\<exists>d'. snd (tls_fls_write hw addr (Some g) 228 d) = d' \<and> V d' = blit (V d) off g \<and> fls_ready csize d' \<and>
    walk {off div 4096} (chip d) (chip d')"
proof -
  have a: "unat addr mod 2 ^ 27 = off" "off + 228 \<le> csize" "off mod 4096 = 0" "(off div 4096 + 1) * 4096 \<le> csize"
    using assms(2,3) by (auto simp: ft_place_def)
  then show ?thesis
    using tls_fls_write_ok [OF assms(1), of 228 addr g] assms(4) fls_ready_keeps [OF _ assms(1)]
      walk_fls_write [OF assms(1) a(1), of 228 g] by auto
qed

lemma ft_store_ok:
  assumes "fls_ready csize (ft_dev s)" and "8192 \<le> csize" and "ft_place addr off" and "ft_sealed eng (gft s)"
  shows "\<exists>s'. ft_store hw eng addr s = (True, s') \<and> V (ft_dev s') = blit (V (ft_dev s)) off (gft s) \<and>
    gft s' = gft s \<and> fls_ready csize (ft_dev s') \<and> walk {off div 4096} (chip (ft_dev s)) (chip (ft_dev s'))"
proof -
  have l: "length (gft s) = 228" using assms(4) by (simp add: ft_sealed_def)
  obtain d where d: "snd (tls_fls_write hw addr (Some (gft s)) 228 (ft_dev s)) = d"
    "V d = blit (V (ft_dev s)) off (gft s)" "fls_ready csize d" "walk {off div 4096} (chip (ft_dev s)) (chip d)"
    using ft_write_ok [OF assms(1-3) l] by blast
  obtain d' where v: "ft_verify hw eng addr (gft s) d = (span (V d) off 228 = gft s, d')" "quiet d d'"
    using ft_verify_ok [OF d(3) assms(2-4)] by blast
  have "walk {off div 4096} (chip (ft_dev s)) (chip d')" using walk_trans [OF d(4) walk_quiet] v(2) by (simp add: quiet_def)
  then show ?thesis using d l v quiet_ready [of d d' csize] by (auto simp: ft_store_def Let_def quiet_def)
qed

lemma blank_length: "length ft_blank = 228"
  by (simp add: ft_blank_def)

lemma ft_secure_backup_ok:
  assumes "fls_ready csize (ft_dev s)" and "8192 \<le> csize" and "ft_usable eng (V (ft_dev s)) (gft s)"
  shows "\<exists>s'. ft_secure_backup hw eng s = (True, s') \<and> gft s' = gft s \<and> fls_ready csize (ft_dev s') \<and>
    (V (ft_dev s') = V (ft_dev s) \<or> V (ft_dev s') = blit (V (ft_dev s)) 0 (gft s)) \<and>
    (fst (ft_check eng (span (V (ft_dev s)) 4096 228)) \<noteq> 0 \<longrightarrow> span (V (ft_dev s')) 0 228 = gft s) \<and>
    walk {0} (chip (ft_dev s)) (chip (ft_dev s'))"
proof -
  let ?r = "ft_check eng (span (V (ft_dev s)) 4096 228)"
  have p: "ft_place FT_PARAM_RUNTIME_ADDR 4096" "ft_place FT_MAGICNUM_ADDR 0" by (simp_all add: ft_place_def)
  obtain d1 where r: "ft_param_init hw eng FT_PARAM_RUNTIME_ADDR ft_blank (ft_dev s) = (fst ?r, snd ?r, d1)" "quiet (ft_dev s) d1"
    using ft_param_init_ok [OF assms(1,2) p(1) blank_length] by blast
  have d1: "fls_ready csize d1" "V d1 = V (ft_dev s)" using quiet_ready [OF r(2) assms(1)] r(2) by (auto simp: quiet_def)
  have q: "quiet d d' \<Longrightarrow> walk {0} (chip d) (chip d')" for d d' using walk_quiet by (auto simp: quiet_def)
  show ?thesis
  proof (cases "fst ?r = 0")
    case True
    then show ?thesis using r(1) d1 q [OF r(2)] by (simp add: ft_secure_backup_def)
  next
    case False
    then have seal: "ft_sealed eng (gft s)" "length (gft s) = 228" using assms(3) by (auto simp: ft_usable_def)
    obtain d2 where v: "ft_verify hw eng FT_MAGICNUM_ADDR (gft s) d1 = (span (V d1) 0 228 = gft s, d2)" "quiet d1 d2"
      using ft_verify_ok [OF d1(1) assms(2) p(2) seal(1)] by blast
    have d2: "fls_ready csize d2" "V d2 = V (ft_dev s)" using quiet_ready [OF v(2) d1(1)] v(2) d1(2) by (auto simp: quiet_def)
    show ?thesis
    proof (cases "span (V d1) 0 228 = gft s")
      case True
      then show ?thesis using False r(1) v(1) d1 d2 q [OF quiet_trans [OF r(2) v(2)]] by (simp add: ft_secure_backup_def)
    next
      case F: False
      define d3 where "d3 = snd (tls_flash_unlock hw d2)"
      have d3: "fls_ready csize d3" "V d3 = V (ft_dev s)"
        using quiet_unlock [of d2] quiet_ready [OF quiet_unlock d2(1)] d2(2) by (auto simp: quiet_def d3_def)
      obtain d4 where d4: "snd (tls_fls_write hw FT_MAGICNUM_ADDR (Some (gft s)) 228 d3) = d4" "V d4 = blit (V d3) 0 (gft s)"
        "fls_ready csize d4" "walk {0} (chip d3) (chip d4)" using ft_write_ok [OF d3(1) assms(2) p(2) seal(2)] by auto
      obtain d5 where d5: "ft_verify hw eng FT_MAGICNUM_ADDR (gft s) d4 = (span (V d4) 0 228 = gft s, d5)" "quiet d4 d5"
        using ft_verify_ok [OF d4(3) assms(2) p(2) seal(1)] by blast
      have "quiet (ft_dev s) d3" using quiet_trans [OF quiet_trans [OF r(2) v(2)] quiet_unlock] by (simp add: d3_def)
      then have "walk {0} (chip (ft_dev s)) (chip d5)" using q d4(4) q [OF d5(2)] walk_trans by blast
      then show ?thesis
        using False F r(1) v(1) d4 d5 d3(2) seal(2) quiet_ready [of d4 d5]
        by (auto simp: ft_secure_backup_def Let_def d3_def [symmetric] quiet_def)
    qed
  qed
qed

lemma ft_init_loads:
  assumes "fls_ready csize (ft_dev t)" and "8192 \<le> csize" and "get32 (gft t) 0 \<noteq> SIGNATURE_WORD" and "ft_sealed eng b"
    and "span (V (ft_dev t)) 4096 228 = b \<or>
      fst (ft_check eng (span (V (ft_dev t)) 4096 228)) = 0 \<and> span (V (ft_dev t)) 0 228 = b"
  shows "\<exists>t'. tls_ft_param_init hw eng True t = (1, t') \<and> gft t' = b \<and> quiet (ft_dev t) (ft_dev t')"
proof -
  let ?r = "ft_check eng (span (V (ft_dev t)) 4096 228)"
  have p: "ft_place FT_PARAM_RUNTIME_ADDR 4096" "ft_place FT_MAGICNUM_ADDR 0" by (simp_all add: ft_place_def)
  have l: "length b = 228" using assms(4) by (simp add: ft_sealed_def)
  obtain d1 where r: "ft_param_init hw eng FT_PARAM_RUNTIME_ADDR ft_blank (ft_dev t) = (fst ?r, snd ?r, d1)" "quiet (ft_dev t) d1"
    using ft_param_init_ok [OF assms(1,2) p(1) blank_length] by blast
  have d1: "fls_ready csize d1" "V d1 = V (ft_dev t)" using quiet_ready [OF r(2) assms(1)] r(2) by (auto simp: quiet_def)
  obtain d2 where b: "ft_param_init hw eng FT_MAGICNUM_ADDR ft_blank d1 =
    (fst (ft_check eng (span (V d1) 0 228)), snd (ft_check eng (span (V d1) 0 228)), d2)" "quiet d1 d2"
    using ft_param_init_ok [OF d1(1) assms(2) p(2) blank_length] by blast
  consider "?r = (1, b)" | "fst ?r = 0" "ft_check eng (span (V d1) 0 228) = (1, b)"
    using assms(5) ft_check_sealed [OF assms(4)] d1(2) by auto
  then show ?thesis
  proof cases
    case 1
    then show ?thesis
      using r quiet_trans [OF r(2) quiet_unlock] assms(3) l by (simp add: tls_ft_param_init_def blank_length)
  next
    case 2
    then show ?thesis
      using r b quiet_trans [OF quiet_trans [OF r(2) b(2)] quiet_unlock] assms(3) l
      by (simp add: tls_ft_param_init_def blank_length)
  qed
qed

lemma ft_set_ok:
  assumes "fls_ready csize (ft_dev s)" and "8192 \<le> csize" and "ft_usable eng (V (ft_dev s)) (gft s)"
    and "ft_target opnum len = Some (off, n)" and "ft_slot off n" and "n \<le> length data" and "0 < len"
  shows "\<exists>s'. tls_ft_param_set hw eng True opnum (Some data) len s = Some (0, s') \<and>
    gft s' = ft_updated eng off (take n data) (gft s) \<and> fls_ready csize (ft_dev s') \<and>
    V (ft_dev s') = blit (blit (V (ft_dev s)) 4096 (gft s')) 0 (gft s') \<and>
    (\<exists>c1 c2. walk {0} (chip (ft_dev s)) c1 \<and> walk {1} c1 c2 \<and> walk {0} c2 (chip (ft_dev s')) \<and>
       (fst (ft_check eng (span (V (ft_dev s)) 4096 228)) \<noteq> 0 \<longrightarrow> span (view c1) 0 228 = gft s) \<and>
       span (view c2) 4096 228 = gft s')"
proof -
  have p: "ft_place FT_PARAM_RUNTIME_ADDR 4096" "ft_place FT_MAGICNUM_ADDR 0" by (simp_all add: ft_place_def)
  have g: "length (gft s) = 228" using assms(3) by (simp add: ft_usable_def)
  define s0 where "s0 = s\<lparr>ft_dev := snd (tls_flash_unlock hw (ft_dev s))\<rparr>"
  have s0: "fls_ready csize (ft_dev s0)" "V (ft_dev s0) = V (ft_dev s)" "gft s0 = gft s"
    using quiet_unlock [of "ft_dev s"] quiet_ready [OF quiet_unlock assms(1)] by (auto simp: s0_def quiet_def)
  then have "ft_usable eng (V (ft_dev s0)) (gft s0)" using assms(3) by simp
  from ft_secure_backup_ok [OF s0(1) assms(2) this] obtain s1
    where s1: "ft_secure_backup hw eng s0 = (True, s1)" "gft s1 = gft s" "fls_ready csize (ft_dev s1)"
      "V (ft_dev s1) = V (ft_dev s) \<or> V (ft_dev s1) = blit (V (ft_dev s)) 0 (gft s)"
      "fst (ft_check eng (span (V (ft_dev s)) 4096 228)) \<noteq> 0 \<longrightarrow> span (V (ft_dev s1)) 0 228 = gft s"
      "walk {0} (chip (ft_dev s0)) (chip (ft_dev s1))" using s0 by auto
  let ?new = "ft_updated eng off (take n data) (gft s)"
  have new: "ft_sealed eng ?new" "length ?new = 228" using ft_updated_ok [OF g, of off "take n data"] assms(5,6) by simp_all
  define s2 where "s2 = s1\<lparr>gft := ?new, ft_dev := snd (tls_flash_unlock hw (ft_dev s1))\<rparr>"
  have s2: "fls_ready csize (ft_dev s2)" "V (ft_dev s2) = V (ft_dev s1)" "gft s2 = ?new"
    using quiet_unlock [of "ft_dev s1"] quiet_ready [OF quiet_unlock s1(3)] by (auto simp: s2_def quiet_def)
  obtain s3 where s3: "ft_store hw eng FT_PARAM_RUNTIME_ADDR s2 = (True, s3)" "V (ft_dev s3) = blit (V (ft_dev s2)) 4096 ?new"
    "gft s3 = ?new" "fls_ready csize (ft_dev s3)" "walk {1} (chip (ft_dev s2)) (chip (ft_dev s3))"
    using ft_store_ok [OF s2(1) assms(2) p(1), of eng] s2(3) new(1) by auto
  obtain s4 where s4: "ft_store hw eng FT_MAGICNUM_ADDR s3 = (True, s4)" "V (ft_dev s4) = blit (V (ft_dev s3)) 0 ?new"
    "gft s4 = ?new" "fls_ready csize (ft_dev s4)" "walk {0} (chip (ft_dev s3)) (chip (ft_dev s4))"
    using ft_store_ok [OF s3(4) assms(2) p(2), of eng] s3(3) new(1) by auto
  have lock: "snd (tls_flash_lock (ft_dev s4)) = ft_dev s4" by (simp add: tls_flash_lock_def split: option.split)
  have "V (ft_dev s4) = blit (blit (V (ft_dev s)) 4096 ?new) 0 ?new"
    using s1(4) s2(2) s3(2) s4(2) new(2) g blit_commute [of 0 "gft s" 4096 ?new "V (ft_dev s)"] by auto
  moreover have "tls_ft_param_set hw eng True opnum (Some data) len s = Some (0, s4)"
    using s1(1,2) s3(1) s4(1) assms(4,6,7) ft_make_ext_valid(1) [OF g] assms(5) lock
    by (auto simp: tls_ft_param_set_def s0_def [symmetric] Let_def ft_slot_def ft_updated_def [symmetric] s2_def [symmetric])
  moreover have "walk {0} (chip (ft_dev s)) (chip (ft_dev s1))" "walk {1} (chip (ft_dev s1)) (chip (ft_dev s3))"
    using walk_trans [OF _ s1(6)] walk_trans [OF _ s3(5)] walk_quiet quiet_unlock by (auto simp: s0_def s2_def quiet_def)
  moreover have "span (V (ft_dev s3)) 4096 228 = ?new" using s3(2) new(2) by simp
  ultimately show ?thesis using s4 s1(5) by fastforce
qed

end

section \<open>Getting what was set\<close>

text \<open>
  The requests whose value comes back: lengths that fit the member, addresses the getters do not
  replace by the default.
\<close>

definition ft_request :: "u32 \<Rightarrow> nat \<Rightarrow> u8 list \<Rightarrow> bool" where
  "ft_request opnum len data \<longleftrightarrow> 0 < len \<and> (opnum \<in> {1, 2, 3} \<longrightarrow> len = 6) \<and> (opnum = 11 \<longrightarrow> len \<le> 36) \<and>
     (opnum \<in> {1, 2} \<longrightarrow> \<not> bad_wifi_mac data) \<and>
     (opnum = 3 \<longrightarrow> take 6 data \<noteq> replicate 6 0xFF \<and> take 6 data \<noteq> replicate 6 0) \<and>
     (case ft_target opnum len of None \<Rightarrow> False | Some (off, n) \<Rightarrow> n \<le> length data)"

lemma bad_wifi_mac_take: "bad_wifi_mac (take 6 xs) = bad_wifi_mac xs"
  by (simp add: bad_wifi_mac_def)

lemma ft_request_slot:
  assumes "ft_request opnum len data" and "ft_target opnum len = Some (off, n)"
  shows "ft_slot off n" and "n \<le> length data" and "0 < len"
  using assms by (auto simp: ft_request_def ft_target_def ft_slot_def split: if_splits)

lemma ft_get_stored:
  assumes "ft_request opnum len data" and "ft_target opnum len = Some (off, n)" and "length (gft t) = 228"
    and "ft_ext1_valid (gft t)" and "take n (drop off (gft t)) = take n data" and "n \<le> length buf"
  shows "tls_ft_param_get hw opnum buf len t = Some (0, overlay buf 0 (take n data), t)"
proof -
  have out: "copy_out buf (drop off (gft t)) n = Some (overlay buf 0 (take n data))"
    using ft_request_slot(1) [OF assms(1,2)] assms(3,5,6) by (auto simp: copy_out_def ft_slot_def)
  have mac: "\<not> bad_wifi_mac (drop off (gft t))" if "opnum \<in> {1, 2}" "n = 6"
    using that assms(1,5) bad_wifi_mac_take [of data] bad_wifi_mac_take [of "drop off (gft t)"] by (auto simp: ft_request_def)
  show ?thesis
    using assms(1,2,4,5) out mac
    by (auto simp: ft_target_def tls_ft_param_get_def get_ext_word_def ft_request_def Let_def split: if_splits)
qed

section \<open>A reference chip\<close>

interpretation nor_sr: nor_flash_sr nor_exec fst snd "2 ^ 23"
  by unfold_locales (auto simp: nor_exec_def cmd_op_def Let_def)

section \<open>Properties\<close>

text \<open>
  C13.  A parameter that was set is kept.  From a usable image \<^verbatim>\<open>tls_ft_param_set\<close> succeeds, stores the sealed
  block in both places and changes nothing else of the flash; \<^verbatim>\<open>tls_ft_param_get\<close> returns the value at
  once and again after a restart, when \<^verbatim>\<open>tls_ft_param_init\<close> has loaded the block from the flash.
\<close>

theorem ft_set_survives:
  assumes "nor_flash_sr hw view wel csize" and "8192 \<le> csize" and "fls_ready csize (ft_dev s)"
    and "ft_usable eng (view (chip (ft_dev s))) (gft s)" and "ft_request opnum len data"
    and "ft_target opnum len = Some (off, n)" and "n \<le> length buf"
  shows "\<exists>s'. tls_ft_param_set hw eng True opnum (Some data) len s = Some (0, s') \<and>
    view (chip (ft_dev s')) = blit (blit (view (chip (ft_dev s))) 4096 (gft s')) 0 (gft s') \<and>
    tls_ft_param_get hw opnum buf len s' = Some (0, overlay buf 0 (take n data), s') \<and>
    (\<forall>t. fls_ready csize (ft_dev t) \<and> view (chip (ft_dev t)) = view (chip (ft_dev s')) \<and>
         get32 (gft t) 0 \<noteq> SIGNATURE_WORD \<longrightarrow>
       (\<exists>t'. tls_ft_param_init hw eng True t = (1, t') \<and>
          tls_ft_param_get hw opnum buf len t' = Some (0, overlay buf 0 (take n data), t')))"
proof -
  note slot = ft_request_slot [OF assms(5,6)]
  obtain s' where s': "tls_ft_param_set hw eng True opnum (Some data) len s = Some (0, s')"
    "gft s' = ft_updated eng off (take n data) (gft s)"
    "view (chip (ft_dev s')) = blit (blit (view (chip (ft_dev s))) 4096 (gft s')) 0 (gft s')"
    using nor_flash_sr.ft_set_ok [OF assms(1,3,2,4,6) slot] by blast
  have g: "length (gft s) = 228" using assms(4) by (simp add: ft_usable_def)
  have new: "ft_sealed eng (gft s')" "length (gft s') = 228" "take n (drop off (gft s')) = take n data"
    using ft_updated_ok [OF g, of off "take n data" eng] slot(1,2) by (simp_all add: s'(2) min_absorb2)
  then have "ft_ext1_valid (gft s')" by (simp add: ft_sealed_def)
  note get = ft_get_stored [OF assms(5,6) _ _ _ assms(7)]
  have run: "span (view (chip (ft_dev s'))) 4096 228 = gft s'"
    using new(2) by (simp add: s'(3) span_blit_disjoint)
  have "\<exists>t'. tls_ft_param_init hw eng True t = (1, t') \<and>
      tls_ft_param_get hw opnum buf len t' = Some (0, overlay buf 0 (take n data), t')"
    if "fls_ready csize (ft_dev t)" "view (chip (ft_dev t)) = view (chip (ft_dev s'))" "get32 (gft t) 0 \<noteq> SIGNATURE_WORD" for t
    using nor_flash_sr.ft_init_loads [OF assms(1) that(1) assms(2) that(3) new(1)] that(2) run get new
      \<open>ft_ext1_valid (gft s')\<close> by metis
  then show ?thesis using s' get new \<open>ft_ext1_valid (gft s')\<close> by blast
qed

definition demo_ft :: "nor ft_state" where
  "demo_ft = \<lparr>gft = replicate 228 0xFF, ft_dev = demo_fls\<rparr>"

lemma get32_blank: "get32 (replicate 228 0xFF) 0 = 0xFFFFFFFF"
proof -
  have "replicate 228 0xFF = [0xFF, 0xFF, 0xFF, 0xFF] @ replicate 224 (0xFF :: u8)"
    using replicate_add [of 4 224 "0xFF :: u8"] by (simp add: numeral_eq_Suc)
  then show ?thesis by (simp add: get32_def)
qed

lemma demo_ft_usable: "ft_usable eng (fst (chip (ft_dev demo_ft))) (gft demo_ft)"
proof -
  have "span (\<lambda>_. 0xFF :: u8) 4096 228 = replicate 228 0xFF" by (rule nth_equalityI) simp_all
  then show ?thesis by (simp add: ft_usable_def demo_ft_def demo_fls_def ft_check_def get32_blank)
qed

theorem ft_set_survives_witness:
  "\<exists>s'. tls_ft_param_set nor_exec ref_engine True 1 (Some [0x28, 0x6D, 0xCD, 1, 2, 3]) 6 demo_ft = Some (0, s') \<and>
    tls_ft_param_get nor_exec 1 (replicate 6 0) 6 s' = Some (0, [0x28, 0x6D, 0xCD, 1, 2, 3], s')"
proof -
  have r: "ft_request 1 6 [0x28, 0x6D, 0xCD, 1, 2, 3]" by (simp add: ft_request_def bad_wifi_mac_def ft_target_def)
  have t: "ft_target 1 6 = Some (8, 6)" by (simp add: ft_target_def)
  have "fls_ready (2 ^ 23) (ft_dev demo_ft)" by (simp add: demo_ft_def demo_ready del: power_numeral)
  from ft_set_survives [OF nor_sr.nor_flash_sr_axioms _ this demo_ft_usable r t, of "replicate 6 0" ref_engine]
  show ?thesis by (auto simp: overlay_def)
qed

section \<open>Power failure\<close>

lemma logged_sr:
  assumes "nor_flash_sr hw view wel csize"
  shows "nor_flash_sr (logged view hw) (view \<circ> fst) (wel \<circ> fst) csize"
  using assms logged_nor unfolding nor_flash_sr_def nor_flash_sr_axioms_def by fastforce

text \<open>A log that grows by entries with a common property.\<close>

lemma successively_grow:
  assumes "successively Q xs" and "J (last xs)" and "\<forall>v \<in> set ys. J v" and "\<And>u v. J u \<Longrightarrow> J v \<Longrightarrow> Q u v"
  shows "successively Q (xs @ ys)"
proof -
  have "successively Q ys" using assms(3,4) by (induction ys rule: induct_list012) auto
  then show ?thesis using assms by (cases ys) (simp_all add: successively_append_iff)
qed

text \<open>
  The moments of \<^verbatim>\<open>tls_ft_param_set\<close>: before and after every command the runtime copy is the old block, or the
  backup is the old block, or the runtime copy is the new block.
\<close>

definition ft_moment :: "u8 list \<Rightarrow> u8 list \<Rightarrow> (nat \<Rightarrow> u8) \<Rightarrow> (nat \<Rightarrow> u8) \<Rightarrow> bool" where
  "ft_moment old new u v \<longleftrightarrow>
     (\<exists>(off, b) \<in> {(4096, old), (0, old), (4096, new)}. span u off 228 = b \<and> span v off 228 = b)"

lemma ft_set_log:
  assumes "nor_flash_sr hw view wel csize" and "8192 \<le> csize" and "fls_ready csize (ft_dev s)"
    and "chip (ft_dev s) = (c0, [view c0])" and "ft_sealed eng (gft s)" and "span (view c0) 4096 228 = gft s"
    and "ft_request opnum len data" and "ft_target opnum len = Some (off, n)"
  shows "\<exists>s'. tls_ft_param_set (logged view hw) eng True opnum (Some data) len s = Some (0, s') \<and>
    gft s' = ft_updated eng off (take n data) (gft s) \<and> ft_sealed eng (gft s') \<and>
    snd (chip (ft_dev s')) = view c0 # tl (snd (chip (ft_dev s'))) \<and> last (snd (chip (ft_dev s'))) = blit (blit (view c0) 4096 (gft s')) 0 (gft s') \<and>
    successively (ft_moment (gft s) (gft s')) (snd (chip (ft_dev s')))"
proof -
  note sr = logged_sr [OF assms(1)]
  have nf: "nor_flash hw view wel csize" using assms(1) by (simp add: nor_flash_sr_def)
  note slot = ft_request_slot [OF assms(7,8)]
  have g: "length (gft s) = 228" and u: "ft_usable eng ((view \<circ> fst) (chip (ft_dev s))) (gft s)"
    using assms(5) by (simp_all add: ft_usable_def ft_sealed_def)
  let ?W = "nor_flash.walk (logged view hw) (view \<circ> fst)"
  obtain s' c1 c2 where s': "tls_ft_param_set (logged view hw) eng True opnum (Some data) len s = Some (0, s')"
    "gft s' = ft_updated eng off (take n data) (gft s)"
    and w: "?W {0} (chip (ft_dev s)) c1" "?W {1} c1 c2" "?W {0} c2 (chip (ft_dev s'))"
    and c': "fst (ft_check eng (span ((view \<circ> fst) (chip (ft_dev s))) 4096 228)) \<noteq> 0 \<longrightarrow> span ((view \<circ> fst) c1) 0 228 = gft s"
      "span ((view \<circ> fst) c2) 4096 228 = gft s'"
    and v: "(view \<circ> fst) (chip (ft_dev s')) = blit (blit ((view \<circ> fst) (chip (ft_dev s))) 4096 (gft s')) 0 (gft s')"
    using nor_flash_sr.ft_set_ok [OF sr assms(3,2) u assms(8) slot] by blast
  have c: "span (view (fst c1)) 0 228 = gft s" "span (view (fst c2)) 4096 228 = gft s'"
    using c' assms(4,6) ft_check_sealed [OF assms(5)] by simp_all
  let ?old = "gft s" and ?new = "gft s'"
  have sec: "x div 4096 \<notin> {0}" if "4096 \<le> x" for x :: nat using that by simp
  have sec1: "x div 4096 \<notin> {1}" if "x < 0 + 228" for x :: nat using that by simp
  have i: "span (view (fst (chip (ft_dev s)))) 4096 228 = ?old" "last (snd (chip (ft_dev s))) = view (fst (chip (ft_dev s)))"
    using assms(4,6) by simp_all
  obtain L1 where l1': "snd c1 = snd (chip (ft_dev s)) @ L1" "\<forall>v \<in> set L1. span v 4096 228 = ?old" "last (snd c1) = view (fst c1)"
    by (rule walk_log_span [OF nf w(1) sec i])
  then have l1: "snd c1 = [view c0] @ L1" using assms(4) by simp
  obtain L2 where l2: "snd c2 = snd c1 @ L2" "\<forall>v \<in> set L2. span v 0 228 = ?old" "last (snd c2) = view (fst c2)"
    by (rule walk_log_span [OF nf w(2) sec1 c(1) l1'(3)])
  obtain L3 where l3: "snd (chip (ft_dev s')) = snd c2 @ L3" "\<forall>v \<in> set L3. span v 4096 228 = ?new"
    "last (snd (chip (ft_dev s'))) = view (fst (chip (ft_dev s')))"
    by (rule walk_log_span [OF nf w(3) sec c(2) l2(3)])
  let ?Q = "ft_moment ?old ?new"
  have "successively ?Q (snd c1)" unfolding l1
    by (rule successively_grow [where J = "\<lambda>v. span v 4096 228 = ?old"]) (use l1'(2) assms(6) in \<open>auto simp: ft_moment_def\<close>)
  then have "successively ?Q (snd c2)" unfolding l2(1)
    by (rule successively_grow [where J = "\<lambda>v. span v 0 228 = ?old"]) (use l1'(3) l2(2) c(1) in \<open>auto simp: ft_moment_def\<close>)
  then have "successively ?Q (snd (chip (ft_dev s')))" unfolding l3(1)
    by (rule successively_grow [where J = "\<lambda>v. span v 4096 228 = ?new"]) (use l2(3) l3(2) c(2) in \<open>auto simp: ft_moment_def\<close>)
  moreover have "ft_sealed eng ?new" using ft_updated_ok(1) [OF g] slot(1,2) by (simp add: s'(2) min_absorb2)
  moreover have "snd (chip (ft_dev s')) = view c0 # tl (snd (chip (ft_dev s')))" by (simp add: l3(1) l2(1) l1)
  moreover have "last (snd (chip (ft_dev s'))) = blit (blit (view c0) 4096 ?new) 0 ?new" using l3(3) v assms(4) by simp
  ultimately show ?thesis using s' by blast
qed

text \<open>
  C6.  \<^verbatim>\<open>tls_ft_param_set\<close> survives a power failure at any moment.  The chip logs its contents after every command it receives.  The
  device is in sync when the call starts: the image in RAM is sealed and is the runtime copy.  If the power fails during any of the
  commands the call sends, the flash keeps every byte that this command does not change, and the others are arbitrary.  The next
  start loads the new block when the runtime copy is the new block, and the old block in every other case, provided that a runtime copy that is
  neither of the two fails its checks.
\<close>

theorem ft_power_cut:
  assumes "nor_flash_sr hw view wel csize" and "8192 \<le> csize" and "fls_ready csize (ft_dev s)"
    and "chip (ft_dev s) = (c0, [view c0])" and "ft_sealed eng (gft s)" and "span (view c0) 4096 228 = gft s"
    and "ft_request opnum len data" and "ft_target opnum len = Some (off, n)"
  shows "\<exists>s' log new. tls_ft_param_set (logged view hw) eng True opnum (Some data) len s = Some (0, s') \<and>
    new = ft_updated eng off (take n data) (gft s) \<and> log = snd (chip (ft_dev s')) \<and>
    log = view c0 # tl log \<and> last log = blit (blit (view c0) 4096 new) 0 new \<and>
    (\<forall>k t. Suc k < length log \<and> (\<forall>x. (log ! k) x = (log ! Suc k) x \<longrightarrow> view (chip (ft_dev t)) x = (log ! k) x) \<and>
       fls_ready csize (ft_dev t) \<and> get32 (gft t) 0 \<noteq> SIGNATURE_WORD \<and>
       (span (view (chip (ft_dev t))) 4096 228 \<notin> {gft s, new} \<longrightarrow> fst (ft_check eng (span (view (chip (ft_dev t))) 4096 228)) = 0) \<longrightarrow>
       (\<exists>t'. tls_ft_param_init hw eng True t = (1, t') \<and>
          gft t' = (if span (view (chip (ft_dev t))) 4096 228 = new then new else gft s)))"
proof -
  let ?new = "ft_updated eng off (take n data) (gft s)"
  obtain s' where s': "tls_ft_param_set (logged view hw) eng True opnum (Some data) len s = Some (0, s')"
    "ft_sealed eng ?new" "snd (chip (ft_dev s')) = view c0 # tl (snd (chip (ft_dev s')))"
    "last (snd (chip (ft_dev s'))) = blit (blit (view c0) 4096 ?new) 0 ?new"
    "successively (ft_moment (gft s) ?new) (snd (chip (ft_dev s')))"
    using ft_set_log [OF assms] by metis
  have "\<exists>t'. tls_ft_param_init hw eng True t = (1, t') \<and> gft t' = (if span m 4096 228 = ?new then ?new else gft s)"
    if k: "Suc k < length log" "\<And>x. (log ! k) x = (log ! Suc k) x \<Longrightarrow> m x = (log ! k) x" "log = snd (chip (ft_dev s'))"
      and t: "fls_ready csize (ft_dev t)" "view (chip (ft_dev t)) = m" "get32 (gft t) 0 \<noteq> SIGNATURE_WORD"
      and d: "span m 4096 228 \<notin> {gft s, ?new} \<Longrightarrow> fst (ft_check eng (span m 4096 228)) = 0" for log k m t
  proof -
    have "ft_moment (gft s) ?new (log ! k) (log ! Suc k)" using successively_nth [OF s'(5)] k(1,3) by blast
    then obtain a b where ab: "(a, b) \<in> {(4096, gft s), (0, gft s), (4096, ?new)}" "span (log ! k) a 228 = b" "span (log ! Suc k) a 228 = b"
      by (auto simp: ft_moment_def)
    have "(log ! k) x = (log ! Suc k) x" if "a \<le> x" "x < a + 228" for x
      using arg_cong [OF trans [OF ab(2) ab(3) [symmetric]], of "\<lambda>l. l ! (x - a)"] that by simp
    then have "m x = (log ! k) x" if "a \<le> x" "x < a + 228" for x using k(2) that by blast
    then have b: "span m a 228 = b" using ab(2) by (auto intro!: span_cong)
    note load = nor_flash_sr.ft_init_loads [OF assms(1) t(1) assms(2) t(3), unfolded t(2)]
    show ?thesis
    proof (cases "span m 4096 228 = ?new")
      case True
      then show ?thesis using load [OF s'(2)] by auto
    next
      case False
      then have "span m 4096 228 = gft s \<or> fst (ft_check eng (span m 4096 228)) = 0 \<and> span m 0 228 = gft s"
        using ab(1) b d by auto
      then show ?thesis using False load [OF assms(5)] by auto
    qed
  qed
  note key = this
  show ?thesis
  proof (rule exI [of _ s'], rule exI [of _ "snd (chip (ft_dev s'))"], rule exI [of _ ?new], intro conjI allI impI)
    fix k and t :: "'a ft_state" assume a: "Suc k < length (snd (chip (ft_dev s'))) \<and>
      (\<forall>x. (snd (chip (ft_dev s')) ! k) x = (snd (chip (ft_dev s')) ! Suc k) x \<longrightarrow> view (chip (ft_dev t)) x = (snd (chip (ft_dev s')) ! k) x) \<and>
      fls_ready csize (ft_dev t) \<and> get32 (gft t) 0 \<noteq> SIGNATURE_WORD \<and>
      (span (view (chip (ft_dev t))) 4096 228 \<notin> {gft s, ?new} \<longrightarrow> fst (ft_check eng (span (view (chip (ft_dev t))) 4096 228)) = 0)"
    show "\<exists>t'. tls_ft_param_init hw eng True t = (1, t') \<and>
      gft t' = (if span (view (chip (ft_dev t))) 4096 228 = ?new then ?new else gft s)"
      by (rule key [of k "snd (chip (ft_dev s'))"]) (use a in blast)+
  qed (rule s' refl)+
qed

text \<open>A device in sync: the block of the witness above, stored in both places.\<close>

definition ft_demo_block :: "u8 list" where
  "ft_demo_block = ft_updated ref_engine 8 [0x28, 0x6D, 0xCD, 1, 2, 3] (replicate 228 0xFF)"

definition demo_sync :: "(nor \<times> (nat \<Rightarrow> u8) list) ft_state" where
  "demo_sync = (let m = blit (blit (\<lambda>_. 0xFF) 4096 ft_demo_block) 0 ft_demo_block in
     \<lparr>gft = ft_demo_block, ft_dev = \<lparr>inside_fls = inside_fls demo_fls, fls_cache = fls_cache demo_fls, cache_aligned = True,
       gsflscache = None, gsSector = 0, flash_cr = 1, flash_addr = 0, window = window demo_fls, chip = ((m, False), [m])\<rparr>\<rparr>)"

lemma ft_demo_block_sealed: "ft_sealed ref_engine ft_demo_block" "length ft_demo_block = 228"
  using ft_updated_ok [of "replicate 228 0xFF" 8 "[0x28, 0x6D, 0xCD, 1, 2, 3]" ref_engine]
  by (simp_all add: ft_demo_block_def ft_slot_def)

text \<open>The power fails during the first command of the call: the next start loads the old block.\<close>

definition demo_boot :: "nor ft_state" where
  "demo_boot = \<lparr>gft = replicate 228 0, ft_dev = demo_fls\<lparr>chip := (blit (blit (\<lambda>_. 0xFF) 4096 ft_demo_block) 0 ft_demo_block, False)\<rparr>\<rparr>"

lemma ft_demo_block_blank: "take 4 (drop 32 ft_demo_block) = replicate 4 0xFF"
proof -
  let ?g = "overlay (ft_make_ext (replicate 228 0xFF)) 8 [0x28, 0x6D, 0xCD, 1, 2, 3]"
  have "take 4 (drop 32 (ft_make_ext (replicate 228 0xFF))) = replicate 4 (0xFF :: u8)"
    by (simp add: ft_make_ext_def Let_def take_drop_overlay_other)
  then have "take 4 (drop 32 ?g) = replicate 4 0xFF" using ft_make_ext_valid(1) [of "replicate 228 0xFF"]
    by (simp add: take_drop_overlay_other)
  then show ?thesis using ft_seal_keeps [of ?g 32 4 ref_engine] ft_make_ext_valid(1) [of "replicate 228 0xFF"]
    by (simp add: ft_demo_block_def ft_updated_def)
qed

theorem ft_power_cut_witness:
  "\<exists>s' t'. tls_ft_param_set (logged fst nor_exec) ref_engine True 4 (Some [1, 2, 3, 4]) 4 demo_sync = Some (0, s') \<and>
     Suc 0 < length (snd (chip (ft_dev s'))) \<and> fst (chip (ft_dev demo_boot)) = snd (chip (ft_dev s')) ! 0 \<and>
     tls_ft_param_init nor_exec ref_engine True demo_boot = (1, t') \<and> gft t' = ft_demo_block"
proof -
  let ?m = "blit (blit (\<lambda>_. 0xFF) 4096 ft_demo_block) 0 ft_demo_block" and ?new = "ft_updated ref_engine 32 [1, 2, 3, 4] ft_demo_block"
  have rd: "fls_ready (2 ^ 23) (ft_dev demo_sync)" "fls_ready (2 ^ 23) (ft_dev demo_boot)"
    using demo_ready by (simp_all add: demo_sync_def demo_boot_def demo_fls_def fls_ready_def Let_def)
  have sync: "chip (ft_dev demo_sync) = ((?m, False), [fst (?m, False)])" "gft demo_sync = ft_demo_block"
    by (simp_all add: demo_sync_def Let_def)
  have m: "span (fst (?m, False)) 4096 228 = ft_demo_block" "span ?m 0 228 = ft_demo_block" "fst (chip (ft_dev demo_boot)) = ?m"
    using ft_demo_block_sealed by (simp_all add: demo_boot_def span_blit_disjoint)
  have req: "ft_request 4 4 [1, 2, 3, 4]" "ft_target 4 4 = Some (32, 4)" by (simp_all add: ft_request_def ft_target_def)
  have z: "get32 (gft demo_boot) 0 \<noteq> SIGNATURE_WORD" by (simp add: demo_boot_def get32_def)
  have four: "length [1, 2, 3, 4 :: u8] = 4" by simp
  have "take 4 (drop 32 ?new) = [1, 2, 3, 4]" "length ?new = 228"
    using ft_updated_ok(2,3) [OF ft_demo_block_sealed(2), of 32 "[1, 2, 3, 4]" ref_engine, unfolded four] by (simp_all add: ft_slot_def)
  moreover have "replicate 4 (0xFF :: u8) = [0xFF, 0xFF, 0xFF, 0xFF]" by (simp add: numeral_eq_Suc)
  ultimately have new: "?new \<noteq> ft_demo_block" "length ?new = 228" using ft_demo_block_blank by auto
  have pre: "8192 \<le> (2 ^ 23 :: nat)" "ft_sealed ref_engine (gft demo_sync)" "span (fst (?m, False)) 4096 228 = gft demo_sync"
    using ft_demo_block_sealed(1) m(1) by (simp_all add: sync(2))
  obtain s' log w where s': "tls_ft_param_set (logged fst nor_exec) ref_engine True 4 (Some [1, 2, 3, 4]) 4 demo_sync = Some (0, s')"
    "w = ft_updated ref_engine 32 (take 4 [1, 2, 3, 4]) (gft demo_sync)" "log = snd (chip (ft_dev s'))" "log = fst (?m, False) # tl log"
    "last log = blit (blit (fst (?m, False)) 4096 w) 0 w"
    and all: "\<forall>k t. Suc k < length log \<and> (\<forall>x. (log ! k) x = (log ! Suc k) x \<longrightarrow> fst (chip (ft_dev t)) x = (log ! k) x) \<and>
       fls_ready (2 ^ 23) (ft_dev t) \<and> get32 (gft t) 0 \<noteq> SIGNATURE_WORD \<and>
       (span (fst (chip (ft_dev t))) 4096 228 \<notin> {gft demo_sync, w} \<longrightarrow> fst (ft_check ref_engine (span (fst (chip (ft_dev t))) 4096 228)) = 0) \<longrightarrow>
       (\<exists>t'. tls_ft_param_init nor_exec ref_engine True t = (1, t') \<and>
          gft t' = (if span (fst (chip (ft_dev t))) 4096 228 = w then w else gft demo_sync))"
    using ft_power_cut [OF nor_sr.nor_flash_sr_axioms pre(1) rd(1) sync(1) pre(2,3) req]
    by (elim exE conjE) (rule that; assumption)
  have w: "w = ?new" by (simp add: s'(2) sync(2))
  have "tl log \<noteq> []"
  proof
    assume "tl log = []"
    then have "last log = ?m" using s'(4) by (metis fst_conv last_ConsL)
    then have "span ?m 0 228 = span (blit (blit ?m 4096 ?new) 0 ?new) 0 228" using s'(5) unfolding w by simp
    then show False unfolding m(2) span_blit_same [OF new(2)] using new(1) by simp
  qed
  then obtain v L where "log = fst (?m, False) # v # L" using s'(4) by (metis neq_Nil_conv)
  then have l: "Suc 0 < length log" "log ! 0 = ?m" by simp_all
  have s: "span ?m 4096 228 = ft_demo_block" using m(1) by simp
  obtain t' where "tls_ft_param_init nor_exec ref_engine True demo_boot = (1, t')" "gft t' = ft_demo_block"
    using all [THEN spec, of 0, THEN spec, of demo_boot] l rd(2) z new(1) unfolding m(3) s sync(2) w by (simp only:) force
  then show ?thesis using s'(1) l unfolding m(3) s'(3) by (intro exI [of _ s'] exI [of _ t']) simp
qed

end
