(* ===== verification/Storage.thy ===== *)
theory Storage
  imports Internal_Flash
begin

text \<open>
  The storage ports of the Lua runtime on the internal flash: the block device of its file system,
  \<^verbatim>\<open>app/port/lfs_port.c\<close>, the raw flash interface, \<^verbatim>\<open>app/port/luat_flash_air101.c\<close>, the key-value store's device,
  \<^verbatim>\<open>app/port/luat_sfd_onchip_air101.c\<close>, and the partition addresses of \<^verbatim>\<open>app/port/luat_fs_air101.c\<close>.

  LittleFS itself is not part of the port: \<^verbatim>\<open>lfs_mount\<close> and \<^verbatim>\<open>lfs_format\<close> are arguments of \<open>LFS_Init\<close>.  The
  partition table is generated by the build; \<open>partitions\<close> is its content.  \<open>mem\<close> is the outcome of the page
  cache allocation inside \<^verbatim>\<open>tls_fls_write_without_erase\<close>.
\<close>

section \<open>Partitions\<close>

record partitions =
  kv_addr :: u32
  kv_size_kb :: u32
  luadb_addr :: u32
  luadb_size_kb :: u32
  lfs_addr :: u32
  lfs_size_kb :: u32

text \<open>\<^verbatim>\<open>luat_fs_update_addr\<close>, from the addresses and sizes \<^verbatim>\<open>LUAT_PARTITION_*\<close>.\<close>

definition luat_fs_update_addr :: "u32 \<times> u32 \<Rightarrow> u32 \<times> u32 \<Rightarrow> u32 \<times> u32 \<Rightarrow> partitions" where
  "luat_fs_update_addr kv script fs =
     \<lparr>kv_addr = fst kv, kv_size_kb = snd kv div 1024, luadb_addr = fst script,
      luadb_size_kb = snd script div 1024, lfs_addr = fst fs, lfs_size_kb = snd fs div 1024\<rparr>"

section \<open>The block device of LittleFS\<close>

definition block_device_read ::
  "'c hw \<Rightarrow> partitions \<Rightarrow> u32 \<Rightarrow> u32 \<Rightarrow> bool option \<Rightarrow> u32 \<Rightarrow> 'c fls \<Rightarrow> int \<times> u8 list \<times> 'c fls" where
  "block_device_read hw p block off buffer sz s =
     (let (ret, bs, s) = tls_fls_read hw (block * 4096 + off + lfs_addr p) buffer sz s
      in (if ret \<noteq> TLS_FLS_STATUS_OK then -1 else 0, bs, s))"

definition block_device_prog ::
  "'c hw \<Rightarrow> bool \<Rightarrow> partitions \<Rightarrow> u32 \<Rightarrow> u32 \<Rightarrow> u8 list option \<Rightarrow> u32 \<Rightarrow> 'c fls \<Rightarrow> int \<times> 'c fls" where
  "block_device_prog hw mem p block off buffer sz s =
     (let (ret, s) = tls_fls_write_without_erase hw mem (block * 4096 + off + lfs_addr p) buffer sz s
      in (if ret \<noteq> TLS_FLS_STATUS_OK then -1 else 0, s))"

definition block_device_erase :: "'c hw \<Rightarrow> partitions \<Rightarrow> u32 \<Rightarrow> 'c fls \<Rightarrow> int \<times> 'c fls" where
  "block_device_erase hw p block s =
     (let (ret, s) = tls_fls_erase hw ((block * 4096 + lfs_addr p) div 4096) s
      in (if ret \<noteq> TLS_FLS_STATUS_OK then -1 else 0, s))"

definition block_device_sync :: int where
  "block_device_sync = 0"

definition lfs_statfs_count :: "u32 \<Rightarrow> u32 \<Rightarrow> int \<times> u32" where
  "lfs_statfs_count p b = (0, p + 1)"

text \<open>\<^verbatim>\<open>LFS_Init\<close>: the number of blocks goes into the configuration; a failing mount formats once.\<close>

definition lfs_block_count :: "partitions \<Rightarrow> u32" where
  "lfs_block_count p = lfs_size_kb p * 1024 div 4096"

definition LFS_Init ::
  "(u32 \<Rightarrow> 'f \<Rightarrow> int \<times> 'f) \<Rightarrow> (u32 \<Rightarrow> 'f \<Rightarrow> int \<times> 'f) \<Rightarrow> partitions \<Rightarrow> 'f \<Rightarrow> int \<times> 'f" where
  "LFS_Init mount format p f =
     (let n = lfs_block_count p; (err, f) = mount n f in
      if err \<noteq> 0 then
        (let (err, f) = format n f in
         if err \<noteq> 0 then (err, f)
         else (let (err, f) = mount n f in if err \<noteq> 0 then (err, f) else (0, f)))
      else (0, f))"

section \<open>Raw flash access\<close>

definition luat_flash_read :: "'c hw \<Rightarrow> bool option \<Rightarrow> u32 \<Rightarrow> u32 \<Rightarrow> 'c fls \<Rightarrow> int \<times> u8 list \<times> 'c fls" where
  "luat_flash_read hw buff addr len s = tls_fls_read hw addr buff len s"

definition luat_flash_write :: "'c hw \<Rightarrow> u8 list option \<Rightarrow> u32 \<Rightarrow> u32 \<Rightarrow> 'c fls \<Rightarrow> int \<times> 'c fls" where
  "luat_flash_write hw buff addr len s = tls_fls_write hw addr buff len s"

definition luat_flash_erase :: "'c hw \<Rightarrow> u32 \<Rightarrow> u32 \<Rightarrow> 'c fls \<Rightarrow> int \<times> 'c fls" where
  "luat_flash_erase hw addr len s = (0, snd (tls_fls_erase hw (addr div 4096) s))"

section \<open>The device of the key-value store\<close>

text \<open>\<open>ud\<close> is \<^verbatim>\<open>userdata\<close>: \<open>None\<close> for \<^verbatim>\<open>NULL\<close>, otherwise the address kept in the \<^verbatim>\<open>sfd_onchip_t\<close>.\<close>

definition sfd_onchip_init :: "partitions \<Rightarrow> u32 option \<Rightarrow> int \<times> u32 option" where
  "sfd_onchip_init p ud = (case ud of None \<Rightarrow> (-1, None) | Some _ \<Rightarrow> (0, Some (kv_addr p)))"

definition sfd_onchip_status :: "u32 option \<Rightarrow> int" where
  "sfd_onchip_status ud = 0"

definition sfd_onchip_read ::
  "'c hw \<Rightarrow> u32 option \<Rightarrow> bool option \<Rightarrow> u32 \<Rightarrow> u32 \<Rightarrow> 'c fls \<Rightarrow> int \<times> u8 list \<times> 'c fls" where
  "sfd_onchip_read hw ud buff offset len s =
     (case ud of
        None \<Rightarrow> (-1, [], s)
      | Some a \<Rightarrow>
          (let (ret, bs, s) = tls_fls_read hw (offset + a) buff len s
           in (if ret \<noteq> TLS_FLS_STATUS_OK then -1 else sint len, bs, s)))"

definition sfd_onchip_write ::
  "'c hw \<Rightarrow> bool \<Rightarrow> u32 option \<Rightarrow> u8 list option \<Rightarrow> u32 \<Rightarrow> u32 \<Rightarrow> 'c fls \<Rightarrow> int \<times> 'c fls" where
  "sfd_onchip_write hw mem ud buff offset len s =
     (case ud of
        None \<Rightarrow> (-1, s)
      | Some a \<Rightarrow>
          (let (ret, s) = tls_fls_write_without_erase hw mem (offset + a) buff len s
           in (if ret \<noteq> TLS_FLS_STATUS_OK then -1 else sint len, s)))"

definition sfd_onchip_erase :: "'c hw \<Rightarrow> u32 option \<Rightarrow> u32 \<Rightarrow> u32 \<Rightarrow> 'c fls \<Rightarrow> int \<times> 'c fls" where
  "sfd_onchip_erase hw ud offset len s =
     (case ud of
        None \<Rightarrow> (-1, s)
      | Some a \<Rightarrow>
          (let (ret, s) = tls_fls_erase hw ((offset + a) div 4096) s
           in (if ret \<noteq> TLS_FLS_STATUS_OK then -1 else 0, s)))"

definition sfd_onchip_ioctl :: "u32 option \<Rightarrow> u32 \<Rightarrow> int" where
  "sfd_onchip_ioctl ud cmd = 0"

end
