(* ===== verification/Storage_Correct.thy ===== *)
theory Storage_Correct
  imports Storage Nor_Chip
begin

text \<open>
  The contract of a NOR block device as the file system relies on it, and its proof for the port.

  \<open>clear\<close> is what programming without erasing does: every bit that is 0 in the data or in the flash is 0
  afterwards.  The locale \<open>block_dev\<close> states the four laws of the device (read, program, erase, nothing
  else changes); inside it every sequence of operations is refined to a map from blocks to bytes.  The
  port on any NOR flash satisfies the laws, and the reference chip interprets the locale.
\<close>

section \<open>Programming without erasing\<close>

definition clear :: "(nat \<Rightarrow> u8) \<Rightarrow> nat \<Rightarrow> u8 list \<Rightarrow> nat \<Rightarrow> u8" where
  "clear m a bs = blit m a (map2 (AND) (span m a (length bs)) bs)"

lemma clear_apply: "clear m a bs x = (if a \<le> x \<and> x < a + length bs then m x AND bs ! (x - a) else m x)"
  by (auto simp: clear_def blit_apply)

lemma clear_append: "clear m a (xs @ ys) = clear (clear m a xs) (a + length xs) ys"
  by (rule ext) (auto simp: clear_apply nth_append)

lemma clear_page:
  assumes "po + length ys \<le> n"
  shows "blit m a (map2 (AND) (span m a n) (overlay (span m a n) po ys)) = clear m (a + po) ys"
proof (rule ext)
  fix x
  have l: "length (overlay (span m a n) po ys) = n" using assms by simp
  show "blit m a (map2 (AND) (span m a n) (overlay (span m a n) po ys)) x = clear m (a + po) ys x"
    using assms l by (auto simp: blit_apply clear_apply nth_overlay)
qed

lemma clear_full_page: "length ys = n \<Longrightarrow> blit m a (map2 (AND) (span m a n) ys) = clear m a ys"
  by (simp add: clear_def)

context nor_flash
begin

lemma program_one:
  assumes "P mod 256 = 0" and "P < csize" and "length buf = 256"
  shows "V (programPage hw (of_nat P) 256 buf s) = blit (V s) P (map2 (AND) (span (V s) P 256) buf)"
proof -
  have "P mod 33554432 = P" using assms(2) csize_le by simp
  then show ?thesis
    using programPage_view [of "of_nat P" buf s] assms by (simp add: of_nat_mod_25 of_nat_mod_256)
qed

lemma page_read:
  assumes "P mod 256 = 0" and "P < csize"
  shows "\<exists>s'. flashRead hw P True 256 s = (span (V s) P 256, s') \<and> V s' = V s \<and> ctl_only s s'"
proof -
  have "P mod 33554432 = P" using assms(2) csize_le by simp
  then show ?thesis using flashRead_aligned [of P 256 s] assms page_fits [OF assms]
    by (cases "flashRead hw P True 256 s") auto
qed

lemma write_pages_raw_ok:
  assumes "length cache = 256" and "buf \<noteq> []" and "pp * 256 + length buf \<le> csize"
  shows "V (write_pages_raw hw pp cache buf s) = clear (V s) (pp * 256) buf \<and> drv_keeps s (write_pages_raw hw pp cache buf s)"
  using assms
proof (induction "length buf" arbitrary: pp cache buf s rule: less_induct)
  case less
  have lt: "pp * 256 < csize" using less.prems by (cases buf) auto
  show ?case
  proof (cases "length buf \<le> 256")
    case True
    obtain s1 where r: "flashRead hw (pp * 256) True 256 s = (span (V s) (pp * 256) 256, s1)" "V s1 = V s" "ctl_only s s1"
      using page_read [of "pp * 256" s] lt by auto
    have "V (programPage hw (of_nat (pp * 256)) 256 (overlay (span (V s) (pp * 256) 256) 0 buf) s1) = clear (V s) (pp * 256) buf"
      using program_one [of "pp * 256" "overlay (span (V s) (pp * 256) 256) 0 buf" s1] True lt r(2)
        clear_page [of 0 buf 256 "V s" "pp * 256"] by simp
    then show ?thesis using True r(1,3) ctl_only_keeps [OF ctl_only_trans [OF r(3) ctl_only_programPage]]
      by (simp add: write_pages_raw.simps)
  next
    case False
    let ?c = "overlay cache 0 (take 256 buf)"
    let ?s = "programPage hw (of_nat (pp * 256)) 256 ?c s"
    have c: "?c = take 256 buf" using False less.prems(1) by simp
    have v: "V ?s = clear (V s) (pp * 256) (take 256 buf)"
      using program_one [of "pp * 256" ?c s] False lt clear_full_page [of "take 256 buf" 256 "V s" "pp * 256"] by (simp add: c)
    have step: "write_pages_raw hw pp cache buf s = write_pages_raw hw (Suc pp) ?c (drop 256 buf) ?s"
      using False by (subst write_pages_raw.simps) (simp add: Let_def)
    have "V (write_pages_raw hw (Suc pp) ?c (drop 256 buf) ?s) = clear (V ?s) (Suc pp * 256) (drop 256 buf) \<and>
      drv_keeps ?s (write_pages_raw hw (Suc pp) ?c (drop 256 buf) ?s)"
      using False less.prems c by (intro less.hyps) auto
    moreover have "clear (clear (V s) (pp * 256) (take 256 buf)) (Suc pp * 256) (drop 256 buf) = clear (V s) (pp * 256) buf"
      using False clear_append [of "V s" "pp * 256" "take 256 buf" "drop 256 buf"] by (simp add: add.commute)
    ultimately show ?thesis using v step drv_keeps_trans [OF ctl_only_keeps [OF ctl_only_programPage]] by auto
  qed
qed

lemma write_without_erase_ok:
  assumes "fls_ready csize s" and "0 < len" and "unat addr mod 2 ^ 27 + unat len \<le> csize" and "unat len \<le> length buf"
  shows "\<exists>s'. tls_fls_write_without_erase hw True addr (Some buf) len s = (TLS_FLS_STATUS_OK, s') \<and>
    V s' = clear (V s) (unat addr mod 2 ^ 27) (take (unat len) buf) \<and> drv_keeps s s'"
proof -
  obtain f where f: "inside_fls s = Some f" using assms(1) by (auto simp: fls_ready_def)
  have len: "0 < unat len" using assms(2) by (simp add: word_less_nat_alt)
  define a where "a = unat addr mod 2 ^ 27"
  define pp where "pp = a div 256"
  define po where "po = a mod 256"
  define r where "r = min (unat len) (256 - po)"
  define bs where "bs = take (unat len) buf"
  have a: "a = pp * 256 + po" "po < 256" "a < csize" using len assms(3) by (simp_all add: pp_def po_def a_def)
  have bs: "length bs = unat len" using assms(4) by (simp add: bs_def)
  have r: "r \<le> unat len" "po + r \<le> 256" "0 < r" using len a(2) by (auto simp: r_def)
  have uo: "unat (addr AND (INSIDE_FLS_BASE_ADDR - 1)) = a" by (simp add: a_def)
  have ok: "\<not> fls_bad_args addr len (Some buf = None) f"
    using fls_bad_args_iff [OF f assms(1)] a(3) assms(2) by (auto simp: a_def)
  obtain s1 where rd: "flashRead hw (pp * 256) True 256 s = (span (V s) (pp * 256) 256, s1)" "V s1 = V s" "ctl_only s s1"
    using page_read [of "pp * 256" s] a by auto
  define cache where "cache = overlay (span (V s) (pp * 256) 256) po (take r bs)"
  define s2 where "s2 = programPage hw (of_nat (pp * 256)) 256 cache s1"
  have c: "length cache = 256" using r bs by (simp add: cache_def)
  have s2: "V s2 = clear (V s) a (take r bs)" "drv_keeps s s2"
    using program_one [of "pp * 256" cache s1] c a rd(2) clear_page [of po "take r bs" 256 "V s" "pp * 256"] r bs
      ctl_only_keeps [OF ctl_only_trans [OF rd(3) ctl_only_programPage]]
    by (auto simp: s2_def cache_def)
  define s3 where "s3 = (if unat len = r then s2 else write_pages_raw hw (Suc pp) cache (drop r bs) s2)"
  have "V s3 = clear (V s) a bs \<and> drv_keeps s s3"
  proof (cases "unat len = r")
    case True
    then show ?thesis using s2 bs by (simp add: s3_def)
  next
    case False
    then have r': "r = 256 - po" "a + r = Suc pp * 256" using r a by (auto simp: r_def min_def split: if_splits)
    have "drop r bs \<noteq> []" "Suc pp * 256 + length (drop r bs) \<le> csize"
      using False r bs r'(2) assms(3) by (auto simp: a_def)
    from write_pages_raw_ok [OF c this, of s2] s2 False r'(2) clear_append [of "V s" a "take r bs" "drop r bs"] r(1) bs
    show ?thesis by (auto simp: s3_def min_absorb2 intro: drv_keeps_trans)
  qed
  moreover have "tls_fls_write_without_erase hw True addr (Some buf) len s = (TLS_FLS_STATUS_OK, s3)"
    using f ok rd(1) uo unfolding s3_def s2_def cache_def r_def bs_def po_def pp_def
    by (simp add: tls_fls_write_without_erase_def Let_def)
  ultimately show ?thesis by (simp add: a_def bs_def)
qed

end

section \<open>The contract of a block device\<close>

datatype bd_op = Rd nat nat nat | Pr nat nat "u8 list" | Er nat

text \<open>The abstract device: each block is 4096 bytes, programming clears bits, erasing sets all of them.\<close>

definition put_bits :: "u8 list \<Rightarrow> nat \<Rightarrow> u8 list \<Rightarrow> u8 list" where
  "put_bits xs i ys = overlay xs i (map2 (AND) (take (length ys) (drop i xs)) ys)"

primrec bd_spec :: "bd_op \<Rightarrow> (nat \<Rightarrow> u8 list) \<Rightarrow> u8 list \<times> (nat \<Rightarrow> u8 list)" where
  "bd_spec (Rd b i n) d = (take n (drop i (d b)), d)"
| "bd_spec (Pr b i bs) d = ([], d(b := put_bits (d b) i bs))"
| "bd_spec (Er b) d = ([], d(b := replicate 4096 0xFF))"

primrec bd_fits :: "nat \<Rightarrow> bd_op \<Rightarrow> bool" where
  "bd_fits nb (Rd b i n) \<longleftrightarrow> b < nb \<and> 0 < n \<and> i + n \<le> 4096"
| "bd_fits nb (Pr b i bs) \<longleftrightarrow> b < nb \<and> bs \<noteq> [] \<and> i + length bs \<le> 4096"
| "bd_fits nb (Er b) \<longleftrightarrow> b < nb"

primrec spec_run :: "bd_op list \<Rightarrow> (nat \<Rightarrow> u8 list) \<Rightarrow> u8 list list \<times> (nat \<Rightarrow> u8 list)" where
  "spec_run [] d = ([], d)"
| "spec_run (x # xs) d = (let (out, d) = bd_spec x d; (outs, d) = spec_run xs d in (out # outs, d))"

text \<open>A run of a device: the operation's result code must be 0, otherwise the run stops without a result.\<close>

definition bd_do ::
  "(nat \<Rightarrow> nat \<Rightarrow> nat \<Rightarrow> 's \<Rightarrow> int \<times> u8 list \<times> 's) \<Rightarrow> (nat \<Rightarrow> nat \<Rightarrow> u8 list \<Rightarrow> 's \<Rightarrow> int \<times> 's) \<Rightarrow>
   (nat \<Rightarrow> 's \<Rightarrow> int \<times> 's) \<Rightarrow> bd_op \<Rightarrow> 's \<Rightarrow> int \<times> u8 list \<times> 's" where
  "bd_do rd pr er x s =
     (case x of
        Rd b i n \<Rightarrow> rd b i n s
      | Pr b i bs \<Rightarrow> (let (r, s) = pr b i bs s in (r, [], s))
      | Er b \<Rightarrow> (let (r, s) = er b s in (r, [], s)))"

primrec bd_run ::
  "(bd_op \<Rightarrow> 's \<Rightarrow> int \<times> u8 list \<times> 's) \<Rightarrow> bd_op list \<Rightarrow> 's \<Rightarrow> (u8 list list \<times> 's) option" where
  "bd_run step [] s = Some ([], s)"
| "bd_run step (x # xs) s =
     (let (r, out, s) = step x s in
      if r \<noteq> 0 then None
      else (case bd_run step xs s of None \<Rightarrow> None | Some (outs, s) \<Rightarrow> Some (out # outs, s)))"

locale block_dev =
  fixes ready :: "'s \<Rightarrow> bool"
    and blk :: "'s \<Rightarrow> nat \<Rightarrow> u8 list"
    and rd :: "nat \<Rightarrow> nat \<Rightarrow> nat \<Rightarrow> 's \<Rightarrow> int \<times> u8 list \<times> 's"
    and pr :: "nat \<Rightarrow> nat \<Rightarrow> u8 list \<Rightarrow> 's \<Rightarrow> int \<times> 's"
    and er :: "nat \<Rightarrow> 's \<Rightarrow> int \<times> 's"
    and nb :: nat
  assumes rd_law: "ready s \<Longrightarrow> b < nb \<Longrightarrow> 0 < n \<Longrightarrow> i + n \<le> 4096 \<Longrightarrow>
      \<exists>s'. rd b i n s = (0, take n (drop i (blk s b)), s') \<and> ready s' \<and> blk s' = blk s"
    and pr_law: "ready s \<Longrightarrow> b < nb \<Longrightarrow> bs \<noteq> [] \<Longrightarrow> i + length bs \<le> 4096 \<Longrightarrow>
      \<exists>s'. pr b i bs s = (0, s') \<and> ready s' \<and> blk s' = (blk s)(b := put_bits (blk s b) i bs)"
    and er_law: "ready s \<Longrightarrow> b < nb \<Longrightarrow>
      \<exists>s'. er b s = (0, s') \<and> ready s' \<and> blk s' = (blk s)(b := replicate 4096 0xFF)"
begin

lemma step_refines:
  assumes "ready s" and "bd_fits nb x"
  shows "\<exists>s'. bd_do rd pr er x s = (0, fst (bd_spec x (blk s)), s') \<and> ready s' \<and> blk s' = snd (bd_spec x (blk s))"
proof (cases x)
  case (Rd b i n)
  then show ?thesis using rd_law [OF assms(1), of b n i] assms(2) by (auto simp: bd_do_def)
next
  case (Pr b i bs)
  then show ?thesis using pr_law [OF assms(1), of b bs i] assms(2) by (auto simp: bd_do_def)
next
  case (Er b)
  then show ?thesis using er_law [OF assms(1), of b] assms(2) by (auto simp: bd_do_def)
qed

lemma run_refines:
  assumes "ready s" and "\<forall>x \<in> set xs. bd_fits nb x"
  shows "\<exists>s'. bd_run (bd_do rd pr er) xs s = Some (fst (spec_run xs (blk s)), s') \<and> ready s' \<and>
    blk s' = snd (spec_run xs (blk s))"
  using assms
proof (induction xs arbitrary: s)
  case (Cons x xs)
  then obtain s1 where s1: "bd_do rd pr er x s = (0, fst (bd_spec x (blk s)), s1)" "ready s1" "blk s1 = snd (bd_spec x (blk s))"
    using step_refines [of s x] by auto
  then obtain s2 where "bd_run (bd_do rd pr er) xs s1 = Some (fst (spec_run xs (blk s1)), s2)" "ready s2"
    "blk s2 = snd (spec_run xs (blk s1))" using Cons.IH [OF s1(2)] Cons.prems(2) by auto
  then show ?case using s1 by (simp add: split_beta)
qed simp

end

text \<open>
  On the abstract device an erased block is an append-only log: chunks programmed one after the other
  are all there.
\<close>

lemma put_bits_append:
  assumes "length xs + length ys \<le> n"
  shows "put_bits (xs @ replicate (n - length xs) 0xFF) (length xs) ys = (xs @ ys) @ replicate (n - length (xs @ ys)) 0xFF"
proof -
  have one: "0xFF AND y = (y :: u8)" for y
  proof -
    have "(0xFF :: u8) = - 1" by simp
    then show ?thesis by (simp only: and.left_neutral)
  qed
  have "map2 (AND) (replicate (length ys) 0xFF) ys = ys" by (rule nth_equalityI) (auto simp: one)
  moreover have "min (length ys) (n - length xs) = length ys" using assms by simp
  ultimately show ?thesis using assms by (simp add: put_bits_def overlay_def)
qed

section \<open>The port implements the contract\<close>

definition lfs_rd :: "'c hw \<Rightarrow> partitions \<Rightarrow> bool \<Rightarrow> nat \<Rightarrow> nat \<Rightarrow> nat \<Rightarrow> 'c fls \<Rightarrow> int \<times> u8 list \<times> 'c fls" where
  "lfs_rd hw p al b i n s = block_device_read hw p (of_nat b) (of_nat i) (Some al) (of_nat n) s"

definition lfs_pr :: "'c hw \<Rightarrow> partitions \<Rightarrow> nat \<Rightarrow> nat \<Rightarrow> u8 list \<Rightarrow> 'c fls \<Rightarrow> int \<times> 'c fls" where
  "lfs_pr hw p b i bs s = block_device_prog hw True p (of_nat b) (of_nat i) (Some bs) (of_nat (length bs)) s"

definition lfs_er :: "'c hw \<Rightarrow> partitions \<Rightarrow> nat \<Rightarrow> 'c fls \<Rightarrow> int \<times> 'c fls" where
  "lfs_er hw p b s = block_device_erase hw p (of_nat b) s"

definition lfs_blk :: "('c \<Rightarrow> nat \<Rightarrow> u8) \<Rightarrow> partitions \<Rightarrow> 'c fls \<Rightarrow> nat \<Rightarrow> u8 list" where
  "lfs_blk view p s b = span (view (chip s)) (unat (lfs_addr p) + b * 4096) 4096"

text \<open>The partition consists of whole sectors of the chip.\<close>

definition lfs_placed :: "nat \<Rightarrow> nat \<Rightarrow> partitions \<Rightarrow> bool" where
  "lfs_placed csize nb p \<longleftrightarrow> 4096 dvd unat (lfs_addr p) \<and> unat (lfs_addr p) + nb * 4096 \<le> csize \<and> csize \<le> 2 ^ 25"

lemma lfs_address:
  assumes "lfs_placed csize nb p" and "b < nb" and "i < 4096"
  shows "unat (of_nat b * 4096 + of_nat i + lfs_addr p :: u32) = unat (lfs_addr p) + b * 4096 + i"
proof -
  have "Suc b * 4096 \<le> nb * 4096" using assms(2) by (intro mult_le_mono) simp_all
  then have lt: "unat (lfs_addr p) + b * 4096 + i < 2 ^ 25" using assms(1,3) by (simp add: lfs_placed_def)
  have "(of_nat b * 4096 + of_nat i + lfs_addr p :: u32) = of_nat (unat (lfs_addr p) + b * 4096 + i)"
    by (simp add: algebra_simps)
  then show ?thesis using lt by (simp add: unat_of_nat_u32 del: of_nat_add of_nat_mult)
qed

lemma lfs_room:
  assumes "lfs_placed csize nb p" and "b < nb"
  shows "unat (lfs_addr p) + b * 4096 + 4096 \<le> csize"
proof -
  have "Suc b * 4096 \<le> nb * 4096" using assms(2) by (intro mult_le_mono) simp_all
  then show ?thesis using assms(1) by (simp add: lfs_placed_def)
qed

lemma span_blit_inside:
  "i + length zs \<le> n \<Longrightarrow> span (blit m (a + i) zs) a n = overlay (span m a n) i zs"
  by (rule nth_equalityI) (auto simp: blit_apply nth_overlay)

lemma blocks_update:
  assumes "i + length zs \<le> 4096"
  shows "(\<lambda>b'. span (blit m (a + b * 4096 + i) zs) (a + b' * 4096) 4096) =
    (\<lambda>b'. span m (a + b' * 4096) 4096)(b := overlay (span m (a + b * 4096) 4096) i zs)"
proof (rule ext)
  fix b'
  show "span (blit m (a + b * 4096 + i) zs) (a + b' * 4096) 4096 =
    ((\<lambda>b'. span m (a + b' * 4096) 4096)(b := overlay (span m (a + b * 4096) 4096) i zs)) b'"
  proof (cases "b' = b")
    case True
    then show ?thesis using span_blit_inside [OF assms, of m "a + b * 4096"] by simp
  next
    case False
    then consider "Suc b' \<le> b" | "Suc b \<le> b'" by linarith
    then have "b' * 4096 + 4096 \<le> b * 4096 \<or> b * 4096 + 4096 \<le> b' * 4096"
      by cases (auto dest: mult_le_mono1 [of _ _ 4096])
    then have "a + b' * 4096 + 4096 \<le> a + b * 4096 + i \<or> a + b * 4096 + i + length zs \<le> a + b' * 4096"
      using assms by linarith
    then show ?thesis using False by (simp add: span_blit_disjoint)
  qed
qed

lemma lfs_block_dev:
  assumes "nor_flash hw view wel csize" and "lfs_placed csize nb p"
  shows "block_dev (fls_ready csize) (lfs_blk view p) (lfs_rd hw p al) (lfs_pr hw p) (lfs_er hw p) nb"
proof (unfold_locales, goal_cases)
  case (1 s b n i)
  let ?a = "of_nat b * 4096 + of_nat i + lfs_addr p :: u32"
  have a: "unat ?a = unat (lfs_addr p) + b * 4096 + i" using lfs_address [OF assms(2)] 1 by simp
  have r: "unat (lfs_addr p) + b * 4096 + 4096 \<le> csize" "csize \<le> 2 ^ 25"
    using lfs_room [OF assms(2)] 1 assms(2) by (auto simp: lfs_placed_def)
  have n: "unat (of_nat n :: u32) = n" "0 < (of_nat n :: u32)" using 1 by (simp_all add: unat_of_nat_u32 word_less_nat_alt)
  have m: "unat ?a mod 2 ^ 27 = unat (lfs_addr p) + b * 4096 + i" using a r 1 by simp
  obtain s' where "tls_fls_read hw ?a (Some al) (of_nat n) s = (TLS_FLS_STATUS_OK, span (view (chip s)) (unat ?a mod 2 ^ 27) n, s')"
    "view (chip s') = view (chip s)" "drv_keeps s s'"
    using nor_flash.tls_fls_read_ok [OF assms(1) 1(1) n(2), of ?a al] n(1) m r 1 by auto
  then show ?case using m 1 fls_ready_keeps [of s s' csize]
    by (auto simp: lfs_rd_def block_device_read_def lfs_blk_def drop_span take_span min_def ac_simps)
next
  case (2 s b bs i)
  let ?a = "of_nat b * 4096 + of_nat i + lfs_addr p :: u32"
  have l: "0 < length bs" using 2(3) by simp
  then have "i < 4096" using 2(4) by linarith
  then have a: "unat ?a = unat (lfs_addr p) + b * 4096 + i" using lfs_address [OF assms(2) 2(2)] by simp
  have r: "unat (lfs_addr p) + b * 4096 + 4096 \<le> csize" "csize \<le> 2 ^ 25"
    using lfs_room [OF assms(2)] 2 assms(2) by (auto simp: lfs_placed_def)
  have n: "unat (of_nat (length bs) :: u32) = length bs" "0 < (of_nat (length bs) :: u32)"
    using 2 l by (simp_all add: unat_of_nat_u32 word_less_nat_alt)
  have m: "unat ?a mod 2 ^ 27 = unat (lfs_addr p) + b * 4096 + i" using a r 2(4) l by simp
  obtain s' where s': "tls_fls_write_without_erase hw True ?a (Some bs) (of_nat (length bs)) s = (TLS_FLS_STATUS_OK, s')"
    "view (chip s') = clear (view (chip s)) (unat (lfs_addr p) + b * 4096 + i) bs" "drv_keeps s s'"
    using nor_flash.write_without_erase_ok [OF assms(1) 2(1) n(2), of ?a bs] n(1) m r 2(4) by auto
  have "lfs_blk view p s' = (lfs_blk view p s)(b := put_bits (lfs_blk view p s b) i bs)"
    using blocks_update [of i "map2 (AND) (span (view (chip s)) (unat (lfs_addr p) + b * 4096 + i) (length bs)) bs"
        "view (chip s)" "unat (lfs_addr p)" b] 2(4)
    by (simp add: lfs_blk_def [abs_def] s'(2) clear_def put_bits_def drop_span take_span min_absorb1)
  then show ?case using s' fls_ready_keeps [OF s'(3) 2(1)] by (auto simp: lfs_pr_def block_device_prog_def)
next
  case (3 s b)
  let ?a = "of_nat b * 4096 + lfs_addr p :: u32"
  have a: "unat ?a = unat (lfs_addr p) + b * 4096" using lfs_address [OF assms(2) 3(2), of 0] by simp
  have r: "unat (lfs_addr p) + b * 4096 + 4096 \<le> csize" "csize \<le> 2 ^ 25"
    using lfs_room [OF assms(2) 3(2)] assms(2) by (auto simp: lfs_placed_def)
  obtain q where q: "unat (lfs_addr p) = 4096 * q" using assms(2) by (auto simp: lfs_placed_def dvd_def)
  have sec: "unat (?a div 4096) = q + b" using a q by (simp add: unat_div)
  have lt: "q + b < csize div 4096"
  proof -
    have "(q + b + 1) * 4096 \<le> csize" using r(1) q by simp
    then show ?thesis by (simp add: less_eq_div_iff_mult_less_eq Suc_le_eq [symmetric])
  qed
  have "csize div 4096 \<le> 8192" using div_le_mono [OF r(2), of 4096] by simp
  then have m: "unat (?a div 4096) mod 8192 = q + b" using sec lt by simp
  obtain s' where s': "tls_fls_erase hw (?a div 4096) s = (TLS_FLS_STATUS_OK, s')"
    "view (chip s') = blit (view (chip s)) (4096 * (q + b)) (replicate 4096 0xFF)" "ctl_only s s'"
    using nor_flash.tls_fls_erase_ok [OF assms(1) 3(1), of "?a div 4096"] m sec lt by auto
  have "lfs_blk view p s' = (lfs_blk view p s)(b := replicate 4096 0xFF)"
    using blocks_update [of 0 "replicate 4096 0xFF" "view (chip s)" "unat (lfs_addr p)" b] s'(2)
    by (simp add: lfs_blk_def [abs_def] q add_mult_distrib2 mult.commute)
  then show ?case using s' fls_ready_keeps [OF ctl_only_keeps [OF s'(3)] 3(1)] by (auto simp: lfs_er_def block_device_erase_def)
qed

text \<open>The partition of the file system on the reference chip: 48 KiB at \<^verbatim>\<open>0x1E0000\<close>.\<close>

definition demo_parts :: partitions where
  "demo_parts = luat_fs_update_addr (0x1D0000, 0x10000) (0x1B0000, 0x20000) (0x1E0000, 0xC000)"

lemma demo_placed: "lfs_placed (2 ^ 23) 12 demo_parts"
  by (simp add: lfs_placed_def demo_parts_def luat_fs_update_addr_def dvd_def)

interpretation lfs: block_dev "fls_ready (2 ^ 23)" "lfs_blk fst demo_parts" "lfs_rd nor_exec demo_parts True"
  "lfs_pr nor_exec demo_parts" "lfs_er nor_exec demo_parts" 12
  by (rule lfs_block_dev [OF nor.nor_flash_axioms demo_placed])

section \<open>Property\<close>

text \<open>
  C18.  The block device under the file system keeps its contract: any sequence of reads, programs and
  erasures inside the partition succeeds and returns exactly what a NOR device of separate blocks
  returns: reading does not change anything, programming clears bits of the named bytes only,
  erasing sets the named block only.  In particular chunks programmed one after the other into an
  erased block are read back.
\<close>

theorem lfs_device_refines:
  assumes "nor_flash hw view wel csize" and "lfs_placed csize nb p" and "fls_ready csize s"
    and "\<forall>x \<in> set xs. bd_fits nb x"
  shows "\<exists>s'. bd_run (bd_do (lfs_rd hw p al) (lfs_pr hw p) (lfs_er hw p)) xs s =
      Some (fst (spec_run xs (lfs_blk view p s)), s') \<and> fls_ready csize s' \<and>
    lfs_blk view p s' = snd (spec_run xs (lfs_blk view p s))"
  by (rule block_dev.run_refines [OF lfs_block_dev [OF assms(1,2)] assms(3,4)])

theorem lfs_device_refines_witness:
  "\<exists>s'. bd_run (bd_do (lfs_rd nor_exec demo_parts True) (lfs_pr nor_exec demo_parts) (lfs_er nor_exec demo_parts))
      [Er 3, Pr 3 0 [1, 2], Pr 3 2 [7], Rd 3 0 3] demo_fls = Some ([[], [], [], [1, 2, 7]], s')"
proof -
  let ?d = "(lfs_blk fst demo_parts demo_fls)(3 := replicate 4096 0xFF)"
  have 1: "put_bits (replicate 4096 0xFF) 0 [1, 2] = [1, 2] @ replicate 4094 0xFF"
    using put_bits_append [of "[]" "[1, 2]" 4096] by simp
  have 2: "put_bits ([1, 2] @ replicate 4094 0xFF) 2 [7] = [1, 2, 7] @ replicate 4093 0xFF"
    using put_bits_append [of "[1, 2]" "[7]" 4096] by (simp add: numeral_2_eq_2)
  have "fst (spec_run [Er 3, Pr 3 0 [1, 2], Pr 3 2 [7], Rd 3 0 3] (lfs_blk fst demo_parts demo_fls)) = [[], [], [], [1, 2, 7]]"
    using 1 2 by (simp add: Let_def)
  moreover have "\<forall>x \<in> set [Er 3, Pr 3 0 [1, 2], Pr 3 2 [7], Rd 3 0 3]. bd_fits 12 x" by simp
  ultimately show ?thesis
    using lfs_device_refines [OF nor.nor_flash_axioms demo_placed demo_ready, of "[Er 3, Pr 3 0 [1, 2], Pr 3 2 [7], Rd 3 0 3]" True]
    by metis
qed

text \<open>The runtime's \<^verbatim>\<open>luat_flash_erase\<close> ignores the length: a range of several sectors is erased only at its start.\<close>

lemma luat_flash_erase_one_sector: "luat_flash_erase hw addr len s = luat_flash_erase hw addr 1 s"
  by (simp add: luat_flash_erase_def)

end
