(* ===== verification/Param_Image.thy ===== *)
theory Param_Image
  imports C_Layout
begin

text \<open>
  The system parameter block: \<^verbatim>\<open>struct tls_sys_param\<close> and \<^verbatim>\<open>struct tls_param_flash\<close> of
  \<^verbatim>\<open>platform/common/params/wm_param.h\<close> with the member types of \<^verbatim>\<open>include/platform/wm_params.h\<close>, as byte
  images with the offsets of \<open>C_Layout\<close>, and the parameter identifiers with the member each of them
  selects in the \<^verbatim>\<open>switch\<close> of \<^verbatim>\<open>tls_param_set\<close> and of \<^verbatim>\<open>tls_param_get\<close> (configuration: \<^verbatim>\<open>TLS_CONFIG_AP\<close> on,
  \<^verbatim>\<open>TLS_CONFIG_WPS\<close> off, \<^verbatim>\<open>USE_TWO_RAM_FOR_PARAMETER\<close> 0).
\<close>

section \<open>Structures\<close>

primrec cfs :: "(string \<times> cty) list \<Rightarrow> cfields" where
  "cfs [] = End"
| "cfs (f # fs) = Field (fst f) (snd f) (cfs fs)"

abbreviation bytes :: "nat \<Rightarrow> cty" where "bytes n \<equiv> CArr CU8 n"

definition tls_param_hardware_version :: cfields where
  "tls_param_hardware_version = cfs [(''mark'', CU8), (''main'', CU8), (''sub'', CU8), (''material'', CU8),
     (''year'', CU8), (''week'', CU8), (''res'', bytes 2)]"

definition tls_param_bssid :: cfields where
  "tls_param_bssid = cfs [(''bssid_enable'', CU8), (''res'', CU8), (''bssid'', bytes 6)]"

definition tls_param_ssid :: cfields where
  "tls_param_ssid = cfs [(''ssid'', bytes 32), (''ssid_len'', CU32)]"

definition tls_param_tem_offset :: cfields where
  "tls_param_tem_offset = cfs [(''offset_len'', CU8), (''offset'', CU32)]"

definition tls_param_key :: cfields where
  "tls_param_key = cfs [(''psk'', bytes 64), (''key_length'', CU8), (''key_index'', CU8), (''key_format'', CU8),
     (''res'', CU8)]"

definition tls_param_original_key :: cfields where
  "tls_param_original_key = cfs [(''psk'', bytes 64), (''key_length'', CU32)]"

definition tls_param_sha1 :: cfields where
  "tls_param_sha1 = cfs [(''psk_set'', CU8), (''psk'', bytes 32)]"

definition tls_param_bgr :: cfields where
  "tls_param_bgr = cfs [(''bg'', CU8), (''max_rate'', CU8), (''res'', bytes 2)]"

definition tls_param_ip :: cfields where
  "tls_param_ip = cfs [(''dhcp_enable'', CU8), (''res'', bytes 3), (''ip'', bytes 4), (''netmask'', bytes 4),
     (''gateway'', bytes 4), (''dns1'', bytes 4), (''dns2'', bytes 4)]"

definition tls_param_uart :: cfields where
  "tls_param_uart = cfs [(''baudrate'', CU32), (''stop_bits'', CU8), (''parity'', CU8), (''flow'', CU8),
     (''charsize'', CU8)]"

definition tls_param_socket :: cfields where
  "tls_param_socket = cfs [(''protocol'', CU8), (''client_or_server'', CU8), (''port_num'', CU16),
     (''host'', bytes 32)]"

definition tls_param_wps :: cfields where
  "tls_param_wps = cfs [(''wps_enable'', CU8), (''mode'', CU8), (''flag'', CU8), (''res'', CU8), (''pin'', bytes 8)]"

definition tls_param_oray_client :: cfields where
  "tls_param_oray_client = cfs [(''oray_client_enable'', CU32), (''oray_client_user'', bytes 32),
     (''oray_client_pass'', bytes 32)]"

definition tls_webs_cfg :: cfields where
  "tls_webs_cfg = cfs [(''AutoRun'', CU8), (''Reserved'', CU8), (''PortNum'', CU16)]"

definition tls_param_quick_connect :: cfields where
  "tls_param_quick_connect = cfs [(''quick_connect_en'', CU8), (''chanId'', CU8)]"

definition bt_adapter_t :: cfields where
  "bt_adapter_t = cfs [(''valid_tag'', CU32), (''valid_bit'', CU32), (''bd_addr'', bytes 6), (''name_len'', CU8),
     (''name'', bytes 16), (''class_of_device'', CU32), (''io_cap'', CU8), (''discoverable'', CU8),
     (''connectable'', CU8), (''bt_auth_req'', CU8), (''mode'', CU8), (''ble_auth_req'', CU8), (''ir'', bytes 16),
     (''irk'', bytes 16), (''dhk'', bytes 16), (''er'', bytes 16)]"

definition bt_remote_device_t :: cfields where
  "bt_remote_device_t = cfs [(''valid_tag'', CU32), (''in_use'', CU8), (''valid_bit'', CU32),
     (''bd_addr'', bytes 6), (''name'', bytes 16), (''name_len'', CU8), (''class_of_device'', CU32),
     (''available_service'', CU32), (''link_key'', bytes 16), (''key_type'', CU8), (''io_cap'', CU8),
     (''pin_length'', CU8), (''device_type'', CU8), (''reconnect_needed'', CU8), (''ble_addr_type'', CU8),
     (''key_penc'', bytes 28), (''key_pid'', bytes 23), (''key_lid'', bytes 23), (''key_pcsrk'', bytes 24),
     (''key_lcsrk'', bytes 24), (''key_lenc'', bytes 20), (''manufacturer'', CU32), (''lmpver'', CU32),
     (''lmpsubver'', CU32)]"

definition tls_sys_param :: cfields where
  "tls_sys_param = cfs [
     (''hardware_version'', CStruct tls_param_hardware_version), (''bssid'', CStruct tls_param_bssid),
     (''ssid'', CStruct tls_param_ssid), (''channel_enable'', CU8), (''channel'', CU8), (''wireless_region'', CU8),
     (''encry'', CU8), (''wireless_protocol'', CU8), (''auto_create_adhoc'', CU8), (''auto_retrycnt'', CU8),
     (''auto_roam'', CU8), (''auto_powersave'', CU8), (''ssid_broadcast_enable'', CU8), (''channellist'', CU16),
     (''key'', CStruct tls_param_key), (''wbgr'', CStruct tls_param_bgr), (''wps'', CStruct tls_param_wps),
     (''ipcfg'', CStruct tls_param_ip), (''local_dnsname'', bytes 32), (''local_device_name'', bytes 32),
     (''oray_client_setting'', CStruct tls_param_oray_client), (''upnp_enable'', CU8), (''always_online'', CU8),
     (''user_port_mode'', CU8), (''res_2'', CU8), (''uart_cfg'', CStruct tls_param_uart), (''auto_mode'', CU8),
     (''res_3'', CU8), (''transparent_trigger_length'', CU16), (''transparent_trigger_period'', CU16),
     (''remote_socket_cfg'', CStruct tls_param_socket), (''debug_mode'', CU32), (''res_4'', CArr CU32 2),
     (''EscapeChar'', CU8), (''EscReserved'', CU8), (''EscapePeriod'', CU16), (''IoMode'', CU8), (''CmdMode'', CU8),
     (''PassWord'', bytes 6), (''WebsCfg'', CStruct tls_webs_cfg), (''oneshotflag'', CU8),
     (''oneshotres'', bytes 2), (''psk'', CStruct tls_param_sha1),
     (''original_key'', CStruct tls_param_original_key), (''original_ssid'', CStruct tls_param_ssid),
     (''auto_reconnect'', CU8), (''res_5'', bytes 3), (''quick_connect'', CStruct tls_param_quick_connect),
     (''key_changed'', CU8), (''ssid_changed'', CU8), (''apsta_ssid'', CStruct tls_param_ssid),
     (''apsta_psk'', CStruct tls_param_sha1), (''res_6'', bytes 1), (''channel4softap'', CU8),
     (''encry4softap'', CU8), (''key4softap'', CStruct tls_param_key), (''ipcfg4softap'', CStruct tls_param_ip),
     (''wbgr4softap'', CStruct tls_param_bgr), (''sntp_service1'', bytes 32), (''sntp_service2'', bytes 32),
     (''sntp_service3'', bytes 32), (''params_tem'', CStruct tls_param_tem_offset),
     (''adapter_t'', CStruct bt_adapter_t), (''remote_device1'', CStruct bt_remote_device_t),
     (''remote_device2'', CStruct bt_remote_device_t), (''remote_device3'', CStruct bt_remote_device_t),
     (''remote_device4'', CStruct bt_remote_device_t), (''remote_device5'', CStruct bt_remote_device_t)]"

definition tls_param_flash :: cfields where
  "tls_param_flash = cfs [(''magic'', CU32), (''partition_num'', CU16), (''modify_count'', CU16),
     (''resv_1'', CU32), (''resv_2'', CU16), (''length'', CU16), (''parameters'', CStruct tls_sys_param),
     (''crc32'', CU32)]"

lemmas param_struct_defs = tls_param_hardware_version_def tls_param_bssid_def tls_param_ssid_def
  tls_param_tem_offset_def tls_param_key_def tls_param_original_key_def tls_param_sha1_def tls_param_bgr_def
  tls_param_ip_def tls_param_uart_def tls_param_socket_def tls_param_wps_def tls_param_oray_client_def
  tls_webs_cfg_def tls_param_quick_connect_def bt_adapter_t_def bt_remote_device_t_def

section \<open>Identifiers\<close>

abbreviation TLS_PARAM_ID_ALL :: int where "TLS_PARAM_ID_ALL \<equiv> - 1"
abbreviation TLS_PARAM_ID_SSID :: int where "TLS_PARAM_ID_SSID \<equiv> 0"
abbreviation TLS_PARAM_ID_ENCRY :: int where "TLS_PARAM_ID_ENCRY \<equiv> 1"
abbreviation TLS_PARAM_ID_KEY :: int where "TLS_PARAM_ID_KEY \<equiv> 2"
abbreviation TLS_PARAM_ID_IP :: int where "TLS_PARAM_ID_IP \<equiv> 3"
abbreviation TLS_PARAM_ID_AUTOMODE :: int where "TLS_PARAM_ID_AUTOMODE \<equiv> 4"
abbreviation TLS_PARAM_ID_DEFSOCKET :: int where "TLS_PARAM_ID_DEFSOCKET \<equiv> 5"
abbreviation TLS_PARAM_ID_BSSID :: int where "TLS_PARAM_ID_BSSID \<equiv> 6"
abbreviation TLS_PARAM_ID_CHANNEL :: int where "TLS_PARAM_ID_CHANNEL \<equiv> 7"
abbreviation TLS_PARAM_ID_CHANNEL_EN :: int where "TLS_PARAM_ID_CHANNEL_EN \<equiv> 8"
abbreviation TLS_PARAM_ID_COUNTRY_REGION :: int where "TLS_PARAM_ID_COUNTRY_REGION \<equiv> 9"
abbreviation TLS_PARAM_ID_WPROTOCOL :: int where "TLS_PARAM_ID_WPROTOCOL \<equiv> 10"
abbreviation TLS_PARAM_ID_ADHOC_AUTOCREATE :: int where "TLS_PARAM_ID_ADHOC_AUTOCREATE \<equiv> 11"
abbreviation TLS_PARAM_ID_ROAMING :: int where "TLS_PARAM_ID_ROAMING \<equiv> 12"
abbreviation TLS_PARAM_ID_AUTO_RETRY_CNT :: int where "TLS_PARAM_ID_AUTO_RETRY_CNT \<equiv> 13"
abbreviation TLS_PARAM_ID_WBGR :: int where "TLS_PARAM_ID_WBGR \<equiv> 14"
abbreviation TLS_PARAM_ID_USRINTF :: int where "TLS_PARAM_ID_USRINTF \<equiv> 15"
abbreviation TLS_PARAM_ID_AUTO_TRIGGER_LENGTH :: int where "TLS_PARAM_ID_AUTO_TRIGGER_LENGTH \<equiv> 16"
abbreviation TLS_PARAM_ID_DEBUG_MODE :: int where "TLS_PARAM_ID_DEBUG_MODE \<equiv> 17"
abbreviation TLS_PARAM_ID_HARDVERSION :: int where "TLS_PARAM_ID_HARDVERSION \<equiv> 18"
abbreviation TLS_PARAM_ID_BRDSSID :: int where "TLS_PARAM_ID_BRDSSID \<equiv> 19"
abbreviation TLS_PARAM_ID_DNSNAME :: int where "TLS_PARAM_ID_DNSNAME \<equiv> 20"
abbreviation TLS_PARAM_ID_DEVNAME :: int where "TLS_PARAM_ID_DEVNAME \<equiv> 21"
abbreviation TLS_PARAM_ID_PSM :: int where "TLS_PARAM_ID_PSM \<equiv> 22"
abbreviation TLS_PARAM_ID_ORAY_CLIENT :: int where "TLS_PARAM_ID_ORAY_CLIENT \<equiv> 23"
abbreviation TLS_PARAM_ID_UPNP :: int where "TLS_PARAM_ID_UPNP \<equiv> 24"
abbreviation TLS_PARAM_ID_UART :: int where "TLS_PARAM_ID_UART \<equiv> 26"
abbreviation TLS_PARAM_ID_AUTO_TRIGGER_PERIOD :: int where "TLS_PARAM_ID_AUTO_TRIGGER_PERIOD \<equiv> 28"
abbreviation TLS_PARAM_ID_ESCAPE_CHAR :: int where "TLS_PARAM_ID_ESCAPE_CHAR \<equiv> 29"
abbreviation TLS_PARAM_ID_ESCAPE_PERIOD :: int where "TLS_PARAM_ID_ESCAPE_PERIOD \<equiv> 30"
abbreviation TLS_PARAM_ID_IO_MODE :: int where "TLS_PARAM_ID_IO_MODE \<equiv> 31"
abbreviation TLS_PARAM_ID_CMD_MODE :: int where "TLS_PARAM_ID_CMD_MODE \<equiv> 32"
abbreviation TLS_PARAM_ID_PASSWORD :: int where "TLS_PARAM_ID_PASSWORD \<equiv> 33"
abbreviation TLS_PARAM_ID_CHANNEL_LIST :: int where "TLS_PARAM_ID_CHANNEL_LIST \<equiv> 34"
abbreviation TLS_PARAM_ID_WEBS_CONFIG :: int where "TLS_PARAM_ID_WEBS_CONFIG \<equiv> 35"
abbreviation TLS_PARAM_ID_ONESHOT_CFG :: int where "TLS_PARAM_ID_ONESHOT_CFG \<equiv> 36"
abbreviation TLS_PARAM_ID_SHA1 :: int where "TLS_PARAM_ID_SHA1 \<equiv> 37"
abbreviation TLS_PARAM_ID_ORIGIN_KEY :: int where "TLS_PARAM_ID_ORIGIN_KEY \<equiv> 38"
abbreviation TLS_PARAM_ID_ORIGIN_SSID :: int where "TLS_PARAM_ID_ORIGIN_SSID \<equiv> 39"
abbreviation TLS_PARAM_ID_AUTO_RECONNECT :: int where "TLS_PARAM_ID_AUTO_RECONNECT \<equiv> 40"
abbreviation TLS_PARAM_ID_QUICK_CONNECT :: int where "TLS_PARAM_ID_QUICK_CONNECT \<equiv> 41"
abbreviation TLS_PARAM_ID_KEY_CHANGE :: int where "TLS_PARAM_ID_KEY_CHANGE \<equiv> 42"
abbreviation TLS_PARAM_ID_SSID_CHANGE :: int where "TLS_PARAM_ID_SSID_CHANGE \<equiv> 43"
abbreviation TLS_PARAM_ID_SOFTAP_SSID :: int where "TLS_PARAM_ID_SOFTAP_SSID \<equiv> 44"
abbreviation TLS_PARAM_ID_SOFTAP_PSK :: int where "TLS_PARAM_ID_SOFTAP_PSK \<equiv> 45"
abbreviation TLS_PARAM_ID_SOFTAP_ENCRY :: int where "TLS_PARAM_ID_SOFTAP_ENCRY \<equiv> 46"
abbreviation TLS_PARAM_ID_SOFTAP_KEY :: int where "TLS_PARAM_ID_SOFTAP_KEY \<equiv> 47"
abbreviation TLS_PARAM_ID_SOFTAP_IP :: int where "TLS_PARAM_ID_SOFTAP_IP \<equiv> 48"
abbreviation TLS_PARAM_ID_SOFTAP_CHANNEL :: int where "TLS_PARAM_ID_SOFTAP_CHANNEL \<equiv> 49"
abbreviation TLS_PARAM_ID_SOFTAP_WBGR :: int where "TLS_PARAM_ID_SOFTAP_WBGR \<equiv> 50"
abbreviation TLS_PARAM_ID_SNTP_SERVER1 :: int where "TLS_PARAM_ID_SNTP_SERVER1 \<equiv> 51"
abbreviation TLS_PARAM_ID_SNTP_SERVER2 :: int where "TLS_PARAM_ID_SNTP_SERVER2 \<equiv> 52"
abbreviation TLS_PARAM_ID_SNTP_SERVER3 :: int where "TLS_PARAM_ID_SNTP_SERVER3 \<equiv> 53"
abbreviation TLS_PARAM_ID_TEM_OFFSET :: int where "TLS_PARAM_ID_TEM_OFFSET \<equiv> 54"
abbreviation TLS_PARAM_ID_BT_ADAPTER :: int where "TLS_PARAM_ID_BT_ADAPTER \<equiv> 55"
abbreviation TLS_PARAM_ID_BT_REMOTE_DEVICE_1 :: int where "TLS_PARAM_ID_BT_REMOTE_DEVICE_1 \<equiv> 56"
abbreviation TLS_PARAM_ID_BT_REMOTE_DEVICE_2 :: int where "TLS_PARAM_ID_BT_REMOTE_DEVICE_2 \<equiv> 57"
abbreviation TLS_PARAM_ID_BT_REMOTE_DEVICE_3 :: int where "TLS_PARAM_ID_BT_REMOTE_DEVICE_3 \<equiv> 58"
abbreviation TLS_PARAM_ID_BT_REMOTE_DEVICE_4 :: int where "TLS_PARAM_ID_BT_REMOTE_DEVICE_4 \<equiv> 59"
abbreviation TLS_PARAM_ID_BT_REMOTE_DEVICE_5 :: int where "TLS_PARAM_ID_BT_REMOTE_DEVICE_5 \<equiv> 60"
abbreviation TLS_PARAM_ID_MAX :: int where "TLS_PARAM_ID_MAX \<equiv> 66"

text \<open>
  How a case of the two switches moves data: the whole block, the bytes of one member (by assignment or
  \<^verbatim>\<open>MEMCPY\<close>), or a terminated string (by \<^verbatim>\<open>strcpy\<close> or \<^verbatim>\<open>strncpy\<close> of \<^verbatim>\<open>strlen + 1\<close> bytes), which is not bounded by
  the member.
\<close>

datatype access = Whole | Mem string | CStr string

definition set_cases_1 :: "(int \<times> access) list" where
  "set_cases_1 = [
     (TLS_PARAM_ID_ALL, Whole),
     (TLS_PARAM_ID_SSID, Mem ''ssid''),
     (TLS_PARAM_ID_ENCRY, Mem ''encry''),
     (TLS_PARAM_ID_KEY, Mem ''key''),
     (TLS_PARAM_ID_IP, Mem ''ipcfg''),
     (TLS_PARAM_ID_AUTOMODE, Mem ''auto_mode''),
     (TLS_PARAM_ID_DEFSOCKET, Mem ''remote_socket_cfg''),
     (TLS_PARAM_ID_BSSID, Mem ''bssid''),
     (TLS_PARAM_ID_CHANNEL, Mem ''channel''),
     (TLS_PARAM_ID_CHANNEL_LIST, Mem ''channellist''),
     (TLS_PARAM_ID_CHANNEL_EN, Mem ''channel_enable''),
     (TLS_PARAM_ID_COUNTRY_REGION, Mem ''wireless_region''),
     (TLS_PARAM_ID_WPROTOCOL, Mem ''wireless_protocol''),
     (TLS_PARAM_ID_ADHOC_AUTOCREATE, Mem ''auto_create_adhoc''),
     (TLS_PARAM_ID_ROAMING, Mem ''auto_roam''),
     (TLS_PARAM_ID_AUTO_RETRY_CNT, Mem ''auto_retrycnt''),
     (TLS_PARAM_ID_WBGR, Mem ''wbgr''),
     (TLS_PARAM_ID_USRINTF, Mem ''user_port_mode''),
     (TLS_PARAM_ID_AUTO_TRIGGER_LENGTH, Mem ''transparent_trigger_length''),
     (TLS_PARAM_ID_AUTO_TRIGGER_PERIOD, Mem ''transparent_trigger_period''),
     (TLS_PARAM_ID_ESCAPE_CHAR, Mem ''EscapeChar''),
     (TLS_PARAM_ID_ESCAPE_PERIOD, Mem ''EscapePeriod''),
     (TLS_PARAM_ID_IO_MODE, Mem ''IoMode''),
     (TLS_PARAM_ID_CMD_MODE, Mem ''CmdMode''),
     (TLS_PARAM_ID_PASSWORD, Mem ''PassWord''),
     (TLS_PARAM_ID_WEBS_CONFIG, Mem ''WebsCfg''),
     (TLS_PARAM_ID_DEBUG_MODE, Mem ''debug_mode''),
     (TLS_PARAM_ID_HARDVERSION, Mem ''hardware_version''),
     (TLS_PARAM_ID_BRDSSID, Mem ''ssid_broadcast_enable''),
     (TLS_PARAM_ID_DNSNAME, CStr ''local_dnsname'')]"

definition set_cases_2 :: "(int \<times> access) list" where
  "set_cases_2 = [
     (TLS_PARAM_ID_DEVNAME, CStr ''local_device_name''),
     (TLS_PARAM_ID_PSM, Mem ''auto_powersave''),
     (TLS_PARAM_ID_ORAY_CLIENT, Mem ''oray_client_setting''),
     (TLS_PARAM_ID_UPNP, Mem ''upnp_enable''),
     (TLS_PARAM_ID_UART, Mem ''uart_cfg''),
     (TLS_PARAM_ID_ONESHOT_CFG, Mem ''oneshotflag''),
     (TLS_PARAM_ID_SHA1, Mem ''psk''),
     (TLS_PARAM_ID_ORIGIN_KEY, Mem ''original_key''),
     (TLS_PARAM_ID_ORIGIN_SSID, Mem ''original_ssid''),
     (TLS_PARAM_ID_AUTO_RECONNECT, Mem ''auto_reconnect''),
     (TLS_PARAM_ID_QUICK_CONNECT, Mem ''quick_connect''),
     (TLS_PARAM_ID_KEY_CHANGE, Mem ''key_changed''),
     (TLS_PARAM_ID_SSID_CHANGE, Mem ''ssid_changed''),
     (TLS_PARAM_ID_SOFTAP_SSID, Mem ''apsta_ssid''),
     (TLS_PARAM_ID_SOFTAP_PSK, Mem ''apsta_psk''),
     (TLS_PARAM_ID_SOFTAP_ENCRY, Mem ''encry4softap''),
     (TLS_PARAM_ID_SOFTAP_KEY, Mem ''key4softap''),
     (TLS_PARAM_ID_SOFTAP_IP, Mem ''ipcfg4softap''),
     (TLS_PARAM_ID_SOFTAP_CHANNEL, Mem ''channel4softap''),
     (TLS_PARAM_ID_SOFTAP_WBGR, Mem ''wbgr4softap''),
     (TLS_PARAM_ID_SNTP_SERVER1, CStr ''sntp_service1''),
     (TLS_PARAM_ID_SNTP_SERVER2, CStr ''sntp_service2''),
     (TLS_PARAM_ID_SNTP_SERVER3, CStr ''sntp_service3''),
     (TLS_PARAM_ID_TEM_OFFSET, Mem ''params_tem''),
     (TLS_PARAM_ID_BT_ADAPTER, Mem ''adapter_t''),
     (TLS_PARAM_ID_BT_REMOTE_DEVICE_1, Mem ''remote_device1''),
     (TLS_PARAM_ID_BT_REMOTE_DEVICE_2, Mem ''remote_device2''),
     (TLS_PARAM_ID_BT_REMOTE_DEVICE_3, Mem ''remote_device3''),
     (TLS_PARAM_ID_BT_REMOTE_DEVICE_4, Mem ''remote_device4''),
     (TLS_PARAM_ID_BT_REMOTE_DEVICE_5, Mem ''remote_device5'')]"

definition get_cases_1 :: "(int \<times> access) list" where
  "get_cases_1 = [
     (TLS_PARAM_ID_ALL, Whole),
     (TLS_PARAM_ID_SSID, Mem ''ssid''),
     (TLS_PARAM_ID_ENCRY, Mem ''encry''),
     (TLS_PARAM_ID_KEY, Mem ''key''),
     (TLS_PARAM_ID_IP, Mem ''ipcfg''),
     (TLS_PARAM_ID_AUTOMODE, Mem ''auto_mode''),
     (TLS_PARAM_ID_DEFSOCKET, Mem ''remote_socket_cfg''),
     (TLS_PARAM_ID_BSSID, Mem ''bssid''),
     (TLS_PARAM_ID_CHANNEL, Mem ''channel''),
     (TLS_PARAM_ID_CHANNEL_LIST, Mem ''channellist''),
     (TLS_PARAM_ID_CHANNEL_EN, Mem ''channel_enable''),
     (TLS_PARAM_ID_COUNTRY_REGION, Mem ''wireless_region''),
     (TLS_PARAM_ID_WPROTOCOL, Mem ''wireless_protocol''),
     (TLS_PARAM_ID_ADHOC_AUTOCREATE, Mem ''auto_create_adhoc''),
     (TLS_PARAM_ID_ROAMING, Mem ''auto_roam''),
     (TLS_PARAM_ID_AUTO_RETRY_CNT, Mem ''auto_retrycnt''),
     (TLS_PARAM_ID_WBGR, Mem ''wbgr''),
     (TLS_PARAM_ID_USRINTF, Mem ''user_port_mode''),
     (TLS_PARAM_ID_AUTO_TRIGGER_LENGTH, Mem ''transparent_trigger_length''),
     (TLS_PARAM_ID_AUTO_TRIGGER_PERIOD, Mem ''transparent_trigger_period''),
     (TLS_PARAM_ID_ESCAPE_CHAR, Mem ''EscapeChar''),
     (TLS_PARAM_ID_ESCAPE_PERIOD, Mem ''EscapePeriod''),
     (TLS_PARAM_ID_IO_MODE, Mem ''IoMode''),
     (TLS_PARAM_ID_CMD_MODE, Mem ''CmdMode''),
     (TLS_PARAM_ID_PASSWORD, Mem ''PassWord''),
     (TLS_PARAM_ID_WEBS_CONFIG, Mem ''WebsCfg''),
     (TLS_PARAM_ID_DEBUG_MODE, Mem ''debug_mode''),
     (TLS_PARAM_ID_HARDVERSION, Mem ''hardware_version''),
     (TLS_PARAM_ID_BRDSSID, Mem ''ssid_broadcast_enable''),
     (TLS_PARAM_ID_DNSNAME, CStr ''local_dnsname'')]"

definition get_cases_2 :: "(int \<times> access) list" where
  "get_cases_2 = [
     (TLS_PARAM_ID_DEVNAME, CStr ''local_device_name''),
     (TLS_PARAM_ID_PSM, Mem ''auto_powersave''),
     (TLS_PARAM_ID_ORAY_CLIENT, Mem ''oray_client_setting''),
     (TLS_PARAM_ID_UPNP, Mem ''upnp_enable''),
     (TLS_PARAM_ID_UART, Mem ''uart_cfg''),
     (TLS_PARAM_ID_ONESHOT_CFG, Mem ''oneshotflag''),
     (TLS_PARAM_ID_SHA1, Mem ''psk''),
     (TLS_PARAM_ID_ORIGIN_KEY, Mem ''original_key''),
     (TLS_PARAM_ID_ORIGIN_SSID, Mem ''original_ssid''),
     (TLS_PARAM_ID_AUTO_RECONNECT, Mem ''auto_reconnect''),
     (TLS_PARAM_ID_QUICK_CONNECT, Mem ''quick_connect''),
     (TLS_PARAM_ID_KEY_CHANGE, Mem ''key_changed''),
     (TLS_PARAM_ID_SSID_CHANGE, Mem ''ssid_changed''),
     (TLS_PARAM_ID_SOFTAP_SSID, Mem ''apsta_ssid''),
     (TLS_PARAM_ID_SOFTAP_PSK, Mem ''apsta_psk''),
     (TLS_PARAM_ID_SOFTAP_ENCRY, Mem ''encry4softap''),
     (TLS_PARAM_ID_SOFTAP_KEY, Mem ''key4softap''),
     (TLS_PARAM_ID_SOFTAP_IP, Mem ''ipcfg4softap''),
     (TLS_PARAM_ID_SOFTAP_CHANNEL, Mem ''channel4softap''),
     (TLS_PARAM_ID_SOFTAP_WBGR, Mem ''wbgr4softap''),
     (TLS_PARAM_ID_SNTP_SERVER1, CStr ''sntp_service1''),
     (TLS_PARAM_ID_SNTP_SERVER2, CStr ''sntp_service2''),
     (TLS_PARAM_ID_SNTP_SERVER3, CStr ''sntp_service3''),
     (TLS_PARAM_ID_TEM_OFFSET, Mem ''params_tem''),
     (TLS_PARAM_ID_BT_ADAPTER, Mem ''adapter_t''),
     (TLS_PARAM_ID_BT_REMOTE_DEVICE_1, Mem ''remote_device1''),
     (TLS_PARAM_ID_BT_REMOTE_DEVICE_2, Mem ''remote_device2''),
     (TLS_PARAM_ID_BT_REMOTE_DEVICE_3, Mem ''remote_device3''),
     (TLS_PARAM_ID_BT_REMOTE_DEVICE_4, Mem ''remote_device4''),
     (TLS_PARAM_ID_BT_REMOTE_DEVICE_5, Mem ''remote_device5'')]"

definition set_field :: "int \<Rightarrow> access option" where
  "set_field pid = map_of (set_cases_1 @ set_cases_2) pid"

definition get_field :: "int \<Rightarrow> access option" where
  "get_field pid = map_of (get_cases_1 @ get_cases_2) pid"

section \<open>Access to an image\<close>

abbreviation SYS_SIZE :: nat where "SYS_SIZE \<equiv> csizeof (CStruct tls_sys_param)"
abbreviation FLASH_SIZE :: nat where "FLASH_SIZE \<equiv> csizeof (CStruct tls_param_flash)"

definition cstring :: "u8 list \<Rightarrow> u8 list" where
  "cstring bs = takeWhile (\<lambda>b. b \<noteq> 0) bs @ [0]"

text \<open>\<open>None\<close>: the copy runs past the end of the block.\<close>

fun put_field :: "access \<Rightarrow> u8 list \<Rightarrow> u8 list \<Rightarrow> u8 list option" where
  "put_field Whole argv p = Some (overlay p 0 (take SYS_SIZE argv))"
| "put_field (Mem x) argv p = (let (off, n) = member tls_sys_param x in Some (overlay p off (take n argv)))"
| "put_field (CStr x) argv p =
     (let (off, n) = member tls_sys_param x; bs = cstring argv
      in if off + length bs \<le> length p then Some (overlay p off bs) else None)"

fun fetch_field :: "access \<Rightarrow> u8 list \<Rightarrow> u8 list option" where
  "fetch_field Whole p = Some (take SYS_SIZE p)"
| "fetch_field (Mem x) p = (let (off, n) = member tls_sys_param x in Some (take n (drop off p)))"
| "fetch_field (CStr x) p =
     (let (off, n) = member tls_sys_param x
      in if 0 \<in> set (drop off p) then Some (cstring (drop off p)) else None)"

end
