(* ===== verification/Param.thy ===== *)
theory Param
  imports Param_Image Crypto_Crc Internal_Flash
begin

text \<open>
  The parameter manager, \<^verbatim>\<open>platform/common/params/wm_param.c\<close>: the RAM copy \<^verbatim>\<open>flash_param\<close> of the parameter
  block, its two copies in flash (partitions 0 and 1), the user default block, and the operations that
  set, get, store, load and repair them.

  \<open>flash_param\<close> is the byte image of \<^verbatim>\<open>struct tls_param_flash\<close>.  The flash driver of \<open>Internal_Flash\<close> is
  part of the state, \<open>l\<close> holds the partition addresses, \<open>eng\<close> is the CRC unit.  Results of
  \<^verbatim>\<open>tls_mem_alloc\<close> and \<^verbatim>\<open>tls_os_sem_create\<close> are arguments.  Operations return \<open>None\<close> where the C would
  access memory outside the parameter block.  Every public operation holds \<^verbatim>\<open>sys_param_lock\<close>.
\<close>

record 'c param_state =
  flash_param :: "u8 list"
  user_default_param :: "u8 list option"
  updp_mode :: u8
  fdev :: "'c fls"

abbreviation TLS_PARAM_STATUS_OK :: int where "TLS_PARAM_STATUS_OK \<equiv> 0"
abbreviation TLS_PARAM_STATUS_EINVALID :: int where "TLS_PARAM_STATUS_EINVALID \<equiv> 1"
abbreviation TLS_PARAM_STATUS_EMEM :: int where "TLS_PARAM_STATUS_EMEM \<equiv> 2"
abbreviation TLS_PARAM_STATUS_EIO :: int where "TLS_PARAM_STATUS_EIO \<equiv> 3"
abbreviation TLS_PARAM_STATUS_EPERM :: int where "TLS_PARAM_STATUS_EPERM \<equiv> 4"
abbreviation TLS_PARAM_STATUS_EINVALIDID :: int where "TLS_PARAM_STATUS_EINVALIDID \<equiv> 5"
abbreviation TLS_PARAM_MAGIC :: u32 where "TLS_PARAM_MAGIC \<equiv> 0x4947414d"
abbreviation TLS_USER_MAGIC :: u32 where "TLS_USER_MAGIC \<equiv> 0x574D3031"

section \<open>The header of the block\<close>

definition fp_magic :: "u8 list \<Rightarrow> u32" where "fp_magic b = get32 b (fst (member tls_param_flash ''magic''))"
definition fp_partition :: "u8 list \<Rightarrow> u16" where "fp_partition b = get16 b (fst (member tls_param_flash ''partition_num''))"
definition fp_count :: "u8 list \<Rightarrow> u16" where "fp_count b = get16 b (fst (member tls_param_flash ''modify_count''))"
definition fp_length :: "u8 list \<Rightarrow> u16" where "fp_length b = get16 b (fst (member tls_param_flash ''length''))"
definition fp_params :: "u8 list \<Rightarrow> u8 list" where
  "fp_params b = (let (off, n) = member tls_param_flash ''parameters'' in take n (drop off b))"

definition fp_put :: "string \<Rightarrow> u8 list \<Rightarrow> u8 list \<Rightarrow> u8 list" where
  "fp_put x bs b = overlay b (fst (member tls_param_flash x)) bs"

definition partition_addr :: "flash_layout \<Rightarrow> u16 \<Rightarrow> u32" where
  "partition_addr l pn = (if pn = 0 then FLASH_PARAM1_ADDR l else FLASH_PARAM2_ADDR l)"

section \<open>Storing\<close>

text \<open>\<open>mem\<close>: whether the comparison buffer is allocated; a \<^verbatim>\<open>memcmp\<close> against the block in flash.\<close>

definition param_flash_verify :: "'c hw \<Rightarrow> bool \<Rightarrow> u32 \<Rightarrow> u8 list \<Rightarrow> 'c fls \<Rightarrow> int \<times> 'c fls" where
  "param_flash_verify hw mem addr data s =
     (if \<not> mem then (0, s)
      else (case tls_fls_read hw addr (Some True) (of_nat (length data)) s of
              (err, bs, s) \<Rightarrow> if err \<noteq> TLS_FLS_STATUS_OK then (0, s)
                              else if bs = data then (1, s) else (0, s)))"

text \<open>The header and checksum \<^verbatim>\<open>param_to_flash\<close> gives the block before it is written.\<close>

definition param_seal :: "int \<Rightarrow> u8 list \<Rightarrow> u8 list" where
  "param_seal partition_num b =
     (let b = fp_put ''magic'' (le32 TLS_PARAM_MAGIC) b;
          b = fp_put ''length'' (le16 (of_nat FLASH_SIZE)) b;
          b = fp_put ''modify_count'' (le16 1) b;
          b = fp_put ''partition_num''
                (le16 (if partition_num < 0 then (fp_partition b + 1) AND 1 else of_int partition_num)) b;
          b = fp_put ''resv_2'' (le16 0) b;
          b = fp_put ''resv_1'' (le32 0) b
      in fp_put ''crc32'' (le32 (get_crc32 (take (FLASH_SIZE - 4) b))) b)"

definition param_to_flash ::
  "'c hw \<Rightarrow> flash_layout \<Rightarrow> bool \<Rightarrow> bool \<Rightarrow> int \<Rightarrow> int \<Rightarrow> 'c param_state \<Rightarrow> int \<times> 'c param_state" where
  "param_to_flash hw l mem1 mem2 pid partition_num s =
     (if pid < TLS_PARAM_ID_ALL \<or> pid \<ge> TLS_PARAM_ID_MAX then (TLS_PARAM_STATUS_EINVALID, s)
      else
        (let b = param_seal partition_num (flash_param s);
             s = s\<lparr>flash_param := b\<rparr>;
             addr = partition_addr l (fp_partition b);
             (v, d) = param_flash_verify hw mem1 addr b (fdev s)
         in if v = 1 then (0, s\<lparr>fdev := d\<rparr>)
            else
              (case tls_fls_write hw addr (Some b) (of_nat (length b)) d of
                 (err, d) \<Rightarrow>
                   if err \<noteq> TLS_FLS_STATUS_OK then (TLS_PARAM_STATUS_EIO, s\<lparr>fdev := d\<rparr>)
                   else (let (v, d) = param_flash_verify hw mem2 addr b d
                         in (if v = 1 then TLS_PARAM_STATUS_OK else TLS_PARAM_STATUS_EIO, s\<lparr>fdev := d\<rparr>)))))"

section \<open>Factory defaults\<close>

text \<open>Assignments to members and members of members, as offset and bytes, in source order.\<close>

definition at :: "string \<Rightarrow> nat" where "at x = fst (member tls_sys_param x)"

definition sub :: "string \<Rightarrow> cfields \<Rightarrow> string \<Rightarrow> nat" where "sub x t y = at x + fst (member t y)"

definition text_bytes :: "string \<Rightarrow> u8 list" where "text_bytes s = map of_char s @ [0]"

definition factory_default_hardware :: "u8 list" where
  "factory_default_hardware = [0x48, 0x01, 0, 0, 0, 0, 0, 0]"

definition factory_radio :: "(nat \<times> u8 list) list" where
  "factory_radio = [(at ''hardware_version'', factory_default_hardware), (at ''wireless_region'', [1]),
     (at ''channel'', [1]), (at ''channellist'', le16 0x3FFF), (sub ''wbgr'' tls_param_bgr ''bg'', [2]),
     (sub ''wbgr'' tls_param_bgr ''max_rate'', [25]), (at ''ssid_broadcast_enable'', [1]), (at ''encry'', [0]),
     (at ''wireless_protocol'', [1]), (at ''auto_retrycnt'', [255]), (at ''auto_roam'', [0]),
     (at ''auto_powersave'', [0]), (at ''auto_reconnect'', [0]), (at ''auto_mode'', [0]),
     (at ''transparent_trigger_length'', le16 512), (sub ''uart_cfg'' tls_param_uart ''baudrate'', le32 115200),
     (sub ''uart_cfg'' tls_param_uart ''stop_bits'', [0]), (sub ''uart_cfg'' tls_param_uart ''parity'', [0]),
     (at ''user_port_mode'', [0])]"

definition factory_net :: "(nat \<times> u8 list) list" where
  "factory_net = [(sub ''ipcfg'' tls_param_ip ''dhcp_enable'', [1]),
     (sub ''ipcfg'' tls_param_ip ''ip'', [192, 168, 1, 1]), (sub ''ipcfg'' tls_param_ip ''netmask'', [255, 255, 255, 0]),
     (sub ''ipcfg'' tls_param_ip ''gateway'', [192, 168, 1, 1]), (sub ''ipcfg'' tls_param_ip ''dns1'', [192, 168, 1, 1]),
     (sub ''ipcfg'' tls_param_ip ''dns2'', [192, 168, 1, 1]), (at ''local_dnsname'', text_bytes ''local.xt804''),
     (at ''local_device_name'', text_bytes ''xt804''), (sub ''remote_socket_cfg'' tls_param_socket ''protocol'', [0]),
     (sub ''remote_socket_cfg'' tls_param_socket ''client_or_server'', [1]),
     (sub ''remote_socket_cfg'' tls_param_socket ''port_num'', le16 60000),
     (sub ''remote_socket_cfg'' tls_param_socket ''host'', replicate 32 0), (at ''EscapeChar'', [0x2b]),
     (at ''EscapePeriod'', le16 200), (sub ''WebsCfg'' tls_webs_cfg ''AutoRun'', [1]),
     (sub ''WebsCfg'' tls_webs_cfg ''PortNum'', le16 80), (at ''debug_mode'', le32 0),
     (at ''PassWord'', replicate 6 0x30)]"

definition factory_softap :: "(nat \<times> u8 list) list" where
  "factory_softap = [(at ''channel4softap'', [11]), (at ''encry4softap'', [0]),
     (sub ''ipcfg4softap'' tls_param_ip ''dhcp_enable'', [1]), (sub ''ipcfg4softap'' tls_param_ip ''ip'', [192, 168, 0, 1]),
     (sub ''ipcfg4softap'' tls_param_ip ''netmask'', [255, 255, 255, 0]),
     (sub ''ipcfg4softap'' tls_param_ip ''gateway'', [192, 168, 0, 1]),
     (sub ''ipcfg4softap'' tls_param_ip ''dns1'', [192, 168, 0, 1]),
     (sub ''ipcfg4softap'' tls_param_ip ''dns2'', [0, 0, 0, 0]), (sub ''wbgr4softap'' tls_param_bgr ''bg'', [2]),
     (sub ''wbgr4softap'' tls_param_bgr ''max_rate'', [9]), (at ''sntp_service1'', text_bytes ''cn.ntp.org.cn''),
     (at ''sntp_service2'', text_bytes ''ntp.sjtu.edu.cn''), (at ''sntp_service3'', text_bytes ''us.pool.ntp.org'')]"

definition assign_all :: "(nat \<times> u8 list) list \<Rightarrow> u8 list \<Rightarrow> u8 list" where
  "assign_all as p = foldl (\<lambda>p a. overlay p (fst a) (snd a)) p as"

definition tls_param_load_factory_default :: "'c param_state \<Rightarrow> 'c param_state" where
  "tls_param_load_factory_default s =
     s\<lparr>flash_param := fp_put ''parameters''
         (assign_all (factory_radio @ factory_net @ factory_softap) (replicate SYS_SIZE 0)) (flash_param s)\<rparr>"

section \<open>Start-up\<close>

text \<open>
  The loop of \<^verbatim>\<open>tls_param_init\<close> over the two partitions.  \<open>buf\<close> is the allocated block \<^verbatim>\<open>flash\<close>, which a
  failing \<^verbatim>\<open>tls_fls_read\<close> leaves as it is.  The length stored in the block is used unchecked: a length
  outside the block makes the loop access memory behind or before \<^verbatim>\<open>flash\<close>.
\<close>

definition block_crc_ok :: "crc_engine \<Rightarrow> u8 list \<Rightarrow> bool" where
  "block_crc_ok eng buf =
     (let n = unat (fp_length buf) - 4;
          crcvalue = tls_crypto_crc_final
            (tls_crypto_crc_update eng (tls_crypto_crc_init 0xFFFFFFFF CRYPTO_CRC_TYPE_32 3) buf (of_nat n))
      in NOT crcvalue = get32 buf n)"

definition adopt_block :: "u8 list \<Rightarrow> 'c param_state \<Rightarrow> 'c param_state" where
  "adopt_block buf s =
     (if fp_magic (flash_param s) = 0 \<or> fp_count (flash_param s) < fp_count buf
      then (let n = (if unat (fp_length buf) \<noteq> FLASH_SIZE then unat (fp_length buf) - 4 else FLASH_SIZE)
            in s\<lparr>flash_param := overlay (flash_param s) 0 (take n buf)\<rparr>)
      else s)"

function init_scan ::
  "'c hw \<Rightarrow> crc_engine \<Rightarrow> flash_layout \<Rightarrow> nat \<Rightarrow> bool \<Rightarrow> nat \<Rightarrow> bool list \<Rightarrow> u8 list \<Rightarrow> 'c param_state \<Rightarrow>
   (nat \<times> bool list \<times> 'c param_state) option" where
  "init_scan hw eng l i tryrestore damaged is_damage buf s =
     (if i \<ge> 2 then Some (damaged, is_damage, s)
      else
        (case tls_fls_read hw (if i = 0 then FLASH_PARAM1_ADDR l else FLASH_PARAM2_ADDR l) (Some True)
                (of_nat FLASH_SIZE) (fdev s) of
           (_, bs, d) \<Rightarrow>
             (let buf = overlay buf 0 bs; s = s\<lparr>fdev := d\<rparr>
              in if fp_magic buf \<noteq> TLS_PARAM_MAGIC then
                   init_scan hw eng l (Suc i) tryrestore (Suc damaged) (is_damage[i := True]) buf s
                 else if unat (fp_length buf) < 4 \<or> FLASH_SIZE < unat (fp_length buf) then None
                 else if \<not> block_crc_ok eng buf then
                   init_scan hw eng l (Suc i) tryrestore (Suc damaged) (is_damage[i := True]) buf s
                 else
                   (let s = adopt_block buf s; buf = replicate FLASH_SIZE 0
                    in if \<not> tryrestore \<and> damaged \<ge> 2 then
                         init_scan hw eng l 0 True 0 [False, False] buf
                           (s\<lparr>flash_param := replicate FLASH_SIZE 0,
                              fdev := snd (tls_fls_erase hw (FLASH_PARAM_RESTORE_ADDR l div 0x1000) (fdev s))\<rparr>)
                       else init_scan hw eng l (Suc i) tryrestore damaged is_damage buf s))))"
  by pat_completeness auto
termination
  by (relation "measure (\<lambda>(hw, eng, l, i, t, dm, isd, buf, s). (if t then 0 else 3) + (2 - i))") auto

declare init_scan.simps [simp del]

definition store_defaults ::
  "'c hw \<Rightarrow> flash_layout \<Rightarrow> (nat \<Rightarrow> bool) \<Rightarrow> 'c param_state \<Rightarrow> int \<times> 'c param_state" where
  "store_defaults hw l vm s =
     (let s = tls_param_load_factory_default s;
          (err, s) = param_to_flash hw l (vm 0) (vm 1) TLS_PARAM_ID_ALL 0 s
      in if err \<noteq> TLS_PARAM_STATUS_OK then (TLS_PARAM_STATUS_EIO, s)
         else (let (err, s) = param_to_flash hw l (vm 2) (vm 3) TLS_PARAM_ID_ALL 1 s
               in (if err \<noteq> TLS_PARAM_STATUS_OK then TLS_PARAM_STATUS_EIO else err, s)))"

text \<open>Rewriting the damaged partitions from the RAM copy.\<close>

definition repair_partition ::
  "'c hw \<Rightarrow> flash_layout \<Rightarrow> (nat \<Rightarrow> bool) \<Rightarrow> bool list \<Rightarrow> int \<times> 'c param_state \<Rightarrow> nat \<Rightarrow> int \<times> 'c param_state" where
  "repair_partition hw l vm is_damage st i =
     (let (err, s) = st
      in if err \<noteq> TLS_PARAM_STATUS_OK \<or> \<not> is_damage ! i then (err, s)
         else (let (err, s) = param_to_flash hw l (vm (2 * i)) (vm (2 * i + 1)) TLS_PARAM_ID_ALL (int i) s
               in (if err \<noteq> TLS_PARAM_STATUS_OK then TLS_PARAM_STATUS_EIO else err, s)))"

definition tls_param_init ::
  "'c hw \<Rightarrow> crc_engine \<Rightarrow> flash_layout \<Rightarrow> bool \<Rightarrow> bool \<Rightarrow> (nat \<Rightarrow> bool) \<Rightarrow> 'c param_state \<Rightarrow>
   (int \<times> 'c param_state) option" where
  "tls_param_init hw eng l sem mem vm s =
     (if fp_magic (flash_param s) = TLS_PARAM_MAGIC then Some (TLS_PARAM_STATUS_EPERM, s)
      else if \<not> sem then Some (TLS_PARAM_STATUS_EMEM, s)
      else
        (let s = s\<lparr>flash_param := replicate FLASH_SIZE 0\<rparr>
         in if \<not> mem then Some (TLS_PARAM_STATUS_EMEM, s)
            else
              (case init_scan hw eng l 0 False 0 [False, False] (replicate FLASH_SIZE 0) s of
                 None \<Rightarrow> None
               | Some (damaged, is_damage, s) \<Rightarrow>
                   Some (if damaged \<ge> 2 then store_defaults hw l vm s
                         else foldl (repair_partition hw l vm is_damage) (TLS_PARAM_STATUS_OK, s) [0, 1]))))"

section \<open>Set and get\<close>

definition tls_param_user_param_init :: "bool \<Rightarrow> 'c param_state \<Rightarrow> u8 list option \<times> 'c param_state" where
  "tls_param_user_param_init mem s =
     (case user_default_param s of
        Some b \<Rightarrow> (Some b, s)
      | None \<Rightarrow> if mem then (Some (replicate SYS_SIZE 0), s\<lparr>user_default_param := Some (replicate SYS_SIZE 0)\<rparr>)
                else (None, s))"

definition bad_param_id :: "int \<Rightarrow> bool" where
  "bad_param_id pid \<longleftrightarrow> pid < TLS_PARAM_ID_ALL \<or> pid \<ge> TLS_PARAM_ID_MAX"

definition tls_param_set ::
  "'c hw \<Rightarrow> flash_layout \<Rightarrow> (nat \<Rightarrow> bool) \<Rightarrow> bool \<Rightarrow> int \<Rightarrow> u8 list option \<Rightarrow> bool \<Rightarrow> 'c param_state \<Rightarrow>
   (int \<times> 'c param_state) option" where
  "tls_param_set hw l vm umem pid argv to_flash s =
     (if bad_param_id pid \<or> argv = None then Some (TLS_PARAM_STATUS_EINVALID, s)
      else if updp_mode s \<noteq> 0 then
        (case tls_param_user_param_init umem s of
           (None, s) \<Rightarrow> Some (TLS_PARAM_STATUS_EMEM, s)
         | (Some p, s) \<Rightarrow>
             (case set_field pid of
                None \<Rightarrow> Some (TLS_PARAM_STATUS_EINVALIDID, s)
              | Some acc \<Rightarrow>
                  map_option (\<lambda>p. (TLS_PARAM_STATUS_OK, s\<lparr>user_default_param := Some p\<rparr>))
                    (put_field acc (the argv) p)))
      else
        (case set_field pid of
           None \<Rightarrow> Some (TLS_PARAM_STATUS_EINVALIDID, s)
         | Some acc \<Rightarrow>
             (case put_field acc (the argv) (fp_params (flash_param s)) of
                None \<Rightarrow> None
              | Some p \<Rightarrow>
                  (let s = s\<lparr>flash_param := fp_put ''parameters'' p (flash_param s)\<rparr>
                   in if to_flash then Some (param_to_flash hw l (vm 0) (vm 1) pid (- 1) s)
                      else Some (TLS_PARAM_STATUS_OK, s)))))"

text \<open>The result of \<^verbatim>\<open>tls_param_get\<close> carries the bytes stored through \<^verbatim>\<open>argv\<close>.\<close>

definition tls_param_get ::
  "'c hw \<Rightarrow> flash_layout \<Rightarrow> bool \<Rightarrow> int \<Rightarrow> bool \<Rightarrow> 'c param_state \<Rightarrow> (int \<times> u8 list \<times> 'c param_state) option" where
  "tls_param_get hw l mem pid from_flash s =
     (if bad_param_id pid then Some (TLS_PARAM_STATUS_EINVALID, [], s)
      else
        (let (src, s) =
           (if from_flash \<and> mem then
              (case tls_fls_read hw (partition_addr l (fp_partition (flash_param s))) (Some True)
                      (of_nat FLASH_SIZE) (fdev s) of
                 (err, bs, d) \<Rightarrow>
                   (if err = TLS_FLS_STATUS_OK then fp_params bs else fp_params (flash_param s), s\<lparr>fdev := d\<rparr>))
            else (fp_params (flash_param s), s))
         in case get_field pid of
              None \<Rightarrow> Some (TLS_PARAM_STATUS_EINVALIDID, [], s)
            | Some acc \<Rightarrow> map_option (\<lambda>bs. (TLS_PARAM_STATUS_OK, bs, s)) (fetch_field acc src)))"

definition tls_param_get_bt_param_address :: "u32 \<Rightarrow> int \<Rightarrow> bool \<Rightarrow> int" where
  "tls_param_get_bt_param_address base pid from_flash =
     (if bad_param_id pid then TLS_PARAM_STATUS_EINVALID
      else if from_flash then - 1
      else if pid = TLS_PARAM_ID_BT_REMOTE_DEVICE_1 then sint (base + of_nat (at ''remote_device1''))
      else if pid = TLS_PARAM_ID_BT_REMOTE_DEVICE_2 then sint (base + of_nat (at ''remote_device2''))
      else if pid = TLS_PARAM_ID_BT_REMOTE_DEVICE_3 then sint (base + of_nat (at ''remote_device3''))
      else if pid = TLS_PARAM_ID_BT_REMOTE_DEVICE_4 then sint (base + of_nat (at ''remote_device4''))
      else if pid = TLS_PARAM_ID_BT_REMOTE_DEVICE_5 then sint (base + of_nat (at ''remote_device5''))
      else 0)"

definition tls_param_to_flash ::
  "'c hw \<Rightarrow> flash_layout \<Rightarrow> bool \<Rightarrow> (nat \<Rightarrow> bool) \<Rightarrow> int \<Rightarrow> 'c param_state \<Rightarrow> int \<times> 'c param_state" where
  "tls_param_to_flash hw l mem vm pid s =
     (if pid = TLS_PARAM_ID_ALL \<and> mem then
        (case tls_fls_read hw (partition_addr l (fp_partition (flash_param s))) (Some True)
                (of_nat FLASH_SIZE) (fdev s) of
           (err, bs, d) \<Rightarrow>
             (let s = s\<lparr>fdev := d\<rparr>
              in if err = TLS_FLS_STATUS_OK \<and> fp_params bs = fp_params (flash_param s) then (TLS_FLS_STATUS_OK, s)
                 else param_to_flash hw l (vm 0) (vm 1) pid (- 1) s))
      else param_to_flash hw l (vm 0) (vm 1) pid (- 1) s)"

definition tls_param_to_default ::
  "'c hw \<Rightarrow> flash_layout \<Rightarrow> (nat \<Rightarrow> bool) \<Rightarrow> 'c param_state \<Rightarrow> int \<times> 'c param_state" where
  "tls_param_to_default hw l vm s =
     (let s = tls_param_load_factory_default s;
          (err, s) = param_to_flash hw l (vm 0) (vm 1) TLS_PARAM_ID_ALL 0 s
      in if err \<noteq> 0 then (err, s)
         else (let (err, s) = param_to_flash hw l (vm 2) (vm 3) TLS_PARAM_ID_ALL 1 s
               in (err, s\<lparr>flash_param := fp_put ''magic'' (le32 0) (flash_param s)\<rparr>)))"

section \<open>User defaults\<close>

text \<open>
  The user default block in flash: magic, parameters, checksum, in three writes whose results are
  ignored.  \<open>junk\<close> is the initial content of the local variables a failing read leaves untouched.
\<close>

definition tls_param_save_user_default :: "'c hw \<Rightarrow> flash_layout \<Rightarrow> 'c param_state \<Rightarrow> int \<times> 'c param_state" where
  "tls_param_save_user_default hw l s =
     (case user_default_param s of
        None \<Rightarrow> (TLS_PARAM_STATUS_EMEM, s)
      | Some p \<Rightarrow>
          (let offset = FLASH_PARAM_DEFAULT l;
               d = snd (tls_fls_write hw offset (Some (le32 TLS_USER_MAGIC)) 4 (fdev s));
               d = snd (tls_fls_write hw (offset + 4) (Some p) (of_nat SYS_SIZE) d);
               d = snd (tls_fls_write hw (offset + 4 + of_nat SYS_SIZE) (Some (le32 (get_crc32 p))) 4 d)
           in (TLS_PARAM_STATUS_OK, s\<lparr>fdev := d\<rparr>)))"

definition tls_param_load_user ::
  "'c hw \<Rightarrow> flash_layout \<Rightarrow> u8 list \<Rightarrow> u8 list \<Rightarrow> u8 list \<Rightarrow> 'c fls \<Rightarrow> int \<times> u8 list \<times> 'c fls" where
  "tls_param_load_user hw l junk1 junk2 param d =
     (let offset = FLASH_PARAM_DEFAULT l;
          (_, bs, d) = tls_fls_read hw offset (Some True) 4 d;
          magic = get32 (overlay junk1 0 bs) 0
      in if TLS_USER_MAGIC \<noteq> magic then (TLS_PARAM_STATUS_EINVALID, param, d)
         else
           (let (_, bs, d) = tls_fls_read hw (offset + 4) (Some True) (of_nat SYS_SIZE) d;
                param = overlay (replicate SYS_SIZE 0) 0 bs;
                (_, bs, d) = tls_fls_read hw (offset + 4 + of_nat SYS_SIZE) (Some True) 4 d;
                crc32 = get32 (overlay junk2 0 bs) 0
            in if crc32 \<noteq> get_crc32 param then (TLS_PARAM_STATUS_EINVALID, param, d)
               else (TLS_PARAM_STATUS_OK, param, d)))"

definition tls_user_param :: cfields where
  "tls_user_param = cfs [(''wireless_protocol'', CU8), (''auto_mode'', CU8), (''dhcp_enable'', CU8),
     (''user_port_mode'', CU8), (''ip'', bytes 4), (''netmask'', bytes 4), (''gateway'', bytes 4), (''dns'', bytes 4),
     (''baudrate'', CU32), (''socket_protocol'', CU8), (''socket_client_or_server'', CU8),
     (''socket_port_num'', CU16), (''socket_host'', bytes 32), (''auto_powersave'', CU8), (''PassWord'', bytes 6)]"

definition user_bytes :: "u8 list \<Rightarrow> string \<Rightarrow> u8 list" where
  "user_bytes u x = (let (off, n) = member tls_user_param x in take n (drop off u))"

definition user_assign :: "u8 list \<Rightarrow> (nat \<times> u8 list) list" where
  "user_assign u = [(at ''wireless_protocol'', user_bytes u ''wireless_protocol''),
     (at ''auto_mode'', user_bytes u ''auto_mode''),
     (sub ''uart_cfg'' tls_param_uart ''baudrate'', user_bytes u ''baudrate''),
     (at ''user_port_mode'', user_bytes u ''user_port_mode''),
     (sub ''ipcfg'' tls_param_ip ''dhcp_enable'', user_bytes u ''dhcp_enable''),
     (at ''auto_powersave'', user_bytes u ''auto_powersave''),
     (sub ''ipcfg'' tls_param_ip ''ip'', user_bytes u ''ip''),
     (sub ''ipcfg'' tls_param_ip ''netmask'', user_bytes u ''netmask''),
     (sub ''ipcfg'' tls_param_ip ''gateway'', user_bytes u ''gateway''),
     (sub ''ipcfg'' tls_param_ip ''dns1'', user_bytes u ''dns''),
     (sub ''ipcfg'' tls_param_ip ''dns2'', user_bytes u ''dns''),
     (sub ''remote_socket_cfg'' tls_param_socket ''protocol'', user_bytes u ''socket_protocol''),
     (sub ''remote_socket_cfg'' tls_param_socket ''client_or_server'', user_bytes u ''socket_client_or_server''),
     (sub ''remote_socket_cfg'' tls_param_socket ''port_num'', user_bytes u ''socket_port_num''),
     (sub ''remote_socket_cfg'' tls_param_socket ''host'', user_bytes u ''socket_host''),
     (at ''PassWord'', user_bytes u ''PassWord''),
     (at ''hardware_version'', factory_default_hardware), (at ''wireless_region'', [1]), (at ''channel'', [1]),
     (at ''channellist'', le16 0x3FFF), (sub ''wbgr'' tls_param_bgr ''bg'', [0]),
     (sub ''wbgr'' tls_param_bgr ''max_rate'', [9]), (at ''ssid_broadcast_enable'', [1]), (at ''encry'', [0]),
     (at ''auto_retrycnt'', [255]), (at ''auto_roam'', [0]), (at ''transparent_trigger_length'', le16 512),
     (sub ''uart_cfg'' tls_param_uart ''stop_bits'', [0]), (sub ''uart_cfg'' tls_param_uart ''parity'', [0]),
     (at ''local_dnsname'', text_bytes ''local.xt804''), (at ''local_device_name'', text_bytes ''xt804''),
     (at ''EscapeChar'', [0x2b]), (at ''EscapePeriod'', le16 200), (at ''debug_mode'', le32 0)]"

definition tls_param_save_user ::
  "'c hw \<Rightarrow> flash_layout \<Rightarrow> bool \<Rightarrow> u8 list \<Rightarrow> 'c param_state \<Rightarrow> int \<times> 'c param_state" where
  "tls_param_save_user hw l mem u s =
     (case tls_param_user_param_init mem s of
        (None, s) \<Rightarrow> (TLS_PARAM_STATUS_EMEM, s)
      | (Some p, s) \<Rightarrow>
          (TLS_PARAM_STATUS_OK,
           snd (tls_param_save_user_default hw l (s\<lparr>user_default_param := Some (assign_all (user_assign u) p)\<rparr>))))"

definition tls_param_get_updp_mode :: "'c param_state \<Rightarrow> u8" where
  "tls_param_get_updp_mode s = updp_mode s"

definition tls_param_set_updp_mode :: "u8 \<Rightarrow> 'c param_state \<Rightarrow> 'c param_state" where
  "tls_param_set_updp_mode m s = s\<lparr>updp_mode := m\<rparr>"

end
