(* ===== verification/Param_Layout.thy ===== *)
theory Param_Layout
  imports Param_Image
begin

text \<open>
  Facts about the parameter image: sizes and offsets, that members never overlap, and the store laws of
  member access, stated as the locale \<open>keyed_store\<close> and interpreted on the image.
\<close>

section \<open>Sizes and offsets\<close>

lemmas layout_eval = member_def members.simps csizeof.simps fend.simps calign.simps falign.simps
  cfs.simps align_up_def Let_def

lemma sub_sizes [simp]:
  "csizeof (CStruct tls_param_hardware_version) = 8" "csizeof (CStruct tls_param_bssid) = 8"
  "csizeof (CStruct tls_param_ssid) = 36" "csizeof (CStruct tls_param_tem_offset) = 8"
  "csizeof (CStruct tls_param_key) = 68" "csizeof (CStruct tls_param_original_key) = 68"
  "csizeof (CStruct tls_param_sha1) = 33" "csizeof (CStruct tls_param_bgr) = 4"
  "csizeof (CStruct tls_param_ip) = 24" "csizeof (CStruct tls_param_uart) = 8"
  "csizeof (CStruct tls_param_socket) = 36" "csizeof (CStruct tls_param_wps) = 12"
  "csizeof (CStruct tls_param_oray_client) = 68" "csizeof (CStruct tls_webs_cfg) = 4"
  "csizeof (CStruct tls_param_quick_connect) = 2" "csizeof (CStruct bt_adapter_t) = 108"
  "csizeof (CStruct bt_remote_device_t) = 220"
  by (simp_all add: param_struct_defs csizeof.simps(5) align_up_def numeral_2_eq_2 [symmetric])

lemma sub_aligns [simp]:
  "falign tls_param_hardware_version = 1" "falign tls_param_bssid = 1" "falign tls_param_ssid = 4"
  "falign tls_param_tem_offset = 4" "falign tls_param_key = 1" "falign tls_param_original_key = 4"
  "falign tls_param_sha1 = 1" "falign tls_param_bgr = 1" "falign tls_param_ip = 1" "falign tls_param_uart = 4"
  "falign tls_param_socket = 2" "falign tls_param_wps = 1" "falign tls_param_oray_client = 4"
  "falign tls_webs_cfg = 2" "falign tls_param_quick_connect = 1" "falign bt_adapter_t = 4"
  "falign bt_remote_device_t = 4"
  by (simp_all add: param_struct_defs)

lemma sys_align [simp]: "falign tls_sys_param = 4"
  by (simp add: tls_sys_param_def)

lemma sys_end: "fend tls_sys_param 0 = 2016"
  by (simp add: tls_sys_param_def align_up_def)

lemma sys_size [simp]: "SYS_SIZE = 2016"
  by (simp add: csizeof.simps(5) sys_end align_up_def)

lemma flash_members: "members tls_param_flash 0 =
   [(''magic'', 0, 4), (''partition_num'', 4, 2), (''modify_count'', 6, 2), (''resv_1'', 8, 4),
    (''resv_2'', 12, 2), (''length'', 14, 2), (''parameters'', 16, 2016), (''crc32'', 2032, 4)]"
  by (simp add: tls_param_flash_def align_up_def)

lemma flash_size [simp]: "FLASH_SIZE = 2036"
proof -
  have "fend tls_param_flash 0 = 2036" by (simp add: tls_param_flash_def align_up_def)
  moreover have "falign tls_param_flash = 4" by (simp add: tls_param_flash_def)
  ultimately show ?thesis by (simp add: csizeof.simps(5) align_up_def)
qed

lemma flash_member [simp]:
  "member tls_param_flash ''magic'' = (0, 4)" "member tls_param_flash ''partition_num'' = (4, 2)"
  "member tls_param_flash ''modify_count'' = (6, 2)" "member tls_param_flash ''resv_1'' = (8, 4)"
  "member tls_param_flash ''resv_2'' = (12, 2)" "member tls_param_flash ''length'' = (14, 2)"
  "member tls_param_flash ''parameters'' = (16, 2016)" "member tls_param_flash ''crc32'' = (2032, 4)"
  by (simp_all add: member_def flash_members)

lemma sys_members: "members tls_sys_param 0 =
   [(''hardware_version'', 0, 8), (''bssid'', 8, 8), (''ssid'', 16, 36), (''channel_enable'', 52, 1),
    (''channel'', 53, 1), (''wireless_region'', 54, 1), (''encry'', 55, 1), (''wireless_protocol'', 56, 1),
    (''auto_create_adhoc'', 57, 1), (''auto_retrycnt'', 58, 1), (''auto_roam'', 59, 1),
    (''auto_powersave'', 60, 1), (''ssid_broadcast_enable'', 61, 1), (''channellist'', 62, 2),
    (''key'', 64, 68), (''wbgr'', 132, 4), (''wps'', 136, 12), (''ipcfg'', 148, 24),
    (''local_dnsname'', 172, 32), (''local_device_name'', 204, 32), (''oray_client_setting'', 236, 68),
    (''upnp_enable'', 304, 1), (''always_online'', 305, 1), (''user_port_mode'', 306, 1), (''res_2'', 307, 1),
    (''uart_cfg'', 308, 8), (''auto_mode'', 316, 1), (''res_3'', 317, 1),
    (''transparent_trigger_length'', 318, 2), (''transparent_trigger_period'', 320, 2),
    (''remote_socket_cfg'', 322, 36), (''debug_mode'', 360, 4), (''res_4'', 364, 8), (''EscapeChar'', 372, 1),
    (''EscReserved'', 373, 1), (''EscapePeriod'', 374, 2), (''IoMode'', 376, 1), (''CmdMode'', 377, 1),
    (''PassWord'', 378, 6), (''WebsCfg'', 384, 4), (''oneshotflag'', 388, 1), (''oneshotres'', 389, 2),
    (''psk'', 391, 33), (''original_key'', 424, 68), (''original_ssid'', 492, 36),
    (''auto_reconnect'', 528, 1), (''res_5'', 529, 3), (''quick_connect'', 532, 2), (''key_changed'', 534, 1),
    (''ssid_changed'', 535, 1), (''apsta_ssid'', 536, 36), (''apsta_psk'', 572, 33), (''res_6'', 605, 1),
    (''channel4softap'', 606, 1), (''encry4softap'', 607, 1), (''key4softap'', 608, 68),
    (''ipcfg4softap'', 676, 24), (''wbgr4softap'', 700, 4), (''sntp_service1'', 704, 32),
    (''sntp_service2'', 736, 32), (''sntp_service3'', 768, 32), (''params_tem'', 800, 8),
    (''adapter_t'', 808, 108), (''remote_device1'', 916, 220), (''remote_device2'', 1136, 220),
    (''remote_device3'', 1356, 220), (''remote_device4'', 1576, 220), (''remote_device5'', 1796, 220)]"
  by (simp add: tls_sys_param_def align_up_def)

section \<open>Members do not overlap\<close>

lemma members_disjoint:
  assumes "map_of (members fs off) x = Some (o1, n1)" and "map_of (members fs off) y = Some (o2, n2)" and "x \<noteq> y"
  shows "o1 + n1 \<le> o2 \<or> o2 + n2 \<le> o1"
  using assms
proof (induction fs arbitrary: off rule: fields_induct)
  case (Field z t fs)
  then show ?case
    using members_bounds [OF map_of_SomeD, of fs "align_up off (calign t) + csizeof t"]
    by (fastforce simp: Let_def split: if_splits)
qed simp

definition sys_member :: "string \<Rightarrow> bool" where
  "sys_member x \<longleftrightarrow> x \<in> fst ` set (members tls_sys_param 0)"

lemma sys_member_some: "sys_member x \<Longrightarrow> map_of (members tls_sys_param 0) x = Some (member tls_sys_param x)"
  by (metis sys_member_def map_of_eq_None_iff member_def option.collapse)

lemma sys_member_bounds:
  assumes "sys_member x" and "member tls_sys_param x = (off, n)"
  shows "off + n \<le> 2016"
proof -
  have "(x, off, n) \<in> set (members tls_sys_param 0)"
    using sys_member_some [OF assms(1)] assms(2) by (simp add: map_of_SomeD)
  from members_bounds [OF this] show ?thesis by (simp add: sys_end)
qed

lemma sys_member_disjoint:
  assumes "sys_member x" and "sys_member y" and "x \<noteq> y"
    and "member tls_sys_param x = (o1, n1)" and "member tls_sys_param y = (o2, n2)"
  shows "o1 + n1 \<le> o2 \<or> o2 + n2 \<le> o1"
  using members_disjoint [of tls_sys_param 0 x o1 n1 y o2 n2] sys_member_some assms by metis

section \<open>The tables\<close>

lemma tables_agree: "set_field pid = get_field pid"
  by (simp add: set_field_def get_field_def set_cases_1_def set_cases_2_def get_cases_1_def get_cases_2_def)

primrec target :: "access \<Rightarrow> string" where
  "target Whole = []"
| "target (Mem x) = x"
| "target (CStr x) = x"

lemma member_names: "map fst (members (cfs xs) off) = map fst xs"
  by (induction xs arbitrary: off) (simp_all add: Let_def)

lemma sys_member_iff: "sys_member x \<longleftrightarrow> x \<in> set (map fst (members tls_sys_param 0))"
  by (simp add: sys_member_def)

lemma table_targets:
  "list_all (\<lambda>a. a = Whole \<or> sys_member (target a)) (map snd (set_cases_1 @ set_cases_2))"
  unfolding sys_member_iff tls_sys_param_def member_names
  by (simp add: set_cases_1_def set_cases_2_def)

lemma table_distinct: "distinct (map (target \<circ> snd) (set_cases_1 @ set_cases_2))"
  by code_simp

section \<open>The store of members\<close>

text \<open>
  What a keyed store promises: reading a key after writing it gives the written value, reading any other
  key is unaffected, and writes keep the store well-formed.  Inside, the last writer of a key wins.
\<close>

locale keyed_store =
  fixes put :: "'k \<Rightarrow> 'v \<Rightarrow> 's \<Rightarrow> 's" and get :: "'k \<Rightarrow> 's \<Rightarrow> 'v"
    and ok :: "'s \<Rightarrow> bool" and key :: "'k \<Rightarrow> bool" and fits :: "'k \<Rightarrow> 'v \<Rightarrow> bool"
  assumes put_ok: "ok s \<Longrightarrow> key k \<Longrightarrow> fits k v \<Longrightarrow> ok (put k v s)"
    and get_put: "ok s \<Longrightarrow> key k \<Longrightarrow> fits k v \<Longrightarrow> get k (put k v s) = v"
    and get_put_other: "ok s \<Longrightarrow> key k \<Longrightarrow> fits k v \<Longrightarrow> key k' \<Longrightarrow> k' \<noteq> k \<Longrightarrow> get k' (put k v s) = get k' s"
begin

definition puts :: "('k \<times> 'v) list \<Rightarrow> 's \<Rightarrow> 's" where
  "puts kvs s = foldl (\<lambda>s kv. put (fst kv) (snd kv) s) s kvs"

lemma puts_ok: "ok s \<Longrightarrow> \<forall>(k, v) \<in> set kvs. key k \<and> fits k v \<Longrightarrow> ok (puts kvs s)"
  by (induction kvs arbitrary: s) (auto simp: puts_def put_ok)

lemma get_puts:
  assumes "ok s" and "\<forall>(k, v) \<in> set kvs. key k \<and> fits k v" and "key k"
  shows "get k (puts kvs s) = (case map_of (rev kvs) k of Some v \<Rightarrow> v | None \<Rightarrow> get k s)"
  using assms
proof (induction kvs rule: rev_induct)
  case (snoc kv kvs)
  then have "ok (puts kvs s)" by (intro puts_ok) auto
  moreover have "puts (kvs @ [kv]) s = put (fst kv) (snd kv) (puts kvs s)" by (simp add: puts_def)
  ultimately show ?case using snoc by (auto simp: get_put get_put_other)
qed (simp add: puts_def)

end

definition put_member :: "string \<Rightarrow> u8 list \<Rightarrow> u8 list \<Rightarrow> u8 list" where
  "put_member x bs p = overlay p (fst (member tls_sys_param x)) bs"

definition get_member :: "string \<Rightarrow> u8 list \<Rightarrow> u8 list" where
  "get_member x p = take (snd (member tls_sys_param x)) (drop (fst (member tls_sys_param x)) p)"

interpretation params: keyed_store put_member get_member "\<lambda>p. length p = 2016" sys_member
  "\<lambda>x bs. length bs = snd (member tls_sys_param x)"
proof
  fix s bs :: "u8 list" and x
  assume s: "length s = 2016" and x: "sys_member x" and bs: "length bs = snd (member tls_sys_param x)"
  have b: "fst (member tls_sys_param x) + length bs \<le> 2016"
    using sys_member_bounds [OF x, of "fst (member tls_sys_param x)" "length bs"] bs by simp
  show "length (put_member x bs s) = 2016" using b s by (simp add: put_member_def)
  show "get_member x (put_member x bs s) = bs"
    unfolding put_member_def get_member_def bs [symmetric] using b s by (intro take_drop_overlay) simp
  fix y assume y: "sys_member y" "y \<noteq> x"
  have d: "fst (member tls_sys_param y) + snd (member tls_sys_param y) \<le> 2016"
    using sys_member_bounds [OF y(1)] by (metis prod.collapse)
  have "fst (member tls_sys_param x) + length bs \<le> fst (member tls_sys_param y) \<or>
      fst (member tls_sys_param y) + snd (member tls_sys_param y) \<le> fst (member tls_sys_param x)"
    using sys_member_disjoint [OF x y(1)] y(2) bs by (metis prod.collapse)
  then show "get_member y (put_member x bs s) = get_member y s"
    using b d s unfolding put_member_def get_member_def by (intro take_drop_overlay_other) auto
qed

end
