(* ===== verification/Param_Factory.thy ===== *)
theory Param_Factory
  imports Param Param_Layout
begin

text \<open>
  The factory defaults as one parameter image: every assignment of \<^verbatim>\<open>tls_param_load_factory_default\<close> stays
  inside the parameter block, so the image keeps its size.
\<close>

definition factory_params :: "u8 list" where
  "factory_params = assign_all (factory_radio @ factory_net @ factory_softap) (replicate SYS_SIZE 0)"

lemma assign_all_length:
  "(\<And>a. a \<in> set as \<Longrightarrow> fst a + length (snd a) \<le> length p) \<Longrightarrow> length (assign_all as p) = length p"
proof (induction as arbitrary: p)
  case (Cons a as)
  have "fst a + length (snd a) \<le> length p" using Cons.prems by simp
  then have l: "length (overlay p (fst a) (snd a)) = length p" by simp
  have "length (assign_all as (overlay p (fst a) (snd a))) = length (overlay p (fst a) (snd a))"
    using Cons.prems by (intro Cons.IH) (simp add: l)
  then show ?case by (simp add: assign_all_def l)
qed (simp add: assign_all_def)

lemmas place_eval = at_def sub_def member_def sys_members param_struct_defs align_up_def

lemma factory_radio_fits: "list_all (\<lambda>a. fst a + length (snd a) \<le> 2016) factory_radio"
  by (simp add: factory_radio_def factory_default_hardware_def place_eval)

lemma factory_net_fits: "list_all (\<lambda>a. fst a + length (snd a) \<le> 2016) factory_net"
  by (simp add: factory_net_def text_bytes_def place_eval)

lemma factory_softap_fits: "list_all (\<lambda>a. fst a + length (snd a) \<le> 2016) factory_softap"
  by (simp add: factory_softap_def text_bytes_def place_eval)

lemma factory_params_length: "length factory_params = 2016"
  unfolding factory_params_def using factory_radio_fits factory_net_fits factory_softap_fits by (subst assign_all_length) (auto simp: list_all_iff)

lemma factory_block:
  assumes "length (flash_param s) = 2036"
  shows "length (flash_param (tls_param_load_factory_default s)) = 2036"
    and "fp_params (flash_param (tls_param_load_factory_default s)) = factory_params"
    and "tls_param_load_factory_default s = s\<lparr>flash_param := flash_param (tls_param_load_factory_default s)\<rparr>"
  using assms factory_params_length factory_params_def take_drop_overlay [of 16 factory_params "flash_param s"]
  by (simp_all add: tls_param_load_factory_default_def fp_put_def fp_params_def)

end
