(* ===== verification/Param_Correct.thy ===== *)
theory Param_Correct
  imports Param_Factory Nor_Chip
begin

text \<open>
  What the parameter manager guarantees on a NOR flash with a working CRC unit.

  \<open>valid_block\<close> is a block as \<^verbatim>\<open>param_to_flash\<close> seals it; \<open>param_layout\<close> says that the partitions lie in the
  chip without overlap.  The lemmas follow a block through sealing, writing, reading back and
  adoption at start-up.
\<close>

section \<open>Sealed blocks\<close>

definition valid_block :: "u8 list \<Rightarrow> bool" where
  "valid_block b \<longleftrightarrow> length b = 2036 \<and> fp_magic b = TLS_PARAM_MAGIC \<and> fp_length b = 2036 \<and>
     get32 b 2032 = get_crc32 (take 2032 b)"

lemmas fp_defs = fp_magic_def fp_partition_def fp_count_def fp_length_def fp_params_def fp_put_def

lemma seal_facts:
  assumes "length b = 2036"
  shows "valid_block (param_seal pn b)" and "fp_count (param_seal pn b) = 1"
    and "fp_params (param_seal pn b) = fp_params b"
    and "fp_partition (param_seal pn b) = (if pn < 0 then (fp_partition b + 1) AND 1 else of_int pn)"
  using assms
  by (simp_all add: param_seal_def valid_block_def fp_defs Let_def get32_overlay_other get16_overlay_other
      take_overlay_before take_drop_overlay_other)

section \<open>Storing a block\<close>

definition poff :: "flash_layout \<Rightarrow> u16 \<Rightarrow> nat" where
  "poff l pn = unat (partition_addr l pn) mod 2 ^ 27"

definition param_layout :: "nat \<Rightarrow> flash_layout \<Rightarrow> bool" where
  "param_layout n l \<longleftrightarrow> poff l 0 + 4096 \<le> n \<and> poff l 1 + 4096 \<le> n \<and>
     (poff l 0 + 4096 \<le> poff l 1 \<or> poff l 1 + 4096 \<le> poff l 0)"

lemma poff_cases: "poff l pn = poff l 0 \<or> poff l pn = poff l 1"
  by (auto simp: poff_def partition_addr_def)

lemma param_layout_fits: "param_layout n l \<Longrightarrow> poff l pn + 4096 \<le> n"
  using poff_cases [of l pn] by (auto simp: param_layout_def)

context nor_flash
begin

lemma read_block:
  assumes "fls_ready csize d" and "unat addr mod 2 ^ 27 + 2036 \<le> csize"
  shows "\<exists>d'. tls_fls_read hw addr (Some True) 2036 d = (TLS_FLS_STATUS_OK, span (V d) (unat addr mod 2 ^ 27) 2036, d') \<and>
    V d' = V d \<and> fls_ready csize d'"
  using tls_fls_read_ok [of d 2036 addr True] assms fls_ready_keeps by force

lemma verify_ok:
  assumes "fls_ready csize d" and "unat addr mod 2 ^ 27 + 2036 \<le> csize" and "length b = 2036"
  shows "\<exists>d'. param_flash_verify hw True addr b d =
      (if span (V d) (unat addr mod 2 ^ 27) 2036 = b then 1 else 0, d') \<and> V d' = V d \<and> fls_ready csize d'"
  using read_block [OF assms(1,2)] assms(3) by (auto simp: param_flash_verify_def)

lemma param_to_flash_ok:
  assumes "fls_ready csize (fdev s)" and "param_layout csize l" and "length (flash_param s) = 2036"
    and "- 1 \<le> pid" and "pid < 66" and b_def: "b = param_seal pn (flash_param s)"
  shows "\<exists>d. param_to_flash hw l True True pid pn s = (0, s\<lparr>flash_param := b, fdev := d\<rparr>) \<and>
    V d = blit (V (fdev s)) (poff l (fp_partition b)) b \<and> fls_ready csize d"
proof -
  let ?a = "partition_addr l (fp_partition b)"
  have lb: "length b = 2036" using seal_facts(1) [OF assms(3)] by (simp add: b_def valid_block_def)
  have o: "unat ?a mod 2 ^ 27 = poff l (fp_partition b)" by (simp add: poff_def)
  have fit: "unat ?a mod 2 ^ 27 + 2036 \<le> csize" using param_layout_fits [OF assms(2), of "fp_partition b"] unfolding o by simp
  obtain d1 where d1: "param_flash_verify hw True ?a b (fdev s) =
      (if span (V (fdev s)) (unat ?a mod 2 ^ 27) 2036 = b then 1 else 0, d1)" "V d1 = V (fdev s)" "fls_ready csize d1"
    using verify_ok [OF assms(1) fit lb] by blast
  show ?thesis
  proof (cases "span (V (fdev s)) (unat ?a mod 2 ^ 27) 2036 = b")
    case True
    then have "blit (V (fdev s)) (poff l (fp_partition b)) b = V (fdev s)"
      using blit_own [of "V (fdev s)" "unat ?a mod 2 ^ 27" 2036] by (simp only: o)
    then show ?thesis
      using True d1 assms(4,5) by (auto simp: param_to_flash_def Let_def b_def [symmetric])
  next
    case False
    obtain d2 where d2: "tls_fls_write hw ?a (Some b) 2036 d1 = (TLS_FLS_STATUS_OK, d2)"
      "V d2 = blit (V d1) (unat ?a mod 2 ^ 27) b" "fls_ready csize d2"
      using tls_fls_write_ok [OF d1(3), of 2036 ?a b] fit lb fls_ready_keeps [OF _ d1(3)] by force
    obtain d3 where d3: "param_flash_verify hw True ?a b d2 = (1, d3)" "V d3 = V d2" "fls_ready csize d3"
      using verify_ok [OF d2(3) fit lb] d2(2) lb by auto
    show ?thesis
      using False d1 d2 d3 lb assms(4,5) o
      by (intro exI [of _ d3]) (simp add: param_to_flash_def Let_def b_def [symmetric])
  qed
qed

end

section \<open>Reading the partitions at start-up\<close>

text \<open>
  A block is \<open>damaged\<close> when its magic is wrong or its checksum is, with the length field still naming the
  size of the block (any other length makes the loop leave the block).
\<close>

definition damaged_block :: "u8 list \<Rightarrow> bool" where
  "damaged_block b \<longleftrightarrow> length b = 2036 \<and>
     (fp_magic b \<noteq> TLS_PARAM_MAGIC \<or> fp_length b = 2036 \<and> get32 b 2032 \<noteq> get_crc32 (take 2032 b))"

lemma valid_not_damaged: "valid_block b \<Longrightarrow> \<not> damaged_block b"
  by (simp add: valid_block_def damaged_block_def)

lemma block_crc_ok_iff:
  assumes "crc_unit eng" and "length b = 2036" and "fp_length b = 2036"
  shows "block_crc_ok eng b \<longleftrightarrow> get32 b 2032 = get_crc32 (take 2032 b)"
proof -
  have "unat (of_nat 2032 :: u32) = 2032" by (simp add: unat_of_nat_u32)
  then show ?thesis
    using crc_unit.one_shot [OF assms(1), of "of_nat 2032" b] assms(2,3) by (auto simp: block_crc_ok_def)
qed

lemma adopt_first:
  assumes "valid_block b" and "fp_magic (flash_param s) = 0" and "length (flash_param s) = 2036"
  shows "adopt_block b s = s\<lparr>flash_param := b\<rparr>"
  using assms by (simp add: adopt_block_def valid_block_def)

lemma adopt_second:
  assumes "fp_magic (flash_param s) \<noteq> 0" and "fp_count b \<le> fp_count (flash_param s)"
  shows "adopt_block b s = s"
  using assms by (simp add: adopt_block_def)

lemma zero_block: "fp_magic (replicate 2036 0) = 0"
  by (simp add: fp_magic_def get32_def)

context nor_flash
begin

abbreviation part :: "flash_layout \<Rightarrow> u16 \<Rightarrow> 'c fls \<Rightarrow> u8 list" where
  "part l pn d \<equiv> span (V d) (poff l pn) 2036"

lemma read_partition:
  assumes "fls_ready csize d" and "param_layout csize l"
  shows "\<exists>d'. tls_fls_read hw (partition_addr l pn) (Some True) 2036 d = (TLS_FLS_STATUS_OK, part l pn d, d') \<and>
    V d' = V d \<and> fls_ready csize d'"
  using read_block [OF assms(1), of "partition_addr l pn"] param_layout_fits [OF assms(2), of pn]
  by (simp add: poff_def)

lemma partition_addr_index: "(if i = 0 then FLASH_PARAM1_ADDR l else FLASH_PARAM2_ADDR l) = partition_addr l (of_nat i)"
  if "i < 2" for i :: nat
  using that by (cases i) (auto simp: partition_addr_def)

lemma scan_damaged:
  assumes "fls_ready csize (fdev s)" and "param_layout csize l" and "crc_unit eng" and "i < 2" and "length buf = 2036"
    and "damaged_block (part l (of_nat i) (fdev s))"
  shows "\<exists>d. init_scan hw eng l i t dm isd buf s =
      init_scan hw eng l (Suc i) t (Suc dm) (isd[i := True]) (part l (of_nat i) (fdev s)) (s\<lparr>fdev := d\<rparr>) \<and>
    V d = V (fdev s) \<and> fls_ready csize d"
proof -
  let ?b = "part l (of_nat i) (fdev s)"
  obtain d where d: "tls_fls_read hw (partition_addr l (of_nat i)) (Some True) 2036 (fdev s) = (TLS_FLS_STATUS_OK, ?b, d)"
    "V d = V (fdev s)" "fls_ready csize d"
    using read_partition [OF assms(1,2), of "of_nat i"] by blast
  have o: "overlay buf 0 ?b = ?b" using assms(5) by simp
  have "init_scan hw eng l i t dm isd buf s =
      init_scan hw eng l (Suc i) t (Suc dm) (isd[i := True]) ?b (s\<lparr>fdev := d\<rparr>)"
    using assms(4,6) d(1) o block_crc_ok_iff [OF assms(3), of ?b]
    by (subst init_scan.simps) (auto simp: partition_addr_index damaged_block_def Let_def)
  then show ?thesis using d by blast
qed

lemma scan_valid:
  assumes "fls_ready csize (fdev s)" and "param_layout csize l" and "crc_unit eng" and "i < 2" and "length buf = 2036"
    and "valid_block (part l (of_nat i) (fdev s))" and "dm < 2"
  shows "\<exists>d. init_scan hw eng l i t dm isd buf s =
      init_scan hw eng l (Suc i) t dm isd (replicate 2036 0) (adopt_block (part l (of_nat i) (fdev s)) (s\<lparr>fdev := d\<rparr>)) \<and>
    V d = V (fdev s) \<and> fls_ready csize d"
proof -
  let ?b = "part l (of_nat i) (fdev s)"
  obtain d where d: "tls_fls_read hw (partition_addr l (of_nat i)) (Some True) 2036 (fdev s) = (TLS_FLS_STATUS_OK, ?b, d)"
    "V d = V (fdev s)" "fls_ready csize d"
    using read_partition [OF assms(1,2), of "of_nat i"] by blast
  have o: "overlay buf 0 ?b = ?b" using assms(5) by simp
  have "init_scan hw eng l i t dm isd buf s =
      init_scan hw eng l (Suc i) t dm isd (replicate 2036 0) (adopt_block ?b (s\<lparr>fdev := d\<rparr>))"
    using assms(4,6,7) d(1) o block_crc_ok_iff [OF assms(3), of ?b]
    by (subst init_scan.simps) (auto simp: partition_addr_index valid_block_def Let_def)
  then show ?thesis using d by blast
qed

end

text \<open>What the scan finds: how many partitions are damaged, which, and the block that was adopted.\<close>

definition pick :: "u8 list \<Rightarrow> u8 list \<Rightarrow> u8 list" where
  "pick b0 b1 = (if valid_block b0 then b0 else if valid_block b1 then b1 else replicate 2036 0)"

context nor_flash
begin

lemma scan_result:
  assumes "fls_ready csize (fdev s)" and "param_layout csize l" and "crc_unit eng"
    and "flash_param s = replicate 2036 0"
    and "b0 = part l 0 (fdev s)" and "b1 = part l 1 (fdev s)"
    and "valid_block b0 \<or> damaged_block b0" and "valid_block b1 \<or> damaged_block b1"
    and "valid_block b0 \<Longrightarrow> valid_block b1 \<Longrightarrow> fp_count b1 \<le> fp_count b0"
  shows "\<exists>d. init_scan hw eng l 0 False 0 [False, False] (replicate 2036 0) s =
      Some (length (filter damaged_block [b0, b1]), map damaged_block [b0, b1], s\<lparr>flash_param := pick b0 b1, fdev := d\<rparr>) \<and>
    V d = V (fdev s) \<and> fls_ready csize d"
proof -
  have z: "length (flash_param s) = 2036" "fp_magic (flash_param s) = 0" using assms(4) zero_block by simp_all
  have fin: "init_scan hw eng l 2 t dm isd buf u = Some (dm, isd, u)" for t dm isd buf u
    by (subst init_scan.simps) simp
  consider (vv) "valid_block b0" "valid_block b1" | (vd) "valid_block b0" "damaged_block b1"
    | (dv) "damaged_block b0" "valid_block b1" | (dd) "damaged_block b0" "damaged_block b1"
    using assms(7,8) by blast
  then show ?thesis
  proof cases
    case vv
    obtain d where d: "init_scan hw eng l 0 False 0 [False, False] (replicate 2036 0) s =
        init_scan hw eng l 1 False 0 [False, False] (replicate 2036 0) (adopt_block b0 (s\<lparr>fdev := d\<rparr>))"
      "V d = V (fdev s)" "fls_ready csize d"
      using scan_valid [of s l eng 0 "replicate 2036 0" 0 False "[False, False]"] assms(1-3,5) vv by auto
    let ?u = "s\<lparr>flash_param := b0, fdev := d\<rparr>"
    have a: "adopt_block b0 (s\<lparr>fdev := d\<rparr>) = ?u" using adopt_first [OF vv(1), of "s\<lparr>fdev := d\<rparr>"] z by simp
    obtain d2 where d2: "init_scan hw eng l 1 False 0 [False, False] (replicate 2036 0) ?u =
        init_scan hw eng l 2 False 0 [False, False] (replicate 2036 0) (adopt_block b1 (?u\<lparr>fdev := d2\<rparr>))"
      "V d2 = V d" "fls_ready csize d2"
      using scan_valid [of ?u l eng 1 "replicate 2036 0" 0 False "[False, False]"] assms(2,3,6) vv d
      by (auto simp: numeral_2_eq_2)
    have "adopt_block b1 (?u\<lparr>fdev := d2\<rparr>) = ?u\<lparr>fdev := d2\<rparr>"
      using assms(9) vv by (intro adopt_second) (simp_all add: valid_block_def)
    then show ?thesis using d d2 a fin vv valid_not_damaged by (auto simp: pick_def)
  next
    case vd
    obtain d where d: "init_scan hw eng l 0 False 0 [False, False] (replicate 2036 0) s =
        init_scan hw eng l 1 False 0 [False, False] (replicate 2036 0) (adopt_block b0 (s\<lparr>fdev := d\<rparr>))"
      "V d = V (fdev s)" "fls_ready csize d"
      using scan_valid [of s l eng 0 "replicate 2036 0" 0 False "[False, False]"] assms(1-3,5) vd by auto
    let ?u = "s\<lparr>flash_param := b0, fdev := d\<rparr>"
    have a: "adopt_block b0 (s\<lparr>fdev := d\<rparr>) = ?u" using adopt_first [OF vd(1), of "s\<lparr>fdev := d\<rparr>"] z by simp
    obtain d2 where d2: "init_scan hw eng l 1 False 0 [False, False] (replicate 2036 0) ?u =
        init_scan hw eng l 2 False 1 [False, True] b1 (?u\<lparr>fdev := d2\<rparr>)" "V d2 = V d" "fls_ready csize d2"
      using scan_damaged [of ?u l eng 1 "replicate 2036 0" False 0 "[False, False]"] assms(2,3,6) vd d
      by (auto simp: numeral_2_eq_2)
    then show ?thesis using d d2 a fin vd valid_not_damaged by (auto simp: pick_def)
  next
    case dv
    obtain d where d: "init_scan hw eng l 0 False 0 [False, False] (replicate 2036 0) s =
        init_scan hw eng l 1 False 1 [True, False] b0 (s\<lparr>fdev := d\<rparr>)" "V d = V (fdev s)" "fls_ready csize d"
      using scan_damaged [of s l eng 0 "replicate 2036 0" False 0 "[False, False]"] assms(1-3,5) dv by auto
    let ?u = "s\<lparr>fdev := d\<rparr>"
    obtain d2 where d2: "init_scan hw eng l 1 False 1 [True, False] b0 ?u =
        init_scan hw eng l 2 False 1 [True, False] (replicate 2036 0) (adopt_block b1 (?u\<lparr>fdev := d2\<rparr>))"
      "V d2 = V d" "fls_ready csize d2"
      using scan_valid [of ?u l eng 1 b0 1 False "[True, False]"] assms(2,3,5,6) dv d by (auto simp: numeral_2_eq_2)
    have "adopt_block b1 (?u\<lparr>fdev := d2\<rparr>) = s\<lparr>flash_param := b1, fdev := d2\<rparr>" using adopt_first [OF dv(2), of "?u\<lparr>fdev := d2\<rparr>"] z by simp
    then show ?thesis using d d2 fin dv valid_not_damaged by (auto simp: pick_def)
  next
    case dd
    obtain d where d: "init_scan hw eng l 0 False 0 [False, False] (replicate 2036 0) s =
        init_scan hw eng l 1 False 1 [True, False] b0 (s\<lparr>fdev := d\<rparr>)" "V d = V (fdev s)" "fls_ready csize d"
      using scan_damaged [of s l eng 0 "replicate 2036 0" False 0 "[False, False]"] assms(1-3,5) dd by auto
    let ?u = "s\<lparr>fdev := d\<rparr>"
    obtain d2 where d2: "init_scan hw eng l 1 False 1 [True, False] b0 ?u =
        init_scan hw eng l 2 False 2 [True, True] b1 (?u\<lparr>fdev := d2\<rparr>)" "V d2 = V d" "fls_ready csize d2"
      using scan_damaged [of ?u l eng 1 b0 False 1 "[True, False]"] assms(2,3,5,6) dd d by (auto simp: numeral_2_eq_2)
    have "s\<lparr>fdev := d2\<rparr> = s\<lparr>flash_param := replicate 2036 0, fdev := d2\<rparr>" using assms(4) by simp
    then show ?thesis using d d2 fin dd valid_not_damaged by (auto simp: pick_def)
  qed
qed

end

section \<open>Repair\<close>

text \<open>Storing into a named partition leaves the other one as it was.\<close>

definition outside :: "flash_layout \<Rightarrow> nat \<Rightarrow> bool" where
  "outside l x \<longleftrightarrow> \<not> (poff l 0 \<le> x \<and> x < poff l 0 + 2036) \<and> \<not> (poff l 1 \<le> x \<and> x < poff l 1 + 2036)"

context nor_flash
begin

lemma store_partition:
  assumes "fls_ready csize (fdev s)" and "param_layout csize l" and "length (flash_param s) = 2036" and "i < (2 :: nat)"
  shows "\<exists>d b. param_to_flash hw l True True TLS_PARAM_ID_ALL (int i) s = (0, s\<lparr>flash_param := b, fdev := d\<rparr>) \<and>
    fls_ready csize d \<and> valid_block b \<and> fp_params b = fp_params (flash_param s) \<and> fp_count b = 1 \<and>
    part l (of_nat i) d = b \<and> part l (of_nat (1 - i)) d = part l (of_nat (1 - i)) (fdev s) \<and>
    (\<forall>x. outside l x \<longrightarrow> V d x = V (fdev s) x)"
proof -
  define b where "b = param_seal (int i) (flash_param s)"
  have p: "fp_partition b = of_nat i" using seal_facts(4) [OF assms(3), of "int i"] by (simp add: b_def)
  have v: "valid_block b" "fp_count b = 1" "fp_params b = fp_params (flash_param s)" "length b = 2036"
    using seal_facts(1-3) [OF assms(3), of "int i"] by (simp_all add: b_def valid_block_def)
  obtain d where d: "param_to_flash hw l True True TLS_PARAM_ID_ALL (int i) s = (0, s\<lparr>flash_param := b, fdev := d\<rparr>)"
    "V d = blit (V (fdev s)) (poff l (of_nat i)) b" "fls_ready csize d"
    using param_to_flash_ok [OF assms(1-3), of "TLS_PARAM_ID_ALL" b "int i"] p b_def by auto
  have i: "i = 0 \<or> i = 1" using assms(4) by auto
  have "part l (of_nat (1 - i)) d = part l (of_nat (1 - i)) (fdev s)"
    unfolding d(2) using assms(2) i v(4) by (intro span_blit_disjoint) (auto simp: param_layout_def)
  moreover have "V d x = V (fdev s) x" if "outside l x" for x
    using that i v(4) by (auto simp: d(2) outside_def blit_apply)
  moreover have "part l (of_nat i) d = b" using v(4) by (simp add: d(2))
  ultimately show ?thesis using d v by blast
qed

end

section \<open>Start-up as a whole\<close>

text \<open>The parameters start-up ends with.\<close>

definition recovered :: "u8 list \<Rightarrow> u8 list \<Rightarrow> u8 list" where
  "recovered b0 b1 = (if valid_block b0 then fp_params b0 else if valid_block b1 then fp_params b1 else factory_params)"

context nor_flash
begin

text \<open>What start-up leaves: both partitions sealed and holding \<open>ps\<close>, RAM too, other bytes unchanged.\<close>

definition repaired :: "flash_layout \<Rightarrow> (nat \<Rightarrow> u8) \<Rightarrow> 'c param_state \<Rightarrow> bool" where
  "repaired l v0 s \<longleftrightarrow> fls_ready csize (fdev s) \<and> valid_block (flash_param s) \<and>
     valid_block (part l 0 (fdev s)) \<and> valid_block (part l 1 (fdev s)) \<and>
     (\<forall>x. outside l x \<longrightarrow> V (fdev s) x = v0 x)"

lemma store_defaults_ok:
  assumes "fls_ready csize (fdev s)" and "param_layout csize l" and "length (flash_param s) = 2036"
  shows "\<exists>s'. store_defaults hw l (\<lambda>_. True) s = (0, s') \<and> repaired l (V (fdev s)) s' \<and>
    fp_params (flash_param s') = factory_params \<and>
    fp_params (part l 0 (fdev s')) = factory_params \<and> fp_params (part l 1 (fdev s')) = factory_params \<and>
    updp_mode s' = updp_mode s \<and> user_default_param s' = user_default_param s"
proof -
  define t where "t = tls_param_load_factory_default s"
  have t: "length (flash_param t) = 2036" "fp_params (flash_param t) = factory_params" "fdev t = fdev s"
    "updp_mode t = updp_mode s" "user_default_param t = user_default_param s"
    using factory_block [OF assms(3)] by (simp_all add: t_def tls_param_load_factory_default_def)
  obtain d b where s1: "param_to_flash hw l True True TLS_PARAM_ID_ALL 0 t = (0, t\<lparr>flash_param := b, fdev := d\<rparr>)"
    "fls_ready csize d" "valid_block b" "fp_params b = factory_params" "part l 0 d = b"
    "\<forall>x. outside l x \<longrightarrow> V d x = V (fdev s) x"
    using store_partition [of t l 0] assms t by auto
  let ?u = "t\<lparr>flash_param := b, fdev := d\<rparr>"
  obtain d2 b2 where s2: "param_to_flash hw l True True TLS_PARAM_ID_ALL 1 ?u = (0, ?u\<lparr>flash_param := b2, fdev := d2\<rparr>)"
    "fls_ready csize d2" "valid_block b2" "fp_params b2 = factory_params" "part l 1 d2 = b2" "part l 0 d2 = part l 0 d"
    "\<forall>x. outside l x \<longrightarrow> V d2 x = V d x"
    using store_partition [of ?u l 1] assms(2) s1 by (auto simp: valid_block_def)
  show ?thesis
    using s1 s2 t by (intro exI [of _ "?u\<lparr>flash_param := b2, fdev := d2\<rparr>"])
      (simp add: store_defaults_def t_def [symmetric] repaired_def)
qed

end

context nor_flash
begin

lemma repair_ok:
  assumes "fls_ready csize (fdev s)" and "param_layout csize l" and "valid_block (flash_param s)"
    and "d0 \<or> valid_block (part l 0 (fdev s))" and "d1 \<or> valid_block (part l 1 (fdev s))"
  shows "\<exists>s'. foldl (repair_partition hw l (\<lambda>_. True) [d0, d1]) (0, s) [0, 1] = (0, s') \<and> repaired l (V (fdev s)) s' \<and>
    fp_params (flash_param s') = fp_params (flash_param s) \<and>
    (if d0 then fp_params (part l 0 (fdev s')) = fp_params (flash_param s) else part l 0 (fdev s') = part l 0 (fdev s)) \<and>
    (if d1 then fp_params (part l 1 (fdev s')) = fp_params (flash_param s) else part l 1 (fdev s') = part l 1 (fdev s)) \<and>
    updp_mode s' = updp_mode s \<and> user_default_param s' = user_default_param s"
proof -
  have v: "length (flash_param s) = 2036" using assms(3) by (simp add: valid_block_def)
  obtain d b where s1: "repair_partition hw l (\<lambda>_. True) [d0, d1] (0, s) 0 = (0, s\<lparr>flash_param := b, fdev := d\<rparr>)"
    "fls_ready csize d" "valid_block b" "fp_params b = fp_params (flash_param s)" "valid_block (part l 0 d)"
    "if d0 then fp_params (part l 0 d) = fp_params (flash_param s) else part l 0 d = part l 0 (fdev s)"
    "part l 1 d = part l 1 (fdev s)" "\<forall>x. outside l x \<longrightarrow> V d x = V (fdev s) x"
  proof (cases d0)
    case True
    then show ?thesis using that store_partition [OF assms(1,2) v, of 0] by (auto simp: repair_partition_def)
  next
    case False
    then show ?thesis using that [where d = "fdev s" and b = "flash_param s"] assms by (auto simp: repair_partition_def)
  qed
  let ?u = "s\<lparr>flash_param := b, fdev := d\<rparr>"
  have v2: "length (flash_param ?u) = 2036" "fls_ready csize (fdev ?u)" using s1(2,3) by (simp_all add: valid_block_def)
  obtain e c where s2: "repair_partition hw l (\<lambda>_. True) [d0, d1] (0, ?u) 1 = (0, ?u\<lparr>flash_param := c, fdev := e\<rparr>)"
    "fls_ready csize e" "valid_block c" "fp_params c = fp_params b" "valid_block (part l 1 e)"
    "if d1 then fp_params (part l 1 e) = fp_params b else part l 1 e = part l 1 d"
    "part l 0 e = part l 0 d" "\<forall>x. outside l x \<longrightarrow> V e x = V d x"
  proof (cases d1)
    case True
    then show ?thesis using that store_partition [OF v2(2) assms(2) v2(1), of 1] by (auto simp: repair_partition_def)
  next
    case False
    then show ?thesis using that [where e = d and c = b] s1 assms by (auto simp: repair_partition_def)
  qed
  show ?thesis
    using s1 s2 by (intro exI [of _ "?u\<lparr>flash_param := c, fdev := e\<rparr>"]) (auto simp: repaired_def)
qed

lemma init_ok:
  assumes "fls_ready csize (fdev s)" and "param_layout csize l" and "crc_unit eng"
    and "fp_magic (flash_param s) \<noteq> TLS_PARAM_MAGIC"
    and b: "b0 = part l 0 (fdev s)" "b1 = part l 1 (fdev s)"
    and v: "valid_block b0 \<or> damaged_block b0" "valid_block b1 \<or> damaged_block b1"
    and c: "valid_block b0 \<Longrightarrow> valid_block b1 \<Longrightarrow> fp_count b1 \<le> fp_count b0"
  shows "\<exists>s'. tls_param_init hw eng l True True (\<lambda>_. True) s = Some (0, s') \<and> repaired l (V (fdev s)) s' \<and>
    fp_params (flash_param s') = recovered b0 b1 \<and>
    (if valid_block b0 then part l 0 (fdev s') = b0 else fp_params (part l 0 (fdev s')) = recovered b0 b1) \<and>
    (if valid_block b1 then part l 1 (fdev s') = b1 else fp_params (part l 1 (fdev s')) = recovered b0 b1) \<and>
    updp_mode s' = updp_mode s \<and> user_default_param s' = user_default_param s"
proof -
  let ?s = "s\<lparr>flash_param := replicate 2036 0\<rparr>"
  obtain d where d: "init_scan hw eng l 0 False 0 [False, False] (replicate 2036 0) ?s =
      Some (length (filter damaged_block [b0, b1]), map damaged_block [b0, b1], ?s\<lparr>flash_param := pick b0 b1, fdev := d\<rparr>)"
    "V d = V (fdev s)" "fls_ready csize d"
    using scan_result [of ?s l eng b0 b1] assms by auto
  let ?t = "?s\<lparr>flash_param := pick b0 b1, fdev := d\<rparr>"
  have bd: "b0 = part l 0 d" "b1 = part l 1 d" using b d(2) by simp_all
  have i: "tls_param_init hw eng l True True (\<lambda>_. True) s =
    Some (if damaged_block b0 \<and> damaged_block b1 then store_defaults hw l (\<lambda>_. True) ?t
          else foldl (repair_partition hw l (\<lambda>_. True) [damaged_block b0, damaged_block b1]) (0, ?t) [0, 1])"
    using assms(4) d(1) by (simp add: tls_param_init_def Let_def)
  show ?thesis
  proof (cases "damaged_block b0 \<and> damaged_block b1")
    case True
    then show ?thesis
      using store_defaults_ok [of ?t l] assms(2) d valid_not_damaged [of b0] valid_not_damaged [of b1]
      by (auto simp: i pick_def recovered_def)
  next
    case False
    then have "valid_block (pick b0 b1)" "fp_params (pick b0 b1) = recovered b0 b1" using v by (auto simp: pick_def recovered_def)
    then show ?thesis
      using False v repair_ok [of ?t l "damaged_block b0" "damaged_block b1"] assms(2) d bd valid_not_damaged
      by (auto simp: i split: if_splits)
  qed
qed

end

section \<open>Setting and getting members\<close>

text \<open>Arguments of the size of the member, and strings that fit it.\<close>

fun well_sized :: "access \<Rightarrow> u8 list \<Rightarrow> bool" where
  "well_sized Whole argv \<longleftrightarrow> length argv = SYS_SIZE"
| "well_sized (Mem x) argv \<longleftrightarrow> length argv = snd (member tls_sys_param x)"
| "well_sized (CStr x) argv \<longleftrightarrow> length (cstring argv) \<le> snd (member tls_sys_param x)"

primrec field_value :: "access \<Rightarrow> u8 list \<Rightarrow> u8 list" where
  "field_value Whole argv = argv"
| "field_value (Mem x) argv = argv"
| "field_value (CStr x) argv = cstring argv"

definition strings_ok :: "u8 list \<Rightarrow> bool" where
  "strings_ok p \<longleftrightarrow> (\<forall>pid x. set_field pid = Some (CStr x) \<longrightarrow> 0 \<in> set (get_member x p))"

lemma set_field_target: "set_field pid = Some a \<Longrightarrow> a = Whole \<or> sys_member (target a)"
  using table_targets by (force simp: set_field_def list_all_iff dest!: map_of_SomeD simp del: map_of_append)

lemma set_field_distinct:
  assumes "set_field i = Some a" and "set_field j = Some b" and "i \<noteq> j"
  shows "target a \<noteq> target b"
proof
  let ?l = "set_cases_1 @ set_cases_2"
  assume e: "target a = target b"
  have "(i, a) \<in> set ?l" "(j, b) \<in> set ?l"
    using assms(1,2) by (auto simp: set_field_def simp del: map_of_append dest!: map_of_SomeD)
  moreover have "inj_on (target \<circ> snd) (set ?l)" using table_distinct by (simp only: distinct_map)
  ultimately have "(i, a) = (j, b)" using e unfolding inj_on_def by fastforce
  with assms(3) show False by simp
qed

lemma cstring_take: "0 \<in> set (take n xs) \<Longrightarrow> cstring (take n xs) = cstring xs"
proof (induction xs arbitrary: n)
  case (Cons x xs)
  then show ?case by (cases n) (auto simp: cstring_def)
qed simp

lemma cstring_again: "cstring (cstring xs @ ys) = cstring xs"
  by (induction xs) (simp_all add: cstring_def)

lemma cstring_end: "0 \<in> set (cstring xs)"
  by (simp add: cstring_def)

lemma fetch_by_member:
  assumes "sys_member (target a)" and "a \<noteq> Whole" and "\<And>x. a = CStr x \<Longrightarrow> 0 \<in> set (get_member x p)"
  shows "fetch_field a p = Some (field_value a (get_member (target a) p))"
proof (cases a)
  case (CStr x)
  then have "0 \<in> set (get_member x p)" using assms(3) by simp
  moreover from this have "0 \<in> set (drop (fst (member tls_sys_param x)) p)"
    by (auto simp: get_member_def dest: in_set_takeD)
  ultimately show ?thesis
    using CStr cstring_take [of "snd (member tls_sys_param x)" "drop (fst (member tls_sys_param x)) p"]
    by (simp add: get_member_def case_prod_beta)
qed (use assms in \<open>auto simp: get_member_def case_prod_beta\<close>)

lemma member_fits: "sys_member x \<Longrightarrow> fst (member tls_sys_param x) + snd (member tls_sys_param x) \<le> 2016"
  using sys_member_bounds by (metis prod.collapse)

text \<open>Storing a value that fits: a write to the member, padded with what the member held.\<close>

lemma put_by_member:
  assumes "sys_member (target a)" and "a \<noteq> Whole" and "well_sized a argv" and "length p = 2016"
    and v_def: "v = field_value a argv"
  shows "put_field a argv p = Some (put_member (target a) (v @ drop (length v) (get_member (target a) p)) p)"
    and "length (v @ drop (length v) (get_member (target a) p)) = snd (member tls_sys_param (target a))"
proof -
  define off n where "off = fst (member tls_sys_param (target a))" and "n = snd (member tls_sys_param (target a))"
  have b: "off + n \<le> 2016" using member_fits [OF assms(1)] by (simp add: off_def n_def)
  have l: "length v \<le> n" using assms(2,3) v_def by (cases a) (auto simp: n_def)
  show "length (v @ drop (length v) (get_member (target a) p)) = snd (member tls_sys_param (target a))"
    using b l assms(4) by (simp add: get_member_def off_def n_def)
  have "take (off + n - (off + length v)) (drop (off + length v) p) @ drop (off + n) p = drop (off + length v) p"
    using l by (metis append_take_drop_id drop_drop le_add_diff_inverse2 add.commute nat_add_left_cancel_le)
  then have "overlay p off v = overlay p off (v @ drop (length v) (take n (drop off p)))"
    using b l assms(4) by (simp add: overlay_def drop_take add.commute)
  moreover have "put_field a argv p = Some (overlay p off v)"
    using assms(2-4) b l v_def by (cases a) (auto simp: off_def n_def case_prod_beta Let_def)
  ultimately show "put_field a argv p = Some (put_member (target a) (v @ drop (length v) (get_member (target a) p)) p)"
    by (simp add: put_member_def get_member_def off_def n_def)
qed

lemma image_set_get:
  assumes "set_field pid = Some a" and "a \<noteq> Whole" and "well_sized a argv" and "length p = 2016" and "strings_ok p"
  shows "\<exists>p'. put_field a argv p = Some p' \<and> length p' = 2016 \<and> fetch_field a p' = Some (field_value a argv) \<and>
    strings_ok p' \<and> (\<forall>j b. j \<noteq> pid \<longrightarrow> set_field j = Some b \<longrightarrow> b \<noteq> Whole \<longrightarrow> fetch_field b p' = fetch_field b p)"
proof -
  define v where "v = field_value a argv"
  define w where "w = v @ drop (length v) (get_member (target a) p)"
  define p' where "p' = put_member (target a) w p"
  have t: "sys_member (target a)" using set_field_target [OF assms(1)] assms(2) by simp
  have put: "put_field a argv p = Some p'" and lw: "length w = snd (member tls_sys_param (target a))"
    using put_by_member [OF t assms(2-4) v_def] by (simp_all add: p'_def w_def)
  have len: "length p' = 2016" and own: "get_member (target a) p' = w"
    using params.put_ok [OF assms(4) t lw] params.get_put [OF assms(4) t lw] by (simp_all add: p'_def)
  have other: "get_member (target b) p' = get_member (target b) p" and tb: "sys_member (target b)"
    if "j \<noteq> pid" "set_field j = Some b" "b \<noteq> Whole" for j b
    using that params.get_put_other [OF assms(4) t lw] set_field_target set_field_distinct [OF assms(1)]
    by (auto simp: p'_def) metis
  have str: "0 \<in> set w" if "a = CStr x" for x
    using that cstring_end [of argv] by (simp add: w_def v_def)
  have "fetch_field a p' = Some (field_value a (get_member (target a) p'))"
    using str own by (intro fetch_by_member t assms(2)) auto
  moreover have "field_value a w = v"
    using assms(2,3) cstring_again by (cases a) (auto simp: w_def v_def get_member_def)
  ultimately have get: "fetch_field a p' = Some v" by (simp add: own)
  have sok: "strings_ok p'"
    unfolding strings_ok_def
  proof (intro allI impI)
    fix j x assume "set_field j = Some (CStr x)"
    then show "0 \<in> set (get_member x p')"
      using own str other [of j "CStr x"] assms(1,5) by (cases "j = pid") (auto simp: strings_ok_def)
  qed
  have fb: "fetch_field b q = Some (field_value b (get_member (target b) q))"
    if "j \<noteq> pid" "set_field j = Some b" "b \<noteq> Whole" "strings_ok q" for j b q
    using that tb [OF that(1-3)] by (intro fetch_by_member) (auto simp: strings_ok_def)
  have "fetch_field b p' = fetch_field b p" if "j \<noteq> pid" "set_field j = Some b" "b \<noteq> Whole" for j b
    using fb [OF that sok] fb [OF that assms(5)] other [OF that] by simp
  then show ?thesis using put len get sok v_def by blast
qed

end
