(* ===== verification/Param_Props.thy ===== *)
theory Param_Props
  imports Param_Correct
begin

text \<open>
  The properties of the parameter manager, stated for every flash that obeys \<open>nor_flash\<close> and every CRC unit
  that obeys \<open>crc_unit\<close>, with witnesses on the NOR chip of \<open>Nor_Chip\<close> and the reference CRC unit.
\<close>

section \<open>Demonstration states\<close>

definition demo_layout :: flash_layout where
  "demo_layout = default_layout\<lparr>FLASH_PARAM_DEFAULT := 0x8010000, FLASH_PARAM1_ADDR := 0x8011000, FLASH_PARAM2_ADDR := 0x8012000\<rparr>"

definition demo_params :: "nor param_state" where
  "demo_params = \<lparr>flash_param = replicate 2036 0, user_default_param = None, updp_mode = 0, fdev = demo_fls\<rparr>"

lemma demo_offsets: "poff demo_layout 0 = 0x11000" "poff demo_layout 1 = 0x12000"
  by (simp_all add: poff_def partition_addr_def demo_layout_def)

lemma demo_param_layout: "param_layout (2 ^ 23) demo_layout"
  by (simp add: param_layout_def demo_offsets)

section \<open>Start-up\<close>

text \<open>
  C15.  Start-up recovers the parameters.  Whatever the two flash partitions hold (each a sealed block, or a
  block with a wrong magic or a wrong checksum), and unless partition 1 carries a larger modify count than a
  valid partition 0, \<^verbatim>\<open>tls_param_init\<close> succeeds: RAM holds the parameters of partition 0 if it is valid, else those
  of partition 1, else the factory defaults; every damaged partition is rewritten as a sealed block with those
  parameters, a valid partition and every other byte of the flash keep their contents.
\<close>

theorem param_init_recovers:
  assumes "nor_flash hw view wel n" and "crc_unit eng" and "param_layout n l"
    and "fls_ready n (fdev s)" and "fp_magic (flash_param s) \<noteq> TLS_PARAM_MAGIC"
    and "b0 = span (view (chip (fdev s))) (poff l 0) 2036" and "b1 = span (view (chip (fdev s))) (poff l 1) 2036"
    and "valid_block b0 \<or> damaged_block b0" and "valid_block b1 \<or> damaged_block b1"
    and "valid_block b0 \<Longrightarrow> valid_block b1 \<Longrightarrow> fp_count b1 \<le> fp_count b0"
  shows "\<exists>s' c0 c1. tls_param_init hw eng l True True (\<lambda>_. True) s = Some (TLS_PARAM_STATUS_OK, s') \<and>
    c0 = span (view (chip (fdev s'))) (poff l 0) 2036 \<and> c1 = span (view (chip (fdev s'))) (poff l 1) 2036 \<and>
    valid_block (flash_param s') \<and> fp_params (flash_param s') = recovered b0 b1 \<and>
    (if valid_block b0 then c0 = b0 else valid_block c0 \<and> fp_params c0 = recovered b0 b1) \<and>
    (if valid_block b1 then c1 = b1 else valid_block c1 \<and> fp_params c1 = recovered b0 b1) \<and>
    (\<forall>x. outside l x \<longrightarrow> view (chip (fdev s')) x = view (chip (fdev s)) x) \<and> fls_ready n (fdev s')"
  using nor_flash.init_ok [OF assms(1,4,3,2,5-10)] nor_flash.repaired_def [OF assms(1)] by (auto split: if_splits)

lemma erased_damaged: "damaged_block (replicate 2036 0xFF)"
  by (simp add: damaged_block_def fp_magic_def get32_def)

lemma demo_erased: "span (fst (chip demo_fls)) a k = replicate k 0xFF"
  by (intro nth_equalityI) (simp_all add: demo_fls_def)

theorem param_init_recovers_witness:
  "\<exists>s' c0 c1. tls_param_init nor_exec ref_engine demo_layout True True (\<lambda>_. True) demo_params = Some (TLS_PARAM_STATUS_OK, s') \<and>
    c0 = span (fst (chip (fdev s'))) 0x11000 2036 \<and> c1 = span (fst (chip (fdev s'))) 0x12000 2036 \<and>
    valid_block c0 \<and> valid_block c1 \<and>
    fp_params (flash_param s') = factory_params \<and> fp_params c0 = factory_params \<and> fp_params c1 = factory_params"
proof -
  define e :: "u8 list" where "e = replicate 2036 0xFF"
  have d: "damaged_block e" and nv: "\<not> valid_block e" using valid_not_damaged erased_damaged by (auto simp: e_def)
  have s: "fdev demo_params = demo_fls" "fp_magic (flash_param demo_params) \<noteq> TLS_PARAM_MAGIC"
    by (simp_all add: demo_params_def zero_block)
  have e: "e = span (fst (chip (fdev demo_params))) (poff demo_layout pn) 2036" for pn by (simp add: s demo_erased e_def)
  show ?thesis
    using param_init_recovers [OF nor.nor_flash_axioms ref_crc.crc_unit_axioms demo_param_layout _ s(2) e e] demo_ready d nv
    unfolding demo_offsets recovered_def s(1) by auto
qed

section \<open>Set and get\<close>

lemma params_put:
  assumes "length b = 2036" and "length p = 2016"
  shows "fp_params (fp_put ''parameters'' p b) = p" and "length (fp_put ''parameters'' p b) = 2036"
    and "fp_partition (fp_put ''parameters'' p b) = fp_partition b"
  using assms take_drop_overlay [of 16 p b] by (simp_all add: fp_defs get16_overlay_other)

lemma params_length: "length b = 2036 \<Longrightarrow> length (fp_params b) = 2016"
  by (simp add: fp_params_def)

lemma field_id: "set_field pid = Some a \<Longrightarrow> \<not> bad_param_id pid"
  by (auto simp: bad_param_id_def set_field_def set_cases_1_def set_cases_2_def split: if_splits)

text \<open>
  C16.  What is set is what is read.  For every identifier of the tables but \<^verbatim>\<open>TLS_PARAM_ID_ALL\<close>, which stands for the
  whole record, and every argument that fits the member (\<open>param_dnsname_overflow\<close> shows what a longer one does), \<^verbatim>\<open>tls_param_set\<close> without \<^verbatim>\<open>to_flash\<close> succeeds, a following \<^verbatim>\<open>tls_param_get\<close> returns the argument (the
  terminated string for the string members), every other such identifier reads as before, and the
  flash is not touched.
\<close>

theorem param_set_get:
  assumes "length (flash_param s) = 2036" and "updp_mode s = 0" and "strings_ok (fp_params (flash_param s))"
    and "set_field pid = Some a" and "a \<noteq> Whole" and "well_sized a argv"
  shows "\<exists>s'. tls_param_set hw l vm um pid (Some argv) False s = Some (TLS_PARAM_STATUS_OK, s') \<and>
    tls_param_get hw l m pid False s' = Some (TLS_PARAM_STATUS_OK, field_value a argv, s') \<and>
    (\<forall>j b. j \<noteq> pid \<longrightarrow> set_field j = Some b \<longrightarrow> b \<noteq> Whole \<longrightarrow>
       map_option (fst \<circ> snd) (tls_param_get hw l m j False s') = map_option (fst \<circ> snd) (tls_param_get hw l m j False s)) \<and>
    strings_ok (fp_params (flash_param s')) \<and> fdev s' = fdev s"
proof -
  obtain p' where p': "put_field a argv (fp_params (flash_param s)) = Some p'" "length p' = 2016"
    "fetch_field a p' = Some (field_value a argv)" "strings_ok p'"
    "\<And>j b. j \<noteq> pid \<Longrightarrow> set_field j = Some b \<Longrightarrow> b \<noteq> Whole \<Longrightarrow> fetch_field b p' = fetch_field b (fp_params (flash_param s))"
    using image_set_get [OF assms(4-6) params_length [OF assms(1)] assms(3)] by blast
  let ?s = "s\<lparr>flash_param := fp_put ''parameters'' p' (flash_param s)\<rparr>"
  have set: "tls_param_set hw l vm um pid (Some argv) False s = Some (TLS_PARAM_STATUS_OK, ?s)"
    using assms(2,4) field_id [OF assms(4)] p'(1) by (simp add: tls_param_set_def)
  have g: "tls_param_get hw l m j False u =
      map_option (\<lambda>bs. (TLS_PARAM_STATUS_OK, bs, u)) (fetch_field b (fp_params (flash_param u)))"
    if "set_field j = Some b" for j b u
    using that field_id [OF that] by (simp add: tls_param_get_def tables_agree [symmetric])
  have pp: "fp_params (flash_param ?s) = p'" using params_put(1) [OF assms(1) p'(2)] by simp
  show ?thesis
    using set g [OF assms(4), of ?s] g p'(3-5) pp by (intro exI [of _ ?s]) (simp add: option.map_comp comp_def)
qed

lemma table_strings:
  "list_all (\<lambda>a. case a of CStr x \<Rightarrow> snd (member tls_sys_param x) = 32 | _ \<Rightarrow> True) (map snd (set_cases_1 @ set_cases_2))"
  by (simp add: set_cases_1_def set_cases_2_def member_def sys_members)

lemma cstr_size: "set_field pid = Some (CStr x) \<Longrightarrow> snd (member tls_sys_param x) = 32"
  using table_strings by (force simp: set_field_def list_all_iff simp del: map_of_append dest!: map_of_SomeD)

lemma zero_params: "fp_params (replicate 2036 0) = replicate 2016 0"
  by (simp add: fp_params_def take_replicate drop_replicate)

lemma zero_strings: "strings_ok (replicate 2016 0)"
  unfolding strings_ok_def
proof (intro allI impI)
  fix pid x assume s: "set_field pid = Some (CStr x)"
  then have "sys_member x" using set_field_target by fastforce
  from member_fits [OF this] show "0 \<in> set (get_member x (replicate 2016 0))"
    using cstr_size [OF s] by (auto simp: get_member_def set_replicate_conv_if)
qed

lemma channel_list: "set_field TLS_PARAM_ID_CHANNEL_LIST = Some (Mem ''channellist'')" "member tls_sys_param ''channellist'' = (62, 2)"
  by (simp_all add: set_field_def set_cases_1_def set_cases_2_def member_def sys_members)

theorem param_set_get_witness:
  "\<exists>s'. tls_param_set nor_exec demo_layout (\<lambda>_. True) True TLS_PARAM_ID_CHANNEL_LIST (Some [0xFF, 0x3F]) False demo_params =
      Some (TLS_PARAM_STATUS_OK, s') \<and>
    tls_param_get nor_exec demo_layout True TLS_PARAM_ID_CHANNEL_LIST False s' = Some (TLS_PARAM_STATUS_OK, [0xFF, 0x3F], s')"
proof -
  have "length (flash_param demo_params) = 2036" "updp_mode demo_params = 0" "strings_ok (fp_params (flash_param demo_params))"
    by (simp_all only: demo_params_def param_state.simps zero_params zero_strings length_replicate)
  from param_set_get [OF this channel_list(1), of "[0xFF, 0x3F]"] show ?thesis by (force simp: channel_list(2))
qed

section \<open>Storing to flash\<close>

lemma set_stored:
  assumes "nor_flash hw view wel n" and "param_layout n l" and "fls_ready n (fdev s)"
    and "length (flash_param s) = 2036" and "updp_mode s = 0" and "strings_ok (fp_params (flash_param s))"
    and "set_field pid = Some a" and "a \<noteq> Whole" and "well_sized a argv"
  shows "\<exists>d b p'. tls_param_set hw l (\<lambda>_. True) um pid (Some argv) True s =
      Some (TLS_PARAM_STATUS_OK, s\<lparr>flash_param := b, fdev := d\<rparr>) \<and> fls_ready n d \<and>
    put_field a argv (fp_params (flash_param s)) = Some p' \<and> fetch_field a p' = Some (field_value a argv) \<and>
    valid_block b \<and> fp_count b = 1 \<and> fp_partition b = (fp_partition (flash_param s) + 1) AND 1 \<and> fp_params b = p' \<and>
    view (chip d) = blit (view (chip (fdev s))) (poff l (fp_partition b)) b"
proof -
  obtain p' where p': "put_field a argv (fp_params (flash_param s)) = Some p'" "length p' = 2016"
    "fetch_field a p' = Some (field_value a argv)"
    using image_set_get [OF assms(7-9) params_length [OF assms(4)] assms(6)] by blast
  let ?b = "fp_put ''parameters'' p' (flash_param s)"
  note pp = params_put [OF assms(4) p'(2)]
  have id: "- 1 \<le> pid" "pid < 66" using field_id [OF assms(7)] by (auto simp: bad_param_id_def)
  obtain d where d: "param_to_flash hw l True True pid (- 1) (s\<lparr>flash_param := ?b\<rparr>) =
      (0, s\<lparr>flash_param := param_seal (- 1) ?b, fdev := d\<rparr>)" "fls_ready n d"
    "view (chip d) = blit (view (chip (fdev s))) (poff l (fp_partition (param_seal (- 1) ?b))) (param_seal (- 1) ?b)"
    using nor_flash.param_to_flash_ok [OF assms(1) _ assms(2), of "s\<lparr>flash_param := ?b\<rparr>" pid "param_seal (- 1) ?b" "- 1"]
      assms(3) pp(2) id by auto
  show ?thesis
    using d p' seal_facts [OF pp(2), of "- 1"] pp assms(5,7) field_id [OF assms(7)]
    by (intro exI [of _ d] exI [of _ "param_seal (- 1) ?b"] exI [of _ p']) (simp add: tls_param_set_def)
qed

text \<open>
  C17.  \<^verbatim>\<open>tls_param_set\<close> with \<^verbatim>\<open>to_flash\<close> seals the block (magic, length, checksum over all but the last word) and
  writes it to the partition other than the one RAM was loaded from or stored to; the other bytes of the flash,
  the other partition among them, keep their contents, and \<^verbatim>\<open>tls_param_get\<close> from flash returns the argument.
\<close>

theorem param_set_stored:
  assumes "nor_flash hw view wel n" and "param_layout n l" and "fls_ready n (fdev s)"
    and "length (flash_param s) = 2036" and "updp_mode s = 0" and "strings_ok (fp_params (flash_param s))"
    and "set_field pid = Some a" and "a \<noteq> Whole" and "well_sized a argv"
  shows "\<exists>s' s'' b. tls_param_set hw l (\<lambda>_. True) um pid (Some argv) True s = Some (TLS_PARAM_STATUS_OK, s') \<and>
    b = flash_param s' \<and> valid_block b \<and> fp_partition b = (fp_partition (flash_param s) + 1) AND 1 \<and>
    view (chip (fdev s')) = blit (view (chip (fdev s))) (poff l (fp_partition b)) b \<and>
    tls_param_get hw l True pid True s' = Some (TLS_PARAM_STATUS_OK, field_value a argv, s'') \<and>
    view (chip (fdev s'')) = view (chip (fdev s')) \<and> fls_ready n (fdev s'')"
proof -
  obtain d b p' where st: "tls_param_set hw l (\<lambda>_. True) um pid (Some argv) True s =
      Some (TLS_PARAM_STATUS_OK, s\<lparr>flash_param := b, fdev := d\<rparr>)" "fls_ready n d"
    "fetch_field a p' = Some (field_value a argv)" "valid_block b"
    "fp_partition b = (fp_partition (flash_param s) + 1) AND 1" "fp_params b = p'"
    "view (chip d) = blit (view (chip (fdev s))) (poff l (fp_partition b)) b"
    using set_stored [OF assms] by blast
  have b: "length b = 2036" using st(4) by (simp add: valid_block_def)
  obtain e where e: "tls_fls_read hw (partition_addr l (fp_partition b)) (Some True) 2036 d = (TLS_FLS_STATUS_OK, b, e)"
    "view (chip e) = view (chip d)" "fls_ready n e"
    using nor_flash.read_partition [OF assms(1) st(2) assms(2), of "fp_partition b"] b by (auto simp: st(7))
  let ?u = "s\<lparr>flash_param := b, fdev := d\<rparr>"
  have "tls_param_get hw l True pid True ?u = Some (TLS_PARAM_STATUS_OK, field_value a argv, ?u\<lparr>fdev := e\<rparr>)"
    using assms(7) field_id [OF assms(7)] e(1) st(3,6) by (simp add: tls_param_get_def tables_agree [symmetric])
  then show ?thesis using st e by (intro exI [of _ ?u] exI [of _ "?u\<lparr>fdev := e\<rparr>"] exI [of _ b]) simp
qed

theorem param_set_stored_witness:
  "\<exists>s' s''. tls_param_set nor_exec demo_layout (\<lambda>_. True) True TLS_PARAM_ID_CHANNEL_LIST (Some [0xFF, 0x3F]) True demo_params =
      Some (TLS_PARAM_STATUS_OK, s') \<and>
    fst (chip (fdev s')) = blit (fst (chip demo_fls)) 0x12000 (flash_param s') \<and>
    tls_param_get nor_exec demo_layout True TLS_PARAM_ID_CHANNEL_LIST True s' = Some (TLS_PARAM_STATUS_OK, [0xFF, 0x3F], s'')"
proof -
  have s: "length (flash_param demo_params) = 2036" "updp_mode demo_params = 0" "strings_ok (fp_params (flash_param demo_params))"
    "fls_ready (2 ^ 23) (fdev demo_params)" "fdev demo_params = demo_fls" "fp_partition (flash_param demo_params) = 0"
    by (simp_all only: demo_params_def param_state.simps zero_params zero_strings length_replicate demo_ready)
      (simp add: fp_partition_def get16_def)
  have "well_sized (Mem ''channellist'') [0xFF, 0x3F]" by (simp add: channel_list(2))
  from param_set_stored [OF nor.nor_flash_axioms demo_param_layout s(4,1,2,3) channel_list(1) _ this]
  show ?thesis by (force simp: s(5,6) demo_offsets)
qed

text \<open>
  Updates of every second store are lost at the next start.  The modify count is always written as 1, so
  start-up never prefers partition 1 to a valid partition 0: when RAM was loaded from partition 0, a
  successful \<^verbatim>\<open>tls_param_set\<close> with \<^verbatim>\<open>to_flash\<close> goes to partition 1, and after a restart \<^verbatim>\<open>tls_param_init\<close> succeeds with
  the old parameters.
\<close>

lemma param_update_lost:
  assumes "nor_flash hw view wel n" and "crc_unit eng" and "param_layout n l" and "fls_ready n (fdev s)"
    and "flash_param s = span (view (chip (fdev s))) (poff l 0) 2036" and "valid_block (flash_param s)"
    and "fp_partition (flash_param s) = 0" and "1 \<le> fp_count (flash_param s)"
    and "updp_mode s = 0" and "strings_ok (fp_params (flash_param s))"
    and "set_field pid = Some a" and "a \<noteq> Whole" and "well_sized a argv"
  shows "\<exists>s1 s2. tls_param_set hw l (\<lambda>_. True) um pid (Some argv) True s = Some (TLS_PARAM_STATUS_OK, s1) \<and>
    tls_param_get hw l m pid False s1 = Some (TLS_PARAM_STATUS_OK, field_value a argv, s1) \<and>
    tls_param_init hw eng l True True (\<lambda>_. True) (s1\<lparr>flash_param := replicate 2036 0\<rparr>) = Some (TLS_PARAM_STATUS_OK, s2) \<and>
    fp_params (flash_param s2) = fp_params (flash_param s)"
proof -
  have len: "length (flash_param s) = 2036" using assms(6) by (simp add: valid_block_def)
  obtain d b p' where st: "tls_param_set hw l (\<lambda>_. True) um pid (Some argv) True s =
      Some (TLS_PARAM_STATUS_OK, s\<lparr>flash_param := b, fdev := d\<rparr>)" "fls_ready n d"
    "fetch_field a p' = Some (field_value a argv)" "valid_block b" "fp_count b = 1"
    "fp_partition b = (fp_partition (flash_param s) + 1) AND 1" "fp_params b = p'"
    "view (chip d) = blit (view (chip (fdev s))) (poff l (fp_partition b)) b"
    using set_stored [OF assms(1,3,4) len assms(9-13)] by blast
  have b: "length b = 2036" "fp_partition b = 1" using st(4,6) assms(7) by (simp_all add: valid_block_def)
  have parts: "flash_param s = span (view (chip d)) (poff l 0) 2036" "b = span (view (chip d)) (poff l 1) 2036"
    using assms(3,5) b span_blit_disjoint [of "poff l 0" 2036 "poff l 1" b "view (chip (fdev s))"]
    by (auto simp: st(8) param_layout_def)
  let ?u = "s\<lparr>flash_param := b, fdev := d\<rparr>"
  have "\<exists>s2. tls_param_init hw eng l True True (\<lambda>_. True) (?u\<lparr>flash_param := replicate 2036 0\<rparr>) = Some (TLS_PARAM_STATUS_OK, s2) \<and>
      fp_params (flash_param s2) = recovered (flash_param s) b"
    using nor_flash.init_ok [OF assms(1) _ assms(3,2), of "?u\<lparr>flash_param := replicate 2036 0\<rparr>" "flash_param s" b]
      parts st(2,4,5) assms(6,8) by (auto simp: zero_block)
  moreover have "tls_param_get hw l m pid False ?u = Some (TLS_PARAM_STATUS_OK, field_value a argv, ?u)"
    using assms(11) field_id [OF assms(11)] st(3,7) by (simp add: tls_param_get_def tables_agree [symmetric])
  ultimately show ?thesis using st(1) assms(6) by (auto simp: recovered_def)
qed

text \<open>A device that was just started: both partitions hold sealed all-zero parameters, RAM is loaded from partition 0.\<close>

definition demo_block :: "nat \<Rightarrow> u8 list" where
  "demo_block i = param_seal (int i) (replicate 2036 0)"

definition demo_started :: "nor param_state" where
  "demo_started = demo_params\<lparr>flash_param := demo_block 0,
     fdev := demo_fls\<lparr>chip := (blit (blit (fst (chip demo_fls)) 0x11000 (demo_block 0)) 0x12000 (demo_block 1), False)\<rparr>\<rparr>"

lemma demo_block_facts:
  "valid_block (demo_block i)" "fp_count (demo_block i) = 1" "fp_params (demo_block i) = replicate 2016 0"
  "fp_partition (demo_block i) = of_nat i"
  using seal_facts [of "replicate 2036 0" "int i"] zero_params unfolding demo_block_def by simp_all

lemma param_update_lost_example:
  "\<exists>s1 s2. tls_param_set nor_exec demo_layout (\<lambda>_. True) True TLS_PARAM_ID_CHANNEL_LIST (Some [0xFF, 0x3F]) True demo_started =
      Some (TLS_PARAM_STATUS_OK, s1) \<and>
    tls_param_init nor_exec ref_engine demo_layout True True (\<lambda>_. True) (s1\<lparr>flash_param := replicate 2036 0\<rparr>) =
      Some (TLS_PARAM_STATUS_OK, s2) \<and>
    fp_params (flash_param s2) = replicate 2016 0"
proof -
  have f: "flash_param demo_started = demo_block 0" "updp_mode demo_started = 0"
    by (simp_all add: demo_started_def demo_params_def)
  have r: "fls_ready (2 ^ 23) (fdev demo_started)" by (simp add: demo_started_def fls_ready_def demo_fls_def)
  have l: "length (demo_block i) = 2036" for i using demo_block_facts(1) [of i] by (simp add: valid_block_def)
  have p: "demo_block 0 = span (fst (chip (fdev demo_started))) (poff demo_layout 0) 2036"
    using l [of 0] l [of 1] span_blit_disjoint [of "0x11000" 2036 "0x12000" "demo_block 1"]
    by (simp add: demo_started_def demo_offsets)
  have w: "well_sized (Mem ''channellist'') [0xFF, 0x3F]" by (simp add: channel_list(2))
  show ?thesis
    using param_update_lost [where um = True and m = True, OF nor.nor_flash_axioms ref_crc.crc_unit_axioms
        demo_param_layout r, of TLS_PARAM_ID_CHANNEL_LIST "Mem ''channellist''" "[0xFF, 0x3F]"]
      f p w channel_list(1) demo_block_facts [of 0] zero_strings by auto
qed

section \<open>User defaults\<close>

lemma addr_plus:
  assumes "unat a mod 2 ^ 27 + k < 2 ^ 27"
  shows "unat (a + of_nat k :: u32) mod 2 ^ 27 = unat a mod 2 ^ 27 + k"
proof -
  have "unat (a + of_nat k) mod 2 ^ 27 = (unat a + k) mod 2 ^ 27"
    by (simp add: unat_word_ariths unat_of_nat mod_mod_cancel mod_add_right_eq)
  also have "\<dots> = (unat a mod 2 ^ 27 + k) mod 2 ^ 27" by (simp only: mod_add_left_eq)
  finally show ?thesis using assms by simp
qed

context nor_flash
begin

lemma user_default_ok:
  assumes "fls_ready csize (fdev s)" and "user_default_param s = Some p" and "length p = 2016"
    and o: "off = unat (FLASH_PARAM_DEFAULT l) mod 2 ^ 27" "off + 2024 \<le> csize" and "length j1 = 4" and "length j2 = 4"
  shows "\<exists>s' d. tls_param_save_user_default hw l s = (TLS_PARAM_STATUS_OK, s') \<and>
    V (fdev s') = blit (V (fdev s)) off (le32 TLS_USER_MAGIC @ p @ le32 (get_crc32 p)) \<and>
    tls_param_load_user hw l j1 j2 q (fdev s') = (TLS_PARAM_STATUS_OK, p, d) \<and> V d = V (fdev s')"
proof -
  let ?a = "FLASH_PARAM_DEFAULT l"
  have cs: "csize < 2 ^ 27" using csize_le by (rule le_less_trans) simp
  have k: "unat (?a + of_nat k) mod 2 ^ 27 = off + k" if "k \<le> 2024" for k
    using that o cs addr_plus [of ?a k] by simp
  have a1: "unat (?a + 4) mod 2 ^ 27 = off + 4" and a2: "unat (?a + 4 + 2016) mod 2 ^ 27 = off + 2020"
    using k [of 4] k [of 2020] by (simp_all add: add.assoc)
  obtain d1 where w1: "tls_fls_write hw ?a (Some (le32 TLS_USER_MAGIC)) 4 (fdev s) = (TLS_FLS_STATUS_OK, d1)"
    "V d1 = blit (V (fdev s)) off (le32 TLS_USER_MAGIC)" "fls_ready csize d1"
    using tls_fls_write_ok [OF assms(1), of 4 ?a "le32 TLS_USER_MAGIC"] o fls_ready_keeps [OF _ assms(1)] by force
  obtain d2 where w2: "tls_fls_write hw (?a + 4) (Some p) 2016 d1 = (TLS_FLS_STATUS_OK, d2)"
    "V d2 = blit (V d1) (off + 4) p" "fls_ready csize d2"
    using tls_fls_write_ok [OF w1(3), of 2016 "?a + 4" p] a1 o assms(3) fls_ready_keeps [OF _ w1(3)] by force
  obtain d3 where w3: "tls_fls_write hw (?a + 4 + 2016) (Some (le32 (get_crc32 p))) 4 d2 = (TLS_FLS_STATUS_OK, d3)"
    "V d3 = blit (V d2) (off + 2020) (le32 (get_crc32 p))" "fls_ready csize d3"
    using tls_fls_write_ok [OF w2(3), of 4 "?a + 4 + 2016" "le32 (get_crc32 p)"] a2 o fls_ready_keeps [OF _ w2(3)] by force
  have V: "V d3 = blit (V (fdev s)) off (le32 TLS_USER_MAGIC @ p @ le32 (get_crc32 p))"
    using assms(3) by (simp add: w1(2) w2(2) w3(2) blit_append add.commute [of off])
  obtain e1 where r1: "tls_fls_read hw ?a (Some True) 4 d3 = (TLS_FLS_STATUS_OK, span (V d3) off 4, e1)"
    "V e1 = V d3" "fls_ready csize e1"
    using tls_fls_read_ok [OF w3(3), of 4 ?a True] o fls_ready_keeps [OF _ w3(3)] by force
  obtain e2 where r2: "tls_fls_read hw (?a + 4) (Some True) 2016 e1 = (TLS_FLS_STATUS_OK, span (V d3) (off + 4) 2016, e2)"
    "V e2 = V d3" "fls_ready csize e2"
    using tls_fls_read_ok [OF r1(3), of 2016 "?a + 4" True] a1 o r1(2) fls_ready_keeps [OF _ r1(3)] by force
  obtain e3 where r3: "tls_fls_read hw (?a + 4 + 2016) (Some True) 4 e2 = (TLS_FLS_STATUS_OK, span (V d3) (off + 2020) 4, e3)"
    "V e3 = V d3"
    using tls_fls_read_ok [OF r2(3), of 4 "?a + 4 + 2016" True] a2 o r2(2) by force
  have c: "span (V d3) off 4 = le32 TLS_USER_MAGIC" "span (V d3) (off + 4) 2016 = p"
    "span (V d3) (off + 2020) 4 = le32 (get_crc32 p)"
    using assms(3) by (simp_all add: w1(2) w2(2) w3(2) span_blit_disjoint)
  have "tls_param_load_user hw l j1 j2 q d3 = (TLS_PARAM_STATUS_OK, p, e3)"
    using r1(1) r2(1) r3(1) c assms(3,6,7) by (simp add: tls_param_load_user_def Let_def)
  then show ?thesis
    using w1 w2 w3 V r3(2) assms(2) by (intro exI [of _ "s\<lparr>fdev := d3\<rparr>"] exI [of _ e3]) (simp add: tls_param_save_user_default_def)
qed

end

text \<open>
  The user defaults round-trip: \<^verbatim>\<open>tls_param_save_user_default\<close> writes the user default block (magic,
  parameters, checksum) and nothing else, and \<^verbatim>\<open>tls_param_load_user\<close> then returns exactly those parameters.
\<close>

lemma param_user_default_roundtrip:
  assumes "nor_flash hw view wel n" and "fls_ready n (fdev s)" and "user_default_param s = Some p" and "length p = 2016"
    and o: "off = unat (FLASH_PARAM_DEFAULT l) mod 2 ^ 27" "off + 2024 \<le> n" and "length j1 = 4" and "length j2 = 4"
  shows "\<exists>s' d. tls_param_save_user_default hw l s = (TLS_PARAM_STATUS_OK, s') \<and>
    view (chip (fdev s')) = blit (view (chip (fdev s))) off (le32 TLS_USER_MAGIC @ p @ le32 (get_crc32 p)) \<and>
    tls_param_load_user hw l j1 j2 q (fdev s') = (TLS_PARAM_STATUS_OK, p, d) \<and> view (chip d) = view (chip (fdev s'))"
  by (rule nor_flash.user_default_ok [OF assms])

lemma param_user_default_roundtrip_example:
  "\<exists>s' d. tls_param_save_user_default nor_exec demo_layout (demo_params\<lparr>user_default_param := Some (replicate 2016 7)\<rparr>) =
      (TLS_PARAM_STATUS_OK, s') \<and>
    tls_param_load_user nor_exec demo_layout [0, 0, 0, 0] [0, 0, 0, 0] [] (fdev s') = (TLS_PARAM_STATUS_OK, replicate 2016 7, d)"
  using param_user_default_roundtrip [OF nor.nor_flash_axioms, of "demo_params\<lparr>user_default_param := Some (replicate 2016 7)\<rparr>"
      "replicate 2016 7" "0x10000" demo_layout "[0, 0, 0, 0]" "[0, 0, 0, 0]" "[]"] demo_ready
  by (auto simp: demo_params_def demo_layout_def)

section \<open>Strings longer than their member\<close>

lemma name_members: "member tls_sys_param ''local_dnsname'' = (172, 32)" "member tls_sys_param ''local_device_name'' = (204, 32)"
  "set_field TLS_PARAM_ID_DNSNAME = Some (CStr ''local_dnsname'')"
  by (simp_all add: set_field_def set_cases_1_def set_cases_2_def member_def sys_members)

lemma overlay_spill:
  assumes "off \<le> a" and "a \<le> off + length ys" and "off + length ys \<le> a + n" and "a + n \<le> length xs"
  shows "take n (drop a (overlay xs off ys)) = drop (a - off) ys @ drop (off + length ys - a) (take n (drop a xs))"
  using assms by (intro nth_equalityI) (auto simp: nth_overlay nth_append)

lemma dnsname_image:
  assumes "length p = 2016" and "length (cstring argv) = 32 + k" and "k \<le> 32"
  shows "\<exists>p'. put_field (CStr ''local_dnsname'') argv p = Some p' \<and> length p' = 2016 \<and>
    get_member ''local_device_name'' p' = drop 32 (cstring argv) @ drop k (get_member ''local_device_name'' p)"
proof -
  have "take 32 (drop 204 (overlay p 172 (cstring argv))) = drop 32 (cstring argv) @ drop k (take 32 (drop 204 p))"
    using overlay_spill [of 172 204 "cstring argv" 32 p] assms by simp
  then show ?thesis using assms by (simp add: name_members get_member_def)
qed

text \<open>
  \<^verbatim>\<open>tls_param_set\<close> copies a DNS name with \<^verbatim>\<open>strcpy\<close>: a name of 32 characters or more (up to twice that)
  is accepted with status OK, and what does not fit the 32 bytes of \<^verbatim>\<open>local_dnsname\<close>, the terminator included,
  replaces the beginning of \<^verbatim>\<open>local_device_name\<close>.
\<close>

lemma param_dnsname_overflow:
  assumes "length (flash_param s) = 2036" and "updp_mode s = 0" and "length (cstring argv) = 32 + k" and "k \<le> 32"
  shows "\<exists>s'. tls_param_set hw l vm um TLS_PARAM_ID_DNSNAME (Some argv) False s = Some (TLS_PARAM_STATUS_OK, s') \<and>
    get_member ''local_device_name'' (fp_params (flash_param s')) =
      drop 32 (cstring argv) @ drop k (get_member ''local_device_name'' (fp_params (flash_param s)))"
proof -
  obtain p' where p': "put_field (CStr ''local_dnsname'') argv (fp_params (flash_param s)) = Some p'" "length p' = 2016"
    "get_member ''local_device_name'' p' =
      drop 32 (cstring argv) @ drop k (get_member ''local_device_name'' (fp_params (flash_param s)))"
    using dnsname_image [OF params_length [OF assms(1)] assms(3,4)] by blast
  show ?thesis
    using assms(2) p' params_put(1) [OF assms(1) p'(2)] name_members(3) field_id [OF name_members(3)]
    by (simp add: tls_param_set_def)
qed

lemma param_dnsname_overflow_witness:
  "\<exists>s'. tls_param_set nor_exec demo_layout (\<lambda>_. True) True TLS_PARAM_ID_DNSNAME (Some (replicate 33 0x61 @ [0])) False demo_params =
      Some (TLS_PARAM_STATUS_OK, s') \<and>
    take 2 (get_member ''local_device_name'' (fp_params (flash_param s'))) = [0x61, 0]"
proof -
  have c: "cstring (replicate 33 0x61 @ [0]) = replicate 32 0x61 @ [0x61, 0]" by code_simp
  show ?thesis
    using param_dnsname_overflow [of demo_params "replicate 33 0x61 @ [0]" 2 nor_exec demo_layout "\<lambda>_. True" True] c
    by (force simp: demo_params_def)
qed

end
