(* ===== verification/Strings.thy ===== *)
theory Strings
  imports Prelude
begin

text \<open>
  The conversions of \<^verbatim>\<open>platform/common/utils/utils.c\<close> between numbers, addresses and strings.

  A C string argument is the list of its characters before the terminator; where a function walks over
  memory (\<^verbatim>\<open>strtoip\<close>), it is the memory from the pointer on, terminators included.  Results written through
  a pointer are returned, as an option where an error path leaves the target unwritten.  \<^verbatim>\<open>int\<close> results that
  are computed by repeated multiplication are kept as 32-bit words.
\<close>

section \<open>Decimal numbers\<close>

abbreviation zero_char :: u8 where "zero_char \<equiv> 0x30"
abbreviation dot_char :: u8 where "dot_char \<equiv> 0x2E"

definition atodec :: "u8 \<Rightarrow> int" where
  "atodec ch = (if 0x30 \<le> ch \<and> ch \<le> 0x39 then uint ch - 0x30 else - 1)"

fun strtodec_loop :: "int \<Rightarrow> u32 \<Rightarrow> u8 list \<Rightarrow> (int \<times> u32) option" where
  "strtodec_loop i dd [] = Some (i, dd)"
| "strtodec_loop i dd (c # cs) =
     (let i = atodec c in if i < 0 then None else strtodec_loop i (dd * 10 + of_int i) cs)"

definition strtodec :: "u8 list \<Rightarrow> int \<times> u32 option" where
  "strtodec str =
     (let (str, sgn) = (case str of c # cs \<Rightarrow> if c = 0x2D then (cs, - 1) else (str, 1) | [] \<Rightarrow> (str, 1))
      in case strtodec_loop (- 1) 0 str of
           None \<Rightarrow> (- 1, None)
         | Some (i, dd) \<Rightarrow> (if i < 0 then - 1 else 0, Some (dd * sgn)))"

section \<open>Hexadecimal numbers\<close>

definition atohex :: "u8 \<Rightarrow> int" where
  "atohex ch = (if 0x30 \<le> ch \<and> ch \<le> 0x39 then uint ch - 0x30
     else if 0x61 \<le> ch \<and> ch \<le> 0x66 then uint ch - 0x61 + 0xA
     else if 0x41 \<le> ch \<and> ch \<le> 0x46 then uint ch - 0x41 + 0xA else - 1)"

fun strtohex_loop :: "int \<Rightarrow> nat \<Rightarrow> u32 \<Rightarrow> u8 list \<Rightarrow> (int \<times> u32) option" where
  "strtohex_loop n i dd [] = Some (n, dd)"
| "strtohex_loop n i dd (c # cs) =
     (let n = atohex c
      in if n < 0 then None
         else if Suc i > 8 then None else strtohex_loop n (Suc i) (push_bit 4 dd + of_int n) cs)"

definition strtohex :: "u8 list \<Rightarrow> int \<times> u32 option" where
  "strtohex str =
     (case strtohex_loop (- 1) 0 0 str of
        None \<Rightarrow> (- 1, None)
      | Some (n, dd) \<Rightarrow> (if n < 0 then - 1 else 0, Some dd))"

text \<open>The characters behind the end of the list read as the terminator; \<open>acc\<close> holds the bytes stored so far.\<close>

definition char_at :: "u8 list \<Rightarrow> u8" where
  "char_at str = (case str of [] \<Rightarrow> 0 | c # _ \<Rightarrow> c)"

fun strtohexarray :: "nat \<Rightarrow> u8 list \<Rightarrow> u8 list \<Rightarrow> int \<times> u8 list" where
  "strtohexarray 0 str acc = (if char_at str = 0 then 0 else - 1, acc)"
| "strtohexarray (Suc cnt) str acc =
     (let hex = atohex (char_at str)
      in if hex < 0 then (- 1, acc)
         else
           (let tmp = push_bit 4 (of_int hex) AND 0xF0; hex = atohex (char_at (tl str))
            in if hex < 0 then (- 1, acc)
               else strtohexarray cnt (tl (tl str)) (acc @ [tmp OR (of_int hex AND 0x0F)])))"

definition hex_to_digit :: "int \<Rightarrow> int" where
  "hex_to_digit c = (if 0x30 \<le> c \<and> c \<le> 0x39 then c - 0x30
     else if 0x41 \<le> c \<and> c \<le> 0x46 then c - (0x41 - 10)
     else if 0x61 \<le> c \<and> c \<le> 0x66 then c - (0x61 - 10) else - 1)"

definition digit_to_hex :: "int \<Rightarrow> int" where
  "digit_to_hex c = (if 0 \<le> c \<and> c \<le> 9 then c + 0x30 else if 0xA \<le> c \<and> c \<le> 0xF then c - 0xA + 0x41 else - 1)"

fun hexstr_loop :: "u32 \<Rightarrow> u8 list \<Rightarrow> int \<times> u32" where
  "hexstr_loop d [] = (0, d)"
| "hexstr_loop d (b # bs) =
     (let c = hex_to_digit (uint b)
      in if c < 0 then (- 1, d) else hexstr_loop (ucast (of_int c :: u8) OR push_bit 4 d) bs)"

definition hexstr_to_unit :: "u8 list \<Rightarrow> int \<times> u32" where
  "hexstr_to_unit buf = (if length buf > 8 then (- 1, 0) else hexstr_loop 0 buf)"

section \<open>Internet and hardware addresses\<close>

text \<open>
  \<^verbatim>\<open>strtoip\<close> walks over the memory until it has seen three dots, not stopping at a terminator; \<open>None\<close> means that
  it leaves the memory.  Each dot is replaced by a terminator while the field before it is converted, and
  put back unless the conversion fails.
\<close>

definition string_at :: "u8 list \<Rightarrow> nat \<Rightarrow> u8 list option" where
  "string_at mem head = (if 0 \<in> set (drop head mem) then Some (takeWhile (\<lambda>c. c \<noteq> 0) (drop head mem)) else None)"

definition ip_field :: "u8 list option \<Rightarrow> u32 \<Rightarrow> u32 option option" where
  "ip_field field ip =
     (case field of
        None \<Rightarrow> None
      | Some str \<Rightarrow>
          (case strtodec str of
             (r, n) \<Rightarrow> if r < 0 then Some None
                       else if sint (the n) < 0 \<or> sint (the n) > 255 then Some None
                       else Some (Some (push_bit 8 ip + the n))))"

function strtoip_scan :: "u8 list \<Rightarrow> nat \<Rightarrow> nat \<Rightarrow> nat \<Rightarrow> u32 \<Rightarrow> (int \<times> u32 option \<times> u8 list) option" where
  "strtoip_scan mem head tail i ip =
     (if i \<ge> 3 then
        (case ip_field (string_at mem head) ip of
           None \<Rightarrow> None
         | Some None \<Rightarrow> Some (- 1, None, mem)
         | Some (Some ip) \<Rightarrow> Some (if ip = 0 then - 1 else 0, Some ip, mem))
      else if tail \<ge> length mem then None
      else if mem ! tail = dot_char then
        (case ip_field (string_at (mem[tail := 0]) head) ip of
           None \<Rightarrow> None
         | Some None \<Rightarrow> Some (- 1, None, mem[tail := 0])
         | Some (Some ip) \<Rightarrow> strtoip_scan mem (Suc tail) (Suc tail) (Suc i) ip)
      else strtoip_scan mem head (Suc tail) i ip)"
  by pat_completeness auto
termination by (relation "measure (\<lambda>(mem, head, tail, i, ip). length mem - tail)") auto

declare strtoip_scan.simps [simp del]

definition strtoip :: "u8 list \<Rightarrow> (int \<times> u32 option \<times> u8 list) option" where
  "strtoip mem = strtoip_scan mem 0 0 0 0"

text \<open>The conversions \<^verbatim>\<open>%d\<close> of a non-negative number and \<^verbatim>\<open>%02x\<close> of a byte, as \<^verbatim>\<open>sprintf\<close> prints them.\<close>

fun print_d :: "nat \<Rightarrow> u8 list" where
  "print_d n = (if n < 10 then [of_nat n + 0x30] else print_d (n div 10) @ [of_nat (n mod 10) + 0x30])"

declare print_d.simps [simp del]

definition hex_char :: "nat \<Rightarrow> u8" where
  "hex_char d = (if d < 10 then of_nat d + 0x30 else of_nat d - 10 + 0x61)"

definition print_02x :: "u8 \<Rightarrow> u8 list" where
  "print_02x b = [hex_char (unat b div 16), hex_char (unat b mod 16)]"

definition iptostr :: "u32 \<Rightarrow> u8 list" where
  "iptostr ip =
     print_d (unat (drop_bit 24 ip AND 0xFF)) @ [dot_char] @ print_d (unat (drop_bit 16 ip AND 0xFF)) @ [dot_char] @
     print_d (unat (drop_bit 8 ip AND 0xFF)) @ [dot_char] @ print_d (unat (ip AND 0xFF))"

definition mactostr :: "u8 list \<Rightarrow> u8 list" where
  "mactostr mac = concat (map (\<lambda>i. print_02x (mac ! i)) [0..<6])"

section \<open>Library-based conversions\<close>

text \<open>
  \<^verbatim>\<open>atoi\<close> is \<^verbatim>\<open>(int) strtol\<close>, which saturates at the ends of the 32-bit range; \<open>decimal_value\<close> is the number a
  string of digits denotes.
\<close>

definition is_digit :: "u8 \<Rightarrow> bool" where
  "is_digit c \<longleftrightarrow> 0x30 \<le> c \<and> c \<le> 0x39"

definition decimal_value :: "u8 list \<Rightarrow> nat" where
  "decimal_value cs = foldl (\<lambda>v c. v * 10 + (unat c - 0x30)) 0 cs"

definition atoi_digits :: "u8 list \<Rightarrow> u32" where
  "atoi_digits cs = of_nat (min (decimal_value cs) (2 ^ 31 - 1))"

definition string_to_uint :: "u8 list \<Rightarrow> int \<times> u32 option" where
  "string_to_uint buf =
     (if length buf > 11 \<or> length buf = 0 then (- 1, None)
      else if \<exists>c \<in> set buf. \<not> is_digit c then (- 1, None)
      else (0, Some (atoi_digits buf)))"

text \<open>
  The conversion \<^verbatim>\<open>%u\<close> of \<^verbatim>\<open>sscanf\<close>: white space, an optional sign, digits, converted by \<^verbatim>\<open>strtoul\<close>, which
  saturates at the largest 32-bit number and negates modulo \<^verbatim>\<open>2^32\<close>.
\<close>

definition is_space :: "u8 \<Rightarrow> bool" where
  "is_space c \<longleftrightarrow> c \<in> {0x20, 0x09, 0x0A, 0x0B, 0x0C, 0x0D}"

definition scan_u :: "u8 list \<Rightarrow> (u32 \<times> u8 list) option" where
  "scan_u str =
     (let str = dropWhile is_space str;
          (neg, str) = (case str of c # cs \<Rightarrow> if c = 0x2D then (True, cs) else if c = 0x2B then (False, cs) else (False, str)
                                  | [] \<Rightarrow> (False, []));
          ds = takeWhile is_digit str; v = of_nat (min (decimal_value ds) (2 ^ 32 - 1))
      in if ds = [] then None else Some (if neg then - v else v, dropWhile is_digit str))"

text \<open>The fields of \<^verbatim>\<open>"%u.%u.%u.%u"\<close> that match, in order, and the rest of the input when all do.\<close>

fun scan_fields :: "nat \<Rightarrow> u8 list \<Rightarrow> u32 list \<times> u8 list option" where
  "scan_fields 0 str = ([], Some str)"
| "scan_fields (Suc k) str =
     (case scan_u str of
        None \<Rightarrow> ([], None)
      | Some (v, rest) \<Rightarrow>
          if k = 0 then ([v], Some rest)
          else (case rest of
                  c # cs \<Rightarrow> if c = dot_char then (let (vs, r) = scan_fields k cs in (v # vs, r)) else ([v], None)
                | [] \<Rightarrow> ([v], None)))"

text \<open>The address is written byte by byte until a number above 255 (as \<^verbatim>\<open>int\<close>) is met.\<close>

fun store_fields :: "u32 list \<Rightarrow> u8 list \<Rightarrow> int \<times> u8 list" where
  "store_fields [] acc = (0, acc)"
| "store_fields (v # vs) acc = (if sint v > 255 then (- 1, acc) else store_fields vs (acc @ [ucast v]))"

definition string_to_ipaddr :: "u8 list \<Rightarrow> int \<times> u8 list" where
  "string_to_ipaddr buf =
     (case scan_fields 4 buf of
        (vs, Some rest) \<Rightarrow> if rest = [] \<or> hd rest = 0x0A then store_fields vs [] else (- 1, [])
      | (_, None) \<Rightarrow> (- 1, []))"

section \<open>Copies, time, comparison\<close>

text \<open>\<open>mem\<close>: the allocation succeeds.  \<^verbatim>\<open>strndup\<close> copies \<^verbatim>\<open>len\<close> bytes of memory whatever they hold.\<close>

definition strdup :: "bool \<Rightarrow> u8 list \<Rightarrow> u8 list option" where
  "strdup mem s = (if mem then Some (overlay (replicate (length s + 1) 0) 0 s) else None)"

definition strndup :: "bool \<Rightarrow> u8 list \<Rightarrow> nat \<Rightarrow> u8 list option option" where
  "strndup mem s len =
     (if \<not> mem then Some None
      else if length s < len then None
      else Some (Some (overlay (replicate (len + 1) 0) 0 (take len s))))"

definition gettimeofday :: "u32 \<Rightarrow> u32 \<times> u32" where
  "gettimeofday current_tick = (current_tick div 100, 10000 * (current_tick mod 100))"

definition fold_case :: "u8 \<Rightarrow> u8" where
  "fold_case a = (if 0x61 \<le> a \<and> a \<le> 0x7A then a - 0x20 else a)"

fun strcasecmp :: "u8 list \<Rightarrow> u8 list \<Rightarrow> int" where
  "strcasecmp (a # s1) (b # s2) =
     (if a = b then strcasecmp s1 s2 else if fold_case a \<noteq> fold_case b then 1 else strcasecmp s1 s2)"
| "strcasecmp _ _ = 0"

end
