(* ===== verification/Strings_Correct.thy ===== *)
theory Strings_Correct
  imports Strings
begin

text \<open>
  What the conversions guarantee: printed numbers and addresses are read back exactly, the two hexadecimal
  readers agree, and the places where the readers accept more than they should.
\<close>

section \<open>Decimal\<close>

lemma loop_append: "strtodec_loop i dd (xs @ ys) = Option.bind (strtodec_loop i dd xs) (\<lambda>(i, dd). strtodec_loop i dd ys)"
  by (induction xs arbitrary: i dd) (simp_all add: Let_def)

lemma digit_char: "d < 10 \<Longrightarrow> unat (of_nat d + 0x30 :: u8) = d + 48"
  by (simp add: unat_word_ariths unat_of_nat)

lemma digit_range: "d < 10 \<Longrightarrow> 0x30 \<le> (of_nat d + 0x30 :: u8) \<and> (of_nat d + 0x30 :: u8) \<le> 0x39"
  using digit_char [of d] by (auto simp: word_le_nat_alt)

lemma atodec_digit: "d < 10 \<Longrightarrow> atodec (of_nat d + 0x30) = int d"
  using digit_char [of d] digit_range [of d] by (simp add: atodec_def uint_nat)

lemma print_d_loop: "strtodec_loop i 0 (print_d n) = Some (int (n mod 10), of_nat n)"
proof (induction n arbitrary: i rule: print_d.induct)
  case (1 n)
  show ?case
  proof (cases "n < 10")
    case True
    then show ?thesis by (subst print_d.simps) (simp add: atodec_digit)
  next
    case False
    have "(of_nat (n div 10) * 10 + of_nat (n mod 10) :: u32) = of_nat (n div 10 * 10 + n mod 10)"
      by (simp only: of_nat_add of_nat_mult of_nat_numeral)
    then show ?thesis using False 1 by (subst print_d.simps) (simp add: loop_append atodec_digit)
  qed
qed

lemma print_d_digits: "c \<in> set (print_d n) \<Longrightarrow> 0x30 \<le> c \<and> c \<le> 0x39"
proof (induction n rule: print_d.induct)
  case (1 n)
  then show ?case
    using digit_range [of n] digit_range [of "n mod 10"] by (subst (asm) print_d.simps) (auto split: if_splits)
qed

lemma print_d_chars: "c \<in> set (print_d n) \<Longrightarrow> c \<noteq> dot_char \<and> c \<noteq> 0"
  using print_d_digits [of c n] by (auto simp: word_le_nat_alt)

lemma print_d_string: "takeWhile (\<lambda>c. c \<noteq> 0) (print_d n @ 0 # post) = print_d n"
  using print_d_chars [of _ n] by (subst takeWhile_append2) auto

lemma print_d_nonempty: "print_d n \<noteq> []"
  by (subst print_d.simps) simp

lemma strtodec_print: "strtodec (print_d n) = (0, Some (of_nat n))"
proof -
  have "hd (print_d n) \<noteq> 0x2D" using print_d_digits [of "hd (print_d n)" n] print_d_nonempty [of n] by auto
  then show ?thesis
    using print_d_loop [of "- 1" n] print_d_nonempty [of n] by (cases "print_d n") (auto simp: strtodec_def)
qed

section \<open>Internet addresses\<close>

lemma ip_field_print:
  assumes "n < 256"
  shows "ip_field (Some (print_d n)) ip = Some (Some (push_bit 8 ip + of_nat n))"
proof -
  have "sint (of_nat n :: u32) = int n" using assms by (simp add: signed_of_nat signed_take_bit_int_eq_self)
  then show ?thesis using assms by (simp add: ip_field_def strtodec_print)
qed

lemma scan_skip:
  assumes "i < 3" and "\<And>k. a \<le> k \<Longrightarrow> k < b \<Longrightarrow> mem ! k \<noteq> dot_char" and "a \<le> b" and "b \<le> length mem"
  shows "strtoip_scan mem head a i ip = strtoip_scan mem head b i ip"
  using assms(2,3)
proof (induction "b - a" arbitrary: a)
  case (Suc k)
  then have "a < b" "mem ! a \<noteq> dot_char" by auto
  then have "strtoip_scan mem head a i ip = strtoip_scan mem head (Suc a) i ip"
    using assms(1,4) by (subst strtoip_scan.simps) simp
  then show ?case using Suc \<open>a < b\<close> by simp
qed simp

lemma scan_field:
  assumes "i < 3" and "n < 256"
  shows "strtoip_scan (pre @ print_d n @ dot_char # post) (length pre) (length pre) i ip =
    strtoip_scan (pre @ print_d n @ dot_char # post) (length pre + length (print_d n) + 1) (length pre + length (print_d n) + 1)
      (Suc i) (push_bit 8 ip + of_nat n)"
proof -
  let ?m = "pre @ print_d n @ dot_char # post" and ?t = "length pre + length (print_d n)"
  have d: "?m ! k \<noteq> dot_char" if "length pre \<le> k" "k < ?t" for k
  proof -
    have "?m ! k = print_d n ! (k - length pre)" using that by (auto simp: nth_append)
    moreover have "print_d n ! (k - length pre) \<in> set (print_d n)" using that by (intro nth_mem) simp
    ultimately show ?thesis using print_d_chars by metis
  qed
  have t: "?m ! ?t = dot_char" "?t < length ?m" "?m[?t := 0] = pre @ print_d n @ 0 # post"
    by (simp_all add: nth_append list_update_append)
  have s: "string_at (?m[?t := 0]) (length pre) = Some (print_d n)" by (simp add: t(3) string_at_def print_d_string)
  have "strtoip_scan ?m (length pre) (length pre) i ip = strtoip_scan ?m (length pre) ?t i ip"
    using d assms(1) by (intro scan_skip) auto
  also have "\<dots> = strtoip_scan ?m (Suc ?t) (Suc ?t) (Suc i) (push_bit 8 ip + of_nat n)"
    using t(1,2) s assms ip_field_print [OF assms(2)] by (subst strtoip_scan.simps) simp
  finally show ?thesis by simp
qed

lemma scan_last:
  assumes "n < 256"
  shows "strtoip_scan (pre @ print_d n @ 0 # post) (length pre) (length pre) 3 ip =
    (let ip = push_bit 8 ip + of_nat n in Some (if ip = 0 then - 1 else 0, Some ip, pre @ print_d n @ 0 # post))"
proof -
  have "string_at (pre @ print_d n @ 0 # post) (length pre) = Some (print_d n)" by (simp add: string_at_def print_d_string)
  then show ?thesis using ip_field_print [OF assms] by (subst strtoip_scan.simps) (simp add: Let_def)
qed

lemma scan_field_in:
  assumes "i < 3" and "n < 256" and "m = pre @ print_d n @ dot_char # post"
  shows "strtoip_scan m (length pre) (length pre) i ip =
    strtoip_scan m (length pre + length (print_d n) + 1) (length pre + length (print_d n) + 1) (Suc i) (push_bit 8 ip + of_nat n)"
  unfolding assms(3) by (rule scan_field [OF assms(1,2)])

lemma byte_step: "push_bit 8 (drop_bit 8 w) + of_nat (unat (w AND 0xFF)) = (w :: u32)"
proof -
  have "w AND 0xFF = take_bit 8 w" by (simp add: take_bit_eq_mask mask_literals)
  then show ?thesis using bits_ident [of 8 w] by simp
qed

text \<open>
  C21.  Internet addresses survive printing and reading: for every address \<^verbatim>\<open>ip\<close>, \<^verbatim>\<open>strtoip\<close> on the string \<^verbatim>\<open>iptostr\<close>
  produces (whatever follows its terminator in memory) terminates inside that memory, stores \<^verbatim>\<open>ip\<close> and leaves the
  string as it was; the status is 0, except for the address \<^verbatim>\<open>0.0.0.0\<close>, which is stored but reported as an
  error.
\<close>

theorem ip_roundtrip:
  "strtoip (iptostr ip @ 0 # rest) = Some (if ip = 0 then - 1 else 0, Some ip, iptostr ip @ 0 # rest)"
proof -
  define f where "f k = unat (drop_bit k ip AND 0xFF)" for k
  have f: "f k < 256" for k using unat_and_8 [of "drop_bit k ip"] by (simp add: f_def)
  define a b c where "a = print_d (f 24) @ [dot_char]" and "b = a @ print_d (f 16) @ [dot_char]"
    and "c = b @ print_d (f 8) @ [dot_char]"
  let ?m = "iptostr ip @ 0 # rest"
  have m: "?m = [] @ print_d (f 24) @ dot_char # (print_d (f 16) @ dot_char # print_d (f 8) @ dot_char # print_d (f 0) @ 0 # rest)"
    "?m = a @ print_d (f 16) @ dot_char # (print_d (f 8) @ dot_char # print_d (f 0) @ 0 # rest)"
    "?m = b @ print_d (f 8) @ dot_char # (print_d (f 0) @ 0 # rest)" "?m = c @ print_d (f 0) @ 0 # rest"
    by (simp_all add: iptostr_def f_def a_def b_def c_def)
  have acc: "push_bit 8 (drop_bit (8 + k) ip) + of_nat (f k) = drop_bit k ip" for k
    using byte_step [of "drop_bit k ip"] by (simp add: f_def drop_bit_drop_bit add.commute)
  have top: "drop_bit 32 ip = 0" by (rule bit_eqI) (auto simp: bit_simps dest: bit_imp_le_length)
  have "strtoip ?m = strtoip_scan ?m (length a) (length a) 1 (drop_bit 24 ip)"
    using scan_field_in [OF _ f m(1), of 0 0] acc [of 24] top by (simp add: strtoip_def a_def)
  also have "\<dots> = strtoip_scan ?m (length b) (length b) 2 (drop_bit 16 ip)"
    using scan_field_in [OF _ f m(2), of 1] acc [of 16] by (simp add: b_def numeral_2_eq_2)
  also have "\<dots> = strtoip_scan ?m (length c) (length c) 3 (drop_bit 8 ip)"
    using scan_field_in [OF _ f m(3), of 2] acc [of 8] by (simp add: c_def numeral_3_eq_3)
  also have "\<dots> = Some (if ip = 0 then - 1 else 0, Some ip, ?m)"
    using scan_last [OF f, of c 0 rest "drop_bit 8 ip", folded m(4)] acc [of 0] by (simp add: Let_def)
  finally show ?thesis .
qed

section \<open>Hexadecimal\<close>

lemma hex_digits_agree: "hex_to_digit (uint c) = atohex c"
  by (auto simp: hex_to_digit_def atohex_def word_le_def)

lemma atohex_range: "atohex c < 16"
  by (auto simp: atohex_def word_le_def)

lemma shift_in:
  assumes "0 \<le> n" and "n < 16"
  shows "push_bit 4 d + of_int n = (ucast (of_int n :: u8) OR push_bit 4 d :: u32)"
proof -
  define m where "m = nat n"
  have n: "n = int m" and m: "m < 2 ^ 4" using assms by (simp_all add: m_def)
  have s: "(ucast (of_int n :: u8) :: u32) = of_nat m"
    using m by (simp add: n unsigned_of_nat take_bit_nat_eq_self)
  have "(of_nat m :: u32) = take_bit 4 (of_nat m)" using m by (simp add: take_bit_of_nat take_bit_nat_eq_self)
  then have "(of_nat m :: u32) AND push_bit 4 d = 0"
    by (intro bit_eqI) (metis bit_and_iff bit_push_bit_iff bit_take_bit_iff bit_0_eq bot_apply bot_bool_def linorder_not_le)
  then show ?thesis using s unfolding n of_int_of_nat_eq by (simp add: disjunctive_add_eq_or add.commute [of "push_bit 4 d"])
qed

lemma hexstr_agrees:
  assumes "i + length bs \<le> 8"
  shows "strtohex_loop n i d bs =
    (case hexstr_loop d bs of (r, d') \<Rightarrow> if r < 0 then None else Some (if bs = [] then n else atohex (last bs), d'))"
  using assms
proof (induction bs arbitrary: n i d)
  case (Cons b bs)
  show ?case
  proof (cases "atohex b < 0")
    case False
    then show ?thesis
      using Cons atohex_range [of b] shift_in [of "atohex b" d] by (auto simp: hex_digits_agree Let_def split: prod.splits)
  qed (simp add: hex_digits_agree Let_def)
qed simp

lemma hexstr_status: "fst (hexstr_loop d bs) = 0 \<or> fst (hexstr_loop d bs) = - 1"
  by (induction bs arbitrary: d) (simp_all add: Let_def)

lemma hexstr_last: "fst (hexstr_loop d bs) = 0 \<Longrightarrow> bs \<noteq> [] \<Longrightarrow> 0 \<le> atohex (last bs)"
  by (induction bs arbitrary: d) (auto simp: Let_def hex_digits_agree split: if_splits)

lemma strtohex_long: "8 < i + length bs \<Longrightarrow> i \<le> 8 \<Longrightarrow> strtohex_loop n i d bs = None"
  by (induction bs arbitrary: n i d) (auto simp: Let_def)

text \<open>
  The two hexadecimal readers agree: on every non-empty string \<^verbatim>\<open>hexstr_to_unit\<close> and \<^verbatim>\<open>strtohex\<close> return the same
  status, and the same number when they succeed (up to eight digits of either case, leading zeros included).
\<close>

lemma hex_readers_agree:
  assumes "str \<noteq> []"
  shows "fst (hexstr_to_unit str) = fst (strtohex str) \<and>
    (fst (strtohex str) = 0 \<longrightarrow> strtohex str = (0, Some (snd (hexstr_to_unit str))))"
proof (cases "length str \<le> 8")
  case True
  obtain r d where h: "hexstr_loop 0 str = (r, d)" by force
  have "r = 0 \<or> r = - 1" using hexstr_status [of 0 str] h by simp
  moreover have "r = 0 \<Longrightarrow> 0 \<le> atohex (last str)" using hexstr_last [of 0 str] h assms by simp
  ultimately show ?thesis
    using hexstr_agrees [of 0 str "- 1" 0] True assms h by (auto simp: hexstr_to_unit_def strtohex_def)
next
  case False
  then show ?thesis using strtohex_long [of 0 str "- 1" 0] by (simp add: hexstr_to_unit_def strtohex_def)
qed

lemma hex_readers_agree_witness:
  "hexstr_to_unit [0x31, 0x66] = (0, 0x1F) \<and> strtohex [0x31, 0x66] = (0, Some 0x1F)"
proof -
  have h: "hexstr_to_unit [0x31, 0x66] = (0, 0x1F)" by code_simp
  show ?thesis using hex_readers_agree [of "[0x31, 0x66]"] unfolding h by simp
qed

section \<open>Hardware addresses\<close>

lemma atohex_char: "d < 16 \<Longrightarrow> atohex (hex_char d) = int d"
proof -
  assume "d < 16"
  then have "d \<in> set [0..<16]" by simp
  moreover have "list_all (\<lambda>d. atohex (hex_char d) = int d) [0..<16]" by code_simp
  ultimately show ?thesis unfolding list_all_iff by blast
qed

lemma hex_pair:
  "push_bit 4 (of_int (int (unat b div 16))) AND 0xF0 OR (of_int (int (unat b mod 16)) AND 0x0F) = (b :: u8)"
proof -
  let ?P = "\<lambda>b :: u8. push_bit 4 (of_int (int (unat b div 16))) AND 0xF0 OR (of_int (int (unat b mod 16)) AND 0x0F) = b"
  have "list_all (\<lambda>k. ?P (of_nat k)) [0..<256]" by code_simp
  moreover have "unat b \<in> set [0..<256]" using unsigned_less [of b] by simp
  ultimately have "?P (of_nat (unat b))" unfolding list_all_iff by blast
  then show ?thesis by simp
qed

lemma read_pairs: "strtohexarray (length xs) (concat (map print_02x xs)) acc = (0, acc @ xs)"
proof (induction xs arbitrary: acc)
  case (Cons b xs)
  have "unat b div 16 < 16" using unsigned_less [where 'a = nat, of b] by (simp add: less_mult_imp_div_less)
  then show ?case using Cons [of "acc @ [b]"] hex_pair [of b] by (simp add: print_02x_def char_at_def atohex_char Let_def)
qed (simp add: char_at_def)

text \<open>
  Hardware addresses survive printing and reading: \<^verbatim>\<open>strtohexarray\<close> of six bytes on the string \<^verbatim>\<open>mactostr\<close>
  prints succeeds and stores the address.
\<close>

lemma mac_roundtrip:
  assumes "length mac = 6"
  shows "strtohexarray 6 (mactostr mac) [] = (0, mac)"
proof -
  have "map (\<lambda>i. print_02x (mac ! i)) [0..<6] = map print_02x mac"
    using assms by (intro nth_equalityI) simp_all
  then show ?thesis using read_pairs [of mac "[]"] assms by (simp add: mactostr_def)
qed

lemma mac_roundtrip_example: "strtohexarray 6 (mactostr [0x28, 0x6D, 0xCD, 1, 2, 0xFF]) [] = (0, [0x28, 0x6D, 0xCD, 1, 2, 0xFF])"
  by (rule mac_roundtrip) simp

section \<open>Readers that accept too much\<close>

lemma digits_scan:
  assumes "ds \<noteq> []" and "\<forall>c \<in> set ds. is_digit c" and "rest = [] \<or> \<not> is_digit (hd rest)" and "decimal_value ds < 2 ^ 32"
  shows "scan_u (ds @ rest) = Some (of_nat (decimal_value ds), rest)"
proof -
  obtain c cs where c: "ds = c # cs" using assms(1) by (cases ds) auto
  have d: "is_digit c" using assms(2) c by simp
  then have n: "\<not> is_space c" "c \<noteq> 0x2D" "c \<noteq> 0x2B" by (auto simp: is_digit_def is_space_def)
  have "takeWhile is_digit (ds @ rest) = ds" "dropWhile is_digit (ds @ rest) = rest"
    using assms(2,3) by (cases rest; simp add: takeWhile_append2 dropWhile_append2)+
  moreover have "dropWhile is_space (ds @ rest) = ds @ rest" using c n by simp
  moreover have "min (decimal_value ds) (2 ^ 32 - 1) = decimal_value ds" using assms(4) by simp
  ultimately show ?thesis using assms(1) n by (simp add: scan_u_def c Let_def)
qed

text \<open>
  \<^verbatim>\<open>string_to_ipaddr\<close> compares its fields as signed numbers: a field whose number lies between \<^verbatim>\<open>2^31\<close> and
  \<^verbatim>\<open>2^32 - 1\<close> is not rejected, its low byte becomes the byte of the address.
\<close>

lemma ipaddr_accepts_large:
  assumes "ds \<noteq> []" and "\<forall>c \<in> set ds. is_digit c" and "2 ^ 31 \<le> decimal_value ds" and "decimal_value ds < 2 ^ 32"
  shows "string_to_ipaddr (ds @ [dot_char, 0x30, dot_char, 0x30, dot_char, 0x31]) = (0, [of_nat (decimal_value ds), 0, 0, 1])"
proof -
  define rest :: "u8 list" where "rest = [dot_char, 0x30, dot_char, 0x30, dot_char, 0x31]"
  have s: "scan_u (ds @ rest) = Some (of_nat (decimal_value ds), rest)"
    using assms by (intro digits_scan) (auto simp: rest_def is_digit_def)
  have one: "scan_u (c # r) = Some (of_nat (unat c - 0x30), r)" if "is_digit c" "r = [] \<or> \<not> is_digit (hd r)" for c r
    using that unsigned_less [where 'a = nat, of c] digits_scan [of "[c]" r] by (simp add: decimal_value_def)
  have "scan_fields (Suc (Suc 0)) [0x30, dot_char, 0x31] = ([0, 1], Some [])" by (simp add: one is_digit_def)
  then have "scan_fields 2 [0x30, dot_char, 0x31] = ([0, 1], Some [])" by (simp only: numeral_2_eq_2)
  then have r: "scan_fields 3 [0x30, dot_char, 0x30, dot_char, 0x31] = ([0, 0, 1], Some [])"
    using scan_fields.simps(2) [of 2 "[0x30, dot_char, 0x30, dot_char, 0x31]"] by (simp add: one is_digit_def)
  have f: "scan_fields 4 (ds @ rest) = ([of_nat (decimal_value ds), 0, 0, 1], Some [])"
    using scan_fields.simps(2) [of 3 "ds @ rest"] s r by (simp add: rest_def)
  have "decimal_value ds div 2 ^ 31 = 1" using assms(3,4) by (intro div_nat_eqI) simp_all
  then have "bit (decimal_value ds) 31" by (simp add: bit_iff_odd)
  then have "bit (int (decimal_value ds)) 31" by (simp only: bit_of_nat_iff_bit)
  then have "sint (of_nat (decimal_value ds) :: u32) < 0" by (simp add: signed_of_nat signed_take_bit_negative_iff)
  then show ?thesis using f assms(4) by (simp add: string_to_ipaddr_def rest_def unsigned_of_nat take_bit_nat_eq_self)
qed

lemma ipaddr_accepts_large_witness:
  "string_to_ipaddr ([0x33, 0x32, 0x33, 0x32, 0x32, 0x33, 0x35, 0x37, 0x37, 0x37] @ [dot_char, 0x30, dot_char, 0x30, dot_char, 0x31]) =
     (0, [1, 0, 0, 1])"
  using ipaddr_accepts_large [of "[0x33, 0x32, 0x33, 0x32, 0x32, 0x33, 0x35, 0x37, 0x37, 0x37]"]
  by (simp add: is_digit_def decimal_value_def)

text \<open>\<^verbatim>\<open>strcasecmp\<close> only compares the common prefix: a string equals each of its prefixes.\<close>

lemma strcasecmp_prefix: "strcasecmp s (s @ t) = 0"
  by (induction s) simp_all

lemma strcasecmp_iff: "strcasecmp s t = 0 \<longleftrightarrow> (\<forall>i < min (length s) (length t). fold_case (s ! i) = fold_case (t ! i))"
  by (induction s t rule: strcasecmp.induct) (auto simp: less_Suc_eq_0_disj All_less_Suc2)

text \<open>\<^verbatim>\<open>string_to_uint\<close> reports success for numbers up to eleven digits but stores at most \<^verbatim>\<open>2^31 - 1\<close>.\<close>

lemma string_to_uint_saturates:
  assumes "length ds \<le> 11" and "ds \<noteq> []" and "\<forall>c \<in> set ds. is_digit c" and "2 ^ 31 \<le> decimal_value ds"
  shows "string_to_uint ds = (0, Some (2 ^ 31 - 1))"
  using assms by (auto simp: string_to_uint_def atoi_digits_def min_def)

end
