(* ===== verification/Timers.thy ===== *)
theory Timers
  imports Prelude
begin

text \<open>
  Software timers and mailboxes of the task layer: \<^verbatim>\<open>platform/common/task/wm_wl_timers.c\<close> and
  \<^verbatim>\<open>platform/common/task/wm_wl_mbox.c\<close>.

  A timer list is the list of its \<^verbatim>\<open>struct tls_timeo\<close> nodes from the head on; each node holds the time after
  its predecessor.  Handlers and their arguments are numbers (addresses), 0 the null pointer.  The message
  queue and the tick counter of the operating system are the parameters \<open>receive\<close>, \<open>send\<close> and \<open>now\<close> over an
  environment \<open>'e\<close>; what a handler does is the parameter \<open>call\<close>.
\<close>

record timeo =
  timeo_time :: u32
  timeo_h :: nat
  timeo_arg :: nat

section \<open>The timer list\<close>

text \<open>The loop of \<^verbatim>\<open>tls_timeout_p\<close>: the new node goes behind \<open>t\<close> or further down.\<close>

fun timeout_loop :: "timeo \<Rightarrow> timeo \<Rightarrow> timeo list \<Rightarrow> timeo list" where
  "timeout_loop timeout t [] = [t, timeout\<lparr>timeo_time := timeo_time timeout - timeo_time t\<rparr>]"
| "timeout_loop timeout t (n # ns) =
     (let timeout = timeout\<lparr>timeo_time := timeo_time timeout - timeo_time t\<rparr>
      in if timeo_time n > timeo_time timeout
         then t # timeout # n\<lparr>timeo_time := timeo_time n - timeo_time timeout\<rparr> # ns
         else t # timeout_loop timeout n ns)"

text \<open>\<open>mem\<close>: the node can be allocated.\<close>

definition timeout_list :: "bool \<Rightarrow> u32 \<Rightarrow> nat \<Rightarrow> nat \<Rightarrow> timeo list \<Rightarrow> timeo list" where
  "timeout_list mem msecs handler arg l =
     (let timeout = \<lparr>timeo_time = msecs, timeo_h = handler, timeo_arg = arg\<rparr>
      in if \<not> mem then l
         else (case l of
                 [] \<Rightarrow> [timeout]
               | t # ts \<Rightarrow> if timeo_time t > msecs then timeout # t\<lparr>timeo_time := timeo_time t - msecs\<rparr> # ts
                           else timeout_loop timeout t ts))"

fun untimeout_list :: "nat \<Rightarrow> nat \<Rightarrow> timeo list \<Rightarrow> timeo list" where
  "untimeout_list handler arg [] = []"
| "untimeout_list handler arg (t # ts) =
     (if timeo_h t = handler \<and> timeo_arg t = arg then
        (case ts of [] \<Rightarrow> [] | n # ns \<Rightarrow> n\<lparr>timeo_time := timeo_time n + timeo_time t\<rparr> # ns)
      else t # untimeout_list handler arg ts)"

section \<open>The table of lists\<close>

abbreviation TLS_TIMEO_ALL_COUONT :: nat where "TLS_TIMEO_ALL_COUONT \<equiv> 9"

record 'e tstate =
  next_timeout :: "nat \<Rightarrow> timeo list"
  env :: 'e

definition tls_timeout_p :: "bool \<Rightarrow> nat \<Rightarrow> u32 \<Rightarrow> nat \<Rightarrow> nat \<Rightarrow> 'e tstate \<Rightarrow> 'e tstate" where
  "tls_timeout_p mem timeo_assigned msecs handler arg s =
     s\<lparr>next_timeout := (next_timeout s)(timeo_assigned := timeout_list mem msecs handler arg (next_timeout s timeo_assigned))\<rparr>"

definition tls_untimeout_p :: "nat \<Rightarrow> nat \<Rightarrow> nat \<Rightarrow> 'e tstate \<Rightarrow> 'e tstate" where
  "tls_untimeout_p timeo_assigned handler arg s =
     s\<lparr>next_timeout := (next_timeout s)(timeo_assigned := untimeout_list handler arg (next_timeout s timeo_assigned))\<rparr>"

definition tls_wl_timer_init :: "'e tstate \<Rightarrow> 'e tstate" where
  "tls_wl_timer_init s = s\<lparr>next_timeout := (\<lambda>i. if i < TLS_TIMEO_ALL_COUONT then [] else next_timeout s i)\<rparr>"

section \<open>Mailboxes\<close>

abbreviation SYS_ARCH_TIMEOUT :: u32 where "SYS_ARCH_TIMEOUT \<equiv> 0xFFFFFFFF"
abbreviation TLS_OS_SUCCESS :: int where "TLS_OS_SUCCESS \<equiv> 0"
abbreviation TLS_OS_ERROR :: int where "TLS_OS_ERROR \<equiv> 1"

text \<open>\<open>create n\<close>: the queue of \<open>n\<close> entries is created; \<open>None\<close> is a null mailbox.\<close>

definition tls_mbox_new :: "(int \<Rightarrow> 'q option) \<Rightarrow> int \<Rightarrow> int \<times> 'q option" where
  "tls_mbox_new create sz =
     (let sz = (if sz = 0 then 10 else sz)
      in case create sz of Some q \<Rightarrow> (TLS_OS_SUCCESS, Some q) | None \<Rightarrow> (TLS_OS_ERROR, None))"

definition tls_mbox_valid :: "'q option \<Rightarrow> int" where
  "tls_mbox_valid mbox = (if mbox = None then 0 else 1)"

text \<open>\<open>send m e\<close> is one attempt of \<^verbatim>\<open>tls_os_queue_send\<close>, \<open>delay\<close> a pause of five ticks.\<close>

fun mbox_tries :: "('m \<Rightarrow> 'e \<Rightarrow> int \<times> 'e) \<Rightarrow> ('e \<Rightarrow> 'e) \<Rightarrow> nat \<Rightarrow> 'm \<Rightarrow> 'e \<Rightarrow> 'e" where
  "mbox_tries send delay 0 msg e = e"
| "mbox_tries send delay (Suc n) msg e =
     (case send msg e of
        (err, e) \<Rightarrow> if err = TLS_OS_SUCCESS then e else mbox_tries send delay n msg (delay e))"

definition tls_mbox_post :: "('m \<Rightarrow> 'e \<Rightarrow> int \<times> 'e) \<Rightarrow> ('e \<Rightarrow> 'e) \<Rightarrow> 'm \<Rightarrow> 'e \<Rightarrow> 'e" where
  "tls_mbox_post send delay msg e = mbox_tries send delay 10 msg e"

definition tls_mbox_trypost :: "('m \<Rightarrow> 'e \<Rightarrow> int \<times> 'e) \<Rightarrow> 'm \<Rightarrow> 'e \<Rightarrow> int \<times> 'e" where
  "tls_mbox_trypost send msg e =
     (case send msg e of (err, e) \<Rightarrow> (if err = TLS_OS_SUCCESS then TLS_OS_SUCCESS else TLS_OS_ERROR, e))"

text \<open>
  \<^verbatim>\<open>tls_arch_mbox_fetch\<close>: \<open>receive w e\<close> waits at most \<open>w\<close> ticks (0: without limit) for a message, \<open>now e\<close> is the
  tick counter and \<open>hz\<close> the tick rate \<^verbatim>\<open>HZ\<close>.
\<close>

definition wait_ticks :: "u32 \<Rightarrow> u32 \<Rightarrow> u32" where
  "wait_ticks hz timeout =
     (let in_timeout = timeout * hz div 1000 in if timeout \<noteq> 0 \<and> in_timeout = 0 then 1 else in_timeout)"

definition elapsed_ticks :: "u32 \<Rightarrow> u32 \<Rightarrow> u32" where
  "elapsed_ticks tick_start tick_stop =
     (if tick_stop \<ge> tick_start then tick_stop - tick_start else 0xFFFFFFFF - tick_start + tick_stop)"

definition tls_arch_mbox_fetch ::
  "(u32 \<Rightarrow> 'e \<Rightarrow> 'm option \<times> 'e) \<Rightarrow> ('e \<Rightarrow> u32) \<Rightarrow> u32 \<Rightarrow> u32 \<Rightarrow> 'e \<Rightarrow> u32 \<times> 'm option \<times> 'e" where
  "tls_arch_mbox_fetch receive now hz timeout e =
     (case receive (wait_ticks hz timeout) e of
        (None, e') \<Rightarrow> (SYS_ARCH_TIMEOUT, None, e')
      | (Some m, e') \<Rightarrow> (elapsed_ticks (now e) (now e') * 1000 div hz, Some m, e'))"

section \<open>Waiting for a message\<close>

text \<open>
  \<^verbatim>\<open>tls_timeouts_mbox_fetch_p\<close>, with \<open>fetch w\<close> for \<^verbatim>\<open>tls_arch_mbox_fetch\<close> on the mailbox.  Handlers may add
  and remove timers, so the loop may go on for ever: then the value is \<open>None\<close>.
\<close>

definition pop_timeo :: "nat \<Rightarrow> timeo list \<Rightarrow> 'e tstate \<Rightarrow> 'e tstate" where
  "pop_timeo timeo_assigned ts s = s\<lparr>next_timeout := (next_timeout s)(timeo_assigned := ts)\<rparr>"

definition expire_head :: "(nat \<Rightarrow> nat \<Rightarrow> 'e tstate \<Rightarrow> 'e tstate) \<Rightarrow> nat \<Rightarrow> timeo \<Rightarrow> timeo list \<Rightarrow> 'e tstate \<Rightarrow> 'e tstate" where
  "expire_head call timeo_assigned t ts s =
     (let s = pop_timeo timeo_assigned ts s
      in if timeo_h t \<noteq> 0 then call (timeo_h t) (timeo_arg t) s else s)"

definition charge_head :: "u32 \<Rightarrow> timeo \<Rightarrow> timeo" where
  "charge_head time_needed t =
     t\<lparr>timeo_time := (if time_needed < timeo_time t then timeo_time t - time_needed else 0)\<rparr>"

partial_function (option) tls_timeouts_mbox_fetch_p ::
  "(u32 \<Rightarrow> 'e \<Rightarrow> u32 \<times> 'm option \<times> 'e) \<Rightarrow> (nat \<Rightarrow> nat \<Rightarrow> 'e tstate \<Rightarrow> 'e tstate) \<Rightarrow> nat \<Rightarrow> 'e tstate \<Rightarrow>
   ('m option \<times> 'e tstate) option" where
  "tls_timeouts_mbox_fetch_p fetch call timeo_assigned s =
     (case next_timeout s timeo_assigned of
        [] \<Rightarrow> (case fetch 0 (env s) of (_, msg, e) \<Rightarrow> Some (msg, s\<lparr>env := e\<rparr>))
      | t # ts \<Rightarrow>
          (case (if timeo_time t > 0 then fetch (timeo_time t) (env s) else (SYS_ARCH_TIMEOUT, None, env s)) of
             (time_needed, msg, e) \<Rightarrow>
               if time_needed = SYS_ARCH_TIMEOUT
               then tls_timeouts_mbox_fetch_p fetch call timeo_assigned
                      (expire_head call timeo_assigned t ts (s\<lparr>env := e\<rparr>))
               else Some (msg, pop_timeo timeo_assigned (charge_head time_needed t # ts) (s\<lparr>env := e\<rparr>))))"

end
