(* ===== verification/Task.thy ===== *)
theory Task
  imports Timers
begin

text \<open>
  The task layer \<^verbatim>\<open>platform/common/task/wm_wl_task.c\<close>: messages, the operations that post them, and the
  dispatch of the task thread.

  A message on the heap is its value, a message of the static table \<^verbatim>\<open>wl_msg\<close> is its index, because the
  thread reads the entry when it takes the pointer out of the mailbox.  The mailbox lives in the environment
  \<open>env\<close> of the timer state; \<open>valid\<close> says whether it exists.
\<close>

datatype task_msg =
    TASK_MSG_TIMEOUT u32 nat nat
  | TASK_MSG_UNTIMEOUT nat nat
  | TASK_MSG_CALLBACK nat nat
  | TASK_MSG_CALLBACK_STATIC nat

record cbs =
  cbs_function :: nat
  cbs_ctx :: nat
  cbs_cnt :: u8

record 'e wstate = "'e tstate" +
  wl_msg :: "nat \<Rightarrow> cbs"

type_synonym 'e sender = "task_msg \<Rightarrow> 'e \<Rightarrow> int \<times> 'e"

section \<open>Posting\<close>

definition post_env :: "'e sender \<Rightarrow> ('e \<Rightarrow> 'e) \<Rightarrow> task_msg \<Rightarrow> 'e wstate \<Rightarrow> 'e wstate" where
  "post_env send delay m s = s\<lparr>env := tls_mbox_post send delay m (env s)\<rparr>"

definition set_msg :: "nat \<Rightarrow> nat \<Rightarrow> nat \<Rightarrow> 'e wstate \<Rightarrow> 'e wstate" where
  "set_msg msg_id function ctx s =
     s\<lparr>wl_msg := (wl_msg s)(msg_id := (wl_msg s msg_id)\<lparr>cbs_function := function, cbs_ctx := ctx\<rparr>)\<rparr>"

definition add_cnt :: "nat \<Rightarrow> u8 \<Rightarrow> 'e wstate \<Rightarrow> 'e wstate" where
  "add_cnt msg_id k s = s\<lparr>wl_msg := (wl_msg s)(msg_id := (wl_msg s msg_id)\<lparr>cbs_cnt := cbs_cnt (wl_msg s msg_id) + k\<rparr>)\<rparr>"

definition tls_wl_task_callback_static ::
  "'e sender \<Rightarrow> ('e \<Rightarrow> 'e) \<Rightarrow> bool \<Rightarrow> nat \<Rightarrow> nat \<Rightarrow> bool \<Rightarrow> nat \<Rightarrow> 'e wstate \<Rightarrow> int \<times> 'e wstate" where
  "tls_wl_task_callback_static send delay valid function ctx block msg_id s =
     (if cbs_cnt (wl_msg s msg_id) > 0 then (TLS_OS_ERROR, s)
      else if valid then
        (let s = set_msg msg_id function ctx s
         in if block then (TLS_OS_SUCCESS, add_cnt msg_id 1 (post_env send delay (TASK_MSG_CALLBACK_STATIC msg_id) s))
            else (case tls_mbox_trypost send (TASK_MSG_CALLBACK_STATIC msg_id) (env s) of
                    (err, e) \<Rightarrow> if err \<noteq> TLS_OS_SUCCESS then (TLS_OS_ERROR, s\<lparr>env := e\<rparr>)
                                else (TLS_OS_SUCCESS, add_cnt msg_id 1 (s\<lparr>env := e\<rparr>))))
      else (TLS_OS_ERROR, s))"

text \<open>\<open>mem\<close>: the message can be allocated.\<close>

definition tls_wl_task_callback ::
  "'e sender \<Rightarrow> ('e \<Rightarrow> 'e) \<Rightarrow> bool \<Rightarrow> bool \<Rightarrow> nat \<Rightarrow> nat \<Rightarrow> bool \<Rightarrow> 'e wstate \<Rightarrow> int \<times> 'e wstate" where
  "tls_wl_task_callback send delay valid mem function ctx block s =
     (if valid then
        if \<not> mem then (TLS_OS_ERROR, s)
        else if block then (TLS_OS_SUCCESS, post_env send delay (TASK_MSG_CALLBACK function ctx) s)
        else (case tls_mbox_trypost send (TASK_MSG_CALLBACK function ctx) (env s) of
                (err, e) \<Rightarrow> (if err \<noteq> TLS_OS_SUCCESS then TLS_OS_ERROR else TLS_OS_SUCCESS, s\<lparr>env := e\<rparr>))
      else (TLS_OS_ERROR, s))"

definition tls_wl_task_add_timeout ::
  "'e sender \<Rightarrow> ('e \<Rightarrow> 'e) \<Rightarrow> bool \<Rightarrow> bool \<Rightarrow> u32 \<Rightarrow> nat \<Rightarrow> nat \<Rightarrow> 'e wstate \<Rightarrow> int \<times> 'e wstate" where
  "tls_wl_task_add_timeout send delay valid mem msecs h arg s =
     (if valid then
        if \<not> mem then (TLS_OS_ERROR, s) else (TLS_OS_SUCCESS, post_env send delay (TASK_MSG_TIMEOUT msecs h arg) s)
      else (TLS_OS_ERROR, s))"

definition tls_wl_task_untimeout ::
  "'e sender \<Rightarrow> ('e \<Rightarrow> 'e) \<Rightarrow> bool \<Rightarrow> bool \<Rightarrow> nat \<Rightarrow> nat \<Rightarrow> 'e wstate \<Rightarrow> int \<times> 'e wstate" where
  "tls_wl_task_untimeout send delay valid mem h arg s =
     (if valid then
        if \<not> mem then (TLS_OS_ERROR, s) else (TLS_OS_SUCCESS, post_env send delay (TASK_MSG_UNTIMEOUT h arg) s)
      else (TLS_OS_ERROR, s))"

text \<open>\<^verbatim>\<open>tls_wl_task_run\<close>: the mailbox is created, then the thread is started.\<close>

definition tls_wl_task_run :: "(int \<Rightarrow> 'q option) \<Rightarrow> int \<Rightarrow> int \<times> 'q option" where
  "tls_wl_task_run create mbox_size =
     (case tls_mbox_new create mbox_size of (err, mbox) \<Rightarrow> if err \<noteq> TLS_OS_SUCCESS then (- 1, None) else (0, mbox))"

text \<open>\<^verbatim>\<open>tls_wl_task_init\<close> clears \<^verbatim>\<open>sizeof(struct task_msg)\<close> bytes: the first entry of the table only.\<close>

definition tls_wl_task_init :: "'e wstate \<Rightarrow> 'e wstate" where
  "tls_wl_task_init s = s\<lparr>wl_msg := (wl_msg s)(0 := \<lparr>cbs_function = 0, cbs_ctx = 0, cbs_cnt = 0\<rparr>)\<rparr>"

section \<open>The task thread\<close>

text \<open>What one pass of \<^verbatim>\<open>task_thread\<close> does with the message it fetched; \<open>call\<close> runs a callback.\<close>

definition timer_part :: "('e tstate \<Rightarrow> 'e tstate) \<Rightarrow> 'e wstate \<Rightarrow> 'e wstate" where
  "timer_part f s =
     (let t = f \<lparr>next_timeout = next_timeout s, env = env s\<rparr> in s\<lparr>next_timeout := next_timeout t, env := env t\<rparr>)"

definition task_dispatch ::
  "(nat \<Rightarrow> nat \<Rightarrow> 'e wstate \<Rightarrow> 'e wstate) \<Rightarrow> bool \<Rightarrow> nat \<Rightarrow> task_msg \<Rightarrow> 'e wstate \<Rightarrow> 'e wstate" where
  "task_dispatch call mem timeo_id m s =
     (case m of
        TASK_MSG_CALLBACK f ctx \<Rightarrow> call f ctx s
      | TASK_MSG_CALLBACK_STATIC msg_id \<Rightarrow>
          (let fn = cbs_function (wl_msg s msg_id); argu = cbs_ctx (wl_msg s msg_id)
           in call fn argu (add_cnt msg_id (- 1) s))
      | TASK_MSG_TIMEOUT msecs h arg \<Rightarrow> timer_part (tls_timeout_p mem timeo_id msecs h arg) s
      | TASK_MSG_UNTIMEOUT h arg \<Rightarrow> timer_part (tls_untimeout_p timeo_id h arg) s)"

end
