(* ===== verification/Timers_Correct.thy ===== *)
theory Timers_Correct
  imports Timers
begin

text \<open>
  The timer list implements a queue of deadlines: \<open>deadlines\<close> turns the relative times of the nodes into
  absolute ones, and adding, removing and waiting are insertion, deletion and a shift of that queue.
\<close>

section \<open>Deadlines\<close>

type_synonym deadline = "nat \<times> nat \<times> nat"

primrec deadlines :: "nat \<Rightarrow> timeo list \<Rightarrow> deadline list" where
  "deadlines base [] = []"
| "deadlines base (t # ts) = (base + unat (timeo_time t), timeo_h t, timeo_arg t) # deadlines (base + unat (timeo_time t)) ts"

text \<open>The specification: behind every deadline that is not later, in front of the later ones.\<close>

definition insert_deadline :: "deadline \<Rightarrow> deadline list \<Rightarrow> deadline list" where
  "insert_deadline d q = takeWhile (\<lambda>x. fst x \<le> fst d) q @ d # dropWhile (\<lambda>x. fst x \<le> fst d) q"

fun remove_deadline :: "nat \<Rightarrow> nat \<Rightarrow> deadline list \<Rightarrow> deadline list" where
  "remove_deadline hf ar [] = []"
| "remove_deadline hf ar ((t, h, a) # q) = (if h = hf \<and> a = ar then q else (t, h, a) # remove_deadline hf ar q)"

definition timers_ok :: "timeo list \<Rightarrow> bool" where
  "timers_ok l \<longleftrightarrow> sum_list (map (unat \<circ> timeo_time) l) < 2 ^ 32"

lemma deadlines_lower: "d \<in> set (deadlines base l) \<Longrightarrow> base \<le> fst d"
  by (induction l arbitrary: base) fastforce+

lemma deadlines_sorted: "sorted (map fst (deadlines base l))"
  by (induction l arbitrary: base) (auto dest: deadlines_lower)

lemma unat_minus: "b \<le> a \<Longrightarrow> unat (a - b :: u32) = unat a - unat b"
  by (simp add: unat_sub)

lemma insert_behind: "fst x \<le> fst d \<Longrightarrow> insert_deadline d (x # q) = x # insert_deadline d q"
  by (simp add: insert_deadline_def)

lemma insert_front: "(\<And>x. x \<in> set q \<Longrightarrow> fst d < fst x) \<Longrightarrow> insert_deadline d q = d # q"
  by (cases q) (fastforce simp: insert_deadline_def)+

lemma loop_deadlines:
  assumes "timeo_time t \<le> timeo_time new"
  shows "deadlines b (timeout_loop new t ts) =
    insert_deadline (b + unat (timeo_time new), timeo_h new, timeo_arg new) (deadlines b (t # ts))"
  using assms
proof (induction new t ts arbitrary: b rule: timeout_loop.induct)
  case (1 new t)
  then show ?case by (simp add: insert_deadline_def unat_minus word_le_nat_alt)
next
  case (2 new t n ns)
  let ?r = "timeo_time new - timeo_time t"
  have r: "unat ?r = unat (timeo_time new) - unat (timeo_time t)" "unat (timeo_time t) \<le> unat (timeo_time new)"
    using "2.prems" by (simp_all add: unat_minus word_le_nat_alt)
  show ?case
  proof (cases "timeo_time n > ?r")
    case True
    then have n: "unat (timeo_time n - ?r) = unat (timeo_time n) - unat ?r" "unat ?r < unat (timeo_time n)"
      using unat_minus [OF less_imp_le [OF True]] by (simp_all add: word_less_nat_alt)
    have "insert_deadline (b + unat (timeo_time new), timeo_h new, timeo_arg new) (deadlines (b + unat (timeo_time t)) (n # ns)) =
        (b + unat (timeo_time new), timeo_h new, timeo_arg new) # deadlines (b + unat (timeo_time t)) (n # ns)"
      using n(2) r by (intro insert_front) (auto dest: deadlines_lower)
    then show ?thesis using True n r by (simp add: insert_behind add.assoc add.commute [of "unat (timeo_time n)"])
  next
    case False
    then show ?thesis
      using 2(1) [OF refl, of "b + unat (timeo_time t)"] r by (auto simp: insert_behind not_less Let_def dest: leD)
  qed
qed

lemma timeout_deadlines:
  "deadlines b (timeout_list True msecs h a l) = insert_deadline (b + unat msecs, h, a) (deadlines b l)"
proof (cases l)
  case Nil
  then show ?thesis by (simp add: timeout_list_def insert_deadline_def)
next
  case (Cons t ts)
  show ?thesis
  proof (cases "timeo_time t > msecs")
    case True
    then have n: "unat (timeo_time t - msecs) = unat (timeo_time t) - unat msecs" "unat msecs < unat (timeo_time t)"
      using unat_minus [OF less_imp_le [OF True]] by (simp_all add: word_less_nat_alt)
    have "insert_deadline (b + unat msecs, h, a) (deadlines b l) = (b + unat msecs, h, a) # deadlines b l"
      using n(2) Cons by (intro insert_front) (auto dest: deadlines_lower)
    then show ?thesis using True n Cons by (simp add: timeout_list_def)
  next
    case False
    then show ?thesis
      using loop_deadlines [of t "\<lparr>timeo_time = msecs, timeo_h = h, timeo_arg = a\<rparr>" b ts] Cons
      by (auto simp: timeout_list_def not_less Let_def dest: leD)
  qed
qed

section \<open>Sums\<close>

lemma timers_ok_last: "timers_ok l \<longleftrightarrow> (\<forall>d \<in> set (deadlines 0 l). fst d < 2 ^ 32)"
proof -
  have "b + sum_list (map (unat \<circ> timeo_time) l) < 2 ^ 32 \<longleftrightarrow> b < 2 ^ 32 \<and> (\<forall>d \<in> set (deadlines b l). fst d < 2 ^ 32)" for b
  proof (induction l arbitrary: b)
    case (Cons t ts)
    show ?case using Cons [of "b + unat (timeo_time t)"] by (auto simp: add.assoc)
  qed simp
  from this [of 0] show ?thesis by (simp add: timers_ok_def)
qed

lemma set_insert_deadline: "set (insert_deadline d q) = insert d (set q)"
  unfolding insert_deadline_def by (auto dest: set_takeWhileD set_dropWhileD) (metis Un_iff set_append takeWhile_dropWhile_id)

lemma untimeout_deadlines:
  assumes "b + sum_list (map (unat \<circ> timeo_time) l) < 2 ^ 32"
  shows "deadlines b (untimeout_list h a l) = remove_deadline h a (deadlines b l)"
  using assms
proof (induction l arbitrary: b)
  case (Cons t ts)
  show ?case
  proof (cases "timeo_h t = h \<and> timeo_arg t = a")
    case True
    show ?thesis
    proof (cases ts)
      case Nil
      then show ?thesis using True by simp
    next
      case c: (Cons n ns)
      have "unat (timeo_time n + timeo_time t) = unat (timeo_time n) + unat (timeo_time t)"
        using Cons.prems c by (intro unat_add_lem [THEN iffD1]) simp
      then show ?thesis using True c by (simp add: add.assoc add.commute add.left_commute)
    qed
  next
    case False
    then show ?thesis using Cons by (auto simp: add.assoc)
  qed
qed simp

section \<open>Properties\<close>

text \<open>
  C25.  \<^verbatim>\<open>tls_timeout_p\<close> refines insertion into a queue of deadlines: on the absolute times, the new timer is
  placed at its own deadline, behind every timer that is due no later and before every later one, and no
  other deadline moves, although the stored differences of two nodes change.  The sum of the differences
  stays below \<^verbatim>\<open>2^32\<close>, so they never wrap.  Other lists are untouched.
\<close>

theorem timeout_refines_insert:
  assumes "timers_ok (next_timeout s i)" and "s' = tls_timeout_p True i msecs h a s"
  shows "deadlines 0 (next_timeout s' i) = insert_deadline (unat msecs, h, a) (deadlines 0 (next_timeout s i)) \<and>
    timers_ok (next_timeout s' i) \<and> sorted (map fst (deadlines 0 (next_timeout s' i))) \<and>
    (\<forall>j. j \<noteq> i \<longrightarrow> next_timeout s' j = next_timeout s j)"
proof -
  have d: "deadlines 0 (next_timeout s' i) = insert_deadline (unat msecs, h, a) (deadlines 0 (next_timeout s i))"
    using timeout_deadlines [of 0 msecs h a] by (simp add: assms(2) tls_timeout_p_def)
  then have "timers_ok (next_timeout s' i)"
    using assms(1) unsigned_less [where 'a = nat, of msecs] unfolding timers_ok_last d set_insert_deadline by simp
  moreover have "sorted (map fst (deadlines 0 (next_timeout s' i)))" by (rule deadlines_sorted)
  ultimately show ?thesis using d by (simp add: assms(2) tls_timeout_p_def)
qed

definition demo_timers :: "unit tstate" where
  "demo_timers = \<lparr>next_timeout = (\<lambda>i. if i = 1 then [\<lparr>timeo_time = 10, timeo_h = 1, timeo_arg = 0\<rparr>,
     \<lparr>timeo_time = 20, timeo_h = 2, timeo_arg = 0\<rparr>] else []), env = ()\<rparr>"

theorem timeout_refines_insert_witness:
  "deadlines 0 (next_timeout (tls_timeout_p True 1 25 3 0 demo_timers) 1) = [(10, 1, 0), (25, 3, 0), (30, 2, 0)]"
  using timeout_refines_insert [of demo_timers 1 "tls_timeout_p True 1 25 3 0 demo_timers" 25 3 0]
  by (simp add: demo_timers_def timers_ok_def insert_deadline_def)

text \<open>
  C26.  \<^verbatim>\<open>tls_untimeout_p\<close> refines deletion: exactly the first timer with the handler and argument disappears, and
  every other timer keeps its deadline, the one behind it included.
\<close>

theorem untimeout_refines_remove:
  assumes "timers_ok (next_timeout s i)" and "s' = tls_untimeout_p i h a s"
  shows "deadlines 0 (next_timeout s' i) = remove_deadline h a (deadlines 0 (next_timeout s i)) \<and>
    timers_ok (next_timeout s' i) \<and> (\<forall>j. j \<noteq> i \<longrightarrow> next_timeout s' j = next_timeout s j)"
proof -
  have d: "deadlines 0 (next_timeout s' i) = remove_deadline h a (deadlines 0 (next_timeout s i))"
    using untimeout_deadlines [of 0 "next_timeout s i" h a] assms by (simp add: timers_ok_def tls_untimeout_p_def)
  have "set (remove_deadline h a q) \<subseteq> set q" for q by (induction h a q rule: remove_deadline.induct) auto
  then have "timers_ok (next_timeout s' i)" using assms(1) unfolding timers_ok_last d by blast
  then show ?thesis using d by (simp add: assms(2) tls_untimeout_p_def)
qed

theorem untimeout_refines_remove_witness:
  "deadlines 0 (next_timeout (tls_untimeout_p 1 1 0 demo_timers) 1) = [(30, 2, 0)]"
  using untimeout_refines_remove [of demo_timers 1 "tls_untimeout_p 1 1 0 demo_timers" 1 0]
  by (simp add: demo_timers_def timers_ok_def)

text \<open>A wait charges the time it took to every deadline, at most up to the first one.\<close>

lemma charge_deadlines:
  "deadlines 0 (charge_head w t # ts) = map (\<lambda>(d, x). (d - min (unat w) (unat (timeo_time t)), x)) (deadlines 0 (t # ts))"
proof -
  have shift: "k \<le> b \<Longrightarrow> deadlines (b - k) l = map (\<lambda>(d, x). (d - k, x)) (deadlines b l)" for b k l
  proof (induction l arbitrary: b)
    case (Cons u us)
    from Cons.IH [of "b + unat (timeo_time u)"] Cons.prems show ?case by simp
  qed simp
  have "unat (timeo_time (charge_head w t)) = unat (timeo_time t) - min (unat w) (unat (timeo_time t))"
    by (auto simp: charge_head_def unat_minus less_imp_le word_less_nat_alt min_def)
  then show ?thesis
    using shift [of "min (unat w) (unat (timeo_time t))" "unat (timeo_time t)" ts] by (simp add: charge_head_def)
qed

lemma unat_times: "unat a * unat b < 2 ^ 32 \<Longrightarrow> unat (a * b :: u32) = unat a * unat b"
  by (simp add: unat_word_ariths)

lemma elapsed_wrap:
  assumes "n < 2 ^ 32"
  shows "unat (elapsed_ticks t (t + of_nat n)) = (if unat t + n < 2 ^ 32 then n else n - 1)"
proof -
  have n: "unat (of_nat n :: u32) = n" using assms by (rule unat_of_nat_u32)
  have t: "unat t < 2 ^ 32" using unsigned_less [where 'a = nat, of t] by simp
  show ?thesis
  proof (cases "unat t + n < 2 ^ 32")
    case True
    then have "unat (t + of_nat n) = unat t + n" using n by (simp add: unat_word_ariths)
    then show ?thesis using True n by (simp add: elapsed_ticks_def word_le_nat_alt)
  next
    case False
    then have u: "unat (t + of_nat n) = unat t + n - 2 ^ 32"
      using n t assms by (simp add: unat_word_ariths mod_if)
    then have c: "\<not> t \<le> t + of_nat n" using t assms False by (simp add: word_le_nat_alt)
    have "(0xFFFFFFFF :: u32) - t + (t + of_nat n) = of_nat n - 1" by simp
    moreover have "unat (of_nat n - 1 :: u32) = n - 1"
      using n False t by (subst unat_minus) (auto simp: word_le_nat_alt)
    ultimately show ?thesis using c False unfolding elapsed_ticks_def by (simp only: if_False)
  qed
qed

text \<open>
  Ticks and milliseconds.  A waiting time whose product with the tick rate fits 32 bits is rounded down to
  ticks, but never to 0, which would mean to wait for ever.  The time a message took is the difference of the tick
  counters, except when the counter wraps in between: then the result is one tick short.
\<close>

lemma mbox_fetch_ticks:
  assumes "unat timeout * unat hz < 2 ^ 32" and "0 < timeout" and "n < 2 ^ 32"
  shows "unat (wait_ticks hz timeout) = max 1 (unat timeout * unat hz div 1000) \<and>
    unat (elapsed_ticks t (t + of_nat n)) = (if unat t + n < 2 ^ 32 then n else n - 1)"
proof -
  have d: "unat (timeout * hz div 1000) = unat timeout * unat hz div 1000"
    using unat_times [OF assms(1)] by (simp add: unat_div_distrib)
  then have "(timeout * hz div 1000 = 0) = (unat timeout * unat hz div 1000 = 0)" by (metis unat_0 word_unat_eq_iff)
  then have "unat (wait_ticks hz timeout) = max 1 (unat timeout * unat hz div 1000)"
    using assms(2) d by (auto simp: wait_ticks_def Let_def max_def)
  then show ?thesis using elapsed_wrap [OF assms(3)] by simp
qed

lemma mbox_fetch_ticks_witness:
  "unat (wait_ticks 500 1) = 1 \<and> unat (elapsed_ticks 0xFFFFFFFE (0xFFFFFFFE + of_nat 5)) = 4"
  using mbox_fetch_ticks [of 1 500 5 "0xFFFFFFFE"] by (simp del: of_nat_numeral)

text \<open>
  Longer times wrap: at 1000 ticks per second a timeout of 4294968 ms (72 minutes) waits for a single tick,
  after which the waiting task takes the timer for expired.
\<close>

lemma wait_ticks_wraps: "wait_ticks 1000 4294968 = 1"
  by (simp add: wait_ticks_def)

section \<open>A mailbox in time\<close>

text \<open>The timers that expire before a message that is due after \<open>r\<close> milliseconds, with the calls of their handlers.\<close>

definition expires :: "nat \<Rightarrow> nat \<times> nat \<times> nat \<Rightarrow> bool" where
  "expires r d \<longleftrightarrow> fst d = 0 \<or> fst d < r"

definition called :: "nat \<Rightarrow> (nat \<times> nat \<times> nat) list \<Rightarrow> (nat \<times> nat \<times> nat) list" where
  "called t ds = [(t + d, h, a). (d, h, a) \<leftarrow> ds, h \<noteq> 0]"

text \<open>
  A mailbox on a time line of milliseconds: \<open>due e\<close> is the time until the next message is there, \<open>fired e\<close> what handlers were called
  and when.  The laws are those of a queue of the operating system with handlers that take no time and leave the timers of the
  waiting task alone; they are asked of waits short enough for the 32-bit arithmetic of \<^verbatim>\<open>tls_arch_mbox_fetch\<close>.
\<close>

locale timed_box =
  fixes fetch :: "u32 \<Rightarrow> 'e \<Rightarrow> u32 \<times> 'm option \<times> 'e"
    and call :: "nat \<Rightarrow> nat \<Rightarrow> 'e tstate \<Rightarrow> 'e tstate"
    and i :: nat
    and good :: "'e \<Rightarrow> bool"
    and time due :: "'e \<Rightarrow> nat"
    and msg :: "'e \<Rightarrow> 'm"
    and fired :: "'e \<Rightarrow> (nat \<times> nat \<times> nat) list"
  assumes arrives: "good e \<Longrightarrow> 0 < unat w \<Longrightarrow> unat w \<le> 4294967 \<Longrightarrow> due e \<le> unat w \<Longrightarrow>
      \<exists>e'. fetch w e = (of_nat (due e), Some (msg e), e') \<and> time e' = time e + due e \<and> fired e' = fired e"
    and times_out: "good e \<Longrightarrow> 0 < unat w \<Longrightarrow> unat w \<le> 4294967 \<Longrightarrow> unat w < due e \<Longrightarrow>
      \<exists>e'. fetch w e = (SYS_ARCH_TIMEOUT, None, e') \<and> good e' \<and> time e' = time e + unat w \<and> due e' = due e - unat w \<and>
        msg e' = msg e \<and> fired e' = fired e"
    and waits: "good e \<Longrightarrow> \<exists>v e'. fetch 0 e = (v, Some (msg e), e') \<and> time e' = time e + due e \<and> fired e' = fired e"
    and calls: "next_timeout (call h a u) i = next_timeout u i" "good (env u) \<Longrightarrow> good (env (call h a u))"
      "time (env (call h a u)) = time (env u)" "due (env (call h a u)) = due (env u)" "msg (env (call h a u)) = msg (env u)"
      "fired (env (call h a u)) = fired (env u) @ [(time (env u), h, a)]"
begin

lemma shift_deadlines: "deadlines (b + k) l = map (\<lambda>(d, x). (d + k, x)) (deadlines b l)"
proof (induction l arbitrary: b)
  case (Cons u us)
  from Cons.IH [of "b + unat (timeo_time u)"] show ?case by (simp add: add.assoc add.commute [of k])
qed simp

lemma called_simps: "called t [] = []" "called t ((d, h, a) # ds) = (if h = 0 then [] else [(t + d, h, a)]) @ called t ds"
  by (simp_all add: called_def)

lemma shift_called: "called t (map (\<lambda>(d, x). (d + k, x)) ds) = called (t + k) ds"
  by (induction ds) (auto simp: called_def add.assoc add.commute [of k])

lemma expire_env:
  assumes "good e" "e = env s" "u = expire_head call i t ts s"
  shows "next_timeout u i = ts" "good (env u)" "time (env u) = time e" "due (env u) = due e" "msg (env u) = msg e"
    "fired (env u) = fired e @ called (time e) [(0, timeo_h t, timeo_arg t)]"
  using assms(1,2) calls by (auto simp: assms(3) expire_head_def pop_timeo_def Let_def called_def)

lemma fetch_times:
  assumes "good (env s)" and "\<forall>t \<in> set (next_timeout s i). unat (timeo_time t) \<le> 4294967"
  shows "\<exists>s'. tls_timeouts_mbox_fetch_p fetch call i s = Some (Some (msg (env s)), s') \<and>
    time (env s') = time (env s) + due (env s) \<and>
    fired (env s') = fired (env s) @ called (time (env s)) (takeWhile (expires (due (env s))) (deadlines 0 (next_timeout s i))) \<and>
    deadlines 0 (next_timeout s' i) =
      map (\<lambda>(d, x). (d - due (env s), x)) (dropWhile (expires (due (env s))) (deadlines 0 (next_timeout s i)))"
  using assms
proof (induction "next_timeout s i" arbitrary: s)
  case Nil
  obtain v e where e: "fetch 0 (env s) = (v, Some (msg (env s)), e)" "time e = time (env s) + due (env s)" "fired e = fired (env s)"
    using waits [OF Nil.prems(1)] by blast
  have "tls_timeouts_mbox_fetch_p fetch call i s = Some (Some (msg (env s)), s\<lparr>env := e\<rparr>)"
    by (subst tls_timeouts_mbox_fetch_p.simps) (simp add: e(1) flip: Nil(1))
  then show ?case using e(2,3) by (simp add: called_def flip: Nil(1))
next
  case (Cons t ts)
  let ?r = "due (env s)" and ?d = "unat (timeo_time t)"
  have d: "?d \<le> 4294967" using Cons.prems(2) unfolding Cons(2) [symmetric] by simp
  have dl: "deadlines 0 (t # ts) = (?d, timeo_h t, timeo_arg t) # map (\<lambda>(d, x). (d + ?d, x)) (deadlines 0 ts)"
    using shift_deadlines [of 0 ?d ts] by simp
  show ?case
  proof (cases "expires ?r (?d, timeo_h t, timeo_arg t)")
    case True
    obtain e where e: "(if timeo_time t > 0 then fetch (timeo_time t) (env s) else (SYS_ARCH_TIMEOUT, None, env s)) =
        (SYS_ARCH_TIMEOUT, None, e)" "good e" "time e = time (env s) + ?d" "due e = ?r - ?d" "msg e = msg (env s)" "fired e = fired (env s)"
      using True times_out [OF Cons.prems(1), of "timeo_time t"] d Cons.prems(1)
      by (cases "timeo_time t > 0") (auto simp: expires_def word_less_nat_alt)
    define u where "u = expire_head call i t ts (s\<lparr>env := e\<rparr>)"
    have ue: "next_timeout u i = ts" "good (env u)" "time (env u) = time e" "due (env u) = due e" "msg (env u) = msg e"
      "fired (env u) = fired e @ called (time e) [(0, timeo_h t, timeo_arg t)]"
      using expire_env [OF e(2) _ u_def] by simp_all
    have step: "tls_timeouts_mbox_fetch_p fetch call i s = tls_timeouts_mbox_fetch_p fetch call i u"
      using e(1) by (subst tls_timeouts_mbox_fetch_p.simps) (simp add: u_def flip: Cons(2))
    have ex: "expires ?r (d + ?d, x) \<longleftrightarrow> expires (?r - ?d) (d, x)" for d x
      using True by (auto simp: expires_def)
    have tw: "takeWhile (expires ?r) (map (\<lambda>(d, x). (d + ?d, x)) l) = map (\<lambda>(d, x). (d + ?d, x)) (takeWhile (expires (?r - ?d)) l)"
      "dropWhile (expires ?r) (map (\<lambda>(d, x). (d + ?d, x)) l) = map (\<lambda>(d, x). (d + ?d, x)) (dropWhile (expires (?r - ?d)) l)" for l
      by (induction l) (auto simp: ex)
    have "\<forall>t \<in> set (next_timeout u i). unat (timeo_time t) \<le> 4294967" using Cons.prems(2) unfolding Cons(2) [symmetric] ue(1) by simp
    from Cons(1) [OF ue(1) [symmetric] ue(2) this] obtain s' where s': "tls_timeouts_mbox_fetch_p fetch call i u = Some (Some (msg (env s)), s')"
      "time (env s') = time (env s) + ?d + (?r - ?d)"
      "fired (env s') = fired (env s) @ called (time (env s) + ?d) [(0, timeo_h t, timeo_arg t)] @
         called (time (env s) + ?d) (takeWhile (expires (?r - ?d)) (deadlines 0 ts))"
      "deadlines 0 (next_timeout s' i) = map (\<lambda>(d, x). (d - (?r - ?d), x)) (dropWhile (expires (?r - ?d)) (deadlines 0 ts))"
      unfolding ue e(3-6) by auto
    have late: "?d \<le> ?r \<or> ?r = 0 \<and> ?d = 0" using True by (auto simp: expires_def)
    have m: "map (\<lambda>(d, x). (d - ?r, x)) (map (\<lambda>(d, x). (d + ?d, x)) l) = map (\<lambda>(d, x). (d - (?r - ?d), x)) l" for l
      using late by auto
    show ?thesis
      unfolding Cons(2) [symmetric] dl using step s' True late
      by (intro exI [of _ s']) (auto simp: tw m shift_called called_simps simp del: map_map)
  next
    case False
    then have r: "0 < ?d" "?r \<le> ?d" by (auto simp: expires_def)
    then obtain e where e: "fetch (timeo_time t) (env s) = (of_nat ?r, Some (msg (env s)), e)" "time e = time (env s) + ?r" "fired e = fired (env s)"
      using arrives [OF Cons.prems(1) r(1) d r(2)] by auto
    have u: "unat (of_nat ?r :: u32) = ?r" using r(2) d by (intro unat_of_nat_u32) simp
    then have ne: "of_nat ?r \<noteq> SYS_ARCH_TIMEOUT" using r(2) d by (auto simp: word_unat_eq_iff)
    let ?s = "pop_timeo i (charge_head (of_nat ?r) t # ts) (s\<lparr>env := e\<rparr>)"
    have "tls_timeouts_mbox_fetch_p fetch call i s = Some (Some (msg (env s)), ?s)"
      using e(1) r(1) ne by (subst tls_timeouts_mbox_fetch_p.simps) (simp add: word_less_nat_alt flip: Cons(2))
    moreover have "deadlines 0 (next_timeout ?s i) = map (\<lambda>(d, x). (d - ?r, x)) (deadlines 0 (t # ts))"
      using charge_deadlines [of "of_nat ?r" t ts] u r(2) by (simp add: pop_timeo_def min_absorb1 del: deadlines.simps)
    moreover have "takeWhile (expires ?r) (deadlines 0 (t # ts)) = []" "dropWhile (expires ?r) (deadlines 0 (t # ts)) = deadlines 0 (t # ts)"
      using False by simp_all
    moreover have "time (env ?s) = time (env s) + ?r" "fired (env ?s) = fired (env s)" using e(2,3) by (simp_all add: pop_timeo_def)
    ultimately show ?thesis
      unfolding Cons(2) [symmetric] by (intro exI [of _ ?s]) (simp only: called_simps append_Nil2 simp_thms)
  qed
qed

end

text \<open>The mailbox of the code at 1000 ticks per second, on a queue with one message to come.\<close>

record box_env =
  box_clock :: nat
  box_due :: nat
  box_msg :: nat
  box_fired :: "deadline list"

definition box_receive :: "u32 \<Rightarrow> box_env \<Rightarrow> nat option \<times> box_env" where
  "box_receive w e =
     (if w = 0 \<or> box_due e \<le> unat w then (Some (box_msg e), e\<lparr>box_clock := box_clock e + box_due e, box_due := 0\<rparr>)
      else (None, e\<lparr>box_clock := box_clock e + unat w, box_due := box_due e - unat w\<rparr>))"

definition box_call :: "nat \<Rightarrow> nat \<Rightarrow> box_env tstate \<Rightarrow> box_env tstate" where
  "box_call h a u = u\<lparr>env := (env u)\<lparr>box_fired := box_fired (env u) @ [(box_clock (env u), h, a)]\<rparr>\<rparr>"

definition box_good :: "box_env \<Rightarrow> bool" where
  "box_good e \<longleftrightarrow> box_clock e + box_due e < 2 ^ 32 \<and> box_due e \<le> 4294967"

abbreviation box_fetch :: "u32 \<Rightarrow> box_env \<Rightarrow> u32 \<times> nat option \<times> box_env" where
  "box_fetch \<equiv> tls_arch_mbox_fetch box_receive (\<lambda>e. of_nat (box_clock e)) 1000"

lemma thousand: "unat (x :: u32) \<le> 4294967 \<Longrightarrow> x * 1000 div 1000 = x"
  by (simp add: word_unat_eq_iff unat_div unat_word_ariths)

lemma wait_thousand: "0 < unat w \<Longrightarrow> unat w \<le> 4294967 \<Longrightarrow> wait_ticks 1000 w = w"
  using thousand [of w] by (auto simp: wait_ticks_def Let_def)

lemma elapsed_thousand:
  assumes "c + d < 2 ^ 32" "d \<le> 4294967"
  shows "elapsed_ticks (of_nat c) (of_nat (c + d)) * 1000 div 1000 = of_nat d"
proof -
  have u: "unat (of_nat c :: u32) = c" "unat (of_nat d :: u32) = d" using assms by (simp_all add: unat_of_nat_u32)
  then have "unat (elapsed_ticks (of_nat c) (of_nat c + of_nat d)) = d" using elapsed_wrap [of d "of_nat c"] assms by simp
  then have "elapsed_ticks (of_nat c) (of_nat (c + d)) = of_nat d" using u by (simp add: word_unat_eq_iff)
  then show ?thesis using thousand [of "of_nat d"] u assms(2) by simp
qed

interpretation box: timed_box box_fetch box_call i box_good box_clock box_due box_msg box_fired for i
proof
  fix e :: box_env and w :: u32
  assume g: "box_good e"
  note el = elapsed_thousand [of "box_clock e" "box_due e"]
  show "\<exists>v e'. box_fetch 0 e = (v, Some (box_msg e), e') \<and> box_clock e' = box_clock e + box_due e \<and> box_fired e' = box_fired e"
    by (simp add: tls_arch_mbox_fetch_def box_receive_def wait_ticks_def)
  assume w: "0 < unat w" "unat w \<le> 4294967"
  note wt = wait_thousand [OF w]
  have "w \<noteq> 0" using w(1) by auto
  then show "\<exists>e'. box_fetch w e = (of_nat (box_due e), Some (box_msg e), e') \<and> box_clock e' = box_clock e + box_due e \<and> box_fired e' = box_fired e"
    if "box_due e \<le> unat w"
    using that g el by (simp add: tls_arch_mbox_fetch_def box_receive_def wt box_good_def)
  show "\<exists>e'. box_fetch w e = (SYS_ARCH_TIMEOUT, None, e') \<and> box_good e' \<and> box_clock e' = box_clock e + unat w \<and>
      box_due e' = box_due e - unat w \<and> box_msg e' = box_msg e \<and> box_fired e' = box_fired e"
    if "unat w < box_due e"
    using that g \<open>w \<noteq> 0\<close> by (auto simp: tls_arch_mbox_fetch_def box_receive_def wt box_good_def)
qed (simp_all add: box_call_def box_good_def)



end
