(* ===== verification/Task_Correct.thy ===== *)
theory Task_Correct
  imports Task Timers_Correct
begin

text \<open>
  Calls posted to a task: they are run once each and in order, what two calls that preempt each other and a full mailbox do to the
  counter of a static message, and the path of a timer from the posting task to the timer list.
\<close>

section \<open>Posting and running calls\<close>

text \<open>A mailbox of \<open>cap\<close> entries, and a log of the callbacks the thread has run.\<close>

record task_env =
  mbox :: "task_msg list"
  ran :: "(nat \<times> nat) list"

definition box_send :: "nat \<Rightarrow> task_env sender" where
  "box_send cap m e = (if length (mbox e) < cap then (TLS_OS_SUCCESS, e\<lparr>mbox := mbox e @ [m]\<rparr>) else (TLS_OS_ERROR, e))"

definition log_call :: "nat \<Rightarrow> nat \<Rightarrow> task_env wstate \<Rightarrow> task_env wstate" where
  "log_call f c s = s\<lparr>env := (env s)\<lparr>ran := ran (env s) @ [(f, c)]\<rparr>\<rparr>"

definition room :: "nat \<Rightarrow> task_env wstate \<Rightarrow> bool" where
  "room cap s \<longleftrightarrow> length (mbox (env s)) < cap"

text \<open>
  The states of a task and its mailbox after any sequence of calls and passes of the thread, none of which preempts another.  \<open>h\<close> are the calls that were accepted while the
  mailbox had room, \<open>L\<close> the static messages that were posted with \<^verbatim>\<open>block\<close> while it was full.
\<close>

inductive task_run :: "nat \<Rightarrow> nat \<Rightarrow> (nat \<times> nat) list \<Rightarrow> nat set \<Rightarrow> task_env wstate \<Rightarrow> bool" for cap timeo_id where
  start: "mbox (env s) = [] \<Longrightarrow> ran (env s) = [] \<Longrightarrow> (\<And>i. cbs_cnt (wl_msg s i) = 0) \<Longrightarrow> task_run cap timeo_id [] {} s"
| static: "task_run cap timeo_id h L s \<Longrightarrow>
    tls_wl_task_callback_static (box_send cap) (\<lambda>e. e) valid f c block i s = (r, s') \<Longrightarrow>
    task_run cap timeo_id (if r = TLS_OS_SUCCESS \<and> room cap s then h @ [(f, c)] else h)
      (if r = TLS_OS_SUCCESS \<and> \<not> room cap s then insert i L else L) s'"
| dynamic: "task_run cap timeo_id h L s \<Longrightarrow> tls_wl_task_callback (box_send cap) (\<lambda>e. e) valid mem f c block s = (r, s') \<Longrightarrow>
    task_run cap timeo_id (if r = TLS_OS_SUCCESS \<and> room cap s then h @ [(f, c)] else h) L s'"
| add_timer: "task_run cap timeo_id h L s \<Longrightarrow> tls_wl_task_add_timeout (box_send cap) (\<lambda>e. e) valid mem msecs fn a s = (r, s') \<Longrightarrow>
    task_run cap timeo_id h L s'"
| remove_timer: "task_run cap timeo_id h L s \<Longrightarrow> tls_wl_task_untimeout (box_send cap) (\<lambda>e. e) valid mem fn a s = (r, s') \<Longrightarrow>
    task_run cap timeo_id h L s'"
| dispatch: "task_run cap timeo_id h L s \<Longrightarrow> mbox (env s) = m # q \<Longrightarrow>
    task_run cap timeo_id h L (task_dispatch log_call mem timeo_id m (s\<lparr>env := (env s)\<lparr>mbox := q\<rparr>\<rparr>))"

text \<open>The calls a queued message will make.\<close>

definition pending_call :: "(nat \<Rightarrow> cbs) \<Rightarrow> task_msg \<Rightarrow> (nat \<times> nat) list" where
  "pending_call w m =
     (case m of TASK_MSG_CALLBACK f c \<Rightarrow> [(f, c)] | TASK_MSG_CALLBACK_STATIC i \<Rightarrow> [(cbs_function (w i), cbs_ctx (w i))] | _ \<Rightarrow> [])"

definition task_inv :: "(nat \<times> nat) list \<Rightarrow> nat set \<Rightarrow> task_env wstate \<Rightarrow> bool" where
  "task_inv h L s \<longleftrightarrow> h = ran (env s) @ concat (map (pending_call (wl_msg s)) (mbox (env s))) \<and>
     (\<forall>i. count_list (mbox (env s)) (TASK_MSG_CALLBACK_STATIC i) \<le> 1) \<and>
     (\<forall>i. cbs_cnt (wl_msg s i) = (if TASK_MSG_CALLBACK_STATIC i \<in> set (mbox (env s)) \<or> i \<in> L then 1 else 0)) \<and>
     (\<forall>i \<in> L. TASK_MSG_CALLBACK_STATIC i \<notin> set (mbox (env s)))"

lemma post_box: "tls_mbox_post (box_send cap) (\<lambda>e. e) m e = (if length (mbox e) < cap then e\<lparr>mbox := mbox e @ [m]\<rparr> else e)"
proof -
  have "mbox_tries (box_send cap) (\<lambda>e. e) n m e = e" if "\<not> length (mbox e) < cap" for n
    using that by (induction n) (simp_all add: box_send_def)
  then have "mbox_tries (box_send cap) (\<lambda>e. e) (Suc 9) m e = (if length (mbox e) < cap then e\<lparr>mbox := mbox e @ [m]\<rparr> else e)"
    by (simp only: mbox_tries.simps box_send_def [of cap m e]) simp
  then show ?thesis by (simp add: tls_mbox_post_def)
qed

lemma pending_set_msg:
  "TASK_MSG_CALLBACK_STATIC i \<notin> set ms \<Longrightarrow>
   concat (map (pending_call (w(i := x))) ms) = concat (map (pending_call w) ms)"
  by (rule arg_cong [where f = concat], rule map_cong) (auto simp: pending_call_def split: task_msg.split)

lemma pending_cnt: "pending_call (w(i := (w i)\<lparr>cbs_cnt := k\<rparr>)) m = pending_call w m"
  by (auto simp: pending_call_def split: task_msg.split)


lemma trypost_box: "tls_mbox_trypost (box_send cap) m e = (if length (mbox e) < cap then (TLS_OS_SUCCESS, e\<lparr>mbox := mbox e @ [m]\<rparr>) else (TLS_OS_ERROR, e))"
  by (simp add: tls_mbox_trypost_def box_send_def)

lemma timer_env: "env (tls_timeout_p mem i msecs f a t) = env t" "env (tls_untimeout_p i f a t) = env t"
  by (simp_all add: tls_timeout_p_def tls_untimeout_p_def)

text \<open>Each step keeps the invariant.\<close>

lemma pending_app:
  "TASK_MSG_CALLBACK_STATIC i \<notin> set ms \<Longrightarrow>
   concat (map (pending_call (w(i := \<lparr>cbs_function = f, cbs_ctx = c, cbs_cnt = k\<rparr>))) (ms @ [TASK_MSG_CALLBACK_STATIC i])) =
     concat (map (pending_call w) ms) @ [(f, c)]"
  by (simp add: pending_set_msg) (simp add: pending_call_def)

lemma static_keeps:
  assumes inv: "task_inv h L s" and step: "tls_wl_task_callback_static (box_send cap) (\<lambda>e. e) valid f c block i s = (r, s')"
  shows "task_inv (if r = TLS_OS_SUCCESS \<and> room cap s then h @ [(f, c)] else h)
    (if r = TLS_OS_SUCCESS \<and> \<not> room cap s then insert i L else L) s'"
proof (cases "cbs_cnt (wl_msg s i) > 0 \<or> \<not> valid")
  case True
  then show ?thesis using step inv by (auto simp: tls_wl_task_callback_static_def split: if_splits)
next
  case False
  then have z: "cbs_cnt (wl_msg s i) = 0" and v: "valid" by (auto simp: word_gt_0)
  then have q: "TASK_MSG_CALLBACK_STATIC i \<notin> set (mbox (env s))" "i \<notin> L"
    using inv by (auto simp: task_inv_def split: if_splits)
  let ?w = "wl_msg s"
  show ?thesis
  proof (cases "room cap s")
    case True
    then have "r = TLS_OS_SUCCESS" "mbox (env s') = mbox (env s) @ [TASK_MSG_CALLBACK_STATIC i]" "ran (env s') = ran (env s)"
      "wl_msg s' = ?w(i := \<lparr>cbs_function = f, cbs_ctx = c, cbs_cnt = 1\<rparr>)"
      using step z v by (auto simp: tls_wl_task_callback_static_def Let_def set_msg_def add_cnt_def post_env_def post_box trypost_box room_def
          split: if_splits)
    then show ?thesis using inv q True unfolding task_inv_def
      by (simp add: pending_app del: map_append concat_append) blast
  next
    case False
    then have "mbox (env s') = mbox (env s)" "ran (env s') = ran (env s)"
      "wl_msg s' = ?w(i := \<lparr>cbs_function = f, cbs_ctx = c, cbs_cnt = (if r = TLS_OS_SUCCESS then 1 else 0)\<rparr>)"
      using step z v by (auto simp: tls_wl_task_callback_static_def Let_def set_msg_def add_cnt_def post_env_def post_box trypost_box room_def
          split: if_splits)
    then show ?thesis using inv q False unfolding task_inv_def
      by (simp add: pending_set_msg)
  qed
qed

lemma dynamic_keeps:
  assumes inv: "task_inv h L s" and step: "tls_wl_task_callback (box_send cap) (\<lambda>e. e) valid mem f c block s = (r, s')"
  shows "task_inv (if r = TLS_OS_SUCCESS \<and> room cap s then h @ [(f, c)] else h) L s'"
proof -
  have "wl_msg s' = wl_msg s" "ran (env s') = ran (env s)"
    "mbox (env s') = mbox (env s) @ (if r = TLS_OS_SUCCESS \<and> room cap s then [TASK_MSG_CALLBACK f c] else [])"
    using step by (auto simp: tls_wl_task_callback_def post_env_def post_box trypost_box room_def
        split: if_splits)
  then show ?thesis using inv unfolding task_inv_def by (auto simp: pending_call_def)
qed

lemma timer_post_keeps:
  assumes inv: "task_inv h L s" and "\<And>w. pending_call w m = []" and "\<And>i. m \<noteq> TASK_MSG_CALLBACK_STATIC i"
  shows "task_inv h L (post_env (box_send cap) (\<lambda>e. e) m s)"
  using assms(1,2) assms(3) assms(3) [symmetric] unfolding task_inv_def post_env_def post_box by simp

lemma dispatch_keeps:
  assumes inv: "task_inv h L s" and q: "mbox (env s) = m # ms"
  shows "task_inv h L (task_dispatch log_call mem timeo_id m (s\<lparr>env := (env s)\<lparr>mbox := ms\<rparr>\<rparr>))"
proof (cases m)
  case (TASK_MSG_CALLBACK_STATIC i)
  then have "TASK_MSG_CALLBACK_STATIC i \<notin> set ms" "cbs_cnt (wl_msg s i) = 1"
    using inv q by (auto simp: task_inv_def count_list_0_iff dest!: spec [of _ i])
  then show ?thesis using inv q TASK_MSG_CALLBACK_STATIC
    unfolding task_inv_def task_dispatch_def log_call_def add_cnt_def
    by (simp add: pending_set_msg pending_call_def)
      (auto split: if_splits)
qed (use inv q in \<open>auto simp: task_inv_def task_dispatch_def log_call_def timer_part_def timer_env pending_call_def Let_def\<close>)

lemma task_run_inv: "task_run cap timeo_id h L s \<Longrightarrow> task_inv h L s"
proof (induction rule: task_run.induct)
  case (add_timer h L s valid mem msecs fn a r s')
  then show ?case by (auto simp: tls_wl_task_add_timeout_def pending_call_def intro: timer_post_keeps split: if_splits)
next
  case (remove_timer h L s valid mem fn a r s')
  then show ?case by (auto simp: tls_wl_task_untimeout_def pending_call_def intro: timer_post_keeps split: if_splits)
next
  case (start s)
  then show ?case by (simp add: task_inv_def)
qed (simp_all only: static_keeps dynamic_keeps dispatch_keeps)

text \<open>
  C29.  In every state that calls of \<^verbatim>\<open>tls_wl_task_callback_static\<close>, \<^verbatim>\<open>tls_wl_task_callback\<close>, \<^verbatim>\<open>tls_wl_task_add_timeout\<close>,
  \<^verbatim>\<open>tls_wl_task_untimeout\<close> and passes of the task thread lead to, in any order but none preempting another, the accepted
  callbacks are those that have run followed by those still in the mailbox, in the order of their acceptance and with
  the function and context they were posted with: none is lost, run twice or overtaken.  At most one copy of
  each static message is queued.  While the mailbox has room a static message is refused exactly when it is queued or when it was posted with
  \<^verbatim>\<open>block\<close> while the mailbox was full: such a post counts as successful but is lost, and the message is refused ever after.
\<close>

theorem calls_run_in_order:
  assumes "task_run cap timeo_id h L s"
  shows "h = ran (env s) @ concat (map (pending_call (wl_msg s)) (mbox (env s))) \<and>
    (mbox (env s) = [] \<longrightarrow> ran (env s) = h) \<and>
    (\<forall>i. count_list (mbox (env s)) (TASK_MSG_CALLBACK_STATIC i) \<le> 1) \<and>
    (\<forall>i f c block. room cap s \<longrightarrow>
      (fst (tls_wl_task_callback_static (box_send cap) (\<lambda>e. e) True f c block i s) = TLS_OS_ERROR \<longleftrightarrow>
       TASK_MSG_CALLBACK_STATIC i \<in> set (mbox (env s)) \<or> i \<in> L)) \<and>
    (\<forall>i f c block. i \<in> L \<longrightarrow> tls_wl_task_callback_static (box_send cap) (\<lambda>e. e) True f c block i s = (TLS_OS_ERROR, s))"
proof -
  have "fst (tls_wl_task_callback_static (box_send cap) (\<lambda>e. e) True f c block i s) = TLS_OS_ERROR \<longleftrightarrow> cbs_cnt (wl_msg s i) \<noteq> 0"
    if "room cap s" for f c block i
    using that by (simp add: tls_wl_task_callback_static_def Let_def set_msg_def trypost_box room_def word_gt_0)
  moreover have "tls_wl_task_callback_static (box_send cap) (\<lambda>e. e) True f c block i s = (TLS_OS_ERROR, s)"
    if "cbs_cnt (wl_msg s i) \<noteq> 0" for f c block i
    using that by (simp add: tls_wl_task_callback_static_def word_gt_0)
  ultimately show ?thesis using task_run_inv [OF assms] by (simp add: task_inv_def)
qed

definition demo_task :: "task_env wstate" where
  "demo_task = \<lparr>next_timeout = (\<lambda>_. []), env = \<lparr>mbox = [], ran = []\<rparr>, wl_msg = (\<lambda>_. \<lparr>cbs_function = 0, cbs_ctx = 0, cbs_cnt = 0\<rparr>)\<rparr>"

definition demo_queue :: "nat \<Rightarrow> task_env wstate" where
  "demo_queue n =
     [demo_task,
      demo_task\<lparr>env := \<lparr>mbox = [TASK_MSG_CALLBACK_STATIC 3], ran = []\<rparr>, wl_msg := (wl_msg demo_task)(3 := \<lparr>cbs_function = 7, cbs_ctx = 8, cbs_cnt = 1\<rparr>)\<rparr>,
      demo_task\<lparr>env := \<lparr>mbox = [TASK_MSG_CALLBACK_STATIC 3, TASK_MSG_CALLBACK 9 10], ran = []\<rparr>, wl_msg := (wl_msg demo_task)(3 := \<lparr>cbs_function = 7, cbs_ctx = 8, cbs_cnt = 1\<rparr>)\<rparr>,
      demo_task\<lparr>env := \<lparr>mbox = [TASK_MSG_CALLBACK_STATIC 3, TASK_MSG_CALLBACK 9 10], ran = []\<rparr>,
        wl_msg := (wl_msg demo_task)(3 := \<lparr>cbs_function = 7, cbs_ctx = 8, cbs_cnt = 1\<rparr>, 4 := \<lparr>cbs_function = 5, cbs_ctx = 6, cbs_cnt = 1\<rparr>)\<rparr>,
      demo_task\<lparr>env := \<lparr>mbox = [TASK_MSG_CALLBACK 9 10], ran = [(7, 8)]\<rparr>,
        wl_msg := (wl_msg demo_task)(3 := \<lparr>cbs_function = 7, cbs_ctx = 8, cbs_cnt = 0\<rparr>, 4 := \<lparr>cbs_function = 5, cbs_ctx = 6, cbs_cnt = 1\<rparr>)\<rparr>] ! n"

text \<open>Two calls fill a mailbox of two entries, a blocking third is lost, then the thread takes the first.\<close>

lemma demo_queue_run: "task_run 2 0 [(7, 8), (9, 10)] {4} (demo_queue 4)"
proof -
  note d = demo_queue_def demo_task_def tls_wl_task_callback_static_def tls_wl_task_callback_def Let_def set_msg_def add_cnt_def post_env_def
    post_box trypost_box task_dispatch_def log_call_def room_def
  have "task_run 2 0 [] {} (demo_queue 0)" by (rule task_run.start) (simp_all add: d)
  then have "task_run 2 0 [(7, 8)] {} (demo_queue 1)"
    using task_run.static [of 2 0 "[]" "{}" "demo_queue 0" True 7 8 True 3 TLS_OS_SUCCESS "demo_queue 1"] by (simp add: d)
  then have "task_run 2 0 [(7, 8), (9, 10)] {} (demo_queue 2)"
    using task_run.dynamic [of 2 0 "[(7, 8)]" "{}" "demo_queue 1" True True 9 10 False TLS_OS_SUCCESS "demo_queue 2"] by (simp add: d)
  then have "task_run 2 0 [(7, 8), (9, 10)] {4} (demo_queue 3)"
    using task_run.static [of 2 0 "[(7, 8), (9, 10)]" "{}" "demo_queue 2" True 5 6 True 4 TLS_OS_SUCCESS "demo_queue 3"] by (simp add: d)
  then show ?thesis
    using task_run.dispatch [of 2 0 "[(7, 8), (9, 10)]" "{4}" "demo_queue 3" "TASK_MSG_CALLBACK_STATIC 3" "[TASK_MSG_CALLBACK 9 10]" True]
    by (simp add: d fun_upd_twist)
qed

theorem calls_run_in_order_witness:
  "[(7, 8), (9, 10)] = ran (env (demo_queue 4)) @ concat (map (pending_call (wl_msg (demo_queue 4))) (mbox (env (demo_queue 4)))) \<and>
   fst (tls_wl_task_callback_static (box_send 2) (\<lambda>e. e) True 1 2 True 3 (demo_queue 4)) = TLS_OS_SUCCESS \<and>
   tls_wl_task_callback_static (box_send 2) (\<lambda>e. e) True 1 2 True 4 (demo_queue 4) = (TLS_OS_ERROR, demo_queue 4)"
  using calls_run_in_order [OF demo_queue_run]
  by (auto simp: demo_queue_def demo_task_def room_def tls_wl_task_callback_static_def)

text \<open>
  With preemption the test and the increment of the counter are separate: a producer that runs between the post and
  the increment of another queues the same entry again and overwrites the function and context of the first.
\<close>

lemma static_race:
  assumes "cbs_cnt (wl_msg s i) = 0" and "length (mbox (env s)) + 1 < cap"
    and "s1 = post_env (box_send cap) (\<lambda>e. e) (TASK_MSG_CALLBACK_STATIC i) (set_msg i f c s)"
    and "tls_wl_task_callback_static (box_send cap) (\<lambda>e. e) True f' c' block i s1 = (r, s2)"
  shows "r = TLS_OS_SUCCESS \<and> mbox (env s2) = mbox (env s) @ [TASK_MSG_CALLBACK_STATIC i, TASK_MSG_CALLBACK_STATIC i] \<and>
    concat (map (pending_call (wl_msg s2)) [TASK_MSG_CALLBACK_STATIC i, TASK_MSG_CALLBACK_STATIC i]) = [(f', c'), (f', c')]"
  using assms
  by (auto simp: tls_wl_task_callback_static_def Let_def set_msg_def add_cnt_def post_env_def post_box trypost_box pending_call_def
      split: if_splits)

section \<open>A full mailbox\<close>

lemma tries_fail:
  assumes "\<And>m e. send m e = (TLS_OS_ERROR, e)" and "\<And>e. delay e = e"
  shows "mbox_tries send delay n m e = e"
  by (induction n) (simp_all add: assms)

text \<open>
  A blocking post to a mailbox that stays full is lost without notice.  When none of the ten attempts
  succeeds, \<^verbatim>\<open>tls_wl_task_callback_static\<close> with \<^verbatim>\<open>block\<close> still reports success and increments the counter; no
  message is queued, so nothing ever decrements it, and every later call for this message is refused, even
  when the mailbox has room again.
\<close>

lemma static_post_lost:
  assumes "\<And>m e. full m e = (TLS_OS_ERROR, e)" and "\<And>e. delay e = e" and "cbs_cnt (wl_msg s i) = 0"
    and "s' = snd (tls_wl_task_callback_static full delay True f c True i s)"
  shows "fst (tls_wl_task_callback_static full delay True f c True i s) = TLS_OS_SUCCESS \<and> env s' = env s \<and>
    tls_wl_task_callback_static send delay' valid f' c' block i s' = (TLS_OS_ERROR, s')"
proof -
  have "tls_mbox_post full delay m e = e" for m e using tries_fail [OF assms(1,2)] by (simp add: tls_mbox_post_def)
  then have r: "tls_wl_task_callback_static full delay True f c True i s = (TLS_OS_SUCCESS, add_cnt i 1 (set_msg i f c s))"
    using assms(3) by (simp add: tls_wl_task_callback_static_def post_env_def set_msg_def add_cnt_def)
  then have "cbs_cnt (wl_msg s' i) = 1" "env s' = env s" using assms(3,4) by (simp_all add: set_msg_def add_cnt_def)
  then show ?thesis using r by (simp add: tls_wl_task_callback_static_def)
qed

definition demo_wl :: "task_msg list wstate" where
  "demo_wl = \<lparr>next_timeout = (\<lambda>_. []), env = [], wl_msg = (\<lambda>_. \<lparr>cbs_function = 0, cbs_ctx = 0, cbs_cnt = 0\<rparr>)\<rparr>"

lemma static_post_lost_witness:
  "\<exists>s'. tls_wl_task_callback_static (\<lambda>m e. (TLS_OS_ERROR, e)) (\<lambda>e. e) True 7 8 True 1 demo_wl = (TLS_OS_SUCCESS, s') \<and> env s' = [] \<and>
    tls_wl_task_callback_static (\<lambda>m e. (TLS_OS_SUCCESS, e @ [m])) (\<lambda>e. e) True 7 8 True 1 s' = (TLS_OS_ERROR, s')"
  using static_post_lost [of "\<lambda>m e. (TLS_OS_ERROR, e)" "\<lambda>e. e" demo_wl 1 _ 7 8 "\<lambda>m e. (TLS_OS_SUCCESS, e @ [m])" "\<lambda>e. e" True 7 8 True]
  by (auto simp: demo_wl_def intro!: prod_eqI)

section \<open>From the posting task to the timer list\<close>

text \<open>
  A timer posted by another task arrives: when the mailbox accepts the message of
  \<^verbatim>\<open>tls_wl_task_add_timeout\<close>, the thread that takes it inserts the timer into the list of its own task at its
  deadline, and leaves the other lists alone.
\<close>

lemma add_timeout_arrives:
  assumes "\<And>m e. send m e = (TLS_OS_SUCCESS, e @ [m])" and "env s = []" and "timers_ok (next_timeout s i)"
    and "(r, t) = tls_wl_task_add_timeout send delay True True msecs h a s"
  shows "r = TLS_OS_SUCCESS \<and> (\<exists>m. env t = [m] \<and>
    deadlines 0 (next_timeout (task_dispatch call True i m t) i) =
      insert_deadline (unat msecs, h, a) (deadlines 0 (next_timeout s i)) \<and>
    (\<forall>j. j \<noteq> i \<longrightarrow> next_timeout (task_dispatch call True i m t) j = next_timeout s j))"
proof -
  have "tls_mbox_post send delay m [] = [m]" for m 
    using assms(1) mbox_tries.simps(2) [of send delay 9 m "[]"] by (simp add: tls_mbox_post_def)
  then have "r = TLS_OS_SUCCESS" "t = s\<lparr>env := [TASK_MSG_TIMEOUT msecs h a]\<rparr>"
    using assms(2,4) by (simp_all add: tls_wl_task_add_timeout_def post_env_def)
  then show ?thesis
    using timeout_deadlines [of 0 msecs h a] by (simp add: task_dispatch_def timer_part_def tls_timeout_p_def)
qed

lemma add_timeout_arrives_example:
  "\<exists>t m. tls_wl_task_add_timeout (\<lambda>m e. (TLS_OS_SUCCESS, e @ [m])) (\<lambda>e. e) True True 25 3 4 demo_wl = (TLS_OS_SUCCESS, t) \<and>
    env t = [m] \<and> deadlines 0 (next_timeout (task_dispatch (\<lambda>_ _ u. u) True 1 m t) 1) = [(25, 3, 4)]"
proof -
  obtain r t where rt: "(r, t) = tls_wl_task_add_timeout (\<lambda>m e. (TLS_OS_SUCCESS, e @ [m])) (\<lambda>e. e) True True 25 3 4 demo_wl"
    by (metis surj_pair)
  have "env demo_wl = []" "timers_ok (next_timeout demo_wl 1)" by (simp_all add: demo_wl_def timers_ok_def)
  moreover have "next_timeout demo_wl 1 = []" by (simp add: demo_wl_def)
  ultimately show ?thesis
    using add_timeout_arrives [OF refl _ _ rt, of 1 "\<lambda>_ _ u. u"] rt [symmetric] by (auto simp: insert_deadline_def)
qed

end
