(* ===== verification/Fwup.thy ===== *)
theory Fwup
  imports Param
begin

text \<open>
  The firmware update module, \<^verbatim>\<open>platform/common/fwup/wm_fwup.c\<close>: sessions, the queue of data requests, the
  scheduler that stores an image through the fast-write path of the flash driver and verifies it, and the
  check of the image header.

  The module's static pointer \<^verbatim>\<open>fwup\<close> is a \<open>cptr\<close>, because \<^verbatim>\<open>tls_fwup_init\<close> can leave it pointing to freed memory;
  operations that would use that memory return \<open>None\<close>.  Outcomes of allocations and creations are arguments,
  random numbers a list.  The flags kept by the Wi-Fi library (auto-connect, one-shot, power save) are fields
  of the state, and so is the number of calls of \<^verbatim>\<open>tls_sys_reset\<close>.
\<close>

datatype 'a cptr = Null | Live 'a | Freed

datatype tls_fwup_image_src = SRC_LUART | SRC_HUART | SRC_HSPI | SRC_WEB

record fwup_t =
  busy :: bool
  current_image_src :: tls_fwup_image_src
  current_state :: u16
  current_session_id :: u32
  received_len :: u32
  total_len :: u32
  updated_len :: u32
  program_base :: u32
  program_offset :: u32
  received_number :: u32

record 'c fsys =
  fw :: "fwup_t cptr"
  wait_list :: "u8 list list"
  msg_queue :: "u32 list option"
  booter :: "u8 list"
  pstate :: "'c param_state"
  oneshotback :: u8
  auto_flag :: u8
  oneshot_flag :: u8
  psflag :: bool
  resets :: nat

abbreviation TLS_FWUP_STATUS_OK :: int where "TLS_FWUP_STATUS_OK \<equiv> 0"
abbreviation TLS_FWUP_STATUS_EINVALID :: int where "TLS_FWUP_STATUS_EINVALID \<equiv> 1"
abbreviation TLS_FWUP_STATUS_EMEM :: int where "TLS_FWUP_STATUS_EMEM \<equiv> 2"
abbreviation TLS_FWUP_STATUS_EPERM :: int where "TLS_FWUP_STATUS_EPERM \<equiv> 3"
abbreviation TLS_FWUP_STATUS_EBUSY :: int where "TLS_FWUP_STATUS_EBUSY \<equiv> 4"
abbreviation TLS_FWUP_STATUS_ESESSIONID :: int where "TLS_FWUP_STATUS_ESESSIONID \<equiv> 5"
abbreviation TLS_FWUP_STATUS_EIO :: int where "TLS_FWUP_STATUS_EIO \<equiv> 6"
abbreviation TLS_FWUP_STATUS_ESIGNATURE :: int where "TLS_FWUP_STATUS_ESIGNATURE \<equiv> 7"
abbreviation TLS_FWUP_STATUS_ECRC :: int where "TLS_FWUP_STATUS_ECRC \<equiv> 8"
abbreviation TLS_FWUP_STATUS_EUNDEF :: int where "TLS_FWUP_STATUS_EUNDEF \<equiv> 9"

datatype req_status = REQ_IDLE | REQ_BUSY | REQ_SUCCESS | REQ_FIO | REQ_FSIGNATURE | REQ_FMEM | REQ_FCRC | REQ_FCOMPLETE

abbreviation STATE_UNDEF :: u16 where "STATE_UNDEF \<equiv> 0xFFFF"
abbreviation STATE_BUSY :: u16 where "STATE_BUSY \<equiv> 1"
abbreviation STATE_COMPLETE :: u16 where "STATE_COMPLETE \<equiv> 2"
abbreviation STATE_ERROR_IO :: u16 where "STATE_ERROR_IO \<equiv> 4"
abbreviation STATE_ERROR_SIGNATURE :: u16 where "STATE_ERROR_SIGNATURE \<equiv> 8"
abbreviation STATE_ERROR_MEM :: u16 where "STATE_ERROR_MEM \<equiv> 16"
abbreviation STATE_ERROR_CRC :: u16 where "STATE_ERROR_CRC \<equiv> 32"
abbreviation STATE_ERROR :: u16 where "STATE_ERROR \<equiv> 60"

section \<open>The image header\<close>

text \<open>Offsets of \<^verbatim>\<open>IMAGE_HEADER_PARAM_ST\<close>, 64 bytes; the attribute word is a bit field.\<close>

definition image_header :: cfields where
  "image_header = cfs [(''magic_no'', CU32), (''img_attr'', CU32), (''img_addr'', CU32), (''img_len'', CU32),
     (''img_header_addr'', CU32), (''upgrade_img_addr'', CU32), (''org_checksum'', CU32), (''upd_no'', CU32),
     (''ver'', bytes 16), (''_reserved0'', CU32), (''_reserved1'', CU32), (''next'', CU32), (''hd_checksum'', CU32)]"

definition hd32 :: "string \<Rightarrow> u8 list \<Rightarrow> u32" where
  "hd32 x img = get32 img (fst (member image_header x))"

definition img_type :: "u8 list \<Rightarrow> u32" where "img_type img = hd32 ''img_attr'' img AND 0xF"
definition code_encrypt :: "u8 list \<Rightarrow> bool" where "code_encrypt img = bit (hd32 ''img_attr'' img) 4"
definition signature :: "u8 list \<Rightarrow> bool" where "signature img = bit (hd32 ''img_attr'' img) 8"

abbreviation FLASH_BASE_ADDR :: u32 where "FLASH_BASE_ADDR \<equiv> 0x8000000"
abbreviation CODE_UPD_START_ADDR :: u32 where "CODE_UPD_START_ADDR \<equiv> 0x8010000"
abbreviation CODE_RUN_START_ADDR :: u32 where "CODE_RUN_START_ADDR \<equiv> 0x80D0000"
abbreviation SIGNATURE_WORD :: u32 where "SIGNATURE_WORD \<equiv> 0xA0FFFF9F"
abbreviation IMG_TYPE_FLASHBIN0 :: u32 where "IMG_TYPE_FLASHBIN0 \<equiv> 1"

text \<open>The checksum loop: one update of the CRC unit per word.\<close>

definition header_crc :: "crc_engine \<Rightarrow> u8 list \<Rightarrow> u32" where
  "header_crc eng img =
     tls_crypto_crc_final
       (foldl (\<lambda>ctx i. tls_crypto_crc_update eng ctx (take 4 (drop (i * 4) img)) 4)
         (tls_crypto_crc_init 0xFFFFFFFF CRYPTO_CRC_TYPE_32 3) [0..<(64 - 4) div 4])"

text \<open>\<open>user\<close> is \<^verbatim>\<open>USER_ADDR_START\<close>, which depends on the board; \<open>junk\<close> the initial content of \<^verbatim>\<open>run_param\<close>.\<close>

definition tls_fwup_img_header_check ::
  "'c hw \<Rightarrow> crc_engine \<Rightarrow> u32 \<Rightarrow> u8 list \<Rightarrow> u8 list \<Rightarrow> 'c fls \<Rightarrow> bool \<times> 'c fls" where
  "tls_fwup_img_header_check hw eng user junk img d =
     (if hd32 ''magic_no'' img \<noteq> SIGNATURE_WORD then (False, d)
      else if img_type img \<noteq> IMG_TYPE_FLASHBIN0 then (False, d)
      else
        (case tls_fls_read hw (hd32 ''img_header_addr'' img) (Some True) 64 d of
           (_, bs, d) \<Rightarrow>
             (let run = overlay junk 0 bs; addr = hd32 ''img_addr'' img OR FLASH_BASE_ADDR;
                  upd = hd32 ''upgrade_img_addr'' img OR FLASH_BASE_ADDR; len = hd32 ''img_len'' img
              in if signature run \<noteq> signature img then (False, d)
                 else if code_encrypt run \<noteq> code_encrypt img then (False, d)
                 else if hd32 ''img_addr'' img mod 0x400 \<noteq> 0 then (False, d)
                 else if addr \<ge> user then (False, d)
                 else if addr + len \<ge> user then (False, d)
                 else if upd < CODE_UPD_START_ADDR \<or> upd + len \<ge> CODE_RUN_START_ADDR then (False, d)
                 else (hd32 ''hd_checksum'' img = header_crc eng img, d))))"

section \<open>Storing and verifying an image\<close>

definition fl :: "'c fsys \<Rightarrow> 'c fls" where "fl s = fdev (pstate s)"
definition set_fl :: "'c fls \<Rightarrow> 'c fsys \<Rightarrow> 'c fsys" where "set_fl d s = s\<lparr>pstate := (pstate s)\<lparr>fdev := d\<rparr>\<rparr>"

text \<open>The status given to a request that is discarded in an error state.\<close>

definition discard_status :: "u16 \<Rightarrow> req_status" where
  "discard_status st = (if st AND STATE_ERROR_IO \<noteq> 0 then REQ_FIO
     else if st AND STATE_ERROR_SIGNATURE \<noteq> 0 then REQ_FSIGNATURE
     else if st AND STATE_ERROR_MEM \<noteq> 0 then REQ_FMEM
     else if st AND STATE_ERROR_CRC \<noteq> 0 then REQ_FCRC else REQ_BUSY)"

text \<open>
  The parts of the scheduler work on the structure \<open>f\<close>, the header buffer and the flash.  \<open>Inl\<close>: the request is
  finished with this status.
\<close>

definition fail :: "req_status \<Rightarrow> u16 \<Rightarrow> fwup_t \<Rightarrow> req_status \<times> fwup_t" where
  "fail status flag f = (status, f\<lparr>current_state := current_state f OR flag\<rparr>)"

definition header_len :: u32 where "header_len = 64"

definition begin_image :: "u8 list \<Rightarrow> fwup_t \<Rightarrow> fwup_t" where
  "begin_image img f =
     f\<lparr>program_base := hd32 ''upgrade_img_addr'' img OR FLASH_BASE_ADDR, program_offset := 0,
       total_len := hd32 ''img_len'' img + header_len + (if signature img then 128 else 0)\<rparr>"

definition take_header ::
  "'c hw \<Rightarrow> crc_engine \<Rightarrow> u32 \<Rightarrow> u8 list \<Rightarrow> u8 list \<Rightarrow> fwup_t \<Rightarrow> u8 list \<Rightarrow> 'c fls \<Rightarrow>
   ((req_status + u8 list) \<times> fwup_t \<times> u8 list \<times> 'c fls) option" where
  "take_header hw eng user junk data f img d =
     (if received_len f < header_len then
        (let len = min (unat (header_len - received_len f)) (length data);
             img = overlay img (unat (received_len f)) (take len data); data = drop len data;
             f = f\<lparr>received_len := received_len f + of_nat len\<rparr>
         in if received_len f = header_len then
              (case tls_fwup_img_header_check hw eng user junk img d of
                 (False, d) \<Rightarrow> (case fail REQ_FIO STATE_ERROR_IO f of (st, f) \<Rightarrow> Some (Inl st, f, img, d))
               | (True, d) \<Rightarrow>
                   (let f = begin_image img f
                    in case tls_fls_fast_write hw (program_base f + program_offset f) (Some img) header_len d of
                         None \<Rightarrow> None
                       | Some (err, d) \<Rightarrow>
                           if err \<noteq> TLS_FLS_STATUS_OK
                           then (case fail REQ_FIO STATE_ERROR_IO f of (st, f) \<Rightarrow> Some (Inl st, f, img, d))
                           else Some (Inr data, f\<lparr>updated_len := header_len, program_offset := header_len\<rparr>, img, d)))
            else Some (Inr data, f, img, d))
      else Some (Inr data, f, img, d))"

text \<open>Reading the stored image back in pieces of 1024 bytes; \<open>None\<close>: a read failed.\<close>

function image_crc ::
  "'c hw \<Rightarrow> crc_engine \<Rightarrow> u32 \<Rightarrow> u32 \<Rightarrow> nat \<Rightarrow> psCrcContext \<Rightarrow> 'c fls \<Rightarrow> psCrcContext option \<times> 'c fls" where
  "image_crc hw eng base offset left ctx d =
     (if left = 0 then (Some ctx, d)
      else
        (let len = (if left > 1024 then 1024 else left)
         in case tls_fls_read hw (base + offset) (Some True) (of_nat len) d of
              (err, bs, d) \<Rightarrow>
                if err \<noteq> TLS_FLS_STATUS_OK then (None, d)
                else image_crc hw eng base (offset + of_nat len) (left - len)
                       (tls_crypto_crc_update eng ctx bs (of_nat len)) d))"
  by pat_completeness auto
termination by (relation "measure (\<lambda>(hw, eng, base, offset, left, ctx, d). left)") auto

declare image_crc.simps [simp del]

text \<open>The end of an image; \<open>mem\<close>: the verification buffer can be allocated.\<close>

definition finish_image ::
  "'c hw \<Rightarrow> crc_engine \<Rightarrow> flash_layout \<Rightarrow> bool \<Rightarrow> u8 list \<Rightarrow> fwup_t \<Rightarrow> 'c fls \<Rightarrow> req_status \<times> fwup_t \<times> 'c fls" where
  "finish_image hw eng l mem img f d =
     (let d = tls_fls_fast_write_destroy hw d
      in if \<not> mem then (case fail REQ_FMEM STATE_ERROR_MEM f of (st, f) \<Rightarrow> (st, f, d))
         else
           (let left = total_len f - (if signature img then 128 else 0) - header_len
            in case image_crc hw eng (program_base f) header_len (unat left)
                      (tls_crypto_crc_init 0xFFFFFFFF CRYPTO_CRC_TYPE_32 3) d of
                 (None, d) \<Rightarrow> (case fail REQ_FIO STATE_ERROR_IO f of (st, f) \<Rightarrow> (st, f, d))
               | (Some ctx, d) \<Rightarrow>
                   if hd32 ''org_checksum'' img \<noteq> tls_crypto_crc_final ctx
                   then (case fail REQ_FCRC STATE_ERROR_CRC f of (st, f) \<Rightarrow> (st, f, d))
                   else
                     (REQ_SUCCESS, f\<lparr>current_state := current_state f OR STATE_COMPLETE\<rparr>,
                      snd (tls_fls_write hw (FLASH_OTA_FLAG_ADDR l) (Some (le32 (hd32 ''org_checksum'' img))) 4 d))))"

definition store_data ::
  "'c hw \<Rightarrow> crc_engine \<Rightarrow> flash_layout \<Rightarrow> bool \<Rightarrow> u8 list \<Rightarrow> u8 list \<Rightarrow> fwup_t \<Rightarrow> 'c fls \<Rightarrow>
   (req_status \<times> fwup_t \<times> 'c fls) option" where
  "store_data hw eng l mem img data f d =
     (let f = f\<lparr>received_len := received_len f + of_nat (length data)\<rparr>
      in if data = [] then Some (REQ_SUCCESS, f, d)
         else
           (case tls_fls_fast_write hw (program_base f + program_offset f) (Some data) (of_nat (length data)) d of
              None \<Rightarrow> None
            | Some (err, d) \<Rightarrow>
                if err \<noteq> TLS_FLS_STATUS_OK then (case fail REQ_FIO STATE_ERROR_IO f of (st, f) \<Rightarrow> Some (st, f, d))
                else
                  (let f = f\<lparr>program_offset := program_offset f + of_nat (length data),
                             updated_len := updated_len f + of_nat (length data)\<rparr>
                   in Some (if updated_len f \<ge> total_len f then finish_image hw eng l mem img f d else (REQ_SUCCESS, f, d)))))"

text \<open>What happens to one request, without its removal from the list.\<close>

definition serve_request ::
  "'c hw \<Rightarrow> crc_engine \<Rightarrow> flash_layout \<Rightarrow> u32 \<Rightarrow> u8 list \<Rightarrow> bool \<Rightarrow> u8 list \<Rightarrow> fwup_t \<Rightarrow> u8 list \<Rightarrow> 'c fls \<Rightarrow>
   (req_status \<times> fwup_t \<times> u8 list \<times> 'c fls) option" where
  "serve_request hw eng l user junk mem data f img d =
     (if current_state f AND STATE_ERROR \<noteq> 0 then Some (discard_status (current_state f), f, img, d)
      else if current_state f AND STATE_COMPLETE \<noteq> 0 then Some (REQ_FCOMPLETE, f, img, d)
      else
        (case take_header hw eng user junk data f img d of
           None \<Rightarrow> None
         | Some (Inl st, f, img, d) \<Rightarrow> Some (st, f, img, d)
         | Some (Inr data, f, img, d) \<Rightarrow> map_option (\<lambda>(st, f, d). (st, f, img, d)) (store_data hw eng l mem img data f d)))"

section \<open>The scheduler\<close>

definition fwup_update_autoflag :: "'c fsys \<Rightarrow> 'c fsys" where
  "fwup_update_autoflag s = (if auto_flag s = 3 then s\<lparr>auto_flag := 1\<rparr> else s)"

text \<open>The label \<^verbatim>\<open>request_finish\<close>: dequeue, clear the busy flag, reset the system at the end or after an error.\<close>

definition request_finish :: "req_status \<Rightarrow> fwup_t \<Rightarrow> 'c fsys \<Rightarrow> 'c fsys" where
  "request_finish st f s =
     (let s = s\<lparr>wait_list := tl (wait_list s)\<rparr>;
          f = (if wait_list s = [] then f\<lparr>current_state := current_state f AND NOT STATE_BUSY\<rparr> else f);
          s = s\<lparr>fw := Live f\<rparr>
      in if updated_len f \<ge> header_len \<and> updated_len f \<ge> total_len f \<or> st \<noteq> REQ_SUCCESS
         then (fwup_update_autoflag s)\<lparr>resets := Suc (resets s)\<rparr> else s)"

text \<open>
  The loop over the waiting requests.  The statuses are returned in order; after a system reset nothing more
  is served.  A completed image restores the one-shot flag of the Wi-Fi library.
\<close>

function serve_all ::
  "'c hw \<Rightarrow> crc_engine \<Rightarrow> flash_layout \<Rightarrow> u32 \<Rightarrow> u8 list \<Rightarrow> bool \<Rightarrow> fwup_t \<Rightarrow> 'c fsys \<Rightarrow> (req_status list \<times> 'c fsys) option" where
  "serve_all hw eng l user junk mem f s =
     (case wait_list s of
        [] \<Rightarrow> Some ([], s)
      | data # _ \<Rightarrow>
          (case serve_request hw eng l user junk mem data f (booter s) (fl s) of
             None \<Rightarrow> None
           | Some (st, f', img, d) \<Rightarrow>
               (let s = (set_fl d s)\<lparr>booter := img\<rparr>;
                    s = (if current_state f' AND STATE_COMPLETE \<noteq> 0 \<and> current_state f AND STATE_COMPLETE = 0 \<and> oneshotback s \<noteq> 0
                         then s\<lparr>oneshot_flag := oneshotback s\<rparr> else s);
                    t = request_finish st f' s
                in if resets t > resets s then Some ([st], t)
                   else (case fw t of
                           Live f'' \<Rightarrow> map_option (\<lambda>(sts, t). (st # sts, t)) (serve_all hw eng l user junk mem f'' t)
                         | _ \<Rightarrow> None))))"
  by pat_completeness auto
termination
proof (relation "measure (\<lambda>(hw, eng, l, user, junk, mem, f, s). length (wait_list s))")
qed (auto simp: request_finish_def set_fl_def fwup_update_autoflag_def Let_def split: if_splits)

declare serve_all.simps [simp del]

definition fwup_scheduler_start ::
  "'c hw \<Rightarrow> crc_engine \<Rightarrow> flash_layout \<Rightarrow> u32 \<Rightarrow> u8 list \<Rightarrow> bool \<Rightarrow> 'c fsys \<Rightarrow> (req_status list \<times> 'c fsys) option" where
  "fwup_scheduler_start hw eng l user junk mem s =
     (case fw s of
        Live f \<Rightarrow>
          (let f = (if wait_list s \<noteq> [] then f\<lparr>current_state := current_state f OR STATE_BUSY\<rparr> else f)
           in serve_all hw eng l user junk mem f (s\<lparr>fw := Live f\<rparr>))
      | _ \<Rightarrow> None)"

section \<open>Sessions\<close>

text \<open>The outcomes of the five resources \<^verbatim>\<open>tls_fwup_init\<close> asks for.\<close>

record init_res =
  mem_ok :: bool
  sem_ok :: bool
  queue_ok :: bool
  stack_ok :: bool
  task_ok :: bool

definition zero_fwup :: fwup_t where
  "zero_fwup = \<lparr>busy = False, current_image_src = SRC_LUART, current_state = 0, current_session_id = 0, received_len = 0,
     total_len = 0, updated_len = 0, program_base = 0, program_offset = 0, received_number = 0\<rparr>"

definition tls_fwup_init :: "init_res \<Rightarrow> 'c fsys \<Rightarrow> int \<times> 'c fsys" where
  "tls_fwup_init r s =
     (if fw s \<noteq> Null then (TLS_FWUP_STATUS_EBUSY, s)
      else if \<not> mem_ok r then (TLS_FWUP_STATUS_EMEM, s)
      else if \<not> sem_ok r then (TLS_FWUP_STATUS_EMEM, s\<lparr>fw := Freed\<rparr>)
      else if \<not> queue_ok r then (TLS_FWUP_STATUS_EMEM, s\<lparr>fw := Freed\<rparr>)
      else if \<not> stack_ok r then (TLS_FWUP_STATUS_EMEM, s\<lparr>fw := Freed, msg_queue := None\<rparr>)
      else if \<not> task_ok r then (TLS_FWUP_STATUS_EMEM, s\<lparr>fw := Null, msg_queue := None\<rparr>)
      else (TLS_FWUP_STATUS_OK, s\<lparr>fw := Live zero_fwup, wait_list := [], msg_queue := Some []\<rparr>))"

text \<open>The counters a session starts and ends with.\<close>

definition clear_counters :: "fwup_t \<Rightarrow> fwup_t" where
  "clear_counters f = f\<lparr>current_state := 0, received_len := 0, total_len := 0, updated_len := 0, program_base := 0,
     program_offset := 0\<rparr>"

text \<open>
  The parameter \<^verbatim>\<open>PSM\<close> as read from flash into a \<^verbatim>\<open>bool\<close> that was \<^verbatim>\<open>FALSE\<close>; \<open>pm\<close>: the read buffer can be allocated.
\<close>

definition psm_enabled :: "'c hw \<Rightarrow> flash_layout \<Rightarrow> bool \<Rightarrow> 'c fsys \<Rightarrow> bool \<times> 'c fsys" where
  "psm_enabled hw l pm s =
     (case tls_param_get hw l pm TLS_PARAM_ID_PSM True (pstate s) of
        Some (_, bs, p) \<Rightarrow> (bs \<noteq> [] \<and> hd bs = 1, s\<lparr>pstate := p\<rparr>)
      | None \<Rightarrow> (False, s))"

text \<open>
  \<open>rand\<close> supplies the random numbers; the result is \<open>None\<close> when they are all zero or when freed memory is used.
  \<open>cache\<close> is the block the fast-write cache is allocated from.
\<close>

definition tls_fwup_enter ::
  "'c hw \<Rightarrow> flash_layout \<Rightarrow> init_res \<Rightarrow> u32 list \<Rightarrow> bool \<Rightarrow> u8 list option \<Rightarrow> tls_fwup_image_src \<Rightarrow> 'c fsys \<Rightarrow>
   (u32 \<times> 'c fsys) option" where
  "tls_fwup_enter hw l r rand pm cache image_src s =
     (let s = snd (tls_fwup_init r s)
      in case fw s of
           Null \<Rightarrow> Some (0, s)
         | Freed \<Rightarrow> None
         | Live f \<Rightarrow>
             if busy f then Some (0, s)
             else
               (case dropWhile (\<lambda>x. x = 0) rand of
                  [] \<Rightarrow> None
                | session_id # _ \<Rightarrow>
                    (let f = (clear_counters f)\<lparr>current_image_src := image_src, received_number := - 1,
                               current_session_id := session_id, busy := True\<rparr>;
                         s = s\<lparr>fw := Live f, oneshotback := oneshot_flag s\<rparr>;
                         s = (if oneshotback s \<noteq> 0 then s\<lparr>oneshot_flag := 0\<rparr> else s);
                         (enable, s) = psm_enabled hw l pm s;
                         s = (if enable then s\<lparr>psflag := False\<rparr> else s)
                     in Some (session_id, set_fl (snd (tls_fls_fast_write_init cache (fl s))) s))))"

text \<open>The tests at the beginning of \<^verbatim>\<open>tls_fwup_exit\<close>, \<^verbatim>\<open>tls_fwup_reset\<close> and \<^verbatim>\<open>tls_fwup_clear_error\<close>.\<close>

definition session_guard :: "u32 \<Rightarrow> fwup_t \<Rightarrow> int" where
  "session_guard session_id f =
     (if \<not> busy f then TLS_FWUP_STATUS_EPERM
      else if session_id \<noteq> current_session_id f then TLS_FWUP_STATUS_ESESSIONID
      else if current_state f AND STATE_BUSY \<noteq> 0 then TLS_FWUP_STATUS_EBUSY else TLS_FWUP_STATUS_OK)"

definition with_fwup :: "(fwup_t \<Rightarrow> 'a \<times> 'c fsys) \<Rightarrow> 'a \<Rightarrow> 'c fsys \<Rightarrow> ('a \<times> 'c fsys) option" where
  "with_fwup g dflt s = (case fw s of Null \<Rightarrow> Some (dflt, s) | Freed \<Rightarrow> None | Live f \<Rightarrow> Some (g f))"

definition tls_fwup_exit :: "'c hw \<Rightarrow> flash_layout \<Rightarrow> bool \<Rightarrow> u32 \<Rightarrow> 'c fsys \<Rightarrow> (int \<times> 'c fsys) option" where
  "tls_fwup_exit hw l pm session_id s =
     with_fwup (\<lambda>f.
       if session_guard session_id f \<noteq> TLS_FWUP_STATUS_OK then (session_guard session_id f, s)
       else
         (let f = (clear_counters f)\<lparr>received_number := - 1, current_session_id := 0, busy := False\<rparr>;
              s = s\<lparr>fw := Live f\<rparr>;
              s = (if oneshotback s \<noteq> 0 then s\<lparr>oneshot_flag := oneshotback s\<rparr> else s);
              (enable, s) = psm_enabled hw l pm s
          in (TLS_FWUP_STATUS_OK, s\<lparr>psflag := enable\<rparr>))) TLS_FWUP_STATUS_EPERM s"

definition tls_fwup_get_current_session_id :: "'c fsys \<Rightarrow> u32 option" where
  "tls_fwup_get_current_session_id s =
     (case fw s of Null \<Rightarrow> Some 0 | Freed \<Rightarrow> None | Live f \<Rightarrow> Some (current_session_id f))"

text \<open>These use the structure without testing the pointer.\<close>

definition tls_fwup_set_update_numer :: "u32 \<Rightarrow> 'c fsys \<Rightarrow> (int \<times> 'c fsys) option" where
  "tls_fwup_set_update_numer number s =
     (case fw s of
        Live f \<Rightarrow> if number - received_number f = 1 then Some (TLS_FWUP_STATUS_OK, s\<lparr>fw := Live (f\<lparr>received_number := number\<rparr>)\<rparr>)
                  else Some (0xFFFF, s)
      | _ \<Rightarrow> None)"

definition tls_fwup_get_current_update_numer :: "'c fsys \<Rightarrow> int option" where
  "tls_fwup_get_current_update_numer s = (case fw s of Live f \<Rightarrow> Some (sint (received_number f)) | _ \<Rightarrow> None)"

definition tls_fwup_get_status :: "'c fsys \<Rightarrow> bool option" where
  "tls_fwup_get_status s = (case fw s of Live f \<Rightarrow> Some (busy f) | _ \<Rightarrow> None)"

definition tls_fwup_set_crc_error :: "u32 \<Rightarrow> 'c fsys \<Rightarrow> (int \<times> 'c fsys) option" where
  "tls_fwup_set_crc_error session_id s =
     with_fwup (\<lambda>f.
       if session_id \<noteq> current_session_id f then (TLS_FWUP_STATUS_ESESSIONID, s)
       else (TLS_FWUP_STATUS_OK, s\<lparr>fw := Live (snd (fail REQ_FCRC STATE_ERROR_CRC f))\<rparr>)) TLS_FWUP_STATUS_EPERM s"

definition tls_fwup_request_async :: "u32 \<Rightarrow> u8 list option \<Rightarrow> 'c fsys \<Rightarrow> (int \<times> 'c fsys) option" where
  "tls_fwup_request_async session_id data s =
     with_fwup (\<lambda>f.
       if session_id \<noteq> current_session_id f then (TLS_FWUP_STATUS_ESESSIONID, s)
       else if data = None \<or> data = Some [] then (TLS_FWUP_STATUS_EINVALID, s)
       else
         (TLS_FWUP_STATUS_OK,
          s\<lparr>wait_list := wait_list s @ [the data],
            msg_queue := (if wait_list s = [] then map_option (\<lambda>q. q @ [1]) (msg_queue s) else msg_queue s)\<rparr>))
       TLS_FWUP_STATUS_EPERM s"

text \<open>The result of \<^verbatim>\<open>tls_fwup_request_sync\<close> from the status of its request.\<close>

definition sync_result :: "req_status \<Rightarrow> int" where
  "sync_result st = (case st of REQ_SUCCESS \<Rightarrow> TLS_FWUP_STATUS_OK | REQ_FIO \<Rightarrow> TLS_FWUP_STATUS_EIO
     | REQ_FSIGNATURE \<Rightarrow> TLS_FWUP_STATUS_ESIGNATURE | REQ_FMEM \<Rightarrow> TLS_FWUP_STATUS_EMEM | REQ_FCRC \<Rightarrow> TLS_FWUP_STATUS_ECRC
     | REQ_FCOMPLETE \<Rightarrow> TLS_FWUP_STATUS_EIO | _ \<Rightarrow> TLS_FWUP_STATUS_EUNDEF)"

text \<open>
  \<^verbatim>\<open>tls_fwup_request_sync\<close> when no other request is waiting: the scheduler task serves the request while the caller
  waits on its semaphore.
\<close>

definition tls_fwup_request_sync ::
  "'c hw \<Rightarrow> crc_engine \<Rightarrow> flash_layout \<Rightarrow> u32 \<Rightarrow> u8 list \<Rightarrow> bool \<Rightarrow> bool \<Rightarrow> u32 \<Rightarrow> u8 list option \<Rightarrow> 'c fsys \<Rightarrow>
   (int \<times> 'c fsys) option" where
  "tls_fwup_request_sync hw eng l user junk mem sem session_id data s =
     (case fw s of
        Null \<Rightarrow> Some (TLS_FWUP_STATUS_EPERM, s)
      | Freed \<Rightarrow> None
      | Live f \<Rightarrow>
          if session_id \<noteq> current_session_id f then Some (TLS_FWUP_STATUS_ESESSIONID, s)
          else if data = None \<or> data = Some [] then Some (TLS_FWUP_STATUS_EINVALID, s)
          else if \<not> sem then Some (TLS_FWUP_STATUS_EMEM, s)
          else
            (case tls_fwup_request_async session_id data s of
               None \<Rightarrow> None
             | Some (_, s) \<Rightarrow>
                 map_option (\<lambda>(sts, s). (sync_result (last sts), s)) (fwup_scheduler_start hw eng l user junk mem s)))"

definition tls_fwup_current_state :: "u32 \<Rightarrow> 'c fsys \<Rightarrow> u16 option" where
  "tls_fwup_current_state session_id s =
     (case fw s of
        Null \<Rightarrow> Some STATE_UNDEF
      | Freed \<Rightarrow> None
      | Live f \<Rightarrow> Some (if session_id \<noteq> current_session_id f then STATE_UNDEF else current_state f))"

definition tls_fwup_reset :: "u32 \<Rightarrow> 'c fsys \<Rightarrow> (int \<times> 'c fsys) option" where
  "tls_fwup_reset session_id s =
     with_fwup (\<lambda>f.
       if session_guard session_id f \<noteq> TLS_FWUP_STATUS_OK then (session_guard session_id f, s)
       else (TLS_FWUP_STATUS_OK, s\<lparr>fw := Live (clear_counters f)\<rparr>)) TLS_FWUP_STATUS_EPERM s"

definition tls_fwup_clear_error :: "u32 \<Rightarrow> 'c fsys \<Rightarrow> (int \<times> 'c fsys) option" where
  "tls_fwup_clear_error session_id s =
     with_fwup (\<lambda>f.
       if session_guard session_id f \<noteq> TLS_FWUP_STATUS_OK then (session_guard session_id f, s)
       else (TLS_FWUP_STATUS_OK, s\<lparr>fw := Live (f\<lparr>current_state := current_state f AND NOT STATE_ERROR\<rparr>)\<rparr>))
       TLS_FWUP_STATUS_EPERM s"

end
