(* ===== verification/Fwup_Correct.thy ===== *)
theory Fwup_Correct
  imports Fwup Param_Props
begin

text \<open>
  What the update module guarantees on a NOR flash with a working CRC unit: which headers are accepted, that a
  completed update stored an image with the announced checksum, and the guards of the session functions.
\<close>

section \<open>The header\<close>

lemma header_member [simp]:
  "member image_header ''magic_no'' = (0, 4)" "member image_header ''img_attr'' = (4, 4)"
  "member image_header ''img_addr'' = (8, 4)" "member image_header ''img_len'' = (12, 4)"
  "member image_header ''img_header_addr'' = (16, 4)" "member image_header ''upgrade_img_addr'' = (20, 4)"
  "member image_header ''org_checksum'' = (24, 4)" "member image_header ''hd_checksum'' = (60, 4)"
  by (simp_all add: member_def image_header_def align_up_def)

lemma image_header_size: "csizeof (CStruct image_header) = 64"
  by (simp add: csizeof.simps(5) image_header_def align_up_def)

lemma concat_pieces: "concat (map (\<lambda>i. take k (drop (i * k) xs)) [0..<n]) = take (n * k) xs"
proof (induction n)
  case (Suc n)
  then show ?case by (simp add: take_add [symmetric] add.commute)
qed simp

lemma header_crc_ref:
  assumes "crc_unit eng" and "60 \<le> length img"
  shows "header_crc eng img = NOT (get_crc32 (take 60 img))"
proof -
  let ?u = "\<lambda>ctx m. tls_crypto_crc_update eng ctx m (of_nat (length m))"
  let ?p = "map (\<lambda>i. take 4 (drop (i * 4) img)) [0..<15]"
  have "foldl (\<lambda>ctx i. tls_crypto_crc_update eng ctx (take 4 (drop (i * 4) img)) 4) c [0..<15] = foldl ?u c ?p" for c
    unfolding foldl_map using assms(2) by (intro foldl_cong) auto
  moreover have "concat ?p = take 60 img" using concat_pieces [of 4 img 15] by simp
  moreover have "\<forall>m \<in> set ?p. length m < 65536" by auto
  ultimately show ?thesis
    using crc_chain [OF assms(1), of ?p "0xFFFFFFFF"]
    by (simp add: header_crc_def tls_crypto_crc_init_def tls_crypto_crc_final_def get_crc32_ref)
qed

text \<open>The conditions on the addresses of an image.\<close>

definition image_placed :: "u32 \<Rightarrow> u8 list \<Rightarrow> bool" where
  "image_placed user img \<longleftrightarrow>
     (let addr = hd32 ''img_addr'' img OR FLASH_BASE_ADDR; upd = hd32 ''upgrade_img_addr'' img OR FLASH_BASE_ADDR;
          len = hd32 ''img_len'' img
      in hd32 ''img_addr'' img mod 0x400 = 0 \<and> addr < user \<and> addr + len < user \<and>
         CODE_UPD_START_ADDR \<le> upd \<and> upd + len < CODE_RUN_START_ADDR)"

text \<open>What a header must look like, \<open>m\<close> being the contents of the flash.\<close>

definition header_ok :: "u32 \<Rightarrow> (nat \<Rightarrow> u8) \<Rightarrow> u8 list \<Rightarrow> bool" where
  "header_ok user m img \<longleftrightarrow>
     (let run = span m (unat (hd32 ''img_header_addr'' img) mod 2 ^ 27) 64
      in hd32 ''magic_no'' img = SIGNATURE_WORD \<and> img_type img = IMG_TYPE_FLASHBIN0 \<and>
         signature run = signature img \<and> code_encrypt run = code_encrypt img \<and> image_placed user img \<and>
         hd32 ''hd_checksum'' img = NOT (get_crc32 (take 60 img)))"

context nor_flash
begin

lemma header_check_ok:
  assumes "crc_unit eng" and "fls_ready csize d" and "length img = 64" and "length junk = 64"
    and "unat (hd32 ''img_header_addr'' img) mod 2 ^ 27 + 64 \<le> csize"
  shows "\<exists>d'. tls_fwup_img_header_check hw eng user junk img d = (header_ok user (V d) img, d') \<and>
    V d' = V d \<and> drv_keeps d d'"
proof -
  let ?a = "unat (hd32 ''img_header_addr'' img) mod 2 ^ 27"
  obtain d' where d': "tls_fls_read hw (hd32 ''img_header_addr'' img) (Some True) 64 d =
      (TLS_FLS_STATUS_OK, span (V d) ?a 64, d')" "V d' = V d" "drv_keeps d d'"
    using tls_fls_read_ok [OF assms(2), of 64 "hd32 ''img_header_addr'' img" True] assms(5) by auto
  have "overlay junk 0 (span (V d) ?a 64) = span (V d) ?a 64" using assms(4) by simp
  moreover have "header_crc eng img = NOT (get_crc32 (take 60 img))" using header_crc_ref [OF assms(1)] assms(3) by simp
  ultimately show ?thesis
    using d' by (auto simp: tls_fwup_img_header_check_def header_ok_def image_placed_def Let_def not_le drv_keeps_def)
qed

text \<open>An address behind the chip cannot be read; the function goes on with what its local variable happens to hold.\<close>

lemma header_check_unread:
  assumes "crc_unit eng" and "fls_ready csize d" and "length img = 64"
    and "csize \<le> unat (hd32 ''img_header_addr'' img) mod 2 ^ 27"
  shows "tls_fwup_img_header_check hw eng user junk img d =
    (hd32 ''magic_no'' img = SIGNATURE_WORD \<and> img_type img = IMG_TYPE_FLASHBIN0 \<and> signature junk = signature img \<and>
     code_encrypt junk = code_encrypt img \<and> image_placed user img \<and> hd32 ''hd_checksum'' img = NOT (get_crc32 (take 60 img)), d)"
proof -
  obtain f where f: "inside_fls d = Some f" using assms(2) by (auto simp: fls_ready_def)
  then have "tls_fls_read hw (hd32 ''img_header_addr'' img) (Some True) 64 d = (TLS_FLS_STATUS_EINVAL, [], d)"
    using fls_bad_args_iff [OF f assms(2)] assms(4) by (simp add: tls_fls_read_def)
  moreover have "header_crc eng img = NOT (get_crc32 (take 60 img))" using header_crc_ref [OF assms(1)] assms(3) by simp
  ultimately show ?thesis by (auto simp: tls_fwup_img_header_check_def image_placed_def Let_def not_le overlay_def)
qed

end

text \<open>The placement in natural numbers: the ends of the image are sums in 32 bits.\<close>

lemma image_placed_nat:
  "image_placed user img \<longleftrightarrow>
     (let a = unat (hd32 ''img_addr'' img OR FLASH_BASE_ADDR); u = unat (hd32 ''upgrade_img_addr'' img OR FLASH_BASE_ADDR);
          n = unat (hd32 ''img_len'' img)
      in unat (hd32 ''img_addr'' img) mod 1024 = 0 \<and> a < unat user \<and> (a + n) mod 2 ^ 32 < unat user \<and>
         0x8010000 \<le> u \<and> (u + n) mod 2 ^ 32 < 0x80D0000)"
proof -
  have "hd32 ''img_addr'' img mod 0x400 = 0 \<longleftrightarrow> unat (hd32 ''img_addr'' img) mod 1024 = 0"
    by (simp add: word_unat_eq_iff unat_mod)
  then show ?thesis
    by (simp add: image_placed_def Let_def word_less_nat_alt word_le_nat_alt unat_word_ariths)
qed

text \<open>
  C32.  What \<^verbatim>\<open>tls_fwup_img_header_check\<close> accepts: exactly the headers whose magic and type are those of a firmware image, whose
  signature and encryption flags are those of \<open>run\<close>, whose load address is a multiple of 1024 and lies, with its end, below the user
  area, whose upgrade address and end lie in the upgrade area, and whose last word is the complement of the CRC-32 of the
  first 60 bytes.  The ends are sums modulo \<open>2 ^ 32\<close>, so that a length near \<open>2 ^ 32\<close> passes.  \<open>run\<close> is the header in the flash at
  \<^verbatim>\<open>img_header_addr\<close>; for an address behind the chip the failure of the read is ignored, and \<open>run\<close> is the uninitialised variable.  The flash is
  only read.
\<close>

theorem header_check_iff:
  assumes "nor_flash hw view wel n" and "crc_unit eng" and "fls_ready n d" and "length img = 64" and "length junk = 64"
    and "h = unat (hd32 ''img_header_addr'' img) mod 2 ^ 27" and "h + 64 \<le> n \<or> n \<le> h"
    and "run = (if h < n then span (view (chip d)) h 64 else junk)"
    and "a = unat (hd32 ''img_addr'' img OR FLASH_BASE_ADDR)" and "u = unat (hd32 ''upgrade_img_addr'' img OR FLASH_BASE_ADDR)"
    and "len = unat (hd32 ''img_len'' img)"
  shows "(fst (tls_fwup_img_header_check hw eng user junk img d) \<longleftrightarrow>
      hd32 ''magic_no'' img = SIGNATURE_WORD \<and> img_type img = IMG_TYPE_FLASHBIN0 \<and>
      signature run = signature img \<and> code_encrypt run = code_encrypt img \<and>
      unat (hd32 ''img_addr'' img) mod 1024 = 0 \<and> a < unat user \<and> (a + len) mod 2 ^ 32 < unat user \<and>
      0x8010000 \<le> u \<and> (u + len) mod 2 ^ 32 < 0x80D0000 \<and>
      hd32 ''hd_checksum'' img = NOT (get_crc32 (take 60 img))) \<and>
    view (chip (snd (tls_fwup_img_header_check hw eng user junk img d))) = view (chip d)"
proof (cases "h < n")
  case True
  then have "h + 64 \<le> n" using assms(7) by simp
  then show ?thesis
    using nor_flash.header_check_ok [OF assms(1-5), of user] True unfolding assms(6,8-11)
    by (auto simp: header_ok_def Let_def image_placed_nat)
next
  case False
  then show ?thesis
    using nor_flash.header_check_unread [OF assms(1-4), of user junk] assms(6) unfolding assms(8-11)
    by (auto simp: image_placed_nat Let_def)
qed

section \<open>Verification of a stored image\<close>

definition image_size :: "u8 list \<Rightarrow> nat" where
  "image_size hdr = 64 + unat (hd32 ''img_len'' hdr) + (if signature hdr then 128 else 0)"

definition checksum_ok :: "u8 list \<Rightarrow> u8 list \<Rightarrow> bool" where
  "checksum_ok hdr body \<longleftrightarrow> hd32 ''org_checksum'' hdr = NOT (get_crc32 (take (unat (hd32 ''img_len'' hdr)) body))"

text \<open>The conditions under which the sectors of the image fit into a flash of \<open>csize\<close> bytes with contents \<open>V0\<close>.\<close>

definition storable :: "nat \<Rightarrow> u32 \<Rightarrow> (nat \<Rightarrow> u8) \<Rightarrow> nat \<Rightarrow> u8 list \<Rightarrow> bool" where
  "storable csize user V0 a0 hdr \<longleftrightarrow>
     length hdr = 64 \<and> header_ok user V0 hdr \<and> unat (hd32 ''img_header_addr'' hdr) mod 2 ^ 27 + 64 \<le> csize \<and>
     unat (hd32 ''upgrade_img_addr'' hdr OR FLASH_BASE_ADDR) = 134217728 + a0 \<and> 4096 dvd a0 \<and>
     64 < image_size hdr \<and> a0 + image_size hdr \<le> csize"

text \<open>The contents of the flash after the sectors of an image and, if it verified, the flag have been written.\<close>

definition image_stored :: "flash_layout \<Rightarrow> (nat \<Rightarrow> u8) \<Rightarrow> nat \<Rightarrow> u8 list \<Rightarrow> u8 list \<Rightarrow> (nat \<Rightarrow> u8) \<Rightarrow> bool" where
  "image_stored l V0 a0 hdr body m \<longleftrightarrow>
     (\<exists>pad. length (hdr @ body @ pad) \<le> (length (hdr @ body) div 4096 + 1) * 4096 \<and>
        m = (let m1 = blit V0 a0 (hdr @ body @ pad)
             in if checksum_ok hdr body
                then blit m1 (unat (FLASH_OTA_FLAG_ADDR l) mod 2 ^ 27) (le32 (hd32 ''org_checksum'' hdr)) else m1))"

context nor_flash
begin

lemma image_crc_ok:
  assumes "crc_unit eng" and "fls_ready csize d" and "left \<noteq> 0 \<Longrightarrow> unat (base + offset) mod 2 ^ 27 = a" and "a + left \<le> csize"
  shows "\<exists>d'. image_crc hw eng base offset left \<lparr>state = c, ctype = CRYPTO_CRC_TYPE_32, mode = 3\<rparr> d =
      (Some \<lparr>state = crc_ref 0xEDB88320 c (span (V d) a left), ctype = CRYPTO_CRC_TYPE_32, mode = 3\<rparr>, d') \<and>
    V d' = V d \<and> drv_keeps d d'"
  using assms(2-4)
proof (induction left arbitrary: offset a c d rule: less_induct)
  case (less left)
  show ?case
  proof (cases "left = 0")
    case True
    then show ?thesis by (subst image_crc.simps) (auto simp: drv_keeps_def)
  next
    case False
    define len where "len = (if left > 1024 then 1024 else left)"
    have len: "0 < len" "len \<le> 1024" "len \<le> left" "left - len < left" using False by (auto simp: len_def)
    have u: "unat (of_nat len :: u32) = len" using len by (simp add: unat_of_nat_u32)
    have pos: "0 < (of_nat len :: u32)" using u len(1) by (simp only: word_less_nat_alt) simp
    have a: "unat (base + offset) mod 2 ^ 27 = a" using less.prems(2) False by blast
    have "a + len \<le> csize" using less.prems(3) len(3) by simp
    then obtain e where e: "tls_fls_read hw (base + offset) (Some True) (of_nat len) d =
        (TLS_FLS_STATUS_OK, span (V d) a len, e)" "V e = V d" "drv_keeps d e"
      using tls_fls_read_ok [OF less.prems(1) pos, of "base + offset" True] u a by auto
    have "unat (base + (offset + of_nat len)) mod 2 ^ 27 = a + len" if "left - len \<noteq> 0"
      using addr_plus [of "base + offset" len] a that less.prems(3) csize_le by (simp add: add.assoc)
    moreover have "a + len + (left - len) \<le> csize" using less.prems(3) len(3) by simp
    ultimately obtain d' where d': "image_crc hw eng base (offset + of_nat len) (left - len)
        \<lparr>state = crc_ref 0xEDB88320 c (span (V d) a len), ctype = CRYPTO_CRC_TYPE_32, mode = 3\<rparr> e =
        (Some \<lparr>state = crc_ref 0xEDB88320 c (span (V d) a left), ctype = CRYPTO_CRC_TYPE_32, mode = 3\<rparr>, d')"
      "V d' = V d" "drv_keeps e d'"
      using less.IH [OF len(4) fls_ready_keeps [OF e(3) less.prems(1)], of "offset + of_nat len" "a + len"
          "crc_ref 0xEDB88320 c (span (V d) a len)"] e(2) len(3)
      by (auto simp: crc_ref_append [symmetric] span_append)
    have "tls_crypto_crc_update eng \<lparr>state = c, ctype = CRYPTO_CRC_TYPE_32, mode = 3\<rparr> (span (V d) a len) (of_nat len) =
        \<lparr>state = crc_ref 0xEDB88320 c (span (V d) a len), ctype = CRYPTO_CRC_TYPE_32, mode = 3\<rparr>"
      using crc_unit.update_crc32 [OF assms(1), of "of_nat len" "span (V d) a len" c] u len(2) by simp
    then show ?thesis
      using d' e drv_keeps_trans [OF e(3) d'(3)] False
      by (subst image_crc.simps) (simp add: Let_def len_def [symmetric])
  qed
qed

text \<open>The state of a session that has received the bytes \<open>D\<close>, not yet all of the image.\<close>

definition receiving :: "(nat \<Rightarrow> u8) \<Rightarrow> nat \<Rightarrow> u8 list \<Rightarrow> u8 list \<Rightarrow> fwup_t \<Rightarrow> u8 list \<Rightarrow> 'c fls \<Rightarrow> bool" where
  "receiving V0 a0 hdr D f img d \<longleftrightarrow>
     received_len f = of_nat (length D) \<and> current_state f AND STATE_ERROR = 0 \<and> current_state f AND STATE_COMPLETE = 0 \<and>
     fls_ready csize d \<and> length img = 64 \<and> length D < image_size hdr \<and>
     (if length D < 64 then take (length D) img = D \<and> updated_len f = 0 \<and> fast_open V0 a0 [] d \<and> V d = V0
      else img = hdr \<and> updated_len f = of_nat (length D) \<and> program_offset f = of_nat (length D) \<and>
        program_base f = of_nat (134217728 + a0) \<and> total_len f = of_nat (image_size hdr) \<and> fast_stream V0 a0 D d)"

lemma storable_base:
  assumes "storable csize user V0 a0 hdr"
  shows "hd32 ''upgrade_img_addr'' hdr OR FLASH_BASE_ADDR = of_nat (134217728 + a0)"
  using assms csize_le by (intro word_unat_eq_iff [THEN iffD2]) (simp add: storable_def unat_of_nat_u32 del: of_nat_add)

lemma storable_size:
  assumes "storable csize user V0 a0 hdr"
  shows "image_size hdr \<le> 2 ^ 25" "a0 \<le> 2 ^ 25" "a0 + image_size hdr \<le> 2 ^ 25"
    "hd32 ''img_len'' hdr + header_len + (if signature hdr then 128 else 0) = of_nat (image_size hdr)"
  using assms csize_le by (auto simp: storable_def image_size_def header_len_def)

lemma fast_open_keeps:
  assumes "drv_keeps d d'" and "V d' = V d"
  shows "fast_open V0 a0 data d' = fast_open V0 a0 data d"
  using assms by (simp add: fast_open_def fast_stream_def drv_keeps_def)

text \<open>A complete header is checked and becomes the first piece of the stream in flash.\<close>

lemma take_header_end:
  assumes "crc_unit eng" and "length junk = 64" and "storable csize user V0 a0 hdr" and "fls_ready csize d"
    and "fast_open V0 a0 [] d" and "V d = V0"
  shows "\<exists>d1 d'. tls_fwup_img_header_check hw eng user junk hdr d = (True, d1) \<and>
    tls_fls_fast_write hw (of_nat (134217728 + a0)) (Some hdr) header_len d1 = Some (TLS_FLS_STATUS_OK, d') \<and>
    fast_stream V0 a0 hdr d' \<and> fls_ready csize d'"
proof -
  note st = assms(3) [unfolded storable_def]
  obtain d1 where d1: "tls_fwup_img_header_check hw eng user junk hdr d = (True, d1)" "V d1 = V d" "drv_keeps d d1"
    using header_check_ok [OF assms(1,4) _ assms(2), of hdr user] st assms(6) by auto
  have op: "fast_open V0 a0 [] d1" "fls_ready csize d1"
    using fast_open_keeps [OF d1(3,2)] fls_ready_keeps [OF d1(3) assms(4)] assms(5) by auto
  have "unat (of_nat (134217728 + a0) :: u32) = 134217728 + a0"
    using storable_size(2) [OF assms(3)] by (simp add: unat_of_nat_u32 del: of_nat_add)
  then obtain d' where "tls_fls_fast_write hw (of_nat (134217728 + a0)) (Some hdr) header_len d1 = Some (TLS_FLS_STATUS_OK, d')"
    "fast_stream V0 a0 hdr d'" "fls_ready csize d'"
    using tls_fls_fast_write_stream [OF op(2) _ op(1), of "of_nat (134217728 + a0)" header_len hdr] st
    by (auto simp: header_len_def)
  then show ?thesis using d1(1) by blast
qed

lemma take_header_step:
  assumes "crc_unit eng" and "length junk = 64" and "storable csize user V0 a0 hdr" and "receiving V0 a0 hdr D f img d"
    and "take 64 (D @ c) = take (length (D @ c)) hdr"
  shows "\<exists>n f' img' d'. take_header hw eng user junk c f img d = Some (Inr (drop n c), f', img', d') \<and>
    receiving V0 a0 hdr (D @ take n c) f' img' d' \<and> (drop n c \<noteq> [] \<longrightarrow> 64 \<le> length (D @ take n c))"
proof (cases "length D < 64")
  case False
  have "length D < 2 ^ 25" using assms(4) storable_size(1) [OF assms(3)] by (auto simp: receiving_def)
  then have "\<not> received_len f < header_len"
    using False assms(4) by (simp add: receiving_def header_len_def word_less_nat_alt unat_of_nat_u32)
  then show ?thesis using assms(4) False by (intro exI [of _ 0]) (simp add: take_header_def)
next
  case True
  note r = assms(4) [unfolded receiving_def]
  have ul: "unat (of_nat (length D) :: u32) = length D" using True by (simp add: unat_of_nat_u32)
  have lt: "received_len f < header_len" using r True ul by (simp add: header_len_def word_less_nat_alt)
  define n where "n = min (64 - length D) (length c)"
  define img' where "img' = overlay img (length D) (take n c)"
  have n: "unat (header_len - received_len f) = 64 - length D"
    using lt ul r by (simp add: unat_sub header_len_def word_less_nat_alt word_le_nat_alt)
  have ln: "length D + n \<le> 64" "n \<le> length c" "length (D @ take n c) = length D + n" using True by (auto simp: n_def)
  have img': "length img' = 64" "take (length D + n) img' = D @ take n c"
    using r True ln by (auto simp: img'_def overlay_def)
  have rl: "received_len f + of_nat n = of_nat (length D + n)" using r by simp
  show ?thesis
  proof (cases "length D + n = 64")
    case False
    then have "drop n c = []" "length D + n < 64" using ln by (auto simp: n_def)
    moreover have "(of_nat (length D + n) :: u32) \<noteq> header_len"
      using \<open>length D + n < 64\<close> by (simp add: header_len_def word_unat_eq_iff unat_of_nat_u32 del: of_nat_add)
    moreover have "length D + n < image_size hdr" using assms(3) ln(1) by (simp add: storable_def)
    ultimately show ?thesis
      using lt r img' ln n ul rl True
      by (intro exI [of _ n]) (simp add: take_header_def Let_def n_def [symmetric] img'_def receiving_def del: of_nat_add)
  next
    case 64: True
    have "D @ take n c = take 64 (D @ c)" using 64 ln by (auto simp: n_def)
    also have "\<dots> = hdr" using assms(3,5) 64 ln by (simp add: storable_def)
    finally have hdr: "D @ take n c = hdr" "img' = hdr" using img' 64 by simp_all
    obtain d1 d' where d: "tls_fwup_img_header_check hw eng user junk hdr d = (True, d1)"
      "tls_fls_fast_write hw (of_nat (134217728 + a0)) (Some hdr) header_len d1 = Some (TLS_FLS_STATUS_OK, d')"
      "fast_stream V0 a0 hdr d'" "fls_ready csize d'"
      using take_header_end [OF assms(1-3), of d] r True by auto
    have "receiving V0 a0 hdr hdr ((begin_image hdr (f\<lparr>received_len := header_len\<rparr>))
        \<lparr>updated_len := header_len, program_offset := header_len\<rparr>) hdr d'"
      using r d(3,4) assms(3) storable_size(4) [OF assms(3)] storable_base [OF assms(3)]
      by (simp add: receiving_def begin_image_def storable_def header_len_def)
    moreover have "program_base (begin_image hdr (f\<lparr>received_len := header_len\<rparr>)) = of_nat (134217728 + a0)"
      "program_offset (begin_image hdr (f\<lparr>received_len := header_len\<rparr>)) = 0"
      using storable_base [OF assms(3)] by (simp_all add: begin_image_def)
    moreover have "length hdr = 64" using assms(3) by (simp add: storable_def)
    moreover have "received_len f + of_nat n = header_len" using rl 64 by (simp add: header_len_def)
    ultimately show ?thesis
      using lt d hdr n ul r
      by (intro exI [of _ n]) (simp add: take_header_def Let_def n_def [symmetric] img'_def [symmetric] del: of_nat_add)
  qed
qed

lemma destroy_stored:
  assumes "storable csize user V0 a0 hdr" and "fls_ready csize d" and "fast_stream V0 a0 (hdr @ body) d"
    and "length (hdr @ body) = image_size hdr"
  shows "\<exists>pad. V (tls_fls_fast_write_destroy hw d) = blit V0 a0 (hdr @ body @ pad) \<and>
    length (hdr @ body @ pad) \<le> (length (hdr @ body) div 4096 + 1) * 4096 \<and>
    fls_ready csize (tls_fls_fast_write_destroy hw d)"
proof -
  let ?d = "hdr @ body"
  have st: "4096 dvd a0" "a0 + length ?d \<le> csize" using assms(1,4) by (simp_all add: storable_def)
  note r = tls_fls_fast_write_destroy_stream [OF assms(2) st(1) assms(3) st(2)]
  show ?thesis
  proof (cases "a0 + length ?d = csize")
    case True
    have "length ?d \<le> (length ?d div 4096 + 1) * 4096"
      by (simp add: algebra_simps)
    then show ?thesis using r(2) r(3) [OF True] by (intro exI [of _ "[]"]) simp
  next
    case False
    then obtain pad where "length (?d @ pad) = (length ?d div 4096 + 1) * 4096"
      "V (tls_fls_fast_write_destroy hw d) = blit V0 a0 (?d @ pad)" using r(4) st(2) by auto
    then show ?thesis using r(2) by (intro exI [of _ pad]) simp
  qed
qed

lemma finish_image_ok:
  assumes "crc_unit eng" and "storable csize user V0 a0 hdr" and "fls_ready csize d" and "fast_stream V0 a0 (hdr @ body) d"
    and "length (hdr @ body) = image_size hdr" and "program_base f = of_nat (134217728 + a0)"
    and "total_len f = of_nat (image_size hdr)" and "unat (FLASH_OTA_FLAG_ADDR l) mod 2 ^ 27 + 4 \<le> csize"
  shows "\<exists>st f' d'. finish_image hw eng l True hdr f d = (st, f', d') \<and>
    st = (if checksum_ok hdr body then REQ_SUCCESS else REQ_FCRC) \<and>
    f' = f\<lparr>current_state := current_state f OR (if checksum_ok hdr body then STATE_COMPLETE else STATE_ERROR_CRC)\<rparr> \<and>
    fls_ready csize d' \<and> image_stored l V0 a0 hdr body (V d')"
proof -
  define e where "e = tls_fls_fast_write_destroy hw d"
  define n where "n = unat (hd32 ''img_len'' hdr)"
  define K :: u32 where "K = crc_ref 0xEDB88320 0xFFFFFFFF (take n body)"
  obtain pad where e: "V e = blit V0 a0 (hdr @ body @ pad)" "fls_ready csize e"
    "length (hdr @ body @ pad) \<le> (length (hdr @ body) div 4096 + 1) * 4096"
    using destroy_stored [OF assms(2-5)] by (auto simp: e_def)
  have h: "length hdr = 64" using assms(2) by (simp add: storable_def)
  have nb: "n \<le> length body" using assms(5) h by (simp add: image_size_def n_def)
  have left: "unat (total_len f - (if signature hdr then 128 else 0) - header_len) = n"
    unfolding assms(7) by (simp add: image_size_def n_def header_len_def)
  have sp: "span (V e) (a0 + 64) n = take n body"
    unfolding e(1) using nb h by (intro nth_equalityI) (auto simp: blit_apply nth_append)
  have b: "unat (of_nat (134217728 + a0) + header_len) mod 2 ^ 27 = a0 + 64"
  proof -
    have "unat (of_nat (134217728 + a0) :: u32) mod 2 ^ 27 = a0"
      using storable_size(2) [OF assms(2)] by (simp add: unat_of_nat_u32 mod_if del: of_nat_add)
    then show ?thesis
      using addr_plus [of "of_nat (134217728 + a0)" 64] storable_size(2) [OF assms(2)] by (simp add: header_len_def)
  qed
  have "a0 + 64 + n \<le> csize" using assms(2) by (simp add: storable_def image_size_def n_def)
  then obtain d1 where d1: "image_crc hw eng (program_base f) header_len n (tls_crypto_crc_init 0xFFFFFFFF CRYPTO_CRC_TYPE_32 3) e =
      (Some \<lparr>state = K, ctype = CRYPTO_CRC_TYPE_32, mode = 3\<rparr>, d1)" "V d1 = V e" "drv_keeps e d1"
    using image_crc_ok [OF assms(1) e(2), of n "of_nat (134217728 + a0)" header_len "a0 + 64" "0xFFFFFFFF"] b
    by (auto simp: sp tls_crypto_crc_init_def assms(6) K_def)
  have ck: "hd32 ''org_checksum'' hdr = K \<longleftrightarrow> checksum_ok hdr body"
    by (simp add: checksum_ok_def K_def n_def get_crc32_ref)
  have rd: "fls_ready csize d1" using fls_ready_keeps [OF d1(3) e(2)] .
  obtain d2 where d2: "tls_fls_write hw (FLASH_OTA_FLAG_ADDR l) (Some (le32 (hd32 ''org_checksum'' hdr))) 4 d1 = (TLS_FLS_STATUS_OK, d2)"
    "V d2 = blit (V d1) (unat (FLASH_OTA_FLAG_ADDR l) mod 2 ^ 27) (le32 (hd32 ''org_checksum'' hdr))" "drv_keeps d1 d2"
    using tls_fls_write_ok [OF rd, of 4 "FLASH_OTA_FLAG_ADDR l" "le32 (hd32 ''org_checksum'' hdr)"] assms(8) by auto
  have "finish_image hw eng l True hdr f d =
      (if checksum_ok hdr body then (REQ_SUCCESS, f\<lparr>current_state := current_state f OR STATE_COMPLETE\<rparr>, d2)
       else (REQ_FCRC, f\<lparr>current_state := current_state f OR STATE_ERROR_CRC\<rparr>, d1))"
    using d1(1) d2(1) ck by (simp add: finish_image_def e_def [symmetric] Let_def left fail_def tls_crypto_crc_final_def)
  then show ?thesis
    using d1 d2 e rd fls_ready_keeps [OF d2(3) rd] by (auto simp: image_stored_def Let_def)
qed

text \<open>Data behind the header goes to the flash.\<close>

lemma store_write:
  assumes "storable csize user V0 a0 hdr" and "receiving V0 a0 hdr D f img d" and "64 \<le> length D" and "c \<noteq> []"
    and "length (D @ c) \<le> image_size hdr"
  shows "\<exists>d'. tls_fls_fast_write hw (program_base f + program_offset f) (Some c) (of_nat (length c)) d = Some (TLS_FLS_STATUS_OK, d') \<and>
    fast_stream V0 a0 (D @ c) d' \<and> fls_ready csize d'"
proof -
  note r = assms(2) [unfolded receiving_def]
  note sz = storable_size [OF assms(1)]
  have a: "program_base f + program_offset f = of_nat (134217728 + a0 + length D)" using r assms(3) by simp
  have u: "unat (of_nat (134217728 + a0 + length D) :: u32) = 134217728 + a0 + length D"
    "unat (of_nat (length c) :: u32) = length c"
    using sz assms(5) by (simp_all add: unat_of_nat_u32 del: of_nat_add)
  have pos: "0 < (of_nat (length c) :: u32)" using u(2) assms(4) by (simp only: word_less_nat_alt) simp
  have "fast_open V0 a0 D d" "a0 + length D + length c \<le> csize"
    using r assms(1,3,5) by (simp_all add: fast_open_def storable_def)
  then show ?thesis
    using tls_fls_fast_write_stream [OF _ _ _ u(1) pos, of d V0 c] r assms(1) u(2)
    unfolding a by (simp add: storable_def del: of_nat_add)
qed

lemma store_data_step:
  assumes "storable csize user V0 a0 hdr" and "receiving V0 a0 hdr D f img d" and "c \<noteq> [] \<longrightarrow> 64 \<le> length D"
    and "length (D @ c) < image_size hdr"
  shows "\<exists>f' d'. store_data hw eng l mem img c f d = Some (REQ_SUCCESS, f', d') \<and> receiving V0 a0 hdr (D @ c) f' img d'"
proof (cases "c = []")
  case True
  then show ?thesis using assms(2) by (simp add: store_data_def)
next
  case False
  note r = assms(2) [unfolded receiving_def]
  obtain d' where d': "tls_fls_fast_write hw (program_base f + program_offset f) (Some c) (of_nat (length c)) d = Some (TLS_FLS_STATUS_OK, d')"
    "fast_stream V0 a0 (D @ c) d'" "fls_ready csize d'"
    using store_write [OF assms(1,2) _ False] assms(3,4) False by auto
  have "\<not> total_len f \<le> of_nat (length D + length c)"
    using r assms(3,4) False storable_size(1) [OF assms(1)]
    by (simp add: word_le_nat_alt unat_of_nat_u32 del: of_nat_add)
  then show ?thesis using r d' assms(3,4) False by (auto simp: store_data_def Let_def receiving_def)
qed

lemma store_data_last:
  assumes "crc_unit eng" and "storable csize user V0 a0 hdr" and "receiving V0 a0 hdr D f hdr d"
    and "c \<noteq> []" and "64 \<le> length D" and "D @ c = hdr @ body" and "length (D @ c) = image_size hdr"
    and "unat (FLASH_OTA_FLAG_ADDR l) mod 2 ^ 27 + 4 \<le> csize"
  shows "\<exists>f' d'. store_data hw eng l True hdr c f d = Some (if checksum_ok hdr body then REQ_SUCCESS else REQ_FCRC, f', d') \<and>
    updated_len f' = of_nat (image_size hdr) \<and> total_len f' = of_nat (image_size hdr) \<and>
    (current_state f' AND STATE_COMPLETE \<noteq> 0 \<longleftrightarrow> checksum_ok hdr body) \<and>
    fls_ready csize d' \<and> image_stored l V0 a0 hdr body (V d')"
proof -
  note r = assms(3) [unfolded receiving_def]
  obtain d1 where d1: "tls_fls_fast_write hw (program_base f + program_offset f) (Some c) (of_nat (length c)) d = Some (TLS_FLS_STATUS_OK, d1)"
    "fast_stream V0 a0 (hdr @ body) d1" "fls_ready csize d1"
    using store_write [OF assms(2,3,5,4)] assms(6,7) by auto
  define g where "g = f\<lparr>received_len := received_len f + of_nat (length c), program_offset := program_offset f + of_nat (length c),
    updated_len := updated_len f + of_nat (length c)\<rparr>"
  have g: "program_base g = of_nat (134217728 + a0)" "total_len g = of_nat (image_size hdr)"
    "updated_len g = of_nat (image_size hdr)" "current_state g AND STATE_COMPLETE = 0"
    using r assms(5) assms(7) [symmetric] by (simp_all add: g_def)
  obtain st f' d' where f': "finish_image hw eng l True hdr g d1 = (st, f', d')"
    "st = (if checksum_ok hdr body then REQ_SUCCESS else REQ_FCRC)"
    "f' = g\<lparr>current_state := current_state g OR (if checksum_ok hdr body then STATE_COMPLETE else STATE_ERROR_CRC)\<rparr>"
    "fls_ready csize d'" "image_stored l V0 a0 hdr body (V d')"
    using finish_image_ok [OF assms(1,2) d1(3,2) _ g(1,2) assms(8)] assms(6,7) by auto
  have "current_state f' AND STATE_COMPLETE \<noteq> 0 \<longleftrightarrow> checksum_ok hdr body"
    using g(4) by (auto simp: f'(3) bit.conj_disj_distrib2)
  moreover have "updated_len f' = of_nat (image_size hdr)" "total_len f' = of_nat (image_size hdr)"
    by (simp_all add: f'(3) g)
  ultimately show ?thesis
    using assms(4) d1(1) f'(1,2,4,5) g(2,3) by (simp add: store_data_def Let_def g_def [symmetric])
qed

lemma serve_request_step:
  assumes "crc_unit eng" and "length junk = 64" and "storable csize user V0 a0 hdr" and "receiving V0 a0 hdr D f img d"
    and "take 64 (D @ c) = take (length (D @ c)) hdr" and "length (D @ c) < image_size hdr"
  shows "\<exists>f' img' d'. serve_request hw eng l user junk mem c f img d = Some (REQ_SUCCESS, f', img', d') \<and>
    receiving V0 a0 hdr (D @ c) f' img' d'"
proof -
  obtain n f1 img' d1 where h: "take_header hw eng user junk c f img d = Some (Inr (drop n c), f1, img', d1)"
    "receiving V0 a0 hdr (D @ take n c) f1 img' d1" "drop n c \<noteq> [] \<longrightarrow> 64 \<le> length (D @ take n c)"
    using take_header_step [OF assms(1-5)] by blast
  obtain f' d' where "store_data hw eng l mem img' (drop n c) f1 d1 = Some (REQ_SUCCESS, f', d')"
    "receiving V0 a0 hdr (D @ c) f' img' d'"
    using store_data_step [OF assms(3) h(2,3), where eng = eng and l = l and mem = mem] assms(6) by auto
  moreover have "current_state f AND STATE_ERROR = 0" "current_state f AND STATE_COMPLETE = 0"
    using assms(4) by (simp_all add: receiving_def)
  ultimately show ?thesis using h(1) by (simp add: serve_request_def)
qed

lemma serve_request_last:
  assumes "crc_unit eng" and "length junk = 64" and "storable csize user V0 a0 hdr" and "receiving V0 a0 hdr D f img d"
    and "D @ c = hdr @ body" and "length (hdr @ body) = image_size hdr"
    and "unat (FLASH_OTA_FLAG_ADDR l) mod 2 ^ 27 + 4 \<le> csize"
  shows "\<exists>f' d'. serve_request hw eng l user junk True c f img d = Some (if checksum_ok hdr body then REQ_SUCCESS else REQ_FCRC, f', hdr, d') \<and>
    updated_len f' = of_nat (image_size hdr) \<and> total_len f' = of_nat (image_size hdr) \<and>
    (current_state f' AND STATE_COMPLETE \<noteq> 0 \<longleftrightarrow> checksum_ok hdr body) \<and>
    fls_ready csize d' \<and> image_stored l V0 a0 hdr body (V d')"
proof -
  have "take 64 (D @ c) = take (length (D @ c)) hdr" using assms(3,5,6) by (simp add: storable_def)
  then obtain n f1 img' d1 where h: "take_header hw eng user junk c f img d = Some (Inr (drop n c), f1, img', d1)"
    "receiving V0 a0 hdr (D @ take n c) f1 img' d1" "drop n c \<noteq> [] \<longrightarrow> 64 \<le> length (D @ take n c)"
    using take_header_step [OF assms(1-4)] by blast
  have e: "(D @ take n c) @ drop n c = hdr @ body" using assms(5) by simp
  have "drop n c \<noteq> []"
  proof
    assume "drop n c = []"
    then have "length (D @ take n c) = image_size hdr" using e assms(6) by simp
    then show False using h(2) by (simp add: receiving_def)
  qed
  moreover from this have h4: "img' = hdr" "64 \<le> length (D @ take n c)" using h(2,3) by (auto simp: receiving_def)
  moreover have "length ((D @ take n c) @ drop n c) = image_size hdr" using e assms(6) by simp
  ultimately obtain f' d' where "store_data hw eng l True hdr (drop n c) f1 d1 =
      Some (if checksum_ok hdr body then REQ_SUCCESS else REQ_FCRC, f', d')"
    "updated_len f' = of_nat (image_size hdr) \<and> total_len f' = of_nat (image_size hdr) \<and>
      (current_state f' AND STATE_COMPLETE \<noteq> 0 \<longleftrightarrow> checksum_ok hdr body) \<and>
      fls_ready csize d' \<and> image_stored l V0 a0 hdr body (V d')"
    using store_data_last [OF assms(1,3) _ _ _ e _ assms(7), of f1 d1] h(2) by auto
  then show ?thesis using h(1) h4 assms(4) by (simp add: serve_request_def receiving_def)
qed

lemma receiving_unfinished:
  assumes "storable csize user V0 a0 hdr" and "receiving V0 a0 hdr D f img d"
  shows "\<not> (header_len \<le> updated_len f \<and> total_len f \<le> updated_len f)" "current_state f AND STATE_COMPLETE = 0"
  using assms storable_size(1) [OF assms(1)]
  by (auto simp: receiving_def header_len_def word_le_nat_alt unat_of_nat_u32 split: if_splits)

lemma serve_all_update:
  assumes "crc_unit eng" and "length junk = 64" and "storable csize user V0 a0 hdr"
    and "length (hdr @ body) = image_size hdr" and "unat (FLASH_OTA_FLAG_ADDR l) mod 2 ^ 27 + 4 \<le> csize"
    and "receiving V0 a0 hdr D f (booter s) (fl s)" and "D @ concat (wait_list s) = hdr @ body" and "\<forall>c \<in> set (wait_list s). c \<noteq> []"
  shows "\<exists>t. serve_all hw eng l user junk True f s =
      Some (replicate (length (wait_list s) - 1) REQ_SUCCESS @ [if checksum_ok hdr body then REQ_SUCCESS else REQ_FCRC], t) \<and>
    wait_list t = [] \<and> resets t = Suc (resets s) \<and> fls_ready csize (fl t) \<and> image_stored l V0 a0 hdr body (V (fl t))"
  using assms(6-8)
proof (induction "wait_list s" arbitrary: s D f)
  case Nil
  then show ?case using assms(4) by (auto simp: receiving_def)
next
  case (Cons c cs)
  note w = Cons.hyps(2) [symmetric]
  show ?case
  proof (cases "cs = []")
    case True
    then obtain f' d' where f': "serve_request hw eng l user junk True c f (booter s) (fl s) =
        Some (if checksum_ok hdr body then REQ_SUCCESS else REQ_FCRC, f', hdr, d')"
      "updated_len f' = of_nat (image_size hdr)" "total_len f' = of_nat (image_size hdr)"
      "fls_ready csize d'" "image_stored l V0 a0 hdr body (V d')"
      using serve_request_last [OF assms(1-3) Cons.prems(1) _ assms(4,5), of c] Cons.prems(2) w by auto
    have "header_len \<le> (of_nat (image_size hdr) :: u32)"
      using storable_size(1) [OF assms(3)] assms(3)
      by (simp add: storable_def header_len_def word_le_nat_alt unat_of_nat_u32)
    then show ?thesis
      using f' w True
      by (subst serve_all.simps) (auto simp: Let_def request_finish_def fwup_update_autoflag_def set_fl_def fl_def)
  next
    case False
    have "take 64 (D @ c) = take (length (D @ c)) hdr"
      using arg_cong [OF Cons.prems(2), of "\<lambda>xs. take (min 64 (length (D @ c))) xs"] w assms(3)
      by (simp add: storable_def min_def split: if_splits)
    moreover have "length (D @ c) < image_size hdr"
    proof -
      have "0 < length (concat cs)" using False Cons.prems(3) w by (cases cs) auto
      moreover have "length (D @ c) + length (concat cs) = image_size hdr"
        using arg_cong [OF Cons.prems(2), of length] assms(4) w by simp
      ultimately show ?thesis by linarith
    qed
    ultimately obtain f' img' d' where f': "serve_request hw eng l user junk True c f (booter s) (fl s) = Some (REQ_SUCCESS, f', img', d')"
      "receiving V0 a0 hdr (D @ c) f' img' d'"
      using serve_request_step [OF assms(1-3) Cons.prems(1)] by blast
    define t where "t = (set_fl d' s)\<lparr>booter := img', wait_list := cs, fw := Live f'\<rparr>"
    have t: "cs = wait_list t" "booter t = img'" "fl t = d'" "resets t = resets s" by (simp_all add: t_def fl_def set_fl_def)
    have "request_finish REQ_SUCCESS f' ((set_fl d' s)\<lparr>booter := img'\<rparr>) = t"
      using receiving_unfinished [OF assms(3) f'(2)] w False by (auto simp: request_finish_def t_def set_fl_def Let_def)
    moreover obtain u where "serve_all hw eng l user junk True f' t =
        Some (replicate (length cs - 1) REQ_SUCCESS @ [if checksum_ok hdr body then REQ_SUCCESS else REQ_FCRC], u)"
      "wait_list u = []" "resets u = Suc (resets t)" "fls_ready csize (fl u)" "image_stored l V0 a0 hdr body (V (fl u))"
      using Cons.hyps(1) [OF t(1), of "D @ c" f'] f'(2) Cons.prems w t by auto
    moreover have "REQ_SUCCESS # replicate (length cs - Suc 0) REQ_SUCCESS = replicate (length cs) REQ_SUCCESS" "fw t = Live f'"
      using False by (cases cs) (simp_all add: t_def)
    ultimately show ?thesis
      using f'(1) w t(4) receiving_unfinished(2) [OF assms(3) f'(2)] False
      by (subst serve_all.simps) (simp add: Let_def set_fl_def)
  qed
qed

end

text \<open>
  C33.  A firmware image whose header is acceptable and whose sectors fit into the flash, queued in any division into
  requests for a fresh session, is stored byte for byte at its upgrade address.  If its checksum is the one the
  header announces, every request succeeds and the checksum is written to the OTA flag; otherwise the last
  request fails with a CRC error and the flag is left alone.  The list of requests is empty at the end and the
  system is reset exactly once.
\<close>

theorem fwup_image_stored:
  assumes "nor_flash hw view wel csize" and "crc_unit eng" and "length junk = 64"
    and "fls_ready csize (fl s)" and "gsflscache (fl s) = Some cache" and "length cache = 4096" and "gsSector (fl s) = 0"
    and "fw s = Live f" and "received_len f = 0" and "updated_len f = 0" and "current_state f = 0" and "length (booter s) = 64"
    and "storable csize user (view (chip (fl s))) a0 hdr" and "length (hdr @ body) = image_size hdr"
    and "concat (wait_list s) = hdr @ body" and "\<forall>c \<in> set (wait_list s). c \<noteq> []"
    and "unat (FLASH_OTA_FLAG_ADDR l) mod 2 ^ 27 + 4 \<le> csize"
  shows "\<exists>t. fwup_scheduler_start hw eng l user junk True s =
      Some (replicate (length (wait_list s) - 1) REQ_SUCCESS @ [if checksum_ok hdr body then REQ_SUCCESS else REQ_FCRC], t) \<and>
    wait_list t = [] \<and> resets t = Suc (resets s) \<and> fls_ready csize (fl t) \<and>
    image_stored l (view (chip (fl s))) a0 hdr body (view (chip (fl t)))"
proof -
  have h: "length hdr = 64" "64 < image_size hdr" using assms(13) by (simp_all add: storable_def)
  define f1 where "f1 = f\<lparr>current_state := current_state f OR STATE_BUSY\<rparr>"
  define s1 where "s1 = s\<lparr>fw := Live f1\<rparr>"
  have s1: "wait_list s1 = wait_list s" "booter s1 = booter s" "fl s1 = fl s" "resets s1 = resets s"
    by (simp_all add: s1_def fl_def)
  have "nor_flash.receiving view csize (view (chip (fl s))) a0 hdr [] f1 (booter s1) (fl s1)"
    using assms(4-12) h nor_flash.receiving_def [OF assms(1)] nor_flash.fast_open_def [OF assms(1)]
    by (simp add: f1_def s1)
  then show ?thesis
    using nor_flash.serve_all_update [OF assms(1-3,13,14,17), of "[]" f1 s1] assms(8,15,16) s1 h
    by (auto simp: fwup_scheduler_start_def f1_def [symmetric] s1_def [symmetric])
qed

text \<open>A small image: a signed header with four bytes of code and the signature, for the blank chip.\<close>

definition demo_code :: "u8 list" where "demo_code = [0x12, 0x34, 0x56, 0x78]"

definition demo_head :: "u8 list" where
  "demo_head = le32 SIGNATURE_WORD @ le32 0x111 @ le32 0x80D0400 @ le32 4 @ le32 0x80D0000 @ le32 0x8010000 @
     le32 (NOT (get_crc32 demo_code)) @ replicate 32 0"

definition demo_header :: "u8 list" where "demo_header = demo_head @ le32 (NOT (get_crc32 demo_head))"

lemma demo_head_length [simp]: "length demo_head = 60"
  by (simp add: demo_head_def)

lemma demo_header_fields:
  "hd32 ''magic_no'' demo_header = SIGNATURE_WORD" "hd32 ''img_attr'' demo_header = 0x111"
  "hd32 ''img_addr'' demo_header = 0x80D0400" "hd32 ''img_len'' demo_header = 4"
  "hd32 ''img_header_addr'' demo_header = 0x80D0000" "hd32 ''upgrade_img_addr'' demo_header = 0x8010000"
  "hd32 ''org_checksum'' demo_header = NOT (get_crc32 demo_code)"
  "hd32 ''hd_checksum'' demo_header = NOT (get_crc32 demo_head)"
  by (simp_all add: hd32_def demo_header_def get32_append1 get32_append2)
    (simp_all add: demo_head_def get32_append1 get32_append2)

lemma erased_word: "i + 4 \<le> n \<Longrightarrow> get32 (span (\<lambda>_. 0xFF) a n) i = 0xFFFFFFFF"
  by (simp add: get32_def span_def)

lemma demo_header_ok: "header_ok 0x8200000 (\<lambda>_. 0xFF) demo_header" and demo_image_size: "image_size demo_header = 196"
  and demo_header_length: "length demo_header = 64"
proof -
  have "take 60 demo_header = demo_head" by (simp add: demo_header_def)
  then show "header_ok 0x8200000 (\<lambda>_. 0xFF) demo_header"
    by (simp add: header_ok_def image_placed_def Let_def signature_def code_encrypt_def img_type_def demo_header_fields)
      (simp add: hd32_def erased_word)
  show "image_size demo_header = 196" by (simp add: image_size_def signature_def demo_header_fields)
  show "length demo_header = 64" by (simp add: demo_header_def)
qed

lemma demo_storable: "storable (2 ^ 23) 0x8200000 (fst (chip demo_fls)) 65536 demo_header"
  using demo_header_ok demo_image_size demo_header_length by (simp add: storable_def demo_header_fields demo_fls_def)

lemma demo_checksum: "checksum_ok demo_header (demo_code @ replicate 128 0)"
  by (simp add: checksum_ok_def demo_header_fields demo_code_def)

definition demo_update :: "nor fsys" where
  "demo_update = \<lparr>fw = Live (zero_fwup\<lparr>busy := True, current_session_id := 7\<rparr>), wait_list = [take 50 demo_header,
     drop 50 demo_header @ [0x12, 0x34], [0x56, 0x78], replicate 128 0], msg_queue = Some [], booter = replicate 64 0,
     pstate = demo_params\<lparr>fdev := demo_fls\<lparr>gsflscache := Some (replicate 4096 7)\<rparr>\<rparr>, oneshotback = 0, auto_flag = 0,
     oneshot_flag = 0, psflag = False, resets = 0\<rparr>"

theorem fwup_image_stored_witness:
  "\<exists>t. fwup_scheduler_start nor_exec ref_engine default_layout 0x8200000 (replicate 64 0) True demo_update =
      Some ([REQ_SUCCESS, REQ_SUCCESS, REQ_SUCCESS, REQ_SUCCESS], t) \<and> resets t = 1 \<and>
    image_stored default_layout (fst (chip demo_fls)) 65536 demo_header (demo_code @ replicate 128 0) (fst (chip (fl t)))"
proof -
  have ne: "demo_header \<noteq> []" using demo_header_length by force
  have c: "concat (wait_list demo_update) = demo_header @ (demo_code @ replicate 128 0)"
    by (simp add: demo_update_def demo_code_def)
  have "\<exists>t. fwup_scheduler_start nor_exec ref_engine default_layout 0x8200000 (replicate 64 0) True demo_update =
      Some (replicate (length (wait_list demo_update) - 1) REQ_SUCCESS @
        [if checksum_ok demo_header (demo_code @ replicate 128 0) then REQ_SUCCESS else REQ_FCRC], t) \<and>
    wait_list t = [] \<and> resets t = Suc (resets demo_update) \<and> fls_ready (2 ^ 23) (fl t) \<and>
    image_stored default_layout (fst (chip (fl demo_update))) 65536 demo_header (demo_code @ replicate 128 0) (fst (chip (fl t)))"
    by (rule fwup_image_stored [OF nor.nor_flash_axioms ref_crc.crc_unit_axioms _ _ _ _ _ _ _ _ _ _ _ _ c])
      (use demo_ready demo_storable ne in \<open>auto simp: fl_def fls_ready_def demo_update_def zero_fwup_def demo_fields demo_header_length
          demo_image_size demo_code_def default_layout_def\<close>)
  then show ?thesis by (auto simp: demo_checksum demo_update_def fl_def demo_fls_def)
qed

theorem header_check_iff_witness:
  "fst (tls_fwup_img_header_check nor_exec ref_engine 0x8200000 (replicate 64 0) demo_header demo_fls) \<and>
   \<not> fst (tls_fwup_img_header_check nor_exec ref_engine 0x80D0000 (replicate 64 0) demo_header demo_fls)"
proof -
  have "image_placed 0x8200000 demo_header" "\<not> image_placed 0x80D0000 demo_header"
    using demo_header_ok by (simp_all add: header_ok_def image_placed_def Let_def demo_header_fields)
  then show ?thesis
    using header_check_iff [OF nor.nor_flash_axioms ref_crc.crc_unit_axioms demo_ready demo_header_length _ refl _ refl refl refl refl,
        where junk = "replicate 64 0" and user = "0x8200000"]
      header_check_iff [OF nor.nor_flash_axioms ref_crc.crc_unit_axioms demo_ready demo_header_length _ refl _ refl refl refl refl,
        where junk = "replicate 64 0" and user = "0x80D0000"]
      demo_header_ok
    by (simp add: header_ok_def image_placed_nat Let_def demo_fls_def demo_header_fields)
qed

section \<open>Sessions\<close>

text \<open>
  A session is exclusive.  After \<^verbatim>\<open>tls_fwup_enter\<close> has handed out an identifier, every further \<^verbatim>\<open>tls_fwup_enter\<close>
  returns 0 and changes nothing, every other function refuses any other identifier and changes nothing, and
  \<^verbatim>\<open>tls_fwup_exit\<close> with the identifier ends the session.
\<close>

lemma fwup_session_exclusive:
  assumes "tls_fwup_enter hw l r rand pm cache src s = Some (sid, t)" and "sid \<noteq> 0"
  shows "tls_fwup_get_current_session_id t = Some sid \<and> tls_fwup_get_status t = Some True \<and>
    tls_fwup_enter hw l r' rand' pm' cache' src' t = Some (0, t) \<and>
    (sid' \<noteq> sid \<longrightarrow> tls_fwup_exit hw l pm' sid' t = Some (TLS_FWUP_STATUS_ESESSIONID, t) \<and>
       tls_fwup_reset sid' t = Some (TLS_FWUP_STATUS_ESESSIONID, t) \<and>
       tls_fwup_clear_error sid' t = Some (TLS_FWUP_STATUS_ESESSIONID, t) \<and>
       tls_fwup_set_crc_error sid' t = Some (TLS_FWUP_STATUS_ESESSIONID, t) \<and>
       tls_fwup_request_async sid' data t = Some (TLS_FWUP_STATUS_ESESSIONID, t) \<and>
       tls_fwup_request_sync hw eng l user junk mem sem sid' data t = Some (TLS_FWUP_STATUS_ESESSIONID, t) \<and>
       tls_fwup_current_state sid' t = Some STATE_UNDEF) \<and>
    (\<exists>u. tls_fwup_exit hw l pm' sid t = Some (TLS_FWUP_STATUS_OK, u) \<and> tls_fwup_get_status u = Some False)"
proof -
  have psm: "fw (snd (psm_enabled hw l p x)) = fw x" for p x
    by (simp add: psm_enabled_def split: option.splits prod.splits)
  obtain f where t: "fw t = Live f" "busy f" "current_session_id f = sid" "current_state f = 0"
    using assms psm
    by (auto simp: tls_fwup_enter_def Let_def set_fl_def clear_counters_def split_beta split: cptr.splits if_splits list.splits)
  have "fw (snd (psm_enabled hw l pm' x)) = Live g \<Longrightarrow> fw (snd (psm_enabled hw l pm' x)\<lparr>psflag := e\<rparr>) = Live g" for x g e
    by simp
  then show ?thesis
    using t psm
    by (auto simp: tls_fwup_get_current_session_id_def tls_fwup_get_status_def tls_fwup_enter_def tls_fwup_init_def
        tls_fwup_exit_def tls_fwup_reset_def tls_fwup_clear_error_def tls_fwup_set_crc_error_def tls_fwup_request_async_def
        tls_fwup_request_sync_def tls_fwup_current_state_def with_fwup_def session_guard_def split_beta Let_def)
qed

lemma fwup_session_exclusive_example:
  "\<exists>sid t. tls_fwup_enter nor_exec default_layout \<lparr>mem_ok = True, sem_ok = True, queue_ok = True, stack_ok = True, task_ok = True\<rparr>
      [0, 7] True None SRC_WEB (demo_update\<lparr>fw := Null\<rparr>) = Some (sid, t) \<and>
    tls_fwup_get_current_session_id t = Some sid \<and> tls_fwup_reset 8 t = Some (TLS_FWUP_STATUS_ESESSIONID, t)"
proof -
  let ?r = "\<lparr>mem_ok = True, sem_ok = True, queue_ok = True, stack_ok = True, task_ok = True\<rparr>"
  obtain t where t: "tls_fwup_enter nor_exec default_layout ?r [0, 7] True None SRC_WEB (demo_update\<lparr>fw := Null\<rparr>) = Some (7, t)"
    by (auto simp: tls_fwup_enter_def tls_fwup_init_def zero_fwup_def Let_def split_beta)
  show ?thesis using t fwup_session_exclusive [OF t, where sid' = 8] by auto
qed

text \<open>
  When the semaphore, the queue or the stack cannot be had, \<^verbatim>\<open>tls_fwup_init\<close> frees the structure but leaves the
  static pointer, so \<^verbatim>\<open>tls_fwup_enter\<close>, which ignores its result and tests only for a null pointer, goes on with freed memory.
  Only the failures of the first allocation and of the task creation are handled: there \<^verbatim>\<open>tls_fwup_enter\<close> returns 0.
\<close>

lemma fwup_enter_uses_freed:
  assumes "fw s = Null" and "\<not> (mem_ok r \<and> sem_ok r \<and> queue_ok r \<and> stack_ok r \<and> task_ok r)"
  shows "if mem_ok r \<and> \<not> (sem_ok r \<and> queue_ok r \<and> stack_ok r)
    then fst (tls_fwup_init r s) = TLS_FWUP_STATUS_EMEM \<and> fw (snd (tls_fwup_init r s)) = Freed \<and>
      tls_fwup_enter hw l r rand pm cache src s = None
    else \<exists>t. tls_fwup_enter hw l r rand pm cache src s = Some (0, t) \<and> fw t = Null"
  using assms by (auto simp: tls_fwup_init_def tls_fwup_enter_def)

lemma fwup_enter_uses_freed_witness:
  "tls_fwup_enter nor_exec default_layout \<lparr>mem_ok = True, sem_ok = False, queue_ok = True, stack_ok = True, task_ok = True\<rparr>
     [7] True None SRC_WEB (demo_update\<lparr>fw := Null\<rparr>) = None"
  using fwup_enter_uses_freed [of "demo_update\<lparr>fw := Null\<rparr>"
      "\<lparr>mem_ok = True, sem_ok = False, queue_ok = True, stack_ok = True, task_ok = True\<rparr>"] by simp

end
