(* ===== verification/Packer.thy ===== *)
theory Packer
  imports Param_Image
begin

text \<open>
  The image packer of the host tool, \<^verbatim>\<open>tools/xt804/wm_tool.c\<close>: the checksums, and the functions that build an image, a
  compressed image, a debug image and a flash file.  Files are byte lists; \<open>None\<close> is a file that cannot be opened
  or, as a result, the overflow of a signed length, and the result of creating the output file is an argument.  Messages are left out.
\<close>

definition wm_tool_crc32_tab :: "u32 list" where
  "wm_tool_crc32_tab = [
0x00000000, 0x77073096, 0xEE0E612C, 0x990951BA, 0x076DC419, 0x706AF48F, 0xE963A535, 0x9E6495A3,
     0x0EDB8832, 0x79DCB8A4, 0xE0D5E91E, 0x97D2D988, 0x09B64C2B, 0x7EB17CBD, 0xE7B82D07, 0x90BF1D91,
     0x1DB71064, 0x6AB020F2, 0xF3B97148, 0x84BE41DE, 0x1ADAD47D, 0x6DDDE4EB, 0xF4D4B551, 0x83D385C7,
     0x136C9856, 0x646BA8C0, 0xFD62F97A, 0x8A65C9EC, 0x14015C4F, 0x63066CD9, 0xFA0F3D63, 0x8D080DF5,
     0x3B6E20C8, 0x4C69105E, 0xD56041E4, 0xA2677172, 0x3C03E4D1, 0x4B04D447, 0xD20D85FD, 0xA50AB56B,
     0x35B5A8FA, 0x42B2986C, 0xDBBBC9D6, 0xACBCF940, 0x32D86CE3, 0x45DF5C75, 0xDCD60DCF, 0xABD13D59,
     0x26D930AC, 0x51DE003A, 0xC8D75180, 0xBFD06116, 0x21B4F4B5, 0x56B3C423, 0xCFBA9599, 0xB8BDA50F,
     0x2802B89E, 0x5F058808, 0xC60CD9B2, 0xB10BE924, 0x2F6F7C87, 0x58684C11, 0xC1611DAB, 0xB6662D3D,
     0x76DC4190, 0x01DB7106, 0x98D220BC, 0xEFD5102A, 0x71B18589, 0x06B6B51F, 0x9FBFE4A5, 0xE8B8D433,
     0x7807C9A2, 0x0F00F934, 0x9609A88E, 0xE10E9818, 0x7F6A0DBB, 0x086D3D2D, 0x91646C97, 0xE6635C01,
     0x6B6B51F4, 0x1C6C6162, 0x856530D8, 0xF262004E, 0x6C0695ED, 0x1B01A57B, 0x8208F4C1, 0xF50FC457,
     0x65B0D9C6, 0x12B7E950, 0x8BBEB8EA, 0xFCB9887C, 0x62DD1DDF, 0x15DA2D49, 0x8CD37CF3, 0xFBD44C65,
     0x4DB26158, 0x3AB551CE, 0xA3BC0074, 0xD4BB30E2, 0x4ADFA541, 0x3DD895D7, 0xA4D1C46D, 0xD3D6F4FB,
     0x4369E96A, 0x346ED9FC, 0xAD678846, 0xDA60B8D0, 0x44042D73, 0x33031DE5, 0xAA0A4C5F, 0xDD0D7CC9,
     0x5005713C, 0x270241AA, 0xBE0B1010, 0xC90C2086, 0x5768B525, 0x206F85B3, 0xB966D409, 0xCE61E49F,
     0x5EDEF90E, 0x29D9C998, 0xB0D09822, 0xC7D7A8B4, 0x59B33D17, 0x2EB40D81, 0xB7BD5C3B, 0xC0BA6CAD,
     0xEDB88320, 0x9ABFB3B6, 0x03B6E20C, 0x74B1D29A, 0xEAD54739, 0x9DD277AF, 0x04DB2615, 0x73DC1683,
     0xE3630B12, 0x94643B84, 0x0D6D6A3E, 0x7A6A5AA8, 0xE40ECF0B, 0x9309FF9D, 0x0A00AE27, 0x7D079EB1,
     0xF00F9344, 0x8708A3D2, 0x1E01F268, 0x6906C2FE, 0xF762575D, 0x806567CB, 0x196C3671, 0x6E6B06E7,
     0xFED41B76, 0x89D32BE0, 0x10DA7A5A, 0x67DD4ACC, 0xF9B9DF6F, 0x8EBEEFF9, 0x17B7BE43, 0x60B08ED5,
     0xD6D6A3E8, 0xA1D1937E, 0x38D8C2C4, 0x4FDFF252, 0xD1BB67F1, 0xA6BC5767, 0x3FB506DD, 0x48B2364B,
     0xD80D2BDA, 0xAF0A1B4C, 0x36034AF6, 0x41047A60, 0xDF60EFC3, 0xA867DF55, 0x316E8EEF, 0x4669BE79,
     0xCB61B38C, 0xBC66831A, 0x256FD2A0, 0x5268E236, 0xCC0C7795, 0xBB0B4703, 0x220216B9, 0x5505262F,
     0xC5BA3BBE, 0xB2BD0B28, 0x2BB45A92, 0x5CB36A04, 0xC2D7FFA7, 0xB5D0CF31, 0x2CD99E8B, 0x5BDEAE1D,
     0x9B64C2B0, 0xEC63F226, 0x756AA39C, 0x026D930A, 0x9C0906A9, 0xEB0E363F, 0x72076785, 0x05005713,
     0x95BF4A82, 0xE2B87A14, 0x7BB12BAE, 0x0CB61B38, 0x92D28E9B, 0xE5D5BE0D, 0x7CDCEFB7, 0x0BDBDF21,
     0x86D3D2D4, 0xF1D4E242, 0x68DDB3F8, 0x1FDA836E, 0x81BE16CD, 0xF6B9265B, 0x6FB077E1, 0x18B74777,
     0x88085AE6, 0xFF0F6A70, 0x66063BCA, 0x11010B5C, 0x8F659EFF, 0xF862AE69, 0x616BFFD3, 0x166CCF45,
     0xA00AE278, 0xD70DD2EE, 0x4E048354, 0x3903B3C2, 0xA7672661, 0xD06016F7, 0x4969474D, 0x3E6E77DB,
     0xAED16A4A, 0xD9D65ADC, 0x40DF0B66, 0x37D83BF0, 0xA9BCAE53, 0xDEBB9EC5, 0x47B2CF7F, 0x30B5FFE9,
     0xBDBDF21C, 0xCABAC28A, 0x53B39330, 0x24B4A3A6, 0xBAD03605, 0xCDD70693, 0x54DE5729, 0x23D967BF,
     0xB3667A2E, 0xC4614AB8, 0x5D681B02, 0x2A6F2B94, 0xB40BBE37, 0xC30C8EA1, 0x5A05DF1B, 0x2D02EF8D]"

abbreviation WM_TOOL_CRC32_REFLECT_OUTPUT :: nat where "WM_TOOL_CRC32_REFLECT_OUTPUT \<equiv> 1"
abbreviation WM_TOOL_CRC32_REFLECT_INPUT :: nat where "WM_TOOL_CRC32_REFLECT_INPUT \<equiv> 2"
abbreviation WM_TOOL_ONCE_READ_LEN :: nat where "WM_TOOL_ONCE_READ_LEN \<equiv> 1024"
abbreviation WM_TOOL_RUN_IMG_HEADER_LEN :: nat where "WM_TOOL_RUN_IMG_HEADER_LEN \<equiv> 0x100"
abbreviation WM_TOOL_IMG_HEAD_MAGIC_NO :: u32 where "WM_TOOL_IMG_HEAD_MAGIC_NO \<equiv> 0xA0FFFF9F"

section \<open>Checksums\<close>

text \<open>The loop works on 64 bits; \<^verbatim>\<open>1 << (ch - i)\<close> is an \<^verbatim>\<open>int\<close> that is extended with its sign.\<close>

definition wm_tool_crc32_reflect :: "64 word \<Rightarrow> nat \<Rightarrow> 64 word" where
  "wm_tool_crc32_reflect ref ch =
     fst (foldl (\<lambda>(value, ref) i. (if ref AND 1 \<noteq> 0 then value OR scast (push_bit (ch - i) 1 :: u32) else value, drop_bit 1 ref))
       (0, ref) [1..<ch + 1])"

definition wm_tool_crc32 :: "u32 \<Rightarrow> u8 list \<Rightarrow> nat \<Rightarrow> u32" where
  "wm_tool_crc32 crc buffer mode =
     foldl (\<lambda>crc b.
         let temp = (if bit mode 1 then ucast (wm_tool_crc32_reflect (ucast b) 8) else b)
         in wm_tool_crc32_tab ! unat ((crc XOR ucast temp) AND 0xFF) XOR drop_bit 8 crc) crc buffer"

text \<open>The running value \<^verbatim>\<open>wm_tool_file_crc\<close> is an argument and the result.\<close>

definition wm_tool_get_crc32 :: "u32 \<Rightarrow> u8 list \<Rightarrow> nat \<Rightarrow> u32" where
  "wm_tool_get_crc32 file_crc buffer mode =
     (let crc = wm_tool_crc32 file_crc buffer mode
      in if bit mode 0 then ucast (wm_tool_crc32_reflect (ucast crc) 32) else crc)"

definition wm_tool_get_crc16 :: "u8 list \<Rightarrow> u16" where
  "wm_tool_get_crc16 ptr =
     foldl (\<lambda>crc b. foldl (\<lambda>crc _. if crc AND 0x8000 \<noteq> 0 then push_bit 1 crc XOR 0x1021 else push_bit 1 crc)
       (crc XOR push_bit 8 (ucast b)) [0..<8]) 0 ptr"

section \<open>Images\<close>

text \<open>The options that go into a header.  A version has at most 15 characters and a terminator.\<close>

record pack_opts =
  image_version :: "u8 list"
  image_type :: u16
  zip_option :: u16
  run_addr :: u32
  image_header_addr :: u32
  upd_addr :: u32
  image_upd_no :: u32
  next_image_header :: u32

definition wm_tool_firmware_booter_t :: cfields where
  "wm_tool_firmware_booter_t = cfs [(''magic_no'', CU32), (''img_type'', CU16), (''zip_type'', CU16), (''run_img_addr'', CU32),
     (''run_img_len'', CU32), (''img_header_addr'', CU32), (''upgrade_img_addr'', CU32), (''run_org_checksum'', CU32),
     (''upd_no'', CU32), (''ver'', bytes 16), (''reserved0'', CU32), (''reserved1'', CU32), (''next_boot'', CU32),
     (''hd_checksum'', CU32)]"

definition set32 :: "string \<Rightarrow> u32 \<Rightarrow> u8 list \<Rightarrow> u8 list" where
  "set32 x v b = overlay b (fst (member wm_tool_firmware_booter_t x)) (le32 v)"

definition set16 :: "string \<Rightarrow> u16 \<Rightarrow> u8 list \<Rightarrow> u8 list" where
  "set16 x v b = overlay b (fst (member wm_tool_firmware_booter_t x)) (le16 v)"

text \<open>What the calls of \<^verbatim>\<open>fread\<close> return until the end of a file is seen: the last piece is short, perhaps empty.\<close>

function file_pieces :: "u8 list \<Rightarrow> u8 list list" where
  "file_pieces f = (if length f < WM_TOOL_ONCE_READ_LEN then [f] else take WM_TOOL_ONCE_READ_LEN f # file_pieces (drop WM_TOOL_ONCE_READ_LEN f))"
  by pat_completeness auto
termination by (relation "measure length") auto

declare file_pieces.simps [simp del]

text \<open>
  The pass over the input: checksum, padded length and padding.  The length is a signed \<^verbatim>\<open>int\<close> of 32 bits; \<open>None\<close>: its sum overflows,
  which C leaves undefined.
\<close>

definition scan_piece :: "u32 \<times> int \<times> nat \<Rightarrow> u8 list \<Rightarrow> (u32 \<times> int \<times> nat) option" where
  "scan_piece = (\<lambda>(crc, filelen, patch) p.
     let patch = (if length p mod WM_TOOL_ONCE_READ_LEN \<noteq> 0 then WM_TOOL_ONCE_READ_LEN - length p mod WM_TOOL_ONCE_READ_LEN else patch);
         readlen = (if length p mod WM_TOOL_ONCE_READ_LEN \<noteq> 0 then length p + patch else length p)
     in if filelen + int readlen > 0x7FFFFFFF then None
        else Some (wm_tool_get_crc32 crc (p @ replicate (readlen - length p) 0) 0, filelen + int readlen, patch))"

definition scan_file :: "u8 list \<Rightarrow> (u32 \<times> int \<times> nat) option" where
  "scan_file f = foldl (\<lambda>s p. Option.bind s (\<lambda>s. scan_piece s p)) (Some (0xFFFFFFFF, 0, 0)) (file_pieces f)"

definition booter_fields :: "pack_opts \<Rightarrow> u16 \<Rightarrow> u32 \<Rightarrow> int \<Rightarrow> u8 list" where
  "booter_fields opt zipt crc filelen =
     set32 ''next_boot'' (next_image_header opt) (set32 ''upd_no'' (image_upd_no opt) (set32 ''upgrade_img_addr'' (upd_addr opt)
       (set32 ''img_header_addr'' (image_header_addr opt) (set16 ''zip_type'' zipt (set32 ''run_img_addr'' (run_addr opt)
       (set32 ''run_img_len'' (of_int filelen) (set16 ''img_type'' (image_type opt) (set32 ''run_org_checksum'' crc
       (set32 ''magic_no'' WM_TOOL_IMG_HEAD_MAGIC_NO
       (overlay (replicate 64 0) (fst (member wm_tool_firmware_booter_t ''ver'')) (image_version opt @ [0])))))))))))"

definition make_booter :: "pack_opts \<Rightarrow> u16 \<Rightarrow> u32 \<Rightarrow> int \<Rightarrow> u8 list" where
  "make_booter opt zipt crc filelen =
     (let b = booter_fields opt zipt crc filelen
      in set32 ''hd_checksum'' (wm_tool_get_crc32 0xFFFFFFFF (take (64 - 4) b) 0) b)"

text \<open>The two functions differ in the input file and the compression flag; \<open>out\<close>: the output file can be created; \<open>None\<close>: the length of the input
  overflows.\<close>

definition pack_file :: "pack_opts \<Rightarrow> u16 \<Rightarrow> u8 list option \<Rightarrow> bool \<Rightarrow> (int \<times> u8 list option) option" where
  "pack_file opt zipt bin out =
     (case bin of
        None \<Rightarrow> Some (- 2, None)
      | Some f \<Rightarrow>
          if \<not> out then Some (- 3, None)
          else map_option (\<lambda>(crc, filelen, patch). (0, Some (make_booter opt zipt crc filelen @ concat (file_pieces f) @ replicate patch 0)))
                 (scan_file f))"

definition wm_tool_pack_image :: "pack_opts \<Rightarrow> u8 list option \<Rightarrow> bool \<Rightarrow> (int \<times> u8 list option) option" where
  "wm_tool_pack_image opt bin out = pack_file opt 0 bin out"

definition wm_tool_pack_gz_image :: "pack_opts \<Rightarrow> u8 list option \<Rightarrow> bool \<Rightarrow> (int \<times> u8 list option) option" where
  "wm_tool_pack_gz_image opt gzbin out = pack_file opt (zip_option opt) gzbin out"

text \<open>The first word of a file, read into a variable that was 0.\<close>

definition magic_word :: "u8 list \<Rightarrow> u32" where
  "magic_word f = get32 (overlay (replicate 4 0) 0 (take 4 f)) 0"

text \<open>The header alone in the first 256 bytes, then the image.  The model is for files not shorter than a header.\<close>

definition wm_tool_pack_dbg_image :: "u8 list option \<Rightarrow> bool \<Rightarrow> int \<times> u8 list option" where
  "wm_tool_pack_dbg_image src out =
     (case src of
        None \<Rightarrow> (- 4, None)
      | Some f \<Rightarrow>
          if magic_word f \<noteq> WM_TOOL_IMG_HEAD_MAGIC_NO then (- 5, None)
          else if \<not> out then (- 6, None)
          else
            (let final_len = WM_TOOL_RUN_IMG_HEADER_LEN + (length f - 64);
                 blank = concat (replicate (final_len div WM_TOOL_ONCE_READ_LEN) (replicate WM_TOOL_ONCE_READ_LEN 0xFF)) @
                   replicate (final_len mod WM_TOOL_ONCE_READ_LEN) 0xFF;
                 o1 = overlay blank 0 (overlay (replicate 64 0) 0 (take 64 f))
             in (0, Some (overlay o1 WM_TOOL_RUN_IMG_HEADER_LEN (concat (file_pieces (drop 64 f)))))))"

definition wm_tool_pack_fls :: "u8 list option \<Rightarrow> u8 list option \<Rightarrow> bool \<Rightarrow> int \<times> u8 list option" where
  "wm_tool_pack_fls secboot src out =
     (case secboot of
        None \<Rightarrow> (- 2, None)
      | Some sec \<Rightarrow>
          if magic_word sec \<noteq> WM_TOOL_IMG_HEAD_MAGIC_NO then (- 3, None)
          else
            (case src of
               None \<Rightarrow> (- 4, None)
             | Some img \<Rightarrow>
                 if magic_word img \<noteq> WM_TOOL_IMG_HEAD_MAGIC_NO then (- 5, None)
                 else if \<not> out then (- 6, None)
                 else (0, Some (concat (file_pieces sec) @ concat (file_pieces img)))))"

end
