(* ===== verification/Fota.thy ===== *)
theory Fota
  imports Fwup
begin

text \<open>
  Firmware update over the air of the Lua runtime, \<^verbatim>\<open>app/port/luat_fota_air101.c\<close>: a package is collected in a buffer
  of 32 KiB, stored in the OTA zone and verified; at the next start the zone is inspected, the scripts in the
  compressed package are copied to the script area and the zone is released.

  The code reads the flash through its memory-mapped window: \<open>xip\<close> gives the byte at an address for a state of
  the chip.  The decompressor of miniz is the parameter \<open>tinfl\<close>; the address of the script area and
  the layout of the board are arguments.
\<close>

type_synonym 'c xip = "'c \<Rightarrow> u32 \<Rightarrow> u8"

datatype fota_phase = FOTA_IDLE | FOTA_ONGO | FOTA_DONE

record 'c fota =
  fota_state :: fota_phase
  fota_write_offset :: u32
  ota_zone_size :: u32
  upgrade_img_addr :: u32
  fota_head_check :: u32
  fota_buffer :: "u8 list option"
  fota_buffer_len :: u32
  tmphead :: "u8 list"
  head_fill_count :: u32
  image_skip_remain :: u32
  fota_dev :: "'c fls"

abbreviation FOTA_BUFFER_SIZE :: u32 where "FOTA_BUFFER_SIZE \<equiv> 32 * 1024"
abbreviation MAGIC_NO :: u32 where "MAGIC_NO \<equiv> 0xA0FFFF9F"

text \<open>A range of the memory-mapped window.\<close>

definition mapped :: "'c xip \<Rightarrow> 'c fls \<Rightarrow> u32 \<Rightarrow> nat \<Rightarrow> u8 list" where
  "mapped xip d addr n = map (\<lambda>i. xip (chip d) (addr + of_nat i)) [0..<n]"

definition mapped_head :: "'c xip \<Rightarrow> u32 \<Rightarrow> 'c fota \<Rightarrow> u8 list" where
  "mapped_head xip addr s = mapped xip (fota_dev s) addr 64"

section \<open>Receiving a package\<close>

text \<open>The checksum runs over whole words only.\<close>

definition img_checksum :: "crc_engine \<Rightarrow> u8 list \<Rightarrow> u32 \<Rightarrow> u32" where
  "img_checksum eng ptr len =
     tls_crypto_crc_final
       (foldl (\<lambda>ctx i. tls_crypto_crc_update eng ctx (take 4 (drop (i * 4) ptr)) 4)
         (tls_crypto_crc_init 0xFFFFFFFF CRYPTO_CRC_TYPE_32 3) [0..<unat len div 4])"

primrec erase_zone :: "'c hw \<Rightarrow> u32 \<Rightarrow> nat \<Rightarrow> 'c fls \<Rightarrow> 'c fls" where
  "erase_zone hw addr 0 d = d"
| "erase_zone hw addr (Suc i) d =
     snd (tls_fls_erase hw ((addr + of_nat i * 4096) div 0x1000) (erase_zone hw addr i d))"

text \<open>\<open>heap\<close> is the block the buffer is allocated from, \<open>None\<close> if there is none.\<close>

definition luat_fota_init :: "'c hw \<Rightarrow> u8 list option \<Rightarrow> 'c fota \<Rightarrow> int \<times> 'c fota" where
  "luat_fota_init hw heap s =
     (let s = s\<lparr>fota_state := FOTA_ONGO, fota_write_offset := 0, fota_head_check := 0, fota_buffer_len := 0\<rparr>;
          s = (if fota_buffer s = None then s\<lparr>fota_buffer := heap\<rparr> else s)
      in if fota_buffer s = None then (- 1, s)
         else (0, s\<lparr>fota_dev := erase_zone hw (upgrade_img_addr s) (unat (ota_zone_size s) div 4096) (fota_dev s)\<rparr>))"

text \<open>Writing out the buffer.\<close>

definition flush_buffer :: "'c hw \<Rightarrow> 'c fota \<Rightarrow> 'c fota" where
  "flush_buffer hw s =
     s\<lparr>fota_dev := snd (tls_fls_write hw (upgrade_img_addr s + fota_write_offset s) (fota_buffer s) (fota_buffer_len s) (fota_dev s)),
       fota_write_offset := fota_write_offset s + fota_buffer_len s, fota_buffer_len := 0\<rparr>"

definition zone_full :: "'c fota \<Rightarrow> bool" where
  "zone_full s \<longleftrightarrow> fota_write_offset s + fota_buffer_len s > ota_zone_size s"

definition copy_in :: "u8 list \<Rightarrow> 'c fota \<Rightarrow> 'c fota" where
  "copy_in bs s = s\<lparr>fota_buffer := map_option (\<lambda>b. overlay b (unat (fota_buffer_len s)) bs) (fota_buffer s),
     fota_buffer_len := fota_buffer_len s + of_nat (length bs)\<rparr>"

lemma no_room: "min (unat (FOTA_BUFFER_SIZE - w)) (length data) = 0 \<Longrightarrow> data \<noteq> [] \<Longrightarrow> w = FOTA_BUFFER_SIZE"
  by (auto simp: min_def unat_eq_0 split: if_splits)

text \<open>The copy loop; \<open>False\<close>: the zone is full.\<close>

function fota_copy :: "'c hw \<Rightarrow> u8 list \<Rightarrow> 'c fota \<Rightarrow> bool \<times> 'c fota" where
  "fota_copy hw data s =
     (if data = [] then (True, s)
      else
        (let n = min (unat (FOTA_BUFFER_SIZE - fota_buffer_len s)) (length data);
             s = copy_in (take n data) s
         in if fota_buffer_len s \<ge> FOTA_BUFFER_SIZE then
              (if zone_full s then (False, s) else fota_copy hw (drop n data) (flush_buffer hw s))
            else fota_copy hw (drop n data) s))"
  by pat_completeness auto
termination
proof (relation "measure (\<lambda>(hw, data, s). 2 * length data + (if fota_buffer_len s \<ge> FOTA_BUFFER_SIZE then 1 else 0))",
    goal_cases)
  case (2 hw data s n s')
  show ?case
  proof (cases "n = 0")
    case True
    then have "fota_buffer_len s = FOTA_BUFFER_SIZE" using 2 no_room [of "fota_buffer_len s" data] by metis
    then show ?thesis using 2 True by (auto simp: flush_buffer_def)
  next
    case False
    then show ?thesis using 2 by (auto simp: flush_buffer_def)
  qed
next
  case (3 hw data s n s')
  have "n \<noteq> 0"
  proof
    assume "n = 0"
    then have "fota_buffer_len s = FOTA_BUFFER_SIZE" using 3 no_room [of "fota_buffer_len s" data] by metis
    then show False using 3 \<open>n = 0\<close> by (simp add: copy_in_def)
  qed
  then show ?case using 3 by auto
qed simp

declare fota_copy.simps [simp del]

definition luat_fota_write :: "'c hw \<Rightarrow> crc_engine \<Rightarrow> 'c xip \<Rightarrow> u8 list \<Rightarrow> 'c fota \<Rightarrow> int \<times> 'c fota" where
  "luat_fota_write hw eng xip data s =
     (if fota_state s \<noteq> FOTA_ONGO then (- 1, s)
      else if fota_buffer s = None then (- 1, s)
      else
        (case fota_copy hw data s of
           (False, s) \<Rightarrow> (- 1, s)
         | (True, s) \<Rightarrow>
             if fota_head_check s = 0 \<and> fota_write_offset s + fota_buffer_len s \<ge> 64 then
               (let s = (if fota_buffer_len s > 0 then flush_buffer hw s else s);
                    imghead = mapped_head xip (upgrade_img_addr s) s
                in if hd32 ''magic_no'' imghead \<noteq> MAGIC_NO then (- 2, s)
                   else if img_checksum eng imghead 60 \<noteq> hd32 ''hd_checksum'' imghead then (- 3, s)
                   else (0, s\<lparr>fota_head_check := 1\<rparr>))
             else (0, s)))"

definition luat_fota_done :: "'c hw \<Rightarrow> crc_engine \<Rightarrow> 'c xip \<Rightarrow> 'c fota \<Rightarrow> int \<times> 'c fota" where
  "luat_fota_done hw eng xip s =
     (if fota_buffer_len s > 0 \<and> zone_full s then (- 1, s)
      else
        (let s = (if fota_buffer_len s > 0 then flush_buffer hw s else s)
         in if fota_write_offset s = 0 then (- 1, s)
            else if fota_write_offset s < 64 then (- 2, s)
            else
              (let imghead = mapped_head xip (upgrade_img_addr s) s; len = hd32 ''img_len'' imghead
               in if len + 64 > fota_write_offset s then (- 4, s)
                  else if img_checksum eng (mapped xip (fota_dev s) (upgrade_img_addr s + 64) (unat len)) len \<noteq>
                          hd32 ''org_checksum'' imghead then (- 3, s)
                  else (0, s\<lparr>fota_state := FOTA_DONE\<rparr>))))"

definition luat_fota_end :: "'c hw \<Rightarrow> flash_layout \<Rightarrow> 'c xip \<Rightarrow> u8 \<Rightarrow> 'c fota \<Rightarrow> int \<times> 'c fota" where
  "luat_fota_end hw l xip is_ok s =
     (if fota_state s = FOTA_DONE \<and> is_ok \<noteq> 0 then
        (let imghead = mapped_head xip (upgrade_img_addr s) s
         in if img_type imghead = 1 then
              (case tls_fls_write hw (FLASH_OTA_FLAG_ADDR l) (Some (le32 (hd32 ''org_checksum'' imghead))) 4 (fota_dev s) of
                 (ret, d) \<Rightarrow>
                   (case tls_fls_read hw (FLASH_OTA_FLAG_ADDR l) (Some True) 4 d of (_, _, d) \<Rightarrow> (ret, s\<lparr>fota_dev := d\<rparr>)))
            else (0, s))
      else (- 1, s))"

definition luat_fota_wait_ready :: "u8" where "luat_fota_wait_ready = 0"

section \<open>Unpacking the scripts\<close>

text \<open>
  The callback that receives the decompressed package, a sequence of images each with its header: the bodies of
  images of type 2 go to the script area.
\<close>

definition script_write :: "'c hw \<Rightarrow> u32 \<Rightarrow> u8 list \<Rightarrow> 'c fota \<Rightarrow> 'c fota" where
  "script_write hw luadb_addr bs s =
     (if img_type (tmphead s) = 2
      then s\<lparr>fota_dev := snd (tls_fls_write hw (luadb_addr + (hd32 ''img_len'' (tmphead s) - image_skip_remain s)) (Some bs)
               (of_nat (length bs)) (fota_dev s))\<rparr>
      else s)"

function ota_gzcb :: "'c hw \<Rightarrow> u32 \<Rightarrow> u8 list \<Rightarrow> 'c fota \<Rightarrow> 'c fota" where
  "ota_gzcb hw luadb_addr tmp s =
     (if tmp = [] then s
      else if image_skip_remain s > 0 then
        (let n = unat (image_skip_remain s)
         in if length tmp \<ge> n then
              ota_gzcb hw luadb_addr (drop n tmp)
                ((script_write hw luadb_addr (take n tmp) s)\<lparr>image_skip_remain := 0, head_fill_count := 0\<rparr>)
            else (script_write hw luadb_addr tmp s)\<lparr>image_skip_remain := image_skip_remain s - of_nat (length tmp)\<rparr>)
      else if head_fill_count s < 64 then
        (let i = unat (head_fill_count s)
         in if i + length tmp \<ge> 64 then
              (let head = overlay (tmphead s) i (take (64 - i) tmp)
               in ota_gzcb hw luadb_addr (drop (64 - i) tmp)
                    (s\<lparr>tmphead := head, head_fill_count := 64, image_skip_remain := hd32 ''img_len'' head\<rparr>))
            else s\<lparr>tmphead := overlay (tmphead s) i tmp, head_fill_count := head_fill_count s + of_nat (length tmp)\<rparr>)
      else s)"
  by pat_completeness auto
termination
  by (relation "measure (\<lambda>(hw, a, tmp, s). length tmp)") (auto simp: word_less_nat_alt)

declare ota_gzcb.simps [simp del]

datatype tinfl_status = TINFL_STATUS_FAILED | TINFL_STATUS_DONE | TINFL_STATUS_NEEDS_MORE_INPUT | TINFL_STATUS_HAS_MORE_OUTPUT

abbreviation TINFL_LZ_DICT_SIZE :: nat where "TINFL_LZ_DICT_SIZE \<equiv> 32768"

text \<open>
  One call of \<^verbatim>\<open>tinfl_decompress\<close>: from the state of the decompressor, the remaining input, the dictionary and the
  offset in it to the status, the number of bytes read, the dictionary and number of bytes written there.
\<close>

type_synonym 'z tinfl = "'z \<Rightarrow> u8 list \<Rightarrow> u8 list \<Rightarrow> nat \<Rightarrow> tinfl_status \<times> nat \<times> u8 list \<times> nat \<times> 'z"

text \<open>
  The loop of \<^verbatim>\<open>my_tinfl_decompress_mem_to_callback\<close>; a callback that returns 0 stops it.  The input is read anew in every pass, because it
  may be memory that the callback changes.  A decompressor that always has more output keeps it from returning, \<open>None\<close>.
\<close>

partial_function (option) inflate_loop ::
  "'z tinfl \<Rightarrow> (u8 list \<Rightarrow> 's \<Rightarrow> bool \<times> 's) \<Rightarrow> ('s \<Rightarrow> u8 list) \<Rightarrow> 'z \<Rightarrow> nat \<Rightarrow> u8 list \<Rightarrow> nat \<Rightarrow> 's \<Rightarrow> (int \<times> nat \<times> 's) option" where
  "inflate_loop tinfl put inp z iofs dict dofs s =
     (case tinfl z (drop iofs (inp s)) dict dofs of
        (status, used, dict', out, z') \<Rightarrow>
          (case (if out = 0 then (True, s) else put (take out (drop dofs dict')) s) of
             (go, s') \<Rightarrow>
               if \<not> go then Some (0, iofs + used, s')
               else if status \<noteq> TINFL_STATUS_HAS_MORE_OUTPUT
                 then Some (if status = TINFL_STATUS_DONE then 1 else 0, iofs + used, s')
               else inflate_loop tinfl put inp z' (iofs + used) dict' ((dofs + out) mod TINFL_LZ_DICT_SIZE) s'))"

text \<open>The two allocations are arguments; their failure is reported as \<^verbatim>\<open>TINFL_STATUS_FAILED\<close>, which is \<open>- 1\<close>.\<close>

definition my_tinfl_decompress_mem_to_callback ::
  "'z tinfl \<Rightarrow> 'z \<Rightarrow> bool \<Rightarrow> bool \<Rightarrow> ('s \<Rightarrow> u8 list) \<Rightarrow> (u8 list \<Rightarrow> 's \<Rightarrow> bool \<times> 's) \<Rightarrow> 's \<Rightarrow> (int \<times> 's) option" where
  "my_tinfl_decompress_mem_to_callback tinfl z0 mem1 mem2 inp put s =
     (if \<not> mem1 then Some (- 1, s)
      else if \<not> mem2 then Some (- 1, s)
      else map_option (\<lambda>(r, _, s). (r, s)) (inflate_loop tinfl put inp z0 0 (replicate TINFL_LZ_DICT_SIZE 0) 0 s))"

section \<open>The check at start-up\<close>

datatype board = AIR6208 | AIR6010 | AIR101

definition check_image_head :: "crc_engine \<Rightarrow> u8 list option \<Rightarrow> int" where
  "check_image_head eng imghead =
     (case imghead of
        None \<Rightarrow> - 1
      | Some h \<Rightarrow>
          if hd32 ''magic_no'' h \<noteq> MAGIC_NO then - 2
          else if img_checksum eng h 60 \<noteq> hd32 ''hd_checksum'' h then - 3 else 0)"

definition clean_zone :: "'c hw \<Rightarrow> 'c fota \<Rightarrow> 'c fota" where
  "clean_zone hw s = s\<lparr>fota_dev := snd (tls_fls_erase hw (upgrade_img_addr s div 0x1000) (fota_dev s))\<rparr>"

text \<open>The package is read through the memory-mapped window while the callback writes.  \<open>None\<close>: the decompressor does not return.\<close>

definition check_ota_zone ::
  "'c hw \<Rightarrow> crc_engine \<Rightarrow> 'c xip \<Rightarrow> 'z tinfl \<Rightarrow> 'z \<Rightarrow> bool \<Rightarrow> bool \<Rightarrow> u32 \<Rightarrow> board \<Rightarrow> 'c fota \<Rightarrow> 'c fota option" where
  "check_ota_zone hw eng xip tinfl z0 mem1 mem2 luadb_addr b s =
     (let imghead = mapped_head xip (upgrade_img_addr s) s
      in if hd32 ''magic_no'' imghead = 0xFFFFFFFF then Some s
         else if hd32 ''magic_no'' imghead \<noteq> MAGIC_NO then Some (clean_zone hw s)
         else if img_checksum eng imghead 60 \<noteq> hd32 ''hd_checksum'' imghead then Some (clean_zone hw s)
         else if b \<noteq> AIR6010 \<and> img_type imghead = 1 then
           (let inSize = unat (hd32 ''img_len'' imghead);
                ptr = upgrade_img_addr s + 64 + 10;
                s = s\<lparr>head_fill_count := 0, image_skip_remain := 0, tmphead := replicate 64 0\<rparr>
            in map_option (\<lambda>(_, s). clean_zone hw s)
                 (my_tinfl_decompress_mem_to_callback tinfl z0 mem1 mem2 (\<lambda>s. mapped xip (fota_dev s) ptr inSize)
                   (\<lambda>bs s. (True, ota_gzcb hw luadb_addr bs s)) s))
         else Some (clean_zone hw s))"

text \<open>On boards with 2 MiB of flash the zone ends where the running image, found through the boot loader's header, begins.\<close>

definition ota_zone :: "'c xip \<Rightarrow> board \<Rightarrow> 'c fota \<Rightarrow> 'c fota" where
  "ota_zone xip b s =
     (case b of
        AIR6208 \<Rightarrow> s\<lparr>upgrade_img_addr := 0x8010000, ota_zone_size := 2048 * 1024\<rparr>
      | AIR6010 \<Rightarrow> s\<lparr>upgrade_img_addr := 0x8010000, ota_zone_size := 768 * 1024\<rparr>
      | AIR101 \<Rightarrow>
          (let secimg = mapped_head xip 0x8002000 s; up = hd32 ''upgrade_img_addr'' secimg
           in s\<lparr>upgrade_img_addr := up, ota_zone_size := (hd32 ''next'' secimg - up + 0x3FF) AND NOT 0x3FF\<rparr>))"

definition luat_fota_boot_check ::
  "'c hw \<Rightarrow> crc_engine \<Rightarrow> 'c xip \<Rightarrow> 'z tinfl \<Rightarrow> 'z \<Rightarrow> bool \<Rightarrow> bool \<Rightarrow> u32 \<Rightarrow> board \<Rightarrow> flash_layout \<Rightarrow> 'c fota \<Rightarrow> 'c fota option" where
  "luat_fota_boot_check hw eng xip tinfl z0 mem1 mem2 luadb_addr b l s =
     (let s = ota_zone xip b s;
          s = (if b = AIR6208
               then s\<lparr>fota_dev := snd (snd (tls_fls_read hw (FLASH_OTA_FLAG_ADDR l) (Some True) 4 (fota_dev s)))\<rparr> else s)
      in check_ota_zone hw eng xip tinfl z0 mem1 mem2 luadb_addr b s)"

end
