(* ===== verification/Fota_Correct.thy ===== *)
theory Fota_Correct
  imports Fota Fwup_Correct
begin

text \<open>
  The update of the Lua runtime: what a package that passes leaves in flash, and what the check at the next start
  does with it.  The unpacking of scripts is compared with a reference on byte functions that does not depend on
  how the decompressor divides its output.
\<close>

section \<open>Reference for the unpacking\<close>

record gz =
  gmem :: "nat \<Rightarrow> u8"
  ghead :: "u8 list"
  gfill :: nat
  gskip :: nat

text \<open>Storing a piece of a body of which \<open>k\<close> bytes are still to come; \<open>None\<close>: it does not fit into a flash of \<open>n\<close> bytes.\<close>

definition gz_put :: "nat \<Rightarrow> nat \<Rightarrow> u8 list \<Rightarrow> nat \<Rightarrow> u8 list \<Rightarrow> (nat \<Rightarrow> u8) \<Rightarrow> (nat \<Rightarrow> u8) option" where
  "gz_put n off head k bs m =
     (let a = off + (unat (hd32 ''img_len'' head) - k)
      in if img_type head \<noteq> 2 then Some m else if a + length bs \<le> n then Some (blit m a bs) else None)"

function gz_ref :: "nat \<Rightarrow> nat \<Rightarrow> u8 list \<Rightarrow> gz \<Rightarrow> gz option" where
  "gz_ref n off tmp g =
     (if tmp = [] then Some g
      else if gskip g > 0 then
        (if length tmp \<ge> gskip g
         then Option.bind (gz_put n off (ghead g) (gskip g) (take (gskip g) tmp) (gmem g))
                (\<lambda>m. gz_ref n off (drop (gskip g) tmp) (g\<lparr>gmem := m, gskip := 0, gfill := 0\<rparr>))
         else map_option (\<lambda>m. g\<lparr>gmem := m, gskip := gskip g - length tmp\<rparr>) (gz_put n off (ghead g) (gskip g) tmp (gmem g)))
      else if gfill g < 64 then
        (if gfill g + length tmp \<ge> 64 then
           (let head = overlay (ghead g) (gfill g) (take (64 - gfill g) tmp)
            in gz_ref n off (drop (64 - gfill g) tmp) (g\<lparr>ghead := head, gfill := 64, gskip := unat (hd32 ''img_len'' head)\<rparr>))
         else Some (g\<lparr>ghead := overlay (ghead g) (gfill g) tmp, gfill := gfill g + length tmp\<rparr>))
      else Some g)"
  by pat_completeness auto
termination by (relation "measure (\<lambda>(n, off, tmp, g). length tmp)") auto

declare gz_ref.simps [simp del]

text \<open>One equation for each of the branches.\<close>

lemma gz_ref_Nil [simp]: "gz_ref n off [] = Some"
  by (rule ext) (simp add: gz_ref.simps)

lemma gz_ref_body:
  "0 < gskip g \<Longrightarrow> gskip g \<le> length tmp \<Longrightarrow> gz_ref n off tmp g =
     Option.bind (gz_put n off (ghead g) (gskip g) (take (gskip g) tmp) (gmem g))
       (\<lambda>m. gz_ref n off (drop (gskip g) tmp) (g\<lparr>gmem := m, gskip := 0, gfill := 0\<rparr>))"
  by (subst gz_ref.simps) auto

lemma gz_ref_part:
  "length tmp < gskip g \<Longrightarrow> tmp \<noteq> [] \<Longrightarrow> gz_ref n off tmp g =
     map_option (\<lambda>m. g\<lparr>gmem := m, gskip := gskip g - length tmp\<rparr>) (gz_put n off (ghead g) (gskip g) tmp (gmem g))"
  by (subst gz_ref.simps) auto

lemma gz_ref_head:
  "gskip g = 0 \<Longrightarrow> gfill g < 64 \<Longrightarrow> 64 \<le> gfill g + length tmp \<Longrightarrow> gz_ref n off tmp g =
     gz_ref n off (drop (64 - gfill g) tmp) (g\<lparr>ghead := overlay (ghead g) (gfill g) (take (64 - gfill g) tmp), gfill := 64,
       gskip := unat (hd32 ''img_len'' (overlay (ghead g) (gfill g) (take (64 - gfill g) tmp)))\<rparr>)"
  by (subst gz_ref.simps) (auto simp: Let_def)

lemma gz_ref_fill:
  "gskip g = 0 \<Longrightarrow> gfill g + length tmp < 64 \<Longrightarrow> gz_ref n off tmp g =
     Some (g\<lparr>ghead := overlay (ghead g) (gfill g) tmp, gfill := gfill g + length tmp\<rparr>)"
  by (subst gz_ref.simps) auto

lemma gz_ref_stop: "gskip g = 0 \<Longrightarrow> 64 \<le> gfill g \<Longrightarrow> gz_ref n off tmp g = Some g"
  by (subst gz_ref.simps) auto

definition gz_wf :: "gz \<Rightarrow> bool" where
  "gz_wf g \<longleftrightarrow> length (ghead g) = 64 \<and> gfill g \<le> 64 \<and> gskip g \<le> unat (hd32 ''img_len'' (ghead g))"

lemma gz_cases:
  obtains (body) "0 < gskip g" "gskip g \<le> length xs" | (part) "length xs < gskip g"
    | (head) "gskip g = 0" "gfill g < 64" "64 \<le> gfill g + length xs"
    | (fill) "gskip g = 0" "gfill g + length xs < 64" | (stop) "gskip g = 0" "64 \<le> gfill g"
  by linarith

text \<open>Two pieces of a body may be stored one after the other.\<close>

lemma gz_put_append:
  assumes "length xs < k" and "k \<le> unat (hd32 ''img_len'' h)"
  shows "gz_put n off h k (xs @ ys) m = Option.bind (gz_put n off h k xs m) (gz_put n off h (k - length xs) ys)"
proof -
  obtain i j where "k = length xs + i" "unat (hd32 ''img_len'' h) = k + j"
    using assms le_Suc_ex less_imp_le_nat by metis
  then show ?thesis
    by (cases "gz_put n off h k xs m") (auto simp: gz_put_def Let_def blit_append ac_simps split: if_splits)
qed

lemma overlay_append:
  "i + length xs + length ys \<le> length h \<Longrightarrow> overlay (overlay h i xs) (i + length xs) ys = overlay h i (xs @ ys)"
  by (simp add: overlay_def ac_simps)

text \<open>The result does not depend on the division of the stream.\<close>

lemma gz_ref_append_part:
  assumes "gz_wf g" and "length xs < gskip g"
  shows "gz_ref n off (xs @ ys) g = Option.bind (gz_ref n off xs g) (gz_ref n off ys)"
proof (cases "xs = [] \<or> ys = []")
  case False
  have k: "gskip g \<le> unat (hd32 ''img_len'' (ghead g))" using assms(1) by (simp add: gz_wf_def)
  let ?g = "\<lambda>m. g\<lparr>gmem := m, gskip := gskip g - length xs\<rparr>"
  have "gz_ref n off (xs @ ys) g = Option.bind (gz_put n off (ghead g) (gskip g) xs (gmem g)) (\<lambda>m. gz_ref n off ys (?g m))"
  proof (cases "gskip g \<le> length (xs @ ys)")
    case True
    then have "take (gskip g) (xs @ ys) = xs @ take (gskip g - length xs) ys" "drop (gskip g) (xs @ ys) = drop (gskip g - length xs) ys"
      "0 < gskip g - length xs" using assms(2) by simp_all
    then show ?thesis using True assms(2) by (simp add: gz_ref_body gz_put_append [OF assms(2) k] bind_assoc)
  next
    case longer: False
    then show ?thesis
      using assms(2) False by (simp add: gz_ref_part gz_put_append [OF assms(2) k] map_option_bind comp_def)
  qed
  then show ?thesis using assms(2) False by (simp add: gz_ref_part bind_map_option comp_def)
qed auto

lemma gz_ref_append_fill:
  assumes "gz_wf g" and "gskip g = 0" and "gfill g + length xs < 64"
  shows "gz_ref n off (xs @ ys) g = Option.bind (gz_ref n off xs g) (gz_ref n off ys)"
proof (cases "64 \<le> gfill g + length (xs @ ys)")
  case True
  let ?k = "64 - (gfill g + length xs)"
  have t: "take (64 - gfill g) (xs @ ys) = xs @ take ?k ys" "drop (64 - gfill g) (xs @ ys) = drop ?k ys"
    using assms(3) by simp_all
  have "overlay (overlay (ghead g) (gfill g) xs) (gfill g + length xs) (take ?k ys) = overlay (ghead g) (gfill g) (xs @ take ?k ys)"
    using assms by (intro overlay_append) (simp add: gz_wf_def)
  then show ?thesis
    using True assms(2,3) t by (simp add: gz_ref_head gz_ref_fill)
next
  case False
  have "overlay (overlay (ghead g) (gfill g) xs) (gfill g + length xs) ys = overlay (ghead g) (gfill g) (xs @ ys)"
    using assms False by (intro overlay_append) (simp add: gz_wf_def)
  then show ?thesis using assms(2,3) False by (simp add: gz_ref_fill)
qed

lemma gz_ref_append:
  assumes "gz_wf g"
  shows "gz_ref n off (xs @ ys) g = Option.bind (gz_ref n off xs g) (gz_ref n off ys)"
  using assms
proof (induction "length xs" arbitrary: xs g rule: less_induct)
  case less
  show ?case
  proof (cases g xs rule: gz_cases)
    case body
    let ?g = "\<lambda>m. g\<lparr>gmem := m, gskip := 0, gfill := 0\<rparr>"
    have "gz_ref n off (drop (gskip g) xs @ ys) (?g m) = Option.bind (gz_ref n off (drop (gskip g) xs) (?g m)) (gz_ref n off ys)" for m
      using less.hyps [of "drop (gskip g) xs" "?g m"] less.prems body by (auto simp: gz_wf_def)
    then show ?thesis using body by (simp add: gz_ref_body cong: bind_option_cong)
  next
    case head
    let ?h = "overlay (ghead g) (gfill g) (take (64 - gfill g) xs)"
    let ?g = "g\<lparr>ghead := ?h, gfill := 64, gskip := unat (hd32 ''img_len'' ?h)\<rparr>"
    have "gz_wf ?g" using less.prems head by (simp add: gz_wf_def)
    then have "gz_ref n off (drop (64 - gfill g) xs @ ys) ?g = Option.bind (gz_ref n off (drop (64 - gfill g) xs) ?g) (gz_ref n off ys)"
      using less.hyps [of "drop (64 - gfill g) xs" ?g] head by auto
    then show ?thesis using head by (simp add: gz_ref_head)
  next
    case stop
    then show ?thesis by (simp add: gz_ref_stop)
  qed (auto intro: gz_ref_append_part gz_ref_append_fill less.prems)
qed

lemma gz_ref_wf:
  assumes "gz_wf g" and "gz_ref n off xs g = Some h"
  shows "gz_wf h"
  using assms
proof (induction "length xs" arbitrary: xs g rule: less_induct)
  case less
  show ?case
  proof (cases g xs rule: gz_cases)
    case body
    then obtain m where "gz_ref n off (drop (gskip g) xs) (g\<lparr>gmem := m, gskip := 0, gfill := 0\<rparr>) = Some h"
      using less.prems(2) by (auto simp: gz_ref_body bind_eq_Some_conv)
    moreover have "gz_wf (g\<lparr>gmem := m, gskip := 0, gfill := 0\<rparr>)" using less.prems(1) by (simp add: gz_wf_def)
    ultimately show ?thesis using less.hyps [of "drop (gskip g) xs"] body by (metis diff_less length_drop less_le_trans)
  next
    case part
    then show ?thesis using less.prems by (cases "xs = []") (auto simp: gz_ref_part gz_wf_def)
  next
    case head
    let ?h = "overlay (ghead g) (gfill g) (take (64 - gfill g) xs)"
    let ?g = "g\<lparr>ghead := ?h, gfill := 64, gskip := unat (hd32 ''img_len'' ?h)\<rparr>"
    have "gz_wf ?g" using less.prems head by (simp add: gz_wf_def)
    then show ?thesis using less.hyps [of "drop (64 - gfill g) xs" ?g] less.prems(2) head by (simp add: gz_ref_head)
  next
    case fill
    then show ?thesis using less.prems by (auto simp: gz_ref_fill gz_wf_def)
  next
    case stop
    then show ?thesis using less.prems by (simp add: gz_ref_stop)
  qed
qed

text \<open>Every step writes between the start of the script area and the bound, and a greater bound makes no difference.\<close>

lemma gz_put_frame:
  assumes "gz_put n off h k bs m = Some m'" and "n \<le> N"
  shows "gz_put N off h k bs m = Some m'" and "x < off \<or> n \<le> x \<Longrightarrow> m' x = m x"
  using assms by (auto simp: gz_put_def Let_def blit_apply split: if_splits)

lemma gz_ref_frame:
  assumes "gz_ref n off xs g = Some h" and "n \<le> N"
  shows "gz_ref N off xs g = Some h \<and> (\<forall>x. x < off \<or> n \<le> x \<longrightarrow> gmem h x = gmem g x)"
  using assms(1)
proof (induction "length xs" arbitrary: xs g rule: less_induct)
  case less
  show ?case
  proof (cases g xs rule: gz_cases)
    case body
    then obtain m where m: "gz_put n off (ghead g) (gskip g) (take (gskip g) xs) (gmem g) = Some m"
      "gz_ref n off (drop (gskip g) xs) (g\<lparr>gmem := m, gskip := 0, gfill := 0\<rparr>) = Some h"
      using less.prems by (auto simp: gz_ref_body bind_eq_Some_conv)
    have "length (drop (gskip g) xs) < length xs" using body by simp
    from less.hyps [OF this m(2)] show ?thesis
      using gz_put_frame [OF m(1) assms(2)] body by (auto simp: gz_ref_body)
  next
    case part
    then show ?thesis
      using less.prems gz_put_frame [OF _ assms(2), of off "ghead g" "gskip g" xs "gmem g"] by (cases "xs = []") (auto simp: gz_ref_part)
  next
    case head
    let ?h = "overlay (ghead g) (gfill g) (take (64 - gfill g) xs)"
    have "length (drop (64 - gfill g) xs) < length xs" using head by simp
    then show ?thesis
      using less.hyps [of "drop (64 - gfill g) xs" "g\<lparr>ghead := ?h, gfill := 64, gskip := unat (hd32 ''img_len'' ?h)\<rparr>"] less.prems head
      by (simp add: gz_ref_head)
  next
    case fill
    then show ?thesis using less.prems by (auto simp: gz_ref_fill)
  next
    case stop
    then show ?thesis using less.prems by (simp add: gz_ref_stop)
  qed
qed

section \<open>Streams of images\<close>

text \<open>A decompressed package: images with their headers, and what their scripts do to the flash.\<close>

type_synonym package = "(u8 list \<times> u8 list) list"

definition package_bytes :: "package \<Rightarrow> u8 list" where
  "package_bytes p = concat (map (\<lambda>(h, b). h @ b) p)"

definition package_ok :: "nat \<Rightarrow> nat \<Rightarrow> package \<Rightarrow> bool" where
  "package_ok n off p \<longleftrightarrow>
     list_all (\<lambda>(h, b). length h = 64 \<and> b \<noteq> [] \<and> unat (hd32 ''img_len'' h) = length b \<and>
       (img_type h = 2 \<longrightarrow> off + length b \<le> n)) p"

definition unpack :: "nat \<Rightarrow> package \<Rightarrow> (nat \<Rightarrow> u8) \<Rightarrow> nat \<Rightarrow> u8" where
  "unpack off p m = foldl (\<lambda>m (h, b). if img_type h = 2 then blit m off b else m) m p"

text \<open>The script area of a package and a part of the flash that its scripts leave alone.\<close>

definition apart :: "nat \<Rightarrow> package \<Rightarrow> nat \<Rightarrow> nat \<Rightarrow> bool" where
  "apart off p a n \<longleftrightarrow> a + n \<le> off \<or> package_ok a off p"

lemma gz_ref_image:
  assumes "gz_wf g" and "gskip g = 0" and "gfill g = 0" and "package_ok n off [(h, b)]"
  shows "gz_ref n off (h @ b) g = Some (g\<lparr>gmem := unpack off [(h, b)] (gmem g), ghead := h\<rparr>)"
proof -
  have b: "0 < length b" "unat (hd32 ''img_len'' h) = length b" "length h = 64" "img_type h = 2 \<longrightarrow> off + length b \<le> n"
    using assms(4) by (simp_all add: package_ok_def)
  have "gz_ref n off b (g\<lparr>ghead := h, gfill := 64, gskip := length b\<rparr>) = Some (g\<lparr>gmem := unpack off [(h, b)] (gmem g), ghead := h\<rparr>)"
    using b assms(2,3) by (subst gz_ref_body) (simp_all add: gz_put_def unpack_def)
  then show ?thesis using assms b by (simp add: gz_ref_head gz_wf_def)
qed

lemma gz_ref_package:
  assumes "gz_wf g" and "gskip g = 0" and "gfill g = 0" and "package_ok n off p"
  shows "\<exists>g'. gz_ref n off (package_bytes p) g = Some g' \<and> gmem g' = unpack off p (gmem g)"
  using assms
proof (induction p arbitrary: g)
  case Nil
  then show ?case by (simp add: package_bytes_def unpack_def)
next
  case (Cons x p)
  obtain h b where x: "x = (h, b)" by (cases x)
  define g1 where "g1 = g\<lparr>gmem := unpack off [(h, b)] (gmem g), ghead := h\<rparr>"
  have g1: "gz_ref n off (h @ b) g = Some g1"
    using Cons.prems(4) unfolding g1_def by (intro gz_ref_image [OF Cons.prems(1-3)]) (simp add: x package_ok_def)
  have "gz_wf g1" "gskip g1 = 0" "gfill g1 = 0" "package_ok n off p"
    using gz_ref_wf [OF Cons.prems(1) g1] Cons.prems by (simp_all add: g1_def package_ok_def)
  from Cons.IH [OF this] obtain g' where g': "gz_ref n off (package_bytes p) g1 = Some g'" "gmem g' = unpack off p (gmem g1)"
    by blast
  have "gz_ref n off (package_bytes (x # p)) g = Some g'"
    using gz_ref_append [OF Cons.prems(1), of n off "h @ b" "package_bytes p"] g1 g'(1) by (simp add: x package_bytes_def)
  then show ?case using g'(2) by (simp add: x g1_def unpack_def)
qed

section \<open>The callback refines the reference\<close>

context nor_flash
begin

definition gz_of :: "'c fota \<Rightarrow> gz" where
  "gz_of s = \<lparr>gmem = V (fota_dev s), ghead = tmphead s, gfill = unat (head_fill_count s), gskip = unat (image_skip_remain s)\<rparr>"

lemma script_write_ok:
  assumes "fls_ready csize (fota_dev s)" and "bs \<noteq> []" and "gz_wf (gz_of s)"
    and "gz_put csize (unat luadb mod 2 ^ 27) (tmphead s) (unat (image_skip_remain s)) bs (V (fota_dev s)) = Some m"
  shows "\<exists>d. script_write hw luadb bs s = s\<lparr>fota_dev := d\<rparr> \<and> V d = m \<and> fls_ready csize d"
proof (cases "img_type (tmphead s) = 2")
  case False
  then show ?thesis using assms by (intro exI [of _ "fota_dev s"]) (simp add: script_write_def gz_put_def)
next
  case True
  define k where "k = unat (hd32 ''img_len'' (tmphead s)) - unat (image_skip_remain s)"
  have fit: "unat luadb mod 2 ^ 27 + k + length bs \<le> csize" "m = blit (V (fota_dev s)) (unat luadb mod 2 ^ 27 + k) bs"
    using assms(4) True by (auto simp: gz_put_def k_def Let_def split: if_splits)
  have sub: "hd32 ''img_len'' (tmphead s) - image_skip_remain s = of_nat k"
    using assms(3) by (simp add: gz_wf_def gz_of_def k_def of_nat_diff)
  have a: "unat (luadb + of_nat k) mod 2 ^ 27 = unat luadb mod 2 ^ 27 + k"
    using fit(1) assms(2) csize_le by (intro addr_plus) (cases bs, auto)
  have u: "unat (of_nat (length bs) :: u32) = length bs" using fit(1) csize_le by (simp add: unat_of_nat_u32)
  then have "0 < (of_nat (length bs) :: u32)" using assms(2) by (simp only: word_less_nat_alt) simp
  then obtain d where "tls_fls_write hw (luadb + of_nat k) (Some bs) (of_nat (length bs)) (fota_dev s) = (TLS_FLS_STATUS_OK, d)"
    "V d = m" "fls_ready csize d"
    using tls_fls_write_ok [OF assms(1), of "of_nat (length bs)" "luadb + of_nat k" bs] fit a u fls_ready_keeps [OF _ assms(1)]
    by auto
  then show ?thesis using True sub by (intro exI [of _ d]) (simp add: script_write_def)
qed

lemma ota_gzcb_part:
  assumes "fls_ready csize (fota_dev s)" and "gz_wf (gz_of s)" and "gz_ref csize (unat luadb mod 2 ^ 27) tmp (gz_of s) = Some g"
    and "length tmp < unat (image_skip_remain s)" and "tmp \<noteq> []"
  shows "gz_of (ota_gzcb hw luadb tmp s) = g \<and> fls_ready csize (fota_dev (ota_gzcb hw luadb tmp s)) \<and>
    upgrade_img_addr (ota_gzcb hw luadb tmp s) = upgrade_img_addr s"
proof -
  let ?n = "unat (image_skip_remain s)"
  have "length tmp < gskip (gz_of s)" using assms(4) by (simp add: gz_of_def)
  then obtain m where m: "gz_put csize (unat luadb mod 2 ^ 27) (tmphead s) ?n tmp (V (fota_dev s)) = Some m"
    "g = (gz_of s)\<lparr>gmem := m, gskip := ?n - length tmp\<rparr>"
    using assms(3,5) by (auto simp: gz_ref_part gz_of_def)
  obtain d where d: "script_write hw luadb tmp s = s\<lparr>fota_dev := d\<rparr>" "V d = m" "fls_ready csize d"
    using script_write_ok [OF assms(1,5,2) m(1)] by blast
  have "length tmp < 2 ^ 32" using assms(4) unsigned_less [where 'a = nat, of "image_skip_remain s"] by simp
  then have "unat (image_skip_remain s - of_nat (length tmp)) = ?n - length tmp"
    using assms(4) by (simp add: unat_sub_if' unat_of_nat_u32)
  then show ?thesis
    using d m(2) assms(4,5) by (subst (1 2 3) ota_gzcb.simps) (auto simp: gz_of_def word_less_nat_alt Let_def)
qed

lemma ota_gzcb_fill:
  assumes "fls_ready csize (fota_dev s)" and "gz_wf (gz_of s)" and "gz_ref csize (unat luadb mod 2 ^ 27) tmp (gz_of s) = Some g"
    and "unat (image_skip_remain s) = 0" and "unat (head_fill_count s) + length tmp < 64" and "tmp \<noteq> []"
  shows "gz_of (ota_gzcb hw luadb tmp s) = g \<and> fls_ready csize (fota_dev (ota_gzcb hw luadb tmp s)) \<and>
    upgrade_img_addr (ota_gzcb hw luadb tmp s) = upgrade_img_addr s"
proof -
  have "unat (head_fill_count s + of_nat (length tmp)) = unat (head_fill_count s) + length tmp"
    using assms(5) by (simp add: unat_word_ariths unat_of_nat_u32)
  moreover have "gskip (gz_of s) = 0" "gfill (gz_of s) + length tmp < 64" using assms(4,5) by (simp_all add: gz_of_def)
  ultimately show ?thesis
    using assms by (subst (1 2 3) ota_gzcb.simps) (auto simp: gz_ref_fill gz_of_def word_less_nat_alt unat_eq_0 Let_def)
qed

lemma ota_gzcb_refines:
  assumes "fls_ready csize (fota_dev s)" and "gz_wf (gz_of s)" and "gz_ref csize (unat luadb mod 2 ^ 27) tmp (gz_of s) = Some g"
  shows "gz_of (ota_gzcb hw luadb tmp s) = g \<and> fls_ready csize (fota_dev (ota_gzcb hw luadb tmp s)) \<and>
    upgrade_img_addr (ota_gzcb hw luadb tmp s) = upgrade_img_addr s"
  using assms
proof (induction "length tmp" arbitrary: tmp s rule: less_induct)
  case less
  let ?o = "unat luadb mod 2 ^ 27"
  have eq: "gskip (gz_of s) = unat (image_skip_remain s)" "gfill (gz_of s) = unat (head_fill_count s)"
    "ghead (gz_of s) = tmphead s" "gmem (gz_of s) = V (fota_dev s)" by (simp_all add: gz_of_def)
  show ?case
  proof (cases "tmp = []")
    case True
    then show ?thesis using less.prems by (subst (1 2 3) ota_gzcb.simps) simp
  next
    case ne: False
    show ?thesis
    proof (cases "gz_of s" tmp rule: gz_cases)
      case body
      let ?n = "unat (image_skip_remain s)"
      obtain m where m: "gz_put csize ?o (tmphead s) ?n (take ?n tmp) (V (fota_dev s)) = Some m"
        "gz_ref csize ?o (drop ?n tmp) ((gz_of s)\<lparr>gmem := m, gskip := 0, gfill := 0\<rparr>) = Some g"
        using less.prems(3) body by (auto simp: gz_ref_body eq bind_eq_Some_conv)
      obtain d where d: "script_write hw luadb (take ?n tmp) s = s\<lparr>fota_dev := d\<rparr>" "V d = m" "fls_ready csize d"
        using script_write_ok [OF less.prems(1) _ less.prems(2) m(1)] ne body by (auto simp: eq)
      let ?s = "s\<lparr>fota_dev := d, image_skip_remain := 0, head_fill_count := 0\<rparr>"
      have "gz_of ?s = (gz_of s)\<lparr>gmem := m, gskip := 0, gfill := 0\<rparr>" "gz_wf (gz_of ?s)"
        using d(2) less.prems(2) by (simp_all add: gz_of_def gz_wf_def)
      then show ?thesis
        using less.hyps [of "drop ?n tmp" ?s] m(2) d body ne
        by (subst (1 2 3) ota_gzcb.simps) (simp add: eq word_less_nat_alt Let_def)
    next
      case part
      then show ?thesis using ota_gzcb_part [OF less.prems] ne by (simp add: eq)
    next
      case head
      let ?i = "unat (head_fill_count s)"
      let ?h = "overlay (tmphead s) ?i (take (64 - ?i) tmp)"
      let ?s = "s\<lparr>tmphead := ?h, head_fill_count := 64, image_skip_remain := hd32 ''img_len'' ?h\<rparr>"
      have "gz_of ?s = (gz_of s)\<lparr>ghead := ?h, gfill := 64, gskip := unat (hd32 ''img_len'' ?h)\<rparr>" "gz_wf (gz_of ?s)"
        using less.prems(2) head by (simp_all add: gz_of_def gz_wf_def)
      then show ?thesis
        using less.hyps [of "drop (64 - ?i) tmp" ?s] less.prems(1,3) head ne
        by (subst (1 2 3) ota_gzcb.simps) (simp add: eq gz_ref_head word_less_nat_alt unat_eq_0 Let_def)
    next
      case fill
      then show ?thesis using ota_gzcb_fill [OF less.prems] ne by (simp add: eq)
    next
      case stop
      then show ?thesis
        using less.prems ne by (subst (1 2 3) ota_gzcb.simps) (auto simp: eq gz_ref_stop word_less_nat_alt)
    qed
  qed
qed

lemma ota_gzcb_chunks:
  assumes "fls_ready csize (fota_dev s)" and "gz_wf (gz_of s)"
    and "gz_ref csize (unat luadb mod 2 ^ 27) (concat outs) (gz_of s) = Some g"
  shows "gz_of (foldl (\<lambda>s bs. ota_gzcb hw luadb bs s) s outs) = g \<and>
    fls_ready csize (fota_dev (foldl (\<lambda>s bs. ota_gzcb hw luadb bs s) s outs)) \<and>
    upgrade_img_addr (foldl (\<lambda>s bs. ota_gzcb hw luadb bs s) s outs) = upgrade_img_addr s"
  using assms
proof (induction outs arbitrary: s)
  case (Cons bs outs)
  obtain h where h: "gz_ref csize (unat luadb mod 2 ^ 27) bs (gz_of s) = Some h"
    "gz_ref csize (unat luadb mod 2 ^ 27) (concat outs) h = Some g"
    using Cons.prems(3) by (auto simp: gz_ref_append [OF Cons.prems(2)] bind_eq_Some_conv)
  note r = ota_gzcb_refines [OF Cons.prems(1,2) h(1)]
  then show ?case using Cons.IH [of "ota_gzcb hw luadb bs s"] gz_ref_wf [OF Cons.prems(2) h(1)] h(2) by auto
qed simp

end

section \<open>The decompressor\<close>

text \<open>
  A run of the decompressor on an input that ends: the pieces of output in order, and the last status.
\<close>

inductive inflates :: "'z tinfl \<Rightarrow> u8 list \<Rightarrow> 'z \<Rightarrow> nat \<Rightarrow> u8 list \<Rightarrow> nat \<Rightarrow> u8 list list \<Rightarrow> tinfl_status \<Rightarrow> bool"
  for tinfl inp where
  last: "tinfl z (drop iofs inp) dict dofs = (st, used, dict', out, z') \<Longrightarrow> st \<noteq> TINFL_STATUS_HAS_MORE_OUTPUT \<Longrightarrow>
    inflates tinfl inp z iofs dict dofs [take out (drop dofs dict')] st"
| more: "tinfl z (drop iofs inp) dict dofs = (TINFL_STATUS_HAS_MORE_OUTPUT, used, dict', out, z') \<Longrightarrow>
    inflates tinfl inp z' (iofs + used) dict' ((dofs + out) mod TINFL_LZ_DICT_SIZE) outs st \<Longrightarrow>
    inflates tinfl inp z iofs dict dofs (take out (drop dofs dict') # outs) st"

text \<open>The input is read in every pass; it stays the same as long as the callback leaves it alone.\<close>

lemma inflate_loop_run:
  assumes "inflates tinfl inp0 z iofs dict dofs outs st" and "\<And>s. f [] s = s"
    and "\<And>k. inp (foldl (\<lambda>s bs. f bs s) s (take k outs)) = inp0"
  shows "\<exists>n. inflate_loop tinfl (\<lambda>bs s. (True, f bs s)) inp z iofs dict dofs s =
    Some (if st = TINFL_STATUS_DONE then 1 else 0, n, foldl (\<lambda>s bs. f bs s) s outs)"
  using assms(1,3)
proof (induction arbitrary: s rule: inflates.induct)
  case (last z iofs dict dofs st used dict' out z')
  have "inp s = inp0" using last.prems [of 0] by simp
  then show ?case using last.hyps by (subst inflate_loop.simps) (simp add: assms(2))
next
  case (more z iofs dict dofs used dict' out z' outs st)
  have e: "(if out = 0 then (True, s) else (True, f (take out (drop dofs dict')) s)) = (True, f (take out (drop dofs dict')) s)"
    by (simp add: assms(2))
  have i: "inp s = inp0" using more.prems [of 0] by simp
  have "inp (foldl (\<lambda>s bs. f bs s) (f (take out (drop dofs dict')) s) (take k outs)) = inp0" for k
    using more.prems [of "Suc k"] by simp
  from more.IH [OF this] show ?case
    using more.hyps(1) i by (subst inflate_loop.simps) (simp add: e split del: if_split)
qed

section \<open>The memory-mapped flash\<close>

definition maps_flash :: "'c xip \<Rightarrow> ('c \<Rightarrow> nat \<Rightarrow> u8) \<Rightarrow> bool" where
  "maps_flash xip view \<longleftrightarrow> (\<forall>c off. off < 2 ^ 25 \<longrightarrow> xip c (of_nat (134217728 + off)) = view c off)"

lemma mapped_span:
  assumes "maps_flash xip view" and "a + n \<le> 2 ^ 25" and "addr = of_nat (134217728 + a)"
  shows "mapped xip d addr n = span (view (chip d)) a n"
proof (rule nth_equalityI)
  fix i assume "i < length (mapped xip d addr n)"
  then have i: "i < n" by (simp add: mapped_def)
  have "xip (chip d) (of_nat (134217728 + (a + i))) = view (chip d) (a + i)"
    using assms(2) i by (intro assms(1) [unfolded maps_flash_def, rule_format]) simp
  then show "mapped xip d addr n ! i = span (view (chip d)) a n ! i"
    using i assms(3) by (simp add: mapped_def add.assoc)
qed (simp add: mapped_def)

lemma img_checksum_ref:
  assumes "crc_unit eng" and "unat len \<le> length ptr"
  shows "img_checksum eng ptr len = NOT (get_crc32 (take (unat len div 4 * 4) ptr))"
proof -
  let ?u = "\<lambda>ctx m. tls_crypto_crc_update eng ctx m (of_nat (length m))"
  let ?p = "map (\<lambda>i. take 4 (drop (i * 4) ptr)) [0..<unat len div 4]"
  have "length (take 4 (drop (i * 4) ptr)) = 4" if "i < unat len div 4" for i
    using that assms(2) by (simp add: min_def) linarith
  then have "foldl (\<lambda>ctx i. tls_crypto_crc_update eng ctx (take 4 (drop (i * 4) ptr)) 4) c [0..<unat len div 4] = foldl ?u c ?p" for c
    unfolding foldl_map by (intro foldl_cong) auto
  moreover have "concat ?p = take (unat len div 4 * 4) ptr" using concat_pieces [of 4 ptr] by simp
  moreover have "\<forall>m \<in> set ?p. length m < 65536" by auto
  ultimately show ?thesis
    using crc_chain [OF assms(1), of ?p "0xFFFFFFFF"]
    by (simp add: img_checksum_def tls_crypto_crc_init_def tls_crypto_crc_final_def get_crc32_ref)
qed

text \<open>The header of a package that the checks accept.\<close>

definition ota_head_ok :: "u8 list \<Rightarrow> bool" where
  "ota_head_ok h \<longleftrightarrow> length h = 64 \<and> hd32 ''magic_no'' h = MAGIC_NO \<and> hd32 ''hd_checksum'' h = NOT (get_crc32 (take 60 h))"

lemma ota_head_checksum: "crc_unit eng \<Longrightarrow> ota_head_ok h \<Longrightarrow> img_checksum eng h 60 = hd32 ''hd_checksum'' h"
  using img_checksum_ref [of eng 60 h] by (simp add: ota_head_ok_def)

section \<open>The check at start-up\<close>

context nor_flash
begin

lemma erase_at:
  assumes "fls_ready csize d" and "addr = of_nat (134217728 + a0)" and "4096 dvd a0" and "a0 < csize"
  shows "V (snd (tls_fls_erase hw (addr div 0x1000) d)) = blit (V d) a0 (replicate 4096 0xFF) \<and>
    fls_ready csize (snd (tls_fls_erase hw (addr div 0x1000) d))"
proof -
  obtain q where q: "a0 = 4096 * q" using assms(3) by (auto simp: dvd_def)
  have lt: "q < 8192" "q < csize div 4096" using assms(4) csize_le csize_sectors sector_index [of q] by (auto simp: q)
  have "unat addr = 134217728 + a0" using assms(2) lt by (simp add: q unat_of_nat_u32 del: of_nat_add)
  then have u: "unat (addr div 0x1000) = 32768 + q" by (simp add: unat_div_distrib q)
  have m: "(32768 + q) mod 8192 = q" using lt by (simp add: mod_if)
  obtain e where "tls_fls_erase hw (addr div 0x1000) d = (TLS_FLS_STATUS_OK, e)"
    "V e = blit (V d) (4096 * q) (replicate 4096 0xFF)" "ctl_only d e"
    using tls_fls_erase_ok [OF assms(1), of "addr div 0x1000"] u lt m by auto
  then show ?thesis using fls_ready_keeps [OF ctl_only_keeps assms(1)] by (simp add: q)
qed

lemma clean_zone_ok:
  assumes "fls_ready csize (fota_dev s)" and "upgrade_img_addr s = of_nat (134217728 + a0)" and "4096 dvd a0" and "a0 < csize"
  shows "V (fota_dev (clean_zone hw s)) = blit (V (fota_dev s)) a0 (replicate 4096 0xFF) \<and> fls_ready csize (fota_dev (clean_zone hw s))"
  using erase_at [OF assms] by (simp add: clean_zone_def)

lemma mapped_ota_head:
  assumes "maps_flash xip view" and "upgrade_img_addr s = of_nat (134217728 + a0)" and "a0 + 64 \<le> csize"
  shows "mapped_head xip (upgrade_img_addr s) s = span (V (fota_dev s)) a0 64"
  using mapped_span [OF assms(1) _ assms(2), of 64 "fota_dev s"] assms(3) csize_le by (simp add: mapped_head_def)

lemma unpack_ok:
  assumes "fls_ready csize (fota_dev s)" and "inflates tinfl inp z 0 (replicate TINFL_LZ_DICT_SIZE 0) 0 outs st"
    and "concat outs = package_bytes p" and "package_ok csize (unat luadb mod 2 ^ 27) p"
    and "tmphead s = replicate 64 0" and "head_fill_count s = 0" and "image_skip_remain s = 0"
    and "apart (unat luadb mod 2 ^ 27) p a k" and "a + k \<le> csize" and "inp = span (V (fota_dev s)) a k"
    and "\<And>d. window_of d = span (V d) a k"
  shows "\<exists>r t. my_tinfl_decompress_mem_to_callback tinfl z True True (\<lambda>s. window_of (fota_dev s)) (\<lambda>bs s. (True, ota_gzcb hw luadb bs s)) s = Some (r, t) \<and>
    V (fota_dev t) = unpack (unat luadb mod 2 ^ 27) p (V (fota_dev s)) \<and> fls_ready csize (fota_dev t) \<and>
    upgrade_img_addr t = upgrade_img_addr s"
proof -
  let ?o = "unat luadb mod 2 ^ 27" and ?f = "foldl (\<lambda>s bs. ota_gzcb hw luadb bs s) s"
  have wf: "gz_wf (gz_of s)" "gskip (gz_of s) = 0" "gfill (gz_of s) = 0" using assms(5-7) by (simp_all add: gz_of_def gz_wf_def)
  obtain g where g: "gz_ref csize ?o (package_bytes p) (gz_of s) = Some g" "gmem g = unpack ?o p (V (fota_dev s))"
    using gz_ref_package [OF wf assms(4)] by (auto simp: gz_of_def)
  define n where "n = (if a + k \<le> ?o then csize else a)"
  have n: "n \<le> csize" "a + k \<le> ?o \<or> n \<le> a" "package_ok n ?o p" using assms(4,8,9) by (auto simp: n_def apart_def)
  then obtain gn where gn: "gz_ref n ?o (concat outs) (gz_of s) = Some gn" using gz_ref_package [OF wf, of n] assms(3) by auto
  have "window_of (fota_dev (?f (take j outs))) = inp" for j
  proof -
    have "concat outs = concat (take j outs) @ concat (drop j outs)" by (metis append_take_drop_id concat_append)
    then obtain h where h: "gz_ref n ?o (concat (take j outs)) (gz_of s) = Some h"
      using gn gz_ref_append [OF wf(1), of n ?o "concat (take j outs)"] by (auto simp: bind_eq_Some_conv)
    note fr = gz_ref_frame [OF h n(1)]
    have "V (fota_dev (?f (take j outs))) = gmem h"
      using ota_gzcb_chunks [OF assms(1) wf(1), of luadb "take j outs" h] fr by (auto simp: gz_of_def)
    moreover have "gmem h x = V (fota_dev s) x" if "a \<le> x" "x < a + k" for x
      using fr n(2) that by (auto simp: gz_of_def)
    ultimately show ?thesis unfolding assms(10,11) by (intro span_cong) simp
  qed
  moreover have "ota_gzcb hw luadb [] t = t" for t by (subst ota_gzcb.simps) simp
  ultimately show ?thesis
    using inflate_loop_run [OF assms(2), of "ota_gzcb hw luadb" "\<lambda>s. window_of (fota_dev s)" s]
      ota_gzcb_chunks [OF assms(1) wf(1), of luadb outs g] g assms(3)
    by (auto simp: my_tinfl_decompress_mem_to_callback_def gz_of_def)
qed

end

text \<open>
  C37.  At start-up a whole package (image type 1) with a valid header is unpacked: when the decompressor ends, in whatever pieces it
  delivers the images of the package, none of them empty, and the script images stay clear of the package itself, which is read through the
  memory-mapped window while they are written, the bodies of the script images are in the script area, every
  other byte of the flash is as before except for the first sector of the OTA zone, which is erased so that the
  package is not unpacked again.
\<close>

theorem fota_scripts_installed:
  assumes "nor_flash hw view wel csize" and "crc_unit eng" and "maps_flash xip view" and "fls_ready csize (fota_dev s)"
    and "upgrade_img_addr s = of_nat (134217728 + a0)" and "4096 dvd a0" and "hdr = span (view (chip (fota_dev s))) a0 64"
    and "ota_head_ok hdr" and "img_type hdr = 1" and "b \<noteq> AIR6010" and "a0 + 74 + unat (hd32 ''img_len'' hdr) \<le> csize"
    and "inflates tinfl (span (view (chip (fota_dev s))) (a0 + 74) (unat (hd32 ''img_len'' hdr))) z 0 (replicate TINFL_LZ_DICT_SIZE 0) 0 outs st"
    and "concat outs = package_bytes p" and "package_ok csize (unat luadb_addr mod 2 ^ 27) p"
    and "apart (unat luadb_addr mod 2 ^ 27) p (a0 + 74) (unat (hd32 ''img_len'' hdr))"
  shows "\<exists>t. check_ota_zone hw eng xip tinfl z True True luadb_addr b s = Some t \<and> fls_ready csize (fota_dev t) \<and>
    view (chip (fota_dev t)) =
      blit (unpack (unat luadb_addr mod 2 ^ 27) p (view (chip (fota_dev s)))) a0 (replicate 4096 0xFF)"
proof -
  have sz: "csize \<le> 2 ^ 25" using nor_flash.csize_le [OF assms(1)] by simp
  have hd: "mapped_head xip (upgrade_img_addr s) s = hdr"
    using nor_flash.mapped_ota_head [OF assms(1,3,5)] assms(7,11) by simp
  define s1 where "s1 = s\<lparr>head_fill_count := 0, image_skip_remain := 0, tmphead := replicate 64 0\<rparr>"
  let ?inp = "span (view (chip (fota_dev s))) (a0 + 74) (unat (hd32 ''img_len'' hdr))"
  let ?w = "\<lambda>d. mapped xip d (upgrade_img_addr s + 64 + 10) (unat (hd32 ''img_len'' hdr))"
  have inp: "?w d = span (view (chip d)) (a0 + 74) (unat (hd32 ''img_len'' hdr))" for d
    using assms(5,11) sz by (intro mapped_span [OF assms(3)]) simp_all
  obtain r t where t: "my_tinfl_decompress_mem_to_callback tinfl z True True (\<lambda>s. ?w (fota_dev s)) (\<lambda>bs s. (True, ota_gzcb hw luadb_addr bs s)) s1 = Some (r, t)"
    "view (chip (fota_dev t)) = unpack (unat luadb_addr mod 2 ^ 27) p (view (chip (fota_dev s1)))" "fls_ready csize (fota_dev t)"
    "upgrade_img_addr t = upgrade_img_addr s1"
    using nor_flash.unpack_ok [OF assms(1) _ assms(12-14) _ _ _ assms(15,11), of s1 ?w] assms(4) inp by (auto simp: s1_def)
  have ck: "check_ota_zone hw eng xip tinfl z True True luadb_addr b s = Some (clean_zone hw t)"
    using hd t(1) ota_head_checksum [OF assms(2,8)] assms(8-10)
    by (simp add: check_ota_zone_def ota_head_ok_def s1_def)
  have "a0 < csize" using assms(11) by simp
  then show ?thesis
    using nor_flash.clean_zone_ok [OF assms(1) t(3) _ assms(6)] ck t(2,4) assms(5) by (simp add: s1_def)
qed

text \<open>
  A package with scripts only (image type 2), which the code announces to process after a restart, is not
  processed at start-up either: nothing is written to the script area and the first sector of the zone, with the
  header of the package, is erased.
\<close>

lemma fota_script_only_dropped:
  assumes "nor_flash hw view wel csize" and "crc_unit eng" and "maps_flash xip view" and "fls_ready csize (fota_dev s)"
    and "upgrade_img_addr s = of_nat (134217728 + a0)" and "4096 dvd a0" and "hdr = span (view (chip (fota_dev s))) a0 64"
    and "ota_head_ok hdr" and "img_type hdr = 2" and "a0 + 64 \<le> csize"
  shows "\<exists>t. check_ota_zone hw eng xip tinfl z mem1 mem2 luadb_addr b s = Some t \<and>
    view (chip (fota_dev t)) = blit (view (chip (fota_dev s))) a0 (replicate 4096 0xFF) \<and>
    hd32 ''magic_no'' (mapped_head xip (upgrade_img_addr t) t) = 0xFFFFFFFF"
proof -
  have sz: "csize \<le> 2 ^ 25" using nor_flash.csize_le [OF assms(1)] by simp
  have hd: "mapped_head xip (upgrade_img_addr s) s = hdr"
    using nor_flash.mapped_ota_head [OF assms(1,3,5,10)] assms(7) by simp
  have ck: "check_ota_zone hw eng xip tinfl z mem1 mem2 luadb_addr b s = Some (clean_zone hw s)"
    using hd assms(8,9) ota_head_checksum [OF assms(2,8)] by (simp add: check_ota_zone_def ota_head_ok_def)
  have v: "view (chip (fota_dev (clean_zone hw s))) = blit (view (chip (fota_dev s))) a0 (replicate 4096 0xFF)"
    using nor_flash.clean_zone_ok [OF assms(1,4,5,6)] assms(10) by simp
  have "mapped_head xip (upgrade_img_addr (clean_zone hw s)) (clean_zone hw s) = span (view (chip (fota_dev (clean_zone hw s)))) a0 64"
    using nor_flash.mapped_ota_head [OF assms(1,3) _ assms(10), of "clean_zone hw s"] assms(5) by (simp add: clean_zone_def)
  also have "\<dots> = span (\<lambda>_. 0xFF) a0 64" unfolding v by (rule nth_equalityI) (auto simp: blit_apply)
  finally show ?thesis using ck v by (simp add: hd32_def erased_word)
qed

section \<open>A small package\<close>

text \<open>The window of the reference chip, and a decompressor for data that is not compressed.\<close>

definition nor_xip :: "nor xip" where "nor_xip c a = fst c (unat a mod 2 ^ 27)"

definition copy_tinfl :: "unit tinfl" where
  "copy_tinfl z inp dict dofs = (TINFL_STATUS_DONE, length inp, overlay dict dofs inp, length inp, ())"

lemma nor_maps: "maps_flash nor_xip fst"
  by (auto simp: maps_flash_def nor_xip_def unat_of_nat_u32 mod_if simp del: of_nat_add)

lemma copy_inflates:
  assumes "length inp \<le> TINFL_LZ_DICT_SIZE"
  shows "inflates copy_tinfl inp () 0 (replicate TINFL_LZ_DICT_SIZE 0) 0 [inp] TINFL_STATUS_DONE"
proof -
  have "take (length inp) (drop 0 (overlay (replicate TINFL_LZ_DICT_SIZE 0) 0 inp)) = inp" by (simp add: overlay_def)
  then show ?thesis
    using inflates.last [of copy_tinfl "()" 0 inp "replicate TINFL_LZ_DICT_SIZE 0" 0] by (fastforce simp: copy_tinfl_def)
qed

definition pack_head :: "u32 \<Rightarrow> u32 \<Rightarrow> u8 list" where
  "pack_head ty len = le32 MAGIC_NO @ le32 ty @ le32 0 @ le32 len @ replicate 44 0"

definition pack_header :: "u32 \<Rightarrow> u32 \<Rightarrow> u8 list" where
  "pack_header ty len = pack_head ty len @ le32 (NOT (get_crc32 (pack_head ty len)))"

lemma pack_header_fields:
  "length (pack_header ty len) = 64" "ota_head_ok (pack_header ty len)" "hd32 ''img_len'' (pack_header ty len) = len"
  "hd32 ''img_attr'' (pack_header ty len) = ty"
proof -
  have l: "length (pack_head ty len) = 60" by (simp add: pack_head_def)
  then show "length (pack_header ty len) = 64" by (simp add: pack_header_def)
  have t: "take 60 (pack_header ty len) = pack_head ty len" using l by (simp add: pack_header_def)
  have c: "hd32 ''hd_checksum'' (pack_header ty len) = NOT (get_crc32 (pack_head ty len))"
    using l by (simp add: hd32_def pack_header_def get32_append2)
  show "hd32 ''img_len'' (pack_header ty len) = len" "hd32 ''img_attr'' (pack_header ty len) = ty"
    by (simp_all add: hd32_def pack_header_def pack_head_def get32_append1 get32_append2)
  have "hd32 ''magic_no'' (pack_header ty len) = MAGIC_NO"
    by (simp add: hd32_def pack_header_def pack_head_def get32_append1 get32_append2)
  then show "ota_head_ok (pack_header ty len)" using l t c by (simp add: ota_head_ok_def pack_header_def)
qed

definition demo_package :: package where "demo_package = [(pack_header 2 3, [0x4C, 0x75, 0x61])]"

definition demo_boot :: "u8 list \<Rightarrow> nor fota" where
  "demo_boot zone = \<lparr>fota_state = FOTA_IDLE, fota_write_offset = 0, ota_zone_size = 0xC0000, upgrade_img_addr = 0x8010000,
     fota_head_check = 0, fota_buffer = None, fota_buffer_len = 0, tmphead = replicate 64 0, head_fill_count = 0,
     image_skip_remain = 0, fota_dev = demo_fls\<lparr>chip := (blit (\<lambda>_. 0xFF) 65536 zone, False)\<rparr>\<rparr>"

lemma demo_boot_ready:
  "fls_ready (2 ^ 23) (fota_dev (demo_boot zone))" "upgrade_img_addr (demo_boot zone) = of_nat (134217728 + 65536)"
  "fst (chip (fota_dev (demo_boot zone))) = blit (\<lambda>_. 0xFF) 65536 zone"
  using demo_ready by (simp_all add: demo_boot_def fls_ready_def)

lemma span_blit_at: "length ys = n \<Longrightarrow> span (blit m a (xs @ ys @ zs)) (a + length xs) n = ys"
  by (rule nth_equalityI) (auto simp: blit_apply nth_append)

theorem fota_scripts_installed_witness:
  "\<exists>t. check_ota_zone nor_exec ref_engine nor_xip copy_tinfl () True True 0x100000 AIR101
      (demo_boot (pack_header 1 67 @ replicate 10 0 @ package_bytes demo_package)) = Some t \<and>
    span (fst (chip (fota_dev t))) 0x100000 3 = [0x4C, 0x75, 0x61]"
proof -
  let ?z = "pack_header 1 67 @ replicate 10 0 @ package_bytes demo_package"
  let ?m = "blit (\<lambda>_. 0xFF) 65536 ?z"
  have len: "length (package_bytes demo_package) = 67" by (simp add: package_bytes_def demo_package_def pack_header_fields)
  have h: "pack_header 1 67 = span ?m 65536 64" using span_blit_at [of "pack_header 1 67" 64 _ 65536 "[]"] by (simp add: pack_header_fields)
  have inp: "span ?m (65536 + 74) 67 = package_bytes demo_package"
    using span_blit_at [of "package_bytes demo_package" 67 "\<lambda>_. 0xFF" 65536 "pack_header 1 67 @ replicate 10 0" "[]"] len
    by (simp add: pack_header_fields)
  have ok: "package_ok (2 ^ 23) (unat (0x100000 :: u32) mod 2 ^ 27) demo_package"
    by (simp add: package_ok_def demo_package_def pack_header_fields)
  have ap: "apart (unat (0x100000 :: u32) mod 2 ^ 27) demo_package (65536 + 74) (unat (hd32 ''img_len'' (pack_header 1 67)))"
    by (simp add: apart_def pack_header_fields)
  have ty: "img_type (pack_header 1 67) = 1" "img_type (pack_header 2 3) = 2" by (simp_all add: img_type_def pack_header_fields)
  have "\<exists>t. check_ota_zone nor_exec ref_engine nor_xip copy_tinfl () True True 0x100000 AIR101 (demo_boot ?z) = Some t \<and>
      fls_ready (2 ^ 23) (fota_dev t) \<and> fst (chip (fota_dev t)) =
        blit (unpack (unat (0x100000 :: u32) mod 2 ^ 27) demo_package (fst (chip (fota_dev (demo_boot ?z))))) 65536 (replicate 4096 0xFF)"
    by (rule fota_scripts_installed [OF nor.nor_flash_axioms ref_crc.crc_unit_axioms nor_maps demo_boot_ready(1,2), where hdr = "pack_header 1 67"
          and outs = "[package_bytes demo_package]", OF _ _ _ _ _ _ _ _ ok ap])
      (use h ty copy_inflates [of "package_bytes demo_package"] len in \<open>simp_all add: pack_header_fields demo_boot_ready(3) inp [simplified]\<close>)
  then obtain t where t: "check_ota_zone nor_exec ref_engine nor_xip copy_tinfl () True True 0x100000 AIR101 (demo_boot ?z) = Some t"
    "fst (chip (fota_dev t)) = blit (blit ?m 0x100000 [0x4C, 0x75, 0x61]) 65536 (replicate 4096 0xFF)"
    using ty(2) by (auto simp: unpack_def demo_package_def demo_boot_ready(3))
  have "span (fst (chip (fota_dev t))) 0x100000 3 = [0x4C, 0x75, 0x61]"
    unfolding t(2) by (rule nth_equalityI) (auto simp: blit_apply)
  then show ?thesis using t(1) by blast
qed

lemma fota_script_only_dropped_witness:
  "\<exists>t. check_ota_zone nor_exec ref_engine nor_xip copy_tinfl () True True 0x100000 AIR101 (demo_boot (pack_header 2 3 @ [1, 2, 3])) = Some t \<and>
    hd32 ''magic_no'' (mapped_head nor_xip (upgrade_img_addr t) t) = 0xFFFFFFFF"
proof -
  let ?s = "demo_boot (pack_header 2 3 @ [1, 2, 3])"
  have h: "pack_header 2 3 = span (fst (chip (fota_dev ?s))) 65536 64"
    using span_blit_at [of "pack_header 2 3" 64 _ 65536 "[]"] by (simp add: pack_header_fields demo_boot_ready(3))
  have "img_type (pack_header 2 3) = 2" by (simp add: img_type_def pack_header_fields)
  then show ?thesis
    using fota_script_only_dropped [OF nor.nor_flash_axioms ref_crc.crc_unit_axioms nor_maps demo_boot_ready(1,2) _ h pack_header_fields(2)]
    by fastforce
qed

end
