(* ===== verification/Fota_Store.thy ===== *)
theory Fota_Store
  imports Fota_Correct
begin

text \<open>
  Receiving a package: the copy loop through the buffer of 32 KiB stores what it is given, and the final check accepts
  exactly the packages whose body has the announced checksum.
\<close>

text \<open>The checksum of the body covers whole words only.\<close>

definition body_ok :: "u8 list \<Rightarrow> u8 list \<Rightarrow> bool" where
  "body_ok hdr body \<longleftrightarrow> hd32 ''org_checksum'' hdr = NOT (get_crc32 (take (unat (hd32 ''img_len'' hdr) div 4 * 4) body))"

text \<open>Writing a package in pieces until one of the calls fails.\<close>

primrec fota_writes :: "'c hw \<Rightarrow> crc_engine \<Rightarrow> 'c xip \<Rightarrow> u8 list list \<Rightarrow> 'c fota \<Rightarrow> int \<times> 'c fota" where
  "fota_writes hw eng xip [] s = (0, s)"
| "fota_writes hw eng xip (c # cs) s =
     (case luat_fota_write hw eng xip c s of (r, s) \<Rightarrow> if r = 0 then fota_writes hw eng xip cs s else (r, s))"

context nor_flash
begin

text \<open>
  The state after the bytes \<open>D\<close>: the first \<open>w\<close> are in the flash at \<open>a0\<close>, the others in the buffer; the zone
  has \<open>z\<close> bytes.
\<close>

definition buffered :: "(nat \<Rightarrow> u8) \<Rightarrow> nat \<Rightarrow> nat \<Rightarrow> u8 list \<Rightarrow> nat \<Rightarrow> nat \<Rightarrow> 'c fota \<Rightarrow> bool" where
  "buffered V0 a0 z D w k s \<longleftrightarrow>
     fota_state s = FOTA_ONGO \<and> upgrade_img_addr s = of_nat (134217728 + a0) \<and> ota_zone_size s = of_nat z \<and>
     fls_ready csize (fota_dev s) \<and> a0 + z \<le> csize \<and> length D = w + k \<and> k \<le> 32768 \<and> w + k \<le> z \<and>
     fota_write_offset s = of_nat w \<and> fota_buffer_len s = of_nat k \<and>
     (\<exists>b. fota_buffer s = Some b \<and> length b = 32768 \<and> take k b = drop w D) \<and> V (fota_dev s) = blit V0 a0 (take w D)"

lemma buffered_bounds:
  assumes "buffered V0 a0 z D w k s"
  shows "a0 + w + k \<le> 2 ^ 25" "unat (fota_buffer_len s) = k" "unat (fota_write_offset s) = w" "z \<le> 2 ^ 25"
    "unat (fota_write_offset s + fota_buffer_len s) = w + k" "unat (ota_zone_size s) = z"
  using assms csize_le by (auto simp: buffered_def unat_of_nat_u32 unat_word_ariths)

lemma flush_ok:
  assumes "buffered V0 a0 z D w k s" and "0 < k"
  shows "buffered V0 a0 z D (w + k) 0 (flush_buffer hw s)"
proof -
  note b = buffered_bounds [OF assms(1)] and r = assms(1) [unfolded buffered_def]
  obtain buf where buf: "fota_buffer s = Some buf" "length buf = 32768" "take k buf = drop w D" using r by blast
  have a: "upgrade_img_addr s + fota_write_offset s = of_nat (134217728 + a0 + w)" using r by simp
  have u: "unat (of_nat (134217728 + a0 + w) :: u32) mod 2 ^ 27 = a0 + w"
    using b(1) assms(2) by (simp add: unat_of_nat_u32 mod_if del: of_nat_add)
  have pos: "0 < fota_buffer_len s" using b(2) assms(2) by (simp add: word_less_nat_alt)
  have fits: "a0 + w + k \<le> csize" "k \<le> length buf" using r buf(2) by simp_all
  obtain d where d: "tls_fls_write hw (of_nat (134217728 + a0 + w)) (Some buf) (fota_buffer_len s) (fota_dev s) = (TLS_FLS_STATUS_OK, d)"
    "V d = blit (V (fota_dev s)) (a0 + w) (take k buf)" "fls_ready csize d"
    using tls_fls_write_ok [OF _ pos, of "fota_dev s" "of_nat (134217728 + a0 + w)" buf] r u b(2) fits fls_ready_keeps
    by (metis (no_types, lifting))
  have "blit V0 a0 D = blit (blit V0 a0 (take w D)) (a0 + w) (drop w D)"
    using blit_append [of V0 a0 "take w D" "drop w D"] r by simp
  then have v: "V d = blit V0 a0 D" using d(2) r buf(3) by simp
  have "flush_buffer hw s = s\<lparr>fota_dev := d, fota_write_offset := of_nat (w + k), fota_buffer_len := 0\<rparr>"
    unfolding flush_buffer_def a buf(1) using d(1) r by simp
  then show ?thesis using r v d(3) buf by (simp add: buffered_def)
qed

lemma copy_in_ok:
  assumes "buffered V0 a0 z D w k s" and "k + length bs \<le> 32768" and "length D + length bs \<le> z"
  shows "buffered V0 a0 z (D @ bs) w (k + length bs) (copy_in bs s)"
proof -
  note b = buffered_bounds [OF assms(1)] and r = assms(1) [unfolded buffered_def]
  obtain buf where buf: "fota_buffer s = Some buf" "length buf = 32768" "take k buf = drop w D" using r by blast
  have "take (k + length bs) (overlay buf k bs) = drop w (D @ bs)" "length (overlay buf k bs) = 32768"
    using buf r assms(2) by (simp_all add: overlay_def)
  then show ?thesis using r b(2) buf(1) assms(2,3) by (simp add: buffered_def copy_in_def)
qed

lemma fota_copy_ok:
  assumes "buffered V0 a0 z D w k s" and "length D + length data \<le> z"
  shows "\<exists>w' k' s'. fota_copy hw data s = (True, s') \<and> buffered V0 a0 z (D @ data) w' k' s' \<and> fota_head_check s' = fota_head_check s"
  using assms
proof (induction "2 * length data + (if k = 32768 then 1 else 0)" arbitrary: data D w k s rule: less_induct)
  case less
  show ?case
  proof (cases "data = []")
    case True
    then show ?thesis using less.prems by (subst fota_copy.simps) auto
  next
    case False
    note b = buffered_bounds [OF less.prems(1)] and r = less.prems(1) [unfolded buffered_def]
    define n where "n = min (32768 - k) (length data)"
    define t where "t = copy_in (take n data) s"
    have un: "min (unat (32768 - fota_buffer_len s)) (length data) = n"
      using b(2) r by (simp add: n_def unat_sub_if' word_le_nat_alt)
    have n: "length (take n data) = n" "k + n \<le> 32768" using r by (auto simp: n_def)
    have t: "buffered V0 a0 z (D @ take n data) w (k + n) t" "fota_head_check t = fota_head_check s"
      using copy_in_ok [OF less.prems(1), of "take n data"] less.prems(2) n by (simp_all add: t_def copy_in_def)
    note bt = buffered_bounds [OF t(1)]
    have full: "fota_buffer_len t \<ge> FOTA_BUFFER_SIZE \<longleftrightarrow> k + n = 32768" using bt(2) n by (simp add: word_le_nat_alt)
    have nz: "\<not> zone_full t" using bt(5,6) t(1) by (simp add: zone_full_def word_less_nat_alt buffered_def)
    have rest: "length (D @ take n data) + length (drop n data) \<le> z" using less.prems(2) n by simp
    show ?thesis
    proof (cases "k + n = 32768")
      case True
      have f: "buffered V0 a0 z (D @ take n data) (w + (k + n)) 0 (flush_buffer hw t)" using flush_ok [OF t(1)] True by simp
      have "2 * length (drop n data) + 0 < 2 * length data + (if k = 32768 then 1 else 0)"
        using True False by (cases "n = 0") (auto simp: n_def)
      then show ?thesis
        using less.hyps [OF _ f rest] t(2) True full nz False
        by (subst fota_copy.simps) (simp add: Let_def un t_def [symmetric] flush_buffer_def)
    next
      case False
      then have all: "drop n data = []" "n = length data" using r by (auto simp: n_def)
      have "fota_copy hw data s = fota_copy hw [] t"
        using all False full \<open>data \<noteq> []\<close> by (subst fota_copy.simps) (simp add: Let_def un t_def)
      then show ?thesis using t all by (auto simp: fota_copy.simps)
    qed
  qed
qed

definition received :: "(nat \<Rightarrow> u8) \<Rightarrow> nat \<Rightarrow> nat \<Rightarrow> u8 list \<Rightarrow> 'c fota \<Rightarrow> bool" where
  "received V0 a0 z D s \<longleftrightarrow> (\<exists>w k. buffered V0 a0 z D w k s) \<and> fota_head_check s = (if 64 \<le> length D then 1 else 0)"

lemma flushed_view:
  assumes "buffered V0 a0 z D w k s"
  shows "\<exists>w. buffered V0 a0 z D w 0 (if 0 < fota_buffer_len s then flush_buffer hw s else s)"
  using flush_ok [OF assms] assms buffered_bounds(2) [OF assms] by (cases "k = 0") (auto simp: word_less_nat_alt)

lemma buffered_head:
  assumes "maps_flash xip view" and "buffered V0 a0 z D w 0 s" and "64 \<le> length D"
  shows "mapped_head xip (upgrade_img_addr s) s = take 64 D"
proof -
  have v: "V (fota_dev s) = blit V0 a0 D" "a0 + 64 \<le> csize" using assms(2,3) by (auto simp: buffered_def)
  have "mapped_head xip (upgrade_img_addr s) s = span (V (fota_dev s)) a0 64"
    using assms(2) v(2) by (intro mapped_ota_head [OF assms(1)]) (simp_all add: buffered_def)
  then show ?thesis using assms(3) unfolding v(1) by (intro nth_equalityI) (auto simp: blit_apply)
qed

lemma luat_fota_write_ok:
  assumes "crc_unit eng" and "maps_flash xip view" and "ota_head_ok hdr" and "received V0 a0 z D s"
    and "length D + length data \<le> z" and "take 64 (D @ data) = take (length (D @ data)) hdr"
  shows "\<exists>s'. luat_fota_write hw eng xip data s = (0, s') \<and> received V0 a0 z (D @ data) s'"
proof -
  obtain w k where "buffered V0 a0 z D w k s" using assms(4) by (auto simp: received_def)
  moreover from this have st: "fota_state s = FOTA_ONGO" "fota_buffer s \<noteq> None" by (auto simp: buffered_def)
  ultimately obtain w k s1 where c: "fota_copy hw data s = (True, s1)" "buffered V0 a0 z (D @ data) w k s1"
    "fota_head_check s1 = fota_head_check s" using fota_copy_ok [OF _ assms(5)] by blast
  have len: "64 \<le> fota_write_offset s1 + fota_buffer_len s1 \<longleftrightarrow> 64 \<le> length (D @ data)"
    using buffered_bounds(5) [OF c(2)] c(2) by (simp add: word_le_nat_alt buffered_def)
  show ?thesis
  proof (cases "fota_head_check s1 = 0 \<and> 64 \<le> length (D @ data)")
    case False
    then have "fota_head_check s1 = (if 64 \<le> length (D @ data) then 1 else 0)"
      using assms(4) c(3) by (auto simp: received_def split: if_splits)
    then show ?thesis using False st c len by (auto simp: luat_fota_write_def received_def)
  next
    case True
    define s2 where "s2 = (if 0 < fota_buffer_len s1 then flush_buffer hw s1 else s1)"
    obtain w' where s2: "buffered V0 a0 z (D @ data) w' 0 s2" using flushed_view [OF c(2)] by (auto simp: s2_def)
    have "mapped_head xip (upgrade_img_addr s2) s2 = hdr"
      using buffered_head [OF assms(2) s2] True assms(3,6) by (simp add: ota_head_ok_def)
    then have "luat_fota_write hw eng xip data s = (0, s2\<lparr>fota_head_check := 1\<rparr>)"
      using st c(1) len True assms(3) ota_head_checksum [OF assms(1,3)]
      by (simp add: luat_fota_write_def s2_def [symmetric] Let_def ota_head_ok_def)
    moreover have "buffered V0 a0 z (D @ data) w' 0 (s2\<lparr>fota_head_check := 1\<rparr>)" using s2 by (auto simp: buffered_def)
    ultimately show ?thesis using True by (auto simp: received_def)
  qed
qed

lemma luat_fota_done_ok:
  assumes "crc_unit eng" and "maps_flash xip view" and "length hdr = 64" and "received V0 a0 z (hdr @ body) s"
    and "unat (hd32 ''img_len'' hdr) \<le> length body"
  shows "\<exists>t. luat_fota_done hw eng xip s = (if body_ok hdr body then 0 else - 3, t) \<and> V (fota_dev t) = blit V0 a0 (hdr @ body) \<and>
    fota_state t = (if body_ok hdr body then FOTA_DONE else FOTA_ONGO) \<and> fls_ready csize (fota_dev t) \<and>
    upgrade_img_addr t = upgrade_img_addr s"
proof -
  let ?len = "hd32 ''img_len'' hdr"
  obtain w k where b: "buffered V0 a0 z (hdr @ body) w k s" using assms(4) by (auto simp: received_def)
  have nz: "\<not> zone_full s" using buffered_bounds(5,6) [OF b] b by (simp add: zone_full_def word_less_nat_alt buffered_def)
  define t where "t = (if 0 < fota_buffer_len s then flush_buffer hw s else s)"
  obtain w' where t: "buffered V0 a0 z (hdr @ body) w' 0 t" using flushed_view [OF b] by (auto simp: t_def)
  have w: "w' = 64 + length body" "fota_write_offset t = of_nat w'" "w' \<le> 2 ^ 25" "a0 + w' \<le> csize"
    "V (fota_dev t) = blit V0 a0 (hdr @ body)" "fota_state t = FOTA_ONGO" "fls_ready csize (fota_dev t)"
    "upgrade_img_addr t = of_nat (134217728 + a0)"
    using t assms(3) csize_le by (auto simp: buffered_def)
  have hd: "mapped_head xip (upgrade_img_addr t) t = hdr" using buffered_head [OF assms(2) t] assms(3) by simp
  have ge: "\<not> fota_write_offset t < 64" "fota_write_offset t \<noteq> 0" "\<not> fota_write_offset t < ?len + 64"
    using w(1-3) assms(5) by (auto simp: word_less_nat_alt unat_of_nat_u32 unat_word_ariths word_unat_eq_iff)
  have "mapped xip (fota_dev t) (upgrade_img_addr t + 64) (unat ?len) = span (V (fota_dev t)) (a0 + 64) (unat ?len)"
    using w assms(5) csize_le by (intro mapped_span [OF assms(2)]) simp_all
  also have "\<dots> = take (unat ?len) body"
    unfolding w(5) using assms(3,5) by (intro nth_equalityI) (auto simp: blit_apply nth_append)
  finally have "img_checksum eng (mapped xip (fota_dev t) (upgrade_img_addr t + 64) (unat ?len)) ?len =
      NOT (get_crc32 (take (unat ?len div 4 * 4) body))"
    using img_checksum_ref [OF assms(1), of ?len "take (unat ?len) body"] assms(5) by (simp add: min_def)
  then have "luat_fota_done hw eng xip s = (if body_ok hdr body then (0, t\<lparr>fota_state := FOTA_DONE\<rparr>) else (- 3, t))"
    using nz ge hd by (auto simp: luat_fota_done_def t_def [symmetric] Let_def body_ok_def)
  moreover have "upgrade_img_addr s = of_nat (134217728 + a0)" using b by (simp add: buffered_def)
  ultimately show ?thesis using w by auto
qed

lemma erase_zone_ok:
  assumes "fls_ready csize d" and "addr = of_nat (134217728 + a0)" and "4096 dvd a0" and "a0 + 4096 * n \<le> csize"
  shows "V (erase_zone hw addr n d) = blit (V d) a0 (replicate (4096 * n) 0xFF) \<and> fls_ready csize (erase_zone hw addr n d)"
  using assms(4)
proof (induction n)
  case (Suc n)
  have e: "addr + of_nat n * 4096 = of_nat (134217728 + (a0 + 4096 * n))" by (simp add: assms(2))
  have f: "4096 dvd a0 + 4096 * n" "a0 + 4096 * n < csize" using Suc.prems assms(3) by simp_all
  have IH: "V (erase_zone hw addr n d) = blit (V d) a0 (replicate (4096 * n) 0xFF)" "fls_ready csize (erase_zone hw addr n d)"
    using Suc by simp_all
  have "V (erase_zone hw addr (Suc n) d) = blit (V (erase_zone hw addr n d)) (a0 + 4096 * n) (replicate 4096 0xFF) \<and>
      fls_ready csize (erase_zone hw addr (Suc n) d)"
    using erase_at [OF IH(2) e f] by (simp only: erase_zone.simps)
  moreover have "replicate (4096 * Suc n) (0xFF :: u8) = replicate (4096 * n) 0xFF @ replicate 4096 0xFF"
    by (simp only: mult_Suc_right replicate_add [symmetric] add.commute)
  ultimately show ?case using IH(1) by (simp only: blit_append length_replicate)
qed (simp add: assms(1))

lemma luat_fota_init_ok:
  assumes "fls_ready csize (fota_dev s)" and "upgrade_img_addr s = of_nat (134217728 + a0)" and "ota_zone_size s = of_nat z"
    and "4096 dvd a0" and "a0 + z \<le> csize" and "fota_buffer s = None" and "length block = 32768"
  shows "\<exists>t. luat_fota_init hw (Some block) s = (0, t) \<and>
    received (blit (V (fota_dev s)) a0 (replicate (4096 * (z div 4096)) 0xFF)) a0 z [] t"
proof -
  have z: "unat (ota_zone_size s) = z" using assms(3,5) csize_le by (simp add: unat_of_nat_u32)
  have "4096 * (z div 4096) \<le> z" by simp
  then have "a0 + 4096 * (z div 4096) \<le> csize" using assms(5) by linarith
  from erase_zone_ok [OF assms(1,2,4) this] show ?thesis
    using assms z by (auto simp: luat_fota_init_def Let_def received_def buffered_def)
qed

lemma fota_writes_ok:
  assumes "crc_unit eng" and "maps_flash xip view" and "ota_head_ok hdr" and "received V0 a0 z D s"
    and "D @ concat chunks = hdr @ body" and "length (hdr @ body) \<le> z"
  shows "\<exists>t. fota_writes hw eng xip chunks s = (0, t) \<and> received V0 a0 z (hdr @ body) t"
  using assms(4,5)
proof (induction chunks arbitrary: D s)
  case Nil
  then show ?case by simp
next
  case (Cons c cs)
  have "length (D @ c) \<le> z" using arg_cong [OF Cons.prems(2), of length] assms(6) by simp
  moreover have "take 64 (D @ c) = take (length (D @ c)) hdr"
    using arg_cong [OF Cons.prems(2), of "\<lambda>xs. take (min 64 (length (D @ c))) xs"] assms(3)
    by (simp add: ota_head_ok_def min_def split: if_splits)
  ultimately obtain s' where "luat_fota_write hw eng xip c s = (0, s')" "received V0 a0 z (D @ c) s'"
    using luat_fota_write_ok [OF assms(1-3) Cons.prems(1), of c] by auto
  then show ?case using Cons.IH [of "D @ c" s'] Cons.prems(2) by simp
qed

lemma luat_fota_end_ok:
  assumes "maps_flash xip view" and "fls_ready csize (fota_dev s)" and "upgrade_img_addr s = of_nat (134217728 + a0)"
    and "hdr = span (V (fota_dev s)) a0 64" and "a0 + 64 \<le> csize" and "unat (FLASH_OTA_FLAG_ADDR l) mod 2 ^ 27 + 4 \<le> csize"
  shows "\<exists>t. luat_fota_end hw l xip 1 s = (if fota_state s = FOTA_DONE then 0 else - 1, t) \<and>
    V (fota_dev t) = (if fota_state s = FOTA_DONE \<and> img_type hdr = 1
      then blit (V (fota_dev s)) (unat (FLASH_OTA_FLAG_ADDR l) mod 2 ^ 27) (le32 (hd32 ''org_checksum'' hdr)) else V (fota_dev s))"
proof -
  let ?o = "hd32 ''org_checksum'' hdr"
  have hd: "mapped_head xip (upgrade_img_addr s) s = hdr" using mapped_ota_head [OF assms(1,3,5)] assms(4) by simp
  obtain d where d: "tls_fls_write hw (FLASH_OTA_FLAG_ADDR l) (Some (le32 ?o)) 4 (fota_dev s) = (TLS_FLS_STATUS_OK, d)"
    "V d = blit (V (fota_dev s)) (unat (FLASH_OTA_FLAG_ADDR l) mod 2 ^ 27) (le32 ?o)" "fls_ready csize d"
    using tls_fls_write_ok [OF assms(2), of 4 "FLASH_OTA_FLAG_ADDR l" "le32 ?o"] assms(6) fls_ready_keeps [OF _ assms(2)] by auto
  obtain x e where "tls_fls_read hw (FLASH_OTA_FLAG_ADDR l) (Some True) 4 d = (TLS_FLS_STATUS_OK, x, e)" "V e = V d"
    using tls_fls_read_ok [OF d(3), of 4 "FLASH_OTA_FLAG_ADDR l" True] assms(6) by auto
  then show ?thesis using hd d by (auto simp: luat_fota_end_def Let_def)
qed

end

text \<open>
  C36.  A package with a valid header that fits into the zone, written in pieces of any length, is stored byte for byte
  in the erased zone by \<^verbatim>\<open>luat_fota_init\<close>, \<^verbatim>\<open>luat_fota_write\<close> and \<^verbatim>\<open>luat_fota_done\<close>.  The last of them accepts it exactly when
  the checksum of the whole words of its body, up to three last bytes left out, is the announced one, and writes nothing to the flag.
  Only for an accepted package does \<^verbatim>\<open>luat_fota_end\<close> succeed; for an accepted firmware image it writes the checksum to the OTA flag.
\<close>

theorem fota_package_stored:
  assumes "nor_flash hw view wel csize" and "crc_unit eng" and "maps_flash xip view" and "fls_ready csize (fota_dev s)"
    and "upgrade_img_addr s = of_nat (134217728 + a0)" and "ota_zone_size s = of_nat z" and "4096 dvd a0" and "a0 + z \<le> csize"
    and "fota_buffer s = None" and "length block = 32768" and "ota_head_ok hdr" and "concat chunks = hdr @ body"
    and "length (hdr @ body) \<le> z" and "unat (hd32 ''img_len'' hdr) \<le> length body"
    and "unat (FLASH_OTA_FLAG_ADDR l) mod 2 ^ 27 + 4 \<le> csize"
    and "m = blit (blit (view (chip (fota_dev s))) a0 (replicate (4096 * (z div 4096)) 0xFF)) a0 (hdr @ body)"
  shows "\<exists>s1 s2 s3 s4. luat_fota_init hw (Some block) s = (0, s1) \<and> fota_writes hw eng xip chunks s1 = (0, s2) \<and>
    luat_fota_done hw eng xip s2 = (if body_ok hdr body then 0 else - 3, s3) \<and> view (chip (fota_dev s3)) = m \<and>
    luat_fota_end hw l xip 1 s3 = (if body_ok hdr body then 0 else - 1, s4) \<and>
    view (chip (fota_dev s4)) = (if body_ok hdr body \<and> img_type hdr = 1
      then blit m (unat (FLASH_OTA_FLAG_ADDR l) mod 2 ^ 27) (le32 (hd32 ''org_checksum'' hdr)) else m)"
proof -
  have h: "length hdr = 64" using assms(11) by (simp add: ota_head_ok_def)
  let ?V = "blit (view (chip (fota_dev s))) a0 (replicate (4096 * (z div 4096)) 0xFF)"
  obtain s1 where s1: "luat_fota_init hw (Some block) s = (0, s1)" "nor_flash.received view csize ?V a0 z [] s1"
    using nor_flash.luat_fota_init_ok [OF assms(1,4-10)] by blast
  obtain s2 where s2: "fota_writes hw eng xip chunks s1 = (0, s2)" "nor_flash.received view csize ?V a0 z (hdr @ body) s2"
    using nor_flash.fota_writes_ok [OF assms(1-3,11) s1(2) _ assms(13)] assms(12) by auto
  obtain s3 where s3: "luat_fota_done hw eng xip s2 = (if body_ok hdr body then 0 else - 3, s3)" "view (chip (fota_dev s3)) = m"
    "fota_state s3 = (if body_ok hdr body then FOTA_DONE else FOTA_ONGO)" "fls_ready csize (fota_dev s3)"
    "upgrade_img_addr s3 = upgrade_img_addr s2"
    using nor_flash.luat_fota_done_ok [OF assms(1-3) h s2(2) assms(14)] assms(16) by blast
  have up: "upgrade_img_addr s3 = of_nat (134217728 + a0)"
    using s2(2) s3(5) by (auto simp: nor_flash.received_def [OF assms(1)] nor_flash.buffered_def [OF assms(1)])
  have sp: "hdr = span (view (chip (fota_dev s3))) a0 64"
    unfolding s3(2) assms(16) using h by (intro nth_equalityI) (auto simp: blit_apply nth_append)
  have "a0 + 64 \<le> csize" using assms(8,13) h by simp
  then obtain s4 where "luat_fota_end hw l xip 1 s3 = (if body_ok hdr body then 0 else - 1, s4)"
    "view (chip (fota_dev s4)) = (if body_ok hdr body \<and> img_type hdr = 1
      then blit m (unat (FLASH_OTA_FLAG_ADDR l) mod 2 ^ 27) (le32 (hd32 ''org_checksum'' hdr)) else m)"
    using nor_flash.luat_fota_end_ok [OF assms(1,3) s3(4) up sp _ assms(15)] s3(2,3) by (auto split: if_splits)
  then show ?thesis using s1(1) s2(1) s3(1,2) by blast
qed

theorem fota_package_stored_witness:
  "\<exists>s1 s2 s3 s4. luat_fota_init nor_exec (Some (replicate 32768 0)) (demo_boot []) = (0, s1) \<and>
    fota_writes nor_exec ref_engine nor_xip [take 10 demo_header, drop 10 demo_header @ demo_code, replicate 128 0] s1 = (0, s2) \<and>
    luat_fota_done nor_exec ref_engine nor_xip s2 = (0, s3) \<and> luat_fota_end nor_exec default_layout nor_xip 1 s3 = (0, s4) \<and>
    span (fst (chip (fota_dev s4))) 65536 64 = demo_header"
proof -
  let ?body = "demo_code @ replicate 128 0"
  let ?chunks = "[take 10 demo_header, drop 10 demo_header @ demo_code, replicate 128 0]"
  define m where "m = blit (blit (fst (chip (fota_dev (demo_boot [])))) 65536 (replicate (4096 * (0xC0000 div 4096)) 0xFF)) 65536 (demo_header @ ?body)"
  have t: "take 60 demo_header = demo_head" by (simp add: demo_header_def)
  then have ok: "ota_head_ok demo_header" "body_ok demo_header ?body" "img_type demo_header = 1"
    using demo_header_length by (simp_all add: ota_head_ok_def body_ok_def img_type_def demo_header_fields demo_code_def)
  have z: "ota_zone_size (demo_boot []) = of_nat 0xC0000" "fota_buffer (demo_boot []) = None" by (simp_all add: demo_boot_def)
  have c: "concat ?chunks = demo_header @ ?body" by simp
  obtain s1 s2 s3 s4 where r: "luat_fota_init nor_exec (Some (replicate 32768 0)) (demo_boot []) = (0, s1)"
    "fota_writes nor_exec ref_engine nor_xip ?chunks s1 = (0, s2)" "luat_fota_done nor_exec ref_engine nor_xip s2 = (0, s3)"
    "luat_fota_end nor_exec default_layout nor_xip 1 s3 = (0, s4)"
    "fst (chip (fota_dev s4)) = blit m (unat (FLASH_OTA_FLAG_ADDR default_layout) mod 2 ^ 27) (le32 (hd32 ''org_checksum'' demo_header))"
    using fota_package_stored [OF nor.nor_flash_axioms ref_crc.crc_unit_axioms nor_maps demo_boot_ready(1,2) z(1) _ _ z(2) _ ok(1) c,
        where block = "replicate 32768 0" and l = default_layout and m = m] ok(2,3) demo_header_length
    by (auto simp: demo_header_fields demo_code_def default_layout_def m_def)
  have "span (fst (chip (fota_dev s4))) 65536 64 = demo_header"
    unfolding r(5) m_def using demo_header_length
    by (intro nth_equalityI) (auto simp: blit_apply nth_append default_layout_def)
  then show ?thesis using r(1-4) by blast
qed

end
