(* ===== verification/Packer_Correct.thy ===== *)
theory Packer_Correct
  imports Packer Fota_Store
begin

text \<open>
  The packer and the two receivers agree: the image the tool builds has a header and a body that the checks of the firmware
  update module and of the update over the air accept.
\<close>

section \<open>The table-driven checksum\<close>

lemma crc32_basis:
  "crc_entry 0xEDB88320 1 = (0x77073096 :: u32)" "crc_entry 0xEDB88320 2 = (0xEE0E612C :: u32)"
  "crc_entry 0xEDB88320 4 = (0x076DC419 :: u32)" "crc_entry 0xEDB88320 8 = (0x0EDB8832 :: u32)"
  "crc_entry 0xEDB88320 16 = (0x1DB71064 :: u32)" "crc_entry 0xEDB88320 32 = (0x3B6E20C8 :: u32)"
  "crc_entry 0xEDB88320 64 = (0x76DC4190 :: u32)" "crc_entry 0xEDB88320 128 = (0xEDB88320 :: u32)"
  by (simp_all add: crc_entry_def byte_bits_def lfsr_def upt_rec)

lemma crc32_tab_gen: "wm_tool_crc32_tab = table_gen 0xEDB88320 8"
  by (simp add: wm_tool_crc32_tab_def crc32_basis eval_nat_numeral)

lemma crc32_tab_nth: "wm_tool_crc32_tab ! unat d = crc_entry 0xEDB88320 (d :: u8)"
  using table_gen_nth [of 8 "0xEDB88320 :: u32"] unsigned_less [where 'a = nat and w = d] by (simp add: crc32_tab_gen)

lemma crc_byte32: "foldl (lfsr g) c (byte_bits d) = crc_entry g (ucast c XOR d) XOR drop_bit 8 c" for c :: u32
proof -
  have e: "byte_bits (ucast c) = map (bit c) [0..<8]" by (simp add: byte_bits_def bit_ucast_iff)
  have "byte_bits d = map2 (\<noteq>) (byte_bits (ucast c)) (byte_bits (ucast c XOR d))"
    using byte_bits_xor [of "ucast c" "ucast c XOR d"] by (simp only: xor.assoc [symmetric] xor_self_eq xor.left_neutral)
  then have "foldl (lfsr g) c (byte_bits d) = foldl (lfsr g) c (byte_bits (ucast c)) XOR crc_entry g (ucast c XOR d)"
    using foldl_lfsr_xor [of "byte_bits (ucast c)" "byte_bits (ucast c XOR d)" g c 0]
    by (simp add: crc_entry_def) (simp add: byte_bits_def)
  then show ?thesis unfolding e lfsr_own by (simp add: xor.commute)
qed

lemma unat_ucast_u8: "unat (ucast (x :: u8) :: u32) = unat x" and unat_ucast_u16: "unat (ucast (y :: u16) :: u32) = unat y"
  using unsigned_less [where 'a = nat, of x] unsigned_less [where 'a = nat, of y]
  by (simp_all add: unsigned_ucast_eq take_bit_nat_eq_self_iff)

lemma wm_tool_crc32_ref: "wm_tool_get_crc32 c bs 0 = crc_ref 0xEDB88320 c bs"
proof -
  have "wm_tool_crc32 c bs 0 = crc_ref 0xEDB88320 c bs" for c
  proof (induction bs arbitrary: c)
    case (Cons b bs)
    have "unat ((c XOR ucast b) AND 0xFF) = unat (ucast c XOR b)"
    proof -
      have m: "(0xFF :: u32) = mask 8" by (simp add: mask_eq_exp_minus_1)
      have "(c XOR ucast b) AND 0xFF = ucast (ucast c XOR b :: u8)"
        unfolding m by (rule bit_word_eqI) (auto simp: bit_and_iff bit_mask_iff bit_xor_iff bit_ucast_iff dest: bit_imp_le_length)
      then show ?thesis by (simp add: unat_ucast_u8)
    qed
    then show ?case using Cons by (simp add: wm_tool_crc32_def crc_ref_Cons crc32_tab_nth crc_byte32)
  qed (simp add: wm_tool_crc32_def)
  then show ?thesis by (simp add: wm_tool_get_crc32_def)
qed

section \<open>The pass over the input\<close>

definition pad_len :: "u8 list \<Rightarrow> nat" where
  "pad_len f = (if length f mod 1024 = 0 then 0 else 1024 - length f mod 1024)"

definition padded :: "u8 list \<Rightarrow> u8 list" where "padded f = f @ replicate (pad_len f) 0"

lemma concat_file_pieces: "concat (file_pieces f) = f"
  by (induction f rule: file_pieces.induct) (subst file_pieces.simps, simp)

lemma scan_pieces:
  "n + int (length (padded f)) \<le> 0x7FFFFFFF \<Longrightarrow> foldl (\<lambda>s p. Option.bind s (\<lambda>s. scan_piece s p)) (Some (c, n, 0)) (file_pieces f) =
     Some (crc_ref 0xEDB88320 c (padded f), n + int (length (padded f)), pad_len f)"
proof (induction f arbitrary: c n rule: file_pieces.induct)
  case (1 f)
  show ?case
  proof (cases "length f < 1024")
    case True
    then show ?thesis
      using 1(2) by (subst file_pieces.simps) (auto simp: scan_piece_def wm_tool_crc32_ref padded_def pad_len_def Let_def of_nat_diff)
  next
    case False
    have m: "(length f - 1024) mod 1024 = length f mod 1024" using False by (simp add: mod_if [of "length f"])
    have p: "padded f = take 1024 f @ padded (drop 1024 f)" "pad_len (drop 1024 f) = pad_len f"
      using m by (simp_all add: padded_def pad_len_def)
    have l: "length (padded f) = 1024 + length (padded (drop 1024 f))" using False p(1) by simp
    then have s: "scan_piece (c, n, 0) (take 1024 f) = Some (crc_ref 0xEDB88320 c (take 1024 f), n + 1024, 0)"
      using False 1(2) by (simp add: scan_piece_def wm_tool_crc32_ref)
    show ?thesis
      using False s 1(1) [of "n + 1024" "crc_ref 0xEDB88320 c (take 1024 f)"] 1(2) p l
      by (subst file_pieces.simps) (simp add: crc_ref_append)
  qed
qed

lemma scan_file_ref:
  "length (padded f) < 2 ^ 31 \<Longrightarrow> scan_file f = Some (crc_ref 0xEDB88320 0xFFFFFFFF (padded f), int (length (padded f)), pad_len f)"
  using scan_pieces [of 0 f "0xFFFFFFFF"] by (simp add: scan_file_def)

text \<open>An input of 2 GiB or more overflows the length.\<close>

lemma scan_file_overflow:
  assumes "2 ^ 31 \<le> length f"
  shows "scan_file f = None"
proof -
  have none: "foldl (\<lambda>s p. Option.bind s (\<lambda>s. scan_piece s p)) None ps = None" for ps by (induction ps) simp_all
  have "foldl (\<lambda>s p. Option.bind s (\<lambda>s. scan_piece s p)) (Some (c, n, 0)) (file_pieces g) = None"
    if "0x7FFFFFFF < n + int (length g)" for c n g
    using that
  proof (induction g arbitrary: c n rule: file_pieces.induct)
    case (1 g)
    show ?case
    proof (cases "length g < 1024")
      case True
      then show ?thesis using 1(2) by (subst file_pieces.simps) (auto simp: scan_piece_def Let_def of_nat_diff)
    next
      case False
      consider "scan_piece (c, n, 0) (take 1024 g) = None" | c' where "scan_piece (c, n, 0) (take 1024 g) = Some (c', n + 1024, 0)"
        using False by (cases "2147482623 < n") (auto simp: scan_piece_def)
      then show ?thesis
        using False 1(1) [of "n + 1024"] 1(2) none by cases (subst file_pieces.simps, simp)+
    qed
  qed
  then show ?thesis using assms by (simp add: scan_file_def)
qed

section \<open>The header\<close>

lemma booter_member [simp]:
  "member wm_tool_firmware_booter_t ''magic_no'' = (0, 4)" "member wm_tool_firmware_booter_t ''img_type'' = (4, 2)"
  "member wm_tool_firmware_booter_t ''zip_type'' = (6, 2)" "member wm_tool_firmware_booter_t ''run_img_addr'' = (8, 4)"
  "member wm_tool_firmware_booter_t ''run_img_len'' = (12, 4)" "member wm_tool_firmware_booter_t ''img_header_addr'' = (16, 4)"
  "member wm_tool_firmware_booter_t ''upgrade_img_addr'' = (20, 4)" "member wm_tool_firmware_booter_t ''run_org_checksum'' = (24, 4)"
  "member wm_tool_firmware_booter_t ''upd_no'' = (28, 4)" "member wm_tool_firmware_booter_t ''ver'' = (32, 16)"
  "member wm_tool_firmware_booter_t ''next_boot'' = (56, 4)" "member wm_tool_firmware_booter_t ''hd_checksum'' = (60, 4)"
  by (simp_all add: member_def wm_tool_firmware_booter_t_def align_up_def)

lemma booter_size: "csizeof (CStruct wm_tool_firmware_booter_t) = 64"
  by (simp add: csizeof.simps(5) wm_tool_firmware_booter_t_def align_up_def)

text \<open>A field of a buffer of 64 bytes is set and the others are kept.\<close>

lemma set_length:
  "length b = 64 \<Longrightarrow> fst (member wm_tool_firmware_booter_t x) + 4 \<le> 64 \<Longrightarrow> length (set32 x v b) = 64"
  "length b = 64 \<Longrightarrow> fst (member wm_tool_firmware_booter_t x) + 2 \<le> 64 \<Longrightarrow> length (set16 x w b) = 64"
  by (simp_all add: set32_def set16_def)

lemma get_set:
  "length b = 64 \<Longrightarrow> fst (member wm_tool_firmware_booter_t x) = i \<Longrightarrow> i + 4 \<le> 64 \<Longrightarrow> k + 4 \<le> 64 \<Longrightarrow> k = i \<or> k + 4 \<le> i \<or> i + 4 \<le> k \<Longrightarrow>
     get32 (set32 x v b) k = (if k = i then v else get32 b k)"
  "length b = 64 \<Longrightarrow> fst (member wm_tool_firmware_booter_t x) = i \<Longrightarrow> i + 2 \<le> 64 \<Longrightarrow> k + 4 \<le> 64 \<Longrightarrow> k + 4 \<le> i \<or> i + 2 \<le> k \<Longrightarrow>
     get32 (set16 x w b) k = get32 b k"
  "length b = 64 \<Longrightarrow> fst (member wm_tool_firmware_booter_t x) = i \<Longrightarrow> i + 4 \<le> 64 \<Longrightarrow> k + 2 \<le> 64 \<Longrightarrow> k + 2 \<le> i \<or> i + 4 \<le> k \<Longrightarrow>
     get16 (set32 x v b) k = get16 b k"
  "length b = 64 \<Longrightarrow> fst (member wm_tool_firmware_booter_t x) = i \<Longrightarrow> i + 2 \<le> 64 \<Longrightarrow> k + 2 \<le> 64 \<Longrightarrow> k = i \<or> k + 2 \<le> i \<or> i + 2 \<le> k \<Longrightarrow>
     get16 (set16 x w b) k = (if k = i then w else get16 b k)"
  by (auto simp: set32_def set16_def get32_overlay_other get16_overlay_other)

lemma ver_length: "length v < 16 \<Longrightarrow> length (overlay (replicate 64 0) 32 (v @ [0])) = 64"
  by simp

lemma booter_length: "length (image_version opt) < 16 \<Longrightarrow> length (booter_fields opt zipt crc n) = 64"
  by (simp add: booter_fields_def set_length ver_length del: length_overlay)

lemma booter_get:
  assumes "length (image_version opt) < 16"
  shows "get32 (booter_fields opt zipt crc n) 0 = WM_TOOL_IMG_HEAD_MAGIC_NO" "get32 (booter_fields opt zipt crc n) 8 = run_addr opt"
    "get32 (booter_fields opt zipt crc n) 12 = of_int n" "get32 (booter_fields opt zipt crc n) 16 = image_header_addr opt"
    "get32 (booter_fields opt zipt crc n) 20 = upd_addr opt" "get32 (booter_fields opt zipt crc n) 24 = crc"
    "get16 (booter_fields opt zipt crc n) 4 = image_type opt" "get16 (booter_fields opt zipt crc n) 6 = zipt"
  using assms by (simp_all add: booter_fields_def get_set set_length ver_length del: length_overlay)

lemma get32_get16: "get32 bs i = ucast (get16 bs i) OR push_bit 16 (ucast (get16 bs (i + 2)))"
proof (rule bit_word_eqI)
  fix n assume "n < LENGTH(32)"
  then consider "n < 8" | "8 \<le> n" "n < 16" | "16 \<le> n" "n < 24" | "24 \<le> n" "n < 32" by fastforce
  then show "bit (get32 bs i) n = bit (ucast (get16 bs i) OR push_bit 16 (ucast (get16 bs (i + 2)) :: u32)) n"
    by cases (auto simp: get32_def get16_def bit_or_iff bit_push_bit_iff bit_ucast_iff numeral_3_eq_3 dest: bit_imp_le_length)
qed

lemma booter_attr:
  assumes "length (image_version opt) < 16"
  shows "get32 (booter_fields opt zipt crc n) 4 = ucast (image_type opt) OR push_bit 16 (ucast zipt)"
  using get32_get16 [of "booter_fields opt zipt crc n" 4] booter_get(7,8) [OF assms] by simp

lemma make_booter_fields:
  assumes "length (image_version opt) < 16" and "hdr = make_booter opt zipt crc n"
  shows "length hdr = 64" "hd32 ''magic_no'' hdr = WM_TOOL_IMG_HEAD_MAGIC_NO"
    "hd32 ''img_attr'' hdr = ucast (image_type opt) OR push_bit 16 (ucast zipt)" "hd32 ''img_len'' hdr = of_int n"
    "hd32 ''img_addr'' hdr = run_addr opt" "hd32 ''img_header_addr'' hdr = image_header_addr opt"
    "hd32 ''upgrade_img_addr'' hdr = upd_addr opt" "hd32 ''org_checksum'' hdr = crc"
    "hd32 ''hd_checksum'' hdr = NOT (get_crc32 (take 60 hdr))"
proof -
  have l: "length (booter_fields opt zipt crc n) = 64" using booter_length [OF assms(1)] .
  have t: "take 60 hdr = take 60 (booter_fields opt zipt crc n)"
    using l by (simp add: assms(2) make_booter_def set32_def take_overlay_before Let_def)
  show "hd32 ''hd_checksum'' hdr = NOT (get_crc32 (take 60 hdr))"
    unfolding t using l by (simp add: assms(2) make_booter_def Let_def hd32_def set32_def wm_tool_crc32_ref get_crc32_ref)
qed (use booter_length [OF assms(1)] booter_get [OF assms(1)] booter_attr [OF assms(1)] in
    \<open>simp_all add: assms(2) make_booter_def Let_def hd32_def set32_def get32_overlay_other\<close>)

lemma booter_flags:
  assumes "hd32 ''img_attr'' hdr = ucast (t :: u16) OR push_bit 16 (ucast (z :: u16))"
  shows "img_type hdr = ucast (t AND 0xF)" "signature hdr = bit t 8" "code_encrypt hdr = bit t 4"
proof -
  have m: "(0xF :: u32) = mask 4" "(0xF :: u16) = mask 4" by (simp_all add: mask_eq_exp_minus_1)
  show "img_type hdr = ucast (t AND 0xF)"
    unfolding img_type_def assms m
    by (rule bit_word_eqI) (auto simp: bit_and_iff bit_or_iff bit_push_bit_iff bit_ucast_iff bit_mask_iff)
  show "signature hdr = bit t 8" "code_encrypt hdr = bit t 4"
    by (simp_all add: signature_def code_encrypt_def assms bit_or_iff bit_push_bit_iff bit_ucast_iff)
qed

lemma padded_dvd: "1024 dvd length (padded f)"
proof (cases "length f mod 1024 = 0")
  case True
  then show ?thesis by (simp add: padded_def pad_len_def dvd_eq_mod_eq_0)
next
  case False
  have up: "q * 1024 + r = n \<Longrightarrow> r < 1024 \<Longrightarrow> n + (1024 - r) = (q + 1) * (1024 :: nat)" for q r n by (simp add: algebra_simps)
  have "length f + (1024 - length f mod 1024) = (length f div 1024 + 1) * 1024"
    by (rule up) (simp_all only: div_mult_mod_eq mod_less_divisor zero_less_numeral)
  then show ?thesis using False by (simp add: padded_def pad_len_def)
qed

section \<open>Packed images are accepted\<close>

text \<open>
  C40.  What \<^verbatim>\<open>wm_tool_pack_image\<close> and \<^verbatim>\<open>wm_tool_pack_gz_image\<close> make of a file whose padded length fits a signed \<^verbatim>\<open>int\<close> is a header and the file
  padded to a multiple of 1024 bytes.  The checks of the update over the air hold for the pair, and the body has the length and
  checksum the header announces.  The header check of the firmware update module accepts the header exactly for image type 1,
  when the image with this length is placed in the flash as the module demands, and when the signature and encryption flags agree with those
  of the running image.
\<close>

theorem packed_image_accepted:
  assumes "length (image_version opt) < 16" and "length f \<le> 2 ^ 31 - 1024"
    and "out \<in> {wm_tool_pack_image opt (Some f) True, wm_tool_pack_gz_image opt (Some f) True}"
  shows "\<exists>hdr body. out = Some (0, Some (hdr @ body)) \<and> body = f @ replicate (length body - length f) 0 \<and> 1024 dvd length body \<and>
    length body < length f + 1024 \<and> unat (hd32 ''img_len'' hdr) = length body \<and>
    ota_head_ok hdr \<and> body_ok hdr body \<and> checksum_ok hdr body \<and>
    (header_ok user m hdr \<longleftrightarrow> image_type opt AND 0xF = 1 \<and> image_placed user hdr \<and>
       signature (span m (unat (image_header_addr opt) mod 2 ^ 27) 64) = bit (image_type opt) 8 \<and>
       code_encrypt (span m (unat (image_header_addr opt) mod 2 ^ 27) 64) = bit (image_type opt) 4)"
proof -
  obtain zipt where z: "out = pack_file opt zipt (Some f) True"
    using assms(3) by (auto simp: wm_tool_pack_image_def wm_tool_pack_gz_image_def)
  let ?b = "padded f"
  let ?h = "make_booter opt zipt (crc_ref 0xEDB88320 0xFFFFFFFF ?b) (int (length ?b))"
  note h = make_booter_fields [OF assms(1) refl, of zipt "crc_ref 0xEDB88320 0xFFFFFFFF ?b" "int (length ?b)"]
  have lb: "length ?b < length f + 1024" by (simp add: padded_def pad_len_def)
  have l31: "length ?b < 2 ^ 31" using lb assms(2) by simp
  then have u: "unat (hd32 ''img_len'' ?h) = length ?b" by (simp add: h(4) unat_of_nat_u32)
  have out: "out = Some (0, Some (?h @ ?b))"
    using scan_file_ref [OF l31] by (simp add: z pack_file_def concat_file_pieces) (simp add: padded_def)
  have d: "length ?b div 4 * 4 = length ?b" using padded_dvd [of f] by (auto elim!: dvdE)
  have ck: "ota_head_ok ?h" "body_ok ?h ?b" "checksum_ok ?h ?b"
    using h u d by (simp_all add: ota_head_ok_def body_ok_def checksum_ok_def get_crc32_ref)
  have t: "img_type ?h = 1 \<longleftrightarrow> image_type opt AND 0xF = 1"
    unfolding booter_flags(1) [OF h(3)] by (simp add: word_unat_eq_iff unat_ucast_u16)
  have ho: "header_ok user m ?h \<longleftrightarrow> image_type opt AND 0xF = 1 \<and> image_placed user ?h \<and>
       signature (span m (unat (image_header_addr opt) mod 2 ^ 27) 64) = bit (image_type opt) 8 \<and>
       code_encrypt (span m (unat (image_header_addr opt) mod 2 ^ 27) 64) = bit (image_type opt) 4"
    using h t booter_flags(2,3) [OF h(3)] by (auto simp: header_ok_def Let_def)
  have "?b = f @ replicate (length ?b - length f) 0" by (simp add: padded_def)
  then show ?thesis using out lb padded_dvd u ck ho by blast
qed

theorem packed_image_accepted_witness:
  "\<exists>hdr body. wm_tool_pack_image \<lparr>image_version = [], image_type = 1, zip_option = 1, run_addr = 0x80D0400, image_header_addr = 0x80D0000,
      upd_addr = 0x8010000, image_upd_no = 0, next_image_header = 0\<rparr> (Some [1, 2, 3]) True = Some (0, Some (hdr @ body)) \<and>
    length body = 1024 \<and> ota_head_ok hdr \<and> checksum_ok hdr body"
proof -
  let ?o = "\<lparr>image_version = [], image_type = 1, zip_option = 1, run_addr = 0x80D0400, image_header_addr = 0x80D0000,
      upd_addr = 0x8010000, image_upd_no = 0, next_image_header = 0\<rparr>"
  have "length (image_version ?o) < 16" "length [1, 2, 3 :: u8] \<le> 2 ^ 31 - 1024" by simp_all
  from packed_image_accepted [OF this insertI1, of 0 "\<lambda>_. 0"]
  obtain hdr body where r: "wm_tool_pack_image ?o (Some [1, 2, 3]) True = Some (0, Some (hdr @ body))" "1024 dvd length body"
    "body = [1, 2, 3] @ replicate (length body - length [1, 2, 3 :: u8]) 0" "length body < length [1, 2, 3 :: u8] + 1024"
    "ota_head_ok hdr" "checksum_ok hdr body" by blast
  obtain k where k: "length body = 1024 * k" using r(2) by (auto simp: dvd_def)
  have "0 < length body" using r(3) by (metis append_Cons length_greater_0_conv list.distinct(1))
  then have "k = 1" using k r(4) by simp
  then have "length body = 1024" using k by simp
  then show ?thesis using r(1,5,6) by blast
qed

end
