(* ===== verification/Dma.thy ===== *)
theory Dma
  imports Prelude
begin

text \<open>
  The DMA driver, \<^verbatim>\<open>platform/drivers/dma/wm_dma.c\<close>: allocation of the eight channels, start and stop of transfers, and
  the interrupt handler.

  The registers of the channels are lists of eight words.  What the code reads while it waits for the hardware is an
  argument \<open>polls\<close>, the successive values of the control register; a wait that never ends, a channel number beyond the
  tables and a null descriptor are \<open>None\<close>.  \<open>wr\<close> gives the interrupt source register after a write to it.
  Callbacks with their arguments are values of a type parameter.
\<close>

record 'f dma_irq_context =
  cflags :: u8
  burst_done :: "'f option"
  transfer_done :: "'f option"

record 'f dma =
  dma_used_bit :: u16
  dma_context :: "'f dma_irq_context list"
  channels :: "u8 list"
  irq_len :: "u32 list"
  SRCADDR :: "u32 list"
  DESTADDR :: "u32 list"
  SRCWRAPADDR :: "u32 list"
  DESTWRAPADDR :: "u32 list"
  WRAPSIZE :: "u32 list"
  CHNLCTRL :: "u32 list"
  MODE :: "u32 list"
  CTRL :: "u32 list"
  INTMASK :: u32
  INTSRC :: u32
  dma_clock :: bool
  irq_enabled :: "nat list"

record tls_dma_descriptor =
  dma_ctrl :: u32
  src_addr :: u32
  dest_addr :: u32

abbreviation TLS_DMA_FLAGS_CHANNEL_VALID :: u8 where "TLS_DMA_FLAGS_CHANNEL_VALID \<equiv> 0x80"
abbreviation TLS_DMA_IRQ_BURST_DONE :: u8 where "TLS_DMA_IRQ_BURST_DONE \<equiv> 1"
abbreviation TLS_DMA_IRQ_TRANSFER_DONE :: u8 where "TLS_DMA_IRQ_TRANSFER_DONE \<equiv> 2"
abbreviation TLS_DMA_IRQ_BOTH_DONE :: u8 where "TLS_DMA_IRQ_BOTH_DONE \<equiv> 3"
abbreviation DMA_CHNL_CTRL_CHNL_ON :: u32 where "DMA_CHNL_CTRL_CHNL_ON \<equiv> 1"
abbreviation DMA_CHNL_CTRL_CHNL_OFF :: u32 where "DMA_CHNL_CTRL_CHNL_OFF \<equiv> 2"

definition upd :: "nat \<Rightarrow> u32 \<Rightarrow> u32 list \<Rightarrow> u32 list" where "upd ch v r = r[ch := v]"

text \<open>The busy wait for a channel to go off: the value read last.\<close>

definition wait_off :: "u32 list \<Rightarrow> u32 option" where
  "wait_off polls = (case dropWhile (\<lambda>v. v AND DMA_CHNL_CTRL_CHNL_ON \<noteq> 0) polls of [] \<Rightarrow> None | v # _ \<Rightarrow> Some v)"

section \<open>Channels\<close>

definition tls_dma_stop :: "u32 list \<Rightarrow> nat \<Rightarrow> 'f dma \<Rightarrow> (u8 \<times> 'f dma) option" where
  "tls_dma_stop polls ch s =
     (if ch > 7 then Some (1, s)
      else if CHNLCTRL s ! ch AND DMA_CHNL_CTRL_CHNL_ON \<noteq> 0
        then map_option (\<lambda>v. (0, s\<lparr>CHNLCTRL := upd ch v (CHNLCTRL s)\<rparr>)) (wait_off polls)
        else Some (0, s))"

text \<open>The first channel without the valid flag, 8 if there is none.\<close>

fun first_free :: "u8 list \<Rightarrow> nat" where
  "first_free [] = 0"
| "first_free (c # cs) = (if c AND TLS_DMA_FLAGS_CHANNEL_VALID = 0 then 0 else Suc (first_free cs))"

definition tls_dma_request :: "u8 \<Rightarrow> u8 \<Rightarrow> 'f dma \<Rightarrow> u8 \<times> 'f dma" where
  "tls_dma_request ch flags s =
     (let freeCh = (if ch < 8 \<and> channels s ! unat ch AND TLS_DMA_FLAGS_CHANNEL_VALID = 0 then ch else 0xFF);
          freeCh = (if freeCh = 0xFF then (let i = first_free (take 8 (channels s)) in if i < 8 then of_nat i else 0xFF) else freeCh)
      in if freeCh < 8 then
           (freeCh,
            s\<lparr>dma_clock := (if dma_used_bit s = 0 then True else dma_clock s),
              dma_used_bit := dma_used_bit s OR push_bit (unat freeCh) 1,
              channels := (channels s)[unat freeCh := flags OR TLS_DMA_FLAGS_CHANNEL_VALID],
              MODE := upd (unat freeCh) (ucast flags) (MODE s)\<rparr>)
         else (freeCh, s))"

definition tls_dma_free :: "(u32 \<Rightarrow> u32 \<Rightarrow> u32) \<Rightarrow> u32 list \<Rightarrow> u8 \<Rightarrow> 'f dma \<Rightarrow> 'f dma option" where
  "tls_dma_free wr polls ch s =
     (if ch < 8 then
        (case tls_dma_stop polls (unat ch) s of
           None \<Rightarrow> None
         | Some (_, s) \<Rightarrow>
             (let i = unat ch; used = dma_used_bit s AND NOT (push_bit i 1)
              in Some (s\<lparr>SRCADDR := upd i 0 (SRCADDR s), DESTADDR := upd i 0 (DESTADDR s), MODE := upd i 0 (MODE s),
                    CTRL := upd i 0 (CTRL s), INTSRC := wr (INTSRC s) (INTSRC s OR push_bit (i * 2) 3),
                    channels := (channels s)[i := 0], dma_used_bit := used,
                    dma_clock := (if used = 0 then False else dma_clock s)\<rparr>)))
      else Some s)"

definition tls_dma_init :: "(u32 \<Rightarrow> u32 \<Rightarrow> u32) \<Rightarrow> 'f dma \<Rightarrow> 'f dma" where
  "tls_dma_init wr s =
     (let v = foldl (\<lambda>v i. if dma_used_bit s AND push_bit i 1 = 0 then v OR push_bit (i * 2) 3 else v) 0 [0..<8]
      in s\<lparr>INTMASK := v, INTSRC := wr (INTSRC s) v\<rparr>)"

section \<open>Transfers\<close>

definition ctrl_word :: "tls_dma_descriptor \<Rightarrow> bool \<Rightarrow> u32" where
  "ctrl_word desc auto_reload = push_bit 1 (dma_ctrl desc AND 0x7FFFFF) OR (if auto_reload then 1 else 0)"

definition tls_dma_start :: "nat \<Rightarrow> tls_dma_descriptor option \<Rightarrow> bool \<Rightarrow> 'f dma \<Rightarrow> (u8 \<times> 'f dma) option" where
  "tls_dma_start ch dma_desc auto_reload s =
     (if ch > 7 \<and> dma_desc = None then Some (1, s)
      else if ch > 7 then None
      else
        (case dma_desc of
           None \<Rightarrow> None
         | Some desc \<Rightarrow>
             Some (0, s\<lparr>dma_used_bit := (if dma_used_bit s AND push_bit ch 1 = 0 then dma_used_bit s OR push_bit ch 1 else dma_used_bit s),
               SRCADDR := upd ch (src_addr desc) (SRCADDR s), DESTADDR := upd ch (dest_addr desc) (DESTADDR s),
               CTRL := upd ch (ctrl_word desc auto_reload) (CTRL s),
               CHNLCTRL := upd ch (CHNLCTRL s ! ch OR DMA_CHNL_CTRL_CHNL_ON) (CHNLCTRL s)\<rparr>)))"

definition tls_dma_start_by_wrap ::
  "nat \<Rightarrow> tls_dma_descriptor option \<Rightarrow> bool \<Rightarrow> u16 \<Rightarrow> u16 \<Rightarrow> 'f dma \<Rightarrow> (u8 \<times> 'f dma) option" where
  "tls_dma_start_by_wrap ch dma_desc auto_reload src_zize dest_zize s =
     (if ch > 7 \<and> dma_desc = None then Some (1, s)
      else if ch > 7 then None
      else
        (case dma_desc of
           None \<Rightarrow> None
         | Some desc \<Rightarrow>
             Some (0, s\<lparr>SRCWRAPADDR := upd ch (src_addr desc) (SRCWRAPADDR s), DESTWRAPADDR := upd ch (dest_addr desc) (DESTWRAPADDR s),
               WRAPSIZE := upd ch (push_bit 16 (ucast dest_zize) OR ucast src_zize) (WRAPSIZE s),
               CTRL := upd ch (ctrl_word desc auto_reload) (CTRL s),
               CHNLCTRL := upd ch (CHNLCTRL s ! ch OR DMA_CHNL_CTRL_CHNL_ON) (CHNLCTRL s)\<rparr>)))"

text \<open>\<open>n\<close> more reads that find the channel on make the wait fail.\<close>

primrec wait_loop :: "nat \<Rightarrow> (nat \<Rightarrow> u32) \<Rightarrow> nat \<Rightarrow> int" where
  "wait_loop 0 polls i = - 1"
| "wait_loop (Suc n) polls i = (if polls i AND DMA_CHNL_CTRL_CHNL_ON \<noteq> 0 then wait_loop n polls (Suc i) else 0)"

definition tls_dma_wait_complt :: "(nat \<Rightarrow> u32) \<Rightarrow> int" where
  "tls_dma_wait_complt polls = wait_loop 501 polls 0"

section \<open>Interrupts\<close>

definition tls_dma_irq_clr :: "(u32 \<Rightarrow> u32 \<Rightarrow> u32) \<Rightarrow> nat \<Rightarrow> u8 \<Rightarrow> 'f dma \<Rightarrow> 'f dma" where
  "tls_dma_irq_clr wr ch flags s = s\<lparr>INTSRC := wr (INTSRC s) (push_bit (2 * ch) (ucast flags))\<rparr>"

text \<open>Channels 4 to 7 share one interrupt.\<close>

definition tls_dma_irq_register :: "nat \<Rightarrow> 'f option \<Rightarrow> u8 \<Rightarrow> 'f dma \<Rightarrow> 'f dma option" where
  "tls_dma_irq_register ch callback flags s =
     (if ch > 7 then None
      else
        (let c = (dma_context s ! ch)\<lparr>cflags := flags\<rparr>;
             c = (if flags AND TLS_DMA_IRQ_BURST_DONE \<noteq> 0 then c\<lparr>burst_done := callback\<rparr> else c);
             c = (if flags AND TLS_DMA_IRQ_TRANSFER_DONE \<noteq> 0 then c\<lparr>transfer_done := callback\<rparr> else c)
         in Some (s\<lparr>INTMASK := (INTMASK s OR push_bit (2 * ch) 3) AND NOT (push_bit (2 * ch) (ucast flags)),
               dma_context := (dma_context s)[ch := c],
               irq_enabled := irq_enabled s @ [if ch > 3 then 4 else ch]\<rparr>)))"

definition pending :: "u32 \<Rightarrow> u8 \<Rightarrow> nat \<Rightarrow> bool" where
  "pending int_src flags ch \<longleftrightarrow> int_src AND push_bit (ch * 2) (ucast flags) \<noteq> 0"

text \<open>The channel an interrupt is for; \<open>None\<close>: none of those that share it.\<close>

definition irq_channel :: "nat \<Rightarrow> u32 \<Rightarrow> nat option" where
  "irq_channel p int_src =
     (if p > 3 then find (pending int_src TLS_DMA_IRQ_BOTH_DONE) [4, 5, 6, 7] else Some p)"

text \<open>With automatic reload the total length in the control register grows; before it overflows the channel is restarted.\<close>

definition reload :: "u32 list \<Rightarrow> nat \<Rightarrow> 'f dma \<Rightarrow> 'f dma option" where
  "reload polls ch s =
     (if CTRL s ! ch AND 1 = 0 then Some s
      else
        (let temp = CTRL s ! ch; cur_len = drop_bit 8 (temp AND 0xFFFF00);
             s = (if irq_len s ! ch = 0 then s\<lparr>irq_len := upd ch cur_len (irq_len s)\<rparr> else s); len = irq_len s ! ch;
             finish = (\<lambda>cur_len s. s\<lparr>CTRL := upd ch (temp AND NOT 0xFFFF00 OR push_bit 8 (cur_len + len)) (CTRL s)\<rparr>)
         in if cur_len + len > 0xFFFF
            then map_option (\<lambda>v. finish 0 (s\<lparr>CHNLCTRL := upd ch (v OR DMA_CHNL_CTRL_CHNL_ON) (CHNLCTRL s)\<rparr>)) (wait_off polls)
            else Some (finish cur_len s)))"

text \<open>The callback to run, if any.\<close>

definition dma_irq_proc :: "(u32 \<Rightarrow> u32 \<Rightarrow> u32) \<Rightarrow> u32 list \<Rightarrow> nat \<Rightarrow> 'f dma \<Rightarrow> ('f option \<times> 'f dma) option" where
  "dma_irq_proc wr polls p s =
     (let int_src = INTSRC s
      in case irq_channel p int_src of
           None \<Rightarrow> Some (None, s)
         | Some ch \<Rightarrow>
             (case reload polls ch s of
                None \<Rightarrow> None
              | Some s \<Rightarrow>
                  (let c = dma_context s ! ch
                   in if pending int_src TLS_DMA_IRQ_BOTH_DONE ch \<and> cflags c = TLS_DMA_IRQ_BOTH_DONE
                      then Some (burst_done c, tls_dma_irq_clr wr ch TLS_DMA_IRQ_BOTH_DONE s)
                      else if pending int_src TLS_DMA_IRQ_BURST_DONE ch \<and> cflags c = TLS_DMA_IRQ_BURST_DONE
                      then Some (burst_done c, tls_dma_irq_clr wr ch TLS_DMA_IRQ_BOTH_DONE s)
                      else if pending int_src TLS_DMA_IRQ_TRANSFER_DONE ch \<and> cflags c = TLS_DMA_IRQ_TRANSFER_DONE
                      then Some (transfer_done c, tls_dma_irq_clr wr ch TLS_DMA_IRQ_BOTH_DONE s)
                      else Some (None, s))))"

end
