(* ===== verification/Dma_Correct.thy ===== *)
theory Dma_Correct
  imports Dma
begin

text \<open>
  Channels are owned exclusively: an invariant over all interleavings of requests and releases, with the state of the
  peripheral clock, and the reference for the choice of a channel.
\<close>

definition owned :: "'f dma \<Rightarrow> nat \<Rightarrow> bool" where
  "owned s i \<longleftrightarrow> i < 8 \<and> bit (channels s ! i) 7"

definition dma_inv :: "'f dma \<Rightarrow> bool" where
  "dma_inv s \<longleftrightarrow> length (channels s) = 8 \<and> (\<forall>i < 16. bit (dma_used_bit s) i \<longleftrightarrow> owned s i) \<and> (dma_clock s \<longleftrightarrow> (\<exists>i. owned s i))"

lemma valid_bit: "(w :: u8) AND 0x80 = 0 \<longleftrightarrow> \<not> bit w 7"
proof -
  have "w AND 0x80 = w AND push_bit 7 1" by simp
  then show ?thesis by (simp only: and_exp_eq_0_iff_not_bit push_bit_of_1)
qed

lemma valid_or: "bit ((w :: u8) OR 0x80) 7"
proof -
  have "w OR 0x80 = w OR push_bit 7 1" by simp
  then show ?thesis by (simp only: bit_or_iff bit_push_bit_iff) simp
qed

lemma used_zero:
  assumes "dma_inv s"
  shows "dma_used_bit s = 0 \<longleftrightarrow> \<not> (\<exists>i. owned s i)"
  using assms by (auto simp: dma_inv_def owned_def bit_eq_iff)

lemma first_free_spec:
  "first_free cs \<le> length cs \<and> (first_free cs < length cs \<longrightarrow> \<not> bit (cs ! first_free cs) 7) \<and> (\<forall>j < first_free cs. bit (cs ! j) 7)"
  by (induction cs) (auto simp: valid_bit nth_Cons split: nat.splits)

text \<open>The channel \<^verbatim>\<open>tls_dma_request\<close> chooses: the one asked for, else the lowest free one.\<close>

definition choice :: "u8 \<Rightarrow> 'f dma \<Rightarrow> nat option" where
  "choice ch s = (if unat ch < 8 \<and> \<not> owned s (unat ch) then Some (unat ch) else find (\<lambda>i. \<not> owned s i) [0..<8])"

lemma first_free_find:
  assumes "length (channels s) = 8"
  shows "find (\<lambda>i. \<not> owned s i) [0..<8] = (if first_free (channels s) < 8 then Some (first_free (channels s)) else None)"
proof -
  note f = first_free_spec [of "channels s"]
  show ?thesis
  proof (cases "first_free (channels s) < 8")
    case True
    then show ?thesis
      using f assms by (auto simp: find_Some_iff owned_def intro!: exI [of _ "first_free (channels s)"])
  next
    case False
    then have "\<forall>i < 8. owned s i" using f assms by (auto simp: owned_def)
    then show ?thesis using False by (auto simp: find_None_iff)
  qed
qed

lemma choice_Some:
  assumes "length (channels s) = 8" and "choice ch s = Some i"
  shows "i < 8" "\<not> owned s i"
  using assms by (auto simp: choice_def find_Some_iff split: if_splits)

definition grant :: "nat \<Rightarrow> u8 \<Rightarrow> 'f dma \<Rightarrow> 'f dma" where
  "grant i flags s = s\<lparr>dma_clock := (if dma_used_bit s = 0 then True else dma_clock s), dma_used_bit := dma_used_bit s OR push_bit i 1,
     channels := (channels s)[i := flags OR TLS_DMA_FLAGS_CHANNEL_VALID], MODE := upd i (ucast flags) (MODE s)\<rparr>"

lemma request_eq:
  assumes "dma_inv s"
  shows "tls_dma_request ch flags s = (case choice ch s of None \<Rightarrow> (0xFF, s) | Some i \<Rightarrow> (of_nat i, grant i flags s))"
proof -
  have l: "length (channels s) = 8" using assms by (simp add: dma_inv_def)
  have u: "i < 8 \<Longrightarrow> unat (of_nat i :: u8) = i" for i by (simp add: unat_of_nat)
  have lt: "ch < 8 \<longleftrightarrow> unat ch < 8" by (simp add: word_less_nat_alt)
  have own: "unat ch < 8 \<Longrightarrow> channels s ! unat ch AND 0x80 = 0 \<longleftrightarrow> \<not> owned s (unat ch)"
    by (simp add: valid_bit owned_def)
  show ?thesis
  proof (cases "unat ch < 8 \<and> \<not> owned s (unat ch)")
    case True
    then have "ch \<noteq> 0xFF" by auto
    then show ?thesis using True lt own by (simp add: tls_dma_request_def choice_def Let_def grant_def)
  next
    case False
    let ?i = "first_free (channels s)"
    have "(of_nat ?i :: u8) < 8" if "?i < 8" using that u by (simp add: word_less_nat_alt)
    then show ?thesis
      using False lt own l u [of ?i] first_free_find [OF l]
      by (auto simp: tls_dma_request_def choice_def Let_def grant_def)
  qed
qed

lemma dma_invI:
  assumes "length (channels s) = 8" and "\<And>i. i < 16 \<Longrightarrow> bit (dma_used_bit s) i \<longleftrightarrow> owned s i"
    and "dma_clock s \<longleftrightarrow> dma_used_bit s \<noteq> 0"
  shows "dma_inv s"
  using assms by (auto simp: dma_inv_def owned_def bit_eq_iff)

lemma grant_inv:
  assumes "dma_inv s" and "i < 8"
  shows "dma_inv (grant i flags s)" "owned (grant i flags s) = (owned s)(i := True)"
proof -
  have l: "length (channels s) = 8" using assms(1) by (simp add: dma_inv_def)
  show o: "owned (grant i flags s) = (owned s)(i := True)"
    using assms(2) l valid_or by (auto simp: owned_def grant_def nth_list_update fun_eq_iff)
  have c: "dma_clock s \<longleftrightarrow> dma_used_bit s \<noteq> 0" using used_zero [OF assms(1)] assms(1) by (simp add: dma_inv_def)
  have b: "bit (dma_used_bit (grant i flags s)) j \<longleftrightarrow> bit (dma_used_bit s) j \<or> j = i" if "j < 16" for j
    using that assms(2) by (auto simp: grant_def bit_or_iff bit_exp_iff)
  have "bit (dma_used_bit (grant i flags s)) i" using b [of i] assms(2) by simp
  then have "dma_used_bit (grant i flags s) \<noteq> 0" by auto
  then show "dma_inv (grant i flags s)"
    using l b o c assms(1) by (intro dma_invI) (auto simp: dma_inv_def grant_def)
qed

lemma tls_dma_stop_keeps:
  assumes "tls_dma_stop polls ch s = Some (r, t)"
  shows "channels t = channels s" "dma_used_bit t = dma_used_bit s" "dma_clock t = dma_clock s"
  using assms by (auto simp: tls_dma_stop_def split: if_splits)

lemma free_inv:
  assumes "dma_inv s" and "tls_dma_free wr polls ch s = Some t"
  shows "dma_inv t \<and> owned t = (if unat ch < 8 then (owned s)(unat ch := False) else owned s)"
proof (cases "unat ch < 8")
  case False
  then show ?thesis using assms by (simp add: tls_dma_free_def word_less_nat_alt)
next
  case True
  then obtain r u where u: "tls_dma_stop polls (unat ch) s = Some (r, u)"
    using assms(2) by (auto simp: tls_dma_free_def word_less_nat_alt split: option.splits)
  note k = tls_dma_stop_keeps [OF u]
  have l: "length (channels s) = 8" using assms(1) by (simp add: dma_inv_def)
  have t: "channels t = (channels s)[unat ch := 0]" "dma_used_bit t = dma_used_bit s AND NOT (push_bit (unat ch) 1)"
    "dma_clock t = (if dma_used_bit t = 0 then False else dma_clock s)"
    using assms(2) True u k by (auto simp: tls_dma_free_def word_less_nat_alt Let_def)
  have o: "owned t = (owned s)(unat ch := False)" using True l by (auto simp: owned_def t(1) nth_list_update fun_eq_iff)
  have b: "bit (dma_used_bit t) j \<longleftrightarrow> bit (dma_used_bit s) j \<and> j \<noteq> unat ch" if "j < 16" for j
    using that by (auto simp: t(2) bit_and_iff bit_not_iff bit_exp_iff)
  have "dma_used_bit t \<noteq> 0 \<Longrightarrow> dma_clock s"
    using used_zero [OF assms(1)] assms(1) t(2) by (auto simp: dma_inv_def)
  then have "dma_inv t" using t l b o assms(1) True by (intro dma_invI) (auto simp: dma_inv_def)
  then show ?thesis using o True by simp
qed

section \<open>Sequences of requests and releases\<close>

inductive dma_reach :: "'f dma \<Rightarrow> bool" where
  boot: "channels s = replicate 8 0 \<Longrightarrow> dma_used_bit s = 0 \<Longrightarrow> \<not> dma_clock s \<Longrightarrow> dma_reach s"
| request: "dma_reach s \<Longrightarrow> dma_reach (snd (tls_dma_request ch flags s))"
| free: "dma_reach s \<Longrightarrow> tls_dma_free wr polls ch s = Some t \<Longrightarrow> dma_reach t"

lemma dma_reach_inv: "dma_reach s \<Longrightarrow> dma_inv s"
proof (induction rule: dma_reach.induct)
  case (boot s)
  then show ?case by (intro dma_invI) (auto simp: owned_def)
next
  case (request s ch flags)
  have "length (channels s) = 8" using request.IH by (simp add: dma_inv_def)
  then show ?case
    using choice_Some(1) [of s ch] grant_inv(1) [OF request.IH] request_eq [OF request.IH, of ch flags] request.IH
    by (cases "choice ch s") auto
next
  case (free s wr polls ch t)
  then show ?case using free_inv by blast
qed

text \<open>
  C39.  In every sequence of requests and releases of DMA channels, the peripheral clock is on exactly while a channel is
  owned, and \<^verbatim>\<open>tls_dma_request\<close> gives out a channel nobody owns, the one asked for if it is free, and makes no
  other change of ownership; it returns 0xFF and changes nothing exactly when all eight channels are owned.
\<close>

theorem dma_channels_exclusive:
  assumes "dma_reach s"
  shows "(dma_clock s \<longleftrightarrow> (\<exists>i. owned s i)) \<and>
    (if \<forall>i < 8. owned s i then tls_dma_request ch flags s = (0xFF, s)
     else \<exists>i t. tls_dma_request ch flags s = (of_nat i, t) \<and> i < 8 \<and> \<not> owned s i \<and> owned t = (owned s)(i := True) \<and> dma_clock t \<and>
       (unat ch < 8 \<and> \<not> owned s (unat ch) \<longrightarrow> i = unat ch))"
proof -
  have inv: "dma_inv s" using dma_reach_inv [OF assms] .
  then have l: "length (channels s) = 8" by (simp add: dma_inv_def)
  have clk: "dma_clock s \<longleftrightarrow> (\<exists>i. owned s i)" using inv by (simp add: dma_inv_def)
  show ?thesis
  proof (cases "choice ch s")
    case None
    then have "\<forall>i < 8. owned s i" by (auto simp: choice_def find_None_iff split: if_splits)
    then show ?thesis using clk None request_eq [OF inv, of ch flags] by simp
  next
    case (Some i)
    note c = choice_Some [OF l Some] and g = grant_inv [OF inv choice_Some(1) [OF l Some], of flags]
    have "dma_clock (grant i flags s)" using g by (auto simp: dma_inv_def)
    moreover have "unat ch < 8 \<and> \<not> owned s (unat ch) \<longrightarrow> i = unat ch" using Some by (auto simp: choice_def)
    moreover have "tls_dma_request ch flags s = (of_nat i, grant i flags s)" using request_eq [OF inv, of ch flags] Some by simp
    ultimately show ?thesis using clk c g(2) by auto
  qed
qed

definition demo_dma :: "unit dma" where
  "demo_dma = \<lparr>dma_used_bit = 0, dma_context = replicate 8 \<lparr>cflags = 0, burst_done = None, transfer_done = None\<rparr>,
     channels = replicate 8 0, irq_len = replicate 8 0, SRCADDR = replicate 8 0, DESTADDR = replicate 8 0, SRCWRAPADDR = replicate 8 0,
     DESTWRAPADDR = replicate 8 0, WRAPSIZE = replicate 8 0, CHNLCTRL = replicate 8 0, MODE = replicate 8 0, CTRL = replicate 8 0,
     INTMASK = 0, INTSRC = 0, dma_clock = False, irq_enabled = []\<rparr>"

theorem dma_channels_exclusive_witness:
  "\<exists>i t. tls_dma_request 3 1 (snd (tls_dma_request 3 1 demo_dma)) = (of_nat i, t) \<and> i < 8 \<and>
    \<not> owned (snd (tls_dma_request 3 1 demo_dma)) i \<and> dma_clock t"
proof -
  have "dma_reach (snd (tls_dma_request 3 1 demo_dma))"
    by (intro dma_reach.request dma_reach.boot) (simp_all add: demo_dma_def)
  moreover have "\<not> owned (snd (tls_dma_request 3 1 demo_dma)) 0"
    by (simp add: owned_def tls_dma_request_def demo_dma_def)
  ultimately show ?thesis using dma_channels_exclusive [of "snd (tls_dma_request 3 1 demo_dma)" 3 1] by (auto split: if_splits)
qed

end
