(* ===== verification/Crypto_Digest.thy ===== *)
theory Crypto_Digest
  imports Prelude
begin

text \<open>
  The message digests of the hardware crypto driver, \<^verbatim>\<open>platform/common/crypto/wm_crypto_hard.c\<close>: SHA-1 and MD5, whose
  block function runs in the GPSEC unit while buffering, padding and length counting are done by the driver.

  The unit is the parameter \<open>eng\<close>: for a configuration word, the digest registers written before the start and the
  64 bytes at the source address it delivers the digest registers.  The driver has the same code twice, with
  different byte orders; \<open>block_update\<close>, \<open>block_pad\<close> and \<open>add_bits\<close> are that code with the block function and the
  encoding of the length as arguments.  The length is counted in two 32-bit words (\<^verbatim>\<open>HAVE_NATIVE_INT64\<close> is not
  defined).  Operations return \<open>None\<close> where the C would write behind the 64 byte buffer.
\<close>

section \<open>Model\<close>

type_synonym digest_engine = "u32 \<Rightarrow> u32 list \<Rightarrow> u8 list \<Rightarrow> u32 list"

text \<open>\<^verbatim>\<open>psSha1_t\<close> and \<^verbatim>\<open>psMd5_t\<close>, which differ in the number of state words.\<close>

record psDigest =
  lengthHi :: u32
  lengthLo :: u32
  dstate :: "u32 list"
  curlen :: nat
  dbuf :: "u8 list"

abbreviation CRYPTO_METHOD_SHA1 :: u32 where "CRYPTO_METHOD_SHA1 \<equiv> 2"
abbreviation CRYPTO_METHOD_MD5 :: u32 where "CRYPTO_METHOD_MD5 \<equiv> 7"
abbreviation ERR_ARG_FAIL :: int where "ERR_ARG_FAIL \<equiv> - 6"
abbreviation PS_ARG_FAIL :: int where "PS_ARG_FAIL \<equiv> - 6"
abbreviation SHA1_HASH_SIZE :: int where "SHA1_HASH_SIZE \<equiv> 20"
abbreviation MD5_HASH_SIZE :: int where "MD5_HASH_SIZE \<equiv> 16"

text \<open>\<^verbatim>\<open>STORE32H\<close> is big-endian, \<^verbatim>\<open>STORE32L\<close> little-endian (\<open>le32\<close>).\<close>

definition STORE32H :: "u32 \<Rightarrow> u8 list" where
  "STORE32H x = [ucast (drop_bit 24 x AND 255), ucast (drop_bit 16 x AND 255), ucast (drop_bit 8 x AND 255),
     ucast (x AND 255)]"

definition hd_sha1_compress :: "digest_engine \<Rightarrow> psDigest \<Rightarrow> psDigest" where
  "hd_sha1_compress eng md =
     md\<lparr>dstate := take 5 (eng (push_bit 16 CRYPTO_METHOD_SHA1 OR (64 AND 0xFFFF)) (dstate md) (dbuf md))\<rparr>"

definition hd_md5_compress :: "digest_engine \<Rightarrow> psDigest \<Rightarrow> psDigest" where
  "hd_md5_compress eng md =
     md\<lparr>dstate := take 4 (eng (push_bit 16 CRYPTO_METHOD_MD5 OR (64 AND 0xFFFF)) (dstate md) (dbuf md))\<rparr>"

definition tls_crypto_sha1_init :: "psDigest \<Rightarrow> psDigest" where
  "tls_crypto_sha1_init md =
     md\<lparr>dstate := [0x67452301, 0xefcdab89, 0x98badcfe, 0x10325476, 0xc3d2e1f0], curlen := 0, lengthHi := 0, lengthLo := 0\<rparr>"

definition tls_crypto_md5_init :: "psDigest \<Rightarrow> psDigest" where
  "tls_crypto_md5_init md =
     md\<lparr>dstate := [0x67452301, 0xefcdab89, 0x98badcfe, 0x10325476], curlen := 0, lengthHi := 0, lengthLo := 0\<rparr>"

text \<open>Adding a number of bits to the length, with the carry detected by the wrap-around of the low word.\<close>

definition add_bits :: "u32 \<Rightarrow> psDigest \<Rightarrow> psDigest" where
  "add_bits k md =
     (let n = lengthLo md + k
      in md\<lparr>lengthHi := (if n < lengthLo md then lengthHi md + 1 else lengthHi md), lengthLo := n\<rparr>)"

text \<open>The loop of \<^verbatim>\<open>tls_crypto_sha1_update\<close> and \<^verbatim>\<open>tls_crypto_md5_update\<close>.\<close>

function block_update :: "(psDigest \<Rightarrow> psDigest) \<Rightarrow> psDigest \<Rightarrow> u8 list \<Rightarrow> psDigest option" where
  "block_update compress md buf =
     (if buf = [] then Some md
      else if 64 < curlen md then None
      else
        (let n = min (length buf) (64 - curlen md);
             md = md\<lparr>dbuf := overlay (dbuf md) (curlen md) (take n buf), curlen := curlen md + n\<rparr>
         in block_update compress
              (if curlen md = 64 then (add_bits 512 (compress md))\<lparr>curlen := 0\<rparr> else md) (drop n buf)))"
  by pat_completeness auto
termination
  by (relation "measure (\<lambda>(c, md, buf). 2 * length buf + (if curlen md = 64 then 1 else 0))") (auto simp: min_def)

declare block_update.simps [simp del]

definition tls_crypto_sha1_update :: "digest_engine \<Rightarrow> psDigest \<Rightarrow> u8 list \<Rightarrow> psDigest option" where
  "tls_crypto_sha1_update eng md buf = block_update (hd_sha1_compress eng) md buf"

definition tls_crypto_md5_update :: "digest_engine \<Rightarrow> psDigest \<Rightarrow> u8 list \<Rightarrow> psDigest option" where
  "tls_crypto_md5_update eng md buf = block_update (hd_md5_compress eng) md buf"

text \<open>
  The body of the two final functions: count the rest, append the bit, pad with zeros, through a further
  block when the length no longer fits, store the length and run the last block.
\<close>

definition count_rest :: "psDigest \<Rightarrow> psDigest" where
  "count_rest md =
     (let c = of_nat (curlen md) :: u32; md = add_bits (push_bit 3 c) md
      in md\<lparr>lengthHi := lengthHi md + drop_bit 29 c\<rparr>)"

definition zero_fill :: "nat \<Rightarrow> psDigest \<Rightarrow> psDigest" where
  "zero_fill k md =
     (if curlen md < k
      then md\<lparr>dbuf := overlay (dbuf md) (curlen md) (replicate (k - curlen md) 0), curlen := k\<rparr> else md)"

definition block_pad :: "(psDigest \<Rightarrow> psDigest) \<Rightarrow> (u32 \<Rightarrow> u32 \<Rightarrow> u8 list) \<Rightarrow> psDigest \<Rightarrow> psDigest" where
  "block_pad compress store md =
     (let md = count_rest md;
          md = md\<lparr>dbuf := (dbuf md)[curlen md := 0x80], curlen := curlen md + 1\<rparr>;
          md = (if curlen md > 56 then (compress (zero_fill 64 md))\<lparr>curlen := 0\<rparr> else md);
          md = zero_fill 56 md;
          md = md\<lparr>dbuf := overlay (dbuf md) 56 (store (lengthHi md) (lengthLo md))\<rparr>
      in compress md)"

definition store_be :: "u32 \<Rightarrow> u32 \<Rightarrow> u8 list" where
  "store_be hi lo = STORE32H hi @ STORE32H lo"

definition store_le :: "u32 \<Rightarrow> u32 \<Rightarrow> u8 list" where
  "store_le hi lo = le32 lo @ le32 hi"

text \<open>
  The digest is read from the digest registers, which still hold what the last block function left, and the
  context is cleared.  The result is the return value, the hash and the context.
\<close>

definition psDigest_clear :: "nat \<Rightarrow> psDigest" where
  "psDigest_clear n =
     \<lparr>lengthHi = 0, lengthLo = 0, dstate = replicate n 0, curlen = 0, dbuf = replicate 64 0\<rparr>"

definition tls_crypto_sha1_final :: "digest_engine \<Rightarrow> psDigest \<Rightarrow> bool \<Rightarrow> int \<times> u8 list option \<times> psDigest" where
  "tls_crypto_sha1_final eng md isnull =
     (if curlen md \<ge> 64 \<or> isnull then (ERR_ARG_FAIL, None, md)
      else (SHA1_HASH_SIZE,
            Some (concat (map STORE32H (dstate (block_pad (hd_sha1_compress eng) store_be md)))),
            psDigest_clear 5))"

definition tls_crypto_md5_final :: "digest_engine \<Rightarrow> psDigest \<Rightarrow> bool \<Rightarrow> (int \<times> u8 list option \<times> psDigest) option" where
  "tls_crypto_md5_final eng md isnull =
     (if isnull then Some (PS_ARG_FAIL, None, md)
      else if curlen md \<ge> 64 then None
      else Some (MD5_HASH_SIZE,
            Some (concat (map le32 (dstate (block_pad (hd_md5_compress eng) store_le md)))),
            psDigest_clear 4))"

text \<open>A message fed in pieces.\<close>

fun feed :: "(psDigest \<Rightarrow> u8 list \<Rightarrow> psDigest option) \<Rightarrow> psDigest \<Rightarrow> u8 list list \<Rightarrow> psDigest option" where
  "feed upd md [] = Some md"
| "feed upd md (c # cs) = Option.bind (upd md c) (\<lambda>md. feed upd md cs)"

section \<open>The digest of a message\<close>

text \<open>
  The construction the standards define: pad with a 1 bit, zeros and the length in bits, and chain the block
  function over the blocks of 64 bytes.
\<close>

definition md_padding :: "(u32 \<Rightarrow> u32 \<Rightarrow> u8 list) \<Rightarrow> nat \<Rightarrow> u8 list" where
  "md_padding store n =
     0x80 # replicate ((119 - n mod 64) mod 64) 0 @ store (of_nat (8 * n div 2 ^ 32)) (of_nat (8 * n))"

function blocks :: "u8 list \<Rightarrow> u8 list list" where
  "blocks xs = (if length xs < 64 then [] else take 64 xs # blocks (drop 64 xs))"
  by pat_completeness auto
termination by (relation "measure length") auto

declare blocks.simps [simp del]

definition md_digest :: "(u32 list \<Rightarrow> u8 list \<Rightarrow> u32 list) \<Rightarrow> u32 list \<Rightarrow> (u32 \<Rightarrow> u32 \<Rightarrow> u8 list) \<Rightarrow> u8 list \<Rightarrow> u32 list" where
  "md_digest f iv store m = foldl f iv (blocks (m @ md_padding store (length m)))"

lemma blocks_short [simp]: "length xs < 64 \<Longrightarrow> blocks xs = []"
  by (subst blocks.simps) simp

lemma blocks_first: "length b = 64 \<Longrightarrow> blocks (b @ xs) = b # blocks xs"
  by (subst blocks.simps) simp

lemma blocks_append:
  assumes "length xs mod 64 = 0"
  shows "blocks (xs @ ys) = blocks xs @ blocks ys"
  using assms
proof (induction "length xs" arbitrary: xs rule: less_induct)
  case less
  show ?case
  proof (cases "length xs < 64")
    case True
    then show ?thesis using less.prems by simp
  next
    case False
    then have "blocks (take 64 xs @ drop 64 xs @ ys) = take 64 xs # blocks (drop 64 xs @ ys)"
      by (intro blocks_first) simp
    moreover have "blocks (take 64 xs @ drop 64 xs) = take 64 xs # blocks (drop 64 xs)"
      using False by (intro blocks_first) simp
    moreover have "blocks (drop 64 xs @ ys) = blocks (drop 64 xs) @ blocks ys"
      using False less.prems by (intro less.hyps) (auto simp: mod_if [of "length xs"])
    moreover have "blocks (xs @ ys) = blocks (take 64 xs @ drop 64 xs @ ys)" by (metis append.assoc append_take_drop_id)
    ultimately show ?thesis by simp
  qed
qed

lemma blocks_one [simp]: "length b = 64 \<Longrightarrow> blocks b = [b]"
  using blocks_first [of b "[]"] by simp

end
