(* ===== verification/Crypto_Digest_Correct.thy ===== *)
theory Crypto_Digest_Correct
  imports Crypto_Digest
begin

text \<open>
  The digests of \<open>Crypto_Digest\<close> are correct: whatever the division of a message into calls, the driver computes the
  digest the standards define for it.  The locale \<open>md_hash\<close> states what the buffering code needs of a block
  function and of the encoding of the length; it is interpreted on SHA-1 and on MD5.
\<close>

section \<open>Counting bits in two words\<close>

definition counted :: "psDigest \<Rightarrow> nat \<Rightarrow> bool" where
  "counted md x \<longleftrightarrow> lengthLo md = of_nat x \<and> lengthHi md = of_nat (x div 2 ^ 32)"

lemma carry_iff:
  fixes x k :: nat
  assumes "k < 2 ^ 32"
  shows "(of_nat x + of_nat k < (of_nat x :: u32)) \<longleftrightarrow> 2 ^ 32 \<le> x mod 2 ^ 32 + k"
proof -
  define r where "r = x mod 2 ^ 32"
  have r: "r < 2 ^ 32" by (simp add: r_def)
  have x: "(of_nat x :: u32) = of_nat r" by (simp add: r_def word_of_nat_eq_iff take_bit_eq_mod)
  have "(of_nat r + of_nat k < (of_nat r :: u32)) \<longleftrightarrow> (r + k) mod 2 ^ 32 < r"
    using r by (simp add: word_less_nat_alt unat_of_nat take_bit_eq_mod flip: of_nat_add)
  also have "\<dots> \<longleftrightarrow> 2 ^ 32 \<le> r + k"
    using r assms le_mod_geq [of "2 ^ 32" "r + k"] by (cases "2 ^ 32 \<le> r + k") auto
  finally show ?thesis using x by (simp add: r_def)
qed

lemma div_carry:
  fixes x k :: nat
  assumes "k < n"
  shows "(x + k) div n = x div n + (if n \<le> x mod n + k then 1 else 0)"
proof -
  have "x mod n < n" using assms by simp
  then have "x mod n + k - n < n" using assms by linarith
  then have "(x mod n + k) div n = (if n \<le> x mod n + k then 1 else 0)"
    using assms le_div_geq [of n "x mod n + k"] by (cases "n \<le> x mod n + k") (auto intro!: div_less)
  then show ?thesis using assms by (simp add: div_add1_eq [of x k n])
qed

lemma counted_add_bits:
  assumes "counted md x" "k < 2 ^ 32"
  shows "counted (add_bits (of_nat k) md) (x + k)"
  using assms carry_iff [of k x] div_carry [of k "2 ^ 32" x]
  by (auto simp: counted_def add_bits_def Let_def)

lemma counted_count_rest:
  assumes "counted md x" "curlen md < 64"
  shows "counted (count_rest md) (x + 8 * curlen md)"
proof -
  have "push_bit 3 (of_nat (curlen md) :: u32) = of_nat (8 * curlen md)"
    by (simp add: push_bit_eq_mult)
  moreover have "drop_bit 29 (of_nat (curlen md) :: u32) = 0"
    using assms(2) by (simp add: drop_bit_eq_div word_arith_nat_div unat_of_nat take_bit_nat_eq_self)
  moreover have "counted (add_bits (of_nat (8 * curlen md)) md) (x + 8 * curlen md)"
    using assms by (intro counted_add_bits) auto
  ultimately show ?thesis by (simp add: count_rest_def Let_def counted_def)
qed

section \<open>Buffering and padding\<close>

lemma take_overlay_end: "i + length ys \<le> length xs \<Longrightarrow> take (i + length ys) (overlay xs i ys) = take i xs @ ys"
  by (simp add: overlay_def)

lemma update_as_overlay: "i < length xs \<Longrightarrow> xs[i := v] = overlay xs i [v]"
  by (simp add: overlay_def upd_conv_take_nth_drop)

lemma add_bits_frame [simp]:
  "dstate (add_bits k md) = dstate md" "curlen (add_bits k md) = curlen md" "dbuf (add_bits k md) = dbuf md"
  by (simp_all add: add_bits_def Let_def)

lemma count_rest_frame [simp]:
  "dstate (count_rest md) = dstate md" "curlen (count_rest md) = curlen md" "dbuf (count_rest md) = dbuf md"
  by (simp_all add: count_rest_def Let_def)

lemma counted_frame [simp]:
  "counted (md\<lparr>dbuf := b\<rparr>) x = counted md x" "counted (md\<lparr>curlen := c\<rparr>) x = counted md x"
  "counted (md\<lparr>dstate := s\<rparr>) x = counted md x"
  by (simp_all add: counted_def)

lemma zero_fill_prefix:
  assumes "length (dbuf md) = 64" "curlen md \<le> k" "k \<le> 64"
  shows "take k (dbuf (zero_fill k md)) = take (curlen md) (dbuf md) @ replicate (k - curlen md) 0"
    "length (dbuf (zero_fill k md)) = 64" "dstate (zero_fill k md) = dstate md" "curlen (zero_fill k md) = k"
    "counted (zero_fill k md) x = counted md x"
  using assms take_overlay_end [of "curlen md" "replicate (k - curlen md) 0" "dbuf md"]
  by (auto simp: zero_fill_def)

locale md_hash =
  fixes comp :: "psDigest \<Rightarrow> psDigest"
    and f :: "u32 list \<Rightarrow> u8 list \<Rightarrow> u32 list"
    and iv :: "u32 list"
    and store :: "u32 \<Rightarrow> u32 \<Rightarrow> u8 list"
  assumes comp_eq: "comp md = md\<lparr>dstate := f (dstate md) (dbuf md)\<rparr>"
    and store_length: "length (store hi lo) = 8"
begin

text \<open>What a context knows of the message fed so far: the whole blocks \<open>p\<close> are digested, the rest \<open>r\<close> is buffered.\<close>

definition knows :: "psDigest \<Rightarrow> u8 list \<Rightarrow> u8 list \<Rightarrow> bool" where
  "knows md p r \<longleftrightarrow>
     length (dbuf md) = 64 \<and> length p mod 64 = 0 \<and> length r < 64 \<and> curlen md = length r \<and> take (length r) (dbuf md) = r \<and>
     dstate md = foldl f iv (blocks p) \<and> counted md (8 * length p)"

lemma knows_buffer:
  assumes k: "knows md p r" and short: "length r + length b < 64"
  shows "knows (md\<lparr>dbuf := overlay (dbuf md) (curlen md) b, curlen := curlen md + length b\<rparr>) p (r @ b)"
  using assms take_overlay_end [of "length r" b "dbuf md"] by (auto simp: knows_def)

lemma knows_block:
  assumes k: "knows md p r" and full: "length r + length b = 64"
  shows "knows ((add_bits 512 (comp (md\<lparr>dbuf := overlay (dbuf md) (curlen md) b, curlen := curlen md + length b\<rparr>)))\<lparr>curlen := 0\<rparr>)
           (p @ r @ b) []"
proof -
  have ov: "overlay (dbuf md) (length r) b = r @ b"
    using k full take_overlay_end [of "length r" b "dbuf md"] by (simp add: knows_def)
  have "blocks (p @ r @ b) = blocks p @ [r @ b]"
    using k full by (simp add: knows_def blocks_append)
  moreover have "(length p + 64) mod 64 = 0" using k by (simp add: knows_def)
  moreover have "counted (add_bits (of_nat 512) (md\<lparr>dbuf := r @ b, curlen := 64, dstate := s\<rparr>)) (8 * length p + 512)" for s
    using k by (intro counted_add_bits) (auto simp: knows_def)
  ultimately show ?thesis
    using k full ov by (simp add: knows_def comp_eq)
qed

lemma update_knows:
  assumes "knows md p r"
  shows "\<exists>md' p' r'. block_update comp md buf = Some md' \<and> knows md' p' r' \<and> p' @ r' = p @ r @ buf"
  using assms
proof (induction "length buf" arbitrary: md p r buf rule: less_induct)
  case less
  define n where "n = min (length buf) (64 - curlen md)"
  define md1 where "md1 = md\<lparr>dbuf := overlay (dbuf md) (curlen md) (take n buf), curlen := curlen md + n\<rparr>"
  have cl: "curlen md = length r" "length r < 64" using less.prems by (auto simp: knows_def)
  show ?case
  proof (cases "buf = []")
    case True
    then show ?thesis using less.prems by (auto simp: block_update.simps)
  next
    case False
    then have n: "0 < n" "n \<le> length buf" "length (take n buf) = n" using cl by (auto simp: n_def)
    define md2 where "md2 = (if curlen md1 = 64 then (add_bits 512 (comp md1))\<lparr>curlen := 0\<rparr> else md1)"
    have step: "block_update comp md buf = block_update comp md2 (drop n buf)"
      unfolding md2_def using False cl
      by (subst block_update.simps) (simp add: Let_def n_def md1_def)
    obtain p1 r1 where k: "knows md2 p1 r1" "p1 @ r1 = p @ r @ take n buf"
    proof (cases "curlen md1 = 64")
      case True
      then have "knows md2 (p @ r @ take n buf) []"
        using knows_block [OF less.prems, of "take n buf"] n cl by (simp add: md2_def md1_def)
      then show ?thesis using that by auto
    next
      case False
      then have "length r + n < 64" using cl by (auto simp: md1_def n_def)
      then have "knows md2 p (r @ take n buf)"
        using False knows_buffer [OF less.prems, of "take n buf"] n cl by (simp add: md2_def md1_def)
      then show ?thesis using that by auto
    qed
    have "length (drop n buf) < length buf" using n False by simp
    from less.hyps [OF this k(1)] obtain md' p' r' where
      "block_update comp md2 (drop n buf) = Some md'" "knows md' p' r'" "p' @ r' = p1 @ r1 @ drop n buf"
      by auto
    moreover have "p1 @ r1 @ drop n buf = p @ r @ buf" using k(2) by (metis append.assoc append_take_drop_id)
    ultimately show ?thesis using step by auto
  qed
qed

lemma feed_knows:
  assumes "knows md p r"
  shows "\<exists>md' p' r'. feed (block_update comp) md cs = Some md' \<and> knows md' p' r' \<and> p' @ r' = p @ r @ concat cs"
  using assms
proof (induction cs arbitrary: md p r)
  case Nil
  then show ?case by auto
next
  case (Cons c cs)
  obtain md' p' r' where 1: "block_update comp md c = Some md'" "knows md' p' r'" "p' @ r' = p @ r @ c"
    using update_knows [OF Cons.prems] by blast
  from Cons.IH [OF 1(2)] obtain md2 p2 r2 where
    "feed (block_update comp) md' cs = Some md2" "knows md2 p2 r2" "p2 @ r2 = p' @ r' @ concat cs" by blast
  moreover have "p' @ r' @ concat cs = p @ r @ concat (c # cs)" using 1(3) by (metis append.assoc concat.simps(2))
  ultimately show ?case using 1(1) by auto
qed

lemma pad_digest:
  assumes "knows md p r"
  shows "dstate (block_pad comp store md) = md_digest f iv store (p @ r)"
proof -
  define n where "n = length (p @ r)"
  define st where "st = store (of_nat (8 * n div 2 ^ 32)) (of_nat (8 * n))"
  have ls: "length st = 8" by (simp add: st_def store_length)
  define md1 where "md1 = (count_rest md)\<lparr>dbuf := (dbuf md)[length r := 0x80], curlen := length r + 1\<rparr>"
  have k: "length (dbuf md) = 64" "length p mod 64 = 0" "length r < 64" "curlen md = length r"
    "take (length r) (dbuf md) = r" "dstate md = foldl f iv (blocks p)" "counted md (8 * length p)"
    using assms by (auto simp: knows_def)
  have nm: "n mod 64 = length r" using k unfolding n_def by (simp add: mod_add_eq flip: mod_add_left_eq)
  have c1: "counted md1 (8 * n)"
    using counted_count_rest [OF k(7)] k by (simp add: md1_def n_def algebra_simps)
  have b1: "take (length r + 1) (dbuf md1) = r @ [0x80]" "length (dbuf md1) = 64" "dstate md1 = foldl f iv (blocks p)"
    "curlen md1 = length r + 1"
    using k take_overlay_end [of "length r" "[0x80]" "dbuf md"] by (simp_all add: md1_def update_as_overlay)
  have last: "dstate (comp ((zero_fill 56 m)\<lparr>dbuf := overlay (dbuf (zero_fill 56 m)) 56 (store (lengthHi (zero_fill 56 m)) (lengthLo (zero_fill 56 m)))\<rparr>))
      = f (dstate m) (take (curlen m) (dbuf m) @ replicate (56 - curlen m) 0 @ st)"
    if "length (dbuf m) = 64" "curlen m \<le> 56" "counted m (8 * n)" for m
  proof -
    have "counted (zero_fill 56 m) (8 * n)" using that zero_fill_prefix(5) [of m 56] by simp
    then have "store (lengthHi (zero_fill 56 m)) (lengthLo (zero_fill 56 m)) = st" by (simp only: counted_def st_def)
    then show ?thesis
      using that zero_fill_prefix [of m 56] ls by (simp add: comp_eq overlay_def)
  qed
  have unf: "block_pad comp store md =
      (let m = (if curlen md1 > 56 then (comp (zero_fill 64 md1))\<lparr>curlen := 0\<rparr> else md1); z = zero_fill 56 m
       in comp (z\<lparr>dbuf := overlay (dbuf z) 56 (store (lengthHi z) (lengthLo z))\<rparr>))"
    using k by (simp add: block_pad_def md1_def Let_def)
  have dig: "md_digest f iv store (p @ r) =
      foldl f iv (blocks p @ blocks (r @ 0x80 # replicate ((119 - length r) mod 64) 0 @ st))"
    using blocks_append [OF k(2)] nm by (simp add: md_digest_def md_padding_def st_def n_def)
  show ?thesis
  proof (cases "length r < 56")
    case True
    then have "(119 - length r) mod 64 = 55 - length r" by (simp add: mod_if)
    moreover have "blocks (r @ 0x80 # replicate (55 - length r) 0 @ st) = [r @ 0x80 # replicate (55 - length r) 0 @ st]"
      using True ls by (intro blocks_one) simp
    ultimately show ?thesis
      using last [OF b1(2) _ c1] b1 True unf dig by (simp add: Let_def)
  next
    case False
    define b where "b = r @ 0x80 # replicate (63 - length r) 0"
    define m where "m = (comp (zero_fill 64 md1))\<lparr>curlen := 0\<rparr>"
    have "dbuf (zero_fill 64 md1) = b"
      using zero_fill_prefix [of md1 64] b1 k(3) by (simp add: b_def)
    then have m: "dbuf m = b" "dstate m = f (foldl f iv (blocks p)) b" "counted m (8 * n)" "curlen m = 0"
      using zero_fill_prefix [of md1 64] b1 k(3) c1 by (simp_all add: m_def comp_eq)
    have lb: "length b = 64" using k(3) by (simp add: b_def)
    have "replicate ((119 - length r) mod 64) (0 :: u8) = replicate (63 - length r) 0 @ replicate 56 0"
      using False k(3) by (simp add: mod_if flip: replicate_add)
    then have e: "r @ 0x80 # replicate ((119 - length r) mod 64) 0 @ st = b @ replicate 56 0 @ st"
      by (simp add: b_def)
    have "blocks (r @ 0x80 # replicate ((119 - length r) mod 64) 0 @ st) = [b, replicate 56 0 @ st]"
      unfolding e using blocks_first [OF lb] blocks_one [of "replicate 56 0 @ st"] ls by simp
    then show ?thesis
      using last [of m] m lb False b1 unf dig by (simp add: Let_def m_def)
  qed
qed

lemma digest_of_pieces:
  assumes "length (dbuf md) = 64" "dstate md = iv" "curlen md = 0" "lengthHi md = 0" "lengthLo md = 0"
  shows "\<exists>md'. feed (block_update comp) md cs = Some md' \<and> curlen md' < 64 \<and>
           dstate (block_pad comp store md') = md_digest f iv store (concat cs)"
proof -
  have "knows md [] []" using assms by (simp add: knows_def counted_def)
  from feed_knows [OF this, of cs] obtain md' p r where
    "feed (block_update comp) md cs = Some md'" and k: "knows md' p r" and "p @ r = concat cs" by auto
  then show ?thesis using pad_digest [OF k] by (auto simp: knows_def)
qed

end

section \<open>SHA-1 and MD5\<close>

text \<open>The block functions, and the digests as byte strings.\<close>

abbreviation sha1_iv :: "u32 list" where
  "sha1_iv \<equiv> [0x67452301, 0xefcdab89, 0x98badcfe, 0x10325476, 0xc3d2e1f0]"

abbreviation md5_iv :: "u32 list" where
  "md5_iv \<equiv> [0x67452301, 0xefcdab89, 0x98badcfe, 0x10325476]"

definition sha1_block :: "digest_engine \<Rightarrow> u32 list \<Rightarrow> u8 list \<Rightarrow> u32 list" where
  "sha1_block eng s b = take 5 (eng 0x20040 s b)"

definition md5_block :: "digest_engine \<Rightarrow> u32 list \<Rightarrow> u8 list \<Rightarrow> u32 list" where
  "md5_block eng s b = take 4 (eng 0x70040 s b)"

interpretation sha1: md_hash "hd_sha1_compress eng" "sha1_block eng" sha1_iv store_be for eng
  by unfold_locales (simp_all add: hd_sha1_compress_def sha1_block_def store_be_def STORE32H_def)

interpretation md5: md_hash "hd_md5_compress eng" "md5_block eng" md5_iv store_le for eng
  by unfold_locales (simp_all add: hd_md5_compress_def md5_block_def store_le_def)

lemma sha1_pieces:
  assumes "length (dbuf md) = 64"
  shows "\<exists>md'. feed (tls_crypto_sha1_update eng) (tls_crypto_sha1_init md) cs = Some md' \<and>
           tls_crypto_sha1_final eng md' False =
             (20, Some (concat (map STORE32H (md_digest (sha1_block eng) sha1_iv store_be (concat cs)))), psDigest_clear 5)"
proof -
  have u: "tls_crypto_sha1_update eng = block_update (hd_sha1_compress eng)"
    by (simp add: fun_eq_iff tls_crypto_sha1_update_def)
  obtain md' where "feed (tls_crypto_sha1_update eng) (tls_crypto_sha1_init md) cs = Some md'" "curlen md' < 64"
    "dstate (block_pad (hd_sha1_compress eng) store_be md') = md_digest (sha1_block eng) sha1_iv store_be (concat cs)"
    using sha1.digest_of_pieces [of "tls_crypto_sha1_init md" eng cs] assms by (auto simp: u tls_crypto_sha1_init_def)
  then show ?thesis by (intro exI [of _ md']) (simp add: tls_crypto_sha1_final_def)
qed

lemma md5_pieces:
  assumes "length (dbuf md) = 64"
  shows "\<exists>md'. feed (tls_crypto_md5_update eng) (tls_crypto_md5_init md) cs = Some md' \<and>
           tls_crypto_md5_final eng md' False =
             Some (16, Some (concat (map le32 (md_digest (md5_block eng) md5_iv store_le (concat cs)))), psDigest_clear 4)"
proof -
  have u: "tls_crypto_md5_update eng = block_update (hd_md5_compress eng)"
    by (simp add: fun_eq_iff tls_crypto_md5_update_def)
  obtain md' where "feed (tls_crypto_md5_update eng) (tls_crypto_md5_init md) cs = Some md'" "curlen md' < 64"
    "dstate (block_pad (hd_md5_compress eng) store_le md') = md_digest (md5_block eng) md5_iv store_le (concat cs)"
    using md5.digest_of_pieces [of "tls_crypto_md5_init md" eng cs] assms by (auto simp: u tls_crypto_md5_init_def)
  then show ?thesis by (intro exI [of _ md']) (simp add: tls_crypto_md5_final_def)
qed

section \<open>Properties\<close>

text \<open>
  C4: a message given to \<^verbatim>\<open>tls_crypto_sha1_update\<close> or \<^verbatim>\<open>tls_crypto_md5_update\<close> in any pieces, of any lengths, is digested as the
  standards define: the final call returns the hash size and the chained block function over the message, padded with
  a one bit, zeros up to 56 modulo 64 bytes and its length in bits modulo \<open>2 ^ 64\<close>, and clears the context.
\<close>

theorem digest_pieces:
  assumes "length (dbuf md) = 64"
  shows "(\<exists>md'. feed (tls_crypto_sha1_update eng) (tls_crypto_sha1_init md) cs = Some md' \<and>
           tls_crypto_sha1_final eng md' False =
             (20, Some (concat (map STORE32H (md_digest (sha1_block eng) sha1_iv store_be (concat cs)))), psDigest_clear 5)) \<and>
    (\<exists>md'. feed (tls_crypto_md5_update eng) (tls_crypto_md5_init md) cs = Some md' \<and>
           tls_crypto_md5_final eng md' False =
             Some (16, Some (concat (map le32 (md_digest (md5_block eng) md5_iv store_le (concat cs)))), psDigest_clear 4))"
  using sha1_pieces [OF assms] md5_pieces [OF assms] by blast

text \<open>An engine that adds the first word of the block to every state word, and the message \<open>ABCD\<close> in two pieces.\<close>

definition sum_engine :: digest_engine where
  "sum_engine c s b = map (\<lambda>x. x + get32 b 0) s"

theorem digest_pieces_witness:
  "\<exists>md'. feed (tls_crypto_sha1_update sum_engine) (tls_crypto_sha1_init (psDigest_clear 5)) [[0x41], [], [0x42, 0x43, 0x44]] = Some md' \<and>
     fst (tls_crypto_sha1_final sum_engine md' False) = 20 \<and>
     fst (snd (tls_crypto_sha1_final sum_engine md' False)) =
       Some (concat (map STORE32H [0x67452301 + 0x44434241, 0xefcdab89 + 0x44434241, 0x98badcfe + 0x44434241,
         0x10325476 + 0x44434241, 0xc3d2e1f0 + 0x44434241]))"
proof -
  define b :: "u8 list" where "b = [0x41, 0x42, 0x43, 0x44] @ md_padding store_be 4"
  have "length b = 64" by (simp add: b_def md_padding_def store_be_def STORE32H_def)
  then have "blocks b = [b]" by simp
  moreover have "length [0x41 :: u8, 0x42, 0x43, 0x44] = 4" by simp
  ultimately have "md_digest (sha1_block sum_engine) sha1_iv store_be [0x41, 0x42, 0x43, 0x44] = sha1_block sum_engine sha1_iv b"
    by (simp only: md_digest_def b_def foldl.simps)
  moreover have "get32 b 0 = 0x44434241" by (simp add: b_def get32_def)
  ultimately have "md_digest (sha1_block sum_engine) sha1_iv store_be [0x41, 0x42, 0x43, 0x44] =
      [0x67452301 + 0x44434241, 0xefcdab89 + 0x44434241, 0x98badcfe + 0x44434241, 0x10325476 + 0x44434241, 0xc3d2e1f0 + 0x44434241]"
    by (simp add: sha1_block_def sum_engine_def)
  then show ?thesis
    using digest_pieces [of "psDigest_clear 5" sum_engine "[[0x41], [], [0x42, 0x43, 0x44]]"]
    by (auto simp: psDigest_clear_def)
qed

end
