(* ===== verification/Crypto_Rsa.thy ===== *)
theory Crypto_Rsa
  imports Prelude
begin

text \<open>
  Modular exponentiation of \<^verbatim>\<open>platform/common/crypto/wm_crypto_hard.c\<close>: the driver of the RSA unit, which multiplies in
  Montgomery form.

  Two parameters stand for code and hardware that is not in the repository: \<open>mp_lib\<close>, the functions of libtommath the
  driver calls (only their prototypes are in \<^verbatim>\<open>platform/inc/libtommath.h\<close>), and \<open>hw\<close>, what the unit does to its registers when
  it is started by writing \<^verbatim>\<open>RSACON\<close>.  The end of an operation raises an interrupt, whose handler lets the busy wait of
  the driver end.  Writing more than the 64 words of a buffer is \<open>None\<close>.
\<close>

section \<open>Model\<close>

text \<open>\<^verbatim>\<open>hstm_int\<close>, a sequence of 28-bit digits, the least significant one first.\<close>

record hstm_int =
  used :: int
  hsign :: int
  dp :: "u32 list"

abbreviation DIGIT_BIT :: nat where "DIGIT_BIT \<equiv> 28"

record mp_lib =
  mp_count_bits :: "hstm_int \<Rightarrow> nat"
  mp_2expt :: "int \<Rightarrow> hstm_int"
  mp_mod :: "hstm_int \<Rightarrow> hstm_int \<Rightarrow> hstm_int"
  mp_mulmod :: "hstm_int \<Rightarrow> hstm_int \<Rightarrow> hstm_int \<Rightarrow> hstm_int"
  mp_set :: "u32 \<Rightarrow> hstm_int"
  mp_to_unsigned_bin_nr :: "hstm_int \<Rightarrow> u8 list"
  mp_read_unsigned_bin :: "u8 list \<Rightarrow> int \<times> hstm_int"
  mp_reverse :: "u8 list \<Rightarrow> u8 list"
  mp_clamp :: "hstm_int \<Rightarrow> hstm_int"
  mp_clear :: "hstm_int \<Rightarrow> hstm_int"

text \<open>The registers of the unit, the flag its interrupt sets and its clock.\<close>

record rsa_regs =
  RSAXBUF :: "u32 list"
  RSAYBUF :: "u32 list"
  RSAMBUF :: "u32 list"
  RSADBUF :: "u32 list"
  RSACON :: u32
  RSAMC :: u32
  RSAN :: u32
  rsa_complete :: bool
  rsa_clock :: bool

type_synonym rsa_hw = "rsa_regs \<Rightarrow> rsa_regs"

definition RSA_F_IRQHandler :: "rsa_regs \<Rightarrow> rsa_regs" where
  "RSA_F_IRQHandler s = s\<lparr>RSACON := 0, rsa_complete := True\<rparr>"

text \<open>The index is an \<^verbatim>\<open>int16\<close>; a negative one is a negative position of a digit or of a bit.\<close>

definition pstm_get_bit :: "hstm_int \<Rightarrow> 16 word \<Rightarrow> u32 option" where
  "pstm_get_bit a idx =
     (let i = nat (sint idx); n = i div DIGIT_BIT; m = i mod DIGIT_BIT
      in if used a \<le> 0 then Some 0
         else if 0 \<le> sint idx \<and> n < length (dp a) then Some (drop_bit m (dp a ! n) AND 1) else None)"

definition rsaMonMulSetLen :: "u32 \<Rightarrow> rsa_regs \<Rightarrow> rsa_regs" where
  "rsaMonMulSetLen len s = s\<lparr>RSAN := len\<rparr>"

definition rsaMonMulWriteMc :: "u32 \<Rightarrow> rsa_regs \<Rightarrow> rsa_regs" where
  "rsaMonMulWriteMc mc s = s\<lparr>RSAMC := mc\<rparr>"

definition rsaMonMulWriteA :: "u32 list \<Rightarrow> rsa_regs \<Rightarrow> rsa_regs" where
  "rsaMonMulWriteA in_words s = s\<lparr>RSAXBUF := overlay (RSAXBUF s) 0 (take (unat (RSAN s)) in_words)\<rparr>"

definition rsaMonMulWriteB :: "u32 list \<Rightarrow> rsa_regs \<Rightarrow> rsa_regs" where
  "rsaMonMulWriteB in_words s = s\<lparr>RSAYBUF := overlay (RSAYBUF s) 0 (take (unat (RSAN s)) in_words)\<rparr>"

definition rsaMonMulWriteM :: "u32 list \<Rightarrow> rsa_regs \<Rightarrow> rsa_regs" where
  "rsaMonMulWriteM in_words s = s\<lparr>RSAMBUF := overlay (RSAMBUF s) 0 (take (unat (RSAN s)) in_words)\<rparr>"

definition rsaMonMulReadA :: "u32 list \<Rightarrow> rsa_regs \<Rightarrow> u32 list" where
  "rsaMonMulReadA in_words s = overlay in_words 0 (take (unat (RSAN s)) (RSAXBUF s))"

definition rsaMonMulReadB :: "u32 list \<Rightarrow> rsa_regs \<Rightarrow> u32 list" where
  "rsaMonMulReadB in_words s = overlay in_words 0 (take (unat (RSAN s)) (RSAYBUF s))"

definition rsaMonMulReadD :: "u32 list \<Rightarrow> rsa_regs \<Rightarrow> u32 list" where
  "rsaMonMulReadD in_words s = overlay in_words 0 (take (unat (RSAN s)) (RSADBUF s))"

text \<open>The array of 64 words seen as bytes and back.\<close>

definition words_of :: "u8 list \<Rightarrow> u32 list" where
  "words_of bs = map (\<lambda>i. get32 bs (4 * i)) [0..<length bs div 4]"

definition bytes_of :: "u32 list \<Rightarrow> u8 list" where
  "bytes_of ws = concat (map le32 ws)"

definition rsaMulModRead :: "mp_lib \<Rightarrow> char \<Rightarrow> hstm_int \<Rightarrow> rsa_regs \<Rightarrow> (int \<times> hstm_int) option" where
  "rsaMulModRead L w a s =
     (let n = unat (RSAN s); in_words = replicate 64 0
      in if 64 < n then None
         else
           (let in_words = (if w = CHR ''A'' then rsaMonMulReadA in_words s
                      else if w = CHR ''B'' then rsaMonMulReadB in_words s
                      else if w = CHR ''D'' then rsaMonMulReadD in_words s else in_words);
                bs = mp_reverse L (take (4 * n) (bytes_of in_words));
                (err, a) = mp_read_unsigned_bin L bs
            in if err \<noteq> 0 then Some (err, mp_clear L a) else Some (0, a)))"

definition rsaMulModWrite :: "mp_lib \<Rightarrow> char \<Rightarrow> hstm_int \<Rightarrow> rsa_regs \<Rightarrow> rsa_regs option" where
  "rsaMulModWrite L w a s =
     (let bs = mp_to_unsigned_bin_nr L a
      in if 256 < length bs \<or> 64 < unat (RSAN s) then None
         else
           (let in_words = words_of (overlay (replicate 256 0) 0 bs)
            in Some (if w = CHR ''A'' then rsaMonMulWriteA in_words s
                     else if w = CHR ''B'' then rsaMonMulWriteB in_words s
                     else if w = CHR ''M'' then rsaMonMulWriteM in_words s else s)))"

text \<open>Starting an operation and waiting for its interrupt; the four functions differ in the control word.\<close>

definition rsaMonMul :: "u32 \<Rightarrow> rsa_hw \<Rightarrow> rsa_regs \<Rightarrow> rsa_regs" where
  "rsaMonMul con hw s =
     (let s = RSA_F_IRQHandler (hw (s\<lparr>rsa_complete := False, RSACON := con\<rparr>)) in s\<lparr>rsa_complete := False\<rparr>)"

definition rsaMonMulAA :: "rsa_hw \<Rightarrow> rsa_regs \<Rightarrow> rsa_regs" where
  "rsaMonMulAA hw s = rsaMonMul 0x2c hw s"

definition rsaMonMulDD :: "rsa_hw \<Rightarrow> rsa_regs \<Rightarrow> rsa_regs" where
  "rsaMonMulDD hw s = rsaMonMul 0x20 hw s"

definition rsaMonMulAB :: "rsa_hw \<Rightarrow> rsa_regs \<Rightarrow> rsa_regs" where
  "rsaMonMulAB hw s = rsaMonMul 0x24 hw s"

definition rsaMonMulBD :: "rsa_hw \<Rightarrow> rsa_regs \<Rightarrow> rsa_regs" where
  "rsaMonMulBD hw s = rsaMonMul 0x28 hw s"

text \<open>\<^verbatim>\<open>rsaCalMc\<close>: the loop counts \<open>i\<close> down from 31.\<close>

fun rsaCalMc_loop :: "nat \<Rightarrow> u32 \<Rightarrow> u32 \<Rightarrow> u32 \<Rightarrow> u32" where
  "rsaCalMc_loop 0 n left y = y"
| "rsaCalMc_loop (Suc i) n left y =
     (let left = push_bit 1 left; right = (n * y) AND left
      in rsaCalMc_loop i n left (if right \<noteq> 0 then y + left else y))"

definition rsaCalMc :: "u32 \<Rightarrow> u32" where
  "rsaCalMc n = NOT (rsaCalMc_loop 31 n 1 1) + 1"

text \<open>
  The loop of \<^verbatim>\<open>tls_crypto_exptmod\<close> over the bits of the exponent.  The result alternates between the registers D and A,
  as \<open>flag\<close> (\<^verbatim>\<open>monmulFlag\<close>) says.
\<close>

definition square_step :: "rsa_hw \<Rightarrow> bool \<times> rsa_regs \<Rightarrow> bool \<times> rsa_regs" where
  "square_step hw = (\<lambda>(flag, s). if \<not> flag then (True, rsaMonMulAA hw s) else (False, rsaMonMulDD hw s))"

definition multiply_step :: "rsa_hw \<Rightarrow> bool \<times> rsa_regs \<Rightarrow> bool \<times> rsa_regs" where
  "multiply_step hw = (\<lambda>(flag, s). if \<not> flag then (True, rsaMonMulAB hw s) else (False, rsaMonMulBD hw s))"

fun exp_loop :: "rsa_hw \<Rightarrow> hstm_int \<Rightarrow> nat \<Rightarrow> bool \<times> rsa_regs \<Rightarrow> (bool \<times> rsa_regs) option" where
  "exp_loop hw e 0 fs = Some fs"
| "exp_loop hw e (Suc i) fs =
     (let fs = square_step hw fs
      in case pstm_get_bit e (of_nat i) of None \<Rightarrow> None
         | Some b \<Rightarrow> exp_loop hw e i (if b \<noteq> 0 then multiply_step hw fs else fs))"

text \<open>The low 32 bits of the modulus, from its first two digits.\<close>

definition exptmod_dp0 :: "hstm_int \<Rightarrow> u32" where
  "exptmod_dp0 n =
     (if 1 < used n then 0xFFFFFFFF AND (dp n ! 0 OR push_bit DIGIT_BIT (dp n ! 1)) else dp n ! 0)"

definition tls_crypto_exptmod ::
  "mp_lib \<Rightarrow> rsa_hw \<Rightarrow> hstm_int \<Rightarrow> hstm_int \<Rightarrow> hstm_int \<Rightarrow> hstm_int \<Rightarrow> rsa_regs \<Rightarrow> (int \<times> hstm_int \<times> rsa_regs) option" where
  "tls_crypto_exptmod L hw a e n res s =
     (let s = s\<lparr>rsa_clock := True\<rparr>;
          k = mp_count_bits L n;
          k = (k div 32 + (if k mod 32 > 0 then 1 else 0)) * 32;
          X = mp_2expt L (sint (of_nat k :: 16 word));
          R = mp_mod L X n;
          X = mp_mulmod L a R n;
          Y = R;
          mc = rsaCalMc (exptmod_dp0 n);
          k = mp_count_bits L n;
          s = rsaMonMulSetLen (of_nat (k div 32 + (if k mod 32 = 0 then 0 else 1))) s;
          s = rsaMonMulWriteMc mc s
      in Option.bind (rsaMulModWrite L (CHR ''M'') n s) (\<lambda>s.
         Option.bind (rsaMulModWrite L (CHR ''B'') X s) (\<lambda>s.
         Option.bind (rsaMulModWrite L (CHR ''A'') Y s) (\<lambda>s.
         Option.bind (exp_loop hw e (mp_count_bits L e) (False, s)) (\<lambda>(flag, s).
         Option.bind (rsaMulModWrite L (CHR ''B'') (mp_set L 1) s) (\<lambda>s.
           let s = (if \<not> flag then rsaMonMulAB hw s else rsaMonMulBD hw s)
           in Option.bind (rsaMulModRead L (if \<not> flag then CHR ''D'' else CHR ''A'') res s) (\<lambda>(err, res).
              Some (0, mp_clamp L res, s\<lparr>rsa_clock := False\<rparr>))))))))"

end
