(* ===== verification/Crypto_Rsa_Correct.thy ===== *)
theory Crypto_Rsa_Correct
  imports Crypto_Rsa
begin

text \<open>
  \<open>tls_crypto_exptmod\<close> computes modular powers.  The locales \<open>mp_library\<close> and \<open>rsa_unit\<close> state what the driver relies on in the
  number library and in the unit; \<open>rsa_driver\<close> joins them.  The loop keeps the power in Montgomery form in the register the
  flag names, and the inverse \<open>rsaCalMc\<close> computes makes every product of the unit defined.
\<close>

section \<open>The inverse of the modulus\<close>

lemma mc_step:
  fixes n y :: int
  assumes "odd n" "take_bit (Suc j) (n * y) = 1"
  shows "take_bit (Suc (Suc j)) (n * (if bit (n * y) (Suc j) then y + 2 ^ Suc j else y)) = 1"
proof -
  have low: "take_bit (Suc (Suc j)) (n * y) = 2 ^ Suc j * of_bool (bit (n * y) (Suc j)) + 1"
    using assms(2) take_bit_Suc_from_most [of "Suc j" "n * y"] by simp
  show ?thesis
  proof (cases "bit (n * y) (Suc j)")
    case False
    then show ?thesis using low by simp
  next
    case True
    obtain q where q: "n = 2 * q + 1" using assms(1) by (auto elim: oddE)
    have "n * y = (n * y) div 2 ^ Suc (Suc j) * 2 ^ Suc (Suc j) + (2 ^ Suc j + 1)"
      using low True div_mult_mod_eq [of "n * y" "2 ^ Suc (Suc j)"] by (simp add: take_bit_eq_mod)
    then have "n * (y + 2 ^ Suc j) = 1 + ((n * y) div 2 ^ Suc (Suc j) + q + 1) * 2 ^ Suc (Suc j)"
      using q by (simp add: algebra_simps)
    then have "(n * (y + 2 ^ Suc j)) mod 2 ^ Suc (Suc j) = 1 mod 2 ^ Suc (Suc j)"
      by (metis mod_mult_self1)
    moreover have "(1 :: int) mod 2 ^ Suc (Suc j) = 1"
      by (rule mod_pos_pos_trivial) (auto intro: one_less_power simp del: power_Suc)
    ultimately show ?thesis using True by (simp add: take_bit_eq_mod del: power_Suc)
  qed
qed

lemma bit_word_product: "k < 32 \<Longrightarrow> bit (of_int a * of_int b :: u32) k = bit (a * b) k"
  by (simp add: bit_word_of_int_iff flip: of_int_mult)

lemma word_exp_mask:
  assumes "k < 32"
  shows "((w :: u32) AND 2 ^ k \<noteq> 0) \<longleftrightarrow> bit w k"
proof
  assume "w AND 2 ^ k \<noteq> 0"
  then obtain i where "bit (w AND 2 ^ k) i" using bit_eqI [of "w AND 2 ^ k" 0] by auto
  then show "bit w k" by (auto simp: bit_and_iff bit_exp_iff)
next
  assume "bit w k"
  then have "bit (w AND 2 ^ k) k" using assms by (simp add: bit_and_iff bit_exp_iff)
  then show "w AND 2 ^ k \<noteq> 0" by auto
qed

lemma rsaCalMc_loop_inverse:
  assumes "odd n" "take_bit (Suc j) (n * y) = 1" "i + j = 31"
  shows "of_int n * rsaCalMc_loop i (of_int n) (2 ^ j) (of_int y) = 1"
  using assms
proof (induction i arbitrary: j y)
  case 0
  then have "take_bit 32 (n * y) = 1" by simp
  then have "(of_int (n * y) :: u32) = of_int 1" using word_of_int_eq_iff [where 'a = 32, of "n * y" 1] by simp
  then show ?case by simp
next
  case (Suc i)
  define y' where "y' = (if bit (n * y) (Suc j) then y + 2 ^ Suc j else y)"
  have "push_bit 1 (2 ^ j :: u32) = 2 ^ Suc j" by (simp add: push_bit_eq_mult)
  moreover have "((of_int n * of_int y) AND (2 ^ Suc j :: u32) \<noteq> 0) \<longleftrightarrow> bit (n * y) (Suc j)"
    using Suc.prems(3) word_exp_mask [of "Suc j" "of_int n * of_int y"] bit_word_product [of "Suc j" n y] by (simp del: power_Suc)
  ultimately have "rsaCalMc_loop (Suc i) (of_int n) (2 ^ j) (of_int y) = rsaCalMc_loop i (of_int n) (2 ^ Suc j) (of_int y')"
    by (simp add: y'_def Let_def del: power_Suc)
  moreover have "take_bit (Suc (Suc j)) (n * y') = 1" unfolding y'_def by (rule mc_step [OF Suc.prems(1,2)])
  ultimately show ?case using Suc.IH [of "Suc j" y'] Suc.prems by simp
qed

lemma rsaCalMc_inverse:
  assumes "odd (uint n)"
  shows "rsaCalMc n * n = - 1"
proof -
  have "take_bit (Suc 0) (uint n * 1) = 1" using assms by (simp add: take_bit_Suc odd_iff_mod_2_eq_one)
  from rsaCalMc_loop_inverse [OF assms this, of 31] have "n * rsaCalMc_loop 31 n 1 1 = 1" by simp
  moreover have "rsaCalMc n = - rsaCalMc_loop 31 n 1 1" by (simp add: rsaCalMc_def not_eq_complement)
  ultimately show ?thesis by (simp add: mult.commute)
qed

section \<open>Numbers in buffers\<close>

abbreviation le_val :: "u8 list \<Rightarrow> nat" where "le_val bs \<equiv> horner_sum unat 256 bs"
abbreviation word_val :: "u32 list \<Rightarrow> nat" where "word_val ws \<equiv> horner_sum unat (2 ^ 32) ws"

lemma horner_zeros [simp]: "horner_sum unat b (replicate n (0 :: 'a :: len word)) = (0 :: nat)"
  by (induction n) simp_all

lemma base_256: "u < 2 ^ 32 \<Longrightarrow> u mod 256 + 256 * (u div 2 ^ 8 mod 256 + 256 * (u div 2 ^ 16 mod 256 + 256 * (u div 2 ^ 24 mod 256))) = (u :: nat)"
proof -
  assume u: "u < 2 ^ 32"
  have e: "u div 2 ^ 16 = u div 2 ^ 8 div 256" "u div 2 ^ 24 = u div 2 ^ 16 div 256"
    by (simp_all add: div_mult2_eq [symmetric])
  have "u div 2 ^ 24 < 256" using u by (simp add: less_mult_imp_div_less)
  then have "u div 2 ^ 24 mod 256 = u div 2 ^ 24" by simp
  then have "u div 2 ^ 16 mod 256 + 256 * (u div 2 ^ 24 mod 256) = u div 2 ^ 16"
    using e(2) mod_mult_div_eq [of "u div 2 ^ 16" 256] by simp
  moreover have "u div 2 ^ 8 mod 256 + 256 * (u div 2 ^ 16) = u div 2 ^ 8"
    using e(1) mod_mult_div_eq [of "u div 2 ^ 8" 256] by simp
  moreover have "u mod 256 + 256 * (u div 2 ^ 8) = u" using mod_mult_div_eq [of u 256] by simp
  ultimately show ?thesis by simp
qed

lemma le_val_le32 [simp]: "le_val (le32 w) = unat w"
proof -
  have b: "unat (ucast (drop_bit k w) :: u8) = unat w div 2 ^ k mod 256" for k
  proof -
    have "unat (drop_bit k w) = unat w div 2 ^ k" unfolding unat_drop_bit_eq by (simp add: drop_bit_eq_div)
    then show ?thesis by (simp add: unsigned_ucast_eq take_bit_eq_mod)
  qed
  have "unat w < 2 ^ 32" using unsigned_less [of w] by simp
  from base_256 [OF this] show ?thesis
    using b [of 0] b [of 8] b [of 16] b [of 24] by (simp add: le32_def)
qed

lemma le_val_bytes_of: "le_val (bytes_of ws) = word_val ws"
  by (induction ws) (simp_all add: bytes_of_def horner_sum_append)

lemma length_bytes_of [simp]: "length (bytes_of ws) = 4 * length ws"
  by (induction ws) (simp_all add: bytes_of_def)

lemma take_bytes_of: "take (4 * n) (bytes_of ws) = bytes_of (take n ws)"
proof (induction ws arbitrary: n)
  case (Cons w ws)
  then show ?case by (cases n) (simp_all add: bytes_of_def)
qed (simp add: bytes_of_def)

lemma le32_get32: "le32 (get32 [a, b, c, d] 0) = [a, b, c, d]"
proof -
  have "\<not> bit (x :: u8) (8 + n)" "\<not> bit x (16 + n)" "\<not> bit x (24 + n)" for x n
    using bit_imp_le_length [of x] by fastforce+
  then show ?thesis by (auto simp: le32_def get32_def bit_simps intro!: bit_word_eqI)
qed

lemma bytes_of_words: "length bs = 4 * n \<Longrightarrow> bytes_of (words_of bs) = bs"
proof (induction n arbitrary: bs)
  case 0
  then show ?case by (simp add: bytes_of_def words_of_def)
next
  case (Suc n)
  obtain a b c d r where bs: "bs = [a, b, c, d] @ r"
    using Suc.prems by (cases bs; cases "tl bs"; cases "tl (tl bs)"; cases "tl (tl (tl bs))") auto
  then have r: "length r = 4 * n" using Suc.prems by simp
  have "words_of bs = get32 [a, b, c, d] 0 # words_of r"
    using r unfolding bs words_of_def
    by (simp add: upt_conv_Cons map_Suc_upt [symmetric] get32_append2 get32_def comp_def add.commute [of 3] del: upt_Suc)
  then show ?case using Suc.IH [OF r] bs by (simp add: bytes_of_def le32_get32)
qed

lemma length_words_of [simp]: "length (words_of bs) = length bs div 4"
  by (simp add: words_of_def)

lemma written_value:
  assumes "length bs \<le> 4 * n" "n \<le> 64"
  shows "word_val (take n (words_of (overlay (replicate 256 0) 0 bs))) = le_val bs"
proof -
  define xs where "xs = overlay (replicate 256 0) 0 bs"
  have l: "length xs = 4 * 64" using assms by (simp add: xs_def)
  have "word_val (take n (words_of xs)) = le_val (take (4 * n) xs)"
    using bytes_of_words [OF l] take_bytes_of [of n "words_of xs"] le_val_bytes_of [of "take n (words_of xs)"] by simp
  also have "take (4 * n) xs = bs @ replicate (4 * n - length bs) 0"
    using assms by (simp add: xs_def overlay_def)
  finally show ?thesis by (simp add: xs_def horner_sum_append)
qed

section \<open>The number library and the unit\<close>

definition mp_ok :: "hstm_int \<Rightarrow> bool" where
  "mp_ok a \<longleftrightarrow> 0 \<le> used a \<and> nat (used a) \<le> length (dp a) \<and> hsign a = 0 \<and> (\<forall>d \<in> set (dp a). d < 2 ^ DIGIT_BIT)"

definition mp_val :: "hstm_int \<Rightarrow> nat" where
  "mp_val a = horner_sum unat (2 ^ DIGIT_BIT) (take (nat (used a)) (dp a))"

text \<open>What the driver relies on in libtommath.\<close>

locale mp_library =
  fixes L :: mp_lib
  assumes count_bits_bound: "mp_ok a \<Longrightarrow> mp_val a < 2 ^ mp_count_bits L a"
    and count_bits_least: "mp_ok a \<Longrightarrow> mp_val a < 2 ^ k \<Longrightarrow> mp_count_bits L a \<le> k"
    and twoexpt: "0 \<le> i \<Longrightarrow> mp_ok (mp_2expt L i) \<and> mp_val (mp_2expt L i) = 2 ^ nat i"
    and mod_ok: "mp_ok a \<Longrightarrow> mp_ok b \<Longrightarrow> 0 < mp_val b \<Longrightarrow>
      mp_ok (mp_mod L a b) \<and> mp_val (mp_mod L a b) = mp_val a mod mp_val b"
    and mulmod_ok: "mp_ok a \<Longrightarrow> mp_ok b \<Longrightarrow> mp_ok c \<Longrightarrow> 0 < mp_val c \<Longrightarrow>
      mp_ok (mp_mulmod L a b c) \<and> mp_val (mp_mulmod L a b c) = (mp_val a * mp_val b) mod mp_val c"
    and set_ok: "d < 2 ^ DIGIT_BIT \<Longrightarrow> mp_ok (mp_set L d) \<and> mp_val (mp_set L d) = unat d"
    and to_bin: "mp_ok a \<Longrightarrow> le_val (mp_to_unsigned_bin_nr L a) = mp_val a \<and>
      length (mp_to_unsigned_bin_nr L a) \<le> (mp_count_bits L a + 7) div 8"
    and read_bin: "fst (mp_read_unsigned_bin L bs) = 0 \<and> mp_ok (snd (mp_read_unsigned_bin L bs)) \<and>
      mp_val (snd (mp_read_unsigned_bin L bs)) = le_val (rev bs)"
    and reverse_rev: "mp_reverse L bs = rev bs"
    and clamp_ok: "mp_ok a \<Longrightarrow> mp_ok (mp_clamp L a) \<and> mp_val (mp_clamp L a) = mp_val a"

text \<open>The value of the first \<open>RSAN\<close> words of a buffer.\<close>

definition bufval :: "rsa_regs \<Rightarrow> u32 list \<Rightarrow> nat" where
  "bufval s b = word_val (take (unat (RSAN s)) b)"

definition rsa_ready :: "rsa_regs \<Rightarrow> bool" where
  "rsa_ready s \<longleftrightarrow>
     length (RSAXBUF s) = 64 \<and> length (RSAYBUF s) = 64 \<and> length (RSAMBUF s) = 64 \<and> length (RSADBUF s) = 64 \<and>
     0 < unat (RSAN s) \<and> unat (RSAN s) \<le> 64 \<and> RSAMC s * RSAMBUF s ! 0 = - 1"

text \<open>The Montgomery product of two reduced operands: reduced, and the product divided by \<open>2 ^ (32 * RSAN)\<close> modulo M.\<close>

definition mont_product :: "rsa_regs \<Rightarrow> u32 list \<Rightarrow> u32 list \<Rightarrow> u32 list \<Rightarrow> bool" where
  "mont_product s a b d \<longleftrightarrow>
     (let m = bufval s (RSAMBUF s)
      in length d = 64 \<and>
         (bufval s a < m \<and> bufval s b < m \<longrightarrow>
            bufval s d < m \<and> (bufval s d * 2 ^ (32 * unat (RSAN s))) mod m = (bufval s a * bufval s b) mod m))"

locale rsa_unit =
  fixes hw :: rsa_hw
  assumes unit_AA: "rsa_ready s \<Longrightarrow> RSACON s = 0x2c \<Longrightarrow>
      \<exists>d. hw s = s\<lparr>RSADBUF := d\<rparr> \<and> mont_product s (RSAXBUF s) (RSAXBUF s) d"
    and unit_DD: "rsa_ready s \<Longrightarrow> RSACON s = 0x20 \<Longrightarrow>
      \<exists>d. hw s = s\<lparr>RSAXBUF := d\<rparr> \<and> mont_product s (RSADBUF s) (RSADBUF s) d"
    and unit_AB: "rsa_ready s \<Longrightarrow> RSACON s = 0x24 \<Longrightarrow>
      \<exists>d. hw s = s\<lparr>RSADBUF := d\<rparr> \<and> mont_product s (RSAXBUF s) (RSAYBUF s) d"
    and unit_BD: "rsa_ready s \<Longrightarrow> RSACON s = 0x28 \<Longrightarrow>
      \<exists>d. hw s = s\<lparr>RSAXBUF := d\<rparr> \<and> mont_product s (RSAYBUF s) (RSADBUF s) d"

section \<open>Digits and bits\<close>

lemma horner_split: "unat (d :: u32) < B \<Longrightarrow> (unat d + B * r) mod B = unat d \<and> (unat d + B * r) div B = r"
  by simp

lemma horner_less: "\<forall>d \<in> set ds. unat (d :: u32) < B \<Longrightarrow> horner_sum unat B ds < B ^ length ds"
proof (induction ds)
  case (Cons d ds)
  then have "horner_sum unat B ds + 1 \<le> B ^ length ds" by simp
  then have "B * (horner_sum unat B ds + 1) \<le> B * B ^ length ds" by (rule mult_le_mono2)
  then show ?case using Cons.prems by simp
qed simp

lemma digit_bound: "d < 2 ^ DIGIT_BIT \<longleftrightarrow> unat (d :: u32) < 2 ^ 28"
  by (simp add: word_less_nat_alt)

lemma bit_horner:
  assumes "\<forall>d \<in> set ds. unat (d :: u32) < 2 ^ 28" "i < 28 * length ds"
  shows "bit (horner_sum unat (2 ^ 28) ds :: nat) i = bit (ds ! (i div 28)) (i mod 28)"
  using assms
proof (induction ds arbitrary: i)
  case (Cons d ds)
  define r where "r = (horner_sum unat (2 ^ 28) ds :: nat)"
  define x where "x = unat d + 2 ^ 28 * r"
  have x: "x mod 2 ^ 28 = unat d" "x div 2 ^ 28 = r" using Cons.prems(1) horner_split [of d "2 ^ 28" r] by (auto simp: x_def)
  show ?case
  proof (cases "i < 28")
    case True
    then have "bit x i = bit (take_bit 28 x) i" by (simp add: bit_take_bit_iff)
    also have "\<dots> = bit d i" using x(1) by (simp add: take_bit_eq_mod bit_unsigned_iff)
    finally show ?thesis using True by (simp add: x_def r_def)
  next
    case False
    then obtain j where j: "i = 28 + j" using le_Suc_ex [of 28 i] by auto
    have "bit x i = bit (drop_bit 28 x) j" by (simp add: bit_drop_bit_eq j)
    also have "\<dots> = bit r j" using x(2) by (simp add: drop_bit_eq_div)
    finally have "bit x i = bit r j" .
    moreover have "bit r j = bit (ds ! (j div 28)) (j mod 28)"
      unfolding r_def using Cons.prems j by (intro Cons.IH) auto
    moreover have "(28 + j) div 28 = Suc (j div 28)" by simp
    ultimately show ?thesis by (simp only: x_def r_def j horner_sum_simps nth_Cons_Suc mod_add_self1)
  qed
qed simp

lemma sint_of_small: "j < 2 ^ 15 \<Longrightarrow> sint (of_nat j :: 16 word) = int j"
  by (simp add: sint_uint unsigned_of_nat take_bit_nat_eq_self signed_take_bit_int_eq_self)

lemma get_bit:
  assumes "mp_ok e" "i < 28 * nat (used e)" "i < 2 ^ 15"
  shows "pstm_get_bit e (of_nat i) = Some (of_bool (bit (mp_val e) i))"
proof -
  have u: "0 < used e" "nat (used e) \<le> length (dp e)" using assms by (auto simp: mp_ok_def)
  have i: "i div 28 < nat (used e)" using assms(2) by (simp add: less_mult_imp_div_less mult.commute)
  have "\<forall>d \<in> set (take (nat (used e)) (dp e)). unat d < 2 ^ 28"
    using assms(1) digit_bound by (auto simp: mp_ok_def dest: in_set_takeD)
  from bit_horner [OF this, of i] have "bit (mp_val e) i = bit (dp e ! (i div 28)) (i mod 28)"
    using assms(2) u i by (simp add: mp_val_def min_def)
  moreover have "drop_bit (i mod 28) (dp e ! (i div 28)) AND 1 = of_bool (bit (dp e ! (i div 28)) (i mod 28))"
    by (simp add: and_one_eq bit_iff_odd_drop_bit mod2_eq_if)
  ultimately show ?thesis using u i by (simp add: pstm_get_bit_def Let_def sint_of_small [OF assms(3)])
qed

lemma dp0_low:
  assumes "mp_ok n" "0 < mp_val n"
  shows "exptmod_dp0 n = of_nat (mp_val n)"
proof (cases "1 < used n")
  case False
  then have "used n = 1" using assms by (cases "used n = 0") (auto simp: mp_ok_def mp_val_def)
  moreover from this obtain d r where "dp n = d # r" using assms(1) by (cases "dp n") (auto simp: mp_ok_def)
  ultimately show ?thesis by (simp add: exptmod_dp0_def mp_val_def)
next
  case True
  then obtain k where k: "nat (used n) = Suc (Suc k)" by (intro that [of "nat (used n) - 2"]) simp
  then obtain d0 d1 r where dp: "dp n = d0 # d1 # r"
    using assms(1) by (cases "dp n"; cases "tl (dp n)") (auto simp: mp_ok_def)
  have d0: "unat d0 < 2 ^ 28" using assms(1) dp digit_bound by (simp add: mp_ok_def)
  have z: "(72057594037927936 :: u32) = 0" by (simp add: word_eq_iff_unsigned)
  have "(of_nat (mp_val n) :: u32) = d0 + 2 ^ 28 * d1"
    by (simp add: z mp_val_def k dp ring_distribs flip: power_add)
  moreover have "d0 + 2 ^ 28 * d1 = d0 OR push_bit 28 d1"
  proof -
    have "\<not> bit d0 i" if "28 \<le> i" for i
    proof -
      have "bit (unat d0) i = bit (take_bit 28 (unat d0)) i" using d0 by (simp add: take_bit_nat_eq_self)
      then show ?thesis using that by (simp add: bit_take_bit_iff bit_unsigned_iff bit_imp_le_length)
    qed
    then have "d0 AND push_bit 28 d1 = 0" by (intro bit_word_eqI) (auto simp: bit_simps)
    then show ?thesis by (simp add: push_bit_eq_mult disjunctive_add_eq_or mult.commute)
  qed
  moreover have "0xFFFFFFFF AND w = w" for w :: u32
  proof -
    have "(0xFFFFFFFF :: u32) = - 1" by (simp add: word_eq_iff_unsigned)
    then show ?thesis by (simp only: and.left_neutral)
  qed
  ultimately show ?thesis using True dp by (simp add: exptmod_dp0_def)
qed

section \<open>Arithmetic modulo the modulus\<close>

lemma mod_cancel:
  fixes a b c n :: nat
  assumes "(a * c) mod n = (b * c) mod n" "coprime c n"
  shows "a mod n = b mod n"
proof -
  have "int n dvd int a * int c - int b * int c"
    using assms(1) by (metis mod_eq_dvd_iff of_nat_mod of_nat_mult)
  then have "int n dvd (int a - int b) * int c" by (simp add: left_diff_distrib)
  moreover have "coprime (int n) (int c)" using assms(2) by (simp add: coprime_commute)
  ultimately have "int n dvd int a - int b" by (simp add: coprime_dvd_mult_left_iff)
  then show ?thesis by (metis mod_eq_dvd_iff of_nat_eq_iff of_nat_mod)
qed

text \<open>\<open>c\<close> is the Montgomery form of \<open>y\<close>.\<close>

definition mform :: "nat \<Rightarrow> nat \<Rightarrow> nat \<Rightarrow> nat \<Rightarrow> bool" where
  "mform R n y c \<longleftrightarrow> c < n \<and> c = (y * R) mod n"

lemma mform_times:
  assumes "coprime R n" "mform R n x a" "mform R n y b" "d < n" "(d * R) mod n = (a * b) mod n"
  shows "mform R n (x * y) d"
proof -
  have "(d * R) mod n = ((x * R) * (y * R)) mod n"
    using assms by (simp add: mform_def mod_mult_eq)
  also have "\<dots> = ((x * y * R) * R) mod n" by (simp add: ac_simps)
  finally have "d mod n = (x * y * R) mod n" using assms(1) by (rule mod_cancel)
  then show ?thesis using assms(4) by (simp add: mform_def)
qed

lemma mform_leave:
  assumes "coprime R n" "mform R n y a" "d < n" "(d * R) mod n = a mod n"
  shows "d = y mod n"
proof -
  have "(d * R) mod n = (y * R) mod n" using assms by (simp add: mform_def)
  from mod_cancel [OF this assms(1)] show ?thesis using assms(3) by simp
qed

lemma exponent_bit: "a ^ (e div 2 ^ i) = (a ^ (e div 2 ^ Suc i)) * (a ^ (e div 2 ^ Suc i)) * (if bit e i then a else (1 :: nat))"
proof -
  have "e div 2 ^ i = 2 * (e div 2 ^ Suc i) + of_bool (bit e i)"
  proof -
    define q where "q = e div 2 ^ i"
    have "e div 2 ^ Suc i = q div 2" by (simp only: q_def power_Suc2 div_mult2_eq)
    moreover have "2 * (q div 2) + of_bool (odd q) = q" by (cases "odd q") simp_all
    ultimately show ?thesis by (simp add: bit_iff_odd flip: q_def)
  qed
  then show ?thesis by (simp add: power_add mult_2)
qed

section \<open>The unit in a computation\<close>

lemma bufval_frame [simp]:
  "bufval (s\<lparr>RSAXBUF := b\<rparr>) = bufval s" "bufval (s\<lparr>RSAYBUF := b\<rparr>) = bufval s" "bufval (s\<lparr>RSAMBUF := b\<rparr>) = bufval s"
  "bufval (s\<lparr>RSADBUF := b\<rparr>) = bufval s" "bufval (s\<lparr>RSACON := c\<rparr>) = bufval s" "bufval (s\<lparr>rsa_complete := f\<rparr>) = bufval s"
  "bufval (s\<lparr>rsa_clock := f\<rparr>) = bufval s"
  by (simp_all add: bufval_def fun_eq_iff)

text \<open>The state of a computation: B holds the base, and the register named by \<open>flag\<close> the power \<open>y\<close>, both in Montgomery form.\<close>

definition mont_state :: "nat \<Rightarrow> u32 \<Rightarrow> nat \<Rightarrow> nat \<Rightarrow> bool \<times> rsa_regs \<Rightarrow> bool" where
  "mont_state n N x y = (\<lambda>(flag, s).
     rsa_ready s \<and> RSAN s = N \<and> bufval s (RSAMBUF s) = n \<and> mform (2 ^ (32 * unat N)) n x (bufval s (RSAYBUF s)) \<and>
     mform (2 ^ (32 * unat N)) n y (bufval s (if flag then RSADBUF s else RSAXBUF s)))"

context rsa_unit
begin

lemma run_AA:
  assumes "rsa_ready s"
  shows "\<exists>d. rsaMonMulAA hw s = s\<lparr>RSADBUF := d, RSACON := 0, rsa_complete := False\<rparr> \<and> mont_product s (RSAXBUF s) (RSAXBUF s) d"
  using unit_AA [of "s\<lparr>rsa_complete := False, RSACON := 0x2c\<rparr>"] assms
  by (auto simp: rsaMonMulAA_def rsaMonMul_def RSA_F_IRQHandler_def Let_def rsa_ready_def mont_product_def)

lemma run_DD:
  assumes "rsa_ready s"
  shows "\<exists>d. rsaMonMulDD hw s = s\<lparr>RSAXBUF := d, RSACON := 0, rsa_complete := False\<rparr> \<and> mont_product s (RSADBUF s) (RSADBUF s) d"
  using unit_DD [of "s\<lparr>rsa_complete := False, RSACON := 0x20\<rparr>"] assms
  by (auto simp: rsaMonMulDD_def rsaMonMul_def RSA_F_IRQHandler_def Let_def rsa_ready_def mont_product_def)

lemma run_AB:
  assumes "rsa_ready s"
  shows "\<exists>d. rsaMonMulAB hw s = s\<lparr>RSADBUF := d, RSACON := 0, rsa_complete := False\<rparr> \<and> mont_product s (RSAXBUF s) (RSAYBUF s) d"
  using unit_AB [of "s\<lparr>rsa_complete := False, RSACON := 0x24\<rparr>"] assms
  by (auto simp: rsaMonMulAB_def rsaMonMul_def RSA_F_IRQHandler_def Let_def rsa_ready_def mont_product_def)

lemma run_BD:
  assumes "rsa_ready s"
  shows "\<exists>d. rsaMonMulBD hw s = s\<lparr>RSAXBUF := d, RSACON := 0, rsa_complete := False\<rparr> \<and> mont_product s (RSAYBUF s) (RSADBUF s) d"
  using unit_BD [of "s\<lparr>rsa_complete := False, RSACON := 0x28\<rparr>"] assms
  by (auto simp: rsaMonMulBD_def rsaMonMul_def RSA_F_IRQHandler_def Let_def rsa_ready_def mont_product_def)

lemma square_step_state:
  assumes "odd n" "mont_state n N x y fs"
  shows "mont_state n N x (y * y) (square_step hw fs)"
proof -
  obtain flag s where fs: "fs = (flag, s)" by (cases fs)
  define R where "R = (2 :: nat) ^ (32 * unat N)"
  have R: "coprime R n" using assms(1) by (simp add: R_def)
  have s: "rsa_ready s" "RSAN s = N" "bufval s (RSAMBUF s) = n" "mform R n x (bufval s (RSAYBUF s))"
    "mform R n y (bufval s (if flag then RSADBUF s else RSAXBUF s))"
    using assms(2) by (auto simp: fs mont_state_def R_def)
  show ?thesis
  proof (cases flag)
    case False
    from run_AA [OF s(1)] obtain d where d: "rsaMonMulAA hw s = s\<lparr>RSADBUF := d, RSACON := 0, rsa_complete := False\<rparr>"
      "mont_product s (RSAXBUF s) (RSAXBUF s) d" by blast
    then have "mform R n (y * y) (bufval s d)"
      using s False by (intro mform_times [OF R s(5) s(5)]) (auto simp: mont_product_def Let_def mform_def R_def)
    then show ?thesis using s d False by (simp add: fs square_step_def mont_state_def R_def rsa_ready_def mont_product_def Let_def)
  next
    case True
    from run_DD [OF s(1)] obtain d where d: "rsaMonMulDD hw s = s\<lparr>RSAXBUF := d, RSACON := 0, rsa_complete := False\<rparr>"
      "mont_product s (RSADBUF s) (RSADBUF s) d" by blast
    then have "mform R n (y * y) (bufval s d)"
      using s True by (intro mform_times [OF R s(5) s(5)]) (auto simp: mont_product_def Let_def mform_def R_def)
    then show ?thesis using s d True by (simp add: fs square_step_def mont_state_def R_def rsa_ready_def mont_product_def Let_def)
  qed
qed

lemma multiply_step_state:
  assumes "odd n" "mont_state n N x y fs"
  shows "mont_state n N x (y * x) (multiply_step hw fs)"
proof -
  obtain flag s where fs: "fs = (flag, s)" by (cases fs)
  define R where "R = (2 :: nat) ^ (32 * unat N)"
  have R: "coprime R n" using assms(1) by (simp add: R_def)
  have s: "rsa_ready s" "RSAN s = N" "bufval s (RSAMBUF s) = n" "mform R n x (bufval s (RSAYBUF s))"
    "mform R n y (bufval s (if flag then RSADBUF s else RSAXBUF s))"
    using assms(2) by (auto simp: fs mont_state_def R_def)
  show ?thesis
  proof (cases flag)
    case False
    from run_AB [OF s(1)] obtain d where d: "rsaMonMulAB hw s = s\<lparr>RSADBUF := d, RSACON := 0, rsa_complete := False\<rparr>"
      "mont_product s (RSAXBUF s) (RSAYBUF s) d" by blast
    then have "mform R n (y * x) (bufval s d)"
      using s False by (intro mform_times [OF R s(5) s(4)]) (auto simp: mont_product_def Let_def mform_def R_def)
    then show ?thesis using s d False by (simp add: fs multiply_step_def mont_state_def R_def rsa_ready_def mont_product_def Let_def)
  next
    case True
    from run_BD [OF s(1)] obtain d where d: "rsaMonMulBD hw s = s\<lparr>RSAXBUF := d, RSACON := 0, rsa_complete := False\<rparr>"
      "mont_product s (RSAYBUF s) (RSADBUF s) d" by blast
    then have "mform R n (y * x) (bufval s d)"
      using s True by (intro mform_times [OF R s(5) s(4)]) (auto simp: mont_product_def Let_def mform_def R_def mult.commute)
    then show ?thesis using s d True by (simp add: fs multiply_step_def mont_state_def R_def rsa_ready_def mont_product_def Let_def)
  qed
qed

lemma exp_loop_state:
  assumes "odd n" "mp_ok e" "i \<le> 28 * nat (used e)" "i \<le> 2 ^ 15" "mont_state n N x (x ^ (mp_val e div 2 ^ i)) fs"
  shows "\<exists>fs'. exp_loop hw e i fs = Some fs' \<and> mont_state n N x (x ^ mp_val e) fs'"
  using assms(3-5)
proof (induction i arbitrary: fs)
  case 0
  then show ?case by simp
next
  case (Suc i)
  define q where "q = x ^ (mp_val e div 2 ^ Suc i)"
  define fs1 where "fs1 = square_step hw fs"
  define fs2 where "fs2 = (if bit (mp_val e) i then multiply_step hw fs1 else fs1)"
  have g: "pstm_get_bit e (of_nat i) = Some (of_bool (bit (mp_val e) i))"
    using Suc.prems(1,2) by (intro get_bit [OF assms(2)]) simp_all
  have "mont_state n N x (q * q) fs1"
    unfolding fs1_def using Suc.prems(3) by (intro square_step_state [OF assms(1)]) (simp add: q_def)
  then have "mont_state n N x (x ^ (mp_val e div 2 ^ i)) fs2"
    using multiply_step_state [OF assms(1), of N x "q * q" fs1] exponent_bit [of x "mp_val e" i]
    by (auto simp: fs2_def q_def)
  moreover have "exp_loop hw e (Suc i) fs = exp_loop hw e i fs2"
    using g by (simp add: fs2_def fs1_def Let_def)
  ultimately show ?case using Suc.IH [of fs2] Suc.prems(1,2) by simp
qed

end

section \<open>Modular exponentiation\<close>

locale rsa_driver = mp_library L + rsa_unit hw
  for L :: mp_lib and hw :: rsa_hw
begin

lemma count_bits_mono: "mp_ok a \<Longrightarrow> mp_ok b \<Longrightarrow> mp_val a \<le> mp_val b \<Longrightarrow> mp_count_bits L a \<le> mp_count_bits L b"
  using count_bits_least [of a "mp_count_bits L b"] count_bits_bound [of b] by simp

lemma bin_fits:
  assumes "mp_ok a" "mp_ok n" "mp_val a \<le> mp_val n" "mp_count_bits L n \<le> 32 * N"
  shows "length (mp_to_unsigned_bin_nr L a) \<le> 4 * N"
proof -
  have "length (mp_to_unsigned_bin_nr L a) \<le> (mp_count_bits L a + 7) div 8" using to_bin [OF assms(1)] by simp
  also have "\<dots> \<le> (32 * N + 7) div 8"
    using count_bits_mono [OF assms(1-3)] assms(4) by (intro div_le_mono) simp
  also have "\<dots> = 4 * N" by simp
  finally show ?thesis .
qed

lemma write_words:
  assumes "mp_ok a" "length (mp_to_unsigned_bin_nr L a) \<le> 4 * unat (RSAN s)" "unat (RSAN s) \<le> 64" "length b = 64"
  defines "ws \<equiv> words_of (overlay (replicate 256 0) 0 (mp_to_unsigned_bin_nr L a))"
  shows "bufval s (overlay b 0 (take (unat (RSAN s)) ws)) = mp_val a" "length (overlay b 0 (take (unat (RSAN s)) ws)) = 64"
proof -
  have l: "length ws = 64" using assms(2,3) by (simp add: ws_def)
  then show "length (overlay b 0 (take (unat (RSAN s)) ws)) = 64" using assms(3,4) by simp
  have "take (unat (RSAN s)) (overlay b 0 (take (unat (RSAN s)) ws)) = take (unat (RSAN s)) ws"
    using l assms(3) by (simp add: overlay_def)
  then show "bufval s (overlay b 0 (take (unat (RSAN s)) ws)) = mp_val a"
    using written_value [OF assms(2,3)] to_bin [OF assms(1)] by (simp add: bufval_def ws_def)
qed

lemma write_buffer:
  assumes "mp_ok a" "length (mp_to_unsigned_bin_nr L a) \<le> 4 * unat (RSAN s)" "unat (RSAN s) \<le> 64"
  shows "length (RSAXBUF s) = 64 \<Longrightarrow> \<exists>b. rsaMulModWrite L (CHR ''A'') a s = Some (s\<lparr>RSAXBUF := b\<rparr>) \<and> length b = 64 \<and> bufval s b = mp_val a"
    "length (RSAYBUF s) = 64 \<Longrightarrow> \<exists>b. rsaMulModWrite L (CHR ''B'') a s = Some (s\<lparr>RSAYBUF := b\<rparr>) \<and> length b = 64 \<and> bufval s b = mp_val a"
    "length (RSAMBUF s) = 64 \<Longrightarrow> \<exists>b. rsaMulModWrite L (CHR ''M'') a s = Some (s\<lparr>RSAMBUF := b\<rparr>) \<and> length b = 64 \<and> bufval s b = mp_val a"
  using assms(2,3) write_words [OF assms]
  by (auto simp: rsaMulModWrite_def rsaMonMulWriteA_def rsaMonMulWriteB_def rsaMonMulWriteM_def Let_def)

lemma read_buffer:
  assumes "rsa_ready s"
  shows "\<exists>r. rsaMulModRead L (CHR ''D'') res s = Some (0, r) \<and> mp_ok r \<and> mp_val r = bufval s (RSADBUF s)"
    "\<exists>r. rsaMulModRead L (CHR ''A'') res s = Some (0, r) \<and> mp_ok r \<and> mp_val r = bufval s (RSAXBUF s)"
proof -
  define N where "N = unat (RSAN s)"
  have N: "N \<le> 64" "length (RSADBUF s) = 64" "length (RSAXBUF s) = 64" using assms by (auto simp: rsa_ready_def N_def)
  have "take (4 * N) (bytes_of (overlay (replicate 64 0) 0 (take N b))) = bytes_of (take N b)" if "length b = 64" for b
    using that N by (simp add: take_bytes_of overlay_def)
  then have v: "le_val (take (4 * N) (bytes_of (overlay (replicate 64 0) 0 (take N b)))) = bufval s b" if "length b = 64" for b
    using that by (simp add: le_val_bytes_of bufval_def N_def)
  show "\<exists>r. rsaMulModRead L (CHR ''D'') res s = Some (0, r) \<and> mp_ok r \<and> mp_val r = bufval s (RSADBUF s)"
    using read_bin [of "rev (take (4 * N) (bytes_of (overlay (replicate 64 0) 0 (take N (RSADBUF s)))))"] v [OF N(2)] N
    by (auto simp: rsaMulModRead_def rsaMonMulReadD_def reverse_rev N_def Let_def split: prod.splits)
  show "\<exists>r. rsaMulModRead L (CHR ''A'') res s = Some (0, r) \<and> mp_ok r \<and> mp_val r = bufval s (RSAXBUF s)"
    using read_bin [of "rev (take (4 * N) (bytes_of (overlay (replicate 64 0) 0 (take N (RSAXBUF s)))))"] v [OF N(3)] N
    by (auto simp: rsaMulModRead_def rsaMonMulReadA_def reverse_rev N_def Let_def split: prod.splits)
qed

lemma final_step:
  assumes "odd n" "1 < n" "mont_state n N x y (flag, s)" "mp_ok r" "mp_val r = 1"
    "length (mp_to_unsigned_bin_nr L r) \<le> 4 * unat N"
  shows "\<exists>s1 res' s2. rsaMulModWrite L (CHR ''B'') r s = Some s1 \<and>
     s2 = (if \<not> flag then rsaMonMulAB hw s1 else rsaMonMulBD hw s1) \<and>
     rsaMulModRead L (if \<not> flag then CHR ''D'' else CHR ''A'') res s2 = Some (0, res') \<and>
     mp_ok res' \<and> mp_val res' = y mod n"
proof -
  define R where "R = (2 :: nat) ^ (32 * unat N)"
  have R: "coprime R n" using assms(1) by (simp add: R_def)
  have s: "rsa_ready s" "RSAN s = N" "bufval s (RSAMBUF s) = n"
    "mform R n y (bufval s (if flag then RSADBUF s else RSAXBUF s))"
    using assms(3) by (auto simp: mont_state_def R_def)
  obtain b where b: "rsaMulModWrite L (CHR ''B'') r s = Some (s\<lparr>RSAYBUF := b\<rparr>)" "length b = 64" "bufval s b = 1"
    using write_buffer(2) [OF assms(4)] assms(5,6) s by (auto simp: rsa_ready_def)
  define s1 where "s1 = s\<lparr>RSAYBUF := b\<rparr>"
  have s1: "rsa_ready s1" using s(1) b(2) by (simp add: s1_def rsa_ready_def)
  have fin: "bufval s d = y mod n"
    if "mont_product s1 (RSAYBUF s1) c d \<or> mont_product s1 c (RSAYBUF s1) d" "mform R n y (bufval s c)" for c d
  proof (rule mform_leave [OF R that(2)])
    show "bufval s d < n" "(bufval s d * R) mod n = bufval s c mod n"
      using that s(2,3) b(3) assms(2) by (auto simp: mont_product_def Let_def s1_def mform_def R_def)
  qed
  show ?thesis
  proof (cases flag)
    case False
    obtain d where d: "rsaMonMulAB hw s1 = s1\<lparr>RSADBUF := d, RSACON := 0, rsa_complete := False\<rparr>"
      "mont_product s1 (RSAXBUF s1) (RSAYBUF s1) d" using run_AB [OF s1] by blast
    have "rsa_ready (rsaMonMulAB hw s1)" using d s1 by (simp add: rsa_ready_def mont_product_def Let_def)
    from read_buffer(1) [OF this, of res] show ?thesis
      using fin [of "RSAXBUF s" d] d s(4) False b(1) by (auto simp: s1_def)
  next
    case True
    obtain d where d: "rsaMonMulBD hw s1 = s1\<lparr>RSAXBUF := d, RSACON := 0, rsa_complete := False\<rparr>"
      "mont_product s1 (RSAYBUF s1) (RSADBUF s1) d" using run_BD [OF s1] by blast
    have "rsa_ready (rsaMonMulBD hw s1)" using d s1 by (simp add: rsa_ready_def mont_product_def Let_def)
    from read_buffer(2) [OF this, of res] show ?thesis
      using fin [of "RSADBUF s" d] d s(4) True b(1) by (auto simp: s1_def)
  qed
qed

lemma exponent_bits: "mp_ok e \<Longrightarrow> mp_count_bits L e \<le> 28 * nat (used e)"
proof (rule count_bits_least)
  assume e: "mp_ok e"
  then have "mp_val e < (2 ^ 28) ^ length (take (nat (used e)) (dp e))"
    unfolding mp_val_def using digit_bound by (intro horner_less) (auto simp: mp_ok_def dest: in_set_takeD)
  moreover have "length (take (nat (used e)) (dp e)) = nat (used e)" using e by (simp add: mp_ok_def)
  ultimately show "mp_val e < 2 ^ (28 * nat (used e))" by (simp only: power_mult)
qed

text \<open>The registers when the loop starts.\<close>

lemma first_state:
  assumes "mp_ok a" "mp_ok n" "odd (mp_val n)" "1 < mp_val n" "mp_count_bits L n \<le> 32 * unat N" "0 < unat N" "unat N \<le> 64"
    and len: "length (RSAXBUF s) = 64" "length (RSAYBUF s) = 64" "length (RSAMBUF s) = 64" "length (RSADBUF s) = 64"
    and s: "RSAN s = N" "RSAMC s = rsaCalMc (exptmod_dp0 n)"
    and X: "mp_ok X" "mp_val X = (mp_val a * 2 ^ (32 * unat N)) mod mp_val n"
    and Y: "mp_ok Y" "mp_val Y = 2 ^ (32 * unat N) mod mp_val n"
  shows "\<exists>s1 s2 s3. rsaMulModWrite L (CHR ''M'') n s = Some s1 \<and> rsaMulModWrite L (CHR ''B'') X s1 = Some s2 \<and>
     rsaMulModWrite L (CHR ''A'') Y s2 = Some s3 \<and> mont_state (mp_val n) N (mp_val a) 1 (False, s3)"
proof -
  have lt: "mp_val X < mp_val n" "mp_val Y < mp_val n" using X(2) Y(2) assms(4) by auto
  obtain m where m: "rsaMulModWrite L (CHR ''M'') n s = Some (s\<lparr>RSAMBUF := m\<rparr>)" "length m = 64" "bufval s m = mp_val n"
    using write_buffer(3) [OF assms(2), of s] bin_fits [OF assms(2,2) _ assms(5)] len s assms(7) by auto
  define s1 where "s1 = s\<lparr>RSAMBUF := m\<rparr>"
  obtain b where b: "rsaMulModWrite L (CHR ''B'') X s1 = Some (s1\<lparr>RSAYBUF := b\<rparr>)" "length b = 64" "bufval s1 b = mp_val X"
    using write_buffer(2) [OF X(1), of s1] bin_fits [OF X(1) assms(2) _ assms(5)] lt len s assms(7) by (auto simp: s1_def)
  define s2 where "s2 = s1\<lparr>RSAYBUF := b\<rparr>"
  obtain x where x: "rsaMulModWrite L (CHR ''A'') Y s2 = Some (s2\<lparr>RSAXBUF := x\<rparr>)" "length x = 64" "bufval s2 x = mp_val Y"
    using write_buffer(1) [OF Y(1), of s2] bin_fits [OF Y(1) assms(2) _ assms(5)] lt len s assms(7)
    by (auto simp: s1_def s2_def)
  define k where "k = unat N - 1"
  have k: "unat N = Suc k" using assms(6) by (simp add: k_def)
  obtain m0 r where mr: "m = m0 # r" using m(2) by (cases m) auto
  have "mp_val n = unat m0 + 2 ^ 32 * word_val (take k r)" using m(3) s(1) k mr by (simp add: bufval_def)
  then have "(of_nat (mp_val n) :: u32) = of_nat (unat m0) + of_nat (2 ^ 32) * of_nat (word_val (take k r))"
    by (simp only: of_nat_add of_nat_mult)
  moreover have "(of_nat (2 ^ 32) :: u32) = 0" by (simp add: word_eq_iff_unsigned)
  ultimately have m0: "m0 = exptmod_dp0 n" using dp0_low [OF assms(2)] assms(4) by (simp only: mult_zero_left) simp
  have "odd (uint (exptmod_dp0 n))"
    using dp0_low [OF assms(2)] assms(3,4) by (simp add: unsigned_of_nat even_take_bit_eq)
  then have "RSAMC s * m ! 0 = - 1" using rsaCalMc_inverse s(2) m0 mr by simp
  then have "mont_state (mp_val n) N (mp_val a) 1 (False, s2\<lparr>RSAXBUF := x\<rparr>)"
    using m b x len s X Y lt assms(6,7)
    by (simp add: mont_state_def rsa_ready_def s1_def s2_def mform_def)
  then show ?thesis using m(1) b(1) x(1) by (auto simp: s1_def s2_def)
qed

lemma exptmod_value:
  assumes ok: "mp_ok a" "mp_ok e" "mp_ok n" and n: "odd (mp_val n)" "1 < mp_val n" "mp_count_bits L n \<le> 2048"
    and e: "mp_count_bits L e \<le> 2 ^ 15"
    and len: "length (RSAXBUF s) = 64" "length (RSAYBUF s) = 64" "length (RSAMBUF s) = 64" "length (RSADBUF s) = 64"
  shows "\<exists>res' s'. tls_crypto_exptmod L hw a e n res s = Some (0, res', s') \<and> mp_ok res' \<and>
     mp_val res' = (mp_val a ^ mp_val e) mod mp_val n \<and> \<not> rsa_clock s'"
proof -
  define k where "k = mp_count_bits L n"
  define M where "M = k div 32 + (if k mod 32 = 0 then 0 else 1)"
  define N where "N = (of_nat M :: u32)"
  have "0 < k" using count_bits_bound [OF ok(3)] n(2) by (cases k) (auto simp: k_def)
  have kM: "k \<le> 32 * M" "M \<le> 64" "0 < M"
  proof -
    define q r where "q = k div 32" and "r = k mod 32"
    have "k \<le> 2048" using n(3) by (simp add: k_def)
    moreover have "k = 32 * q + r" "r < 32" unfolding q_def r_def by simp_all
    moreover have "M = q + (if r = 0 then 0 else 1)" by (simp add: M_def q_def r_def)
    ultimately show "k \<le> 32 * M" "M \<le> 64" "0 < M" using \<open>0 < k\<close> by (auto split: if_splits)
  qed
  have N: "unat N = M" using kM(2) by (simp add: N_def unsigned_of_nat take_bit_nat_eq_self)
  have k32: "(k div 32 + (if k mod 32 > 0 then 1 else 0)) * 32 = 32 * M" by (simp add: M_def)
  have e16: "sint (of_nat (32 * M) :: 16 word) = int (32 * M)"
    using kM(2) by (intro sint_of_small) simp
  define R where "R = mp_mod L (mp_2expt L (int (32 * M))) n"
  define X where "X = mp_mulmod L a R n"
  define s0 where "s0 = rsaMonMulWriteMc (rsaCalMc (exptmod_dp0 n)) (rsaMonMulSetLen N (s\<lparr>rsa_clock := True\<rparr>))"
  have T: "mp_ok (mp_2expt L (int (32 * M)))" "mp_val (mp_2expt L (int (32 * M))) = 2 ^ (32 * M)"
    using twoexpt [OF of_nat_0_le_iff, of "32 * M"] unfolding nat_int by blast+
  have R: "mp_ok R" "mp_val R = 2 ^ (32 * unat N) mod mp_val n"
    using mod_ok [OF T(1) ok(3)] n(2) unfolding R_def T(2) N by auto
  have X: "mp_ok X" "mp_val X = (mp_val a * 2 ^ (32 * unat N)) mod mp_val n"
    using mulmod_ok [OF ok(1) R(1) ok(3)] n R(2) by (auto simp: X_def mod_mult_right_eq)
  obtain s1 s2 s3 where w: "rsaMulModWrite L (CHR ''M'') n s0 = Some s1" "rsaMulModWrite L (CHR ''B'') X s1 = Some s2"
    "rsaMulModWrite L (CHR ''A'') R s2 = Some s3" and m: "mont_state (mp_val n) N (mp_val a) 1 (False, s3)"
    using first_state [OF ok(1,3) n(1,2) _ _ _ _ _ _ _ _ _ X R, of s0] kM N len
    by (auto simp: s0_def rsaMonMulWriteMc_def rsaMonMulSetLen_def k_def)
  have "mp_val e div 2 ^ mp_count_bits L e = 0" using count_bits_bound [OF ok(2)] by simp
  then obtain flag s4 where l: "exp_loop hw e (mp_count_bits L e) (False, s3) = Some (flag, s4)"
    and m4: "mont_state (mp_val n) N (mp_val a) (mp_val a ^ mp_val e) (flag, s4)"
    using exp_loop_state [OF n(1) ok(2) exponent_bits [OF ok(2)] e, of N "mp_val a" "(False, s3)"] m by auto
  have one: "mp_ok (mp_set L 1)" "mp_val (mp_set L 1) = 1" using set_ok [of 1] by auto
  have "length (mp_to_unsigned_bin_nr L (mp_set L 1)) \<le> 4 * unat N"
    using bin_fits [OF one(1) ok(3), of M] one(2) n(2) kM N by (simp add: k_def)
  from final_step [OF n(1,2) m4 one this, of res] obtain s5 res' s6 where
    f: "rsaMulModWrite L (CHR ''B'') (mp_set L 1) s4 = Some s5" "s6 = (if \<not> flag then rsaMonMulAB hw s5 else rsaMonMulBD hw s5)"
      "rsaMulModRead L (if \<not> flag then CHR ''D'' else CHR ''A'') res s6 = Some (0, res')"
    and r: "mp_ok res'" "mp_val res' = mp_val a ^ mp_val e mod mp_val n" by blast
  have "tls_crypto_exptmod L hw a e n res s = Some (0, mp_clamp L res', s6\<lparr>rsa_clock := False\<rparr>)"
    unfolding tls_crypto_exptmod_def Let_def k_def [symmetric] k32 e16 R_def [symmetric] X_def [symmetric]
      M_def [symmetric] N_def [symmetric] s0_def [symmetric]
    using w l f by simp
  then show ?thesis using clamp_ok [OF r(1)] r(2) by auto
qed

end

end
