(* ===== verification/Crypto_Rsa_Props.thy ===== *)
theory Crypto_Rsa_Props
  imports Crypto_Rsa_Correct
begin

text \<open>
  Reference instances of the number library and of the RSA unit, on which the locales of \<open>Crypto_Rsa_Correct\<close> are interpreted,
  and the properties of modular exponentiation.
\<close>

section \<open>Digits\<close>

function dig :: "nat \<Rightarrow> nat \<Rightarrow> nat list" where
  "dig b v = (if v = 0 \<or> b = 0 then [] else v mod 2 ^ b # dig b (v div 2 ^ b))"
  by pat_completeness auto
termination
proof (relation "measure snd")
  fix b v :: nat
  assume "\<not> (v = 0 \<or> b = 0)"
  then have "(1 :: nat) < 2 ^ b" "0 < v" using one_less_power [of "2 :: nat" b] by auto
  then show "((b, v div 2 ^ b), (b, v)) \<in> measure snd" by (simp add: div_less_dividend)
qed simp

declare dig.simps [simp del]

lemma dig_val: "0 < b \<Longrightarrow> horner_sum (\<lambda>x. x) (2 ^ b) (dig b v) = v"
proof (induction b v rule: dig.induct)
  case (1 b v)
  then show ?case by (subst dig.simps) (auto simp: mod_mult_div_eq)
qed

lemma dig_bound: "x \<in> set (dig b v) \<Longrightarrow> x < 2 ^ b"
proof (induction b v rule: dig.induct)
  case (1 b v)
  from 1(2) show ?case by (subst (asm) dig.simps) (auto split: if_splits dest: 1(1) [rotated])
qed

lemma dig_length: "v < (2 ^ b) ^ k \<Longrightarrow> length (dig b v) \<le> k"
proof (induction k arbitrary: v)
  case 0
  then show ?case by (simp add: dig.simps)
next
  case (Suc k)
  then have "v div 2 ^ b < (2 ^ b) ^ k" by (simp add: less_mult_imp_div_less mult.commute)
  from Suc.IH [OF this] show ?case by (subst dig.simps) simp
qed

lemma horner_of_nat:
  assumes "\<forall>x \<in> set xs. x < 2 ^ LENGTH('a :: len)"
  shows "horner_sum unat B (map of_nat xs :: 'a word list) = horner_sum (\<lambda>x. x) (B :: nat) xs"
  using assms by (induction xs) (simp_all add: unsigned_of_nat take_bit_nat_eq_self)

fun bitlen_nat :: "nat \<Rightarrow> nat" where
  "bitlen_nat v = (if v = 0 then 0 else Suc (bitlen_nat (v div 2)))"

declare bitlen_nat.simps [simp del]

lemma bitlen_bound: "v < 2 ^ bitlen_nat v"
proof (induction v rule: bitlen_nat.induct)
  case (1 v)
  then show ?case by (cases "v = 0") (subst bitlen_nat.simps, simp)+
qed

lemma bitlen_least: "v < 2 ^ k \<Longrightarrow> bitlen_nat v \<le> k"
proof (induction k arbitrary: v)
  case 0
  then show ?case by (simp add: bitlen_nat.simps)
next
  case (Suc k)
  then have "v div 2 < 2 ^ k" by (simp add: less_mult_imp_div_less mult.commute)
  from Suc.IH [OF this] show ?case by (subst bitlen_nat.simps) simp
qed

section \<open>A number library\<close>

definition mp_make :: "nat \<Rightarrow> hstm_int" where
  "mp_make v = \<lparr>used = int (length (dig 28 v)), hsign = 0, dp = map of_nat (dig 28 v)\<rparr>"

definition ref_lib :: mp_lib where
  "ref_lib =
     \<lparr>mp_count_bits = (\<lambda>a. bitlen_nat (mp_val a)),
      mp_2expt = (\<lambda>k. mp_make (2 ^ nat k)),
      mp_mod = (\<lambda>a b. mp_make (mp_val a mod mp_val b)),
      mp_mulmod = (\<lambda>a b c. mp_make ((mp_val a * mp_val b) mod mp_val c)),
      mp_set = (\<lambda>d. mp_make (unat d)),
      mp_to_unsigned_bin_nr = (\<lambda>a. map of_nat (dig 8 (mp_val a))),
      mp_read_unsigned_bin = (\<lambda>bs. (0, mp_make (le_val (rev bs)))),
      mp_reverse = rev,
      mp_clamp = (\<lambda>a. mp_make (mp_val a)),
      mp_clear = (\<lambda>a. mp_make 0)\<rparr>"

lemma mp_make_ok: "mp_ok (mp_make v)"
proof -
  have "of_nat x < (2 ^ 28 :: u32)" if "x \<in> set (dig 28 v)" for x
    using dig_bound [OF that] by (simp add: word_less_nat_alt unsigned_of_nat take_bit_nat_eq_self)
  then show ?thesis by (auto simp: mp_ok_def mp_make_def)
qed

lemma mp_make_val: "mp_val (mp_make v) = v"
proof -
  have "x < 2 ^ LENGTH(32)" if "x \<in> set (dig 28 v)" for x using dig_bound [OF that] by simp
  then have "horner_sum unat (2 ^ 28) (map of_nat (dig 28 v) :: u32 list) = horner_sum (\<lambda>x. x) (2 ^ 28) (dig 28 v)"
    by (intro horner_of_nat) blast
  then show ?thesis using dig_val [of 28 v] by (simp add: mp_val_def mp_make_def)
qed

lemma bytes_val: "le_val (map of_nat (dig 8 v)) = v"
proof -
  have "x < 2 ^ LENGTH(8)" if "x \<in> set (dig 8 v)" for x using dig_bound [OF that] by simp
  then have "le_val (map of_nat (dig 8 v)) = horner_sum (\<lambda>x. x) 256 (dig 8 v)" by (intro horner_of_nat) blast
  then show ?thesis using dig_val [of 8 v] by simp
qed

lemma bytes_length: "length (dig 8 v) \<le> (bitlen_nat v + 7) div 8"
proof (rule dig_length)
  have "bitlen_nat v \<le> 8 * ((bitlen_nat v + 7) div 8)" by presburger
  then have "(2 :: nat) ^ bitlen_nat v \<le> 2 ^ (8 * ((bitlen_nat v + 7) div 8))" by (intro power_increasing) auto
  then show "v < (2 ^ 8) ^ ((bitlen_nat v + 7) div 8)" using bitlen_bound [of v] by (simp only: power_mult)
qed

interpretation ref_lib: mp_library ref_lib
  by unfold_locales (auto simp: ref_lib_def mp_make_ok mp_make_val bitlen_bound bitlen_least bytes_val bytes_length)

section \<open>A Montgomery multiplier\<close>

fun mont_halve :: "nat \<Rightarrow> nat \<Rightarrow> nat \<Rightarrow> nat" where
  "mont_halve 0 m t = t"
| "mont_halve (Suc k) m t = mont_halve k m ((if even t then t else t + m) div 2)"

lemma mont_halve_mod: "odd m \<Longrightarrow> (mont_halve k m t * 2 ^ k) mod m = t mod m"
proof (induction k arbitrary: t)
  case (Suc k)
  define u where "u = (if even t then t else t + m)"
  have "even u" using Suc.prems by (simp add: u_def)
  then have u: "u div 2 * 2 = u" by simp
  have "(mont_halve k m (u div 2) * 2 ^ k * 2) mod m = (u div 2 * 2) mod m"
    using Suc.IH [OF Suc.prems, of "u div 2"] by (metis mod_mult_left_eq)
  also have "\<dots> = t mod m" by (simp only: u) (simp add: u_def)
  finally show ?case by (simp add: u_def ac_simps)
qed simp

definition words64 :: "nat \<Rightarrow> u32 list" where
  "words64 v = take 64 (map of_nat (dig 32 v) @ replicate 64 0)"

definition ref_product :: "rsa_regs \<Rightarrow> u32 list \<Rightarrow> u32 list \<Rightarrow> u32 list" where
  "ref_product s a b =
     (let m = bufval s (RSAMBUF s) in words64 (mont_halve (32 * unat (RSAN s)) m (bufval s a * bufval s b) mod m))"

definition ref_rsa :: rsa_hw where
  "ref_rsa s =
     (if RSACON s = 0x2c then s\<lparr>RSADBUF := ref_product s (RSAXBUF s) (RSAXBUF s)\<rparr>
      else if RSACON s = 0x20 then s\<lparr>RSAXBUF := ref_product s (RSADBUF s) (RSADBUF s)\<rparr>
      else if RSACON s = 0x24 then s\<lparr>RSADBUF := ref_product s (RSAXBUF s) (RSAYBUF s)\<rparr>
      else if RSACON s = 0x28 then s\<lparr>RSAXBUF := ref_product s (RSAYBUF s) (RSADBUF s)\<rparr> else s)"

lemma words64_val:
  assumes "v < 2 ^ (32 * N)" "N \<le> 64"
  shows "word_val (take N (words64 v)) = v"
proof -
  have l: "length (dig 32 v) \<le> N" using assms(1) by (intro dig_length) (simp add: power_mult)
  have "x < 2 ^ LENGTH(32)" if "x \<in> set (dig 32 v)" for x using dig_bound [OF that] by simp
  then have "word_val (map of_nat (dig 32 v)) = horner_sum (\<lambda>x. x) (2 ^ 32) (dig 32 v)" by (intro horner_of_nat) blast
  then have "word_val (map of_nat (dig 32 v)) = v" using dig_val [of 32 v] by simp
  moreover have "take N (words64 v) = map of_nat (dig 32 v) @ replicate (N - length (dig 32 v)) 0"
    using l assms(2) by (simp add: words64_def min_def)
  ultimately show ?thesis by (simp add: horner_sum_append)
qed

lemma odd_of_inverse:
  assumes "(a :: u32) * b = - 1"
  shows "odd (unat b)"
proof
  assume "even (unat b)"
  then obtain c where "unat b = 2 * c" by (rule evenE)
  then have "(of_nat (unat b) :: u32) = of_nat (2 * c)" by (rule arg_cong)
  then have "b = 2 * of_nat c" by simp
  then have "- 1 = 2 * (a * of_nat c)" using assms by (simp add: ac_simps)
  then have "bit (- 1 :: u32) 0 = bit (2 * (a * of_nat c)) 0" by simp
  then show False by (simp add: bit_double_iff)
qed

lemma modulus_odd:
  assumes "rsa_ready s"
  shows "odd (bufval s (RSAMBUF s))"
proof -
  define k where "k = unat (RSAN s) - 1"
  have k: "unat (RSAN s) = Suc k" using assms by (simp add: k_def rsa_ready_def)
  obtain m0 r where m: "RSAMBUF s = m0 # r" using assms by (cases "RSAMBUF s") (auto simp: rsa_ready_def)
  have "odd (unat m0)" using assms m by (intro odd_of_inverse [of "RSAMC s"]) (simp add: rsa_ready_def)
  then show ?thesis using k m by (simp add: bufval_def)
qed

lemma ref_product_mont: "rsa_ready s \<Longrightarrow> mont_product s a b (ref_product s a b)"
proof -
  assume s: "rsa_ready s"
  define m where "m = bufval s (RSAMBUF s)"
  define N where "N = unat (RSAN s)"
  define v where "v = mont_halve (32 * N) m (bufval s a * bufval s b) mod m"
  have "m < (2 ^ 32) ^ length (take N (RSAMBUF s))"
    unfolding m_def bufval_def N_def using unsigned_less [where ?'b = 32 and ?'a = nat] by (intro horner_less) auto
  then have m: "m < 2 ^ (32 * N)" "0 < m" "odd m"
    using s modulus_odd [OF s] by (auto simp: rsa_ready_def N_def m_def power_mult odd_pos)
  then have "bufval s (words64 v) = v"
    unfolding bufval_def N_def [symmetric] using s
    by (intro words64_val) (auto simp: rsa_ready_def N_def v_def intro: less_trans [OF mod_less_divisor])
  moreover have "(v * 2 ^ (32 * N)) mod m = (bufval s a * bufval s b) mod m"
    unfolding v_def using mont_halve_mod [OF m(3), of "32 * N"] by (simp add: mod_mult_left_eq)
  moreover have "length (words64 v) = 64" by (simp add: words64_def)
  ultimately show ?thesis
    using m(2) by (simp add: mont_product_def ref_product_def Let_def m_def [symmetric] N_def [symmetric] v_def [symmetric]) (simp add: v_def)
qed

interpretation ref_rsa: rsa_unit ref_rsa
  by unfold_locales (auto simp: ref_rsa_def intro: ref_product_mont)

interpretation ref_driver: rsa_driver ref_lib ref_rsa
  by unfold_locales

section \<open>Properties\<close>

text \<open>
  C3: for an odd modulus greater than 1 of at most 2048 bits, \<^verbatim>\<open>tls_crypto_exptmod\<close> returns 0 and the power \<open>a ^ e\<close> modulo \<open>n\<close>, for
  every base and every exponent of at most 32768 bits, the exponent 0 included, and leaves the clock of the unit off.  The bound on the
  exponent is that of the 16-bit index its bits are read with.
\<close>

theorem exptmod_correct:
  assumes "mp_library L" "rsa_unit hw" "mp_ok a" "mp_ok e" "mp_ok n"
    and "odd (mp_val n)" "1 < mp_val n" "mp_count_bits L n \<le> 2048" "mp_count_bits L e \<le> 2 ^ 15"
    and "length (RSAXBUF s) = 64" "length (RSAYBUF s) = 64" "length (RSAMBUF s) = 64" "length (RSADBUF s) = 64"
  shows "\<exists>res' s'. tls_crypto_exptmod L hw a e n res s = Some (0, res', s') \<and> mp_ok res' \<and>
     mp_val res' = (mp_val a ^ mp_val e) mod mp_val n \<and> \<not> rsa_clock s'"
  using assms by (intro rsa_driver.exptmod_value) (auto intro: rsa_driver.intro)

definition rsa_regs_zero :: rsa_regs where
  "rsa_regs_zero = \<lparr>RSAXBUF = replicate 64 0, RSAYBUF = replicate 64 0, RSAMBUF = replicate 64 0, RSADBUF = replicate 64 0,
     RSACON = 0, RSAMC = 0, RSAN = 0, rsa_complete = False, rsa_clock = False\<rparr>"

theorem exptmod_correct_witness:
  "\<exists>res s. tls_crypto_exptmod ref_lib ref_rsa (mp_make 7) (mp_make 5) (mp_make 35) (mp_make 0) rsa_regs_zero = Some (0, res, s) \<and>
     mp_ok res \<and> mp_val res = 7 \<and> \<not> rsa_clock s"
proof -
  have "bitlen_nat 35 \<le> 2048" "bitlen_nat 5 \<le> 3" by (rule bitlen_least; simp)+
  then have "bitlen_nat 35 \<le> 2048" "bitlen_nat 5 \<le> 2 ^ 15" by simp_all
  then show ?thesis
    using exptmod_correct [OF ref_lib.mp_library_axioms ref_rsa.rsa_unit_axioms mp_make_ok mp_make_ok mp_make_ok,
      of 35 5 rsa_regs_zero 7 "mp_make 0"]
    by (simp add: mp_make_val rsa_regs_zero_def ref_lib_def)
qed

end
