(* ===== verification/Crypto_Cipher.thy ===== *)
theory Crypto_Cipher
  imports Crypto_Rsa
begin

text \<open>
  The ciphers and the random numbers of \<^verbatim>\<open>platform/common/crypto/wm_crypto_hard.c\<close>.

  \<open>gpsec\<close> is the register file of the GPSEC unit, by offset from its base address, with its clock and the flag its
  interrupt sets.  The unit itself is the parameter \<open>eng\<close>: what it delivers for a register file and a source buffer; the
  driver waits for its interrupt.  Contexts hold the bytes the driver copies into them.  The lock around an operation is
  left out, since operations are atomic here.
\<close>

section \<open>Model\<close>

record gpsec =
  sec_reg :: "nat \<Rightarrow> u32"
  gpsec_clock :: bool
  gpsec_complete :: bool
  gpsec_lock :: bool

type_synonym gpsec_engine = "(nat \<Rightarrow> u32) \<Rightarrow> u8 list \<Rightarrow> u8 list"

abbreviation HR_SEC_CFG :: nat where "HR_SEC_CFG \<equiv> 0x08"
abbreviation HR_SEC_CTRL :: nat where "HR_SEC_CTRL \<equiv> 0x0C"
abbreviation HR_KEY0 :: nat where "HR_KEY0 \<equiv> 0x10"
abbreviation HR_KEY6 :: nat where "HR_KEY6 \<equiv> 0x4c"
abbreviation HR_KEY7 :: nat where "HR_KEY7 \<equiv> 0x50"
abbreviation HR_IV0 :: nat where "HR_IV0 \<equiv> 0x28"
abbreviation HR_IV1 :: nat where "HR_IV1 \<equiv> 0x20"
abbreviation HR_SEC_STS :: nat where "HR_SEC_STS \<equiv> 0x30"
abbreviation HR_TRNG_CR :: nat where "HR_TRNG_CR \<equiv> 0x54"

abbreviation ERR_CRY_OK :: int where "ERR_CRY_OK \<equiv> 0"
abbreviation ERR_FAILURE :: int where "ERR_FAILURE \<equiv> - 1"

definition sec_write :: "nat \<Rightarrow> u32 \<Rightarrow> gpsec \<Rightarrow> gpsec" where
  "sec_write a v s = s\<lparr>sec_reg := (sec_reg s)(a := v)\<rparr>"

definition CRYPTION_IRQHandler :: "gpsec \<Rightarrow> gpsec" where
  "CRYPTION_IRQHandler s = (sec_write HR_SEC_STS 0x10000 s)\<lparr>gpsec_complete := True\<rparr>"

text \<open>\<^verbatim>\<open>tls_crypto_init\<close>: the outcome of creating the semaphore is an argument; the result names the enabled interrupts.\<close>

definition tls_crypto_init :: "bool \<Rightarrow> gpsec \<Rightarrow> int \<times> bool \<times> gpsec" where
  "tls_crypto_init created s =
     (if gpsec_lock s then (0, False, s)
      else if \<not> created then (- 1, False, s)
      else (0, True, s\<lparr>gpsec_lock := True\<rparr>))"

fun key_words :: "u8 list \<Rightarrow> nat \<Rightarrow> nat \<Rightarrow> gpsec \<Rightarrow> gpsec" where
  "key_words key 0 i s = s"
| "key_words key (Suc n) i s = key_words key n (Suc i) (sec_write (HR_KEY0 + 4 * i) (get32 key (4 * i)) s)"

definition tls_crypto_set_key :: "u8 list \<Rightarrow> nat \<Rightarrow> gpsec \<Rightarrow> gpsec" where
  "tls_crypto_set_key key keylen s =
     (let s = key_words key (min (keylen div 4) 6) 0 s
      in if keylen = 32 then sec_write HR_KEY7 (get32 key 28) (sec_write HR_KEY6 (get32 key 24) s) else s)"

definition tls_crypto_set_iv :: "u8 list \<Rightarrow> nat \<Rightarrow> gpsec \<Rightarrow> gpsec" where
  "tls_crypto_set_iv iv ivlen s =
     (let s = (if ivlen \<ge> 8 then sec_write (HR_IV0 + 4) (get32 iv 4) (sec_write HR_IV0 (get32 iv 0) s) else s)
      in if ivlen = 16 then sec_write (HR_IV1 + 4) (get32 iv 12) (sec_write HR_IV1 (get32 iv 8) s) else s)"

text \<open>Starting the unit and waiting: the destination receives what the unit delivers.\<close>

definition sec_run :: "gpsec_engine \<Rightarrow> u32 \<Rightarrow> u8 list \<Rightarrow> u8 list \<Rightarrow> gpsec \<Rightarrow> u8 list \<times> gpsec" where
  "sec_run eng cfg src dst s =
     (let s = (sec_write HR_SEC_CFG cfg s)\<lparr>gpsec_complete := False\<rparr>;
          s = sec_write HR_SEC_CTRL 1 s;
          dst = overlay dst 0 (eng (sec_reg s) src);
          s = CRYPTION_IRQHandler s
      in (dst, s\<lparr>gpsec_complete := False, gpsec_clock := False\<rparr>))"

text \<open>\<^verbatim>\<open>psArc4_t\<close>\<close>

record psArc4 =
  arc4_state :: "u8 list"
  byteCount :: u32

definition tls_crypto_rc4_init :: "psArc4 \<Rightarrow> u8 list \<Rightarrow> u32 \<Rightarrow> int \<times> psArc4" where
  "tls_crypto_rc4_init ctx key keylen =
     (if keylen \<noteq> 16 \<and> keylen \<noteq> 32 then (ERR_FAILURE, ctx)
      else (ERR_CRY_OK, ctx\<lparr>arc4_state := overlay (arc4_state ctx) 0 (take (unat keylen) key), byteCount := keylen\<rparr>))"

definition tls_crypto_rc4 ::
  "gpsec_engine \<Rightarrow> psArc4 \<Rightarrow> u8 list \<Rightarrow> u8 list \<Rightarrow> u32 \<Rightarrow> gpsec \<Rightarrow> int \<times> u8 list \<times> gpsec" where
  "tls_crypto_rc4 eng ctx src dst len s =
     (let s = tls_crypto_set_key (arc4_state ctx) (unat (byteCount ctx)) (s\<lparr>gpsec_clock := True\<rparr>);
          cfg = push_bit 16 1 OR push_bit 25 1 OR (len AND 0xFFFF);
          cfg = (if byteCount ctx = 32 then cfg OR push_bit 31 1 else cfg);
          (dst, s) = sec_run eng cfg src dst s
      in (ERR_CRY_OK, dst, s))"

text \<open>\<^verbatim>\<open>psAesCbc_t\<close>\<close>

record psAesCbc =
  skey :: "u8 list"
  aes_rounds :: nat
  aes_type :: u16
  aes_IV :: "u8 list"

definition tls_crypto_aes_init :: "psAesCbc \<Rightarrow> u8 list option \<Rightarrow> u8 list \<Rightarrow> u32 \<Rightarrow> u16 \<Rightarrow> int \<times> psAesCbc" where
  "tls_crypto_aes_init ctx IV key keylen cbc =
     (if keylen \<noteq> 16 then (ERR_FAILURE, ctx)
      else
        (let ctx = ctx\<lparr>skey := overlay (skey ctx) 0 (take 16 key), aes_type := cbc, aes_rounds := 16\<rparr>
         in (ERR_CRY_OK,
             (case IV of None \<Rightarrow> ctx | Some iv \<Rightarrow> ctx\<lparr>aes_IV := overlay (aes_IV ctx) 0 (take (aes_rounds ctx) iv)\<rparr>))))"

definition block_cfg :: "u32 \<Rightarrow> nat \<Rightarrow> u32 \<Rightarrow> u32 \<Rightarrow> u32 \<Rightarrow> u32" where
  "block_cfg meth reset dec cbc len =
     push_bit 16 meth OR push_bit reset 1 OR push_bit 20 dec OR push_bit 21 cbc OR (len AND 0xFFFF)"

definition tls_crypto_aes_encrypt_decrypt ::
  "gpsec_engine \<Rightarrow> psAesCbc \<Rightarrow> u8 list \<Rightarrow> u8 list \<Rightarrow> u32 \<Rightarrow> u32 \<Rightarrow> gpsec \<Rightarrow> int \<times> u8 list \<times> gpsec" where
  "tls_crypto_aes_encrypt_decrypt eng ctx src dst len dec s =
     (let cbc = ucast (aes_type ctx AND 0xFF);
          s = tls_crypto_set_key (skey ctx) 16 (s\<lparr>gpsec_clock := True\<rparr>);
          s = tls_crypto_set_iv (aes_IV ctx) 16 s;
          (dst, s) = sec_run eng (block_cfg 3 26 dec cbc len) src dst s
      in (ERR_CRY_OK, dst, s))"

text \<open>\<^verbatim>\<open>psDes3_t\<close>, used for DES and triple DES; \<open>des_mode\<close> is \<^verbatim>\<open>ek[1][0]\<close>.\<close>

record psDes3 =
  ek0 :: "u8 list"
  des_mode :: u32
  des_blocklen :: nat
  des_IV :: "u8 list"

definition des_setup :: "psDes3 \<Rightarrow> u8 list option \<Rightarrow> u8 list \<Rightarrow> nat \<Rightarrow> u32 \<Rightarrow> psDes3" where
  "des_setup ctx IV key keylen cbc =
     (let ctx = ctx\<lparr>ek0 := overlay (ek0 ctx) 0 (take keylen key), des_mode := cbc, des_blocklen := 8\<rparr>
      in case IV of None \<Rightarrow> ctx | Some iv \<Rightarrow> ctx\<lparr>des_IV := overlay (des_IV ctx) 0 (take (des_blocklen ctx) iv)\<rparr>)"

definition tls_crypto_3des_init :: "psDes3 \<Rightarrow> u8 list option \<Rightarrow> u8 list \<Rightarrow> u32 \<Rightarrow> u32 \<Rightarrow> int \<times> psDes3" where
  "tls_crypto_3des_init ctx IV key keylen cbc =
     (if keylen \<noteq> 24 then (ERR_FAILURE, ctx) else (ERR_CRY_OK, des_setup ctx IV key 24 cbc))"

definition tls_crypto_des_init :: "psDes3 \<Rightarrow> u8 list option \<Rightarrow> u8 list \<Rightarrow> u32 \<Rightarrow> u32 \<Rightarrow> int \<times> psDes3" where
  "tls_crypto_des_init ctx IV key keylen cbc =
     (if keylen \<noteq> 8 then (ERR_FAILURE, ctx) else (ERR_CRY_OK, des_setup ctx IV key 8 cbc))"

definition des_run ::
  "u32 \<Rightarrow> nat \<Rightarrow> gpsec_engine \<Rightarrow> psDes3 \<Rightarrow> u8 list \<Rightarrow> u8 list \<Rightarrow> u32 \<Rightarrow> u32 \<Rightarrow> gpsec \<Rightarrow> int \<times> u8 list \<times> gpsec" where
  "des_run meth keylen eng ctx src dst len dec s =
     (let s = tls_crypto_set_key (ek0 ctx) keylen (s\<lparr>gpsec_clock := True\<rparr>);
          s = tls_crypto_set_iv (des_IV ctx) 8 s;
          (dst, s) = sec_run eng (block_cfg meth 27 dec (des_mode ctx AND 0xFF) len) src dst s
      in (ERR_CRY_OK, dst, s))"

definition tls_crypto_3des_encrypt_decrypt ::
  "gpsec_engine \<Rightarrow> psDes3 \<Rightarrow> u8 list \<Rightarrow> u8 list \<Rightarrow> u32 \<Rightarrow> u32 \<Rightarrow> gpsec \<Rightarrow> int \<times> u8 list \<times> gpsec" where
  "tls_crypto_3des_encrypt_decrypt = des_run 5 24"

definition tls_crypto_des_encrypt_decrypt ::
  "gpsec_engine \<Rightarrow> psDes3 \<Rightarrow> u8 list \<Rightarrow> u8 list \<Rightarrow> u32 \<Rightarrow> u32 \<Rightarrow> gpsec \<Rightarrow> int \<times> u8 list \<times> gpsec" where
  "tls_crypto_des_encrypt_decrypt = des_run 4 8"

subsection \<open>Random numbers\<close>

text \<open>
  The driver is built for the true random number generator.  What the result register reads is a stream, an argument; the
  operations return the bytes they store and the rest of the stream.
\<close>

definition TRNG_START :: u32 where
  "TRNG_START = push_bit 6 1 OR push_bit 3 4 OR push_bit 1 1 OR push_bit 0 1"

definition tls_crypto_random_init :: "gpsec \<Rightarrow> int \<times> gpsec" where
  "tls_crypto_random_init s =
     (ERR_CRY_OK,
      sec_write HR_TRNG_CR (TRNG_START AND NOT (push_bit 6 1)) (s\<lparr>gpsec_clock := True, gpsec_complete := False\<rparr>))"

definition tls_crypto_random_stop :: "gpsec \<Rightarrow> int \<times> gpsec" where
  "tls_crypto_random_stop s =
     (ERR_CRY_OK, (sec_write HR_TRNG_CR 0x40 s)\<lparr>gpsec_complete := False, gpsec_clock := False\<rparr>)"

function random_fill :: "nat \<Rightarrow> (nat \<Rightarrow> u32) \<Rightarrow> nat \<Rightarrow> u8 list \<times> nat" where
  "random_fill inLen rng i =
     (if inLen = 0 then ([], i)
      else if inLen \<ge> 4 then (let (bs, j) = random_fill (inLen - 4) rng (Suc i) in (le32 (rng i) @ bs, j))
      else (take inLen (le32 (rng i)), Suc i))"
  by pat_completeness auto
termination by (relation "measure (\<lambda>(n, r, i). n)") auto

declare random_fill.simps [simp del]

definition tls_crypto_random_bytes :: "u32 \<Rightarrow> (nat \<Rightarrow> u32) \<Rightarrow> gpsec \<Rightarrow> int \<times> u8 list \<times> gpsec" where
  "tls_crypto_random_bytes len rng s =
     (ERR_CRY_OK, fst (random_fill (unat len) rng 0), (if len = 0 then s else s\<lparr>gpsec_complete := False\<rparr>))"

definition tls_crypto_trng :: "u32 \<Rightarrow> (nat \<Rightarrow> u32) \<Rightarrow> gpsec \<Rightarrow> int \<times> u8 list \<times> gpsec" where
  "tls_crypto_trng len rng s =
     (let s = sec_write HR_TRNG_CR TRNG_START (s\<lparr>gpsec_clock := True\<rparr>);
          s = sec_write HR_TRNG_CR (TRNG_START AND NOT (push_bit 6 1)) s;
          bs = fst (random_fill (unat len) rng 0);
          s = (if len = 0 then s else s\<lparr>gpsec_complete := False\<rparr>);
          s = (sec_write HR_TRNG_CR 0x40 s)\<lparr>gpsec_clock := False\<rparr>
      in (ERR_CRY_OK, bs, s))"

text \<open>A remainder by zero is \<open>None\<close>; it is taken only when a byte is stored.\<close>

definition tls_crypto_random_bytes_range :: "u32 \<Rightarrow> u32 \<Rightarrow> (nat \<Rightarrow> u32) \<Rightarrow> (int \<times> u8 list) option" where
  "tls_crypto_random_bytes_range len rg rng =
     (if rg = 0 \<and> len \<noteq> 0 then None
      else Some (ERR_CRY_OK, map (\<lambda>i. ucast (rng i mod rg)) [0..<unat len]))"

section \<open>What the unit is given\<close>

lemma sec_reg_write [simp]: "sec_reg (sec_write a v s) = (sec_reg s)(a := v)"
  by (simp add: sec_write_def)

lemma key_words_reg:
  "sec_reg (key_words key n i s) a =
     (if (\<exists>j < n. a = HR_KEY0 + 4 * (i + j)) then get32 key (a - HR_KEY0) else sec_reg s a)"
proof (induction n arbitrary: i s)
  case (Suc n)
  have "(\<exists>j < Suc n. a = HR_KEY0 + 4 * (i + j)) \<longleftrightarrow> a = HR_KEY0 + 4 * i \<or> (\<exists>j < n. a = HR_KEY0 + 4 * (Suc i + j))"
    by (metis (no_types, opaque_lifting) add.right_neutral add_Suc_shift less_Suc_eq_0_disj)
  then show ?case using Suc.IH [of "Suc i" "sec_write (HR_KEY0 + 4 * i) (get32 key (4 * i)) s"] by auto
qed simp

text \<open>The unit's view of a context: the words of the key, of the vector and the configuration.\<close>

definition sees :: "(nat \<Rightarrow> u32) \<Rightarrow> u8 list \<Rightarrow> nat \<Rightarrow> bool" where
  "sees r key n \<longleftrightarrow> (\<forall>i < n. r (if i < 6 then HR_KEY0 + 4 * i else HR_KEY6 + 4 * (i - 6)) = get32 key (4 * i))"

lemma sees_key:
  assumes "n = 8 \<or> n = 16 \<or> n = 24 \<or> n = 32"
  shows "sees (sec_reg (tls_crypto_set_key key n s)) key (n div 4)"
  unfolding sees_def
proof (intro allI impI)
  fix i assume "i < n div 4"
  then consider "i < 6" "i < min (n div 4) 6" | "i = 6" "n = 32" | "i = 7" "n = 32" using assms by fastforce
  then show "sec_reg (tls_crypto_set_key key n s) (if i < 6 then HR_KEY0 + 4 * i else HR_KEY6 + 4 * (i - 6)) = get32 key (4 * i)"
  proof cases
    case 1
    then have "\<exists>j < min (n div 4) 6. HR_KEY0 + 4 * i = HR_KEY0 + 4 * (0 + j)" by auto
    then show ?thesis using 1 by (auto simp: tls_crypto_set_key_def key_words_reg Let_def)
  qed (auto simp: tls_crypto_set_key_def key_words_reg Let_def)
qed

lemma set_iv_other: "a \<notin> {0x20, 0x24, 0x28, 0x2c} \<Longrightarrow> sec_reg (tls_crypto_set_iv iv n s) a = sec_reg s a"
  by (auto simp: tls_crypto_set_iv_def Let_def)

lemma sec_run_view:
  "\<exists>r s'. sec_run eng cfg src dst s = (overlay dst 0 (eng r src), s') \<and> r HR_SEC_CFG = cfg \<and>
     (\<forall>a. a \<noteq> HR_SEC_CFG \<and> a \<noteq> HR_SEC_CTRL \<longrightarrow> r a = sec_reg s a) \<and> \<not> gpsec_clock s' \<and> \<not> gpsec_complete s'"
  by (auto simp: sec_run_def Let_def CRYPTION_IRQHandler_def)

lemma sees_cong: "sees r key n \<Longrightarrow> n \<le> 8 \<Longrightarrow> (\<And>a. a \<noteq> HR_SEC_CFG \<Longrightarrow> a \<noteq> HR_SEC_CTRL \<Longrightarrow> r' a = r a) \<Longrightarrow> sees r' key n"
  by (auto simp: sees_def)

text \<open>
  AES uses the registers of the fifth and sixth key word for the second half of the vector, triple DES for the key: neither
  overwrites the other.
\<close>

lemma aes_view:
  "\<exists>r s'. tls_crypto_aes_encrypt_decrypt eng ctx src dst len dec s = (0, overlay dst 0 (eng r src), s') \<and>
     sees r (skey ctx) 4 \<and> map r [0x28, 0x2c, 0x20, 0x24] = map (get32 (aes_IV ctx)) [0, 4, 8, 12] \<and>
     r HR_SEC_CFG = block_cfg 3 26 dec (ucast (aes_type ctx AND 0xFF)) len \<and> \<not> gpsec_clock s'"
proof -
  define s1 where "s1 = tls_crypto_set_key (skey ctx) 16 (s\<lparr>gpsec_clock := True\<rparr>)"
  define s2 where "s2 = tls_crypto_set_iv (aes_IV ctx) 16 s1"
  have "sees (sec_reg s1) (skey ctx) 4" unfolding s1_def using sees_key [of 16] by simp
  then have k: "sees (sec_reg s2) (skey ctx) 4" by (auto simp: sees_def s2_def set_iv_other)
  have v: "map (sec_reg s2) [0x28, 0x2c, 0x20, 0x24] = map (get32 (aes_IV ctx)) [0, 4, 8, 12]"
    by (simp add: s2_def tls_crypto_set_iv_def Let_def)
  obtain r s' where "sec_run eng (block_cfg 3 26 dec (ucast (aes_type ctx AND 0xFF)) len) src dst s2 = (overlay dst 0 (eng r src), s')"
    and c: "r HR_SEC_CFG = block_cfg 3 26 dec (ucast (aes_type ctx AND 0xFF)) len" "\<not> gpsec_clock s'"
    and r: "\<forall>a. a \<noteq> HR_SEC_CFG \<and> a \<noteq> HR_SEC_CTRL \<longrightarrow> r a = sec_reg s2 a" using sec_run_view by blast
  then have "tls_crypto_aes_encrypt_decrypt eng ctx src dst len dec s = (0, overlay dst 0 (eng r src), s')"
    by (simp add: tls_crypto_aes_encrypt_decrypt_def Let_def s1_def s2_def)
  moreover have "sees r (skey ctx) 4" using r by (intro sees_cong [OF k]) auto
  ultimately show ?thesis using v c r by auto
qed

lemma des_view:
  assumes "keylen = 8 \<or> keylen = 24"
  shows "\<exists>r s'. des_run meth keylen eng ctx src dst len dec s = (0, overlay dst 0 (eng r src), s') \<and>
     sees r (ek0 ctx) (keylen div 4) \<and> map r [0x28, 0x2c] = map (get32 (des_IV ctx)) [0, 4] \<and>
     r HR_SEC_CFG = block_cfg meth 27 dec (des_mode ctx AND 0xFF) len \<and> \<not> gpsec_clock s'"
proof -
  define s1 where "s1 = tls_crypto_set_key (ek0 ctx) keylen (s\<lparr>gpsec_clock := True\<rparr>)"
  define s2 where "s2 = tls_crypto_set_iv (des_IV ctx) 8 s1"
  have "sees (sec_reg s1) (ek0 ctx) (keylen div 4)" unfolding s1_def using sees_key [of keylen] assms by auto
  then have k: "sees (sec_reg s2) (ek0 ctx) (keylen div 4)"
    using assms by (auto simp: sees_def s2_def tls_crypto_set_iv_def Let_def)
  have v: "map (sec_reg s2) [0x28, 0x2c] = map (get32 (des_IV ctx)) [0, 4]"
    by (simp add: s2_def tls_crypto_set_iv_def Let_def)
  obtain r s' where "sec_run eng (block_cfg meth 27 dec (des_mode ctx AND 0xFF) len) src dst s2 = (overlay dst 0 (eng r src), s')"
    and c: "r HR_SEC_CFG = block_cfg meth 27 dec (des_mode ctx AND 0xFF) len" "\<not> gpsec_clock s'"
    and r: "\<forall>a. a \<noteq> HR_SEC_CFG \<and> a \<noteq> HR_SEC_CTRL \<longrightarrow> r a = sec_reg s2 a" using sec_run_view by blast
  then have "des_run meth keylen eng ctx src dst len dec s = (0, overlay dst 0 (eng r src), s')"
    by (simp add: des_run_def Let_def s1_def s2_def)
  moreover have "sees r (ek0 ctx) (keylen div 4)" using r assms by (intro sees_cong [OF k]) auto
  ultimately show ?thesis using v c r by auto
qed

text \<open>Only the low 16 bits of a length reach the unit: of 65536 bytes none are processed, and the call still succeeds.\<close>

lemma cfg_length: "16 \<le> reset \<Longrightarrow> block_cfg meth reset dec cbc len AND 0xFFFF = len AND 0xFFFF"
proof (rule bit_word_eqI)
  fix i assume "16 \<le> reset" "i < LENGTH(32)"
  have m: "(0xFFFF :: u32) = mask 16" by (simp add: mask_eq_exp_minus_1)
  show "bit (block_cfg meth reset dec cbc len AND 0xFFFF) i = bit (len AND 0xFFFF) i"
    using \<open>16 \<le> reset\<close> unfolding m block_cfg_def by (auto simp: bit_simps)
qed

lemma cipher_length_wraps:
  "\<exists>r s'. tls_crypto_aes_encrypt_decrypt eng ctx src dst 0x10000 dec s = (0, overlay dst 0 (eng r src), s') \<and>
     r HR_SEC_CFG AND 0xFFFF = 0"
  using aes_view [of eng ctx src dst "0x10000" dec s] cfg_length [of 26 3 dec _ "0x10000"] by auto

text \<open>Random bytes: exactly the requested number, four from each result.\<close>

lemma random_fill_bytes: "fst (random_fill n rng i) = take n (concat (map (\<lambda>j. le32 (rng (i + j))) [0..<n]))"
proof (induction n arbitrary: i rule: less_induct)
  case (less n)
  have u: "0 < n \<Longrightarrow> concat (map (\<lambda>j. le32 (rng (i + j))) [0..<n]) =
      le32 (rng i) @ concat (map (\<lambda>j. le32 (rng (Suc i + j))) [0..<n - 1])"
    by (cases n) (simp_all add: upt_conv_Cons map_Suc_upt [symmetric] comp_def del: upt_Suc)
  show ?case
  proof (cases "n < 4")
    case True
    then show ?thesis using u by (cases "n = 0") (simp_all add: random_fill.simps)
  next
    case False
    have "take (n - 4) (concat (map (\<lambda>j. le32 (rng (Suc i + j))) [0..<n - 4])) =
        take (n - 4) (concat (map (\<lambda>j. le32 (rng (Suc i + j))) [0..<n - 1]))"
    proof -
      have "[0..<n - 1] = [0..<n - 4] @ [n - 4..<n - 1]" 
      proof -
        have "n - 4 + 3 = n - 1" using False by simp
        then show ?thesis using upt_add_eq_append [OF le0, of "n - 4" 3] by (simp only:)
      qed
      moreover have "n - 4 \<le> length (concat (map (\<lambda>j. le32 (rng (Suc i + j))) [0..<n - 4]))"
        by (simp add: length_concat comp_def sum_list_triv)
      ultimately show ?thesis by simp
    qed
    then show ?thesis
      using False u less.IH [of "n - 4" "Suc i"] by (subst random_fill.simps) (auto simp: Let_def split: prod.splits)
  qed
qed

lemma random_bytes_length: "length (fst (snd (tls_crypto_trng len rng s))) = unat len"
  by (simp add: tls_crypto_trng_def Let_def random_fill_bytes length_concat comp_def sum_list_triv)

lemma random_range_bounds:
  assumes "tls_crypto_random_bytes_range len rg rng = Some (rc, bs)" "rg \<le> 256"
  shows "length bs = unat len \<and> (\<forall>b \<in> set bs. unat b < unat rg)"
proof -
  have "unat (ucast (x mod rg) :: u8) < unat rg" if "rg \<noteq> 0" for x
  proof -
    have "unat (x mod rg) < unat rg" using that by (simp add: unat_mod unat_gt_0)
    moreover have "unat rg \<le> 256" using assms(2) by (simp add: word_le_nat_alt)
    ultimately show ?thesis by (simp add: unsigned_ucast_eq take_bit_nat_eq_self)
  qed
  then show ?thesis using assms(1) by (auto simp: tls_crypto_random_bytes_range_def split: if_splits)
qed

end
