(* ===== verification/Gpio_Correct.thy ===== *)
theory Gpio_Correct
  imports Gpio
begin

text \<open>
  Interrupts of pins.  Each interrupt of a port serves its lowest pending pin.  When the pending pins were set up through the
  runtime, as many interrupts as there are pending pins serve them all, in ascending order, each once.
\<close>

section \<open>Configuration and levels\<close>

lemma gput_more [simp]:
  "gpio_context (gput r v n s) = gpio_context s" "gpio_isr_cb (gput r v n s) = gpio_isr_cb s"
  "gpio_irqs (gput r v n s) = gpio_irqs s" "gpio_calls (gput r v n s) = gpio_calls s"
  by (simp_all add: gput_def Let_def)

lemma gbit_more [simp]:
  "gbit r m (s\<lparr>gpio_context := a\<rparr>) = gbit r m s" "gbit r m (s\<lparr>gpio_isr_cb := b\<rparr>) = gbit r m s"
  "gbit r m (s\<lparr>gpio_irqs := c\<rparr>) = gbit r m s" "gbit r m (s\<lparr>gpio_calls := d\<rparr>) = gbit r m s"
  by (simp_all add: gbit_def)

lemma cfg_set5_more [simp]:
  "gpio_context (tls_io_cfg_set n 5 s) = gpio_context s" "gpio_isr_cb (tls_io_cfg_set n 5 s) = gpio_isr_cb s"
  "gpio_irqs (tls_io_cfg_set n 5 s) = gpio_irqs s" "gpio_calls (tls_io_cfg_set n 5 s) = gpio_calls s"
  by (simp_all add: io_cfg_option5_def io_floating_def)

lemma gpio_cfg_more [simp]:
  "gpio_context (tls_gpio_cfg n d a s) = gpio_context s" "gpio_isr_cb (tls_gpio_cfg n d a s) = gpio_isr_cb s"
  "gpio_irqs (tls_gpio_cfg n d a s) = gpio_irqs s" "gpio_calls (tls_gpio_cfg n d a s) = gpio_calls s"
  by (simp_all add: tls_gpio_cfg_def Let_def io_cfg_option5_def io_floating_def split: gpio_dir.splits gpio_attr.splits)

text \<open>A configured pin has the requested direction and pulls; other pins, and other registers, keep theirs.\<close>

lemma gpio_cfg_bits:
  assumes "n \<le> WM_IO_PB_31"
  shows "\<not> gbit GPIO_AF_SEL n (tls_gpio_cfg n d a s)"
    "gbit GPIO_DIR n (tls_gpio_cfg n d a s) = (d = WM_GPIO_DIR_OUTPUT)"
    "gbit GPIO_PULLUP_EN n (tls_gpio_cfg n d a s) = (a \<noteq> WM_GPIO_ATTR_PULLHIGH)"
    "gbit GPIO_PULLDOWN_EN n (tls_gpio_cfg n d a s) = (a = WM_GPIO_ATTR_PULLLOW)"
  using assms by (cases d; cases a; simp add: tls_gpio_cfg_def Let_def io_cfg_option5_def io_floating_def)+

lemma gpio_cfg_frame:
  assumes "n \<le> WM_IO_PB_31" "m \<noteq> n \<or> r \<notin> {GPIO_AF_SEL, GPIO_DIR, GPIO_PULLUP_EN, GPIO_PULLDOWN_EN}"
  shows "gbit r m (tls_gpio_cfg n d a s) = gbit r m s"
  using assms(2)
proof
  assume "m \<noteq> n"
  then show ?thesis
    using assms(1) by (cases d; cases a; simp add: tls_gpio_cfg_def Let_def io_cfg_option5_def io_floating_def)
next
  assume "r \<notin> {GPIO_AF_SEL, GPIO_DIR, GPIO_PULLUP_EN, GPIO_PULLDOWN_EN}"
  then show ?thesis
    using assms(1) by (cases d; cases a; simp add: tls_gpio_cfg_def Let_def io_cfg_option5_def io_floating_def)
qed

lemma gpio_set_get:
  assumes "0 \<le> pin" "pin \<le> 47"
  shows "luat_gpio_get p (snd (luat_gpio_set pin level s)) =
     (if p = pin then (if (of_int level :: u8) \<noteq> 0 then 1 else 0) else luat_gpio_get p s)"
  using assms by (auto simp: luat_gpio_get_def luat_gpio_set_def tls_gpio_read_def tls_gpio_write_def)

section \<open>Serving interrupts\<close>

definition port_pins :: "bool \<Rightarrow> nat list" where
  "port_pins b = (if b then [16..<48] else [0..<16])"

definition gpio_irq :: "bool \<Rightarrow> 'a gpio_state_scheme \<Rightarrow> 'a gpio_state_scheme option" where
  "gpio_irq b s = (if b then GPIOB_IRQHandler s else GPIOA_IRQHandler s)"

fun gpio_irq_times :: "bool \<Rightarrow> nat \<Rightarrow> 'a gpio_state_scheme \<Rightarrow> 'a gpio_state_scheme option" where
  "gpio_irq_times b 0 s = Some s"
| "gpio_irq_times b (Suc n) s = Option.bind (gpio_irq b s) (gpio_irq_times b n)"

definition pending :: "bool \<Rightarrow> 'a gpio_state_scheme \<Rightarrow> nat list" where
  "pending b s = filter (\<lambda>i. gbit GPIO_RIS i s \<and> gbit GPIO_IE i s) (port_pins b)"

definition pin_call :: "'a gpio_state_scheme \<Rightarrow> nat \<Rightarrow> gpio_call" where
  "pin_call s i = (case gpio_isr_cb s i of Some (cb, args) \<Rightarrow> Call_irq cb i args | None \<Rightarrow> Call_default i (gbit GPIO_DATA i s))"

lemma port_pins_port: "i \<in> set (port_pins b) \<Longrightarrow> io_port i = b \<and> i \<le> WM_IO_PB_31"
  by (auto simp: port_pins_def io_port_def split: if_splits)

lemma mis_bit: "io_port i = b \<Longrightarrow> gpio_mis b s AND pin_bit i \<noteq> 0 \<longleftrightarrow> gbit GPIO_RIS i s \<and> gbit GPIO_IE i s"
  unfolding gbit_def pin_bit_test gpio_mis_def by (simp add: bit_and_iff)

lemma first_pending_hd: "first_pending (port_pins b) (gpio_mis b s) = (case pending b s of [] \<Rightarrow> None | i # _ \<Rightarrow> Some i)"
proof -
  have "find P xs = (case filter P xs of [] \<Rightarrow> None | i # _ \<Rightarrow> Some i)" for P and xs :: "nat list"
    by (induction xs) auto
  moreover have "filter (\<lambda>i. gpio_mis b s AND pin_bit i \<noteq> 0) (port_pins b) = pending b s"
    unfolding pending_def by (rule filter_cong [OF refl]) (use mis_bit port_pins_port in blast)
  ultimately show ?thesis by (simp add: first_pending_def)
qed

lemma gpio_irq_eq: "gpio_irq b s = gpio_dispatch (case pending b s of [] \<Rightarrow> None | i # _ \<Rightarrow> Some i) s"
  using first_pending_hd [of b s] by (auto simp: gpio_irq_def GPIOA_IRQHandler_def GPIOB_IRQHandler_def port_pins_def)

text \<open>A pin without a callback is not cleared: nothing on its port above it is served any more.\<close>

lemma gpio_irq_blocked:
  assumes "pending b s = i # js" "gpio_context s i = None"
  shows "gpio_irq_times b n s = Some s"
  using assms by (induction n) (simp_all add: gpio_irq_eq gpio_dispatch_def)

lemma pending_clear:
  assumes "pending b s = i # js"
  shows "pending b (tls_clr_gpio_irq_status i s) = js"
proof -
  have "distinct (port_pins b)" by (simp add: port_pins_def)
  then have d: "distinct (i # js)" using assms by (metis distinct_filter pending_def)
  have "i \<in> set (pending b s)" using assms by simp
  then have i: "i \<le> WM_IO_PB_31" using port_pins_port [of i b] by (simp add: pending_def)
  moreover have "pending b (tls_clr_gpio_irq_status i s) = filter (\<lambda>j. j \<noteq> i) (pending b s)"
    unfolding pending_def filter_filter using i by (intro filter_cong) (auto simp: tls_clr_gpio_irq_status_def)
  moreover have "filter (\<lambda>j. j \<noteq> i) js = js" using d by (intro filter_True) auto
  ultimately show ?thesis using assms by simp
qed

lemma gpio_irq_step:
  assumes "pending b s = i # js" "gpio_context s i = Some (Luat_gpio_irq_callback, i)" "i < WM_IO_PB_31"
  shows "gpio_irq b s = Some (tls_clr_gpio_irq_status i (s\<lparr>gpio_calls := gpio_calls s @ [pin_call s i]\<rparr>))"
proof -
  have "i \<in> set (pending b s)" using assms(1) by simp
  then have "gbit GPIO_RIS i s" by (simp add: pending_def)
  then show ?thesis
    using assms
    by (simp add: gpio_irq_eq gpio_dispatch_def luat_gpio_irq_callback_def tls_get_gpio_irq_status_def isr_entry_def
        pin_call_def tls_gpio_read_def split: option.splits)
qed

lemma gpio_irqs_serve:
  assumes "\<forall>i \<in> set (pending b s). i < WM_IO_PB_31 \<and> gpio_context s i = Some (Luat_gpio_irq_callback, i)"
  shows "\<exists>s'. gpio_irq_times b (length (pending b s)) s = Some s' \<and> gpio_calls s' = gpio_calls s @ map (pin_call s) (pending b s) \<and>
     pending b s' = [] \<and> (\<forall>r m. r \<noteq> GPIO_RIS \<or> m \<notin> set (pending b s) \<longrightarrow> gbit r m s' = gbit r m s)"
  using assms
proof (induction "pending b s" arbitrary: s)
  case Nil
  then show ?case by (metis append_Nil2 gpio_irq_times.simps(1) list.map_disc_iff list.size(3))
next
  case (Cons i js)
  define s1 where "s1 = tls_clr_gpio_irq_status i (s\<lparr>gpio_calls := gpio_calls s @ [pin_call s i]\<rparr>)"
  have p: "pending b s = i # js" using Cons.hyps(2) by simp
  have i: "i < WM_IO_PB_31" "gpio_context s i = Some (Luat_gpio_irq_callback, i)" using Cons.prems p by auto
  have step: "gpio_irq b s = Some s1" unfolding s1_def by (rule gpio_irq_step [OF p i(2,1)])
  have "pending b (s\<lparr>gpio_calls := gpio_calls s @ [pin_call s i]\<rparr>) = i # js" using p by (simp add: pending_def)
  then have p1: "pending b s1 = js" unfolding s1_def by (rule pending_clear)
  have f1: "gpio_calls s1 = gpio_calls s @ [pin_call s i]" "gpio_context s1 = gpio_context s" "gpio_isr_cb s1 = gpio_isr_cb s"
    by (simp_all add: s1_def tls_clr_gpio_irq_status_def)
  have g1: "gbit r m s1 = (if r = GPIO_RIS \<and> m = i then False else gbit r m s)" for r m
    using i(1) by (simp add: s1_def tls_clr_gpio_irq_status_def)
  have c1: "pin_call s1 j = pin_call s j" for j by (simp add: pin_call_def f1 g1 split: option.splits)
  from Cons.hyps(1) [of s1] obtain s' where s': "gpio_irq_times b (length js) s1 = Some s'"
    "gpio_calls s' = gpio_calls s1 @ map (pin_call s1) js" "pending b s' = []"
    "\<forall>r m. r \<noteq> GPIO_RIS \<or> m \<notin> set js \<longrightarrow> gbit r m s' = gbit r m s1"
    using p1 Cons.prems p f1(2) by auto
  have "gpio_irq_times b (length (pending b s)) s = Some s'" using step s'(1) p by simp
  moreover have "gpio_calls s' = gpio_calls s @ map (pin_call s) (pending b s)" using s'(2) f1(1) c1 p by simp
  moreover have "\<forall>r m. r \<noteq> GPIO_RIS \<or> m \<notin> set (pending b s) \<longrightarrow> gbit r m s' = gbit r m s" using s'(4) g1 p by auto
  ultimately show ?case using s'(3) by blast
qed

text \<open>What the set-up of an interrupt pin establishes, and that it leaves the other pins alone.\<close>

lemma irq_enable_bits:
  assumes "n \<le> WM_IO_PB_31"
  shows "gbit GPIO_IE n (tls_gpio_irq_enable n t s)" "m \<noteq> n \<Longrightarrow> gbit r m (tls_gpio_irq_enable n t s) = gbit r m s"
    "r \<notin> {GPIO_IE, GPIO_IS, GPIO_IBE, GPIO_IEV} \<Longrightarrow> gbit r m (tls_gpio_irq_enable n t s) = gbit r m s"
    "gpio_context (tls_gpio_irq_enable n t s) = gpio_context s" "gpio_isr_cb (tls_gpio_irq_enable n t s) = gpio_isr_cb s"
    "gpio_calls (tls_gpio_irq_enable n t s) = gpio_calls s"
  using assms by (cases t; simp add: tls_gpio_irq_enable_def Let_def)+

lemma setup_irq_pin:
  assumes "lg_mode g = Luat_GPIO_IRQ" "lg_pin g = int n" "n < WM_IO_PB_31" "lg_irq_cb g = Some cb"
  shows "\<exists>s'. luat_gpio_setup g s = Some (0, s') \<and> gpio_context s' = (gpio_context s)(n \<mapsto> (Luat_gpio_irq_callback, n)) \<and>
     gpio_isr_cb s' = (gpio_isr_cb s)(n \<mapsto> cb) \<and> gpio_calls s' = gpio_calls s \<and> gbit GPIO_IE n s' \<and> \<not> gbit GPIO_RIS n s' \<and>
     (\<forall>r m. m \<noteq> n \<longrightarrow> gbit r m s' = gbit r m s)"
proof -
  have n: "n \<le> WM_IO_PB_31" using assms(3) by simp
  define s1 where "s1 = tls_clr_gpio_irq_status n (tls_gpio_cfg n (luat_gpio_dir (lg_mode g)) (luat_gpio_attr (lg_mode g) (lg_pull g)) s)"
  define s2 where "s2 = tls_gpio_isr_register n Luat_gpio_irq_callback n (s1\<lparr>gpio_isr_cb := (gpio_isr_cb s1)(n \<mapsto> cb)\<rparr>)"
  have e: "luat_gpio_setup g s = Some (0, tls_gpio_irq_enable n (luat_gpio_trig (lg_irq g)) s2)"
    using assms by (simp add: luat_gpio_setup_def Let_def s1_def s2_def)
  have "\<not> gbit GPIO_RIS n s1" "\<And>r m. m \<noteq> n \<Longrightarrow> gbit r m s1 = gbit r m s"
    using n by (simp_all add: s1_def tls_clr_gpio_irq_status_def gpio_cfg_frame)
  then have "\<not> gbit GPIO_RIS n s2" "\<And>r m. m \<noteq> n \<Longrightarrow> gbit r m s2 = gbit r m s"
    by (simp_all add: s2_def tls_gpio_isr_register_def)
  moreover have "gpio_context s2 = (gpio_context s)(n \<mapsto> (Luat_gpio_irq_callback, n))"
    "gpio_isr_cb s2 = (gpio_isr_cb s)(n \<mapsto> cb)" "gpio_calls s2 = gpio_calls s"
    by (simp_all add: s2_def s1_def tls_gpio_isr_register_def tls_clr_gpio_irq_status_def)
  ultimately show ?thesis unfolding e by (simp add: irq_enable_bits [OF n])
qed

text \<open>
  A set-up without a callback keeps the one of an earlier set-up, which is then called; and the table is one entry short for the last
  pin, which the range checks accept.
\<close>

lemma setup_keeps_callback:
  assumes "lg_irq_cb g = None" "luat_gpio_setup g s = Some (rc, s')"
  shows "gpio_isr_cb s' = gpio_isr_cb s"
proof (cases "lg_pin g < 0 \<or> lg_pin g > int WM_IO_PB_31")
  case True
  then show ?thesis using assms by (simp add: luat_gpio_setup_def)
next
  case False
  then have n: "nat (lg_pin g) \<le> WM_IO_PB_31" by linarith
  show ?thesis
    using False assms
    by (auto simp: luat_gpio_setup_def Let_def irq_enable_bits(5) [OF n] tls_gpio_isr_register_def tls_clr_gpio_irq_status_def tls_gpio_irq_disable_def
        split: if_splits)
qed

lemma last_pin_out_of_bounds:
  "luat_gpio_close 47 s = None"
  "lg_mode g = Luat_GPIO_IRQ \<Longrightarrow> lg_pin g = 47 \<Longrightarrow> lg_irq_cb g = Some cb \<Longrightarrow> luat_gpio_setup g s = None"
  by (simp_all add: luat_gpio_close_def isr_entry_def Let_def luat_gpio_setup_def)

section \<open>Properties\<close>

text \<open>
  C12: when every pending pin of a port has been set up through the runtime, as many interrupts as there are pending pins call the
  callback of each pin once, in ascending order of the pins, with the argument it was registered with, or the default handler with
  the level of the pin; afterwards no pin of the port is pending, and apart from the status of the served pins no register bit has
  changed.
\<close>

theorem gpio_irqs_served:
  assumes "\<forall>i \<in> set (pending b s). i < WM_IO_PB_31 \<and> gpio_context s i = Some (Luat_gpio_irq_callback, i)"
  shows "\<exists>s'. gpio_irq_times b (length (pending b s)) s = Some s' \<and> gpio_calls s' = gpio_calls s @ map (pin_call s) (pending b s) \<and>
     pending b s' = [] \<and> (\<forall>r m. r \<noteq> GPIO_RIS \<or> m \<notin> set (pending b s) \<longrightarrow> gbit r m s' = gbit r m s)"
  using assms by (rule gpio_irqs_serve)

definition gpio_demo :: gpio_state where
  "gpio_demo =
     \<lparr>greg = (\<lambda>r b. if b \<and> (r = GPIO_RIS \<or> r = GPIO_IE) then 0x12 else 0), io_pa_option67 = 0, io_pb_option67 = 0, io_clocks = {},
      gpio_context = [17 \<mapsto> (Luat_gpio_irq_callback, 17), 20 \<mapsto> (Luat_gpio_irq_callback, 20)],
      gpio_isr_cb = [20 \<mapsto> (5, 9)], gpio_irqs = \<lparr>irqen_status = 0, nvic = {}\<rparr>, gpio_calls = []\<rparr>"

lemma gpio_demo_pending: "pending True gpio_demo = [17, 20]"
  by (simp add: pending_def port_pins_def gpio_demo_def gbit_def pin_bit_def io_pin_def io_port_def upt_rec_numeral)

theorem gpio_irqs_served_witness:
  "\<exists>s'. gpio_irq_times True 2 gpio_demo = Some s' \<and> gpio_calls s' = [Call_default 17 False, Call_irq 5 20 9] \<and> pending True s' = []"
  using gpio_irqs_served [of True gpio_demo]
  by (auto simp: gpio_demo_pending) (auto simp: gpio_demo_def pin_call_def gbit_def numeral_2_eq_2)

text \<open>
  C19: the configuration of a pin is read back: functions 1 to 4 exactly; a pin made an input or output is reported as 5 only while
  it is an output, otherwise as 6 or 7; analog (6) exactly; touch (7) unless the pin was analog before.  Configuring a pin
  changes no register bit of any other pin, and, function 7 apart, not what is reported of it.
\<close>

theorem io_config_read_back:
  assumes "name \<le> WM_IO_PB_31"
  shows "(\<forall>opt \<in> {1..4}. tls_io_cfg_get name (tls_io_cfg_set name opt s) = opt) \<and>
     tls_io_cfg_get name (tls_io_cfg_set name 5 s) = (if gbit GPIO_DIR name s then 5 else if io_option67 name s then 6 else 7) \<and>
     tls_io_cfg_get name (tls_io_cfg_set name 6 s) = 6 \<and>
     tls_io_cfg_get name (tls_io_cfg_set name 7 s) = (if io_option67 name s then 6 else 7) \<and>
     (\<forall>m opt r. m \<noteq> name \<longrightarrow> gbit r m (tls_io_cfg_set name opt s) = gbit r m s) \<and>
     (\<forall>m opt. m \<noteq> name \<and> opt \<noteq> 7 \<longrightarrow> tls_io_cfg_get m (tls_io_cfg_set name opt s) = tls_io_cfg_get m s)"
proof -
  have "tls_io_cfg_get name (tls_io_cfg_set name opt s) = opt" if "opt \<in> {1..4}" for opt
  proof -
    have "opt = Suc 0 \<or> opt = 2 \<or> opt = 3 \<or> opt = 4" using that by auto
    then show ?thesis using cfg_get_functions [OF assms] by auto
  qed
  then show ?thesis
    by (simp add: cfg_get_gpio [OF assms] cfg_get_analog [OF assms] cfg_bits_other [OF assms] cfg_get_other [OF assms])
qed

theorem io_config_read_back_witness:
  "tls_io_cfg_get 20 (tls_io_cfg_set 20 3 gpio_demo) = 3 \<and> tls_io_cfg_get 20 (tls_io_cfg_set 20 5 gpio_demo) = 7 \<and>
   tls_io_cfg_get 21 (tls_io_cfg_set 20 6 gpio_demo) = tls_io_cfg_get 21 gpio_demo"
  using io_config_read_back [of 20 gpio_demo]
  by (auto simp: gpio_demo_def gbit_def io_option67_def simp del: cfg_set_eqs)

end
