(* ===== verification/Afsel.thy ===== *)
theory Afsel
  imports Io
begin

text \<open>
  The assignment of peripheral functions to pins, \<^verbatim>\<open>platform/drivers/gpio/wm_gpio_afsel.c\<close>.  Each function of the driver is a
  switch over the pins that can carry one signal; a table lists its cases with the option it selects and whether it switches
  the pull-up on.  A pin that is not listed is refused and nothing changes.  Functions that configure all signals of a
  peripheral at once have a list of pins for each of their variants.
\<close>

section \<open>Model\<close>

type_synonym af_table = "(nat \<times> nat \<times> bool) list"

definition PA :: "nat \<Rightarrow> nat" where "PA n = n"
definition PB :: "nat \<Rightarrow> nat" where "PB n = WM_IO_PB_00 + n"

definition open_clock :: "string option \<Rightarrow> 'a io_state_scheme \<Rightarrow> 'a io_state_scheme" where
  "open_clock clk s = (case clk of None \<Rightarrow> s | Some c \<Rightarrow> s\<lparr>io_clocks := insert c (io_clocks s)\<rparr>)"

definition af_pin :: "af_table \<Rightarrow> string option \<Rightarrow> nat \<Rightarrow> 'a io_state_scheme \<Rightarrow> 'a io_state_scheme" where
  "af_pin table clk name s =
     (case map_of table name of None \<Rightarrow> s
      | Some (opt, pull) \<Rightarrow>
          (let s = tls_io_cfg_set name opt s; s = (if pull then gput GPIO_PULLUP_EN False name s else s) in open_clock clk s))"

definition af_group :: "(nat \<times> nat) list \<Rightarrow> string option \<Rightarrow> 'a io_state_scheme \<Rightarrow> 'a io_state_scheme" where
  "af_group pins clk s = open_clock clk (fold (\<lambda>(name, opt) s. tls_io_cfg_set name opt s) pins s)"

subsection \<open>The pins of each signal\<close>

definition wm_hspi_gpio_0 :: "(nat \<times> nat) list" where
  "wm_hspi_gpio_0 = [(PB 6, 3), (PB 7, 3), (PB 9, 3), (PB 10, 3), (PB 11, 3)]"

definition wm_hspi_gpio_1 :: "(nat \<times> nat) list" where
  "wm_hspi_gpio_1 = [(PB 12, 1), (PB 13, 1), (PB 14, 1), (PB 15, 1), (PB 16, 1)]"

definition wm_spi_ck_pins :: af_table where
  "wm_spi_ck_pins = [(PB 1, 2, False), (PB 2, 2, False), (PB 15, 3, False), (PB 24, 1, False)]"

definition wm_spi_cs_pins :: af_table where
  "wm_spi_cs_pins = [(PA 0, 2, False), (PB 4, 1, False), (PB 14, 3, False), (PB 23, 1, False)]"

definition wm_spi_di_pins :: af_table where
  "wm_spi_di_pins = [(PB 0, 2, False), (PB 3, 2, False), (PB 16, 3, False), (PB 25, 1, False)]"

definition wm_spi_do_pins :: af_table where
  "wm_spi_do_pins = [(PA 7, 2, False), (PB 5, 1, False), (PB 17, 3, False), (PB 26, 1, False)]"

definition wm_sdio_host_0 :: "(nat \<times> nat) list" where
  "wm_sdio_host_0 = [(PB 6, 2), (PB 7, 2), (PB 8, 2), (PB 9, 2), (PB 10, 2), (PB 11, 2)]"

definition wm_sdio_host_1 :: "(nat \<times> nat) list" where
  "wm_sdio_host_1 = [(PA 9, 1), (PA 10, 1), (PA 11, 1), (PA 12, 1), (PA 13, 1), (PA 14, 1)]"

definition wm_sdio_slave_0 :: "(nat \<times> nat) list" where
  "wm_sdio_slave_0 = [(PB 6, 4), (PB 7, 4), (PB 8, 4), (PB 9, 4), (PB 10, 4), (PB 11, 4)]"

definition wm_psram_0 :: "(nat \<times> nat) list" where
  "wm_psram_0 = [(PB 0, 4), (PB 1, 4), (PB 2, 4), (PB 3, 4), (PB 4, 4), (PB 5, 4)]"

definition wm_psram_1 :: "(nat \<times> nat) list" where
  "wm_psram_1 = [(PA 15, 1), (PB 27, 1), (PB 2, 4), (PB 3, 4), (PB 4, 4), (PB 5, 4)]"

definition wm_psram_2 :: "(nat \<times> nat) list" where
  "wm_psram_2 = [(PA 15, 1), (PB 27, 1), (PB 28, 1), (PB 29, 1), (PB 30, 1), (PB 31, 1)]"

definition wm_uart0_tx_pins :: af_table where
  "wm_uart0_tx_pins = [(PB 19, 1, False), (PB 27, 2, False)]"

definition wm_uart0_rx_pins :: af_table where
  "wm_uart0_rx_pins = [(PB 20, 1, True)]"

definition wm_uart1_tx_pins :: af_table where
  "wm_uart1_tx_pins = [(PB 6, 1, False)]"

definition wm_uart1_rx_pins :: af_table where
  "wm_uart1_rx_pins = [(PB 7, 1, True), (PB 16, 4, True)]"

definition wm_uart1_rts_pins :: af_table where
  "wm_uart1_rts_pins = [(PB 19, 3, False), (PA 2, 1, False)]"

definition wm_uart1_cts_pins :: af_table where
  "wm_uart1_cts_pins = [(PB 20, 3, False), (PA 3, 1, False)]"

definition wm_uart2_tx_scio_pins :: af_table where
  "wm_uart2_tx_scio_pins = [(PB 2, 3, False), (PA 2, 2, False)]"

definition wm_uart2_rx_pins :: af_table where
  "wm_uart2_rx_pins = [(PB 3, 3, True), (PA 3, 2, True)]"

definition wm_uart2_rts_scclk_pins :: af_table where
  "wm_uart2_rts_scclk_pins = [(PB 4, 2, False), (PA 5, 2, False)]"

definition wm_uart2_cts_pins :: af_table where
  "wm_uart2_cts_pins = [(PB 5, 2, False), (PA 6, 2, False)]"

definition wm_uart3_tx_pins :: af_table where
  "wm_uart3_tx_pins = [(PB 0, 3, False), (PA 5, 1, False)]"

definition wm_uart3_rx_pins :: af_table where
  "wm_uart3_rx_pins = [(PB 1, 3, True), (PA 6, 1, True)]"

definition wm_uart3_rts_pins :: af_table where
  "wm_uart3_rts_pins = [(PA 2, 4, False)]"

definition wm_uart3_cts_pins :: af_table where
  "wm_uart3_cts_pins = [(PA 3, 4, False)]"

definition wm_uart4_tx_pins :: af_table where
  "wm_uart4_tx_pins = [(PB 4, 3, False), (PA 8, 2, False)]"

definition wm_uart4_rx_pins :: af_table where
  "wm_uart4_rx_pins = [(PB 5, 3, True), (PA 9, 2, True)]"

definition wm_uart4_rts_pins :: af_table where
  "wm_uart4_rts_pins = [(PA 5, 4, False), (PA 10, 2, False)]"

definition wm_uart4_cts_pins :: af_table where
  "wm_uart4_cts_pins = [(PA 6, 4, False), (PA 11, 2, False)]"

definition wm_uart5_tx_pins :: af_table where
  "wm_uart5_tx_pins = [(PA 12, 2, False), (PA 8, 3, False), (PB 18, 1, False)]"

definition wm_uart5_rx_pins :: af_table where
  "wm_uart5_rx_pins = [(PA 13, 2, True), (PA 9, 3, True), (PB 17, 1, True)]"

definition wm_uart5_rts_pins :: af_table where
  "wm_uart5_rts_pins = [(PB 12, 3, False), (PA 14, 2, False)]"

definition wm_uart5_cts_pins :: af_table where
  "wm_uart5_cts_pins = [(PB 13, 3, False), (PA 15, 2, False)]"

definition wm_i2s_ck_pins :: af_table where
  "wm_i2s_ck_pins = [(PA 4, 4, False), (PB 8, 1, False), (PA 8, 4, False), (PB 12, 4, False)]"

definition wm_i2s_ws_pins :: af_table where
  "wm_i2s_ws_pins = [(PA 1, 4, False), (PB 9, 1, False), (PA 9, 4, False), (PB 13, 4, False)]"

definition wm_i2s_do_pins :: af_table where
  "wm_i2s_do_pins = [(PA 0, 4, False), (PB 11, 1, False), (PA 10, 4, False), (PB 14, 4, False)]"

definition wm_i2s_di_pins :: af_table where
  "wm_i2s_di_pins = [(PA 7, 4, False), (PB 10, 1, False), (PA 11, 4, False), (PB 15, 4, False)]"

definition wm_i2s_mclk_pins :: af_table where
  "wm_i2s_mclk_pins = [(PA 0, 1, False), (PA 7, 3, False), (PB 17, 4, False)]"

definition wm_i2s_extclk_pins :: af_table where
  "wm_i2s_extclk_pins = [(PA 7, 3, False), (PB 17, 4, False)]"

definition wm_i2c_scl_pins :: af_table where
  "wm_i2c_scl_pins = [(PA 1, 2, True), (PB 20, 4, True)]"

definition wm_i2c_sda_pins :: af_table where
  "wm_i2c_sda_pins = [(PA 4, 2, True), (PB 19, 4, True)]"

definition wm_pwm0_pins :: af_table where
  "wm_pwm0_pins = [(PB 0, 1, False), (PB 19, 2, False), (PB 12, 2, False), (PA 2, 3, False), (PA 10, 3, False)]"

definition wm_pwm1_pins :: af_table where
  "wm_pwm1_pins = [(PB 1, 1, False), (PB 20, 2, False), (PA 3, 3, False), (PA 11, 3, False), (PB 13, 2, False)]"

definition wm_pwm2_pins :: af_table where
  "wm_pwm2_pins = [(PA 0, 3, False), (PB 2, 1, False), (PA 12, 3, False), (PB 14, 2, False), (PB 24, 2, False)]"

definition wm_pwm3_pins :: af_table where
  "wm_pwm3_pins = [(PA 1, 3, False), (PB 3, 1, False), (PA 13, 3, False), (PB 15, 2, False), (PB 25, 2, False)]"

definition wm_pwm4_pins :: af_table where
  "wm_pwm4_pins = [(PA 4, 3, False), (PA 7, 1, False), (PA 14, 3, False), (PB 16, 2, False), (PB 26, 2, False)]"

definition wm_pwmbrk_pins :: af_table where
  "wm_pwmbrk_pins = [(PB 8, 3, False), (PA 5, 3, False), (PA 8, 1, False), (PA 15, 3, False), (PB 17, 2, False)]"

subsection \<open>The functions\<close>

definition wm_hspi_gpio_config :: "nat \<Rightarrow> 'a io_state_scheme \<Rightarrow> 'a io_state_scheme" where
  "wm_hspi_gpio_config numsel s =
     (if numsel = 0 then af_group wm_hspi_gpio_0 None s
      else if numsel = 1 then af_group wm_hspi_gpio_1 None s
      else s)"

definition wm_spi_ck_config :: "nat \<Rightarrow> 'a io_state_scheme \<Rightarrow> 'a io_state_scheme" where
  "wm_spi_ck_config = af_pin wm_spi_ck_pins (Some ''LSPI'')"

definition wm_spi_cs_config :: "nat \<Rightarrow> 'a io_state_scheme \<Rightarrow> 'a io_state_scheme" where
  "wm_spi_cs_config = af_pin wm_spi_cs_pins None"

definition wm_spi_di_config :: "nat \<Rightarrow> 'a io_state_scheme \<Rightarrow> 'a io_state_scheme" where
  "wm_spi_di_config = af_pin wm_spi_di_pins None"

definition wm_spi_do_config :: "nat \<Rightarrow> 'a io_state_scheme \<Rightarrow> 'a io_state_scheme" where
  "wm_spi_do_config = af_pin wm_spi_do_pins None"

definition wm_sdio_host_config :: "nat \<Rightarrow> 'a io_state_scheme \<Rightarrow> 'a io_state_scheme" where
  "wm_sdio_host_config numsel s =
     (if numsel = 0 then af_group wm_sdio_host_0 (Some ''SDIO_MASTER'') s
      else if numsel = 1 then af_group wm_sdio_host_1 (Some ''SDIO_MASTER'') s
      else s)"

definition wm_sdio_slave_config :: "nat \<Rightarrow> 'a io_state_scheme \<Rightarrow> 'a io_state_scheme" where
  "wm_sdio_slave_config numsel s =
     (if numsel = 0 then af_group wm_sdio_slave_0 None s
      else s)"

definition wm_psram_config :: "nat \<Rightarrow> 'a io_state_scheme \<Rightarrow> 'a io_state_scheme" where
  "wm_psram_config numsel s =
     (if numsel = 0 then af_group wm_psram_0 (Some ''PSRAM'') s
      else if numsel = 1 then af_group wm_psram_1 (Some ''PSRAM'') s
      else if numsel = 2 then af_group wm_psram_2 (Some ''PSRAM'') s
      else s)"

definition wm_uart0_tx_config :: "nat \<Rightarrow> 'a io_state_scheme \<Rightarrow> 'a io_state_scheme" where
  "wm_uart0_tx_config = af_pin wm_uart0_tx_pins (Some ''UART0'')"

definition wm_uart0_rx_config :: "nat \<Rightarrow> 'a io_state_scheme \<Rightarrow> 'a io_state_scheme" where
  "wm_uart0_rx_config = af_pin wm_uart0_rx_pins (Some ''UART0'')"

definition wm_uart1_tx_config :: "nat \<Rightarrow> 'a io_state_scheme \<Rightarrow> 'a io_state_scheme" where
  "wm_uart1_tx_config = af_pin wm_uart1_tx_pins (Some ''UART1'')"

definition wm_uart1_rx_config :: "nat \<Rightarrow> 'a io_state_scheme \<Rightarrow> 'a io_state_scheme" where
  "wm_uart1_rx_config = af_pin wm_uart1_rx_pins (Some ''UART1'')"

definition wm_uart1_rts_config :: "nat \<Rightarrow> 'a io_state_scheme \<Rightarrow> 'a io_state_scheme" where
  "wm_uart1_rts_config = af_pin wm_uart1_rts_pins (Some ''UART1'')"

definition wm_uart1_cts_config :: "nat \<Rightarrow> 'a io_state_scheme \<Rightarrow> 'a io_state_scheme" where
  "wm_uart1_cts_config = af_pin wm_uart1_cts_pins (Some ''UART1'')"

definition wm_uart2_tx_scio_config :: "nat \<Rightarrow> 'a io_state_scheme \<Rightarrow> 'a io_state_scheme" where
  "wm_uart2_tx_scio_config = af_pin wm_uart2_tx_scio_pins (Some ''UART2'')"

definition wm_uart2_rx_config :: "nat \<Rightarrow> 'a io_state_scheme \<Rightarrow> 'a io_state_scheme" where
  "wm_uart2_rx_config = af_pin wm_uart2_rx_pins (Some ''UART2'')"

definition wm_uart2_rts_scclk_config :: "nat \<Rightarrow> 'a io_state_scheme \<Rightarrow> 'a io_state_scheme" where
  "wm_uart2_rts_scclk_config = af_pin wm_uart2_rts_scclk_pins (Some ''UART2'')"

definition wm_uart2_cts_config :: "nat \<Rightarrow> 'a io_state_scheme \<Rightarrow> 'a io_state_scheme" where
  "wm_uart2_cts_config = af_pin wm_uart2_cts_pins (Some ''UART2'')"

definition wm_uart3_tx_config :: "nat \<Rightarrow> 'a io_state_scheme \<Rightarrow> 'a io_state_scheme" where
  "wm_uart3_tx_config = af_pin wm_uart3_tx_pins (Some ''UART3'')"

definition wm_uart3_rx_config :: "nat \<Rightarrow> 'a io_state_scheme \<Rightarrow> 'a io_state_scheme" where
  "wm_uart3_rx_config = af_pin wm_uart3_rx_pins (Some ''UART3'')"

definition wm_uart3_rts_config :: "nat \<Rightarrow> 'a io_state_scheme \<Rightarrow> 'a io_state_scheme" where
  "wm_uart3_rts_config = af_pin wm_uart3_rts_pins (Some ''UART3'')"

definition wm_uart3_cts_config :: "nat \<Rightarrow> 'a io_state_scheme \<Rightarrow> 'a io_state_scheme" where
  "wm_uart3_cts_config = af_pin wm_uart3_cts_pins (Some ''UART3'')"

definition wm_uart4_tx_config :: "nat \<Rightarrow> 'a io_state_scheme \<Rightarrow> 'a io_state_scheme" where
  "wm_uart4_tx_config = af_pin wm_uart4_tx_pins (Some ''UART4'')"

definition wm_uart4_rx_config :: "nat \<Rightarrow> 'a io_state_scheme \<Rightarrow> 'a io_state_scheme" where
  "wm_uart4_rx_config = af_pin wm_uart4_rx_pins (Some ''UART4'')"

definition wm_uart4_rts_config :: "nat \<Rightarrow> 'a io_state_scheme \<Rightarrow> 'a io_state_scheme" where
  "wm_uart4_rts_config = af_pin wm_uart4_rts_pins (Some ''UART4'')"

definition wm_uart4_cts_config :: "nat \<Rightarrow> 'a io_state_scheme \<Rightarrow> 'a io_state_scheme" where
  "wm_uart4_cts_config = af_pin wm_uart4_cts_pins (Some ''UART4'')"

definition wm_uart5_tx_config :: "nat \<Rightarrow> 'a io_state_scheme \<Rightarrow> 'a io_state_scheme" where
  "wm_uart5_tx_config = af_pin wm_uart5_tx_pins (Some ''UART5'')"

definition wm_uart5_rx_config :: "nat \<Rightarrow> 'a io_state_scheme \<Rightarrow> 'a io_state_scheme" where
  "wm_uart5_rx_config = af_pin wm_uart5_rx_pins (Some ''UART5'')"

definition wm_uart5_rts_config :: "nat \<Rightarrow> 'a io_state_scheme \<Rightarrow> 'a io_state_scheme" where
  "wm_uart5_rts_config = af_pin wm_uart5_rts_pins (Some ''UART5'')"

definition wm_uart5_cts_config :: "nat \<Rightarrow> 'a io_state_scheme \<Rightarrow> 'a io_state_scheme" where
  "wm_uart5_cts_config = af_pin wm_uart5_cts_pins (Some ''UART5'')"

definition wm_i2s_ck_config :: "nat \<Rightarrow> 'a io_state_scheme \<Rightarrow> 'a io_state_scheme" where
  "wm_i2s_ck_config = af_pin wm_i2s_ck_pins (Some ''I2S'')"

definition wm_i2s_ws_config :: "nat \<Rightarrow> 'a io_state_scheme \<Rightarrow> 'a io_state_scheme" where
  "wm_i2s_ws_config = af_pin wm_i2s_ws_pins (Some ''I2S'')"

definition wm_i2s_do_config :: "nat \<Rightarrow> 'a io_state_scheme \<Rightarrow> 'a io_state_scheme" where
  "wm_i2s_do_config = af_pin wm_i2s_do_pins (Some ''I2S'')"

definition wm_i2s_di_config :: "nat \<Rightarrow> 'a io_state_scheme \<Rightarrow> 'a io_state_scheme" where
  "wm_i2s_di_config = af_pin wm_i2s_di_pins (Some ''I2S'')"

definition wm_i2s_mclk_config :: "nat \<Rightarrow> 'a io_state_scheme \<Rightarrow> 'a io_state_scheme" where
  "wm_i2s_mclk_config = af_pin wm_i2s_mclk_pins (Some ''I2S'')"

definition wm_i2s_extclk_config :: "nat \<Rightarrow> 'a io_state_scheme \<Rightarrow> 'a io_state_scheme" where
  "wm_i2s_extclk_config = af_pin wm_i2s_extclk_pins (Some ''I2S'')"

definition wm_i2c_scl_config :: "nat \<Rightarrow> 'a io_state_scheme \<Rightarrow> 'a io_state_scheme" where
  "wm_i2c_scl_config = af_pin wm_i2c_scl_pins (Some ''I2C'')"

definition wm_i2c_sda_config :: "nat \<Rightarrow> 'a io_state_scheme \<Rightarrow> 'a io_state_scheme" where
  "wm_i2c_sda_config = af_pin wm_i2c_sda_pins (Some ''I2C'')"

definition wm_pwm0_config :: "nat \<Rightarrow> 'a io_state_scheme \<Rightarrow> 'a io_state_scheme" where
  "wm_pwm0_config = af_pin wm_pwm0_pins (Some ''PWM'')"

definition wm_pwm1_config :: "nat \<Rightarrow> 'a io_state_scheme \<Rightarrow> 'a io_state_scheme" where
  "wm_pwm1_config = af_pin wm_pwm1_pins (Some ''PWM'')"

definition wm_pwm2_config :: "nat \<Rightarrow> 'a io_state_scheme \<Rightarrow> 'a io_state_scheme" where
  "wm_pwm2_config = af_pin wm_pwm2_pins (Some ''PWM'')"

definition wm_pwm3_config :: "nat \<Rightarrow> 'a io_state_scheme \<Rightarrow> 'a io_state_scheme" where
  "wm_pwm3_config = af_pin wm_pwm3_pins (Some ''PWM'')"

definition wm_pwm4_config :: "nat \<Rightarrow> 'a io_state_scheme \<Rightarrow> 'a io_state_scheme" where
  "wm_pwm4_config = af_pin wm_pwm4_pins (Some ''PWM'')"

definition wm_pwmbrk_config :: "nat \<Rightarrow> 'a io_state_scheme \<Rightarrow> 'a io_state_scheme" where
  "wm_pwmbrk_config = af_pin wm_pwmbrk_pins (Some ''PWM'')"

definition wm_swd_config :: "bool \<Rightarrow> 'a io_state_scheme \<Rightarrow> 'a io_state_scheme" where
  "wm_swd_config enable s =
     (if enable then tls_io_cfg_set (PA 4) 1 (tls_io_cfg_set (PA 1) 1 s)
      else tls_io_cfg_set (PA 4) 5 (tls_io_cfg_set (PA 1) 5 s))"

definition wm_adc_config :: "nat \<Rightarrow> 'a io_state_scheme \<Rightarrow> 'a io_state_scheme" where
  "wm_adc_config channel s =
     (case map_of [(0, PA 1), (1, PA 4), (2, PA 3), (3, PA 2)] channel of None \<Rightarrow> s
      | Some name \<Rightarrow> open_clock (Some ''SDADC'') (tls_io_cfg_set name 6 s))"

definition wm_touch_sensor_config :: "nat \<Rightarrow> 'a io_state_scheme \<Rightarrow> 'a io_state_scheme" where
  "wm_touch_sensor_config name s =
     (if name \<in> set [PA 7, PA 9, PA 10, PB 0, PB 1, PB 2, PB 3, PB 4, PB 5, PB 6, PB 7, PB 8, PB 9, PA 12, PA 14]
      then open_clock (Some ''TOUCH_SENSOR'') (tls_io_cfg_set name 7 s) else s)"

text \<open>\<^verbatim>\<open>WM_SWD_ENABLE\<close> is 0.\<close>

definition wm_gpio_af_disable :: "'a io_state_scheme \<Rightarrow> 'a io_state_scheme" where
  "wm_gpio_af_disable s =
     s\<lparr>greg := (\<lambda>r b. if r = GPIO_DIR \<or> r = GPIO_AF_SEL then 0
                 else if r = GPIO_PULLUP_EN then (if b then 0xFFFFFFFF else 0xFFFF) else greg s r b)\<rparr>"

section \<open>Pins and functions\<close>

lemma open_clock_bits [simp]: "gbit r m (open_clock clk s) = gbit r m s" "io_option67 m (open_clock clk s) = io_option67 m s"
  by (simp_all add: open_clock_def io_option67_def split: option.splits)

lemma af_pin_unsupported: "name \<notin> fst ` set table \<Longrightarrow> af_pin table clk name s = s"
  by (simp add: af_pin_def map_of_eq_None_iff [THEN iffD2])

lemma af_pin_other:
  assumes "name \<le> WM_IO_PB_31" "m \<noteq> name"
  shows "gbit r m (af_pin table clk name s) = gbit r m s"
  using assms cfg_bits_other [OF assms] by (auto simp: af_pin_def Let_def split: option.splits)

text \<open>A supported pin carries the function the table names.\<close>

lemma af_pin_selects:
  assumes "name \<le> WM_IO_PB_31" "map_of table name = Some (opt, pull)" "opt \<in> {1..4}"
  shows "tls_io_cfg_get name (af_pin table clk name s) = opt"
proof -
  have c: "opt = Suc 0 \<or> opt = 2 \<or> opt = 3 \<or> opt = 4" using assms(3) by auto
  have "gbit r name (af_pin table clk name s) = gbit r name (tls_io_cfg_set name opt s)" if "r \<noteq> GPIO_PULLUP_EN" for r
    using assms(1,2) that by (simp add: af_pin_def Let_def)
  then show ?thesis using c assms(1) by (elim disjE) (simp_all add: tls_io_cfg_get_def io_cfg_defs)
qed

definition signal_tables :: "af_table list" where
  "signal_tables = [wm_spi_ck_pins, wm_spi_cs_pins, wm_spi_di_pins, wm_spi_do_pins, wm_uart0_tx_pins, wm_uart0_rx_pins,
    wm_uart1_tx_pins, wm_uart1_rx_pins, wm_uart1_rts_pins, wm_uart1_cts_pins, wm_uart2_tx_scio_pins,
    wm_uart2_rx_pins, wm_uart2_rts_scclk_pins, wm_uart2_cts_pins, wm_uart3_tx_pins, wm_uart3_rx_pins,
    wm_uart3_rts_pins, wm_uart3_cts_pins, wm_uart4_tx_pins, wm_uart4_rx_pins, wm_uart4_rts_pins,
    wm_uart4_cts_pins, wm_uart5_tx_pins, wm_uart5_rx_pins, wm_uart5_rts_pins, wm_uart5_cts_pins,
    wm_i2s_ck_pins, wm_i2s_ws_pins, wm_i2s_do_pins, wm_i2s_di_pins, wm_i2s_mclk_pins, wm_i2s_extclk_pins,
    wm_i2c_scl_pins, wm_i2c_sda_pins, wm_pwm0_pins, wm_pwm1_pins, wm_pwm2_pins, wm_pwm3_pins, wm_pwm4_pins,
    wm_pwmbrk_pins]"

definition group_tables :: "(nat \<times> nat) list list" where
  "group_tables = [wm_hspi_gpio_0, wm_hspi_gpio_1, wm_sdio_host_0, wm_sdio_host_1, wm_sdio_slave_0, wm_psram_0, wm_psram_1,
    wm_psram_2]"

lemmas pin_defs = PA_def PB_def

lemmas table_defs = wm_spi_ck_pins_def wm_spi_cs_pins_def wm_spi_di_pins_def wm_spi_do_pins_def wm_uart0_tx_pins_def
    wm_uart0_rx_pins_def wm_uart1_tx_pins_def wm_uart1_rx_pins_def wm_uart1_rts_pins_def
    wm_uart1_cts_pins_def wm_uart2_tx_scio_pins_def wm_uart2_rx_pins_def wm_uart2_rts_scclk_pins_def
    wm_uart2_cts_pins_def wm_uart3_tx_pins_def wm_uart3_rx_pins_def wm_uart3_rts_pins_def
    wm_uart3_cts_pins_def wm_uart4_tx_pins_def wm_uart4_rx_pins_def wm_uart4_rts_pins_def
    wm_uart4_cts_pins_def wm_uart5_tx_pins_def wm_uart5_rx_pins_def wm_uart5_rts_pins_def
    wm_uart5_cts_pins_def wm_i2s_ck_pins_def wm_i2s_ws_pins_def wm_i2s_do_pins_def wm_i2s_di_pins_def
    wm_i2s_mclk_pins_def wm_i2s_extclk_pins_def wm_i2c_scl_pins_def wm_i2c_sda_pins_def wm_pwm0_pins_def
    wm_pwm1_pins_def wm_pwm2_pins_def wm_pwm3_pins_def wm_pwm4_pins_def wm_pwmbrk_pins_def

lemmas group_defs = wm_hspi_gpio_0_def wm_hspi_gpio_1_def wm_sdio_host_0_def wm_sdio_host_1_def wm_sdio_slave_0_def
    wm_psram_0_def wm_psram_1_def wm_psram_2_def

lemma tables_wf: "\<forall>t \<in> set signal_tables. distinct (map fst t) \<and> (\<forall>(n, opt, p) \<in> set t. n \<le> WM_IO_PB_31 \<and> opt \<in> {1..4})"
  by (simp add: signal_tables_def table_defs pin_defs)

text \<open>
  No two signals use the same option of the same pin, except that the I2S master clock and the external clock share two of
  them; so the option of a pin determines its signal.
\<close>

definition pin_options :: "af_table \<Rightarrow> (nat \<times> nat) list" where
  "pin_options t = map (\<lambda>(n, opt, p). (n, opt)) t"

lemma options_exclusive:
  "distinct (concat (map pin_options (remove1 wm_i2s_extclk_pins signal_tables)) @
     wm_hspi_gpio_0 @ wm_hspi_gpio_1 @ wm_sdio_host_0 @ wm_sdio_host_1 @ wm_sdio_slave_0 @ wm_psram_0 @ wm_psram_2)"
  "set (pin_options wm_i2s_extclk_pins) \<subseteq> set (pin_options wm_i2s_mclk_pins)"
  "set wm_psram_1 \<subseteq> set wm_psram_0 \<union> set wm_psram_2"
  by code_simp+

end
