(* ===== verification/Pmu.thy ===== *)
theory Pmu
  imports Irq
begin

text \<open>
  The power management unit, \<^verbatim>\<open>platform/drivers/pmu/wm_pmu.c\<close>, and the clock in it, \<^verbatim>\<open>platform/drivers/rtc/wm_rtc.c\<close> with the runtime's
  \<^verbatim>\<open>app/port/luat_rtc_air101.c\<close>.  \<open>pmu_regs\<close> is the unit with the callbacks of its interrupts; calls of callbacks are logged.
  Writing a bit of the interrupt source register clears it.  The counting of the clock is not modelled: its registers hold what was
  written.
\<close>

section \<open>Model\<close>

datatype pmu_source = Pmu_timer0 | Pmu_timer1 | Pmu_gpio_wake | Pmu_sdio_wake | Pmu_rtc

record pmu_regs =
  PMU_PS_CR :: u32
  PMU_TIMER0 :: u32
  PMU_TIMER1 :: u32
  PMU_INTERRUPT_SRC :: u32
  PMU_WLAN_STTS :: u32
  PMU_RTC_CTRL1 :: u32
  PMU_RTC_CTRL2 :: u32
  CLK_GATES :: u32
  pmu_context :: "pmu_source \<Rightarrow> (nat \<times> nat) option"
  pmu_irqs :: irq_state
  pmu_calls :: "(pmu_source \<times> nat \<times> nat) list"

abbreviation PMU_IRQn :: nat where "PMU_IRQn \<equiv> 29"

definition clear_src :: "u32 \<Rightarrow> pmu_regs \<Rightarrow> pmu_regs" where
  "clear_src bits s = s\<lparr>PMU_INTERRUPT_SRC := PMU_INTERRUPT_SRC s AND NOT bits\<rparr>"

definition pmu_call :: "pmu_source \<Rightarrow> pmu_regs \<Rightarrow> pmu_regs" where
  "pmu_call src s =
     (case pmu_context s src of None \<Rightarrow> s | Some (f, arg) \<Rightarrow> s\<lparr>pmu_calls := pmu_calls s @ [(src, f, arg)]\<rparr>)"

definition PMU_TIMER1_IRQHandler :: "pmu_regs \<Rightarrow> pmu_regs" where
  "PMU_TIMER1_IRQHandler s =
     (let s = clear_src (push_bit 1 1 OR 0x180) s; s = s\<lparr>PMU_TIMER1 := PMU_TIMER1 s AND NOT (push_bit 16 1)\<rparr> in pmu_call Pmu_timer1 s)"

definition PMU_TIMER0_IRQHandler :: "pmu_regs \<Rightarrow> pmu_regs" where
  "PMU_TIMER0_IRQHandler s =
     (let s = clear_src (push_bit 0 1 OR 0x180) s; s = s\<lparr>PMU_TIMER0 := PMU_TIMER0 s AND NOT (push_bit 16 1)\<rparr> in pmu_call Pmu_timer0 s)"

definition PMU_GPIO_WAKE_IRQHandler :: "pmu_regs \<Rightarrow> pmu_regs" where
  "PMU_GPIO_WAKE_IRQHandler s = pmu_call Pmu_gpio_wake (clear_src (push_bit 2 1 OR 0x180) s)"

definition PMU_SDIO_WAKE_IRQHandler :: "pmu_regs \<Rightarrow> pmu_regs" where
  "PMU_SDIO_WAKE_IRQHandler s = pmu_call Pmu_sdio_wake (clear_src (push_bit 3 1 OR 0x180) s)"

definition PMU_RTC_IRQHandler :: "pmu_regs \<Rightarrow> pmu_regs" where
  "PMU_RTC_IRQHandler s = pmu_call Pmu_rtc (clear_src (push_bit 4 1) s)"

definition pmu_isr_register :: "pmu_source \<Rightarrow> (nat \<times> nat) option \<Rightarrow> pmu_regs \<Rightarrow> pmu_regs" where
  "pmu_isr_register src cb s =
     s\<lparr>pmu_context := (pmu_context s)(src := cb), pmu_irqs := tls_irq_enable PMU_IRQn (pmu_irqs s)\<rparr>"

definition tls_pmu_timer0_isr_register :: "(nat \<times> nat) option \<Rightarrow> pmu_regs \<Rightarrow> pmu_regs" where
  "tls_pmu_timer0_isr_register = pmu_isr_register Pmu_timer0"

definition tls_pmu_timer1_isr_register :: "(nat \<times> nat) option \<Rightarrow> pmu_regs \<Rightarrow> pmu_regs" where
  "tls_pmu_timer1_isr_register = pmu_isr_register Pmu_timer1"

definition tls_pmu_gpio_isr_register :: "(nat \<times> nat) option \<Rightarrow> pmu_regs \<Rightarrow> pmu_regs" where
  "tls_pmu_gpio_isr_register = pmu_isr_register Pmu_gpio_wake"

definition tls_pmu_sdio_isr_register :: "(nat \<times> nat) option \<Rightarrow> pmu_regs \<Rightarrow> pmu_regs" where
  "tls_pmu_sdio_isr_register = pmu_isr_register Pmu_sdio_wake"

definition tls_rtc_isr_register :: "(nat \<times> nat) option \<Rightarrow> pmu_regs \<Rightarrow> pmu_regs" where
  "tls_rtc_isr_register = pmu_isr_register Pmu_rtc"

definition tls_pmu_clk_select :: "u8 \<Rightarrow> pmu_regs \<Rightarrow> pmu_regs" where
  "tls_pmu_clk_select bypass s =
     (let v = PMU_PS_CR s;
          v = (if bypass \<noteq> 0 then v OR push_bit 4 1 else v AND NOT (push_bit 4 1))
      in s\<lparr>PMU_PS_CR := v OR push_bit 3 1\<rparr>)"

text \<open>Clear the sources when one of the two wake-up states is set.\<close>

definition clear_wake :: "pmu_regs \<Rightarrow> pmu_regs" where
  "clear_wake s = (let v = PMU_INTERRUPT_SRC s in if v AND 0x180 \<noteq> 0 then clear_src v s else s)"

definition tls_pmu_timer0_start :: "u16 \<Rightarrow> pmu_regs \<Rightarrow> pmu_regs" where
  "tls_pmu_timer0_start second s =
     (let s = clear_wake s; s = s\<lparr>PMU_PS_CR := PMU_PS_CR s OR push_bit 3 1\<rparr>
      in s\<lparr>PMU_TIMER0 := ucast second OR push_bit 16 1\<rparr>)"

definition tls_pmu_timer0_stop :: "pmu_regs \<Rightarrow> pmu_regs" where
  "tls_pmu_timer0_stop s = s\<lparr>PMU_TIMER0 := PMU_TIMER0 s AND NOT (push_bit 16 1)\<rparr>"

definition tls_pmu_timer1_start :: "u16 \<Rightarrow> pmu_regs \<Rightarrow> pmu_regs" where
  "tls_pmu_timer1_start msec s =
     (let s = clear_wake s; v = PMU_PS_CR s OR push_bit 3 1
      in if v AND push_bit 4 1 = 0
         then (let s = s\<lparr>PMU_PS_CR := v\<rparr>; v = (if msec < 5 then 5 else ucast msec :: u32)
               in s\<lparr>PMU_TIMER1 := (v - 5) OR push_bit 16 1\<rparr>)
         else s\<lparr>PMU_TIMER1 := (ucast msec - 1) OR push_bit 16 1\<rparr>)"

definition tls_pmu_timer1_stop :: "pmu_regs \<Rightarrow> pmu_regs" where
  "tls_pmu_timer1_stop s = s\<lparr>PMU_TIMER1 := PMU_TIMER1 s AND NOT (push_bit 16 1) AND NOT (push_bit 17 1)\<rparr>"

definition tls_pmu_standby_start :: "pmu_regs \<Rightarrow> pmu_regs" where
  "tls_pmu_standby_start s =
     (let s = clear_wake (s\<lparr>pmu_irqs := tls_irq_enable PMU_IRQn (pmu_irqs s)\<rparr>) in s\<lparr>PMU_PS_CR := PMU_PS_CR s OR push_bit 0 1\<rparr>)"

definition tls_pmu_sleep_start :: "pmu_regs \<Rightarrow> pmu_regs" where
  "tls_pmu_sleep_start s =
     (let s = clear_wake (s\<lparr>pmu_irqs := tls_irq_enable PMU_IRQn (pmu_irqs s)\<rparr>);
          v = PMU_PS_CR s;
          s = (if v AND push_bit 4 1 \<noteq> 0 then s\<lparr>PMU_WLAN_STTS := PMU_WLAN_STTS s OR push_bit 8 1\<rparr> else s)
      in s\<lparr>PMU_PS_CR := v OR push_bit 1 1\<rparr>)"

definition tls_close_peripheral_clock :: "u32 \<Rightarrow> pmu_regs \<Rightarrow> pmu_regs" where
  "tls_close_peripheral_clock devices s = s\<lparr>CLK_GATES := CLK_GATES s AND NOT devices\<rparr>"

definition tls_open_peripheral_clock :: "u32 \<Rightarrow> pmu_regs \<Rightarrow> pmu_regs" where
  "tls_open_peripheral_clock devices s = s\<lparr>CLK_GATES := CLK_GATES s OR devices\<rparr>"

subsection \<open>The clock\<close>

text \<open>The members of \<^verbatim>\<open>struct tm\<close> that the clock keeps; the days of the week and of the year are left out.  \<^verbatim>\<open>int\<close>s are 32-bit words.\<close>

record tm =
  tm_sec :: u32
  tm_min :: u32
  tm_hour :: u32
  tm_mday :: u32
  tm_mon :: u32
  tm_year :: u32

definition rtc_ctrl1 :: "tm \<Rightarrow> u32" where
  "rtc_ctrl1 t = tm_sec t OR push_bit 8 (tm_min t) OR push_bit 16 (tm_hour t) OR push_bit 24 (tm_mday t)"

definition rtc_ctrl2 :: "tm \<Rightarrow> u32" where
  "rtc_ctrl2 t = tm_mon t OR push_bit 8 (tm_year t)"

definition tls_set_rtc :: "tm \<Rightarrow> pmu_regs \<Rightarrow> pmu_regs" where
  "tls_set_rtc t s =
     (let s = s\<lparr>PMU_RTC_CTRL2 := PMU_RTC_CTRL2 s AND NOT (push_bit 16 1)\<rparr>;
          s = s\<lparr>PMU_RTC_CTRL1 := rtc_ctrl1 t\<rparr>;
          s = s\<lparr>PMU_RTC_CTRL2 := rtc_ctrl2 t\<rparr>
      in s\<lparr>PMU_RTC_CTRL2 := PMU_RTC_CTRL2 s OR push_bit 16 1\<rparr>)"

definition tls_get_rtc :: "pmu_regs \<Rightarrow> tm" where
  "tls_get_rtc s =
     (let ctrl1 = PMU_RTC_CTRL1 s; ctrl2 = PMU_RTC_CTRL2 s
      in \<lparr>tm_sec = ctrl1 AND 0x3f, tm_min = drop_bit 8 (ctrl1 AND 0x3f00), tm_hour = drop_bit 16 (ctrl1 AND 0x1f0000),
          tm_mday = drop_bit 24 (ctrl1 AND 0x1f000000), tm_mon = ctrl2 AND 0xf, tm_year = drop_bit 8 (ctrl2 AND 0x7f00)\<rparr>)"

definition tls_rtc_timer_start :: "tm \<Rightarrow> pmu_regs \<Rightarrow> pmu_regs" where
  "tls_rtc_timer_start t s =
     s\<lparr>pmu_irqs := tls_irq_enable PMU_IRQn (pmu_irqs s), PMU_RTC_CTRL2 := rtc_ctrl2 t OR push_bit 16 1,
       PMU_RTC_CTRL1 := rtc_ctrl1 t OR push_bit 31 1\<rparr>"

definition tls_rtc_timer_stop :: "pmu_regs \<Rightarrow> pmu_regs" where
  "tls_rtc_timer_stop s = s\<lparr>PMU_RTC_CTRL1 := PMU_RTC_CTRL1 s AND NOT (push_bit 31 1)\<rparr>"

definition luat_rtc_set :: "tm option \<Rightarrow> pmu_regs \<Rightarrow> int \<times> pmu_regs" where
  "luat_rtc_set t s = (case t of None \<Rightarrow> (- 1, s) | Some t \<Rightarrow> (0, tls_set_rtc t s))"

definition luat_rtc_get :: "bool \<Rightarrow> pmu_regs \<Rightarrow> int \<times> tm option" where
  "luat_rtc_get isnull s = (if isnull then (- 1, None) else (0, Some (tls_get_rtc s)))"

text \<open>\<open>luat_rtc_cb\<close> is callback 0; it posts a message.\<close>

definition luat_rtc_timer_start :: "int \<Rightarrow> tm option \<Rightarrow> pmu_regs \<Rightarrow> int \<times> pmu_regs" where
  "luat_rtc_timer_start tid t s =
     (if tid \<noteq> 0 then (- 1, s)
      else case t of None \<Rightarrow> (- 1, s) | Some t \<Rightarrow> (0, tls_rtc_timer_start t (tls_rtc_isr_register (Some (0, 0)) s)))"

definition luat_rtc_timer_stop :: "int \<Rightarrow> pmu_regs \<Rightarrow> int \<times> pmu_regs" where
  "luat_rtc_timer_stop tid s = (if tid \<noteq> 0 then (- 1, s) else (0, tls_rtc_timer_stop s))"

text \<open>
  The conversions between a date and seconds are in a library outside the repository: \<open>to_utc\<close> and \<open>to_tamp\<close>, on the day, month from
  1, full year and the time of day.
\<close>

type_synonym date_time = "u32 \<times> u32 \<times> u32 \<times> u32 \<times> u32 \<times> u32"

definition date_of_tm :: "tm \<Rightarrow> date_time" where
  "date_of_tm t = (tm_year t + 1900, tm_mon t + 1, tm_mday t, tm_hour t, tm_min t, tm_sec t)"

definition tm_of_date :: "date_time \<Rightarrow> tm" where
  "tm_of_date = (\<lambda>(y, mo, d, h, mi, sec).
     \<lparr>tm_sec = sec, tm_min = mi, tm_hour = h, tm_mday = d, tm_mon = mo - 1, tm_year = y - 1900\<rparr>)"

definition RTC_GetDateTime :: "pmu_regs \<Rightarrow> date_time" where
  "RTC_GetDateTime s = date_of_tm (tls_get_rtc s)"

definition wrap_mktime :: "(date_time \<Rightarrow> 64 word) \<Rightarrow> tm \<Rightarrow> 64 word" where
  "wrap_mktime to_tamp t = to_tamp (date_of_tm t) AND 0xFFFFFFFF"

definition wrap_gmtime :: "(64 word \<Rightarrow> date_time) \<Rightarrow> 64 word option \<Rightarrow> pmu_regs \<Rightarrow> tm" where
  "wrap_gmtime to_utc timer s =
     tm_of_date (case timer of Some sec \<Rightarrow> to_utc sec | None \<Rightarrow> RTC_GetDateTime s)"

definition wrap_localtime :: "(64 word \<Rightarrow> date_time) \<Rightarrow> 64 word option \<Rightarrow> pmu_regs \<Rightarrow> tm" where
  "wrap_localtime to_utc timer s =
     tm_of_date (case timer of Some sec \<Rightarrow> to_utc sec | None \<Rightarrow> RTC_GetDateTime s)"

text \<open>The time zone of the runtime, set when one is given.\<close>

definition luat_rtc_timezone :: "int option \<Rightarrow> int \<Rightarrow> int \<times> int" where
  "luat_rtc_timezone tz rtc_timezone = (case tz of Some t \<Rightarrow> (t, t) | None \<Rightarrow> (rtc_timezone, rtc_timezone))"

definition time_now :: "(date_time \<Rightarrow> 64 word) \<Rightarrow> pmu_regs \<Rightarrow> 64 word" where
  "time_now to_tamp s = wrap_mktime to_tamp (tls_get_rtc s)"

definition luat_rtc_set_tamp32 :: "(64 word \<Rightarrow> date_time) \<Rightarrow> u32 \<Rightarrow> pmu_regs \<Rightarrow> pmu_regs" where
  "luat_rtc_set_tamp32 to_utc tamp s = snd (luat_rtc_set (Some (wrap_gmtime to_utc (Some (ucast tamp)) s)) s)"

section \<open>Setting and reading the clock\<close>

lemma mask_fields:
  "(0x3f :: u32) = mask 6" "(0x3f00 :: u32) = push_bit 8 (mask 6)" "(0x1f0000 :: u32) = push_bit 16 (mask 5)"
  "(0x1f000000 :: u32) = push_bit 24 (mask 5)" "(0xf :: u32) = mask 4" "(0x7f00 :: u32) = push_bit 8 (mask 7)"
  by (simp_all add: mask_eq_exp_minus_1)

lemma small_bits: "(x :: u32) < 256 \<Longrightarrow> 8 \<le> k \<Longrightarrow> \<not> bit x k"
proof
  assume x: "x < 256" and k: "8 \<le> k" "bit x k"
  have "unat x < 2 ^ 8" using x by (simp add: word_less_nat_alt)
  then have "take_bit 8 (unat x) = unat x" by (rule take_bit_nat_eq_self)
  moreover have "bit (unat x) k" using k(2) bit_imp_le_length [OF k(2)] by (simp add: bit_unsigned_iff)
  ultimately have "bit (take_bit 8 (unat x)) k" by simp
  then show False using k(1) by (simp add: bit_take_bit_iff)
qed

lemma enable_bit: "bit (65536 :: int) n \<longleftrightarrow> n = 16" "bit (256 :: int) n \<longleftrightarrow> n = 8"
  using bit_exp_iff [of 16 n, where ?'a = int] bit_exp_iff [of 8 n, where ?'a = int] by auto

text \<open>
  The fields are read back as far as the masks reach: in particular only seven bits of the year, so that 2028, the year 128,
  is read as 1900.
\<close>

lemma rtc_read_back:
  assumes "tm_sec t < 256" "tm_min t < 256" "tm_hour t < 256" "tm_mon t < 256"
  shows "tls_get_rtc (tls_set_rtc t s) =
     \<lparr>tm_sec = take_bit 6 (tm_sec t), tm_min = take_bit 6 (tm_min t), tm_hour = take_bit 5 (tm_hour t),
      tm_mday = take_bit 5 (tm_mday t), tm_mon = take_bit 4 (tm_mon t), tm_year = take_bit 7 (tm_year t)\<rparr>"
  unfolding tls_get_rtc_def tls_set_rtc_def Let_def rtc_ctrl1_def rtc_ctrl2_def mask_fields
  using enable_bit small_bits [OF assms(1)] small_bits [OF assms(2)] small_bits [OF assms(3)] small_bits [OF assms(4)]
  by (auto simp: bit_simps intro!: bit_word_eqI)

lemma take_bit_small: "(x :: u32) < 2 ^ n \<Longrightarrow> n < 32 \<Longrightarrow> take_bit n x = x"
  by (simp add: take_bit_eq_mod mod_word_less word_less_nat_alt)

lemma rtc_set_get:
  assumes "tm_sec t < 64" "tm_min t < 64" "tm_hour t < 32" "tm_mday t < 32" "tm_mon t < 16" "tm_year t < 128"
  shows "tls_get_rtc (tls_set_rtc t s) = t"
proof -
  have "x < 256" if "x < 64" for x :: u32 using that by (rule less_trans) simp
  moreover have "tm_hour t < 256" "tm_mon t < 256" using assms(3,5) by (auto intro: less_trans)
  ultimately have "tls_get_rtc (tls_set_rtc t s) =
     \<lparr>tm_sec = take_bit 6 (tm_sec t), tm_min = take_bit 6 (tm_min t), tm_hour = take_bit 5 (tm_hour t),
      tm_mday = take_bit 5 (tm_mday t), tm_mon = take_bit 4 (tm_mon t), tm_year = take_bit 7 (tm_year t)\<rparr>"
    using assms by (intro rtc_read_back) auto
  then show ?thesis using assms take_bit_small [of _ 4] take_bit_small [of _ 5] take_bit_small [of _ 6] take_bit_small [of _ 7] by simp
qed

lemma rtc_year_wraps:
  assumes "tm_sec t < 64" "tm_min t < 64" "tm_hour t < 32" "tm_mon t < 16" "tm_year t = 128"
  shows "tm_year (tls_get_rtc (tls_set_rtc t s)) = 0"
proof -
  have "x < 256" if "x < 64" for x :: u32 using that by (rule less_trans) simp
  moreover have "tm_hour t < 256" "tm_mon t < 256" using assms(3,4) by (auto intro: less_trans)
  ultimately show ?thesis using assms rtc_read_back [of t s] by (simp add: take_bit_eq_mod)
qed

section \<open>The timers\<close>

text \<open>Timer 1 counts \<^verbatim>\<open>msec\<close> and is enabled, but 0 milliseconds on the bypass clock set every bit of the register.\<close>

lemma timer1_start_zero:
  assumes "bit (PMU_PS_CR s) 4"
  shows "PMU_TIMER1 (tls_pmu_timer1_start 0 s) = - 1"
proof -
  have "(PMU_PS_CR s OR push_bit 3 1) AND push_bit 4 1 \<noteq> 0"
    using assms irq_bit [of "PMU_PS_CR s OR push_bit 3 1" 4] by (simp add: bit_or_iff)
  then show ?thesis
    by (simp add: tls_pmu_timer1_start_def Let_def clear_wake_def clear_src_def)
qed

lemma timer1_handler_stops: "\<not> bit (PMU_TIMER1 (PMU_TIMER1_IRQHandler s)) 16" "\<not> bit (PMU_TIMER0 (PMU_TIMER0_IRQHandler s)) 16"
  by (simp_all add: PMU_TIMER1_IRQHandler_def PMU_TIMER0_IRQHandler_def Let_def pmu_call_def clear_src_def bit_simps irq_clear
      split: option.splits)

lemma clock_gates: "bit (CLK_GATES (tls_open_peripheral_clock d s)) i \<longleftrightarrow> bit (CLK_GATES s) i \<or> bit d i"
  "bit (CLK_GATES (tls_close_peripheral_clock d s)) i \<longleftrightarrow> bit (CLK_GATES s) i \<and> \<not> bit d i"
  by (auto simp: tls_open_peripheral_clock_def tls_close_peripheral_clock_def bit_simps dest: bit_imp_le_length)

end
