(* ===== verification/Uart.thy ===== *)
theory Uart
  imports Dma Irq
begin

text \<open>
  The serial driver, \<^verbatim>\<open>platform/drivers/uart/wm_uart.c\<close> and \<^verbatim>\<open>include/driver/wm_uart.h\<close>: configuration of a port, the
  queue of messages to send, the ring of received bytes, and the three interrupt handlers.

  A port is the record of its fields and of its registers.  What the driver reads from the hardware is an argument:
  \<open>wr\<close> gives the interrupt source register after a write to it, and \<open>uart_in\<close> holds the values the reads of the FIFO
  status and of the receive window return during one activation of a handler.  The bytes written to the transmit window
  are kept in order in \<open>UR_TXW\<close>, the calls of registered callbacks in \<open>calls\<close> (a receive callback with the ring it can
  look at), and the messages whose memory was given back in \<open>freed\<close>.  A message always has a buffer, since
  \<open>tls_uart_fill_buf\<close> is the only code that makes one.  A list of the kind \<^verbatim>\<open>dl_list\<close> is the list of its entries
  (theory \<open>Dl_List\<close>).
\<close>

section \<open>Registers, options and ports\<close>

abbreviation ULCON_WL_MASK :: u32 where "ULCON_WL_MASK \<equiv> 0x03"
abbreviation ULCON_STOP_2 :: u32 where "ULCON_STOP_2 \<equiv> 0x04"
abbreviation ULCON_PMD_MASK :: u32 where "ULCON_PMD_MASK \<equiv> 0x18"
abbreviation ULCON_PMD_EN :: u32 where "ULCON_PMD_EN \<equiv> 0x08"
abbreviation ULCON_PMD_ODD :: u32 where "ULCON_PMD_ODD \<equiv> 0x18"
abbreviation ULCON_PMD_EVEN :: u32 where "ULCON_PMD_EVEN \<equiv> 0x08"
abbreviation ULCON_TX_EN :: u32 where "ULCON_TX_EN \<equiv> 0x40"
abbreviation ULCON_RX_EN :: u32 where "ULCON_RX_EN \<equiv> 0x80"
abbreviation UIS_TX_FIFO_EMPTY :: u32 where "UIS_TX_FIFO_EMPTY \<equiv> 0x001"
abbreviation UIS_TX_FIFO :: u32 where "UIS_TX_FIFO \<equiv> 0x002"
abbreviation UIS_RX_FIFO :: u32 where "UIS_RX_FIFO \<equiv> 0x004"
abbreviation UIS_RX_FIFO_TIMEOUT :: u32 where "UIS_RX_FIFO_TIMEOUT \<equiv> 0x008"
abbreviation UIS_CTS_CHNG :: u32 where "UIS_CTS_CHNG \<equiv> 0x010"
abbreviation UIS_OVERRUN :: u32 where "UIS_OVERRUN \<equiv> 0x100"
abbreviation UART_RX_INT_FLAG :: u32 where "UART_RX_INT_FLAG \<equiv> 0x1EC"
abbreviation UART_RX_ERR_INT_FLAG :: u32 where "UART_RX_ERR_INT_FLAG \<equiv> 0x0E0"
abbreviation UART_TX_INT_FLAG :: u32 where "UART_TX_INT_FLAG \<equiv> 0x003"
abbreviation UFS_TX_FIFO_CNT_MASK :: u32 where "UFS_TX_FIFO_CNT_MASK \<equiv> 0x3F"
abbreviation UFS_CST_STS :: u32 where "UFS_CST_STS \<equiv> 0x1000"
abbreviation TLS_UART_RX_BUF_SIZE :: nat where "TLS_UART_RX_BUF_SIZE \<equiv> 4096"
abbreviation RX_CACHE_LIMIT :: u32 where "RX_CACHE_LIMIT \<equiv> 128"
abbreviation TLS_UART_MAX :: nat where "TLS_UART_MAX \<equiv> 6"
abbreviation TLS_UART_FLOW_CTRL_NONE :: u32 where "TLS_UART_FLOW_CTRL_NONE \<equiv> 0"
abbreviation TLS_UART_FLOW_CTRL_HARDWARE :: u32 where "TLS_UART_FLOW_CTRL_HARDWARE \<equiv> 1"
abbreviation TLS_UART_RX_DISABLE :: u32 where "TLS_UART_RX_DISABLE \<equiv> 0"
abbreviation TLS_UART_RX_ENABLE :: u32 where "TLS_UART_RX_ENABLE \<equiv> 1"
abbreviation UART_WM_SUCCESS :: int where "UART_WM_SUCCESS \<equiv> 0"
abbreviation UART_WM_FAILED :: int where "UART_WM_FAILED \<equiv> - 1"

record tls_uart_options =
  baudrate :: u32
  charlength :: u32
  paritytype :: u32
  flow_ctrl :: u32
  stopbits :: u32

record tls_uart_circ_buf =
  buf :: "u8 list"
  head :: u32
  tail :: u32

record tls_uart_regs =
  UR_LC :: u32
  UR_FC :: u32
  UR_DMAC :: u32
  UR_FIFOC :: u32
  UR_BD :: u32
  UR_INTM :: u32
  UR_INTS :: u32
  UR_TXW :: "u8 list"

record tls_uart_tx_msg =
  tx_buf :: "u8 list"
  buflen :: u16
  offset :: u16

datatype tx_cb = FreeSent | UserTx

datatype uart_call = RxCall u16 u32 tls_uart_circ_buf | TxSentCall u32 | TxUserCall u32

record tls_uart_port =
  is_485used :: bool
  rx_level :: bool
  wait_time :: u16
  rs485_pin :: u8
  uart_cb_len :: u8
  uart_no :: u32
  uart_irq_no :: nat
  plus_char_cnt :: u32
  opts :: tls_uart_options
  fcStatus :: u32
  rxstatus :: u32
  tx_fifofull :: u32
  regs :: tls_uart_regs
  icount_tx :: u32
  recv :: tls_uart_circ_buf
  tx_msg_pending_list :: "tls_uart_tx_msg list"
  tx_msg_to_be_freed_list :: "tls_uart_tx_msg list"
  hw_stopped :: bool
  rx_callback :: bool
  tx_callback :: "tx_cb option"
  tx_sent_callback :: bool
  tx_dma_on :: bool
  priv_data :: u32
  calls :: "uart_call list"
  freed :: "tls_uart_tx_msg list"

record uart_in =
  rx_fifos :: u32
  rxw :: "nat \<Rightarrow> u8"
  tx_fifos :: "nat \<Rightarrow> u32"
  cts_fifos :: u32
  cts_tx_fifos :: "nat \<Rightarrow> u32"
  outside :: "u32 \<Rightarrow> u8"

definition upd_regs :: "(tls_uart_regs \<Rightarrow> tls_uart_regs) \<Rightarrow> tls_uart_port \<Rightarrow> tls_uart_port" where
  "upd_regs f p = p\<lparr>regs := f (regs p)\<rparr>"

definition or_LC :: "u32 \<Rightarrow> tls_uart_port \<Rightarrow> tls_uart_port" where
  "or_LC b = upd_regs (\<lambda>r. r\<lparr>UR_LC := UR_LC r OR b\<rparr>)"

definition clear_LC :: "u32 \<Rightarrow> tls_uart_port \<Rightarrow> tls_uart_port" where
  "clear_LC b = upd_regs (\<lambda>r. r\<lparr>UR_LC := UR_LC r AND NOT b\<rparr>)"

section \<open>Configuration of a port\<close>

definition baud_rates :: "u32 list" where
  "baud_rates = [2000000, 1500000, 1250000, 1000000, 921600, 460800, 230400, 115200, 57600, 38400, 19200, 9600, 4800,
     2400, 1800, 1200, 600]"

definition tls_uart_check_baudrate :: "u32 \<Rightarrow> int" where
  "tls_uart_check_baudrate b = (if b \<in> set baud_rates then 1 else - 1)"

text \<open>The divider: its integer part minus one in the low half, sixteenths in the upper half.  A product \<open>16 * baudrate\<close>
  that is zero in 32 bits divides by zero: \<open>None\<close>.\<close>

definition baud_value :: "u32 \<Rightarrow> u32 \<Rightarrow> u32 option" where
  "baud_value apbclk baud =
     (if 16 * baud = 0 then None
      else Some ((apbclk div (16 * baud) - 1) OR push_bit 16 ((apbclk mod (baud * 16)) * 16 div (baud * 16))))"

text \<open>\<open>mapped\<close>: the register pointer of the port is not null.\<close>

definition tls_uart_get_baud_rate :: "bool \<Rightarrow> tls_uart_port option \<Rightarrow> u32" where
  "tls_uart_get_baud_rate mapped port = (case port of None \<Rightarrow> 0 | Some p \<Rightarrow> if mapped then baudrate (opts p) else 0)"

definition tls_uart_set_baud_rate_inside :: "u32 \<Rightarrow> u32 \<Rightarrow> tls_uart_port \<Rightarrow> (int \<times> tls_uart_port) option" where
  "tls_uart_set_baud_rate_inside apb_mhz baud p =
     (case baud_value (apb_mhz * 1000000) baud of
        None \<Rightarrow> None
      | Some v \<Rightarrow>
          Some (UART_WM_SUCCESS, (upd_regs (\<lambda>r. r\<lparr>UR_BD := v\<rparr>) p)\<lparr>opts := (opts p)\<lparr>baudrate := baud\<rparr>\<rparr>))"

definition tls_uart_set_parity_inside :: "u32 \<Rightarrow> tls_uart_port \<Rightarrow> int \<times> tls_uart_port" where
  "tls_uart_set_parity_inside parity p =
     (let p = p\<lparr>opts := (opts p)\<lparr>paritytype := parity\<rparr>\<rparr>
      in if parity = 0 then (UART_WM_SUCCESS, clear_LC ULCON_PMD_EN p)
         else if parity = 2 then (UART_WM_SUCCESS, or_LC ULCON_PMD_EVEN (clear_LC ULCON_PMD_MASK p))
         else if parity = 1 then (UART_WM_SUCCESS, or_LC ULCON_PMD_ODD (clear_LC ULCON_PMD_MASK p))
         else (UART_WM_FAILED, p))"

definition tls_uart_set_data_bits :: "u32 \<Rightarrow> tls_uart_port \<Rightarrow> int \<times> tls_uart_port" where
  "tls_uart_set_data_bits len p =
     (let p = clear_LC ULCON_WL_MASK (p\<lparr>opts := (opts p)\<lparr>charlength := len\<rparr>\<rparr>)
      in if len \<le> 3 then (UART_WM_SUCCESS, or_LC len p) else (UART_WM_FAILED, p))"

definition tls_uart_set_stop_bits_inside :: "u32 \<Rightarrow> tls_uart_port \<Rightarrow> int \<times> tls_uart_port" where
  "tls_uart_set_stop_bits_inside bits p =
     (let p = p\<lparr>opts := (opts p)\<lparr>stopbits := bits\<rparr>\<rparr>
      in (UART_WM_SUCCESS, if bits = 1 then or_LC ULCON_STOP_2 p else clear_LC ULCON_STOP_2 p))"

text \<open>The status: 0 for OK, 1 for ERROR.\<close>

definition tls_uart_set_flow_ctrl :: "u32 \<Rightarrow> tls_uart_port \<Rightarrow> nat \<times> tls_uart_port" where
  "tls_uart_set_flow_ctrl fc p =
     (if fc = TLS_UART_FLOW_CTRL_NONE then (0, upd_regs (\<lambda>r. r\<lparr>UR_FC := 0\<rparr>) p)
      else if fc = TLS_UART_FLOW_CTRL_HARDWARE then
        (0, if flow_ctrl (opts p) = TLS_UART_FLOW_CTRL_HARDWARE then upd_regs (\<lambda>r. r\<lparr>UR_FC := 1 OR push_bit 2 6\<rparr>) p else p)
      else (1, p))"

definition tls_uart_rx_disable :: "tls_uart_port \<Rightarrow> tls_uart_port" where "tls_uart_rx_disable = clear_LC ULCON_RX_EN"
definition tls_uart_rx_enable :: "tls_uart_port \<Rightarrow> tls_uart_port" where "tls_uart_rx_enable = or_LC ULCON_RX_EN"
definition tls_uart_tx_enable :: "tls_uart_port \<Rightarrow> tls_uart_port" where "tls_uart_tx_enable = or_LC ULCON_TX_EN"
definition tls_uart_tx_disable :: "tls_uart_port \<Rightarrow> tls_uart_port" where "tls_uart_tx_disable = clear_LC ULCON_TX_EN"

text \<open>The results of the setters are not looked at.\<close>

definition tls_uart_config ::
  "(u32 \<Rightarrow> u32 \<Rightarrow> u32) \<Rightarrow> u32 \<Rightarrow> tls_uart_options \<Rightarrow> tls_uart_port \<Rightarrow> (int \<times> tls_uart_port) option" where
  "tls_uart_config wr apb_mhz opt p =
     (case tls_uart_set_baud_rate_inside apb_mhz (baudrate opt) p of
        None \<Rightarrow> None
      | Some (_, p) \<Rightarrow>
          (let p = snd (tls_uart_set_parity_inside (paritytype opt) p);
               p = snd (tls_uart_set_data_bits (charlength opt) p);
               p = snd (tls_uart_set_stop_bits_inside (stopbits opt) p);
               p = p\<lparr>opts := (opts p)\<lparr>flow_ctrl := flow_ctrl opt\<rparr>\<rparr>;
               p = snd (tls_uart_set_flow_ctrl (flow_ctrl opt) p);
               p = upd_regs (\<lambda>r. r\<lparr>UR_INTS := wr (UR_INTS r) 0xFFFFFFFF, UR_INTM := 0,
                     UR_DMAC := push_bit 3 4 OR 4, UR_FIFOC := push_bit 2 3 OR push_bit 4 3 OR 1 OR 2\<rparr>) p
           in Some (UART_WM_SUCCESS, or_LC (ULCON_RX_EN OR ULCON_TX_EN) (clear_LC (ULCON_TX_EN OR ULCON_RX_EN) p))))"

definition UartRegInit :: "u32 \<Rightarrow> nat \<Rightarrow> tls_uart_regs \<Rightarrow> tls_uart_regs" where
  "UartRegInit apb_mhz no r =
     (if no = 0 then
        r\<lparr>UR_BD := (let apbclk = apb_mhz * 1000000
            in (apbclk div (16 * 115200) - 1) OR push_bit 16 ((apbclk mod (115200 * 16)) * 16 div (115200 * 16))),
          UR_LC := 3 OR ULCON_TX_EN, UR_FC := 0, UR_DMAC := 0, UR_FIFOC := 0, UR_INTM := 0xFF\<rparr>
      else r\<lparr>UR_FIFOC := push_bit 2 1 OR push_bit 4 2, UR_DMAC := push_bit 3 8 OR push_bit 2 1, UR_INTM := NOT (push_bit 2 3)\<rparr>)"

section \<open>Sending\<close>

text \<open>At most \<open>n\<close> more bytes of the message, while the FIFO is not full; \<open>k\<close> counts the reads of its status.\<close>

fun tx_loop :: "(nat \<Rightarrow> u32) \<Rightarrow> u32 \<Rightarrow> nat \<Rightarrow> nat \<Rightarrow> tls_uart_tx_msg \<Rightarrow> u8 list \<times> tls_uart_tx_msg" where
  "tx_loop fifos full k 0 m = ([], m)"
| "tx_loop fifos full k (Suc n) m =
     (if offset m < buflen m then
        (if fifos k AND UFS_TX_FIFO_CNT_MASK = full then ([], m)
         else (let (bs, m') = tx_loop fifos full (Suc k) n (m\<lparr>offset := offset m + 1\<rparr>)
               in (tx_buf m ! unat (offset m) # bs, m')))
      else ([], m))"

fun free_loop :: "tls_uart_tx_msg list \<Rightarrow> tls_uart_port \<Rightarrow> tls_uart_port" where
  "free_loop [] p = p"
| "free_loop (m # ms) p = free_loop ms (p\<lparr>tx_msg_to_be_freed_list := ms, freed := freed p @ [m]\<rparr>)"

definition tls_uart_free_tx_sent_data :: "tls_uart_port \<Rightarrow> tls_uart_port" where
  "tls_uart_free_tx_sent_data p = free_loop (tx_msg_to_be_freed_list p) p"

definition call_tx_callbacks :: "tls_uart_port \<Rightarrow> tls_uart_port" where
  "call_tx_callbacks p =
     (let p = (if tx_sent_callback p then p\<lparr>calls := calls p @ [TxSentCall (uart_no p)]\<rparr> else p)
      in case tx_callback p of
           None \<Rightarrow> p
         | Some FreeSent \<Rightarrow> tls_uart_free_tx_sent_data p
         | Some UserTx \<Rightarrow> p\<lparr>calls := calls p @ [TxUserCall (uart_no p)]\<rparr>)"

text \<open>The interrupt's \<^verbatim>\<open>tls_uart_tx_chars\<close> and the writer's \<^verbatim>\<open>tls_uart_tx_chars_start\<close> have the same body.\<close>

definition tls_uart_tx_chars :: "(nat \<Rightarrow> u32) \<Rightarrow> tls_uart_port \<Rightarrow> tls_uart_port" where
  "tls_uart_tx_chars fifos p =
     (case tx_msg_pending_list p of
        [] \<Rightarrow> p
      | m # ms \<Rightarrow>
          (let (bs, m') = tx_loop fifos (tx_fifofull p) 0 32 m;
               p = (upd_regs (\<lambda>r. r\<lparr>UR_TXW := UR_TXW r @ bs\<rparr>) p)\<lparr>icount_tx := icount_tx p + of_nat (length bs)\<rparr>
           in if offset m' \<ge> buflen m'
              then call_tx_callbacks (p\<lparr>tx_msg_pending_list := ms, tx_msg_to_be_freed_list := tx_msg_to_be_freed_list p @ [m']\<rparr>)
              else p\<lparr>tx_msg_pending_list := m' # ms\<rparr>))"

definition tls_uart_tx_chars_start :: "(nat \<Rightarrow> u32) \<Rightarrow> tls_uart_port \<Rightarrow> tls_uart_port" where
  "tls_uart_tx_chars_start fifos p =
     (case tx_msg_pending_list p of
        [] \<Rightarrow> p
      | m # ms \<Rightarrow>
          (let (bs, m') = tx_loop fifos (tx_fifofull p) 0 32 m;
               p = (upd_regs (\<lambda>r. r\<lparr>UR_TXW := UR_TXW r @ bs\<rparr>) p)\<lparr>icount_tx := icount_tx p + of_nat (length bs)\<rparr>
           in if offset m' \<ge> buflen m'
              then call_tx_callbacks (p\<lparr>tx_msg_pending_list := ms, tx_msg_to_be_freed_list := tx_msg_to_be_freed_list p @ [m']\<rparr>)
              else p\<lparr>tx_msg_pending_list := m' # ms\<rparr>))"

text \<open>The sum of the lengths is taken in 16 bits.\<close>

definition tls_uart_tx_remain_len :: "tls_uart_port \<Rightarrow> int" where
  "tls_uart_tx_remain_len p = 4096 - uint (foldl (\<lambda>n m. n + buflen m) 0 (tx_msg_pending_list p))"

text \<open>\<open>alloc_msg\<close> and \<open>alloc_buf\<close>: whether the two allocations succeed.\<close>

definition tls_uart_fill_buf :: "bool \<Rightarrow> bool \<Rightarrow> u8 list \<Rightarrow> tls_uart_port \<Rightarrow> int \<times> tls_uart_port" where
  "tls_uart_fill_buf alloc_msg alloc_buf data p =
     (if \<not> alloc_msg then (- 1, p)
      else if \<not> alloc_buf then (- 1, p)
      else (0, p\<lparr>tx_msg_pending_list := tx_msg_pending_list p @
             [\<lparr>tx_buf = data, buflen = of_nat (length data), offset = 0\<rparr>]\<rparr>))"

text \<open>\<open>data\<close> is the buffer, \<open>None\<close> a null pointer; its first \<open>writesize\<close> bytes are sent.\<close>

definition tls_uart_write_async ::
  "bool \<Rightarrow> bool \<Rightarrow> (nat \<Rightarrow> u32) \<Rightarrow> u8 list option \<Rightarrow> u16 \<Rightarrow> tls_uart_port \<Rightarrow> int \<times> tls_uart_port" where
  "tls_uart_write_async alloc_msg alloc_buf fifos data writesize p =
     (case data of
        None \<Rightarrow> (UART_WM_FAILED, p)
      | Some bs \<Rightarrow>
          (if writesize < 1 then (UART_WM_FAILED, p)
           else (let (ret, p) = tls_uart_fill_buf alloc_msg alloc_buf (take (unat writesize) bs) p
                 in (ret, if ret = 0 then tls_uart_tx_chars_start fifos p else p))))"

definition tls_uart_write ::
  "bool \<Rightarrow> bool \<Rightarrow> (nat \<Rightarrow> u32) \<Rightarrow> u8 list option \<Rightarrow> u16 \<Rightarrow> tls_uart_port \<Rightarrow> int \<times> tls_uart_port" where
  "tls_uart_write alloc_msg alloc_buf fifos data writesize p = tls_uart_write_async alloc_msg alloc_buf fifos data writesize p"

definition tls_uart_tx_length :: "tls_uart_port \<Rightarrow> u32" where "tls_uart_tx_length p = icount_tx p"

definition tls_uart_set_fc_status :: "(nat \<Rightarrow> u32) \<Rightarrow> u32 \<Rightarrow> tls_uart_port \<Rightarrow> tls_uart_port" where
  "tls_uart_set_fc_status fifos status p =
     (let p = snd (tls_uart_set_flow_ctrl status (p\<lparr>fcStatus := status\<rparr>))
      in if flow_ctrl (opts p) = TLS_UART_FLOW_CTRL_HARDWARE \<and> status = 0 \<and> hw_stopped p
         then (tls_uart_tx_chars fifos (tls_uart_tx_enable p))\<lparr>hw_stopped := False\<rparr> else p)"

definition uart_handle_cts_change :: "(nat \<Rightarrow> u32) \<Rightarrow> u32 \<Rightarrow> tls_uart_port \<Rightarrow> tls_uart_port" where
  "uart_handle_cts_change fifos status p =
     (if fcStatus p = 1 \<and> flow_ctrl (opts p) = TLS_UART_FLOW_CTRL_HARDWARE \<and> uart_no p = 1 then
        (if hw_stopped p then
           (if status \<noteq> 0 then tls_uart_tx_chars fifos (tls_uart_tx_enable (p\<lparr>hw_stopped := False\<rparr>)) else p)
         else if status = 0 then tls_uart_tx_disable (p\<lparr>hw_stopped := True\<rparr>) else p)
      else p)"

end
