(* ===== verification/Uart_Irq.thy ===== *)
theory Uart_Irq
  imports Uart
begin

text \<open>
  The receiving side of \<^verbatim>\<open>platform/drivers/uart/wm_uart.c\<close>: the ring of received bytes with its readers, the interrupt
  handlers, the initialisation of a port and the transmission through the DMA driver.

  The handlers \<open>uart0_irq\<close>, \<open>uart1_irq\<close> and \<open>uart2_irq\<close> act on one port; \<open>UART0_IRQHandler\<close>, \<open>UART1_IRQHandler\<close> and
  \<open>UART2_4_IRQHandler\<close> choose it among the six ports of \<open>uart_sys\<close>.  The field \<open>uart_no\<close> of a port is its index there.
  A read of the ring's memory at an index beyond it returns what \<open>outside\<close> gives.
\<close>

section \<open>The ring of received bytes\<close>

definition CIRC_CNT :: "u32 \<Rightarrow> u32 \<Rightarrow> u32" where
  "CIRC_CNT h t = (h - t) AND 0xFFF"

definition CIRC_SPACE :: "u32 \<Rightarrow> u32 \<Rightarrow> u32" where
  "CIRC_SPACE h t = CIRC_CNT t (h + 1)"

definition ring_put :: "u8 \<Rightarrow> tls_uart_circ_buf \<Rightarrow> tls_uart_circ_buf" where
  "ring_put ch r = r\<lparr>buf := (buf r)[unat (head r) := ch], head := (head r + 1) AND 0xFFF\<rparr>"

definition tls_uart_try_read :: "int \<Rightarrow> tls_uart_port \<Rightarrow> int" where
  "tls_uart_try_read read_size p =
     (if uint (CIRC_CNT (head (recv p)) (tail (recv p))) \<ge> read_size then read_size else 0)"

text \<open>The three accesses of a read: the count of bytes to take, the copy, and the update of the tail.\<close>

definition read_count :: "u16 \<Rightarrow> tls_uart_circ_buf \<Rightarrow> nat" where
  "read_count readsize r =
     (let data_cnt = unat (CIRC_CNT (head r) (tail r)) in if data_cnt \<ge> unat readsize then unat readsize else data_cnt)"

definition read_copy :: "nat \<Rightarrow> tls_uart_circ_buf \<Rightarrow> u8 list" where
  "read_copy n r =
     (let t = unat (tail r)
      in if t + n > TLS_UART_RX_BUF_SIZE
         then (let bufcopylen = TLS_UART_RX_BUF_SIZE - t in take bufcopylen (drop t (buf r)) @ take (n - bufcopylen) (buf r))
         else take n (drop t (buf r)))"

definition read_advance :: "nat \<Rightarrow> tls_uart_circ_buf \<Rightarrow> tls_uart_circ_buf" where
  "read_advance n r = r\<lparr>tail := (tail r + of_nat n) AND 0xFFF\<rparr>"

text \<open>The result, the bytes stored into the buffer and the port; \<open>nonnull\<close>: the buffer is not a null pointer.\<close>

definition tls_uart_read :: "bool \<Rightarrow> u16 \<Rightarrow> tls_uart_port \<Rightarrow> int \<times> u8 list \<times> tls_uart_port" where
  "tls_uart_read nonnull readsize p =
     (if \<not> nonnull \<or> readsize < 1 then (UART_WM_FAILED, [], p)
      else (let n = read_count readsize (recv p)
            in (int n, read_copy n (recv p), p\<lparr>recv := read_advance n (recv p)\<rparr>)))"

section \<open>Flow control of the receiver\<close>

definition tls_set_uart_rx_status :: "u32 \<Rightarrow> tls_uart_port \<Rightarrow> tls_uart_port" where
  "tls_set_uart_rx_status status p =
     (if uart_no p \<noteq> 1 then p
      else if rxstatus p = TLS_UART_RX_DISABLE \<and> status = TLS_UART_RX_DISABLE
        \<or> rxstatus p = TLS_UART_RX_ENABLE \<and> status = TLS_UART_RX_ENABLE then p
      else if status = TLS_UART_RX_DISABLE then
        (if flow_ctrl (opts p) = TLS_UART_FLOW_CTRL_HARDWARE \<and> fcStatus p = TLS_UART_FLOW_CTRL_HARDWARE
         then (upd_regs (\<lambda>r. r\<lparr>UR_INTM := UR_INTM r OR (push_bit 2 1 OR push_bit 8 1)\<rparr>) p)\<lparr>rxstatus := TLS_UART_RX_DISABLE\<rparr>
         else p)
      else (upd_regs (\<lambda>r. r\<lparr>UR_INTM := UR_INTM r AND NOT (push_bit 2 1 OR push_bit 8 1)\<rparr>) p)\<lparr>rxstatus := TLS_UART_RX_ENABLE\<rparr>)"

section \<open>Interrupt handlers\<close>

definition call_rx :: "u16 \<Rightarrow> u32 \<Rightarrow> tls_uart_port \<Rightarrow> tls_uart_port" where
  "call_rx len user_data p = p\<lparr>calls := calls p @ [RxCall len user_data (recv p)]\<rparr>"

definition ack_ints :: "(u32 \<Rightarrow> u32 \<Rightarrow> u32) \<Rightarrow> u32 \<Rightarrow> tls_uart_port \<Rightarrow> tls_uart_port" where
  "ack_ints wr v = upd_regs (\<lambda>r. r\<lparr>UR_INTS := wr (UR_INTS r) v\<rparr>)"

definition ack_rx_err :: "(u32 \<Rightarrow> u32 \<Rightarrow> u32) \<Rightarrow> tls_uart_port \<Rightarrow> tls_uart_port" where
  "ack_rx_err wr p = ack_ints wr (UR_INTS (regs p) OR UART_RX_ERR_INT_FLAG) p"

text \<open>What the three handlers do after reception.\<close>

definition irq_tail :: "uart_in \<Rightarrow> u32 \<Rightarrow> tls_uart_port \<Rightarrow> tls_uart_port" where
  "irq_tail inp intr_src p =
     (let p = (if intr_src AND UART_TX_INT_FLAG \<noteq> 0 then tls_uart_tx_chars (tx_fifos inp) p else p);
          p = (if intr_src AND UIS_CTS_CHNG \<noteq> 0
               then uart_handle_cts_change (cts_tx_fifos inp) (cts_fifos inp AND UFS_CST_STS) p else p)
      in if rx_callback p \<and> intr_src AND UIS_RX_FIFO_TIMEOUT \<noteq> 0 then call_rx 0 (priv_data p + 100) p else p)"

text \<open>Port 0: \<open>n\<close> more bytes in the FIFO, \<open>k\<close> bytes read before.\<close>

fun rx0_loop ::
  "(u32 \<Rightarrow> u32 \<Rightarrow> u32) \<Rightarrow> (nat \<Rightarrow> u8) \<Rightarrow> u32 \<Rightarrow> u8 \<Rightarrow> nat \<Rightarrow> nat \<Rightarrow> u32 \<Rightarrow> tls_uart_port \<Rightarrow> u32 \<times> tls_uart_port" where
  "rx0_loop wr rx intr_src flag k 0 rxlen p = (rxlen, p)"
| "rx0_loop wr rx intr_src flag k (Suc n) rxlen p =
     (let ch = rx k;
          put = (\<lambda>p. (let p = p\<lparr>recv := ring_put ch (recv p)\<rparr>
                      in if rx_callback p \<and> flag \<noteq> 0 then call_rx 1 (priv_data p) p else p))
      in if intr_src AND UART_RX_ERR_INT_FLAG \<noteq> 0 then rx0_loop wr rx intr_src flag (Suc k) n rxlen (ack_rx_err wr p)
         else if CIRC_SPACE (head (recv p)) (tail (recv p)) \<le> 2 then
           (if fcStatus p = TLS_UART_FLOW_CTRL_HARDWARE
            then (rxlen + 1, put (tls_set_uart_rx_status TLS_UART_RX_DISABLE p)) else (rxlen, p))
         else rx0_loop wr rx intr_src flag (Suc k) n (rxlen + 1) (put p))"

definition rx_count :: "uart_in \<Rightarrow> u32" where
  "rx_count inp = drop_bit 6 (rx_fifos inp) AND 0x3F"

definition rx_wanted :: "u32 \<Rightarrow> tls_uart_port \<Rightarrow> bool" where
  "rx_wanted intr_src p \<longleftrightarrow> intr_src AND UART_RX_INT_FLAG \<noteq> 0 \<and> UR_INTM (regs p) AND UIS_RX_FIFO = 0"

definition uart0_irq :: "(u32 \<Rightarrow> u32 \<Rightarrow> u32) \<Rightarrow> uart_in \<Rightarrow> u8 \<Rightarrow> tls_uart_port \<Rightarrow> tls_uart_port" where
  "uart0_irq wr inp flag p =
     (let intr_src = UR_INTS (regs p);
          p = ack_ints wr intr_src p;
          p = (if rx_wanted intr_src p then
                 (let (rxlen, p) = rx0_loop wr (rxw inp) intr_src flag 0 (unat (rx_count inp)) 0 p
                  in if rx_callback p \<and> flag = 0 then call_rx (ucast rxlen) (priv_data p) p else p)
               else p)
      in irq_tail inp intr_src p)"

definition rx_overrun :: "(u32 \<Rightarrow> u32 \<Rightarrow> u32) \<Rightarrow> u32 \<Rightarrow> tls_uart_port \<Rightarrow> tls_uart_port" where
  "rx_overrun wr intr_src p =
     (if intr_src AND UIS_OVERRUN \<noteq> 0 then
        (let p = ack_ints wr (UR_INTS (regs p) OR UIS_OVERRUN) p
         in if tx_dma_on p
            then upd_regs (\<lambda>r. r\<lparr>UR_DMAC := UR_DMAC r OR 1\<rparr>) (upd_regs (\<lambda>r. r\<lparr>UR_DMAC := UR_DMAC r AND NOT 1\<rparr>) p) else p)
      else p)"

definition make_room :: "tls_uart_circ_buf \<Rightarrow> tls_uart_circ_buf" where
  "make_room r = (if CIRC_SPACE (head r) (tail r) \<le> RX_CACHE_LIMIT then r\<lparr>tail := (tail r + RX_CACHE_LIMIT) AND 0xFFF\<rparr> else r)"

text \<open>Ports 1 to 5: the last byte read and the port.\<close>

fun rx1_loop ::
  "(u32 \<Rightarrow> u32 \<Rightarrow> u32) \<Rightarrow> (nat \<Rightarrow> u8) \<Rightarrow> u32 \<Rightarrow> nat \<Rightarrow> nat \<Rightarrow> u8 \<Rightarrow> tls_uart_port \<Rightarrow> u8 \<times> tls_uart_port" where
  "rx1_loop wr rx intr_src k 0 ch p = (ch, p)"
| "rx1_loop wr rx intr_src k (Suc n) ch p =
     (if intr_src AND UART_RX_ERR_INT_FLAG \<noteq> 0 then rx1_loop wr rx intr_src (Suc k) n (rx k) (ack_rx_err wr p)
      else rx1_loop wr rx intr_src (Suc k) n (rx k) (p\<lparr>recv := ring_put (rx k) (recv p)\<rparr>))"

definition buf_at :: "(u32 \<Rightarrow> u8) \<Rightarrow> tls_uart_circ_buf \<Rightarrow> u32 \<Rightarrow> u8" where
  "buf_at mem r i = (if unat i < length (buf r) then buf r ! unat i else mem i)"

abbreviation plus_char :: u8 where "plus_char \<equiv> 43"

text \<open>The two bytes before the last one, as the handler looks them up.\<close>

definition plus_before :: "(u32 \<Rightarrow> u8) \<Rightarrow> tls_uart_circ_buf \<Rightarrow> bool" where
  "plus_before mem r =
     (if head r - 1 = 0 then buf_at mem r 4095 = plus_char \<and> buf_at mem r 4094 = plus_char
      else if head r - 1 = 1 then buf_at mem r 0 = plus_char \<and> buf_at mem r 4095 = plus_char
      else buf_at mem r (head r - 2) = plus_char \<and> buf_at mem r (head r - 3) = plus_char)"

definition rx1_receive :: "(u32 \<Rightarrow> u32 \<Rightarrow> u32) \<Rightarrow> uart_in \<Rightarrow> u8 \<Rightarrow> u32 \<Rightarrow> tls_uart_port \<Rightarrow> tls_uart_port" where
  "rx1_receive wr inp flag intr_src p =
     (let cnt = rx_count inp;
          p = p\<lparr>plus_char_cnt := 0, recv := make_room (recv p)\<rparr>;
          (ch, p) = rx1_loop wr (rxw inp) intr_src 0 (unat cnt) 0 p;
          p = (if (ucast cnt :: u8) = 3 \<and> ch = plus_char then
                 (let p = (if plus_before (outside inp) (recv p) then p\<lparr>plus_char_cnt := 3\<rparr> else p)
                  in if rx_callback p \<and> flag \<noteq> 0 then call_rx 1 (priv_data p) p else p)
               else p)
      in if rx_callback p \<and> flag = 0 then call_rx (ucast cnt) (priv_data p) p else p)"

definition uart1_irq :: "(u32 \<Rightarrow> u32 \<Rightarrow> u32) \<Rightarrow> uart_in \<Rightarrow> u8 \<Rightarrow> tls_uart_port \<Rightarrow> tls_uart_port" where
  "uart1_irq wr inp flag p =
     (let intr_src = UR_INTS (regs p);
          p = rx_overrun wr intr_src (ack_ints wr intr_src p);
          p = (if rx_wanted intr_src p then rx1_receive wr inp flag intr_src p else p)
      in irq_tail inp intr_src p)"

text \<open>Ports 2 to 5 acknowledge the interrupt at the end.\<close>

definition uart2_irq :: "(u32 \<Rightarrow> u32 \<Rightarrow> u32) \<Rightarrow> uart_in \<Rightarrow> u8 \<Rightarrow> tls_uart_port \<Rightarrow> tls_uart_port" where
  "uart2_irq wr inp flag p =
     (let intr_src = UR_INTS (regs p);
          p = rx_overrun wr intr_src p;
          p = (if rx_wanted intr_src p then rx1_receive wr inp flag intr_src p else p)
      in ack_ints wr intr_src (irq_tail inp intr_src p))"

section \<open>The ports\<close>

record uart_sys =
  uart_port :: "tls_uart_port list"
  uart_rx_byte_cb_flag :: "u8 list"
  vic :: irq_state

definition UART0_IRQHandler :: "(u32 \<Rightarrow> u32 \<Rightarrow> u32) \<Rightarrow> uart_in \<Rightarrow> uart_sys \<Rightarrow> uart_sys" where
  "UART0_IRQHandler wr inp s =
     s\<lparr>uart_port := (uart_port s)[0 := uart0_irq wr inp (uart_rx_byte_cb_flag s ! 0) (uart_port s ! 0)]\<rparr>"

definition UART1_IRQHandler :: "(u32 \<Rightarrow> u32 \<Rightarrow> u32) \<Rightarrow> uart_in \<Rightarrow> uart_sys \<Rightarrow> uart_sys" where
  "UART1_IRQHandler wr inp s =
     s\<lparr>uart_port := (uart_port s)[1 := uart1_irq wr inp (uart_rx_byte_cb_flag s ! 1) (uart_port s ! 1)]\<rparr>"

text \<open>The first of the ports 2 to 5 with a pending interrupt, 6 if there is none.\<close>

definition findOutIntUart :: "uart_sys \<Rightarrow> nat" where
  "findOutIntUart s =
     (case find (\<lambda>i. UR_INTS (regs (uart_port s ! i)) AND 0x1FF \<noteq> 0) [2..<TLS_UART_MAX] of None \<Rightarrow> TLS_UART_MAX | Some i \<Rightarrow> i)"

text \<open>\<open>None\<close>: the handler would use the port after the last one.\<close>

definition UART2_4_IRQHandler :: "(u32 \<Rightarrow> u32 \<Rightarrow> u32) \<Rightarrow> uart_in \<Rightarrow> uart_sys \<Rightarrow> uart_sys option" where
  "UART2_4_IRQHandler wr inp s =
     (let i = findOutIntUart s
      in if i < TLS_UART_MAX
         then Some (s\<lparr>uart_port := (uart_port s)[i := uart2_irq wr inp (uart_rx_byte_cb_flag s ! i) (uart_port s ! i)]\<rparr>)
         else None)"

definition uart_irqn :: "nat \<Rightarrow> nat" where
  "uart_irqn no = (if no = 0 \<or> no = 1 then 16 + no else 19)"

definition port0 :: "tls_uart_regs \<Rightarrow> tls_uart_port" where
  "port0 r = \<lparr>is_485used = False, rx_level = False, wait_time = 0, rs485_pin = 0, uart_cb_len = 0, uart_no = 0,
     uart_irq_no = 0, plus_char_cnt = 0,
     opts = \<lparr>baudrate = 0, charlength = 0, paritytype = 0, flow_ctrl = 0, stopbits = 0\<rparr>, fcStatus = 0, rxstatus = 0,
     tx_fifofull = 0, regs = r, icount_tx = 0, recv = \<lparr>buf = [], head = 0, tail = 0\<rparr>, tx_msg_pending_list = [],
     tx_msg_to_be_freed_list = [], hw_stopped = False, rx_callback = False, tx_callback = None, tx_sent_callback = False,
     tx_dma_on = False, priv_data = 0, calls = [], freed = []\<rparr>"

definition default_opts :: tls_uart_options where
  "default_opts = \<lparr>baudrate = 115200, charlength = 3, paritytype = 0, flow_ctrl = 0, stopbits = 0\<rparr>"

text \<open>The outer \<open>None\<close>: the division by zero of the baud rate.  \<open>alloc\<close>: whether the ring can be allocated.  The whole
  record is zeroed but for the registers; the logs start again.\<close>

definition tls_uart_port_init ::
  "(u32 \<Rightarrow> u32 \<Rightarrow> u32) \<Rightarrow> u32 \<Rightarrow> bool \<Rightarrow> nat \<Rightarrow> tls_uart_options option \<Rightarrow> u8 \<Rightarrow> uart_sys \<Rightarrow> (int \<times> uart_sys) option" where
  "tls_uart_port_init wr apb_mhz alloc no o' modeChoose s =
     (if TLS_UART_MAX \<le> no then Some (UART_WM_FAILED, s)
      else
        (let s = s\<lparr>vic := tls_irq_disable (uart_irqn no) (vic s)\<rparr>;
             p = port0 (UartRegInit apb_mhz no (regs (uart_port s ! no)));
             p = (if no = 2 then (if modeChoose = 1 then or_LC 0x1000000 p else clear_LC 0x1000000 p) else p);
             p = p\<lparr>uart_no := of_nat no\<rparr>
         in case tls_uart_config wr apb_mhz (case o' of None \<Rightarrow> default_opts | Some opt \<Rightarrow> opt) p of
              None \<Rightarrow> None
            | Some (_, p) \<Rightarrow>
                (let p = p\<lparr>rxstatus := TLS_UART_RX_ENABLE, uart_irq_no := uart_irqn no\<rparr>
                 in if \<not> alloc then Some (UART_WM_FAILED, s\<lparr>uart_port := (uart_port s)[no := p]\<rparr>)
                    else Some (UART_WM_SUCCESS,
                      s\<lparr>uart_port := (uart_port s)[no := p\<lparr>recv := \<lparr>buf = replicate TLS_UART_RX_BUF_SIZE 0, head = 0, tail = 0\<rparr>,
                          tx_fifofull := 16, tx_msg_pending_list := [], tx_msg_to_be_freed_list := [],
                          tx_callback := Some FreeSent\<rparr>],
                        vic := tls_irq_enable (uart_irqn no) (vic s)\<rparr>))))"

definition on_port :: "nat \<Rightarrow> (tls_uart_port \<Rightarrow> tls_uart_port) \<Rightarrow> uart_sys \<Rightarrow> uart_sys" where
  "on_port no f s = s\<lparr>uart_port := (uart_port s)[no := f (uart_port s ! no)]\<rparr>"

text \<open>The bytes go to port 1 whatever the index says.\<close>

definition tls_uart_push :: "int \<Rightarrow> u8 list \<Rightarrow> uart_sys \<Rightarrow> uart_sys" where
  "tls_uart_push index data = on_port 1 (\<lambda>p. p\<lparr>recv := fold ring_put data (recv p)\<rparr>)"

definition tls_uart_set_parity :: "nat \<Rightarrow> u32 \<Rightarrow> uart_sys \<Rightarrow> int \<times> uart_sys" where
  "tls_uart_set_parity no parity s =
     (let (ret, p) = tls_uart_set_parity_inside parity (uart_port s ! no) in (ret, s\<lparr>uart_port := (uart_port s)[no := p]\<rparr>))"

definition tls_uart_set_baud_rate :: "u32 \<Rightarrow> nat \<Rightarrow> u32 \<Rightarrow> uart_sys \<Rightarrow> (int \<times> uart_sys) option" where
  "tls_uart_set_baud_rate apb_mhz no baud s =
     map_option (\<lambda>(ret, p). (ret, s\<lparr>uart_port := (uart_port s)[no := p]\<rparr>)) (tls_uart_set_baud_rate_inside apb_mhz baud (uart_port s ! no))"

definition tls_uart_set_stop_bits :: "nat \<Rightarrow> u32 \<Rightarrow> uart_sys \<Rightarrow> int \<times> uart_sys" where
  "tls_uart_set_stop_bits no bits s =
     (let (ret, p) = tls_uart_set_stop_bits_inside bits (uart_port s ! no) in (ret, s\<lparr>uart_port := (uart_port s)[no := p]\<rparr>))"

definition tls_uart_rx_callback_register :: "nat \<Rightarrow> bool \<Rightarrow> u32 \<Rightarrow> uart_sys \<Rightarrow> uart_sys" where
  "tls_uart_rx_callback_register no cb user_data = on_port no (\<lambda>p. p\<lparr>rx_callback := cb, priv_data := user_data\<rparr>)"

definition tls_uart_rx_byte_callback_flag :: "nat \<Rightarrow> u8 \<Rightarrow> uart_sys \<Rightarrow> uart_sys" where
  "tls_uart_rx_byte_callback_flag no flag s = s\<lparr>uart_rx_byte_cb_flag := (uart_rx_byte_cb_flag s)[no := flag]\<rparr>"

definition tls_uart_tx_callback_register :: "nat \<Rightarrow> tx_cb option \<Rightarrow> uart_sys \<Rightarrow> uart_sys" where
  "tls_uart_tx_callback_register no cb = on_port no (\<lambda>p. p\<lparr>tx_callback := cb\<rparr>)"

definition tls_uart_tx_sent_callback_register :: "nat \<Rightarrow> bool \<Rightarrow> uart_sys \<Rightarrow> uart_sys" where
  "tls_uart_tx_sent_callback_register no cb = on_port no (\<lambda>p. p\<lparr>tx_sent_callback := cb\<rparr>)"

section \<open>Transmission through the DMA driver\<close>

text \<open>The channel selector, the port and the DMA driver; \<open>None\<close>: an undefined access of the DMA driver.  \<open>addr\<close> is the
  address of the buffer, 0 for a null pointer, \<open>txw\<close> the address of the transmit window.\<close>

definition tls_uart_dma_write ::
  "u32 \<Rightarrow> u32 \<Rightarrow> u16 \<Rightarrow> 'f option \<Rightarrow> u32 \<Rightarrow> tls_uart_port \<Rightarrow> 'f dma \<Rightarrow> (int \<times> u32 option \<times> tls_uart_port \<times> 'f dma) option" where
  "tls_uart_dma_write txw addr writesize cmpl no p d =
     (if addr = 0 \<or> writesize < 1 \<or> writesize \<ge> 4096 then Some (UART_WM_FAILED, None, p, d)
      else if tx_dma_on p then Some (UART_WM_FAILED, None, p, d)
      else
        (let (dmaCh, d) = tls_dma_request 2 (push_bit 2 1 OR 1) d
         in if dmaCh = 0xFF then Some (UART_WM_FAILED, Some no, p, d)
            else
              (let p = upd_regs (\<lambda>r. r\<lparr>UR_DMAC := UR_DMAC r AND NOT 1\<rparr>) p
               in case tls_dma_irq_register (unat dmaCh) cmpl TLS_DMA_IRQ_TRANSFER_DONE d of
                    None \<Rightarrow> None
                  | Some d \<Rightarrow>
                      (case tls_dma_start (unat dmaCh)
                              (Some \<lparr>dma_ctrl = 1 OR push_bit 7 (ucast writesize), src_addr = addr, dest_addr = txw\<rparr>) False d of
                         None \<Rightarrow> None
                       | Some (_, d) \<Rightarrow>
                           Some (UART_WM_SUCCESS, Some no, upd_regs (\<lambda>r. r\<lparr>UR_DMAC := UR_DMAC r OR 1\<rparr>) (p\<lparr>tx_dma_on := True\<rparr>),
                             d\<lparr>INTMASK := INTMASK d AND NOT (push_bit 5 1), irq_enabled := irq_enabled d @ [2]\<rparr>)))))"

definition tls_uart_dma_off :: "tls_uart_port \<Rightarrow> int \<times> tls_uart_port" where
  "tls_uart_dma_off p = (UART_WM_SUCCESS, p\<lparr>tx_dma_on := False\<rparr>)"

end
