(* ===== verification/Uart_Ring.thy ===== *)
theory Uart_Ring
  imports Uart_Irq
begin

text \<open>
  The ring of received bytes as a queue: \<open>contents\<close> is the list of the bytes not yet read, and storing, reading and
  dropping act on it as on a list.
\<close>

definition ring_ok :: "tls_uart_circ_buf \<Rightarrow> bool" where
  "ring_ok r \<longleftrightarrow> length (buf r) = TLS_UART_RX_BUF_SIZE \<and> unat (head r) < TLS_UART_RX_BUF_SIZE \<and> unat (tail r) < TLS_UART_RX_BUF_SIZE"

definition contents :: "tls_uart_circ_buf \<Rightarrow> u8 list" where
  "contents r = map (\<lambda>i. buf r ! ((unat (tail r) + i) mod TLS_UART_RX_BUF_SIZE)) [0..<unat (CIRC_CNT (head r) (tail r))]"

lemma unat_and_12 [simp]: "unat ((w :: u32) AND 0xFFF) = unat w mod 4096"
  using unat_and_mask [of w 12] by (simp add: mask_literals)

lemma mod_mod_4096 [simp]: "(n mod 4294967296) mod 4096 = n mod (4096 :: nat)"
  by (simp add: mod_mod_cancel)

lemma unat_wrap [simp]: "unat (w + v) mod 4096 = (unat w + unat (v :: u32)) mod 4096"
  by (simp add: unat_word_ariths)

lemma unat_wrap_of_nat: "unat (w + of_nat n :: u32) mod 4096 = (unat w + n) mod 4096"
proof -
  have "unat (of_nat n :: u32) mod 4096 = n mod 4096"
    by (simp add: unat_of_nat take_bit_eq_mod)
  then show ?thesis by (metis unat_wrap mod_add_right_eq)
qed

lemma unat_CIRC_CNT:
  assumes "unat h < 4096" "unat t \<le> 4096"
  shows "unat (CIRC_CNT h t) = (if unat t \<le> unat h then unat h - unat t else unat h + 4096 - unat t)"
proof (cases "unat t \<le> unat h")
  case True
  then show ?thesis using assms by (simp add: CIRC_CNT_def unat_sub_if')
next
  case False
  then have "unat (h - t) = (unat h + 4096 - unat t) + 4096 * 1048575"
    using assms by (simp add: unat_sub_if')
  then have "unat (h - t) mod 4096 = (unat h + 4096 - unat t) mod 4096"
    by (simp only: mod_mult_self2)
  then show ?thesis using False assms by (simp add: CIRC_CNT_def)
qed

lemma CIRC_CNT_mod: "unat (CIRC_CNT h t) < 4096"
  by (simp add: CIRC_CNT_def)

lemma length_contents [simp]: "length (contents r) = unat (CIRC_CNT (head r) (tail r))"
  by (simp add: contents_def)

lemma nth_contents: "i < length (contents r) \<Longrightarrow> contents r ! i = buf r ! ((unat (tail r) + i) mod 4096)"
  by (simp add: contents_def)

lemma head_of_tail:
  "ring_ok r \<Longrightarrow> unat (head r) = (unat (tail r) + length (contents r)) mod 4096"
  by (simp add: ring_ok_def unat_CIRC_CNT)

text \<open>The space left: one cell always stays free.\<close>

lemma unat_CIRC_SPACE:
  assumes "ring_ok r"
  shows "unat (CIRC_SPACE (head r) (tail r)) = 4095 - length (contents r)"
proof -
  have "unat (head r + 1) = unat (head r) + 1"
    using assms by (simp add: ring_ok_def unat_word_ariths)
  then show ?thesis
    using assms by (auto simp: CIRC_SPACE_def ring_ok_def unat_CIRC_CNT)
qed

section \<open>Storing, reading and dropping\<close>

lemma ring_put_ok [simp]: "ring_ok r \<Longrightarrow> ring_ok (ring_put ch r)"
  by (simp add: ring_ok_def ring_put_def)

lemma tail_ring_put [simp]: "tail (ring_put ch r) = tail r"
  by (simp add: ring_put_def)

lemma count_put:
  "ring_ok r \<Longrightarrow> length (contents r) < 4095 \<Longrightarrow> length (contents (ring_put ch r)) = Suc (length (contents r))"
  by (cases "unat (head r) = 4095") (auto simp: ring_ok_def ring_put_def unat_CIRC_CNT)

lemma cell_distinct:
  "i < n \<Longrightarrow> n < 4096 \<Longrightarrow> (t + i) mod 4096 \<noteq> (t + n) mod (4096 :: nat)"
proof
  assume a: "i < n" "n < 4096" "(t + i) mod 4096 = (t + n) mod 4096"
  then have "4096 dvd (t + n) - (t + i)" by (metis mod_eq_dvd_iff_nat add_le_cancel_left less_imp_le)
  then show False using a nat_dvd_not_less [of "n - i" 4096] by simp
qed

lemma contents_put:
  assumes "ring_ok r" "length (contents r) < 4095"
  shows "contents (ring_put ch r) = contents r @ [ch]"
proof (rule nth_equalityI)
  show "length (contents (ring_put ch r)) = length (contents r @ [ch])"
    using count_put [OF assms] by simp
next
  fix i assume i: "i < length (contents (ring_put ch r))"
  then have "i \<le> length (contents r)" using count_put [OF assms] by simp
  then show "contents (ring_put ch r) ! i = (contents r @ [ch]) ! i"
    using i assms head_of_tail [OF assms(1)] cell_distinct [of i "length (contents r)" "unat (tail r)"]
    by (auto simp: nth_contents nth_append ring_put_def nth_list_update ring_ok_def simp del: length_contents)
qed

lemma contents_puts:
  "ring_ok r \<Longrightarrow> length (contents r) + length bs \<le> 4095 \<Longrightarrow>
   ring_ok (fold ring_put bs r) \<and> contents (fold ring_put bs r) = contents r @ bs"
  by (induction bs arbitrary: r) (simp_all add: contents_put del: length_contents)

lemma read_advance_ok [simp]: "ring_ok r \<Longrightarrow> ring_ok (read_advance n r)"
  by (simp add: ring_ok_def read_advance_def)

lemma count_advance:
  assumes "ring_ok r" "n \<le> length (contents r)"
  shows "length (contents (read_advance n r)) = length (contents r) - n"
proof -
  have "unat (tail r) + n < 8192" using assms CIRC_CNT_mod [of "head r" "tail r"] by (simp add: ring_ok_def)
  then have m: "(unat (tail r) + n) mod 4096 = (if unat (tail r) + n < 4096 then unat (tail r) + n else unat (tail r) + n - 4096)"
    by (simp add: mod_if)
  have t: "unat (tail (read_advance n r)) = (unat (tail r) + n) mod 4096"
    by (simp add: read_advance_def unat_wrap_of_nat del: unat_wrap)
  have "head (read_advance n r) = head r" by (simp add: read_advance_def)
  then show ?thesis using assms read_advance_ok [OF assms(1), of n] t m
    by (auto simp: ring_ok_def unat_CIRC_CNT split: if_splits)
qed

lemma contents_advance:
  assumes "ring_ok r" "n \<le> length (contents r)"
  shows "contents (read_advance n r) = drop n (contents r)"
proof (rule nth_equalityI)
  show "length (contents (read_advance n r)) = length (drop n (contents r))"
    using count_advance [OF assms] by simp
next
  fix i assume i: "i < length (contents (read_advance n r))"
  then have "n + i < length (contents r)" using count_advance [OF assms] by simp
  then show "contents (read_advance n r) ! i = drop n (contents r) ! i"
    using i unat_wrap_of_nat [of "tail r" n]
    by (simp add: nth_contents read_advance_def mod_add_left_eq add.assoc del: length_contents unat_wrap)
qed

lemma read_copy_contents:
  assumes "ring_ok r" "n \<le> length (contents r)"
  shows "read_copy n r = take n (contents r)"
proof (rule nth_equalityI)
  have n: "n < 4096" using assms CIRC_CNT_mod [of "head r" "tail r"] by simp
  show l: "length (read_copy n r) = length (take n (contents r))"
    using assms n by (auto simp: read_copy_def ring_ok_def Let_def)
  fix i assume "i < length (read_copy n r)"
  then have i: "i < n" using assms l by simp
  have "unat (tail r) < 4096" "length (buf r) = 4096" using assms by (simp_all add: ring_ok_def)
  then show "read_copy n r ! i = take n (contents r) ! i"
    using i n assms
    by (auto simp: read_copy_def Let_def nth_append nth_contents mod_if add.commute [of i] simp del: length_contents)
qed

lemma make_room_ok [simp]: "ring_ok r \<Longrightarrow> ring_ok (make_room r)"
  by (simp add: ring_ok_def make_room_def)

lemma make_room_advance: "make_room r = (if CIRC_SPACE (head r) (tail r) \<le> 128 then read_advance 128 r else r)"
  by (simp add: make_room_def read_advance_def)

lemma contents_make_room:
  assumes "ring_ok r"
  shows "contents (make_room r) = (if length (contents r) \<ge> 3967 then drop 128 (contents r) else contents r)"
proof -
  have "length (contents r) < 4096" using CIRC_CNT_mod by simp
  then have "CIRC_SPACE (head r) (tail r) \<le> 128 \<longleftrightarrow> length (contents r) \<ge> 3967"
    using unat_CIRC_SPACE [OF assms] by (simp add: word_le_nat_alt del: length_contents) linarith
  then show ?thesis
    using contents_advance [OF assms, of 128] by (auto simp: make_room_advance simp del: length_contents)
qed

end
