(* ===== verification/Uart_Correct.thy ===== *)
theory Uart_Correct
  imports Uart_Ring
begin

text \<open>
  Reception.  The locale \<open>byte_fifo\<close> states what a reader and a writer of the ring rely on; its lemmas show that bytes put
  while a read is under way do not disturb it.  It is interpreted on the ring.  The handler of port 0 is then shown to be
  such a writer, whatever happens between two accesses of \<open>tls_uart_read\<close>; the handlers of the other ports drop the
  oldest 128 bytes when the ring is nearly full.
\<close>

section \<open>The contract of the ring\<close>

locale byte_fifo =
  fixes inv :: "'s \<Rightarrow> bool" and abs :: "'s \<Rightarrow> 'a list" and capacity :: nat
    and put :: "'a \<Rightarrow> 's \<Rightarrow> 's" and peek :: "nat \<Rightarrow> 's \<Rightarrow> 'a" and advance :: "nat \<Rightarrow> 's \<Rightarrow> 's"
  assumes inv_put: "inv s \<Longrightarrow> inv (put x s)"
    and abs_put: "inv s \<Longrightarrow> length (abs s) < capacity \<Longrightarrow> abs (put x s) = abs s @ [x]"
    and peek_abs: "inv s \<Longrightarrow> i < length (abs s) \<Longrightarrow> peek i s = abs s ! i"
    and inv_advance: "inv s \<Longrightarrow> inv (advance n s)"
    and abs_advance: "inv s \<Longrightarrow> n \<le> length (abs s) \<Longrightarrow> abs (advance n s) = drop n (abs s)"
begin

lemma abs_puts:
  "inv s \<Longrightarrow> length (abs s) + length xs \<le> capacity \<Longrightarrow> inv (fold put xs s) \<and> abs (fold put xs s) = abs s @ xs"
  by (induction xs arbitrary: s) (simp_all add: inv_put abs_put)

lemma peek_puts:
  "inv s \<Longrightarrow> length (abs s) + length xs \<le> capacity \<Longrightarrow> i < length (abs s) \<Longrightarrow> peek i (fold put xs s) = abs s ! i"
  using abs_puts [of s xs] by (simp add: peek_abs nth_append)

lemma advance_puts:
  "inv s \<Longrightarrow> length (abs s) + length xs \<le> capacity \<Longrightarrow> n \<le> length (abs s) \<Longrightarrow>
   abs (advance n (fold put xs s)) = drop n (abs s) @ xs"
  using abs_puts [of s xs] by (simp add: abs_advance)

end

text \<open>One byte of the copy a read makes.\<close>

definition read_byte :: "nat \<Rightarrow> tls_uart_circ_buf \<Rightarrow> u8" where
  "read_byte i r = (let t = unat (tail r) in if t + i < TLS_UART_RX_BUF_SIZE then buf r ! (t + i) else buf r ! (t + i - TLS_UART_RX_BUF_SIZE))"

lemma read_byte_contents:
  assumes "ring_ok r" "i < length (contents r)"
  shows "read_byte i r = contents r ! i"
proof -
  have "unat (tail r) + i < 8192" using assms CIRC_CNT_mod [of "head r" "tail r"] by (simp add: ring_ok_def)
  then show ?thesis
    using assms by (auto simp: read_byte_def nth_contents mod_if Let_def simp del: length_contents)
qed

interpretation ring: byte_fifo ring_ok contents 4095 ring_put read_byte read_advance
  by unfold_locales (simp_all add: contents_put contents_advance read_byte_contents del: length_contents)

lemma read_copy_bytes:
  assumes "ring_ok r" "n \<le> length (contents r)"
  shows "read_copy n r = map (\<lambda>i. read_byte i r) [0..<n]"
proof -
  have "take n (contents r) = map (\<lambda>i. contents r ! i) [0..<n]"
    using assms(2) by (intro nth_equalityI) (simp_all del: length_contents)
  then show ?thesis using assms by (simp add: read_copy_contents read_byte_contents del: length_contents)
qed

lemma read_count_min: "read_count n r = min (unat n) (length (contents r))"
  by (simp add: read_count_def min_def)

section \<open>What the handlers leave alone\<close>

named_theorems frame_simps

lemma upd_regs_sel [frame_simps]:
  "recv (upd_regs f p) = recv p" "fcStatus (upd_regs f p) = fcStatus p" "rx_callback (upd_regs f p) = rx_callback p"
  "tx_msg_pending_list (upd_regs f p) = tx_msg_pending_list p" "opts (upd_regs f p) = opts p"
  "uart_no (upd_regs f p) = uart_no p" "regs (upd_regs f p) = f (regs p)" "tx_fifofull (upd_regs f p) = tx_fifofull p"
  "tx_msg_to_be_freed_list (upd_regs f p) = tx_msg_to_be_freed_list p" "freed (upd_regs f p) = freed p"
  "tx_callback (upd_regs f p) = tx_callback p" "hw_stopped (upd_regs f p) = hw_stopped p"
  "plus_char_cnt (upd_regs f p) = plus_char_cnt p" "priv_data (upd_regs f p) = priv_data p" "calls (upd_regs f p) = calls p"
  by (simp_all add: upd_regs_def)

lemma LC_sel [frame_simps]:
  "recv (or_LC b p) = recv p" "recv (clear_LC b p) = recv p" "fcStatus (or_LC b p) = fcStatus p" "fcStatus (clear_LC b p) = fcStatus p"
  "tx_msg_pending_list (or_LC b p) = tx_msg_pending_list p" "tx_msg_pending_list (clear_LC b p) = tx_msg_pending_list p"
  "tx_fifofull (or_LC b p) = tx_fifofull p" "tx_fifofull (clear_LC b p) = tx_fifofull p"
  "UR_TXW (regs (or_LC b p)) = UR_TXW (regs p)" "UR_TXW (regs (clear_LC b p)) = UR_TXW (regs p)"
  "UR_INTM (regs (or_LC b p)) = UR_INTM (regs p)" "UR_INTM (regs (clear_LC b p)) = UR_INTM (regs p)"
  "tx_msg_to_be_freed_list (or_LC b p) = tx_msg_to_be_freed_list p" "tx_msg_to_be_freed_list (clear_LC b p) = tx_msg_to_be_freed_list p"
  "opts (or_LC b p) = opts p" "opts (clear_LC b p) = opts p"
  by (simp_all add: or_LC_def clear_LC_def frame_simps)

lemma free_loop_eq: "free_loop ms p = (if ms = [] then p else p\<lparr>tx_msg_to_be_freed_list := [], freed := freed p @ ms\<rparr>)"
  by (induction ms arbitrary: p) auto

lemma call_tx_sel [frame_simps]:
  "recv (call_tx_callbacks p) = recv p" "fcStatus (call_tx_callbacks p) = fcStatus p" "regs (call_tx_callbacks p) = regs p"
  "tx_msg_pending_list (call_tx_callbacks p) = tx_msg_pending_list p" "tx_fifofull (call_tx_callbacks p) = tx_fifofull p"
  "opts (call_tx_callbacks p) = opts p"
  by (auto simp: call_tx_callbacks_def tls_uart_free_tx_sent_data_def free_loop_eq Let_def split: option.split tx_cb.split)

lemma tx_chars_sel [frame_simps]:
  "recv (tls_uart_tx_chars fifos p) = recv p" "fcStatus (tls_uart_tx_chars fifos p) = fcStatus p"
  "UR_INTM (regs (tls_uart_tx_chars fifos p)) = UR_INTM (regs p)" "tx_fifofull (tls_uart_tx_chars fifos p) = tx_fifofull p"
  "opts (tls_uart_tx_chars fifos p) = opts p"
  by (auto simp: tls_uart_tx_chars_def frame_simps Let_def split: list.split prod.split)

lemma cts_sel [frame_simps]:
  "recv (uart_handle_cts_change fifos st p) = recv p" "fcStatus (uart_handle_cts_change fifos st p) = fcStatus p"
  "UR_INTM (regs (uart_handle_cts_change fifos st p)) = UR_INTM (regs p)"
  by (simp_all add: uart_handle_cts_change_def tls_uart_tx_enable_def tls_uart_tx_disable_def frame_simps)

lemma irq_tail_sel [frame_simps]:
  "recv (irq_tail inp src p) = recv p" "fcStatus (irq_tail inp src p) = fcStatus p"
  "UR_INTM (regs (irq_tail inp src p)) = UR_INTM (regs p)"
  by (simp_all add: irq_tail_def Let_def call_rx_def frame_simps)

lemma ack_sel [frame_simps]:
  "recv (ack_ints wr v p) = recv p" "fcStatus (ack_ints wr v p) = fcStatus p" "UR_INTM (regs (ack_ints wr v p)) = UR_INTM (regs p)"
  "recv (ack_rx_err wr p) = recv p" "fcStatus (ack_rx_err wr p) = fcStatus p" "UR_INTM (regs (ack_rx_err wr p)) = UR_INTM (regs p)"
  by (simp_all add: ack_ints_def ack_rx_err_def frame_simps)

lemma call_rx_sel [frame_simps]:
  "recv (call_rx len d p) = recv p" "fcStatus (call_rx len d p) = fcStatus p" "regs (call_rx len d p) = regs p"
  by (simp_all add: call_rx_def)

section \<open>Port 0\<close>

text \<open>The bytes an activation stores: those in the FIFO, as long as more than two cells are free.\<close>

definition received0 :: "uart_in \<Rightarrow> tls_uart_port \<Rightarrow> u8 list" where
  "received0 inp p =
     (if rx_wanted (UR_INTS (regs p)) p \<and> UR_INTS (regs p) AND UART_RX_ERR_INT_FLAG = 0
      then map (rxw inp) [0..<min (unat (rx_count inp)) (4093 - length (contents (recv p)))] else [])"

lemma rx0_loop_err:
  "src AND UART_RX_ERR_INT_FLAG \<noteq> 0 \<Longrightarrow> rx0_loop wr rx src flag k n rxlen p = (rxlen, (ack_rx_err wr ^^ n) p)"
  by (induction n arbitrary: k p) (simp_all add: funpow_swap1)

lemma funpow_ack_sel [frame_simps]:
  "recv ((ack_rx_err wr ^^ n) p) = recv p" "fcStatus ((ack_rx_err wr ^^ n) p) = fcStatus p"
  "UR_INTM (regs ((ack_rx_err wr ^^ n) p)) = UR_INTM (regs p)"
  by (induction n) (simp_all add: frame_simps)

lemma rx0_loop_store:
  assumes "src AND UART_RX_ERR_INT_FLAG = 0" "fcStatus p \<noteq> TLS_UART_FLOW_CTRL_HARDWARE" "ring_ok (recv p)"
  shows "recv (snd (rx0_loop wr rx src flag k n rxlen p)) =
      fold ring_put (map rx [k..<k + min n (4093 - length (contents (recv p)))]) (recv p)
    \<and> fcStatus (snd (rx0_loop wr rx src flag k n rxlen p)) = fcStatus p
    \<and> regs (snd (rx0_loop wr rx src flag k n rxlen p)) = regs p"
  using assms
proof (induction n arbitrary: k rxlen p)
  case (Suc n)
  let ?c = "length (contents (recv p))"
  have sp: "CIRC_SPACE (head (recv p)) (tail (recv p)) \<le> 2 \<longleftrightarrow> 4093 \<le> ?c"
    using unat_CIRC_SPACE [of "recv p"] Suc.prems(3) CIRC_CNT_mod [of "head (recv p)" "tail (recv p)"]
    by (simp add: word_le_nat_alt) linarith
  show ?case
  proof (cases "4093 \<le> ?c")
    case True
    then show ?thesis using Suc.prems sp by (simp del: length_contents)
  next
    case False
    define q where "q = (let p = p\<lparr>recv := ring_put (rx k) (recv p)\<rparr> in if rx_callback p \<and> flag \<noteq> 0 then call_rx 1 (priv_data p) p else p)"
    have q: "recv q = ring_put (rx k) (recv p)" "fcStatus q = fcStatus p" "regs q = regs p"
      by (simp_all add: q_def Let_def frame_simps)
    have c: "contents (recv q) = contents (recv p) @ [rx k]"
      using False Suc.prems(3) by (simp add: q contents_put)
    have m: "min (Suc n) (4093 - ?c) = Suc (min n (4093 - length (contents (recv q))))"
      using False by (simp only: c) (simp del: length_contents)
    have "rx0_loop wr rx src flag k (Suc n) rxlen p = rx0_loop wr rx src flag (Suc k) n (rxlen + 1) q"
      using Suc.prems False sp by (simp add: q_def Let_def del: length_contents)
    then show ?thesis
      using Suc.IH [of q "Suc k" "rxlen + 1"] Suc.prems by (simp only: m upt_rec [of k]) (simp add: q)
  qed
qed simp

lemma uart0_recv:
  assumes "fcStatus p \<noteq> TLS_UART_FLOW_CTRL_HARDWARE" "ring_ok (recv p)"
  shows "recv (uart0_irq wr inp flag p) = fold ring_put (received0 inp p) (recv p)
    \<and> fcStatus (uart0_irq wr inp flag p) = fcStatus p"
proof -
  let ?src = "UR_INTS (regs p)" and ?p = "ack_ints wr (UR_INTS (regs p)) p"
  have w: "rx_wanted ?src ?p = rx_wanted ?src p" by (simp add: rx_wanted_def frame_simps)
  show ?thesis
  proof (cases "rx_wanted ?src p \<and> ?src AND UART_RX_ERR_INT_FLAG = 0")
    case True
    then show ?thesis
      using rx0_loop_store [of ?src ?p wr "rxw inp" flag 0 "unat (rx_count inp)" 0] assms
      by (cases "rx0_loop wr (rxw inp) ?src flag 0 (unat (rx_count inp)) 0 ?p")
        (simp add: uart0_irq_def received0_def w frame_simps Let_def del: length_contents)
  next
    case False
    then show ?thesis
      by (auto simp: uart0_irq_def received0_def w frame_simps Let_def rx0_loop_err split: prod.split simp del: length_contents)
  qed
qed

lemma received0_room: "ring_ok (recv p) \<Longrightarrow> length (contents (recv p)) + length (received0 inp p) \<le> max 4093 (length (contents (recv p)))"
  by (auto simp: received0_def simp del: length_contents)

text \<open>Activations in a row, each with the interrupt source the hardware shows and what it reads: the bytes stored and the
  port.\<close>

fun irqs0 :: "(u32 \<Rightarrow> u32 \<Rightarrow> u32) \<Rightarrow> u8 \<Rightarrow> (u32 \<times> uart_in) list \<Rightarrow> tls_uart_port \<Rightarrow> u8 list \<times> tls_uart_port" where
  "irqs0 wr flag [] p = ([], p)"
| "irqs0 wr flag ((ints, inp) # es) p =
     (let p = upd_regs (\<lambda>r. r\<lparr>UR_INTS := ints\<rparr>) p; (bs, p') = irqs0 wr flag es (uart0_irq wr inp flag p)
      in (received0 inp p @ bs, p'))"

text \<open>The copy of a read, with activations before each of its bytes: the bytes copied, the bytes stored meanwhile and the
  port.\<close>

fun copy_during ::
  "(u32 \<Rightarrow> u32 \<Rightarrow> u32) \<Rightarrow> u8 \<Rightarrow> (u32 \<times> uart_in) list list \<Rightarrow> nat \<Rightarrow> tls_uart_port \<Rightarrow> u8 list \<times> u8 list \<times> tls_uart_port" where
  "copy_during wr flag [] i p = ([], [], p)"
| "copy_during wr flag (es # ess) i p =
     (let (st, p1) = irqs0 wr flag es p; b = read_byte i (recv p1); (bs, st', p') = copy_during wr flag ess (Suc i) p1
      in (b # bs, st @ st', p'))"

definition puts_rel :: "tls_uart_port \<Rightarrow> u8 list \<Rightarrow> tls_uart_port \<Rightarrow> bool" where
  "puts_rel p bs p' \<longleftrightarrow> recv p' = fold ring_put bs (recv p) \<and> fcStatus p' = fcStatus p \<and>
     length (contents (recv p)) + length bs \<le> 4095"

definition rx0_ready :: "tls_uart_port \<Rightarrow> bool" where
  "rx0_ready p \<longleftrightarrow> fcStatus p \<noteq> TLS_UART_FLOW_CTRL_HARDWARE \<and> ring_ok (recv p)"

lemma puts_rel_refl [simp]: "puts_rel p [] p"
  using CIRC_CNT_mod [of "head (recv p)" "tail (recv p)"] by (simp add: puts_rel_def)

lemma puts_rel_contents:
  "rx0_ready p \<Longrightarrow> puts_rel p bs p' \<Longrightarrow> rx0_ready p' \<and> contents (recv p') = contents (recv p) @ bs"
  using ring.abs_puts [of "recv p" bs] by (simp add: puts_rel_def rx0_ready_def del: length_contents)

lemma puts_rel_trans:
  assumes "rx0_ready p" "puts_rel p bs p'" "puts_rel p' bs' p''"
  shows "puts_rel p (bs @ bs') p''"
proof -
  have "contents (recv p') = contents (recv p) @ bs" using puts_rel_contents assms by blast
  then show ?thesis using assms by (simp add: puts_rel_def del: length_contents)
qed

lemma irq0_puts:
  assumes "rx0_ready p"
  shows "puts_rel p (received0 inp p) (uart0_irq wr inp flag p)"
  using assms uart0_recv [of p wr inp flag] received0_room [of p inp] CIRC_CNT_mod [of "head (recv p)" "tail (recv p)"]
  by (simp add: puts_rel_def rx0_ready_def)

lemma puts_rel_ints [simp]: "puts_rel (upd_regs f p) bs p' = puts_rel p bs p'" "rx0_ready (upd_regs f p) = rx0_ready p"
  by (simp_all add: puts_rel_def rx0_ready_def frame_simps)

lemma irqs0_puts: "rx0_ready p \<Longrightarrow> irqs0 wr flag es p = (bs, p') \<Longrightarrow> puts_rel p bs p'"
proof (induction es arbitrary: p bs)
  case (Cons e es)
  obtain ints inp where e: "e = (ints, inp)" by (cases e)
  define q where "q = upd_regs (\<lambda>r. r\<lparr>UR_INTS := ints\<rparr>) p"
  obtain bs' where bs: "irqs0 wr flag es (uart0_irq wr inp flag q) = (bs', p')" "bs = received0 inp q @ bs'"
    using Cons.prems by (auto simp: e q_def Let_def split: prod.splits)
  have q: "rx0_ready q" using Cons.prems by (simp add: q_def)
  have "puts_rel q (received0 inp q) (uart0_irq wr inp flag q)" by (rule irq0_puts [OF q])
  then have "puts_rel q bs p'"
    using puts_rel_trans [OF q] puts_rel_contents [OF q] Cons.IH bs by blast
  then show ?case by (simp add: q_def)
qed simp

lemma copy_during_spec:
  "rx0_ready p \<Longrightarrow> i + length ess \<le> length (contents (recv p)) \<Longrightarrow> copy_during wr flag ess i p = (bs, st, p') \<Longrightarrow>
   bs = take (length ess) (drop i (contents (recv p))) \<and> puts_rel p st p'"
proof (induction ess arbitrary: p i bs st)
  case (Cons es ess)
  obtain st1 p1 where p1: "irqs0 wr flag es p = (st1, p1)" by fastforce
  obtain bs2 st2 where p2: "copy_during wr flag ess (Suc i) p1 = (bs2, st2, p')"
      "bs = read_byte i (recv p1) # bs2" "st = st1 @ st2"
    using Cons.prems(3) by (auto simp: p1 split: prod.splits)
  have r1: "puts_rel p st1 p1" using irqs0_puts Cons.prems(1) p1 by blast
  then have c1: "rx0_ready p1" "contents (recv p1) = contents (recv p) @ st1"
    using puts_rel_contents Cons.prems(1) by blast+
  then have "bs2 = take (length ess) (drop (Suc i) (contents (recv p1))) \<and> puts_rel p1 st2 p'"
    using Cons.IH [of p1 "Suc i" bs2 st2] Cons.prems(2) p2(1) by (simp del: length_contents)
  moreover have "read_byte i (recv p1) = contents (recv p) ! i"
    using c1 Cons.prems(2) by (simp add: read_byte_contents rx0_ready_def nth_append del: length_contents)
  moreover have "drop i (contents (recv p)) = contents (recv p) ! i # drop (Suc i) (contents (recv p))"
    using Cons.prems(2) by (simp add: Cons_nth_drop_Suc del: length_contents)
  ultimately show ?case
    using c1 p2 Cons.prems(1,2) puts_rel_trans [OF Cons.prems(1) r1] by (simp del: length_contents)
qed simp

lemma uart0_read_during:
  assumes "rx0_ready p" "length ess = read_count readsize (recv p)"
    and "copy_during wr flag ess 0 p = (data, st, p1)" "irqs0 wr flag es p1 = (st', p2)"
  shows "data = take (unat readsize) (contents (recv p))"
    "contents (read_advance (length ess) (recv p2)) = drop (unat readsize) (contents (recv p)) @ st @ st'"
proof -
  let ?n = "length ess"
  have n: "?n = min (unat readsize) (length (contents (recv p)))" using assms(2) by (simp add: read_count_min)
  then have "data = take ?n (contents (recv p))" and s1: "puts_rel p st p1"
    using copy_during_spec [OF assms(1) _ assms(3)] by (simp_all del: length_contents)
  then show "data = take (unat readsize) (contents (recv p))" using n by (metis take_take min.commute take_all_iff order_refl)
  have "puts_rel p1 st' p2" using irqs0_puts assms(4) puts_rel_contents [OF assms(1) s1] by blast
  then have s2: "puts_rel p (st @ st') p2" using puts_rel_trans [OF assms(1) s1] by blast
  have d: "drop ?n (contents (recv p)) = drop (unat readsize) (contents (recv p))"
    using n by (simp add: min_def del: length_contents)
  show "contents (read_advance ?n (recv p2)) = drop (unat readsize) (contents (recv p)) @ st @ st'"
    using s2 n ring.advance_puts [of "recv p" "st @ st'" ?n] assms(1)
    by (simp add: puts_rel_def rx0_ready_def d [symmetric] del: length_contents fold_append)
qed

text \<open>C22: A read of port 0 is not disturbed by receive interrupts.  Between any two accesses of \<^verbatim>\<open>tls_uart_read\<close> to the ring
  (the count, each byte of the copy, the update of the tail) the handler may run any number of times.  The bytes copied are
  still the oldest ones, the same as those of an uninterrupted read, and afterwards the ring holds the unread rest followed
  by exactly the bytes the handler stored meanwhile, in the order of their arrival.  Flow control of the hardware is off.\<close>

theorem uart0_read_undisturbed:
  assumes "ring_ok (recv p)" and "fcStatus p \<noteq> TLS_UART_FLOW_CTRL_HARDWARE" and "1 \<le> readsize"
    and "length ess = read_count readsize (recv p)"
  shows "case copy_during wr flag ess 0 p of (data, st, p1) \<Rightarrow> case irqs0 wr flag es p1 of (st', p2) \<Rightarrow>
      data = take (unat readsize) (contents (recv p)) \<and>
      data = fst (snd (tls_uart_read True readsize p)) \<and>
      contents (read_advance (length ess) (recv p2)) = drop (unat readsize) (contents (recv p)) @ st @ st'"
proof -
  obtain data st p1 where c: "copy_during wr flag ess 0 p = (data, st, p1)" by (metis prod_cases3)
  obtain st' p2 where i: "irqs0 wr flag es p1 = (st', p2)" by fastforce
  have "rx0_ready p" using assms by (simp add: rx0_ready_def)
  note r = uart0_read_during [OF this assms(4) c i]
  have "\<not> readsize < 1" using assms(3) linorder_not_less by blast
  then have "fst (snd (tls_uart_read True readsize p)) = take (length ess) (contents (recv p))"
    using assms by (simp add: tls_uart_read_def read_copy_contents read_count_min Let_def del: length_contents)
  also have "\<dots> = data" using assms(4) r(1) by (simp add: read_count_min min_def del: length_contents)
  finally show ?thesis using r by (simp add: c i)
qed

definition demo_ring :: tls_uart_circ_buf where
  "demo_ring = \<lparr>buf = [65, 66, 67] @ replicate 4093 0, head = 3, tail = 0\<rparr>"

definition demo_port :: tls_uart_port where
  "demo_port = (port0 \<lparr>UR_LC = 0, UR_FC = 0, UR_DMAC = 0, UR_FIFOC = 0, UR_BD = 0, UR_INTM = 0, UR_INTS = 0, UR_TXW = []\<rparr>)
     \<lparr>recv := demo_ring\<rparr>"

definition demo_in :: "u8 list \<Rightarrow> uart_in" where
  "demo_in bs = \<lparr>rx_fifos = push_bit 6 (of_nat (length bs)), rxw = (\<lambda>k. bs ! k), tx_fifos = (\<lambda>_. 0), cts_fifos = 0,
     cts_tx_fifos = (\<lambda>_. 0), outside = (\<lambda>_. 0)\<rparr>"

lemma demo_ring_contents: "contents demo_ring = [65, 66, 67]"
  by (simp add: contents_def demo_ring_def CIRC_CNT_def upt_rec)

lemma demo_ring_ok: "ring_ok demo_ring"
  by (simp add: ring_ok_def demo_ring_def)

theorem uart0_read_undisturbed_witness:
  "case copy_during (\<lambda>a b. a AND NOT b) 0 [[(4, demo_in [70])], []] 0 demo_port of (data, st, p1) \<Rightarrow>
     case irqs0 (\<lambda>a b. a AND NOT b) 0 [(4, demo_in [71, 72])] p1 of (st', p2) \<Rightarrow>
       data = [65, 66] \<and> data = fst (snd (tls_uart_read True 2 demo_port)) \<and>
       contents (read_advance 2 (recv p2)) = [67] @ st @ st'"
proof -
  have p: "recv demo_port = demo_ring" "fcStatus demo_port = 0" by (simp_all add: demo_port_def port0_def)
  have n: "read_count 2 demo_ring = 2"
    using demo_ring_contents by (simp add: read_count_min del: length_contents)
  show ?thesis
    using uart0_read_undisturbed [of demo_port 2 "[[(4, demo_in [70])], []]" "\<lambda>a b. a AND NOT b" 0 "[(4, demo_in [71, 72])]"]
    by (simp add: p n demo_ring_ok demo_ring_contents numeral_2_eq_2 [symmetric] del: length_contents copy_during.simps irqs0.simps)
qed

end
