(* ===== verification/Uart_Ports.thy ===== *)
theory Uart_Ports
  imports Uart_Correct
begin

text \<open>
  Reception on the ports 1 to 5: what the handlers leave in the ring, the detection of the escape sequence, and the cases
  in which reception goes wrong.
\<close>

section \<open>What an activation stores\<close>

definition received1 :: "uart_in \<Rightarrow> tls_uart_port \<Rightarrow> u8 list" where
  "received1 inp p =
     (if rx_wanted (UR_INTS (regs p)) p \<and> UR_INTS (regs p) AND UART_RX_ERR_INT_FLAG = 0
      then map (rxw inp) [0..<unat (rx_count inp)] else [])"

definition kept1 :: "tls_uart_port \<Rightarrow> u8 list" where
  "kept1 p = (let c = contents (recv p) in if rx_wanted (UR_INTS (regs p)) p \<and> 3967 \<le> length c then drop 128 c else c)"

lemma rx_count_less: "unat (rx_count inp) < 64"
proof -
  have "rx_count inp = drop_bit 6 (rx_fifos inp) AND mask 6"
    by (simp add: rx_count_def mask_eq_exp_minus_1)
  then show ?thesis by (simp add: unat_and_mask)
qed

lemma rx1_loop_err:
  "src AND UART_RX_ERR_INT_FLAG \<noteq> 0 \<Longrightarrow>
   rx1_loop wr rx src k n ch p = (if n = 0 then ch else rx (k + n - 1), (ack_rx_err wr ^^ n) p)"
  by (induction n arbitrary: k ch p) (simp_all add: funpow_swap1)

lemma rx1_loop_store:
  "src AND UART_RX_ERR_INT_FLAG = 0 \<Longrightarrow>
   rx1_loop wr rx src k n ch p =
     (if n = 0 then ch else rx (k + n - 1), p\<lparr>recv := fold ring_put (map rx [k..<k + n]) (recv p)\<rparr>)"
proof (induction n arbitrary: k ch p)
  case (Suc n)
  then show ?case by (simp add: upt_conv_Cons del: upt_Suc)
qed simp

lemma overrun_sel [frame_simps]:
  "recv (rx_overrun wr src p) = recv p" "UR_INTM (regs (rx_overrun wr src p)) = UR_INTM (regs p)"
  by (simp_all add: rx_overrun_def Let_def frame_simps)

lemma rx1_receive_recv:
  "recv (rx1_receive wr inp flag src p) =
     fold ring_put (if src AND UART_RX_ERR_INT_FLAG = 0 then map (rxw inp) [0..<unat (rx_count inp)] else []) (make_room (recv p))"
  by (cases "src AND UART_RX_ERR_INT_FLAG = 0")
    (auto simp: rx1_receive_def Let_def rx1_loop_store rx1_loop_err frame_simps)

lemma irq1_recv:
  "recv (uart1_irq wr inp flag p) =
     fold ring_put (received1 inp p) (if rx_wanted (UR_INTS (regs p)) p then make_room (recv p) else recv p)"
  "recv (uart2_irq wr inp flag p) =
     fold ring_put (received1 inp p) (if rx_wanted (UR_INTS (regs p)) p then make_room (recv p) else recv p)"
  by (simp_all add: uart1_irq_def uart2_irq_def Let_def received1_def rx_wanted_def rx1_receive_recv frame_simps)

lemma irq1_contents:
  assumes "ring_ok (recv p)"
    and "r = fold ring_put (received1 inp p) (if rx_wanted (UR_INTS (regs p)) p then make_room (recv p) else recv p)"
  shows "ring_ok r \<and> contents r = kept1 p @ received1 inp p"
proof -
  let ?q = "if rx_wanted (UR_INTS (regs p)) p then make_room (recv p) else recv p"
  have c: "contents ?q = kept1 p" using assms(1) by (simp add: kept1_def contents_make_room Let_def del: length_contents)
  have "length (contents (recv p)) < 4096" using CIRC_CNT_mod by simp
  then have "length (contents ?q) + length (received1 inp p) \<le> 4095"
    using rx_count_less [of inp] unfolding c by (auto simp: kept1_def received1_def Let_def simp del: length_contents)
  moreover have "ring_ok ?q" using assms(1) by simp
  ultimately show ?thesis using ring.abs_puts [of ?q "received1 inp p"] c assms(2) by simp
qed

text \<open>C24: On the ports 1 to 5 every byte the FIFO delivers without an error is stored, whatever the reader does: when 128 or
  fewer cells are free the 128 oldest bytes are given up first, and nothing that was in the FIFO is lost or reordered.  The
  two handlers, which acknowledge the interrupt at different moments, leave the same ring.\<close>

theorem uart1_keeps_newest:
  assumes "ring_ok (recv p)"
  shows "recv (uart2_irq wr inp flag p) = recv (uart1_irq wr inp flag p) \<and>
    ring_ok (recv (uart1_irq wr inp flag p)) \<and>
    contents (recv (uart1_irq wr inp flag p)) =
      (if rx_wanted (UR_INTS (regs p)) p \<and> 3967 \<le> length (contents (recv p)) then drop 128 (contents (recv p)) else contents (recv p))
      @ (if rx_wanted (UR_INTS (regs p)) p \<and> UR_INTS (regs p) AND UART_RX_ERR_INT_FLAG = 0
         then map (rxw inp) [0..<unat (rx_count inp)] else [])"
proof -
  have "recv (uart2_irq wr inp flag p) = recv (uart1_irq wr inp flag p)" by (simp only: irq1_recv)
  moreover have "ring_ok (recv (uart1_irq wr inp flag p)) \<and> contents (recv (uart1_irq wr inp flag p)) = kept1 p @ received1 inp p"
    by (rule irq1_contents [OF assms irq1_recv(1)])
  ultimately show ?thesis by (simp only: kept1_def received1_def Let_def)
qed

theorem uart1_keeps_newest_witness:
  "contents (recv (uart1_irq (\<lambda>a b. a AND NOT b) (demo_in [80, 81]) 0 (upd_regs (\<lambda>r. r\<lparr>UR_INTS := 4\<rparr>) demo_port)))
     = [65, 66, 67, 80, 81]"
proof -
  let ?p = "upd_regs (\<lambda>r. r\<lparr>UR_INTS := 4\<rparr>) demo_port"
  have p: "recv ?p = demo_ring" "UR_INTS (regs ?p) = 4" "rx_wanted 4 ?p"
    by (simp_all add: demo_port_def port0_def upd_regs_def rx_wanted_def)
  have l: "length (contents demo_ring) = 3" by (simp only: demo_ring_contents) simp
  have c: "unat (rx_count (demo_in [80, 81])) = 2" by (simp add: rx_count_def demo_in_def)
  have m: "map (rxw (demo_in [80, 81])) [0..<2] = [80, 81]" by (simp add: demo_in_def upt_rec)
  show ?thesis
    using uart1_keeps_newest [of ?p "\<lambda>a b. a AND NOT b" "demo_in [80, 81]" 0]
    by (simp add: p l c m demo_ring_ok demo_ring_contents del: length_contents)
qed

section \<open>The escape sequence\<close>

lemma and_fff_id: "unat (x :: u32) < 4096 \<Longrightarrow> x AND 0xFFF = x"
  by (rule word_unat_eq_iff [THEN iffD2]) simp

lemma head_puts: "unat (head (fold ring_put bs r)) mod 4096 = (unat (head r) + length bs) mod 4096"
  by (induction bs arbitrary: r) (simp_all add: ring_put_def mod_simps)

lemma head_eq_unat: "unat (head r) = k \<Longrightarrow> head r = of_nat k"
  by auto

text \<open>With three bytes just stored the handler looks at the first two of them, unless the third went to the last cell: then
  it looks at memory before the ring.\<close>

lemma plus_before_three:
  assumes "ring_ok r" "r' = fold ring_put [a, b, c] r" "head r' \<noteq> 0"
  shows "plus_before mem r' \<longleftrightarrow> a = plus_char \<and> b = plus_char"
proof -
  let ?h = "unat (head r)"
  have h: "?h < 4096" "length (buf r) = 4096" using assms(1) by (simp_all add: ring_ok_def)
  have "?h \<noteq> 4093"
    using assms(2,3) by (auto dest!: head_eq_unat simp: ring_put_def)
  then consider "?h < 4093" | "?h = 4094" | "?h = 4095" using h by linarith
  then show ?thesis
  proof cases
    case 1
    have s: "unat (head r + 1) = ?h + 1" "unat (head r + 2) = ?h + 2" "unat (head r + 3) = ?h + 3"
      using 1 by (simp_all add: unat_word_ariths)
    then have "head r' = head r + 3" "buf r' = (buf r)[?h := a, ?h + 1 := b, ?h + 2 := c]"
      using 1 by (simp_all add: assms(2) ring_put_def and_fff_id add.assoc)
    moreover have "head r + 3 - 1 \<noteq> 0" "head r + 3 - 1 \<noteq> 1"
      using s by (simp_all add: word_unat_eq_iff add.commute [of 2])
    ultimately show ?thesis
      using h s 1 by (auto simp: plus_before_def buf_at_def add.commute [of 1] add.commute [of 2])
  next
    case 2
    then show ?thesis using h by (auto dest!: head_eq_unat simp: assms(2) ring_put_def plus_before_def buf_at_def)
  next
    case 3
    then show ?thesis using h by (auto dest!: head_eq_unat simp: assms(2) ring_put_def plus_before_def buf_at_def)
  qed
qed

lemma plus_before_outside:
  "ring_ok r \<Longrightarrow> head r = 0 \<Longrightarrow> plus_before mem r \<longleftrightarrow> mem (- 2) = plus_char \<and> mem (- 3) = plus_char"
  by (simp add: plus_before_def buf_at_def ring_ok_def)

section \<open>Reception that goes wrong\<close>

text \<open>With hardware flow control the handler of port 0 stores one byte even into a full ring, which then counts as empty:
  4095 received bytes are lost.\<close>

lemma put_full: "ring_ok r \<Longrightarrow> length (contents r) = 4095 \<Longrightarrow> contents (ring_put ch r) = []"
proof -
  assume a: "ring_ok r" "length (contents r) = 4095"
  have "unat (head (ring_put ch r)) = (unat (tail r) + 4096) mod 4096"
    using a head_of_tail [OF a(1)] by (simp add: ring_put_def mod_simps)
  then have "head (ring_put ch r) = tail (ring_put ch r)"
    using a(1) by (simp add: ring_ok_def word_unat_eq_iff)
  then show ?thesis by (simp add: contents_def CIRC_CNT_def)
qed

lemma uart0_flow_control_loses:
  assumes "ring_ok (recv p)" "length (contents (recv p)) = 4095" "fcStatus p = TLS_UART_FLOW_CTRL_HARDWARE" "uart_no p = 0"
    and "UR_INTS (regs p) = UIS_RX_FIFO" "UR_INTM (regs p) = 0" "rx_count inp \<noteq> 0"
  shows "contents (recv (uart0_irq wr inp flag p)) = []"
proof -
  obtain n where n: "unat (rx_count inp) = Suc n" using assms(7) by (metis not0_implies_Suc unat_eq_zero)
  have sp: "CIRC_SPACE (head (recv p)) (tail (recv p)) = 0"
    using unat_CIRC_SPACE [OF assms(1)] assms(2) by (simp add: unat_eq_zero)
  have u: "uart_no (ack_ints wr v p) = 0" for v using assms(4) by (simp add: ack_ints_def frame_simps)
  have "recv (uart0_irq wr inp flag p) = ring_put (rxw inp 0) (recv p)"
    using assms sp
    by (simp add: uart0_irq_def rx_wanted_def n Let_def frame_simps tls_set_uart_rx_status_def u)
  then show ?thesis using put_full assms(1,2) by simp
qed

lemma count_of_mod:
  assumes "unat h = (unat t + c) mod 4096" "unat t < 4096" "c < 4096"
  shows "unat (CIRC_CNT h t) = c"
proof -
  have "unat h < 4096" using assms(1) by simp
  then show ?thesis using assms by (cases "unat t + c < 4096") (simp_all add: unat_CIRC_CNT le_mod_geq)
qed

text \<open>A read of port 1 that takes everything and is interrupted between its copy and its update of the tail: the handler moves
  the tail too, the two moves add up, and thousands of stale bytes count as received.\<close>

lemma uart1_torn_read:
  assumes "ring_ok (recv p)" "3967 \<le> length (contents (recv p))"
    and "UR_INTS (regs p) = UIS_RX_FIFO" "UR_INTM (regs p) = 0"
    and "r = recv (uart1_irq wr inp flag p)"
  shows "length (contents (read_advance (length (contents (recv p))) r)) = 3968 + unat (rx_count inp)"
proof -
  let ?n = "length (contents (recv p))" and ?k = "unat (rx_count inp)"
  have w: "rx_wanted (UR_INTS (regs p)) p" using assms(3,4) by (simp add: rx_wanted_def)
  have r: "ring_ok r" "contents r = drop 128 (contents (recv p)) @ map (rxw inp) [0..<?k]"
    using irq1_contents [OF assms(1) irq1_recv(1)] assms(2,3,5) w
    by (simp_all add: kept1_def received1_def Let_def del: length_contents)
  have n: "?n < 4096" "?k < 64" using CIRC_CNT_mod rx_count_less by simp_all
  have c: "length (contents r) = ?n - 128 + ?k" using r(2) by simp
  have t: "unat (tail (read_advance ?n r)) = (unat (tail r) + ?n) mod 4096"
    by (simp add: read_advance_def unat_wrap_of_nat del: unat_wrap length_contents)
  have h: "unat (head (read_advance ?n r)) = (unat (tail r) + (?n - 128 + ?k)) mod 4096"
    using head_of_tail [OF r(1)] c by (simp add: read_advance_def del: length_contents)
  have "unat (tail r) + ?n + (3968 + ?k) = unat (tail r) + (?n - 128 + ?k) + 4096" using assms(2) by linarith
  then have "unat (head (read_advance ?n r)) = (unat (tail (read_advance ?n r)) + (3968 + ?k)) mod 4096"
    unfolding h t by (metis mod_add_left_eq mod_add_self2)
  then show ?thesis
    using n t by (simp add: count_of_mod)
qed

end
