(* ===== verification/Uart_Tx.thy ===== *)
theory Uart_Tx
  imports Uart_Ports
begin

text \<open>
  Transmission.  \<open>queued\<close> is the queue of bytes the pending messages stand for.  Whatever writes, transmit interrupts,
  receive interrupts and changes of flow control happen, in any order, the bytes on the line followed by the queued ones
  are the accepted bytes in order; each message is released once; and a queue is sent in as many interrupts as its
  lengths and the room in the FIFO call for.
\<close>

section \<open>One message\<close>

definition msg_ok :: "tls_uart_tx_msg \<Rightarrow> bool" where
  "msg_ok m \<longleftrightarrow> unat (buflen m) = length (tx_buf m) \<and> offset m \<le> buflen m"

definition rest :: "tls_uart_tx_msg \<Rightarrow> u8 list" where
  "rest m = drop (unat (offset m)) (tx_buf m)"

definition queued :: "tls_uart_port \<Rightarrow> u8 list" where
  "queued p = concat (map rest (tx_msg_pending_list p))"

definition line_and_queue :: "tls_uart_port \<Rightarrow> u8 list" where
  "line_and_queue p = UR_TXW (regs p) @ queued p"

lemma rest_Nil_iff: "msg_ok m \<Longrightarrow> rest m = [] \<longleftrightarrow> buflen m \<le> offset m"
  by (auto simp: msg_ok_def rest_def word_le_nat_alt)

lemma msg_step:
  assumes "msg_ok m" "offset m < buflen m"
  shows "msg_ok (m\<lparr>offset := offset m + 1\<rparr>)" "rest m = tx_buf m ! unat (offset m) # rest (m\<lparr>offset := offset m + 1\<rparr>)"
proof -
  have u: "unat (offset m + 1) = Suc (unat (offset m))"
    using assms(2) unsigned_less [where 'a = nat, of "buflen m"] by (simp add: unat_word_ariths word_less_nat_alt)
  then show "msg_ok (m\<lparr>offset := offset m + 1\<rparr>)"
    using assms by (simp add: msg_ok_def word_le_nat_alt word_less_nat_alt)
  show "rest m = tx_buf m ! unat (offset m) # rest (m\<lparr>offset := offset m + 1\<rparr>)"
    using assms u by (simp add: rest_def msg_ok_def word_less_nat_alt Cons_nth_drop_Suc)
qed

lemma tx_loop_spec:
  "msg_ok m \<Longrightarrow> tx_loop fifos full k n m = (bs, m') \<Longrightarrow> msg_ok m' \<and> rest m = bs @ rest m' \<and> length bs \<le> n"
proof (induction n arbitrary: k m bs)
  case (Suc n)
  show ?case
  proof (cases "offset m < buflen m \<and> fifos k AND UFS_TX_FIFO_CNT_MASK \<noteq> full")
    case True
    then obtain bs' where l: "tx_loop fifos full (Suc k) n (m\<lparr>offset := offset m + 1\<rparr>) = (bs', m')"
        "bs = tx_buf m ! unat (offset m) # bs'"
      using Suc.prems(2) by (auto split: prod.splits)
    show ?thesis using Suc.IH [OF _ l(1)] msg_step [of m] True Suc.prems(1) l(2) by simp
  qed (use Suc.prems in \<open>auto split: if_splits\<close>)
qed simp

text \<open>A loop that finds the FIFO not full at its first \<open>r\<close> checks sends \<open>r\<close> bytes, or the rest of the message.\<close>

lemma tx_loop_room:
  "msg_ok m \<Longrightarrow> tx_loop fifos full k n m = (bs, m') \<Longrightarrow> (\<And>j. j < r \<Longrightarrow> fifos (k + j) AND UFS_TX_FIFO_CNT_MASK \<noteq> full) \<Longrightarrow> r \<le> n \<Longrightarrow>
   min r (length (rest m)) \<le> length bs"
proof (induction n arbitrary: k m bs r)
  case (Suc n)
  show ?case
  proof (cases "offset m < buflen m \<and> 0 < r")
    case True
    then obtain j where j: "r = Suc j" by (cases r) auto
    have f: "fifos k AND UFS_TX_FIFO_CNT_MASK \<noteq> full" using Suc.prems(3) [of 0] True by simp
    obtain bs' where l: "tx_loop fifos full (Suc k) n (m\<lparr>offset := offset m + 1\<rparr>) = (bs', m')"
        "bs = tx_buf m ! unat (offset m) # bs'"
      using Suc.prems(2) True f by (auto split: prod.splits)
    have "min j (length (rest (m\<lparr>offset := offset m + 1\<rparr>))) \<le> length bs'"
      using Suc.IH [OF _ l(1), of j] msg_step(1) [of m] True Suc.prems(1,3,4) j by (metis Suc_le_mono add_Suc_right add_Suc Suc_less_eq)
    then show ?thesis using msg_step(2) [of m] True Suc.prems(1) l(2) j by simp
  next
    case False
    then show ?thesis using rest_Nil_iff [OF Suc.prems(1)] by auto
  qed
qed simp

section \<open>One port\<close>

text \<open>Every pending message is well formed and has something left to send; every released message was sent completely; and
  nothing waits for its release when the driver's own callback is installed.\<close>

definition tx_ok :: "tls_uart_port \<Rightarrow> bool" where
  "tx_ok p \<longleftrightarrow> list_all (\<lambda>m. msg_ok m \<and> rest m \<noteq> []) (tx_msg_pending_list p) \<and>
     list_all (\<lambda>m. msg_ok m \<and> rest m = []) (tx_msg_to_be_freed_list p) \<and>
     list_all (\<lambda>m. msg_ok m \<and> rest m = []) (freed p) \<and>
     (tx_callback p = Some FreeSent \<longrightarrow> tx_msg_to_be_freed_list p = [])"

definition held :: "tls_uart_port \<Rightarrow> nat" where
  "held p = length (tx_msg_pending_list p) + length (tx_msg_to_be_freed_list p) + length (freed p)"

lemma tx_chars_start_eq: "tls_uart_tx_chars_start = tls_uart_tx_chars"
  by (intro ext) (simp add: tls_uart_tx_chars_start_def tls_uart_tx_chars_def)

lemma call_tx_ok:
  assumes "list_all (\<lambda>m. msg_ok m \<and> rest m \<noteq> []) (tx_msg_pending_list p)"
    "list_all (\<lambda>m. msg_ok m \<and> rest m = []) (tx_msg_to_be_freed_list p)"
    "list_all (\<lambda>m. msg_ok m \<and> rest m = []) (freed p)"
  shows "tx_ok (call_tx_callbacks p) \<and> held (call_tx_callbacks p) = held p"
  using assms
  by (auto simp: tx_ok_def held_def call_tx_callbacks_def tls_uart_free_tx_sent_data_def free_loop_eq Let_def
      split: option.split tx_cb.split)

lemma tx_chars_cons:
  assumes "tx_msg_pending_list p = m # ms" "tx_loop fifos (tx_fifofull p) 0 32 m = (bs, m')"
  shows "tls_uart_tx_chars fifos p =
    (let p = (upd_regs (\<lambda>r. r\<lparr>UR_TXW := UR_TXW r @ bs\<rparr>) p)\<lparr>icount_tx := icount_tx p + of_nat (length bs)\<rparr>
     in if offset m' \<ge> buflen m'
        then call_tx_callbacks (p\<lparr>tx_msg_pending_list := ms, tx_msg_to_be_freed_list := tx_msg_to_be_freed_list p @ [m']\<rparr>)
        else p\<lparr>tx_msg_pending_list := m' # ms\<rparr>)"
  by (simp add: tls_uart_tx_chars_def assms)

lemma tx_chars_line:
  assumes "tx_ok p"
  shows "line_and_queue (tls_uart_tx_chars fifos p) = line_and_queue p"
proof (cases "tx_msg_pending_list p")
  case Nil
  then show ?thesis by (simp add: tls_uart_tx_chars_def)
next
  case (Cons m ms)
  obtain bs m' where l: "tx_loop fifos (tx_fifofull p) 0 32 m = (bs, m')" by fastforce
  have m: "msg_ok m" using assms Cons by (simp add: tx_ok_def)
  note r = tx_loop_spec [OF m l]
  have "rest m' = [] \<longleftrightarrow> buflen m' \<le> offset m'" using r rest_Nil_iff by blast
  then show ?thesis
    using r by (auto simp: tx_chars_cons [OF Cons l] line_and_queue_def queued_def Cons frame_simps Let_def)
qed

text \<open>How many interrupts that find room for \<open>r\<close> bytes the queue needs.\<close>

definition irqs_needed :: "nat \<Rightarrow> tls_uart_port \<Rightarrow> nat" where
  "irqs_needed r p = sum_list (map (\<lambda>m. (length (rest m) + (r - 1)) div r) (tx_msg_pending_list p))"

definition has_room :: "nat \<Rightarrow> u32 \<Rightarrow> (nat \<Rightarrow> u32) \<Rightarrow> bool" where
  "has_room r full fifos \<longleftrightarrow> (\<forall>k < r. fifos k AND UFS_TX_FIFO_CNT_MASK \<noteq> full)"

lemma blocks_pos: "0 < n \<Longrightarrow> 0 < r \<Longrightarrow> 0 < (n + (r - 1)) div (r :: nat)"
  by (subst div_greater_zero_iff) linarith

lemma irqs_needed_0:
  assumes "tx_ok p" and "0 < r"
  shows "irqs_needed r p = 0 \<longleftrightarrow> tx_msg_pending_list p = []"
proof (cases "tx_msg_pending_list p")
  case (Cons m ms)
  then have "0 < length (rest m)" using assms(1) by (simp add: tx_ok_def)
  from blocks_pos [OF this assms(2)] have "irqs_needed r p \<noteq> 0" unfolding irqs_needed_def Cons list.map sum_list.Cons by linarith
  then show ?thesis using Cons by simp
qed (simp add: irqs_needed_def)

lemma irqs_needed_chars:
  assumes "tx_ok p" and "0 < r"
  shows "irqs_needed r (tls_uart_tx_chars fifos p) \<le> irqs_needed r p"
    and "has_room r (tx_fifofull p) fifos \<Longrightarrow> r \<le> 32 \<Longrightarrow> irqs_needed r (tls_uart_tx_chars fifos p) \<le> irqs_needed r p - 1"
proof -
  have "irqs_needed r (tls_uart_tx_chars fifos p) \<le> irqs_needed r p \<and>
    (has_room r (tx_fifofull p) fifos \<and> r \<le> 32 \<longrightarrow> irqs_needed r (tls_uart_tx_chars fifos p) \<le> irqs_needed r p - 1)"
  proof (cases "tx_msg_pending_list p")
    case Nil
    then show ?thesis by (simp add: tls_uart_tx_chars_def irqs_needed_def)
  next
    case (Cons m ms)
    obtain bs m' where l: "tx_loop fifos (tx_fifofull p) 0 32 m = (bs, m')" by fastforce
    have m: "msg_ok m" "0 < length (rest m)" using assms(1) Cons by (simp_all add: tx_ok_def)
    note s = tx_loop_spec [OF m(1) l]
    have e: "rest m' = [] \<longleftrightarrow> buflen m' \<le> offset m'" using s rest_Nil_iff by blast
    have len: "length (rest m) = length bs + length (rest m')" using s by simp
    let ?c = "\<lambda>n. (n + (r - 1)) div r"
    have le: "?c (length (rest m')) \<le> ?c (length (rest m))" using len by (intro div_le_mono) simp
    have zero: "?c 0 = 0" using assms(2) by simp
    have one: "1 \<le> ?c (length (rest m))" using blocks_pos [OF m(2) assms(2)] by simp
    have less: "?c (length (rest m')) \<le> ?c (length (rest m)) - 1" if "has_room r (tx_fifofull p) fifos" "r \<le> 32"
    proof (cases "rest m' = []")
      case True
      then show ?thesis using zero by simp
    next
      case False
      have "min r (length (rest m)) \<le> length bs"
        using tx_loop_room [OF m(1) l, of r] that by (simp add: has_room_def)
      then have "r \<le> length bs" using len False by (auto simp: min_def split: if_splits)
      then have "?c (length (rest m')) + 1 \<le> (length (rest m) - r + (r - 1)) div r + 1" using len by (intro add_right_mono div_le_mono) simp
      also have "\<dots> = ?c (length (rest m))" using \<open>r \<le> length bs\<close> len assms(2) by (simp add: le_div_geq)
      finally show ?thesis by simp
    qed
    have "irqs_needed r (tls_uart_tx_chars fifos p) = ?c (length (rest m')) + sum_list (map (\<lambda>m. ?c (length (rest m))) ms)"
      using e zero by (auto simp: tx_chars_cons [OF Cons l] irqs_needed_def frame_simps Let_def)
    moreover have "irqs_needed r p = ?c (length (rest m)) + sum_list (map (\<lambda>m. ?c (length (rest m))) ms)"
      by (simp add: irqs_needed_def Cons)
    ultimately show ?thesis using le less one by (metis Nat.add_diff_assoc2 add_right_mono)
  qed
  then show "irqs_needed r (tls_uart_tx_chars fifos p) \<le> irqs_needed r p"
    "has_room r (tx_fifofull p) fifos \<Longrightarrow> r \<le> 32 \<Longrightarrow> irqs_needed r (tls_uart_tx_chars fifos p) \<le> irqs_needed r p - 1"
    by simp_all
qed

lemma tx_chars_ok:
  assumes "tx_ok p"
  shows "tx_ok (tls_uart_tx_chars fifos p) \<and> held (tls_uart_tx_chars fifos p) = held p"
proof (cases "tx_msg_pending_list p")
  case Nil
  then show ?thesis using assms by (simp add: tls_uart_tx_chars_def)
next
  case (Cons m ms)
  obtain bs m' where l: "tx_loop fifos (tx_fifofull p) 0 32 m = (bs, m')" by fastforce
  have m: "msg_ok m" using assms Cons by (simp add: tx_ok_def)
  note r = tx_loop_spec [OF m l]
  have e: "rest m' = [] \<longleftrightarrow> buflen m' \<le> offset m'" using r rest_Nil_iff by blast
  show ?thesis
  proof (cases "buflen m' \<le> offset m'")
    case True
    let ?q = "(upd_regs (\<lambda>r. r\<lparr>UR_TXW := UR_TXW r @ bs\<rparr>) p)\<lparr>icount_tx := icount_tx p + of_nat (length bs),
        tx_msg_pending_list := ms, tx_msg_to_be_freed_list := tx_msg_to_be_freed_list p @ [m']\<rparr>"
    have "tls_uart_tx_chars fifos p = call_tx_callbacks ?q"
      using True by (simp add: tx_chars_cons [OF Cons l] frame_simps Let_def)
    moreover have "held ?q = held p" by (simp add: held_def Cons frame_simps)
    moreover have "tx_ok (call_tx_callbacks ?q) \<and> held (call_tx_callbacks ?q) = held ?q"
      using assms Cons r e True by (intro call_tx_ok) (simp_all add: tx_ok_def frame_simps)
    ultimately show ?thesis by simp
  next
    case False
    then show ?thesis
      using assms Cons r e by (auto simp: tx_chars_cons [OF Cons l] tx_ok_def held_def frame_simps Let_def)
  qed
qed

section \<open>Everything that can happen to a port\<close>

text \<open>The fields transmission depends on; reception leaves them alone.\<close>

definition tx_view where
  "tx_view p = (UR_TXW (regs p), tx_msg_pending_list p, tx_msg_to_be_freed_list p, freed p, tx_callback p, tx_fifofull p)"

lemma tx_view_cong:
  assumes "tx_view p = tx_view q"
  shows "tx_ok p = tx_ok q" "held p = held q" "line_and_queue p = line_and_queue q"
    "tx_fifofull p = tx_fifofull q" "irqs_needed r p = irqs_needed r q" "tx_msg_pending_list p = tx_msg_pending_list q"
  using assms by (simp_all add: tx_view_def tx_ok_def held_def line_and_queue_def queued_def irqs_needed_def)

named_theorems view_simps

lemma view_upd_regs: "(\<And>r. UR_TXW (f r) = UR_TXW r) \<Longrightarrow> tx_view (upd_regs f p) = tx_view p"
  by (simp add: tx_view_def frame_simps)

lemma view_basic [view_simps]:
  "tx_view (ack_ints wr v p) = tx_view p" "tx_view (ack_rx_err wr p) = tx_view p" "tx_view (call_rx len d p) = tx_view p"
  "tx_view (or_LC b p) = tx_view p" "tx_view (clear_LC b p) = tx_view p" "tx_view (p\<lparr>recv := r\<rparr>) = tx_view p"
  "tx_view (p\<lparr>plus_char_cnt := c\<rparr>) = tx_view p" "tx_view (p\<lparr>plus_char_cnt := c, recv := r\<rparr>) = tx_view p"
  "tx_view (p\<lparr>hw_stopped := h\<rparr>) = tx_view p" "tx_view (p\<lparr>fcStatus := f\<rparr>) = tx_view p"
  "tx_view (upd_regs (\<lambda>r. r\<lparr>UR_INTS := v\<rparr>) p) = tx_view p"
  by (simp_all add: ack_ints_def ack_rx_err_def or_LC_def clear_LC_def view_upd_regs)
    (simp_all add: tx_view_def call_rx_def)

lemma view_rx_status [view_simps]: "tx_view (tls_set_uart_rx_status st p) = tx_view p"
  by (simp add: tls_set_uart_rx_status_def tx_view_def frame_simps)

lemma view_rx0_loop [view_simps]: "tx_view (snd (rx0_loop wr rx src flag k n len p)) = tx_view p"
  by (induction n arbitrary: k len p) (simp_all add: view_simps Let_def)

lemma view_rx1_loop [view_simps]: "tx_view (snd (rx1_loop wr rx src k n ch p)) = tx_view p"
  by (induction n arbitrary: k ch p) (simp_all add: view_simps)

lemma view_overrun [view_simps]: "tx_view (rx_overrun wr src p) = tx_view p"
  by (simp add: rx_overrun_def Let_def view_simps view_upd_regs)

lemma view_receive1 [view_simps]: "tx_view (rx1_receive wr inp flag src p) = tx_view p"
proof -
  let ?l = "rx1_loop wr (rxw inp) src 0 (unat (rx_count inp)) 0 (p\<lparr>plus_char_cnt := 0, recv := make_room (recv p)\<rparr>)"
  have "tx_view (snd ?l) = tx_view p" by (simp only: view_simps)
  then show ?thesis by (cases ?l) (simp add: rx1_receive_def Let_def view_simps)
qed

lemma view_flow [view_simps]: "tx_view (snd (tls_uart_set_flow_ctrl fc p)) = tx_view p"
  by (simp add: tls_uart_set_flow_ctrl_def view_upd_regs)

text \<open>A port step: a step after which the sent and queued bytes are the same and not more interrupts are needed.\<close>

definition tx_same :: "tls_uart_port \<Rightarrow> tls_uart_port \<Rightarrow> bool" where
  "tx_same p q \<longleftrightarrow> (tx_ok p \<longrightarrow> tx_ok q \<and> held q = held p \<and> line_and_queue q = line_and_queue p \<and> tx_fifofull q = tx_fifofull p \<and>
     (\<forall>r > 0. irqs_needed r q \<le> irqs_needed r p))"

lemma tx_sameI: "tx_view q = tx_view p \<Longrightarrow> tx_same p q"
  using tx_view_cong [of q p] by (simp add: tx_same_def)

lemma tx_same_trans [trans]: "tx_same p q \<Longrightarrow> tx_same q r \<Longrightarrow> tx_same p r"
  unfolding tx_same_def by (simp, meson order_trans)

lemma same_chars: "tx_same p (tls_uart_tx_chars fifos p)"
  by (simp add: tx_same_def tx_chars_ok tx_chars_line irqs_needed_chars(1) frame_simps)

lemma same_chars_after: "tx_view q = tx_view p \<Longrightarrow> tx_same p (tls_uart_tx_chars fifos q)"
  using tx_same_trans [OF tx_sameI same_chars] by blast

lemma same_cts: "tx_same p (uart_handle_cts_change fifos st p)"
  by (simp add: uart_handle_cts_change_def tls_uart_tx_enable_def tls_uart_tx_disable_def view_simps
      same_chars_after tx_sameI)

lemma same_irq_tail: "tx_same p (irq_tail inp src p)"
proof -
  define q where "q = (if src AND UART_TX_INT_FLAG \<noteq> 0 then tls_uart_tx_chars (tx_fifos inp) p else p)"
  define r where "r = (if src AND UIS_CTS_CHNG \<noteq> 0 then uart_handle_cts_change (cts_tx_fifos inp) (cts_fifos inp AND UFS_CST_STS) q else q)"
  have "tx_same p q" by (simp add: q_def same_chars tx_sameI)
  also have "tx_same q r" by (simp add: r_def same_cts tx_sameI)
  also have "tx_same r (irq_tail inp src p)"
    unfolding irq_tail_def Let_def q_def [symmetric] r_def [symmetric] by (auto simp: view_simps intro!: tx_sameI)
  finally show ?thesis .
qed

text \<open>A step that sends when it finds room for \<open>r\<close> bytes.\<close>

definition tx_sends :: "nat \<Rightarrow> tls_uart_port \<Rightarrow> tls_uart_port \<Rightarrow> bool" where
  "tx_sends r p q \<longleftrightarrow> (tx_ok p \<longrightarrow> irqs_needed r q \<le> irqs_needed r p - 1)"

lemma tx_sends_trans: "tx_sends r p q \<Longrightarrow> tx_same p q \<Longrightarrow> 0 < r \<Longrightarrow> tx_same q q' \<Longrightarrow> tx_sends r p q'"
  unfolding tx_sends_def tx_same_def by (meson order_trans)

lemma tail_sends:
  assumes "src AND UART_TX_INT_FLAG \<noteq> 0" and "has_room r (tx_fifofull p) (tx_fifos inp)" and "0 < r" and "r \<le> 32"
  shows "tx_sends r p (irq_tail inp src p)"
proof -
  let ?q = "tls_uart_tx_chars (tx_fifos inp) p" and ?s = "src AND NOT UART_TX_INT_FLAG"
  have "?s AND UART_TX_INT_FLAG = 0" "?s AND UIS_CTS_CHNG = src AND UIS_CTS_CHNG" "?s AND UIS_RX_FIFO_TIMEOUT = src AND UIS_RX_FIFO_TIMEOUT"
    by (simp_all add: and.assoc)
  then have "irq_tail inp src p = irq_tail inp ?s ?q" using assms(1) by (simp add: irq_tail_def)
  moreover have "tx_sends r p ?q" unfolding tx_sends_def using irqs_needed_chars(2) assms(2-4) by blast
  ultimately show ?thesis using tx_sends_trans same_chars same_irq_tail assms(3) by metis
qed

lemma tail_sends_after:
  assumes "tx_view q = tx_view p" and "src AND UART_TX_INT_FLAG \<noteq> 0" and "has_room r (tx_fifofull p) (tx_fifos inp)" and "0 < r" and "r \<le> 32"
  shows "tx_sends r p (irq_tail inp src q)"
proof -
  note c = tx_view_cong [OF assms(1)]
  have "tx_sends r q (irq_tail inp src q)" using assms(2-5) by (intro tail_sends) (simp_all add: c(4))
  then show ?thesis using c by (simp add: tx_sends_def)
qed

lemma same_tail_after: "tx_view q = tx_view p \<Longrightarrow> tx_same p (irq_tail inp src q)"
  using tx_same_trans [OF tx_sameI same_irq_tail] by blast

lemma same_irq0: "tx_same p (uart0_irq wr inp flag p)"
proof -
  let ?src = "UR_INTS (regs p)" and ?q = "ack_ints wr (UR_INTS (regs p)) p"
  let ?l = "rx0_loop wr (rxw inp) ?src flag 0 (unat (rx_count inp)) 0 ?q"
  have "tx_view (snd ?l) = tx_view p" by (simp only: view_simps)
  then show ?thesis
    by (cases ?l) (simp add: uart0_irq_def Let_def view_simps same_tail_after)
qed

lemma same_irq1: "tx_same p (uart1_irq wr inp flag p)"
  by (simp add: uart1_irq_def Let_def view_simps same_tail_after)

lemma same_irq2: "tx_same p (uart2_irq wr inp flag p)"
proof -
  let ?q = "if rx_wanted (UR_INTS (regs p)) (rx_overrun wr (UR_INTS (regs p)) p)
    then rx1_receive wr inp flag (UR_INTS (regs p)) (rx_overrun wr (UR_INTS (regs p)) p) else rx_overrun wr (UR_INTS (regs p)) p"
  have "tx_same p (irq_tail inp (UR_INTS (regs p)) ?q)" by (simp add: view_simps same_tail_after)
  also have "tx_same (irq_tail inp (UR_INTS (regs p)) ?q) (uart2_irq wr inp flag p)"
    by (simp add: uart2_irq_def Let_def tx_sameI view_simps)
  finally show ?thesis .
qed

text \<open>The three handlers on a transmit interrupt.\<close>

lemma irq_sends:
  assumes "UR_INTS (regs p) AND UART_TX_INT_FLAG \<noteq> 0" and "has_room r (tx_fifofull p) (tx_fifos inp)" and "0 < r" and "r \<le> 32"
  shows "tx_sends r p (uart0_irq wr inp flag p)" "tx_sends r p (uart1_irq wr inp flag p)" "tx_sends r p (uart2_irq wr inp flag p)"
proof -
  note after = tail_sends_after [OF _ assms]
  let ?src = "UR_INTS (regs p)" and ?q = "ack_ints wr (UR_INTS (regs p)) p"
  let ?l = "rx0_loop wr (rxw inp) ?src flag 0 (unat (rx_count inp)) 0 ?q"
  have "tx_view (snd ?l) = tx_view p" by (simp only: view_simps)
  then show "tx_sends r p (uart0_irq wr inp flag p)"
    by (cases ?l) (simp add: uart0_irq_def Let_def view_simps after)
  show "tx_sends r p (uart1_irq wr inp flag p)" by (simp add: uart1_irq_def Let_def view_simps after)
  let ?o = "rx_overrun wr ?src p"
  let ?t = "irq_tail inp ?src (if rx_wanted ?src ?o then rx1_receive wr inp flag ?src ?o else ?o)"
  have "tx_sends r p ?t" by (simp add: view_simps after)
  moreover have "tx_view (uart2_irq wr inp flag p) = tx_view ?t" by (simp add: uart2_irq_def Let_def view_simps)
  ultimately show "tx_sends r p (uart2_irq wr inp flag p)" using tx_view_cong(5) unfolding tx_sends_def by metis
qed

lemma same_fc_status: "tx_same p (tls_uart_set_fc_status fifos st p)"
proof -
  let ?q = "snd (tls_uart_set_flow_ctrl st (p\<lparr>fcStatus := st\<rparr>))"
  have "tx_same p (tls_uart_tx_chars fifos (tls_uart_tx_enable ?q))"
    by (intro same_chars_after) (simp add: tls_uart_tx_enable_def view_simps)
  also have "tx_same \<dots> ((tls_uart_tx_chars fifos (tls_uart_tx_enable ?q))\<lparr>hw_stopped := False\<rparr>)"
    by (intro tx_sameI) (simp only: view_simps)
  finally show ?thesis by (auto simp: tls_uart_set_fc_status_def Let_def view_simps tx_sameI)
qed

datatype uart_event =
    Irq0 u32 uart_in
  | Irq1 u32 uart_in
  | Irq2 u32 uart_in
  | Write bool bool "nat \<Rightarrow> u32" "u8 list" u16
  | FlowStatus "nat \<Rightarrow> u32" u32

text \<open>A step: the messages accepted for sending and the port.  Before an interrupt the hardware sets the source register.\<close>

fun uart_step :: "(u32 \<Rightarrow> u32 \<Rightarrow> u32) \<Rightarrow> u8 \<Rightarrow> uart_event \<Rightarrow> tls_uart_port \<Rightarrow> u8 list list \<times> tls_uart_port" where
  "uart_step wr flag (Irq0 ints inp) p = ([], uart0_irq wr inp flag (upd_regs (\<lambda>r. r\<lparr>UR_INTS := ints\<rparr>) p))"
| "uart_step wr flag (Irq1 ints inp) p = ([], uart1_irq wr inp flag (upd_regs (\<lambda>r. r\<lparr>UR_INTS := ints\<rparr>) p))"
| "uart_step wr flag (Irq2 ints inp) p = ([], uart2_irq wr inp flag (upd_regs (\<lambda>r. r\<lparr>UR_INTS := ints\<rparr>) p))"
| "uart_step wr flag (Write alloc_msg alloc_buf fifos data writesize) p =
     (let (ret, p) = tls_uart_write alloc_msg alloc_buf fifos (Some data) writesize p
      in (if ret = 0 then [take (unat writesize) data] else [], p))"
| "uart_step wr flag (FlowStatus fifos status) p = ([], tls_uart_set_fc_status fifos status p)"

fun uart_run :: "(u32 \<Rightarrow> u32 \<Rightarrow> u32) \<Rightarrow> u8 \<Rightarrow> uart_event list \<Rightarrow> tls_uart_port \<Rightarrow> u8 list list \<times> tls_uart_port" where
  "uart_run wr flag [] p = ([], p)"
| "uart_run wr flag (e # es) p =
     (let (acc, p) = uart_step wr flag e p; (acc', p') = uart_run wr flag es p in (acc @ acc', p'))"

text \<open>The buffer of a write has as many bytes as the caller says.\<close>

definition event_ok :: "uart_event \<Rightarrow> bool" where
  "event_ok e = (case e of Write _ _ _ data writesize \<Rightarrow> unat writesize \<le> length data | _ \<Rightarrow> True)"

lemma write_async_step:
  assumes "tx_ok p" "unat n \<le> length data" "tls_uart_write_async a b fifos (Some data) n p = (ret, p')"
  shows "tx_ok p' \<and> held p' = held p + (if ret = 0 then 1 else 0) \<and>
    line_and_queue p' = line_and_queue p @ (if ret = 0 then take (unat n) data else [])"
proof (cases "a \<and> b \<and> \<not> n < 1")
  case True
  let ?m = "\<lparr>tx_buf = take (unat n) data, buflen = of_nat (length (take (unat n) data)), offset = 0\<rparr>"
  let ?q = "p\<lparr>tx_msg_pending_list := tx_msg_pending_list p @ [?m]\<rparr>"
  have "length (take (unat n) data) = unat n" using assms(2) by simp
  moreover have "unat n \<noteq> 0" using True by (auto simp: word_less_nat_alt)
  ultimately have m: "msg_ok ?m" "rest ?m = take (unat n) data" "rest ?m \<noteq> []"
    by (simp_all add: msg_ok_def rest_def) auto
  have q: "tx_ok ?q" "held ?q = held p + 1" "line_and_queue ?q = line_and_queue p @ take (unat n) data"
    using assms(1) m by (simp_all add: tx_ok_def held_def line_and_queue_def queued_def)
  have "ret = 0" "p' = tls_uart_tx_chars fifos ?q"
    using assms(3) True by (simp_all add: tls_uart_write_async_def tls_uart_fill_buf_def tx_chars_start_eq)
  then show ?thesis using same_chars [of ?q fifos] q by (simp add: tx_same_def)
next
  case False
  then have "ret \<noteq> 0 \<and> p' = p"
    using assms(3) by (auto simp: tls_uart_write_async_def tls_uart_fill_buf_def split: if_splits)
  then show ?thesis using assms(1) by simp
qed

lemma uart_step_tx:
  assumes "tx_ok p" "event_ok e" "uart_step wr flag e p = (acc, p')"
  shows "tx_ok p' \<and> held p' = held p + length acc \<and> line_and_queue p' = line_and_queue p @ concat acc"
proof (cases e)
  case (Write a b fifos data n)
  obtain ret where w: "tls_uart_write_async a b fifos (Some data) n p = (ret, p')" "acc = (if ret = 0 then [take (unat n) data] else [])"
    using assms(3) by (auto simp: Write tls_uart_write_def split: prod.splits)
  show ?thesis using write_async_step [OF assms(1) _ w(1)] assms(2) w(2) by (auto simp: Write event_ok_def)
next
  case (Irq0 ints inp)
  then show ?thesis
    using assms tx_same_trans [OF tx_sameI same_irq0, of "upd_regs (\<lambda>r. r\<lparr>UR_INTS := ints\<rparr>) p" p wr inp flag]
    by (auto simp: tx_same_def view_simps)
next
  case (Irq1 ints inp)
  then show ?thesis
    using assms tx_same_trans [OF tx_sameI same_irq1, of "upd_regs (\<lambda>r. r\<lparr>UR_INTS := ints\<rparr>) p" p wr inp flag]
    by (auto simp: tx_same_def view_simps)
next
  case (Irq2 ints inp)
  then show ?thesis
    using assms tx_same_trans [OF tx_sameI same_irq2, of "upd_regs (\<lambda>r. r\<lparr>UR_INTS := ints\<rparr>) p" p wr inp flag]
    by (auto simp: tx_same_def view_simps)
next
  case (FlowStatus fifos st)
  then show ?thesis using assms same_fc_status [of p fifos st] by (auto simp: tx_same_def)
qed

lemma uart_run_tx:
  "tx_ok p \<Longrightarrow> list_all event_ok es \<Longrightarrow> uart_run wr flag es p = (acc, p') \<Longrightarrow>
   tx_ok p' \<and> held p' = held p + length acc \<and> line_and_queue p' = line_and_queue p @ concat acc"
proof (induction es arbitrary: p acc)
  case (Cons e es)
  obtain a1 p1 a2 where s: "uart_step wr flag e p = (a1, p1)" "uart_run wr flag es p1 = (a2, p')" "acc = a1 @ a2"
    using Cons.prems(3) by (auto split: prod.splits)
  show ?case
    using uart_step_tx [OF Cons.prems(1) _ s(1)] Cons.IH [OF _ _ s(2)] Cons.prems(2) s(3) by auto
qed simp

text \<open>C20: Transmission keeps the order and loses nothing.  In every sequence of writes, interrupts of the three handlers (with
  any contents of the FIFOs and any flags) and changes of flow control, the bytes written to the transmit window followed by
  the bytes still queued are the bytes of the accepted writes, each once and in order; every message is pending, waiting for
  its release or released exactly once, and no message is released before its last byte was written.\<close>

theorem uart_tx_in_order:
  assumes "tx_ok p" and "list_all event_ok es" and "uart_run wr flag es p = (acc, p')"
  shows "UR_TXW (regs p') @ queued p' = UR_TXW (regs p) @ queued p @ concat acc \<and>
    length (tx_msg_pending_list p') + length (tx_msg_to_be_freed_list p') + length (freed p') =
      length (tx_msg_pending_list p) + length (tx_msg_to_be_freed_list p) + length (freed p) + length acc \<and>
    tx_ok p'"
  using uart_run_tx [OF assms] by (simp add: line_and_queue_def held_def)

definition demo_tx :: "uart_event list" where
  "demo_tx = [Write True True (\<lambda>k. if k < 2 then 0 else 16) [65, 66, 67] 3, Write True True (\<lambda>_. 16) [68] 1,
     Irq1 1 (demo_in []), Write True False (\<lambda>_. 0) [69] 1, Irq0 2 (demo_in [70])]"

definition demo_tx_port :: tls_uart_port where
  "demo_tx_port = demo_port\<lparr>tx_fifofull := 16, tx_callback := Some FreeSent\<rparr>"

lemma demo_tx_ok: "tx_ok demo_tx_port" "list_all event_ok demo_tx"
  by (simp_all add: tx_ok_def demo_tx_port_def demo_port_def port0_def demo_tx_def event_ok_def)

theorem uart_tx_in_order_witness:
  "UR_TXW (regs (snd (uart_run (\<lambda>a b. a AND NOT b) 0 demo_tx demo_tx_port))) @
     queued (snd (uart_run (\<lambda>a b. a AND NOT b) 0 demo_tx demo_tx_port)) = [65, 66, 67, 68]"
proof -
  have "UR_TXW (regs demo_tx_port) = []" "queued demo_tx_port = []"
    by (simp_all add: demo_tx_port_def demo_port_def port0_def queued_def)
  moreover have "fst (uart_run (\<lambda>a b. a AND NOT b) 0 demo_tx demo_tx_port) = [[65, 66, 67], [68]]"
    by (simp add: demo_tx_def Let_def case_prod_beta tls_uart_write_def tls_uart_write_async_def tls_uart_fill_buf_def)
  ultimately show ?thesis using uart_tx_in_order [OF demo_tx_ok prod.collapse [symmetric]] by simp
qed

section \<open>The queue empties\<close>

text \<open>A transmit interrupt of one of the handlers that finds room for \<open>r\<close> bytes.\<close>

fun tx_event :: "nat \<Rightarrow> u32 \<Rightarrow> uart_event \<Rightarrow> bool" where
  "tx_event r full (Irq0 ints inp) \<longleftrightarrow> ints AND UART_TX_INT_FLAG \<noteq> 0 \<and> has_room r full (tx_fifos inp)"
| "tx_event r full (Irq1 ints inp) \<longleftrightarrow> ints AND UART_TX_INT_FLAG \<noteq> 0 \<and> has_room r full (tx_fifos inp)"
| "tx_event r full (Irq2 ints inp) \<longleftrightarrow> ints AND UART_TX_INT_FLAG \<noteq> 0 \<and> has_room r full (tx_fifos inp)"
| "tx_event r full _ \<longleftrightarrow> False"

lemma uart_step_needed:
  assumes "tx_ok p" and "event_ok e" and "uart_step wr flag e p = ([], p')" and "0 < r"
  shows "irqs_needed r p' \<le> irqs_needed r p \<and> tx_fifofull p' = tx_fifofull p"
proof (cases e)
  case (Write a b fifos data n)
  obtain ret where w: "tls_uart_write_async a b fifos (Some data) n p = (ret, p')" "ret \<noteq> 0"
    using assms(3) by (auto simp: Write tls_uart_write_def split: prod.splits if_splits)
  then have "p' = p" by (auto simp: tls_uart_write_async_def tls_uart_fill_buf_def split: if_splits)
  then show ?thesis by simp
next
  case (Irq0 ints inp)
  then show ?thesis
    using assms tx_same_trans [OF tx_sameI same_irq0, of "upd_regs (\<lambda>r. r\<lparr>UR_INTS := ints\<rparr>) p" p wr inp flag]
    by (auto simp: tx_same_def view_simps)
next
  case (Irq1 ints inp)
  then show ?thesis
    using assms tx_same_trans [OF tx_sameI same_irq1, of "upd_regs (\<lambda>r. r\<lparr>UR_INTS := ints\<rparr>) p" p wr inp flag]
    by (auto simp: tx_same_def view_simps)
next
  case (Irq2 ints inp)
  then show ?thesis
    using assms tx_same_trans [OF tx_sameI same_irq2, of "upd_regs (\<lambda>r. r\<lparr>UR_INTS := ints\<rparr>) p" p wr inp flag]
    by (auto simp: tx_same_def view_simps)
next
  case (FlowStatus fifos st)
  then show ?thesis using assms same_fc_status [of p fifos st] by (auto simp: tx_same_def)
qed

lemma uart_step_sends:
  assumes "tx_ok p" and "uart_step wr flag e p = ([], p')" and "tx_event r (tx_fifofull p) e" and "0 < r" and "r \<le> 32"
  shows "irqs_needed r p' \<le> irqs_needed r p - 1"
proof -
  have "tx_view (upd_regs (\<lambda>r. r\<lparr>UR_INTS := ints\<rparr>) p) = tx_view p" for ints by (simp only: view_simps)
  note c = tx_view_cong [OF this]
  show ?thesis
    using assms irq_sends [of "upd_regs (\<lambda>r. r\<lparr>UR_INTS := ints\<rparr>) p" r for ints]
    by (cases e) (auto simp: tx_sends_def c frame_simps)
qed

lemma uart_run_needed:
  "tx_ok p \<Longrightarrow> list_all event_ok es \<Longrightarrow> uart_run wr flag es p = ([], p') \<Longrightarrow> 0 < r \<Longrightarrow> r \<le> 32 \<Longrightarrow>
   irqs_needed r p' \<le> irqs_needed r p - length (filter (tx_event r (tx_fifofull p)) es)"
proof (induction es arbitrary: p)
  case (Cons e es)
  obtain p1 where s: "uart_step wr flag e p = ([], p1)" "uart_run wr flag es p1 = ([], p')"
    using Cons.prems(3) by (auto split: prod.splits)
  have e: "event_ok e" "list_all event_ok es" using Cons.prems(2) by simp_all
  have p1: "tx_ok p1" using uart_step_tx [OF Cons.prems(1) e(1) s(1)] by simp
  note le = uart_step_needed [OF Cons.prems(1) e(1) s(1) Cons.prems(4)]
  note ih = Cons.IH [OF p1 e(2) s(2) Cons.prems(4,5)]
  show ?case using le ih uart_step_sends [OF Cons.prems(1) s(1) _ Cons.prems(4,5)] by auto
qed simp

text \<open>C28: Transmission terminates.  Take any sequence of interrupts of the three handlers, refused writes and changes of flow control.  When it contains
  enough transmit interrupts whose handler finds room for at least \<open>r\<close> bytes in the FIFO (the first \<open>r\<close> of its checks do not see the FIFO full), namely one
  for every \<open>r\<close> bytes or part of \<open>r\<close> bytes of each pending message, then no message is pending at the end and every queued byte was written to the transmit window, in order.
  A handler writes at most 32 bytes of one message, so \<open>r\<close> is between 1 and 32; for the empty FIFO of 16 entries it is 16.\<close>

theorem uart_tx_drains:
  assumes "tx_ok p" and "list_all event_ok es" and "uart_run wr flag es p = ([], p')" and "0 < r" and "r \<le> 32"
    and "(\<Sum>m\<leftarrow>tx_msg_pending_list p. (length (rest m) + (r - 1)) div r) \<le> length (filter (tx_event r (tx_fifofull p)) es)"
  shows "tx_msg_pending_list p' = [] \<and> UR_TXW (regs p') = UR_TXW (regs p) @ queued p"
proof -
  note r = uart_run_tx [OF assms(1-3)]
  have "irqs_needed r p' = 0" using uart_run_needed [OF assms(1-5)] assms(6) by (simp add: irqs_needed_def)
  then have "tx_msg_pending_list p' = []" using irqs_needed_0 r assms(4) by blast
  then show ?thesis using r by (simp add: line_and_queue_def queued_def)
qed

text \<open>A FIFO of 16 entries that is empty at every interrupt and fills up while the handler writes; 40 bytes take three interrupts.\<close>

definition demo_drain :: "uart_event list" where
  "demo_drain = [Irq1 2 ((demo_in [])\<lparr>tx_fifos := of_nat\<rparr>), FlowStatus (\<lambda>_. 16) 0, Irq1 2 ((demo_in [])\<lparr>tx_fifos := of_nat\<rparr>), Irq1 2 ((demo_in [])\<lparr>tx_fifos := of_nat\<rparr>)]"

definition demo_long :: tls_uart_port where
  "demo_long = demo_tx_port\<lparr>tx_msg_pending_list := [\<lparr>tx_buf = replicate 40 65, buflen = 40, offset = 0\<rparr>]\<rparr>"

theorem uart_tx_drains_witness:
  "tx_msg_pending_list (snd (uart_run (\<lambda>a b. a AND NOT b) 0 demo_drain demo_long)) = [] \<and>
   UR_TXW (regs (snd (uart_run (\<lambda>a b. a AND NOT b) 0 demo_drain demo_long))) = replicate 40 65"
proof -
  have p: "tx_ok demo_long" "tx_fifofull demo_long = 16" "queued demo_long = replicate 40 65" "UR_TXW (regs demo_long) = []"
    "list_all event_ok demo_drain"
    by (simp_all add: demo_long_def tx_ok_def msg_ok_def rest_def queued_def demo_tx_port_def demo_port_def port0_def demo_drain_def event_ok_def)
  have run: "uart_run (\<lambda>a b. a AND NOT b) 0 demo_drain demo_long = ([], snd (uart_run (\<lambda>a b. a AND NOT b) 0 demo_drain demo_long))"
    by (simp add: demo_drain_def Let_def case_prod_beta)
  have "of_nat k AND UFS_TX_FIFO_CNT_MASK \<noteq> (16 :: u32)" if "k < 16" for k
  proof -
    have "unat (of_nat k :: u32) = k" using that by (simp add: unat_of_nat_u32)
    then have "unat (of_nat k AND mask 6 :: u32) = k" using that by (simp add: unat_and_mask)
    then have "unat (of_nat k AND 0x3F :: u32) = k" by (simp add: mask_eq_exp_minus_1)
    then show ?thesis using that by auto
  qed
  then have "length (filter (tx_event 16 16) demo_drain) = 3" by (simp add: demo_drain_def has_room_def)
  then have "(\<Sum>m\<leftarrow>tx_msg_pending_list demo_long. (length (rest m) + (16 - 1)) div 16) \<le> length (filter (tx_event 16 (tx_fifofull demo_long)) demo_drain)"
    using p(2) by (simp add: demo_long_def rest_def)
  from uart_tx_drains [OF p(1,5) run _ _ this] show ?thesis using p(3,4) by simp
qed

end
