(* ===== verification/Uart_Props.thy ===== *)
theory Uart_Props
  imports Uart_Tx
begin

text \<open>
  Well-formedness of a port, established by its initialisation and kept by everything that happens to it, and the baud
  rate divider.
\<close>

section \<open>Well-formed ports\<close>

definition port_ok :: "tls_uart_port \<Rightarrow> bool" where
  "port_ok p \<longleftrightarrow> ring_ok (recv p) \<and> tx_ok p"

lemma rx0_loop_ring_ok: "ring_ok (recv p) \<Longrightarrow> ring_ok (recv (snd (rx0_loop wr rx src flag k n len p)))"
proof (induction n arbitrary: k len p)
  case (Suc n)
  have "recv (tls_set_uart_rx_status st q) = recv q" for st q by (simp add: tls_set_uart_rx_status_def frame_simps)
  then show ?case using Suc by (simp add: Let_def frame_simps)
qed simp

lemma uart0_ring_ok: "ring_ok (recv p) \<Longrightarrow> ring_ok (recv (uart0_irq wr inp flag p))"
  using rx0_loop_ring_ok [of "ack_ints wr (UR_INTS (regs p)) p" wr "rxw inp" "UR_INTS (regs p)" flag 0 "unat (rx_count inp)" 0]
  by (cases "rx0_loop wr (rxw inp) (UR_INTS (regs p)) flag 0 (unat (rx_count inp)) 0 (ack_ints wr (UR_INTS (regs p)) p)")
    (simp add: uart0_irq_def Let_def frame_simps)

lemma flow_recv [frame_simps]: "recv (snd (tls_uart_set_flow_ctrl fc p)) = recv p"
  by (simp add: tls_uart_set_flow_ctrl_def frame_simps)

lemma write_recv: "recv (snd (tls_uart_write_async a b fifos data n p)) = recv p"
  by (auto simp: tls_uart_write_async_def tls_uart_fill_buf_def tx_chars_start_eq frame_simps Let_def split: option.split)

lemma uart_step_ring_ok:
  assumes "ring_ok (recv p)"
  shows "ring_ok (recv (snd (uart_step wr flag e p)))"
proof (cases e)
  case (Write a b fifos data n)
  then show ?thesis using assms write_recv [of a b fifos "Some data" n p] by (simp add: tls_uart_write_def case_prod_beta Let_def)
next
  case (FlowStatus fifos st)
  then show ?thesis using assms by (simp add: tls_uart_set_fc_status_def tls_uart_tx_enable_def Let_def frame_simps)
qed (use assms irq1_contents [OF _ irq1_recv(1)] irq1_contents [OF _ irq1_recv(2)] in \<open>auto simp: uart0_ring_ok frame_simps\<close>)

lemma option_case_SomeD:
  "(case x of None \<Rightarrow> None | Some y \<Rightarrow> (case y of (a, b) \<Rightarrow> Some (f a b))) = Some z \<Longrightarrow> \<exists>a b. x = Some (a, b) \<and> f a b = z"
  by (auto split: option.splits)

lemma setters_sel:
  "recv (snd (tls_uart_set_parity_inside v p)) = recv p" "freed (snd (tls_uart_set_parity_inside v p)) = freed p"
  "recv (snd (tls_uart_set_data_bits v p)) = recv p" "freed (snd (tls_uart_set_data_bits v p)) = freed p"
  "recv (snd (tls_uart_set_stop_bits_inside v p)) = recv p" "freed (snd (tls_uart_set_stop_bits_inside v p)) = freed p"
  "freed (snd (tls_uart_set_flow_ctrl v p)) = freed p"
  by (simp_all add: tls_uart_set_parity_inside_def tls_uart_set_data_bits_def tls_uart_set_stop_bits_inside_def
      tls_uart_set_flow_ctrl_def or_LC_def clear_LC_def frame_simps Let_def)

lemma baud_rate_sel:
  "tls_uart_set_baud_rate_inside mhz b p = Some (ret, q) \<Longrightarrow> recv q = recv p \<and> freed q = freed p"
  by (auto simp: tls_uart_set_baud_rate_inside_def frame_simps split: option.splits)

lemma config_recv:
  "tls_uart_config wr mhz opt p = Some (ret, q) \<Longrightarrow> recv q = recv p \<and> freed q = freed p"
  unfolding tls_uart_config_def Let_def or_LC_def clear_LC_def
  by (drule option_case_SomeD) (auto simp: setters_sel frame_simps dest: baud_rate_sel)

lemma init_port_ok:
  assumes "tls_uart_port_init wr mhz alloc no o' mode s = Some (0, s')" "no < length (uart_port s)"
  shows "port_ok (uart_port s' ! no)"
proof -
  have z: "freed (port0 r) = []" "freed (or_LC b (port0 r)) = []" "freed (clear_LC b (port0 r)) = []" for r b
    by (simp_all add: port0_def or_LC_def clear_LC_def frame_simps)
  show ?thesis
    using assms
    by (auto simp: tls_uart_port_init_def Let_def port_ok_def ring_ok_def tx_ok_def z dest!: config_recv
        split: if_splits option.splits)
qed

lemma setters_view:
  "tx_view (snd (tls_uart_set_parity_inside v p)) = tx_view p" "tx_view (snd (tls_uart_set_stop_bits_inside v p)) = tx_view p"
  "tls_uart_set_baud_rate_inside mhz b p = Some (ret, q) \<Longrightarrow> tx_view q = tx_view p" "tx_view (snd (tls_uart_dma_off p)) = tx_view p"
  by (auto simp: tls_uart_set_parity_inside_def tls_uart_set_stop_bits_inside_def tls_uart_set_baud_rate_inside_def tls_uart_dma_off_def
      or_LC_def clear_LC_def tx_view_def frame_simps Let_def split: option.splits)

lemma port_okI: "port_ok p \<Longrightarrow> tx_view q = tx_view p \<Longrightarrow> recv q = recv p \<Longrightarrow> port_ok q"
  using tx_view_cong(1) [of q p] by (simp add: port_ok_def)

lemma setters_port_ok:
  assumes "port_ok p"
  shows "port_ok (snd (tls_uart_set_parity_inside v p))" "port_ok (snd (tls_uart_set_stop_bits_inside v p))"
    "tls_uart_set_baud_rate_inside mhz b p = Some (ret, q) \<Longrightarrow> port_ok q" "port_ok (snd (tls_uart_dma_off p))"
  using port_okI [OF assms] setters_view setters_sel baud_rate_sel by (metis, metis, metis, simp add: tls_uart_dma_off_def)

lemma register_port_ok:
  assumes "port_ok (uart_port s ! no)" and "no < length (uart_port s)"
  shows "port_ok (uart_port (tls_uart_rx_callback_register no rcb d s) ! no)"
    and "tcb = Some FreeSent \<longrightarrow> tx_msg_to_be_freed_list (uart_port s ! no) = [] \<Longrightarrow> port_ok (uart_port (tls_uart_tx_callback_register no tcb s) ! no)"
    and "port_ok (uart_port (tls_uart_tx_sent_callback_register no scb s) ! no)"
  using assms by (simp_all add: tls_uart_rx_callback_register_def tls_uart_tx_callback_register_def tls_uart_tx_sent_callback_register_def
      on_port_def port_ok_def tx_ok_def)

lemma push_port_ok: "port_ok p \<Longrightarrow> port_ok (p\<lparr>recv := fold ring_put data (recv p)\<rparr>)"
proof -
  have "ring_ok r \<Longrightarrow> ring_ok (fold ring_put data r)" for r by (induction data arbitrary: r) simp_all
  then show "port_ok p \<Longrightarrow> port_ok (p\<lparr>recv := fold ring_put data (recv p)\<rparr>)" by (simp add: port_ok_def tx_ok_def)
qed

text \<open>C35: The data of a port is well formed: the ring is an array of 4096 bytes with both indices inside it, the
  offset of every pending message is inside its buffer and before its end, only completely sent messages are released, and nothing
  waits for its release while the driver's own callback is installed.  A successful \<^verbatim>\<open>tls_uart_port_init\<close> establishes this.  The three interrupt handlers, \<^verbatim>\<open>tls_uart_write\<close>,
  \<^verbatim>\<open>tls_uart_set_fc_status\<close>, \<^verbatim>\<open>tls_uart_read\<close>, the setters of parity, stop bits and baud rate, \<^verbatim>\<open>tls_uart_dma_off\<close>, the registration of receive and
  sent callbacks and \<^verbatim>\<open>tls_uart_push\<close> keep it; so does \<^verbatim>\<open>tls_uart_tx_callback_register\<close>, unless it installs the driver's own callback while messages wait for their release.\<close>

theorem uart_port_typed:
  "(tls_uart_port_init wr mhz alloc no opt mode s = Some (0, s') \<longrightarrow> no < length (uart_port s) \<longrightarrow> port_ok (uart_port s' ! no)) \<and>
   (port_ok p \<longrightarrow> event_ok e \<longrightarrow> port_ok (snd (uart_step wr flag e p))) \<and>
   (port_ok p \<longrightarrow> port_ok (snd (snd (tls_uart_read nonnull readsize p)))) \<and>
   (port_ok p \<longrightarrow> port_ok (snd (tls_uart_set_parity_inside v p)) \<and> port_ok (snd (tls_uart_set_stop_bits_inside v p)) \<and> port_ok (snd (tls_uart_dma_off p)) \<and>
      (tls_uart_set_baud_rate_inside mhz b p = Some (ret, q) \<longrightarrow> port_ok q)) \<and>
   (port_ok (uart_port s ! no) \<longrightarrow> no < length (uart_port s) \<longrightarrow>
      port_ok (uart_port (tls_uart_rx_callback_register no rcb d s) ! no) \<and> port_ok (uart_port (tls_uart_tx_sent_callback_register no scb s) ! no) \<and>
      ((tcb = Some FreeSent \<longrightarrow> tx_msg_to_be_freed_list (uart_port s ! no) = []) \<longrightarrow> port_ok (uart_port (tls_uart_tx_callback_register no tcb s) ! no))) \<and>
   (port_ok (uart_port s ! 1) \<longrightarrow> 1 < length (uart_port s) \<longrightarrow> port_ok (uart_port (tls_uart_push index data s) ! 1))"
proof (intro conjI impI)
  show "port_ok (snd (uart_step wr flag e p))" if "port_ok p" "event_ok e"
    using that uart_step_tx [of p e wr flag] uart_step_ring_ok by (metis port_ok_def prod.collapse)
  show "port_ok (snd (snd (tls_uart_read nonnull readsize p)))" if "port_ok p"
    using that tx_view_cong(1) [OF view_basic(6)] by (simp add: port_ok_def tls_uart_read_def Let_def)
  show "port_ok (uart_port (tls_uart_push index data s) ! 1)" if "port_ok (uart_port s ! 1)" "1 < length (uart_port s)"
    using that push_port_ok by (simp add: tls_uart_push_def on_port_def)
  show "port_ok (uart_port (tls_uart_tx_callback_register no tcb s) ! no)"
    if "port_ok (uart_port s ! no)" "no < length (uart_port s)" "tcb = Some FreeSent \<longrightarrow> tx_msg_to_be_freed_list (uart_port s ! no) = []"
    using register_port_ok(2) [OF that] .
qed (erule init_port_ok setters_port_ok register_port_ok; assumption?)+

theorem uart_port_typed_witness:
  "port_ok (snd (uart_step (\<lambda>a b. a AND NOT b) 0 (Irq1 4 (demo_in [80, 81])) demo_tx_port)) \<and>
   port_ok (snd (snd (tls_uart_read True 2 demo_tx_port)))"
proof -
  have "port_ok demo_tx_port"
    using demo_tx_ok(1) demo_ring_ok by (simp add: port_ok_def demo_tx_port_def demo_port_def)
  then show ?thesis using uart_port_typed [where e = "Irq1 4 (demo_in [80, 81])"] by (simp add: event_ok_def)
qed

section \<open>The baud rate divider\<close>

lemma baud_value_parts:
  fixes apb b :: u32
  assumes "0 < b" "16 * unat b \<le> unat apb" "unat apb < 2 ^ 20 * unat b" "16 * unat apb < 2 ^ 32"
  shows "\<exists>v. baud_value apb b = Some v \<and> unat (v AND 0xFFFF) = unat apb div (16 * unat b) - 1 \<and>
    unat (drop_bit 16 v) = (unat apb mod (16 * unat b)) div unat b"
proof -
  have b: "unat (16 * b) = 16 * unat b" using assms by (simp add: unat_word_ariths)
  then have b': "unat (b * 16) = 16 * unat b" by (simp only: mult.commute)
  have nz: "16 * b \<noteq> 0" using b assms(1) by (metis mult_is_0 unat_0 unat_eq_zero word_neq_0_conv zero_neq_numeral)
  let ?q = "apb div (16 * b) - 1" and ?f = "(apb mod (b * 16)) * 16 div (b * 16)"
  have q0: "unat (apb div (16 * b)) = unat apb div (16 * unat b)" by (simp add: unat_div b)
  have "1 \<le> unat apb div (16 * unat b)" using assms(1,2) by (simp add: Suc_le_eq div_greater_zero_iff word_less_nat_alt)
  then have q: "unat ?q = unat apb div (16 * unat b) - 1"
    using q0 by (metis One_nat_def unat_1 unat_sub word_le_nat_alt)
  have ql: "unat ?q < 2 ^ 16"
  proof -
    have "unat apb div (16 * unat b) < 2 ^ 16 + 1"
      using assms(3) by (intro less_mult_imp_div_less) (simp add: algebra_simps)
    then show ?thesis using q by simp
  qed
  have r: "unat (apb mod (b * 16)) = unat apb mod (16 * unat b)" by (simp add: unat_mod b')
  have "unat (apb mod (b * 16)) * 16 < 2 ^ 32"
    using r assms(4) le_less_trans [OF mod_less_eq_dividend [of "unat apb" "16 * unat b"]] by simp
  then have "unat ((apb mod (b * 16)) * 16) = (unat apb mod (16 * unat b)) * 16"
    using r by (simp add: unat_word_ariths)
  then have f: "unat ?f = (unat apb mod (16 * unat b)) div unat b"
    using b' by (simp add: unat_div)
  have "unat apb mod (16 * unat b) < 16 * unat b" using assms(1) by (simp add: word_less_nat_alt)
  then have fl: "unat ?f < 16" using f by (simp add: less_mult_imp_div_less)
  have "take_bit 16 ?q = ?q" using ql by (simp add: word_unat_eq_iff unsigned_take_bit_eq take_bit_nat_eq_self)
  then have lo: "(?q OR push_bit 16 ?f) AND 0xFFFF = ?q"
  proof -
    have m: "(0xFFFF :: u32) = mask 16" by (simp add: mask_eq_exp_minus_1)
    have "take_bit 16 (?q OR push_bit 16 ?f) = take_bit 16 ?q" by (simp add: take_bit_push_bit)
    then show ?thesis using \<open>take_bit 16 ?q = ?q\<close> by (simp only: m take_bit_eq_mask [symmetric])
  qed
  have hi: "drop_bit 16 (?q OR push_bit 16 ?f) = ?f"
  proof (rule bit_word_eqI)
    fix n assume n: "n < LENGTH(32)"
    have nq: "\<not> bit ?q (16 + n)" using \<open>take_bit 16 ?q = ?q\<close> by (metis bit_take_bit_iff not_add_less1)
    have nf: "\<not> bit ?f n" if "16 \<le> n"
    proof -
      have "take_bit 16 ?f = ?f" using fl by (simp add: word_unat_eq_iff unsigned_take_bit_eq take_bit_nat_eq_self)
      then show ?thesis using that by (metis bit_take_bit_iff linorder_not_less)
    qed
    show "bit (drop_bit 16 (?q OR push_bit 16 ?f)) n = bit ?f n"
      using nq nf n by (cases "16 \<le> n") (simp_all add: bit_drop_bit_eq bit_or_iff bit_push_bit_iff)
  qed
  show ?thesis using nz lo hi q f by (simp add: baud_value_def)
qed

lemma sixteenths: "0 < b \<Longrightarrow> 16 * (n div (16 * b)) + (n mod (16 * b)) div b = n div (b :: nat)"
proof -
  assume b: "0 < b"
  have "n = (16 * (n div (16 * b))) * b + n mod (16 * b)" by (metis mult.assoc mult.commute div_mult_mod_eq)
  then have "n div b = ((16 * (n div (16 * b))) * b + n mod (16 * b)) div b" by simp
  then show ?thesis using b by simp
qed

text \<open>C38: The baud rate divider is exact to a sixteenth.  For every peripheral clock below \<open>2\<^sup>2\<^sup>8\<close> Hz and every rate it can be
  divided down to, the integer part in the low half of the register and the sixteenths in the upper half do not overlap, and
  together they are the clock divided by the rate, rounded down: the divisor is below the exact one by less than one
  sixteenth.\<close>

theorem uart_divider_exact:
  fixes apbclk baud :: u32
  assumes "16 * unat apbclk < 2 ^ 32" and "0 < baud" and "16 * unat baud \<le> unat apbclk" and "unat apbclk < 2 ^ 20 * unat baud"
  shows "\<exists>v. baud_value apbclk baud = Some v \<and>
    16 * (unat (v AND 0xFFFF) + 1) + unat (drop_bit 16 v) = unat apbclk div unat baud \<and> unat (drop_bit 16 v) < 16"
proof -
  obtain v where v: "baud_value apbclk baud = Some v" "unat (v AND 0xFFFF) = unat apbclk div (16 * unat baud) - 1"
      "unat (drop_bit 16 v) = (unat apbclk mod (16 * unat baud)) div unat baud"
    using baud_value_parts [OF assms(2,3,4,1)] by blast
  have b: "0 < unat baud" using assms(2) by (simp add: word_less_nat_alt)
  then have "0 < unat apbclk div (16 * unat baud)" using assms(3) by (simp add: div_greater_zero_iff)
  then have "16 * (unat (v AND 0xFFFF) + 1) + unat (drop_bit 16 v) = unat apbclk div unat baud"
    using sixteenths [OF b, of "unat apbclk"] v(2,3) by simp
  moreover have "unat (drop_bit 16 v) < 16"
    unfolding v(3) by (intro less_mult_imp_div_less) (use b in simp)
  ultimately show ?thesis using v(1) by blast
qed

theorem uart_divider_exact_witness:
  "\<exists>v. baud_value 40000000 115200 = Some v \<and>
    16 * (unat (v AND 0xFFFF) + 1) + unat (drop_bit 16 v) = 347 \<and> unat (drop_bit 16 v) < 16"
  using uart_divider_exact [of 40000000 115200] by simp

end
