(* ===== verification/Hw_Timer.thy ===== *)
theory Hw_Timer
  imports Irq
begin

text \<open>
  The hardware timers, \<^verbatim>\<open>platform/drivers/timer/wm_timer.c\<close>, with their adapter \<^verbatim>\<open>app/port/luat_hwtimer_air101.c\<close>.

  The six timers share one control register; \<open>wr\<close> gives its value after a write, since it holds the interrupt flags too.
  Callbacks with their arguments are values of a type parameter.  A timer number above 7 shifts past the bitmap, so
  nothing is found there.
\<close>

record 'f tls_timer_cfg =
  unit_ms :: bool
  timeout :: u32
  is_repeat :: bool
  callback :: "'f option"

record 'f hw_timers =
  wm_timer_bitmap :: u8
  timer_context :: "'f option list"
  TIMER_CFG :: u32
  TIMER_CSR :: u32
  TIMER_PRD :: "u32 list"
  timer_clock :: bool
  timer_irq :: irq_state

abbreviation TLS_TIMER_ID_MAX :: nat where "TLS_TIMER_ID_MAX \<equiv> 6"
abbreviation WM_TIMER_ID_INVALID :: u8 where "WM_TIMER_ID_INVALID \<equiv> 0xFF"
abbreviation TIMER_IRQn :: nat where "TIMER_IRQn \<equiv> 30"

definition TLS_TIMER_MS_UNIT :: "nat \<Rightarrow> u32" where "TLS_TIMER_MS_UNIT n = push_bit (5 * n) 1"
definition TLS_TIMER_ONE_TIME :: "nat \<Rightarrow> u32" where "TLS_TIMER_ONE_TIME n = push_bit (1 + 5 * n) 1"
definition TLS_TIMER_EN :: "nat \<Rightarrow> u32" where "TLS_TIMER_EN n = push_bit (2 + 5 * n) 1"
definition TLS_TIMER_INT_EN :: "nat \<Rightarrow> u32" where "TLS_TIMER_INT_EN n = push_bit (3 + 5 * n) 1"
definition TLS_TIMER_INT_CLR :: "nat \<Rightarrow> u32" where "TLS_TIMER_INT_CLR n = push_bit (4 + 5 * n) 1"

definition created :: "'f hw_timers \<Rightarrow> nat \<Rightarrow> bool" where
  "created s i \<longleftrightarrow> wm_timer_bitmap s AND push_bit i 1 \<noteq> 0"

definition write_CSR :: "(u32 \<Rightarrow> u32 \<Rightarrow> u32) \<Rightarrow> u32 \<Rightarrow> 'f hw_timers \<Rightarrow> 'f hw_timers" where
  "write_CSR wr v s = s\<lparr>TIMER_CSR := wr (TIMER_CSR s) v\<rparr>"

text \<open>The callbacks the interrupt runs, in order.\<close>

definition timer_irq_callback :: "nat \<Rightarrow> 'f hw_timers \<Rightarrow> 'f list" where
  "timer_irq_callback i s = (case timer_context s ! i of None \<Rightarrow> [] | Some f \<Rightarrow> [f])"

definition TIMER0_5_IRQHandler :: "(u32 \<Rightarrow> u32 \<Rightarrow> u32) \<Rightarrow> 'f hw_timers \<Rightarrow> 'f list \<times> 'f hw_timers" where
  "TIMER0_5_IRQHandler wr s =
     (let timer_csr = TIMER_CSR s; s = write_CSR wr timer_csr s
      in (concat (map (\<lambda>i. if timer_csr AND TLS_TIMER_INT_CLR i \<noteq> 0 then timer_irq_callback i s else []) [0..<TLS_TIMER_ID_MAX]), s))"

definition tls_timer_create :: "(u32 \<Rightarrow> u32 \<Rightarrow> u32) \<Rightarrow> u32 \<Rightarrow> 'f tls_timer_cfg \<Rightarrow> 'f hw_timers \<Rightarrow> u8 \<times> 'f hw_timers" where
  "tls_timer_create wr apbclk cfg s =
     (case find (\<lambda>i. \<not> created s i) [0..<TLS_TIMER_ID_MAX] of
        None \<Rightarrow> (WM_TIMER_ID_INVALID, s)
      | Some i \<Rightarrow>
          (let csr = TIMER_CSR s;
               csr = (if \<not> is_repeat cfg then csr OR TLS_TIMER_ONE_TIME i else csr AND NOT (TLS_TIMER_ONE_TIME i));
               csr = (if unit_ms cfg then csr OR TLS_TIMER_MS_UNIT i else csr AND NOT (TLS_TIMER_MS_UNIT i));
               s = s\<lparr>timer_clock := (if wm_timer_bitmap s = 0 then True else timer_clock s),
                     wm_timer_bitmap := wm_timer_bitmap s OR push_bit i 1, timer_context := (timer_context s)[i := callback cfg],
                     TIMER_CFG := apbclk - 1\<rparr>;
               s = write_CSR wr (csr OR TLS_TIMER_INT_CLR i) s;
               s = (if timeout cfg \<noteq> 0 then s\<lparr>TIMER_PRD := (TIMER_PRD s)[i := timeout cfg]\<rparr> else s)
           in (of_nat i, s\<lparr>timer_irq := tls_irq_enable TIMER_IRQn (timer_irq s)\<rparr>)))"

definition tls_timer_start :: "(u32 \<Rightarrow> u32 \<Rightarrow> u32) \<Rightarrow> nat \<Rightarrow> 'f hw_timers \<Rightarrow> 'f hw_timers" where
  "tls_timer_start wr i s = (if \<not> created s i then s else write_CSR wr (TIMER_CSR s OR TLS_TIMER_INT_EN i OR TLS_TIMER_EN i) s)"

definition tls_timer_stop :: "(u32 \<Rightarrow> u32 \<Rightarrow> u32) \<Rightarrow> nat \<Rightarrow> 'f hw_timers \<Rightarrow> 'f hw_timers" where
  "tls_timer_stop wr i s =
     (if \<not> created s i then s
      else (let s = write_CSR wr (TIMER_CSR s OR TLS_TIMER_INT_CLR i) s in write_CSR wr (TIMER_CSR s AND NOT (TLS_TIMER_EN i)) s))"

definition tls_timer_change :: "(u32 \<Rightarrow> u32 \<Rightarrow> u32) \<Rightarrow> nat \<Rightarrow> u32 \<Rightarrow> 'f hw_timers \<Rightarrow> 'f hw_timers" where
  "tls_timer_change wr i newtime s =
     (if \<not> created s i then s
      else (let s = tls_timer_stop wr i s; s = (if newtime \<noteq> 0 then s\<lparr>TIMER_PRD := (TIMER_PRD s)[i := newtime]\<rparr> else s)
            in tls_timer_start wr i s))"

text \<open>\<open>cnt\<close>: the counter registers.\<close>

definition tls_timer_read :: "(nat \<Rightarrow> u32) \<Rightarrow> nat \<Rightarrow> 'f hw_timers \<Rightarrow> u32" where
  "tls_timer_read cnt i s = (if \<not> created s i then 0 else cnt i)"

definition tls_timer_destroy :: "(u32 \<Rightarrow> u32 \<Rightarrow> u32) \<Rightarrow> nat \<Rightarrow> 'f hw_timers \<Rightarrow> 'f hw_timers" where
  "tls_timer_destroy wr i s =
     (if \<not> created s i then s
      else (let s = tls_timer_stop wr i s; used = wm_timer_bitmap s AND NOT (push_bit i 1)
            in s\<lparr>timer_context := (timer_context s)[i := None], wm_timer_bitmap := used,
                 timer_clock := (if used = 0 then False else timer_clock s)\<rparr>))"

section \<open>The adapter\<close>

definition hw_id :: "int \<Rightarrow> nat option" where
  "hw_id tid = (if tid < 0 \<or> tid > 5 then None else Some (nat tid))"

definition luat_hwtimer_create ::
  "(u32 \<Rightarrow> u32 \<Rightarrow> u32) \<Rightarrow> u32 \<Rightarrow> nat \<Rightarrow> u32 \<Rightarrow> bool \<Rightarrow> 'f \<Rightarrow> 'f hw_timers \<Rightarrow> int \<times> 'f hw_timers" where
  "luat_hwtimer_create wr apbclk unit_no t rep cb s =
     (let (tid, s) = tls_timer_create wr apbclk \<lparr>unit_ms = (unit_no \<noteq> 0), timeout = t, is_repeat = rep, callback = Some cb\<rparr> s
      in (if tid \<le> 5 then uint tid else - 1, s))"

definition luat_hwtimer_start :: "(u32 \<Rightarrow> u32 \<Rightarrow> u32) \<Rightarrow> int \<Rightarrow> 'f hw_timers \<Rightarrow> int \<times> 'f hw_timers" where
  "luat_hwtimer_start wr tid s = (case hw_id tid of None \<Rightarrow> (- 1, s) | Some i \<Rightarrow> (0, tls_timer_start wr i s))"

definition luat_hwtimer_stop :: "(u32 \<Rightarrow> u32 \<Rightarrow> u32) \<Rightarrow> int \<Rightarrow> 'f hw_timers \<Rightarrow> int \<times> 'f hw_timers" where
  "luat_hwtimer_stop wr tid s = (case hw_id tid of None \<Rightarrow> (- 1, s) | Some i \<Rightarrow> (0, tls_timer_stop wr i s))"

text \<open>The counter is returned as a signed number.\<close>

definition luat_hwtimer_read :: "(nat \<Rightarrow> u32) \<Rightarrow> int \<Rightarrow> 'f hw_timers \<Rightarrow> int" where
  "luat_hwtimer_read cnt tid s = (case hw_id tid of None \<Rightarrow> - 1 | Some i \<Rightarrow> sint (tls_timer_read cnt i s))"

definition luat_hwtimer_change :: "(u32 \<Rightarrow> u32 \<Rightarrow> u32) \<Rightarrow> int \<Rightarrow> u32 \<Rightarrow> 'f hw_timers \<Rightarrow> int \<times> 'f hw_timers" where
  "luat_hwtimer_change wr tid newtime s = (case hw_id tid of None \<Rightarrow> (- 1, s) | Some i \<Rightarrow> (0, tls_timer_change wr i newtime s))"

definition luat_hwtimer_destroy :: "(u32 \<Rightarrow> u32 \<Rightarrow> u32) \<Rightarrow> int \<Rightarrow> 'f hw_timers \<Rightarrow> int \<times> 'f hw_timers" where
  "luat_hwtimer_destroy wr tid s = (case hw_id tid of None \<Rightarrow> (- 1, s) | Some i \<Rightarrow> (0, tls_timer_destroy wr i s))"

end
