(* ===== verification/Luat_Uart.thy ===== *)
theory Luat_Uart
  imports Uart_Props Hw_Timer
begin

text \<open>
  The serial ports of the runtime, \<^verbatim>\<open>app/port/luat_uart_air101.c\<close>, over the serial driver and the hardware timers: set-up,
  read and write, the messages the interrupt callbacks put on the message bus, and the direction pin of RS-485.

  \<open>luat_uart_t\<close> has the fields the code reads of the runtime's structure.  Levels set on pins are kept in order in
  \<open>gpio_log\<close>, pin functions chosen for a port in \<open>pin_log\<close>.  The timer callback of a port is the port's number.
\<close>

record luat_uart_t =
  uid :: int
  baud_rate :: u32
  data_bits :: u8
  parity :: u8
  stop_bits :: u8
  bufsz :: u32
  pin485 :: u32
  u_rx_level :: bool
  delay :: u16

record rtos_msg =
  arg1 :: u32
  arg2 :: u32

record luat_uart_st =
  usys :: uart_sys
  hwt :: "nat hw_timers"
  serials_buff_len :: "u32 list"
  serials_timer :: "u8 list"
  serials_timeout :: "u16 list"
  gpio_log :: "(u8 \<times> bool) list"
  pin_log :: "nat list"

abbreviation WM_IO_PB_31 :: u32 where "WM_IO_PB_31 \<equiv> 47"

definition luat_uart_exist :: "int \<Rightarrow> bool" where
  "luat_uart_exist uartid \<longleftrightarrow> \<not> (uartid < 0 \<or> uartid \<ge> 6)"

text \<open>The message an invocation of the receive callback posts; the ring is the one the callback looks at.\<close>

definition uart_input_cb :: "u32 list \<Rightarrow> uart_call \<Rightarrow> rtos_msg list" where
  "uart_input_cb lens c =
     (case c of
        RxCall len user_data r \<Rightarrow>
          (let cnt = CIRC_CNT (head r) (tail r)
           in if user_data < 100 then
                (if cnt < lens ! unat user_data - 200 then [] else [\<lparr>arg1 = user_data, arg2 = cnt\<rparr>])
              else [\<lparr>arg1 = user_data - 100, arg2 = cnt\<rparr>])
      | _ \<Rightarrow> [])"

definition uart_sent_cb :: "uart_call \<Rightarrow> rtos_msg list" where
  "uart_sent_cb c = (case c of TxSentCall no \<Rightarrow> [\<lparr>arg1 = no, arg2 = 0\<rparr>] | _ \<Rightarrow> [])"

definition luat_uart_wait_485_tx_done :: "int \<Rightarrow> luat_uart_st \<Rightarrow> luat_uart_st" where
  "luat_uart_wait_485_tx_done uartid s =
     (if luat_uart_exist uartid then
        (let p = uart_port (usys s) ! nat uartid
         in if is_485used p then s\<lparr>gpio_log := gpio_log s @ [(rs485_pin p, rx_level p)]\<rparr> else s)
      else s)"

definition setup_opts :: "luat_uart_t \<Rightarrow> tls_uart_options" where
  "setup_opts u = \<lparr>baudrate = baud_rate u, charlength = ucast (data_bits u) - 5, paritytype = ucast (parity u),
     flow_ctrl = TLS_UART_FLOW_CTRL_NONE, stopbits = ucast (stop_bits u) - 1\<rparr>"

definition clamp_bufsz :: "u32 \<Rightarrow> u32" where
  "clamp_bufsz n = (let n = (if n > 4096 then 4096 else n) in if n < 1024 then 1024 else n)"

text \<open>The outer \<open>None\<close>: the division by zero of the driver.  \<open>wrt\<close>: the effect of writes to the timers' control register.\<close>

definition luat_uart_setup ::
  "(u32 \<Rightarrow> u32 \<Rightarrow> u32) \<Rightarrow> (u32 \<Rightarrow> u32 \<Rightarrow> u32) \<Rightarrow> u32 \<Rightarrow> bool \<Rightarrow> luat_uart_t \<Rightarrow> luat_uart_st \<Rightarrow> (int \<times> luat_uart_st) option" where
  "luat_uart_setup wr wrt apb_mhz alloc u s =
     (if \<not> luat_uart_exist (uid u) then Some (- 1, s)
      else
        (let i = nat (uid u); s = s\<lparr>pin_log := pin_log s @ [i]\<rparr>
         in case tls_uart_port_init wr apb_mhz alloc i (Some (setup_opts u)) 0 (usys s) of
              None \<Rightarrow> None
            | Some (ret, us) \<Rightarrow>
                (if ret \<noteq> UART_WM_SUCCESS then Some (ret, s\<lparr>usys := us\<rparr>)
                 else
                   (let used = \<not> pin485 u > WM_IO_PB_31;
                        us = on_port i (\<lambda>p. p\<lparr>is_485used := used, rs485_pin := ucast (pin485 u), rx_level := u_rx_level u,
                               wait_time := delay u AND 0x3FFF\<rparr>) us;
                        s = s\<lparr>usys := us, serials_buff_len := (serials_buff_len s)[i := clamp_bufsz (bufsz u)]\<rparr>
                    in if used then
                         (let (tid, ht) = tls_timer_create wrt apb_mhz \<lparr>unit_ms = False, timeout = 100, is_repeat = False, callback = Some i\<rparr> (hwt s)
                          in Some (ret, s\<lparr>hwt := ht, serials_timer := (serials_timer s)[i := tid],
                               serials_timeout := (serials_timeout s)[i := ucast (10000000 div baud_rate u)],
                               gpio_log := gpio_log s @ [(ucast (pin485 u), u_rx_level u)]\<rparr>))
                       else Some (ret, s)))))"

text \<open>\<open>length\<close> is a \<^verbatim>\<open>size_t\<close>; the driver takes its low 16 bits.\<close>

definition luat_uart_write ::
  "(u32 \<Rightarrow> u32 \<Rightarrow> u32) \<Rightarrow> bool \<Rightarrow> bool \<Rightarrow> (nat \<Rightarrow> u32) \<Rightarrow> int \<Rightarrow> u8 list option \<Rightarrow> u32 \<Rightarrow> luat_uart_st \<Rightarrow> int \<times> luat_uart_st" where
  "luat_uart_write wrt alloc_msg alloc_buf fifos uartid data len s =
     (if \<not> luat_uart_exist uartid then (0, s)
      else
        (let i = nat uartid; p = uart_port (usys s) ! i;
             s = (if is_485used p then
                    (let t = uint (serials_timer s ! i);
                         (_, ht) = luat_hwtimer_change wrt t (ucast (serials_timeout s ! i) * len + 50) (hwt s);
                         (_, ht) = luat_hwtimer_start wrt t ht
                     in s\<lparr>hwt := ht, gpio_log := gpio_log s @ [(rs485_pin p, \<not> rx_level p)]\<rparr>)
                  else s);
             (ret, p) = tls_uart_write alloc_msg alloc_buf fifos data (ucast len) p;
             s = s\<lparr>usys := on_port i (\<lambda>_. p\<lparr>uart_cb_len := ucast len\<rparr>) (usys s)\<rparr>
         in (if ret = 0 then sint len else 0, s)))"

definition luat_uart_read :: "int \<Rightarrow> bool \<Rightarrow> u32 \<Rightarrow> luat_uart_st \<Rightarrow> int \<times> u8 list \<times> luat_uart_st" where
  "luat_uart_read uartid nonnull len s =
     (if \<not> luat_uart_exist uartid then (0, [], s)
      else (let (ret, bs, p) = tls_uart_read nonnull (ucast len) (uart_port (usys s) ! nat uartid)
            in (ret, bs, s\<lparr>usys := on_port (nat uartid) (\<lambda>_. p) (usys s)\<rparr>)))"

definition luat_uart_close :: "int \<Rightarrow> luat_uart_st \<Rightarrow> luat_uart_st" where
  "luat_uart_close uartid s =
     (if \<not> luat_uart_exist uartid then s else s\<lparr>usys := on_port (nat uartid) (\<lambda>p. p\<lparr>is_485used := False\<rparr>) (usys s)\<rparr>)"

definition luat_setup_cb :: "int \<Rightarrow> bool \<Rightarrow> bool \<Rightarrow> luat_uart_st \<Rightarrow> int \<times> luat_uart_st" where
  "luat_setup_cb uartid received sent s =
     (if \<not> luat_uart_exist uartid then (- 1, s)
      else
        (let i = nat uartid;
             us = (if received then tls_uart_rx_callback_register i True (of_nat i) (usys s) else usys s);
             us = (if sent then tls_uart_tx_sent_callback_register i True us else us)
         in (0, s\<lparr>usys := us\<rparr>)))"

section \<open>What the runtime is told\<close>

text \<open>A write of 65536 bytes or more sends the low 16 bits of its length and reports the whole length.\<close>

lemma luat_write_truncated:
  assumes "0 \<le> uartid" "uartid < 6" "\<not> is_485used (uart_port (usys s) ! nat uartid)"
    and "length data = 65537"
  shows "fst (luat_uart_write wrt True True fifos uartid (Some data) 65537 s) = 65537 \<and>
    tls_uart_write True True fifos (Some data) (ucast (65537 :: u32)) p = tls_uart_write True True fifos (Some data) 1 p"
  using assms
  by (simp add: luat_uart_write_def luat_uart_exist_def Let_def tls_uart_write_def tls_uart_write_async_def tls_uart_fill_buf_def)

text \<open>A full ring is announced although no timeout came: the limit set up leaves at least 200 bytes of room.\<close>

lemma clamp_bufsz_range: "1024 \<le> clamp_bufsz n \<and> clamp_bufsz n \<le> 4096"
  by (auto simp: clamp_bufsz_def Let_def)

lemma input_announced:
  assumes "i < 6" "lens ! i = clamp_bufsz n" "ring_ok r" "3896 \<le> length (contents r)"
  shows "uart_input_cb lens (RxCall len (of_nat i) r) = [\<lparr>arg1 = of_nat i, arg2 = of_nat (length (contents r))\<rparr>]"
proof -
  have i: "unat (of_nat i :: u32) = i" "(of_nat i :: u32) < 100" using assms(1) by (simp_all add: unat_of_nat take_bit_eq_mod word_less_nat_alt)
  have "unat (clamp_bufsz n - 200) \<le> 3896"
    using clamp_bufsz_range [of n] by (auto simp: word_le_nat_alt unat_sub_if')
  then have "\<not> CIRC_CNT (head r) (tail r) < clamp_bufsz n - 200"
    using assms(4) by (simp add: word_less_nat_alt)
  then show ?thesis using i assms(2) by (simp add: uart_input_cb_def Let_def)
qed

end
