(* ===== verification/Slot_Pool.thy ===== *)
theory Slot_Pool
  imports Main
begin

text \<open>
  The contract of a driver that hands out numbered units of a peripheral, with a clock that runs while any unit is in use:
  DMA channels and hardware timers.  A client that gives back only what it holds never shares a unit.
\<close>

text \<open>Runs of such a driver, with the units held: \<open>g\<close> grabs a unit or finds none, \<open>r\<close> releases one.\<close>

inductive pool_run ::
  "('s \<Rightarrow> nat option \<Rightarrow> 's \<Rightarrow> bool) \<Rightarrow> (nat \<Rightarrow> 's \<Rightarrow> 's \<Rightarrow> bool) \<Rightarrow> 's \<Rightarrow> nat list \<Rightarrow> 's \<Rightarrow> nat list \<Rightarrow> bool"
  for g :: "'s \<Rightarrow> nat option \<Rightarrow> 's \<Rightarrow> bool" and r :: "nat \<Rightarrow> 's \<Rightarrow> 's \<Rightarrow> bool" and s :: 's and h :: "nat list" where
  idle: "pool_run g r s h s h"
| grabbed: "pool_run g r s h t hs \<Longrightarrow> g t (Some i) u \<Longrightarrow> pool_run g r s h u (i # hs)"
| refused: "pool_run g r s h t hs \<Longrightarrow> g t None u \<Longrightarrow> pool_run g r s h u hs"
| released: "pool_run g r s h t hs \<Longrightarrow> i \<in> set hs \<Longrightarrow> r i t u \<Longrightarrow> pool_run g r s h u (remove1 i hs)"

locale slot_pool =
  fixes inv :: "'s \<Rightarrow> bool" and used :: "'s \<Rightarrow> nat \<Rightarrow> bool" and powered :: "'s \<Rightarrow> bool" and slots :: nat
    and grab :: "'s \<Rightarrow> nat option \<Rightarrow> 's \<Rightarrow> bool" and release :: "nat \<Rightarrow> 's \<Rightarrow> 's \<Rightarrow> bool"
  assumes used_bound: "inv s \<Longrightarrow> used s i \<Longrightarrow> i < slots"
    and powered_iff: "inv s \<Longrightarrow> powered s \<longleftrightarrow> (\<exists>i. used s i)"
    and grab_Some: "inv s \<Longrightarrow> grab s (Some i) t \<Longrightarrow> inv t \<and> \<not> used s i \<and> used t = (used s)(i := True)"
    and grab_None: "inv s \<Longrightarrow> grab s None t \<Longrightarrow> t = s \<and> (\<forall>i < slots. used s i)"
    and release_used: "inv s \<Longrightarrow> used s i \<Longrightarrow> release i s t \<Longrightarrow> inv t \<and> used t = (used s)(i := False)"
begin

lemma run_held:
  assumes "pool_run grab release s h t hs" "inv s" "used s = (\<lambda>i. i \<in> set h)" "distinct h"
  shows "inv t \<and> used t = (\<lambda>i. i \<in> set hs) \<and> distinct hs"
  using assms
proof (induction rule: pool_run.induct)
  case (grabbed t hs i u)
  then show ?case using grab_Some [of t i u] by (auto simp: fun_eq_iff)
next
  case (refused t hs u)
  then show ?case using grab_None by blast
next
  case (released t hs i u)
  then show ?case using release_used [of t i u] by (auto simp: fun_eq_iff)
qed simp

lemma run_exclusive:
  assumes "pool_run grab release s [] t hs" "inv s" "\<And>i. \<not> used s i"
  shows "distinct hs \<and> set hs \<subseteq> {..<slots} \<and> (powered t \<longleftrightarrow> hs \<noteq> []) \<and> (\<forall>i u. grab t (Some i) u \<longrightarrow> i \<notin> set hs) \<and>
    (\<forall>u. grab t None u \<longrightarrow> set hs = {..<slots})"
proof -
  have i: "inv t" "used t = (\<lambda>i. i \<in> set hs)" "distinct hs"
    using run_held [OF assms(1,2)] assms(3) by (simp_all add: fun_eq_iff)
  then have "set hs \<subseteq> {..<slots}" using used_bound by auto
  moreover have "powered t \<longleftrightarrow> hs \<noteq> []" using powered_iff [OF i(1)] i(2) by (cases hs) auto
  moreover have "\<forall>i u. grab t (Some i) u \<longrightarrow> i \<notin> set hs" using grab_Some [OF i(1)] by (simp add: i(2))
  moreover have "\<forall>u. grab t None u \<longrightarrow> set hs = {..<slots}" using grab_None [OF i(1)] calculation(1) by (auto simp: i(2))
  ultimately show ?thesis using i(3) by blast
qed

end

end
