(* ===== verification/Hw_Timer_Correct.thy ===== *)
theory Hw_Timer_Correct
  imports Hw_Timer Slot_Pool Dma_Correct
begin

text \<open>
  Hardware timers and DMA channels are pools of units: the interpretations of \<open>slot_pool\<close> on both drivers, and what
  follows for the timers.
\<close>

definition timer_inv :: "'f hw_timers \<Rightarrow> bool" where
  "timer_inv s \<longleftrightarrow> length (timer_context s) = 6 \<and> (\<forall>i. bit (wm_timer_bitmap s) i \<longrightarrow> i < 6) \<and> (timer_clock s \<longleftrightarrow> wm_timer_bitmap s \<noteq> 0)"

lemma created_bit: "created s i \<longleftrightarrow> bit (wm_timer_bitmap s) i"
  by (simp only: created_def and_exp_eq_0_iff_not_bit push_bit_of_1 not_not)

lemma bitmap_set: "i < 8 \<Longrightarrow> bit ((w :: u8) OR push_bit i 1) m \<longleftrightarrow> bit w m \<or> m = i"
  by (auto simp: bit_or_iff push_bit_of_1 bit_exp_iff)

lemma bitmap_clear: "bit ((w :: u8) AND NOT (push_bit i 1)) m \<longleftrightarrow> bit w m \<and> m \<noteq> i"
  by (auto simp: bit_and_iff bit_not_iff push_bit_of_1 bit_exp_iff dest: bit_imp_le_length)

lemma bitmap_nonzero: "(w :: u8) \<noteq> 0 \<longleftrightarrow> (\<exists>i. bit w i)"
  using bit_imp_le_length [of w] by (auto simp: bit_eq_iff)

lemma write_CSR_sel [simp]:
  "wm_timer_bitmap (write_CSR wr v s) = wm_timer_bitmap s" "timer_context (write_CSR wr v s) = timer_context s"
  "timer_clock (write_CSR wr v s) = timer_clock s" "TIMER_PRD (write_CSR wr v s) = TIMER_PRD s"
  by (simp_all add: write_CSR_def)

lemma stop_sel [simp]:
  "wm_timer_bitmap (tls_timer_stop wr i s) = wm_timer_bitmap s" "timer_context (tls_timer_stop wr i s) = timer_context s"
  "timer_clock (tls_timer_stop wr i s) = timer_clock s" "TIMER_PRD (tls_timer_stop wr i s) = TIMER_PRD s"
  by (simp_all add: tls_timer_stop_def Let_def)

lemma create_cases:
  assumes "timer_inv s" "tls_timer_create wr apb cfg s = (tid, t)"
  obtains "tid = 0xFF" "t = s" "\<forall>i < 6. created s i"
  | i where "i < 6" "tid = of_nat i" "\<not> created s i" "\<forall>j < i. created s j" "timer_inv t" "created t = (created s)(i := True)"
      "timer_context t = (timer_context s)[i := callback cfg]" "TIMER_PRD t = (if timeout cfg \<noteq> 0 then (TIMER_PRD s)[i := timeout cfg] else TIMER_PRD s)"
proof (cases "find (\<lambda>i. \<not> created s i) [0..<6]")
  case None
  then have "\<forall>i < 6. created s i" by (auto simp: find_None_iff)
  moreover have "tid = 0xFF" "t = s" using assms(2) None by (simp_all add: tls_timer_create_def)
  ultimately show ?thesis using that(1) by blast
next
  case (Some i)
  then have i: "i < 6" "\<not> created s i" "\<forall>j < i. created s j" by (auto simp: find_Some_iff)
  have t: "t = snd (tls_timer_create wr apb cfg s)" "tid = fst (tls_timer_create wr apb cfg s)" using assms(2) by simp_all
  have b: "wm_timer_bitmap t = wm_timer_bitmap s OR push_bit i 1" "timer_clock t = (if wm_timer_bitmap s = 0 then True else timer_clock s)"
    "timer_context t = (timer_context s)[i := callback cfg]" "tid = of_nat i"
    "TIMER_PRD t = (if timeout cfg \<noteq> 0 then (TIMER_PRD s)[i := timeout cfg] else TIMER_PRD s)"
    using Some by (simp_all add: t tls_timer_create_def Let_def del: push_bit_of_1)
  have c: "created t = (created s)(i := True)" using i(1) by (auto simp: created_bit b(1) bitmap_set fun_eq_iff simp del: push_bit_of_1)
  then have "wm_timer_bitmap t \<noteq> 0" using bitmap_nonzero [of "wm_timer_bitmap t"] by (metis created_bit fun_upd_same)
  then have "timer_inv t" using assms(1) c i(1) b(2,3) by (auto simp: timer_inv_def created_bit [symmetric] split: if_splits)
  then show ?thesis using that(2) i b c by blast
qed

lemma destroy_inv:
  assumes "timer_inv s" "created s i"
  shows "timer_inv (tls_timer_destroy wr i s) \<and> created (tls_timer_destroy wr i s) = (created s)(i := False)"
proof -
  let ?t = "tls_timer_destroy wr i s"
  have b: "wm_timer_bitmap ?t = wm_timer_bitmap s AND NOT (push_bit i 1)" "length (timer_context ?t) = length (timer_context s)"
    "timer_clock ?t = (if wm_timer_bitmap ?t = 0 then False else timer_clock s)"
    using assms(2) by (simp_all add: tls_timer_destroy_def Let_def del: push_bit_of_1)
  have c: "created ?t = (created s)(i := False)" by (auto simp: created_bit b(1) bitmap_clear fun_eq_iff simp del: push_bit_of_1)
  have "wm_timer_bitmap s \<noteq> 0" using assms(2) bitmap_nonzero created_bit by blast
  then have "timer_inv ?t" using assms(1) b(2,3) c by (auto simp: timer_inv_def created_bit [symmetric] fun_eq_iff split: if_splits)
  then show ?thesis using c by blast
qed

definition timer_grab :: "'f hw_timers \<Rightarrow> nat option \<Rightarrow> 'f hw_timers \<Rightarrow> bool" where
  "timer_grab s r t \<longleftrightarrow> (\<exists>wr apb cfg tid. tls_timer_create wr apb cfg s = (tid, t) \<and>
     r = (if tid = WM_TIMER_ID_INVALID then None else Some (unat tid)))"

definition timer_release :: "nat \<Rightarrow> 'f hw_timers \<Rightarrow> 'f hw_timers \<Rightarrow> bool" where
  "timer_release i s t \<longleftrightarrow> (\<exists>wr. t = tls_timer_destroy wr i s)"

lemma timer_grab_cases:
  assumes "timer_inv s" "timer_grab s r t"
  shows "(r = None \<and> t = s \<and> (\<forall>i < 6. created s i)) \<or>
    (\<exists>i < 6. r = Some i \<and> \<not> created s i \<and> timer_inv t \<and> created t = (created s)(i := True))"
proof -
  obtain wr apb cfg tid where g: "tls_timer_create wr apb cfg s = (tid, t)" "r = (if tid = 0xFF then None else Some (unat tid))"
    using assms(2) by (auto simp: timer_grab_def)
  show ?thesis
  proof (rule create_cases [OF assms(1) g(1)])
    fix i assume i: "i < 6" "tid = of_nat i" "\<not> created s i" "timer_inv t" "created t = (created s)(i := True)"
    then have "unat tid = i" by (simp add: unat_of_nat take_bit_eq_mod)
    moreover then have "tid \<noteq> 0xFF" using i(1) by auto
    ultimately show ?thesis using g(2) i by auto
  qed (use g(2) in simp)
qed

interpretation timers: slot_pool timer_inv created timer_clock 6 timer_grab timer_release
proof unfold_locales
  fix s :: "'f hw_timers" and i t
  show "timer_inv s \<Longrightarrow> created s i \<Longrightarrow> i < 6" by (simp add: timer_inv_def created_bit)
  show "timer_inv s \<Longrightarrow> timer_clock s \<longleftrightarrow> (\<exists>i. created s i)" by (simp add: timer_inv_def created_bit bitmap_nonzero)
  show "timer_inv s \<Longrightarrow> timer_grab s (Some i) t \<Longrightarrow> timer_inv t \<and> \<not> created s i \<and> created t = (created s)(i := True)"
    using timer_grab_cases by fastforce
  show "timer_inv s \<Longrightarrow> timer_grab s None t \<Longrightarrow> t = s \<and> (\<forall>i < 6. created s i)"
    using timer_grab_cases by fastforce
  show "timer_inv s \<Longrightarrow> created s i \<Longrightarrow> timer_release i s t \<Longrightarrow> timer_inv t \<and> created t = (created s)(i := False)"
    using destroy_inv by (auto simp: timer_release_def)
qed

definition dma_grab :: "'f dma \<Rightarrow> nat option \<Rightarrow> 'f dma \<Rightarrow> bool" where
  "dma_grab s r t \<longleftrightarrow> (\<exists>ch flags tid. tls_dma_request ch flags s = (tid, t) \<and> r = (if tid = 0xFF then None else Some (unat tid)))"

definition dma_release :: "nat \<Rightarrow> 'f dma \<Rightarrow> 'f dma \<Rightarrow> bool" where
  "dma_release i s t \<longleftrightarrow> (\<exists>wr polls ch. unat ch = i \<and> tls_dma_free wr polls ch s = Some t)"

lemma dma_grab_cases:
  assumes "dma_inv s" "dma_grab s r t"
  shows "(r = None \<and> t = s \<and> (\<forall>i < 8. owned s i)) \<or>
    (\<exists>i < 8. r = Some i \<and> \<not> owned s i \<and> dma_inv t \<and> owned t = (owned s)(i := True))"
proof -
  obtain ch flags tid where g: "tls_dma_request ch flags s = (tid, t)" "r = (if tid = 0xFF then None else Some (unat tid))"
    using assms(2) by (auto simp: dma_grab_def)
  have l: "length (channels s) = 8" using assms(1) by (simp add: dma_inv_def)
  show ?thesis
  proof (cases "choice ch s")
    case None
    then have "\<forall>i < 8. owned s i" by (auto simp: choice_def find_None_iff split: if_splits)
    then show ?thesis using g request_eq [OF assms(1), of ch flags] None by simp
  next
    case (Some i)
    note c = choice_Some [OF l Some]
    have t: "tid = of_nat i" "t = grant i flags s" using g(1) request_eq [OF assms(1), of ch flags] Some by simp_all
    have "unat tid = i" using c(1) by (simp add: t(1) unat_of_nat take_bit_eq_mod)
    moreover then have "tid \<noteq> 0xFF" using c(1) by auto
    ultimately show ?thesis using g(2) c grant_inv [OF assms(1) c(1), of flags] t(2) by auto
  qed
qed

interpretation dma_pool: slot_pool dma_inv owned dma_clock 8 dma_grab dma_release
proof unfold_locales
  fix s :: "'f dma" and i t
  show "dma_inv s \<Longrightarrow> owned s i \<Longrightarrow> i < 8" by (simp add: owned_def)
  show "dma_inv s \<Longrightarrow> dma_clock s \<longleftrightarrow> (\<exists>i. owned s i)" by (simp add: dma_inv_def)
  show "dma_inv s \<Longrightarrow> dma_grab s (Some i) t \<Longrightarrow> dma_inv t \<and> \<not> owned s i \<and> owned t = (owned s)(i := True)"
    using dma_grab_cases by fastforce
  show "dma_inv s \<Longrightarrow> dma_grab s None t \<Longrightarrow> t = s \<and> (\<forall>i < 8. owned s i)"
    using dma_grab_cases by fastforce
  show "dma_inv s \<Longrightarrow> owned s i \<Longrightarrow> dma_release i s t \<Longrightarrow> dma_inv t \<and> owned t = (owned s)(i := False)"
    using free_inv by (fastforce simp: dma_release_def owned_def)
qed

text \<open>C30: Hardware timers are owned exclusively.  After any sequence of creations and destructions in which only timers that
  exist are destroyed, the timers handed out are different and among the six, the peripheral clock is on exactly while one
  exists, a further creation returns a timer that nobody has and installs its callback and period, and it fails, changing
  nothing, exactly when all six exist.\<close>

theorem hw_timers_exclusive:
  assumes "pool_run timer_grab timer_release s [] t hs" and "timer_inv s" and "wm_timer_bitmap s = 0"
  shows "distinct hs \<and> set hs \<subseteq> {..<6} \<and> (timer_clock t \<longleftrightarrow> hs \<noteq> []) \<and>
    (case tls_timer_create wr apb cfg t of (tid, u) \<Rightarrow>
       if set hs = {..<6} then tid = WM_TIMER_ID_INVALID \<and> u = t
       else unat tid < 6 \<and> unat tid \<notin> set hs \<and> timer_context u ! unat tid = callback cfg \<and> timer_clock u)"
proof -
  have z: "\<not> created s i" for i using assms(3) by (simp add: created_bit)
  note r = timers.run_held [OF assms(1,2)] and e = timers.run_exclusive [OF assms(1,2) z]
  have t: "timer_inv t" "created t = (\<lambda>i. i \<in> set hs)" using r z by (simp_all add: fun_eq_iff)
  obtain tid u where c: "tls_timer_create wr apb cfg t = (tid, u)" by fastforce
  have sub: "set hs \<subseteq> {..<6}" using e by blast
  have "if set hs = {..<6} then tid = 0xFF \<and> u = t
      else unat tid < 6 \<and> unat tid \<notin> set hs \<and> timer_context u ! unat tid = callback cfg \<and> timer_clock u"
  proof (rule create_cases [OF t(1) c])
    assume "tid = 0xFF" "u = t" "\<forall>i < 6. created t i"
    then show ?thesis using sub t(2) by auto
  next
    fix i assume i: "i < 6" "tid = of_nat i" "\<not> created t i" "timer_inv u" "created u = (created t)(i := True)"
      "timer_context u = (timer_context t)[i := callback cfg]"
    have u: "unat tid = i" using i(1,2) by (simp add: unat_of_nat take_bit_eq_mod)
    have "timer_clock u" using timers.powered_iff [OF i(4)] i(5) by auto
    then show ?thesis using u i t by (auto simp: timer_inv_def)
  qed
  then show ?thesis using e c by auto
qed

definition demo_timers :: "unit hw_timers" where
  "demo_timers = \<lparr>wm_timer_bitmap = 0, timer_context = replicate 6 None, TIMER_CFG = 0, TIMER_CSR = 0, TIMER_PRD = replicate 6 0,
     timer_clock = False, timer_irq = \<lparr>irqen_status = 0, nvic = {}\<rparr>\<rparr>"

definition demo_timer_cfg :: "unit tls_timer_cfg" where
  "demo_timer_cfg = \<lparr>unit_ms = True, timeout = 10, is_repeat = False, callback = Some ()\<rparr>"

theorem hw_timers_exclusive_witness:
  "case tls_timer_create (\<lambda>a b. b) 40 demo_timer_cfg (snd (tls_timer_create (\<lambda>a b. b) 40 demo_timer_cfg demo_timers)) of (tid, u) \<Rightarrow>
     unat tid < 6 \<and> unat tid \<noteq> 0 \<and> timer_clock u"
proof -
  let ?t = "snd (tls_timer_create (\<lambda>a b. b) 40 demo_timer_cfg demo_timers)"
  have c: "\<not> created demo_timers 0" by (simp add: created_def demo_timers_def)
  then have "find (\<lambda>i. \<not> created demo_timers i) [0..<6] = Some 0" by (simp add: upt_rec)
  then have f: "tls_timer_create (\<lambda>a b. b) 40 demo_timer_cfg demo_timers = (0, ?t)" by (simp add: tls_timer_create_def Let_def)
  have g: "timer_grab demo_timers (Some 0) ?t"
    unfolding timer_grab_def by (rule exI, rule exI, rule exI, rule exI [of _ 0], rule conjI, rule f) simp
  have r: "pool_run timer_grab timer_release demo_timers [] ?t [0]" by (rule pool_run.grabbed, rule pool_run.idle, rule g)
  moreover have "timer_inv demo_timers" "wm_timer_bitmap demo_timers = 0" by (simp_all add: timer_inv_def demo_timers_def)
  moreover have "(1 :: nat) \<in> {..<6}" "(1 :: nat) \<notin> set [0]" by simp_all
  then have "set [0] \<noteq> {..<6 :: nat}" by metis
  ultimately show ?thesis using hw_timers_exclusive [OF r, where wr = "\<lambda>a b. b" and apb = 40 and cfg = demo_timer_cfg] by (auto split: prod.splits)
qed

end
