(* ===== verification/Dl_List.thy ===== *)
theory Dl_List
  imports Main
begin

text \<open>
  The doubly linked lists of \<^verbatim>\<open>include/list.h\<close>, on a memory of \<^verbatim>\<open>next\<close> and \<^verbatim>\<open>prev\<close> pointers, and the refinement of lists of
  entries by them.  Address 0 is the null pointer.  The pointer updates are made one after the other, in the order of the
  code, so that an entry that is its own neighbour is handled as there.
\<close>

record dl_mem =
  nxt :: "nat \<Rightarrow> nat"
  prv :: "nat \<Rightarrow> nat"

definition set_next :: "nat \<Rightarrow> nat \<Rightarrow> dl_mem \<Rightarrow> dl_mem" where
  "set_next a v m = m\<lparr>nxt := (nxt m)(a := v)\<rparr>"

definition set_prev :: "nat \<Rightarrow> nat \<Rightarrow> dl_mem \<Rightarrow> dl_mem" where
  "set_prev a v m = m\<lparr>prv := (prv m)(a := v)\<rparr>"

definition dl_list_init :: "nat \<Rightarrow> dl_mem \<Rightarrow> dl_mem" where
  "dl_list_init l m = set_prev l l (set_next l l m)"

definition dl_list_add :: "nat \<Rightarrow> nat \<Rightarrow> dl_mem \<Rightarrow> dl_mem" where
  "dl_list_add l item m =
     (let m = set_next item (nxt m l) m;
          m = set_prev item l m;
          m = set_prev (nxt m l) item m
      in set_next l item m)"

definition dl_list_add_tail :: "nat \<Rightarrow> nat \<Rightarrow> dl_mem \<Rightarrow> dl_mem" where
  "dl_list_add_tail l item m = dl_list_add (prv m l) item m"

definition dl_list_del :: "nat \<Rightarrow> dl_mem \<Rightarrow> dl_mem" where
  "dl_list_del item m =
     (let m = set_prev (nxt m item) (prv m item) m;
          m = set_next (prv m item) (nxt m item) m;
          m = set_next item 0 m
      in set_prev item 0 m)"

definition dl_list_empty :: "nat \<Rightarrow> dl_mem \<Rightarrow> bool" where
  "dl_list_empty l m \<longleftrightarrow> nxt m l = l"

text \<open>The entry at the front, 0 if there is none; an entry stands for the structure that contains it.\<close>

definition dl_list_first :: "nat \<Rightarrow> dl_mem \<Rightarrow> nat" where
  "dl_list_first l m = (if dl_list_empty l m then 0 else nxt m l)"

definition dl_list_last :: "nat \<Rightarrow> dl_mem \<Rightarrow> nat" where
  "dl_list_last l m = (if dl_list_empty l m then 0 else prv m l)"

text \<open>The loop of \<^verbatim>\<open>dl_list_for_each\<close>: the entries visited from \<open>item\<close> on; \<open>None\<close> if it never comes back to the head.\<close>

partial_function (option) dl_list_for_each :: "nat \<Rightarrow> dl_mem \<Rightarrow> nat \<Rightarrow> nat list option" where
  "dl_list_for_each l m item =
     (if item = l then Some [] else Option.bind (dl_list_for_each l m (nxt m item)) (\<lambda>xs. Some (item # xs)))"

partial_function (option) dl_count :: "nat \<Rightarrow> dl_mem \<Rightarrow> nat \<Rightarrow> nat \<Rightarrow> nat option" where
  "dl_count l m item n = (if item = l then Some n else dl_count l m (nxt m item) (Suc n))"

definition dl_list_len :: "nat \<Rightarrow> dl_mem \<Rightarrow> nat option" where
  "dl_list_len l m = dl_count l m (nxt m l) 0"

section \<open>Segments and lists\<close>

text \<open>The entries \<open>xs\<close> lie between \<open>a\<close> and \<open>b\<close>, linked in both directions.\<close>

primrec seg :: "dl_mem \<Rightarrow> nat \<Rightarrow> nat list \<Rightarrow> nat \<Rightarrow> bool" where
  "seg m a [] b \<longleftrightarrow> nxt m a = b \<and> prv m b = a"
| "seg m a (x # xs) b \<longleftrightarrow> nxt m a = x \<and> prv m x = a \<and> seg m x xs b"

definition dl :: "dl_mem \<Rightarrow> nat \<Rightarrow> nat list \<Rightarrow> bool" where
  "dl m l xs \<longleftrightarrow> distinct (l # xs) \<and> 0 \<notin> set (l # xs) \<and> seg m l xs l"

lemma seg_append: "seg m a (xs @ y # ys) b \<longleftrightarrow> seg m a xs y \<and> seg m y ys b"
  by (induction xs arbitrary: a) auto

lemma seg_cong:
  "(\<And>x. x \<in> insert a (set xs) \<Longrightarrow> nxt m' x = nxt m x) \<Longrightarrow> (\<And>x. x \<in> insert b (set xs) \<Longrightarrow> prv m' x = prv m x) \<Longrightarrow>
   seg m' a xs b = seg m a xs b"
  by (induction xs arbitrary: a) auto

lemma seg_next: "seg m a xs b \<Longrightarrow> nxt m a = hd (xs @ [b])"
  by (cases xs) auto

lemma seg_prev: "seg m a xs b \<Longrightarrow> prv m b = last (a # xs)"
  by (induction xs arbitrary: a) auto

lemma updates [simp]:
  "nxt (set_next a v m) = (nxt m)(a := v)" "prv (set_next a v m) = prv m"
  "nxt (set_prev a v m) = nxt m" "prv (set_prev a v m) = (prv m)(a := v)"
  by (simp_all add: set_next_def set_prev_def)

text \<open>Linking a new entry after \<open>a\<close>, and unlinking one.\<close>

lemma seg_insert:
  assumes "seg m a xs b" "distinct xs" "item \<notin> insert a (insert b (set xs))" "a \<notin> set xs" "b \<notin> set xs"
  shows "seg (dl_list_add a item m) a (item # xs) b"
proof (cases xs)
  case Nil
  then show ?thesis using assms by (auto simp: dl_list_add_def Let_def)
next
  case (Cons y ys)
  let ?m = "dl_list_add a item m"
  have m: "nxt ?m = (nxt m)(item := y, a := item)" "prv ?m = (prv m)(item := a, y := item)"
    using assms Cons by (simp_all add: dl_list_add_def Let_def)
  have "seg ?m y ys b = seg m y ys b" using assms Cons by (intro seg_cong) (auto simp: m)
  then show ?thesis using assms Cons by (auto simp: m)
qed

lemma seg_delete:
  assumes "seg m a (us @ x # vs) b" "distinct (us @ x # vs)" "a \<notin> set (us @ x # vs)" "b \<notin> set (us @ x # vs)"
  shows "seg (dl_list_del x m) a (us @ vs) b"
proof -
  let ?m = "dl_list_del x m"
  define p where "p = last (a # us)"
  define n where "n = hd (vs @ [b])"
  have s: "seg m a us x" "seg m x vs b" using assms(1) by (simp_all add: seg_append)
  have px: "prv m x = p" "nxt m x = n" using seg_prev [OF s(1)] seg_next [OF s(2)] by (simp_all add: p_def n_def)
  have pn: "p \<in> insert a (set us)" "n \<in> insert b (set vs)" by (auto simp: p_def n_def intro: last_in_set) (cases vs; auto)+
  have ne: "x \<noteq> n" "x \<noteq> p" using pn assms by auto
  have m: "nxt ?m = (nxt m)(p := n, x := 0)" "prv ?m = (prv m)(n := p, x := 0)"
    using px ne by (simp_all add: dl_list_del_def Let_def)
  show ?thesis
  proof (cases vs)
    case Nil
    then have n: "n = b" by (simp add: n_def)
    show ?thesis
    proof (cases us rule: rev_cases)
      case (snoc us' y)
      then have "p = y" by (simp add: p_def)
      moreover have "seg ?m a us' y = seg m a us' y"
        using assms snoc Nil by (intro seg_cong) (auto simp: m n \<open>p = y\<close>)
      ultimately show ?thesis using s assms snoc Nil n by (auto simp: seg_append m)
    qed (use s assms Nil n in \<open>auto simp: m p_def\<close>)
  next
    case (Cons z zs)
    then have n: "n = z" by (simp add: n_def)
    have z: "seg ?m z zs b = seg m z zs b" using assms Cons pn by (intro seg_cong) (auto simp: m n)
    show ?thesis
    proof (cases us rule: rev_cases)
      case (snoc us' y)
      then have "p = y" by (simp add: p_def)
      moreover have "seg ?m a us' y = seg m a us' y"
        using assms snoc Cons by (intro seg_cong) (auto simp: m n \<open>p = y\<close>)
      ultimately show ?thesis using s assms snoc Cons n z by (auto simp: seg_append m)
    qed (use s assms Cons n z in \<open>auto simp: m p_def\<close>)
  qed
qed

section \<open>The operations on lists\<close>

lemma for_each_seg: "seg m a xs l \<Longrightarrow> l \<notin> set xs \<Longrightarrow> dl_list_for_each l m (nxt m a) = Some xs"
proof (induction xs arbitrary: a)
  case Nil
  then show ?case by (subst dl_list_for_each.simps) simp
next
  case (Cons x xs)
  then show ?case by (subst dl_list_for_each.simps) simp
qed

lemma count_seg: "seg m a xs l \<Longrightarrow> l \<notin> set xs \<Longrightarrow> dl_count l m (nxt m a) n = Some (n + length xs)"
proof (induction xs arbitrary: a n)
  case Nil
  then show ?case by (subst dl_count.simps) simp
next
  case (Cons x xs)
  then show ?case by (subst dl_count.simps) simp
qed

lemma dl_init: "l \<noteq> 0 \<Longrightarrow> dl (dl_list_init l m) l []"
  by (simp add: dl_def dl_list_init_def)

lemma dl_neighbours: "dl m l xs \<Longrightarrow> nxt m l = hd (xs @ [l]) \<and> prv m l = last (l # xs)"
  by (simp add: dl_def seg_next seg_prev del: last.simps)

lemma dl_empty_iff: "dl m l xs \<Longrightarrow> dl_list_empty l m \<longleftrightarrow> xs = []"
proof -
  assume d: "dl m l xs"
  then have "nxt m l = hd (xs @ [l])" "l \<notin> set xs" using dl_neighbours by (blast, simp add: dl_def)
  then show ?thesis unfolding dl_list_empty_def by (cases xs) auto
qed

lemma dl_add: "dl m l xs \<Longrightarrow> item \<notin> set (l # xs) \<Longrightarrow> item \<noteq> 0 \<Longrightarrow> dl (dl_list_add l item m) l (item # xs)"
  using seg_insert [of m l xs l item] by (auto simp: dl_def)

lemma dl_add_tail:
  assumes "dl m l xs" "item \<notin> set (l # xs)" "item \<noteq> 0"
  shows "dl (dl_list_add_tail l item m) l (xs @ [item])"
proof (cases xs rule: rev_cases)
  case Nil
  then show ?thesis using assms dl_add dl_neighbours [OF assms(1)] by (simp add: dl_list_add_tail_def)
next
  case (snoc us y)
  let ?m = "dl_list_add y item m"
  have t: "dl_list_add_tail l item m = ?m" using dl_neighbours [OF assms(1)] snoc by (simp add: dl_list_add_tail_def)
  have s: "seg m l us y" "seg m y [] l" using assms(1) snoc by (simp_all add: dl_def seg_append)
  have "seg ?m y [item] l" using seg_insert [OF s(2), of item] assms snoc by (auto simp: dl_def)
  moreover have "seg ?m l us y = seg m l us y"
    using assms snoc s(2) by (intro seg_cong) (auto simp: dl_list_add_def Let_def dl_def)
  ultimately show ?thesis using assms s snoc t by (auto simp: dl_def seg_append)
qed

lemma dl_del:
  assumes "dl m l xs" "x \<in> set xs"
  shows "dl (dl_list_del x m) l (remove1 x xs)"
proof -
  obtain us vs where xs: "xs = us @ x # vs" "x \<notin> set us" using split_list_first [OF assms(2)] by blast
  then show ?thesis using assms seg_delete [of m l us x vs l] by (auto simp: dl_def remove1_append)
qed

text \<open>Other lists are not touched.\<close>

lemma dl_frame_add:
  assumes "dl m l xs" "dl m k ys" "set (l # xs) \<inter> set (k # ys) = {}" "item \<notin> set (k # ys)"
  shows "dl (dl_list_add l item m) k ys" "dl (dl_list_add_tail l item m) k ys"
proof -
  have n: "nxt m l \<in> set (l # xs)" "prv m l \<in> set (l # xs)"
    using dl_neighbours [OF assms(1)] by (cases xs; auto)+
  have nn: "y \<in> set (l # xs) \<Longrightarrow> nxt m y \<in> set (l # xs)" for y
  proof -
    have "seg m a zs b \<Longrightarrow> y \<in> insert a (set zs) \<Longrightarrow> nxt m y \<in> insert b (set zs)" for a zs b
      by (induction zs arbitrary: a) auto
    then show "y \<in> set (l # xs) \<Longrightarrow> nxt m y \<in> set (l # xs)" using assms(1) by (fastforce simp: dl_def)
  qed
  have add: "dl (dl_list_add y item m) k ys" if y: "y \<in> set (l # xs)" for y
  proof -
    have d: "y \<notin> set (k # ys)" "nxt m y \<notin> set (k # ys)" using assms(3) y nn [OF y] by blast+
    have "seg (dl_list_add y item m) k ys k = seg m k ys k"
      using assms(4) d by (intro seg_cong) (auto simp: dl_list_add_def Let_def)
    then show ?thesis using assms(2) by (simp add: dl_def)
  qed
  then show "dl (dl_list_add l item m) k ys" "dl (dl_list_add_tail l item m) k ys"
    using n(2) by (simp_all add: dl_list_add_tail_def)
qed

lemma dl_frame_del:
  assumes "dl m l xs" "x \<in> set xs" "dl m k ys" "set (l # xs) \<inter> set (k # ys) = {}"
  shows "dl (dl_list_del x m) k ys"
proof -
  obtain us vs where xs: "xs = us @ x # vs" using assms(2) by (auto dest: split_list)
  have s: "seg m l us x" "seg m x vs l" using assms(1) xs by (simp_all add: dl_def seg_append)
  have p: "prv m x \<in> set (l # xs)" "nxt m x \<in> set (l # xs)"
    using seg_prev [OF s(1)] seg_next [OF s(2)] xs by (auto simp: last_in_set) (cases vs; auto)+
  then have d: "prv m x \<notin> set (k # ys)" "nxt m x \<notin> set (k # ys)" "x \<notin> set (k # ys)" using assms(2,4) by auto
  have "seg (dl_list_del x m) k ys k = seg m k ys k"
    using d by (intro seg_cong) (auto simp: dl_list_del_def Let_def)
  then show ?thesis using assms(3) by (simp add: dl_def)
qed

section \<open>The interface\<close>

text \<open>What the users of the lists rely on: a list head holds a sequence of entries, its operations change that sequence and no
  other one.  The transmit queue of the serial driver moves the first entry of one list to the end of another.\<close>

locale entry_lists =
  fixes holds :: "'m \<Rightarrow> nat \<Rightarrow> nat list \<Rightarrow> bool" and add_tail :: "nat \<Rightarrow> nat \<Rightarrow> 'm \<Rightarrow> 'm" and del :: "nat \<Rightarrow> 'm \<Rightarrow> 'm"
    and first :: "nat \<Rightarrow> 'm \<Rightarrow> nat"
  assumes holds_valid: "holds m l xs \<Longrightarrow> distinct (l # xs) \<and> 0 \<notin> set (l # xs)"
    and holds_add: "holds m l xs \<Longrightarrow> x \<notin> set (l # xs) \<Longrightarrow> x \<noteq> 0 \<Longrightarrow> holds (add_tail l x m) l (xs @ [x])"
    and holds_del: "holds m l xs \<Longrightarrow> x \<in> set xs \<Longrightarrow> holds (del x m) l (remove1 x xs)"
    and frame_add: "holds m l xs \<Longrightarrow> holds m k ys \<Longrightarrow> set (l # xs) \<inter> set (k # ys) = {} \<Longrightarrow> x \<notin> set (k # ys) \<Longrightarrow> holds (add_tail l x m) k ys"
    and frame_del: "holds m l xs \<Longrightarrow> x \<in> set xs \<Longrightarrow> holds m k ys \<Longrightarrow> set (l # xs) \<inter> set (k # ys) = {} \<Longrightarrow> holds (del x m) k ys"
    and first_holds: "holds m l xs \<Longrightarrow> first l m = (if xs = [] then 0 else hd xs)"
begin

lemma move_first:
  assumes "holds m p (x # xs)" "holds m f ys" "set (p # x # xs) \<inter> set (f # ys) = {}"
  shows "holds (add_tail f (first p m) (del (first p m) m)) p xs \<and> holds (add_tail f (first p m) (del (first p m) m)) f (ys @ [x])"
proof -
  have x: "first p m = x" using first_holds [OF assms(1)] by simp
  have v: "distinct (p # x # xs)" "0 \<notin> set (p # x # xs)" using holds_valid [OF assms(1)] by simp_all
  have d: "holds (del x m) p xs" using holds_del [OF assms(1), of x] by simp
  have f: "holds (del x m) f ys" using frame_del [OF assms(1) _ assms(2,3), of x] by simp
  have "holds (add_tail f x (del x m)) p xs" using frame_add [OF f d, of x] assms(3) v by auto
  moreover have "holds (add_tail f x (del x m)) f (ys @ [x])" using holds_add [OF f, of x] assms(3) v by auto
  ultimately show ?thesis by (simp add: x)
qed

end

lemma dl_first: "dl m l xs \<Longrightarrow> dl_list_first l m = (if xs = [] then 0 else hd xs)"
  using dl_neighbours [of m l xs] dl_empty_iff [of m l xs] by (auto simp: dl_list_first_def)

lemma dl_last: "dl m l xs \<Longrightarrow> dl_list_last l m = (if xs = [] then 0 else last xs)"
  using dl_neighbours [of m l xs] dl_empty_iff [of m l xs] by (auto simp: dl_list_last_def)

interpretation dll: entry_lists dl dl_list_add_tail dl_list_del dl_list_first
  by unfold_locales
    (simp_all add: dl_add_tail dl_del dl_first dl_frame_add(2) dl_frame_del del: list.set, simp add: dl_def)

text \<open>C10: The doubly linked lists are lists.  When a head with its entries forms a list, the loops over it end and visit exactly
  its entries in order, the length, the first and the last entry are those of the list, insertion at either end and deletion
  of any entry change it as they change a list, and two lists without a common entry stay independent.  Moving the first
  entry of one list to the end of another, as the serial driver does with its messages, moves it in the list.\<close>

theorem dl_list_refines:
  assumes "dl m l xs" and "dl m k ys" and "set (l # xs) \<inter> set (k # ys) = {}"
  shows "dl_list_for_each l m (nxt m l) = Some xs \<and> dl_list_len l m = Some (length xs) \<and>
    (dl_list_empty l m \<longleftrightarrow> xs = []) \<and> (xs \<noteq> [] \<longrightarrow> dl_list_first l m = hd xs \<and> dl_list_last l m = last xs) \<and>
    (\<forall>x. x \<noteq> 0 \<longrightarrow> x \<notin> set (l # xs) \<longrightarrow> x \<notin> set (k # ys) \<longrightarrow>
      dl (dl_list_add l x m) l (x # xs) \<and> dl (dl_list_add_tail l x m) l (xs @ [x]) \<and>
      dl (dl_list_add l x m) k ys \<and> dl (dl_list_add_tail l x m) k ys) \<and>
    (\<forall>x \<in> set xs. dl (dl_list_del x m) l (remove1 x xs) \<and> dl (dl_list_del x m) k ys) \<and>
    (xs \<noteq> [] \<longrightarrow>
      (let x = dl_list_first l m; m' = dl_list_add_tail k x (dl_list_del x m) in dl m' l (tl xs) \<and> dl m' k (ys @ [hd xs])))"
proof -
  have s: "seg m l xs l" "l \<notin> set xs" using assms(1) by (simp_all add: dl_def)
  have "dl_list_for_each l m (nxt m l) = Some xs" "dl_list_len l m = Some (length xs)"
    using for_each_seg [OF s] count_seg [OF s, of 0] by (simp_all add: dl_list_len_def)
  moreover have "xs \<noteq> [] \<Longrightarrow> dl m l (hd xs # tl xs)" using assms(1) by simp
  then have "xs \<noteq> [] \<Longrightarrow> (let x = dl_list_first l m; m' = dl_list_add_tail k x (dl_list_del x m) in dl m' l (tl xs) \<and> dl m' k (ys @ [hd xs]))"
    using dll.move_first [of m l "hd xs" "tl xs" k ys] assms(2,3) by (simp add: Let_def)
  ultimately show ?thesis
    using dl_empty_iff [OF assms(1)] dl_first [OF assms(1)] dl_last [OF assms(1)] dl_add [OF assms(1)] dl_add_tail [OF assms(1)]
      dl_del [OF assms(1)] dl_frame_add [OF assms] dl_frame_del [OF assms(1) _ assms(2,3)]
    by simp
qed

theorem dl_list_refines_witness:
  "dl_list_for_each 1 (dl_list_add_tail 1 3 (dl_list_init 1 (dl_list_init 2 \<lparr>nxt = \<lambda>_. 0, prv = \<lambda>_. 0\<rparr>)))
     (nxt (dl_list_add_tail 1 3 (dl_list_init 1 (dl_list_init 2 \<lparr>nxt = \<lambda>_. 0, prv = \<lambda>_. 0\<rparr>))) 1) = Some [3]"
proof -
  let ?m = "dl_list_add_tail 1 3 (dl_list_init 1 (dl_list_init 2 \<lparr>nxt = \<lambda>_. 0, prv = \<lambda>_. 0\<rparr>))"
  have "dl ?m 1 [3]" "dl ?m 2 []"
    by (simp_all add: dl_def dl_list_add_tail_def dl_list_add_def dl_list_init_def Let_def)
  then show ?thesis using dl_list_refines [of ?m 1 "[3]" 2 "[]"] by simp
qed

end
