(* ===== verification/Spec2Isabelle.thy ===== *)
theory Spec2Isabelle
  imports Spi_Flash_Nor Efuse_Correct Storage_Correct Crypto_Crc Param_Props Strings_Correct Task_Correct Fwup_Correct Packer_Correct Dma_Correct Crypto_Digest_Correct Crypto_Rsa_Props Crypto_Cipher Gpio_Correct Afsel Pmu Luat_Uart Hw_Timer_Correct Dl_List
begin

text \<open>
  \<^bold>\<open>Verification of the Air101 board support\<close>

  The repository is the firmware for the Air101/Air103/Air601 family of microcontrollers: the vendor's platform code
  (\<^verbatim>\<open>platform/\<close>), drivers for the peripherals, and the port of the Lua runtime to it (\<^verbatim>\<open>app/port/\<close>).  This library
  models the storage and its users, the task layer and the drivers: flash, both kinds, with the parameters, updates, calibration data and
  file system kept in it; checksums, digests and modular exponentiation; timers, mailboxes and tasks; the serial ports, SPI, pins, DMA
  channels, hardware timers, power management and clock; and the host tool that builds the images.

  \<^bold>\<open>How the parts interact.\<close>  The flash driver is below everything that is stored.  The parameter manager keeps two
  copies of a block of parameters, each sealed with a CRC, in two flash partitions whose addresses the driver derives from the
  density of the chip.  The firmware update module receives an image in
  requests, checks its header, stores it through the driver's fast-write path, reads it back and compares the CRC of the hardware unit.
  The update over the air of the Lua runtime buffers a package, stores it with ordinary writes, verifies it through the
  memory-mapped window, and at the next start unpacks its scripts.  Calibration data has two copies too, restored from each other at
  start-up; the file system of the runtime uses the flash as a block device.  The external flash is a slave of the SPI driver.  The task layer runs
  callbacks from mailboxes and timers.  Drivers with interrupts share their state with handlers, which the
  theories interleave explicitly.

  \<^bold>\<open>Theories and sources.\<close>  Directories are below \<^verbatim>\<open>src/\<close>.

    \<^item> \<open>Prelude\<close>: words, byte lists and memories as functions: \<open>span\<close> reads a range, \<open>blit\<close> writes one, \<open>overlay\<close> is \<^verbatim>\<open>memcpy\<close>;
      little-endian access; the collection \<open>bytes_simps\<close>.

    \<^item> \<open>Internal_Flash\<close>: \<^verbatim>\<open>platform/drivers/internalflash/wm_internal_fls.c\<close>.  The driver's variables are the record \<open>fls\<close>,
      the controller and the chip behind it a parameter \<open>hw\<close> that executes a command word; each operation of the
      driver is a function on \<open>fls\<close>.  \<open>Internal_Flash_Correct\<close> states what a NOR flash does with the commands as the locale
      \<open>nor_flash\<close> and proves reads, writes and erasure correct in it; \<open>Internal_Flash_Fast\<close> adds the fast-write path, chip
      erasure and initialisation.  \<open>Nor_Chip\<close> is an executable chip that interprets the locale, and holds C1, C2, C5 (the
      fast-write session), C7 (initialisation) and C9 (chip erasure).
      \<open>Flash_Otp\<close>, \<open>Flash_Otp_Correct\<close>: block protection, security registers and identifiers, with the locale \<open>otp_flash\<close> (C8, C23).

    \<^item> \<open>Storage\<close>, \<open>Storage_Correct\<close>: the storage ports of the runtime in \<^verbatim>\<open>app/port/\<close>; the block device of the file system
      refines a NOR device of blocks, the locale \<open>block_dev\<close> (C18).  \<open>Efuse\<close>, \<open>Efuse_Correct\<close>: \<^verbatim>\<open>platform/drivers/efuse/wm_efuse.c\<close>; round
      trips of the calibration parameters (C13).  \<open>Flash_Trace\<close> makes a chip log its contents after every command, and bounds the trace
      of a write: a power failure during any command of \<^verbatim>\<open>tls_ft_param_set\<close> leaves the old or the new block (C6).

    \<^item> \<open>Crc\<close>: the checksums of \<^verbatim>\<open>platform/common/utils/utils.c\<close>, table-driven and bit-parallel, equal to one
      polynomial reference \<open>crc_ref\<close> (C11).  \<open>Crypto_Crc\<close>: the CRC part of \<^verbatim>\<open>platform/common/crypto/wm_crypto_hard.c\<close>;
      the locale \<open>crc_unit\<close> says what the unit computes, \<open>ref_engine\<close> interprets it (C14).

    \<^item> \<open>Crypto_Digest\<close>, \<open>Crypto_Digest_Correct\<close>: SHA-1 and MD5 of the same file; \<open>md_hash\<close> is the buffering common to both (C4).
      \<open>Crypto_Cipher\<close>: the block and stream ciphers and the random number generator.  \<open>Crypto_Rsa\<close>,
      \<open>Crypto_Rsa_Correct\<close>, \<open>Crypto_Rsa_Props\<close>: modular exponentiation by Montgomery
      products; the locales \<open>mp_library\<close> and \<open>rsa_unit\<close> state what the number library and the unit compute, \<open>rsa_driver\<close> joins
      them (C3).  Bits of the exponent are read with a 16-bit index, so it has at most 32768 bits.

    \<^item> \<open>C_Layout\<close>, \<open>Param_Image\<close>, \<open>Param_Layout\<close>: structures as byte images with the offsets and padding a C compiler gives
      them, and the parameter block of \<^verbatim>\<open>platform/common/params/wm_param.h\<close> and \<^verbatim>\<open>include/platform/wm_params.h\<close>.
      \<open>Param\<close>, \<open>Param_Factory\<close>: every operation of \<^verbatim>\<open>platform/common/params/wm_param.c\<close>.  \<open>Param_Correct\<close> and \<open>Param_Props\<close>: the
      locale \<open>keyed_store\<close> for set and get, recovery at start-up, persistence (C15 to C17).

    \<^item> \<open>Strings\<close>, \<open>Strings_Correct\<close>: the conversions of \<^verbatim>\<open>utils.c\<close> (C21).  \<open>Dl_List\<close>: the lists of \<^verbatim>\<open>list.h\<close> on an explicit store
      of pointers refine lists, the locale \<open>entry_lists\<close> (C10).

    \<^item> \<open>Timers\<close>, \<open>Timers_Correct\<close>: \<^verbatim>\<open>platform/common/task/wm_wl_timers.c\<close> and \<^verbatim>\<open>wm_wl_mbox.c\<close>; the delta list refines
      a queue of deadlines (C25, C26), and a waiting task calls its handlers at their deadlines, over a mailbox with a clock, the locale \<open>timed_box\<close> (C27).  \<open>Task\<close>,
      \<open>Task_Correct\<close>: \<^verbatim>\<open>wm_wl_task.c\<close>; in the runs of producers and the thread, an inductive relation, the accepted calls run in order (C29).

    \<^item> \<open>Fwup\<close>, \<open>Fwup_Correct\<close>: \<^verbatim>\<open>platform/common/fwup/wm_fwup.c\<close>.  The structure \<^verbatim>\<open>tls_fwup\<close> is the record \<open>fwup_t\<close> behind a pointer
      that may be null, live or freed; \<open>fsys\<close> adds the list of requests, the header buffer and the parameter
      manager's state.  Which headers pass (C32), that an image fed in any division is stored and verified (C33); also that sessions
      are exclusive, and the use of freed memory after a failed initialisation.

    \<^item> \<open>Fota\<close>, \<open>Fota_Correct\<close>, \<open>Fota_Store\<close>: \<^verbatim>\<open>app/port/luat_fota_air101.c\<close>.  Storing and accepting a package (C36),
      unpacking it at start-up, by refinement of a reference that does not depend on the division of the stream (C37), the
      package being read through the mapped window while scripts are written; the loss of packages with scripts only.

    \<^item> \<open>Irq\<close>, \<open>Uart\<close>: \<^verbatim>\<open>platform/drivers/uart/wm_uart.c\<close>.  \<open>Uart_Correct\<close>: the receive ring as the locale \<open>byte_fifo\<close>, and reads
      with interrupts between any two accesses (C22); \<open>Uart_Ports\<close>: the other ports (C24); \<open>Uart_Tx\<close>: the
      order of the transmit queue, and that it drains, one interrupt for as many bytes as the FIFO has room (C20, C28); \<open>Uart_Props\<close>: well-formedness and the divider (C35, C38).  \<open>Luat_Uart\<close>:
      \<^verbatim>\<open>app/port/luat_uart_air101.c\<close>.

    \<^item> \<open>Dma\<close>, \<open>Dma_Correct\<close>: \<^verbatim>\<open>platform/drivers/dma/wm_dma.c\<close> (C39).  \<open>Hw_Timer\<close>, \<open>Hw_Timer_Correct\<close>: \<^verbatim>\<open>platform/drivers/timer/wm_timer.c\<close> (C30).
      Both hand out numbered slots and gate a clock: the locale \<open>slot_pool\<close> of \<open>Slot_Pool\<close>.

    \<^item> \<open>Io\<close>, \<open>Gpio\<close>, \<open>Gpio_Correct\<close>: \<^verbatim>\<open>platform/drivers/io/wm_io.c\<close>, \<^verbatim>\<open>platform/drivers/gpio/wm_gpio.c\<close> and \<^verbatim>\<open>app/port/luat_gpio_air101.c\<close>; each pending
      pin is served once (C12), options are read back (C19).  \<open>Afsel\<close>: \<^verbatim>\<open>wm_gpio_afsel.c\<close>, every pin function as a table.
      \<open>Pmu\<close>: power management, the calendar clock and the time functions of the runtime.

    \<^item> \<open>Spi\<close>, \<open>Spi_Correct\<close>, \<open>Spi_Props\<close>: \<^verbatim>\<open>platform/drivers/spi/wm_hostspi.c\<close>.  Task, interrupt and submitters serve the messages in
      order while the peripheral clock is open, over any serial unit that satisfies the locale \<open>spi_unit\<close> (C31).  \<open>Spi_Flash\<close>, \<open>Spi_Flash_Correct\<close>:
      \<^verbatim>\<open>platform/drivers/flash/wm_fls.c\<close> and \<^verbatim>\<open>wm_fls_gd25qxx.c\<close> over a bus with a NOR chip, the locale \<open>spi_nor\<close> (C34).  \<open>Spi_Flash_Nor\<close> interprets it with
      the operations of \<open>Spi\<close> and a chip that understands bytes: the two drivers composed.

    \<^item> \<open>Packer\<close>, \<open>Packer_Correct\<close>: the checksums and the image writers of the host tool \<^verbatim>\<open>tools/xt804/wm_tool.c\<close>; its table is the
      one of the reference polynomial, and the images it writes pass the checks of the update over the air, and of the firmware update module
      under conditions that are stated (C40).  The length of the file is a signed \<^verbatim>\<open>int\<close>; its overflow is \<open>None\<close>.

  \<^bold>\<open>Conventions.\<close>  Machine integers are words of their width, so that sums wrap as in C.  Results of allocation, creation
  of semaphores and queues, random numbers and what a busy wait reads are arguments.  Error codes are
  returned as the code returns them.  \<open>None\<close> stands for behaviour the code does not control: an access through a null or
  freed pointer, a write beyond an array, or a wait that never ends.  Defects found while modelling are lemmas at the end of the
  theory of their component.

  \<^bold>\<open>Parameters and what is assumed of them.\<close>  The flash chips (\<open>nor_flash\<close>, \<open>nor_flash_sr\<close>, \<open>otp_flash\<close>, \<open>spi_nor\<close>: erase sets bits, program
  clears them, reads return contents, the identifier gives the size), the CRC unit (\<open>crc_unit\<close>), the compression functions of the digests, which
  are arbitrary, the number library and the multiplier (\<open>mp_library\<close>, \<open>rsa_unit\<close>), the serial unit of SPI (\<open>spi_unit\<close>), the
  memory-mapped window (\<open>maps_flash\<close>), the decompressor (\<open>inflates\<close>: its run on the input ends), the queue of the operating system and the effect of
  callbacks.  Each property that rests on one of them has a witness on a concrete instance.

  \<^bold>\<open>Termination.\<close>  Loops are structural or have a measure: pages and sectors left, bytes left to copy or to check, requests
  waiting.  The copy loop of the update over the air counts the remaining bytes twice and a full buffer once, since
  an iteration may copy nothing when it only writes the buffer out.  Loops that wait for a handler, another task, foreign code or the
  status of a chip are partial functions; C27, C31, C34 and C37 state that they return.

  \<^bold>\<open>Not modelled.\<close>  The drivers of I2C, I2S, the SPI slave, SDIO, ISO 7816, PWM, ADC, touch sensor, LCD, watchdog, PSRAM and CPU clock, which write
  registers whose effect is that of the hardware; the heap, which is a wrapper of foreign allocators; the bindings of the Lua
  runtime other than the ones above; FreeRTOS, NimBLE, littlefs, mbedTLS and lwIP and the demonstrations on top of them, which are
  third-party code; the boot loader reconstruction, and of the host tool its options, the download over a serial line and the
  deflate code, which are not part of the firmware.
  Log output, watchdog resets and critical sections (operations are atomic unless their interleaving
  is modelled) are left out.
\<close>

end
